(* ===== verification/Mangling_Prelude.thy ===== *)
theory Mangling_Prelude
  imports Main "HOL-Library.Signed_Division" "HOL-Library.Monad_Syntax"
begin

text \<open>
  Shared material of the development: C++ machine integers, characters as bytes, decimal
  numerals as the printers write them, the option monad that carries aborted executions, and the
  interface locales for codecs.

  \<^item> A C++ \<open>int\<close> is an HOL \<open>int\<close>; every addition, subtraction or multiplication that can leave
    the 32-bit range goes through \<open>wrap32\<close> (two's complement, what the compiled code does; the
    standard leaves signed overflow undefined). Unsigned values are \<open>nat\<close> with the modulus
    written out.
  \<^item> A \<open>char\<close> of a \<open>StringRef\<close> is an HOL \<^typ>\<open>char\<close>, a byte; \<open>ord\<close> is its value as an
    \<open>unsigned char\<close>.
  \<^item> The result \<open>None\<close> of a partial operation stands for a failed \<open>assert\<close>, an
    \<open>unreachable\<close>, a null dereference, an out-of-range access or a hardware trap: the
    process does not continue.
\<close>

named_theorems char_defs \<open>definitions of the character classes\<close>

section \<open>Machine integers\<close>

definition wrap32 :: "int \<Rightarrow> int" where
  "wrap32 x = signed_take_bit 31 x"

lemma wrap32_id [simp]: "- 2147483648 \<le> x \<Longrightarrow> x < 2147483648 \<Longrightarrow> wrap32 x = x"
  by (simp add: wrap32_def signed_take_bit_int_eq_self)

lemma wrap32_range: "- 2147483648 \<le> wrap32 x \<and> wrap32 x < 2147483648"
  using signed_take_bit_int_greater_eq_minus_exp [of 31 x] signed_take_bit_int_less_exp [of 31 x]
  by (simp add: wrap32_def)

text \<open>Division of non-negative values: truncation and rounding down agree.\<close>

lemma sdiv_nonneg [simp]: "0 \<le> a \<Longrightarrow> 0 < b \<Longrightarrow> (a :: int) sdiv b = a div b"
  by (cases "a = 0") (simp_all add: signed_divide_int_def)

lemma smod_nonneg [simp]: "0 \<le> a \<Longrightarrow> 0 < b \<Longrightarrow> (a :: int) smod b = a mod b"
  by (cases "a = 0") (simp_all add: signed_modulo_int_def)

text \<open>The conversion of an \<open>int\<close> to \<open>size_t\<close> or \<open>uint64_t\<close>.\<close>

definition u64 :: "int \<Rightarrow> nat" where
  "u64 x = nat (x mod 18446744073709551616)"

lemma u64_id [simp]: "0 \<le> x \<Longrightarrow> x < 18446744073709551616 \<Longrightarrow> u64 x = nat x"
  by (simp add: u64_def)

lemma u64_int: "k < 18446744073709551616 \<Longrightarrow> u64 (int k) = k"
  by simp

section \<open>Aborted executions\<close>

definition assert_that :: "bool \<Rightarrow> unit option" where
  "assert_that b = (if b then Some () else None)"

lemma assert_that_simps [simp]:
  "assert_that True = Some ()"
  "assert_that False = None"
  by (simp_all add: assert_that_def)

lemma assert_that_eq_Some [simp]: "assert_that b = Some u \<longleftrightarrow> b"
  by (simp add: assert_that_def)

lemma bind_eq_Some_iff: "m \<bind> f = Some y \<longleftrightarrow> (\<exists>x. m = Some x \<and> f x = Some y)"
  by (cases m) auto

lemma Some_eq_bind_iff: "Some y = m \<bind> f \<longleftrightarrow> (\<exists>x. m = Some x \<and> f x = Some y)"
  by (cases m) auto

lemmas bind_Some_iffs = bind_eq_Some_iff Some_eq_bind_iff

section \<open>Characters as bytes\<close>

abbreviation ord :: "char \<Rightarrow> nat" where
  "ord c \<equiv> of_char c"

lemma ord_less_256: "ord c < 256"
  by (rule nat_of_char_less_256)

lemma char_eq_ord: "c = d \<longleftrightarrow> ord c = ord d"
  by simp

lemma ord_char_of [simp]: "n < 256 \<Longrightarrow> ord (char_of n) = n"
  by simp

section \<open>Lists\<close>

definition insert_at :: "nat \<Rightarrow> 'a \<Rightarrow> 'a list \<Rightarrow> 'a list" where
  "insert_at i x xs = take i xs @ x # drop i xs"

lemma length_insert_at [simp]: "i \<le> length xs \<Longrightarrow> length (insert_at i x xs) = Suc (length xs)"
  by (simp add: insert_at_def)

lemma insert_at_append [simp]: "length xs = i \<Longrightarrow> insert_at i x (xs @ ys) = xs @ x # ys"
  by (simp add: insert_at_def)

text \<open>\<open>StringRef::find_last_of\<close>: the part before and the part after the last occurrence.\<close>

fun split_last :: "'a \<Rightarrow> 'a list \<Rightarrow> ('a list \<times> 'a list) option" where
  "split_last d [] = None"
| "split_last d (x # xs) =
     (case split_last d xs of
        Some (us, vs) \<Rightarrow> Some (x # us, vs)
      | None \<Rightarrow> (if x = d then Some ([], xs) else None))"

lemma split_last_None_iff: "split_last d xs = None \<longleftrightarrow> d \<notin> set xs"
  by (induction xs) (auto split: option.splits)

lemma split_last_append: "d \<notin> set vs \<Longrightarrow> split_last d (us @ d # vs) = Some (us, vs)"
proof (induction us)
  case Nil
  then have "split_last d vs = None" by (simp add: split_last_None_iff)
  then show ?case by simp
next
  case (Cons u us)
  then show ?case by simp
qed

section \<open>Decimal numerals\<close>

definition digit_char :: "nat \<Rightarrow> char" where
  "digit_char n = char_of (48 + n)"

fun decimal :: "nat \<Rightarrow> string" where
  "decimal n = (if n < 10 then [digit_char n] else decimal (n div 10) @ [digit_char (n mod 10)])"

declare decimal.simps [simp del]

lemma ord_digit_char [simp]: "n < 10 \<Longrightarrow> ord (digit_char n) = 48 + n"
  by (simp add: digit_char_def)

lemma decimal_not_Nil [simp]: "decimal n \<noteq> []"
  by (subst decimal.simps) simp

lemma decimal_digits: "c \<in> set (decimal n) \<Longrightarrow> 48 \<le> ord c \<and> ord c \<le> 57"
proof (induction n rule: decimal.induct)
  case (1 n)
  then show ?case
    by (subst (asm) decimal.simps) (auto split: if_splits)
qed

lemma hd_decimal: "0 < n \<Longrightarrow> ord (hd (decimal n)) \<noteq> 48"
proof (induction n rule: decimal.induct)
  case (1 n)
  show ?case
  proof (cases "n < 10")
    case True
    with "1.prems" show ?thesis by (subst decimal.simps) simp
  next
    case False
    then have "0 < n div 10" by simp
    with False "1.IH" show ?thesis by (subst decimal.simps) simp
  qed
qed

lemma length_decimal: "0 < k \<Longrightarrow> n < 10 ^ k \<Longrightarrow> length (decimal n) \<le> k"
proof (induction n arbitrary: k rule: decimal.induct)
  case (1 n)
  show ?case
  proof (cases "n < 10")
    case True
    with "1.prems" show ?thesis by (subst decimal.simps) simp
  next
    case False
    with "1.prems" obtain j where j: "k = Suc j" "0 < j" by (cases k; cases "k - 1") auto
    with "1.prems" have "n div 10 < 10 ^ j" by (simp add: less_mult_imp_div_less mult.commute)
    with "1.IH" [OF False j(2)] False j(1) show ?thesis by (subst decimal.simps) simp
  qed
qed

lemma decimal_upper: "n < 10 ^ length (decimal n)"
proof (induction n rule: decimal.induct)
  case (1 n)
  show ?case
  proof (cases "n < 10")
    case True
    then show ?thesis by (subst decimal.simps) simp
  next
    case False
    with 1 have "n div 10 < 10 ^ length (decimal (n div 10))" by blast
    then have "n < 10 ^ Suc (length (decimal (n div 10)))" by simp
    with False show ?thesis by (subst decimal.simps) simp
  qed
qed

lemma length_decimal_le_iff: "0 < k \<Longrightarrow> length (decimal n) \<le> k \<longleftrightarrow> n < 10 ^ k"
  by (meson decimal_upper length_decimal order_less_le_trans power_increasing one_le_numeral)

section \<open>Codecs\<close>

text \<open>
  The contract between a mangler and its demangler, at the level of one grammar production: what
  the encoder writes, the decoder reads back, consuming exactly what was written.
  \<open>follows\<close> says which input may stand after an encoded value.
\<close>

locale codec =
  fixes enc :: "'a \<Rightarrow> 'b"
    and dec :: "'b \<Rightarrow> 'a option"
    and valid :: "'a \<Rightarrow> bool"
  assumes dec_enc: "valid x \<Longrightarrow> dec (enc x) = Some x"
begin

lemma enc_inj: "valid x \<Longrightarrow> valid y \<Longrightarrow> enc x = enc y \<Longrightarrow> x = y"
  by (metis dec_enc option.inject)

lemma enc_inj_on: "inj_on enc {x. valid x}"
  by (auto intro!: inj_onI dest: enc_inj)

end

locale prefix_codec =
  fixes enc :: "'a \<Rightarrow> string"
    and dec :: "string \<Rightarrow> ('a \<times> string) option"
    and valid :: "'a \<Rightarrow> bool"
    and follows :: "string \<Rightarrow> bool"
  assumes dec_enc_append: "valid x \<Longrightarrow> follows rest \<Longrightarrow> dec (enc x @ rest) = Some (x, rest)"
begin

lemma prefix_free:
  assumes "valid x" "valid y" "follows r" "follows s" "enc x @ r = enc y @ s"
  shows "x = y \<and> r = s"
  by (metis assms dec_enc_append option.inject prod.inject)

end

end
