(* ===== verification/Mangling_Chars.thy ===== *)
theory Mangling_Chars
  imports Mangling_Prelude
begin

text \<open>
  The character classes and the operator translation of
  \<open>include/swift/Demangling/ManglingUtils.h\<close> and \<open>lib/Demangling/ManglingUtils.cpp\<close>.
\<close>

section \<open>Character classes\<close>

definition isLowerLetter :: "char \<Rightarrow> bool" where
  [char_defs]: "isLowerLetter ch \<longleftrightarrow> 97 \<le> ord ch \<and> ord ch \<le> 122"

definition isUpperLetter :: "char \<Rightarrow> bool" where
  [char_defs]: "isUpperLetter ch \<longleftrightarrow> 65 \<le> ord ch \<and> ord ch \<le> 90"

definition isDigit :: "char \<Rightarrow> bool" where
  [char_defs]: "isDigit ch \<longleftrightarrow> 48 \<le> ord ch \<and> ord ch \<le> 57"

definition isLetter :: "char \<Rightarrow> bool" where
  [char_defs]: "isLetter ch \<longleftrightarrow> isLowerLetter ch \<or> isUpperLetter ch"

definition isWordStart :: "char \<Rightarrow> bool" where
  [char_defs]: "isWordStart ch \<longleftrightarrow> \<not> isDigit ch \<and> ch \<noteq> CHR ''_'' \<and> ch \<noteq> CHR 0x00"

definition isWordEnd :: "char \<Rightarrow> char \<Rightarrow> bool" where
  [char_defs]: "isWordEnd ch prevCh \<longleftrightarrow>
     (if ch = CHR ''_'' \<or> ch = CHR 0x00 then True
      else if \<not> isUpperLetter prevCh \<and> isUpperLetter ch then True
      else False)"

definition isValidSymbolChar :: "char \<Rightarrow> bool" where
  [char_defs]: "isValidSymbolChar ch \<longleftrightarrow>
     isLetter ch \<or> isDigit ch \<or> ch = CHR ''_'' \<or> ch = CHR ''$''"

definition isNonAscii :: "string \<Rightarrow> bool" where
  "isNonAscii str \<longleftrightarrow> list_ex (\<lambda>c. ord c \<ge> 0x80) str"

definition needsPunycodeEncoding :: "string \<Rightarrow> bool" where
  "needsPunycodeEncoding str \<longleftrightarrow> list_ex (\<lambda>c. \<not> isValidSymbolChar c) str"

lemma not_isWordEnd_NUL [simp]: "isWordEnd (CHR 0x00) p"
  by (simp add: isWordEnd_def)

lemma isDigit_decimal: "c \<in> set (decimal n) \<Longrightarrow> isDigit c"
  using decimal_digits [of c n] by (simp add: isDigit_def)

lemma isValidSymbolChar_ascii: "isValidSymbolChar c \<Longrightarrow> ord c < 0x80"
  by (auto simp: char_defs)

lemma letter_not_digit: "isLetter c \<Longrightarrow> \<not> isDigit c"
  by (auto simp: char_defs)

lemma upper_not_lower: "isUpperLetter c \<Longrightarrow> \<not> isLowerLetter c"
  by (auto simp: char_defs)

text \<open>The letters that name an index below 26, as \<open>Idx + 'a'\<close> and \<open>Idx + 'A'\<close>.\<close>

definition lower_char :: "nat \<Rightarrow> char" where
  "lower_char i = char_of (97 + i)"

definition upper_char :: "nat \<Rightarrow> char" where
  "upper_char i = char_of (65 + i)"

lemma lower_char_simps [simp]:
  assumes "i < 26"
  shows "isLowerLetter (lower_char i)" "isLetter (lower_char i)" "ord (lower_char i) = 97 + i"
    "\<not> isUpperLetter (lower_char i)" "\<not> isDigit (lower_char i)"
  using assms by (auto simp: lower_char_def char_defs)

lemma upper_char_simps [simp]:
  assumes "i < 26"
  shows "isUpperLetter (upper_char i)" "isLetter (upper_char i)" "ord (upper_char i) = 65 + i"
    "\<not> isLowerLetter (upper_char i)" "\<not> isDigit (upper_char i)"
  using assms by (auto simp: upper_char_def char_defs)

section \<open>Operator characters\<close>

definition translateOperatorChar :: "char \<Rightarrow> char" where
  "translateOperatorChar op =
     (if op = CHR ''&'' then CHR ''a''
      else if op = CHR ''@'' then CHR ''c''
      else if op = CHR ''/'' then CHR ''d''
      else if op = CHR ''='' then CHR ''e''
      else if op = CHR ''>'' then CHR ''g''
      else if op = CHR ''<'' then CHR ''l''
      else if op = CHR ''*'' then CHR ''m''
      else if op = CHR ''!'' then CHR ''n''
      else if op = CHR ''|'' then CHR ''o''
      else if op = CHR ''+'' then CHR ''p''
      else if op = CHR ''?'' then CHR ''q''
      else if op = CHR ''%'' then CHR ''r''
      else if op = CHR ''-'' then CHR ''s''
      else if op = CHR ''~'' then CHR ''t''
      else if op = CHR ''^'' then CHR ''x''
      else if op = CHR ''.'' then CHR ''z''
      else op)"

definition translateOperator :: "string \<Rightarrow> string" where
  "translateOperator Op = map translateOperatorChar Op"

section \<open>Standard types\<close>

text \<open>
  The rows of \<open>StandardTypesMangling.def\<close>: the kind of declaration (\<open>True\<close> for an enum), the
  character and the name.
\<close>

definition standard_types :: "(bool \<times> char \<times> string) list" where
  "standard_types =
    [(False, CHR ''a'', ''Array''), (False, CHR ''b'', ''Bool''),
     (False, CHR ''c'', ''UnicodeScalar''), (False, CHR ''d'', ''Double''),
     (False, CHR ''f'', ''Float''), (False, CHR ''i'', ''Int''),
     (False, CHR ''V'', ''UnsafeRawPointer''), (False, CHR ''v'', ''UnsafeMutableRawPointer''),
     (False, CHR ''P'', ''UnsafePointer''), (False, CHR ''p'', ''UnsafeMutablePointer''),
     (False, CHR ''R'', ''UnsafeBufferPointer''),
     (False, CHR ''r'', ''UnsafeMutableBufferPointer''),
     (False, CHR ''S'', ''String''), (False, CHR ''u'', ''UInt''),
     (True, CHR ''q'', ''Optional''), (True, CHR ''Q'', ''ImplicitlyUnwrappedOptional'')]"

fun find_type_char :: "string \<Rightarrow> (bool \<times> char \<times> string) list \<Rightarrow> char" where
  "find_type_char TypeName [] = CHR 0x00"
| "find_type_char TypeName ((e, c, name) # ts) =
     (if TypeName = name then c else find_type_char TypeName ts)"

definition getStandardTypeSubst :: "string \<Rightarrow> char" where
  "getStandardTypeSubst TypeName = find_type_char TypeName standard_types"

end
