(* ===== verification/Demangle_Node.thy ===== *)
theory Demangle_Node
  imports Mangling_Chars
begin

text \<open>
  The parse tree of the demangler: \<open>Node\<close> and \<open>Node::Kind\<close> of
  \<open>include/swift/Demangling/Demangle.h\<close>, with the predicates on kinds and the node-building
  helpers of \<open>lib/Demangling/Demangler.cpp\<close>.

  A \<open>NodePointer\<close> is a \<open>node option\<close>, \<open>None\<close> being the null pointer. Nodes are values:
  the parser only adds children to nodes it has just created, so sharing between trees is not
  observable; the one operation that edits an existing node, \<open>popFunctionParamLabels\<close>, returns
  the edited node to its caller.
\<close>

section \<open>Kinds\<close>

text \<open>
  \<open>enum class Kind : uint16_t\<close>: the enumerators are numbered in the order of
  \<open>DemangleNodes.def\<close>.
\<close>

datatype node_kind = Kind nat

abbreviation K_Allocator :: node_kind where "K_Allocator \<equiv> Kind 0"
abbreviation K_ArgumentTuple :: node_kind where "K_ArgumentTuple \<equiv> Kind 1"
abbreviation K_AssociatedType :: node_kind where "K_AssociatedType \<equiv> Kind 2"
abbreviation K_AssociatedTypeRef :: node_kind where "K_AssociatedTypeRef \<equiv> Kind 3"
abbreviation K_AssociatedTypeMetadataAccessor :: node_kind where "K_AssociatedTypeMetadataAccessor \<equiv> Kind 4"
abbreviation K_AssociatedTypeWitnessTableAccessor :: node_kind where "K_AssociatedTypeWitnessTableAccessor \<equiv> Kind 5"
abbreviation K_AutoClosureType :: node_kind where "K_AutoClosureType \<equiv> Kind 6"
abbreviation K_BoundGenericClass :: node_kind where "K_BoundGenericClass \<equiv> Kind 7"
abbreviation K_BoundGenericEnum :: node_kind where "K_BoundGenericEnum \<equiv> Kind 8"
abbreviation K_BoundGenericStructure :: node_kind where "K_BoundGenericStructure \<equiv> Kind 9"
abbreviation K_BuiltinTypeName :: node_kind where "K_BuiltinTypeName \<equiv> Kind 10"
abbreviation K_CFunctionPointer :: node_kind where "K_CFunctionPointer \<equiv> Kind 11"
abbreviation K_Class :: node_kind where "K_Class \<equiv> Kind 12"
abbreviation K_ClassMetadataBaseOffset :: node_kind where "K_ClassMetadataBaseOffset \<equiv> Kind 13"
abbreviation K_Constructor :: node_kind where "K_Constructor \<equiv> Kind 14"
abbreviation K_CoroutineContinuationPrototype :: node_kind where "K_CoroutineContinuationPrototype \<equiv> Kind 15"
abbreviation K_Deallocator :: node_kind where "K_Deallocator \<equiv> Kind 16"
abbreviation K_DeclContext :: node_kind where "K_DeclContext \<equiv> Kind 17"
abbreviation K_DefaultArgumentInitializer :: node_kind where "K_DefaultArgumentInitializer \<equiv> Kind 18"
abbreviation K_DependentAssociatedTypeRef :: node_kind where "K_DependentAssociatedTypeRef \<equiv> Kind 19"
abbreviation K_DependentGenericConformanceRequirement :: node_kind where "K_DependentGenericConformanceRequirement \<equiv> Kind 20"
abbreviation K_DependentGenericParamCount :: node_kind where "K_DependentGenericParamCount \<equiv> Kind 21"
abbreviation K_DependentGenericParamType :: node_kind where "K_DependentGenericParamType \<equiv> Kind 22"
abbreviation K_DependentGenericSameTypeRequirement :: node_kind where "K_DependentGenericSameTypeRequirement \<equiv> Kind 23"
abbreviation K_DependentGenericLayoutRequirement :: node_kind where "K_DependentGenericLayoutRequirement \<equiv> Kind 24"
abbreviation K_DependentGenericSignature :: node_kind where "K_DependentGenericSignature \<equiv> Kind 25"
abbreviation K_DependentGenericType :: node_kind where "K_DependentGenericType \<equiv> Kind 26"
abbreviation K_DependentMemberType :: node_kind where "K_DependentMemberType \<equiv> Kind 27"
abbreviation K_DependentPseudogenericSignature :: node_kind where "K_DependentPseudogenericSignature \<equiv> Kind 28"
abbreviation K_Destructor :: node_kind where "K_Destructor \<equiv> Kind 29"
abbreviation K_DidSet :: node_kind where "K_DidSet \<equiv> Kind 30"
abbreviation K_Directness :: node_kind where "K_Directness \<equiv> Kind 31"
abbreviation K_DynamicAttribute :: node_kind where "K_DynamicAttribute \<equiv> Kind 32"
abbreviation K_DirectMethodReferenceAttribute :: node_kind where "K_DirectMethodReferenceAttribute \<equiv> Kind 33"
abbreviation K_DynamicSelf :: node_kind where "K_DynamicSelf \<equiv> Kind 34"
abbreviation K_Enum :: node_kind where "K_Enum \<equiv> Kind 35"
abbreviation K_ErrorType :: node_kind where "K_ErrorType \<equiv> Kind 36"
abbreviation K_ExistentialMetatype :: node_kind where "K_ExistentialMetatype \<equiv> Kind 37"
abbreviation K_ExplicitClosure :: node_kind where "K_ExplicitClosure \<equiv> Kind 38"
abbreviation K_Extension :: node_kind where "K_Extension \<equiv> Kind 39"
abbreviation K_FieldOffset :: node_kind where "K_FieldOffset \<equiv> Kind 40"
abbreviation K_FullTypeMetadata :: node_kind where "K_FullTypeMetadata \<equiv> Kind 41"
abbreviation K_Function :: node_kind where "K_Function \<equiv> Kind 42"
abbreviation K_FunctionSignatureSpecialization :: node_kind where "K_FunctionSignatureSpecialization \<equiv> Kind 43"
abbreviation K_FunctionSignatureSpecializationParam :: node_kind where "K_FunctionSignatureSpecializationParam \<equiv> Kind 44"
abbreviation K_FunctionSignatureSpecializationParamKind :: node_kind where "K_FunctionSignatureSpecializationParamKind \<equiv> Kind 45"
abbreviation K_FunctionSignatureSpecializationParamPayload :: node_kind where "K_FunctionSignatureSpecializationParamPayload \<equiv> Kind 46"
abbreviation K_FunctionType :: node_kind where "K_FunctionType \<equiv> Kind 47"
abbreviation K_GenericPartialSpecialization :: node_kind where "K_GenericPartialSpecialization \<equiv> Kind 48"
abbreviation K_GenericPartialSpecializationNotReAbstracted :: node_kind where "K_GenericPartialSpecializationNotReAbstracted \<equiv> Kind 49"
abbreviation K_GenericProtocolWitnessTable :: node_kind where "K_GenericProtocolWitnessTable \<equiv> Kind 50"
abbreviation K_GenericProtocolWitnessTableInstantiationFunction :: node_kind where "K_GenericProtocolWitnessTableInstantiationFunction \<equiv> Kind 51"
abbreviation K_GenericSpecialization :: node_kind where "K_GenericSpecialization \<equiv> Kind 52"
abbreviation K_GenericSpecializationNotReAbstracted :: node_kind where "K_GenericSpecializationNotReAbstracted \<equiv> Kind 53"
abbreviation K_GenericSpecializationParam :: node_kind where "K_GenericSpecializationParam \<equiv> Kind 54"
abbreviation K_GenericTypeMetadataPattern :: node_kind where "K_GenericTypeMetadataPattern \<equiv> Kind 55"
abbreviation K_Getter :: node_kind where "K_Getter \<equiv> Kind 56"
abbreviation K_Global :: node_kind where "K_Global \<equiv> Kind 57"
abbreviation K_GlobalGetter :: node_kind where "K_GlobalGetter \<equiv> Kind 58"
abbreviation K_Identifier :: node_kind where "K_Identifier \<equiv> Kind 59"
abbreviation K_Index :: node_kind where "K_Index \<equiv> Kind 60"
abbreviation K_IVarInitializer :: node_kind where "K_IVarInitializer \<equiv> Kind 61"
abbreviation K_IVarDestroyer :: node_kind where "K_IVarDestroyer \<equiv> Kind 62"
abbreviation K_ImplEscaping :: node_kind where "K_ImplEscaping \<equiv> Kind 63"
abbreviation K_ImplConvention :: node_kind where "K_ImplConvention \<equiv> Kind 64"
abbreviation K_ImplFunctionAttribute :: node_kind where "K_ImplFunctionAttribute \<equiv> Kind 65"
abbreviation K_ImplFunctionType :: node_kind where "K_ImplFunctionType \<equiv> Kind 66"
abbreviation K_ImplicitClosure :: node_kind where "K_ImplicitClosure \<equiv> Kind 67"
abbreviation K_ImplParameter :: node_kind where "K_ImplParameter \<equiv> Kind 68"
abbreviation K_ImplResult :: node_kind where "K_ImplResult \<equiv> Kind 69"
abbreviation K_ImplErrorResult :: node_kind where "K_ImplErrorResult \<equiv> Kind 70"
abbreviation K_InOut :: node_kind where "K_InOut \<equiv> Kind 71"
abbreviation K_InfixOperator :: node_kind where "K_InfixOperator \<equiv> Kind 72"
abbreviation K_Initializer :: node_kind where "K_Initializer \<equiv> Kind 73"
abbreviation K_KeyPathGetterThunkHelper :: node_kind where "K_KeyPathGetterThunkHelper \<equiv> Kind 74"
abbreviation K_KeyPathSetterThunkHelper :: node_kind where "K_KeyPathSetterThunkHelper \<equiv> Kind 75"
abbreviation K_KeyPathEqualsThunkHelper :: node_kind where "K_KeyPathEqualsThunkHelper \<equiv> Kind 76"
abbreviation K_KeyPathHashThunkHelper :: node_kind where "K_KeyPathHashThunkHelper \<equiv> Kind 77"
abbreviation K_LazyProtocolWitnessTableAccessor :: node_kind where "K_LazyProtocolWitnessTableAccessor \<equiv> Kind 78"
abbreviation K_LazyProtocolWitnessTableCacheVariable :: node_kind where "K_LazyProtocolWitnessTableCacheVariable \<equiv> Kind 79"
abbreviation K_LocalDeclName :: node_kind where "K_LocalDeclName \<equiv> Kind 80"
abbreviation K_MaterializeForSet :: node_kind where "K_MaterializeForSet \<equiv> Kind 81"
abbreviation K_MergedFunction :: node_kind where "K_MergedFunction \<equiv> Kind 82"
abbreviation K_Metatype :: node_kind where "K_Metatype \<equiv> Kind 83"
abbreviation K_MetatypeRepresentation :: node_kind where "K_MetatypeRepresentation \<equiv> Kind 84"
abbreviation K_Metaclass :: node_kind where "K_Metaclass \<equiv> Kind 85"
abbreviation K_Module :: node_kind where "K_Module \<equiv> Kind 86"
abbreviation K_NativeOwningAddressor :: node_kind where "K_NativeOwningAddressor \<equiv> Kind 87"
abbreviation K_NativeOwningMutableAddressor :: node_kind where "K_NativeOwningMutableAddressor \<equiv> Kind 88"
abbreviation K_NativePinningAddressor :: node_kind where "K_NativePinningAddressor \<equiv> Kind 89"
abbreviation K_NativePinningMutableAddressor :: node_kind where "K_NativePinningMutableAddressor \<equiv> Kind 90"
abbreviation K_NominalTypeDescriptor :: node_kind where "K_NominalTypeDescriptor \<equiv> Kind 91"
abbreviation K_NonObjCAttribute :: node_kind where "K_NonObjCAttribute \<equiv> Kind 92"
abbreviation K_Number :: node_kind where "K_Number \<equiv> Kind 93"
abbreviation K_ObjCAttribute :: node_kind where "K_ObjCAttribute \<equiv> Kind 94"
abbreviation K_ObjCBlock :: node_kind where "K_ObjCBlock \<equiv> Kind 95"
abbreviation K_OwningAddressor :: node_kind where "K_OwningAddressor \<equiv> Kind 96"
abbreviation K_OwningMutableAddressor :: node_kind where "K_OwningMutableAddressor \<equiv> Kind 97"
abbreviation K_PartialApplyForwarder :: node_kind where "K_PartialApplyForwarder \<equiv> Kind 98"
abbreviation K_PartialApplyObjCForwarder :: node_kind where "K_PartialApplyObjCForwarder \<equiv> Kind 99"
abbreviation K_PostfixOperator :: node_kind where "K_PostfixOperator \<equiv> Kind 100"
abbreviation K_PrefixOperator :: node_kind where "K_PrefixOperator \<equiv> Kind 101"
abbreviation K_PrivateDeclName :: node_kind where "K_PrivateDeclName \<equiv> Kind 102"
abbreviation K_Protocol :: node_kind where "K_Protocol \<equiv> Kind 103"
abbreviation K_ProtocolConformance :: node_kind where "K_ProtocolConformance \<equiv> Kind 104"
abbreviation K_ProtocolDescriptor :: node_kind where "K_ProtocolDescriptor \<equiv> Kind 105"
abbreviation K_ProtocolConformanceDescriptor :: node_kind where "K_ProtocolConformanceDescriptor \<equiv> Kind 106"
abbreviation K_ProtocolList :: node_kind where "K_ProtocolList \<equiv> Kind 107"
abbreviation K_ProtocolListWithClass :: node_kind where "K_ProtocolListWithClass \<equiv> Kind 108"
abbreviation K_ProtocolListWithAnyObject :: node_kind where "K_ProtocolListWithAnyObject \<equiv> Kind 109"
abbreviation K_ProtocolWitness :: node_kind where "K_ProtocolWitness \<equiv> Kind 110"
abbreviation K_ProtocolWitnessTable :: node_kind where "K_ProtocolWitnessTable \<equiv> Kind 111"
abbreviation K_ProtocolWitnessTableAccessor :: node_kind where "K_ProtocolWitnessTableAccessor \<equiv> Kind 112"
abbreviation K_QualifiedArchetype :: node_kind where "K_QualifiedArchetype \<equiv> Kind 113"
abbreviation K_ReabstractionThunk :: node_kind where "K_ReabstractionThunk \<equiv> Kind 114"
abbreviation K_ReabstractionThunkHelper :: node_kind where "K_ReabstractionThunkHelper \<equiv> Kind 115"
abbreviation K_ReturnType :: node_kind where "K_ReturnType \<equiv> Kind 116"
abbreviation K_Shared :: node_kind where "K_Shared \<equiv> Kind 117"
abbreviation K_SILBoxType :: node_kind where "K_SILBoxType \<equiv> Kind 118"
abbreviation K_SILBoxTypeWithLayout :: node_kind where "K_SILBoxTypeWithLayout \<equiv> Kind 119"
abbreviation K_SILBoxLayout :: node_kind where "K_SILBoxLayout \<equiv> Kind 120"
abbreviation K_SILBoxMutableField :: node_kind where "K_SILBoxMutableField \<equiv> Kind 121"
abbreviation K_SILBoxImmutableField :: node_kind where "K_SILBoxImmutableField \<equiv> Kind 122"
abbreviation K_Setter :: node_kind where "K_Setter \<equiv> Kind 123"
abbreviation K_SpecializationPassID :: node_kind where "K_SpecializationPassID \<equiv> Kind 124"
abbreviation K_SpecializationIsFragile :: node_kind where "K_SpecializationIsFragile \<equiv> Kind 125"
abbreviation K_Static :: node_kind where "K_Static \<equiv> Kind 126"
abbreviation K_Structure :: node_kind where "K_Structure \<equiv> Kind 127"
abbreviation K_Subscript :: node_kind where "K_Subscript \<equiv> Kind 128"
abbreviation K_Suffix :: node_kind where "K_Suffix \<equiv> Kind 129"
abbreviation K_ThinFunctionType :: node_kind where "K_ThinFunctionType \<equiv> Kind 130"
abbreviation K_Tuple :: node_kind where "K_Tuple \<equiv> Kind 131"
abbreviation K_TupleElement :: node_kind where "K_TupleElement \<equiv> Kind 132"
abbreviation K_TupleElementName :: node_kind where "K_TupleElementName \<equiv> Kind 133"
abbreviation K_Type :: node_kind where "K_Type \<equiv> Kind 134"
abbreviation K_TypeAlias :: node_kind where "K_TypeAlias \<equiv> Kind 135"
abbreviation K_TypeList :: node_kind where "K_TypeList \<equiv> Kind 136"
abbreviation K_TypeMangling :: node_kind where "K_TypeMangling \<equiv> Kind 137"
abbreviation K_TypeMetadata :: node_kind where "K_TypeMetadata \<equiv> Kind 138"
abbreviation K_TypeMetadataAccessFunction :: node_kind where "K_TypeMetadataAccessFunction \<equiv> Kind 139"
abbreviation K_TypeMetadataLazyCache :: node_kind where "K_TypeMetadataLazyCache \<equiv> Kind 140"
abbreviation K_UncurriedFunctionType :: node_kind where "K_UncurriedFunctionType \<equiv> Kind 141"
abbreviation K_Unmanaged :: node_kind where "K_Unmanaged \<equiv> Kind 142"
abbreviation K_Unowned :: node_kind where "K_Unowned \<equiv> Kind 143"
abbreviation K_UnsafeAddressor :: node_kind where "K_UnsafeAddressor \<equiv> Kind 144"
abbreviation K_UnsafeMutableAddressor :: node_kind where "K_UnsafeMutableAddressor \<equiv> Kind 145"
abbreviation K_ValueWitness :: node_kind where "K_ValueWitness \<equiv> Kind 146"
abbreviation K_ValueWitnessTable :: node_kind where "K_ValueWitnessTable \<equiv> Kind 147"
abbreviation K_Variable :: node_kind where "K_Variable \<equiv> Kind 148"
abbreviation K_VTableThunk :: node_kind where "K_VTableThunk \<equiv> Kind 149"
abbreviation K_VTableAttribute :: node_kind where "K_VTableAttribute \<equiv> Kind 150"
abbreviation K_Weak :: node_kind where "K_Weak \<equiv> Kind 151"
abbreviation K_WillSet :: node_kind where "K_WillSet \<equiv> Kind 152"
abbreviation K_ReflectionMetadataBuiltinDescriptor :: node_kind where "K_ReflectionMetadataBuiltinDescriptor \<equiv> Kind 153"
abbreviation K_ReflectionMetadataFieldDescriptor :: node_kind where "K_ReflectionMetadataFieldDescriptor \<equiv> Kind 154"
abbreviation K_ReflectionMetadataAssocTypeDescriptor :: node_kind where "K_ReflectionMetadataAssocTypeDescriptor \<equiv> Kind 155"
abbreviation K_ReflectionMetadataSuperclassDescriptor :: node_kind where "K_ReflectionMetadataSuperclassDescriptor \<equiv> Kind 156"
abbreviation K_GenericTypeParamDecl :: node_kind where "K_GenericTypeParamDecl \<equiv> Kind 157"
abbreviation K_CurryThunk :: node_kind where "K_CurryThunk \<equiv> Kind 158"
abbreviation K_DispatchThunk :: node_kind where "K_DispatchThunk \<equiv> Kind 159"
abbreviation K_ThrowsAnnotation :: node_kind where "K_ThrowsAnnotation \<equiv> Kind 160"
abbreviation K_EmptyList :: node_kind where "K_EmptyList \<equiv> Kind 161"
abbreviation K_FirstElementMarker :: node_kind where "K_FirstElementMarker \<equiv> Kind 162"
abbreviation K_VariadicMarker :: node_kind where "K_VariadicMarker \<equiv> Kind 163"
abbreviation K_OutlinedBridgedMethod :: node_kind where "K_OutlinedBridgedMethod \<equiv> Kind 164"
abbreviation K_OutlinedCopy :: node_kind where "K_OutlinedCopy \<equiv> Kind 165"
abbreviation K_OutlinedConsume :: node_kind where "K_OutlinedConsume \<equiv> Kind 166"
abbreviation K_OutlinedRetain :: node_kind where "K_OutlinedRetain \<equiv> Kind 167"
abbreviation K_OutlinedRelease :: node_kind where "K_OutlinedRelease \<equiv> Kind 168"
abbreviation K_OutlinedInitializeWithTake :: node_kind where "K_OutlinedInitializeWithTake \<equiv> Kind 169"
abbreviation K_OutlinedInitializeWithCopy :: node_kind where "K_OutlinedInitializeWithCopy \<equiv> Kind 170"
abbreviation K_OutlinedAssignWithTake :: node_kind where "K_OutlinedAssignWithTake \<equiv> Kind 171"
abbreviation K_OutlinedAssignWithCopy :: node_kind where "K_OutlinedAssignWithCopy \<equiv> Kind 172"
abbreviation K_OutlinedDestroy :: node_kind where "K_OutlinedDestroy \<equiv> Kind 173"
abbreviation K_OutlinedVariable :: node_kind where "K_OutlinedVariable \<equiv> Kind 174"
abbreviation K_AssocTypePath :: node_kind where "K_AssocTypePath \<equiv> Kind 175"
abbreviation K_LabelList :: node_kind where "K_LabelList \<equiv> Kind 176"

section \<open>Predicates on kinds\<close>

definition isDeclName :: "node_kind \<Rightarrow> bool" where
  "isDeclName kind \<longleftrightarrow> kind \<in> set
     [K_Identifier, K_LocalDeclName, K_PrivateDeclName, K_PrefixOperator, K_PostfixOperator,
      K_InfixOperator]"

definition isContext :: "node_kind \<Rightarrow> bool" where
  "isContext kind \<longleftrightarrow> kind \<in> set
     [K_Allocator, K_Class, K_Constructor, K_Deallocator, K_DefaultArgumentInitializer,
      K_Destructor, K_DidSet, K_Enum, K_ExplicitClosure, K_Extension, K_Function, K_Getter,
      K_GlobalGetter, K_IVarInitializer, K_IVarDestroyer, K_ImplicitClosure, K_Initializer,
      K_MaterializeForSet, K_Module, K_NativeOwningAddressor, K_NativeOwningMutableAddressor,
      K_NativePinningAddressor, K_NativePinningMutableAddressor, K_OwningAddressor,
      K_OwningMutableAddressor, K_Protocol, K_Setter, K_Static, K_Structure, K_Subscript,
      K_TypeAlias, K_UnsafeAddressor, K_UnsafeMutableAddressor, K_Variable, K_WillSet,
      K_CurryThunk, K_DispatchThunk]"

definition isAnyGeneric :: "node_kind \<Rightarrow> bool" where
  "isAnyGeneric kind \<longleftrightarrow> kind \<in> set
     [K_Structure, K_Class, K_Enum, K_Protocol, K_TypeAlias]"

definition isEntity :: "node_kind \<Rightarrow> bool" where
  "isEntity kind \<longleftrightarrow> (if kind = K_Type then True else isContext kind)"

definition isRequirement :: "node_kind \<Rightarrow> bool" where
  "isRequirement kind \<longleftrightarrow> kind \<in> set
     [K_DependentGenericSameTypeRequirement, K_DependentGenericLayoutRequirement,
      K_DependentGenericConformanceRequirement]"

definition isFunctionAttr :: "node_kind \<Rightarrow> bool" where
  "isFunctionAttr kind \<longleftrightarrow> kind \<in> set
     [K_FunctionSignatureSpecialization, K_GenericSpecialization,
      K_GenericSpecializationNotReAbstracted, K_GenericPartialSpecialization,
      K_GenericPartialSpecializationNotReAbstracted, K_ObjCAttribute, K_NonObjCAttribute,
      K_DynamicAttribute, K_DirectMethodReferenceAttribute, K_VTableAttribute,
      K_PartialApplyForwarder, K_PartialApplyObjCForwarder, K_OutlinedVariable,
      K_OutlinedBridgedMethod, K_MergedFunction]"

section \<open>Nodes\<close>

datatype payload = NoPayload | TextPayload string | IndexPayload nat

datatype node = Node (getKind: node_kind) (getPayload: payload) (children: "node list")

definition hasText :: "node \<Rightarrow> bool" where
  "hasText nd \<longleftrightarrow> (case getPayload nd of TextPayload _ \<Rightarrow> True | _ \<Rightarrow> False)"

definition getText :: "node \<Rightarrow> string option" where
  "getText nd = (case getPayload nd of TextPayload t \<Rightarrow> Some t | _ \<Rightarrow> None)"

definition hasIndex :: "node \<Rightarrow> bool" where
  "hasIndex nd \<longleftrightarrow> (case getPayload nd of IndexPayload _ \<Rightarrow> True | _ \<Rightarrow> False)"

definition getIndex :: "node \<Rightarrow> nat option" where
  "getIndex nd = (case getPayload nd of IndexPayload i \<Rightarrow> Some i | _ \<Rightarrow> None)"

text \<open>The conversion of an index to \<open>unsigned\<close> keeps 32 bits.\<close>

definition to_unsigned :: "nat \<Rightarrow> nat" where
  "to_unsigned n = n mod 4294967296"

definition hasChildren :: "node \<Rightarrow> bool" where
  "hasChildren nd \<longleftrightarrow> length (children nd) \<noteq> 0"

definition getNumChildren :: "node \<Rightarrow> nat" where
  "getNumChildren nd = length (children nd)"

definition getChild :: "node \<Rightarrow> nat \<Rightarrow> node option" where
  "getChild nd index = do {
     assert_that (getNumChildren nd > index);
     Some (children nd ! index)
   }"

definition getFirstChild :: "node \<Rightarrow> node option" where
  "getFirstChild nd = do {
     assert_that (getNumChildren nd \<ge> 1);
     Some (children nd ! 0)
   }"

text \<open>\<open>Node::addChild\<close> with both pointers known to be non-null, and the other node members.\<close>

definition Node_addChild :: "node \<Rightarrow> node \<Rightarrow> node" where
  "Node_addChild parent child = Node (getKind parent) (getPayload parent) (children parent @ [child])"

definition removeChildAt :: "node \<Rightarrow> nat \<Rightarrow> node option" where
  "removeChildAt nd pos = do {
     assert_that (pos < getNumChildren nd);
     Some (Node (getKind nd) (getPayload nd) (take pos (children nd) @ drop (Suc pos) (children nd)))
   }"

definition reverseChildren :: "node \<Rightarrow> nat \<Rightarrow> node option" where
  "reverseChildren nd StartingAt = do {
     assert_that (StartingAt \<le> getNumChildren nd);
     Some (Node (getKind nd) (getPayload nd)
       (take StartingAt (children nd) @ rev (drop StartingAt (children nd))))
   }"

abbreviation createNode :: "node_kind \<Rightarrow> node" where
  "createNode K \<equiv> Node K NoPayload []"

abbreviation createNodeText :: "node_kind \<Rightarrow> string \<Rightarrow> node" where
  "createNodeText K t \<equiv> Node K (TextPayload t) []"

abbreviation createNodeIndex :: "node_kind \<Rightarrow> nat \<Rightarrow> node" where
  "createNodeIndex K i \<equiv> Node K (IndexPayload i) []"

definition addChild :: "node option \<Rightarrow> node option \<Rightarrow> node option" where
  "addChild Parent Child =
     (case (Parent, Child) of (Some p, Some c) \<Rightarrow> Some (Node_addChild p c) | _ \<Rightarrow> None)"

definition createWithChild :: "node_kind \<Rightarrow> node option \<Rightarrow> node option" where
  "createWithChild kind Child =
     (case Child of None \<Rightarrow> None | Some c \<Rightarrow> Some (Node_addChild (createNode kind) c))"

definition createType :: "node option \<Rightarrow> node option" where
  "createType Child = createWithChild K_Type Child"

definition createWithChildren2 :: "node_kind \<Rightarrow> node option \<Rightarrow> node option \<Rightarrow> node option" where
  "createWithChildren2 kind Child1 Child2 =
     (if Child1 = None \<or> Child2 = None then None
      else addChild (addChild (Some (createNode kind)) Child1) Child2)"

definition createWithChildren3 ::
  "node_kind \<Rightarrow> node option \<Rightarrow> node option \<Rightarrow> node option \<Rightarrow> node option" where
  "createWithChildren3 kind Child1 Child2 Child3 =
     (if Child1 = None \<or> Child2 = None \<or> Child3 = None then None
      else addChild (addChild (addChild (Some (createNode kind)) Child1) Child2) Child3)"

definition createWithChildren4 ::
  "node_kind \<Rightarrow> node option \<Rightarrow> node option \<Rightarrow> node option \<Rightarrow> node option \<Rightarrow> node option" where
  "createWithChildren4 kind Child1 Child2 Child3 Child4 =
     (if Child1 = None \<or> Child2 = None \<or> Child3 = None \<or> Child4 = None then None
      else addChild (addChild (addChild (addChild (Some (createNode kind)) Child1) Child2)
             Child3) Child4)"

definition changeKind :: "node option \<Rightarrow> node_kind \<Rightarrow> node option" where
  "changeKind nd NewKind =
     (case nd of None \<Rightarrow> None | Some n \<Rightarrow> Some (Node NewKind (getPayload n) (children n)))"

end
