(* ===== verification/Punycode.thy ===== *)
theory Punycode
  imports Mangling_Chars
begin

unbundle bit_operations_syntax

text \<open>
  Model of \<open>lib/Demangling/Punycode.cpp\<close>: the RFC 3492 variant that turns identifiers into
  symbol characters, and the UTF-8/UTF-32 conversions around it. Code points (\<open>uint32_t\<close>) are
  \<open>nat\<close>, with the reductions modulo \<open>2 ^ 32\<close> written out; \<open>int\<close> variables go through
  \<open>wrap32\<close>. The loops over the input are structural; the outer loop of the encoder, which does
  not end on every input, is a \<^theory_text>\<open>partial_function\<close>, so that \<open>None\<close> also covers
  a run that never returns.
\<close>

section \<open>Parameter values\<close>

abbreviation (input) base :: int where "base \<equiv> 36"
abbreviation (input) tmin :: int where "tmin \<equiv> 1"
abbreviation (input) tmax :: int where "tmax \<equiv> 26"
abbreviation (input) skew :: int where "skew \<equiv> 38"
abbreviation (input) damp :: int where "damp \<equiv> 700"
abbreviation (input) initial_bias :: int where "initial_bias \<equiv> 72"
abbreviation (input) initial_n :: nat where "initial_n \<equiv> 128"
abbreviation (input) delimiter :: char where "delimiter \<equiv> CHR ''_''"

definition digit_value :: "int \<Rightarrow> char option" where
  "digit_value digit = do {
     assert_that (digit < base);
     if digit < 26 then Some (char_of (nat ((97 + digit) mod 256)))
     else Some (char_of (nat ((65 - 26 + digit) mod 256)))
   }"

definition digit_index :: "char \<Rightarrow> int" where
  "digit_index value =
     (if 97 \<le> ord value \<and> ord value \<le> 122 then int (ord value) - 97
      else if 65 \<le> ord value \<and> ord value \<le> 74 then int (ord value) - 65 + 26
      else - 1)"

definition isValidUnicodeScalar :: "nat \<Rightarrow> bool" where
  "isValidUnicodeScalar S \<longleftrightarrow> S < 0xD880 \<or> (0xE000 \<le> S \<and> S \<le> 0x1FFFFF)"

section \<open>Bias adaptation\<close>

function adapt_loop :: "int \<Rightarrow> int \<Rightarrow> int \<times> int" where
  "adapt_loop delta k =
     (if delta > ((base - tmin) * tmax) sdiv 2
      then adapt_loop (delta sdiv (base - tmin)) (k + base)
      else (delta, k))"
  by pat_completeness auto
termination
  by (relation "measure (\<lambda>(delta, k). nat delta)") auto

declare adapt_loop.simps [simp del]

definition adapt :: "int \<Rightarrow> int \<Rightarrow> bool \<Rightarrow> int option" where
  "adapt delta numpoints firsttime = do {
     let delta = (if firsttime then delta sdiv damp else delta sdiv 2);
     assert_that (numpoints \<noteq> 0);
     let delta = wrap32 (delta + delta sdiv numpoints);
     let (delta, k) = adapt_loop delta 0;
     assert_that (delta + skew \<noteq> 0);
     Some (k + wrap32 ((base - tmin + 1) * delta) sdiv (delta + skew))
   }"

text \<open>The threshold of a digit position, written inline in both loops of the source.\<close>

definition threshold :: "int \<Rightarrow> int \<Rightarrow> int" where
  "threshold k bias = (if k \<le> bias then tmin else if k \<ge> bias + tmax then tmax else k - bias)"

section \<open>Decoding\<close>

text \<open>The inner loop: one variable-length integer. \<open>None\<close> is the early \<open>return true\<close>.\<close>

fun decode_digits :: "int \<Rightarrow> string \<Rightarrow> int \<Rightarrow> int \<Rightarrow> int \<Rightarrow> (int \<times> string) option" where
  "decode_digits bias [] k i w = None"
| "decode_digits bias (codePoint # InputPunycode) k i w =
     (let digit = digit_index codePoint in
      if digit < 0 then None
      else
        let i = wrap32 (i + wrap32 (digit * w));
            t = threshold k bias
        in if digit < t then Some (i, InputPunycode)
           else decode_digits bias InputPunycode (k + base) i (wrap32 (w * (base - t))))"

lemma decode_digits_consumes:
  "decode_digits bias s k i w = Some (i', rest) \<Longrightarrow> length rest < length s"
proof (induction bias s k i w arbitrary: i' rest rule: decode_digits.induct)
  case (2 bias c s k i w)
  show ?case
  proof (cases "digit_index c < threshold k bias")
    case True
    with "2.prems" show ?thesis by (auto simp: Let_def split: if_splits)
  next
    case False
    with "2.prems" have *: "\<not> digit_index c < 0"
      and "decode_digits bias s (k + base) (wrap32 (i + wrap32 (digit_index c * w)))
             (wrap32 (w * (base - threshold k bias))) = Some (i', rest)"
      by (auto simp: Let_def split: if_splits)
    from "2.IH" [OF refl this(1) refl refl False this(2)] show ?thesis by simp
  qed
qed simp

function decode_loop :: "string \<Rightarrow> nat \<Rightarrow> int \<Rightarrow> int \<Rightarrow> nat list \<Rightarrow> nat list option" where
  "decode_loop InputPunycode n i bias OutCodePoints =
     (if InputPunycode = [] then Some OutCodePoints
      else case decode_digits bias InputPunycode base i 1 of
        None \<Rightarrow> Some OutCodePoints
      | Some (i', InputPunycode') \<Rightarrow> do {
          bias' \<leftarrow> adapt (wrap32 (i' - i)) (wrap32 (int (length OutCodePoints + 1))) (i = 0);
          let n' = (n + u64 i' div (length OutCodePoints + 1)) mod 2 ^ 32;
          let i'' = u64 i' mod (length OutCodePoints + 1);
          if n' < 0x80 then Some OutCodePoints
          else decode_loop InputPunycode' n' (wrap32 (int i'' + 1)) bias'
                 (insert_at i'' n' OutCodePoints)
        })"
  by pat_completeness auto
termination
  by (relation "measure (\<lambda>(s, _). length s)") (auto dest: decode_digits_consumes)

declare decode_loop.simps [simp del]

text \<open>The characters before the last delimiter; \<open>Inl\<close> stops at one that is not basic.\<close>

fun copy_basic :: "string \<Rightarrow> nat list \<Rightarrow> nat list + nat list" where
  "copy_basic [] out = Inr out"
| "copy_basic (c # cs) out = (if ord c > 0x7f then Inl out else copy_basic cs (out @ [ord c]))"

definition decodePunycode :: "string \<Rightarrow> (bool \<times> nat list) option" where
  "decodePunycode InputPunycode =
     (case split_last delimiter InputPunycode of
        None \<Rightarrow> map_option (Pair True) (decode_loop InputPunycode initial_n 0 initial_bias [])
      | Some (basic, rest) \<Rightarrow>
          (case copy_basic basic [] of
             Inl out \<Rightarrow> Some (True, out)
           | Inr out \<Rightarrow> map_option (Pair True) (decode_loop rest initial_n 0 initial_bias out)))"

section \<open>Encoding\<close>

text \<open>The basic code points, copied in order; \<open>None\<close> at a surrogate (\<open>return false\<close>).\<close>

fun encode_basic :: "nat list \<Rightarrow> nat \<Rightarrow> string \<Rightarrow> (nat \<times> string) option" where
  "encode_basic [] h out = Some (h, out)"
| "encode_basic (C # Cs) h out =
     (let (h, out) = (if C < 0x80 then (h + 1, out @ [char_of C]) else (h, out)) in
      if \<not> isValidUnicodeScalar C then None else encode_basic Cs h out)"

text \<open>The smallest code point that is at least \<open>n\<close>; the search starts from \<open>0x10FFFF\<close>.\<close>

fun min_code_point :: "nat \<Rightarrow> nat \<Rightarrow> nat list \<Rightarrow> nat" where
  "min_code_point n m [] = m"
| "min_code_point n m (codePoint # cps) =
     min_code_point n (if codePoint \<ge> n \<and> codePoint < m then codePoint else m) cps"

function encode_digits :: "int \<Rightarrow> int \<Rightarrow> int \<Rightarrow> string option" where
  "encode_digits bias q k =
     (let t = threshold k bias in
      if q < t then map_option (\<lambda>c. [c]) (digit_value q)
      else do {
        c \<leftarrow> digit_value (t + ((q - t) smod (base - t)));
        cs \<leftarrow> encode_digits bias ((q - t) sdiv (base - t)) (k + base);
        Some (c # cs)
      })"
  by pat_completeness auto
termination
proof (relation "measure (\<lambda>(bias, q, k). nat q)")
  fix bias q k t :: int and c
  assume t: "t = threshold k bias" and "\<not> q < t"
  then have "1 \<le> t" "t \<le> 26" "t \<le> q" by (auto simp: threshold_def)
  then have "(q - t) sdiv (base - t) = (q - t) div (36 - t)" "(q - t) div (36 - t) \<le> q - t"
    using zdiv_mono2 [of "q - t" 1 "36 - t"] by auto
  with \<open>1 \<le> t\<close> \<open>t \<le> q\<close>
  show "((bias, (q - t) sdiv (base - t), k + base), (bias, q, k))
    \<in> measure (\<lambda>(bias, q, k). nat q)"
    by simp
qed simp

declare encode_digits.simps [simp del]

text \<open>The second inner loop: pass over the input, emitting a delta for every \<open>c = n\<close>.\<close>

fun encode_pass ::
  "nat list \<Rightarrow> nat \<Rightarrow> nat \<Rightarrow> int \<Rightarrow> int \<Rightarrow> nat \<Rightarrow> string \<Rightarrow> (int \<times> int \<times> nat \<times> string) option"
where
  "encode_pass [] n b delta bias h out = Some (delta, bias, h, out)"
| "encode_pass (c # cs) n b delta bias h out =
     (let delta = (if c < n then wrap32 (delta + 1) else delta) in
      if c = n then do {
        digits \<leftarrow> encode_digits bias delta base;
        bias' \<leftarrow> adapt delta (wrap32 (int (h + 1))) (h = b);
        encode_pass cs n b 0 bias' (h + 1) (out @ digits)
      }
      else encode_pass cs n b delta bias h out)"

partial_function (option) encode_loop ::
  "nat list \<Rightarrow> nat \<Rightarrow> nat \<Rightarrow> int \<Rightarrow> int \<Rightarrow> nat \<Rightarrow> string \<Rightarrow> string option"
where
  "encode_loop InputCodePoints b n delta bias h out =
     (if \<not> h < length InputCodePoints then Some out
      else do {
        let m = min_code_point n 0x10FFFF InputCodePoints;
        let delta = wrap32 (delta + int ((m + 2 ^ 32 - n) mod 2 ^ 32 * (h + 1)));
        (delta, bias, h, out) \<leftarrow> encode_pass InputCodePoints m b delta bias h out;
        encode_loop InputCodePoints b ((m + 1) mod 2 ^ 32) (wrap32 (delta + 1)) bias h out
      })"

declare encode_loop.simps [code]

definition encodePunycode :: "nat list \<Rightarrow> (bool \<times> string) option" where
  "encodePunycode InputCodePoints =
     (case encode_basic InputCodePoints 0 [] of
        None \<Rightarrow> Some (False, [])
      | Some (b, out) \<Rightarrow>
          map_option (Pair True)
            (encode_loop InputCodePoints b initial_n 0 initial_bias b
              (if b > 0 then out @ [delimiter] else out)))"

section \<open>UTF-8\<close>

text \<open>The bytes of one scalar: the \<open>switch\<close> of \<open>encodeToUTF8\<close>; a \<open>uint8_t\<close> keeps 8 bits.\<close>

definition utf8_bytes :: "nat \<Rightarrow> string" where
  "utf8_bytes S =
     (if S < 0x80 then [char_of S]
      else if S < 0x800 then
        (let Byte2 = (S OR 0x80) AND 0xBF;
             S = drop_bit 6 S;
             Byte1 = S OR 0xC0
         in [char_of Byte1, char_of Byte2])
      else if S < 0x10000 then
        (let Byte3 = (S OR 0x80) AND 0xBF;
             S = drop_bit 6 S;
             Byte2 = (S OR 0x80) AND 0xBF;
             S = drop_bit 6 S;
             Byte1 = S OR 0xE0
         in [char_of Byte1, char_of Byte2, char_of Byte3])
      else
        (let Byte4 = (S OR 0x80) AND 0xBF;
             S = drop_bit 6 S;
             Byte3 = (S OR 0x80) AND 0xBF;
             S = drop_bit 6 S;
             Byte2 = (S OR 0x80) AND 0xBF;
             S = drop_bit 6 S;
             Byte1 = S OR 0xF0
         in [char_of Byte1, char_of Byte2, char_of Byte3, char_of Byte4]))"

fun encodeToUTF8 :: "nat list \<Rightarrow> string \<Rightarrow> bool \<times> string" where
  "encodeToUTF8 [] OutUTF8 = (True, OutUTF8)"
| "encodeToUTF8 (S # Scalars) OutUTF8 =
     (if \<not> isValidUnicodeScalar S then (False, [])
      else
        let S = (if S \<ge> 0xD800 \<and> S < 0xD880 then S - 0xD800 else S)
        in encodeToUTF8 Scalars (OutUTF8 @ utf8_bytes S))"

definition decodePunycodeUTF8 :: "string \<Rightarrow> (bool \<times> string) option" where
  "decodePunycodeUTF8 InputPunycode = do {
     (ok, OutCodePoints) \<leftarrow> decodePunycode InputPunycode;
     if \<not> ok then Some (False, []) else Some (encodeToUTF8 OutCodePoints [])
   }"

definition isContinuationByte :: "char \<Rightarrow> bool" where
  "isContinuationByte unit \<longleftrightarrow> ord unit AND 0xC0 = 0x80"

fun convertUTF8toUTF32 :: "bool \<Rightarrow> string \<Rightarrow> nat list \<Rightarrow> bool \<times> nat list" where
  "convertUTF8toUTF32 mapNonSymbolChars [] OutUTF32 = (True, OutUTF32)"
| "convertUTF8toUTF32 mapNonSymbolChars (first # ptr) OutUTF32 =
     (if ord first < 0x80 then
        (if isValidSymbolChar first \<or> \<not> mapNonSymbolChars
         then convertUTF8toUTF32 mapNonSymbolChars ptr (OutUTF32 @ [ord first])
         else convertUTF8toUTF32 mapNonSymbolChars ptr (OutUTF32 @ [ord first + 0xD800]))
      else if ord first < 0xC0 then (False, OutUTF32)
      else if ord first < 0xE0 then
        (case ptr of
           second # ptr \<Rightarrow>
             (if \<not> isContinuationByte second then (False, OutUTF32)
              else convertUTF8toUTF32 mapNonSymbolChars ptr
                (OutUTF32 @ [push_bit 6 (ord first AND 0x1F) OR (ord second AND 0x3F)]))
         | _ \<Rightarrow> (False, OutUTF32))
      else if ord first < 0xF0 then
        (case ptr of
           second # third # ptr \<Rightarrow>
             (if \<not> isContinuationByte second \<or> \<not> isContinuationByte third
              then (False, OutUTF32)
              else convertUTF8toUTF32 mapNonSymbolChars ptr
                (OutUTF32 @ [push_bit 12 (ord first AND 0xF) OR push_bit 6 (ord second AND 0x3F)
                  OR (ord third AND 0x3F)]))
         | _ \<Rightarrow> (False, OutUTF32))
      else if ord first < 0xF8 then
        (case ptr of
           second # third # fourth # ptr \<Rightarrow>
             (if \<not> isContinuationByte second \<or> \<not> isContinuationByte third
                 \<or> \<not> isContinuationByte fourth
              then (False, OutUTF32)
              else convertUTF8toUTF32 mapNonSymbolChars ptr
                (OutUTF32 @ [push_bit 18 (ord first AND 0x7) OR push_bit 12 (ord second AND 0x3F)
                  OR push_bit 6 (ord third AND 0x3F) OR (ord fourth AND 0x3F)]))
         | _ \<Rightarrow> (False, OutUTF32))
      else (False, OutUTF32))"

declare convertUTF8toUTF32.simps(2) [simp del]

definition encodePunycodeUTF8 :: "string \<Rightarrow> bool \<Rightarrow> (bool \<times> string) option" where
  "encodePunycodeUTF8 InputUTF8 mapNonSymbolChars =
     (let (ok, InputCodePoints) = convertUTF8toUTF32 mapNonSymbolChars InputUTF8 [] in
      if \<not> ok then Some (False, []) else encodePunycode InputCodePoints)"

end
