(* ===== verification/Demangler_State.thy ===== *)
theory Demangler_State
  imports Demangle_Node Punycode
begin

text \<open>
  The state of \<open>class Demangler\<close> (\<open>include/swift/Demangling/Demangler.h\<close>), its character-level
  primitives, the node stack, and the lexical operations of \<open>lib/Demangling/Demangler.cpp\<close>:
  numbers, identifiers with word substitutions, operator identifiers.

  An operation maps the state to \<open>Some (result, new state)\<close>; \<open>None\<close> means that an assertion
  fails or a null pointer is dereferenced. A result of type \<open>node option\<close> is a \<open>NodePointer\<close>.
  The node stack has its top at the head of the list; \<open>Words\<close> holds the first \<open>NumWords\<close>
  elements of the array.
\<close>

section \<open>The state\<close>

record demangler =
  Text :: string
  Pos :: nat
  IsOldFunctionTypeMangling :: bool
  NodeStack :: "node list"
  Substitutions :: "node list"
  Words :: "string list"

type_synonym 'a result = "('a \<times> demangler) option"

abbreviation (input) MaxNumWords :: nat where "MaxNumWords \<equiv> 26"
abbreviation (input) MaxRepeatCount :: int where "MaxRepeatCount \<equiv> 2048"

definition new_demangler :: demangler where
  "new_demangler = \<lparr>Text = [], Pos = 0, IsOldFunctionTypeMangling = False, NodeStack = [],
     Substitutions = [], Words = []\<rparr>"

definition init :: "string \<Rightarrow> demangler \<Rightarrow> demangler" where
  "init MangledName d = d\<lparr>NodeStack := [], Substitutions := [], Words := [],
     Text := MangledName, Pos := 0\<rparr>"

section \<open>Characters\<close>

definition peekChar :: "demangler \<Rightarrow> char" where
  "peekChar d = (if Pos d \<ge> length (Text d) then CHR 0x00 else Text d ! Pos d)"

definition nextChar :: "demangler \<Rightarrow> char \<times> demangler" where
  "nextChar d =
     (if Pos d \<ge> length (Text d) then (CHR 0x00, d)
      else (Text d ! Pos d, d\<lparr>Pos := Pos d + 1\<rparr>))"

definition nextIf :: "char \<Rightarrow> demangler \<Rightarrow> bool \<times> demangler" where
  "nextIf c d = (if peekChar d \<noteq> c then (False, d) else (True, d\<lparr>Pos := Pos d + 1\<rparr>))"

definition nextIf_str :: "string \<Rightarrow> demangler \<Rightarrow> bool \<times> demangler" where
  "nextIf_str str d =
     (if take (length str) (drop (Pos d) (Text d)) \<noteq> str then (False, d)
      else (True, d\<lparr>Pos := Pos d + length str\<rparr>))"

definition pushBack :: "demangler \<Rightarrow> unit result" where
  "pushBack d = do { assert_that (Pos d > 0); Some ((), d\<lparr>Pos := Pos d - 1\<rparr>) }"

definition consumeAll :: "demangler \<Rightarrow> string \<times> demangler" where
  "consumeAll d = (drop (Pos d) (Text d), d\<lparr>Pos := length (Text d)\<rparr>)"

section \<open>The node stack\<close>

definition pushNode :: "node \<Rightarrow> demangler \<Rightarrow> demangler" where
  "pushNode Nd d = d\<lparr>NodeStack := Nd # NodeStack d\<rparr>"

definition popNode :: "demangler \<Rightarrow> node option \<times> demangler" where
  "popNode d =
     (case NodeStack d of [] \<Rightarrow> (None, d) | Nd # st \<Rightarrow> (Some Nd, d\<lparr>NodeStack := st\<rparr>))"

definition popNode_if :: "(node_kind \<Rightarrow> bool) \<Rightarrow> demangler \<Rightarrow> node option \<times> demangler" where
  "popNode_if pred d =
     (case NodeStack d of
        [] \<Rightarrow> (None, d)
      | Nd # st \<Rightarrow> (if \<not> pred (getKind Nd) then (None, d) else popNode d))"

definition popNode_kind :: "node_kind \<Rightarrow> demangler \<Rightarrow> node option \<times> demangler" where
  "popNode_kind kind d = popNode_if (\<lambda>NdKind. NdKind = kind) d"

definition addSubstitution :: "node option \<Rightarrow> demangler \<Rightarrow> demangler" where
  "addSubstitution Nd d =
     (case Nd of None \<Rightarrow> d | Some n \<Rightarrow> d\<lparr>Substitutions := Substitutions d @ [n]\<rparr>)"

definition createWithPoppedType :: "node_kind \<Rightarrow> demangler \<Rightarrow> node option \<times> demangler" where
  "createWithPoppedType kind d =
     (let (Ty, d) = popNode_kind K_Type d in (createWithChild kind Ty, d))"

text \<open>\<open>while (RepeatCount-- > 1) pushNode(Nd)\<close>\<close>

definition push_repeated :: "int \<Rightarrow> node \<Rightarrow> demangler \<Rightarrow> demangler" where
  "push_repeated RepeatCount Nd d = (pushNode Nd ^^ nat (RepeatCount - 1)) d"

section \<open>Numbers\<close>

lemma nextChar_Text [simp]: "Text (snd (nextChar d)) = Text d"
  by (simp add: nextChar_def)

lemma nextChar_Pos: "peekChar d \<noteq> CHR 0x00 \<Longrightarrow> Pos (snd (nextChar d)) = Pos d + 1 \<and> Pos d < length (Text d)"
  by (auto simp: nextChar_def peekChar_def split: if_splits)

lemma isDigit_peek: "isDigit (peekChar d) \<Longrightarrow> Pos d < length (Text d)"
  by (auto simp: peekChar_def isDigit_def split: if_splits)

text \<open>The loop of \<open>demangleNatural\<close>; signed overflow of \<open>newNum\<close> wraps.\<close>

function natural_loop :: "int \<Rightarrow> demangler \<Rightarrow> int \<times> demangler" where
  "natural_loop num d =
     (let c = peekChar d in
      if \<not> isDigit c then (num, d)
      else
        let newNum = wrap32 (10 * num + (int (ord c) - 48)) in
        if newNum < num then (- 1000, d)
        else natural_loop newNum (snd (nextChar d)))"
  by pat_completeness auto
termination
  by (relation "measure (\<lambda>(num, d). length (Text d) - Pos d)")
    (auto dest!: isDigit_peek simp: nextChar_def)

declare natural_loop.simps [simp del]

definition demangleNatural :: "demangler \<Rightarrow> int \<times> demangler" where
  "demangleNatural d = (if \<not> isDigit (peekChar d) then (- 1000, d) else natural_loop 0 d)"

definition demangleIndex :: "demangler \<Rightarrow> int \<times> demangler" where
  "demangleIndex d =
     (let (b, d) = nextIf (CHR ''_'') d in
      if b then (0, d)
      else
        let (num, d) = demangleNatural d in
        if num \<ge> 0 then
          let (b, d) = nextIf (CHR ''_'') d in
          if b then (wrap32 (num + 1), d) else (- 1000, d)
        else (- 1000, d))"

definition demangleIndexAsNode :: "demangler \<Rightarrow> node option \<times> demangler" where
  "demangleIndexAsNode d =
     (let (Idx, d) = demangleIndex d in
      if Idx \<ge> 0 then (Some (createNodeIndex K_Number (nat Idx)), d) else (None, d))"

section \<open>Identifiers\<close>

text \<open>
  The loop that collects the words of a literal slice: \<open>Idx\<close> runs to the length of the slice
  inclusive, where the current character is NUL; \<open>wordStartPos\<close> is \<open>None\<close> for \<open>-1\<close>.
\<close>

function collect_words :: "string \<Rightarrow> nat \<Rightarrow> nat option \<Rightarrow> string list \<Rightarrow> string list" where
  "collect_words Slice Idx wordStartPos words =
     (if Idx > length Slice then words
      else
        let c = (if Idx < length Slice then Slice ! Idx else CHR 0x00);
            (wordStartPos, words) =
              (case wordStartPos of
                 Some s \<Rightarrow>
                   (if isWordEnd c (Slice ! (Idx - 1)) then
                      (None, if Idx - s \<ge> 2 \<and> length words < MaxNumWords
                             then words @ [take (Idx - s) (drop s Slice)] else words)
                    else (Some s, words))
               | None \<Rightarrow> (None, words));
            wordStartPos = (if wordStartPos = None \<and> isWordStart c then Some Idx else wordStartPos)
        in collect_words Slice (Suc Idx) wordStartPos words)"
  by pat_completeness auto
termination
  by (relation "measure (\<lambda>(Slice, Idx, _). Suc (length Slice) - Idx)") auto

declare collect_words.simps [simp del]

text \<open>
  The word substitutions at the start of one round of the identifier loop; \<open>None\<close> is
  \<open>return nullptr\<close> on an index without a word. The flag returned is \<open>hasWordSubsts\<close>.
\<close>

lemma isLetter_peek: "isLetter (peekChar d) \<Longrightarrow> Pos d < length (Text d)"
  by (auto simp: peekChar_def char_defs split: if_splits)

function word_substs :: "string \<Rightarrow> demangler \<Rightarrow> (bool \<times> string) option \<times> demangler" where
  "word_substs Identifier d =
     (if isLetter (peekChar d) then
        let (c, d') = nextChar d;
            WordIdx = (if isLowerLetter c then ord c - 97 else ord c - 65)
        in
        if WordIdx \<ge> length (Words d') then (None, d')
        else if isLowerLetter c then word_substs (Identifier @ Words d' ! WordIdx) d'
        else (Some (False, Identifier @ Words d' ! WordIdx), d')
      else (Some (True, Identifier), d))"
  by pat_completeness auto
termination
  by (relation "measure (\<lambda>(Identifier, d). length (Text d) - Pos d)")
    (auto dest!: isLetter_peek simp: nextChar_def split: if_splits)

declare word_substs.simps [simp del]

text \<open>
  One round of the identifier loop: \<open>Inl\<close> leaves the function with \<open>nullptr\<close>, \<open>Inr (more,
  Identifier)\<close> says whether the loop goes on.
\<close>

definition identifier_round ::
  "bool \<Rightarrow> bool \<Rightarrow> string \<Rightarrow> demangler \<Rightarrow> (unit + bool \<times> string) result" where
  "identifier_round isPunycoded hasWordSubsts Identifier d =
     (let (r, d) = (if hasWordSubsts then word_substs Identifier d
                    else (Some (False, Identifier), d)) in
      case r of
        None \<Rightarrow> Some (Inl (), d)
      | Some (hasWordSubsts, Identifier) \<Rightarrow>
          let (b, d) = nextIf (CHR ''0'') d in
          if b then Some (Inr (False, Identifier), d)
          else
            let (numChars, d) = demangleNatural d in
            if numChars \<le> 0 then Some (Inl (), d)
            else
              let d = (if isPunycoded then snd (nextIf (CHR ''_'') d) else d) in
              if Pos d + nat numChars > length (Text d) then Some (Inl (), d)
              else
                let Slice = take (nat numChars) (drop (Pos d) (Text d)) in
                if isPunycoded then do {
                  (ok, PunycodedString) \<leftarrow> decodePunycodeUTF8 Slice;
                  if \<not> ok then Some (Inl (), d)
                  else Some (Inr (hasWordSubsts, Identifier @ PunycodedString),
                         d\<lparr>Pos := Pos d + nat numChars\<rparr>)
                }
                else Some (Inr (hasWordSubsts, Identifier @ Slice),
                       d\<lparr>Words := collect_words Slice 0 None (Words d),
                         Pos := Pos d + nat numChars\<rparr>))"

text \<open>What every operation that only reads does to the position.\<close>

definition advances :: "demangler \<Rightarrow> demangler \<Rightarrow> bool" where
  "advances d d' \<longleftrightarrow> Text d' = Text d \<and> IsOldFunctionTypeMangling d' = IsOldFunctionTypeMangling d
     \<and> Pos d \<le> Pos d' \<and> (Pos d \<le> length (Text d) \<longrightarrow> Pos d' \<le> length (Text d))"

lemma advances_refl [simp]: "advances d d"
  by (simp add: advances_def)

lemma advances_trans [trans]: "advances d e \<Longrightarrow> advances e f \<Longrightarrow> advances d f"
  by (auto simp: advances_def)

lemma advances_nextChar: "advances d (snd (nextChar d))"
  by (simp add: advances_def nextChar_def)

lemma advances_nextIf: "c \<noteq> CHR 0x00 \<Longrightarrow> advances d (snd (nextIf c d))"
  by (auto simp: advances_def nextIf_def peekChar_def)

lemma advances_natural_loop: "advances d (snd (natural_loop num d))"
proof (induction num d rule: natural_loop.induct)
  case (1 num d)
  show ?case
  proof (cases "isDigit (peekChar d) \<and> \<not> wrap32 (10 * num + (int (ord (peekChar d)) - 48)) < num")
    case True
    with "1.IH" [OF refl _ refl] have "advances (snd (nextChar d))
      (snd (natural_loop (wrap32 (10 * num + (int (ord (peekChar d)) - 48))) (snd (nextChar d))))"
      by simp
    with True show ?thesis
      by (subst natural_loop.simps) (auto simp: Let_def intro: advances_trans advances_nextChar)
  next
    case False
    then show ?thesis by (subst natural_loop.simps) (auto simp: Let_def)
  qed
qed

lemma advances_demangleNatural: "advances d (snd (demangleNatural d))"
  by (simp add: demangleNatural_def advances_natural_loop)

lemma advances_demangleIndex: "advances d (snd (demangleIndex d))"
  using advances_nextIf [of "CHR ''_''" d] advances_demangleNatural [of "snd (nextIf (CHR ''_'') d)"]
    advances_nextIf [of "CHR ''_''" "snd (demangleNatural (snd (nextIf (CHR ''_'') d)))"]
  by (auto simp: demangleIndex_def Let_def split: prod.splits intro: advances_trans)

lemma advances_word_substs: "advances d (snd (word_substs I d))"
proof (induction I d rule: word_substs.induct)
  case (1 I d)
  then show ?case
    using advances_nextChar [of d]
    by (subst word_substs.simps) (auto simp: Let_def split: prod.splits intro: advances_trans)
qed

lemma advances_eqs:
  "nextChar d = (c, d') \<Longrightarrow> advances d d'"
  "nextIf ch d = (b, d') \<Longrightarrow> ch \<noteq> CHR 0x00 \<Longrightarrow> advances d d'"
  "demangleNatural d = (num, d') \<Longrightarrow> advances d d'"
  "demangleIndex d = (num, d') \<Longrightarrow> advances d d'"
  "word_substs I d = (r, d') \<Longrightarrow> advances d d'"
  using advances_nextChar [of d] advances_nextIf [of ch d] advances_demangleNatural [of d]
    advances_demangleIndex [of d] advances_word_substs [of d I]
  by auto

lemma identifier_round_advances:
  assumes "identifier_round p h I d = Some (r, d')"
  shows "advances d d' \<and>
    (\<forall>I'. r = Inr (True, I') \<longrightarrow> Pos d < Pos d' \<and> Pos d' \<le> length (Text d))"
proof -
  obtain r1 d1 where 1: "(if h then word_substs I d else (Some (False, I), d)) = (r1, d1)" by force
  have a1: "advances d d1" using 1 by (auto split: if_splits dest: advances_eqs)
  show ?thesis
  proof (cases r1)
    case None
    with assms 1 a1 show ?thesis by (auto simp: identifier_round_def)
  next
    case (Some hI)
    obtain h' I' where hI: "hI = (h', I')" by force
    obtain b d2 where 2: "nextIf (CHR ''0'') d1 = (b, d2)" by force
    obtain num d3 where 3: "demangleNatural d2 = (num, d3)" by force
    have a3: "advances d d2" "advances d d3" using a1 2 3 by (auto dest: advances_eqs advances_trans)
    define d4 where "d4 = (if p then snd (nextIf (CHR ''_'') d3) else d3)"
    have a4: "advances d d4"
      using a3 advances_nextIf [of "CHR ''_''" d3] by (auto simp: d4_def intro: advances_trans)
    show ?thesis
    proof (cases "b \<or> num \<le> 0 \<or> Pos d4 + nat num > length (Text d4)")
      case True
      with assms 1 Some hI 2 3 a3 a4 show ?thesis
        unfolding identifier_round_def Let_def
        by (auto simp: d4_def split: if_splits)
    next
      case False
      with a4 have "advances d (d4\<lparr>Words := w, Pos := Pos d4 + nat num\<rparr>)"
        "Pos d < Pos d4 + nat num" for w
        by (auto simp: advances_def)
      with False assms 1 Some hI 2 3 a4 show ?thesis
        unfolding identifier_round_def Let_def
        by (auto simp: bind_Some_iffs d4_def advances_def split: if_splits prod.splits)
    qed
  qed
qed

function identifier_loop ::
  "bool \<Rightarrow> bool \<Rightarrow> string \<Rightarrow> demangler \<Rightarrow> string option result" where
  "identifier_loop isPunycoded hasWordSubsts Identifier d =
     (case identifier_round isPunycoded hasWordSubsts Identifier d of
        None \<Rightarrow> None
      | Some (Inl _, d') \<Rightarrow> Some (None, d')
      | Some (Inr (hasWordSubsts', Identifier'), d') \<Rightarrow>
          (if hasWordSubsts' then identifier_loop isPunycoded hasWordSubsts' Identifier' d'
           else Some (Some Identifier', d')))"
  by pat_completeness auto
termination
  by (relation "measure (\<lambda>(p, h, I, d). Suc (length (Text d)) - Pos d)")
    (auto dest!: identifier_round_advances simp: advances_def)

declare identifier_loop.simps [simp del]

definition demangleIdentifier :: "demangler \<Rightarrow> node option result" where
  "demangleIdentifier d =
     (let c = peekChar d in
      if \<not> isDigit c then Some (None, d)
      else
        let (isPunycoded, hasWordSubsts, d) =
          (if c = CHR ''0'' then
             let d = snd (nextChar d) in
             if peekChar d = CHR ''0'' then (True, False, snd (nextChar d)) else (False, True, d)
           else (False, False, d))
        in do {
          (r, d) \<leftarrow> identifier_loop isPunycoded hasWordSubsts [] d;
          case r of
            None \<Rightarrow> Some (None, d)
          | Some Identifier \<Rightarrow>
              if Identifier = [] then Some (None, d)
              else
                let Ident = Some (createNodeText K_Identifier Identifier)
                in Some (Ident, addSubstitution Ident d)
        })"

end
