(* ===== verification/Demangler_Types.thy ===== *)
theory Demangler_Types
  imports Demangler_State
begin

text \<open>
  The operators of \<open>lib/Demangling/Demangler.cpp\<close> for substitutions, declaration names, contexts
  and types, in the order of the source.
\<close>

section \<open>Substitutions\<close>

definition pushMultiSubstitutions :: "int \<Rightarrow> nat \<Rightarrow> demangler \<Rightarrow> node option \<times> demangler" where
  "pushMultiSubstitutions RepeatCount SubstIdx d =
     (if SubstIdx \<ge> length (Substitutions d) then (None, d)
      else if RepeatCount > MaxRepeatCount then (None, d)
      else
        let Nd = Substitutions d ! SubstIdx
        in (Some Nd, push_repeated RepeatCount Nd d))"

lemma push_repeated_simps [simp]:
  "Text (push_repeated n Nd d) = Text d" "Pos (push_repeated n Nd d) = Pos d"
  "IsOldFunctionTypeMangling (push_repeated n Nd d) = IsOldFunctionTypeMangling d"
  "Substitutions (push_repeated n Nd d) = Substitutions d"
  "Words (push_repeated n Nd d) = Words d"
  "NodeStack (push_repeated n Nd d) = replicate (nat (n - 1)) Nd @ NodeStack d"
proof -
  have "Text ((pushNode Nd ^^ k) d) = Text d \<and> Pos ((pushNode Nd ^^ k) d) = Pos d \<and>
    IsOldFunctionTypeMangling ((pushNode Nd ^^ k) d) = IsOldFunctionTypeMangling d \<and>
    Substitutions ((pushNode Nd ^^ k) d) = Substitutions d \<and> Words ((pushNode Nd ^^ k) d) = Words d
    \<and> NodeStack ((pushNode Nd ^^ k) d) = replicate k Nd @ NodeStack d" for k
    by (induction k) (auto simp: pushNode_def)
  then show
    "Text (push_repeated n Nd d) = Text d" "Pos (push_repeated n Nd d) = Pos d"
    "IsOldFunctionTypeMangling (push_repeated n Nd d) = IsOldFunctionTypeMangling d"
    "Substitutions (push_repeated n Nd d) = Substitutions d"
    "Words (push_repeated n Nd d) = Words d"
    "NodeStack (push_repeated n Nd d) = replicate (nat (n - 1)) Nd @ NodeStack d"
    by (auto simp: push_repeated_def)
qed

lemma pushMultiSubstitutions_reads [simp]:
  "Text (snd (pushMultiSubstitutions n i d)) = Text d"
  "Pos (snd (pushMultiSubstitutions n i d)) = Pos d"
  "IsOldFunctionTypeMangling (snd (pushMultiSubstitutions n i d)) = IsOldFunctionTypeMangling d"
  by (auto simp: pushMultiSubstitutions_def Let_def)

lemma demangleNatural_progress:
  assumes "demangleNatural d = (num, d')" "0 \<le> num"
  shows "Text d' = Text d \<and> Pos d < Pos d' \<and> Pos d < length (Text d)"
proof -
  have dig: "isDigit (peekChar d)" using assms by (auto simp: demangleNatural_def split: if_splits)
  have "natural_loop 0 d = natural_loop (int (ord (peekChar d)) - 48) (snd (nextChar d))"
    using dig by (subst natural_loop.simps) (simp add: Let_def isDigit_def)
  moreover have "natural_loop 0 d = (num, d')" using assms dig by (simp add: demangleNatural_def)
  ultimately have "advances (snd (nextChar d)) d'"
    using advances_natural_loop
      [of "snd (nextChar d)" "int (ord (peekChar d)) - 48"] by (metis snd_conv)
  with isDigit_peek [OF dig] show ?thesis by (auto simp: advances_def nextChar_def)
qed

lemma nextChar_nonzero:
  assumes "nextChar d = (c, d')" "c \<noteq> CHR 0x00"
  shows "Pos d < length (Text d)" "d' = d\<lparr>Pos := Pos d + 1\<rparr>" "c = Text d ! Pos d"
  using assms by (auto simp: nextChar_def split: if_splits)

text \<open>
  A single \<open>A\<close> operator carries a sequence of substitutions; \<open>RepeatCount\<close> is \<open>-1\<close> when no
  number precedes the letter.
\<close>

function multi_subst_loop :: "int \<Rightarrow> demangler \<Rightarrow> node option result" where
  "multi_subst_loop RepeatCount d =
     (case nextChar d of (c, d1) \<Rightarrow>
      if c = CHR 0x00 then Some (None, d1)
      else if isLowerLetter c then
        (case pushMultiSubstitutions RepeatCount (ord c - 97) d1 of
           (None, d2) \<Rightarrow> Some (None, d2)
         | (Some Nd, d2) \<Rightarrow> multi_subst_loop (- 1) (pushNode Nd d2))
      else if isUpperLetter c then Some (pushMultiSubstitutions RepeatCount (ord c - 65) d1)
      else if c = CHR ''_'' then
        let Idx = nat ((RepeatCount + 27) mod 4294967296) in
        if Idx \<ge> length (Substitutions d1) then Some (None, d1)
        else Some (Some (Substitutions d1 ! Idx), d1)
      else
        (case pushBack d1 of
           None \<Rightarrow> None
         | Some (_, d2) \<Rightarrow>
             (case demangleNatural d2 of (RepeatCount', d3) \<Rightarrow>
                if RepeatCount' < 0 then Some (None, d3)
                else multi_subst_loop RepeatCount' d3)))"
  by pat_completeness auto
termination
proof (relation "measure (\<lambda>(RepeatCount, d). length (Text d) - Pos d)", goal_cases)
  case (2 RepeatCount d c d1 r d2 Nd)
  then have "Pos d < length (Text d)" "d1 = d\<lparr>Pos := Pos d + 1\<rparr>" by (auto dest: nextChar_nonzero [OF sym])
  moreover from 2 have "d2 = snd (pushMultiSubstitutions RepeatCount (ord c - 97) d1)"
    by (metis snd_conv)
  ultimately show ?case by (simp add: pushNode_def)
next
  case (3 RepeatCount d c d1 p u d2 RepeatCount' d3)
  then have "Pos d < length (Text d)" "d1 = d\<lparr>Pos := Pos d + 1\<rparr>" by (auto dest: nextChar_nonzero [OF sym])
  moreover from this 3 have "d2 = d" by (auto simp: pushBack_def)
  moreover from 3 have "demangleNatural d2 = (RepeatCount', d3)" "0 \<le> RepeatCount'" by auto
  ultimately have "Text d3 = Text d \<and> Pos d < Pos d3 \<and> Pos d < length (Text d)"
    using demangleNatural_progress [of d RepeatCount' d3] by simp
  then show ?case by (simp add: diff_less_mono2)
qed simp

declare multi_subst_loop.simps [simp del]

definition demangleMultiSubstitutions :: "demangler \<Rightarrow> node option result" where
  "demangleMultiSubstitutions d = multi_subst_loop (- 1) d"

definition createSwiftType :: "node_kind \<Rightarrow> string \<Rightarrow> node option" where
  "createSwiftType typeKind name =
     createType (createWithChildren2 typeKind
       (Some (createNodeText K_Module ''Swift'')) (Some (createNodeText K_Identifier name)))"

fun find_standard_type :: "char \<Rightarrow> (bool \<times> char \<times> string) list \<Rightarrow> node option" where
  "find_standard_type Subst [] = None"
| "find_standard_type Subst ((is_enum, c, name) # ts) =
     (if Subst = c then createSwiftType (if is_enum then K_Enum else K_Structure) name
      else find_standard_type Subst ts)"

definition createStandardSubstitution :: "char \<Rightarrow> node option" where
  "createStandardSubstitution Subst = find_standard_type Subst standard_types"

definition demangleStandardSubstitution :: "demangler \<Rightarrow> node option result" where
  "demangleStandardSubstitution d =
     (let (c, d) = nextChar d in
      if c = CHR ''o'' then Some (Some (createNodeText K_Module ''__C''), d)
      else if c = CHR ''C'' then Some (Some (createNodeText K_Module ''__C_Synthesized''), d)
      else if c = CHR ''g'' then
        let (Ty, d) = popNode_kind K_Type d;
            OptionalTy = createType (createWithChildren2 K_BoundGenericEnum
              (createSwiftType K_Enum ''Optional'') (createWithChild K_TypeList Ty))
        in Some (OptionalTy, addSubstitution OptionalTy d)
      else do {
        (_, d) \<leftarrow> pushBack d;
        let (RepeatCount, d) = demangleNatural d;
        if RepeatCount > MaxRepeatCount then Some (None, d)
        else
          let (c, d) = nextChar d in
          case createStandardSubstitution c of
            None \<Rightarrow> Some (None, d)
          | Some Nd \<Rightarrow> Some (Some Nd, push_repeated RepeatCount Nd d)
      })"

section \<open>Declaration names\<close>

definition op_char_table :: string where
  "op_char_table = ''& @/= >    <*!|+?%-~   ^ .''"

fun demangle_op_chars :: "string \<Rightarrow> string option" where
  "demangle_op_chars [] = Some []"
| "demangle_op_chars (c # cs) =
     (if ord c \<ge> 128 then map_option (Cons c) (demangle_op_chars cs)
      else if \<not> isLowerLetter c then None
      else
        let o' = op_char_table ! (ord c - 97) in
        if o' = CHR '' '' then None else map_option (Cons o') (demangle_op_chars cs))"

definition demangleOperatorIdentifier :: "demangler \<Rightarrow> node option result" where
  "demangleOperatorIdentifier d =
     (let (Ident, d) = popNode_kind K_Identifier d in
      case Ident of
        None \<Rightarrow> Some (None, d)
      | Some I \<Rightarrow> do {
          t \<leftarrow> getText I;
          case demangle_op_chars t of
            None \<Rightarrow> Some (None, d)
          | Some OpStr \<Rightarrow>
              let (c, d) = nextChar d in
              if c = CHR ''i'' then Some (Some (createNodeText K_InfixOperator OpStr), d)
              else if c = CHR ''p'' then Some (Some (createNodeText K_PrefixOperator OpStr), d)
              else if c = CHR ''P'' then Some (Some (createNodeText K_PostfixOperator OpStr), d)
              else Some (None, d)
        })"

definition demangleLocalIdentifier :: "demangler \<Rightarrow> node option \<times> demangler" where
  "demangleLocalIdentifier d =
     (let (b, d) = nextIf (CHR ''L'') d in
      if b then
        let (discriminator, d) = popNode_kind K_Identifier d;
            (name, d) = popNode_if isDeclName d
        in (createWithChildren2 K_PrivateDeclName discriminator name, d)
      else
        let (b, d) = nextIf (CHR ''l'') d in
        if b then
          let (discriminator, d) = popNode_kind K_Identifier d
          in (createWithChild K_PrivateDeclName discriminator, d)
        else
          let (discriminator, d) = demangleIndexAsNode d;
              (name, d) = popNode_if isDeclName d
          in (createWithChildren2 K_LocalDeclName discriminator name, d))"

section \<open>Contexts\<close>

definition popModule :: "demangler \<Rightarrow> node option \<times> demangler" where
  "popModule d =
     (let (Ident, d) = popNode_kind K_Identifier d in
      if Ident \<noteq> None then (changeKind Ident K_Module, d) else popNode_kind K_Module d)"

definition popContext :: "demangler \<Rightarrow> node option result" where
  "popContext d =
     (let (Mod, d) = popModule d in
      if Mod \<noteq> None then Some (Mod, d)
      else
        let (Ty, d) = popNode_kind K_Type d in
        case Ty of
          Some Ty \<Rightarrow>
            if getNumChildren Ty \<noteq> 1 then Some (None, d)
            else do {
              Child \<leftarrow> getFirstChild Ty;
              if \<not> isContext (getKind Child) then Some (None, d) else Some (Some Child, d)
            }
        | None \<Rightarrow> Some (popNode_if isContext d))"

definition popTypeAndGetChild :: "demangler \<Rightarrow> node option result" where
  "popTypeAndGetChild d =
     (let (Ty, d) = popNode_kind K_Type d in
      case Ty of
        None \<Rightarrow> Some (None, d)
      | Some Ty \<Rightarrow>
          if getNumChildren Ty \<noteq> 1 then Some (None, d)
          else do { Child \<leftarrow> getFirstChild Ty; Some (Some Child, d) })"

definition popTypeAndGetAnyGeneric :: "demangler \<Rightarrow> node option result" where
  "popTypeAndGetAnyGeneric d = do {
     (Child, d) \<leftarrow> popTypeAndGetChild d;
     case Child of
       Some c \<Rightarrow> if isAnyGeneric (getKind c) then Some (Some c, d) else Some (None, d)
     | None \<Rightarrow> Some (None, d)
   }"

section \<open>Builtin types\<close>

text \<open>\<open>CharVector::append(int)\<close> prints into a buffer of \<open>MaxIntPrintSize = 8\<close> bytes.\<close>

definition print_int :: "int \<Rightarrow> string" where
  "print_int n = (if n < 0 then CHR ''-'' # decimal (nat (- n)) else decimal (nat n))"

definition CharVector_append_int :: "string \<Rightarrow> int \<Rightarrow> string option" where
  "CharVector_append_int elems Number = do {
     assert_that (length (print_int Number) > 0 \<and> length (print_int Number) < 8);
     Some (elems @ print_int Number)
   }"

text \<open>The cases \<open>f\<close> and \<open>i\<close>, which differ in the prefix of the name.\<close>

definition builtin_sized :: "string \<Rightarrow> demangler \<Rightarrow> node option result" where
  "builtin_sized prefix d =
     (let (idx, d) = demangleIndex d;
          size = wrap32 (idx - 1) in
      if size \<le> 0 then Some (None, d)
      else do {
        name \<leftarrow> CharVector_append_int prefix size;
        Some (createType (Some (createNodeText K_BuiltinTypeName name)), d)
      })"

definition builtin_vector :: "demangler \<Rightarrow> node option result" where
  "builtin_vector d =
     (let (idx, d) = demangleIndex d;
          elts = wrap32 (idx - 1) in
      if elts \<le> 0 then Some (None, d)
      else do {
        (EltType, d) \<leftarrow> popTypeAndGetChild d;
        case EltType of
          None \<Rightarrow> Some (None, d)
        | Some E \<Rightarrow>
            if getKind E \<noteq> K_BuiltinTypeName then Some (None, d)
            else do {
              t \<leftarrow> getText E;
              if take 8 t \<noteq> ''Builtin.'' then Some (None, d)
              else do {
                name \<leftarrow> CharVector_append_int ''Builtin.Vec'' elts;
                Some (createType (Some (createNodeText K_BuiltinTypeName
                  (name @ ''x'' @ drop 8 t))), d)
              }
            }
      })"

definition demangleBuiltinType :: "demangler \<Rightarrow> node option result" where
  "demangleBuiltinType d =
     (let (c, d) = nextChar d;
          named = (\<lambda>name. Some (createType (Some (createNodeText K_BuiltinTypeName name)), d)) in
      if c = CHR ''b'' then named ''Builtin.BridgeObject''
      else if c = CHR ''B'' then named ''Builtin.UnsafeValueBuffer''
      else if c = CHR ''f'' then builtin_sized ''Builtin.Float'' d
      else if c = CHR ''i'' then builtin_sized ''Builtin.Int'' d
      else if c = CHR ''v'' then builtin_vector d
      else if c = CHR ''O'' then named ''Builtin.UnknownObject''
      else if c = CHR ''o'' then named ''Builtin.NativeObject''
      else if c = CHR ''p'' then named ''Builtin.RawPointer''
      else if c = CHR ''t'' then named ''Builtin.SILToken''
      else if c = CHR ''w'' then named ''Builtin.Word''
      else Some (None, d))"

section \<open>Nominal types and functions\<close>

definition demangleAnyGenericType :: "node_kind \<Rightarrow> demangler \<Rightarrow> node option result" where
  "demangleAnyGenericType kind d = do {
     let (Name, d) = popNode_if isDeclName d;
     (Ctx, d) \<leftarrow> popContext d;
     let NTy = createType (createWithChildren2 kind Ctx Name);
     Some (NTy, addSubstitution NTy d)
   }"

definition demangleExtensionContext :: "demangler \<Rightarrow> node option result" where
  "demangleExtensionContext d = do {
     let (GenSig, d) = popNode_kind K_DependentGenericSignature d;
     let (Module, d) = popModule d;
     (Type, d) \<leftarrow> popTypeAndGetAnyGeneric d;
     let Ext = createWithChildren2 K_Extension Module Type;
     Some (if GenSig \<noteq> None then addChild Ext GenSig else Ext, d)
   }"

definition popFunctionParams :: "node_kind \<Rightarrow> demangler \<Rightarrow> node option result" where
  "popFunctionParams kind d = do {
     let (e, d) = popNode_kind K_EmptyList d;
     let (ParamsType, d) =
       (if e \<noteq> None then (createType (Some (createNode K_Tuple)), d) else popNode_kind K_Type d);
     case ParamsType of
       None \<Rightarrow> Some (None, d)
     | Some P \<Rightarrow>
         if kind = K_ArgumentTuple then do {
           Params \<leftarrow> getFirstChild P;
           let NumParams = (if getKind Params = K_Tuple then getNumChildren Params else 1);
           Some (addChild (Some (createNodeIndex kind NumParams)) ParamsType, d)
         }
         else Some (addChild (Some (createNode kind)) ParamsType, d)
   }"

definition popFunctionType :: "node_kind \<Rightarrow> demangler \<Rightarrow> node option result" where
  "popFunctionType kind d = do {
     let (Throws, d) = popNode_kind K_ThrowsAnnotation d;
     let FuncType = (case Throws of None \<Rightarrow> Some (createNode kind)
                                  | Some _ \<Rightarrow> addChild (Some (createNode kind)) Throws);
     (Args, d) \<leftarrow> popFunctionParams K_ArgumentTuple d;
     let FuncType = addChild FuncType Args;
     (Ret, d) \<leftarrow> popFunctionParams K_ReturnType d;
     let FuncType = addChild FuncType Ret;
     Some (createType FuncType, d)
   }"

section \<open>Parameter labels\<close>

definition set_child :: "node \<Rightarrow> nat \<Rightarrow> node \<Rightarrow> node" where
  "set_child nd i c = Node (getKind nd) (getPayload nd) ((children nd)[i := c])"

text \<open>The node reached by a path of child positions, replaced in the whole tree.\<close>

fun replace_at :: "nat list \<Rightarrow> node \<Rightarrow> node \<Rightarrow> node" where
  "replace_at [] new nd = new"
| "replace_at (i # path) new nd = set_child nd i (replace_at path new (children nd ! i))"

fun getChildIf_from :: "nat \<Rightarrow> node list \<Rightarrow> node_kind \<Rightarrow> (node \<times> nat) option" where
  "getChildIf_from i [] filterBy = None"
| "getChildIf_from i (Child # cs) filterBy =
     (if getKind Child = filterBy then Some (Child, i) else getChildIf_from (Suc i) cs filterBy)"

definition getChildIf :: "node \<Rightarrow> node_kind \<Rightarrow> (node \<times> nat) option" where
  "getChildIf nd filterBy = getChildIf_from 0 (children nd) filterBy"

text \<open>
  The two forms of \<open>getLabel\<close>. The old mangling keeps a label inside the parameter's tuple
  element, from which it is removed; the new one keeps it on the stack.
\<close>

definition old_label :: "node \<Rightarrow> (node \<times> node) option" where
  "old_label Param =
     (case getChildIf Param K_TupleElementName of
        Some (Label, i) \<Rightarrow> do {
          Param' \<leftarrow> removeChildAt Param i;
          t \<leftarrow> getText Label;
          Some (createNodeText K_Identifier t, Param')
        }
      | None \<Rightarrow> Some (createNode K_FirstElementMarker, Param))"

fun old_labels :: "nat \<Rightarrow> nat \<Rightarrow> node \<Rightarrow> (node list \<times> node) option" where
  "old_labels i 0 Params = Some ([], Params)"
| "old_labels i (Suc n) Params = do {
     Param \<leftarrow> getChild Params i;
     (Label, Param') \<leftarrow> old_label Param;
     (Labels, Params') \<leftarrow> old_labels (Suc i) n (set_child Params i Param');
     Some (Label # Labels, Params')
   }"

fun new_labels :: "nat \<Rightarrow> demangler \<Rightarrow> node list option \<times> demangler" where
  "new_labels 0 d = (Some [], d)"
| "new_labels (Suc n) d =
     (let (Label, d) = popNode d in
      case Label of
        None \<Rightarrow> (None, d)
      | Some L \<Rightarrow>
          if getKind L \<noteq> K_Identifier \<and> getKind L \<noteq> K_FirstElementMarker then (None, d)
          else let (Labels, d) = new_labels n d in (map_option (Cons L) Labels, d))"

definition has_labels :: "node list \<Rightarrow> bool" where
  "has_labels Labels \<longleftrightarrow> list_ex (\<lambda>L. getKind L \<noteq> K_FirstElementMarker) Labels"

text \<open>
  The function type inside \<open>Type\<close>, with its path: below the generic signature if there is one.
\<close>

definition function_type_of :: "node \<Rightarrow> (nat list \<times> node) option" where
  "function_type_of Type = do {
     FuncType \<leftarrow> getFirstChild Type;
     if getKind FuncType = K_DependentGenericType then do {
       Ty \<leftarrow> getChild FuncType 1;
       FuncType \<leftarrow> getFirstChild Ty;
       Some ([0, 1, 0], FuncType)
     }
     else Some ([0], FuncType)
   }"

definition parameter_type_of :: "node \<Rightarrow> (nat \<times> node) option" where
  "parameter_type_of FuncType = do {
     ParameterType \<leftarrow> getFirstChild FuncType;
     if getKind ParameterType = K_ThrowsAnnotation then do {
       ParameterType \<leftarrow> getChild FuncType 1;
       Some (1, ParameterType)
     }
     else Some (0, ParameterType)
   }"

text \<open>The result holds the label list and the type, which the old mangling has edited.\<close>

definition popFunctionParamLabels ::
  "node option \<Rightarrow> demangler \<Rightarrow> (node option \<times> node option) result" where
  "popFunctionParamLabels Type d =
     (let (e, d) = (if \<not> IsOldFunctionTypeMangling d then popNode_kind K_EmptyList d else (None, d)) in
      if e \<noteq> None then Some ((Some (createNode K_LabelList), Type), d)
      else case Type of
        None \<Rightarrow> Some ((None, Type), d)
      | Some Ty \<Rightarrow>
          if getKind Ty \<noteq> K_Type then Some ((None, Type), d)
          else do {
            (path, FuncType) \<leftarrow> function_type_of Ty;
            if getKind FuncType \<noteq> K_FunctionType then Some ((None, Type), d)
            else do {
              (i, ParameterType) \<leftarrow> parameter_type_of FuncType;
              assert_that (getKind ParameterType = K_ArgumentTuple);
              n \<leftarrow> getIndex ParameterType;
              if n = 0 then Some ((None, Type), d)
              else do {
                TupleTy \<leftarrow> getFirstChild ParameterType;
                Tuple \<leftarrow> getFirstChild TupleTy;
                if IsOldFunctionTypeMangling d then
                  if getKind Tuple \<noteq> K_Tuple then Some ((Some (createNode K_LabelList), Type), d)
                  else do {
                    (Labels, Tuple') \<leftarrow> old_labels 0 n Tuple;
                    Some ((Some (Node K_LabelList NoPayload (if has_labels Labels then Labels else [])),
                      Some (replace_at (path @ [i, 0, 0]) Tuple' Ty)), d)
                  }
                else
                  let (Labels, d) = new_labels n d in
                  case Labels of
                    None \<Rightarrow> Some ((None, Type), d)
                  | Some Labels \<Rightarrow>
                      if has_labels Labels
                      then Some ((Some (Node K_LabelList NoPayload (rev Labels)), Type), d)
                      else Some ((Some (createNode K_LabelList), Type), d)
              }
            }
          })"

definition demangleTypeMangling :: "demangler \<Rightarrow> node option result" where
  "demangleTypeMangling d = do {
     let (Type, d) = popNode_kind K_Type d;
     ((LabelList, Type), d) \<leftarrow> popFunctionParamLabels Type d;
     let TypeMangling = Some (createNode K_TypeMangling);
     let TypeMangling = (if LabelList \<noteq> None then addChild TypeMangling LabelList else TypeMangling);
     Some (addChild TypeMangling Type, d)
   }"

definition demanglePlainFunction :: "demangler \<Rightarrow> node option result" where
  "demanglePlainFunction d = do {
     let (GenSig, d) = popNode_kind K_DependentGenericSignature d;
     (Type, d) \<leftarrow> popFunctionType K_FunctionType d;
     ((LabelList, Type), d) \<leftarrow> popFunctionParamLabels Type d;
     let Type = (if GenSig \<noteq> None
                 then createType (createWithChildren2 K_DependentGenericType GenSig Type)
                 else Type);
     let (Name, d) = popNode_if isDeclName d;
     (Ctx, d) \<leftarrow> popContext d;
     if LabelList \<noteq> None then Some (createWithChildren4 K_Function Ctx Name LabelList Type, d)
     else Some (createWithChildren3 K_Function Ctx Name Type, d)
   }"

section \<open>Tuples and lists of types\<close>

lemma popNode_if_NodeStack:
  "popNode_if p d = (r, d') \<Longrightarrow> length (NodeStack d') \<le> length (NodeStack d)"
  "popNode_if p d = (Some n, d') \<Longrightarrow> length (NodeStack d') < length (NodeStack d)"
  by (auto simp: popNode_if_def popNode_def split: list.splits if_splits)

lemmas popNode_kind_NodeStack = popNode_if_NodeStack [of "\<lambda>k'. k' = k" for k, folded popNode_kind_def]

text \<open>
  The element loops of \<open>popTuple\<close>: the elements are met from the last to the first, so the list
  built by consing is in the order that \<open>reverseChildren\<close> produces.
\<close>

function tuple_elements :: "node list \<Rightarrow> demangler \<Rightarrow> node list option result" where
  "tuple_elements elems d =
     (case popNode_kind K_FirstElementMarker d of (first, d1) \<Rightarrow>
      case popNode_kind K_VariadicMarker d1 of (Variadic, d2) \<Rightarrow>
      case popNode_kind K_Identifier d2 of (Ident, d3) \<Rightarrow>
      case (case Ident of None \<Rightarrow> Some []
             | Some I \<Rightarrow> map_option (\<lambda>t. [createNodeText K_TupleElementName t]) (getText I)) of
        None \<Rightarrow> None
      | Some name \<Rightarrow>
          (case popNode_kind K_Type d3 of (Ty, d4) \<Rightarrow>
           case Ty of
             None \<Rightarrow> Some (None, d4)
           | Some T \<Rightarrow>
               let TupleElmt = Node K_TupleElement NoPayload
                     ((case Variadic of None \<Rightarrow> [] | Some v \<Rightarrow> [v]) @ name @ [T])
               in if first \<noteq> None then Some (Some (TupleElmt # elems), d4)
                  else tuple_elements (TupleElmt # elems) d4))"
  by pat_completeness auto
termination
  by (relation "measure (\<lambda>(elems, d). length (NodeStack d))")
    (force dest!: popNode_kind_NodeStack [OF sym])+

declare tuple_elements.simps [simp del]

definition popTuple :: "demangler \<Rightarrow> node option result" where
  "popTuple d = do {
     let (e, d) = popNode_kind K_EmptyList d;
     if e \<noteq> None then Some (createType (Some (createNode K_Tuple)), d)
     else do {
       (elems, d) \<leftarrow> tuple_elements [] d;
       case elems of
         None \<Rightarrow> Some (None, d)
       | Some es \<Rightarrow> Some (createType (Some (Node K_Tuple NoPayload es)), d)
     }
   }"

function type_elements :: "node list \<Rightarrow> demangler \<Rightarrow> node list option \<times> demangler" where
  "type_elements elems d =
     (case popNode_kind K_FirstElementMarker d of (first, d1) \<Rightarrow>
      case popNode_kind K_Type d1 of (Ty, d2) \<Rightarrow>
      case Ty of
        None \<Rightarrow> (None, d2)
      | Some T \<Rightarrow>
          if first \<noteq> None then (Some (T # elems), d2) else type_elements (T # elems) d2)"
  by pat_completeness auto
termination
  by (relation "measure (\<lambda>(elems, d). length (NodeStack d))")
    (force dest!: popNode_kind_NodeStack [OF sym])+

declare type_elements.simps [simp del]

definition popTypeList :: "demangler \<Rightarrow> node option \<times> demangler" where
  "popTypeList d =
     (let (e, d) = popNode_kind K_EmptyList d in
      if e \<noteq> None then (Some (createNode K_TypeList), d)
      else
        let (elems, d) = type_elements [] d
        in (map_option (Node K_TypeList NoPayload) elems, d))"

definition popProtocol :: "demangler \<Rightarrow> node option result" where
  "popProtocol d = do {
     let (Name, d) = popNode_if isDeclName d;
     (Ctx, d) \<leftarrow> popContext d;
     Some (createType (createWithChildren2 K_Protocol Ctx Name), d)
   }"

end
