(* ===== verification/Demangler_Generics.thy ===== *)
theory Demangler_Generics
  imports Demangler_Types
begin

text \<open>
  The operators of \<open>lib/Demangling/Demangler.cpp\<close> for bound generic types, lowered function
  types, metadata, archetypes, protocol conformances, protocol lists and generic signatures.
\<close>

section \<open>Bound generic types\<close>

text \<open>\<open>while (NodePointer Ty = popNode(Node::Kind::Type)) \<dots>\<close>: the types on top of the stack.\<close>

definition popTypes :: "demangler \<Rightarrow> node list \<times> demangler" where
  "popTypes d =
     (takeWhile (\<lambda>n. getKind n = K_Type) (NodeStack d),
      d\<lparr>NodeStack := dropWhile (\<lambda>n. getKind n = K_Type) (NodeStack d)\<rparr>)"

lemma popTypes_NodeStack: "length (NodeStack (snd (popTypes d))) \<le> length (NodeStack d)"
  by (simp add: popTypes_def length_dropWhile_le)

function bound_type_lists :: "node list \<Rightarrow> demangler \<Rightarrow> node list option \<times> demangler" where
  "bound_type_lists TypeListList d =
     (case popTypes d of (Tys, d1) \<Rightarrow>
      let TypeListList = TypeListList @ [Node K_TypeList NoPayload (rev Tys)] in
      case popNode_kind K_EmptyList d1 of (e, d2) \<Rightarrow>
      if e \<noteq> None then (Some TypeListList, d2)
      else
        case popNode_kind K_FirstElementMarker d2 of (first, d3) \<Rightarrow>
        case first of None \<Rightarrow> (None, d3) | Some _ \<Rightarrow> bound_type_lists TypeListList d3)"
  by pat_completeness auto
termination
proof (relation "measure (\<lambda>(TypeListList, d). length (NodeStack d))", goal_cases)
  case (2 TypeListList d Tys d1 x e d2 first d3 n)
  then have "length (NodeStack d3) < length (NodeStack d2)"
    and "length (NodeStack d2) \<le> length (NodeStack d1)"
    by (auto dest: popNode_kind_NodeStack [OF sym])
  moreover have "length (NodeStack d1) \<le> length (NodeStack d)"
    using 2(1) popTypes_NodeStack [of d] by (metis snd_conv)
  ultimately show ?case by simp
qed simp

declare bound_type_lists.simps [simp del]

fun demangleBoundGenericArgs :: "node option \<Rightarrow> node list \<Rightarrow> node option option" where
  "demangleBoundGenericArgs Nominal [] = Some None"
| "demangleBoundGenericArgs Nominal (args # TypeLists) =
     (case Nominal of
        None \<Rightarrow> Some None
      | Some N \<Rightarrow>
          if getNumChildren N < 2 then Some None
          else do {
            Context \<leftarrow> getFirstChild N;
            Nominal \<leftarrow>
              (if TypeLists \<noteq> [] then do {
                 BoundParent \<leftarrow>
                   (if getKind Context = K_Extension then do {
                      c1 \<leftarrow> getChild Context 1;
                      BoundParent \<leftarrow> demangleBoundGenericArgs (Some c1) TypeLists;
                      c0 \<leftarrow> getFirstChild Context;
                      let BoundParent = createWithChildren2 K_Extension (Some c0) BoundParent;
                      if getNumChildren Context = 3 then do {
                        c2 \<leftarrow> getChild Context 2;
                        Some (addChild BoundParent (Some c2))
                      }
                      else Some BoundParent
                    }
                    else demangleBoundGenericArgs (Some Context) TypeLists);
                 n1 \<leftarrow> getChild N 1;
                 Some (createWithChildren2 (getKind N) BoundParent (Some n1))
               }
               else Some (Some N));
            case Nominal of
              None \<Rightarrow> Some None
            | Some N \<Rightarrow>
                if getNumChildren args = 0 then Some (Some N)
                else if getKind N = K_Class then
                  Some (createWithChildren2 K_BoundGenericClass (createType (Some N)) (Some args))
                else if getKind N = K_Structure then
                  Some (createWithChildren2 K_BoundGenericStructure (createType (Some N)) (Some args))
                else if getKind N = K_Enum then
                  Some (createWithChildren2 K_BoundGenericEnum (createType (Some N)) (Some args))
                else Some None
          })"

definition demangleBoundGenericType :: "demangler \<Rightarrow> node option result" where
  "demangleBoundGenericType d =
     (let (TypeListList, d) = bound_type_lists [] d in
      case TypeListList of
        None \<Rightarrow> Some (None, d)
      | Some Ls \<Rightarrow> do {
          (Nominal, d) \<leftarrow> popTypeAndGetAnyGeneric d;
          Ty \<leftarrow> demangleBoundGenericArgs Nominal Ls;
          let NTy = createType Ty;
          Some (NTy, addSubstitution NTy d)
        })"

section \<open>Lowered function types\<close>

definition demangleImplParamConvention :: "demangler \<Rightarrow> node option result" where
  "demangleImplParamConvention d =
     (let (c, d) = nextChar d;
          conv = (\<lambda>attr. Some (createWithChild K_ImplParameter
                   (Some (createNodeText K_ImplConvention attr)), d)) in
      if c = CHR ''i'' then conv ''@in''
      else if c = CHR ''c'' then conv ''@in_constant''
      else if c = CHR ''l'' then conv ''@inout''
      else if c = CHR ''b'' then conv ''@inout_aliasable''
      else if c = CHR ''n'' then conv ''@in_guaranteed''
      else if c = CHR ''x'' then conv ''@owned''
      else if c = CHR ''g'' then conv ''@guaranteed''
      else if c = CHR ''e'' then conv ''@deallocating''
      else if c = CHR ''y'' then conv ''@unowned''
      else do { (_, d) \<leftarrow> pushBack d; Some (None, d) })"

definition demangleImplResultConvention :: "node_kind \<Rightarrow> demangler \<Rightarrow> node option result" where
  "demangleImplResultConvention ConvKind d =
     (let (c, d) = nextChar d;
          conv = (\<lambda>attr. Some (createWithChild ConvKind
                   (Some (createNodeText K_ImplConvention attr)), d)) in
      if c = CHR ''r'' then conv ''@out''
      else if c = CHR ''o'' then conv ''@owned''
      else if c = CHR ''d'' then conv ''@unowned''
      else if c = CHR ''u'' then conv ''@unowned_inner_pointer''
      else if c = CHR ''a'' then conv ''@autoreleased''
      else do { (_, d) \<leftarrow> pushBack d; Some (None, d) })"

lemma convention_progress:
  "demangleImplParamConvention d = Some (Some n, d') \<Longrightarrow>
     Pos d < length (Text d) \<and> d' = d\<lparr>Pos := Pos d + 1\<rparr>"
  "demangleImplResultConvention k d = Some (Some n, d') \<Longrightarrow>
     Pos d < length (Text d) \<and> d' = d\<lparr>Pos := Pos d + 1\<rparr>"
  by (auto simp: demangleImplParamConvention_def demangleImplResultConvention_def bind_Some_iffs
      nextChar_def split: if_splits)

text \<open>The loops that read conventions; they return the nodes in the order read.\<close>

function param_conventions :: "node list \<Rightarrow> demangler \<Rightarrow> node list result" where
  "param_conventions acc d =
     (case demangleImplParamConvention d of
        None \<Rightarrow> None
      | Some (None, d') \<Rightarrow> Some (acc, d')
      | Some (Some Param, d') \<Rightarrow> param_conventions (acc @ [Param]) d')"
  by pat_completeness auto
termination
  by (relation "measure (\<lambda>(acc, d). length (Text d) - Pos d)") (auto dest!: convention_progress)

declare param_conventions.simps [simp del]

function result_conventions :: "node list \<Rightarrow> demangler \<Rightarrow> node list result" where
  "result_conventions acc d =
     (case demangleImplResultConvention K_ImplResult d of
        None \<Rightarrow> None
      | Some (None, d') \<Rightarrow> Some (acc, d')
      | Some (Some Result, d') \<Rightarrow> result_conventions (acc @ [Result]) d')"
  by pat_completeness auto
termination
  by (relation "measure (\<lambda>(acc, d). length (Text d) - Pos d)") (auto dest!: convention_progress)

declare result_conventions.simps [simp del]

text \<open>
  The final loop gives every parameter and result its type, from the last to the first: the list
  is processed in reverse; \<open>None\<close> when the stack has no type left.
\<close>

fun add_conv_types :: "node list \<Rightarrow> demangler \<Rightarrow> node list option \<times> demangler" where
  "add_conv_types [] d = (Some [], d)"
| "add_conv_types (Conv # Convs) d =
     (let (ConvTy, d) = popNode_kind K_Type d in
      case ConvTy of
        None \<Rightarrow> (None, d)
      | Some T \<Rightarrow>
          let (Convs', d) = add_conv_types Convs d
          in (map_option (\<lambda>cs. cs @ [Node_addChild Conv T]) Convs', d))"

definition callee_convention :: "char \<Rightarrow> string option" where
  "callee_convention c =
     (if c = CHR ''y'' then Some ''@callee_unowned''
      else if c = CHR ''g'' then Some ''@callee_guaranteed''
      else if c = CHR ''x'' then Some ''@callee_owned''
      else if c = CHR ''t'' then Some ''@convention(thin)''
      else None)"

definition function_convention :: "char \<Rightarrow> string option" where
  "function_convention c =
     (if c = CHR ''B'' then Some ''@convention(block)''
      else if c = CHR ''C'' then Some ''@convention(c)''
      else if c = CHR ''M'' then Some ''@convention(method)''
      else if c = CHR ''O'' then Some ''@convention(objc_method)''
      else if c = CHR ''K'' then Some ''@convention(closure)''
      else if c = CHR ''W'' then Some ''@convention(witness_method)''
      else None)"

definition demangleImplFunctionType :: "demangler \<Rightarrow> node option result" where
  "demangleImplFunctionType d =
     (let (GenSig, d) = popNode_kind K_DependentGenericSignature d;
          (pseudo, d) = (if GenSig \<noteq> None then nextIf (CHR ''P'') d else (False, d));
          GenSig = (if pseudo then changeKind GenSig K_DependentPseudogenericSignature else GenSig);
          (escaping, d) = nextIf (CHR ''e'') d;
          (c, d) = nextChar d in
      case callee_convention c of
        None \<Rightarrow> Some (None, d)
      | Some CAttr \<Rightarrow> do {
          let (c, d) = nextChar d;
          (FAttrs, d) \<leftarrow>
            (case function_convention c of
               None \<Rightarrow> do { (_, d) \<leftarrow> pushBack d; Some ([], d) }
             | Some FAttr \<Rightarrow> Some ([createNodeText K_ImplFunctionAttribute FAttr], d));
          let type = (if escaping then [createNode K_ImplEscaping] else [])
            @ [createNodeText K_ImplConvention CAttr] @ FAttrs
            @ (case GenSig of None \<Rightarrow> [] | Some g \<Rightarrow> [g]);
          (Params, d) \<leftarrow> param_conventions [] d;
          (Results, d) \<leftarrow> result_conventions [] d;
          let (z, d) = nextIf (CHR ''z'') d;
          (ErrorResult, d) \<leftarrow>
            (if z then demangleImplResultConvention K_ImplErrorResult d
             else Some (None, d));
          if z \<and> ErrorResult = None then Some (None, d)
          else do {
            let Convs = Params @ Results @ (case ErrorResult of None \<Rightarrow> [] | Some e \<Rightarrow> [e]);
            let (b, d) = nextIf (CHR ''_'') d;
            if \<not> b then Some (None, d)
            else
              let (Convs, d) = add_conv_types (rev Convs) d in
              case Convs of
                None \<Rightarrow> Some (None, d)
              | Some cs \<Rightarrow>
                  Some (createType (Some (Node K_ImplFunctionType NoPayload (type @ cs))), d)
          }
        })"

section \<open>Generic parameters and associated types\<close>

function param_letters :: "int \<Rightarrow> string" where
  "param_letters idxChar =
     (let c = char_of (65 + nat (idxChar smod 26));
          idxChar' = idxChar sdiv 26 in
      if idxChar' \<le> 0 then [c] else c # param_letters idxChar')"
  by pat_completeness auto
termination
proof (relation "measure nat", goal_cases)
  case (2 idxChar c i)
  have "idxChar sdiv 26 \<le> 0" if "idxChar \<le> 0"
    using that by (cases "idxChar = 0") (simp_all add: signed_divide_int_def)
  with 2 have "0 < idxChar" by force
  with 2 show ?case by simp
qed simp

declare param_letters.simps [simp del]

definition getDependentGenericParamType :: "int \<Rightarrow> int \<Rightarrow> node option option" where
  "getDependentGenericParamType depth index =
     (if depth < 0 \<or> index < 0 then Some None
      else do {
        let name = param_letters index;
        name \<leftarrow> (if depth \<noteq> 0 then CharVector_append_int name depth else Some name);
        Some (Some (Node K_DependentGenericParamType (TextPayload name)
          [createNodeIndex K_Index (nat depth), createNodeIndex K_Index (nat index)]))
      })"

definition demangleGenericParamIndex :: "demangler \<Rightarrow> node option result" where
  "demangleGenericParamIndex d =
     (let (b, d) = nextIf (CHR ''d'') d in
      if b then
        let (i, d) = demangleIndex d;
            depth = wrap32 (i + 1);
            (index, d) = demangleIndex d
        in map_option (\<lambda>n. (n, d)) (getDependentGenericParamType depth index)
      else
        let (b, d) = nextIf (CHR ''z'') d in
        if b then map_option (\<lambda>n. (n, d)) (getDependentGenericParamType 0 0)
        else
          let (i, d) = demangleIndex d
          in map_option (\<lambda>n. (n, d)) (getDependentGenericParamType 0 (wrap32 (i + 1))))"

definition popAssocTypeName :: "demangler \<Rightarrow> node option result" where
  "popAssocTypeName d = do {
     let (Proto, d) = popNode_kind K_Type d;
     bad \<leftarrow> (case Proto of
               None \<Rightarrow> Some False
             | Some P \<Rightarrow> do { c \<leftarrow> getFirstChild P; Some (getKind c \<noteq> K_Protocol) });
     if bad then Some (None, d)
     else
       let (Id, d) = popNode_kind K_Identifier d;
           AssocTy = changeKind Id K_DependentAssociatedTypeRef
       in Some (if Proto \<noteq> None then addChild AssocTy Proto else AssocTy, d)
   }"

definition demangleAssociatedTypeSimple :: "node option \<Rightarrow> demangler \<Rightarrow> node option result" where
  "demangleAssociatedTypeSimple GenericParamIdx d = do {
     let GPI = createType GenericParamIdx;
     (ATName, d) \<leftarrow> popAssocTypeName d;
     Some (createType (createWithChildren2 K_DependentMemberType GPI ATName), d)
   }"

lemma popAssocTypeName_progress:
  assumes "popAssocTypeName d = Some (Some n, d')"
  shows "length (NodeStack d') < length (NodeStack d)"
proof -
  obtain P d1 where 1: "popNode_kind K_Type d = (P, d1)" by force
  obtain I d2 where 2: "popNode_kind K_Identifier d1 = (I, d2)" by force
  from assms 1 2 have "I \<noteq> None" "d' = d2"
    by (auto simp: popAssocTypeName_def bind_Some_iffs changeKind_def addChild_def
        split: if_splits option.splits)
  with 1 2 popNode_kind_NodeStack show ?thesis by fastforce
qed

text \<open>The names of a compound associated type, innermost first as \<open>pop_back_val\<close> yields them.\<close>

function assoc_type_names :: "node list \<Rightarrow> demangler \<Rightarrow> node list option result" where
  "assoc_type_names AssocTyNames d =
     (case popNode_kind K_FirstElementMarker d of (first, d1) \<Rightarrow>
      case popAssocTypeName d1 of
        None \<Rightarrow> None
      | Some (None, d2) \<Rightarrow> Some (None, d2)
      | Some (Some AssocTyName, d2) \<Rightarrow>
          if first \<noteq> None then Some (Some (AssocTyName # AssocTyNames), d2)
          else assoc_type_names (AssocTyName # AssocTyNames) d2)"
  by pat_completeness auto
termination
  by (relation "measure (\<lambda>(names, d). length (NodeStack d))")
    (force dest!: popNode_kind_NodeStack [OF sym] popAssocTypeName_progress)+

declare assoc_type_names.simps [simp del]

definition member_type :: "node option \<Rightarrow> node \<Rightarrow> node option" where
  "member_type Base AssocTy =
     addChild (addChild (Some (createNode K_DependentMemberType)) (createType Base)) (Some AssocTy)"

definition demangleAssociatedTypeCompound :: "node option \<Rightarrow> demangler \<Rightarrow> node option result" where
  "demangleAssociatedTypeCompound GenericParamIdx d = do {
     (AssocTyNames, d) \<leftarrow> assoc_type_names [] d;
     case AssocTyNames of
       None \<Rightarrow> Some (None, d)
     | Some names \<Rightarrow> Some (createType (foldl member_type GenericParamIdx names), d)
   }"

definition demangleArchetype :: "demangler \<Rightarrow> node option result" where
  "demangleArchetype d =
     (let (c, d) = nextChar d in
      if c = CHR ''a'' then do {
        let (Ident, d) = popNode_kind K_Identifier d;
        (ArcheTy, d) \<leftarrow> popTypeAndGetChild d;
        let AssocTy = createType (createWithChildren2 K_AssociatedTypeRef ArcheTy Ident);
        Some (AssocTy, addSubstitution AssocTy d)
      }
      else if c = CHR ''q'' then do {
        let (Idx, d) = demangleIndexAsNode d;
        (Ctx, d) \<leftarrow> popContext d;
        let DeclCtx = createWithChild K_DeclContext Ctx;
        Some (createType (createWithChildren2 K_QualifiedArchetype Idx DeclCtx), d)
      }
      else if c = CHR ''y'' then do {
        (P, d) \<leftarrow> demangleGenericParamIndex d;
        (T, d) \<leftarrow> demangleAssociatedTypeSimple P d;
        Some (T, addSubstitution T d)
      }
      else if c = CHR ''z'' then do {
        P \<leftarrow> getDependentGenericParamType 0 0;
        (T, d) \<leftarrow> demangleAssociatedTypeSimple P d;
        Some (T, addSubstitution T d)
      }
      else if c = CHR ''Y'' then do {
        (P, d) \<leftarrow> demangleGenericParamIndex d;
        (T, d) \<leftarrow> demangleAssociatedTypeCompound P d;
        Some (T, addSubstitution T d)
      }
      else if c = CHR ''Z'' then do {
        P \<leftarrow> getDependentGenericParamType 0 0;
        (T, d) \<leftarrow> demangleAssociatedTypeCompound P d;
        Some (T, addSubstitution T d)
      }
      else Some (None, d))"

section \<open>Conformances and metadata\<close>

definition popProtocolConformance :: "demangler \<Rightarrow> node option result" where
  "popProtocolConformance d = do {
     let (GenSig, d) = popNode_kind K_DependentGenericSignature d;
     let (Module, d) = popModule d;
     (Proto, d) \<leftarrow> popProtocol d;
     let (Type, d) = popNode_kind K_Type d;
     let (Ident, Type, d) =
       (if Type = None then
          let (Ident, d) = popNode_kind K_Identifier d;
              (Type, d) = popNode_kind K_Type d
          in (Ident, Type, d)
        else (None, Type, d));
     let Type = (if GenSig \<noteq> None
                 then createType (createWithChildren2 K_DependentGenericType GenSig Type)
                 else Type);
     let Conf = createWithChildren3 K_ProtocolConformance Type Proto Module;
     Some (if Ident \<noteq> None then addChild Conf Ident else Conf, d)
   }"

text \<open>\<open>createWithChild(kind, popProtocolConformance())\<close>\<close>

definition with_conformance :: "node_kind \<Rightarrow> demangler \<Rightarrow> node option result" where
  "with_conformance kind d = do {
     (Conf, d) \<leftarrow> popProtocolConformance d;
     Some (createWithChild kind Conf, d)
   }"

definition demangleMetatype :: "demangler \<Rightarrow> node option result" where
  "demangleMetatype d =
     (let (c, d) = nextChar d in
      if c = CHR ''c'' then with_conformance K_ProtocolConformanceDescriptor d
      else if c = CHR ''f'' then Some (createWithPoppedType K_FullTypeMetadata d)
      else if c = CHR ''P'' then Some (createWithPoppedType K_GenericTypeMetadataPattern d)
      else if c = CHR ''a'' then Some (createWithPoppedType K_TypeMetadataAccessFunction d)
      else if c = CHR ''L'' then Some (createWithPoppedType K_TypeMetadataLazyCache d)
      else if c = CHR ''m'' then Some (createWithPoppedType K_Metaclass d)
      else if c = CHR ''n'' then Some (createWithPoppedType K_NominalTypeDescriptor d)
      else if c = CHR ''o'' then Some (createWithPoppedType K_ClassMetadataBaseOffset d)
      else if c = CHR ''p'' then do {
        (Proto, d) \<leftarrow> popProtocol d;
        Some (createWithChild K_ProtocolDescriptor Proto, d)
      }
      else if c = CHR ''B'' then Some (createWithPoppedType K_ReflectionMetadataBuiltinDescriptor d)
      else if c = CHR ''F'' then Some (createWithPoppedType K_ReflectionMetadataFieldDescriptor d)
      else if c = CHR ''A'' then with_conformance K_ReflectionMetadataAssocTypeDescriptor d
      else if c = CHR ''C'' then
        let (Ty, d) = popNode_kind K_Type d in
        case Ty of
          None \<Rightarrow> Some (None, d)
        | Some T \<Rightarrow> do {
            Child \<leftarrow> getChild T 0;
            if \<not> isAnyGeneric (getKind Child) then Some (None, d)
            else Some (createWithChild K_ReflectionMetadataSuperclassDescriptor (Some Child), d)
          }
      else Some (None, d))"

section \<open>Protocol lists and generic signatures\<close>

lemma popNode_kind_Some_kind: "popNode_kind k d = (Some n, d') \<Longrightarrow> getKind n = k"
  by (auto simp: popNode_kind_def popNode_if_def popNode_def split: list.splits if_splits)

lemma popContext_NodeStack:
  assumes "popContext d = Some (r, d')"
  shows "length (NodeStack d') \<le> length (NodeStack d)"
proof -
  obtain I d1 where 1: "popNode_kind K_Identifier d = (I, d1)" by force
  obtain M d2 where 2: "popNode_kind K_Module d1 = (M, d2)" by force
  obtain T d3 where 3: "popNode_kind K_Type d2 = (T, d3)" by force
  obtain C d4 where 4: "popNode_if isContext d3 = (C, d4)" by force
  have le: "length (NodeStack d1) \<le> length (NodeStack d)" "length (NodeStack d2) \<le> length (NodeStack d1)"
    "length (NodeStack d3) \<le> length (NodeStack d2)" "length (NodeStack d4) \<le> length (NodeStack d3)"
    using 1 2 3 4 popNode_kind_NodeStack(1) popNode_if_NodeStack(1) by blast+
  from assms 1 2 3 4 have "d' \<in> {d1, d2, d3, d4}"
    by (auto simp: popContext_def popModule_def Let_def bind_Some_iffs changeKind_def
        split: if_splits option.splits)
  with le show ?thesis by auto
qed

lemma popProtocol_progress:
  assumes "popProtocol d = Some (Some n, d')"
  shows "length (NodeStack d') < length (NodeStack d)"
proof -
  obtain N d1 where 1: "popNode_if isDeclName d = (N, d1)" by force
  from assms 1 obtain C where 2: "popContext d1 = Some (C, d')" "N \<noteq> None"
    by (auto simp: popProtocol_def bind_Some_iffs createType_def createWithChild_def
        createWithChildren2_def split: option.splits if_splits)
  with 1 popNode_if_NodeStack(2) popContext_NodeStack [OF 2(1)] show ?thesis by fastforce
qed

function protocol_elements :: "node list \<Rightarrow> demangler \<Rightarrow> node list option result" where
  "protocol_elements elems d =
     (case popNode_kind K_FirstElementMarker d of (first, d1) \<Rightarrow>
      case popProtocol d1 of
        None \<Rightarrow> None
      | Some (None, d2) \<Rightarrow> Some (None, d2)
      | Some (Some Proto, d2) \<Rightarrow>
          if first \<noteq> None then Some (Some (Proto # elems), d2)
          else protocol_elements (Proto # elems) d2)"
  by pat_completeness auto
termination
  by (relation "measure (\<lambda>(elems, d). length (NodeStack d))")
    (force dest!: popNode_kind_NodeStack [OF sym] popProtocol_progress)+

declare protocol_elements.simps [simp del]

definition demangleProtocolList :: "demangler \<Rightarrow> node option result" where
  "demangleProtocolList d =
     (let (e, d) = popNode_kind K_EmptyList d;
          ProtoList = (\<lambda>ps. createWithChild K_ProtocolList (Some (Node K_TypeList NoPayload ps))) in
      if e \<noteq> None then Some (ProtoList [], d)
      else do {
        (elems, d) \<leftarrow> protocol_elements [] d;
        case elems of None \<Rightarrow> Some (None, d) | Some ps \<Rightarrow> Some (ProtoList ps, d)
      })"

definition demangleProtocolListType :: "demangler \<Rightarrow> node option result" where
  "demangleProtocolListType d = do {
     (ProtoList, d) \<leftarrow> demangleProtocolList d;
     Some (createType ProtoList, d)
   }"

lemma demangleIndex_progress:
  assumes "demangleIndex d = (i, d')" "i \<noteq> - 1000"
  shows "Text d' = Text d \<and> Pos d < Pos d' \<and> Pos d < length (Text d)"
proof -
  obtain b d1 where 1: "nextIf (CHR ''_'') d = (b, d1)" by force
  show ?thesis
  proof (cases b)
    case True
    with assms 1 show ?thesis
      by (auto simp: demangleIndex_def nextIf_def peekChar_def split: if_splits)
  next
    case False
    with 1 have [simp]: "d1 = d" by (auto simp: nextIf_def split: if_splits)
    obtain n d2 where 2: "demangleNatural d = (n, d2)" by force
    obtain b2 d3 where 3: "nextIf (CHR ''_'') d2 = (b2, d3)" by force
    from assms False 1 2 3 have "0 \<le> n" "d' = d3"
      by (auto simp: demangleIndex_def split: if_splits)
    with demangleNatural_progress [OF 2] 3 show ?thesis
      by (auto simp: nextIf_def split: if_splits)
  qed
qed

text \<open>The parameter counts of a signature; \<open>None\<close> is \<open>return nullptr\<close> on a bad index.\<close>

function param_counts :: "node list \<Rightarrow> demangler \<Rightarrow> node list option \<times> demangler" where
  "param_counts counts d =
     (case nextIf (CHR ''l'') d of (b, d1) \<Rightarrow>
      if b then (Some counts, d1)
      else
        case nextIf (CHR ''z'') d1 of (z, d2) \<Rightarrow>
        case (if z then (0, d2)
              else case demangleIndex d2 of (i, d3) \<Rightarrow> (wrap32 (i + 1), d3)) of (count, d4) \<Rightarrow>
        if count < 0 then (None, d4)
        else param_counts (counts @ [createNodeIndex K_DependentGenericParamCount (nat count)]) d4)"
  by pat_completeness auto
termination
proof (relation "measure (\<lambda>(counts, d). length (Text d) - Pos d)", goal_cases)
  case (2 counts d b d1 z d2 count d4)
  then have 1: "d1 = d" by (auto simp: nextIf_def split: if_splits)
  show ?case
  proof (cases z)
    case True
    with 2 1 have "Pos d < length (Text d)" "d4 = d\<lparr>Pos := Pos d + 1\<rparr>"
      by (auto simp: nextIf_def peekChar_def split: if_splits)
    then show ?thesis by simp
  next
    case False
    with 2 1 have "d2 = d" by (auto simp: nextIf_def split: if_splits)
    with False 2 obtain i where i: "demangleIndex d = (i, d4)" "count = wrap32 (i + 1)"
      by (auto split: prod.splits)
    with 2 have "i \<noteq> - 1000" by auto
    from demangleIndex_progress [OF i(1) this] show ?thesis by (simp add: diff_less_mono2)
  qed
qed simp

declare param_counts.simps [simp del]

definition demangleGenericSignature :: "bool \<Rightarrow> demangler \<Rightarrow> node option \<times> demangler" where
  "demangleGenericSignature hasParamCounts d =
     (let (counts, d) =
        (if hasParamCounts then param_counts [] d
         else (Some [createNodeIndex K_DependentGenericParamCount 1], d)) in
      case counts of
        None \<Rightarrow> (None, d)
      | Some cs \<Rightarrow>
          let Reqs = takeWhile (\<lambda>n. isRequirement (getKind n)) (NodeStack d)
          in (Some (Node K_DependentGenericSignature NoPayload (cs @ rev Reqs)),
              d\<lparr>NodeStack := dropWhile (\<lambda>n. isRequirement (getKind n)) (NodeStack d)\<rparr>))"

definition demangleGenericType :: "demangler \<Rightarrow> node option \<times> demangler" where
  "demangleGenericType d =
     (let (GenSig, d) = popNode_kind K_DependentGenericSignature d;
          (Ty, d) = popNode_kind K_Type d
      in (createType (createWithChildren2 K_DependentGenericType GenSig Ty), d))"

section \<open>Generic requirements\<close>

datatype type_kind = Generic | Assoc | CompoundAssoc | Substitution

datatype constraint_kind = Protocol | BaseClass | SameType | Layout

text \<open>The kinds a requirement letter stands for; \<open>None\<close> is the default case.\<close>

definition requirement_kinds :: "char \<Rightarrow> (constraint_kind \<times> type_kind) option" where
  "requirement_kinds c =
     (if c = CHR ''c'' then Some (BaseClass, Assoc)
      else if c = CHR ''C'' then Some (BaseClass, CompoundAssoc)
      else if c = CHR ''b'' then Some (BaseClass, Generic)
      else if c = CHR ''B'' then Some (BaseClass, Substitution)
      else if c = CHR ''t'' then Some (SameType, Assoc)
      else if c = CHR ''T'' then Some (SameType, CompoundAssoc)
      else if c = CHR ''s'' then Some (SameType, Generic)
      else if c = CHR ''S'' then Some (SameType, Substitution)
      else if c = CHR ''m'' then Some (Layout, Assoc)
      else if c = CHR ''M'' then Some (Layout, CompoundAssoc)
      else if c = CHR ''l'' then Some (Layout, Generic)
      else if c = CHR ''L'' then Some (Layout, Substitution)
      else if c = CHR ''p'' then Some (Protocol, Assoc)
      else if c = CHR ''P'' then Some (Protocol, CompoundAssoc)
      else if c = CHR ''Q'' then Some (Protocol, Substitution)
      else None)"

definition constrained_type :: "type_kind \<Rightarrow> demangler \<Rightarrow> node option result" where
  "constrained_type TypeKind d =
     (case TypeKind of
        Generic \<Rightarrow> do {
          (P, d) \<leftarrow> demangleGenericParamIndex d;
          Some (createType P, d)
        }
      | Assoc \<Rightarrow> do {
          (P, d) \<leftarrow> demangleGenericParamIndex d;
          (ConstrTy, d) \<leftarrow> demangleAssociatedTypeSimple P d;
          Some (ConstrTy, addSubstitution ConstrTy d)
        }
      | CompoundAssoc \<Rightarrow> do {
          (P, d) \<leftarrow> demangleGenericParamIndex d;
          (ConstrTy, d) \<leftarrow> demangleAssociatedTypeCompound P d;
          Some (ConstrTy, addSubstitution ConstrTy d)
        }
      | Substitution \<Rightarrow> Some (popNode_kind K_Type d))"

definition layout_requirement ::
  "node option \<Rightarrow> string \<Rightarrow> node option \<Rightarrow> node option \<Rightarrow> node option" where
  "layout_requirement ConstrTy name sz alignment =
     (let R = createWithChildren2 K_DependentGenericLayoutRequirement ConstrTy
                (Some (createNodeText K_Identifier name));
          R = (if sz \<noteq> None then addChild R sz else R)
      in if alignment \<noteq> None then addChild R alignment else R)"

definition demangle_layout_constraint ::
  "node option \<Rightarrow> demangler \<Rightarrow> node option \<times> demangler" where
  "demangle_layout_constraint ConstrTy d =
     (let (c, d) = nextChar d in
      if c \<in> set ''URNCDT'' then (layout_requirement ConstrTy [c] None None, d)
      else if c = CHR ''E'' \<or> c = CHR ''M'' then
        let (sz, d) = demangleIndexAsNode d in
        if sz = None then (None, d)
        else
          let (alignment, d) = demangleIndexAsNode d
          in (layout_requirement ConstrTy [c] sz alignment, d)
      else if c = CHR ''e'' \<or> c = CHR ''m'' then
        let (sz, d) = demangleIndexAsNode d in
        if sz = None then (None, d) else (layout_requirement ConstrTy [c] sz None, d)
      else (None, d))"

definition demangleGenericRequirement :: "demangler \<Rightarrow> node option result" where
  "demangleGenericRequirement d = do {
     let (c, d) = nextChar d;
     ((ConstraintKind, TypeKind), d) \<leftarrow>
       (case requirement_kinds c of
          Some k \<Rightarrow> Some (k, d)
        | None \<Rightarrow> do { (_, d) \<leftarrow> pushBack d; Some ((Protocol, Generic), d) });
     (ConstrTy, d) \<leftarrow> constrained_type TypeKind d;
     (case ConstraintKind of
        Protocol \<Rightarrow> do {
          (Proto, d) \<leftarrow> popProtocol d;
          Some (createWithChildren2 K_DependentGenericConformanceRequirement ConstrTy Proto, d)
        }
      | BaseClass \<Rightarrow>
          let (Ty, d) = popNode_kind K_Type d
          in Some (createWithChildren2 K_DependentGenericConformanceRequirement ConstrTy Ty, d)
      | SameType \<Rightarrow>
          let (Ty, d) = popNode_kind K_Type d
          in Some (createWithChildren2 K_DependentGenericSameTypeRequirement ConstrTy Ty, d)
      | Layout \<Rightarrow> Some (demangle_layout_constraint ConstrTy d))
   }"

end
