(* ===== verification/Demangler.thy ===== *)
theory Demangler
  imports Demangler_Generics
begin

text \<open>
  The remaining operators of \<open>lib/Demangling/Demangler.cpp\<close> (specializations, thunks, witnesses,
  special types, entities, value witnesses), the operator dispatch, and the entry points
  \<open>demangleSymbol\<close> and \<open>demangleType\<close>.
\<close>

section \<open>Specializations\<close>

definition demangleSpecAttributes ::
  "node_kind \<Rightarrow> bool \<Rightarrow> demangler \<Rightarrow> node option \<times> demangler" where
  "demangleSpecAttributes SpecKind demangleUniqueID d =
     (let (isFragile, d) = nextIf (CHR ''q'') d;
          (c, d) = nextChar d;
          PassID = int (ord c) - 48 in
      if PassID < 0 \<or> PassID > 9 then (None, d)
      else
        let (Idx, d) = (if demangleUniqueID then demangleNatural d else (- 1, d));
            payload = (if Idx \<ge> 0 then IndexPayload (nat Idx) else NoPayload)
        in (Some (Node SpecKind payload
              ((if isFragile then [createNode K_SpecializationIsFragile] else [])
               @ [createNodeIndex K_SpecializationPassID (nat PassID)])), d))"

definition demangleGenericSpecialization :: "node_kind \<Rightarrow> demangler \<Rightarrow> node option \<times> demangler" where
  "demangleGenericSpecialization SpecKind d =
     (let (Spec, d) = demangleSpecAttributes SpecKind False d in
      case Spec of
        None \<Rightarrow> (None, d)
      | Some S \<Rightarrow>
          let (TyList, d) = popTypeList d in
          case TyList of
            None \<Rightarrow> (None, d)
          | Some L \<Rightarrow>
              (Some (foldl (\<lambda>s Ty. Node_addChild s (Node K_GenericSpecializationParam NoPayload [Ty]))
                 S (children L)), d))"

text \<open>\<open>FunctionSigSpecializationParamKind\<close>\<close>

abbreviation (input) ConstantPropFunction :: nat where "ConstantPropFunction \<equiv> 0"
abbreviation (input) ConstantPropGlobal :: nat where "ConstantPropGlobal \<equiv> 1"
abbreviation (input) ConstantPropInteger :: nat where "ConstantPropInteger \<equiv> 2"
abbreviation (input) ConstantPropFloat :: nat where "ConstantPropFloat \<equiv> 3"
abbreviation (input) ConstantPropString :: nat where "ConstantPropString \<equiv> 4"
abbreviation (input) ClosureProp :: nat where "ClosureProp \<equiv> 5"
abbreviation (input) BoxToValue :: nat where "BoxToValue \<equiv> 6"
abbreviation (input) BoxToStack :: nat where "BoxToStack \<equiv> 7"
abbreviation (input) Dead :: nat where "Dead \<equiv> 64"
abbreviation (input) OwnedToGuaranteed :: nat where "OwnedToGuaranteed \<equiv> 128"
abbreviation (input) SROA :: nat where "SROA \<equiv> 256"

function digits_loop :: "string \<Rightarrow> demangler \<Rightarrow> string \<times> demangler" where
  "digits_loop Str d =
     (if isDigit (peekChar d) then digits_loop (Str @ [fst (nextChar d)]) (snd (nextChar d))
      else (Str, d))"
  by pat_completeness auto
termination
  by (relation "measure (\<lambda>(Str, d). length (Text d) - Pos d)")
    (auto dest!: isDigit_peek simp: nextChar_def)

declare digits_loop.simps [simp del]

lemma advances_digits_loop: "advances d (snd (digits_loop s d))"
proof (induction s d rule: digits_loop.induct)
  case (1 s d)
  then show ?case
    by (subst digits_loop.simps) (auto intro: advances_trans advances_nextChar)
qed

lemma digits_loop_advances: "digits_loop s d = (r, d') \<Longrightarrow> advances d d'"
  using advances_digits_loop [of d s] by simp

abbreviation param_kind :: "nat \<Rightarrow> node" where
  "param_kind k \<equiv> createNodeIndex K_FunctionSignatureSpecializationParamKind k"

abbreviation param_payload :: "string \<Rightarrow> node" where
  "param_payload t \<equiv> createNodeText K_FunctionSignatureSpecializationParamPayload t"

definition addFuncSpecParamNumber :: "node \<Rightarrow> nat \<Rightarrow> demangler \<Rightarrow> node option \<times> demangler" where
  "addFuncSpecParamNumber Param k d =
     (let Param = Node_addChild Param (param_kind k);
          (Str, d) = digits_loop [] d in
      if Str = [] then (None, d) else (Some (Node_addChild Param (param_payload Str)), d))"

definition demangleFuncSpecParam :: "nat \<Rightarrow> demangler \<Rightarrow> node option \<times> demangler" where
  "demangleFuncSpecParam ParamIdx d =
     (let Param = createNodeIndex K_FunctionSignatureSpecializationParam ParamIdx;
          (c, d) = nextChar d in
      if c = CHR ''n'' then (Some Param, d)
      else if c = CHR ''c'' then (Some (Node_addChild Param (param_kind ClosureProp)), d)
      else if c = CHR ''p'' then
        let (c, d) = nextChar d in
        if c = CHR ''f'' then (Some (Node_addChild Param (param_kind ConstantPropFunction)), d)
        else if c = CHR ''g'' then (Some (Node_addChild Param (param_kind ConstantPropGlobal)), d)
        else if c = CHR ''i'' then addFuncSpecParamNumber Param ConstantPropInteger d
        else if c = CHR ''d'' then addFuncSpecParamNumber Param ConstantPropFloat d
        else if c = CHR ''s'' then
          let (c, d) = nextChar d;
              str = (\<lambda>Encoding. (Some (Node_addChild (Node_addChild Param
                       (param_kind ConstantPropString)) (param_payload Encoding)), d)) in
          if c = CHR ''b'' then str ''u8''
          else if c = CHR ''w'' then str ''u16''
          else if c = CHR ''c'' then str ''objc''
          else (None, d)
        else (None, d)
      else if c = CHR ''d'' then
        let Value = Dead;
            (g, d) = nextIf (CHR ''G'') d;
            Value = (if g then Value OR OwnedToGuaranteed else Value);
            (x, d) = nextIf (CHR ''X'') d;
            Value = (if x then Value OR SROA else Value)
        in (Some (Node_addChild Param (param_kind Value)), d)
      else if c = CHR ''g'' then
        let Value = OwnedToGuaranteed;
            (x, d) = nextIf (CHR ''X'') d;
            Value = (if x then Value OR SROA else Value)
        in (Some (Node_addChild Param (param_kind Value)), d)
      else if c = CHR ''x'' then (Some (Node_addChild Param (param_kind SROA)), d)
      else if c = CHR ''i'' then (Some (Node_addChild Param (param_kind BoxToValue)), d)
      else if c = CHR ''s'' then (Some (Node_addChild Param (param_kind BoxToStack)), d)
      else (None, d))"

lemma demangleFuncSpecParam_progress:
  assumes "demangleFuncSpecParam i d = (Some n, d')"
  shows "Pos d < length (Text d) \<and> advances (d\<lparr>Pos := Pos d + 1\<rparr>) d'"
proof -
  obtain c d1 where 1: "nextChar d = (c, d1)" by force
  with assms have "c \<noteq> CHR 0x00" by (auto simp: demangleFuncSpecParam_def)
  with 1 have d1: "Pos d < length (Text d)" "d1 = d\<lparr>Pos := Pos d + 1\<rparr>"
    using nextChar_nonzero [OF 1] by auto
  from assms 1 have "advances d1 d'"
    unfolding demangleFuncSpecParam_def addFuncSpecParamNumber_def Let_def
    by (simp split: prod.splits if_splits)
      (auto dest!: advances_eqs digits_loop_advances intro: advances_trans)
  with d1 show ?thesis by simp
qed

text \<open>The parameter loop; \<open>None\<close> once \<open>Spec\<close> has become null.\<close>

function spec_params :: "node \<Rightarrow> nat \<Rightarrow> demangler \<Rightarrow> node option \<times> demangler" where
  "spec_params Spec ParamIdx d =
     (case nextIf (CHR ''_'') d of (b, d1) \<Rightarrow>
      if b then (Some Spec, d1)
      else
        case demangleFuncSpecParam ParamIdx d1 of
          (None, d2) \<Rightarrow> (None, d2)
        | (Some Param, d2) \<Rightarrow>
            spec_params (Node_addChild Spec Param) ((ParamIdx + 1) mod 4294967296) d2)"
  by pat_completeness auto
termination
proof (relation "measure (\<lambda>(Spec, i, d). length (Text d) - Pos d)", goal_cases)
  case (2 Spec i d b d1 r d2 Param)
  then have "d1 = d" by (auto simp: nextIf_def split: if_splits)
  with 2 demangleFuncSpecParam_progress [of i d Param d2]
  have "Pos d < length (Text d)" "advances (d\<lparr>Pos := Pos d + 1\<rparr>) d2" by auto
  then show ?case by (auto simp: advances_def)
qed simp

declare spec_params.simps [simp del]

text \<open>
  The payload of one parameter: function and global names, string constants and closures pop their
  identifier (and, for closures, types) from the stack. The inner \<open>None\<close> is \<open>return nullptr\<close>.
\<close>

definition spec_payload :: "node \<Rightarrow> demangler \<Rightarrow> node option result" where
  "spec_payload Param d =
     (if getKind Param \<noteq> K_FunctionSignatureSpecializationParam then Some (Some Param, d)
      else if getNumChildren Param = 0 then Some (Some Param, d)
      else do {
        KindNd \<leftarrow> getFirstChild Param;
        assert_that (getKind KindNd = K_FunctionSignatureSpecializationParamKind);
        ParamKind \<leftarrow> getIndex KindNd;
        if ParamKind \<in> {ConstantPropFunction, ConstantPropGlobal, ConstantPropString, ClosureProp}
        then
          let (Ty, d') = popNode_kind K_Type d in
          if Ty \<noteq> None \<and> ParamKind \<noteq> ClosureProp then Some (None, d')
          else
            let (Tys, d) = popTypes d;
                (Name, d) = popNode_kind K_Identifier d in
            case Name of
              None \<Rightarrow> Some (None, d)
            | Some N \<Rightarrow> do {
                t \<leftarrow> getText N;
                let t = (if ParamKind = ConstantPropString \<and> t \<noteq> [] \<and> hd t = CHR ''_''
                         then tl t else t);
                Some (Some (Node (getKind Param) (getPayload Param)
                  (children Param @ rev (Tys @ [param_payload t]))), d)
              }
        else Some (Some Param, d)
      })"

text \<open>The children of \<open>Spec\<close>, given in reverse order.\<close>

fun spec_payloads :: "node list \<Rightarrow> demangler \<Rightarrow> node list option result" where
  "spec_payloads [] d = Some (Some [], d)"
| "spec_payloads (Param # Params) d = do {
     (P, d) \<leftarrow> spec_payload Param d;
     case P of
       None \<Rightarrow> Some (None, d)
     | Some P \<Rightarrow> do {
         (Ps, d) \<leftarrow> spec_payloads Params d;
         Some (map_option (\<lambda>ps. ps @ [P]) Ps, d)
       }
   }"

definition demangleFunctionSpecialization :: "demangler \<Rightarrow> node option result" where
  "demangleFunctionSpecialization d =
     (let (Spec, d) = demangleSpecAttributes K_FunctionSignatureSpecialization True d;
          (Spec, d) = (case Spec of None \<Rightarrow> (None, d) | Some S \<Rightarrow> spec_params S 0 d);
          (n, d) = nextIf (CHR ''n'') d;
          (Spec, d) =
            (if \<not> n then
               let (Param, d) = demangleFuncSpecParam 18446744073709551615 d
               in (addChild Spec Param, d)
             else (Spec, d)) in
      case Spec of
        None \<Rightarrow> Some (None, d)
      | Some S \<Rightarrow> do {
          (Params, d) \<leftarrow> spec_payloads (rev (children S)) d;
          case Params of
            None \<Rightarrow> Some (None, d)
          | Some Ps \<Rightarrow> Some (Some (Node (getKind S) (getPayload S) Ps), d)
        })"

section \<open>Thunks\<close>

definition keypath_thunk :: "node_kind \<Rightarrow> demangler \<Rightarrow> node option result" where
  "keypath_thunk nodeKind d =
     (let (node, d) = popNode d in
      case node of
        None \<Rightarrow> Some (None, d)
      | Some Ty \<Rightarrow>
          if getKind Ty \<noteq> K_Type then Some (None, d)
          else
            let (Tys, d) = popTypes d;
                types = Ty # Tys;
                (node, d) = popNode d in
            case node of
              None \<Rightarrow> Some (None, d)
            | Some n \<Rightarrow>
                let (res, d) =
                  (if getKind n = K_DependentGenericSignature then
                     let (decl, d) = popNode d in (createWithChildren2 nodeKind decl node, d)
                   else (createWithChild nodeKind node, d)) in
                case res of
                  None \<Rightarrow> None
                | Some r \<Rightarrow> Some (Some (foldl Node_addChild r (rev types)), d))"

definition keypath_equality_thunk :: "node_kind \<Rightarrow> demangler \<Rightarrow> node option \<times> demangler" where
  "keypath_equality_thunk nodeKind d =
     (let (node, d) = popNode d in
      case node of
        None \<Rightarrow> (None, d)
      | Some n \<Rightarrow>
          if getKind n \<noteq> K_DependentGenericSignature \<and> getKind n \<noteq> K_Type then (None, d)
          else
            let (Tys, d) = popTypes d;
                (other, d) = popNode d in
            if other \<noteq> None then (None, d)
            else if getKind n = K_Type
            then (Some (Node nodeKind NoPayload (rev (n # Tys))), d)
            else (Some (Node nodeKind NoPayload (rev Tys @ [n])), d))"

text \<open>The characters up to the closing \<open>_\<close>; the empty string stands for failure.\<close>

function bridged_params_loop :: "string \<Rightarrow> demangler \<Rightarrow> string \<times> demangler" where
  "bridged_params_loop Str d =
     (case nextIf (CHR ''_'') d of (b, d1) \<Rightarrow>
      if b then (Str, d1)
      else
        case nextChar d1 of (c, d2) \<Rightarrow>
        if c = CHR 0x00 \<and> c \<noteq> CHR ''n'' \<and> c \<noteq> CHR ''b'' then ([], d2)
        else bridged_params_loop (Str @ [c]) d2)"
  by pat_completeness auto
termination
proof (relation "measure (\<lambda>(Str, d). length (Text d) - Pos d)", goal_cases)
  case (2 Str d b d1 c d2)
  then have "d1 = d" "c \<noteq> CHR 0x00" by (auto simp: nextIf_def split: if_splits)
  with nextChar_nonzero [of d c d2] 2
  have "Pos d < length (Text d)" "d2 = d\<lparr>Pos := Pos d + 1\<rparr>" by auto
  then show ?case by simp
qed simp

declare bridged_params_loop.simps [simp del]

definition demangleBridgedMethodParams :: "demangler \<Rightarrow> string \<times> demangler" where
  "demangleBridgedMethodParams d =
     (let (b, d) = nextIf (CHR ''_'') d in
      if b then ([], d)
      else
        let (kind, d) = nextChar d in
        if kind \<noteq> CHR ''p'' \<and> kind \<noteq> CHR ''a'' \<and> kind \<noteq> CHR ''m'' then ([], d)
        else bridged_params_loop [kind] d)"

definition reabstraction_thunk :: "node_kind \<Rightarrow> demangler \<Rightarrow> node option \<times> demangler" where
  "reabstraction_thunk kind d =
     (let (GenSig, d) = popNode_kind K_DependentGenericSignature d;
          Thunk = (if GenSig \<noteq> None then addChild (Some (createNode kind)) GenSig
                   else Some (createNode kind));
          (Ty2, d) = popNode_kind K_Type d;
          (Ty1, d) = popNode_kind K_Type d
      in (addChild (addChild Thunk Ty1) Ty2, d))"

definition partial_specialization :: "node_kind \<Rightarrow> demangler \<Rightarrow> node option \<times> demangler" where
  "partial_specialization kind d =
     (let (Spec, d) = demangleSpecAttributes kind False d;
          (Ty, d) = popNode_kind K_Type d
      in (addChild Spec (createWithChild K_GenericSpecializationParam Ty), d))"

definition demangleThunkOrSpecialization :: "demangler \<Rightarrow> node option result" where
  "demangleThunkOrSpecialization d =
     (let (c, d) = nextChar d in
      if c = CHR ''c'' then
        let (E, d) = popNode_if isEntity d in Some (createWithChild K_CurryThunk E, d)
      else if c = CHR ''j'' then
        let (E, d) = popNode_if isEntity d in Some (createWithChild K_DispatchThunk E, d)
      else if c = CHR ''o'' then Some (Some (createNode K_ObjCAttribute), d)
      else if c = CHR ''O'' then Some (Some (createNode K_NonObjCAttribute), d)
      else if c = CHR ''D'' then Some (Some (createNode K_DynamicAttribute), d)
      else if c = CHR ''d'' then Some (Some (createNode K_DirectMethodReferenceAttribute), d)
      else if c = CHR ''a'' then Some (Some (createNode K_PartialApplyObjCForwarder), d)
      else if c = CHR ''A'' then Some (Some (createNode K_PartialApplyForwarder), d)
      else if c = CHR ''m'' then Some (Some (createNode K_MergedFunction), d)
      else if c = CHR ''C'' then Some (createWithPoppedType K_CoroutineContinuationPrototype d)
      else if c = CHR ''V'' then
        let (Base, d) = popNode_if isEntity d;
            (Derived, d) = popNode_if isEntity d
        in Some (createWithChildren2 K_VTableThunk Derived Base, d)
      else if c = CHR ''W'' then do {
        let (Entity, d) = popNode_if isEntity d;
        (Conf, d) \<leftarrow> popProtocolConformance d;
        Some (createWithChildren2 K_ProtocolWitness Conf Entity, d)
      }
      else if c = CHR ''R'' then Some (reabstraction_thunk K_ReabstractionThunkHelper d)
      else if c = CHR ''r'' then Some (reabstraction_thunk K_ReabstractionThunk d)
      else if c = CHR ''g'' then Some (demangleGenericSpecialization K_GenericSpecialization d)
      else if c = CHR ''G'' then
        Some (demangleGenericSpecialization K_GenericSpecializationNotReAbstracted d)
      else if c = CHR ''p'' then Some (partial_specialization K_GenericPartialSpecialization d)
      else if c = CHR ''P'' then
        Some (partial_specialization K_GenericPartialSpecializationNotReAbstracted d)
      else if c = CHR ''f'' then demangleFunctionSpecialization d
      else if c = CHR ''K'' then keypath_thunk K_KeyPathGetterThunkHelper d
      else if c = CHR ''k'' then keypath_thunk K_KeyPathSetterThunkHelper d
      else if c = CHR ''H'' then Some (keypath_equality_thunk K_KeyPathEqualsThunkHelper d)
      else if c = CHR ''h'' then Some (keypath_equality_thunk K_KeyPathHashThunkHelper d)
      else if c = CHR ''v'' then
        let (Idx, d) = demangleIndex d in
        if Idx < 0 then Some (None, d)
        else Some (Some (createNodeIndex K_OutlinedVariable (nat Idx)), d)
      else if c = CHR ''e'' then
        let (Params, d) = demangleBridgedMethodParams d in
        if Params = [] then Some (None, d)
        else Some (Some (createNodeText K_OutlinedBridgedMethod Params), d)
      else Some (None, d))"

section \<open>Witnesses\<close>

function path_elements :: "node list \<Rightarrow> demangler \<Rightarrow> node list option \<times> demangler" where
  "path_elements elems d =
     (case popNode_kind K_FirstElementMarker d of (first, d1) \<Rightarrow>
      case popNode_if isDeclName d1 of
        (None, d2) \<Rightarrow> (None, d2)
      | (Some AssocTyName, d2) \<Rightarrow>
          if first \<noteq> None then (Some (AssocTyName # elems), d2)
          else path_elements (AssocTyName # elems) d2)"
  by pat_completeness auto
termination
  by (relation "measure (\<lambda>(elems, d). length (NodeStack d))")
    (force dest!: popNode_kind_NodeStack [OF sym] popNode_if_NodeStack [OF sym])+

declare path_elements.simps [simp del]

definition type_and_conformance :: "node_kind \<Rightarrow> demangler \<Rightarrow> node option result" where
  "type_and_conformance kind d = do {
     (Conf, d) \<leftarrow> popProtocolConformance d;
     let (Type, d) = popNode_kind K_Type d;
     Some (createWithChildren2 kind Type Conf, d)
   }"

definition outlined_with_index :: "node_kind \<Rightarrow> demangler \<Rightarrow> node option \<times> demangler" where
  "outlined_with_index kind d =
     (let (IndexChild, d) = demangleIndexAsNode d;
          (Ty, d) = popNode_kind K_Type d
      in (createWithChildren2 kind Ty IndexChild, d))"

definition field_offset :: "demangler \<Rightarrow> node option \<times> demangler" where
  "field_offset d =
     (let (c, d) = nextChar d in
      if c \<noteq> CHR ''d'' \<and> c \<noteq> CHR ''i'' then (None, d)
      else
        let (E, d) = popNode_if isEntity d
        in (createWithChildren2 K_FieldOffset
              (Some (createNodeIndex K_Directness (if c = CHR ''d'' then 0 else 1))) E, d))"

definition associated_type_witness :: "demangler \<Rightarrow> node option result" where
  "associated_type_witness d = do {
     let (ProtoTy, d) = popNode_kind K_Type d;
     let (elems, d) = path_elements [] d;
     case elems of
       None \<Rightarrow> Some (None, d)
     | Some es \<Rightarrow> do {
         (Conf, d) \<leftarrow> popProtocolConformance d;
         Some (createWithChildren3 K_AssociatedTypeWitnessTableAccessor
           Conf (Some (Node K_AssocTypePath NoPayload es)) ProtoTy, d)
       }
   }"

definition demangleWitness :: "demangler \<Rightarrow> node option result" where
  "demangleWitness d =
     (let (c, d) = nextChar d in
      if c = CHR ''V'' then Some (createWithPoppedType K_ValueWitnessTable d)
      else if c = CHR ''v'' then Some (field_offset d)
      else if c = CHR ''P'' then with_conformance K_ProtocolWitnessTable d
      else if c = CHR ''G'' then with_conformance K_GenericProtocolWitnessTable d
      else if c = CHR ''I'' then
        with_conformance K_GenericProtocolWitnessTableInstantiationFunction d
      else if c = CHR ''l'' then type_and_conformance K_LazyProtocolWitnessTableAccessor d
      else if c = CHR ''L'' then type_and_conformance K_LazyProtocolWitnessTableCacheVariable d
      else if c = CHR ''a'' then with_conformance K_ProtocolWitnessTableAccessor d
      else if c = CHR ''t'' then do {
        let (Name, d) = popNode_if isDeclName d;
        (Conf, d) \<leftarrow> popProtocolConformance d;
        Some (createWithChildren2 K_AssociatedTypeMetadataAccessor Conf Name, d)
      }
      else if c = CHR ''T'' then associated_type_witness d
      else if c = CHR ''y'' then Some (createWithPoppedType K_OutlinedCopy d)
      else if c = CHR ''e'' then Some (createWithPoppedType K_OutlinedConsume d)
      else if c = CHR ''r'' then Some (createWithPoppedType K_OutlinedRetain d)
      else if c = CHR ''s'' then Some (createWithPoppedType K_OutlinedRelease d)
      else if c = CHR ''b'' then Some (outlined_with_index K_OutlinedInitializeWithTake d)
      else if c = CHR ''c'' then Some (outlined_with_index K_OutlinedInitializeWithCopy d)
      else if c = CHR ''d'' then Some (outlined_with_index K_OutlinedAssignWithTake d)
      else if c = CHR ''f'' then Some (outlined_with_index K_OutlinedAssignWithCopy d)
      else if c = CHR ''h'' then Some (outlined_with_index K_OutlinedDestroy d)
      else Some (None, d))"

section \<open>Special types\<close>

definition demangleMetatypeRepresentation :: "demangler \<Rightarrow> node option \<times> demangler" where
  "demangleMetatypeRepresentation d =
     (let (c, d) = nextChar d in
      if c = CHR ''t'' then (Some (createNodeText K_MetatypeRepresentation ''@thin''), d)
      else if c = CHR ''T'' then (Some (createNodeText K_MetatypeRepresentation ''@thick''), d)
      else if c = CHR ''o'' then (Some (createNodeText K_MetatypeRepresentation ''@objc_metatype''), d)
      else (None, d))"

definition sil_box_field :: "node \<Rightarrow> node option" where
  "sil_box_field fieldType = do {
     assert_that (getKind fieldType = K_Type);
     c \<leftarrow> getChild fieldType 0;
     if getKind c = K_InOut then do {
       inner \<leftarrow> getChild c 0;
       Some (Node K_SILBoxMutableField NoPayload [Node K_Type NoPayload [inner]])
     }
     else Some (Node K_SILBoxImmutableField NoPayload [fieldType])
   }"

fun sil_box_fields :: "node list \<Rightarrow> node list option" where
  "sil_box_fields [] = Some []"
| "sil_box_fields (fieldType # ts) = do {
     field \<leftarrow> sil_box_field fieldType;
     fields \<leftarrow> sil_box_fields ts;
     Some (field # fields)
   }"

definition sil_box_type :: "bool \<Rightarrow> demangler \<Rightarrow> node option result" where
  "sil_box_type generic d =
     (let (signature, d) =
            (if generic then popNode_kind K_DependentGenericSignature d else (None, d)) in
      if generic \<and> signature = None then Some (None, d)
      else
        let (genericArgs, d) = (if generic then popTypeList d else (None, d)) in
        if generic \<and> genericArgs = None then Some (None, d)
        else
          let (fieldTypes, d) = popTypeList d in
          case fieldTypes of
            None \<Rightarrow> Some (None, d)
          | Some F \<Rightarrow> do {
              fields \<leftarrow> sil_box_fields (children F);
              let layout = Node K_SILBoxLayout NoPayload fields;
              let args = (case signature of None \<Rightarrow> [] | Some s \<Rightarrow> [s])
                       @ (case genericArgs of None \<Rightarrow> [] | Some g \<Rightarrow> [g]);
              Some (createType (Some (Node K_SILBoxTypeWithLayout NoPayload (layout # args))), d)
            })"

definition special_type_of :: "node_kind \<Rightarrow> demangler \<Rightarrow> node option \<times> demangler" where
  "special_type_of kind d =
     (let (Ty, d) = popNode_kind K_Type d in (createType (createWithChild kind Ty), d))"

definition metatype_with_representation :: "node_kind \<Rightarrow> demangler \<Rightarrow> node option \<times> demangler" where
  "metatype_with_representation kind d =
     (let (MTR, d) = demangleMetatypeRepresentation d;
          (Type, d) = popNode_kind K_Type d
      in (createType (createWithChildren2 kind MTR Type), d))"

definition demangleSpecialType :: "demangler \<Rightarrow> node option result" where
  "demangleSpecialType d =
     (let (c, d) = nextChar d in
      if c = CHR ''f'' then popFunctionType K_ThinFunctionType d
      else if c = CHR ''K'' then popFunctionType K_AutoClosureType d
      else if c = CHR ''U'' then popFunctionType K_UncurriedFunctionType d
      else if c = CHR ''B'' then popFunctionType K_ObjCBlock d
      else if c = CHR ''C'' then popFunctionType K_CFunctionPointer d
      else if c = CHR ''o'' then Some (special_type_of K_Unowned d)
      else if c = CHR ''u'' then Some (special_type_of K_Unmanaged d)
      else if c = CHR ''w'' then Some (special_type_of K_Weak d)
      else if c = CHR ''b'' then Some (special_type_of K_SILBoxType d)
      else if c = CHR ''D'' then Some (special_type_of K_DynamicSelf d)
      else if c = CHR ''M'' then Some (metatype_with_representation K_Metatype d)
      else if c = CHR ''m'' then Some (metatype_with_representation K_ExistentialMetatype d)
      else if c = CHR ''p'' then Some (special_type_of K_ExistentialMetatype d)
      else if c = CHR ''c'' then do {
        let (Superclass, d) = popNode_kind K_Type d;
        (Protocols, d) \<leftarrow> demangleProtocolList d;
        Some (createType (createWithChildren2 K_ProtocolListWithClass Protocols Superclass), d)
      }
      else if c = CHR ''l'' then do {
        (Protocols, d) \<leftarrow> demangleProtocolList d;
        Some (createType (createWithChild K_ProtocolListWithAnyObject Protocols), d)
      }
      else if c = CHR ''X'' then sil_box_type True d
      else if c = CHR ''x'' then sil_box_type False d
      else if c = CHR ''e'' then Some (createType (Some (createNode K_ErrorType)), d)
      else Some (None, d))"

section \<open>Entities\<close>

definition demangleAccessor :: "node option \<Rightarrow> demangler \<Rightarrow> node option \<times> demangler" where
  "demangleAccessor ChildNode d =
     (let (c, d) = nextChar d in
      if c = CHR ''m'' then (createWithChild K_MaterializeForSet ChildNode, d)
      else if c = CHR ''s'' then (createWithChild K_Setter ChildNode, d)
      else if c = CHR ''g'' then (createWithChild K_Getter ChildNode, d)
      else if c = CHR ''G'' then (createWithChild K_GlobalGetter ChildNode, d)
      else if c = CHR ''w'' then (createWithChild K_WillSet ChildNode, d)
      else if c = CHR ''W'' then (createWithChild K_DidSet ChildNode, d)
      else if c = CHR ''a'' then
        let (c, d) = nextChar d in
        if c = CHR ''O'' then (createWithChild K_OwningMutableAddressor ChildNode, d)
        else if c = CHR ''o'' then (createWithChild K_NativeOwningMutableAddressor ChildNode, d)
        else if c = CHR ''P'' then (createWithChild K_NativePinningMutableAddressor ChildNode, d)
        else if c = CHR ''u'' then (createWithChild K_UnsafeMutableAddressor ChildNode, d)
        else (None, d)
      else if c = CHR ''l'' then
        let (c, d) = nextChar d in
        if c = CHR ''O'' then (createWithChild K_OwningAddressor ChildNode, d)
        else if c = CHR ''o'' then (createWithChild K_NativeOwningAddressor ChildNode, d)
        else if c = CHR ''p'' then (createWithChild K_NativePinningAddressor ChildNode, d)
        else if c = CHR ''u'' then (createWithChild K_UnsafeAddressor ChildNode, d)
        else (None, d)
      else if c = CHR ''p'' then (ChildNode, d)
      else (None, d))"

text \<open>\<open>addChild(Parent, Child)\<close> as a statement: the parent keeps its children when the child is null.\<close>

definition add_optional :: "node option \<Rightarrow> node option \<Rightarrow> node option" where
  "add_optional Parent Child = (if Child = None then Parent else addChild Parent Child)"

definition demangleEntity :: "node_kind \<Rightarrow> demangler \<Rightarrow> node option result" where
  "demangleEntity kind d = do {
     let (Type, d) = popNode_kind K_Type d;
     ((LabelList, Type), d) \<leftarrow> popFunctionParamLabels Type d;
     let (Name, d) = popNode_if isDeclName d;
     (Context, d) \<leftarrow> popContext d;
     Some (if LabelList \<noteq> None then createWithChildren4 kind Context Name LabelList Type
           else createWithChildren3 kind Context Name Type, d)
   }"

definition entity_without_args :: "node_kind \<Rightarrow> demangler \<Rightarrow> node option result" where
  "entity_without_args kind d = do {
     (Ctx, d) \<leftarrow> popContext d;
     Some (createWithChild kind Ctx, d)
   }"

definition entity_with_type_and_name :: "node_kind \<Rightarrow> demangler \<Rightarrow> node option result" where
  "entity_with_type_and_name kind d = do {
     let (Name, d) = popNode_kind K_PrivateDeclName d;
     let (ParamType, d) = popNode_kind K_Type d;
     ((LabelList, ParamType), d) \<leftarrow> popFunctionParamLabels ParamType d;
     (Ctx, d) \<leftarrow> popContext d;
     let Entity = createWithChild kind Ctx;
     let Entity = add_optional Entity LabelList;
     let Entity = addChild Entity ParamType;
     Some (add_optional Entity Name, d)
   }"

definition entity_with_type_and_index :: "node_kind \<Rightarrow> demangler \<Rightarrow> node option result" where
  "entity_with_type_and_index kind d = do {
     let (Idx, d) = demangleIndexAsNode d;
     let (ParamType, d) = popNode_kind K_Type d;
     (Ctx, d) \<leftarrow> popContext d;
     let Entity = createWithChild kind Ctx;
     Some (addChild (addChild Entity Idx) ParamType, d)
   }"

definition entity_with_index :: "node_kind \<Rightarrow> demangler \<Rightarrow> node option result" where
  "entity_with_index kind d = do {
     let (Idx, d) = demangleIndexAsNode d;
     (Ctx, d) \<leftarrow> popContext d;
     Some (addChild (createWithChild kind Ctx) Idx, d)
   }"

definition demangleFunctionEntity :: "demangler \<Rightarrow> node option result" where
  "demangleFunctionEntity d =
     (let (c, d) = nextChar d in
      if c = CHR ''D'' then entity_without_args K_Deallocator d
      else if c = CHR ''d'' then entity_without_args K_Destructor d
      else if c = CHR ''E'' then entity_without_args K_IVarDestroyer d
      else if c = CHR ''e'' then entity_without_args K_IVarInitializer d
      else if c = CHR ''i'' then entity_without_args K_Initializer d
      else if c = CHR ''C'' then entity_with_type_and_name K_Allocator d
      else if c = CHR ''c'' then entity_with_type_and_name K_Constructor d
      else if c = CHR ''U'' then entity_with_type_and_index K_ExplicitClosure d
      else if c = CHR ''u'' then entity_with_type_and_index K_ImplicitClosure d
      else if c = CHR ''A'' then entity_with_index K_DefaultArgumentInitializer d
      else if c = CHR ''p'' then demangleEntity K_GenericTypeParamDecl d
      else Some (None, d))"

definition demangleVariable :: "demangler \<Rightarrow> node option result" where
  "demangleVariable d = do {
     (Variable, d) \<leftarrow> demangleEntity K_Variable d;
     Some (demangleAccessor Variable d)
   }"

definition demangleSubscript :: "demangler \<Rightarrow> node option result" where
  "demangleSubscript d = do {
     let (PrivateName, d) = popNode_kind K_PrivateDeclName d;
     let (Type, d) = popNode_kind K_Type d;
     ((LabelList, Type), d) \<leftarrow> popFunctionParamLabels Type d;
     (Context, d) \<leftarrow> popContext d;
     let Subscript = addChild (Some (createNode K_Subscript)) Context;
     let Subscript = add_optional Subscript LabelList;
     let Subscript = addChild Subscript Type;
     let Subscript = add_optional Subscript PrivateName;
     Some (demangleAccessor Subscript d)
   }"

section \<open>Value witnesses\<close>

definition value_witness_codes :: "string list" where
  "value_witness_codes =
     [''al'', ''ca'', ''ta'', ''de'', ''xx'', ''XX'', ''Xx'', ''CP'', ''Cp'', ''cp'', ''Tk'', ''tk'',
      ''pr'', ''TK'', ''Cc'', ''Tt'', ''tT'', ''xs'', ''xg'', ''ug'', ''up'', ''ui'', ''et'', ''st'']"

fun find_code :: "nat \<Rightarrow> string list \<Rightarrow> string \<Rightarrow> int" where
  "find_code i [] CodeStr = - 1"
| "find_code i (code # codes) CodeStr =
     (if CodeStr = code then int i else find_code (Suc i) codes CodeStr)"

definition decodeValueWitnessKind :: "string \<Rightarrow> int" where
  "decodeValueWitnessKind CodeStr = find_code 0 value_witness_codes CodeStr"

definition demangleValueWitness :: "demangler \<Rightarrow> node option \<times> demangler" where
  "demangleValueWitness d =
     (let (c0, d) = nextChar d;
          (c1, d) = nextChar d;
          kind = decodeValueWitnessKind [c0, c1] in
      if kind < 0 then (None, d)
      else
        let (Ty, d) = popNode_kind K_Type d
        in (addChild (Some (createNodeIndex K_ValueWitness (nat kind))) Ty, d))"

section \<open>The operator dispatch\<close>

definition demangleOperator :: "demangler \<Rightarrow> node option result" where
  "demangleOperator d =
     (let (c, d) = nextChar d in
      if c = CHR ''A'' then demangleMultiSubstitutions d
      else if c = CHR ''B'' then demangleBuiltinType d
      else if c = CHR ''C'' then demangleAnyGenericType K_Class d
      else if c = CHR ''D'' then demangleTypeMangling d
      else if c = CHR ''E'' then demangleExtensionContext d
      else if c = CHR ''F'' then demanglePlainFunction d
      else if c = CHR ''G'' then demangleBoundGenericType d
      else if c = CHR ''I'' then demangleImplFunctionType d
      else if c = CHR ''K'' then Some (Some (createNode K_ThrowsAnnotation), d)
      else if c = CHR ''L'' then Some (demangleLocalIdentifier d)
      else if c = CHR ''M'' then demangleMetatype d
      else if c = CHR ''N'' then Some (createWithPoppedType K_TypeMetadata d)
      else if c = CHR ''O'' then demangleAnyGenericType K_Enum d
      else if c = CHR ''P'' then demangleAnyGenericType K_Protocol d
      else if c = CHR ''Q'' then demangleArchetype d
      else if c = CHR ''R'' then demangleGenericRequirement d
      else if c = CHR ''S'' then demangleStandardSubstitution d
      else if c = CHR ''T'' then demangleThunkOrSpecialization d
      else if c = CHR ''V'' then demangleAnyGenericType K_Structure d
      else if c = CHR ''W'' then demangleWitness d
      else if c = CHR ''X'' then demangleSpecialType d
      else if c = CHR ''Z'' then
        let (E, d) = popNode_if isEntity d in Some (createWithChild K_Static E, d)
      else if c = CHR ''a'' then demangleAnyGenericType K_TypeAlias d
      else if c = CHR ''c'' then popFunctionType K_FunctionType d
      else if c = CHR ''d'' then Some (Some (createNode K_VariadicMarker), d)
      else if c = CHR ''f'' then demangleFunctionEntity d
      else if c = CHR ''h'' then do {
        (Child, d) \<leftarrow> popTypeAndGetChild d;
        Some (createType (createWithChild K_Shared Child), d)
      }
      else if c = CHR ''i'' then demangleSubscript d
      else if c = CHR ''l'' then Some (demangleGenericSignature False d)
      else if c = CHR ''m'' then
        let (Ty, d) = popNode_kind K_Type d in Some (createType (createWithChild K_Metatype Ty), d)
      else if c = CHR ''o'' then demangleOperatorIdentifier d
      else if c = CHR ''p'' then demangleProtocolListType d
      else if c = CHR ''q'' then do {
        (P, d) \<leftarrow> demangleGenericParamIndex d;
        Some (createType P, d)
      }
      else if c = CHR ''r'' then Some (demangleGenericSignature True d)
      else if c = CHR ''s'' then Some (Some (createNodeText K_Module ''Swift''), d)
      else if c = CHR ''t'' then popTuple d
      else if c = CHR ''u'' then Some (demangleGenericType d)
      else if c = CHR ''v'' then demangleVariable d
      else if c = CHR ''w'' then Some (demangleValueWitness d)
      else if c = CHR ''x'' then do {
        P \<leftarrow> getDependentGenericParamType 0 0;
        Some (createType P, d)
      }
      else if c = CHR ''y'' then Some (Some (createNode K_EmptyList), d)
      else if c = CHR ''z'' then do {
        (Child, d) \<leftarrow> popTypeAndGetChild d;
        Some (createType (createWithChild K_InOut Child), d)
      }
      else if c = CHR ''_'' then Some (Some (createNode K_FirstElementMarker), d)
      else if c = CHR ''.'' then do {
        (_, d) \<leftarrow> pushBack d;
        let (s, d) = consumeAll d;
        Some (Some (createNodeText K_Suffix s), d)
      }
      else do {
        (_, d) \<leftarrow> pushBack d;
        demangleIdentifier d
      })"

partial_function (option) parseAndPushNodes :: "demangler \<Rightarrow> bool result" where
  "parseAndPushNodes d =
     (if Pos d < length (Text d) then do {
        (Node, d) \<leftarrow> demangleOperator d;
        if Node = None then Some (False, d) else parseAndPushNodes (pushNode (the Node) d)
      }
      else Some (True, d))"

declare parseAndPushNodes.simps [code]

section \<open>Entry points\<close>

definition getManglingPrefixLength :: "string \<Rightarrow> nat option" where
  "getManglingPrefixLength mangledName =
     (if mangledName = [] then Some 0
      else if length mangledName \<ge> 3 \<and> take 3 mangledName = ''_T0'' then Some 3
      else
        let Offset = (if mangledName ! 0 = CHR ''_'' then 1 else 0) in
        if length mangledName \<ge> Offset + 1 \<and> mangledName ! Offset = CHR ''$'' then do {
          assert_that (Offset + 1 < length mangledName);
          if mangledName ! (Offset + 1) = CHR ''S'' then Some (Offset + 2) else Some 0
        }
        else Some 0)"

definition isOldFunctionTypeMangling :: "string \<Rightarrow> bool" where
  "isOldFunctionTypeMangling mangledName \<longleftrightarrow>
     length mangledName \<ge> 2 \<and> mangledName ! 0 = CHR ''_'' \<and> mangledName ! 1 = CHR ''T''"

definition isSwiftSymbol :: "string \<Rightarrow> bool option" where
  "isSwiftSymbol mangledName =
     (if isOldFunctionTypeMangling mangledName then Some True
      else map_option (\<lambda>n. n \<noteq> 0) (getManglingPrefixLength mangledName))"

definition dropSwiftManglingPrefix :: "string \<Rightarrow> string option" where
  "dropSwiftManglingPrefix mangledName =
     map_option (\<lambda>n. drop n mangledName) (getManglingPrefixLength mangledName)"

definition demangleObjCTypeName :: "demangler \<Rightarrow> node option result" where
  "demangleObjCTypeName d =
     (let (isClass, d) = nextIf (CHR ''C'') d;
          (isProto, d) = (if isClass then (False, d) else nextIf (CHR ''P'') d) in
      if \<not> isClass \<and> \<not> isProto then Some (None, d)
      else do {
        let (b, d) = nextIf (CHR ''s'') d;
        (Module, d) \<leftarrow> (if b then Some (Some (createNodeText K_Module ''Swift''), d)
                        else demangleIdentifier d);
        case Module of
          None \<Rightarrow> Some (None, d)
        | Some M \<Rightarrow> do {
            (Ident, d) \<leftarrow> demangleIdentifier d;
            case Ident of
              None \<Rightarrow> Some (None, d)
            | Some I \<Rightarrow>
                let (b, d) = (if isProto then nextIf (CHR ''_'') d else (True, d)) in
                if \<not> b then Some (None, d)
                else if Pos d < length (Text d) then Some (None, d)
                else
                  let Nominal = Node (if isClass then K_Class else K_Protocol) NoPayload
                        [Node K_Module (getPayload M) (children M), I];
                      Ty = Node K_Type NoPayload
                        [if isClass then Nominal
                         else Node K_ProtocolList NoPayload [Node K_TypeList NoPayload
                                [Node K_Type NoPayload [Nominal]]]]
                  in Some (Some (Node K_Global NoPayload [Node K_TypeMangling NoPayload [Ty]]), d)
          }
      })"

text \<open>
  The children of the parent when the function attributes popped from the stack are added to it
  one by one, a partial-apply forwarder becoming the parent of what follows.
\<close>

fun attach_attributes :: "node list \<Rightarrow> node list \<Rightarrow> node list" where
  "attach_attributes [] nodes = nodes"
| "attach_attributes (FuncAttr # attrs) nodes =
     (if getKind FuncAttr = K_PartialApplyForwarder \<or> getKind FuncAttr = K_PartialApplyObjCForwarder
      then [Node (getKind FuncAttr) (getPayload FuncAttr)
              (children FuncAttr @ attach_attributes attrs nodes)]
      else FuncAttr # attach_attributes attrs nodes)"

fun unwrap_types :: "node list \<Rightarrow> node list option" where
  "unwrap_types [] = Some []"
| "unwrap_types (Nd # nodes) = do {
     n \<leftarrow> (if getKind Nd = K_Type then getFirstChild Nd else Some Nd);
     ns \<leftarrow> unwrap_types nodes;
     Some (n # ns)
   }"

definition demangleSymbol :: "string \<Rightarrow> demangler \<Rightarrow> node option result" where
  "demangleSymbol MangledName d =
     (let (b, d) = nextIf_str ''_Tt'' (init MangledName d) in
      if b then demangleObjCTypeName d
      else do {
        PrefixLength \<leftarrow> getManglingPrefixLength MangledName;
        if PrefixLength = 0 then Some (None, d)
        else do {
          let d = d\<lparr>IsOldFunctionTypeMangling := isOldFunctionTypeMangling MangledName,
                     Pos := Pos d + PrefixLength\<rparr>;
          (ok, d) \<leftarrow> parseAndPushNodes d;
          if \<not> ok then Some (None, d)
          else do {
            let attrs = takeWhile (\<lambda>n. isFunctionAttr (getKind n)) (NodeStack d);
            let d = d\<lparr>NodeStack := dropWhile (\<lambda>n. isFunctionAttr (getKind n)) (NodeStack d)\<rparr>;
            nodes \<leftarrow> unwrap_types (rev (NodeStack d));
            let topLevel = Node K_Global NoPayload (attach_attributes attrs nodes);
            if getNumChildren topLevel = 0 then Some (None, d) else Some (Some topLevel, d)
          }
        }
      })"

definition demangleType :: "string \<Rightarrow> demangler \<Rightarrow> node option result" where
  "demangleType MangledName d = do {
     (_, d) \<leftarrow> parseAndPushNodes (init MangledName d);
     let (Result, d) = popNode d;
     Some (if Result \<noteq> None then Result else Some (createNodeText K_Suffix (Text d)), d)
   }"

end
