(* ===== verification/Demangler_Safety.thy ===== *)
theory Demangler_Safety
  imports Demangler
begin

text \<open>
  The demangler does not fail an assertion, dereference a null pointer or loop on the texts
  described by \<open>safe_text\<close>. The proof is a weakest-precondition calculus over the operations:
  every operation keeps \<open>dinv\<close>, which says that the position stays in range and that all nodes on
  the stack and in the substitution table are well formed, and returns a well-formed node.
\<close>

named_theorems safe \<open>weakest-precondition rules of the operations\<close>
named_theorems wf_intros \<open>well-formedness of the nodes the helpers build\<close>

section \<open>Weakest preconditions\<close>

definition ok :: "('a \<times> 'b) option \<Rightarrow> ('a \<Rightarrow> 'b \<Rightarrow> bool) \<Rightarrow> bool" where
  "ok m Q \<longleftrightarrow> (case m of None \<Rightarrow> False | Some (x, d) \<Rightarrow> Q x d)"

definition okp :: "'a \<times> 'b \<Rightarrow> ('a \<Rightarrow> 'b \<Rightarrow> bool) \<Rightarrow> bool" where
  "okp m Q \<longleftrightarrow> (case m of (x, d) \<Rightarrow> Q x d)"

definition oks :: "'a option \<Rightarrow> ('a \<Rightarrow> bool) \<Rightarrow> bool" where
  "oks m Q \<longleftrightarrow> (case m of None \<Rightarrow> False | Some x \<Rightarrow> Q x)"

lemma ok_Some [simp]: "ok (Some (x, d)) Q \<longleftrightarrow> Q x d"
  by (simp add: ok_def)

lemma okp_Pair [simp]: "okp (x, d) Q \<longleftrightarrow> Q x d"
  by (simp add: okp_def)

lemma oks_Some [simp]: "oks (Some x) Q \<longleftrightarrow> Q x"
  by (simp add: oks_def)

lemma ok_SomeI [safe]: "okp m Q \<Longrightarrow> ok (Some m) Q"
  by (cases m) simp

lemma okp_PairI [safe]: "Q x d \<Longrightarrow> okp (x, d) Q"
  by simp

lemma ok_bind [safe]: "ok m (\<lambda>x d. ok (f (x, d)) Q) \<Longrightarrow> ok (m \<bind> f) Q"
  by (cases m) (auto simp: ok_def split: option.splits)

lemma ok_bind_oks [safe]: "oks m (\<lambda>x. ok (f x) Q) \<Longrightarrow> ok (m \<bind> f) Q"
  by (cases m) (auto simp: oks_def)

lemma oks_bind [safe]: "oks m (\<lambda>x. oks (f x) Q) \<Longrightarrow> oks (m \<bind> f) Q"
  by (cases m) (auto simp: oks_def)

lemma ok_Let [safe]: "ok (f v) Q \<Longrightarrow> ok (Let v f) Q"
  by simp

lemma okp_Let [safe]: "okp (f v) Q \<Longrightarrow> okp (Let v f) Q"
  by simp

lemma oks_Let [safe]: "oks (f v) Q \<Longrightarrow> oks (Let v f) Q"
  by simp

lemma oks_option [safe]:
  "(x = None \<Longrightarrow> oks A Q) \<Longrightarrow> (\<And>y. x = Some y \<Longrightarrow> oks (B y) Q) \<Longrightarrow>
   oks (case x of None \<Rightarrow> A | Some y \<Rightarrow> B y) Q"
  by (cases x) auto

lemma oks_SomeI [safe]: "Q x \<Longrightarrow> oks (Some x) Q"
  by simp

lemma ok_prod [safe]: "okp m (\<lambda>x d. ok (f x d) Q) \<Longrightarrow> ok (case m of (x, d) \<Rightarrow> f x d) Q"
  by (cases m) simp

lemma okp_prod [safe]: "okp m (\<lambda>x d. okp (f x d) Q) \<Longrightarrow> okp (case m of (x, d) \<Rightarrow> f x d) Q"
  by (cases m) simp

lemma ok_if [safe]: "(b \<Longrightarrow> ok A Q) \<Longrightarrow> (\<not> b \<Longrightarrow> ok B Q) \<Longrightarrow> ok (if b then A else B) Q"
  by simp

lemma okp_if [safe]: "(b \<Longrightarrow> okp A Q) \<Longrightarrow> (\<not> b \<Longrightarrow> okp B Q) \<Longrightarrow> okp (if b then A else B) Q"
  by simp

lemma oks_if [safe]: "(b \<Longrightarrow> oks A Q) \<Longrightarrow> (\<not> b \<Longrightarrow> oks B Q) \<Longrightarrow> oks (if b then A else B) Q"
  by simp

lemma ok_option [safe]:
  "(x = None \<Longrightarrow> ok A Q) \<Longrightarrow> (\<And>y. x = Some y \<Longrightarrow> ok (B y) Q) \<Longrightarrow>
   ok (case x of None \<Rightarrow> A | Some y \<Rightarrow> B y) Q"
  by (cases x) auto

lemma okp_option [safe]:
  "(x = None \<Longrightarrow> okp A Q) \<Longrightarrow> (\<And>y. x = Some y \<Longrightarrow> okp (B y) Q) \<Longrightarrow>
   okp (case x of None \<Rightarrow> A | Some y \<Rightarrow> B y) Q"
  by (cases x) auto

lemma ok_assert [safe]: "b \<Longrightarrow> ok (f ()) Q \<Longrightarrow> ok (assert_that b \<bind> f) Q"
  by simp

lemma ok_map_option [safe]: "oks m (\<lambda>n. Q (f n) d) \<Longrightarrow> ok (map_option (\<lambda>n. (f n, d)) m) Q"
  by (cases m) (auto simp: oks_def)

lemma ok_conseq: "ok m P \<Longrightarrow> (\<And>x d. P x d \<Longrightarrow> Q x d) \<Longrightarrow> ok m Q"
  by (cases m) (auto simp: ok_def)

lemma okp_conseq: "okp m P \<Longrightarrow> (\<And>x d. P x d \<Longrightarrow> Q x d) \<Longrightarrow> okp m Q"
  by (cases m) auto

lemma okD: "ok m Q \<Longrightarrow> \<exists>x d. m = Some (x, d) \<and> Q x d"
  by (auto simp: ok_def split: option.splits)

section \<open>Well-formed nodes\<close>

definition has_text :: "payload \<Rightarrow> bool" where
  "has_text p \<longleftrightarrow> (\<exists>t. p = TextPayload t)"

definition param_count :: "node \<Rightarrow> nat" where
  "param_count Ty =
     (if getKind (children Ty ! 0) = K_Tuple then getNumChildren (children Ty ! 0) else 1)"

definition function_children :: "node list \<Rightarrow> bool" where
  "function_children cs \<longleftrightarrow>
     (length cs = 2 \<and> getKind (cs ! 0) = K_ArgumentTuple) \<or>
     (length cs = 3 \<and> getKind (cs ! 0) = K_ThrowsAnnotation \<and> getKind (cs ! 1) = K_ArgumentTuple)"

text \<open>What the parser relies on when it takes a node of one of these kinds apart.\<close>

definition wf_local :: "node_kind \<Rightarrow> payload \<Rightarrow> node list \<Rightarrow> bool" where
  "wf_local k p cs \<longleftrightarrow>
     (k = K_Type \<longrightarrow> length cs = 1) \<and>
     (k = K_Identifier \<longrightarrow> has_text p \<and> cs = []) \<and>
     (k = K_BuiltinTypeName \<longrightarrow> has_text p \<and> cs = []) \<and>
     (k = K_TupleElementName \<longrightarrow> has_text p \<and> cs = []) \<and>
     (k = K_ThrowsAnnotation \<longrightarrow> cs = []) \<and>
     (k = K_DependentGenericType \<longrightarrow> length cs = 2 \<and> getKind (cs ! 1) = K_Type) \<and>
     (k = K_FunctionType \<longrightarrow> function_children cs) \<and>
     (k = K_ArgumentTuple \<longrightarrow>
        length cs = 1 \<and> getKind (cs ! 0) = K_Type \<and> p = IndexPayload (param_count (cs ! 0))) \<and>
     (k = K_Tuple \<longrightarrow> (\<forall>c \<in> set cs. getKind c = K_TupleElement)) \<and>
     (k = K_Extension \<longrightarrow> length cs \<ge> 2) \<and>
     (k = K_InOut \<longrightarrow> length cs = 1)"

fun wf_node :: "node \<Rightarrow> bool" where
  "wf_node (Node k p cs) \<longleftrightarrow> wf_local k p cs \<and> (\<forall>c \<in> set cs. wf_node c)"

definition plain :: "node_kind \<Rightarrow> bool" where
  "plain k \<longleftrightarrow> k \<notin> set [K_Type, K_Identifier, K_BuiltinTypeName, K_TupleElementName,
     K_ThrowsAnnotation, K_DependentGenericType, K_FunctionType, K_ArgumentTuple, K_Tuple, K_Extension, K_InOut]"

lemma wf_plain: "plain k \<Longrightarrow> wf_node (Node k p cs) \<longleftrightarrow> (\<forall>c \<in> set cs. wf_node c)"
  by (simp add: plain_def wf_local_def)

lemma wf_children: "wf_node nd \<Longrightarrow> c \<in> set (children nd) \<Longrightarrow> wf_node c"
  by (cases nd) simp

definition wf_opt :: "node option \<Rightarrow> bool" where
  "wf_opt n \<longleftrightarrow> (\<forall>m. n = Some m \<longrightarrow> wf_node m)"

lemma wf_opt_None [simp]: "wf_opt None"
  by (simp add: wf_opt_def)

lemma wf_opt_Some [simp]: "wf_opt (Some n) \<longleftrightarrow> wf_node n"
  by (simp add: wf_opt_def)

text \<open>Nodes that may get further children.\<close>

definition open_opt :: "node option \<Rightarrow> bool" where
  "open_opt P \<longleftrightarrow> (\<forall>n. P = Some n \<longrightarrow> plain (getKind n) \<or> getKind n = K_Extension)"

lemmas create_defs = createType_def createWithChild_def createWithChildren2_def
  createWithChildren3_def createWithChildren4_def addChild_def changeKind_def Node_addChild_def

lemma wf_extension: "wf_node (Node K_Extension p cs) \<longleftrightarrow> length cs \<ge> 2 \<and> (\<forall>c \<in> set cs. wf_node c)"
  by (simp add: wf_local_def)

lemma wf_type: "wf_node (Node K_Type p cs) \<longleftrightarrow> length cs = 1 \<and> (\<forall>c \<in> set cs. wf_node c)"
  by (simp add: wf_local_def)

lemma wf_inout: "wf_node (Node K_InOut p cs) \<longleftrightarrow> length cs = 1 \<and> (\<forall>c \<in> set cs. wf_node c)"
  by (simp add: wf_local_def)

lemma wf_generic: "wf_node (Node K_DependentGenericType p cs) \<longleftrightarrow>
    length cs = 2 \<and> getKind (cs ! 1) = K_Type \<and> (\<forall>c \<in> set cs. wf_node c)"
  by (simp add: wf_local_def)

lemma wf_tuple: "wf_node (Node K_Tuple p cs) \<longleftrightarrow>
    (\<forall>c \<in> set cs. getKind c = K_TupleElement \<and> wf_node c)"
  by (auto simp: wf_local_def)

lemmas wf_kinds = wf_tuple wf_plain wf_extension wf_type wf_inout wf_generic

declare wf_node.simps [simp del]

lemma wf_node_add:
  "wf_node n \<Longrightarrow> wf_node c \<Longrightarrow> plain (getKind n) \<or> getKind n = K_Extension \<Longrightarrow>
   wf_node (Node (getKind n) (getPayload n) (children n @ [c]))"
  by (cases n) (auto simp: wf_kinds)

lemma wf_addChild [wf_intros]:
  "wf_opt P \<Longrightarrow> wf_opt c \<Longrightarrow> open_opt P \<Longrightarrow> wf_opt (addChild P c)"
  by (cases P; cases c) (auto simp: addChild_def Node_addChild_def open_opt_def intro: wf_node_add)

lemma open_addChild [wf_intros]: "open_opt P \<Longrightarrow> open_opt (addChild P c)"
  by (cases P; cases c) (auto simp: addChild_def Node_addChild_def open_opt_def)

lemma open_create [wf_intros]:
  "plain k \<Longrightarrow> open_opt (Some (Node k p cs))"
  "plain k \<Longrightarrow> open_opt (createWithChild k c)"
  "plain k \<or> k = K_Extension \<Longrightarrow> open_opt (createWithChildren2 k c1 c2)"
  "plain k \<Longrightarrow> open_opt (createWithChildren3 k c1 c2 c3)"
  by (auto simp: open_opt_def create_defs split: option.splits if_splits)

lemma wf_createWithChild [wf_intros]:
  "wf_opt c \<Longrightarrow> plain k \<or> k = K_InOut \<Longrightarrow> wf_opt (createWithChild k c)"
  by (cases c) (auto simp: create_defs wf_kinds)

lemma wf_createType [wf_intros]: "wf_opt c \<Longrightarrow> wf_opt (createType c)"
  by (cases c) (auto simp: create_defs wf_kinds)

lemma createType_kind: "createType c = Some n \<Longrightarrow> getKind n = K_Type"
  by (cases c) (auto simp: create_defs)

lemma wf_createWithChildren2 [wf_intros]:
  "wf_opt c1 \<Longrightarrow> wf_opt c2 \<Longrightarrow> plain k \<or> k = K_Extension \<Longrightarrow> wf_opt (createWithChildren2 k c1 c2)"
  by (cases c1; cases c2) (auto simp: create_defs wf_kinds)

lemma wf_createDependentGenericType [wf_intros]:
  "wf_opt c1 \<Longrightarrow> wf_opt c2 \<Longrightarrow> (\<And>n. c2 = Some n \<Longrightarrow> getKind n = K_Type) \<Longrightarrow>
   wf_opt (createWithChildren2 K_DependentGenericType c1 c2)"
  by (cases c1; cases c2) (auto simp: create_defs wf_kinds)

lemma wf_createWithChildren3 [wf_intros]:
  "wf_opt c1 \<Longrightarrow> wf_opt c2 \<Longrightarrow> wf_opt c3 \<Longrightarrow> plain k \<Longrightarrow> wf_opt (createWithChildren3 k c1 c2 c3)"
  by (cases c1; cases c2; cases c3) (auto simp: create_defs wf_kinds)

lemma wf_createWithChildren4 [wf_intros]:
  "wf_opt c1 \<Longrightarrow> wf_opt c2 \<Longrightarrow> wf_opt c3 \<Longrightarrow> wf_opt c4 \<Longrightarrow> plain k \<Longrightarrow>
   wf_opt (createWithChildren4 k c1 c2 c3 c4)"
  by (cases c1; cases c2; cases c3; cases c4) (auto simp: create_defs wf_kinds)

lemma wf_changeKind [wf_intros]: "wf_opt n \<Longrightarrow> plain k \<Longrightarrow> wf_opt (changeKind n k)"
  by (cases n) (auto simp: create_defs wf_kinds dest: wf_children)

lemma wf_leaf [wf_intros]:
  "plain k \<Longrightarrow> \<forall>c \<in> set cs. wf_node c \<Longrightarrow> wf_node (Node k p cs)"
  "wf_node (createNodeText K_Identifier t)"
  "wf_node (createNodeText K_BuiltinTypeName t)"
  "wf_node (createNodeText K_TupleElementName t)"
  "wf_node (createNode K_ThrowsAnnotation)"
  by (simp_all add: wf_plain) (simp_all add: wf_node.simps wf_local_def has_text_def)

lemma wf_if [wf_intros]: "(b \<Longrightarrow> wf_opt x) \<Longrightarrow> (\<not> b \<Longrightarrow> wf_opt y) \<Longrightarrow> wf_opt (if b then x else y)"
  by simp

lemma wf_Some [wf_intros]: "wf_node n \<Longrightarrow> wf_opt (Some n)"
  by simp

section \<open>Texts without a known trap\<close>

definition no_long_number :: "string \<Rightarrow> bool" where
  "no_long_number T \<longleftrightarrow> list_all (\<lambda>i. \<not> list_all isDigit (take 7 (drop i T))) [0..<length T - 6]"

definition no_keypath_thunk :: "string \<Rightarrow> bool" where
  "no_keypath_thunk T \<longleftrightarrow>
     list_all (\<lambda>i. \<not> (T ! i = CHR ''T'' \<and> (T ! Suc i = CHR ''K'' \<or> T ! Suc i = CHR ''k'')))
       [0..<length T - 1]"

definition punycode_total :: "string \<Rightarrow> bool" where
  "punycode_total T \<longleftrightarrow>
     (\<forall>i j n. Suc i < j \<and> j \<le> length T \<and> T ! i = CHR ''0'' \<and> T ! Suc i = CHR ''0'' \<longrightarrow>
        decodePunycodeUTF8 (take n (drop j T)) \<noteq> None)"

definition safe_text :: "string \<Rightarrow> bool" where
  "safe_text T \<longleftrightarrow> no_long_number T \<and> no_keypath_thunk T \<and> punycode_total T"

section \<open>The invariant\<close>

definition dinv :: "string \<Rightarrow> nat \<Rightarrow> demangler \<Rightarrow> bool" where
  "dinv T p d \<longleftrightarrow> safe_text T \<and> Text d = T \<and> p \<le> Pos d \<and> Pos d \<le> length T \<and>
     (\<forall>n \<in> set (NodeStack d). wf_node n) \<and> (\<forall>n \<in> set (Substitutions d). wf_node n) \<and>
     length (Words d) \<le> 26"

lemma dinv_mono: "dinv T p d \<Longrightarrow> q \<le> p \<Longrightarrow> dinv T q d"
  by (auto simp: dinv_def)

lemma dinv_at: "dinv T p d \<Longrightarrow> q \<le> Pos d \<Longrightarrow> dinv T q d"
  by (auto simp: dinv_def)

lemma dinv_pushNode [wf_intros]: "dinv T p d \<Longrightarrow> wf_node n \<Longrightarrow> dinv T p (pushNode n d)"
  by (auto simp: dinv_def pushNode_def)

lemma dinv_addSubstitution [wf_intros]: "dinv T p d \<Longrightarrow> wf_opt n \<Longrightarrow> dinv T p (addSubstitution n d)"
  by (cases n) (auto simp: dinv_def addSubstitution_def)

lemma Pos_addSubstitution [simp]: "Pos (addSubstitution n d) = Pos d"
  by (cases n) (auto simp: addSubstitution_def)

lemma dinv_push_repeated [wf_intros]: "dinv T p d \<Longrightarrow> wf_node n \<Longrightarrow> dinv T p (push_repeated k n d)"
  by (auto simp: dinv_def)

text \<open>Each primitive: its postcondition, then the rule in continuation form.\<close>

lemma nextChar_post:
  "dinv T p d \<Longrightarrow> okp (nextChar d) (\<lambda>c d'. dinv T p d' \<and>
     (c \<noteq> CHR 0x00 \<or> p < length T \<longrightarrow> p < Pos d') \<and> Pos d \<le> Pos d')"
  by (auto simp: nextChar_def dinv_def)

lemma nextIf_post:
  "dinv T p d \<Longrightarrow> c \<noteq> CHR 0x00 \<Longrightarrow>
   okp (nextIf c d) (\<lambda>b d'. dinv T p d' \<and> (b \<longrightarrow> p < Pos d') \<and> Pos d \<le> Pos d')"
  by (auto simp: nextIf_def peekChar_def dinv_def split: if_splits)

lemma pushBack_post: "dinv T p d \<Longrightarrow> p < Pos d \<Longrightarrow> ok (pushBack d) (\<lambda>u d'. dinv T p d')"
  by (auto simp: pushBack_def dinv_def)

lemma consumeAll_post:
  "dinv T p d \<Longrightarrow> okp (consumeAll d) (\<lambda>s d'. dinv T p d' \<and> Pos d' = length T)"
  by (auto simp: consumeAll_def dinv_def)

lemma popNode_post:
  "dinv T p d \<Longrightarrow> okp (popNode d) (\<lambda>n d'. dinv T p d' \<and> Pos d' = Pos d \<and> wf_opt n)"
  by (auto simp: popNode_def dinv_def split: list.splits)

lemma popNode_if_post:
  "dinv T p d \<Longrightarrow> okp (popNode_if P d) (\<lambda>n d'. dinv T p d' \<and> Pos d' = Pos d \<and> wf_opt n \<and>
     (\<forall>m. n = Some m \<longrightarrow> P (getKind m)))"
  by (auto simp: popNode_if_def popNode_def dinv_def split: list.splits)

lemma popNode_kind_post:
  "dinv T p d \<Longrightarrow> okp (popNode_kind k d) (\<lambda>n d'. dinv T p d' \<and> Pos d' = Pos d \<and> wf_opt n \<and>
     (\<forall>m. n = Some m \<longrightarrow> getKind m = k))"
  using popNode_if_post [of T p d "\<lambda>k'. k' = k"] by (simp add: popNode_kind_def)

lemmas prim_safe [safe] =
  nextChar_post [THEN okp_conseq] nextIf_post [THEN okp_conseq] consumeAll_post [THEN okp_conseq]
  popNode_post [THEN okp_conseq] popNode_if_post [THEN okp_conseq]
  popNode_kind_post [THEN okp_conseq] pushBack_post [THEN ok_conseq]

text \<open>Taking nodes apart.\<close>

lemma getText_oks: "has_text (getPayload n) \<Longrightarrow> oks (getText n) (\<lambda>t. True)"
  by (auto simp: getText_def has_text_def)

lemma oks_conseq: "oks m P \<Longrightarrow> (\<And>x. P x \<Longrightarrow> Q x) \<Longrightarrow> oks m Q"
  by (cases m) (auto simp: oks_def)

lemma wf_text:
  assumes "wf_node n"
    "getKind n = K_Identifier \<or> getKind n = K_BuiltinTypeName \<or> getKind n = K_TupleElementName"
  shows "has_text (getPayload n)"
  using assms by (cases n) (auto simp: wf_node.simps wf_local_def)

lemma getFirstChild_post:
  "wf_node n \<Longrightarrow> getNumChildren n > 0 \<Longrightarrow> oks (getFirstChild n) (\<lambda>c. wf_node c \<and> c = children n ! 0)"
  by (auto simp: getFirstChild_def getNumChildren_def Suc_le_eq intro: wf_children)

lemma getChild_post:
  "wf_node n \<Longrightarrow> getNumChildren n > i \<Longrightarrow> oks (getChild n i) (\<lambda>c. wf_node c \<and> c = children n ! i)"
  by (auto simp: getChild_def getNumChildren_def intro: wf_children)

lemmas child_safe [safe] = getFirstChild_post [THEN oks_conseq] getChild_post [THEN oks_conseq]
  getText_oks [THEN oks_conseq]

lemma Type_children: "wf_node n \<Longrightarrow> getKind n = K_Type \<Longrightarrow> getNumChildren n = 1"
  by (cases n) (auto simp: wf_kinds getNumChildren_def)

section \<open>Contexts and types\<close>

lemma popModule_post:
  "dinv T p d \<Longrightarrow> okp (popModule d) (\<lambda>n d'. dinv T p d' \<and> Pos d' = Pos d \<and> wf_opt n)"
  unfolding popModule_def
  by (assumption | erule conjE | rule safe wf_intros | clarsimp simp: plain_def)+

lemmas popModule_safe [safe] = popModule_post [THEN okp_conseq]

lemma popContext_post:
  "dinv T p d \<Longrightarrow> ok (popContext d) (\<lambda>n d'. dinv T p d' \<and> Pos d' = Pos d \<and> wf_opt n)"
  unfolding popContext_def
  by (assumption | erule conjE | rule safe wf_intros | clarsimp simp: plain_def)+

lemmas popContext_safe [safe] = popContext_post [THEN ok_conseq]

lemma popTypeAndGetChild_post:
  "dinv T p d \<Longrightarrow> ok (popTypeAndGetChild d) (\<lambda>n d'. dinv T p d' \<and> Pos d' = Pos d \<and> wf_opt n)"
  unfolding popTypeAndGetChild_def
  by (assumption | erule conjE | rule safe wf_intros | clarsimp simp: plain_def)+

lemmas popTypeAndGetChild_safe [safe] = popTypeAndGetChild_post [THEN ok_conseq]

lemma popTypeAndGetAnyGeneric_post:
  "dinv T p d \<Longrightarrow> ok (popTypeAndGetAnyGeneric d) (\<lambda>n d'. dinv T p d' \<and> Pos d' = Pos d \<and> wf_opt n)"
  unfolding popTypeAndGetAnyGeneric_def
  by (assumption | erule conjE | rule safe wf_intros | clarsimp simp: plain_def)+

lemmas popTypeAndGetAnyGeneric_safe [safe] = popTypeAndGetAnyGeneric_post [THEN ok_conseq]

section \<open>Numbers\<close>

text \<open>The reading operations change the position only.\<close>

definition only_moves :: "demangler \<Rightarrow> demangler \<Rightarrow> bool" where
  "only_moves d d' \<longleftrightarrow> d' = d\<lparr>Pos := Pos d'\<rparr>"

lemma only_moves_trans: "only_moves d e \<Longrightarrow> only_moves e f \<Longrightarrow> only_moves d f"
  by (cases d; cases e; cases f) (auto simp: only_moves_def)

lemma only_moves_refl [simp]: "only_moves d d" "only_moves d (snd (nextChar d))"
  "only_moves d (snd (nextIf c d))"
  by (cases d; auto simp: only_moves_def nextChar_def nextIf_def)+

lemma dinv_moves:
  "dinv T p d \<Longrightarrow> only_moves d d' \<Longrightarrow> advances d d' \<Longrightarrow> dinv T p d'"
  by (cases d; cases d') (auto simp: dinv_def only_moves_def advances_def)

lemma natural_loop_moves: "only_moves d (snd (natural_loop num d))"
proof (induction num d rule: natural_loop.induct)
  case (1 num d)
  show ?case
  proof (cases "isDigit (peekChar d) \<and> \<not> wrap32 (10 * num + (int (ord (peekChar d)) - 48)) < num")
    case True
    with "1.IH" [OF refl _ refl] have "only_moves (snd (nextChar d))
      (snd (natural_loop (wrap32 (10 * num + (int (ord (peekChar d)) - 48))) (snd (nextChar d))))"
      by simp
    with True show ?thesis
      by (subst natural_loop.simps)
        (auto simp: Let_def intro: only_moves_trans [OF only_moves_refl(2)])
  next
    case False
    then show ?thesis by (subst natural_loop.simps) (auto simp: Let_def)
  qed
qed

definition digit_run :: "demangler \<Rightarrow> nat" where
  "digit_run d = length (takeWhile isDigit (drop (Pos d) (Text d)))"

lemma digit_run_step:
  assumes "isDigit (peekChar d)"
  shows "digit_run d = Suc (digit_run (snd (nextChar d)))"
proof -
  have lt: "Pos d < length (Text d)" using isDigit_peek [OF assms] .
  then have "drop (Pos d) (Text d) = Text d ! Pos d # drop (Suc (Pos d)) (Text d)"
    by (rule Cons_nth_drop_Suc [symmetric])
  with lt assms show ?thesis by (simp add: digit_run_def nextChar_def peekChar_def)
qed

lemma natural_loop_bound:
  assumes "0 \<le> num" "(num + 1) * 10 ^ digit_run d \<le> 2147483648"
  shows "0 \<le> fst (natural_loop num d) \<and> fst (natural_loop num d) < (num + 1) * 10 ^ digit_run d"
  using assms
proof (induction num d rule: natural_loop.induct)
  case (1 num d)
  show ?case
  proof (cases "isDigit (peekChar d)")
    case True
    let ?k = "digit_run (snd (nextChar d))"
    let ?new = "10 * num + (int (ord (peekChar d)) - 48)"
    from True have c: "0 \<le> int (ord (peekChar d)) - 48" "int (ord (peekChar d)) - 48 \<le> 9"
      by (simp_all add: isDigit_def)
    have step: "(?new + 1) * 10 ^ ?k \<le> (num + 1) * 10 ^ digit_run d"
      using c by (simp add: digit_run_step [OF True] mult.assoc [symmetric] mult_right_mono)
    have "?new < (?new + 1) * 10 ^ ?k" using c "1.prems"(1)
      by (smt (verit) mult_le_cancel_left1 one_le_power)
    with step "1.prems" c have w: "wrap32 ?new = ?new" by simp
    have ih: "0 \<le> fst (natural_loop (wrap32 ?new) (snd (nextChar d)))
      \<and> fst (natural_loop (wrap32 ?new) (snd (nextChar d))) < (wrap32 ?new + 1) * 10 ^ ?k"
      using "1.IH" [OF refl _ refl] True w step "1.prems" c by simp
    with w step True "1.prems" c show ?thesis
      by (subst (1 2) natural_loop.simps) (simp add: Let_def)
  next
    case False
    with "1.prems" have "num < (num + 1) * 10 ^ digit_run d"
      by (smt (verit) mult_le_cancel_left1 one_le_power)
    with False "1.prems" show ?thesis by (subst (1 2) natural_loop.simps) simp
  qed
qed

lemma digit_run_le:
  assumes "dinv T p d"
  shows "digit_run d \<le> 6"
proof (rule ccontr)
  assume long: "\<not> digit_run d \<le> 6"
  let ?r = "takeWhile isDigit (drop (Pos d) T)"
  from assms have T: "Text d = T" "no_long_number T" by (auto simp: dinv_def safe_text_def)
  with long have len: "7 \<le> length ?r" by (simp add: digit_run_def)
  then have "7 \<le> length (drop (Pos d) T)" using length_takeWhile_le le_trans by blast
  then have in_range: "Pos d < length T - 6" by simp
  have "take 7 (drop (Pos d) T) = take 7 ?r"
    using len by (metis append_eq_conv_conj take_append takeWhile_dropWhile_id diff_is_0_eq take0 append_Nil2)
  then have "list_all isDigit (take 7 (drop (Pos d) T))"
    by (auto simp: list_all_iff dest: in_set_takeD set_takeWhileD)
  with T(2) in_range show False by (auto simp: no_long_number_def list_all_iff)
qed

lemma demangleNatural_post:
  assumes "dinv T p d"
  shows "okp (demangleNatural d) (\<lambda>n d'. dinv T p d' \<and> n < 1000000 \<and> Pos d \<le> Pos d' \<and>
    (0 \<le> n \<longrightarrow> Pos d < Pos d'))"
proof -
  obtain n d' where nd: "demangleNatural d = (n, d')" by force
  have "only_moves d d'"
    using nd natural_loop_moves [of d 0] by (auto simp: demangleNatural_def split: if_splits)
  then have "dinv T p d'" using assms advances_eqs(3) [OF nd] by (blast intro: dinv_moves)
  moreover have "n < 1000000"
  proof (cases "isDigit (peekChar d)")
    case True
    have "(10 :: int) ^ digit_run d \<le> 10 ^ 6"
      using digit_run_le [OF assms] by (intro power_increasing) auto
    then show ?thesis using natural_loop_bound [of 0 d] True nd by (simp add: demangleNatural_def)
  qed (use nd in \<open>simp add: demangleNatural_def\<close>)
  moreover have "Pos d \<le> Pos d'" using advances_eqs(3) [OF nd] by (simp add: advances_def)
  ultimately show ?thesis using nd demangleNatural_progress [OF nd] by simp
qed

lemmas demangleNatural_safe [safe] = demangleNatural_post [THEN okp_conseq]

lemma demangleIndex_post:
  "dinv T p d \<Longrightarrow> okp (demangleIndex d) (\<lambda>n d'. dinv T p d' \<and> - 1000 \<le> n \<and> n \<le> 1000000 \<and>
     (n < 0 \<longrightarrow> n = - 1000) \<and> Pos d \<le> Pos d' \<and> (0 \<le> n \<longrightarrow> p < Pos d'))"
  unfolding demangleIndex_def
  by (assumption | erule conjE | rule safe wf_intros | clarsimp simp: plain_def)+

lemmas demangleIndex_safe [safe] = demangleIndex_post [THEN okp_conseq]

lemma demangleIndexAsNode_post:
  "dinv T p d \<Longrightarrow> okp (demangleIndexAsNode d) (\<lambda>n d'. dinv T p d' \<and> Pos d \<le> Pos d' \<and> wf_opt n)"
  unfolding demangleIndexAsNode_def
  by (assumption | erule conjE | rule safe wf_intros | clarsimp simp: plain_def)+

lemmas demangleIndexAsNode_safe [safe] = demangleIndexAsNode_post [THEN okp_conseq]

section \<open>Identifiers\<close>

lemma collect_words_length: "length ws \<le> 26 \<Longrightarrow> length (collect_words s i w ws) \<le> 26"
proof (induction s i w ws rule: collect_words.induct)
  case (1 s i w ws)
  then show ?case
    by (subst collect_words.simps) (auto simp: Let_def split: option.splits)
qed

lemma word_substs_moves: "only_moves d (snd (word_substs I d))"
proof (induction I d rule: word_substs.induct)
  case (1 I d)
  obtain c d' where c: "nextChar d = (c, d')" by force
  then have "only_moves d d'" using only_moves_refl(2) [of d] by simp
  then show ?case
    using "1.IH" [OF _ c [symmetric] refl refl] c
    by (subst word_substs.simps) (auto simp: Let_def intro: only_moves_trans)
qed

lemma word_substs_post:
  assumes "dinv T p d"
  shows "okp (word_substs I d) (\<lambda>r d'. dinv T p d' \<and> Pos d \<le> Pos d')"
proof -
  obtain r d' where rd: "word_substs I d = (r, d')" by force
  have "dinv T p d'"
    using dinv_moves [OF assms] word_substs_moves [of d I] advances_eqs(5) [OF rd] rd by simp
  with rd advances_eqs(5) [OF rd] show ?thesis by (simp add: advances_def)
qed

lemmas word_substs_safe [safe] = word_substs_post [THEN okp_conseq]

definition after_zeros :: "string \<Rightarrow> nat \<Rightarrow> bool" where
  "after_zeros T q \<longleftrightarrow> (\<exists>i. Suc i < q \<and> T ! i = CHR ''0'' \<and> T ! Suc i = CHR ''0'')"

lemma after_zeros_mono: "after_zeros T q \<Longrightarrow> q \<le> r \<Longrightarrow> after_zeros T r"
  unfolding after_zeros_def by (meson less_le_trans)

lemma decode_slice:
  assumes "dinv T p d" "after_zeros T (Pos d)"
  shows "ok (decodePunycodeUTF8 (take n (drop (Pos d) (Text d)))) (\<lambda>b s. True)"
proof -
  from assms(2) obtain i where "Suc i < Pos d" "T ! i = CHR ''0''" "T ! Suc i = CHR ''0''"
    by (auto simp: after_zeros_def)
  with assms(1) have "decodePunycodeUTF8 (take n (drop (Pos d) T)) \<noteq> None" "Text d = T"
    unfolding dinv_def safe_text_def punycode_total_def by blast+
  then show ?thesis by (auto simp: ok_def split: option.splits)
qed

lemma dinv_slice:
  "dinv T p d \<Longrightarrow> Pos d + k \<le> length (Text d) \<Longrightarrow> length ws \<le> 26 \<Longrightarrow>
   dinv T p (d\<lparr>Words := ws, Pos := Pos d + k\<rparr>)"
  "dinv T p d \<Longrightarrow> Pos d + k \<le> length (Text d) \<Longrightarrow> dinv T p (d\<lparr>Pos := Pos d + k\<rparr>)"
  by (auto simp: dinv_def)

lemma dinv_Words: "dinv T p d \<Longrightarrow> length (Words d) \<le> 26"
  by (simp add: dinv_def)

lemma identifier_round_post:
  assumes inv: "dinv T p d" and zeros: "isP \<Longrightarrow> after_zeros T (Pos d)"
  shows "ok (identifier_round isP h I d) (\<lambda>r d'. dinv T p d' \<and> Pos d \<le> Pos d' \<and>
    (\<forall>x. r = Inr x \<longrightarrow> Pos d < Pos d'))"
proof -
  obtain r1 d1 where 1: "(if h then word_substs I d else (Some (False, I), d)) = (r1, d1)" by force
  have i1: "dinv T p d1" "Pos d \<le> Pos d1"
    using word_substs_post [OF inv, of I] 1 inv by (auto split: if_splits)
  obtain b d2 where 2: "nextIf (CHR ''0'') d1 = (b, d2)" by force
  have i2: "dinv T p d2" "Pos d1 \<le> Pos d2" "b \<Longrightarrow> Pos d1 < Pos d2"
    using nextIf_post [OF i1(1), of "CHR ''0''"] nextIf_post [of T "Pos d1" d1 "CHR ''0''"] 2 i1(1)
    by (auto simp: dinv_at)
  obtain num d3 where 3: "demangleNatural d2 = (num, d3)" by force
  have i3: "dinv T p d3" "Pos d2 \<le> Pos d3" "0 \<le> num \<Longrightarrow> Pos d2 < Pos d3"
    using demangleNatural_post [OF i2(1)] 3 by auto
  define d4 where "d4 = (if isP then snd (nextIf (CHR ''_'') d3) else d3)"
  have i4: "dinv T p d4" "Pos d3 \<le> Pos d4"
    using nextIf_post [OF i3(1), of "CHR ''_''"] i3(1) by (auto simp: d4_def okp_def split: prod.splits)
  have z4: "isP \<Longrightarrow> after_zeros T (Pos d4)"
    using zeros i1(2) i2(2) i3(2) i4(2) by (blast intro: after_zeros_mono le_trans)
  show ?thesis
  proof (cases "r1 = None \<or> b \<or> num \<le> 0 \<or> length (Text d4) < Pos d4 + nat num")
    case True
    with 1 2 3 i1 i2 i3 i4 show ?thesis
      unfolding identifier_round_def Let_def d4_def by (cases r1) auto
  next
    case False
    then obtain h' I' where r1: "r1 = Some (h', I')" by force
    have fits: "Pos d4 + nat num \<le> length (Text d4)" "0 < num" "Pos d < Pos d4" using False i1 i2 i3 i4 by auto
    show ?thesis
    proof (cases isP)
      case True
      obtain ok' s where dec: "decodePunycodeUTF8 (take (nat num) (drop (Pos d4) (Text d4))) = Some (ok', s)"
        using decode_slice [OF i4(1) z4 [OF True], of "nat num"] by (auto dest: okD)
      show ?thesis
        unfolding identifier_round_def Let_def
        using False 1 2 3 r1 True dec fits dinv_slice(2) [OF i4(1) fits(1)] i4
        by (simp add: d4_def [symmetric]) (simp add: d4_def)
    next
      case False': False
      show ?thesis
        unfolding identifier_round_def Let_def
        using False 1 2 3 r1 False' fits
          dinv_slice(1) [OF i4(1) fits(1) collect_words_length [OF dinv_Words [OF i4(1)]]] i4
        by (simp add: d4_def)
    qed
  qed
qed

lemma identifier_loop_post:
  "dinv T p d \<Longrightarrow> (isP \<Longrightarrow> after_zeros T (Pos d)) \<Longrightarrow>
   ok (identifier_loop isP h I d) (\<lambda>r d'. dinv T p d' \<and> Pos d \<le> Pos d' \<and> (r \<noteq> None \<longrightarrow> Pos d < Pos d'))"
proof (induction isP h I d rule: identifier_loop.induct)
  case (1 isP h I d)
  have "ok (identifier_round isP h I d) (\<lambda>r d'. dinv T p d' \<and> Pos d \<le> Pos d' \<and>
    (\<forall>x. r = Inr x \<longrightarrow> Pos d < Pos d'))"
    by (rule identifier_round_post) (use "1.prems" in auto)
  then obtain r d1 where r: "identifier_round isP h I d = Some (r, d1)" "dinv T p d1" "Pos d \<le> Pos d1"
    "\<And>x. r = Inr x \<Longrightarrow> Pos d < Pos d1"
    by (auto dest!: okD)
  have zeros: "isP \<Longrightarrow> after_zeros T (Pos d1)"
    using "1.prems"(2) r(3) by (blast intro: after_zeros_mono)
  show ?case
  proof (cases r)
    case (Inl u)
    with r show ?thesis by (subst identifier_loop.simps) simp
  next
    case (Inr x)
    obtain h' I' where x: "x = (h', I')" by force
    show ?thesis
    proof (cases h')
      case True
      have "ok (identifier_loop isP h' I' d1)
        (\<lambda>r d'. dinv T p d' \<and> Pos d1 \<le> Pos d' \<and> (r \<noteq> None \<longrightarrow> Pos d1 < Pos d'))"
        using "1.IH" [OF r(1) refl _ _ True r(2) zeros] Inr x by auto
      then have "ok (identifier_loop isP h' I' d1)
        (\<lambda>r d'. dinv T p d' \<and> Pos d \<le> Pos d' \<and> (r \<noteq> None \<longrightarrow> Pos d < Pos d'))"
        by (rule ok_conseq) (use r(3) in auto)
      with True r(1) Inr x show ?thesis by (subst identifier_loop.simps) simp
    next
      case False
      with r Inr x show ?thesis by (subst identifier_loop.simps) simp
    qed
  qed
qed

lemma demangleIdentifier_post:
  assumes inv: "dinv T p d"
  shows "ok (demangleIdentifier d) (\<lambda>n d'. dinv T p d' \<and> Pos d \<le> Pos d' \<and> wf_opt n \<and>
    (n \<noteq> None \<longrightarrow> Pos d < Pos d'))"
proof (cases "isDigit (peekChar d)")
  case True
  define s where "s = (if peekChar d = CHR ''0'' then
      let d = snd (nextChar d) in
      if peekChar d = CHR ''0'' then (True, False, snd (nextChar d)) else (False, True, d)
    else (False, False, d))"
  obtain isP h d1 where s1: "s = (isP, h, d1)" by (cases s)
  have lt: "Pos d < length (Text d)" using isDigit_peek [OF True] .
  have "dinv T p (snd (nextChar d))" "dinv T p (snd (nextChar (snd (nextChar d))))"
    using inv nextChar_post okp_def by (metis (no_types, lifting) case_prod_unfold)+
  then have i1: "dinv T p d1" using s1 inv by (auto simp: s_def Let_def split: if_splits)
  have le: "Pos d \<le> Pos d1" using s1 by (auto simp: s_def Let_def nextChar_def split: if_splits)
  have z1: "after_zeros T (Pos d1)" if isP
    using s1 that inv lt
    by (auto simp: s_def Let_def nextChar_def peekChar_def after_zeros_def dinv_def split: if_splits
        intro!: exI [of _ "Pos d"])
  have "ok (identifier_loop isP h [] d1)
    (\<lambda>r d'. dinv T p d' \<and> Pos d \<le> Pos d' \<and> (r \<noteq> None \<longrightarrow> Pos d < Pos d'))"
    by (rule ok_conseq [OF identifier_loop_post [OF i1 z1]]) (use le in auto)
  then obtain r d2 where r: "identifier_loop isP h [] d1 = Some (r, d2)" "dinv T p d2" "Pos d \<le> Pos d2"
    "r \<noteq> None \<longrightarrow> Pos d < Pos d2" by (auto dest!: okD)
  have "demangleIdentifier d = identifier_loop isP h [] d1 \<bind> (\<lambda>(r, d).
      case r of None \<Rightarrow> Some (None, d)
      | Some Identifier \<Rightarrow> if Identifier = [] then Some (None, d)
          else let Ident = Some (createNodeText K_Identifier Identifier)
               in Some (Ident, addSubstitution Ident d))"
    using True s1 by (simp add: demangleIdentifier_def s_def [symmetric] Let_def)
  with r show ?thesis
    by (cases r) (auto simp: Let_def intro!: dinv_addSubstitution wf_intros)
qed (use inv in \<open>simp add: demangleIdentifier_def\<close>)

lemmas demangleIdentifier_safe [safe] = demangleIdentifier_post [THEN ok_conseq]

end
