(* ===== verification/Demangler_Total.thy ===== *)
theory Demangler_Total
  imports Demangler_Safety
begin

text \<open>
  The safety calculus applied to the operators of the demangler, up to the operator dispatch, the
  parser loop and the entry points: on every safe text they return, the position advances with
  every node, and the nodes built are well formed.
\<close>

section \<open>Substitutions\<close>

lemma nth_wf: "\<forall>n \<in> set xs. wf_node n \<Longrightarrow> i < length xs \<Longrightarrow> wf_node (xs ! i)"
  by simp

lemma Substitutions_wf: "dinv T p d \<Longrightarrow> i < length (Substitutions d) \<Longrightarrow> wf_node (Substitutions d ! i)"
  by (simp add: dinv_def)

lemma pushMultiSubstitutions_post:
  "dinv T p d \<Longrightarrow> okp (pushMultiSubstitutions n i d) (\<lambda>n d'. dinv T p d' \<and> wf_opt n)"
  unfolding pushMultiSubstitutions_def
  by (assumption | erule conjE | rule safe wf_intros | clarsimp simp: plain_def Substitutions_wf)+

lemma multi_subst_loop_post:
  "dinv T p d \<Longrightarrow> ok (multi_subst_loop n d) (\<lambda>n d'. dinv T p d' \<and> wf_opt n)"
proof (induction n d rule: multi_subst_loop.induct)
  case (1 n d)
  obtain c d1 where c: "nextChar d = (c, d1)" by force
  with nextChar_post [OF "1.prems"] have i1: "dinv T p d1" "c \<noteq> CHR 0x00 \<Longrightarrow> p < Pos d1" by auto
  consider "c = CHR 0x00" | (low) "c \<noteq> CHR 0x00" "isLowerLetter c"
    | (up) "c \<noteq> CHR 0x00" "\<not> isLowerLetter c" "isUpperLetter c"
    | (us) "c \<noteq> CHR 0x00" "\<not> isLowerLetter c" "\<not> isUpperLetter c" "c = CHR ''_''"
    | (num) "c \<noteq> CHR 0x00" "\<not> isLowerLetter c" "\<not> isUpperLetter c" "c \<noteq> CHR ''_''"
    by blast
  then show ?case
  proof cases
    case low
    obtain r d2 where r: "pushMultiSubstitutions n (ord c - 97) d1 = (r, d2)" by force
    with pushMultiSubstitutions_post [OF i1(1)] have "dinv T p d2" "wf_opt r" by (metis okp_Pair)+
    then show ?thesis
      using "1.IH"(1) [OF c [symmetric] low r [symmetric]] low c r
      by (subst multi_subst_loop.simps) (auto split: option.splits simp: dinv_pushNode)
  next
    case up
    then show ?thesis
      using c pushMultiSubstitutions_post [OF i1(1)]
      by (subst multi_subst_loop.simps) (auto intro!: ok_SomeI)
  next
    case us
    then show ?thesis
      using c i1 by (subst multi_subst_loop.simps) (auto simp: Let_def Substitutions_wf)
  next
    case num
    obtain u d2 where d2: "pushBack d1 = Some (u, d2)" "dinv T p d2"
      using pushBack_post [OF i1(1) i1(2) [OF num(1)]] by (auto dest!: okD)
    obtain k d3 where d3: "demangleNatural d2 = (k, d3)" by force
    with demangleNatural_post [OF d2(2)] have i3: "dinv T p d3" by simp
    then show ?thesis
      using "1.IH"(2) [OF c [symmetric] num d2(1) refl d3 [symmetric]] num c d2 d3
      by (subst multi_subst_loop.simps) auto
  qed (use c i1 in \<open>subst multi_subst_loop.simps, simp\<close>)
qed

lemmas multi_subst_safe [safe] = multi_subst_loop_post [THEN ok_conseq]

lemma demangleMultiSubstitutions_post:
  "dinv T p d \<Longrightarrow> ok (demangleMultiSubstitutions d) (\<lambda>n d'. dinv T p d' \<and> wf_opt n)"
  unfolding demangleMultiSubstitutions_def by (rule multi_subst_loop_post)

lemma wf_createSwiftType [wf_intros]: "plain k \<Longrightarrow> wf_opt (createSwiftType k name)"
  unfolding createSwiftType_def by (rule wf_intros disjI1 | assumption | simp add: plain_def)+

lemma wf_find_standard_type: "wf_opt (find_standard_type c ts)"
  by (induction c ts rule: find_standard_type.induct)
    (auto intro!: wf_createSwiftType simp: plain_def)

lemma wf_createStandardSubstitution: "wf_opt (createStandardSubstitution c)"
  unfolding createStandardSubstitution_def by (rule wf_find_standard_type)

lemma createStandardSubstitution_NUL: "createStandardSubstitution (CHR 0x00) = None"
  by (simp add: createStandardSubstitution_def standard_types_def)

lemma createStandardSubstitution_Some:
  "createStandardSubstitution c = Some n \<Longrightarrow> wf_node n \<and> c \<noteq> CHR 0x00"
  using wf_createStandardSubstitution [of c] createStandardSubstitution_NUL by auto

lemma demangleStandardSubstitution_post:
  "dinv T p d \<Longrightarrow> p < length T \<Longrightarrow> p < Pos d \<Longrightarrow> ok (demangleStandardSubstitution d)
     (\<lambda>n d'. dinv T p d' \<and> wf_opt n \<and> (n \<noteq> None \<longrightarrow> p < Pos d'))"
  unfolding demangleStandardSubstitution_def
  by (assumption | erule conjE | rule safe wf_intros conjI impI
      | (drule createStandardSubstitution_Some, erule conjE) | clarsimp simp: plain_def)+

section \<open>Names and builtin types\<close>

lemma getText_wf: "wf_node n \<Longrightarrow>
    getKind n = K_Identifier \<or> getKind n = K_BuiltinTypeName \<or> getKind n = K_TupleElementName \<Longrightarrow>
    (\<And>t. Q t) \<Longrightarrow> oks (getText n) Q"
  using getText_oks [OF wf_text] by (auto intro: oks_conseq)

lemma demangleOperatorIdentifier_post:
  "dinv T p d \<Longrightarrow> ok (demangleOperatorIdentifier d) (\<lambda>n d'. dinv T p d' \<and> wf_opt n)"
  unfolding demangleOperatorIdentifier_def
  by (assumption | erule conjE | rule safe wf_intros conjI impI getText_wf | clarsimp simp: plain_def)+

lemma demangleLocalIdentifier_post:
  "dinv T p d \<Longrightarrow> okp (demangleLocalIdentifier d) (\<lambda>n d'. dinv T p d' \<and> wf_opt n)"
  unfolding demangleLocalIdentifier_def
  by (assumption | erule conjE | rule safe wf_intros conjI impI | clarsimp simp: plain_def)+

lemma CharVector_append_int_safe [safe]:
  assumes "0 \<le> n" "n < 10000000" "\<And>s. Q s"
  shows "oks (CharVector_append_int str n) Q"
proof -
  have "length (decimal (nat n)) \<le> 7" using assms by (intro length_decimal) auto
  with assms show ?thesis by (simp add: CharVector_append_int_def print_int_def)
qed

lemma builtin_sized_post:
  "dinv T p d \<Longrightarrow> ok (builtin_sized prefix d) (\<lambda>n d'. dinv T p d' \<and> wf_opt n)"
  unfolding builtin_sized_def
  by (assumption | erule conjE | rule safe wf_intros conjI impI | clarsimp simp: plain_def)+

lemmas builtin_sized_safe [safe] = builtin_sized_post [THEN ok_conseq]

lemma builtin_vector_post:
  "dinv T p d \<Longrightarrow> ok (builtin_vector d) (\<lambda>n d'. dinv T p d' \<and> wf_opt n)"
  unfolding builtin_vector_def
  by (assumption | erule conjE | rule safe wf_intros conjI impI getText_wf | clarsimp simp: plain_def)+

lemmas builtin_vector_safe [safe] = builtin_vector_post [THEN ok_conseq]

lemma demangleBuiltinType_post:
  "dinv T p d \<Longrightarrow> ok (demangleBuiltinType d) (\<lambda>n d'. dinv T p d' \<and> wf_opt n)"
  unfolding demangleBuiltinType_def
  by (assumption | erule conjE | rule safe wf_intros conjI impI | clarsimp simp: plain_def)+

section \<open>Nominal types and functions\<close>

lemma demangleAnyGenericType_post:
  "dinv T p d \<Longrightarrow> plain k \<Longrightarrow> ok (demangleAnyGenericType k d) (\<lambda>n d'. dinv T p d' \<and> wf_opt n)"
  unfolding demangleAnyGenericType_def
  by (assumption | erule conjE | rule safe wf_intros conjI impI | clarsimp simp: plain_def)+

lemma demangleExtensionContext_post:
  "dinv T p d \<Longrightarrow> ok (demangleExtensionContext d) (\<lambda>n d'. dinv T p d' \<and> wf_opt n)"
  unfolding demangleExtensionContext_def
  by (assumption | erule conjE | rule safe wf_intros conjI impI | clarsimp simp: plain_def)+

lemma wf_empty_tuple: "wf_node (createNode K_Tuple)"
  by (simp add: wf_tuple)

lemma popFunctionParams_post:
  "dinv T p d \<Longrightarrow> k = K_ArgumentTuple \<or> plain k \<Longrightarrow>
   ok (popFunctionParams k d) (\<lambda>n d'. dinv T p d' \<and> wf_opt n \<and> (\<forall>m. n = Some m \<longrightarrow> getKind m = k))"
proof -
  assume i: "dinv T p d" and k: "k = K_ArgumentTuple \<or> plain k"
  obtain e d1 where 1: "popNode_kind K_EmptyList d = (e, d1)" by force
  with popNode_kind_post [OF i, of K_EmptyList] have i1: "dinv T p d1" by auto
  obtain P d2 where 2: "(if e \<noteq> None then (createType (Some (createNode K_Tuple)), d1)
    else popNode_kind K_Type d1) = (P, d2)" by force
  have i2: "dinv T p d2" "wf_opt P" "\<And>m. P = Some m \<Longrightarrow> getKind m = K_Type"
    using 2 i1 popNode_kind_post [OF i1, of K_Type] wf_createType [OF wf_Some [OF wf_empty_tuple]]
    by (auto split: if_splits dest: createType_kind)
  show ?thesis
  proof (cases P)
    case None
    with 1 2 i2 show ?thesis by (simp add: popFunctionParams_def)
  next
    case (Some t)
    with i2 have t: "wf_node t" "getKind t = K_Type" by auto
    then obtain c where c: "children t = [c]"
      using Type_children [OF t] by (auto simp: getNumChildren_def length_Suc_conv)
    show ?thesis
    proof (cases "k = K_ArgumentTuple")
      case True
      with t c i2 1 2 Some show ?thesis
        by (auto simp: popFunctionParams_def getFirstChild_def getNumChildren_def addChild_def
            Node_addChild_def wf_node.simps wf_local_def param_count_def)
    next
      case False
      with t i2 1 2 Some k show ?thesis
        by (auto simp: popFunctionParams_def addChild_def Node_addChild_def wf_plain)
    qed
  qed
qed

lemma popFunctionType_post:
  assumes i: "dinv T p d" and k: "k = K_FunctionType \<or> plain k"
  shows "ok (popFunctionType k d) (\<lambda>n d'. dinv T p d' \<and> wf_opt n \<and> (\<forall>m. n = Some m \<longrightarrow> getKind m = K_Type))"
proof -
  obtain t d1 where 1: "popNode_kind K_ThrowsAnnotation d = (t, d1)" by force
  with popNode_kind_post [OF i, of K_ThrowsAnnotation]
  have i1: "dinv T p d1" "wf_opt t" "\<And>m. t = Some m \<Longrightarrow> getKind m = K_ThrowsAnnotation" by auto
  obtain a d2 where 2: "popFunctionParams K_ArgumentTuple d1 = Some (a, d2)" "dinv T p d2" "wf_opt a"
    "\<And>m. a = Some m \<Longrightarrow> getKind m = K_ArgumentTuple"
    using popFunctionParams_post [OF i1(1), of K_ArgumentTuple] by (auto dest!: okD)
  obtain r d3 where 3: "popFunctionParams K_ReturnType d2 = Some (r, d3)" "dinv T p d3" "wf_opt r"
    using popFunctionParams_post [OF 2(2), of K_ReturnType] by (auto dest!: okD simp: plain_def)
  define F where "F = addChild (addChild (case t of None \<Rightarrow> Some (createNode k)
    | Some _ \<Rightarrow> addChild (Some (createNode k)) t) a) r"
  have "wf_opt F"
    using i1 2 3 k
    by (cases t; cases a; cases r)
      (auto simp: F_def addChild_def Node_addChild_def wf_node.simps wf_local_def
        function_children_def plain_def)
  then have "wf_opt (createType F)" by (rule wf_createType)
  with 1 2 3 show ?thesis
    by (auto simp: popFunctionType_def F_def [symmetric] dest: createType_kind)
qed

lemmas popFunctionType_safe [safe] = popFunctionType_post [THEN ok_conseq]

section \<open>Parameter labels\<close>

text \<open>
  The old mangling edits the tuple inside a function type. The edit keeps kinds and numbers of
  children down to the depth that well-formedness looks at.
\<close>

definition sim1 :: "node \<Rightarrow> node \<Rightarrow> bool" where
  "sim1 n m \<longleftrightarrow> getKind m = getKind n \<and> getPayload m = getPayload n \<and>
     length (children m) = length (children n)"

definition sim2 :: "node \<Rightarrow> node \<Rightarrow> bool" where
  "sim2 n m \<longleftrightarrow> sim1 n m \<and> (\<forall>j < length (children n). sim1 (children n ! j) (children m ! j))"

lemma sim_refl [simp]: "sim1 n n" "sim2 n n"
  by (auto simp: sim1_def sim2_def)

lemma sim2_set_child: "sim1 (children nd ! i) c \<Longrightarrow> sim2 nd (set_child nd i c)"
proof -
  assume c: "sim1 (children nd ! i) c"
  have "sim1 (children nd ! j) ((children nd)[i := c] ! j)" if "j < length (children nd)" for j
    using c that by (cases "j = i") auto
  with c show ?thesis by (auto simp: sim2_def sim1_def [of nd] set_child_def)
qed

lemma param_count_sim2: "sim2 n m \<Longrightarrow> length (children n) = 1 \<Longrightarrow> param_count m = param_count n"
  by (auto simp: param_count_def sim2_def sim1_def getNumChildren_def)

lemma wf_local_set_child:
  assumes "wf_local k p cs" "i < length cs" "sim1 (cs ! i) c"
    "k = K_ArgumentTuple \<Longrightarrow> sim2 (cs ! i) c" "\<forall>c \<in> set cs. wf_node c"
  shows "wf_local k p (cs[i := c])"
proof -
  have kind: "getKind (cs[i := c] ! j) = getKind (cs ! j)" if "j < length cs" for j
    using assms(2,3) that by (auto simp: sim1_def nth_list_update)
  have "\<forall>x \<in> set (cs[i := c]). getKind x = K_TupleElement" if "\<forall>x \<in> set cs. getKind x = K_TupleElement"
    using that assms(2,3) set_update_subset_insert [of cs i c] by (auto simp: sim1_def)
  moreover have "function_children (cs[i := c])" if "function_children cs"
    using that kind [of 0] kind [of 1] by (cases "cs = []") (auto simp: function_children_def)
  moreover have "param_count (cs[i := c] ! 0) = param_count (cs ! 0)"
    if "k = K_ArgumentTuple"
  proof -
    from that assms(1) have l: "length cs = 1" "getKind (cs ! 0) = K_Type"
      by (auto simp: wf_local_def)
    then have "length (children (cs ! 0)) = 1"
      using assms(5) Type_children [of "cs ! 0"] by (simp add: getNumChildren_def)
    with l assms(2) assms(4) [OF that] show ?thesis by (simp add: param_count_sim2)
  qed
  ultimately show ?thesis
    using assms(1,2) kind [of 0] kind [of 1] by (cases "cs = []") (simp_all add: wf_local_def)
qed

lemma wf_set_child:
  assumes "wf_node nd" "i < length (children nd)" "wf_node c" "sim1 (children nd ! i) c"
    "getKind nd = K_ArgumentTuple \<Longrightarrow> sim2 (children nd ! i) c"
  shows "wf_node (set_child nd i c)"
proof (cases nd)
  case (Node k p cs)
  with assms show ?thesis
    using set_update_subset_insert [of cs i c]
    by (auto simp: wf_node.simps set_child_def wf_local_set_child)
qed

fun node_at :: "nat list \<Rightarrow> node \<Rightarrow> node" where
  "node_at [] nd = nd"
| "node_at (i # path) nd = node_at path (children nd ! i)"

fun valid_path :: "nat list \<Rightarrow> node \<Rightarrow> bool" where
  "valid_path [] nd = True"
| "valid_path (i # path) nd \<longleftrightarrow> i < length (children nd) \<and> valid_path path (children nd ! i)"

lemma replace_at_wf:
  assumes "wf_node nd" "valid_path path nd" "getKind (node_at path nd) = K_Type"
    "sim1 (children (node_at path nd) ! 0) new" "wf_node new"
  shows "wf_node (replace_at (path @ [0]) new nd) \<and> sim2 nd (replace_at (path @ [0]) new nd)"
  using assms
proof (induction path arbitrary: nd)
  case Nil
  then have "length (children nd) = 1" using Type_children [of nd] by (simp add: getNumChildren_def)
  with Nil show ?case by (auto intro!: wf_set_child sim2_set_child)
next
  case (Cons i path)
  then have "wf_node (children nd ! i)" by (auto intro: wf_children)
  with Cons have ih: "wf_node (replace_at (path @ [0]) new (children nd ! i))"
    "sim2 (children nd ! i) (replace_at (path @ [0]) new (children nd ! i))"
    by auto
  then have "sim1 (children nd ! i) (replace_at (path @ [0]) new (children nd ! i))"
    by (simp add: sim2_def)
  with ih Cons.prems show ?case by (auto intro!: wf_set_child sim2_set_child)
qed

lemma getChildIf_from_Some:
  "getChildIf_from i cs k = Some (l, j) \<Longrightarrow>
   i \<le> j \<and> j < i + length cs \<and> l = cs ! (j - i) \<and> getKind l = k"
  by (induction i cs k rule: getChildIf_from.induct) (force split: if_splits)+

lemma old_label_post:
  assumes "wf_node P" "getKind P = K_TupleElement"
  shows "ok (old_label P) (\<lambda>l P'. wf_node l \<and> wf_node P' \<and> getKind P' = K_TupleElement)"
proof (cases "getChildIf P K_TupleElementName")
  case None
  with assms show ?thesis by (auto simp: old_label_def wf_plain plain_def)
next
  case (Some x)
  then obtain l i where x: "x = (l, i)" "i < length (children P)" "l = children P ! i"
    "getKind l = K_TupleElementName"
    by (cases x) (auto simp: getChildIf_def dest!: getChildIf_from_Some)
  with assms have "wf_node l" by (auto intro: wf_children)
  with x(4) have "has_text (getPayload l)" by (simp add: wf_text)
  then obtain t where "getText l = Some t" by (auto simp: has_text_def getText_def)
  moreover have "wf_node (Node K_TupleElement pl cs)" if "set cs \<subseteq> set (children P)" for pl cs
    using assms that by (auto simp: wf_plain plain_def dest: wf_children)
  moreover have "set (take i (children P) @ drop (Suc i) (children P)) \<subseteq> set (children P)"
    by (auto dest: in_set_takeD in_set_dropD)
  ultimately show ?thesis using Some x assms
    by (auto simp: old_label_def removeChildAt_def getNumChildren_def intro: wf_leaf)
qed

lemma old_labels_post:
  assumes "wf_node P" "getKind P = K_Tuple" "i + n = length (children P)"
  shows "ok (old_labels i n P) (\<lambda>ls P'. (\<forall>l \<in> set ls. wf_node l) \<and> wf_node P' \<and> sim1 P P')"
  using assms
proof (induction i n P rule: old_labels.induct)
  case (2 i n P)
  let ?c = "children P ! i"
  have c: "wf_node ?c" "getKind ?c = K_TupleElement"
    using "2.prems" by (cases P, auto simp: wf_tuple)+
  then obtain l c' where l: "old_label ?c = Some (l, c')" "wf_node l" "wf_node c'"
    "getKind c' = K_TupleElement" using old_label_post [of ?c] by (auto dest!: okD)
  have P': "wf_node (set_child P i c')" "getKind (set_child P i c') = K_Tuple"
    "length (children (set_child P i c')) = length (children P)" "sim1 P (set_child P i c')"
    using "2.prems" l set_update_subset_insert [of "children P" i c']
    by (cases P; auto simp: set_child_def wf_tuple sim1_def)+
  have "getChild P i = Some ?c" using "2.prems" by (simp add: getChild_def getNumChildren_def)
  moreover have "ok (old_labels (Suc i) n (set_child P i c'))
    (\<lambda>ls P'. (\<forall>l \<in> set ls. wf_node l) \<and> wf_node P' \<and> sim1 (set_child P i c') P')"
    using "2.IH" [OF calculation l(1) refl] P' "2.prems" by simp
  ultimately show ?case using l P' by (auto dest!: okD simp: sim1_def)
qed simp

lemma new_labels_post:
  "dinv T p d \<Longrightarrow>
   okp (new_labels n d) (\<lambda>ls d'. dinv T p d' \<and> (\<forall>xs. ls = Some xs \<longrightarrow> (\<forall>l \<in> set xs. wf_node l)))"
proof (induction n d rule: new_labels.induct)
  case (2 n d)
  obtain l d1 where l: "popNode d = (l, d1)" by force
  with popNode_post [OF "2.prems"] have i1: "dinv T p d1" "wf_opt l" by auto
  show ?case
  proof (cases l)
    case None
    with l i1 show ?thesis by simp
  next
    case (Some m)
    obtain ls d2 where ls: "new_labels n d1 = (ls, d2)" by force
    then show ?thesis using "2.IH" [OF l [symmetric] refl Some _ i1(1)] l Some i1 by auto
  qed
qed simp

lemma path_append:
  "valid_path (p @ q) nd \<longleftrightarrow> valid_path p nd \<and> valid_path q (node_at p nd)"
  "node_at (p @ q) nd = node_at q (node_at p nd)"
  by (induction p arbitrary: nd) auto

lemma Type_child:
  assumes "wf_node t" "getKind t = K_Type"
  obtains c where "children t = [c]" "wf_node c"
  using Type_children [OF assms] wf_children [OF assms(1)]
  by (auto simp: getNumChildren_def length_Suc_conv)

lemma function_type_of_post:
  assumes "wf_node t" "getKind t = K_Type"
  shows "ok (function_type_of t) (\<lambda>path f. wf_node f \<and> valid_path path t \<and> node_at path t = f)"
proof -
  obtain c where c: "children t = [c]" "wf_node c" using Type_child [OF assms] .
  show ?thesis
  proof (cases "getKind c = K_DependentGenericType")
    case True
    then obtain g u where u: "children c = [g, u]" "getKind u = K_Type" "wf_node u"
      using c(2) by (cases c) (auto simp: wf_generic length_Suc_conv numeral_2_eq_2)
    then obtain f where "children u = [f]" "wf_node f" using Type_child by blast
    with c u True show ?thesis
      by (simp add: function_type_of_def getFirstChild_def getChild_def getNumChildren_def)
  qed (use c in \<open>simp add: function_type_of_def getFirstChild_def getNumChildren_def\<close>)
qed

lemma parameter_type_of_post:
  assumes "wf_node f" "getKind f = K_FunctionType"
  shows "ok (parameter_type_of f) (\<lambda>i a. i < length (children f) \<and> a = children f ! i \<and> wf_node a \<and>
    getKind a = K_ArgumentTuple)"
proof -
  from assms have fc: "function_children (children f)"
    by (cases f) (simp add: wf_node.simps wf_local_def)
  have wfc: "i < length (children f) \<Longrightarrow> wf_node (children f ! i)" for i
    using assms(1) by (auto intro: wf_children)
  from fc show ?thesis
    unfolding function_children_def
    using wfc [of 0] wfc [of 1]
    by (cases "children f = []") (auto simp: parameter_type_of_def getFirstChild_def getChild_def getNumChildren_def)
qed

lemma ArgumentTuple_child:
  assumes "wf_node a" "getKind a = K_ArgumentTuple"
  obtains t c where "children a = [t]" "getKind t = K_Type" "wf_node t" "children t = [c]" "wf_node c"
    "getIndex a = Some (if getKind c = K_Tuple then length (children c) else 1)"
proof -
  from assms obtain t where t: "children a = [t]" "getKind t = K_Type" "wf_node t"
    "getPayload a = IndexPayload (param_count t)"
    by (cases a) (auto simp: wf_node.simps wf_local_def length_Suc_conv)
  then obtain c where "children t = [c]" "wf_node c" using Type_child by blast
  with t that show ?thesis by (auto simp: getIndex_def param_count_def getNumChildren_def)
qed

definition labels_post :: "string \<Rightarrow> nat \<Rightarrow> node option \<Rightarrow> node option \<times> node option \<Rightarrow> demangler \<Rightarrow> bool" where
  "labels_post T p Ty r d' \<longleftrightarrow> (case r of (L, Ty') \<Rightarrow> dinv T p d' \<and> wf_opt L \<and> wf_opt Ty' \<and>
     (\<forall>m. Ty' = Some m \<longrightarrow> (\<exists>m0. Ty = Some m0 \<and> getKind m = getKind m0)))"

lemma wf_label_list: "\<forall>l \<in> set ls. wf_node l \<Longrightarrow> wf_node (Node K_LabelList NoPayload ls)"
  by (simp add: wf_plain plain_def)

lemma popFunctionParamLabels_post:
  assumes i: "dinv T p d" and Ty: "wf_opt Ty"
  shows "ok (popFunctionParamLabels Ty d) (labels_post T p Ty)"
proof -
  obtain e d1 where 1: "(if \<not> IsOldFunctionTypeMangling d then popNode_kind K_EmptyList d
    else (None, d)) = (e, d1)" by force
  have i1: "dinv T p d1"
    using 1 i popNode_kind_post [OF i, of K_EmptyList] by (auto split: if_splits)
  have same: "labels_post T p Ty (L, Ty) d'" if "dinv T p d'" "wf_opt L" for L d'
    using that Ty by (auto simp: labels_post_def)
  note unf = popFunctionParamLabels_def Let_def
  consider "e \<noteq> None" | "e = None" "Ty = None \<or> (\<exists>t. Ty = Some t \<and> getKind t \<noteq> K_Type)"
    | t where "e = None" "Ty = Some t" "getKind t = K_Type" by (cases Ty) auto
  then show ?thesis
  proof cases
    case 3
    with Ty have t: "wf_node t" by simp
    obtain path f where f: "function_type_of t = Some (path, f)" "wf_node f" "valid_path path t"
      "node_at path t = f" using function_type_of_post [OF t 3(3)] by (auto dest!: okD)
    show ?thesis
    proof (cases "getKind f = K_FunctionType")
      case True
      obtain j a where a: "parameter_type_of f = Some (j, a)" "j < length (children f)"
        "a = children f ! j" "wf_node a" "getKind a = K_ArgumentTuple"
        using parameter_type_of_post [OF f(2) True] by (auto dest!: okD)
      obtain u c where u: "children a = [u]" "getKind u = K_Type" "wf_node u" "children u = [c]"
        "wf_node c" "getIndex a = Some (if getKind c = K_Tuple then length (children c) else 1)"
        using ArgumentTuple_child [OF a(4,5)] .
      let ?n = "if getKind c = K_Tuple then length (children c) else 1"
      have first: "getFirstChild a = Some u" "getFirstChild u = Some c"
        using u by (simp_all add: getFirstChild_def getNumChildren_def)
      note known = 1 3 f(1) True a(1,5) u(6) first
      consider (zero) "?n = 0" | (old) "?n \<noteq> 0" "IsOldFunctionTypeMangling d1" "getKind c = K_Tuple"
        | (oldx) "?n \<noteq> 0" "IsOldFunctionTypeMangling d1" "getKind c \<noteq> K_Tuple"
        | (new) "?n \<noteq> 0" "\<not> IsOldFunctionTypeMangling d1" by blast
      then show ?thesis
      proof cases
        case zero
        with known same [OF i1, of None] show ?thesis by (simp add: unf split: if_splits)
      next
        case oldx
        with known same [OF i1, of "Some (createNode K_LabelList)"] wf_label_list [of "[]"]
        show ?thesis by (simp add: unf)
      next
        case old
        obtain ls c' where ls: "old_labels 0 (length (children c)) c = Some (ls, c')"
          "\<forall>l \<in> set ls. wf_node l" "wf_node c'" "sim1 c c'"
          using old_labels_post [OF u(5) old(3), of 0 "length (children c)"] by (auto dest!: okD)
        have "valid_path (path @ [j, 0]) t" "node_at (path @ [j, 0]) t = u"
          using f(3,4) a(2,3) u(1) by (simp_all add: path_append)
        then have "wf_node (replace_at ((path @ [j, 0]) @ [0]) c' t) \<and>
          sim2 t (replace_at ((path @ [j, 0]) @ [0]) c' t)"
          using t ls(3,4) u(2,4) by (intro replace_at_wf) auto
        then have "labels_post T p Ty (Some (Node K_LabelList NoPayload (if has_labels ls then ls else [])),
            Some (replace_at (path @ [j, 0, 0]) c' t)) d1"
          using 3 i1 wf_label_list ls(2) by (auto simp: labels_post_def sim2_def sim1_def)
        with known old ls(1) show ?thesis by (simp add: unf)
      next
        case new
        obtain ls d2 where ls: "new_labels ?n d1 = (ls, d2)" by force
        with new_labels_post [OF i1, of ?n] have i2: "dinv T p d2"
          "\<And>xs. ls = Some xs \<Longrightarrow> \<forall>l \<in> set xs. wf_node l" by auto
        then show ?thesis
          using known new ls same [OF i2(1)] wf_label_list
          by (cases ls) (auto simp: unf)
      qed
    qed (use 1 3 f same [OF i1, of None] in \<open>simp add: unf\<close>)
  qed (use 1 same [OF i1] wf_label_list [of "[]"] in \<open>auto simp: unf\<close>)
qed

lemma popFunctionParamLabels_safe [safe]:
  assumes "dinv T p d" "wf_opt Ty"
    and "\<And>L Ty' d'. dinv T p d' \<and> wf_opt L \<and> wf_opt Ty' \<and>
      (\<forall>m. Ty' = Some m \<longrightarrow> (\<exists>m0. Ty = Some m0 \<and> getKind m = getKind m0)) \<Longrightarrow> Q (L, Ty') d'"
  shows "ok (popFunctionParamLabels Ty d) Q"
  using popFunctionParamLabels_post [OF assms(1,2)]
  by (rule ok_conseq) (auto simp: labels_post_def intro!: assms(3))

lemma ok_prod2 [safe]: "ok (f a b d) Q \<Longrightarrow> ok (case ((a, b), d) of ((x, y), d) \<Rightarrow> f x y d) Q"
  by simp

lemma demangleTypeMangling_post:
  "dinv T p d \<Longrightarrow> ok (demangleTypeMangling d) (\<lambda>n d'. dinv T p d' \<and> wf_opt n)"
  unfolding demangleTypeMangling_def
  by (assumption | erule conjE | rule safe wf_intros conjI impI | clarsimp simp: plain_def)+

lemma demanglePlainFunction_post:
  "dinv T p d \<Longrightarrow> ok (demanglePlainFunction d) (\<lambda>n d'. dinv T p d' \<and> wf_opt n)"
  unfolding demanglePlainFunction_def
  by (assumption | erule conjE | rule safe wf_intros conjI impI | clarsimp simp: plain_def)+

section \<open>Tuples and lists\<close>

definition wf_list :: "(node \<Rightarrow> bool) \<Rightarrow> node list option \<Rightarrow> bool" where
  "wf_list P ns \<longleftrightarrow> (\<forall>xs. ns = Some xs \<longrightarrow> (\<forall>x \<in> set xs. wf_node x \<and> P x))"

lemma wf_list_simps [simp]:
  "wf_list P None" "wf_list P (Some xs) \<longleftrightarrow> (\<forall>x \<in> set xs. wf_node x \<and> P x)"
  by (simp_all add: wf_list_def)

lemma popNode_kind_obtain:
  assumes "dinv T p d"
  obtains n d' where "popNode_kind k d = (n, d')" "dinv T p d'" "wf_opt n"
    "\<And>m. n = Some m \<Longrightarrow> getKind m = k"
  using popNode_kind_post [OF assms, of k] by (cases "popNode_kind k d") auto

lemma tuple_elements_post:
  "dinv T p d \<Longrightarrow> wf_list (\<lambda>e. getKind e = K_TupleElement) (Some es) \<Longrightarrow>
   ok (tuple_elements es d) (\<lambda>r d'. dinv T p d' \<and> wf_list (\<lambda>e. getKind e = K_TupleElement) r)"
proof (induction es d rule: tuple_elements.induct)
  case (1 es d)
  obtain f d1 where 1: "popNode_kind K_FirstElementMarker d = (f, d1)" "dinv T p d1"
    using popNode_kind_obtain [OF "1.prems"(1)] by metis
  obtain v d2 where 2: "popNode_kind K_VariadicMarker d1 = (v, d2)" "dinv T p d2" "wf_opt v"
    using popNode_kind_obtain [OF 1(2)] by metis
  obtain i d3 where 3: "popNode_kind K_Identifier d2 = (i, d3)" "dinv T p d3" "wf_opt i"
    "\<And>m. i = Some m \<Longrightarrow> getKind m = K_Identifier"
    using popNode_kind_obtain [OF 2(2)] by metis
  obtain t d4 where 4: "popNode_kind K_Type d3 = (t, d4)" "dinv T p d4" "wf_opt t"
    using popNode_kind_obtain [OF 3(2)] by metis
  obtain name where name: "(case i of None \<Rightarrow> Some []
      | Some I \<Rightarrow> map_option (\<lambda>t. [createNodeText K_TupleElementName t]) (getText I)) = Some name"
    "\<forall>x \<in> set name. wf_node x"
    using 3(3,4) by (cases i) (auto simp: getText_def has_text_def wf_leaf dest!: wf_text)
  show ?case
  proof (cases t)
    case None
    with 1 2 3 4 name show ?thesis
      by (subst tuple_elements.simps) (simp add: Let_def split: option.splits)
  next
    case (Some ty)
    let ?e = "Node K_TupleElement NoPayload
      ((case v of None \<Rightarrow> [] | Some v \<Rightarrow> [v]) @ name @ [ty])"
    have e: "wf_node ?e" using 2(3) 4(3) Some name(2)
      by (auto simp: wf_plain plain_def split: option.splits)
    show ?thesis
      using "1.IH" [OF 1(1) [symmetric] 2(1) [symmetric] 3(1) [symmetric] name(1) 4(1) [symmetric] Some refl]
        1 2 3 4 name Some e "1.prems"
      by (subst tuple_elements.simps) (cases f; simp add: Let_def)
  qed
qed

lemma popTuple_post: "dinv T p d \<Longrightarrow> ok (popTuple d) (\<lambda>n d'. dinv T p d' \<and> wf_opt n)"
proof -
  assume i: "dinv T p d"
  obtain e d1 where 1: "popNode_kind K_EmptyList d = (e, d1)" "dinv T p d1"
    using popNode_kind_obtain [OF i] by metis
  obtain es d2 where 2: "tuple_elements [] d1 = Some (es, d2)" "dinv T p d2"
    "wf_list (\<lambda>e. getKind e = K_TupleElement) es"
    using tuple_elements_post [OF 1(2), of "[]"] by (auto dest!: okD)
  from 2(3) have "es = Some xs \<Longrightarrow> wf_node (Node K_Tuple NoPayload xs)" for xs by (simp add: wf_tuple)
  with 1 2 show ?thesis
    by (cases es) (auto simp: popTuple_def wf_empty_tuple intro!: wf_createType)
qed

lemma type_elements_post:
  "dinv T p d \<Longrightarrow> wf_list (\<lambda>e. getKind e = K_Type) (Some es) \<Longrightarrow>
   okp (type_elements es d) (\<lambda>r d'. dinv T p d' \<and> wf_list (\<lambda>e. getKind e = K_Type) r)"
proof (induction es d rule: type_elements.induct)
  case (1 es d)
  obtain f d1 where 1: "popNode_kind K_FirstElementMarker d = (f, d1)" "dinv T p d1"
    using popNode_kind_obtain [OF "1.prems"(1)] by metis
  obtain t d2 where 2: "popNode_kind K_Type d1 = (t, d2)" "dinv T p d2" "wf_opt t"
    "\<And>m. t = Some m \<Longrightarrow> getKind m = K_Type"
    using popNode_kind_obtain [OF 1(2)] by metis
  show ?case
    using "1.IH" [OF 1(1) [symmetric] 2(1) [symmetric]] 1 2 "1.prems"
    by (subst type_elements.simps) (auto split: option.splits)
qed

lemma popTypeList_post:
  "dinv T p d \<Longrightarrow> okp (popTypeList d) (\<lambda>n d'. dinv T p d' \<and> wf_opt n \<and>
     (\<forall>m. n = Some m \<longrightarrow> (\<forall>c \<in> set (children m). getKind c = K_Type)))"
proof -
  assume i: "dinv T p d"
  obtain e d1 where 1: "popNode_kind K_EmptyList d = (e, d1)" "dinv T p d1"
    using popNode_kind_obtain [OF i] by metis
  obtain es d2 where 2: "type_elements [] d1 = (es, d2)" by force
  with type_elements_post [OF 1(2), of "[]"]
  have "dinv T p d2" "wf_list (\<lambda>e. getKind e = K_Type) es" by auto
  with 1 2 show ?thesis
    by (cases es) (auto simp: popTypeList_def wf_plain plain_def)
qed

lemmas popTypeList_safe [safe] = popTypeList_post [THEN okp_conseq]

lemma popProtocol_post:
  "dinv T p d \<Longrightarrow> ok (popProtocol d) (\<lambda>n d'. dinv T p d' \<and> wf_opt n)"
  unfolding popProtocol_def
  by (assumption | erule conjE | rule safe wf_intros conjI impI | clarsimp simp: plain_def)+

lemmas popProtocol_safe [safe] = popProtocol_post [THEN ok_conseq]

section \<open>Bound generic types\<close>

lemma popTypes_post:
  "dinv T p d \<Longrightarrow> okp (popTypes d) (\<lambda>ts d'. dinv T p d' \<and> Pos d' = Pos d \<and>
     (\<forall>t \<in> set ts. wf_node t \<and> getKind t = K_Type))"
  by (auto simp: popTypes_def dinv_def dest: set_takeWhileD set_dropWhileD)

lemmas popTypes_safe [safe] = popTypes_post [THEN okp_conseq]

lemma bound_type_lists_post:
  "dinv T p d \<Longrightarrow> wf_list (\<lambda>_. True) (Some ls) \<Longrightarrow>
   okp (bound_type_lists ls d) (\<lambda>r d'. dinv T p d' \<and> wf_list (\<lambda>_. True) r)"
proof (induction ls d rule: bound_type_lists.induct)
  case (1 ls d)
  obtain ts d1 where 1: "popTypes d = (ts, d1)" by force
  with popTypes_post [OF "1.prems"(1)] have i1: "dinv T p d1" "\<forall>t \<in> set ts. wf_node t" by auto
  obtain e d2 where 2: "popNode_kind K_EmptyList d1 = (e, d2)" "dinv T p d2"
    using popNode_kind_obtain [OF i1(1)] by metis
  obtain f d3 where 3: "popNode_kind K_FirstElementMarker d2 = (f, d3)" "dinv T p d3"
    using popNode_kind_obtain [OF 2(2)] by metis
  have l: "wf_node (Node K_TypeList NoPayload (rev ts))"
    using i1(2) by (simp add: wf_plain plain_def)
  show ?case
    using "1.IH" [OF 1 [symmetric] refl 2(1) [symmetric] _ 3(1) [symmetric]] 1 2 3 l "1.prems"
    by (subst bound_type_lists.simps) (auto simp: Let_def split: option.splits)
qed

end
