(* ===== verification/Demangler_Total_Generics.thy ===== *)
theory Demangler_Total_Generics
  imports Demangler_Total
begin

text \<open>
  Postconditions of the operators for bound generic types, lowered function types, associated
  types, conformances, protocol lists and generic signatures.
\<close>

section \<open>Bound generic types\<close>

lemma wf_rebuild:
  assumes "wf_node N" "2 \<le> getNumChildren N" "wf_node b"
    "getKind b = getKind (children N ! 0) \<or> getKind (children N ! 0) \<in> {K_Class, K_Structure, K_Enum}"
    "getNumChildren (children N ! 0) \<ge> 2"
  shows "wf_node (Node (getKind N) NoPayload [b, children N ! 1])"
proof -
  obtain k p cs where N: "N = Node k p cs" by (cases N)
  with assms(2) have len: "2 \<le> length cs" by (simp add: getNumChildren_def)
  then have mem: "cs ! 0 \<in> set cs" "cs ! 1 \<in> set cs" by (auto intro!: nth_mem)
  with assms(1) N have wf: "wf_local k p cs" "wf_node (cs ! 0)" "wf_node (cs ! 1)"
    by (simp_all add: wf_node.simps)
  have c0: "wf_local (getKind (cs ! 0)) (getPayload (cs ! 0)) (children (cs ! 0))"
    using wf(2) by (cases "cs ! 0") (simp add: wf_node.simps)
  have "wf_local k NoPayload [b, cs ! 1]"
  proof -
    have short: "length cs \<le> 1" if "k \<in> {K_Type, K_InOut, K_ArgumentTuple, K_Identifier,
        K_BuiltinTypeName, K_TupleElementName, K_ThrowsAnnotation}"
      using that wf(1) unfolding wf_local_def by (elim insertE) simp_all
    consider "plain k \<or> k = K_Extension" | "k = K_DependentGenericType" | "k = K_Tuple" | "k = K_FunctionType"
      | "length cs \<le> 1"
      using short by (auto simp: plain_def)
    then show ?thesis
    proof cases
      case 3
      then have "getKind (cs ! 0) = K_TupleElement" "getKind (cs ! 1) = K_TupleElement"
        using wf(1) mem by (auto simp: wf_local_def)
      with 3 assms(4) N show ?thesis by (simp add: wf_local_def)
    next
      case 4
      then have "function_children cs" using wf(1) by (simp add: wf_local_def)
      then have "getKind (cs ! 0) = K_ArgumentTuple \<or> getKind (cs ! 0) = K_ThrowsAnnotation"
        unfolding function_children_def by blast
      then have "length (children (cs ! 0)) \<le> 1"
        using c0 unfolding wf_local_def by (elim disjE) simp_all
      with assms(5) N show ?thesis by (simp add: getNumChildren_def)
    next
      case 1
      then show ?thesis by (elim disjE) (simp_all add: wf_local_def plain_def)
    next
      case 2
      then show ?thesis using wf(1) by (simp add: wf_local_def)
    next
      case 5
      then show ?thesis using len by simp
    qed
  qed
  with assms(3) wf(3) N show ?thesis by (simp add: wf_node.simps)
qed

definition bound_of :: "node \<Rightarrow> node option \<Rightarrow> bool" where
  "bound_of n r \<longleftrightarrow> (\<forall>m. r = Some m \<longrightarrow> wf_node m \<and> 2 \<le> getNumChildren n \<and>
     (getKind m = getKind n \<or> getKind n \<in> {K_Class, K_Structure, K_Enum}))"

lemma extension_kids:
  assumes "wf_node c" "getKind c = K_Extension"
  shows "2 \<le> getNumChildren c" "wf_node (children c ! 1)"
  using assms by (cases c; simp add: wf_extension getNumChildren_def)+

lemma bound_extension:
  assumes "wf_node c" "getKind c = K_Extension" "wf_opt b"
  shows "bound_of c (let B = createWithChildren2 K_Extension (Some (children c ! 0)) b in
    if getNumChildren c = 3 then addChild B (Some (children c ! 2)) else B)"
proof -
  obtain q cs where c: "c = Node K_Extension q cs" using assms(2) by (cases c) auto
  with assms(1) have two: "2 \<le> length cs" and kids: "\<And>i. i < length cs \<Longrightarrow> wf_node (cs ! i)"
    by (simp_all add: wf_extension)
  show ?thesis
    using two kids [of 0, OF order.strict_trans2 [OF _ two]] kids [of 2] assms(3)
    unfolding c by (cases b) (auto simp: Let_def bound_of_def create_defs wf_extension getNumChildren_def)
qed

lemma bound_rebuild:
  assumes "wf_node n" "2 \<le> getNumChildren n" "bound_of (children n ! 0) b"
  shows "bound_of n (createWithChildren2 (getKind n) b (Some (children n ! 1)))"
  using assms wf_rebuild [OF assms(1,2)]
  by (cases b) (auto simp: bound_of_def create_defs)

lemma bound_final:
  assumes "wf_node n" "2 \<le> getNumChildren n" "bound_of n r" "wf_node args"
  shows "oks (case r of None \<Rightarrow> Some None
      | Some N \<Rightarrow>
          if getNumChildren args = 0 then Some (Some N)
          else if getKind N = K_Class then
            Some (createWithChildren2 K_BoundGenericClass (createType (Some N)) (Some args))
          else if getKind N = K_Structure then
            Some (createWithChildren2 K_BoundGenericStructure (createType (Some N)) (Some args))
          else if getKind N = K_Enum then
            Some (createWithChildren2 K_BoundGenericEnum (createType (Some N)) (Some args))
          else Some None) (bound_of n)"
  using assms by (cases r) (auto simp: bound_of_def create_defs wf_kinds plain_def)

lemma demangleBoundGenericArgs_post:
  "\<forall>l \<in> set ls. wf_node l \<Longrightarrow> wf_node n \<Longrightarrow> oks (demangleBoundGenericArgs (Some n) ls) (bound_of n)"
proof (induction ls arbitrary: n)
  case Nil
  then show ?case by (simp add: bound_of_def)
next
  case (Cons args ls)
  show ?case
  proof (cases "getNumChildren n < 2")
    case True
    then show ?thesis by (simp add: bound_of_def)
  next
    case False
    let ?c = "children n ! 0"
    have "?c \<in> set (children n)" using False by (intro nth_mem) (auto simp: getNumChildren_def)
    then have c: "getFirstChild n = Some ?c" "getChild n 1 = Some (children n ! 1)" "wf_node ?c"
      using False wf_children [OF Cons.prems(2), of ?c]
      by (simp_all add: getFirstChild_def getChild_def getNumChildren_def not_less)
    have "oks (demangleBoundGenericArgs (Some ?c) ls) (bound_of ?c)"
      using Cons.IH [of ?c] Cons.prems c(3) by simp
    then obtain b where b: "demangleBoundGenericArgs (Some ?c) ls = Some b" "bound_of ?c b"
      by (auto simp: oks_def split: option.splits)
    show ?thesis
    proof (cases "getKind ?c = K_Extension \<and> ls \<noteq> []")
      case True
      have cc: "2 \<le> getNumChildren ?c" "wf_node (children ?c ! 1)"
        using extension_kids [OF c(3)] True by auto
      then have "oks (demangleBoundGenericArgs (Some (children ?c ! 1)) ls) (bound_of (children ?c ! 1))"
        using Cons by simp
      then obtain e where e: "demangleBoundGenericArgs (Some (children ?c ! 1)) ls = Some e" "wf_opt e"
        by (auto simp: oks_def bound_of_def wf_opt_def split: option.splits)
      note bound = bound_final [OF Cons.prems(2) _ bound_rebuild [OF Cons.prems(2) _
        bound_extension [OF c(3) conjunct1 [OF True] e(2)]], of args]
      have kids: "getChild ?c 1 = Some (children ?c ! 1)" "getFirstChild ?c = Some (children ?c ! 0)"
        "getNumChildren ?c = 3 \<Longrightarrow> getChild ?c 2 = Some (children ?c ! 2)"
        using cc(1) by (auto simp: getChild_def getFirstChild_def getNumChildren_def)
      show ?thesis
        using bound False Cons.prems(1) True
        by (cases "getNumChildren ?c = 3")
          (simp_all add: kids kids(1) [simplified] c c(2) [simplified] e e(1) [simplified] Let_def)
    next
      case not_ext: False
      have self: "bound_of n (Some n)" using False Cons.prems(2) by (simp add: bound_of_def)
      note bound = bound_final [OF Cons.prems(2) _ bound_rebuild [OF Cons.prems(2) _ b(2)], of args]
        bound_final [OF Cons.prems(2) _ self, of args]
      show ?thesis
        using bound False not_ext Cons.prems
        by (cases "ls = []") (simp_all add: c c(2) [simplified] b)
    qed
  qed
qed

lemma demangleBoundGenericType_post:
  "dinv T p d \<Longrightarrow> ok (demangleBoundGenericType d) (\<lambda>n d'. dinv T p d' \<and> wf_opt n)"
proof -
  assume i: "dinv T p d"
  obtain L d1 where 1: "bound_type_lists [] d = (L, d1)" by force
  with bound_type_lists_post [OF i, of "[]"] have i1: "dinv T p d1" "wf_list (\<lambda>_. True) L" by auto
  show ?thesis
  proof (cases L)
    case None
    with 1 i1 show ?thesis by (simp add: demangleBoundGenericType_def)
  next
    case (Some ls)
    obtain N d2 where 2: "popTypeAndGetAnyGeneric d1 = Some (N, d2)" "dinv T p d2" "wf_opt N"
      using popTypeAndGetAnyGeneric_post [OF i1(1)] by (auto dest!: okD)
    have "\<exists>r. demangleBoundGenericArgs N ls = Some r \<and> wf_opt r"
    proof (cases N)
      case None
      then show ?thesis by (cases ls) auto
    next
      case (Some n)
      then show ?thesis
        using demangleBoundGenericArgs_post [of ls n] 2(3) i1(2) \<open>L = Some ls\<close>
        by (auto simp: oks_def bound_of_def wf_opt_def split: option.splits)
    qed
    then show ?thesis
      using 1 2 Some by (auto simp: demangleBoundGenericType_def Let_def intro!: wf_createType dinv_addSubstitution)
  qed
qed

section \<open>Lowered function types\<close>

lemma open_None [wf_intros]: "open_opt None"
  by (simp add: open_opt_def)

lemma demangleImplParamConvention_post:
  "dinv T q d \<Longrightarrow> q < length T \<Longrightarrow>
   ok (demangleImplParamConvention d) (\<lambda>n d'. dinv T q d' \<and> wf_opt n \<and> open_opt n)"
  unfolding demangleImplParamConvention_def
  by (assumption | erule conjE | rule safe wf_intros conjI impI | clarsimp simp: plain_def)+

lemma demangleImplResultConvention_post:
  "dinv T q d \<Longrightarrow> q < length T \<Longrightarrow> plain k \<Longrightarrow>
   ok (demangleImplResultConvention k d) (\<lambda>n d'. dinv T q d' \<and> wf_opt n \<and> open_opt n)"
  unfolding demangleImplResultConvention_def
  by (assumption | erule conjE | rule safe wf_intros conjI impI | clarsimp simp: plain_def)+

lemmas demangleImplResultConvention_safe [safe] = demangleImplResultConvention_post [THEN ok_conseq]

definition wf_convs :: "node list \<Rightarrow> bool" where
  "wf_convs cs \<longleftrightarrow> (\<forall>c \<in> set cs. wf_node c \<and> open_opt (Some c))"

lemma wf_convs_simps [simp]:
  "wf_convs []" "wf_convs (c # cs) \<longleftrightarrow> wf_node c \<and> open_opt (Some c) \<and> wf_convs cs"
  "wf_convs (cs @ cs') \<longleftrightarrow> wf_convs cs \<and> wf_convs cs'" "wf_convs (rev cs) \<longleftrightarrow> wf_convs cs"
  by (auto simp: wf_convs_def)

lemma param_conventions_post:
  "dinv T q d \<Longrightarrow> q < length T \<Longrightarrow> wf_convs acc \<Longrightarrow>
   ok (param_conventions acc d) (\<lambda>cs d'. dinv T q d' \<and> wf_convs cs)"
proof (induction acc d rule: param_conventions.induct)
  case (1 acc d)
  obtain n d' where n: "demangleImplParamConvention d = Some (n, d')" "dinv T q d'" "wf_opt n" "open_opt n"
    using demangleImplParamConvention_post [OF "1.prems"(1,2)] by (auto dest!: okD)
  show ?case
    using "1.IH" [OF n(1) refl] n "1.prems"
    by (subst param_conventions.simps) (cases n; simp)
qed

lemma result_conventions_post:
  "dinv T q d \<Longrightarrow> q < length T \<Longrightarrow> wf_convs acc \<Longrightarrow>
   ok (result_conventions acc d) (\<lambda>cs d'. dinv T q d' \<and> wf_convs cs)"
proof (induction acc d rule: result_conventions.induct)
  case (1 acc d)
  obtain n d' where n: "demangleImplResultConvention K_ImplResult d = Some (n, d')"
    "dinv T q d'" "wf_opt n" "open_opt n"
    using demangleImplResultConvention_post [OF "1.prems"(1,2), of K_ImplResult]
    by (auto simp: plain_def dest!: okD)
  show ?case
    using "1.IH" [OF n(1) refl] n "1.prems"
    by (subst result_conventions.simps) (cases n; simp)
qed

lemmas conventions_safe [safe] = param_conventions_post [THEN ok_conseq]
  result_conventions_post [THEN ok_conseq]

lemma add_conv_types_post:
  "dinv T q d \<Longrightarrow> wf_convs cs \<Longrightarrow>
   okp (add_conv_types cs d) (\<lambda>r d'. dinv T q d' \<and> wf_list (\<lambda>_. True) r)"
proof (induction cs arbitrary: d)
  case (Cons c cs)
  obtain t d1 where 1: "popNode_kind K_Type d = (t, d1)" "dinv T q d1" "wf_opt t"
    using popNode_kind_obtain [OF Cons.prems(1)] by metis
  obtain r d2 where 2: "add_conv_types cs d1 = (r, d2)" by force
  with Cons.IH [OF 1(2)] Cons.prems(2) have ih: "dinv T q d2" "wf_list (\<lambda>_. True) r" by auto
  have "wf_node (Node_addChild c n)" if "t = Some n" for n
    using that 1(3) Cons.prems(2) wf_addChild [of "Some c" "Some n"] by (simp add: addChild_def)
  with 1 2 ih show ?case by (cases t; cases r) auto
qed simp

lemmas add_conv_types_safe [safe] = add_conv_types_post [THEN okp_conseq]

lemma wf_impl_function:
  "\<forall>c \<in> set fa. wf_node c \<Longrightarrow> wf_opt g \<Longrightarrow> \<forall>c \<in> set cs. wf_node c \<Longrightarrow>
   wf_node (Node K_ImplFunctionType NoPayload (((if e then [createNode K_ImplEscaping] else [])
     @ [createNodeText K_ImplConvention a] @ fa @ (case g of None \<Rightarrow> [] | Some g \<Rightarrow> [g])) @ cs))"
  by (cases g) (auto simp: wf_plain plain_def)

lemma demangleImplFunctionType_in_range:
  "dinv T q d \<Longrightarrow> q < length T \<Longrightarrow>
   ok (demangleImplFunctionType d) (\<lambda>n d'. dinv T q d' \<and> wf_opt n)"
  unfolding demangleImplFunctionType_def
  by (assumption | erule conjE | rule wf_impl_function | rule safe wf_intros conjI impI | clarsimp simp: plain_def)+

lemma demangleImplFunctionType_post:
  assumes "dinv T q d"
  shows "ok (demangleImplFunctionType d) (\<lambda>n d'. dinv T q d' \<and> wf_opt n)"
proof (cases "q < length T")
  case False
  obtain g d1 where 1: "popNode_kind K_DependentGenericSignature d = (g, d1)" by force
  with popNode_kind_post [OF assms, of K_DependentGenericSignature] assms False
  have "dinv T q d1" "length (Text d1) \<le> Pos d1" by (auto simp: dinv_def)
  with 1 show ?thesis
    by (auto simp: demangleImplFunctionType_def nextIf_def peekChar_def nextChar_def callee_convention_def)
qed (rule demangleImplFunctionType_in_range [OF assms])

section \<open>Generic parameters and associated types\<close>

lemma getDependentGenericParamType_post:
  "depth \<le> 1000001 \<Longrightarrow> oks (getDependentGenericParamType depth index) (\<lambda>n. wf_opt n \<and>
     (n \<noteq> None \<longrightarrow> 0 \<le> depth \<and> 0 \<le> index))"
  unfolding getDependentGenericParamType_def
  by (assumption | erule conjE | rule safe wf_intros conjI impI | clarsimp simp: plain_def)+

lemmas getDependentGenericParamType_safe [safe] = getDependentGenericParamType_post [THEN oks_conseq]

lemma demangleGenericParamIndex_post:
  "dinv T p d \<Longrightarrow> ok (demangleGenericParamIndex d) (\<lambda>n d'. dinv T p d' \<and> wf_opt n \<and>
     (n \<noteq> None \<longrightarrow> p < Pos d'))"
  unfolding demangleGenericParamIndex_def
  by (assumption | erule conjE | rule safe wf_intros conjI impI | clarsimp simp: plain_def)+

lemmas demangleGenericParamIndex_safe [safe] = demangleGenericParamIndex_post [THEN ok_conseq]

lemma create_eq_Some:
  "createType c = Some n \<longleftrightarrow> (\<exists>x. c = Some x \<and> n = Node K_Type NoPayload [x])"
  "createWithChild k c = Some n \<longleftrightarrow> (\<exists>x. c = Some x \<and> n = Node k NoPayload [x])"
  "createWithChildren2 k a b = Some n \<longleftrightarrow>
     (\<exists>x y. a = Some x \<and> b = Some y \<and> n = Node k NoPayload [x, y])"
  "createType None = None"
  by (auto simp: create_defs split: option.splits)

lemma open_changeKind [wf_intros]: "plain k \<Longrightarrow> open_opt (changeKind n k)"
  by (cases n) (auto simp: open_opt_def create_defs)

lemma popAssocTypeName_post:
  "dinv T p d \<Longrightarrow> ok (popAssocTypeName d) (\<lambda>n d'. dinv T p d' \<and> Pos d' = Pos d \<and> wf_opt n)"
  unfolding popAssocTypeName_def
  by (assumption | erule conjE | rule safe wf_intros conjI impI | clarsimp simp: plain_def Type_children)+

lemmas popAssocTypeName_safe [safe] = popAssocTypeName_post [THEN ok_conseq]

lemma demangleAssociatedTypeSimple_post:
  "dinv T p d \<Longrightarrow> wf_opt g \<Longrightarrow> ok (demangleAssociatedTypeSimple g d) (\<lambda>n d'. dinv T p d' \<and>
     Pos d' = Pos d \<and> wf_opt n \<and> (n \<noteq> None \<longrightarrow> g \<noteq> None))"
  unfolding demangleAssociatedTypeSimple_def
  by (assumption | erule conjE | rule safe wf_intros conjI impI | clarsimp simp: plain_def create_eq_Some)+

lemmas demangleAssociatedTypeSimple_safe [safe] = demangleAssociatedTypeSimple_post [THEN ok_conseq]

lemma assoc_type_names_post:
  "dinv T p d \<Longrightarrow> wf_list (\<lambda>_. True) (Some ns) \<Longrightarrow>
   ok (assoc_type_names ns d) (\<lambda>r d'. dinv T p d' \<and> Pos d' = Pos d \<and> wf_list (\<lambda>_. True) r \<and> r \<noteq> Some [])"
proof (induction ns d rule: assoc_type_names.induct)
  case (1 ns d)
  obtain f d1 where 1: "popNode_kind K_FirstElementMarker d = (f, d1)" "dinv T p d1" "Pos d1 = Pos d"
    using popNode_kind_post [OF "1.prems"(1), of K_FirstElementMarker] by (auto simp: okp_def)
  obtain n d2 where 2: "popAssocTypeName d1 = Some (n, d2)" "dinv T p d2" "Pos d2 = Pos d1" "wf_opt n"
    using popAssocTypeName_post [OF 1(2)] by (auto dest!: okD)
  show ?case
  proof (cases n)
    case None
    with 1 2 show ?thesis by (subst assoc_type_names.simps) simp
  next
    case (Some m)
    with "1.IH" [OF 1(1) [symmetric] 2(1) refl Some] 1 2 "1.prems" show ?thesis
      by (subst assoc_type_names.simps) (cases f; simp)
  qed
qed

lemma wf_member_type: "wf_opt b \<Longrightarrow> wf_node a \<Longrightarrow> wf_opt (member_type b a)"
  unfolding member_type_def
  by (assumption | rule safe wf_intros | clarsimp simp: plain_def)+

lemma wf_member_types: "\<forall>a \<in> set ns. wf_node a \<Longrightarrow> wf_opt b \<Longrightarrow> wf_opt (foldl member_type b ns)"
  by (induction ns arbitrary: b) (auto intro: wf_member_type)

lemma member_types_None: "foldl member_type None ns = None"
  by (induction ns) (simp_all add: member_type_def create_defs)

lemma demangleAssociatedTypeCompound_post:
  "dinv T p d \<Longrightarrow> wf_opt g \<Longrightarrow> ok (demangleAssociatedTypeCompound g d) (\<lambda>n d'. dinv T p d' \<and>
     Pos d' = Pos d \<and> wf_opt n \<and> (n \<noteq> None \<longrightarrow> g \<noteq> None))"
proof -
  assume i: "dinv T p d" "wf_opt g"
  obtain r d1 where 1: "assoc_type_names [] d = Some (r, d1)" "dinv T p d1" "Pos d1 = Pos d"
    "wf_list (\<lambda>_. True) r" "r \<noteq> Some []"
    using assoc_type_names_post [OF i(1), of "[]"] by (auto dest!: okD)
  then show ?thesis
    using i(2) by (cases r; cases g) (auto simp: demangleAssociatedTypeCompound_def member_types_None
      create_eq_Some intro!: wf_createType wf_member_types)
qed

lemmas demangleAssociatedTypeCompound_safe [safe] =
  demangleAssociatedTypeCompound_post [THEN ok_conseq]

lemma demangleArchetype_post:
  "dinv T p d \<Longrightarrow> ok (demangleArchetype d) (\<lambda>n d'. dinv T p d' \<and> wf_opt n)"
  unfolding demangleArchetype_def
  by (assumption | erule conjE | rule safe wf_intros conjI impI | clarsimp simp: plain_def)+

section \<open>Conformances, metadata and protocol lists\<close>

lemma popProtocolConformance_post:
  "dinv T p d \<Longrightarrow> ok (popProtocolConformance d) (\<lambda>n d'. dinv T p d' \<and> wf_opt n)"
  unfolding popProtocolConformance_def
  by (assumption | erule conjE | rule safe wf_intros conjI impI | clarsimp simp: plain_def)+

lemmas popProtocolConformance_safe [safe] = popProtocolConformance_post [THEN ok_conseq]

lemma with_conformance_post:
  "dinv T p d \<Longrightarrow> plain k \<Longrightarrow> ok (with_conformance k d) (\<lambda>n d'. dinv T p d' \<and> wf_opt n)"
  unfolding with_conformance_def
  by (assumption | erule conjE | rule safe wf_intros conjI impI | clarsimp simp: plain_def)+

lemmas with_conformance_safe [safe] = with_conformance_post [THEN ok_conseq]

lemma createWithPoppedType_post:
  "dinv T p d \<Longrightarrow> plain k \<Longrightarrow> okp (createWithPoppedType k d) (\<lambda>n d'. dinv T p d' \<and> wf_opt n)"
  unfolding createWithPoppedType_def
  by (assumption | erule conjE | rule safe wf_intros conjI impI | clarsimp simp: plain_def)+

lemmas createWithPoppedType_safe [safe] = createWithPoppedType_post [THEN okp_conseq]

lemma demangleMetatype_post:
  "dinv T p d \<Longrightarrow> ok (demangleMetatype d) (\<lambda>n d'. dinv T p d' \<and> wf_opt n)"
  unfolding demangleMetatype_def
  by (assumption | erule conjE | rule safe wf_intros conjI impI | clarsimp simp: plain_def Type_children)+

lemma protocol_elements_post:
  "dinv T p d \<Longrightarrow> wf_list (\<lambda>_. True) (Some ns) \<Longrightarrow>
   ok (protocol_elements ns d) (\<lambda>r d'. dinv T p d' \<and> wf_list (\<lambda>_. True) r)"
proof (induction ns d rule: protocol_elements.induct)
  case (1 ns d)
  obtain f d1 where 1: "popNode_kind K_FirstElementMarker d = (f, d1)" "dinv T p d1"
    using popNode_kind_obtain [OF "1.prems"(1)] by metis
  obtain n d2 where 2: "popProtocol d1 = Some (n, d2)" "dinv T p d2" "wf_opt n"
    using popProtocol_post [OF 1(2)] by (auto dest!: okD)
  show ?case
  proof (cases n)
    case None
    with 1 2 show ?thesis by (subst protocol_elements.simps) simp
  next
    case (Some m)
    with "1.IH" [OF 1(1) [symmetric] 2(1) refl Some] 1 2 "1.prems" show ?thesis
      by (subst protocol_elements.simps) (cases f; simp)
  qed
qed

lemmas protocol_elements_safe [safe] = protocol_elements_post [THEN ok_conseq]

lemma demangleProtocolList_post:
  "dinv T p d \<Longrightarrow> ok (demangleProtocolList d) (\<lambda>n d'. dinv T p d' \<and> wf_opt n)"
  unfolding demangleProtocolList_def
  by (assumption | erule conjE | rule safe wf_intros conjI impI | clarsimp simp: plain_def)+

lemmas demangleProtocolList_safe [safe] = demangleProtocolList_post [THEN ok_conseq]

lemma demangleProtocolListType_post:
  "dinv T p d \<Longrightarrow> ok (demangleProtocolListType d) (\<lambda>n d'. dinv T p d' \<and> wf_opt n)"
  unfolding demangleProtocolListType_def
  by (assumption | erule conjE | rule safe wf_intros conjI impI | clarsimp simp: plain_def)+

section \<open>Generic signatures and requirements\<close>

lemma param_counts_post:
  "dinv T p d \<Longrightarrow> wf_list (\<lambda>_. True) (Some cs) \<Longrightarrow>
   okp (param_counts cs d) (\<lambda>r d'. dinv T p d' \<and> wf_list (\<lambda>_. True) r)"
proof (induction cs d rule: param_counts.induct)
  case (1 cs d)
  obtain b d1 where 1: "nextIf (CHR ''l'') d = (b, d1)" "dinv T p d1"
    using nextIf_post [OF "1.prems"(1), of "CHR ''l''"] by (auto simp: okp_def)
  obtain z d2 where 2: "nextIf (CHR ''z'') d1 = (z, d2)" "dinv T p d2"
    using nextIf_post [OF 1(2), of "CHR ''z''"] by (auto simp: okp_def)
  obtain c d4 where 3: "(if z then (0, d2) else case demangleIndex d2 of (i, d3) \<Rightarrow> (wrap32 (i + 1), d3)) = (c, d4)"
    "dinv T p d4"
    using demangleIndex_post [OF 2(2)] 2(2) by (cases z) (auto simp: okp_def split: prod.splits)
  have w: "wf_node (createNodeIndex K_DependentGenericParamCount (nat c))"
    by (simp add: wf_plain plain_def)
  show ?case
    using "1.IH" [OF 1(1) [symmetric] _ 2(1) [symmetric] 3(1) [symmetric]] 1 2 3 "1.prems" w
    by (subst param_counts.simps) simp
qed

lemma demangleGenericSignature_post:
  "dinv T p d \<Longrightarrow> okp (demangleGenericSignature h d) (\<lambda>n d'. dinv T p d' \<and> wf_opt n)"
proof -
  assume i: "dinv T p d"
  obtain cs d1 where 1: "(if h then param_counts [] d
    else (Some [createNodeIndex K_DependentGenericParamCount 1], d)) = (cs, d1)" by force
  with param_counts_post [OF i, of "[]"] i have i1: "dinv T p d1" "wf_list (\<lambda>_. True) cs"
    by (auto simp: wf_plain plain_def split: if_splits)
  show ?thesis
  proof (cases cs)
    case None
    with 1 i1 show ?thesis by (simp add: demangleGenericSignature_def)
  next
    case (Some xs)
    with i1 have "wf_node (Node K_DependentGenericSignature NoPayload
        (xs @ rev (takeWhile (\<lambda>n. isRequirement (getKind n)) (NodeStack d1))))"
      by (auto simp: wf_plain plain_def dinv_def dest: set_takeWhileD)
    with 1 i1 Some show ?thesis
      by (auto simp: demangleGenericSignature_def dinv_def Let_def dest: set_dropWhileD)
  qed
qed

lemma demangleGenericType_post:
  "dinv T p d \<Longrightarrow> okp (demangleGenericType d) (\<lambda>n d'. dinv T p d' \<and> wf_opt n)"
  unfolding demangleGenericType_def
  by (assumption | erule conjE | rule safe wf_intros conjI impI | clarsimp simp: plain_def)+

lemma constrained_type_post:
  "dinv T p d \<Longrightarrow> ok (constrained_type k d) (\<lambda>n d'. dinv T p d' \<and> wf_opt n \<and>
     (k \<noteq> Substitution \<longrightarrow> n \<noteq> None \<longrightarrow> p < Pos d') \<and> (k = Substitution \<longrightarrow> Pos d' = Pos d))"
  unfolding constrained_type_def
  by (cases k; simp only: type_kind.case type_kind.distinct simp_thms)
    (assumption | erule conjE | rule safe wf_intros conjI impI | clarsimp simp: plain_def create_eq_Some)+

lemmas constrained_type_safe [safe] = constrained_type_post [THEN ok_conseq]

lemma wf_layout_requirement [wf_intros]:
  "wf_opt c \<Longrightarrow> wf_opt s \<Longrightarrow> wf_opt a \<Longrightarrow> wf_opt (layout_requirement c name s a)"
  by (cases c; cases s; cases a)
    (auto simp: layout_requirement_def create_defs wf_plain plain_def intro!: wf_leaf(2))

lemma demangle_layout_constraint_post:
  "dinv T p d \<Longrightarrow> wf_opt c \<Longrightarrow> okp (demangle_layout_constraint c d) (\<lambda>n d'. dinv T p d' \<and> wf_opt n)"
  unfolding demangle_layout_constraint_def
  by (assumption | erule conjE | rule safe wf_intros conjI impI | clarsimp simp: plain_def)+

lemmas demangle_layout_constraint_safe [safe] = demangle_layout_constraint_post [THEN okp_conseq]

text \<open>The part of a requirement after its constrained type.\<close>

lemma requirement_tail_post:
  "dinv T q d \<Longrightarrow> wf_opt c \<Longrightarrow>
   ok (case k of
        Protocol \<Rightarrow> do {
          (Proto, d) \<leftarrow> popProtocol d;
          Some (createWithChildren2 K_DependentGenericConformanceRequirement c Proto, d)
        }
      | BaseClass \<Rightarrow>
          let (Ty, d) = popNode_kind K_Type d
          in Some (createWithChildren2 K_DependentGenericConformanceRequirement c Ty, d)
      | SameType \<Rightarrow>
          let (Ty, d) = popNode_kind K_Type d
          in Some (createWithChildren2 K_DependentGenericSameTypeRequirement c Ty, d)
      | Layout \<Rightarrow> Some (demangle_layout_constraint c d)) (\<lambda>n d'. dinv T q d' \<and> wf_opt n)"
  by (cases k; simp only: constraint_kind.case)
    (assumption | erule conjE | rule safe wf_intros conjI impI | clarsimp simp: plain_def)+

lemma dinv_Suc: "dinv T (Suc p) d \<longleftrightarrow> dinv T p d \<and> p < Pos d"
  by (auto simp: dinv_def)

lemma demangleGenericRequirement_post:
  assumes "dinv T p d" "p < Pos d"
  shows "ok (demangleGenericRequirement d)
    (\<lambda>n d'. dinv T p d' \<and> wf_opt n \<and> (n \<noteq> None \<longrightarrow> p < Pos d'))"
proof -
  obtain c d1 where 1: "nextChar d = (c, d1)" "dinv T (Suc p) d1"
    using nextChar_post [of T "Suc p" d] assms by (cases "nextChar d") (auto simp: dinv_Suc)
  show ?thesis
  proof (cases "requirement_kinds c")
    case (Some k)
    obtain ck tk where k: "k = (ck, tk)" by force
    obtain ct d2 where 2: "constrained_type tk d1 = Some (ct, d2)" "dinv T (Suc p) d2" "wf_opt ct"
      using constrained_type_post [OF 1(2), of tk] by (auto dest!: okD)
    show ?thesis
      using requirement_tail_post [OF 2(2,3), of ck] 1 2 k Some
      by (auto simp: demangleGenericRequirement_def dinv_Suc dest!: okD)
  next
    case None
    obtain d2 where 2: "pushBack d1 = Some ((), d2)" "dinv T p d2"
      using pushBack_post [of T p d1] 1(2) by (auto simp: dinv_Suc dest!: okD)
    obtain ct d3 where 3: "constrained_type Generic d2 = Some (ct, d3)" "dinv T p d3" "wf_opt ct"
      "ct \<noteq> None \<Longrightarrow> p < Pos d3"
      using constrained_type_post [OF 2(2), of Generic] by (auto dest!: okD)
    obtain pr d4 where 4: "popProtocol d3 = Some (pr, d4)" "dinv T p d4" "wf_opt pr"
      "ct \<noteq> None \<Longrightarrow> dinv T (Suc p) d4"
      using popProtocol_post [OF 3(2)] popProtocol_post [of T "Suc p" d3] 3
      by (auto simp: dinv_Suc dest!: okD)
    have "wf_opt (createWithChildren2 K_DependentGenericConformanceRequirement ct pr)"
      using 3(3) 4(3) by (intro wf_intros) (simp_all add: plain_def)
    then show ?thesis
      using 1 2 3 4 None
      by (auto simp: demangleGenericRequirement_def create_eq_Some dinv_Suc)
  qed
qed

end
