(* ===== verification/Demangler_Total_Operators.thy ===== *)
theory Demangler_Total_Operators
  imports Demangler_Total_Generics
begin

text \<open>
  Postconditions of the operators for specializations, thunks, witnesses, special types and
  entities, of the operator dispatch, and totality of the parser and of the entry points
  \<open>demangleSymbol\<close> and \<open>demangleType\<close>.
\<close>

section \<open>Specializations\<close>

lemma demangleSpecAttributes_post:
  "dinv T p d \<Longrightarrow> plain k \<Longrightarrow> okp (demangleSpecAttributes k u d) (\<lambda>n d'. dinv T p d' \<and> wf_opt n \<and>
     (\<forall>m. n = Some m \<longrightarrow> getKind m = k \<and>
        (\<forall>c \<in> set (children m). getKind c \<noteq> K_FunctionSignatureSpecializationParam)))"
  unfolding demangleSpecAttributes_def
  by (assumption | erule conjE | rule safe wf_intros conjI impI | clarsimp simp: plain_def)+

lemmas demangleSpecAttributes_safe [safe] = demangleSpecAttributes_post [THEN okp_conseq]

lemma foldl_addChild_wf:
  assumes "wf_node s" "plain (getKind s)" "\<forall>t \<in> set ts. wf_node t" "plain k"
  shows "wf_node (foldl (\<lambda>s t. Node_addChild s (Node k NoPayload [t])) s ts)"
  using assms
proof (induction ts arbitrary: s)
  case (Cons t ts)
  have "wf_node (Node_addChild s (Node k NoPayload [t]))"
    using Cons.prems wf_node_add [of s "Node k NoPayload [t]"] by (simp add: Node_addChild_def wf_plain)
  with Cons show ?case by (simp add: Node_addChild_def)
qed simp

lemma demangleGenericSpecialization_post:
  "dinv T p d \<Longrightarrow> plain k \<Longrightarrow> okp (demangleGenericSpecialization k d) (\<lambda>n d'. dinv T p d' \<and> wf_opt n)"
  unfolding demangleGenericSpecialization_def
  by (assumption | erule conjE | rule safe wf_intros conjI impI foldl_addChild_wf
      | clarsimp simp: plain_def | erule wf_children)+

lemmas demangleGenericSpecialization_safe [safe] = demangleGenericSpecialization_post [THEN okp_conseq]

text \<open>Parameters have no child, or a parameter kind with its index first.\<close>

definition spec_param :: "node \<Rightarrow> bool" where
  "spec_param n \<longleftrightarrow> wf_node n \<and> getKind n = K_FunctionSignatureSpecializationParam \<and>
     (children n = [] \<or>
      (\<exists>i. getKind (children n ! 0) = K_FunctionSignatureSpecializationParamKind \<and>
           getPayload (children n ! 0) = IndexPayload i))"

lemma digits_loop_moves: "only_moves d (snd (digits_loop s d))"
proof (induction s d rule: digits_loop.induct)
  case (1 s d)
  then show ?case
    by (subst digits_loop.simps) (auto intro: only_moves_trans [OF only_moves_refl(2)])
qed

lemma digits_loop_post:
  assumes "dinv T p d"
  shows "okp (digits_loop s d) (\<lambda>r d'. dinv T p d')"
  using dinv_moves [OF assms digits_loop_moves advances_digits_loop, of s]
  by (cases "digits_loop s d") simp

lemmas digits_loop_safe [safe] = digits_loop_post [THEN okp_conseq]

lemma spec_param_intros:
  "spec_param (createNodeIndex K_FunctionSignatureSpecializationParam i)"
  "spec_param (Node_addChild (createNodeIndex K_FunctionSignatureSpecializationParam i) (param_kind k))"
  "spec_param (Node_addChild (Node_addChild
     (createNodeIndex K_FunctionSignatureSpecializationParam i) (param_kind k)) (param_payload t))"
  by (auto simp: spec_param_def Node_addChild_def wf_plain plain_def)

definition spec_opt :: "node option \<Rightarrow> bool" where
  "spec_opt n \<longleftrightarrow> (\<forall>m. n = Some m \<longrightarrow> spec_param m)"

lemma spec_opt_intros:
  "spec_opt None" "spec_param m \<Longrightarrow> spec_opt (Some m)"
  by (simp_all add: spec_opt_def)

lemma demangleFuncSpecParam_post:
  "dinv T p d \<Longrightarrow> okp (demangleFuncSpecParam i d) (\<lambda>n d'. dinv T p d' \<and> spec_opt n)"
  unfolding demangleFuncSpecParam_def addFuncSpecParamNumber_def
  by (assumption | erule conjE | rule spec_opt_intros spec_param_intros safe conjI impI
      | clarsimp simp: plain_def)+

lemmas demangleFuncSpecParam_safe [safe] = demangleFuncSpecParam_post [THEN okp_conseq]

text \<open>What the specialization under construction satisfies.\<close>

definition spec_kids :: "node list \<Rightarrow> bool" where
  "spec_kids cs \<longleftrightarrow> (\<forall>c \<in> set cs. wf_node c \<and>
     (getKind c = K_FunctionSignatureSpecializationParam \<longrightarrow> spec_param c))"

definition spec_node :: "node option \<Rightarrow> bool" where
  "spec_node n \<longleftrightarrow> (\<forall>m. n = Some m \<longrightarrow> plain (getKind m) \<and> spec_kids (children m))"

lemma spec_node_add: "spec_node n \<Longrightarrow> spec_opt c \<Longrightarrow> spec_node (addChild n c)"
  by (cases n; cases c) (auto simp: spec_node_def spec_opt_def spec_kids_def spec_param_def create_defs)

lemma spec_params_post:
  "dinv T p d \<Longrightarrow> spec_node (Some s) \<Longrightarrow> okp (spec_params s i d) (\<lambda>n d'. dinv T p d' \<and> spec_node n)"
proof (induction s i d rule: spec_params.induct)
  case (1 s i d)
  obtain b d1 where 1: "nextIf (CHR ''_'') d = (b, d1)" "dinv T p d1"
    using nextIf_post [OF "1.prems"(1), of "CHR ''_''"] by (auto simp: okp_def)
  obtain n d2 where 2: "demangleFuncSpecParam i d1 = (n, d2)" "dinv T p d2" "spec_opt n"
    using demangleFuncSpecParam_post [OF 1(2), of i] by (auto simp: okp_def)
  have none: "spec_node None" by (simp add: spec_node_def)
  have add: "spec_node (Some (Node_addChild s m))" if "n = Some m" for m
    using spec_node_add [OF "1.prems"(2) 2(3)] that by (simp add: addChild_def)
  show ?case
  proof (cases "b \<or> n = None")
    case True
    with 1 2 "1.prems" none show ?thesis
      by (subst spec_params.simps) (cases b; simp)
  next
    case False
    then obtain m where m: "n = Some m" "\<not> b" by auto
    with "1.IH" [OF 1(1) [symmetric] m(2) 2(1) [symmetric] m(1) 2(2) add [OF m(1)]] 1 2 show ?thesis
      by (subst spec_params.simps) simp
  qed
qed

lemmas spec_params_safe [safe] = spec_params_post [THEN okp_conseq]

lemma spec_payload_post:
  assumes "dinv T p d" "wf_node P" "getKind P = K_FunctionSignatureSpecializationParam \<Longrightarrow> spec_param P"
  shows "ok (spec_payload P d) (\<lambda>n d'. dinv T p d' \<and> wf_opt n)"
proof (cases "getKind P = K_FunctionSignatureSpecializationParam \<and> children P \<noteq> []")
  case False
  with assms show ?thesis by (auto simp: spec_payload_def getNumChildren_def)
next
  case True
  with assms(3) obtain i where i: "getKind (children P ! 0) = K_FunctionSignatureSpecializationParamKind"
    "getPayload (children P ! 0) = IndexPayload i" by (auto simp: spec_param_def)
  obtain ty d1 where 1: "popNode_kind K_Type d = (ty, d1)" "dinv T p d1"
    using popNode_kind_obtain [OF assms(1)] by metis
  obtain ts d2 where 2: "popTypes d = (ts, d2)" "dinv T p d2" "\<forall>t \<in> set ts. wf_node t"
    using popTypes_post [OF assms(1)] by (auto simp: okp_def)
  obtain nm d3 where 3: "popNode_kind K_Identifier d2 = (nm, d3)" "dinv T p d3" "wf_opt nm"
    "\<And>m. nm = Some m \<Longrightarrow> getKind m = K_Identifier"
    using popNode_kind_obtain [OF 2(2)] by metis
  have kids: "wf_node (Node (getKind P) (getPayload P) (children P @ rev (ts @ [param_payload t])))" for t
    using assms(2) 2(3) True by (auto simp: wf_plain plain_def dest: wf_children)
  have named: "\<exists>t. getText m = Some t" if "nm = Some m" for m
    using 3(3,4) that wf_text [of m] by (auto simp: getText_def has_text_def)
  have len: "Suc 0 \<le> length (children P)" using True by (cases "children P") auto
  show ?thesis
    using True i 1 2 3 kids named assms len
    by (cases nm)
      (auto simp: spec_payload_def getFirstChild_def getIndex_def getNumChildren_def Let_def)
qed

lemma spec_payloads_post:
  "dinv T p d \<Longrightarrow> spec_kids Ps \<Longrightarrow>
   ok (spec_payloads Ps d) (\<lambda>r d'. dinv T p d' \<and> wf_list (\<lambda>_. True) r)"
proof (induction Ps arbitrary: d)
  case (Cons P Ps)
  obtain n d1 where 1: "spec_payload P d = Some (n, d1)" "dinv T p d1" "wf_opt n"
    using spec_payload_post [OF Cons.prems(1), of P] Cons.prems(2)
    by (auto simp: spec_kids_def dest!: okD)
  obtain r d2 where 2: "spec_payloads Ps d1 = Some (r, d2)" "dinv T p d2" "wf_list (\<lambda>_. True) r"
    using Cons.IH [OF 1(2)] Cons.prems(2) by (auto simp: spec_kids_def dest!: okD)
  show ?case using 1 2 by (cases n; cases r) auto
qed simp

lemmas spec_payloads_safe [safe] = spec_payloads_post [THEN ok_conseq]

lemma spec_attributes_kids:
  "wf_opt n \<Longrightarrow> \<forall>m. n = Some m \<longrightarrow> getKind m = k \<and>
     (\<forall>c \<in> set (children m). getKind c \<noteq> K_FunctionSignatureSpecializationParam) \<Longrightarrow>
   plain k \<Longrightarrow> spec_node n"
  by (auto simp: spec_node_def spec_kids_def dest: wf_children)

lemma demangleFunctionSpecialization_post:
  "dinv T p d \<Longrightarrow> ok (demangleFunctionSpecialization d) (\<lambda>n d'. dinv T p d' \<and> wf_opt n)"
proof -
  assume i: "dinv T p d"
  have fss: "plain K_FunctionSignatureSpecialization" by (simp add: plain_def)
  obtain s1 d1 where 1: "demangleSpecAttributes K_FunctionSignatureSpecialization True d = (s1, d1)" by force
  with demangleSpecAttributes_post [OF i fss, of True] have i1: "dinv T p d1" "spec_node s1"
    using spec_attributes_kids [OF _ _ fss, of s1] by simp_all
  obtain s2 d2 where 2: "(case s1 of None \<Rightarrow> (None, d1) | Some S \<Rightarrow> spec_params S 0 d1) = (s2, d2)" by force
  then have i2: "dinv T p d2" "spec_node s2"
    using i1 spec_params_post [OF i1(1), of "the s1" 0] by (cases s1; force)+
  obtain b d3 where 3: "nextIf (CHR ''n'') d2 = (b, d3)" "dinv T p d3"
    using nextIf_post [OF i2(1), of "CHR ''n''"] by (auto simp: okp_def)
  obtain s4 d4 where 4: "(if \<not> b then
      let (Param, d) = demangleFuncSpecParam 18446744073709551615 d3 in (addChild s2 Param, d)
    else (s2, d3)) = (s4, d4)" by force
  then have i4: "dinv T p d4" "spec_node s4"
    using demangleFuncSpecParam_post [OF 3(2), of 18446744073709551615] i2(2) 3(2)
    by (auto simp: okp_def spec_node_add split: if_splits prod.splits)
  have "spec_kids (rev (children S)) \<and> plain (getKind S)" if "s4 = Some S" for S
    using i4(2) that by (simp add: spec_node_def spec_kids_def)
  with spec_payloads_post [OF i4(1)]
  have "\<exists>r d5. spec_payloads (rev (children S)) d4 = Some (r, d5) \<and> dinv T p d5 \<and>
    wf_list (\<lambda>_. True) r \<and> plain (getKind S)" if "s4 = Some S" for S
    using that by (fastforce dest: okD)
  with 1 2 3 4 i4 show ?thesis
    by (cases s4) (fastforce simp: demangleFunctionSpecialization_def wf_plain split: option.splits)+
qed

lemmas demangleFunctionSpecialization_safe [safe] = demangleFunctionSpecialization_post [THEN ok_conseq]

section \<open>Thunks\<close>

lemma keypath_equality_thunk_post:
  "dinv T p d \<Longrightarrow> plain k \<Longrightarrow> okp (keypath_equality_thunk k d) (\<lambda>n d'. dinv T p d' \<and> wf_opt n)"
  unfolding keypath_equality_thunk_def
  by (assumption | erule conjE | rule safe wf_intros conjI impI | force simp: plain_def)+

lemmas keypath_equality_thunk_safe [safe] = keypath_equality_thunk_post [THEN okp_conseq]

lemma bridged_params_loop_post:
  "dinv T p d \<Longrightarrow> okp (bridged_params_loop s d) (\<lambda>r d'. dinv T p d')"
proof (induction s d rule: bridged_params_loop.induct)
  case (1 s d)
  obtain b d1 where 1: "nextIf (CHR ''_'') d = (b, d1)" "dinv T p d1"
    using nextIf_post [OF "1.prems"(1), of "CHR ''_''"] by (auto simp: okp_def)
  obtain c d2 where 2: "nextChar d1 = (c, d2)" "dinv T p d2"
    using nextChar_post [OF 1(2)] by (auto simp: okp_def)
  show ?case
    using "1.IH" [OF 1(1) [symmetric] _ 2(1) [symmetric]] 1 2
    by (subst bridged_params_loop.simps) simp
qed

lemmas bridged_params_loop_safe [safe] = bridged_params_loop_post [THEN okp_conseq]

lemma demangleBridgedMethodParams_post:
  "dinv T p d \<Longrightarrow> okp (demangleBridgedMethodParams d) (\<lambda>r d'. dinv T p d')"
  unfolding demangleBridgedMethodParams_def
  by (assumption | erule conjE | rule safe wf_intros conjI impI | clarsimp simp: plain_def)+

lemmas demangleBridgedMethodParams_safe [safe] = demangleBridgedMethodParams_post [THEN okp_conseq]

lemma open_if [wf_intros]: "open_opt x \<Longrightarrow> open_opt y \<Longrightarrow> open_opt (if b then x else y)"
  by simp

lemma reabstraction_thunk_post:
  "dinv T p d \<Longrightarrow> plain k \<Longrightarrow> okp (reabstraction_thunk k d) (\<lambda>n d'. dinv T p d' \<and> wf_opt n)"
  unfolding reabstraction_thunk_def
  by (assumption | erule conjE | rule safe wf_intros conjI impI | clarsimp simp: plain_def)+

lemma open_spec: "\<forall>m. n = Some m \<longrightarrow> getKind m = k \<and> P m \<Longrightarrow> plain k \<Longrightarrow> open_opt n"
  by (auto simp: open_opt_def)

lemma partial_specialization_post:
  "dinv T p d \<Longrightarrow> plain k \<Longrightarrow> okp (partial_specialization k d) (\<lambda>n d'. dinv T p d' \<and> wf_opt n)"
  unfolding partial_specialization_def
  by (assumption | erule conjE | rule safe wf_intros conjI impI | erule open_spec | clarsimp simp: plain_def)+

lemmas thunk_safe [safe] = reabstraction_thunk_post [THEN okp_conseq]
  partial_specialization_post [THEN okp_conseq]

lemma demangleThunkOrSpecialization_next:
  "nextChar d = (c, d1) \<Longrightarrow> dinv T p d1 \<Longrightarrow> c \<noteq> CHR ''K'' \<Longrightarrow> c \<noteq> CHR ''k'' \<Longrightarrow>
   ok (demangleThunkOrSpecialization d) (\<lambda>n d'. dinv T p d' \<and> wf_opt n)"
  unfolding demangleThunkOrSpecialization_def
  by (simp only: if_False)
    (assumption | erule conjE | rule safe wf_intros conjI impI | clarsimp simp: plain_def)+

lemma demangleThunkOrSpecialization_post:
  "dinv T p d \<Longrightarrow> peekChar d \<noteq> CHR ''K'' \<Longrightarrow> peekChar d \<noteq> CHR ''k'' \<Longrightarrow>
   ok (demangleThunkOrSpecialization d) (\<lambda>n d'. dinv T p d' \<and> wf_opt n)"
  using demangleThunkOrSpecialization_next [of d "fst (nextChar d)" "snd (nextChar d)"] nextChar_post [of T p d]
  by (auto simp: okp_def nextChar_def peekChar_def split: if_splits)

section \<open>Witnesses and special types\<close>

lemma path_elements_post:
  "dinv T p d \<Longrightarrow> wf_list (\<lambda>_. True) (Some ns) \<Longrightarrow>
   okp (path_elements ns d) (\<lambda>r d'. dinv T p d' \<and> wf_list (\<lambda>_. True) r)"
proof (induction ns d rule: path_elements.induct)
  case (1 ns d)
  obtain f d1 where 1: "popNode_kind K_FirstElementMarker d = (f, d1)" "dinv T p d1"
    using popNode_kind_obtain [OF "1.prems"(1)] by metis
  obtain n d2 where 2: "popNode_if isDeclName d1 = (n, d2)" "dinv T p d2" "wf_opt n"
    using popNode_if_post [OF 1(2), of isDeclName] by (auto simp: okp_def)
  show ?case
  proof (cases n)
    case None
    with 1 2 show ?thesis by (subst path_elements.simps) simp
  next
    case (Some m)
    with "1.IH" [OF 1(1) [symmetric] 2(1) [symmetric] Some] 1 2 "1.prems" show ?thesis
      by (subst path_elements.simps) (cases f; simp)
  qed
qed

lemmas path_elements_safe [safe] = path_elements_post [THEN okp_conseq]

lemma type_and_conformance_post:
  "dinv T p d \<Longrightarrow> plain k \<Longrightarrow> ok (type_and_conformance k d) (\<lambda>n d'. dinv T p d' \<and> wf_opt n)"
  unfolding type_and_conformance_def
  by (assumption | erule conjE | rule safe wf_intros conjI impI | clarsimp simp: plain_def)+

lemma outlined_with_index_post:
  "dinv T p d \<Longrightarrow> plain k \<Longrightarrow> okp (outlined_with_index k d) (\<lambda>n d'. dinv T p d' \<and> wf_opt n)"
  unfolding outlined_with_index_def
  by (assumption | erule conjE | rule safe wf_intros conjI impI | clarsimp simp: plain_def)+

lemma field_offset_post:
  "dinv T p d \<Longrightarrow> okp (field_offset d) (\<lambda>n d'. dinv T p d' \<and> wf_opt n)"
  unfolding field_offset_def
  by (assumption | erule conjE | rule safe wf_intros conjI impI | clarsimp simp: plain_def)+

lemma associated_type_witness_post:
  "dinv T p d \<Longrightarrow> ok (associated_type_witness d) (\<lambda>n d'. dinv T p d' \<and> wf_opt n)"
  unfolding associated_type_witness_def
  by (assumption | erule conjE | rule safe wf_intros conjI impI | clarsimp simp: plain_def)+

lemmas witness_safe [safe] = type_and_conformance_post [THEN ok_conseq]
  outlined_with_index_post [THEN okp_conseq] field_offset_post [THEN okp_conseq]
  associated_type_witness_post [THEN ok_conseq]

lemma demangleWitness_post:
  "dinv T p d \<Longrightarrow> ok (demangleWitness d) (\<lambda>n d'. dinv T p d' \<and> wf_opt n)"
  unfolding demangleWitness_def
  by (assumption | erule conjE | rule safe wf_intros conjI impI | clarsimp simp: plain_def)+

lemma sil_box_field_post:
  assumes "wf_node t" "getKind t = K_Type"
  shows "oks (sil_box_field t) wf_node"
proof -
  obtain q c where t: "t = Node K_Type q [c]"
    using assms by (cases t) (auto simp: wf_type length_Suc_conv)
  obtain k r cs where c: "c = Node k r cs" by (cases c)
  show ?thesis
    using assms t c
    by (auto simp: sil_box_field_def getChild_def getNumChildren_def wf_kinds plain_def wf_inout length_Suc_conv split: if_splits)
qed

lemma sil_box_fields_post:
  "\<forall>t \<in> set ts. wf_node t \<and> getKind t = K_Type \<Longrightarrow> oks (sil_box_fields ts) (\<lambda>fs. \<forall>f \<in> set fs. wf_node f)"
proof (induction ts)
  case (Cons t ts)
  then show ?case using sil_box_field_post [of t]
    by (auto simp: oks_def split: option.splits)
qed simp

lemma sil_box_fields_children:
  "wf_opt (Some F) \<Longrightarrow> \<forall>m. Some F = Some m \<longrightarrow> (\<forall>c \<in> set (children m). getKind c = K_Type) \<Longrightarrow>
   (\<And>fs. \<forall>f \<in> set fs. wf_node f \<Longrightarrow> Q fs) \<Longrightarrow> oks (sil_box_fields (children F)) Q"
  by (rule oks_conseq [OF sil_box_fields_post]) (auto dest: wf_children)

lemma wf_sil_box:
  "\<forall>f \<in> set fs. wf_node f \<Longrightarrow> wf_opt s \<Longrightarrow> wf_opt g \<Longrightarrow>
   wf_node (Node K_SILBoxTypeWithLayout NoPayload (Node K_SILBoxLayout NoPayload fs #
     (case s of None \<Rightarrow> [] | Some s \<Rightarrow> [s]) @ (case g of None \<Rightarrow> [] | Some g \<Rightarrow> [g])))"
  by (cases s; cases g) (auto simp: wf_plain plain_def)

lemma sil_box_type_post:
  "dinv T p d \<Longrightarrow> ok (sil_box_type g d) (\<lambda>n d'. dinv T p d' \<and> wf_opt n)"
  unfolding sil_box_type_def
  by (assumption | erule conjE | rule wf_sil_box sil_box_fields_children | rule safe wf_intros conjI impI
    | clarsimp simp: plain_def)+

lemma special_type_of_post:
  "dinv T p d \<Longrightarrow> plain k \<Longrightarrow> okp (special_type_of k d) (\<lambda>n d'. dinv T p d' \<and> wf_opt n)"
  unfolding special_type_of_def
  by (assumption | erule conjE | rule safe wf_intros conjI impI | clarsimp simp: plain_def)+

lemma metatype_with_representation_post:
  "dinv T p d \<Longrightarrow> plain k \<Longrightarrow> okp (metatype_with_representation k d) (\<lambda>n d'. dinv T p d' \<and> wf_opt n)"
  unfolding metatype_with_representation_def demangleMetatypeRepresentation_def
  by (assumption | erule conjE | rule safe wf_intros conjI impI | clarsimp simp: plain_def)+

lemmas special_safe [safe] = sil_box_type_post [THEN ok_conseq] special_type_of_post [THEN okp_conseq]
  metatype_with_representation_post [THEN okp_conseq]

lemma demangleSpecialType_post:
  "dinv T p d \<Longrightarrow> ok (demangleSpecialType d) (\<lambda>n d'. dinv T p d' \<and> wf_opt n)"
  unfolding demangleSpecialType_def
  by (assumption | erule conjE | rule safe wf_intros conjI impI | clarsimp simp: plain_def)+

section \<open>Entities\<close>

lemma demangleAccessor_post:
  "dinv T p d \<Longrightarrow> wf_opt c \<Longrightarrow> okp (demangleAccessor c d) (\<lambda>n d'. dinv T p d' \<and> wf_opt n)"
  unfolding demangleAccessor_def
  by (assumption | erule conjE | rule safe wf_intros conjI impI | clarsimp simp: plain_def)+

lemmas demangleAccessor_safe [safe] = demangleAccessor_post [THEN okp_conseq]

lemma add_optional_intros [wf_intros]:
  "wf_opt P \<Longrightarrow> wf_opt c \<Longrightarrow> open_opt P \<Longrightarrow> wf_opt (add_optional P c)"
  "open_opt P \<Longrightarrow> open_opt (add_optional P c)"
  by (auto simp: add_optional_def intro: wf_addChild open_addChild)

lemma demangleEntity_post:
  "dinv T p d \<Longrightarrow> plain k \<Longrightarrow> ok (demangleEntity k d) (\<lambda>n d'. dinv T p d' \<and> wf_opt n)"
  unfolding demangleEntity_def
  by (assumption | erule conjE | rule safe wf_intros conjI impI | clarsimp simp: plain_def)+

lemma entity_without_args_post:
  "dinv T p d \<Longrightarrow> plain k \<Longrightarrow> ok (entity_without_args k d) (\<lambda>n d'. dinv T p d' \<and> wf_opt n)"
  unfolding entity_without_args_def
  by (assumption | erule conjE | rule safe wf_intros conjI impI | clarsimp simp: plain_def)+

lemma entity_with_type_and_name_post:
  "dinv T p d \<Longrightarrow> plain k \<Longrightarrow> ok (entity_with_type_and_name k d) (\<lambda>n d'. dinv T p d' \<and> wf_opt n)"
  unfolding entity_with_type_and_name_def
  by (assumption | erule conjE | rule safe wf_intros conjI impI | clarsimp simp: plain_def)+

lemma entity_with_type_and_index_post:
  "dinv T p d \<Longrightarrow> plain k \<Longrightarrow> ok (entity_with_type_and_index k d) (\<lambda>n d'. dinv T p d' \<and> wf_opt n)"
  unfolding entity_with_type_and_index_def
  by (assumption | erule conjE | rule safe wf_intros conjI impI | clarsimp simp: plain_def)+

lemma entity_with_index_post:
  "dinv T p d \<Longrightarrow> plain k \<Longrightarrow> ok (entity_with_index k d) (\<lambda>n d'. dinv T p d' \<and> wf_opt n)"
  unfolding entity_with_index_def
  by (assumption | erule conjE | rule safe wf_intros conjI impI | clarsimp simp: plain_def)+

lemmas entity_safe [safe] = demangleEntity_post [THEN ok_conseq]
  entity_without_args_post [THEN ok_conseq] entity_with_type_and_name_post [THEN ok_conseq]
  entity_with_type_and_index_post [THEN ok_conseq] entity_with_index_post [THEN ok_conseq]

lemma demangleFunctionEntity_post:
  "dinv T p d \<Longrightarrow> ok (demangleFunctionEntity d) (\<lambda>n d'. dinv T p d' \<and> wf_opt n)"
  unfolding demangleFunctionEntity_def
  by (assumption | erule conjE | rule safe wf_intros conjI impI | clarsimp simp: plain_def)+

lemma demangleVariable_post:
  "dinv T p d \<Longrightarrow> ok (demangleVariable d) (\<lambda>n d'. dinv T p d' \<and> wf_opt n)"
  unfolding demangleVariable_def
  by (assumption | erule conjE | rule safe wf_intros conjI impI | clarsimp simp: plain_def)+

lemma demangleSubscript_post:
  "dinv T p d \<Longrightarrow> ok (demangleSubscript d) (\<lambda>n d'. dinv T p d' \<and> wf_opt n)"
  unfolding demangleSubscript_def
  by (assumption | erule conjE | rule safe wf_intros conjI impI | clarsimp simp: plain_def)+

lemma demangleValueWitness_post:
  "dinv T p d \<Longrightarrow> okp (demangleValueWitness d) (\<lambda>n d'. dinv T p d' \<and> wf_opt n)"
  unfolding demangleValueWitness_def
  by (assumption | erule conjE | rule safe wf_intros conjI impI | clarsimp simp: plain_def)+

section \<open>The operator dispatch\<close>

text \<open>What one turn of the parse loop guarantees: a node only together with progress.\<close>

abbreviation step_post :: "string \<Rightarrow> nat \<Rightarrow> node option \<Rightarrow> demangler \<Rightarrow> bool" where
  "step_post T p n d' \<equiv> dinv T p d' \<and> wf_opt n \<and> (n \<noteq> None \<longrightarrow> p < Pos d')"

lemma ok_progress:
  "ok m (\<lambda>n d'. dinv T (Suc p) d' \<and> wf_opt n) \<Longrightarrow> ok m (\<lambda>n d'. step_post T p n d')"
  by (auto simp: dinv_Suc elim!: ok_conseq)

lemma okp_progress:
  "okp m (\<lambda>n d'. dinv T (Suc p) d' \<and> wf_opt n) \<Longrightarrow> ok (Some m) (\<lambda>n d'. step_post T p n d')"
  by (auto simp: dinv_Suc elim!: okp_conseq intro!: ok_SomeI)

lemmas operator_rules =
  demangleMultiSubstitutions_post [THEN ok_progress] demangleBuiltinType_post [THEN ok_progress]
  demangleAnyGenericType_post [THEN ok_progress] demangleTypeMangling_post [THEN ok_progress]
  demangleExtensionContext_post [THEN ok_progress] demanglePlainFunction_post [THEN ok_progress]
  demangleBoundGenericType_post [THEN ok_progress] demangleImplFunctionType_post [THEN ok_progress]
  demangleLocalIdentifier_post [THEN okp_progress] demangleMetatype_post [THEN ok_progress]
  createWithPoppedType_post [THEN okp_progress] demangleArchetype_post [THEN ok_progress]
  demangleThunkOrSpecialization_post [THEN ok_progress] demangleWitness_post [THEN ok_progress]
  demangleSpecialType_post [THEN ok_progress] demangleFunctionEntity_post [THEN ok_progress]
  demangleSubscript_post [THEN ok_progress] demangleGenericSignature_post [THEN okp_progress]
  demangleOperatorIdentifier_post [THEN ok_progress] demangleProtocolListType_post [THEN ok_progress]
  popTuple_post [THEN ok_progress] demangleGenericType_post [THEN okp_progress]
  demangleVariable_post [THEN ok_progress] demangleValueWitness_post [THEN okp_progress]

lemma inline_leaf: "dinv T (Suc p) d \<Longrightarrow> wf_node n \<Longrightarrow> ok (Some (Some n, d)) (\<lambda>n d'. step_post T p n d')"
  by (simp add: dinv_Suc)

lemma inline_static:
  "dinv T p d \<Longrightarrow>
   ok (let (E, d) = popNode_if isEntity d in Some (createWithChild K_Static E, d)) (\<lambda>n d'. dinv T p d' \<and> wf_opt n)"
  by (assumption | erule conjE | rule safe wf_intros conjI impI | clarsimp simp: plain_def)+

lemma inline_metatype:
  "dinv T p d \<Longrightarrow>
   ok (let (Ty, d) = popNode_kind K_Type d in Some (createType (createWithChild K_Metatype Ty), d))
     (\<lambda>n d'. dinv T p d' \<and> wf_opt n)"
  by (assumption | erule conjE | rule safe wf_intros conjI impI | clarsimp simp: plain_def)+

lemma inline_wrapped:
  "dinv T p d \<Longrightarrow> plain k \<or> k = K_InOut \<Longrightarrow>
   ok (popTypeAndGetChild d \<bind> (\<lambda>(Child, d). Some (createType (createWithChild k Child), d)))
     (\<lambda>n d'. dinv T p d' \<and> wf_opt n)"
  by (assumption | erule conjE | rule safe wf_intros conjI impI | clarsimp simp: plain_def)+

lemma inline_param:
  "dinv T p d \<Longrightarrow>
   ok (demangleGenericParamIndex d \<bind> (\<lambda>(P, d). Some (createType P, d))) (\<lambda>n d'. dinv T p d' \<and> wf_opt n)"
  by (assumption | erule conjE | rule safe wf_intros conjI impI | clarsimp simp: plain_def)+

lemma inline_first_param:
  "dinv T p d \<Longrightarrow>
   ok (getDependentGenericParamType 0 0 \<bind> (\<lambda>P. Some (createType P, d))) (\<lambda>n d'. dinv T p d' \<and> wf_opt n)"
  by (assumption | erule conjE | rule safe wf_intros conjI impI | clarsimp simp: plain_def)+

lemma inline_function:
  "dinv T p d \<Longrightarrow> ok (popFunctionType K_FunctionType d) (\<lambda>n d'. dinv T p d' \<and> wf_opt n)"
  by (rule popFunctionType_safe) auto

lemma inline_suffix:
  assumes "dinv T (Suc p) d" "\<And>u d2. pushBack d = Some (u, d2) \<Longrightarrow> Pos d2 = p"
  shows "ok (pushBack d \<bind> (\<lambda>(_, d). let (s, d) = consumeAll d in Some (Some (createNodeText K_Suffix s), d)))
    (\<lambda>n d'. step_post T p n d')"
proof -
  have "Suc p \<le> Pos d" "Pos d \<le> length T" "Text d = T" using assms(1) by (simp_all add: dinv_def)
  moreover from this have "Pos d - 1 = p"
    using assms(2) [of "()" "d\<lparr>Pos := Pos d - 1\<rparr>"] by (simp add: pushBack_def)
  ultimately show ?thesis using assms(1)
    by (simp add: dinv_def pushBack_def consumeAll_def wf_plain plain_def)
qed

lemma inline_identifier:
  assumes "dinv T (Suc p) d" "\<And>u d2. pushBack d = Some (u, d2) \<Longrightarrow> Pos d2 = p"
  shows "ok (pushBack d \<bind> (\<lambda>(_, d). demangleIdentifier d)) (\<lambda>n d'. step_post T p n d')"
proof -
  obtain d2 where "pushBack d = Some ((), d2)" "dinv T p d2" "Pos d2 = p"
    using pushBack_post [of T p d] assms by (auto simp: dinv_Suc dest!: okD)
  then show ?thesis using demangleIdentifier_post [of T p d2] by (auto elim: ok_conseq)
qed

lemmas inline_rules = inline_leaf inline_static [THEN ok_progress] inline_metatype [THEN ok_progress]
  inline_wrapped [THEN ok_progress] inline_param [THEN ok_progress]
  inline_first_param [THEN ok_progress] inline_function [THEN ok_progress]
  demangleGenericRequirement_post demangleStandardSubstitution_post

lemma demangleOperator_next:
  "nextChar d = (c, d1) \<Longrightarrow> dinv T (Suc p) d1 \<Longrightarrow> dinv T p d1 \<Longrightarrow> p < Pos d1 \<Longrightarrow> p < length T \<Longrightarrow>
   (c = CHR ''T'' \<Longrightarrow> peekChar d1 \<noteq> CHR ''K'') \<Longrightarrow> (c = CHR ''T'' \<Longrightarrow> peekChar d1 \<noteq> CHR ''k'') \<Longrightarrow>
   (\<And>u d2. pushBack d1 = Some (u, d2) \<Longrightarrow> Pos d2 = p) \<Longrightarrow>
   ok (demangleOperator d) (\<lambda>n d'. step_post T p n d')"
  unfolding demangleOperator_def
  apply (simp only: if_False)
  apply (rule ok_Let, rule ok_prod, rule okp_PairI)
  apply (rule ok_if, (rule operator_rules inline_rules;
      (assumption | rule wf_leaf(5) | (simp add: wf_plain plain_def; fail)))+)+
  apply (rule ok_if)
   apply (erule inline_suffix, assumption)
  apply (erule inline_identifier, assumption)
  done

lemma no_keypath_peek:
  assumes "no_keypath_thunk T" "T ! p = CHR ''T''" "Suc p < length T"
  shows "T ! Suc p \<noteq> CHR ''K'' \<and> T ! Suc p \<noteq> CHR ''k''"
  using assms by (auto simp: no_keypath_thunk_def list_all_iff)

lemma demangleOperator_post:
  assumes "dinv T p d" "Pos d = p" "p < length T"
  shows "ok (demangleOperator d) (\<lambda>n d'. step_post T p n d')"
proof -
  let ?d1 = "d\<lparr>Pos := Suc p\<rparr>"
  have T: "Text d = T" "no_keypath_thunk T" using assms(1) by (auto simp: dinv_def safe_text_def)
  then have c: "nextChar d = (T ! p, ?d1)" using assms by (simp add: nextChar_def)
  have i1: "dinv T (Suc p) ?d1" using assms by (auto simp: dinv_def)
  show ?thesis
    by (rule demangleOperator_next [OF c i1])
      (use i1 T assms no_keypath_peek [OF T(2), of p] in
        \<open>auto simp: dinv_Suc peekChar_def pushBack_def bind_Some_iffs\<close>)
qed

section \<open>The parser\<close>

lemma parseAndPushNodes_post:
  "dinv T p d \<Longrightarrow> ok (parseAndPushNodes d) (\<lambda>b d'. dinv T p d')"
proof (induction "length T - Pos d" arbitrary: d rule: less_induct)
  case less
  have T: "Text d = T" using less.prems by (simp add: dinv_def)
  show ?case
  proof (cases "Pos d < length T")
    case False
    with less.prems T show ?thesis by (subst parseAndPushNodes.simps) simp
  next
    case True
    have "dinv T (Pos d) d" using less.prems by (auto simp: dinv_def)
    from demangleOperator_post [OF this refl True]
    obtain n d1 where 1: "demangleOperator d = Some (n, d1)" "dinv T (Pos d) d1" "wf_opt n"
      "n \<noteq> None \<Longrightarrow> Pos d < Pos d1" by (auto dest!: okD)
    have i1: "dinv T p d1" using less.prems 1(2) by (auto simp: dinv_def)
    show ?thesis
    proof (cases n)
      case None
      with 1 i1 True T show ?thesis by (subst parseAndPushNodes.simps) simp
    next
      case (Some m)
      have "ok (parseAndPushNodes (pushNode m d1)) (\<lambda>b d'. dinv T p d')"
        using less.hyps [of "pushNode m d1"] dinv_pushNode [OF i1, of m] 1 Some True
        by (auto simp: pushNode_def diff_less_mono2)
      with 1 Some True T show ?thesis by (subst parseAndPushNodes.simps) simp
    qed
  qed
qed

section \<open>The entry points\<close>

lemma dinv_init: "safe_text T \<Longrightarrow> dinv T 0 (init T d)"
  by (simp add: dinv_def init_def)

lemma nextIf_str_post: "dinv T p d \<Longrightarrow> okp (nextIf_str s d) (\<lambda>b d'. dinv T p d' \<and> (\<not> b \<longrightarrow> d' = d))"
  using take_all_iff [of "length s" "drop (Pos d) (Text d)"]
  by (auto simp: nextIf_str_def dinv_def) (metis add.commute length_drop length_take
    le_diff_conv2 min.absorb_iff2)

lemma getManglingPrefixLength_post:
  assumes "name \<noteq> ''$''" "name \<noteq> ''_$''"
  shows "\<exists>n. getManglingPrefixLength name = Some n \<and> n \<le> length name"
proof -
  let ?o = "if name ! 0 = CHR ''_'' then 1 else 0 :: nat"
  have "?o + 1 < length name" if "name \<noteq> []" "?o + 1 \<le> length name" "name ! ?o = CHR ''$''"
  proof (rule ccontr)
    assume "\<not> ?o + 1 < length name"
    with that have "length name = ?o + 1" by simp
    with that assms show False
      by (auto simp: length_Suc_conv split: if_splits)
  qed
  then show ?thesis by (auto simp: getManglingPrefixLength_def Let_def)
qed

definition symbol_node :: "node option \<Rightarrow> bool" where
  "symbol_node r \<longleftrightarrow> (\<forall>n. r = Some n \<longrightarrow> wf_node n \<and> getKind n = K_Global \<and> children n \<noteq> [])"

lemma symbol_node_intros:
  "symbol_node None"
  "wf_node (Node K_Global NoPayload (c # cs)) \<Longrightarrow> symbol_node (Some (Node K_Global NoPayload (c # cs)))"
  by (simp_all add: symbol_node_def)

lemma demangleObjCTypeName_post:
  "dinv T p d \<Longrightarrow> ok (demangleObjCTypeName d) (\<lambda>n d'. symbol_node n)"
  unfolding demangleObjCTypeName_def
  by (assumption | erule conjE | rule symbol_node_intros safe wf_intros conjI impI
    | erule (1) wf_children | clarsimp simp: plain_def wf_kinds)+

lemma unwrap_types_post:
  "\<forall>n \<in> set ns. wf_node n \<Longrightarrow> oks (unwrap_types ns) (\<lambda>ms. \<forall>m \<in> set ms. wf_node m)"
proof (induction ns)
  case (Cons n ns)
  have "oks (if getKind n = K_Type then getFirstChild n else Some n) wf_node"
    using getFirstChild_post [of n] Type_children [of n] Cons.prems by (auto intro: oks_conseq)
  with Cons show ?case by (auto simp: oks_def split: option.splits)
qed simp

lemma isFunctionAttr_plain: "isFunctionAttr k \<Longrightarrow> plain k"
  by (auto simp: isFunctionAttr_def plain_def)

lemma attach_attributes_wf:
  "\<forall>a \<in> set as. wf_node a \<and> plain (getKind a) \<Longrightarrow> \<forall>n \<in> set ns. wf_node n \<Longrightarrow>
   \<forall>n \<in> set (attach_attributes as ns). wf_node n"
  by (induction as) (auto simp: wf_plain dest: wf_children)

lemma symbol_tail:
  assumes "dinv T p d"
  shows "ok (do {
      let attrs = takeWhile (\<lambda>n. isFunctionAttr (getKind n)) (NodeStack d);
      let d = d\<lparr>NodeStack := dropWhile (\<lambda>n. isFunctionAttr (getKind n)) (NodeStack d)\<rparr>;
      nodes \<leftarrow> unwrap_types (rev (NodeStack d));
      let topLevel = Node K_Global NoPayload (attach_attributes attrs nodes);
      if getNumChildren topLevel = 0 then Some (None, d) else Some (Some topLevel, d)
    }) (\<lambda>r d'. symbol_node r)"
proof -
  let ?as = "takeWhile (\<lambda>n. isFunctionAttr (getKind n)) (NodeStack d)"
  let ?ns = "dropWhile (\<lambda>n. isFunctionAttr (getKind n)) (NodeStack d)"
  have wf: "\<forall>a \<in> set ?as. wf_node a \<and> plain (getKind a)" "\<forall>n \<in> set ?ns. wf_node n"
    using assms by (auto simp: dinv_def dest: set_takeWhileD set_dropWhileD intro: isFunctionAttr_plain)
  then obtain ms where ms: "unwrap_types (rev ?ns) = Some ms" "\<forall>m \<in> set ms. wf_node m"
    using unwrap_types_post [of "rev ?ns"] by (auto simp: oks_def split: option.splits)
  have "wf_node (Node K_Global NoPayload (attach_attributes ?as ms))"
    using attach_attributes_wf [OF wf(1) ms(2)] by (simp add: wf_plain plain_def)
  with ms show ?thesis by (simp add: Let_def symbol_node_def getNumChildren_def)
qed

lemma demangleSymbol_returns:
  assumes safe: "safe_text name" and prefix: "name \<noteq> ''$''" "name \<noteq> ''_$''"
  shows "ok (demangleSymbol name d) (\<lambda>r d'. symbol_node r)"
proof -
  obtain b d1 where 1: "nextIf_str ''_Tt'' (init name d) = (b, d1)" by force
  with nextIf_str_post [OF dinv_init [OF safe], of "''_Tt''" d]
  have i1: "dinv name 0 d1" "\<not> b \<Longrightarrow> Pos d1 = 0" by (auto simp: init_def)
  obtain n where n: "getManglingPrefixLength name = Some n" "n \<le> length name"
    using getManglingPrefixLength_post [OF prefix] by blast
  show ?thesis
  proof (cases "b \<or> n = 0")
    case True
    with 1 n demangleObjCTypeName_post [OF i1(1)] show ?thesis
      by (cases b) (simp_all add: demangleSymbol_def symbol_node_intros)
  next
    case False
    let ?d = "d1\<lparr>IsOldFunctionTypeMangling := isOldFunctionTypeMangling name, Pos := Pos d1 + n\<rparr>"
    have "dinv name 0 ?d" using i1 n False by (auto simp: dinv_def)
    then obtain b2 d2 where 2: "parseAndPushNodes ?d = Some (b2, d2)" "dinv name 0 d2"
      using parseAndPushNodes_post by (blast dest: okD)
    with 1 n False symbol_tail [OF 2(2)] show ?thesis
      by (cases b2) (simp_all add: demangleSymbol_def symbol_node_intros)
  qed
qed

lemma demangleType_returns:
  assumes "safe_text name"
  shows "ok (demangleType name d) (\<lambda>r d'. \<exists>n. r = Some n \<and> wf_node n)"
proof -
  obtain b d1 where 1: "parseAndPushNodes (init name d) = Some (b, d1)" "dinv name 0 d1"
    using parseAndPushNodes_post [OF dinv_init [OF assms]] by (blast dest: okD)
  obtain n d2 where "popNode d1 = (n, d2)" "wf_opt n"
    using popNode_post [OF 1(2)] by (cases "popNode d1") auto
  with 1 show ?thesis by (cases n) (auto simp: demangleType_def wf_plain plain_def)
qed

lemma punycode_total_no_zeros:
  "list_all (\<lambda>i. \<not> (T ! i = CHR ''0'' \<and> T ! Suc i = CHR ''0'')) [0..<length T - 1] \<Longrightarrow> punycode_total T"
  by (fastforce simp: punycode_total_def list_all_iff)

end
