(* ===== verification/Mangle_Identifier.thy ===== *)
theory Mangle_Identifier
  imports Punycode
begin

text \<open>
  The templates of \<open>include/swift/Demangling/ManglingUtils.h\<close> that the AST mangler and the
  remangler share: \<open>mangleIdentifier\<close>, which replaces words seen before by their index, and
  \<open>SubstitutionMerging\<close>, which merges consecutive substitutions.

  The template parameter is a record with the members the comment of the source asks for;
  \<open>SubstWordsInIdent\<close>, empty before and after each call, is a local list. \<open>None\<close> is a failed
  assertion.
\<close>

section \<open>The mangler's members\<close>

record SubstitutionWord =
  word_start :: nat
  word_length :: nat

record WordReplacement =
  StringPos :: nat
  WordIdx :: int

record SubstitutionMerging =
  lastSubstPosition :: nat
  lastSubstSize :: nat
  lastNumSubsts :: nat
  lastSubstIsStandardSubst :: bool

record mangler =
  Buffer :: string
  MWords :: "SubstitutionWord list"
  UsePunycode :: bool
  SubstMerging :: SubstitutionMerging

definition new_merging :: SubstitutionMerging where
  "new_merging = \<lparr>lastSubstPosition = 0, lastSubstSize = 0, lastNumSubsts = 0,
     lastSubstIsStandardSubst = False\<rparr>"

definition emit :: "string \<Rightarrow> 'a mangler_scheme \<Rightarrow> 'a mangler_scheme" where
  "emit s M = M\<lparr>Buffer := Buffer M @ s\<rparr>"

definition resetBuffer :: "nat \<Rightarrow> 'a mangler_scheme \<Rightarrow> 'a mangler_scheme" where
  "resetBuffer toPos M = M\<lparr>Buffer := take toPos (Buffer M)\<rparr>"

section \<open>Identifiers\<close>

definition substr :: "string \<Rightarrow> SubstitutionWord \<Rightarrow> string" where
  "substr Str w = take (word_length w) (drop (word_start w) Str)"

text \<open>The first index in the given range whose word, read in \<open>Str\<close>, is \<open>Word\<close>.\<close>

fun lookupWord :: "string \<Rightarrow> string \<Rightarrow> nat \<Rightarrow> SubstitutionWord list \<Rightarrow> nat option" where
  "lookupWord Word Str Idx [] = None"
| "lookupWord Word Str Idx (w # ws) =
     (if Word = substr Str w then Some Idx else lookupWord Word Str (Suc Idx) ws)"

text \<open>
  What happens at the end of a word: the word is replaced if it is known in the buffer (the first
  \<open>WordsInBuffer\<close> words) or in the identifier itself, else remembered.
\<close>

definition end_of_word ::
  "string \<Rightarrow> string \<Rightarrow> nat \<Rightarrow> nat \<Rightarrow> nat \<Rightarrow> SubstitutionWord list \<times> WordReplacement list \<Rightarrow>
   (SubstitutionWord list \<times> WordReplacement list) option" where
  "end_of_word buf ident WordsInBuffer wordStartPos Pos st =
     (case st of (ws, repls) \<Rightarrow>
      let wordLen = Pos - wordStartPos;
          Word = take wordLen (drop wordStartPos ident);
          found = (case lookupWord Word buf 0 (take WordsInBuffer ws) of
                     Some i \<Rightarrow> Some i
                   | None \<Rightarrow> lookupWord Word ident WordsInBuffer (drop WordsInBuffer ws))
      in case found of
           Some i \<Rightarrow> do {
             assert_that (i < 26);
             Some (ws, repls @ [\<lparr>StringPos = wordStartPos, WordIdx = int i\<rparr>])
           }
         | None \<Rightarrow>
             if wordLen \<ge> 2 \<and> length ws < 26
             then Some (ws @ [\<lparr>word_start = wordStartPos, word_length = wordLen\<rparr>], repls)
             else Some (ws, repls))"

function scan_identifier ::
  "string \<Rightarrow> string \<Rightarrow> nat \<Rightarrow> nat \<Rightarrow> nat option \<Rightarrow> SubstitutionWord list \<times> WordReplacement list \<Rightarrow>
   (SubstitutionWord list \<times> WordReplacement list) option" where
  "scan_identifier buf ident WordsInBuffer Pos wordStartPos st =
     (if Pos > length ident then Some st
      else do {
        let ch = (if Pos < length ident then ident ! Pos else CHR 0x00);
        (wordStartPos, st) \<leftarrow>
          (case wordStartPos of
             Some s \<Rightarrow>
               if isWordEnd ch (ident ! (Pos - 1))
               then map_option (Pair None) (end_of_word buf ident WordsInBuffer s Pos st)
               else Some (Some s, st)
           | None \<Rightarrow> Some (None, st));
        let wordStartPos = (if wordStartPos = None \<and> isWordStart ch then Some Pos else wordStartPos);
        scan_identifier buf ident WordsInBuffer (Suc Pos) wordStartPos st
      })"
  by pat_completeness auto
termination
  by (relation "measure (\<lambda>(buf, ident, W, Pos, _). Suc (length ident) - Pos)") auto

declare scan_identifier.simps [simp del]

text \<open>The literal characters of a sub-string; new words get their position in the buffer.\<close>

fun emit_literal :: "string \<Rightarrow> nat \<Rightarrow> nat \<Rightarrow> 'a mangler_scheme \<Rightarrow> nat \<times> 'a mangler_scheme" where
  "emit_literal [] Pos WordsInBuffer M = (WordsInBuffer, M)"
| "emit_literal (c # cs) Pos WordsInBuffer M =
     (if WordsInBuffer < length (MWords M) \<and> word_start (MWords M ! WordsInBuffer) = Pos
      then emit_literal cs (Suc Pos) (Suc WordsInBuffer)
             (emit [c] (M\<lparr>MWords := (MWords M)[WordsInBuffer :=
                (MWords M ! WordsInBuffer)\<lparr>word_start := length (Buffer M)\<rparr>]\<rparr>))
      else emit_literal cs (Suc Pos) WordsInBuffer (emit [c] M))"

fun emit_parts ::
  "string \<Rightarrow> WordReplacement list \<Rightarrow> nat \<Rightarrow> nat \<Rightarrow> 'a mangler_scheme \<Rightarrow> 'a mangler_scheme option" where
  "emit_parts ident [] Pos WordsInBuffer M = Some M"
| "emit_parts ident (Repl # Repls) Pos WordsInBuffer M = do {
     (Pos, WordsInBuffer, M) \<leftarrow>
       (if Pos < StringPos Repl then do {
          let M = emit (decimal (StringPos Repl - Pos)) M;
          assert_that (Pos < length ident \<and> \<not> isDigit (ident ! Pos));
          let (W, M) = emit_literal (take (StringPos Repl - Pos) (drop Pos ident)) Pos WordsInBuffer M;
          Some (StringPos Repl, W, M)
        }
        else Some (Pos, WordsInBuffer, M));
     if WordIdx Repl \<ge> 0 then do {
       assert_that (WordIdx Repl \<le> int WordsInBuffer);
       assert_that (nat (WordIdx Repl) < length (MWords M));
       let Pos = Pos + word_length (MWords M ! nat (WordIdx Repl));
       if length Repls > 1
       then emit_parts ident Repls Pos WordsInBuffer (emit [lower_char (nat (WordIdx Repl))] M)
       else
         let M = emit [upper_char (nat (WordIdx Repl))] M;
             M = (if Pos = length ident then emit ''0'' M else M)
         in emit_parts ident Repls Pos WordsInBuffer M
     }
     else emit_parts ident Repls Pos WordsInBuffer M
   }"

definition mangleIdentifier :: "string \<Rightarrow> 'a mangler_scheme \<Rightarrow> 'a mangler_scheme option" where
  "mangleIdentifier ident M =
     (let WordsInBuffer = length (MWords M) in
      if UsePunycode M \<and> needsPunycodeEncoding ident then do {
        (_, pcIdent) \<leftarrow> encodePunycodeUTF8 ident True;
        assert_that (pcIdent \<noteq> []);
        let M = emit (''00'' @ decimal (length pcIdent)) M;
        let M = (if isDigit (hd pcIdent) \<or> hd pcIdent = CHR ''_'' then emit ''_'' M else M);
        Some (emit pcIdent M)
      }
      else do {
        (ws, repls) \<leftarrow> scan_identifier (Buffer M) ident WordsInBuffer 0 None (MWords M, []);
        let M = M\<lparr>MWords := ws\<rparr>;
        let M = (if repls \<noteq> [] then emit ''0'' M else M);
        emit_parts ident (repls @ [\<lparr>StringPos = length ident, WordIdx = - 1\<rparr>]) 0 WordsInBuffer M
      })"

section \<open>Merged substitutions\<close>

definition clear_merging :: "SubstitutionMerging \<Rightarrow> SubstitutionMerging" where
  "clear_merging sm = sm\<lparr>lastNumSubsts := 0\<rparr>"

definition tryMergeSubst ::
  "char \<Rightarrow> bool \<Rightarrow> 'a mangler_scheme \<Rightarrow> (bool \<times> 'a mangler_scheme) option" where
  "tryMergeSubst Subst isStandardSubst M = do {
     assert_that (isUpperLetter Subst \<or> (isStandardSubst \<and> isLowerLetter Subst));
     let sm = SubstMerging M;
     let BufferStr = Buffer M;
     let remember = (False, M\<lparr>SubstMerging := \<lparr>lastSubstPosition = length BufferStr + 1,
           lastSubstSize = 1, lastNumSubsts = 1, lastSubstIsStandardSubst = isStandardSubst\<rparr>\<rparr>);
     if lastNumSubsts sm > 0 \<and> lastNumSubsts sm < 2048
        \<and> length BufferStr = lastSubstPosition sm + lastSubstSize sm
        \<and> lastSubstIsStandardSubst sm = isStandardSubst
     then do {
       assert_that (lastSubstPosition sm > 0 \<and> lastSubstPosition sm < length BufferStr);
       assert_that (lastSubstSize sm > 0);
       let lastSubst = last BufferStr;
       assert_that (isUpperLetter lastSubst \<or> (isStandardSubst \<and> isLowerLetter lastSubst));
       if lastSubst \<noteq> Subst \<and> \<not> isStandardSubst then do {
         assert_that (isUpperLetter lastSubst);
         let M = resetBuffer (length BufferStr - 1) M;
         let M = emit [char_of (ord lastSubst - 65 + 97), Subst] M;
         Some (True, M\<lparr>SubstMerging := sm\<lparr>lastSubstPosition := length BufferStr,
           lastNumSubsts := 1, lastSubstSize := 1\<rparr>\<rparr>)
       }
       else if lastSubst = Subst then
         let n = lastNumSubsts sm + 1;
             M = resetBuffer (lastSubstPosition sm) M;
             M = emit (decimal n @ [Subst]) M
         in Some (True, M\<lparr>SubstMerging := sm\<lparr>lastNumSubsts := n,
              lastSubstSize := length (Buffer M) - lastSubstPosition sm\<rparr>\<rparr>)
       else Some remember
     }
     else Some remember
   }"

end
