(* ===== verification/Identifier_Tokens.thy ===== *)
theory Identifier_Tokens
  imports Mangle_Identifier Demangler_State
begin

text \<open>
  The words of an identifier. The loops of \<open>mangleIdentifier\<close> and \<open>demangleIdentifier\<close> that look
  for words are the same scanner with different actions at the end of a word (\<open>word_scan\<close>). An
  identifier is a sequence of tokens, each a gap followed by a word, and a last gap; the scanner
  acts once per token, in order (\<open>word_scan_tokens\<close>). Cutting an identifier before a word keeps the
  tokens in front of the cut (\<open>tokens_cut\<close>), which is why both sides see the same words.
\<close>

section \<open>The scanner\<close>

function word_scan :: "(nat \<Rightarrow> nat \<Rightarrow> 'a \<Rightarrow> 'a) \<Rightarrow> string \<Rightarrow> nat \<Rightarrow> nat option \<Rightarrow> 'a \<Rightarrow> 'a" where
  "word_scan f s i w st =
     (if i > length s then st
      else
        let c = (if i < length s then s ! i else CHR 0x00);
            (w, st) = (case w of
                Some b \<Rightarrow> if isWordEnd c (s ! (i - 1)) then (None, f b i st) else (Some b, st)
              | None \<Rightarrow> (None, st));
            w = (if w = None \<and> isWordStart c then Some i else w)
        in word_scan f s (Suc i) w st)"
  by pat_completeness auto
termination
  by (relation "measure (\<lambda>(f, s, i, _). Suc (length s) - i)") auto

declare word_scan.simps [simp del]

definition add_word :: "string list \<Rightarrow> string \<Rightarrow> string list" where
  "add_word ws w = (if 2 \<le> length w \<and> length ws < 26 then ws @ [w] else ws)"

definition slice :: "nat \<Rightarrow> nat \<Rightarrow> string \<Rightarrow> string" where
  "slice b e s = take (e - b) (drop b s)"

lemma collect_words_scan:
  "w \<noteq> None \<longrightarrow> the w < i \<Longrightarrow>
   collect_words s i w ws = word_scan (\<lambda>b e ws. add_word ws (slice b e s)) s i w ws"
proof (induction s i w ws rule: collect_words.induct)
  case (1 s i w ws)
  show ?case
  proof (cases "i > length s")
    case True
    then show ?thesis by (simp add: collect_words.simps word_scan.simps)
  next
    case False
    have "length (slice b i s) = i - b" if "b < i" for b using False that by (simp add: slice_def)
    then have add: "add_word ws (slice b i s) =
        (if 2 \<le> i - b \<and> length ws < 26 then ws @ [take (i - b) (drop b s)] else ws)" if "b < i" for b
      using that by (simp add: add_word_def slice_def)
    show ?thesis
    proof (cases w)
      case None
      with False 1 show ?thesis
        by (subst collect_words.simps, subst word_scan.simps) (auto simp: Let_def)
    next
      case (Some b)
      with False 1 add [of b] show ?thesis
        by (subst collect_words.simps, subst word_scan.simps) (auto simp: Let_def)
    qed
  qed
qed

lemma word_scan_None:
  "(\<And>b e. f b e None = None) \<Longrightarrow> word_scan f s i w None = None"
proof (induction "Suc (length s) - i" arbitrary: i w)
  case 0
  then show ?case by (simp add: word_scan.simps)
next
  case (Suc x)
  then have "word_scan f s (Suc i) w' None = None" for w' by simp
  with Suc.prems show ?case by (subst word_scan.simps) (auto simp: Let_def split: option.splits)
qed

lemma scan_identifier_scan:
  "scan_identifier buf ident W i w st =
   word_scan (\<lambda>b e r. r \<bind> end_of_word buf ident W b e) ident i w (Some st)"
proof (induction "Suc (length ident) - i" arbitrary: i w st)
  case 0
  then show ?case by (simp add: scan_identifier.simps word_scan.simps)
next
  case (Suc x)
  let ?scan = "word_scan (\<lambda>b e r. r \<bind> end_of_word buf ident W b e) ident (Suc i)"
  have ih: "scan_identifier buf ident W (Suc i) w' st' = ?scan w' (Some st')" for w' st'
    using Suc by simp
  have none: "?scan w' None = None" for w' by (rule word_scan_None) simp
  show ?case
  proof (cases w)
    case None
    with Suc ih show ?thesis
      by (subst scan_identifier.simps, subst word_scan.simps) (auto simp: Let_def)
  next
    case (Some b)
    with Suc ih none show ?thesis
      by (cases "end_of_word buf ident W b i st"; subst scan_identifier.simps, subst word_scan.simps)
        (auto simp: Let_def)
  qed
qed

section \<open>Tokens\<close>

type_synonym token = "string \<times> string"

text \<open>Characters that do not start a word, and words: no word ends inside.\<close>

definition is_gap :: "string \<Rightarrow> bool" where
  "is_gap g \<longleftrightarrow> list_all (\<lambda>c. \<not> isWordStart c) g"

definition is_word :: "string \<Rightarrow> bool" where
  "is_word w \<longleftrightarrow> w \<noteq> [] \<and> isWordStart (hd w) \<and> (\<forall>i. Suc i < length w \<longrightarrow> \<not> isWordEnd (w ! Suc i) (w ! i))"

fun tokens_text :: "token list \<Rightarrow> string \<Rightarrow> string" where
  "tokens_text [] t = t"
| "tokens_text ((g, w) # ts) t = g @ w @ tokens_text ts t"

definition ends_word :: "string \<Rightarrow> string \<Rightarrow> bool" where
  "ends_word w r \<longleftrightarrow> r = [] \<or> isWordEnd (hd r) (last w)"

fun tokens :: "token list \<Rightarrow> string \<Rightarrow> bool" where
  "tokens [] t \<longleftrightarrow> is_gap t"
| "tokens ((g, w) # ts) t \<longleftrightarrow> is_gap g \<and> is_word w \<and> ends_word w (tokens_text ts t) \<and> tokens ts t"

fun spans :: "nat \<Rightarrow> token list \<Rightarrow> (nat \<times> nat) list" where
  "spans p [] = []"
| "spans p ((g, w) # ts) =
     (p + length g, p + length g + length w) # spans (p + length g + length w) ts"

lemma tokens_text_append: "tokens_text (ts @ us) t = tokens_text ts (tokens_text us t)"
  by (induction ts) auto

lemma tokens_text_tail: "tokens_text ts (s @ t) = tokens_text ts s @ t"
  by (induction ts) auto

lemma tokens_append: "tokens (ts @ us) t \<Longrightarrow> tokens us t"
  by (induction ts) auto

lemma tokens_cut: "tokens (ts @ (g, w) # us) t \<Longrightarrow> tokens ts g"
proof (induction ts)
  case (Cons x ts)
  obtain h v where x: "x = (h, v)" by force
  have "ends_word v (tokens_text ts g)"
  proof (cases "tokens_text ts g = []")
    case False
    with Cons.prems show ?thesis
      by (simp add: x tokens_text_append tokens_text_tail ends_word_def)
  qed (simp add: ends_word_def)
  with Cons show ?case by (simp add: x)
qed simp

text \<open>Every text has tokens.\<close>

lemma word_prefix:
  "\<exists>w r. c # s = w @ r \<and> w \<noteq> [] \<and>
     (\<forall>i. Suc i < length w \<longrightarrow> \<not> isWordEnd (w ! Suc i) (w ! i)) \<and> ends_word w r"
proof (induction s arbitrary: c)
  case Nil
  then show ?case by (intro exI [of _ "[c]"] exI [of _ "[]"]) (auto simp: ends_word_def)
next
  case (Cons x s)
  show ?case
  proof (cases "isWordEnd x c")
    case True
    then show ?thesis by (intro exI [of _ "[c]"] exI [of _ "x # s"]) (auto simp: ends_word_def)
  next
    case False
    from Cons [of x] obtain w r where w: "x # s = w @ r" "w \<noteq> []"
      "\<forall>i. Suc i < length w \<longrightarrow> \<not> isWordEnd (w ! Suc i) (w ! i)" "ends_word w r" by blast
    then have "w ! 0 = x" by (cases w) auto
    with w False show ?thesis
      by (intro exI [of _ "c # w"] exI [of _ r]) (auto simp: ends_word_def nth_Cons split: nat.splits)
  qed
qed

lemma tokens_exist: "\<exists>ts t. tokens ts t \<and> tokens_text ts t = s"
proof (induction "length s" arbitrary: s rule: less_induct)
  case less
  let ?g = "takeWhile (\<lambda>c. \<not> isWordStart c) s" and ?r = "dropWhile (\<lambda>c. \<not> isWordStart c) s"
  have gap: "is_gap ?g" by (auto simp: is_gap_def list_all_iff dest: set_takeWhileD)
  show ?case
  proof (cases ?r)
    case Nil
    then have "?g = s" by (metis append_Nil2 takeWhile_dropWhile_id)
    with gap show ?thesis by (intro exI [of _ "[]"] exI [of _ s]) simp
  next
    case (Cons c cs)
    then have "isWordStart c" by (metis dropWhile_eq_Cons_conv)
    moreover from word_prefix [of c cs] obtain w r where w: "c # cs = w @ r" "w \<noteq> []"
      "\<forall>i. Suc i < length w \<longrightarrow> \<not> isWordEnd (w ! Suc i) (w ! i)" "ends_word w r" by blast
    ultimately have word: "is_word w" by (cases w) (auto simp: is_word_def)
    have s: "s = ?g @ w @ r" using Cons w(1) by (metis takeWhile_dropWhile_id)
    then have "length s = length ?g + length w + length r" by (metis add.assoc length_append)
    with w(2) have "length r < length s" by simp
    from less [OF this] obtain ts t where "tokens ts t" "tokens_text ts t = r" by blast
    with gap word w(4) s show ?thesis by (intro exI [of _ "(?g, w) # ts"] exI [of _ t]) simp
  qed
qed

section \<open>The scanner on tokens\<close>

lemma scan_gap:
  "is_gap g \<Longrightarrow> word_scan f (p @ g @ r) (length p) None st = word_scan f (p @ g @ r) (length p + length g) None st"
proof (induction g arbitrary: p)
  case (Cons c g)
  have "word_scan f (p @ c # g @ r) (length p) None st = word_scan f (p @ c # g @ r) (Suc (length p)) None st"
    using Cons.prems by (subst word_scan.simps) (simp add: is_gap_def)
  with Cons.IH [of "p @ [c]"] Cons.prems show ?case by (simp add: is_gap_def)
qed simp

lemma scan_start:
  "isWordStart c \<Longrightarrow> word_scan f (p @ c # r) (length p) None st =
   word_scan f (p @ c # r) (Suc (length p)) (Some (length p)) st"
  by (subst word_scan.simps) simp

lemma scan_inside:
  assumes "b < i" "i < length s" "\<not> isWordEnd (s ! i) (s ! (i - 1))"
  shows "word_scan f s i (Some b) st = word_scan f s (Suc i) (Some b) st"
  using assms by (subst word_scan.simps) simp

lemma scan_end:
  assumes "i \<le> length s" "i < length s \<longrightarrow> isWordEnd (s ! i) (s ! (i - 1))"
  shows "word_scan f s i (Some b) st = word_scan f s i None (f b i st)"
  using assms by (subst (1 2) word_scan.simps) (auto simp: Let_def)

lemma scan_word_to:
  "is_word w \<Longrightarrow> 0 < k \<Longrightarrow> k \<le> length w \<Longrightarrow>
   word_scan f (p @ w @ r) (length p) None st = word_scan f (p @ w @ r) (length p + k) (Some (length p)) st"
proof (induction k)
  case (Suc k)
  show ?case
  proof (cases "k = 0")
    case True
    obtain c cs where "w = c # cs" "isWordStart c" using Suc.prems(1) by (cases w) (auto simp: is_word_def)
    with True scan_start [of c f p "cs @ r"] show ?thesis by simp
  next
    case False
    then obtain j where k: "k = Suc j" by (cases k) auto
    then have "\<not> isWordEnd ((p @ w @ r) ! (length p + k)) ((p @ w @ r) ! (length p + k - 1))"
      using Suc.prems by (simp add: is_word_def nth_append)
    with False Suc.prems Suc.IH scan_inside [of "length p" "length p + k" "p @ w @ r"] show ?thesis by simp
  qed
qed simp

lemma scan_word:
  assumes "is_word w" "ends_word w r"
  shows "word_scan f (p @ w @ r) (length p) None st =
    word_scan f (p @ w @ r) (length p + length w) None (f (length p) (length p + length w) st)"
proof -
  have w: "w \<noteq> []" using assms(1) by (simp add: is_word_def)
  then have "(p @ w @ r) ! (length p + length w - 1) = last w"
    by (cases w rule: rev_cases) (simp_all add: nth_append)
  moreover have "r \<noteq> [] \<Longrightarrow> (p @ w @ r) ! (length p + length w) = hd r"
    by (simp add: nth_append hd_conv_nth)
  ultimately show ?thesis
    using scan_word_to [OF assms(1), of "length w" f p r st] w assms(2)
      scan_end [of "length p + length w" "p @ w @ r"]
    by (auto simp: ends_word_def)
qed

lemma word_scan_tokens:
  "tokens ts t \<Longrightarrow> word_scan f (p @ tokens_text ts t) (length p) None st =
     foldl (\<lambda>st (b, e). f b e st) st (spans (length p) ts)"
proof (induction ts arbitrary: p st)
  case Nil
  have "word_scan f (p @ t @ []) (length p + length t) None st = st"
    by (subst word_scan.simps, simp, subst word_scan.simps) (simp add: word_scan.simps)
  with scan_gap [of t f p "[]" st] Nil show ?case by simp
next
  case (Cons x ts)
  obtain g w where x: "x = (g, w)" by force
  let ?r = "tokens_text ts t"
  have "word_scan f (p @ g @ w @ ?r) (length p) None st =
      word_scan f ((p @ g) @ w @ ?r) (length (p @ g)) None st"
    using scan_gap [of g f p "w @ ?r" st] Cons.prems by (simp add: x)
  also have "\<dots> = word_scan f ((p @ g @ w) @ ?r) (length (p @ g @ w)) None
      (f (length (p @ g)) (length (p @ g @ w)) st)"
    using scan_word [of w ?r f "p @ g" st] Cons.prems by (simp add: x add.assoc)
  also have "\<dots> = foldl (\<lambda>st (b, e). f b e st) (f (length (p @ g)) (length (p @ g @ w)) st)
      (spans (length (p @ g @ w)) ts)"
    using Cons.IH [of "p @ g @ w"] Cons.prems by (simp add: x del: append_assoc)
  finally show ?case by (simp add: x add.assoc)
qed

text \<open>What the demangler does with a literal: it records its words.\<close>

lemma collect_words_tokens:
  assumes "tokens ts t"
  shows "collect_words (tokens_text ts t) 0 None ws = foldl add_word ws (map snd ts)"
proof -
  have "foldl (\<lambda>ws (b, e). add_word ws (slice b e (p @ tokens_text ts t))) ws (spans (length p) ts) =
      foldl add_word ws (map snd ts)" for p
  proof (induction ts arbitrary: p ws)
    case (Cons x ts)
    obtain g w where x: "x = (g, w)" by force
    show ?case using Cons [where p = "p @ g @ w"] by (simp add: x slice_def add.assoc)
  qed simp
  note this [of "[]"]
  moreover have "collect_words (tokens_text ts t) 0 None ws =
      foldl (\<lambda>ws (b, e). add_word ws (slice b e (tokens_text ts t))) ws (spans 0 ts)"
    using word_scan_tokens [OF assms, where p = "[]"] by (simp add: collect_words_scan)
  ultimately show ?thesis by simp
qed

end
