(* ===== verification/Identifier_Segments.thy ===== *)
theory Identifier_Segments
  imports Identifier_Tokens
begin

text \<open>
  The mangler's plan for an identifier: a sequence of segments, each a literal followed by a word
  that is replaced by its index, and a last literal. \<open>plan\<close> says that a list of segments is the one
  the search for words arrives at, given the words already known; \<open>scan_plan\<close> shows that
  \<open>scan_identifier\<close> returns exactly its new words and replacements.
\<close>

section \<open>Known words\<close>

fun find_word :: "nat \<Rightarrow> string list \<Rightarrow> string \<Rightarrow> nat option" where
  "find_word i [] w = None"
| "find_word i (k # ks) w = (if w = k then Some i else find_word (Suc i) ks w)"

lemma lookupWord_find: "lookupWord w s i ws = find_word i (map (substr s) ws) w"
  by (induction ws arbitrary: i) auto

lemma find_word_append:
  "find_word i (ks @ ls) w =
     (case find_word i ks w of Some j \<Rightarrow> Some j | None \<Rightarrow> find_word (i + length ks) ls w)"
  by (induction ks arbitrary: i) (auto split: option.split)

lemma find_word_Some: "find_word i ks w = Some j \<Longrightarrow> i \<le> j \<and> j - i < length ks \<and> ks ! (j - i) = w"
proof (induction ks arbitrary: i)
  case (Cons k ks)
  show ?case
  proof (cases "w = k")
    case False
    with Cons.prems Cons.IH [of "Suc i"] have "Suc i \<le> j \<and> j - Suc i < length ks \<and> ks ! (j - Suc i) = w"
      by simp
    moreover from this have "j - i = Suc (j - Suc i)" by auto
    ultimately show ?thesis by simp
  qed (use Cons.prems in auto)
qed simp

lemma find_word_None: "find_word i ks w = None \<longleftrightarrow> w \<notin> set ks"
  by (induction ks arbitrary: i) auto

definition words_after :: "string list \<Rightarrow> token list \<Rightarrow> string list" where
  "words_after K ts = foldl add_word K (map snd ts)"

lemma words_after_simps [simp]:
  "words_after K [] = K" "words_after K ((g, w) # ts) = words_after (add_word K w) ts"
  by (simp_all add: words_after_def)

lemma length_add_word: "length ws \<le> 26 \<Longrightarrow> length (add_word ws w) \<le> 26"
  by (simp add: add_word_def)

lemma length_words_after: "length K \<le> 26 \<Longrightarrow> length (words_after K ts) \<le> 26"
  by (induction ts arbitrary: K) (auto simp: length_add_word)

section \<open>Plans\<close>

text \<open>A segment: the tokens of its literal, the gap before the replaced word, the word, its index.\<close>

type_synonym segment = "token list \<times> string \<times> string \<times> nat"

fun fresh :: "string list \<Rightarrow> token list \<Rightarrow> bool" where
  "fresh K [] \<longleftrightarrow> True"
| "fresh K ((g, w) # ts) \<longleftrightarrow> w \<notin> set K \<and> fresh (add_word K w) ts"

fun plan :: "string list \<Rightarrow> segment list \<Rightarrow> token list \<Rightarrow> bool" where
  "plan K [] tt \<longleftrightarrow> fresh K tt"
| "plan K ((ts, g, w, i) # ss) tt \<longleftrightarrow>
     fresh K ts \<and> find_word 0 (words_after K ts) w = Some i \<and> plan (words_after K ts) ss tt"

fun plan_tokens :: "segment list \<Rightarrow> token list \<Rightarrow> token list" where
  "plan_tokens [] tt = tt"
| "plan_tokens ((ts, g, w, i) # ss) tt = ts @ (g, w) # plan_tokens ss tt"

fun plan_words :: "string list \<Rightarrow> segment list \<Rightarrow> token list \<Rightarrow> string list" where
  "plan_words K [] tt = words_after K tt"
| "plan_words K ((ts, g, w, i) # ss) tt = plan_words (words_after K ts) ss tt"

lemma plan_exists: "\<exists>ss tt. plan K ss tt \<and> plan_tokens ss tt = ts"
proof (induction ts arbitrary: K)
  case Nil
  show ?case by (intro exI [of _ "[]"]) simp
next
  case (Cons x ts)
  obtain g w where x: "x = (g, w)" by force
  show ?case
  proof (cases "find_word 0 K w")
    case (Some i)
    from Cons [of K] obtain ss tt where "plan K ss tt" "plan_tokens ss tt = ts" by blast
    with Some show ?thesis by (intro exI [of _ "([], g, w, i) # ss"] exI [of _ tt]) (simp add: x)
  next
    case None
    then have w: "w \<notin> set K" by (simp add: find_word_None)
    from Cons [of "add_word K w"] obtain ss tt where
      ss: "plan (add_word K w) ss tt" "plan_tokens ss tt = ts" by blast
    show ?thesis
    proof (cases ss)
      case Nil
      with ss w show ?thesis by (intro exI [of _ "[]"] exI [of _ "(g, w) # tt"]) (simp add: x)
    next
      case (Cons s ss')
      obtain us h v i where "s = (us, h, v, i)" by (cases s) auto
      with Cons ss w show ?thesis
        by (intro exI [of _ "((g, w) # us, h, v, i) # ss'"] exI [of _ tt]) (simp add: x)
    qed
  qed
qed

section \<open>The search for words follows the plan\<close>

fun new_words :: "string list \<Rightarrow> nat \<Rightarrow> token list \<Rightarrow> SubstitutionWord list" where
  "new_words K p [] = []"
| "new_words K p ((g, w) # ts) =
     (if 2 \<le> length w \<and> length K < 26
      then [\<lparr>word_start = p + length g, word_length = length w\<rparr>] else []) @
     new_words (add_word K w) (p + length g + length w) ts"

fun plan_new :: "string list \<Rightarrow> nat \<Rightarrow> segment list \<Rightarrow> token list \<Rightarrow> SubstitutionWord list" where
  "plan_new K p [] tt = new_words K p tt"
| "plan_new K p ((ts, g, w, i) # ss) tt =
     new_words K p ts @ plan_new (words_after K ts) (p + length (tokens_text ts g) + length w) ss tt"

fun plan_repls :: "nat \<Rightarrow> segment list \<Rightarrow> WordReplacement list" where
  "plan_repls p [] = []"
| "plan_repls p ((ts, g, w, i) # ss) =
     \<lparr>StringPos = p + length (tokens_text ts g), WordIdx = int i\<rparr> #
     plan_repls (p + length (tokens_text ts g) + length w) ss"

definition known :: "string \<Rightarrow> string \<Rightarrow> nat \<Rightarrow> SubstitutionWord list \<Rightarrow> string list" where
  "known buf ident W ws = map (substr buf) (take W ws) @ map (substr ident) (drop W ws)"

lemma length_known [simp]: "length (known buf ident W ws) = length ws"
  by (simp add: known_def)

lemma end_of_word_known:
  assumes "W \<le> length ws" "length ws \<le> 26" "slice b e ident = w" "length w = e - b"
  shows "end_of_word buf ident W b e (ws, repls) = Some (case find_word 0 (known buf ident W ws) w of
      Some i \<Rightarrow> (ws, repls @ [\<lparr>StringPos = b, WordIdx = int i\<rparr>])
    | None \<Rightarrow> (if 2 \<le> length w \<and> length ws < 26
        then ws @ [\<lparr>word_start = b, word_length = length w\<rparr>] else ws, repls))"
proof -
  let ?found = "case lookupWord w buf 0 (take W ws) of Some i \<Rightarrow> Some i
    | None \<Rightarrow> lookupWord w ident W (drop W ws)"
  have f: "?found = find_word 0 (known buf ident W ws) w"
    using assms(1) by (simp add: known_def find_word_append lookupWord_find min_absorb2 split: option.split)
  have "i < 26" if "find_word 0 (known buf ident W ws) w = Some i" for i
    using find_word_Some [OF that] assms(2) by simp
  with f assms(3,4) show ?thesis
    by (auto simp: end_of_word_def slice_def Let_def split: option.splits)
qed

lemma known_add:
  assumes "W \<le> length ws" "slice b (b + length w) ident = w"
  shows "known buf ident W (ws @ [\<lparr>word_start = b, word_length = length w\<rparr>]) = known buf ident W ws @ [w]"
  using assms by (simp add: known_def substr_def slice_def)

abbreviation scan_spans ::
  "string \<Rightarrow> string \<Rightarrow> nat \<Rightarrow> SubstitutionWord list \<times> WordReplacement list \<Rightarrow> (nat \<times> nat) list \<Rightarrow>
   (SubstitutionWord list \<times> WordReplacement list) option" where
  "scan_spans buf ident W st ses \<equiv> foldl (\<lambda>r (b, e). r \<bind> end_of_word buf ident W b e) (Some st) ses"

lemma slice_token: "slice (length p + length g) (length p + length g + length w) (p @ g @ w @ r) = w"
  by (simp add: slice_def)

lemma scan_fresh:
  "fresh K ts \<Longrightarrow> K = known buf ident W ws \<Longrightarrow> W \<le> length ws \<Longrightarrow> length ws \<le> 26 \<Longrightarrow>
   ident = p @ tokens_text ts t \<Longrightarrow>
   scan_spans buf ident W (ws, repls) (spans (length p) ts) = Some (ws @ new_words K (length p) ts, repls) \<and>
   known buf ident W (ws @ new_words K (length p) ts) = words_after K ts"
proof (induction ts arbitrary: K ws p)
  case (Cons x ts)
  obtain g w where x: "x = (g, w)" by force
  let ?b = "length p + length g"
  let ?ws = "if 2 \<le> length w \<and> length ws < 26
    then ws @ [\<lparr>word_start = ?b, word_length = length w\<rparr>] else ws"
  have id: "ident = p @ g @ w @ tokens_text ts t" using Cons.prems(5) by (simp add: x)
  then have sl: "slice ?b (?b + length w) ident = w" by (simp only: slice_token)
  have step: "end_of_word buf ident W ?b (?b + length w) (ws, repls) = Some (?ws, repls)"
    using Cons.prems find_word_None [of 0 K w] by (subst end_of_word_known [OF _ _ sl]) (auto simp: x)
  have K: "add_word K w = known buf ident W ?ws" using known_add [OF Cons.prems(3) sl] Cons.prems(2)
    by (simp add: add_word_def)
  have "scan_spans buf ident W (?ws, repls) (spans (length (p @ g @ w)) ts) =
      Some (?ws @ new_words (add_word K w) (length (p @ g @ w)) ts, repls) \<and>
      known buf ident W (?ws @ new_words (add_word K w) (length (p @ g @ w)) ts) = words_after (add_word K w) ts"
    using Cons.prems id by (intro Cons.IH [OF _ K]) (auto simp: x)
  with step Cons.prems(2) show ?case by (auto simp: x add.assoc)
qed simp

lemma spans_append: "spans p (ts @ us) = spans p ts @ spans (p + length (tokens_text ts [])) us"
  by (induction ts arbitrary: p) (auto simp: add.assoc)

lemma length_tokens_text: "length (tokens_text ts t) = length (tokens_text ts []) + length t"
  using tokens_text_tail [of ts "[]" t] by simp

lemma scan_plan:
  "plan K ss tt \<Longrightarrow> K = known buf ident W ws \<Longrightarrow> W \<le> length ws \<Longrightarrow> length ws \<le> 26 \<Longrightarrow>
   ident = p @ tokens_text (plan_tokens ss tt) t \<Longrightarrow>
   scan_spans buf ident W (ws, repls) (spans (length p) (plan_tokens ss tt)) =
     Some (ws @ plan_new K (length p) ss tt, repls @ plan_repls (length p) ss) \<and>
   known buf ident W (ws @ plan_new K (length p) ss tt) = plan_words K ss tt"
proof (induction ss arbitrary: K ws p repls)
  case Nil
  then show ?case using scan_fresh [of K tt buf ident W ws p t repls] by simp
next
  case (Cons s ss)
  obtain ts g w i where s: "s = (ts, g, w, i)" by (cases s) auto
  let ?r = "tokens_text (plan_tokens ss tt) t" and ?l = "tokens_text ts g"
  let ?ws = "ws @ new_words K (length p) ts" and ?K = "words_after K ts"
  let ?repls = "repls @ [\<lparr>StringPos = length p + length ?l, WordIdx = int i\<rparr>]"
  have id: "ident = p @ tokens_text ts (g @ w @ ?r)"
    using Cons.prems(5) by (simp add: s tokens_text_append)
  then have id': "ident = p @ ?l @ w @ ?r" by (simp add: tokens_text_tail)
  have lit: "scan_spans buf ident W (ws, repls) (spans (length p) ts) = Some (?ws, repls) \<and>
      known buf ident W ?ws = ?K"
    using Cons.prems(1) by (intro scan_fresh [OF _ Cons.prems(2,3,4) id]) (simp add: s)
  have len: "W \<le> length ?ws" "length ?ws \<le> 26"
    using lit length_words_after [of K ts] Cons.prems by (simp, metis length_known)
  have "slice (length p + length ?l) (length p + length ?l + length w) ident = w"
    unfolding id' by (rule slice_token)
  then have word: "end_of_word buf ident W (length p + length ?l) (length p + length ?l + length w) (?ws, repls)
      = Some (?ws, ?repls)"
    using Cons.prems(1) lit by (subst end_of_word_known [OF len]) (auto simp: s)
  have "scan_spans buf ident W (?ws, ?repls) (spans (length (p @ ?l @ w)) (plan_tokens ss tt)) =
      Some (?ws @ plan_new ?K (length (p @ ?l @ w)) ss tt, ?repls @ plan_repls (length (p @ ?l @ w)) ss) \<and>
      known buf ident W (?ws @ plan_new ?K (length (p @ ?l @ w)) ss tt) = plan_words ?K ss tt"
    using Cons.prems(1) lit len id' by (intro Cons.IH) (auto simp: s)
  with lit word show ?case
    by (simp add: s spans_append length_tokens_text [of ts g] add.assoc)
qed

section \<open>The literals are written\<close>

definition to_buffer :: "nat \<Rightarrow> nat \<Rightarrow> SubstitutionWord \<Rightarrow> SubstitutionWord" where
  "to_buffer p q w = w\<lparr>word_start := word_start w - p + q\<rparr>"

text \<open>Words that lie inside a literal of the given extent, in order.\<close>

fun inside :: "nat \<Rightarrow> nat \<Rightarrow> SubstitutionWord list \<Rightarrow> bool" where
  "inside p q [] \<longleftrightarrow> p \<le> q"
| "inside p q (w # ws) \<longleftrightarrow> p \<le> word_start w \<and> 0 < word_length w \<and>
     inside (word_start w + word_length w) q ws"

lemma inside_mono: "inside p q ws \<Longrightarrow> p' \<le> p \<Longrightarrow> inside p' q ws"
  by (induction ws arbitrary: p p') auto

lemma inside_le: "inside p q ws \<Longrightarrow> p \<le> q"
  by (induction ws arbitrary: p) fastforce+

lemma inside_start: "inside p q ws \<Longrightarrow> w \<in> set ws \<Longrightarrow> p \<le> word_start w \<and> word_start w + word_length w \<le> q"
proof (induction ws arbitrary: p)
  case (Cons v ws)
  then show ?case using inside_le [of "word_start v + word_length v" q ws] by fastforce
qed simp

lemma to_buffer_Suc:
  assumes "inside (Suc p) q B"
  shows "map (to_buffer (Suc p) (Suc n)) B = map (to_buffer p n) B"
proof (rule map_cong [OF refl])
  fix w
  assume "w \<in> set B"
  with inside_start [OF assms] have "word_start w - Suc p + Suc n = word_start w - p + n" by fastforce
  then show "to_buffer (Suc p) (Suc n) w = to_buffer p n w" by (simp add: to_buffer_def)
qed

lemma emit_literal_words:
  "MWords M = A @ B @ C \<Longrightarrow> inside p (p + length cs) B \<Longrightarrow>
   C = [] \<or> p + length cs \<le> word_start (hd C) \<Longrightarrow>
   emit_literal cs p (length A) M = (length A + length B,
     M\<lparr>Buffer := Buffer M @ cs, MWords := A @ map (to_buffer p (length (Buffer M))) B @ C\<rparr>)"
proof (induction cs arbitrary: p A B M)
  case Nil
  then have "B = []" using inside_le by (cases B) fastforce+
  with Nil show ?case by simp
next
  case (Cons c cs)
  show ?case
  proof (cases "\<exists>b B'. B = b # B' \<and> word_start b = p")
    case True
    then obtain b B' where b: "B = b # B'" "word_start b = p" by blast
    let ?b = "to_buffer p (length (Buffer M)) b"
    let ?M = "emit [c] (M\<lparr>MWords := (MWords M)[length A := ?b]\<rparr>)"
    have ins: "inside (Suc p) (Suc p + length cs) B'"
      using Cons.prems(2) b inside_mono [of "p + word_length b" _ B' "Suc p"] by simp
    have "emit_literal (c # cs) p (length A) M = emit_literal cs (Suc p) (length (A @ [?b])) ?M"
      using Cons.prems(1) b by (simp add: to_buffer_def nth_append)
    also have "\<dots> = (length (A @ [?b]) + length B', ?M\<lparr>Buffer := Buffer ?M @ cs,
        MWords := (A @ [?b]) @ map (to_buffer (Suc p) (length (Buffer ?M))) B' @ C\<rparr>)"
      using Cons.prems b ins by (intro Cons.IH) (auto simp: emit_def)
    finally show ?thesis using to_buffer_Suc [OF ins, of "length (Buffer M)"] b by (simp add: emit_def)
  next
    case False
    let ?M = "emit [c] M"
    have ins: "inside (Suc p) (Suc p + length cs) B" using Cons.prems(2) False by (cases B) auto
    have "emit_literal (c # cs) p (length A) M = emit_literal cs (Suc p) (length A) ?M"
      using Cons.prems False by (cases B; cases C) (auto simp: nth_append)
    also have "\<dots> = (length A + length B, ?M\<lparr>Buffer := Buffer ?M @ cs,
        MWords := A @ map (to_buffer (Suc p) (length (Buffer ?M))) B @ C\<rparr>)"
      using Cons.prems ins by (intro Cons.IH) (auto simp: emit_def)
    finally show ?thesis using to_buffer_Suc [OF ins, of "length (Buffer M)"] by (simp add: emit_def)
  qed
qed

lemma new_words_inside:
  "tokens ts t \<Longrightarrow> inside p (p + length (tokens_text ts t)) (new_words K p ts)"
proof (induction ts arbitrary: p K)
  case (Cons x ts)
  obtain g w where x: "x = (g, w)" by force
  from Cons have "inside (p + length g + length w) (p + length g + length w + length (tokens_text ts t))
      (new_words (add_word K w) (p + length g + length w) ts)" by (simp add: x)
  then show ?case by (auto simp: x add.assoc intro: inside_mono)
qed simp

end
