(* ===== verification/Remangler_Core.thy ===== *)
theory Remangler_Core
  imports Demangler Mangle_Identifier "HOL-Library.Word"
begin

text \<open>
  The state and the shared helpers of \<open>class Remangler\<close> in \<open>lib/Demangling/Remangler.cpp\<close>.

  The printing functions of the class call each other through \<open>mangle(Node *)\<close>; here each takes the
  function to use for that call as its first argument \<open>rec\<close>, and the knot is tied in
  \<open>Remangler\<close>. \<open>None\<close> is a failed assertion or a call of \<open>unreachable\<close>.
\<close>

section \<open>Substitution entries\<close>

record SubstitutionEntry =
  TheNode :: node
  StoredHash :: "64 word"
  treatAsIdentifier :: bool

definition combineHash :: "64 word \<Rightarrow> 64 word \<Rightarrow> 64 word" where
  "combineHash h newValue = 33 * h + newValue"

definition combineHash_text :: "64 word \<Rightarrow> string \<Rightarrow> 64 word" where
  "combineHash_text h t = foldl (\<lambda>h c. combineHash h (of_nat (ord c))) h t"

fun kind_value :: "node_kind \<Rightarrow> 64 word" where
  "kind_value (Kind k) = of_nat k"

fun deepHash :: "64 word \<Rightarrow> node \<Rightarrow> 64 word" where
  "deepHash h (Node k p cs) =
     (let h = combineHash h (kind_value k);
          h = (case p of
                 IndexPayload i \<Rightarrow> combineHash h (of_nat i)
               | TextPayload t \<Rightarrow> combineHash_text h t
               | NoPayload \<Rightarrow> h)
      in fold (\<lambda>c h. deepHash h c) cs h)"

definition setNode :: "node \<Rightarrow> bool \<Rightarrow> SubstitutionEntry option" where
  "setNode nd as_ident =
     (if as_ident then do {
        t \<leftarrow> getText nd;
        Some \<lparr>TheNode = nd,
          StoredHash = combineHash_text (combineHash 0 (kind_value K_Identifier)) t,
          treatAsIdentifier = True\<rparr>
      }
      else Some \<lparr>TheNode = nd, StoredHash = deepHash 0 nd, treatAsIdentifier = False\<rparr>)"

text \<open>The comparison of payloads in \<open>deepEquals\<close>, and of the children pairwise.\<close>

definition payload_equals :: "node \<Rightarrow> node \<Rightarrow> bool" where
  "payload_equals lhs rhs \<longleftrightarrow>
     (if hasIndex lhs then hasIndex rhs \<and> getIndex lhs = getIndex rhs
      else if hasText lhs then hasText rhs \<and> getText lhs = getText rhs
      else \<not> (hasIndex rhs \<or> hasText rhs))"

function deepEquals :: "node \<Rightarrow> node \<Rightarrow> bool" where
  "deepEquals (Node k p cs) rhs \<longleftrightarrow>
     k = getKind rhs \<and> payload_equals (Node k p cs) rhs \<and> length cs = getNumChildren rhs \<and>
     list_all (\<lambda>(l, r). deepEquals l r) (zip cs (children rhs))"
  by pat_completeness auto
termination
  by (relation "measure (\<lambda>(l, r). size l)")
    (auto simp: less_Suc_eq_le intro: size_list_estimation' dest!: set_zip_leftD)

definition entry_equals :: "SubstitutionEntry \<Rightarrow> SubstitutionEntry \<Rightarrow> bool" where
  "entry_equals lhs rhs \<longleftrightarrow>
     (if StoredHash lhs \<noteq> StoredHash rhs then False
      else if treatAsIdentifier lhs \<noteq> treatAsIdentifier rhs then False
      else if treatAsIdentifier lhs then getText (TheNode lhs) = getText (TheNode rhs)
      else deepEquals (TheNode lhs) (TheNode rhs))"

section \<open>State\<close>

text \<open>The map of substitutions as the list of its entries: an entry's value is its position.\<close>

record remangler = mangler +
  RSubstitutions :: "SubstitutionEntry list"

type_synonym handler = "node \<Rightarrow> remangler \<Rightarrow> remangler option"

definition new_remangler :: remangler where
  "new_remangler = \<lparr>Buffer = [], MWords = [], UsePunycode = True, SubstMerging = new_merging,
     RSubstitutions = []\<rparr>"

fun find_entry :: "nat \<Rightarrow> SubstitutionEntry list \<Rightarrow> SubstitutionEntry \<Rightarrow> nat option" where
  "find_entry i [] entry = None"
| "find_entry i (e # es) entry = (if entry_equals e entry then Some i else find_entry (Suc i) es entry)"

section \<open>Nodes\<close>

definition getSingleChild :: "node \<Rightarrow> node option" where
  "getSingleChild nd = do { assert_that (getNumChildren nd = 1); getFirstChild nd }"

definition getSingleChild_kind :: "node \<Rightarrow> node_kind \<Rightarrow> node option" where
  "getSingleChild_kind nd kind = do {
     Child \<leftarrow> getSingleChild nd;
     assert_that (getKind Child = kind);
     Some Child
   }"

definition skipType :: "node \<Rightarrow> node option" where
  "skipType nd = (if getKind nd = K_Type then getSingleChild nd else Some nd)"

definition getChildOfType :: "node \<Rightarrow> node option" where
  "getChildOfType nd = do { assert_that (getKind nd = K_Type); getSingleChild nd }"

lemma size_child: "c \<in> set (children nd) \<Longrightarrow> size c < size nd"
  by (cases nd) (auto simp: less_Suc_eq_le dest: size_list_estimation' [where f = size])

lemma getChild_size: "getChild nd i = Some c \<Longrightarrow> size c < size nd"
  by (auto simp: getChild_def bind_Some_iffs getNumChildren_def intro: size_child)

lemma getFirstChild_size: "getFirstChild nd = Some c \<Longrightarrow> size c < size nd"
  by (auto simp: getFirstChild_def bind_Some_iffs getNumChildren_def Suc_le_eq
      intro!: size_child nth_mem)

lemma getSingleChild_size: "getSingleChild nd = Some c \<Longrightarrow> size c < size nd"
  by (auto simp: getSingleChild_def bind_Some_iffs dest: getFirstChild_size)

lemma getChildOfType_size: "getChildOfType nd = Some c \<Longrightarrow> size c < size nd"
  by (auto simp: getChildOfType_def bind_Some_iffs dest: getSingleChild_size)

lemmas child_sizes = getChild_size getFirstChild_size getSingleChild_size getChildOfType_size

section \<open>Specialized types\<close>

definition is_bound_generic :: "node_kind \<Rightarrow> bool" where
  "is_bound_generic k \<longleftrightarrow> k \<in> set [K_BoundGenericStructure, K_BoundGenericEnum, K_BoundGenericClass]"

definition is_nominal :: "node_kind \<Rightarrow> bool" where
  "is_nominal k \<longleftrightarrow> k \<in> set [K_Structure, K_Enum, K_Class]"

function isSpecialized :: "node \<Rightarrow> bool option" where
  "isSpecialized nd =
     (if is_bound_generic (getKind nd) then Some True
      else if is_nominal (getKind nd) then
        (case getChild nd 0 of None \<Rightarrow> None | Some c \<Rightarrow> isSpecialized c)
      else if getKind nd = K_Extension then
        (case getChild nd 1 of None \<Rightarrow> None | Some c \<Rightarrow> isSpecialized c)
      else Some False)"
  by pat_completeness auto
termination
  by (relation "measure size") (auto dest: child_sizes)

declare isSpecialized.simps [simp del]

function getUnspecialized :: "node \<Rightarrow> node option" where
  "getUnspecialized nd =
     (if is_nominal (getKind nd) then
        (case getChild nd 0 of
           None \<Rightarrow> None
         | Some parentOrModule \<Rightarrow>
             (case isSpecialized parentOrModule of
                None \<Rightarrow> None
              | Some b \<Rightarrow>
                  (case (if b then getUnspecialized parentOrModule else Some parentOrModule) of
                     None \<Rightarrow> None
                   | Some p \<Rightarrow> do {
                       c1 \<leftarrow> getChild nd 1;
                       Some (Node (getKind nd) NoPayload [p, c1])
                     })))
      else if is_bound_generic (getKind nd) then
        (case getChild nd 0 of
           None \<Rightarrow> None
         | Some unboundType \<Rightarrow>
             if getKind unboundType \<noteq> K_Type then None
             else
               (case getChild unboundType 0 of
                  None \<Rightarrow> None
                | Some nominalType \<Rightarrow>
                    (case isSpecialized nominalType of
                       None \<Rightarrow> None
                     | Some b \<Rightarrow> if b then getUnspecialized nominalType else Some nominalType)))
      else if getKind nd = K_Extension then
        (case getChild nd 1 of
           None \<Rightarrow> None
         | Some parent \<Rightarrow>
             (case isSpecialized parent of
                None \<Rightarrow> None
              | Some b \<Rightarrow>
                  if \<not> b then Some nd
                  else
                    (case getUnspecialized parent of
                       None \<Rightarrow> None
                     | Some p \<Rightarrow> do {
                         c0 \<leftarrow> getFirstChild nd;
                         c2 \<leftarrow> (if getNumChildren nd = 3 then map_option (\<lambda>c. [c]) (getChild nd 2)
                               else Some []);
                         Some (Node K_Extension NoPayload ([c0, p] @ c2))
                       })))
      else None)"
  by pat_completeness auto
termination
proof (relation "measure size", goal_cases)
  case (3 nd unboundType nominalType b)
  then have "size nominalType < size unboundType" "size unboundType < size nd"
    by (auto dest: child_sizes)
  then show ?case by simp
qed (auto dest: child_sizes)

declare getUnspecialized.simps [simp del]

lemma isSpecialized_nominal:
  assumes "is_nominal (getKind nd)"
  shows "isSpecialized nd = getChild nd 0 \<bind> isSpecialized"
  using assms by (subst isSpecialized.simps)
    (auto simp: is_nominal_def is_bound_generic_def split: option.splits)

lemma size_two_children:
  "getChild nd 0 = Some c0 \<Longrightarrow> getChild nd 1 = Some c1 \<Longrightarrow> size c0 + size c1 + 2 < size nd"
  by (cases nd; cases "children nd"; cases "tl (children nd)")
    (auto simp: getChild_def bind_Some_iffs getNumChildren_def)

lemma size_three_children:
  "getChild nd 0 = Some c0 \<Longrightarrow> getChild nd 1 = Some c1 \<Longrightarrow> getChild nd 2 = Some c2 \<Longrightarrow>
   size c0 + size c1 + size c2 + 3 < size nd"
  by (cases nd; cases "children nd"; cases "tl (children nd)"; cases "tl (tl (children nd))")
    (auto simp: getChild_def bind_Some_iffs getNumChildren_def numeral_2_eq_2)

lemma getFirstChild_getChild: "getFirstChild nd = getChild nd 0"
  by (simp add: getFirstChild_def getChild_def Suc_le_eq)

text \<open>Unspecializing makes a tree smaller: it drops at least one node with generic arguments.\<close>

lemma getUnspecialized_size:
  "isSpecialized nd = Some True \<Longrightarrow> getUnspecialized nd = Some u \<Longrightarrow> size u < size nd"
proof (induction nd arbitrary: u rule: getUnspecialized.induct)
  case (1 nd)
  consider (nominal) "is_nominal (getKind nd)"
    | (bound) "\<not> is_nominal (getKind nd)" "is_bound_generic (getKind nd)"
    | (ext) "\<not> is_nominal (getKind nd)" "\<not> is_bound_generic (getKind nd)" "getKind nd = K_Extension"
    | (other) "\<not> is_nominal (getKind nd)" "\<not> is_bound_generic (getKind nd)" "getKind nd \<noteq> K_Extension"
    by blast
  then show ?case
  proof cases
    case nominal
    then obtain p where p0: "getChild nd 0 = Some p" "isSpecialized p = Some True"
      using "1.prems"(1) by (auto simp: isSpecialized_nominal [OF nominal] bind_Some_iffs)
    then obtain q c1 where p: "getChild nd 0 = Some p" "isSpecialized p = Some True"
      "getUnspecialized p = Some q" "getChild nd 1 = Some c1" "u = Node (getKind nd) NoPayload [q, c1]"
      using "1.prems"(2) nominal unfolding getUnspecialized.simps [of nd]
      by (simp add: bind_Some_iffs split: option.splits) blast
    have "size q < size p" by (rule "1.IH"(1) [OF nominal p(1,2) TrueI p(2,3)])
    with size_two_children [OF p(1,4)] p(5) show ?thesis by simp
  next
    case bound
    with "1.prems" obtain t n b where t: "getChild nd 0 = Some t" "getKind t = K_Type"
      "getChild t 0 = Some n" "isSpecialized n = Some b"
      "(if b then getUnspecialized n else Some n) = Some u"
      unfolding getUnspecialized.simps [of nd] by (simp split: option.splits if_splits)
    have "size u \<le> size n"
    proof (cases b)
      case True
      with t(4,5) have "size u < size n"
        using "1.IH"(2) [OF bound t(1) _ t(3,4) True] t(2) by auto
      then show ?thesis by simp
    qed (use t(5) in simp)
    with t(1,3) show ?thesis by (auto dest!: child_sizes)
  next
    case ext
    with "1.prems"(1) obtain p where p: "getChild nd 1 = Some p" "isSpecialized p = Some True"
      unfolding isSpecialized.simps [of nd] by (simp split: option.splits)
    with "1.prems"(2) ext obtain q c0 cs where q: "getUnspecialized p = Some q" "getFirstChild nd = Some c0"
      "(if getNumChildren nd = 3 then map_option (\<lambda>c. [c]) (getChild nd 2) else Some []) = Some cs"
      "u = Node K_Extension NoPayload ([c0, q] @ cs)"
      unfolding getUnspecialized.simps [of nd]
      by (simp add: bind_Some_iffs split: option.splits if_splits) blast+
    have "size q < size p"
      using "1.IH"(3) [OF ext p(1,2) _ p(2) q(1)] by simp
    with p(1) q(2-4) show ?thesis
      using size_two_children [of nd c0 p] size_three_children [of nd c0 p]
      by (auto simp: getFirstChild_getChild split: if_splits)
  next
    case other
    with "1.prems"(2) show ?thesis by (subst (asm) getUnspecialized.simps) simp
  qed
qed

end
