(* ===== verification/Remangler.thy ===== *)
theory Remangler
  imports Remangler_Core
begin

text \<open>
  The printing functions of \<open>class Remangler\<close> in \<open>lib/Demangling/Remangler.cpp\<close>, in the order
  of the source, and the entry point \<open>mangleNode\<close>. Every handler \<open>mangle<Kind>\<close> of the class has
  a definition of the same name; the overloads on \<open>Node *\<close> of \<open>mangleIdentifier\<close>,
  \<open>mangleIndex\<close> and \<open>mangleProtocolList\<close> have the suffix \<open>_node\<close>.

  \<open>mangle\<close> recurses on strictly smaller trees, so its fuel is the size of the tree.
\<close>

unbundle bit_operations_syntax

section \<open>Helpers\<close>

definition mangleIndex :: "nat \<Rightarrow> remangler \<Rightarrow> remangler" where
  "mangleIndex value M =
     (if value = 0 then emit ''_'' M else emit (decimal (value - 1) @ ''_'') M)"

fun mangleNodes :: "handler \<Rightarrow> node list \<Rightarrow> remangler \<Rightarrow> remangler option" where
  "mangleNodes rec [] M = Some M"
| "mangleNodes rec (nd # nds) M = do { M \<leftarrow> rec nd M; mangleNodes rec nds M }"

definition mangleChildNodes :: "handler \<Rightarrow> handler" where
  "mangleChildNodes rec nd M = mangleNodes rec (children nd) M"

definition mangleChildNodesReversed :: "handler \<Rightarrow> handler" where
  "mangleChildNodesReversed rec nd M = mangleNodes rec (rev (children nd)) M"

definition mangleListSeparator :: "bool \<Rightarrow> remangler \<Rightarrow> remangler" where
  "mangleListSeparator isFirstListItem M = (if isFirstListItem then emit ''_'' M else M)"

definition mangleEndOfList :: "bool \<Rightarrow> remangler \<Rightarrow> remangler" where
  "mangleEndOfList isFirstListItem M = (if isFirstListItem then emit ''y'' M else M)"

text \<open>The loop that mangles the items of a list, with the separator after the first.\<close>

fun mangle_items :: "handler \<Rightarrow> bool \<Rightarrow> node list \<Rightarrow> remangler \<Rightarrow> (bool \<times> remangler) option" where
  "mangle_items item FirstElem [] M = Some (FirstElem, M)"
| "mangle_items item FirstElem (nd # nds) M = do {
     M \<leftarrow> item nd M;
     mangle_items item False nds (mangleListSeparator FirstElem M)
   }"

definition mangleSingleChildNode :: "handler \<Rightarrow> handler" where
  "mangleSingleChildNode rec nd M = do {
     assert_that (getNumChildren nd = 1);
     rec (children nd ! 0) M
   }"

definition mangleChildNode :: "handler \<Rightarrow> node \<Rightarrow> nat \<Rightarrow> remangler \<Rightarrow> remangler option" where
  "mangleChildNode rec nd index M = do {
     assert_that (index < getNumChildren nd);
     rec (children nd ! index) M
   }"

definition manglePureProtocol :: "handler \<Rightarrow> handler" where
  "manglePureProtocol rec Proto M = do {
     Proto \<leftarrow> skipType Proto;
     mangleChildNodes rec Proto M
   }"

definition mangleFunctionSignature :: "handler \<Rightarrow> handler" where
  "mangleFunctionSignature rec FuncType M = mangleChildNodesReversed rec FuncType M"

section \<open>Substitutions\<close>

text \<open>The end of \<open>mangleStandardSubstitution\<close>: the letter of the standard type.\<close>

definition emit_standard :: "char \<Rightarrow> remangler \<Rightarrow> remangler option" where
  "emit_standard Subst M = do {
     (merged, M) \<leftarrow> tryMergeSubst Subst True M;
     Some (if merged then M else emit [CHR ''S'', Subst] M)
   }"

definition mangleStandardSubstitution :: "node \<Rightarrow> remangler \<Rightarrow> (bool \<times> remangler) option" where
  "mangleStandardSubstitution nd M =
     (if getKind nd \<noteq> K_Structure \<and> getKind nd \<noteq> K_Enum then Some (False, M)
      else do {
        context \<leftarrow> getFirstChild nd;
        std \<leftarrow> (if getKind context \<noteq> K_Module then Some False
               else map_option (\<lambda>t. t = ''Swift'') (getText context));
        if \<not> std then Some (False, M)
        else do {
          name \<leftarrow> getChild nd 1;
          if getKind name \<noteq> K_Identifier then Some (False, M)
          else do {
            t \<leftarrow> getText name;
            let Subst = getStandardTypeSubst t;
            if Subst \<noteq> CHR 0x00 then map_option (Pair True) (emit_standard Subst M)
            else Some (False, M)
          }
        }
      })"

text \<open>The second half of \<open>trySubstitution\<close>: the index of the entry found.\<close>

definition emit_substitution :: "nat \<Rightarrow> remangler \<Rightarrow> remangler option" where
  "emit_substitution Idx M =
     (if Idx \<ge> 26 then Some (mangleIndex (Idx - 26) (emit ''A'' M))
      else do {
        (merged, M) \<leftarrow> tryMergeSubst (upper_char Idx) False M;
        Some (if merged then M else emit [CHR ''A'', upper_char Idx] M)
      })"

text \<open>The entry, set on the way when the node is no standard type, is \<open>setNode node flag\<close>.\<close>

definition trySubstitution :: "node \<Rightarrow> bool \<Rightarrow> remangler \<Rightarrow> (bool \<times> remangler) option" where
  "trySubstitution nd as_ident M = do {
     (std, M) \<leftarrow> mangleStandardSubstitution nd M;
     if std then Some (True, M)
     else do {
       entry \<leftarrow> setNode nd as_ident;
       case find_entry 0 (RSubstitutions M) entry of
         None \<Rightarrow> Some (False, M)
       | Some Idx \<Rightarrow> map_option (Pair True) (emit_substitution Idx M)
     }
   }"

definition addSubstitution_entry :: "node \<Rightarrow> bool \<Rightarrow> remangler \<Rightarrow> remangler option" where
  "addSubstitution_entry nd as_ident M = do {
     entry \<leftarrow> setNode nd as_ident;
     assert_that (find_entry 0 (RSubstitutions M) entry = None);
     Some (M\<lparr>RSubstitutions := RSubstitutions M @ [entry]\<rparr>)
   }"

text \<open>The frame of the functions that return when a substitution applies.\<close>

definition with_substitution ::
  "node \<Rightarrow> bool \<Rightarrow> (remangler \<Rightarrow> remangler option) \<Rightarrow> remangler \<Rightarrow> remangler option" where
  "with_substitution nd as_ident body M = do {
     (found, M) \<leftarrow> trySubstitution nd as_ident M;
     if found then Some M
     else do { M \<leftarrow> body M; addSubstitution_entry nd as_ident M }
   }"

definition mangleIdentifierImpl :: "bool \<Rightarrow> handler" where
  "mangleIdentifierImpl isOperator nd =
     with_substitution nd True (\<lambda>M. do {
       t \<leftarrow> getText nd;
       mangleIdentifier (if isOperator then translateOperator t else t) M
     })"

definition mangleIdentifier_node :: handler where
  "mangleIdentifier_node nd M = mangleIdentifierImpl False nd M"

definition mangleDependentGenericParamIndex ::
  "node \<Rightarrow> string \<Rightarrow> char \<Rightarrow> remangler \<Rightarrow> remangler option" where
  "mangleDependentGenericParamIndex nd nonZeroPrefix zeroOp M = do {
     c0 \<leftarrow> getChild nd 0;
     depth \<leftarrow> getIndex c0;
     c1 \<leftarrow> getChild nd 1;
     index \<leftarrow> getIndex c1;
     if depth \<noteq> 0 then
       Some (mangleIndex index (mangleIndex (depth - 1) (emit (nonZeroPrefix @ ''d'') M)))
     else if index \<noteq> 0 then Some (mangleIndex (index - 1) (emit nonZeroPrefix M))
     else Some (emit [zeroOp] M)
   }"

text \<open>The member chain of a constrained type, innermost member first, and its base.\<close>

function member_chain :: "node list \<Rightarrow> node \<Rightarrow> (node list \<times> node) option" where
  "member_chain Chain nd =
     (if getKind nd = K_DependentMemberType then
        (case getChild nd 1 of
           None \<Rightarrow> None
         | Some c1 \<Rightarrow>
             (case getFirstChild nd of
                None \<Rightarrow> None
              | Some c0 \<Rightarrow>
                  (case getChildOfType c0 of
                     None \<Rightarrow> None
                   | Some Base \<Rightarrow> member_chain (c1 # Chain) Base)))
      else Some (Chain, nd))"
  by pat_completeness auto
termination
proof (relation "measure (\<lambda>(Chain, nd). size nd)", goal_cases)
  case (2 Chain nd c1 c0 Base)
  then have "size Base < size c0" "size c0 < size nd" by (auto dest: child_sizes)
  then show ?case by simp
qed simp

declare member_chain.simps [simp del]

text \<open>The pair returned by the source: \<open>None\<close> is \<open>{-1, nullptr}\<close>.\<close>

definition mangleConstrainedType ::
  "handler \<Rightarrow> node \<Rightarrow> remangler \<Rightarrow> ((nat \<times> node) option \<times> remangler) option" where
  "mangleConstrainedType rec nd M = do {
     nd \<leftarrow> (if getKind nd = K_Type then getChildOfType nd else Some nd);
     (found, M) \<leftarrow> trySubstitution nd False M;
     if found then Some (None, M)
     else do {
       (Chain, Base) \<leftarrow> member_chain [] nd;
       assert_that (getKind Base = K_DependentGenericParamType);
       M \<leftarrow> (case Chain of
               [] \<Rightarrow> Some M
             | c # cs \<Rightarrow> do {
                 M \<leftarrow> rec c M;
                 let M = (if cs \<noteq> [] then emit ''_'' M else M);
                 mangleNodes rec cs M
               });
       M \<leftarrow> (if Chain \<noteq> [] then addSubstitution_entry nd False M else Some M);
       Some (Some (length Chain, Base), M)
     }
   }"

definition mangleAnyGenericType :: "handler \<Rightarrow> char \<Rightarrow> handler" where
  "mangleAnyGenericType rec TypeOp nd =
     with_substitution nd False (\<lambda>M. do {
       M \<leftarrow> mangleChildNodes rec nd M;
       Some (emit [TypeOp] M)
     })"

text \<open>The separator is passed by reference: the function returns its new value.\<close>

function mangleGenericArgs :: "handler \<Rightarrow> node \<Rightarrow> char \<Rightarrow> remangler \<Rightarrow> (char \<times> remangler) option" where
  "mangleGenericArgs rec nd Separator M =
     (if is_nominal (getKind nd) then
        (case getChild nd 0 of
           None \<Rightarrow> None
         | Some c0 \<Rightarrow> do {
             (Separator, M) \<leftarrow> mangleGenericArgs rec c0 Separator M;
             Some (CHR ''_'', emit [Separator] M)
           })
      else if is_bound_generic (getKind nd) then
        (case getChild nd 0 of
           None \<Rightarrow> None
         | Some unboundType \<Rightarrow>
             if getKind unboundType \<noteq> K_Type then None
             else
               (case getChild unboundType 0 of
                  None \<Rightarrow> None
                | Some nominalType \<Rightarrow>
                    (case getChild nominalType 0 of
                       None \<Rightarrow> None
                     | Some parentOrModule \<Rightarrow> do {
                         (Separator, M) \<leftarrow> mangleGenericArgs rec parentOrModule Separator M;
                         let M = emit [Separator] M;
                         c1 \<leftarrow> getChild nd 1;
                         M \<leftarrow> mangleChildNodes rec c1 M;
                         Some (CHR ''_'', M)
                       })))
      else if getKind nd = K_Extension then
        (case getChild nd 1 of
           None \<Rightarrow> None
         | Some c1 \<Rightarrow> mangleGenericArgs rec c1 Separator M)
      else Some (Separator, M))"
  by pat_completeness auto
termination
proof (relation "measure (\<lambda>(rec, nd, _). size nd)", goal_cases)
  case (3 rec nd Separator M t n p)
  then have "size p < size n" "size n < size t" "size t < size nd" by (auto dest: child_sizes)
  then show ?case by simp
qed (auto dest: child_sizes)

declare mangleGenericArgs.simps [simp del]

function mangleAnyNominalType :: "handler \<Rightarrow> handler" where
  "mangleAnyNominalType rec nd M =
     (case isSpecialized nd of
        None \<Rightarrow> None
      | Some True \<Rightarrow>
          (case trySubstitution nd False M of
             None \<Rightarrow> None
           | Some (True, M) \<Rightarrow> Some M
           | Some (False, M) \<Rightarrow>
               (case getUnspecialized nd of
                  None \<Rightarrow> None
                | Some unboundType \<Rightarrow> do {
                    M \<leftarrow> mangleAnyNominalType rec unboundType M;
                    (_, M) \<leftarrow> mangleGenericArgs rec nd (CHR ''y'') M;
                    let M = emit ''G'' M;
                    addSubstitution_entry nd False M
                  }))
      | Some False \<Rightarrow>
          if getKind nd = K_Structure then mangleAnyGenericType rec (CHR ''V'') nd M
          else if getKind nd = K_Enum then mangleAnyGenericType rec (CHR ''O'') nd M
          else if getKind nd = K_Class then mangleAnyGenericType rec (CHR ''C'') nd M
          else None)"
  by pat_completeness auto
termination
  by (relation "measure (\<lambda>(rec, nd, M). size nd)") (auto dest: getUnspecialized_size)

declare mangleAnyNominalType.simps [simp del]

definition mangleAbstractStorage :: "handler \<Rightarrow> string \<Rightarrow> handler" where
  "mangleAbstractStorage rec accessorCode nd M = do {
     M \<leftarrow> mangleChildNodes rec nd M;
     M \<leftarrow> (if getKind nd = K_Subscript then Some (emit ''i'' M)
           else if getKind nd = K_Variable then Some (emit ''v'' M)
           else None);
     Some (emit accessorCode M)
   }"

definition mangleAnyConstructor :: "handler \<Rightarrow> char \<Rightarrow> handler" where
  "mangleAnyConstructor rec kindOp nd M = do {
     M \<leftarrow> mangleChildNodes rec nd M;
     Some (emit [CHR ''f'', kindOp] M)
   }"

section \<open>Handlers\<close>

definition mangleTypeList :: "handler \<Rightarrow> handler" where
  "mangleTypeList rec nd M = do {
     (FirstElem, M) \<leftarrow> mangle_items rec True (children nd) M;
     Some (mangleEndOfList FirstElem M)
   }"

text \<open>The requirements are mangled on the way; the result is \<open>ParamCountEnd\<close>.\<close>

fun signature_requirements ::
  "handler \<Rightarrow> nat \<Rightarrow> nat \<Rightarrow> node list \<Rightarrow> remangler \<Rightarrow> (nat \<times> remangler) option" where
  "signature_requirements rec Idx ParamCountEnd [] M = Some (ParamCountEnd, M)"
| "signature_requirements rec Idx ParamCountEnd (Child # cs) M =
     (if getKind Child = K_DependentGenericParamCount
      then signature_requirements rec (Suc Idx) (Idx + 1) cs M
      else do {
        M \<leftarrow> rec Child M;
        signature_requirements rec (Suc Idx) ParamCountEnd cs M
      })"

fun signature_counts :: "node list \<Rightarrow> remangler \<Rightarrow> remangler option" where
  "signature_counts [] M = Some M"
| "signature_counts (Count # cs) M = do {
     i \<leftarrow> getIndex Count;
     signature_counts cs (if i > 0 then mangleIndex (i - 1) M else emit ''z'' M)
   }"

definition mangleDependentGenericSignature :: "handler \<Rightarrow> handler" where
  "mangleDependentGenericSignature rec nd M = do {
     (ParamCountEnd, M) \<leftarrow> signature_requirements rec 0 0 (children nd) M;
     single \<leftarrow> (if ParamCountEnd = 1 then do {
                 c0 \<leftarrow> getChild nd 0;
                 i \<leftarrow> getIndex c0;
                 Some (i = 1)
               } else Some False);
     if single then Some (emit ''l'' M)
     else do {
       M \<leftarrow> signature_counts (take ParamCountEnd (children nd)) (emit ''r'' M);
       Some (emit ''l'' M)
     }
   }"

definition mangleType :: "handler \<Rightarrow> handler" where
  "mangleType rec nd M = mangleSingleChildNode rec nd M"

definition mangleProtocolConformance :: "handler \<Rightarrow> handler" where
  "mangleProtocolConformance rec nd M = do {
     c0 \<leftarrow> getChild nd 0;
     Ty \<leftarrow> getChildOfType c0;
     (GenSig, Ty) \<leftarrow> (if getKind Ty = K_DependentGenericType then do {
                        g \<leftarrow> getFirstChild Ty;
                        t \<leftarrow> getChild Ty 1;
                        Some (Some g, t)
                      } else Some (None, Ty));
     M \<leftarrow> rec Ty M;
     M \<leftarrow> (if getNumChildren nd = 4 then mangleChildNode rec nd 3 M else Some M);
     c1 \<leftarrow> getChild nd 1;
     M \<leftarrow> manglePureProtocol rec c1 M;
     M \<leftarrow> mangleChildNode rec nd 2 M;
     case GenSig of None \<Rightarrow> Some M | Some g \<Rightarrow> rec g M
   }"

definition mangleNumber :: "handler \<Rightarrow> handler" where
  "mangleNumber rec nd M = do { i \<leftarrow> getIndex nd; Some (mangleIndex i M) }"

definition mangleAllocator :: "handler \<Rightarrow> handler" where
  "mangleAllocator rec nd M = mangleAnyConstructor rec (CHR ''C'') nd M"

definition mangleArgumentTuple :: "handler \<Rightarrow> handler" where
  "mangleArgumentTuple rec nd M = do {
     c \<leftarrow> getSingleChild nd;
     Child \<leftarrow> skipType c;
     if getKind Child = K_Tuple \<and> getNumChildren Child = 0 then Some (emit ''y'' M)
     else rec Child M
   }"

definition mangleAssociatedType :: "handler \<Rightarrow> handler" where
  "mangleAssociatedType rec nd M = None"

definition mangleAssociatedTypeRef :: "handler \<Rightarrow> handler" where
  "mangleAssociatedTypeRef rec nd =
     with_substitution nd False (\<lambda>M. do {
       M \<leftarrow> mangleChildNodes rec nd M;
       Some (emit ''Qa'' M)
     })"

definition mangleAssociatedTypeMetadataAccessor :: "handler \<Rightarrow> handler" where
  "mangleAssociatedTypeMetadataAccessor rec nd M = do {
     M \<leftarrow> mangleChildNodes rec nd M;
     Some (emit ''Wt'' M)
   }"

definition mangleAssociatedTypeWitnessTableAccessor :: "handler \<Rightarrow> handler" where
  "mangleAssociatedTypeWitnessTableAccessor rec nd M = do {
     M \<leftarrow> mangleChildNodes rec nd M;
     Some (emit ''WT'' M)
   }"

definition mangleAutoClosureType :: "handler \<Rightarrow> handler" where
  "mangleAutoClosureType rec nd M = do {
     M \<leftarrow> mangleChildNodesReversed rec nd M;
     Some (emit ''XK'' M)
   }"

definition mangleBoundGenericClass :: "handler \<Rightarrow> handler" where
  "mangleBoundGenericClass rec nd M = mangleAnyNominalType rec nd M"

definition mangleBoundGenericEnum :: "handler \<Rightarrow> handler" where
  "mangleBoundGenericEnum rec nd M = do {
     c0 \<leftarrow> getChild nd 0;
     Enum \<leftarrow> getChild c0 0;
     assert_that (getKind Enum = K_Enum);
     Mod \<leftarrow> getChild Enum 0;
     Id \<leftarrow> getChild Enum 1;
     optional \<leftarrow>
       (if getKind Mod \<noteq> K_Module then Some False
        else do {
          m \<leftarrow> getText Mod;
          if m \<noteq> ''Swift'' then Some False
          else if getKind Id \<noteq> K_Identifier then Some False
          else map_option (\<lambda>t. t = ''Optional'') (getText Id)
        });
     if optional then
       with_substitution nd False (\<lambda>M. do {
         c1 \<leftarrow> getChild nd 1;
         M \<leftarrow> mangleSingleChildNode rec c1 M;
         Some (emit ''Sg'' M)
       }) M
     else mangleAnyNominalType rec nd M
   }"

definition mangleBoundGenericStructure :: "handler \<Rightarrow> handler" where
  "mangleBoundGenericStructure rec nd M = mangleAnyNominalType rec nd M"

definition stripPrefix :: "string \<Rightarrow> string \<Rightarrow> string option" where
  "stripPrefix data str = (if take (length data) str = data then Some (drop (length data) str) else None)"

definition mangle_builtin_vector :: "string \<Rightarrow> remangler \<Rightarrow> remangler option" where
  "mangle_builtin_vector text M = do {
     let first = takeWhile (\<lambda>c. c \<noteq> CHR ''x'') text;
     let second = tl (dropWhile (\<lambda>c. c \<noteq> CHR ''x'') text);
     M \<leftarrow> (if second = ''RawPointer'' then Some (emit ''p'' M)
           else case stripPrefix ''Float'' second of
             Some s \<Rightarrow> Some (emit (''f'' @ s @ ''_'') M)
           | None \<Rightarrow>
               (case stripPrefix ''Int'' second of
                  Some s \<Rightarrow> Some (emit (''i'' @ s @ ''_'') M)
                | None \<Rightarrow> None));
     Some (emit (''Bv'' @ first @ ''_'') M)
   }"

definition mangleBuiltinTypeName :: "handler \<Rightarrow> handler" where
  "mangleBuiltinTypeName rec nd M = do {
     let M = emit ''B'' M;
     text \<leftarrow> getText nd;
     if text = ''Builtin.BridgeObject'' then Some (emit ''b'' M)
     else if text = ''Builtin.UnsafeValueBuffer'' then Some (emit ''B'' M)
     else if text = ''Builtin.UnknownObject'' then Some (emit ''O'' M)
     else if text = ''Builtin.NativeObject'' then Some (emit ''o'' M)
     else if text = ''Builtin.RawPointer'' then Some (emit ''p'' M)
     else if text = ''Builtin.SILToken'' then Some (emit ''t'' M)
     else if text = ''Builtin.Word'' then Some (emit ''w'' M)
     else case stripPrefix ''Builtin.Int'' text of
       Some s \<Rightarrow> Some (emit (''i'' @ s @ ''_'') M)
     | None \<Rightarrow>
         (case stripPrefix ''Builtin.Float'' text of
            Some s \<Rightarrow> Some (emit (''f'' @ s @ ''_'') M)
          | None \<Rightarrow>
              (case stripPrefix ''Builtin.Vec'' text of
                 Some s \<Rightarrow> mangle_builtin_vector s M
               | None \<Rightarrow> None))
   }"

definition mangleCFunctionPointer :: "handler \<Rightarrow> handler" where
  "mangleCFunctionPointer rec nd M = do {
     M \<leftarrow> mangleChildNodesReversed rec nd M;
     Some (emit ''XC'' M)
   }"

definition mangleClass :: "handler \<Rightarrow> handler" where
  "mangleClass rec nd M = mangleAnyNominalType rec nd M"

definition mangleConstructor :: "handler \<Rightarrow> handler" where
  "mangleConstructor rec nd M = mangleAnyConstructor rec (CHR ''c'') nd M"

definition mangleCoroutineContinuationPrototype :: "handler \<Rightarrow> handler" where
  "mangleCoroutineContinuationPrototype rec nd M = do {
     M \<leftarrow> mangleChildNodes rec nd M;
     Some (emit ''TC'' M)
   }"

definition mangleDeallocator :: "handler \<Rightarrow> handler" where
  "mangleDeallocator rec nd M = do {
     M \<leftarrow> mangleChildNodes rec nd M;
     Some (emit ''fD'' M)
   }"

definition mangleDeclContext :: "handler \<Rightarrow> handler" where
  "mangleDeclContext rec nd M = mangleSingleChildNode rec nd M"

definition mangleDefaultArgumentInitializer :: "handler \<Rightarrow> handler" where
  "mangleDefaultArgumentInitializer rec nd M = do {
     M \<leftarrow> mangleChildNode rec nd 0 M;
     let M = emit ''fA'' M;
     mangleChildNode rec nd 1 M
   }"

definition mangleDependentAssociatedTypeRef :: "handler \<Rightarrow> handler" where
  "mangleDependentAssociatedTypeRef rec nd M = do {
     M \<leftarrow> mangleIdentifier_node nd M;
     if getNumChildren nd \<noteq> 0 then mangleSingleChildNode rec nd M else Some M
   }"

text \<open>
  The operator of a requirement by the number of members (substitution, none, one, more), followed
  by the index of the generic parameter unless a substitution applied.
\<close>

definition mangle_requirement_op ::
  "string \<Rightarrow> string \<Rightarrow> string \<Rightarrow> string \<Rightarrow> (nat \<times> node) option \<Rightarrow> remangler \<Rightarrow> remangler option" where
  "mangle_requirement_op sub zero one many NumMembersAndParamIdx M =
     (case NumMembersAndParamIdx of
        None \<Rightarrow> Some (emit sub M)
      | Some (n, ParamIdx) \<Rightarrow>
          mangleDependentGenericParamIndex ParamIdx [] (CHR ''z'')
            (emit (if n = 0 then zero else if n = 1 then one else many) M))"

definition mangleDependentGenericConformanceRequirement :: "handler \<Rightarrow> handler" where
  "mangleDependentGenericConformanceRequirement rec nd M = do {
     ProtoOrClass \<leftarrow> getChild nd 1;
     c \<leftarrow> getFirstChild ProtoOrClass;
     if getKind c = K_Protocol then do {
       M \<leftarrow> manglePureProtocol rec ProtoOrClass M;
       c0 \<leftarrow> getChild nd 0;
       (r, M) \<leftarrow> mangleConstrainedType rec c0 M;
       mangle_requirement_op ''RQ'' ''R'' ''Rp'' ''RP'' r M
     }
     else do {
       M \<leftarrow> rec ProtoOrClass M;
       c0 \<leftarrow> getChild nd 0;
       (r, M) \<leftarrow> mangleConstrainedType rec c0 M;
       mangle_requirement_op ''RB'' ''Rb'' ''Rc'' ''RC'' r M
     }
   }"

definition mangleDependentGenericParamCount :: "handler \<Rightarrow> handler" where
  "mangleDependentGenericParamCount rec nd M = None"

definition mangleDependentGenericParamType :: "handler \<Rightarrow> handler" where
  "mangleDependentGenericParamType rec nd M = do {
     c0 \<leftarrow> getChild nd 0;
     depth \<leftarrow> getIndex c0;
     first \<leftarrow> (if depth = 0 then do {
                c1 \<leftarrow> getChild nd 1;
                index \<leftarrow> getIndex c1;
                Some (index = 0)
              } else Some False);
     if first then Some (emit ''x'' M)
     else mangleDependentGenericParamIndex nd [] (CHR ''z'') (emit ''q'' M)
   }"

definition mangleDependentGenericSameTypeRequirement :: "handler \<Rightarrow> handler" where
  "mangleDependentGenericSameTypeRequirement rec nd M = do {
     M \<leftarrow> mangleChildNode rec nd 1 M;
     c0 \<leftarrow> getChild nd 0;
     (r, M) \<leftarrow> mangleConstrainedType rec c0 M;
     mangle_requirement_op ''RS'' ''Rs'' ''Rt'' ''RT'' r M
   }"

definition mangleDependentGenericLayoutRequirement :: "handler \<Rightarrow> handler" where
  "mangleDependentGenericLayoutRequirement rec nd M = do {
     c0 \<leftarrow> getChild nd 0;
     (r, M) \<leftarrow> mangleConstrainedType rec c0 M;
     M \<leftarrow> mangle_requirement_op ''RL'' ''Rl'' ''Rm'' ''RM'' r M;
     c1 \<leftarrow> getChild nd 1;
     assert_that (getKind c1 = K_Identifier);
     t \<leftarrow> getText c1;
     assert_that (length t = 1);
     let M = emit [t ! 0] M;
     M \<leftarrow> (if getNumChildren nd \<ge> 3 then mangleChildNode rec nd 2 M else Some M);
     if getNumChildren nd \<ge> 4 then mangleChildNode rec nd 3 M else Some M
   }"

definition mangleDependentGenericType :: "handler \<Rightarrow> handler" where
  "mangleDependentGenericType rec nd M = do {
     M \<leftarrow> mangleChildNodesReversed rec nd M;
     Some (emit ''u'' M)
   }"

definition mangleDependentMemberType :: "handler \<Rightarrow> handler" where
  "mangleDependentMemberType rec nd M = do {
     (r, M) \<leftarrow> mangleConstrainedType rec nd M;
     case r of
       None \<Rightarrow> Some M
     | Some (n, ParamIdx) \<Rightarrow>
         if n = 0 then None
         else if n = 1
         then mangleDependentGenericParamIndex ParamIdx ''y'' (CHR ''z'') (emit ''Q'' M)
         else mangleDependentGenericParamIndex ParamIdx ''Y'' (CHR ''Z'') (emit ''Q'' M)
   }"

definition mangleDependentPseudogenericSignature :: "handler \<Rightarrow> handler" where
  "mangleDependentPseudogenericSignature rec nd M = None"

definition mangleDestructor :: "handler \<Rightarrow> handler" where
  "mangleDestructor rec nd M = do {
     M \<leftarrow> mangleChildNodes rec nd M;
     Some (emit ''fd'' M)
   }"

definition mangleDidSet :: "handler \<Rightarrow> handler" where
  "mangleDidSet rec nd M = getFirstChild nd \<bind> (\<lambda>c. mangleAbstractStorage rec ''W'' c M)"

definition mangleDirectness :: "handler \<Rightarrow> handler" where
  "mangleDirectness rec nd M = do {
     i \<leftarrow> getIndex nd;
     if i = 0 then Some (emit ''d'' M)
     else do { assert_that (i = 1); Some (emit ''i'' M) }
   }"

definition mangleDynamicAttribute :: "handler \<Rightarrow> handler" where
  "mangleDynamicAttribute rec nd M = Some (emit ''TD'' M)"

definition mangleDirectMethodReferenceAttribute :: "handler \<Rightarrow> handler" where
  "mangleDirectMethodReferenceAttribute rec nd M = Some (emit ''Td'' M)"

definition mangleDynamicSelf :: "handler \<Rightarrow> handler" where
  "mangleDynamicSelf rec nd M = do {
     M \<leftarrow> mangleSingleChildNode rec nd M;
     Some (emit ''XD'' M)
   }"

definition mangleEnum :: "handler \<Rightarrow> handler" where
  "mangleEnum rec nd M = mangleAnyNominalType rec nd M"

definition mangleErrorType :: "handler \<Rightarrow> handler" where
  "mangleErrorType rec nd M = Some (emit ''Xe'' M)"

definition mangleExistentialMetatype :: "handler \<Rightarrow> handler" where
  "mangleExistentialMetatype rec nd M = do {
     c \<leftarrow> getFirstChild nd;
     if getKind c = K_MetatypeRepresentation then do {
       M \<leftarrow> mangleChildNode rec nd 1 M;
       mangleChildNode rec nd 0 (emit ''Xm'' M)
     }
     else do {
       M \<leftarrow> mangleSingleChildNode rec nd M;
       Some (emit ''Xp'' M)
     }
   }"

definition mangleExplicitClosure :: "handler \<Rightarrow> handler" where
  "mangleExplicitClosure rec nd M = do {
     M \<leftarrow> mangleChildNode rec nd 0 M;
     M \<leftarrow> mangleChildNode rec nd 2 M;
     let M = emit ''fU'' M;
     mangleChildNode rec nd 1 M
   }"

definition mangleExtension :: "handler \<Rightarrow> handler" where
  "mangleExtension rec nd M = do {
     M \<leftarrow> mangleChildNode rec nd 1 M;
     M \<leftarrow> mangleChildNode rec nd 0 M;
     M \<leftarrow> (if getNumChildren nd = 3 then mangleChildNode rec nd 2 M else Some M);
     Some (emit ''E'' M)
   }"

definition mangleFieldOffset :: "handler \<Rightarrow> handler" where
  "mangleFieldOffset rec nd M = do {
     M \<leftarrow> mangleChildNode rec nd 1 M;
     let M = emit ''Wv'' M;
     mangleChildNode rec nd 0 M
   }"

definition mangleFullTypeMetadata :: "handler \<Rightarrow> handler" where
  "mangleFullTypeMetadata rec nd M = do {
     M \<leftarrow> mangleSingleChildNode rec nd M;
     Some (emit ''Mf'' M)
   }"

definition mangleFunction :: "handler \<Rightarrow> handler" where
  "mangleFunction rec nd M = do {
     M \<leftarrow> mangleChildNode rec nd 0 M;
     M \<leftarrow> mangleChildNode rec nd 1 M;
     c2 \<leftarrow> getChild nd 2;
     let hasLabels = (getKind c2 = K_LabelList);
     ty \<leftarrow> getChild nd (if hasLabels then 3 else 2);
     FuncType \<leftarrow> getSingleChild ty;
     M \<leftarrow> (if hasLabels then mangleChildNode rec nd 2 M else Some M);
     M \<leftarrow> (if getKind FuncType = K_DependentGenericType then do {
             t \<leftarrow> getChild FuncType 1;
             f \<leftarrow> getSingleChild t;
             M \<leftarrow> mangleFunctionSignature rec f M;
             mangleChildNode rec FuncType 0 M
           }
           else mangleFunctionSignature rec FuncType M);
     Some (emit ''F'' M)
   }"

text \<open>The identifiers and types that one parameter of a specialization refers to.\<close>

definition mangle_spec_param_args :: "handler \<Rightarrow> handler" where
  "mangle_spec_param_args rec Param M =
     (if getKind Param = K_FunctionSignatureSpecializationParam \<and> getNumChildren Param > 0 then do {
        KindNd \<leftarrow> getChild Param 0;
        i \<leftarrow> getIndex KindNd;
        let k = i mod 4294967296;
        if k = ConstantPropFunction \<or> k = ConstantPropGlobal then do {
          c1 \<leftarrow> getChild Param 1;
          mangleIdentifier_node c1 M
        }
        else if k = ConstantPropString then do {
          TextNd \<leftarrow> getChild Param 2;
          t \<leftarrow> getText TextNd;
          mangleIdentifier_node
            (if t \<noteq> [] \<and> (isDigit (hd t) \<or> hd t = CHR ''_'')
             then createNodeText K_Identifier (CHR ''_'' # t) else TextNd) M
        }
        else if k = ClosureProp then do {
          c1 \<leftarrow> getChild Param 1;
          M \<leftarrow> mangleIdentifier_node c1 M;
          mangleNodes (mangleType rec) (drop 2 (children Param)) M
        }
        else Some M
      }
      else Some M)"

fun mangle_spec_children ::
  "handler \<Rightarrow> node \<Rightarrow> bool \<Rightarrow> node list \<Rightarrow> remangler \<Rightarrow> (bool \<times> remangler) option" where
  "mangle_spec_children rec nd returnValMangled [] M = Some (returnValMangled, M)"
| "mangle_spec_children rec nd returnValMangled (Child # cs) M = do {
     ret \<leftarrow> (if getKind Child = K_FunctionSignatureSpecializationParam
            then map_option (\<lambda>i. i = 18446744073709551615) (getIndex Child) else Some False);
     let M = (if ret then emit ''_'' M else M);
     M \<leftarrow> rec Child M;
     let M = (case getIndex nd of
                Some i \<Rightarrow> if getKind Child = K_SpecializationPassID then emit (decimal i) M else M
              | None \<Rightarrow> M);
     mangle_spec_children rec nd (returnValMangled \<or> ret) cs M
   }"

definition mangleFunctionSignatureSpecialization :: "handler \<Rightarrow> handler" where
  "mangleFunctionSignatureSpecialization rec nd M = do {
     M \<leftarrow> mangleNodes (mangle_spec_param_args rec) (children nd) M;
     (returnValMangled, M) \<leftarrow> mangle_spec_children rec nd False (children nd) (emit ''Tf'' M);
     Some (if \<not> returnValMangled then emit ''_n'' M else M)
   }"

definition spec_param_flags :: "nat \<Rightarrow> string" where
  "spec_param_flags kindValue =
     (if kindValue AND Dead \<noteq> 0
      then ''d'' @ (if kindValue AND OwnedToGuaranteed \<noteq> 0 then ''G'' else [])
      else if kindValue AND OwnedToGuaranteed \<noteq> 0 then ''g'' else [])
     @ (if kindValue AND SROA \<noteq> 0 then ''X'' else [])"

definition mangleFunctionSignatureSpecializationParam :: "handler \<Rightarrow> handler" where
  "mangleFunctionSignatureSpecializationParam rec nd M =
     (if \<not> hasChildren nd then Some (emit ''n'' M)
      else do {
        KindNd \<leftarrow> getChild nd 0;
        i \<leftarrow> getIndex KindNd;
        let kindValue = i mod 4294967296;
        if kindValue = ConstantPropFunction then Some (emit ''pf'' M)
        else if kindValue = ConstantPropGlobal then Some (emit ''pg'' M)
        else if kindValue = ConstantPropInteger then do {
          c1 \<leftarrow> getChild nd 1;
          t \<leftarrow> getText c1;
          Some (emit (''pi'' @ t) M)
        }
        else if kindValue = ConstantPropFloat then do {
          c1 \<leftarrow> getChild nd 1;
          t \<leftarrow> getText c1;
          Some (emit (''pd'' @ t) M)
        }
        else if kindValue = ConstantPropString then do {
          let M = emit ''ps'' M;
          c1 \<leftarrow> getChild nd 1;
          encodingStr \<leftarrow> getText c1;
          if encodingStr = ''u8'' then Some (emit ''b'' M)
          else if encodingStr = ''u16'' then Some (emit ''w'' M)
          else if encodingStr = ''objc'' then Some (emit ''c'' M)
          else None
        }
        else if kindValue = ClosureProp then Some (emit ''c'' M)
        else if kindValue = BoxToValue then Some (emit ''i'' M)
        else if kindValue = BoxToStack then Some (emit ''s'' M)
        else if kindValue = SROA then Some (emit ''x'' M)
        else Some (emit (spec_param_flags kindValue) M)
      })"

definition mangleFunctionSignatureSpecializationParamKind :: "handler \<Rightarrow> handler" where
  "mangleFunctionSignatureSpecializationParamKind rec nd M = None"

definition mangleFunctionSignatureSpecializationParamPayload :: "handler \<Rightarrow> handler" where
  "mangleFunctionSignatureSpecializationParamPayload rec nd M = None"

definition mangleFunctionType :: "handler \<Rightarrow> handler" where
  "mangleFunctionType rec nd M = do {
     M \<leftarrow> mangleFunctionSignature rec nd M;
     Some (emit ''c'' M)
   }"

definition mangleGenericProtocolWitnessTable :: "handler \<Rightarrow> handler" where
  "mangleGenericProtocolWitnessTable rec nd M = do {
     M \<leftarrow> mangleSingleChildNode rec nd M;
     Some (emit ''WG'' M)
   }"

definition mangleGenericProtocolWitnessTableInstantiationFunction :: "handler \<Rightarrow> handler" where
  "mangleGenericProtocolWitnessTableInstantiationFunction rec nd M = do {
     M \<leftarrow> mangleSingleChildNode rec nd M;
     Some (emit ''WI'' M)
   }"

definition mangleGenericPartialSpecialization :: "handler \<Rightarrow> handler" where
  "mangleGenericPartialSpecialization rec nd M = do {
     M \<leftarrow> (case filter (\<lambda>c. getKind c = K_GenericSpecializationParam) (children nd) of
             [] \<Rightarrow> Some M
           | Child # _ \<Rightarrow> mangleChildNode rec Child 0 M);
     let M = emit (if getKind nd = K_GenericPartialSpecializationNotReAbstracted
                   then ''TP'' else ''Tp'') M;
     mangleNodes rec (filter (\<lambda>c. getKind c \<noteq> K_GenericSpecializationParam) (children nd)) M
   }"

definition mangleGenericPartialSpecializationNotReAbstracted :: "handler \<Rightarrow> handler" where
  "mangleGenericPartialSpecializationNotReAbstracted rec nd M = mangleGenericPartialSpecialization rec nd M"

definition mangleGenericSpecialization :: "handler \<Rightarrow> handler" where
  "mangleGenericSpecialization rec nd M = do {
     (FirstParam, M) \<leftarrow> mangle_items (\<lambda>Child. mangleChildNode rec Child 0) True
       (filter (\<lambda>c. getKind c = K_GenericSpecializationParam) (children nd)) M;
     assert_that (\<not> FirstParam);
     let M = emit (if getKind nd = K_GenericSpecializationNotReAbstracted then ''TG'' else ''Tg'') M;
     mangleNodes rec (filter (\<lambda>c. getKind c \<noteq> K_GenericSpecializationParam) (children nd)) M
   }"

definition mangleGenericSpecializationNotReAbstracted :: "handler \<Rightarrow> handler" where
  "mangleGenericSpecializationNotReAbstracted rec nd M = mangleGenericSpecialization rec nd M"

definition mangleGenericSpecializationParam :: "handler \<Rightarrow> handler" where
  "mangleGenericSpecializationParam rec nd M = None"

definition mangleGenericTypeMetadataPattern :: "handler \<Rightarrow> handler" where
  "mangleGenericTypeMetadataPattern rec nd M = do {
     M \<leftarrow> mangleSingleChildNode rec nd M;
     Some (emit ''MP'' M)
   }"

definition mangleGenericTypeParamDecl :: "handler \<Rightarrow> handler" where
  "mangleGenericTypeParamDecl rec nd M = do {
     M \<leftarrow> mangleChildNodes rec nd M;
     Some (emit ''fp'' M)
   }"

definition mangleGetter :: "handler \<Rightarrow> handler" where
  "mangleGetter rec nd M = getFirstChild nd \<bind> (\<lambda>c. mangleAbstractStorage rec ''g'' c M)"

definition mangled_after_entity :: "node_kind \<Rightarrow> bool" where
  "mangled_after_entity kind \<longleftrightarrow> kind \<in> set
     [K_FunctionSignatureSpecialization, K_GenericSpecialization,
      K_GenericSpecializationNotReAbstracted, K_GenericPartialSpecialization,
      K_GenericPartialSpecializationNotReAbstracted, K_OutlinedBridgedMethod, K_OutlinedVariable,
      K_ObjCAttribute, K_NonObjCAttribute, K_DynamicAttribute, K_VTableAttribute,
      K_DirectMethodReferenceAttribute, K_MergedFunction]"

text \<open>The children before the current one are kept in reverse order.\<close>

fun global_children ::
  "handler \<Rightarrow> node list \<Rightarrow> bool \<Rightarrow> node list \<Rightarrow> remangler \<Rightarrow> remangler option" where
  "global_children rec earlier mangleInReverseOrder [] M = Some M"
| "global_children rec earlier mangleInReverseOrder (Child # cs) M =
     (if mangled_after_entity (getKind Child) then global_children rec (Child # earlier) True cs M
      else do {
        M \<leftarrow> rec Child M;
        M \<leftarrow> (if mangleInReverseOrder then mangleNodes rec earlier M else Some M);
        global_children rec (Child # earlier) False cs M
      })"

definition mangleGlobal :: "handler \<Rightarrow> handler" where
  "mangleGlobal rec nd M = global_children rec [] False (children nd) (emit ''$S'' M)"

definition mangleGlobalGetter :: "handler \<Rightarrow> handler" where
  "mangleGlobalGetter rec nd M = getFirstChild nd \<bind> (\<lambda>c. mangleAbstractStorage rec ''G'' c M)"

definition mangleIdentifier_handler :: "handler \<Rightarrow> handler" where
  "mangleIdentifier_handler rec nd M = mangleIdentifierImpl False nd M"

definition mangleIndex_node :: "handler \<Rightarrow> handler" where
  "mangleIndex_node rec nd M = None"

definition mangleIVarInitializer :: "handler \<Rightarrow> handler" where
  "mangleIVarInitializer rec nd M = do {
     M \<leftarrow> mangleSingleChildNode rec nd M;
     Some (emit ''fe'' M)
   }"

definition mangleIVarDestroyer :: "handler \<Rightarrow> handler" where
  "mangleIVarDestroyer rec nd M = do {
     M \<leftarrow> mangleSingleChildNode rec nd M;
     Some (emit ''fE'' M)
   }"

definition mangleImplEscaping :: "handler \<Rightarrow> handler" where
  "mangleImplEscaping rec nd M = Some (emit ''e'' M)"

definition mangleImplConvention :: "handler \<Rightarrow> handler" where
  "mangleImplConvention rec nd M = do {
     t \<leftarrow> getText nd;
     ConvCh \<leftarrow> map_of [(''@callee_unowned'', CHR ''y''), (''@callee_guaranteed'', CHR ''g''),
                      (''@callee_owned'', CHR ''x'')] t;
     Some (emit [ConvCh] M)
   }"

definition mangleImplFunctionAttribute :: "handler \<Rightarrow> handler" where
  "mangleImplFunctionAttribute rec nd M = None"

text \<open>First pass: the types of parameters and results; second pass: the convention letters.\<close>

definition mangle_impl_type :: "handler \<Rightarrow> handler" where
  "mangle_impl_type rec Child M =
     (if getKind Child \<in> set [K_ImplParameter, K_ImplResult, K_ImplErrorResult]
      then mangleChildNode rec Child 1 M else Some M)"

definition is_signature :: "node \<Rightarrow> bool" where
  "is_signature Child \<longleftrightarrow>
     getKind Child \<in> set [K_DependentPseudogenericSignature, K_DependentGenericSignature]"

definition conv_letter :: "(string \<times> char) list \<Rightarrow> node \<Rightarrow> remangler \<Rightarrow> remangler option" where
  "conv_letter table nd M = do {
     t \<leftarrow> getText nd;
     ch \<leftarrow> map_of table t;
     Some (emit [ch] M)
   }"

definition mangle_impl_letter :: handler where
  "mangle_impl_letter Child M =
     (if getKind Child = K_ImplEscaping then Some (emit ''e'' M)
      else if getKind Child = K_ImplConvention then
        conv_letter [(''@callee_unowned'', CHR ''y''), (''@callee_guaranteed'', CHR ''g''),
          (''@callee_owned'', CHR ''x''), (''@convention(thin)'', CHR ''t'')] Child M
      else if getKind Child = K_ImplFunctionAttribute then
        conv_letter [(''@convention(block)'', CHR ''B''), (''@convention(c)'', CHR ''C''),
          (''@convention(method)'', CHR ''M''), (''@convention(objc_method)'', CHR ''O''),
          (''@convention(closure)'', CHR ''K''), (''@convention(witness_method)'', CHR ''W'')] Child M
      else if getKind Child = K_ImplParameter then do {
        c \<leftarrow> getFirstChild Child;
        conv_letter [(''@in'', CHR ''i''), (''@inout'', CHR ''l''), (''@inout_aliasable'', CHR ''b''),
          (''@in_guaranteed'', CHR ''n''), (''@in_constant'', CHR ''c''), (''@owned'', CHR ''x''),
          (''@guaranteed'', CHR ''g''), (''@deallocating'', CHR ''e''), (''@unowned'', CHR ''y'')] c M
      }
      else if getKind Child = K_ImplErrorResult \<or> getKind Child = K_ImplResult then do {
        let M = (if getKind Child = K_ImplErrorResult then emit ''z'' M else M);
        c \<leftarrow> getFirstChild Child;
        conv_letter [(''@out'', CHR ''r''), (''@owned'', CHR ''o''), (''@unowned'', CHR ''d''),
          (''@unowned_inner_pointer'', CHR ''u''), (''@autoreleased'', CHR ''a'')] c M
      }
      else Some M)"

definition mangleImplFunctionType :: "handler \<Rightarrow> handler" where
  "mangleImplFunctionType rec nd M = do {
     M \<leftarrow> mangleNodes (mangle_impl_type rec) (children nd) M;
     let sigs = filter is_signature (children nd);
     M \<leftarrow> (if sigs \<noteq> [] then rec (last sigs) M else Some M);
     let M = emit ''I'' M;
     let M = (if list_ex (\<lambda>c. getKind c = K_DependentPseudogenericSignature) (children nd)
              then emit ''P'' M else M);
     M \<leftarrow> mangleNodes mangle_impl_letter (children nd) M;
     Some (emit ''_'' M)
   }"

definition mangleImplicitClosure :: "handler \<Rightarrow> handler" where
  "mangleImplicitClosure rec nd M = do {
     M \<leftarrow> mangleChildNode rec nd 0 M;
     M \<leftarrow> mangleChildNode rec nd 2 M;
     let M = emit ''fu'' M;
     mangleChildNode rec nd 1 M
   }"

definition mangleImplParameter :: "handler \<Rightarrow> handler" where
  "mangleImplParameter rec nd M = None"

definition mangleImplResult :: "handler \<Rightarrow> handler" where
  "mangleImplResult rec nd M = None"

definition mangleImplErrorResult :: "handler \<Rightarrow> handler" where
  "mangleImplErrorResult rec nd M = None"

definition mangleInOut :: "handler \<Rightarrow> handler" where
  "mangleInOut rec nd M = do {
     M \<leftarrow> mangleSingleChildNode rec nd M;
     Some (emit ''z'' M)
   }"

definition mangleShared :: "handler \<Rightarrow> handler" where
  "mangleShared rec nd M = do {
     M \<leftarrow> mangleSingleChildNode rec nd M;
     Some (emit ''h'' M)
   }"

definition mangleInfixOperator :: "handler \<Rightarrow> handler" where
  "mangleInfixOperator rec nd M = do {
     M \<leftarrow> mangleIdentifierImpl True nd M;
     Some (emit ''oi'' M)
   }"

definition mangleInitializer :: "handler \<Rightarrow> handler" where
  "mangleInitializer rec nd M = do {
     M \<leftarrow> mangleChildNodes rec nd M;
     Some (emit ''fi'' M)
   }"

definition mangleLazyProtocolWitnessTableAccessor :: "handler \<Rightarrow> handler" where
  "mangleLazyProtocolWitnessTableAccessor rec nd M = do {
     M \<leftarrow> mangleChildNodes rec nd M;
     Some (emit ''Wl'' M)
   }"

definition mangleLazyProtocolWitnessTableCacheVariable :: "handler \<Rightarrow> handler" where
  "mangleLazyProtocolWitnessTableCacheVariable rec nd M = do {
     M \<leftarrow> mangleChildNodes rec nd M;
     Some (emit ''WL'' M)
   }"

definition mangleLocalDeclName :: "handler \<Rightarrow> handler" where
  "mangleLocalDeclName rec nd M = do {
     M \<leftarrow> mangleChildNode rec nd 1 M;
     let M = emit ''L'' M;
     mangleChildNode rec nd 0 M
   }"

definition mangleMaterializeForSet :: "handler \<Rightarrow> handler" where
  "mangleMaterializeForSet rec nd M = getFirstChild nd \<bind> (\<lambda>c. mangleAbstractStorage rec ''m'' c M)"

definition mangleMetatype :: "handler \<Rightarrow> handler" where
  "mangleMetatype rec nd M = do {
     c \<leftarrow> getFirstChild nd;
     if getKind c = K_MetatypeRepresentation then do {
       M \<leftarrow> mangleChildNode rec nd 1 M;
       mangleChildNode rec nd 0 (emit ''XM'' M)
     }
     else do {
       M \<leftarrow> mangleSingleChildNode rec nd M;
       Some (emit ''m'' M)
     }
   }"

definition mangleMetatypeRepresentation :: "handler \<Rightarrow> handler" where
  "mangleMetatypeRepresentation rec nd M = do {
     t \<leftarrow> getText nd;
     if t = ''@thin'' then Some (emit ''t'' M)
     else if t = ''@thick'' then Some (emit ''T'' M)
     else if t = ''@objc_metatype'' then Some (emit ''o'' M)
     else None
   }"

definition mangleMetaclass :: "handler \<Rightarrow> handler" where
  "mangleMetaclass rec nd M = do {
     M \<leftarrow> mangleChildNodes rec nd M;
     Some (emit ''Mm'' M)
   }"

definition mangleModule :: "handler \<Rightarrow> handler" where
  "mangleModule rec nd M = do {
     t \<leftarrow> getText nd;
     if t = ''Swift'' then Some (emit ''s'' M)
     else if t = ''__C'' then Some (emit ''So'' M)
     else if t = ''__C_Synthesized'' then Some (emit ''SC'' M)
     else mangleIdentifier_node nd M
   }"

definition mangleNativeOwningAddressor :: "handler \<Rightarrow> handler" where
  "mangleNativeOwningAddressor rec nd M = getFirstChild nd \<bind> (\<lambda>c. mangleAbstractStorage rec ''lo'' c M)"

definition mangleNativeOwningMutableAddressor :: "handler \<Rightarrow> handler" where
  "mangleNativeOwningMutableAddressor rec nd M = getFirstChild nd \<bind> (\<lambda>c. mangleAbstractStorage rec ''ao'' c M)"

definition mangleNativePinningAddressor :: "handler \<Rightarrow> handler" where
  "mangleNativePinningAddressor rec nd M = getFirstChild nd \<bind> (\<lambda>c. mangleAbstractStorage rec ''lp'' c M)"

definition mangleNativePinningMutableAddressor :: "handler \<Rightarrow> handler" where
  "mangleNativePinningMutableAddressor rec nd M = getFirstChild nd \<bind> (\<lambda>c. mangleAbstractStorage rec ''aP'' c M)"

definition mangleClassMetadataBaseOffset :: "handler \<Rightarrow> handler" where
  "mangleClassMetadataBaseOffset rec nd M = do {
     M \<leftarrow> mangleSingleChildNode rec nd M;
     Some (emit ''Mo'' M)
   }"

definition mangleNominalTypeDescriptor :: "handler \<Rightarrow> handler" where
  "mangleNominalTypeDescriptor rec nd M = do {
     M \<leftarrow> mangleSingleChildNode rec nd M;
     Some (emit ''Mn'' M)
   }"

definition mangleNonObjCAttribute :: "handler \<Rightarrow> handler" where
  "mangleNonObjCAttribute rec nd M = Some (emit ''TO'' M)"

definition mangleTuple :: "handler \<Rightarrow> handler" where
  "mangleTuple rec nd M = do { M \<leftarrow> mangleTypeList rec nd M; Some (emit ''t'' M) }"

definition mangleObjCAttribute :: "handler \<Rightarrow> handler" where
  "mangleObjCAttribute rec nd M = Some (emit ''To'' M)"

definition mangleObjCBlock :: "handler \<Rightarrow> handler" where
  "mangleObjCBlock rec nd M = do {
     M \<leftarrow> mangleChildNodesReversed rec nd M;
     Some (emit ''XB'' M)
   }"

definition mangleOwningAddressor :: "handler \<Rightarrow> handler" where
  "mangleOwningAddressor rec nd M = getFirstChild nd \<bind> (\<lambda>c. mangleAbstractStorage rec ''lO'' c M)"

definition mangleOwningMutableAddressor :: "handler \<Rightarrow> handler" where
  "mangleOwningMutableAddressor rec nd M = getFirstChild nd \<bind> (\<lambda>c. mangleAbstractStorage rec ''aO'' c M)"

definition manglePartialApplyForwarder :: "handler \<Rightarrow> handler" where
  "manglePartialApplyForwarder rec nd M = do {
     M \<leftarrow> mangleChildNodesReversed rec nd M;
     Some (emit ''TA'' M)
   }"

definition manglePartialApplyObjCForwarder :: "handler \<Rightarrow> handler" where
  "manglePartialApplyObjCForwarder rec nd M = do {
     M \<leftarrow> mangleChildNodesReversed rec nd M;
     Some (emit ''Ta'' M)
   }"

definition mangleMergedFunction :: "handler \<Rightarrow> handler" where
  "mangleMergedFunction rec nd M = Some (emit ''Tm'' M)"

definition manglePostfixOperator :: "handler \<Rightarrow> handler" where
  "manglePostfixOperator rec nd M = do {
     M \<leftarrow> mangleIdentifierImpl True nd M;
     Some (emit ''oP'' M)
   }"

definition manglePrefixOperator :: "handler \<Rightarrow> handler" where
  "manglePrefixOperator rec nd M = do {
     M \<leftarrow> mangleIdentifierImpl True nd M;
     Some (emit ''op'' M)
   }"

definition manglePrivateDeclName :: "handler \<Rightarrow> handler" where
  "manglePrivateDeclName rec nd M = do {
     M \<leftarrow> mangleChildNodesReversed rec nd M;
     Some (emit (if getNumChildren nd = 1 then ''Ll'' else ''LL'') M)
   }"

definition mangleProtocol :: "handler \<Rightarrow> handler" where
  "mangleProtocol rec nd M = mangleAnyGenericType rec (CHR ''P'') nd M"

definition mangleProtocolDescriptor :: "handler \<Rightarrow> handler" where
  "mangleProtocolDescriptor rec nd M = do {
     c \<leftarrow> getSingleChild nd;
     M \<leftarrow> manglePureProtocol rec c M;
     Some (emit ''Mp'' M)
   }"

definition mangleProtocolConformanceDescriptor :: "handler \<Rightarrow> handler" where
  "mangleProtocolConformanceDescriptor rec nd M = do {
     c \<leftarrow> getChild nd 0;
     M \<leftarrow> mangleProtocolConformance rec c M;
     Some (emit ''Mc'' M)
   }"

definition mangleProtocolList ::
  "handler \<Rightarrow> node \<Rightarrow> node option \<Rightarrow> bool \<Rightarrow> remangler \<Rightarrow> remangler option" where
  "mangleProtocolList rec nd superclass hasExplicitAnyObject M = do {
     protocols \<leftarrow> getSingleChild_kind nd K_TypeList;
     (FirstElem, M) \<leftarrow> mangle_items (manglePureProtocol rec) True (children protocols) M;
     let M = mangleEndOfList FirstElem M;
     case superclass of
       Some s \<Rightarrow> do { M \<leftarrow> mangleType rec s M; Some (emit ''Xc'' M) }
     | None \<Rightarrow> Some (emit (if hasExplicitAnyObject then ''Xl'' else ''p'') M)
   }"

definition mangleProtocolList_node :: "handler \<Rightarrow> handler" where
  "mangleProtocolList_node rec nd M = mangleProtocolList rec nd None False M"

definition mangleProtocolListWithClass :: "handler \<Rightarrow> handler" where
  "mangleProtocolListWithClass rec nd M = do {
     c0 \<leftarrow> getChild nd 0;
     c1 \<leftarrow> getChild nd 1;
     mangleProtocolList rec c0 (Some c1) False M
   }"

definition mangleProtocolListWithAnyObject :: "handler \<Rightarrow> handler" where
  "mangleProtocolListWithAnyObject rec nd M = do {
     c0 \<leftarrow> getChild nd 0;
     mangleProtocolList rec c0 None True M
   }"

definition mangleProtocolWitness :: "handler \<Rightarrow> handler" where
  "mangleProtocolWitness rec nd M = do {
     M \<leftarrow> mangleChildNodes rec nd M;
     Some (emit ''TW'' M)
   }"

definition mangleProtocolWitnessTable :: "handler \<Rightarrow> handler" where
  "mangleProtocolWitnessTable rec nd M = do {
     M \<leftarrow> mangleSingleChildNode rec nd M;
     Some (emit ''WP'' M)
   }"

definition mangleProtocolWitnessTableAccessor :: "handler \<Rightarrow> handler" where
  "mangleProtocolWitnessTableAccessor rec nd M = do {
     M \<leftarrow> mangleSingleChildNode rec nd M;
     Some (emit ''Wa'' M)
   }"

definition mangleQualifiedArchetype :: "handler \<Rightarrow> handler" where
  "mangleQualifiedArchetype rec nd M = do {
     M \<leftarrow> mangleChildNode rec nd 1 M;
     let M = emit ''Qq'' M;
     c \<leftarrow> getFirstChild nd;
     mangleNumber rec c M
   }"

text \<open>The two thunk kinds differ in the operator only.\<close>

definition mangle_thunk_types :: "handler \<Rightarrow> handler" where
  "mangle_thunk_types rec nd M =
     (if getNumChildren nd = 3 then do {
        M \<leftarrow> mangleChildNode rec nd 1 M;
        M \<leftarrow> mangleChildNode rec nd 2 M;
        mangleChildNode rec nd 0 M
      }
      else mangleChildNodes rec nd M)"

definition mangleReabstractionThunk :: "handler \<Rightarrow> handler" where
  "mangleReabstractionThunk rec nd M = do {
     M \<leftarrow> mangle_thunk_types rec nd M;
     Some (emit ''Tr'' M)
   }"

definition mangleReabstractionThunkHelper :: "handler \<Rightarrow> handler" where
  "mangleReabstractionThunkHelper rec nd M = do {
     M \<leftarrow> mangle_thunk_types rec nd M;
     Some (emit ''TR'' M)
   }"

definition mangleKeyPathGetterThunkHelper :: "handler \<Rightarrow> handler" where
  "mangleKeyPathGetterThunkHelper rec nd M = do {
     M \<leftarrow> mangleChildNodes rec nd M;
     Some (emit ''TK'' M)
   }"

definition mangleKeyPathSetterThunkHelper :: "handler \<Rightarrow> handler" where
  "mangleKeyPathSetterThunkHelper rec nd M = do {
     M \<leftarrow> mangleChildNodes rec nd M;
     Some (emit ''Tk'' M)
   }"

definition mangleKeyPathEqualsThunkHelper :: "handler \<Rightarrow> handler" where
  "mangleKeyPathEqualsThunkHelper rec nd M = do {
     M \<leftarrow> mangleChildNodes rec nd M;
     Some (emit ''TH'' M)
   }"

definition mangleKeyPathHashThunkHelper :: "handler \<Rightarrow> handler" where
  "mangleKeyPathHashThunkHelper rec nd M = do {
     M \<leftarrow> mangleChildNodes rec nd M;
     Some (emit ''Th'' M)
   }"

definition mangleReturnType :: "handler \<Rightarrow> handler" where
  "mangleReturnType rec nd M = mangleArgumentTuple rec nd M"

definition mangleSILBoxType :: "handler \<Rightarrow> handler" where
  "mangleSILBoxType rec nd M = do {
     M \<leftarrow> mangleSingleChildNode rec nd M;
     Some (emit ''Xb'' M)
   }"

definition mangleSetter :: "handler \<Rightarrow> handler" where
  "mangleSetter rec nd M = getFirstChild nd \<bind> (\<lambda>c. mangleAbstractStorage rec ''s'' c M)"

definition mangleSpecializationPassID :: "handler \<Rightarrow> handler" where
  "mangleSpecializationPassID rec nd M = do { i \<leftarrow> getIndex nd; Some (emit (decimal i) M) }"

definition mangleSpecializationIsFragile :: "handler \<Rightarrow> handler" where
  "mangleSpecializationIsFragile rec nd M = Some (emit ''q'' M)"

definition mangleStatic :: "handler \<Rightarrow> handler" where
  "mangleStatic rec nd M = do {
     M \<leftarrow> mangleSingleChildNode rec nd M;
     Some (emit ''Z'' M)
   }"

definition mangleStructure :: "handler \<Rightarrow> handler" where
  "mangleStructure rec nd M = mangleAnyNominalType rec nd M"

definition mangleSubscript :: "handler \<Rightarrow> handler" where
  "mangleSubscript rec nd M = mangleAbstractStorage rec ''p'' nd M"

definition mangleSuffix :: "handler \<Rightarrow> handler" where
  "mangleSuffix rec nd M = do { t \<leftarrow> getText nd; Some (emit t M) }"

definition mangleThinFunctionType :: "handler \<Rightarrow> handler" where
  "mangleThinFunctionType rec nd M = do {
     M \<leftarrow> mangleFunctionSignature rec nd M;
     Some (emit ''Xf'' M)
   }"

definition mangleTupleElement :: "handler \<Rightarrow> handler" where
  "mangleTupleElement rec nd M = mangleChildNodesReversed rec nd M"

definition mangleTupleElementName :: "handler \<Rightarrow> handler" where
  "mangleTupleElementName rec nd M = mangleIdentifier_node nd M"

definition mangleTypeAlias :: "handler \<Rightarrow> handler" where
  "mangleTypeAlias rec nd M = mangleAnyGenericType rec (CHR ''a'') nd M"

definition mangleLabelList :: "handler \<Rightarrow> handler" where
  "mangleLabelList rec nd M =
     (if getNumChildren nd = 0 then Some (emit ''y'' M) else mangleChildNodes rec nd M)"

definition mangleTypeMangling :: "handler \<Rightarrow> handler" where
  "mangleTypeMangling rec nd M = do {
     M \<leftarrow> mangleChildNodes rec nd M;
     Some (emit ''D'' M)
   }"

definition mangleTypeMetadata :: "handler \<Rightarrow> handler" where
  "mangleTypeMetadata rec nd M = do {
     M \<leftarrow> mangleSingleChildNode rec nd M;
     Some (emit ''N'' M)
   }"

definition mangleTypeMetadataAccessFunction :: "handler \<Rightarrow> handler" where
  "mangleTypeMetadataAccessFunction rec nd M = do {
     M \<leftarrow> mangleSingleChildNode rec nd M;
     Some (emit ''Ma'' M)
   }"

definition mangleTypeMetadataLazyCache :: "handler \<Rightarrow> handler" where
  "mangleTypeMetadataLazyCache rec nd M = do {
     M \<leftarrow> mangleChildNodes rec nd M;
     Some (emit ''ML'' M)
   }"

definition mangleUncurriedFunctionType :: "handler \<Rightarrow> handler" where
  "mangleUncurriedFunctionType rec nd M = do {
     M \<leftarrow> mangleFunctionSignature rec nd M;
     Some (emit ''c'' M)
   }"

definition mangleUnmanaged :: "handler \<Rightarrow> handler" where
  "mangleUnmanaged rec nd M = do {
     M \<leftarrow> mangleSingleChildNode rec nd M;
     Some (emit ''Xu'' M)
   }"

definition mangleUnowned :: "handler \<Rightarrow> handler" where
  "mangleUnowned rec nd M = do {
     M \<leftarrow> mangleSingleChildNode rec nd M;
     Some (emit ''Xo'' M)
   }"

definition mangleUnsafeAddressor :: "handler \<Rightarrow> handler" where
  "mangleUnsafeAddressor rec nd M = getFirstChild nd \<bind> (\<lambda>c. mangleAbstractStorage rec ''lu'' c M)"

definition mangleUnsafeMutableAddressor :: "handler \<Rightarrow> handler" where
  "mangleUnsafeMutableAddressor rec nd M = getFirstChild nd \<bind> (\<lambda>c. mangleAbstractStorage rec ''au'' c M)"

definition mangleValueWitness :: "handler \<Rightarrow> handler" where
  "mangleValueWitness rec nd M = do {
     M \<leftarrow> mangleSingleChildNode rec nd M;
     index \<leftarrow> getIndex nd;
     let i = index mod 4294967296;
     assert_that (i < length value_witness_codes);
     Some (emit (''w'' @ value_witness_codes ! i) M)
   }"

definition mangleValueWitnessTable :: "handler \<Rightarrow> handler" where
  "mangleValueWitnessTable rec nd M = do {
     M \<leftarrow> mangleSingleChildNode rec nd M;
     Some (emit ''WV'' M)
   }"

definition mangleVariable :: "handler \<Rightarrow> handler" where
  "mangleVariable rec nd M = mangleAbstractStorage rec ''p'' nd M"

definition mangleVTableAttribute :: "handler \<Rightarrow> handler" where
  "mangleVTableAttribute rec nd M = None"

definition mangleVTableThunk :: "handler \<Rightarrow> handler" where
  "mangleVTableThunk rec nd M = do {
     M \<leftarrow> mangleChildNodes rec nd M;
     Some (emit ''TV'' M)
   }"

definition mangleWeak :: "handler \<Rightarrow> handler" where
  "mangleWeak rec nd M = do {
     M \<leftarrow> mangleSingleChildNode rec nd M;
     Some (emit ''Xw'' M)
   }"

definition mangleWillSet :: "handler \<Rightarrow> handler" where
  "mangleWillSet rec nd M = getFirstChild nd \<bind> (\<lambda>c. mangleAbstractStorage rec ''w'' c M)"

definition mangleReflectionMetadataBuiltinDescriptor :: "handler \<Rightarrow> handler" where
  "mangleReflectionMetadataBuiltinDescriptor rec nd M = do {
     M \<leftarrow> mangleSingleChildNode rec nd M;
     Some (emit ''MB'' M)
   }"

definition mangleReflectionMetadataFieldDescriptor :: "handler \<Rightarrow> handler" where
  "mangleReflectionMetadataFieldDescriptor rec nd M = do {
     M \<leftarrow> mangleSingleChildNode rec nd M;
     Some (emit ''MF'' M)
   }"

definition mangleReflectionMetadataAssocTypeDescriptor :: "handler \<Rightarrow> handler" where
  "mangleReflectionMetadataAssocTypeDescriptor rec nd M = do {
     M \<leftarrow> mangleSingleChildNode rec nd M;
     Some (emit ''MA'' M)
   }"

definition mangleReflectionMetadataSuperclassDescriptor :: "handler \<Rightarrow> handler" where
  "mangleReflectionMetadataSuperclassDescriptor rec nd M = do {
     M \<leftarrow> mangleSingleChildNode rec nd M;
     Some (emit ''MC'' M)
   }"

definition mangleCurryThunk :: "handler \<Rightarrow> handler" where
  "mangleCurryThunk rec nd M = do {
     M \<leftarrow> mangleSingleChildNode rec nd M;
     Some (emit ''Tc'' M)
   }"

definition mangleDispatchThunk :: "handler \<Rightarrow> handler" where
  "mangleDispatchThunk rec nd M = do {
     M \<leftarrow> mangleSingleChildNode rec nd M;
     Some (emit ''Tj'' M)
   }"

definition mangleThrowsAnnotation :: "handler \<Rightarrow> handler" where
  "mangleThrowsAnnotation rec nd M = Some (emit ''K'' M)"

definition mangleEmptyList :: "handler \<Rightarrow> handler" where
  "mangleEmptyList rec nd M = Some (emit ''y'' M)"

definition mangleFirstElementMarker :: "handler \<Rightarrow> handler" where
  "mangleFirstElementMarker rec nd M = Some (emit ''_'' M)"

definition mangleVariadicMarker :: "handler \<Rightarrow> handler" where
  "mangleVariadicMarker rec nd M = Some (emit ''d'' M)"

definition mangleOutlinedCopy :: "handler \<Rightarrow> handler" where
  "mangleOutlinedCopy rec nd M = do {
     M \<leftarrow> mangleSingleChildNode rec nd M;
     Some (emit ''Wy'' M)
   }"

definition mangleOutlinedConsume :: "handler \<Rightarrow> handler" where
  "mangleOutlinedConsume rec nd M = do {
     M \<leftarrow> mangleSingleChildNode rec nd M;
     Some (emit ''We'' M)
   }"

definition mangleOutlinedRetain :: "handler \<Rightarrow> handler" where
  "mangleOutlinedRetain rec nd M = do {
     M \<leftarrow> mangleSingleChildNode rec nd M;
     Some (emit ''Wr'' M)
   }"

definition mangleOutlinedRelease :: "handler \<Rightarrow> handler" where
  "mangleOutlinedRelease rec nd M = do {
     M \<leftarrow> mangleSingleChildNode rec nd M;
     Some (emit ''Ws'' M)
   }"

definition mangleOutlinedInitializeWithTake :: "handler \<Rightarrow> handler" where
  "mangleOutlinedInitializeWithTake rec nd M = do {
     M \<leftarrow> mangleChildNode rec nd 0 M;
     let M = emit ''Wb'' M;
     mangleChildNode rec nd 1 M
   }"

definition mangleOutlinedInitializeWithCopy :: "handler \<Rightarrow> handler" where
  "mangleOutlinedInitializeWithCopy rec nd M = do {
     M \<leftarrow> mangleChildNode rec nd 0 M;
     let M = emit ''Wc'' M;
     mangleChildNode rec nd 1 M
   }"

definition mangleOutlinedAssignWithTake :: "handler \<Rightarrow> handler" where
  "mangleOutlinedAssignWithTake rec nd M = do {
     M \<leftarrow> mangleChildNode rec nd 0 M;
     let M = emit ''Wd'' M;
     mangleChildNode rec nd 1 M
   }"

definition mangleOutlinedAssignWithCopy :: "handler \<Rightarrow> handler" where
  "mangleOutlinedAssignWithCopy rec nd M = do {
     M \<leftarrow> mangleChildNode rec nd 0 M;
     let M = emit ''Wf'' M;
     mangleChildNode rec nd 1 M
   }"

definition mangleOutlinedDestroy :: "handler \<Rightarrow> handler" where
  "mangleOutlinedDestroy rec nd M = do {
     M \<leftarrow> mangleChildNode rec nd 0 M;
     let M = emit ''Wh'' M;
     mangleChildNode rec nd 1 M
   }"

definition mangleOutlinedVariable :: "handler \<Rightarrow> handler" where
  "mangleOutlinedVariable rec nd M = do {
     let M = emit ''Tv'' M;
     i \<leftarrow> getIndex nd;
     Some (mangleIndex i M)
   }"

definition mangleOutlinedBridgedMethod :: "handler \<Rightarrow> handler" where
  "mangleOutlinedBridgedMethod rec nd M = do {
     t \<leftarrow> getText nd;
     Some (emit (''Te'' @ t @ ''_'') M)
   }"

definition layout_field_type :: "node \<Rightarrow> node option" where
  "layout_field_type field = do {
     assert_that (getKind field = K_SILBoxImmutableField \<or> getKind field = K_SILBoxMutableField);
     assert_that (getNumChildren field = 1);
     fieldType \<leftarrow> getChild field 0;
     assert_that (getKind fieldType = K_Type);
     if getKind field = K_SILBoxMutableField then do {
       c \<leftarrow> getChild fieldType 0;
       Some (Node K_Type NoPayload [Node K_InOut NoPayload [c]])
     }
     else Some fieldType
   }"

fun layout_field_types :: "node list \<Rightarrow> node list option" where
  "layout_field_types [] = Some []"
| "layout_field_types (f # fs) = do {
     t \<leftarrow> layout_field_type f;
     ts \<leftarrow> layout_field_types fs;
     Some (t # ts)
   }"

definition mangleSILBoxTypeWithLayout :: "handler \<Rightarrow> handler" where
  "mangleSILBoxTypeWithLayout rec nd M = do {
     assert_that (getNumChildren nd = 1 \<or> getNumChildren nd = 3);
     layout \<leftarrow> getChild nd 0;
     assert_that (getKind layout = K_SILBoxLayout);
     ts \<leftarrow> layout_field_types (children layout);
     M \<leftarrow> mangleTypeList rec (Node K_TypeList NoPayload ts) M;
     if getNumChildren nd = 3 then do {
       signature \<leftarrow> getChild nd 1;
       genericArgs \<leftarrow> getChild nd 2;
       assert_that (getKind signature = K_DependentGenericSignature);
       assert_that (getKind genericArgs = K_TypeList);
       M \<leftarrow> mangleTypeList rec genericArgs M;
       M \<leftarrow> mangleDependentGenericSignature rec signature M;
       Some (emit ''XX'' M)
     }
     else Some (emit ''Xx'' M)
   }"

definition mangleSILBoxLayout :: "handler \<Rightarrow> handler" where
  "mangleSILBoxLayout rec nd M = None"

definition mangleSILBoxMutableField :: "handler \<Rightarrow> handler" where
  "mangleSILBoxMutableField rec nd M = None"

definition mangleSILBoxImmutableField :: "handler \<Rightarrow> handler" where
  "mangleSILBoxImmutableField rec nd M = None"

definition mangleAssocTypePath :: "handler \<Rightarrow> handler" where
  "mangleAssocTypePath rec nd M = do {
     (_, M) \<leftarrow> mangle_items rec True (children nd) M;
     Some M
   }"

section \<open>Dispatch\<close>

text \<open>The handlers in the order of \<open>DemangleNodes.def\<close>, which is the order of the enumerators.\<close>

definition handlers :: "handler \<Rightarrow> handler list" where
  "handlers rec =
    [mangleAllocator rec, mangleArgumentTuple rec, mangleAssociatedType rec,
     mangleAssociatedTypeRef rec, mangleAssociatedTypeMetadataAccessor rec,
     mangleAssociatedTypeWitnessTableAccessor rec, mangleAutoClosureType rec,
     mangleBoundGenericClass rec, mangleBoundGenericEnum rec, mangleBoundGenericStructure rec,
     mangleBuiltinTypeName rec, mangleCFunctionPointer rec, mangleClass rec,
     mangleClassMetadataBaseOffset rec, mangleConstructor rec,
     mangleCoroutineContinuationPrototype rec, mangleDeallocator rec, mangleDeclContext rec,
     mangleDefaultArgumentInitializer rec, mangleDependentAssociatedTypeRef rec,
     mangleDependentGenericConformanceRequirement rec, mangleDependentGenericParamCount rec,
     mangleDependentGenericParamType rec, mangleDependentGenericSameTypeRequirement rec,
     mangleDependentGenericLayoutRequirement rec, mangleDependentGenericSignature rec,
     mangleDependentGenericType rec, mangleDependentMemberType rec,
     mangleDependentPseudogenericSignature rec, mangleDestructor rec, mangleDidSet rec,
     mangleDirectness rec, mangleDynamicAttribute rec, mangleDirectMethodReferenceAttribute rec,
     mangleDynamicSelf rec, mangleEnum rec, mangleErrorType rec, mangleExistentialMetatype rec,
     mangleExplicitClosure rec, mangleExtension rec, mangleFieldOffset rec,
     mangleFullTypeMetadata rec, mangleFunction rec, mangleFunctionSignatureSpecialization rec,
     mangleFunctionSignatureSpecializationParam rec,
     mangleFunctionSignatureSpecializationParamKind rec,
     mangleFunctionSignatureSpecializationParamPayload rec, mangleFunctionType rec,
     mangleGenericPartialSpecialization rec,
     mangleGenericPartialSpecializationNotReAbstracted rec,
     mangleGenericProtocolWitnessTable rec,
     mangleGenericProtocolWitnessTableInstantiationFunction rec,
     mangleGenericSpecialization rec, mangleGenericSpecializationNotReAbstracted rec,
     mangleGenericSpecializationParam rec, mangleGenericTypeMetadataPattern rec,
     mangleGetter rec, mangleGlobal rec, mangleGlobalGetter rec, mangleIdentifier_handler rec,
     mangleIndex_node rec, mangleIVarInitializer rec, mangleIVarDestroyer rec,
     mangleImplEscaping rec, mangleImplConvention rec, mangleImplFunctionAttribute rec,
     mangleImplFunctionType rec, mangleImplicitClosure rec, mangleImplParameter rec,
     mangleImplResult rec, mangleImplErrorResult rec, mangleInOut rec, mangleInfixOperator rec,
     mangleInitializer rec, mangleKeyPathGetterThunkHelper rec,
     mangleKeyPathSetterThunkHelper rec, mangleKeyPathEqualsThunkHelper rec,
     mangleKeyPathHashThunkHelper rec, mangleLazyProtocolWitnessTableAccessor rec,
     mangleLazyProtocolWitnessTableCacheVariable rec, mangleLocalDeclName rec,
     mangleMaterializeForSet rec, mangleMergedFunction rec, mangleMetatype rec,
     mangleMetatypeRepresentation rec, mangleMetaclass rec, mangleModule rec,
     mangleNativeOwningAddressor rec, mangleNativeOwningMutableAddressor rec,
     mangleNativePinningAddressor rec, mangleNativePinningMutableAddressor rec,
     mangleNominalTypeDescriptor rec, mangleNonObjCAttribute rec, mangleNumber rec,
     mangleObjCAttribute rec, mangleObjCBlock rec, mangleOwningAddressor rec,
     mangleOwningMutableAddressor rec, manglePartialApplyForwarder rec,
     manglePartialApplyObjCForwarder rec, manglePostfixOperator rec, manglePrefixOperator rec,
     manglePrivateDeclName rec, mangleProtocol rec, mangleProtocolConformance rec,
     mangleProtocolDescriptor rec, mangleProtocolConformanceDescriptor rec,
     mangleProtocolList_node rec, mangleProtocolListWithClass rec,
     mangleProtocolListWithAnyObject rec, mangleProtocolWitness rec,
     mangleProtocolWitnessTable rec, mangleProtocolWitnessTableAccessor rec,
     mangleQualifiedArchetype rec, mangleReabstractionThunk rec,
     mangleReabstractionThunkHelper rec, mangleReturnType rec, mangleShared rec,
     mangleSILBoxType rec, mangleSILBoxTypeWithLayout rec, mangleSILBoxLayout rec,
     mangleSILBoxMutableField rec, mangleSILBoxImmutableField rec, mangleSetter rec,
     mangleSpecializationPassID rec, mangleSpecializationIsFragile rec, mangleStatic rec,
     mangleStructure rec, mangleSubscript rec, mangleSuffix rec, mangleThinFunctionType rec,
     mangleTuple rec, mangleTupleElement rec, mangleTupleElementName rec, mangleType rec,
     mangleTypeAlias rec, mangleTypeList rec, mangleTypeMangling rec, mangleTypeMetadata rec,
     mangleTypeMetadataAccessFunction rec, mangleTypeMetadataLazyCache rec,
     mangleUncurriedFunctionType rec, mangleUnmanaged rec, mangleUnowned rec,
     mangleUnsafeAddressor rec, mangleUnsafeMutableAddressor rec, mangleValueWitness rec,
     mangleValueWitnessTable rec, mangleVariable rec, mangleVTableThunk rec,
     mangleVTableAttribute rec, mangleWeak rec, mangleWillSet rec,
     mangleReflectionMetadataBuiltinDescriptor rec, mangleReflectionMetadataFieldDescriptor rec,
     mangleReflectionMetadataAssocTypeDescriptor rec,
     mangleReflectionMetadataSuperclassDescriptor rec, mangleGenericTypeParamDecl rec,
     mangleCurryThunk rec, mangleDispatchThunk rec, mangleThrowsAnnotation rec,
     mangleEmptyList rec, mangleFirstElementMarker rec, mangleVariadicMarker rec,
     mangleOutlinedBridgedMethod rec, mangleOutlinedCopy rec, mangleOutlinedConsume rec,
     mangleOutlinedRetain rec, mangleOutlinedRelease rec, mangleOutlinedInitializeWithTake rec,
     mangleOutlinedInitializeWithCopy rec, mangleOutlinedAssignWithTake rec,
     mangleOutlinedAssignWithCopy rec, mangleOutlinedDestroy rec, mangleOutlinedVariable rec,
     mangleAssocTypePath rec, mangleLabelList rec]"

definition mangle_dispatch :: "handler \<Rightarrow> handler" where
  "mangle_dispatch rec nd M =
     (case getKind nd of Kind k \<Rightarrow>
        if k < length (handlers rec) then (handlers rec ! k) nd M else None)"

fun mangle_fuel :: "nat \<Rightarrow> handler" where
  "mangle_fuel 0 nd M = None"
| "mangle_fuel (Suc n) nd M = mangle_dispatch (mangle_fuel n) nd M"

definition mangle :: handler where
  "mangle nd M = mangle_fuel (size nd) nd M"

definition mangleNode :: "node option \<Rightarrow> string option" where
  "mangleNode nd =
     (case nd of
        None \<Rightarrow> Some []
      | Some n \<Rightarrow> map_option Buffer (mangle n new_remangler))"

end
