(* ===== verification/Number_Roundtrip.thy ===== *)
theory Number_Roundtrip
  imports Remangler
begin

text \<open>
  Reading back what the manglers write: decimal numbers, indices, operator names, value witness
  codes and standard types. Each pair of a printer and a reader is an instance of the codec
  interfaces of the prelude.
\<close>

section \<open>The unread text\<close>

definition rest :: "demangler \<Rightarrow> string" where
  "rest d = drop (Pos d) (Text d)"

definition skip :: "nat \<Rightarrow> demangler \<Rightarrow> demangler" where
  "skip k d = d\<lparr>Pos := Pos d + k\<rparr>"

lemma skip_simps [simp]:
  "skip 0 d = d" "skip j (skip k d) = skip (k + j) d" "Text (skip k d) = Text d"
  "Words (skip k d) = Words d" "Substitutions (skip k d) = Substitutions d"
  "NodeStack (skip k d) = NodeStack d" "Pos (skip k d) = Pos d + k"
  by (simp_all add: skip_def)

lemma rest_skip: "rest d = s @ t \<Longrightarrow> rest (skip (length s) d) = t"
  by (simp add: rest_def) (metis add.commute append_eq_conv_conj drop_drop)

lemma rest_skip1: "rest d = c # t \<Longrightarrow> rest (skip (Suc 0) d) = t"
  using rest_skip [of d "[c]" t] by simp

lemma rest_Cons:
  assumes "rest d = c # t"
  shows "Pos d < length (Text d)" "peekChar d = c" "nextChar d = (c, skip 1 d)"
    "nextIf c d = (True, skip 1 d)" "c' \<noteq> c \<Longrightarrow> nextIf c' d = (False, d)"
proof -
  show lt: "Pos d < length (Text d)" using assms by (cases "Pos d < length (Text d)") (auto simp: rest_def)
  have "Text d ! Pos d = c" using assms lt by (metis Cons_nth_drop_Suc list.inject rest_def)
  with lt show "peekChar d = c" "nextChar d = (c, skip 1 d)" "nextIf c d = (True, skip 1 d)"
    "c' \<noteq> c \<Longrightarrow> nextIf c' d = (False, d)"
    by (auto simp: peekChar_def nextChar_def nextIf_def skip_def)
qed

lemma rest_Nil: "rest d = [] \<Longrightarrow> peekChar d = CHR 0x00"
  by (auto simp: rest_def peekChar_def)

text \<open>No digit follows.\<close>

definition no_digit :: "string \<Rightarrow> bool" where
  "no_digit s \<longleftrightarrow> (case s of [] \<Rightarrow> True | c # _ \<Rightarrow> \<not> isDigit c)"

lemma no_digit_peek: "rest d = s \<Longrightarrow> no_digit s \<Longrightarrow> \<not> isDigit (peekChar d)"
  by (cases s) (auto simp: no_digit_def rest_Nil rest_Cons(2) isDigit_def)

section \<open>Decimal numbers\<close>

definition digits_value :: "int \<Rightarrow> string \<Rightarrow> int" where
  "digits_value a ds = foldl (\<lambda>a c. 10 * a + (int (ord c) - 48)) a ds"

lemma digits_value_simps [simp]:
  "digits_value a [] = a" "digits_value a (c # cs) = digits_value (10 * a + (int (ord c) - 48)) cs"
  "digits_value a (xs @ [c]) = 10 * digits_value a xs + (int (ord c) - 48)"
  by (simp_all add: digits_value_def)

lemma digits_value_decimal: "digits_value 0 (decimal n) = int n"
proof (induction n rule: decimal.induct)
  case (1 n)
  show ?case
  proof (cases "n < 10")
    case False
    with 1 have "digits_value 0 (decimal (n div 10)) = int (n div 10)" by simp
    with False show ?thesis by (subst decimal.simps) (simp add: zdiv_int zmod_int)
  qed (subst decimal.simps, simp)
qed

lemma digits_value_ge: "\<forall>c \<in> set ds. isDigit c \<Longrightarrow> 0 \<le> a \<Longrightarrow> a \<le> digits_value a ds"
proof (induction ds arbitrary: a)
  case (Cons c ds)
  then have "10 * a + (int (ord c) - 48) \<le> digits_value (10 * a + (int (ord c) - 48)) ds"
    by (intro Cons.IH) (auto simp: isDigit_def)
  with Cons.prems show ?case by (simp add: isDigit_def)
qed simp

lemma natural_loop_digits:
  "\<forall>c \<in> set ds. isDigit c \<Longrightarrow> 0 \<le> a \<Longrightarrow> digits_value a ds < 2147483648 \<Longrightarrow> rest d = ds @ t \<Longrightarrow> no_digit t \<Longrightarrow>
   natural_loop a d = (digits_value a ds, skip (length ds) d)"
proof (induction ds arbitrary: a d)
  case Nil
  then show ?case by (subst natural_loop.simps) (simp add: no_digit_peek [of d t])
next
  case (Cons c ds)
  let ?a = "10 * a + (int (ord c) - 48)"
  have c: "isDigit c" "peekChar d = c" "nextChar d = (c, skip 1 d)" "rest (skip 1 d) = ds @ t"
    using Cons.prems rest_Cons [of d c "ds @ t"] rest_skip1 [of d c "ds @ t"] by auto
  have a: "0 \<le> ?a" "a \<le> ?a" "?a < 2147483648"
    using c(1) Cons.prems digits_value_ge [of ds ?a] by (auto simp: isDigit_def)
  have "natural_loop ?a (skip 1 d) = (digits_value ?a ds, skip (length ds) (skip 1 d))"
    using Cons.prems a c by (intro Cons.IH) auto
  with a c show ?case by (subst natural_loop.simps) (simp add: Let_def)
qed

lemma demangleNatural_decimal:
  assumes "rest d = decimal n @ t" "no_digit t" "n < 2147483648"
  shows "demangleNatural d = (int n, skip (length (decimal n)) d)"
proof -
  have digits: "\<forall>c \<in> set (decimal n). isDigit c" by (blast intro: isDigit_decimal)
  obtain c cs where c: "decimal n = c # cs" by (cases "decimal n") auto
  have "natural_loop 0 d = (int n, skip (length (decimal n)) d)"
    using natural_loop_digits [OF digits, of 0 d t] assms by (simp add: digits_value_decimal)
  then show ?thesis using c digits assms rest_Cons(2) [of d c "cs @ t"] by (simp add: demangleNatural_def)
qed

lemma decimal_head:
  obtains x xs where "decimal n = x # xs" "isDigit x" "\<not> isLetter x" "x \<noteq> CHR ''_''" "x \<noteq> CHR 0x00"
proof -
  obtain x xs where x: "decimal n = x # xs" by (cases "decimal n") auto
  then have "isDigit x" using isDigit_decimal [of x n] by simp
  with x show ?thesis by (intro that) (auto simp: char_defs)
qed

lemma append_int_None_iff:
  "CharVector_append_int s n = None \<longleftrightarrow> n \<le> - 1000000 \<or> 10000000 \<le> n"
proof (cases "n < 0")
  case True
  have "length (print_int n) < 8 \<longleftrightarrow> length (decimal (nat (- n))) \<le> 6"
    using True by (auto simp: print_int_def)
  also have "\<dots> \<longleftrightarrow> nat (- n) < 1000000" by (simp add: length_decimal_le_iff)
  finally show ?thesis using True by (auto simp: CharVector_append_int_def print_int_def)
next
  case False
  have "length (print_int n) < 8 \<longleftrightarrow> length (decimal (nat n)) \<le> 7"
    using False by (auto simp: print_int_def)
  also have "\<dots> \<longleftrightarrow> nat n < 10000000" by (simp add: length_decimal_le_iff)
  finally show ?thesis using False by (auto simp: CharVector_append_int_def print_int_def)
qed

definition index_text :: "nat \<Rightarrow> string" where
  "index_text n = (if n = 0 then ''_'' else decimal (n - 1) @ ''_'')"

lemma mangleIndex_text: "mangleIndex n M = emit (index_text n) M"
  by (simp add: mangleIndex_def index_text_def)

lemma demangleIndex_text:
  assumes "rest d = index_text n @ t" "n < 2147483648"
  shows "demangleIndex d = (int n, skip (length (index_text n)) d)"
proof (cases "n = 0")
  case True
  with assms rest_Cons [of d "CHR ''_''" t] show ?thesis by (simp add: demangleIndex_def index_text_def)
next
  case False
  with assms(1) have r: "rest d = decimal (n - 1) @ ''_'' @ t" by (simp add: index_text_def)
  obtain c cs where c: "decimal (n - 1) = c # cs" "isDigit c"
    using isDigit_decimal [of _ "n - 1"] by (cases "decimal (n - 1)") auto
  from c(2) have "CHR ''_'' \<noteq> c" by (auto simp: isDigit_def)
  then have 1: "nextIf (CHR ''_'') d = (False, d)"
    using rest_Cons(5) [of d c "cs @ ''_'' @ t" "CHR ''_''"] r c by auto
  have 2: "demangleNatural d = (int (n - 1), skip (length (decimal (n - 1))) d)"
    using r assms(2) by (intro demangleNatural_decimal [of d _ "''_'' @ t"]) (auto simp: no_digit_def isDigit_def)
  have 3: "nextIf (CHR ''_'') (skip (length (decimal (n - 1))) d) = (True, skip (Suc (length (decimal (n - 1)))) d)"
    using rest_Cons(4) [OF rest_skip [OF r, unfolded append_Cons append_Nil]] by simp
  show ?thesis using 1 2 3 False assms(2) by (simp add: demangleIndex_def index_text_def)
qed

text \<open>The readers as functions on the unread text.\<close>

definition reader :: "string \<Rightarrow> demangler" where
  "reader s = \<lparr>Text = s, Pos = 0, IsOldFunctionTypeMangling = False, NodeStack = [], Substitutions = [],
     Words = []\<rparr>"

lemma rest_reader [simp]: "rest (reader s) = s"
  by (simp add: reader_def rest_def)

definition read_number :: "(demangler \<Rightarrow> int \<times> demangler) \<Rightarrow> string \<Rightarrow> (nat \<times> string) option" where
  "read_number rd s = (let (n, d) = rd (reader s) in if n < 0 then None else Some (nat n, rest d))"

interpretation natural: prefix_codec decimal "read_number demangleNatural"
  "\<lambda>n. n < 2147483648" no_digit
  by unfold_locales (simp add: read_number_def demangleNatural_decimal rest_skip)

interpretation mangled_index: prefix_codec index_text "read_number demangleIndex"
  "\<lambda>n. n < 2147483648" "\<lambda>_. True"
  by unfold_locales (simp add: read_number_def demangleIndex_text rest_skip)

section \<open>Operator names\<close>

definition operator_chars :: string where
  "operator_chars = ''&@/=><*!|+?%-~^.''"

definition operator_name :: "string \<Rightarrow> bool" where
  "operator_name s \<longleftrightarrow> list_all (\<lambda>c. c \<in> set operator_chars \<or> 128 \<le> ord c) s"

lemma demangle_op_char:
  assumes "c \<in> set operator_chars"
  shows "isLowerLetter (translateOperatorChar c) \<and>
     op_char_table ! (ord (translateOperatorChar c) - 97) = c \<and> c \<noteq> CHR '' ''"
proof -
  have all: "list_all (\<lambda>c. isLowerLetter (translateOperatorChar c) \<and>
     op_char_table ! (ord (translateOperatorChar c) - 97) = c \<and> c \<noteq> CHR '' '') operator_chars"
    by code_simp
  show ?thesis by (rule bspec [OF all [unfolded list_all_iff] assms])
qed

lemma translate_non_ascii:
  assumes "128 \<le> ord c"
  shows "translateOperatorChar c = c"
proof -
  have "list_all (\<lambda>x. ord x < 128) operator_chars" by code_simp
  with assms have "c \<notin> set operator_chars" by (auto simp: list_all_iff)
  then show ?thesis by (simp add: translateOperatorChar_def operator_chars_def)
qed

lemma demangle_translateOperator: "operator_name s \<Longrightarrow> demangle_op_chars (translateOperator s) = Some s"
proof (induction s)
  case (Cons c s)
  have c: "c \<in> set operator_chars \<or> 128 \<le> ord c" and ih: "demangle_op_chars (translateOperator s) = Some s"
    using Cons by (auto simp: operator_name_def)
  from c show ?case
  proof
    assume "c \<in> set operator_chars"
    with demangle_op_char [OF this] ih show ?thesis
      by (simp add: translateOperator_def isLowerLetter_def)
  next
    assume "128 \<le> ord c"
    with translate_non_ascii [OF this] ih show ?thesis by (simp add: translateOperator_def)
  qed
qed (simp add: translateOperator_def)

interpretation operator_codec: codec translateOperator demangle_op_chars operator_name
  by unfold_locales (rule demangle_translateOperator)

section \<open>Value witnesses\<close>

lemma find_code_index:
  "distinct codes \<Longrightarrow> i < length codes \<Longrightarrow> find_code j codes (codes ! i) = int (j + i)"
proof (induction codes arbitrary: i j)
  case (Cons c codes)
  then show ?case by (cases i) (auto simp: nth_Cons)
qed simp

lemma decodeValueWitnessKind_code:
  "i < length value_witness_codes \<Longrightarrow> decodeValueWitnessKind (value_witness_codes ! i) = int i"
  using find_code_index [of value_witness_codes i 0]
  by (simp add: decodeValueWitnessKind_def value_witness_codes_def)

lemma find_code_sound:
  "find_code j codes s = k \<Longrightarrow> 0 \<le> k \<Longrightarrow> nat k - j < length codes \<and> codes ! (nat k - j) = s \<and> j \<le> nat k"
proof (induction codes arbitrary: j)
  case (Cons c codes)
  show ?case
  proof (cases "s = c")
    case False
    with Cons.prems have "nat k - Suc j < length codes \<and> codes ! (nat k - Suc j) = s \<and> Suc j \<le> nat k"
      by (intro Cons.IH) auto
    moreover from this have "nat k - j = Suc (nat k - Suc j)" by linarith
    ultimately show ?thesis by simp
  qed (use Cons.prems in auto)
qed simp

interpretation value_witness: codec "\<lambda>i. value_witness_codes ! i"
  "\<lambda>s. let k = decodeValueWitnessKind s in if k < 0 then None else Some (nat k)"
  "\<lambda>i. i < length value_witness_codes"
  by unfold_locales (simp add: decodeValueWitnessKind_code)

section \<open>Standard types\<close>

lemma standard_type_roundtrip:
  assumes "(e, c, name) \<in> set standard_types"
  shows "getStandardTypeSubst name = c \<and>
     createStandardSubstitution c = createSwiftType (if e then K_Enum else K_Structure) name \<and>
     isLetter c \<and> c \<notin> set ''oCg''"
proof -
  have "list_all (\<lambda>(e, c, name). getStandardTypeSubst name = c \<and>
     createStandardSubstitution c = createSwiftType (if e then K_Enum else K_Structure) name \<and>
     isLetter c \<and> c \<notin> set ''oCg'') standard_types"
    by code_simp
  with assms show ?thesis unfolding list_all_iff by fast
qed

lemma getStandardTypeSubst_sound:
  assumes "getStandardTypeSubst name \<noteq> CHR 0x00"
  shows "\<exists>e. (e, getStandardTypeSubst name, name) \<in> set standard_types"
proof -
  have "find_type_char name ts \<noteq> CHR 0x00 \<Longrightarrow> \<exists>e. (e, find_type_char name ts, name) \<in> set ts" for ts
    by (induction name ts rule: find_type_char.induct) (auto split: if_splits)
  with assms show ?thesis by (simp add: getStandardTypeSubst_def)
qed

end
