(* ===== verification/Substitution_Merging.thy ===== *)
theory Substitution_Merging
  imports Number_Roundtrip
begin

text \<open>
  Substitutions. The table of the remangler finds a node exactly when an equal one was entered
  (\<open>deepEquals\<close> is equality and equal entries have equal hashes), and the text that
  \<open>emit_substitution\<close> writes with its merging of consecutive substitutions is read back by
  \<open>demangleMultiSubstitutions\<close> as the same sequence of table entries.
\<close>

section \<open>Entries\<close>

lemma payload_equals_iff: "payload_equals l r \<longleftrightarrow> getPayload l = getPayload r"
  by (cases "getPayload l"; cases "getPayload r")
    (auto simp: payload_equals_def hasIndex_def hasText_def getIndex_def getText_def)

lemma list_all_zip_eq:
  "length xs = length ys \<Longrightarrow> (\<And>x y. x \<in> set xs \<Longrightarrow> P x y \<longleftrightarrow> x = y) \<Longrightarrow>
   list_all (\<lambda>(x, y). P x y) (zip xs ys) \<longleftrightarrow> xs = ys"
  by (induction xs ys rule: list_induct2) auto

lemma deepEquals_iff: "deepEquals l r \<longleftrightarrow> l = r"
proof (induction l arbitrary: r)
  case (Node k p cs)
  show ?case
    using list_all_zip_eq [of cs "children r" deepEquals] Node
    by (cases r) (auto simp: payload_equals_iff getNumChildren_def)
qed

lemma setNode_identifier:
  "setNode a True = Some e \<longleftrightarrow> (\<exists>t. getText a = Some t \<and> e = \<lparr>TheNode = a,
     StoredHash = combineHash_text (combineHash 0 (kind_value K_Identifier)) t,
     treatAsIdentifier = True\<rparr>)"
  unfolding setNode_def by (cases "getText a") auto

lemma setNode_node:
  "setNode a False = Some e \<longleftrightarrow>
     e = \<lparr>TheNode = a, StoredHash = deepHash 0 a, treatAsIdentifier = False\<rparr>"
  unfolding setNode_def by auto

lemma entry_equals_iff:
  assumes "setNode a f = Some e" "setNode b g = Some e'"
  shows "entry_equals e e' \<longleftrightarrow> f = g \<and> (if f then getText a = getText b else a = b)"
proof (cases f; cases g)
  assume fg: "f" "g"
  obtain t u where "getText a = Some t" "e = \<lparr>TheNode = a,
      StoredHash = combineHash_text (combineHash 0 (kind_value K_Identifier)) t,
      treatAsIdentifier = True\<rparr>"
    and "getText b = Some u" "e' = \<lparr>TheNode = b,
      StoredHash = combineHash_text (combineHash 0 (kind_value K_Identifier)) u,
      treatAsIdentifier = True\<rparr>"
    using assms fg by (auto simp only: setNode_identifier simp_thms)
  then show ?thesis using fg unfolding entry_equals_def by auto
qed (use assms in \<open>auto simp only: setNode_identifier setNode_node entry_equals_def deepEquals_iff
      simp_thms if_True if_False SubstitutionEntry.simps split: if_splits\<close>)

text \<open>The table holds the entries of a list of nodes; the index found is the first equal one.\<close>

definition table :: "(node \<times> bool) list \<Rightarrow> SubstitutionEntry list \<Rightarrow> bool" where
  "table ns es \<longleftrightarrow> list_all2 (\<lambda>(n, f) e. setNode n f = Some e) ns es"

definition same_entry :: "node \<times> bool \<Rightarrow> node \<times> bool \<Rightarrow> bool" where
  "same_entry x y \<longleftrightarrow> snd x = snd y \<and>
     (if snd x then getText (fst x) = getText (fst y) else fst x = fst y)"

lemma find_entry_shift: "find_entry (Suc j) es e = map_option Suc (find_entry j es e)"
  by (induction es arbitrary: j) auto

lemma find_entry_filter:
  assumes "table ns es" "setNode nd f = Some e"
  shows "find_entry 0 es e =
    (case filter (\<lambda>i. same_entry (ns ! i) (nd, f)) [0..<length ns] of [] \<Rightarrow> None | i # _ \<Rightarrow> Some i)"
  using assms(1) unfolding table_def
proof (induction ns es rule: list_all2_induct)
  case (Cons n ns x xs)
  obtain a g where n: "n = (a, g)" by force
  have eq: "entry_equals x e \<longleftrightarrow> same_entry n (nd, f)"
    using entry_equals_iff [OF _ assms(2), of a g x] Cons.hyps(1) by (auto simp: n same_entry_def)
  have "[0..<length (n # ns)] = 0 # map Suc [0..<length ns]"
    by (simp add: map_Suc_upt upt_conv_Cons del: upt_Suc)
  then show ?case
    using Cons.IH
    by (simp add: eq find_entry_shift filter_map comp_def del: upt_Suc split: list.splits)
qed simp

section \<open>Groups\<close>

text \<open>
  The reference for merging. A request is the index of a table entry or the letter of a standard
  type. A group is what one operator stands for: entries below 26 with their repeat counts, one
  entry from 26 on, or a repeated standard type. \<open>add_request\<close> extends the last group (the head of
  the list) or opens a new one.
\<close>

datatype request = Entry nat | Standard char

datatype group = Entries "(nat \<times> nat) list" nat nat | BigEntry nat | Standards char nat

definition count_text :: "nat \<Rightarrow> string" where
  "count_text n = (if n = 1 then [] else decimal n)"

definition items_text :: "(nat \<times> nat) list \<Rightarrow> string" where
  "items_text its = concat (map (\<lambda>(i, n). count_text n @ [lower_char i]) its)"

fun group_text :: "group \<Rightarrow> string" where
  "group_text (Entries its i n) = ''A'' @ items_text its @ count_text n @ [upper_char i]"
| "group_text (BigEntry i) = ''A'' @ index_text (i - 26)"
| "group_text (Standards c n) = ''S'' @ count_text n @ [c]"

fun requests_of :: "group \<Rightarrow> request list" where
  "requests_of (Entries its i n) =
     concat (map (\<lambda>(i, n). replicate n (Entry i)) its) @ replicate n (Entry i)"
| "requests_of (BigEntry i) = [Entry i]"
| "requests_of (Standards c n) = replicate n (Standard c)"

definition new_group :: "request \<Rightarrow> group" where
  "new_group r = (case r of Standard c \<Rightarrow> Standards c 1
     | Entry i \<Rightarrow> if i < 26 then Entries [] i 1 else BigEntry i)"

fun merge_request :: "request \<Rightarrow> group \<Rightarrow> group option" where
  "merge_request (Entry j) (Entries its i n) =
     (if j < 26 \<and> n < 2048
      then Some (if i = j then Entries its i (Suc n) else Entries (its @ [(i, n)]) j 1) else None)"
| "merge_request (Standard c') (Standards c n) =
     (if c = c' \<and> n < 2048 then Some (Standards c (Suc n)) else None)"
| "merge_request _ _ = None"

fun add_request :: "group list \<Rightarrow> request \<Rightarrow> group list" where
  "add_request [] r = [new_group r]"
| "add_request (g # gs) r =
     (case merge_request r g of Some g' \<Rightarrow> g' # gs | None \<Rightarrow> new_group r # g # gs)"

definition groups_text :: "group list \<Rightarrow> string" where
  "groups_text gs = concat (map group_text (rev gs))"

definition groups_requests :: "group list \<Rightarrow> request list" where
  "groups_requests gs = concat (map requests_of (rev gs))"

lemma merge_requests_of: "merge_request r g = Some g' \<Longrightarrow> requests_of g' = requests_of g @ [r]"
  by (induction r g rule: merge_request.induct)
    (auto simp: replicate_append_same [symmetric] split: if_splits)

lemma requests_of_new [simp]: "requests_of (new_group r) = [r]"
  by (simp add: new_group_def split: request.splits)

lemma groups_requests_add: "groups_requests (add_request gs r) = groups_requests gs @ [r]"
  by (cases gs) (auto simp: groups_requests_def dest: merge_requests_of split: option.splits)

lemma groups_requests_foldl: "groups_requests (foldl add_request gs rs) = groups_requests gs @ rs"
  by (induction rs arbitrary: gs) (simp_all add: groups_requests_add)

section \<open>The remangler writes groups\<close>

fun emit_request :: "request \<Rightarrow> remangler \<Rightarrow> remangler option" where
  "emit_request (Entry i) M = emit_substitution i M"
| "emit_request (Standard c) M = emit_standard c M"

fun emit_requests :: "request list \<Rightarrow> remangler \<Rightarrow> remangler option" where
  "emit_requests [] M = Some M"
| "emit_requests (r # rs) M = do { M \<leftarrow> emit_request r M; emit_requests rs M }"

definition standard_letter :: "char \<Rightarrow> bool" where
  "standard_letter c \<longleftrightarrow> c \<in> set (map (fst \<circ> snd) standard_types)"

fun valid_request :: "request \<Rightarrow> bool" where
  "valid_request (Entry i) \<longleftrightarrow> i < 2147483648"
| "valid_request (Standard c) \<longleftrightarrow> standard_letter c"

fun valid_group :: "group \<Rightarrow> bool" where
  "valid_group (Entries its i n) \<longleftrightarrow>
     (\<forall>(i, n) \<in> set ((i, n) # its). i < 26 \<and> 1 \<le> n \<and> n \<le> 2048)"
| "valid_group (BigEntry i) \<longleftrightarrow> 26 \<le> i \<and> i < 2147483648"
| "valid_group (Standards c n) \<longleftrightarrow> standard_letter c \<and> 1 \<le> n \<and> n \<le> 2048"

text \<open>What \<open>SubstMerging\<close> remembers: the last item of the last group, or something older.\<close>

definition merge_end :: "remangler \<Rightarrow> nat" where
  "merge_end M = lastSubstPosition (SubstMerging M) + lastSubstSize (SubstMerging M)"

definition remembers :: "bool \<Rightarrow> nat \<Rightarrow> remangler \<Rightarrow> bool" where
  "remembers std n M \<longleftrightarrow> SubstMerging M =
     \<lparr>lastSubstPosition = length (Buffer M) - Suc (length (count_text n)),
      lastSubstSize = Suc (length (count_text n)), lastNumSubsts = n,
      lastSubstIsStandardSubst = std\<rparr>"

fun last_group :: "group list \<Rightarrow> remangler \<Rightarrow> bool" where
  "last_group (Entries its i n # gs) M \<longleftrightarrow> remembers False n M"
| "last_group (Standards c n # gs) M \<longleftrightarrow> remembers True n M"
| "last_group _ M \<longleftrightarrow> lastNumSubsts (SubstMerging M) = 0 \<or> merge_end M < length (Buffer M)"

definition writes :: "string \<Rightarrow> group list \<Rightarrow> remangler \<Rightarrow> bool" where
  "writes pre gs M \<longleftrightarrow> Buffer M = pre @ groups_text gs \<and> last_group gs M \<and> (\<forall>g \<in> set gs. valid_group g)"

definition subst_letter :: "char \<Rightarrow> bool \<Rightarrow> bool" where
  "subst_letter c std \<longleftrightarrow> isUpperLetter c \<or> std \<and> isLowerLetter c"

definition remember :: "bool \<Rightarrow> remangler \<Rightarrow> remangler" where
  "remember std M = M\<lparr>SubstMerging := \<lparr>lastSubstPosition = length (Buffer M) + 1, lastSubstSize = 1,
     lastNumSubsts = 1, lastSubstIsStandardSubst = std\<rparr>\<rparr>"

lemma count_text_1 [simp]: "count_text (Suc 0) = []" "count_text 1 = []"
  by (simp_all add: count_text_def)

lemma count_text_Suc: "1 \<le> n \<Longrightarrow> count_text (Suc n) = decimal (Suc n)"
  by (simp add: count_text_def)

lemma tryMerge_new:
  assumes "subst_letter c std"
    and "lastNumSubsts (SubstMerging M) = 0 \<or> 2048 \<le> lastNumSubsts (SubstMerging M) \<or>
      merge_end M < length (Buffer M) \<or> lastSubstIsStandardSubst (SubstMerging M) \<noteq> std"
  shows "tryMergeSubst c std M = Some (False, remember std M)"
  using assms by (auto simp: tryMergeSubst_def subst_letter_def merge_end_def remember_def Let_def)

lemma tryMerge_other_standard:
  assumes "subst_letter c True" "remembers True n M" "1 \<le> n" "n \<le> 2048" "subst_letter c' True"
    and "Buffer M = B @ count_text n @ [c']" "B \<noteq> []" "c \<noteq> c'"
  shows "tryMergeSubst c True M = Some (False, remember True M)"
  using assms by (auto simp: tryMergeSubst_def subst_letter_def remembers_def remember_def Let_def)

lemma tryMerge_same:
  assumes "subst_letter c std" "remembers std n M" "1 \<le> n" "n < 2048"
    and "Buffer M = B @ count_text n @ [c]" "B \<noteq> []"
  obtains M' where "tryMergeSubst c std M = Some (True, M')" "remembers std (Suc n) M'"
    "Buffer M' = B @ count_text (Suc n) @ [c]"
proof
  let ?M = "emit (decimal (Suc n) @ [c]) (resetBuffer (length B) M)"
  let ?M' = "?M\<lparr>SubstMerging := (SubstMerging M)\<lparr>lastNumSubsts := Suc n,
    lastSubstSize := length (Buffer ?M) - length B\<rparr>\<rparr>"
  have pos: "lastSubstPosition (SubstMerging M) = length B" using assms by (simp add: remembers_def)
  show "tryMergeSubst c std M = Some (True, ?M')"
    using assms pos by (auto simp: tryMergeSubst_def subst_letter_def remembers_def Let_def)
  have buf: "Buffer ?M' = B @ count_text (Suc n) @ [c]"
    using assms by (simp add: emit_def resetBuffer_def count_text_Suc)
  then show "Buffer ?M' = B @ count_text (Suc n) @ [c]" .
  show "remembers std (Suc n) ?M'"
    using assms buf by (simp add: remembers_def emit_def resetBuffer_def count_text_Suc)
qed

lemma lower_of_upper: "char_of (i + 97) = lower_char i"
  by (simp add: lower_char_def add.commute)

lemma upper_char_eq_iff: "i < 26 \<Longrightarrow> j < 26 \<Longrightarrow> upper_char i = upper_char j \<longleftrightarrow> i = j"
  by (metis add_left_cancel upper_char_simps(3))

lemma tryMerge_next:
  assumes "i < 26" "j < 26" "i \<noteq> j" "remembers False n M" "1 \<le> n" "n < 2048"
    and "Buffer M = B @ count_text n @ [upper_char i]" "B \<noteq> []"
  obtains M' where "tryMergeSubst (upper_char j) False M = Some (True, M')" "remembers False 1 M'"
    "Buffer M' = B @ count_text n @ [lower_char i, upper_char j]"
proof
  let ?M = "emit [lower_char i, upper_char j] (resetBuffer (length (Buffer M) - 1) M)"
  let ?M' = "?M\<lparr>SubstMerging := (SubstMerging M)\<lparr>lastSubstPosition := length (Buffer M),
    lastNumSubsts := 1, lastSubstSize := 1\<rparr>\<rparr>"
  show "tryMergeSubst (upper_char j) False M = Some (True, ?M')"
    using assms
    by (auto simp: tryMergeSubst_def remembers_def Let_def lower_of_upper upper_char_eq_iff)
  show "Buffer ?M' = B @ count_text n @ [lower_char i, upper_char j]"
    using assms by (simp add: emit_def resetBuffer_def)
  show "remembers False 1 ?M'"
    using assms by (simp add: remembers_def emit_def resetBuffer_def)
qed

lemma standard_letter_facts:
  assumes "standard_letter c"
  shows "subst_letter c True \<and> c \<notin> set ''oCg'' \<and> \<not> isDigit c \<and> c \<noteq> CHR 0x00 \<and> createStandardSubstitution c \<noteq> None"
proof -
  have "list_all (\<lambda>c. subst_letter c True \<and> c \<notin> set ''oCg'' \<and> \<not> isDigit c \<and> c \<noteq> CHR 0x00 \<and>
      createStandardSubstitution c \<noteq> None) (map (fst \<circ> snd) standard_types)" by code_simp
  with assms show ?thesis unfolding standard_letter_def list_all_iff by blast
qed

lemma writes_new:
  assumes "writes pre gs M" "valid_request r"
    and "case r of Standard c \<Rightarrow> tryMergeSubst c True M = Some (False, remember True M)
      | Entry i \<Rightarrow> i < 26 \<longrightarrow> tryMergeSubst (upper_char i) False M = Some (False, remember False M)"
    and "last_group gs M \<Longrightarrow> lastNumSubsts (SubstMerging M) = 0 \<or> merge_end M \<le> length (Buffer M)"
  shows "\<exists>M'. emit_request r M = Some M' \<and> writes pre (new_group r # gs) M'"
proof (cases r)
  case (Entry i)
  show ?thesis
  proof (cases "i < 26")
    case True
    with assms Entry show ?thesis
      by (auto simp: emit_substitution_def new_group_def writes_def groups_text_def emit_def
          remember_def remembers_def items_text_def)
  next
    case False
    with assms Entry show ?thesis
      by (auto simp: emit_substitution_def new_group_def writes_def groups_text_def emit_def
          mangleIndex_text merge_end_def)
  qed
next
  case (Standard c)
  with assms show ?thesis
    by (auto simp: emit_standard_def new_group_def writes_def groups_text_def emit_def
        remember_def remembers_def)
qed

lemma last_group_end:
  "last_group gs M \<Longrightarrow> writes pre gs M \<Longrightarrow>
   lastNumSubsts (SubstMerging M) = 0 \<or> merge_end M \<le> length (Buffer M)"
  by (cases "(gs, M)" rule: last_group.cases)
    (auto simp: remembers_def merge_end_def writes_def groups_text_def)

lemma writes_closed:
  assumes "writes pre gs M" "valid_request r"
    and "lastNumSubsts (SubstMerging M) = 0 \<or> merge_end M < length (Buffer M)"
  shows "\<exists>M'. emit_request r M = Some M' \<and> writes pre (new_group r # gs) M'"
proof (rule writes_new [OF assms(1,2)])
  show "case r of Standard c \<Rightarrow> tryMergeSubst c True M = Some (False, remember True M)
    | Entry i \<Rightarrow> i < 26 \<longrightarrow> tryMergeSubst (upper_char i) False M = Some (False, remember False M)"
    using assms(2,3) by (cases r) (auto intro!: tryMerge_new simp: subst_letter_def
      dest: standard_letter_facts)
qed (use assms(3) in auto)

lemma emit_after_entries:
  assumes w: "writes pre gs M" and r: "valid_request r" and gs: "gs = Entries its i n # gs'"
  shows "\<exists>M'. emit_request r M = Some M' \<and> writes pre (add_request gs r) M'"
proof -
  have rem: "remembers False n M" "i < 26" "1 \<le> n" "n \<le> 2048" using w gs by (auto simp: writes_def)
  define B where "B = pre @ groups_text gs' @ ''A'' @ items_text its"
  have buf: "Buffer M = B @ count_text n @ [upper_char i]" "B \<noteq> []"
    using w by (simp_all add: writes_def gs groups_text_def B_def)
  show ?thesis
  proof (cases "merge_request r (Entries its i n)")
    case None
    have "\<exists>M'. emit_request r M = Some M' \<and> writes pre (new_group r # gs) M'"
    proof (rule writes_new [OF w r _ last_group_end [OF _ w]])
      show "case r of Standard c \<Rightarrow> tryMergeSubst c True M = Some (False, remember True M)
        | Entry i \<Rightarrow> i < 26 \<longrightarrow> tryMergeSubst (upper_char i) False M = Some (False, remember False M)"
        using None r rem by (cases r)
          (auto intro!: tryMerge_new simp: remembers_def standard_letter_facts subst_letter_def
            split: if_splits dest: standard_letter_facts)
    qed
    with None gs show ?thesis by simp
  next
    case (Some g)
    then obtain j where j: "r = Entry j" "j < 26" "n < 2048" by (cases r) (auto split: if_splits)
    show ?thesis
    proof (cases "i = j")
      case True
      from tryMerge_same [OF _ rem(1,3) j(3) buf] rem(2) obtain M' where
        "tryMergeSubst (upper_char i) False M = Some (True, M')" "remembers False (Suc n) M'"
        "Buffer M' = B @ count_text (Suc n) @ [upper_char i]"
        by (auto simp: subst_letter_def)
      with w j True rem show ?thesis
        by (auto simp: emit_substitution_def writes_def gs groups_text_def B_def)
    next
      case False
      from tryMerge_next [OF rem(2) j(2) False rem(1,3) j(3) buf] obtain M' where
        "tryMergeSubst (upper_char j) False M = Some (True, M')" "remembers False 1 M'"
        "Buffer M' = B @ count_text n @ [lower_char i, upper_char j]" .
      with w j False rem show ?thesis
        by (auto simp: emit_substitution_def writes_def gs groups_text_def B_def items_text_def)
    qed
  qed
qed

lemma emit_after_standards:
  assumes w: "writes pre gs M" and r: "valid_request r" and gs: "gs = Standards c n # gs'"
  shows "\<exists>M'. emit_request r M = Some M' \<and> writes pre (add_request gs r) M'"
proof -
  have rem: "remembers True n M" "standard_letter c" "1 \<le> n" "n \<le> 2048"
    using w gs by (auto simp: writes_def)
  define B where "B = pre @ groups_text gs' @ ''S''"
  have buf: "Buffer M = B @ count_text n @ [c]" "B \<noteq> []"
    using w by (simp_all add: writes_def gs groups_text_def B_def)
  have c: "subst_letter c True" using rem(2) standard_letter_facts by blast
  show ?thesis
  proof (cases "merge_request r (Standards c n)")
    case None
    have "\<exists>M'. emit_request r M = Some M' \<and> writes pre (new_group r # gs) M'"
    proof (rule writes_new [OF w r _ last_group_end [OF _ w]])
      show "case r of Standard c \<Rightarrow> tryMergeSubst c True M = Some (False, remember True M)
        | Entry i \<Rightarrow> i < 26 \<longrightarrow> tryMergeSubst (upper_char i) False M = Some (False, remember False M)"
      proof (cases r)
        case (Entry i)
        with rem show ?thesis by (auto intro!: tryMerge_new simp: remembers_def subst_letter_def)
      next
        case (Standard c')
        with r have c': "subst_letter c' True" using standard_letter_facts by auto
        show ?thesis
        proof (cases "c = c'")
          case True
          with None Standard rem have "n = 2048" by (auto split: if_splits)
          with c' rem Standard show ?thesis by (auto intro!: tryMerge_new simp: remembers_def)
        next
          case False
          with tryMerge_other_standard [OF c' rem(1,3,4) c buf] Standard show ?thesis by auto
        qed
      qed
    qed
    with None gs show ?thesis by simp
  next
    case (Some g)
    then have g: "r = Standard c" "n < 2048" by (cases r; auto split: if_splits)+
    from tryMerge_same [OF c rem(1,3) g(2) buf] obtain M' where
      "tryMergeSubst c True M = Some (True, M')" "remembers True (Suc n) M'"
      "Buffer M' = B @ count_text (Suc n) @ [c]" .
    with w g rem show ?thesis by (auto simp: emit_standard_def writes_def gs groups_text_def B_def)
  qed
qed

lemma emit_request_writes:
  assumes w: "writes pre gs M" and r: "valid_request r"
  shows "\<exists>M'. emit_request r M = Some M' \<and> writes pre (add_request gs r) M'"
proof (cases "(gs, M)" rule: last_group.cases)
  case (1 its i n gs' M0)
  with emit_after_entries [OF w r] show ?thesis by blast
next
  case (2 c n gs' M0)
  with emit_after_standards [OF w r] show ?thesis by blast
next
  case "3_1"
  with w have "lastNumSubsts (SubstMerging M) = 0 \<or> merge_end M < length (Buffer M)"
    unfolding writes_def by auto
  from writes_closed [OF w r this] "3_1" show ?thesis by simp
next
  case "3_2"
  with w have "lastNumSubsts (SubstMerging M) = 0 \<or> merge_end M < length (Buffer M)"
    unfolding writes_def by auto
  from writes_closed [OF w r this] "3_2" show ?thesis by simp
qed

lemma emit_requests_writes:
  "writes pre gs M \<Longrightarrow> \<forall>r \<in> set rs. valid_request r \<Longrightarrow>
   \<exists>M'. emit_requests rs M = Some M' \<and> writes pre (foldl add_request gs rs) M'"
proof (induction rs arbitrary: gs M)
  case (Cons r rs)
  from emit_request_writes [OF Cons.prems(1), of r] Cons.prems(2) obtain M1 where
    "emit_request r M = Some M1" "writes pre (add_request gs r) M1" by auto
  with Cons.IH [of "add_request gs r" M1] Cons.prems(2) show ?case by auto
qed auto

section \<open>The demangler reads groups\<close>

definition push_all :: "node list \<Rightarrow> demangler \<Rightarrow> demangler" where
  "push_all ns d = d\<lparr>NodeStack := rev ns @ NodeStack d\<rparr>"

lemma push_all_simps [simp]:
  "push_all [] d = d" "push_all ms (push_all ns d) = push_all (ns @ ms) d"
  "rest (push_all ns d) = rest d" "Substitutions (push_all ns d) = Substitutions d"
  "skip k (push_all ns d) = push_all ns (skip k d)" "Text (push_all ns d) = Text d"
  "Pos (push_all ns d) = Pos d"
  by (simp_all add: push_all_def rest_def skip_def)

lemma pushNode_push_all: "pushNode n (push_all ns d) = push_all (ns @ [n]) d"
  by (simp add: push_all_def pushNode_def)

lemma push_repeated_push_all: "push_repeated (int n) Nd d = push_all (replicate (n - 1) Nd) d"
  by (rule demangler.equality) (simp_all add: push_all_def)

fun request_node :: "node list \<Rightarrow> request \<Rightarrow> node option" where
  "request_node subs (Entry i) = (if i < length subs then Some (subs ! i) else None)"
| "request_node subs (Standard c) = createStandardSubstitution c"

lemma letter_facts:
  assumes "isLetter c"
  shows "c \<noteq> CHR 0x00" "\<not> isDigit c" "c \<noteq> CHR ''_''" "isUpperLetter c \<or> isLowerLetter c"
  using assms by (auto simp: char_defs)

lemma pushBack_nextChar: "rest d = c # t \<Longrightarrow> pushBack (skip (Suc 0) d) = Some ((), d)"
  by (simp add: pushBack_def skip_def)

lemma multi_number:
  assumes "rest d = decimal n @ c # t" "\<not> isDigit c" "n < 2147483648"
  shows "multi_subst_loop (- 1) d = multi_subst_loop (int n) (skip (length (decimal n)) d)"
proof -
  obtain x xs where x: "decimal n = x # xs" "\<not> isLetter x" "x \<noteq> CHR ''_''" "x \<noteq> CHR 0x00"
    using decimal_head by blast
  have r: "rest d = x # (xs @ c # t)" using assms(1) x by simp
  moreover have "demangleNatural d = (int n, skip (length (decimal n)) d)"
    using assms by (intro demangleNatural_decimal) (auto simp: no_digit_def)
  ultimately show ?thesis using x
    by (subst multi_subst_loop.simps)
      (simp add: rest_Cons(3) [OF r] pushBack_nextChar [OF r] isLetter_def)
qed

lemma multi_count:
  assumes "rest d = count_text n @ c # t" "1 \<le> n" "n \<le> 2048" "isLetter c"
  obtains k where "multi_subst_loop (- 1) d = multi_subst_loop k (skip (length (count_text n)) d)"
    "nat (k - 1) = n - 1" "k \<le> 2048"
proof (cases "n = 1")
  case True
  then show ?thesis by (intro that [of "- 1"]) (auto simp: count_text_def)
next
  case False
  then have n: "count_text n = decimal n" "2 \<le> n" using assms(2) by (auto simp: count_text_def)
  with assms multi_number [of d n c t] letter_facts(2) [OF assms(4)] show ?thesis
    by (intro that [of "int n"]) auto
qed

lemma pushMulti:
  assumes "i < length (Substitutions d)" "nat (k - 1) = n - 1" "k \<le> 2048"
  shows "pushMultiSubstitutions k i d =
    (Some (Substitutions d ! i), push_all (replicate (n - 1) (Substitutions d ! i)) d)"
proof -
  have "push_repeated k x d = push_all (replicate (n - 1) x) d" for x
    using assms(2) by (intro demangler.equality) (simp_all add: push_all_def)
  with assms show ?thesis by (simp add: pushMultiSubstitutions_def Let_def)
qed

lemma replicate_snoc: "Suc 0 \<le> n \<Longrightarrow> replicate (n - Suc 0) x @ [x] = replicate n x"
  by (cases n) (simp_all add: replicate_append_same)

lemma multi_item:
  assumes "rest d = count_text n @ lower_char i # t" "1 \<le> n" "n \<le> 2048" "i < 26"
    "i < length (Substitutions d)"
  shows "multi_subst_loop (- 1) d = multi_subst_loop (- 1)
    (push_all (replicate n (Substitutions d ! i)) (skip (Suc (length (count_text n))) d))"
proof -
  from multi_count [OF assms(1,2,3)] assms(4) obtain k where
    k: "multi_subst_loop (- 1) d = multi_subst_loop k (skip (length (count_text n)) d)"
      "nat (k - 1) = n - 1" "k \<le> 2048" by auto
  let ?d = "skip (length (count_text n)) d"
  have r: "rest ?d = lower_char i # t" using rest_skip assms(1) by blast
  have c: "isLowerLetter (lower_char i)" "lower_char i \<noteq> CHR 0x00"
    using assms(4) letter_facts by simp_all
  have "multi_subst_loop k ?d = multi_subst_loop (- 1)
      (push_all (replicate (n - 1) (Substitutions d ! i) @ [Substitutions d ! i]) (skip (Suc 0) ?d))"
    using c assms(4,5) pushMulti [OF _ k(2,3), of i "skip (Suc 0) ?d"]
    by (subst multi_subst_loop.simps) (simp add: rest_Cons(3) [OF r] pushNode_push_all)
  with k(1) assms(2) show ?thesis by (simp add: replicate_snoc)
qed

lemma multi_last:
  assumes "rest d = count_text n @ upper_char i # t" "1 \<le> n" "n \<le> 2048" "i < 26"
    "i < length (Substitutions d)"
  shows "multi_subst_loop (- 1) d = Some (Some (Substitutions d ! i),
    push_all (replicate (n - 1) (Substitutions d ! i)) (skip (Suc (length (count_text n))) d))"
proof -
  from multi_count [OF assms(1,2,3)] assms(4) obtain k where
    k: "multi_subst_loop (- 1) d = multi_subst_loop k (skip (length (count_text n)) d)"
      "nat (k - 1) = n - 1" "k \<le> 2048" by auto
  let ?d = "skip (length (count_text n)) d"
  have r: "rest ?d = upper_char i # t" using rest_skip assms(1) by blast
  have c: "isUpperLetter (upper_char i)" "upper_char i \<noteq> CHR 0x00"
    using assms(4) letter_facts by simp_all
  have "multi_subst_loop k ?d = Some (Some (Substitutions d ! i),
      push_all (replicate (n - 1) (Substitutions d ! i)) (skip (Suc 0) ?d))"
    using c assms(4,5) pushMulti [OF _ k(2,3), of i "skip (Suc 0) ?d"]
    by (subst multi_subst_loop.simps) (simp add: rest_Cons(3) [OF r])
  with k(1) show ?thesis by simp
qed

text \<open>One group is read by one round of the parse loop.\<close>

definition requested :: "node list \<Rightarrow> request list \<Rightarrow> node list" where
  "requested subs rs = map (the \<circ> request_node subs) rs"

definition known_request :: "node list \<Rightarrow> request \<Rightarrow> bool" where
  "known_request subs r \<longleftrightarrow> request_node subs r \<noteq> None"

lemma multi_items:
  "rest d = items_text its @ t \<Longrightarrow>
   \<forall>(i, n) \<in> set its. i < 26 \<and> 1 \<le> n \<and> n \<le> 2048 \<and> i < length (Substitutions d) \<Longrightarrow>
   multi_subst_loop (- 1) d = multi_subst_loop (- 1)
     (push_all (requested (Substitutions d) (concat (map (\<lambda>(i, n). replicate n (Entry i)) its)))
       (skip (length (items_text its)) d))"
proof (induction its arbitrary: d)
  case (Cons it its)
  obtain i n where it: "it = (i, n)" by force
  let ?d = "push_all (replicate n (Substitutions d ! i)) (skip (Suc (length (count_text n))) d)"
  have r: "rest d = count_text n @ lower_char i # items_text its @ t"
    using Cons.prems(1) by (simp add: it items_text_def)
  have "multi_subst_loop (- 1) d = multi_subst_loop (- 1) ?d"
    using Cons.prems(2) by (intro multi_item [OF r]) (auto simp: it)
  moreover have "rest ?d = items_text its @ t"
    using rest_skip [of d "count_text n @ [lower_char i]" "items_text its @ t"] r by simp
  ultimately show ?case using Cons.IH [of ?d] Cons.prems(2)
    by (simp add: it requested_def items_text_def)
qed (simp add: requested_def items_text_def)

lemma demangleOperator_A: "rest d = CHR ''A'' # t \<Longrightarrow> demangleOperator d = multi_subst_loop (- 1) (skip 1 d)"
  by (simp add: demangleOperator_def rest_Cons(3) demangleMultiSubstitutions_def)

lemma demangleOperator_S: "rest d = CHR ''S'' # t \<Longrightarrow> demangleOperator d = demangleStandardSubstitution (skip 1 d)"
  by (simp add: demangleOperator_def rest_Cons(3))

lemma read_entries:
  assumes "rest d = group_text (Entries its i n) @ t" "valid_group (Entries its i n)"
    "\<forall>r \<in> set (requests_of (Entries its i n)). known_request (Substitutions d) r"
  shows "\<exists>x d'. demangleOperator d = Some (Some x, d') \<and>
    pushNode x d' = push_all (requested (Substitutions d) (requests_of (Entries its i n)))
      (skip (length (group_text (Entries its i n))) d)"
proof -
  let ?S = "Substitutions d"
  let ?ns = "requested ?S (concat (map (\<lambda>(i, n). replicate n (Entry i)) its))"
  let ?d = "push_all ?ns (skip (Suc (length (items_text its))) d)"
  have r: "rest (skip 1 d) = items_text its @ count_text n @ upper_char i # t"
    using assms(1) rest_skip1 [of d "CHR ''A''"] by simp
  have i: "i < length ?S" "1 \<le> n" "n \<le> 2048" "i < 26" "rest ?d = count_text n @ upper_char i # t"
    using assms(2,3) rest_skip [OF r] by (auto simp: known_request_def split: if_splits)
  have "multi_subst_loop (- 1) (skip 1 d) = multi_subst_loop (- 1) ?d"
    using assms(2,3) multi_items [OF r] by (fastforce simp: known_request_def split: if_splits)
  moreover have "multi_subst_loop (- 1) ?d = Some (Some (?S ! i),
      push_all (replicate (n - 1) (?S ! i)) (skip (Suc (length (count_text n))) ?d))"
    using multi_last [of ?d n i t] i by simp
  ultimately show ?thesis
    using assms(1) i(1,2) demangleOperator_A [of d "items_text its @ count_text n @ upper_char i # t"]
    by (simp add: pushNode_push_all requested_def replicate_snoc)
qed

lemma multi_big:
  assumes "rest d = CHR ''_'' # t" "0 \<le> k + 27" "k < 2147483648" "nat (k + 27) < length (Substitutions d)"
  shows "multi_subst_loop k d = Some (Some (Substitutions d ! nat (k + 27)), skip 1 d)"
proof -
  have "(k + 27) mod 4294967296 = k + 27" using assms(2,3) by simp
  with assms(4) show ?thesis
    by (subst multi_subst_loop.simps) (simp add: rest_Cons(3) [OF assms(1)] char_defs Let_def)
qed

lemma multi_big_index:
  assumes "rest d = index_text k @ t" "k + 26 < 2147483648" "k + 26 < length (Substitutions d)"
  shows "multi_subst_loop (- 1) d = Some (Some (Substitutions d ! (k + 26)), skip (length (index_text k)) d)"
proof (cases k)
  case 0
  with assms multi_big [of d t "- 1"] show ?thesis by (simp add: index_text_def)
next
  case (Suc j)
  then have r: "rest d = decimal j @ CHR ''_'' # t" using assms(1) by (simp add: index_text_def)
  have "multi_subst_loop (- 1) d = multi_subst_loop (int j) (skip (length (decimal j)) d)"
    using assms(2) Suc by (intro multi_number [OF r]) (auto simp: char_defs)
  moreover have "nat (int j + 27) = k + 26" using Suc by simp
  ultimately show ?thesis
    using multi_big [OF rest_skip [OF r], of "int j"] assms Suc by (simp add: index_text_def add.commute)
qed

lemma read_big:
  assumes "rest d = group_text (BigEntry i) @ t" "26 \<le> i" "i < 2147483648" "i < length (Substitutions d)"
  shows "demangleOperator d = Some (Some (Substitutions d ! i), skip (length (group_text (BigEntry i))) d)"
proof -
  have "rest (skip 1 d) = index_text (i - 26) @ t" using assms(1) rest_skip1 [of d "CHR ''A''"] by simp
  from multi_big_index [OF this] demangleOperator_A assms show ?thesis by simp
qed

lemma natural_count:
  assumes "rest d = count_text n @ c # t" "1 \<le> n" "n \<le> 2048" "\<not> isDigit c"
  obtains k where "demangleNatural d = (k, skip (length (count_text n)) d)" "nat (k - 1) = n - 1" "k \<le> 2048"
proof (cases "n = 1")
  case True
  then have "rest d = c # t" using assms(1) by simp
  then have "demangleNatural d = (- 1000, d)" using assms(4) by (simp add: demangleNatural_def rest_Cons(2))
  with True show ?thesis by (intro that [of "- 1000"]) auto
next
  case False
  with assms demangleNatural_decimal [of d n "c # t"] show ?thesis
    by (intro that [of "int n"]) (auto simp: count_text_def no_digit_def)
qed

lemma standard_count:
  assumes r: "rest d = count_text n @ c # t" and c: "standard_letter c" and n: "1 \<le> n" "n \<le> 2048"
    and x: "createStandardSubstitution c = Some x"
  shows "demangleStandardSubstitution d =
    Some (Some x, push_all (replicate (n - 1) x) (skip (Suc (length (count_text n))) d))"
proof -
  have c': "c \<notin> set ''oCg''" "\<not> isDigit c" using standard_letter_facts c by auto
  obtain y ys where y: "count_text n @ c # t = y # ys" "y \<notin> set ''oCg''"
  proof (cases "n = 1")
    case False
    obtain z zs where "decimal n = z # zs" "\<not> isLetter z" using decimal_head by blast
    then show ?thesis using False by (intro that [of z "zs @ c # t"]) (auto simp: count_text_def char_defs)
  qed (use c' in \<open>auto intro!: that simp: count_text_def\<close>)
  then have ry: "rest d = y # ys" using r by simp
  from natural_count [OF r n c'(2)] obtain k where
    k: "demangleNatural d = (k, skip (length (count_text n)) d)" "nat (k - 1) = n - 1" "k \<le> 2048" .
  have "push_repeated k x d' = push_all (replicate (n - 1) x) d'" for d'
    using k(2) by (intro demangler.equality) (simp_all add: push_all_def)
  then show ?thesis
    using y(2) k x rest_Cons(3) [OF rest_skip [OF r]]
    by (simp add: demangleStandardSubstitution_def rest_Cons(3) [OF ry] pushBack_nextChar [OF ry])
qed

lemma read_standards:
  assumes "rest d = group_text (Standards c n) @ t" "standard_letter c" "1 \<le> n" "n \<le> 2048"
    "createStandardSubstitution c = Some x"
  shows "demangleOperator d =
    Some (Some x, push_all (replicate (n - 1) x) (skip (length (group_text (Standards c n))) d))"
proof -
  have "rest (skip 1 d) = count_text n @ c # t" using assms(1) rest_skip1 [of d "CHR ''S''"] by simp
  from standard_count [OF this assms(2-)] demangleOperator_S assms(1) show ?thesis by simp
qed

lemma read_group:
  assumes "rest d = group_text g @ t" "valid_group g"
    "\<forall>r \<in> set (requests_of g). known_request (Substitutions d) r"
  shows "\<exists>x d'. demangleOperator d = Some (Some x, d') \<and>
    pushNode x d' = push_all (requested (Substitutions d) (requests_of g)) (skip (length (group_text g)) d)"
proof (cases g)
  case (Entries its i n)
  with assms read_entries show ?thesis by blast
next
  case (BigEntry i)
  then have "i < length (Substitutions d)" using assms(3) by (auto simp: known_request_def split: if_splits)
  with BigEntry assms read_big [of d i t] pushNode_push_all [of _ "[]"] show ?thesis
    by (auto simp: requested_def)
next
  case (Standards c n)
  with assms obtain x where x: "createStandardSubstitution c = Some x"
    by (cases "createStandardSubstitution c") (auto simp: known_request_def)
  with Standards assms read_standards [of d c n t x] show ?thesis
    by (auto simp: requested_def pushNode_push_all replicate_snoc)
qed

lemma parse_push:
  assumes "demangleOperator d = Some (Some x, d')" "Pos d < length (Text d)"
  shows "parseAndPushNodes d = parseAndPushNodes (pushNode x d')"
  using assms by (subst parseAndPushNodes.simps) simp

lemma group_text_not_Nil [simp]: "group_text g \<noteq> []"
  by (cases g) auto

lemma rest_not_Nil: "rest d \<noteq> [] \<Longrightarrow> Pos d < length (Text d)"
  by (simp add: rest_def)

lemma parse_groups:
  "rest d = concat (map group_text gs) @ t \<Longrightarrow> \<forall>g \<in> set gs. valid_group g \<Longrightarrow>
   \<forall>r \<in> set (concat (map requests_of gs)). known_request (Substitutions d) r \<Longrightarrow>
   parseAndPushNodes d = parseAndPushNodes
     (push_all (requested (Substitutions d) (concat (map requests_of gs)))
       (skip (length (concat (map group_text gs))) d))"
proof (induction gs arbitrary: d)
  case (Cons g gs)
  let ?d = "push_all (requested (Substitutions d) (requests_of g)) (skip (length (group_text g)) d)"
  have r: "rest d = group_text g @ concat (map group_text gs) @ t" using Cons.prems(1) by simp
  from read_group [OF r] Cons.prems(2,3) obtain x d' where
    "demangleOperator d = Some (Some x, d')" "pushNode x d' = ?d" by auto
  with parse_push [of d x d'] r have "parseAndPushNodes d = parseAndPushNodes ?d"
    by (simp add: rest_not_Nil)
  moreover have "rest ?d = concat (map group_text gs) @ t" using rest_skip [OF r] by simp
  ultimately show ?case
    using Cons.IH [of ?d] Cons.prems(2,3) by (simp add: requested_def)
qed (simp add: requested_def)

lemma substitutions_roundtrip:
  assumes "\<forall>r \<in> set rs. valid_request r \<and> known_request (Substitutions d) r"
    and "lastNumSubsts (SubstMerging M) = 0 \<or> merge_end M < length (Buffer M)"
    and "emit_requests rs M = Some M'" "Buffer M' = Buffer M @ s" "rest d = s @ t"
  shows "parseAndPushNodes d =
    parseAndPushNodes (push_all (requested (Substitutions d) rs) (skip (length s) d))"
proof -
  let ?gs = "rev (foldl add_request [] rs)"
  have "writes (Buffer M) [] M" using assms(2) by (simp add: writes_def groups_text_def)
  from emit_requests_writes [OF this, of rs] assms(1,3) have w: "writes (Buffer M) (rev ?gs) M'" by auto
  then have s: "s = concat (map group_text ?gs)" "\<forall>g \<in> set ?gs. valid_group g"
    using assms(4) by (auto simp: writes_def groups_text_def)
  have "concat (map requests_of ?gs) = rs"
    using groups_requests_foldl [of "[]" rs] by (simp add: groups_requests_def)
  with parse_groups [of d ?gs t] s assms(1,5) show ?thesis by simp
qed

lemma emit_requests_total:
  assumes "\<forall>r \<in> set rs. valid_request r"
    and "lastNumSubsts (SubstMerging M) = 0 \<or> merge_end M < length (Buffer M)"
  shows "\<exists>M' s. emit_requests rs M = Some M' \<and> Buffer M' = Buffer M @ s"
proof -
  have "writes (Buffer M) [] M" using assms(2) by (simp add: writes_def groups_text_def)
  from emit_requests_writes [OF this assms(1)] show ?thesis by (auto simp: writes_def)
qed

end
