(* ===== verification/Punycode_Roundtrip.thy ===== *)
theory Punycode_Roundtrip
  imports Punycode
begin

text \<open>
  The decoder of \<open>Punycode.cpp\<close> inverts its encoder on every identifier short enough for the
  \<open>int\<close> arithmetic, the UTF-8 converters invert each other, and the encoder does not return on
  inputs beyond the Unicode range that its own validity check lets through.
\<close>

section \<open>Digits\<close>

lemma digit_value_cases:
  assumes "0 \<le> d" "d < 36"
  obtains c where "digit_value d = Some c" "digit_index c = d" "c \<noteq> CHR ''_''"
proof (cases "d < 26")
  case True
  let ?c = "char_of (nat (97 + d)) :: char"
  from True assms have o: "int (ord ?c) = 97 + d" by simp
  then have "digit_index ?c = d" using True assms by (auto simp: digit_index_def)
  moreover have "digit_value d = Some ?c" using True assms by (simp add: digit_value_def)
  moreover have "?c \<noteq> CHR ''_''" using o True assms by (auto simp: char_eq_ord simp del: of_char_eq_iff)
  ultimately show thesis using that by blast
next
  case False
  let ?c = "char_of (nat (39 + d)) :: char"
  from False assms have o: "int (ord ?c) = 39 + d" by simp
  then have "digit_index ?c = d" using False assms by (auto simp: digit_index_def)
  moreover have "digit_value d = Some ?c" using False assms by (simp add: digit_value_def)
  moreover have "?c \<noteq> CHR ''_''" using o False assms by (auto simp: char_eq_ord simp del: of_char_eq_iff)
  ultimately show thesis using that by blast
qed

interpretation punycode_digit: codec "\<lambda>d. the (digit_value d)"
  "\<lambda>c. if digit_index c < 0 then None else Some (digit_index c)" "\<lambda>d. 0 \<le> d \<and> d < 36"
proof unfold_locales
  fix d :: int
  assume "0 \<le> d \<and> d < 36"
  then obtain c where "digit_value d = Some c" "digit_index c = d"
    by (metis digit_value_cases)
  with \<open>0 \<le> d \<and> d < 36\<close>
  show "(if digit_index (the (digit_value d)) < 0 then None
         else Some (digit_index (the (digit_value d)))) = Some d"
    by simp
qed

lemma threshold_range: "1 \<le> threshold k bias \<and> threshold k bias \<le> 26"
  by (simp add: threshold_def)

section \<open>Variable-length integers\<close>

lemma quotient_step:
  assumes "t \<le> (q :: int)" "1 \<le> t" "t \<le> 26"
  shows "0 \<le> (q - t) div (36 - t)"
    and "t + (q - t) mod (36 - t) + (36 - t) * ((q - t) div (36 - t)) = q"
    and "t + (q - t) mod (36 - t) < 36"
    and "t + (q - t) mod (36 - t) \<le> q"
proof -
  from assms show pos: "0 \<le> (q - t) div (36 - t)" by (simp add: pos_imp_zdiv_nonneg_iff)
  show eq: "t + (q - t) mod (36 - t) + (36 - t) * ((q - t) div (36 - t)) = q"
    using mult_div_mod_eq [of "36 - t" "q - t"] by linarith
  from assms show "t + (q - t) mod (36 - t) < 36"
    using pos_mod_bound [of "36 - t" "q - t"] by linarith
  from assms pos have "0 \<le> (36 - t) * ((q - t) div (36 - t))" by simp
  with eq show "t + (q - t) mod (36 - t) \<le> q" by linarith
qed

lemma encode_digits_step:
  assumes "threshold k bias \<le> q" "t = threshold k bias"
  shows "encode_digits bias q k = do {
      c \<leftarrow> digit_value (t + (q - t) mod (36 - t));
      cs \<leftarrow> encode_digits bias ((q - t) div (36 - t)) (k + 36);
      Some (c # cs) }"
  using assms threshold_range [of k bias] by (subst encode_digits.simps) (simp add: Let_def)

lemma encode_digits_Some:
  "0 \<le> q \<Longrightarrow> \<exists>ds. encode_digits bias q k = Some ds \<and> ds \<noteq> [] \<and> CHR ''_'' \<notin> set ds"
proof (induction bias q k rule: encode_digits.induct)
  case (1 bias q k)
  define t where "t = threshold k bias"
  have t: "1 \<le> t" "t \<le> 26" using threshold_range by (auto simp: t_def)
  show ?case
  proof (cases "q < t")
    case True
    then obtain c where "digit_value q = Some c" "c \<noteq> CHR ''_''"
      using "1.prems" t by (auto elim: digit_value_cases)
    with True show ?thesis by (subst encode_digits.simps) (auto simp: t_def)
  next
    case False
    note step = quotient_step [of t q, OF _ t]
    have d0: "0 \<le> t + (q - t) mod (36 - t)" using t by simp
    obtain c where c: "digit_value (t + (q - t) mod (36 - t)) = Some c" "c \<noteq> CHR ''_''"
      using False step(3) t digit_value_cases [of "t + (q - t) mod (36 - t)"] d0 by force
    have "(q - t) sdiv (36 - t) = (q - t) div (36 - t)" using False t by simp
    moreover have "t + (q - t) smod (36 - t) = t + (q - t) mod (36 - t)" using False t by simp
    ultimately obtain ds where "encode_digits bias ((q - t) div (36 - t)) (k + 36) = Some ds"
      "CHR ''_'' \<notin> set ds"
      using "1.IH" [OF t_def False] c(1) False step(1) by auto
    with c show ?thesis using False encode_digits_step [of k bias q t] by (auto simp: t_def)
  qed
qed

lemma decode_encode_digits:
  assumes "0 \<le> q" "0 \<le> i" "1 \<le> w" "w < 2147483648" "35 * (i + q * w) < 2147483648"
    and "encode_digits bias q k = Some ds"
  shows "decode_digits bias (ds @ rest) k i w = Some (i + q * w, rest)"
  using assms
proof (induction bias q k arbitrary: i w ds rule: encode_digits.induct)
  case (1 bias q k)
  define t where "t = threshold k bias"
  have t: "1 \<le> t" "t \<le> 26" using threshold_range by (auto simp: t_def)
  show ?case
  proof (cases "q < t")
    case True
    then obtain c where c: "digit_value q = Some c" "digit_index c = q"
      using "1.prems" t by (auto elim: digit_value_cases)
    from True c(1) "1.prems"(6) have "ds = [c]"
      by (subst (asm) encode_digits.simps) (auto simp: t_def)
    moreover have "0 \<le> q * w" using "1.prems" by simp
    then have "wrap32 (q * w) = q * w" "wrap32 (i + q * w) = i + q * w"
      using "1.prems"(2,5) by simp_all
    ultimately show ?thesis using True c "1.prems" by (simp add: t_def Let_def)
  next
    case False
    let ?d = "t + (q - t) mod (36 - t)" and ?q = "(q - t) div (36 - t)"
    note step = quotient_step [of t q, OF _ t]
    have d0: "t \<le> ?d" using t by simp
    obtain c where c: "digit_value ?d = Some c" "digit_index c = ?d"
      using False step(3) t d0 digit_value_cases [of ?d] by force
    from "1.prems"(6) obtain cs where ds: "ds = c # cs"
      and cs: "encode_digits bias ?q (k + 36) = Some cs"
      using False c(1) encode_digits_step [of k bias q t]
      by (auto simp: t_def bind_Some_iffs)
    have "w \<le> q * w" using "1.prems"(3) False t mult_right_mono [of 1 q w] by linarith
    then have "35 * w \<le> 35 * (i + q * w)" using "1.prems"(2) by (intro mult_left_mono) auto
    then have "w * 35 < 2147483648" using "1.prems"(5) by linarith
    moreover have "w * (36 - t) \<le> w * 35" using "1.prems"(3) t by (intro mult_left_mono) auto
    ultimately have w35: "w * (36 - t) < 2147483648" by linarith
    have dw: "0 \<le> ?d * w" "?d * w \<le> q * w"
      using "1.prems"(3) d0 t step(4) False by (auto intro!: mult_right_mono)
    have "i + ?d * w + ?q * (w * (36 - t)) = i + (?d + (36 - t) * ?q) * w"
      by (simp add: algebra_simps)
    then have total: "i + ?d * w + ?q * (w * (36 - t)) = i + q * w"
      using step(2) False by simp
    have w1: "1 \<le> w * (36 - t)" using "1.prems"(3) t mult_mono [of 1 w 1 "36 - t"] by simp
    have "decode_digits bias (cs @ rest) (k + 36) (i + ?d * w) (w * (36 - t))
        = Some (i + ?d * w + ?q * (w * (36 - t)), rest)"
    proof -
      have sd: "(q - t) sdiv (36 - t) = ?q" using False t by simp
      have c': "digit_value (t + (q - t) smod (36 - t)) = Some c" using c(1) False t by simp
      show ?thesis
        using "1.IH" [OF t_def False c', unfolded sd, of "i + ?d * w" "w * (36 - t)" cs]
          step(1) False "1.prems"(2,5) dw w1 w35 total cs by simp
    qed
    moreover have "wrap32 (?d * w) = ?d * w" "wrap32 (i + ?d * w) = i + ?d * w"
      "wrap32 (w * (36 - t)) = w * (36 - t)"
      using "1.prems"(2,5) dw w1 w35 by (auto intro!: wrap32_id)
    moreover have "\<not> digit_index c < 0" "\<not> digit_index c < t" using c(2) d0 t by linarith+
    ultimately show ?thesis
      unfolding total unfolding c(2) [symmetric] by (simp add: ds t_def [symmetric] Let_def)
  qed
qed

section \<open>Bias adaptation\<close>

lemma adapt_loop_nonneg: "0 \<le> delta \<Longrightarrow> 0 \<le> fst (adapt_loop delta k)"
proof (induction delta k rule: adapt_loop.induct)
  case (1 delta k)
  then show ?case by (subst adapt_loop.simps) auto
qed

lemma adapt_Some:
  assumes "0 \<le> delta" "delta < 2147483648" "1 \<le> numpoints"
  shows "\<exists>bias. adapt delta numpoints firsttime = Some bias"
proof -
  define d where "d = (if firsttime then delta div 700 else delta div 2)"
  have d: "0 \<le> d" "d \<le> delta div 2" using assms zdiv_mono2 [of delta 2 700] by (auto simp: d_def)
  have "0 \<le> d div numpoints" "d div numpoints \<le> d"
    using d(1) assms(3) zdiv_mono2 [of d 1 numpoints] by (auto simp: pos_imp_zdiv_nonneg_iff)
  with d assms have w: "wrap32 (d + d div numpoints) = d + d div numpoints"
    by (intro wrap32_id) auto
  obtain d' k where l: "adapt_loop (d + d div numpoints) 0 = (d', k)" by fastforce
  with \<open>0 \<le> d div numpoints\<close> d(1) have "0 \<le> d'"
    using adapt_loop_nonneg [of "d + d div numpoints" 0] by simp
  then have "d' + 38 \<noteq> 0" by simp
  with w l d(1) assms show ?thesis by (auto simp: adapt_def d_def)
qed

section \<open>One pass of the encoder, read by the decoder\<close>

text \<open>
  While the encoder passes over the input with the code point \<open>n\<close>, the decoder holds exactly
  the code points below \<open>n\<close> and those equal to \<open>n\<close> that the pass has gone by. The distance
  between the decoder's \<open>(n\<^sub>d, i\<^sub>d)\<close> and the encoder's place is the running \<open>delta\<close>.
\<close>

definition short :: "nat list \<Rightarrow> bool" where
  "short xs \<longleftrightarrow> (\<forall>c \<in> set xs. 35 * ((c + 1) * (length xs + 1)) < 2147483648)"

definition in_step :: "nat \<Rightarrow> nat \<Rightarrow> nat \<Rightarrow> int \<Rightarrow> nat \<Rightarrow> nat \<Rightarrow> int \<Rightarrow> bool" where
  "in_step b n h delta pos n\<^sub>d i\<^sub>d \<longleftrightarrow>
     0 \<le> i\<^sub>d \<and> 0 \<le> delta \<and> n\<^sub>d \<le> n \<and> pos \<le> h \<and> b \<le> h \<and>
     i\<^sub>d + delta = int pos + (int n - int n\<^sub>d) * (int h + 1) \<and> (i\<^sub>d = 0 \<longleftrightarrow> h = b)"

lemma in_step_bound:
  assumes "in_step b n h delta pos n\<^sub>d i\<^sub>d" "(n + 1) * (h + 1) \<le> B"
  shows "i\<^sub>d + delta \<le> int B"
proof -
  have "i\<^sub>d + delta \<le> int h + int n * (int h + 1)"
    using assms(1) mult_right_mono [of "int n - int n\<^sub>d" "int n" "int h + 1"]
    unfolding in_step_def by linarith
  also have "\<dots> \<le> int ((n + 1) * (h + 1))" by (simp add: algebra_simps)
  finally show ?thesis using assms(2) by linarith
qed

lemma decode_loop_digits:
  assumes ds: "encode_digits bias delta base = Some ds"
    and st: "in_step b n (length out) delta pos n\<^sub>d i\<^sub>d"
    and B: "(n + 1) * (length out + 1) \<le> B" "35 * B < 2147483648"
    and n: "128 \<le> n"
    and bias: "adapt delta (int (length out + 1)) (length out = b) = Some bias'"
  shows "decode_loop (ds @ rest) n\<^sub>d i\<^sub>d bias out
    = decode_loop rest n (int pos + 1) bias' (insert_at pos n out)"
proof -
  let ?h = "length out"
  have bnd: "i\<^sub>d + delta \<le> int B" using in_step_bound [OF st B(1)] .
  have st': "0 \<le> i\<^sub>d" "0 \<le> delta" "n\<^sub>d \<le> n" "pos \<le> ?h"
    "i\<^sub>d + delta = int pos + (int n - int n\<^sub>d) * (int ?h + 1)" "i\<^sub>d = 0 \<longleftrightarrow> ?h = b"
    using st by (auto simp: in_step_def)
  have "?h + 1 \<le> B" using B(1) mult_le_mono1 [of 1 "n + 1" "?h + 1"] by simp
  have dd: "decode_digits bias (ds @ rest) base i\<^sub>d 1 = Some (i\<^sub>d + delta, rest)"
    using decode_encode_digits [of delta i\<^sub>d 1 bias base ds rest] st' ds bnd B(2) by simp
  have ne: "ds @ rest \<noteq> []" using dd by (cases "ds @ rest") auto
  have nn: "n < 2 ^ 32"
    using B mult_le_mono2 [of 1 "?h + 1" "n + 1"] by simp
  have u: "u64 (i\<^sub>d + delta) = pos + (n - n\<^sub>d) * (?h + 1)"
  proof -
    have "i\<^sub>d + delta = int (pos + (n - n\<^sub>d) * (?h + 1))"
      using st'(3,5) by (simp only: of_nat_add of_nat_mult of_nat_diff of_nat_1)
    moreover from this have "pos + (n - n\<^sub>d) * (?h + 1) \<le> B" using bnd by linarith
    then have "pos + (n - n\<^sub>d) * (?h + 1) < 18446744073709551616" using B(2) by linarith
    ultimately show ?thesis by (simp only: u64_int)
  qed
  have q: "u64 (i\<^sub>d + delta) div (?h + 1) = n - n\<^sub>d" "u64 (i\<^sub>d + delta) mod (?h + 1) = pos"
    using st'(4) by (simp_all only: u) (simp_all add: div_mult_self3 del: mult_Suc_right)
  show ?thesis
    using dd ne q st'(1-4,6) n nn bias bnd B(2) \<open>?h + 1 \<le> B\<close>
    by (subst decode_loop.simps) auto
qed

abbreviation held :: "nat \<Rightarrow> nat list \<Rightarrow> nat list \<Rightarrow> nat list" where
  "held n us cs \<equiv> filter (\<lambda>c. c \<le> n) us @ filter (\<lambda>c. c < n) cs"

lemma length_held: "length (held n us cs) \<le> length (us @ cs)"
  by (simp add: add_mono)

lemma encode_pass_decode:
  assumes "in_step b n (length (held n us cs)) delta (length (filter (\<lambda>c. c \<le> n) us)) n\<^sub>d i\<^sub>d"
    and "(n + 1) * (length (us @ cs) + 1) \<le> B" "35 * B < 2147483648" "128 \<le> n"
  shows "\<exists>delta' bias' ds n\<^sub>d' i\<^sub>d'.
    encode_pass cs n b delta bias (length (held n us cs)) buf =
      Some (delta', bias', length (held n (us @ cs) []), buf @ ds) \<and>
    CHR ''_'' \<notin> set ds \<and>
    in_step b n (length (held n (us @ cs) [])) delta' (length (held n (us @ cs) [])) n\<^sub>d' i\<^sub>d' \<and>
    (\<forall>rest. decode_loop (ds @ rest) n\<^sub>d i\<^sub>d bias (held n us cs) =
            decode_loop rest n\<^sub>d' i\<^sub>d' bias' (held n (us @ cs) []))"
  using assms
proof (induction cs arbitrary: us delta bias buf n\<^sub>d i\<^sub>d)
  case Nil
  then show ?case by (intro exI [of _ delta] exI [of _ bias] exI [of _ "[]"] exI) auto
next
  case (Cons c cs)
  let ?out = "held n us (c # cs)" and ?h = "length (held n us (c # cs))"
  let ?pos = "length (filter (\<lambda>c. c \<le> n) us)"
  have B': "(n + 1) * (length ((us @ [c]) @ cs) + 1) \<le> B" using Cons.prems(2) by simp
  have hB: "(n + 1) * (?h + 1) \<le> B"
    using Cons.prems(2) length_held [of n us "c # cs"]
    by (meson add_le_mono1 le_trans mult_le_mono2)
  have bnd: "i\<^sub>d + delta \<le> int B" using in_step_bound [OF Cons.prems(1) hB] .
  show ?case
  proof (cases "c = n")
    case False
    define delta' where "delta' = (if c < n then delta + 1 else delta)"
    have pass: "encode_pass (c # cs) n b delta bias ?h buf
        = encode_pass cs n b delta' bias (length (held n (us @ [c]) cs)) buf"
      using False bnd Cons.prems(1,3) by (auto simp: delta'_def in_step_def Let_def)
    have out: "held n (us @ [c]) cs = ?out" using False by simp
    have "in_step b n (length (held n (us @ [c]) cs)) delta'
        (length (filter (\<lambda>c. c \<le> n) (us @ [c]))) n\<^sub>d i\<^sub>d"
      using Cons.prems(1) False by (auto simp: in_step_def delta'_def)
    from Cons.IH [OF this B' Cons.prems(3,4), of bias buf]
    show ?thesis by (simp only: pass out append_assoc append_Cons append_Nil)
  next
    case True
    have st: "0 \<le> delta" "0 \<le> i\<^sub>d" "delta < 2147483648" "?pos \<le> ?h"
      using Cons.prems(1,3) bnd by (auto simp: in_step_def)
    obtain ds where ds: "encode_digits bias delta base = Some ds" "CHR ''_'' \<notin> set ds"
      using encode_digits_Some [OF st(1)] by blast
    obtain bias' where bias': "adapt delta (int (?h + 1)) (?h = b) = Some bias'"
      using adapt_Some [of delta "int (?h + 1)"] st by auto
    have hw: "wrap32 (int (?h + 1)) = int (?h + 1)"
      using hB Cons.prems(3) mult_le_mono1 [of 1 "n + 1" "?h + 1"] by (intro wrap32_id) auto
    have out: "held n (us @ [c]) cs = insert_at ?pos n ?out" using True by simp
    have len: "length (held n (us @ [c]) cs) = ?h + 1" using True by simp
    have dec: "decode_loop (ds @ rest) n\<^sub>d i\<^sub>d bias ?out
        = decode_loop rest n (int ?pos + 1) bias' (held n (us @ [c]) cs)" for rest
      using decode_loop_digits [OF ds(1) Cons.prems(1) hB Cons.prems(3,4) bias'] out by simp
    have "in_step b n (length (held n (us @ [c]) cs)) 0
        (length (filter (\<lambda>c. c \<le> n) (us @ [c]))) n (int ?pos + 1)"
      using True st(2,4) Cons.prems(1) len by (auto simp: in_step_def)
    from Cons.IH [OF this B' Cons.prems(3,4), of bias' "buf @ ds"]
    obtain delta'' bias'' ds' n\<^sub>d' i\<^sub>d' where
      ih: "encode_pass cs n b 0 bias' (?h + 1) (buf @ ds) =
          Some (delta'', bias'', length (held n (us @ c # cs) []), buf @ ds @ ds')"
        "CHR ''_'' \<notin> set ds'"
        "in_step b n (length (held n (us @ c # cs) [])) delta'' (length (held n (us @ c # cs) []))
          n\<^sub>d' i\<^sub>d'"
        "\<And>rest. decode_loop (ds' @ rest) n (int ?pos + 1) bias' (held n (us @ [c]) cs) =
          decode_loop rest n\<^sub>d' i\<^sub>d' bias'' (held n (us @ c # cs) [])"
      unfolding len append_assoc append_Cons append_Nil by blast
    have "encode_pass (c # cs) n b delta bias ?h buf =
        Some (delta'', bias'', length (held n (us @ c # cs) []), buf @ ds @ ds')"
      using ih(1) ds(1) bias' hw True by (simp add: Let_def)
    moreover have "decode_loop ((ds @ ds') @ rest) n\<^sub>d i\<^sub>d bias ?out =
        decode_loop rest n\<^sub>d' i\<^sub>d' bias'' (held n (us @ c # cs) [])" for rest
      using dec [of "ds' @ rest"] ih(4) [of rest] by simp
    moreover have "CHR ''_'' \<notin> set (ds @ ds')" using ds(2) ih(2) by simp
    ultimately show ?thesis using ih(3) by blast
  qed
qed

section \<open>The whole encoder\<close>

lemma min_code_point_le: "min_code_point n m cps \<le> m"
proof (induction cps arbitrary: m)
  case (Cons x xs)
  show ?case using Cons [of x] Cons [of m] by (auto intro: order_trans)
qed simp

lemma min_code_point_lower: "c \<in> set cps \<Longrightarrow> n \<le> c \<Longrightarrow> min_code_point n m cps \<le> c"
proof (induction cps arbitrary: m)
  case (Cons x xs)
  show ?case
  proof (cases "c \<in> set xs")
    case True
    with Cons show ?thesis by simp
  next
    case False
    with Cons.prems have "x = c" by simp
    then show ?thesis
      using Cons.prems(2) min_code_point_le [of n "if n \<le> c \<and> c < m then c else m" xs]
      by (auto split: if_splits)
  qed
qed simp

lemma min_code_point_cases:
  "min_code_point n m cps = m \<or> (min_code_point n m cps \<in> set cps \<and> n \<le> min_code_point n m cps)"
proof (induction cps arbitrary: m)
  case (Cons x xs)
  show ?case using Cons [of "if n \<le> x \<and> x < m then x else m"] by (auto split: if_splits)
qed simp

lemma min_code_point_spec:
  assumes "c \<in> set cps" "n \<le> c" "\<forall>c \<in> set cps. c \<le> m"
  shows "min_code_point n m cps \<in> set cps" "n \<le> min_code_point n m cps"
proof -
  have "min_code_point n m cps \<le> c" using assms by (simp add: min_code_point_lower)
  then have "min_code_point n m cps = m \<Longrightarrow> min_code_point n m cps = c"
    using assms by (simp add: order_antisym)
  with min_code_point_cases [of n m cps] assms
  show "min_code_point n m cps \<in> set cps" "n \<le> min_code_point n m cps" by auto
qed

lemma filter_count_step:
  assumes "n \<le> m" "\<And>c. c \<in> set xs \<Longrightarrow> n \<le> c \<Longrightarrow> m \<le> c"
  shows "length (filter (\<lambda>c. c < n) xs) + length (filter (\<lambda>c. c = m) xs) =
    length (filter (\<lambda>c. c < Suc m) xs)"
  using assms
proof (induction xs)
  case (Cons x xs)
  have "x < n \<or> m \<le> x" using Cons.prems(2) [of x] by (meson list.set_intros(1) not_le)
  moreover have "length (filter (\<lambda>c. c < n) xs) + length (filter (\<lambda>c. c = m) xs) =
    length (filter (\<lambda>c. c < Suc m) xs)" using Cons by simp
  ultimately show ?case using \<open>n \<le> m\<close> by auto
qed simp

lemma encode_loop_decode:
  assumes "\<forall>c \<in> set xs. c \<le> 0x10FFFF" "short xs" "128 \<le> n" "n < 2 ^ 32"
    and "in_step b n (length (filter (\<lambda>c. c < n) xs)) delta 0 n\<^sub>d i\<^sub>d"
    and "delta < 2147483648"
  shows "\<exists>ds. encode_loop xs b n delta bias (length (filter (\<lambda>c. c < n) xs)) buf = Some (buf @ ds) \<and>
    CHR ''_'' \<notin> set ds \<and>
    decode_loop ds n\<^sub>d i\<^sub>d bias (filter (\<lambda>c. c < n) xs) = Some xs"
  using assms(3-6)
proof (induction "length xs - length (filter (\<lambda>c. c < n) xs)"
    arbitrary: n delta bias buf n\<^sub>d i\<^sub>d rule: less_induct)
  case less
  let ?h = "length (filter (\<lambda>c. c < n) xs)"
  show ?case
  proof (cases "?h < length xs")
    case False
    then have "length (filter (\<lambda>c. c < n) xs) = length xs"
      using length_filter_le [of "\<lambda>c. c < n" xs] by simp
    then have "filter (\<lambda>c. c < n) xs = xs"
      by (metis filter_id_conv length_filter_less nat_less_le)
    moreover have "decode_loop [] n\<^sub>d i\<^sub>d bias out = Some out" for out
      by (subst decode_loop.simps) simp
    ultimately show ?thesis using False by (subst encode_loop.simps) simp
  next
    case True
    then obtain c where c: "c \<in> set xs" "n \<le> c"
      by (metis filter_True linorder_not_le nat_less_le)
    define m where "m = min_code_point n 0x10FFFF xs"
    have m: "m \<in> set xs" "n \<le> m" using min_code_point_spec [OF c assms(1)] by (auto simp: m_def)
    define B where "B = (m + 1) * (length xs + 1)"
    have mB: "35 * B < 2147483648" using assms(2) m(1) unfolding short_def B_def by blast
    have m1B: "m + 1 \<le> B" by (simp add: B_def)
    have same: "filter (\<lambda>c. c < m) xs = filter (\<lambda>c. c < n) xs"
      using m(2) min_code_point_lower [of _ xs n "0x10FFFF", folded m_def]
      by (intro filter_cong) (auto simp: linorder_not_less [symmetric])
    define delta' where "delta' = delta + (int m - int n) * (int ?h + 1)"
    have st: "in_step b m (length (held m [] xs)) delta' (length (filter (\<lambda>c. c \<le> m) [])) n\<^sub>d i\<^sub>d"
    proof -
      have "int n + int n * int ?h \<le> int m + int m * int ?h"
        using m(2) by (intro add_mono mult_right_mono) auto
      with less.prems(3) m(2) show ?thesis
        by (auto simp: in_step_def same delta'_def algebra_simps)
    qed
    have "(m + 1) * (length (held m [] xs) + 1) \<le> B"
      unfolding B_def by (intro mult_le_mono2) simp
    then have "i\<^sub>d + delta' \<le> int B" by (rule in_step_bound [OF st])
    moreover have "0 \<le> i\<^sub>d" "0 \<le> delta'" using st by (simp_all add: in_step_def)
    ultimately have d': "wrap32 delta' = delta'" "delta' < 2147483648" using mB by auto
    have sub: "(m + 2 ^ 32 - n) mod 2 ^ 32 = m - n"
      using m(2) mB m1B by (simp add: mod_if)
    have conv: "int ((m - n) * (?h + 1)) = (int m - int n) * (int ?h + 1)"
      using m(2) by (simp only: of_nat_mult of_nat_diff of_nat_add of_nat_1)
    obtain delta2 bias2 ds2 n2 i2 where pass:
      "encode_pass xs m b delta' bias (length (held m [] xs)) buf =
        Some (delta2, bias2, length (held m ([] @ xs) []), buf @ ds2)"
      "CHR ''_'' \<notin> set ds2"
      "in_step b m (length (held m ([] @ xs) [])) delta2 (length (held m ([] @ xs) [])) n2 i2"
      "\<And>rest. decode_loop (ds2 @ rest) n\<^sub>d i\<^sub>d bias (held m [] xs) =
              decode_loop rest n2 i2 bias2 (held m ([] @ xs) [])"
      using encode_pass_decode [OF st, of B bias buf] mB m(2) less.prems(1)
      by (auto simp: B_def)
    let ?n = "m + 1"
    have n32: "?n mod 2 ^ 32 = ?n" "?n < 2 ^ 32"
      using mB m1B by auto
    have keep: "filter (\<lambda>c. c < ?n) xs = held m ([] @ xs) []" by (simp add: less_Suc_eq_le)
    have more: "?h < length (filter (\<lambda>c. c < ?n) xs)"
    proof -
      have "0 < length (filter (\<lambda>c. c = m) xs)"
        using m(1) by (auto simp: filter_empty_conv)
      moreover have "?h + length (filter (\<lambda>c. c = m) xs) = length (filter (\<lambda>c. c < Suc m) xs)"
        using m(2) min_code_point_lower [of _ xs n "0x10FFFF", folded m_def]
        by (rule filter_count_step)
      ultimately show ?thesis unfolding Suc_eq_plus1 by linarith
    qed
    have h2: "length (filter (\<lambda>c. c < ?n) xs) \<le> length xs" by simp
    have "i2 + delta2 \<le> int B"
      by (rule in_step_bound [OF pass(3)]) (unfold B_def, intro mult_le_mono2, use h2 keep in simp)
    moreover have "0 \<le> i2" "0 \<le> delta2" using pass(3) by (simp_all add: in_step_def)
    ultimately have d2: "delta2 + 1 < 2147483648" "0 \<le> delta2" using mB by auto
    have "in_step b ?n (length (filter (\<lambda>c. c < ?n) xs)) (delta2 + 1) 0 n2 i2"
      using pass(3) unfolding keep by (auto simp: in_step_def algebra_simps)
    moreover have "length xs - length (filter (\<lambda>c. c < ?n) xs) < length xs - ?h"
      using more h2 by linarith
    moreover have "128 \<le> ?n" using less.prems(1) m(2) by simp
    ultimately obtain ds3 where ih:
      "encode_loop xs b ?n (delta2 + 1) bias2 (length (filter (\<lambda>c. c < ?n) xs)) (buf @ ds2)
        = Some ((buf @ ds2) @ ds3)"
      "CHR ''_'' \<notin> set ds3"
      "decode_loop ds3 n2 i2 bias2 (filter (\<lambda>c. c < ?n) xs) = Some xs"
      using less.hyps n32(2) d2(1) by blast
    have w2: "wrap32 (delta2 + 1) = delta2 + 1" using d2 by simp
    have "encode_loop xs b n delta bias ?h buf = Some (buf @ ds2 @ ds3)"
      using True pass(1) ih(1) d' w2 n32 sub
      by (subst encode_loop.simps)
        (simp only: m_def [symmetric] conv delta'_def [symmetric] same keep
          if_False Let_def simp_thms bind.bind_lunit case_prod_conv append_assoc append_Nil
          append_Nil2 filter.simps(1))
    moreover have "decode_loop (ds2 @ ds3) n\<^sub>d i\<^sub>d bias (filter (\<lambda>c. c < n) xs) = Some xs"
      using pass(4) [of ds3] ih(3) by (simp add: same less_Suc_eq_le)
    ultimately show ?thesis using pass(2) ih(2) by auto
  qed
qed

lemma encode_basic_spec:
  "\<forall>c \<in> set cps. isValidUnicodeScalar c \<Longrightarrow>
   encode_basic cps h out = Some (h + length (filter (\<lambda>c. c < 128) cps),
     out @ map char_of (filter (\<lambda>c. c < 128) cps))"
  by (induction cps arbitrary: h out) auto

lemma copy_basic_spec:
  "\<forall>c \<in> set cps. c < 128 \<Longrightarrow> copy_basic (map char_of cps) out = Inr (out @ cps)"
  by (induction cps arbitrary: out) auto

definition punycodable :: "nat list \<Rightarrow> bool" where
  "punycodable cps \<longleftrightarrow> (\<forall>c \<in> set cps. isValidUnicodeScalar c \<and> c \<le> 0x10FFFF) \<and> short cps"

lemma decode_encodePunycode:
  assumes "punycodable cps"
  shows "\<exists>s. encodePunycode cps = Some (True, s) \<and> decodePunycode s = Some (True, cps)"
proof -
  let ?b = "filter (\<lambda>c. c < 128) cps"
  let ?pre = "if length ?b > 0 then map char_of ?b @ [CHR ''_''] else map char_of ?b"
  have eb: "encode_basic cps 0 [] = Some (length ?b, map char_of ?b)"
    using assms encode_basic_spec [of cps 0 "[]"] by (simp add: punycodable_def)
  have st: "in_step (length ?b) 128 (length ?b) 0 0 128 0" by (simp add: in_step_def)
  obtain ds where ds:
    "encode_loop cps (length ?b) 128 0 initial_bias (length ?b) ?pre = Some (?pre @ ds)"
    "CHR ''_'' \<notin> set ds" "decode_loop ds 128 0 initial_bias ?b = Some cps"
    using encode_loop_decode [OF _ _ _ _ st, of initial_bias ?pre] assms
    by (auto simp: punycodable_def)
  have "decodePunycode (?pre @ ds) = Some (True, cps)"
  proof (cases "?b = []")
    case True
    then have "split_last delimiter (?pre @ ds) = None"
      using ds(2) by (simp add: split_last_None_iff)
    with True ds(3) show ?thesis by (simp add: decodePunycode_def)
  next
    case False
    then have "split_last delimiter (?pre @ ds) = Some (map char_of ?b, ds)"
      using split_last_append [OF ds(2)] by simp
    moreover have "copy_basic (map char_of ?b) [] = Inr ?b"
      using copy_basic_spec [of ?b "[]"] by simp
    ultimately show ?thesis using ds(3) by (simp add: decodePunycode_def)
  qed
  with eb ds(1) show ?thesis by (auto simp: encodePunycode_def)
qed

interpretation punycode: codec "\<lambda>cps. map_option snd (encodePunycode cps)"
  "\<lambda>s. do { s \<leftarrow> s; (ok, cps) \<leftarrow> decodePunycode s; if ok then Some cps else None }" punycodable
proof unfold_locales
  fix cps
  assume "punycodable cps"
  then obtain s where "encodePunycode cps = Some (True, s)" "decodePunycode s = Some (True, cps)"
    using decode_encodePunycode by blast
  then show "do { s \<leftarrow> map_option snd (encodePunycode cps);
      (ok, cps) \<leftarrow> decodePunycode s; if ok then Some cps else None } = Some cps"
    by simp
qed

section \<open>Beyond the Unicode range\<close>

text \<open>
  A run of the outer loop over an input with a code point above \<open>0x10FFFF\<close>, and none equal to
  it, never gets that code point: the search for the next one starts from \<open>0x10FFFF\<close>.
\<close>

lemma encode_pass_count:
  "encode_pass cs n b delta bias h out = Some (delta', bias', h', out')
    \<Longrightarrow> h' = h + length (filter (\<lambda>c. c = n) cs)"
proof (induction cs arbitrary: delta bias h out)
  case (Cons c cs)
  then show ?case
    by (cases "c = n") (auto simp: Let_def bind_Some_iffs split: if_splits dest!: Cons.IH)
qed simp

definition beyond_unicode :: "nat list \<Rightarrow> bool" where
  "beyond_unicode cps \<longleftrightarrow> (\<exists>c \<in> set cps. 0x10FFFF < c) \<and> 0x10FFFF \<notin> set cps"

lemma encode_loop_stuck:
  assumes ret: "encode_loop xs b n delta bias h out = Some r"
    and "beyond_unicode xs" "h = length (filter (\<lambda>c. c < min n 0x10FFFF) xs)"
  shows False
proof -
  have "beyond_unicode xs \<longrightarrow> h = length (filter (\<lambda>c. c < min n 0x10FFFF) xs) \<longrightarrow> False"
  proof (rule encode_loop.raw_induct [where P = "\<lambda>xs b n delta bias h out r. beyond_unicode xs \<longrightarrow>
        h = length (filter (\<lambda>c. c < min n 0x10FFFF) xs) \<longrightarrow> False", OF _ ret], intro impI)
    fix f xs b n delta bias h out r
    assume IH: "\<And>xs b n delta bias h out r. f xs b n delta bias h out = Some r \<Longrightarrow>
        beyond_unicode xs \<longrightarrow> h = length (filter (\<lambda>c. c < min n 0x10FFFF) xs) \<longrightarrow> False"
      and bey: "beyond_unicode xs" and h: "h = length (filter (\<lambda>c. c < min n 0x10FFFF) xs)"
      and eq: "(if \<not> h < length xs then Some out
        else do {
          let m = min_code_point n 0x10FFFF xs;
          let delta = wrap32 (delta + int ((m + 2 ^ 32 - n) mod 2 ^ 32 * (h + 1)));
          (delta, bias, h, out) \<leftarrow> encode_pass xs m b delta bias h out;
          f xs b ((m + 1) mod 2 ^ 32) (wrap32 (delta + 1)) bias h out }) = Some r"
    let ?m = "min_code_point n 0x10FFFF xs"
    obtain c where "c \<in> set xs" "0x10FFFF < c" using bey by (auto simp: beyond_unicode_def)
    then have "h < length xs" unfolding h by (auto intro!: length_filter_less)
    with eq obtain delta1 delta' bias' h' out' where
      pass: "encode_pass xs ?m b delta1 bias h out = Some (delta', bias', h', out')"
      and rest: "f xs b ((?m + 1) mod 2 ^ 32) (wrap32 (delta' + 1)) bias' h' out' = Some r"
      by (auto simp: bind_Some_iffs Let_def)
    have m: "?m \<le> 0x10FFFF" by (rule min_code_point_le)
    have "?m + 1 = (?m + 1) mod 2 ^ 32" using m by simp
    moreover have "h' = length (filter (\<lambda>c. c < min (?m + 1) 0x10FFFF) xs)"
    proof (cases "?m = 0x10FFFF")
      case True
      then have "filter (\<lambda>c. c < min n 0x10FFFF) xs = filter (\<lambda>c. c < 0x10FFFF) xs"
        using min_code_point_lower [of _ xs n "0x10FFFF"]
        by (intro filter_cong) (auto simp: not_less [symmetric] dest: leD)
      moreover have "filter (\<lambda>c. c = 0x10FFFF) xs = []"
        using bey by (auto simp: beyond_unicode_def filter_empty_conv)
      ultimately show ?thesis using encode_pass_count [OF pass] h True by simp
    next
      case False
      then have lt: "?m < 0x10FFFF" "n \<le> ?m" using m min_code_point_cases [of n "0x10FFFF" xs] by auto
      have "length (filter (\<lambda>c. c < n) xs) + length (filter (\<lambda>c. c = ?m) xs)
          = length (filter (\<lambda>c. c < Suc ?m) xs)"
        by (rule filter_count_step) (use lt min_code_point_lower in auto)
      with lt show ?thesis using encode_pass_count [OF pass] h by simp
    qed
    ultimately show False using IH [OF rest] bey by simp
  qed
  with assms(2,3) show False by blast
qed

lemma encodePunycode_stuck:
  assumes "beyond_unicode cps" "\<forall>c \<in> set cps. isValidUnicodeScalar c"
  shows "encodePunycode cps = None"
proof -
  let ?b = "length (filter (\<lambda>c. c < 128) cps)"
  let ?out = "map char_of (filter (\<lambda>c. c < 128) cps)"
  have "encode_loop cps ?b 128 0 initial_bias ?b out = None" for out
  proof (rule ccontr)
    assume "encode_loop cps ?b 128 0 initial_bias ?b out \<noteq> None"
    then obtain r where r: "encode_loop cps ?b 128 0 initial_bias ?b out = Some r" by blast
    show False by (rule encode_loop_stuck [OF r assms(1)]) simp
  qed
  with encode_basic_spec [OF assms(2), of 0 "[]"] show ?thesis
    by (simp add: encodePunycode_def)
qed

end
