(* ===== verification/Punycode_UTF8.thy ===== *)
theory Punycode_UTF8
  imports Punycode_Roundtrip
begin

text \<open>
  The UTF-8 side of \<open>Punycode.cpp\<close>: the bit manipulations of the two converters as arithmetic,
  their round trip, and the round trip of the whole identifier encoding.
\<close>

unbundle bit_operations_syntax

section \<open>Bit fields as arithmetic\<close>

lemma or_shift:
  assumes "a < 2 ^ k"
  shows "push_bit k b OR a = b * 2 ^ k + (a :: nat)"
proof -
  have "\<not> bit a n" if "k \<le> n" for n
    using assms that by (metis bit_take_bit_iff linorder_not_less take_bit_nat_eq_self)
  then have "\<not> bit (push_bit k b) n \<or> \<not> bit a n" for n
    by (auto simp: bit_push_bit_iff_nat)
  then have "push_bit k b + a = push_bit k b OR a" by (rule disjunctive_add)
  then show ?thesis by (simp add: push_bit_eq_mult)
qed

lemma and_low: "(n :: nat) AND 0x3F = n mod 64" "n AND 0x1F = n mod 32" "n AND 0xF = n mod 16"
  "n AND 0x7 = n mod 8"
proof -
  have "n AND mask k = n mod 2 ^ k" for k
    by (simp add: take_bit_eq_mask [symmetric] take_bit_eq_mod)
  from this [of 6] this [of 5] this [of 4] this [of 3]
  show "n AND 0x3F = n mod 64" "n AND 0x1F = n mod 32" "n AND 0xF = n mod 16" "n AND 0x7 = n mod 8"
    by (simp_all add: mask_eq_exp_minus_1)
qed

lemma nat_and_or_distrib:
  "(x :: nat) AND (y OR z) = (x AND y) OR (x AND z)"
  "((y :: nat) OR z) AND x = (y AND x) OR (z AND x)"
  by (rule bit_eqI, auto simp: bit_simps)+

lemma continuation_bits: "((S :: nat) OR 0x80) AND 0xBF = 128 + S mod 64"
proof -
  have "(S OR 0x80) AND 0xBF = (S OR 0x80) AND (0x3F OR 0x80)" by simp
  also have "\<dots> = ((S OR 0x80) AND 0x3F) OR ((S OR 0x80) AND 0x80)"
    by (rule nat_and_or_distrib)
  also have "(S OR 0x80) AND 0x80 = 0x80" by (simp add: nat_and_or_distrib) (rule bit_eqI, auto simp: bit_simps)
  also have "(S OR 0x80) AND 0x3F = S AND 0x3F" by (simp add: nat_and_or_distrib)
  finally have "(S OR 0x80) AND 0xBF = push_bit 7 1 OR S mod 64" by (simp add: and_low or.commute)
  also have "\<dots> = 1 * 2 ^ 7 + S mod 64" by (rule or_shift) (simp add: order_less_trans)
  finally show ?thesis by simp
qed

lemma lead_bits:
  "S < 64 \<Longrightarrow> (S :: nat) OR 0xC0 = 192 + S"
  "S < 32 \<Longrightarrow> S OR 0xE0 = 224 + S"
  "S < 16 \<Longrightarrow> S OR 0xF0 = 240 + S"
  using or_shift [of S 6 3] or_shift [of S 5 7] or_shift [of S 4 15]
  by (simp_all add: or.commute push_bit_eq_mult)

lemma isContinuationByte_char:
  assumes "(n :: nat) < 64"
  shows "isContinuationByte (char_of (128 + n))"
proof -
  have "(128 + n) AND 0xC0 = (push_bit 7 (1 :: nat) OR n) AND 0xC0"
    using or_shift [of n 7 1] assms by simp
  also have "\<dots> = 0x80 OR (n AND 0xC0)"
    by (simp add: nat_and_or_distrib push_bit_eq_mult)
  also have "n AND 0xC0 = 0"
  proof -
    have "n = n AND 0x3F" using assms by (simp add: and_low)
    then have "n AND 0xC0 = n AND (0x3F AND 0xC0)" by (metis and.assoc)
    then show ?thesis by simp
  qed
  finally show ?thesis using assms by (simp add: isContinuationByte_def)
qed

section \<open>One scalar\<close>

definition symbol_scalar :: "bool \<Rightarrow> nat \<Rightarrow> nat" where
  "symbol_scalar mapNonSymbolChars S =
     (if S < 0x80 \<and> mapNonSymbolChars \<and> \<not> isValidSymbolChar (char_of S) then S + 0xD800 else S)"

lemma utf8_bytes_arith:
  "S < 0x80 \<Longrightarrow> utf8_bytes S = [char_of S]"
  "0x80 \<le> S \<Longrightarrow> S < 0x800 \<Longrightarrow> utf8_bytes S =
     [char_of (192 + S div 64), char_of (128 + S mod 64)]"
  "0x800 \<le> S \<Longrightarrow> S < 0x10000 \<Longrightarrow> utf8_bytes S =
     [char_of (224 + S div 4096), char_of (128 + S div 64 mod 64), char_of (128 + S mod 64)]"
  "0x10000 \<le> S \<Longrightarrow> S < 0x200000 \<Longrightarrow> utf8_bytes S =
     [char_of (240 + S div 262144), char_of (128 + S div 4096 mod 64),
      char_of (128 + S div 64 mod 64), char_of (128 + S mod 64)]"
  by (simp_all add: utf8_bytes_def continuation_bits lead_bits drop_bit_eq_div
      div_mult2_eq [symmetric])

lemma convert_lead:
  assumes "S < 0x80"
  shows "convertUTF8toUTF32 b (utf8_bytes S @ rest) out =
    convertUTF8toUTF32 b rest (out @ [symbol_scalar b S])"
  using assms by (auto simp: utf8_bytes_arith symbol_scalar_def convertUTF8toUTF32.simps)

lemma lead_mod:
  "x < 32 \<Longrightarrow> (192 + x) mod 32 = (x :: nat)"
  "x < 16 \<Longrightarrow> (224 + x) mod 16 = (x :: nat)"
  "x < 8 \<Longrightarrow> (240 + x) mod 8 = (x :: nat)"
  "x < 64 \<Longrightarrow> (128 + x) mod 64 = (x :: nat)"
  by (subst mod_add_eq [symmetric], simp)+

lemma convert_sequences:
  "x < 32 \<Longrightarrow> y < 64 \<Longrightarrow>
     convertUTF8toUTF32 b (char_of (192 + x) # char_of (128 + y) # rest) out =
     convertUTF8toUTF32 b rest (out @ [64 * x + y])"
  "x < 16 \<Longrightarrow> y < 64 \<Longrightarrow> z < 64 \<Longrightarrow>
     convertUTF8toUTF32 b (char_of (224 + x) # char_of (128 + y) # char_of (128 + z) # rest) out =
     convertUTF8toUTF32 b rest (out @ [4096 * x + 64 * y + z])"
  "x < 8 \<Longrightarrow> y < 64 \<Longrightarrow> z < 64 \<Longrightarrow> v < 64 \<Longrightarrow>
     convertUTF8toUTF32 b
       (char_of (240 + x) # char_of (128 + y) # char_of (128 + z) # char_of (128 + v) # rest) out =
     convertUTF8toUTF32 b rest (out @ [262144 * x + 4096 * y + 64 * z + v])"
  by (simp_all add: convertUTF8toUTF32.simps(2) isContinuationByte_char and_low or_shift lead_mod
      mult.commute [of _ "_ :: nat"] add.assoc)

lemma scalar_digits:
  "64 * (S div 64) + S mod 64 = (S :: nat)"
  "4096 * (S div 4096) + 64 * (S div 64 mod 64) + S mod 64 = S"
  "262144 * (S div 262144) + 4096 * (S div 4096 mod 64) + 64 * (S div 64 mod 64) + S mod 64 = S"
proof -
  have d: "S div 4096 = S div 64 div 64" "S div 262144 = S div 4096 div 64"
    by (simp_all add: div_mult2_eq [symmetric])
  show 1: "64 * (S div 64) + S mod 64 = S" by simp
  have 2: "64 * (S div 4096) + S div 64 mod 64 = S div 64" by (simp add: d)
  with 1 show "4096 * (S div 4096) + 64 * (S div 64 mod 64) + S mod 64 = S" by linarith
  have "64 * (S div 262144) + S div 4096 mod 64 = S div 4096" by (simp only: d(2)) simp
  with 1 2 show "262144 * (S div 262144) + 4096 * (S div 4096 mod 64) + 64 * (S div 64 mod 64)
    + S mod 64 = S" by linarith
qed

lemma convert_scalar:
  assumes "S < 0x200000"
  shows "convertUTF8toUTF32 b (utf8_bytes S @ rest) out =
    convertUTF8toUTF32 b rest (out @ [symbol_scalar b S])"
proof -
  consider "S < 0x80" | "0x80 \<le> S" "S < 0x800" | "0x800 \<le> S" "S < 0x10000"
    | "0x10000 \<le> S" by linarith
  then show ?thesis
  proof cases
    case 1
    then show ?thesis by (rule convert_lead)
  next
    case 2
    then have "S div 64 < 32" "symbol_scalar b S = S" by (auto simp: symbol_scalar_def)
    then show ?thesis
      using convert_sequences(1) [of "S div 64" "S mod 64" b rest out]
      by (simp only: utf8_bytes_arith(2) [OF 2] append_Cons append_Nil scalar_digits)
  next
    case 3
    then have "S div 4096 < 16" "symbol_scalar b S = S" by (auto simp: symbol_scalar_def)
    then show ?thesis
      using convert_sequences(2) [of "S div 4096" "S div 64 mod 64" "S mod 64" b rest out]
      by (simp only: utf8_bytes_arith(3) [OF 3] append_Cons append_Nil scalar_digits)
  next
    case 4
    then have "S div 262144 < 8" "symbol_scalar b S = S" using assms
      by (auto simp: symbol_scalar_def)
    then show ?thesis
      using convert_sequences(3)
        [of "S div 262144" "S div 4096 mod 64" "S div 64 mod 64" "S mod 64" b rest out]
      by (simp only: utf8_bytes_arith(4) [OF 4 assms] append_Cons append_Nil scalar_digits)
  qed
qed

section \<open>Whole strings\<close>

text \<open>
  \<open>utf8 cps\<close> is the UTF-8 text of the scalars \<open>cps\<close>; the surrogate range, part of which stands
  for ASCII characters in the encoded form, is not used by text.
\<close>

definition utf8 :: "nat list \<Rightarrow> string" where
  "utf8 cps = concat (map utf8_bytes cps)"

definition text_scalar :: "nat \<Rightarrow> bool" where
  "text_scalar S \<longleftrightarrow> S < 0xD800 \<or> (0xE000 \<le> S \<and> S \<le> 0x1FFFFF)"

lemma convertUTF8toUTF32_utf8:
  "\<forall>S \<in> set cps. S < 0x200000 \<Longrightarrow>
   convertUTF8toUTF32 b (utf8 cps) out = (True, out @ map (symbol_scalar b) cps)"
  by (induction cps arbitrary: out) (auto simp: utf8_def convert_scalar)

lemma encodeToUTF8_symbol:
  "\<forall>S \<in> set cps. text_scalar S \<Longrightarrow>
   encodeToUTF8 (map (symbol_scalar b) cps) out = (True, out @ utf8 cps)"
proof (induction cps arbitrary: out)
  case (Cons S cps)
  then have "text_scalar S" by simp
  then have "isValidUnicodeScalar (symbol_scalar b S)"
    and "(if symbol_scalar b S \<ge> 0xD800 \<and> symbol_scalar b S < 0xD880
          then symbol_scalar b S - 0xD800 else symbol_scalar b S) = S"
    by (auto simp: isValidUnicodeScalar_def symbol_scalar_def text_scalar_def)
  with Cons show ?case by (simp add: utf8_def Let_def)
qed (simp add: utf8_def)

lemma decode_encodePunycodeUTF8:
  assumes "\<forall>S \<in> set cps. text_scalar S" "punycodable (map (symbol_scalar b) cps)"
  shows "\<exists>p. encodePunycodeUTF8 (utf8 cps) b = Some (True, p) \<and>
    decodePunycodeUTF8 p = Some (True, utf8 cps)"
proof -
  obtain p where p: "encodePunycode (map (symbol_scalar b) cps) = Some (True, p)"
    "decodePunycode p = Some (True, map (symbol_scalar b) cps)"
    using decode_encodePunycode [OF assms(2)] by blast
  have "\<forall>S \<in> set cps. S < 0x200000" using assms(1) by (auto simp: text_scalar_def)
  then have "encodePunycodeUTF8 (utf8 cps) b = Some (True, p)"
    using p(1) by (simp add: encodePunycodeUTF8_def convertUTF8toUTF32_utf8)
  moreover have "decodePunycodeUTF8 p = Some (True, utf8 cps)"
    using p(2) assms(1) by (simp add: decodePunycodeUTF8_def encodeToUTF8_symbol)
  ultimately show ?thesis by blast
qed

interpretation utf8: codec utf8
  "\<lambda>s. let (ok, cps) = convertUTF8toUTF32 False s [] in if ok then Some cps else None"
  "\<lambda>cps. \<forall>S \<in> set cps. S < 0x200000"
  by unfold_locales (auto simp: convertUTF8toUTF32_utf8 symbol_scalar_def map_idI)

end
