(* ===== verification/Identifier_Roundtrip.thy ===== *)
theory Identifier_Roundtrip
  imports Identifier_Segments Substitution_Merging Punycode_UTF8
begin

text \<open>
  Identifiers survive \<open>mangleIdentifier\<close> and \<open>demangleIdentifier\<close>, with word substitutions. The
  relation \<open>stored\<close> says that the words the mangler remembers, as positions in its buffer, are the
  words the demangler has collected; both operations keep it.
\<close>

section \<open>Words in the buffer\<close>

definition stored :: "string \<Rightarrow> SubstitutionWord list \<Rightarrow> string list \<Rightarrow> bool" where
  "stored buf ws K \<longleftrightarrow> list_all2 (\<lambda>w k. substr buf w = k \<and> word_length w = length k \<and>
     word_start w + word_length w \<le> length buf) ws K"

lemma stored_Nil [simp]: "stored buf [] []"
  by (simp add: stored_def)

lemma stored_length: "stored buf ws K \<Longrightarrow> length ws = length K"
  by (simp add: stored_def list_all2_lengthD)

lemma stored_append: "stored buf ws K \<Longrightarrow> stored (buf @ s) ws K"
  by (auto simp: stored_def substr_def elim!: list_all2_mono)

lemma stored_nth: "stored buf ws K \<Longrightarrow> i < length K \<Longrightarrow> word_length (ws ! i) = length (K ! i)"
  by (auto simp: stored_def list_all2_conv_all_nth)

lemma stored_known:
  assumes "stored buf ws K"
  shows "known buf ident (length ws) ws = K"
  using assms by (auto simp: known_def stored_def list_all2_conv_all_nth intro: nth_equalityI)

lemma stored_new_words:
  "stored (buf @ u) A K \<Longrightarrow>
   stored (buf @ u @ tokens_text ts t)
     (A @ map (to_buffer p (length buf)) (new_words K (p + length u) ts)) (words_after K ts)"
proof (induction ts arbitrary: u A K)
  case Nil
  then show ?case using stored_append [of "buf @ u" A K t] by simp
next
  case (Cons x ts)
  obtain g w where x: "x = (g, w)" by force
  let ?u = "u @ g @ w" and ?s = "p + length u + length g"
  let ?w = "to_buffer p (length buf) \<lparr>word_start = ?s, word_length = length w\<rparr>"
  have A: "stored (buf @ ?u) A K" using stored_append [OF Cons.prems, of "g @ w"] by simp
  have "substr (buf @ ?u) ?w = w \<and> word_length ?w = length w \<and> word_start ?w + word_length ?w \<le> length (buf @ ?u)"
    by (simp add: substr_def to_buffer_def)
  with A have "stored (buf @ ?u) (A @ [?w]) (K @ [w])" unfolding stored_def by (simp add: list_all2_appendI)
  with A Cons.IH [of ?u "A @ [?w]" "K @ [w]"] Cons.IH [of ?u A K] show ?case
    by (simp add: x add_word_def add.assoc)
qed

section \<open>Writing a plan\<close>

definition lit_text :: "string \<Rightarrow> string" where
  "lit_text l = (if l = [] then [] else decimal (length l) @ l)"

fun body :: "segment list \<Rightarrow> string \<Rightarrow> string" where
  "body [] l = lit_text l"
| "body ((ts, g, w, i) # ss) l = lit_text (tokens_text ts g) @
     (if ss = [] then upper_char i # (if l = [] then ''0'' else []) else [lower_char i]) @ body ss l"

definition literal_ok :: "string \<Rightarrow> bool" where
  "literal_ok l \<longleftrightarrow> length l < 2147483648 \<and> (l = [] \<or> \<not> isDigit (hd l))"

fun layout :: "segment list \<Rightarrow> token list \<Rightarrow> string \<Rightarrow> bool" where
  "layout [] tt t \<longleftrightarrow> tokens tt t \<and> literal_ok (tokens_text tt t)"
| "layout ((ts, g, w, i) # ss) tt t \<longleftrightarrow>
     tokens ts g \<and> literal_ok (tokens_text ts g) \<and> w \<noteq> [] \<and> layout ss tt t"

lemma literal_ok_prefix: "literal_ok (l @ r) \<Longrightarrow> literal_ok l"
  by (auto simp: literal_ok_def)

lemma ends_word_ok:
  assumes "ends_word w r" "length r < 2147483648"
  shows "literal_ok r"
  using assms by (auto simp: ends_word_def literal_ok_def isWordEnd_def char_defs split: if_splits)

lemma layout_tokens:
  "tokens (plan_tokens ss tt) t \<Longrightarrow> literal_ok (tokens_text (plan_tokens ss tt) t) \<Longrightarrow> layout ss tt t"
proof (induction ss)
  case (Cons s ss)
  obtain ts g w i where s: "s = (ts, g, w, i)" by (cases s) auto
  let ?r = "tokens_text (plan_tokens ss tt) t"
  have tok: "tokens (ts @ (g, w) # plan_tokens ss tt) t" using Cons.prems(1) by (simp add: s)
  have whole: "tokens_text (plan_tokens (s # ss) tt) t = tokens_text ts g @ w @ ?r"
    by (simp add: s tokens_text_append tokens_text_tail)
  have w: "is_word w" "ends_word w ?r" "tokens (plan_tokens ss tt) t" using tokens_append [OF tok] by auto
  have "length ?r < 2147483648" using Cons.prems(2) unfolding whole by (simp add: literal_ok_def)
  with w ends_word_ok Cons.IH have "layout ss tt t" by blast
  with tokens_cut [OF tok] literal_ok_prefix [of "tokens_text ts g"] w(1) Cons.prems(2)
  show ?case by (simp add: whole) (simp add: s is_word_def)
qed simp

lemma plan_new_start: "x \<in> set (plan_new K p ss tt) \<Longrightarrow> p \<le> word_start x"
proof (induction ss arbitrary: K p)
  have new: "x \<in> set (new_words K p ts) \<Longrightarrow> p \<le> word_start x" for K p ts
    by (induction ts arbitrary: K p) (fastforce split: if_splits)+
  { case Nil
    then show ?case using new by simp
  next
    case (Cons s ss)
    then show ?case using new by (cases s) fastforce }
qed

text \<open>The second half of a round of the emitting loop: the letter of the replaced word.\<close>

definition emit_letter ::
  "string \<Rightarrow> WordReplacement \<Rightarrow> WordReplacement list \<Rightarrow> nat \<Rightarrow> nat \<Rightarrow> 'a mangler_scheme \<Rightarrow> 'a mangler_scheme option" where
  "emit_letter ident Repl Repls p W M =
     (if WordIdx Repl \<ge> 0 then do {
        assert_that (WordIdx Repl \<le> int W);
        assert_that (nat (WordIdx Repl) < length (MWords M));
        let p = p + word_length (MWords M ! nat (WordIdx Repl));
        if length Repls > 1 then emit_parts ident Repls p W (emit [lower_char (nat (WordIdx Repl))] M)
        else
          let M = emit [upper_char (nat (WordIdx Repl))] M;
              M = (if p = length ident then emit ''0'' M else M)
          in emit_parts ident Repls p W M
      }
      else emit_parts ident Repls p W M)"

lemma emit_letter_word:
  assumes "WordIdx Repl = int i" "i \<le> W" "i < length (MWords M)" "word_length (MWords M ! i) = n"
  shows "emit_letter ident Repl Repls p W M = emit_parts ident Repls (p + n) W
    (M\<lparr>Buffer := Buffer M @ (if length Repls > 1 then [lower_char i]
        else upper_char i # (if p + n = length ident then ''0'' else []))\<rparr>)"
  using assms by (simp add: emit_letter_def emit_def Let_def)

lemma emit_part:
  assumes ident: "ident = pre @ l @ r" and l: "literal_ok l"
    and M: "MWords M = A @ B @ C" "inside (length pre) (length pre + length l) B"
      "C = [] \<or> length pre + length l \<le> word_start (hd C)"
    and Repl: "StringPos Repl = length pre + length l"
  shows "emit_parts ident (Repl # Repls) (length pre) (length A) M =
    emit_letter ident Repl Repls (length pre + length l) (length A + length B)
      (M\<lparr>Buffer := Buffer M @ lit_text l,
         MWords := A @ map (to_buffer (length pre) (length (Buffer M) + length (lit_text l) - length l)) B @ C\<rparr>)"
proof (cases "l = []")
  case True
  with M(2) have B: "B = []" using inside_le by (cases B) fastforce+
  define M' where "M' = M\<lparr>Buffer := Buffer M @ lit_text l,
    MWords := A @ map (to_buffer (length pre) (length (Buffer M) + length (lit_text l) - length l)) B @ C\<rparr>"
  have "M' = M" using True B M(1) by (simp add: M'_def lit_text_def)
  with True B assms show ?thesis unfolding M'_def [symmetric] by (simp add: emit_letter_def)
next
  case False
  let ?M = "emit (decimal (length l)) M"
  have "take (length l) (drop (length pre) ident) = l" using ident by simp
  moreover have "length pre < length ident \<and> \<not> isDigit (ident ! length pre)"
    using False l ident by (cases l) (auto simp: literal_ok_def)
  moreover have "emit_literal l (length pre) (length A) ?M = (length A + length B,
      ?M\<lparr>Buffer := Buffer ?M @ l, MWords := A @ map (to_buffer (length pre) (length (Buffer ?M))) B @ C\<rparr>)"
    using M by (intro emit_literal_words) (auto simp: emit_def)
  ultimately show ?thesis
    using False Repl by (simp add: emit_letter_def Let_def lit_text_def emit_def)
qed

declare emit_parts.simps(2) [simp del]

lemma stored_literal:
  assumes "stored buf A K"
  shows "stored (buf @ lit_text (tokens_text ts t))
    (A @ map (to_buffer p (length buf + length (lit_text (tokens_text ts t)) - length (tokens_text ts t)))
       (new_words K p ts)) (words_after K ts)"
proof (cases "tokens_text ts t = []")
  case True
  with assms stored_new_words [of buf "[]" A K ts t p] show ?thesis by (simp add: lit_text_def)
next
  case False
  with stored_new_words [of "buf @ decimal (length (tokens_text ts t))" "[]" A K ts t p] assms
  show ?thesis by (simp add: lit_text_def stored_append)
qed

lemma plan_bound: "find_word 0 (words_after K ts) w = Some i \<Longrightarrow> i < length (words_after K ts)"
  using find_word_Some [of 0 "words_after K ts" w i] by simp

lemma plan_repls_length [simp]: "length (plan_repls p ss) = length ss"
  by (induction ss arbitrary: p) auto

lemma plan_new_after:
  "plan_new K p ss tt = [] \<or> q \<le> word_start (hd (plan_new K p ss tt))" if "q \<le> p"
  using plan_new_start [of "hd (plan_new K p ss tt)" K p ss tt] that by (cases "plan_new K p ss tt = []") auto

lemma emit_plan:
  "plan K ss tt \<Longrightarrow> layout ss tt t \<Longrightarrow> stored (Buffer M) A K \<Longrightarrow> MWords M = A @ plan_new K (length pre) ss tt \<Longrightarrow>
   ident = pre @ tokens_text (plan_tokens ss tt) t \<Longrightarrow>
   \<exists>ws. emit_parts ident (plan_repls (length pre) ss @ [\<lparr>StringPos = length ident, WordIdx = - 1\<rparr>])
       (length pre) (length A) M =
     Some (M\<lparr>Buffer := Buffer M @ body ss (tokens_text tt t), MWords := ws\<rparr>) \<and>
     stored (Buffer M @ body ss (tokens_text tt t)) ws (plan_words K ss tt)"
proof (induction ss arbitrary: K A M pre)
  case Nil
  let ?l = "tokens_text tt t" and ?B = "new_words K (length pre) tt"
  let ?A = "A @ map (to_buffer (length pre) (length (Buffer M) + length (lit_text ?l) - length ?l)) ?B"
  have "emit_parts ident [\<lparr>StringPos = length ident, WordIdx = - 1\<rparr>] (length pre) (length A) M =
    emit_letter ident \<lparr>StringPos = length ident, WordIdx = - 1\<rparr> [] (length pre + length ?l)
      (length A + length ?B) (M\<lparr>Buffer := Buffer M @ lit_text ?l, MWords := ?A\<rparr>)"
    using Nil new_words_inside [of tt t "length pre" K]
      emit_part [where B = ?B and C = "[]" and r = "[]" and l = ?l and ident = ident and M = M and A = A
        and Repl = "\<lparr>StringPos = length ident, WordIdx = - 1\<rparr>" and Repls = "[]" and pre = pre]
    by simp
  also have "\<dots> = Some (M\<lparr>Buffer := Buffer M @ lit_text ?l, MWords := ?A\<rparr>)" by (simp add: emit_letter_def)
  finally show ?case using stored_literal [OF Nil.prems(3), of tt t "length pre"]
    by (intro exI [of _ ?A]) simp
next
  case (Cons s ss)
  obtain ts g w i where s: "s = (ts, g, w, i)" by (cases s) auto
  let ?l = "tokens_text ts g" and ?r = "tokens_text (plan_tokens ss tt) t" and ?K = "words_after K ts"
  let ?B = "new_words K (length pre) ts" and ?C = "plan_new ?K (length pre + length ?l + length w) ss tt"
  let ?A = "A @ map (to_buffer (length pre) (length (Buffer M) + length (lit_text ?l) - length ?l)) ?B"
  let ?letter = "if ss = [] then upper_char i # (if tokens_text tt t = [] then ''0'' else []) else [lower_char i]"
  let ?M = "M\<lparr>MWords := ?A @ ?C, Buffer := Buffer M @ lit_text ?l @ ?letter\<rparr>"
  let ?repls = "plan_repls (length pre + length ?l + length w) ss @ [\<lparr>StringPos = length ident, WordIdx = - 1\<rparr>]"
  have ident: "ident = pre @ ?l @ w @ ?r" using Cons.prems(5) by (simp add: s tokens_text_append tokens_text_tail)
  have tok: "tokens ts g" "literal_ok ?l" "plan ?K ss tt" "layout ss tt t" "find_word 0 ?K w = Some i"
    using Cons.prems(1,2) by (simp_all add: s)
  have st: "stored (Buffer M @ lit_text ?l) ?A ?K" using Cons.prems(3) by (rule stored_literal)
  have i: "i < length ?K" "?K ! i = w" using find_word_Some [OF tok(5)] by simp_all
  have len: "length ?A = length ?K" using stored_length [OF st] .
  have "emit_parts ident (plan_repls (length pre) (s # ss) @ [\<lparr>StringPos = length ident, WordIdx = - 1\<rparr>])
      (length pre) (length A) M =
    emit_letter ident \<lparr>StringPos = length pre + length ?l, WordIdx = int i\<rparr> ?repls (length pre + length ?l)
      (length A + length ?B) (M\<lparr>Buffer := Buffer M @ lit_text ?l, MWords := ?A @ ?C\<rparr>)"
    using emit_part [where l = ?l and B = ?B and C = ?C and r = "w @ ?r" and ident = ident and M = M
        and A = A and pre = pre and Repls = ?repls
        and Repl = "\<lparr>StringPos = length pre + length ?l, WordIdx = int i\<rparr>"]
      Cons.prems(4) ident tok new_words_inside [OF tok(1), of "length pre" K]
      plan_new_after [of "length pre + length ?l" "length pre + length ?l + length w" ?K ss tt]
    by (simp add: s)
  also have "\<dots> = emit_parts ident ?repls (length (pre @ ?l @ w)) (length ?A) ?M"
  proof -
    have "word_length ((?A @ ?C) ! i) = length w"
      using stored_nth [OF st i(1)] i len nth_append [of ?A ?C i] by metis
    moreover have "length ?repls > 1 \<longleftrightarrow> ss \<noteq> []" by simp
    moreover have "ss = [] \<Longrightarrow> length pre + length ?l + length w = length ident \<longleftrightarrow> tokens_text tt t = []"
      using ident by simp
    moreover have "length A + length ?B = length ?A" by simp
    ultimately show ?thesis using i len
      by (subst emit_letter_word [where i = i and n = "length w"]) (simp_all add: add.assoc cong: if_cong)
  qed
  finally show ?case
    using Cons.IH [of ?K ?M ?A "pre @ ?l @ w"] tok ident st stored_append [OF st, of ?letter]
    by (simp add: s add.assoc)
qed

section \<open>Reading a plan\<close>

text \<open>The rounds of the identifier loop, by what stands at the position.\<close>

lemma loop_cong:
  "identifier_round p h I d = identifier_round p h' I' d' \<Longrightarrow> identifier_loop p h I d = identifier_loop p h' I' d'"
  by (subst (1 2) identifier_loop.simps) simp

lemma loop_lower:
  assumes "rest d = lower_char i # r" "i < length (Words d)" "i < 26"
  shows "identifier_loop False True I d = identifier_loop False True (I @ Words d ! i) (skip 1 d)"
proof (rule loop_cong)
  have "word_substs I d = word_substs (I @ Words d ! i) (skip 1 d)"
    using assms by (subst word_substs.simps) (simp add: rest_Cons [OF assms(1)])
  then show "identifier_round False True I d = identifier_round False True (I @ Words d ! i) (skip 1 d)"
    by (simp add: identifier_round_def)
qed

lemma loop_upper:
  assumes "rest d = upper_char i # r" "i < length (Words d)" "i < 26"
  shows "identifier_loop False True I d = identifier_loop False False (I @ Words d ! i) (skip 1 d)"
proof (rule loop_cong)
  have "word_substs I d = (Some (False, I @ Words d ! i), skip 1 d)"
    using assms by (subst word_substs.simps) (simp add: rest_Cons [OF assms(1)])
  then show "identifier_round False True I d = identifier_round False False (I @ Words d ! i) (skip 1 d)"
    by (simp add: identifier_round_def)
qed

lemma loop_zero:
  assumes "rest d = CHR ''0'' # r"
  shows "identifier_loop False False I d = Some (Some I, skip 1 d)"
  by (subst identifier_loop.simps) (simp add: identifier_round_def rest_Cons [OF assms])

lemma round_literal:
  assumes "rest d = lit_text l @ r" "literal_ok l" "l \<noteq> []"
  shows "identifier_round False h I d = Some (Inr (h, I @ l),
    (skip (length (lit_text l)) d)\<lparr>Words := collect_words l 0 None (Words d)\<rparr>)"
proof -
  let ?n = "length l" and ?d = "skip (length (decimal (length l))) d"
  have rest: "rest d = decimal ?n @ l @ r" using assms by (simp add: lit_text_def)
  obtain x xs where x: "decimal ?n = x # xs" "isDigit x" "\<not> isLetter x" using decimal_head by blast
  have "x \<noteq> CHR ''0''" using hd_decimal [of ?n] assms(3) x(1) by auto
  moreover have rx: "rest d = x # xs @ l @ r" using rest x(1) by simp
  moreover have "word_substs I d = (Some (True, I), d)"
    using x(3) by (subst word_substs.simps) (simp add: rest_Cons(2) [OF rx])
  moreover have "demangleNatural d = (int ?n, ?d)"
    using assms(2,3) by (intro demangleNatural_decimal [OF rest])
      (cases l, auto simp: literal_ok_def no_digit_def)
  moreover have rest': "drop (Pos ?d) (Text ?d) = l @ r" using rest_skip [OF rest] by (simp add: rest_def)
  moreover have "Pos ?d + ?n \<le> length (Text ?d)"
    using arg_cong [OF rest', of length] assms(3) by (cases l) auto
  ultimately show ?thesis
    using assms(3) by (simp add: identifier_round_def rest_Cons [OF rx] lit_text_def skip_def add.assoc)
qed

text \<open>The state after reading: \<open>n\<close> characters consumed, words \<open>K\<close> known.\<close>

definition past :: "nat \<Rightarrow> string list \<Rightarrow> demangler \<Rightarrow> demangler" where
  "past n K d = (skip n d)\<lparr>Words := K\<rparr>"

lemma past_simps [simp]:
  "Words (past n K d) = K" "past m L (past n K d) = past (n + m) L d" "past 0 (Words d) d = d"
  "skip m (past n K d) = past (n + m) K d" "past m K (skip n d) = past (n + m) K d"
  "Substitutions (past n K d) = Substitutions d" "NodeStack (past n K d) = NodeStack d"
  by (simp_all add: past_def skip_def)

lemma rest_past: "rest d = s @ t \<Longrightarrow> rest (past (length s) K d) = t"
  using rest_skip [of d s t] by (simp add: past_def rest_def)

lemma skip_past: "skip n d = past n (Words d) d"
  by (simp add: past_def skip_def)

lemma tokens_text_Nil: "tokens ts g \<Longrightarrow> tokens_text ts g = [] \<Longrightarrow> ts = []"
  by (cases ts) (auto simp: is_word_def)

lemma words_literal: "tokens ts g \<Longrightarrow> collect_words (tokens_text ts g) 0 None K = words_after K ts"
  by (simp add: collect_words_tokens words_after_def)

lemma loop_literal:
  assumes "rest d = lit_text (tokens_text ts g) @ r" "literal_ok (tokens_text ts g)" "tokens ts g"
  shows "identifier_loop False True I d = identifier_loop False True (I @ tokens_text ts g)
    (past (length (lit_text (tokens_text ts g))) (words_after (Words d) ts) d)"
proof (cases "tokens_text ts g = []")
  case True
  with tokens_text_Nil [OF assms(3)] show ?thesis by (simp add: lit_text_def)
next
  case False
  then show ?thesis using round_literal [OF assms(1,2), of True] words_literal [OF assms(3)]
    by (subst identifier_loop.simps) (simp add: past_def)
qed

lemma loop_last:
  assumes "rest d = lit_text (tokens_text ts g) @ r" "literal_ok (tokens_text ts g)" "tokens ts g"
    "tokens_text ts g \<noteq> []"
  shows "identifier_loop False False I d = Some (Some (I @ tokens_text ts g),
    past (length (lit_text (tokens_text ts g))) (words_after (Words d) ts) d)"
  using round_literal [OF assms(1,2,4), of False] words_literal [OF assms(3)]
  by (subst identifier_loop.simps) (simp add: past_def)

lemma read_plan:
  "plan K ss tt \<Longrightarrow> layout ss tt t \<Longrightarrow> ss \<noteq> [] \<Longrightarrow> Words d = K \<Longrightarrow> length K \<le> 26 \<Longrightarrow>
   rest d = body ss (tokens_text tt t) @ r \<Longrightarrow>
   identifier_loop False True I d = Some (Some (I @ tokens_text (plan_tokens ss tt) t),
     past (length (body ss (tokens_text tt t))) (plan_words K ss tt) d)"
proof (induction ss arbitrary: K d I)
  case (Cons s ss)
  obtain ts g w i where s: "s = (ts, g, w, i)" by (cases s) auto
  let ?l = "tokens_text ts g" and ?K = "words_after K ts" and ?t = "tokens_text tt t"
  let ?n = "length (lit_text ?l)"
  have tok: "tokens ts g" "literal_ok ?l" "plan ?K ss tt" "layout ss tt t" "find_word 0 ?K w = Some i"
    using Cons.prems(1,2) by (simp_all add: s)
  have i: "i < length ?K" "?K ! i = w" using find_word_Some [OF tok(5)] by simp_all
  have K: "length ?K \<le> 26" using Cons.prems(5) by (rule length_words_after)
  let ?d = "past ?n ?K d"
  have "rest d = lit_text ?l @ (if ss = [] then upper_char i # (if ?t = [] then ''0'' else [])
      else [lower_char i]) @ body ss ?t @ r" using Cons.prems(6) by (simp add: s)
  note 1 = loop_literal [OF this tok(2,1), of I] and 2 = rest_past [OF this, of ?K]
  have whole: "tokens_text (plan_tokens (s # ss) tt) t = ?l @ w @ tokens_text (plan_tokens ss tt) t"
    by (simp add: s tokens_text_append tokens_text_tail)
  show ?case
  proof (cases "ss = []")
    case False
    then have r: "rest ?d = lower_char i # body ss ?t @ r" using 2 by simp
    have "identifier_loop False True I d = identifier_loop False True (I @ ?l @ w) (past (?n + 1) ?K d)"
      using loop_lower [OF r, of "I @ ?l"] i K 1 Cons.prems(4) by simp
    moreover have "rest (past (?n + 1) ?K d) = body ss ?t @ r"
      using rest_past [of ?d "[lower_char i]" "body ss ?t @ r" ?K] r by simp
    ultimately show ?thesis
      using Cons.IH [of ?K "past (?n + 1) ?K d" "I @ ?l @ w"] tok K False whole by (simp add: s)
  next
    case True
    then have r: "rest ?d = upper_char i # (if ?t = [] then ''0'' else []) @ lit_text ?t @ r" using 2 by simp
    have "identifier_loop False True I d = identifier_loop False False (I @ ?l @ w) (past (?n + 1) ?K d)"
      using loop_upper [OF r, of "I @ ?l"] i K 1 Cons.prems(4) by simp
    moreover have r': "rest (past (?n + 1) ?K d) = (if ?t = [] then ''0'' else []) @ lit_text ?t @ r"
      using rest_past [of ?d "[upper_char i]" _ ?K] r by simp
    moreover have "identifier_loop False False (I @ ?l @ w) (past (?n + 1) ?K d) =
      Some (Some (I @ ?l @ w @ ?t), past (?n + 1 + length ((if ?t = [] then ''0'' else []) @ lit_text ?t))
        (words_after ?K tt) d)"
    proof (cases "?t = []")
      case True
      with \<open>ss = []\<close> tok(4) tokens_text_Nil [of tt t] have "tt = []" by simp
      with True r' loop_zero [of "past (?n + 1) ?K d" "lit_text ?t @ r" "I @ ?l @ w"] show ?thesis
        by (simp add: lit_text_def)
    next
      case False
      with \<open>ss = []\<close> tok(4) r' loop_last [of "past (?n + 1) ?K d" tt t r "I @ ?l @ w"] show ?thesis by simp
    qed
    ultimately show ?thesis using True whole by (simp add: s)
  qed
qed simp

section \<open>Identifiers\<close>

lemma length_plan_words: "length K \<le> 26 \<Longrightarrow> length (plan_words K ss tt) \<le> 26"
  by (induction ss arbitrary: K) (auto simp: length_words_after)

lemma lit_text_head:
  assumes "l \<noteq> []"
  obtains c cs where "lit_text l = c # cs" "isDigit c" "c \<noteq> CHR ''0''"
proof -
  obtain x xs where "decimal (length l) = x # xs" "isDigit x" using decimal_head by blast
  moreover from this hd_decimal [of "length l"] assms have "x \<noteq> CHR ''0''" by auto
  ultimately show ?thesis using assms by (intro that [of x "xs @ l"]) (auto simp: lit_text_def)
qed

lemma body_head:
  assumes "plan K ss tt" "ss \<noteq> []" "length K \<le> 26"
  obtains c cs where "body ss l = c # cs" "c \<noteq> CHR ''0''"
proof -
  obtain ts g w i ss' where s: "ss = (ts, g, w, i) # ss'" using assms(2) by (cases ss) auto
  have i: "i < 26" using assms(1,3) plan_bound [of K ts w i] length_words_after [of K ts] by (simp add: s)
  have "\<not> isDigit (upper_char i)" "\<not> isDigit (lower_char i)" using i by simp_all
  then have letter: "upper_char i \<noteq> CHR ''0''" "lower_char i \<noteq> CHR ''0''" by (auto simp: isDigit_def)
  show ?thesis
  proof (cases "tokens_text ts g = []")
    case True
    with letter show ?thesis by (cases "ss' = []") (auto simp: s lit_text_def [of "[]"] intro: that)
  next
    case False
    from lit_text_head [OF False] obtain c cs where "lit_text (tokens_text ts g) = c # cs" "c \<noteq> CHR ''0''" by blast
    then show ?thesis by (intro that) (auto simp: s)
  qed
qed

definition ident_node :: "string \<Rightarrow> node" where
  "ident_node s = createNodeText K_Identifier s"

lemma demangleIdentifier_plan:
  assumes "plan K ss tt" "layout ss tt t" "length K \<le> 26" "tokens_text (plan_tokens ss tt) t = ident"
    "ident \<noteq> []" "Words d = K" "rest d = s @ r"
    and s: "s = (if ss = [] then [] else ''0'') @ body ss (tokens_text tt t)"
  shows "demangleIdentifier d = Some (Some (ident_node ident),
    addSubstitution (Some (ident_node ident)) (past (length s) (plan_words K ss tt) d))"
proof (cases "ss = []")
  case True
  with assms have l: "rest d = lit_text (tokens_text tt t) @ r" "tokens_text tt t = ident" by simp_all
  obtain c cs where c: "lit_text ident = c # cs" "isDigit c" "c \<noteq> CHR ''0''"
    using lit_text_head [OF assms(5)] by blast
  then have "peekChar d = c" using l rest_Cons(2) [of d c "cs @ r"] by simp
  moreover have "identifier_loop False False [] d = Some (Some ident, past (length s) (words_after K tt) d)"
    using loop_last [OF l(1), of "[]"] True assms by simp
  ultimately show ?thesis using True c(2,3) assms(5)
    by (simp add: demangleIdentifier_def ident_node_def Let_def)
next
  case False
  obtain c cs where c: "body ss (tokens_text tt t) = c # cs" "c \<noteq> CHR ''0''"
    using body_head [OF assms(1) False assms(3)] by blast
  have r: "rest d = CHR ''0'' # body ss (tokens_text tt t) @ r" using False assms(7) s by simp
  then have r': "rest (skip 1 d) = body ss (tokens_text tt t) @ r" using rest_skip1 by simp
  then have "peekChar (skip 1 d) = c" using c(1) rest_Cons(2) by simp
  moreover have "identifier_loop False True [] (skip 1 d) =
      Some (Some ident, past (1 + length (body ss (tokens_text tt t))) (plan_words K ss tt) d)"
    using read_plan [OF assms(1,2) False _ assms(3) r', of "[]"] assms(4,6) by simp
  ultimately show ?thesis using False c(2) assms(5) s rest_Cons [OF r]
    by (simp add: demangleIdentifier_def ident_node_def isDigit_def Let_def)
qed

lemma mangleIdentifier_plan:
  assumes "\<not> (UsePunycode M \<and> needsPunycodeEncoding ident)" "plan K ss tt" "layout ss tt t" "length K \<le> 26"
    "stored (Buffer M) (MWords M) K" "tokens (plan_tokens ss tt) t" "tokens_text (plan_tokens ss tt) t = ident"
    and s: "s = (if ss = [] then [] else ''0'') @ body ss (tokens_text tt t)"
  shows "\<exists>ws. mangleIdentifier ident M = Some (M\<lparr>Buffer := Buffer M @ s, MWords := ws\<rparr>) \<and>
    stored (Buffer M @ s) ws (plan_words K ss tt)"
proof -
  let ?W = "length (MWords M)" and ?new = "plan_new K 0 ss tt"
  let ?M = "M\<lparr>MWords := MWords M @ ?new, Buffer := Buffer M @ (if ss = [] then [] else ''0'')\<rparr>"
  have len: "?W = length K" using stored_length [OF assms(5)] .
  have K: "K = known (Buffer M) ident ?W (MWords M)" using stored_known [OF assms(5)] by (rule sym)
  have "scan_identifier (Buffer M) ident ?W 0 None (MWords M, []) =
      scan_spans (Buffer M) ident ?W (MWords M, []) (spans 0 (plan_tokens ss tt))"
    unfolding scan_identifier_scan
    using word_scan_tokens [OF assms(6), of "\<lambda>b e r. r \<bind> end_of_word (Buffer M) ident ?W b e" "[]"
        "Some (MWords M, [])"] by (simp only: append_Nil list.size assms(7))
  also have "\<dots> = Some (MWords M @ ?new, plan_repls 0 ss)"
    using conjunct1 [OF scan_plan [OF assms(2) K, of "[]" t "[]"]] assms(4,7) len by simp
  finally have scan: "scan_identifier (Buffer M) ident ?W 0 None (MWords M, []) =
      Some (MWords M @ ?new, plan_repls 0 ss)" .
  have "plan_repls 0 ss \<noteq> [] \<longleftrightarrow> ss \<noteq> []" by (cases ss) auto
  then have "mangleIdentifier ident M = emit_parts ident
      (plan_repls 0 ss @ [\<lparr>StringPos = length ident, WordIdx = - 1\<rparr>]) 0 ?W ?M"
    using assms(1) scan by (auto simp: mangleIdentifier_def emit_def Let_def)
  moreover have "stored (Buffer ?M) (MWords M) K" using stored_append [OF assms(5)] by simp
  ultimately show ?thesis
    using emit_plan [OF assms(2,3), of ?M "MWords M" "[]" ident] assms(7) s by (auto simp: append_assoc)
qed

lemma identifier_roundtrip:
  assumes "\<not> (UsePunycode M \<and> needsPunycodeEncoding ident)" "ident \<noteq> []" "\<not> isDigit (hd ident)"
    "length ident < 2147483648" "stored (Buffer M) (MWords M) K" "length K \<le> 26"
  shows "\<exists>s ws K'. mangleIdentifier ident M = Some (M\<lparr>Buffer := Buffer M @ s, MWords := ws\<rparr>) \<and>
    stored (Buffer M @ s) ws K' \<and> length K' \<le> 26 \<and>
    (\<forall>d r. Words d = K \<and> rest d = s @ r \<longrightarrow> demangleIdentifier d = Some (Some (ident_node ident),
       addSubstitution (Some (ident_node ident)) (past (length s) K' d)))"
proof -
  obtain ts t where t: "tokens ts t" "tokens_text ts t = ident" using tokens_exist by blast
  obtain ss tt where p: "plan K ss tt" "plan_tokens ss tt = ts" using plan_exists by blast
  have "literal_ok ident" using assms(2,3,4) by (simp add: literal_ok_def)
  with t p have l: "layout ss tt t" using layout_tokens [of ss tt t] by simp
  let ?s = "(if ss = [] then [] else ''0'') @ body ss (tokens_text tt t)"
  from mangleIdentifier_plan [OF assms(1) p(1) l assms(6,5), of ?s] t p(2) obtain ws where
    "mangleIdentifier ident M = Some (M\<lparr>Buffer := Buffer M @ ?s, MWords := ws\<rparr>)"
    "stored (Buffer M @ ?s) ws (plan_words K ss tt)" by auto
  moreover have "demangleIdentifier d = Some (Some (ident_node ident),
      addSubstitution (Some (ident_node ident)) (past (length ?s) (plan_words K ss tt) d))"
    if "Words d = K" "rest d = ?s @ r" for d r
    using demangleIdentifier_plan [OF p(1) l assms(6) _ assms(2) that refl] t p(2) by simp
  ultimately show ?thesis using length_plan_words [OF assms(6), of ss tt] by blast
qed

section \<open>Identifiers in Punycode\<close>

lemma demangleIdentifier_punycode:
  assumes "rest d = ''00'' @ decimal (length p) @ u @ p @ r" "length p < 2147483648" "p \<noteq> []"
    "u = (if isDigit (hd p) \<or> hd p = CHR ''_'' then ''_'' else [])" "decodePunycodeUTF8 p = Some (True, ident)"
    "ident \<noteq> []"
  shows "demangleIdentifier d = Some (Some (ident_node ident),
    addSubstitution (Some (ident_node ident)) (skip (2 + length (decimal (length p)) + length u + length p) d))"
proof -
  let ?n = "length p" and ?d = "skip 2 d"
  define d2 where "d2 = skip (2 + length (decimal ?n)) d"
  define d3 where "d3 = skip (2 + length (decimal ?n) + length u) d"
  have r0: "rest d = CHR ''0'' # CHR ''0'' # decimal ?n @ u @ p @ r" using assms(1) by simp
  have r1: "rest (skip 1 d) = CHR ''0'' # decimal ?n @ u @ p @ r" using rest_skip1 [OF r0] by simp
  have r2: "rest ?d = decimal ?n @ u @ p @ r" using rest_skip [OF assms(1)] by (simp add: numeral_2_eq_2)
  have r3: "rest d2 = u @ p @ r" using rest_skip [OF r2] by (simp add: d2_def)
  have r4: "rest d3 = p @ r" using rest_skip [OF r3] by (simp add: d2_def d3_def)
  obtain x xs where x: "decimal ?n = x # xs" "isDigit x" using decimal_head by blast
  have "x \<noteq> CHR ''0''" using hd_decimal [of ?n] assms(3) x(1) by auto
  then have z: "nextIf (CHR ''0'') ?d = (False, ?d)" using rest_Cons(5) [of ?d x] r2 x(1) by simp
  obtain c cs where c: "u @ p @ r = c # cs" "\<not> isDigit c" "c = CHR ''_'' \<longleftrightarrow> u \<noteq> []"
    using assms(3,4) by (cases p) (auto simp: char_defs split: if_splits)
  then have nat: "demangleNatural ?d = (int ?n, d2)"
    using demangleNatural_decimal [OF r2 _ assms(2)] by (simp add: no_digit_def d2_def)
  have u: "snd (nextIf (CHR ''_'') d2) = d3"
    using c r3 assms(4) rest_Cons(4,5) [of d2 c cs] by (auto simp: d2_def d3_def split: if_splits)
  have fits: "Pos d3 + ?n \<le> length (Text d3)" "take ?n (drop (Pos d3) (Text d3)) = p"
    using arg_cong [OF r4, of length] r4 assms(3) by (cases p; auto simp: rest_def)+
  have "identifier_loop True False [] ?d = Some (Some ident, skip ?n d3)"
    using assms(3,5) z nat u fits
    by (subst identifier_loop.simps) (auto simp: identifier_round_def skip_def Let_def)
  then show ?thesis using assms(6) rest_Cons [OF r0] rest_Cons [OF r1]
    by (simp add: demangleIdentifier_def ident_node_def isDigit_def Let_def numeral_2_eq_2 d3_def add.commute add.left_commute)
qed

text \<open>Identifiers that both sides handle.\<close>

definition ident_ok :: "string \<Rightarrow> bool" where
  "ident_ok s \<longleftrightarrow>
     (if needsPunycodeEncoding s
      then \<exists>cps. s = utf8 cps \<and> (\<forall>S \<in> set cps. text_scalar S) \<and> punycodable (map (symbol_scalar True) cps) \<and>
        (\<forall>p. encodePunycodeUTF8 s True = Some (True, p) \<longrightarrow> length p < 2147483648)
      else s \<noteq> [] \<and> \<not> isDigit (hd s) \<and> length s < 2147483648)"

lemma punycode_identifier:
  assumes "UsePunycode M" "needsPunycodeEncoding ident" "ident_ok ident"
  shows "\<exists>s. mangleIdentifier ident M = Some (M\<lparr>Buffer := Buffer M @ s\<rparr>) \<and>
    (\<forall>d r. rest d = s @ r \<longrightarrow> demangleIdentifier d = Some (Some (ident_node ident),
       addSubstitution (Some (ident_node ident)) (skip (length s) d)))"
proof -
  obtain cps where cps: "ident = utf8 cps" "\<forall>S \<in> set cps. text_scalar S"
      "punycodable (map (symbol_scalar True) cps)"
      "\<forall>p. encodePunycodeUTF8 ident True = Some (True, p) \<longrightarrow> length p < 2147483648"
    using assms by (auto simp: ident_ok_def)
  obtain p where p: "encodePunycodeUTF8 ident True = Some (True, p)" "decodePunycodeUTF8 p = Some (True, ident)"
    using decode_encodePunycodeUTF8 [OF cps(2,3)] cps(1) by blast
  have ident: "ident \<noteq> []" using assms(2) by (auto simp: needsPunycodeEncoding_def)
  have "decodePunycodeUTF8 [] = Some (True, [])" by code_simp
  with p(2) ident have ne: "p \<noteq> []" by auto
  let ?u = "if isDigit (hd p) \<or> hd p = CHR ''_'' then ''_'' else []"
  let ?s = "''00'' @ decimal (length p) @ ?u @ p"
  have "mangleIdentifier ident M = Some (M\<lparr>Buffer := Buffer M @ ?s\<rparr>)"
    using assms(1,2) p(1) ne by (simp add: mangleIdentifier_def emit_def Let_def)
  moreover have "demangleIdentifier d = Some (Some (ident_node ident),
       addSubstitution (Some (ident_node ident)) (skip (length ?s) d))" if "rest d = ?s @ r" for d r
    using demangleIdentifier_punycode [OF _ _ ne refl p(2) ident, of d r] cps(4) p(1) that
    by (simp add: add.assoc)
  ultimately show ?thesis by blast
qed

section \<open>Sequences of identifiers\<close>

lemma identifier_any:
  assumes "UsePunycode M" "ident_ok ident" "stored (Buffer M) (MWords M) K" "length K \<le> 26"
  shows "\<exists>s ws K'. mangleIdentifier ident M = Some (M\<lparr>Buffer := Buffer M @ s, MWords := ws\<rparr>) \<and>
    stored (Buffer M @ s) ws K' \<and> length K' \<le> 26 \<and>
    (\<forall>d r. Words d = K \<and> rest d = s @ r \<longrightarrow> demangleIdentifier d = Some (Some (ident_node ident),
       addSubstitution (Some (ident_node ident)) (past (length s) K' d)))"
proof (cases "needsPunycodeEncoding ident")
  case True
  from punycode_identifier [OF assms(1) True assms(2)] obtain s where
    "mangleIdentifier ident M = Some (M\<lparr>Buffer := Buffer M @ s, MWords := MWords M\<rparr>)"
    "\<forall>d r. rest d = s @ r \<longrightarrow> demangleIdentifier d = Some (Some (ident_node ident),
       addSubstitution (Some (ident_node ident)) (skip (length s) d))" by auto
  with assms(3,4) stored_append [OF assms(3), of s] show ?thesis
    by (intro exI [of _ s] exI [of _ "MWords M"] exI [of _ K]) (auto simp: skip_past)
next
  case False
  with assms show ?thesis by (intro identifier_roundtrip) (auto simp: ident_ok_def)
qed

lemma demangleOperator_digit:
  assumes "isDigit (peekChar d)"
  shows "demangleOperator d = demangleIdentifier d"
proof -
  have "Pos d < length (Text d)" using assms by (rule isDigit_peek)
  then have "nextChar d = (peekChar d, skip 1 d)" "pushBack (skip 1 d) = Some ((), d)"
    by (simp_all add: nextChar_def peekChar_def skip_def pushBack_def)
  moreover have "list_all (\<lambda>c. peekChar d \<noteq> c) ''ABCDEFGIKLMNOPQRSTVWXZacdfhilmopqrstuvwxyz_.''"
    using assms by (auto simp: isDigit_def)
  ultimately show ?thesis by (simp add: demangleOperator_def)
qed

fun mangle_identifiers :: "string list \<Rightarrow> 'a mangler_scheme \<Rightarrow> 'a mangler_scheme option" where
  "mangle_identifiers [] M = Some M"
| "mangle_identifiers (s # ss) M = do { M \<leftarrow> mangleIdentifier s M; mangle_identifiers ss M }"

text \<open>The state after reading the identifiers: their nodes pushed and in the substitution table.\<close>

definition read_idents :: "string list \<Rightarrow> nat \<Rightarrow> string list \<Rightarrow> demangler \<Rightarrow> demangler" where
  "read_idents ids n K d = push_all (map ident_node ids)
     ((past n K d)\<lparr>Substitutions := Substitutions d @ map ident_node ids\<rparr>)"

lemma read_idents_simps:
  "read_idents [] 0 (Words d) d = d" "Words (read_idents ids n K d) = K"
  "read_idents js m L (read_idents ids n K d) = read_idents (ids @ js) (n + m) L d"
  "pushNode (ident_node i) (addSubstitution (Some (ident_node i)) (past n K d)) = read_idents [i] n K d"
  by (simp_all add: read_idents_def push_all_def past_def skip_def pushNode_def addSubstitution_def)

lemma rest_read_idents: "rest d = s @ t \<Longrightarrow> rest (read_idents ids (length s) K d) = t"
  using rest_past [of d s t K] by (simp add: read_idents_def rest_def)

lemma identifiers_roundtrip:
  "UsePunycode M \<Longrightarrow> \<forall>i \<in> set ids. ident_ok i \<Longrightarrow> stored (Buffer M) (MWords M) K \<Longrightarrow> length K \<le> 26 \<Longrightarrow>
   \<exists>s ws K'. mangle_identifiers ids M = Some (M\<lparr>Buffer := Buffer M @ s, MWords := ws\<rparr>) \<and>
    stored (Buffer M @ s) ws K' \<and> length K' \<le> 26 \<and>
    (\<forall>d t. Words d = K \<and> rest d = s @ t \<longrightarrow>
       parseAndPushNodes d = parseAndPushNodes (read_idents ids (length s) K' d))"
proof (induction ids arbitrary: M K)
  case Nil
  then show ?case
    by (intro exI [of _ "[]"] exI [of _ "MWords M"] exI [of _ K]) (auto simp: read_idents_simps)
next
  case (Cons i ids)
  from identifier_any [OF Cons.prems(1) _ Cons.prems(3,4), of i] Cons.prems(2) obtain s ws K1 where
    1: "mangleIdentifier i M = Some (M\<lparr>Buffer := Buffer M @ s, MWords := ws\<rparr>)" "stored (Buffer M @ s) ws K1"
      "length K1 \<le> 26" "\<And>d r. Words d = K \<Longrightarrow> rest d = s @ r \<Longrightarrow> demangleIdentifier d =
        Some (Some (ident_node i), addSubstitution (Some (ident_node i)) (past (length s) K1 d))" by auto
  let ?M = "M\<lparr>Buffer := Buffer M @ s, MWords := ws\<rparr>"
  from Cons.IH [of ?M K1] Cons.prems 1 obtain s' ws' K2 where
    2: "mangle_identifiers ids ?M = Some (M\<lparr>Buffer := Buffer M @ s @ s', MWords := ws'\<rparr>)"
      "stored (Buffer M @ s @ s') ws' K2" "length K2 \<le> 26"
      "\<And>d t. Words d = K1 \<Longrightarrow> rest d = s' @ t \<Longrightarrow>
        parseAndPushNodes d = parseAndPushNodes (read_idents ids (length s') K2 d)" by auto
  have "parseAndPushNodes d = parseAndPushNodes (read_idents (i # ids) (length (s @ s')) K2 d)"
    if d: "Words d = K" "rest d = (s @ s') @ t" for d t
  proof -
    have di: "demangleIdentifier d =
        Some (Some (ident_node i), addSubstitution (Some (ident_node i)) (past (length s) K1 d))"
      using 1(4) d by simp
    then have "isDigit (peekChar d)" by (rule contrapos_pp) (simp add: demangleIdentifier_def)
    with di parse_push [of d "ident_node i"] isDigit_peek demangleOperator_digit
    have "parseAndPushNodes d = parseAndPushNodes (read_idents [i] (length s) K1 d)"
      by (simp add: read_idents_simps)
    moreover have "rest (read_idents [i] (length s) K1 d) = s' @ t" using d rest_read_idents by simp
    ultimately show ?thesis using 2(4) [of "read_idents [i] (length s) K1 d" t]
      by (simp add: read_idents_simps)
  qed
  with 1 2 show ?case by (intro exI [of _ "s @ s'"] exI [of _ ws'] exI [of _ K2]) auto
qed

end
