(* ===== verification/Remangler_Fuel.thy ===== *)
theory Remangler_Fuel
  imports Remangler
begin

text \<open>
  The fuel of the remangler is enough. A handler calls back only for nodes that are smaller than
  its own node (the nodes that \<open>getUnspecialized\<close> and the layout of a box type build on the way
  included), so two versions of the recursive call that agree on smaller nodes give the same
  result, and \<open>mangle\<close> satisfies the recursive equation of the source.
\<close>

section \<open>Recursive calls that agree on small nodes\<close>

locale smaller_calls =
  fixes rec rec' :: handler and bound :: nat
  assumes agree: "size c < bound \<Longrightarrow> rec c M = rec' c M"
begin

lemma nodes_agree: "\<forall>c \<in> set cs. size c < bound \<Longrightarrow> mangleNodes rec cs M = mangleNodes rec' cs M"
  by (induction cs arbitrary: M) (auto simp: agree cong: Option.bind_cong)

lemma kids_small: "size nd \<le> bound \<Longrightarrow> c \<in> set (children nd) \<Longrightarrow> size c < bound"
  using size_child [of c nd] by simp

lemma nth_small: "size nd \<le> bound \<Longrightarrow> i < getNumChildren nd \<Longrightarrow> size (children nd ! i) < bound"
  by (rule kids_small) (auto simp: getNumChildren_def)

lemma generic_agree [simp]:
  assumes "size nd \<le> bound"
  shows "mangleChildNodes rec nd M = mangleChildNodes rec' nd M"
    "mangleChildNodesReversed rec nd M = mangleChildNodesReversed rec' nd M"
    "mangleFunctionSignature rec nd M = mangleFunctionSignature rec' nd M"
    "mangleSingleChildNode rec nd M = mangleSingleChildNode rec' nd M"
    "mangleChildNode rec nd i M = mangleChildNode rec' nd i M"
  using kids_small [OF assms] nth_small [OF assms]
  by (auto simp: mangleChildNodes_def mangleChildNodesReversed_def mangleFunctionSignature_def
      mangleSingleChildNode_def mangleChildNode_def assert_that_def intro!: nodes_agree agree)

lemma generic_eta [simp]:
  assumes "size nd \<le> bound"
  shows "mangleChildNode rec nd i = mangleChildNode rec' nd i"
    "mangleSingleChildNode rec nd = mangleSingleChildNode rec' nd"
    "mangleChildNodes rec nd = mangleChildNodes rec' nd"
  using assms by (auto intro!: ext)

lemma skipType_le: "skipType nd = Some t \<Longrightarrow> size t \<le> size nd"
  by (auto simp: skipType_def split: if_splits dest: child_sizes)

lemma skipType_small: "skipType nd = Some t \<Longrightarrow> size nd \<le> bound \<Longrightarrow> size t \<le> bound"
  by (auto simp: skipType_def split: if_splits dest: child_sizes)

lemma pure_protocol_agree [simp]:
  "size nd \<le> bound \<Longrightarrow> manglePureProtocol rec nd M = manglePureProtocol rec' nd M"
  by (auto simp: manglePureProtocol_def intro!: Option.bind_cong dest!: skipType_small)

lemma child_bound:
  "getChild nd i = Some c \<Longrightarrow> size nd \<le> bound \<Longrightarrow> size c < bound"
  "getFirstChild nd = Some c \<Longrightarrow> size nd \<le> bound \<Longrightarrow> size c < bound"
  "getSingleChild nd = Some c \<Longrightarrow> size nd \<le> bound \<Longrightarrow> size c < bound"
  "getChildOfType nd = Some c \<Longrightarrow> size nd \<le> bound \<Longrightarrow> size c < bound"
  by (auto dest: child_sizes)

lemma member_chain_small:
  "member_chain Chain nd = Some (cs, b) \<Longrightarrow> size nd \<le> bound \<Longrightarrow> \<forall>c \<in> set Chain. size c < bound \<Longrightarrow>
   \<forall>c \<in> set cs. size c < bound"
proof (induction Chain nd rule: member_chain.induct)
  case (1 Chain nd)
  then show ?case
    by (subst (asm) (2) member_chain.simps)
      (fastforce split: if_splits option.splits dest: child_bound child_sizes)
qed

lemma constrained_type_agree [simp]:
  assumes "size nd \<le> bound"
  shows "mangleConstrainedType rec nd M = mangleConstrainedType rec' nd M"
  unfolding mangleConstrainedType_def
proof (intro Option.bind_cong refl, goal_cases)
  case (1 t)
  have t: "size t \<le> bound" using 1 assms by (auto split: if_splits dest: child_bound)
  have chain: "\<forall>c \<in> set cs. size c < bound" if "member_chain [] t = Some (cs, b)" for cs b
    using member_chain_small [OF that t] by simp
  show ?case
    by (auto intro!: Option.bind_cong nodes_agree agree dest!: chain split: prod.splits list.splits
        simp: Let_def)
qed

lemma any_generic_agree [simp]:
  "size nd \<le> bound \<Longrightarrow> mangleAnyGenericType rec op nd M = mangleAnyGenericType rec' op nd M"
  by (simp add: mangleAnyGenericType_def)

lemma generic_args_agree [simp]:
  "size nd \<le> bound \<Longrightarrow> mangleGenericArgs rec nd sep M = mangleGenericArgs rec' nd sep M"
proof (induction "size nd" arbitrary: nd sep M rule: less_induct)
  case less
  have ih: "mangleGenericArgs rec c s M = mangleGenericArgs rec' c s M" if "size c < size nd" for c s M
    using less.hyps [OF that] that less.prems by simp
  consider (nominal) "is_nominal (getKind nd)"
    | (bound) "\<not> is_nominal (getKind nd)" "is_bound_generic (getKind nd)"
    | (other) "\<not> is_nominal (getKind nd)" "\<not> is_bound_generic (getKind nd)"
    by blast
  then show ?case
  proof cases
    case bound
    have arg: "getChild nd 1 = Some c \<Longrightarrow> size c \<le> bound" for c
      using child_bound(1) [of nd 1 c] less.prems by simp
    have deep: "size p < size nd"
      if "getChild nd 0 = Some t" "getChild t 0 = Some n" "getChild n 0 = Some p" for t n p
      using that by (auto dest!: child_sizes)
    show ?thesis
      using bound arg deep
      by (subst (1 2) mangleGenericArgs.simps)
        (auto simp: ih Let_def intro!: Option.bind_cong split: option.splits prod.splits)
  qed (subst (1 2) mangleGenericArgs.simps,
    auto simp: ih child_sizes split: option.splits intro!: Option.bind_cong)+
qed

lemma nominal_agree [simp]:
  "size nd \<le> bound \<Longrightarrow> mangleAnyNominalType rec nd M = mangleAnyNominalType rec' nd M"
proof (induction "size nd" arbitrary: nd M rule: less_induct)
  case less
  have ih: "mangleAnyNominalType rec u M = mangleAnyNominalType rec' u M"
    if "isSpecialized nd = Some True" "getUnspecialized nd = Some u" for u M
    using less.hyps [of u] getUnspecialized_size [OF that] less.prems by simp
  show ?case
    using less.prems ih
    by (subst (1 2) mangleAnyNominalType.simps)
      (auto intro!: Option.bind_cong split: option.splits bool.splits prod.splits)
qed

lemma items_agree:
  "\<forall>c \<in> set cs. \<forall>M. f c M = g c M \<Longrightarrow> mangle_items f b cs M = mangle_items g b cs M"
  by (induction cs arbitrary: b M) (auto cong: Option.bind_cong)

lemma storage_agree [simp]:
  "size nd \<le> bound \<Longrightarrow> mangleAbstractStorage rec code nd M = mangleAbstractStorage rec' code nd M"
  "size nd \<le> bound \<Longrightarrow> mangleAnyConstructor rec op nd M = mangleAnyConstructor rec' op nd M"
  "size nd \<le> bound \<Longrightarrow> mangleType rec nd M = mangleType rec' nd M"
  "size nd \<le> bound \<Longrightarrow> mangle_thunk_types rec nd M = mangle_thunk_types rec' nd M"
  by (simp_all add: mangleAbstractStorage_def mangleAnyConstructor_def mangleType_def mangle_thunk_types_def)

lemma type_list_agree [simp]:
  "size nd \<le> bound \<Longrightarrow> mangleTypeList rec nd M = mangleTypeList rec' nd M"
  "size nd \<le> bound \<Longrightarrow> mangleAssocTypePath rec nd M = mangleAssocTypePath rec' nd M"
  using items_agree [of "children nd" rec rec'] kids_small [of nd]
  by (auto simp: mangleTypeList_def mangleAssocTypePath_def agree)

lemma requirements_agree:
  "\<forall>c \<in> set cs. size c < bound \<Longrightarrow>
   signature_requirements rec i e cs M = signature_requirements rec' i e cs M"
  by (induction cs arbitrary: i e M) (auto simp: agree cong: Option.bind_cong)

lemma signature_agree [simp]:
  "size nd \<le> bound \<Longrightarrow>
   mangleDependentGenericSignature rec nd M = mangleDependentGenericSignature rec' nd M"
  using requirements_agree [of "children nd"] kids_small [of nd]
  by (auto simp: mangleDependentGenericSignature_def)

lemma protocol_list_agree [simp]:
  assumes "size nd \<le> bound" "\<And>s. super = Some s \<Longrightarrow> size s \<le> bound"
  shows "mangleProtocolList rec nd super b M = mangleProtocolList rec' nd super b M"
proof -
  have "mangle_items (manglePureProtocol rec) True (children p) M =
      mangle_items (manglePureProtocol rec') True (children p) M"
    if "getSingleChild_kind nd K_TypeList = Some p" for p
  proof (rule items_agree, intro ballI allI)
    fix c M assume "c \<in> set (children p)"
    moreover from that assms(1) have "size p < bound"
      by (auto simp: getSingleChild_kind_def bind_Some_iffs dest: child_bound)
    ultimately show "manglePureProtocol rec c M = manglePureProtocol rec' c M"
      using kids_small [of p c] by simp
  qed
  with assms(2) show ?thesis
    by (auto simp: mangleProtocolList_def Let_def intro!: Option.bind_cong split: prod.splits option.splits)
qed

lemma conformance_agree [simp]:
  "size nd \<le> bound \<Longrightarrow> mangleProtocolConformance rec nd M = mangleProtocolConformance rec' nd M"
  unfolding mangleProtocolConformance_def
  by (auto simp: agree bind_Some_iffs intro!: Option.bind_cong split: prod.splits option.splits if_splits
      dest!: child_bound)

lemma function_agree [simp]:
  "size nd \<le> bound \<Longrightarrow> mangleFunction rec nd M = mangleFunction rec' nd M"
  unfolding mangleFunction_def Let_def
  by (auto simp: agree intro!: Option.bind_cong if_cong dest!: child_bound)

lemma bound_enum_agree [simp]:
  "size nd \<le> bound \<Longrightarrow> mangleBoundGenericEnum rec nd M = mangleBoundGenericEnum rec' nd M"
  unfolding mangleBoundGenericEnum_def with_substitution_def
  by (auto simp: agree intro!: Option.bind_cong if_cong split: prod.splits dest!: child_bound)

lemma spec_agree [simp]:
  assumes "size nd \<le> bound"
  shows "mangleGenericPartialSpecialization rec nd M = mangleGenericPartialSpecialization rec' nd M"
    "mangleGenericSpecialization rec nd M = mangleGenericSpecialization rec' nd M"
proof -
  have small: "size c < bound" if "c \<in> set (filter P (children nd))" for c P
    using that kids_small [OF assms, of c] by simp
  have nodes: "mangleNodes rec (filter P (children nd)) M = mangleNodes rec' (filter P (children nd)) M" for P M
    by (rule nodes_agree) (use small in blast)
  have items: "mangle_items (\<lambda>c. mangleChildNode rec c 0) b (filter P (children nd)) M =
      mangle_items (\<lambda>c. mangleChildNode rec' c 0) b (filter P (children nd)) M" for b P M
    by (rule items_agree) (use small in \<open>fastforce intro: less_imp_le\<close>)
  have first: "mangleChildNode rec c 0 M = mangleChildNode rec' c 0 M"
    if "filter P (children nd) = c # cs" for c cs P M
    using small [of c P] that by (simp add: less_imp_le)
  show "mangleGenericPartialSpecialization rec nd M = mangleGenericPartialSpecialization rec' nd M"
    unfolding mangleGenericPartialSpecialization_def Let_def nodes
    by (auto intro!: Option.bind_cong first split: list.splits)
  show "mangleGenericSpecialization rec nd M = mangleGenericSpecialization rec' nd M"
    unfolding mangleGenericSpecialization_def Let_def nodes items ..
qed

lemma spec_args_agree:
  "size nd < bound \<Longrightarrow> mangle_spec_param_args rec nd M = mangle_spec_param_args rec' nd M"
proof -
  assume nd: "size nd < bound"
  have "mangleNodes (mangleType rec) cs M = mangleNodes (mangleType rec') cs M"
    if "set cs \<subseteq> set (children nd)" for cs M
    using that
  proof (induction cs arbitrary: M)
    case (Cons c cs)
    then have "size c < bound" using nd by (auto dest!: size_child)
    with Cons show ?case by (auto intro!: Option.bind_cong)
  qed simp
  from this [of "drop 2 (children nd)"] show ?thesis
    by (auto simp: mangle_spec_param_args_def Let_def set_drop_subset intro!: Option.bind_cong)
qed

lemma function_spec_agree [simp]:
  assumes "size nd \<le> bound"
  shows "mangleFunctionSignatureSpecialization rec nd M = mangleFunctionSignatureSpecialization rec' nd M"
proof -
  have args: "mangleNodes (mangle_spec_param_args rec) cs M = mangleNodes (mangle_spec_param_args rec') cs M"
    if "set cs \<subseteq> set (children nd)" for cs M
    using that
    by (induction cs arbitrary: M)
      (auto simp: spec_args_agree kids_small [OF assms] cong: Option.bind_cong)
  have kids: "mangle_spec_children rec nd b cs M = mangle_spec_children rec' nd b cs M"
    if "set cs \<subseteq> set (children nd)" for b cs M
    using that
    by (induction cs arbitrary: b M)
      (auto simp: agree kids_small [OF assms] cong: Option.bind_cong)
  show ?thesis
    unfolding mangleFunctionSignatureSpecialization_def
    using args [of "children nd"] kids [of "children nd"] by auto
qed

lemma impl_agree [simp]:
  assumes "size nd \<le> bound"
  shows "mangleImplFunctionType rec nd M = mangleImplFunctionType rec' nd M"
proof -
  have types: "mangleNodes (mangle_impl_type rec) cs M = mangleNodes (mangle_impl_type rec') cs M"
    if "set cs \<subseteq> set (children nd)" for cs M
    using that
  proof (induction cs arbitrary: M)
    case (Cons c cs)
    then have "size c < bound" using kids_small [OF assms] by simp
    with Cons show ?case by (auto simp: mangle_impl_type_def intro!: Option.bind_cong)
  qed simp
  have "rec (last (filter is_signature (children nd))) M = rec' (last (filter is_signature (children nd))) M"
    if "filter is_signature (children nd) \<noteq> []" for M
    using kids_small [OF assms, of "last (filter is_signature (children nd))"] last_in_set [OF that]
    by (intro agree) simp
  with types [of "children nd"] show ?thesis
    unfolding mangleImplFunctionType_def Let_def by (auto intro!: Option.bind_cong)
qed

lemma global_agree [simp]:
  assumes "size nd \<le> bound"
  shows "mangleGlobal rec nd M = mangleGlobal rec' nd M"
proof -
  have "global_children rec es b cs M = global_children rec' es b cs M"
    if "set cs \<subseteq> set (children nd)" "set es \<subseteq> set (children nd)" for es b cs M
    using that
  proof (induction cs arbitrary: es b M)
    case (Cons c cs)
    have "mangleNodes rec es M = mangleNodes rec' es M" for M
      by (rule nodes_agree) (use Cons.prems kids_small [OF assms] in blast)
    with Cons show ?case
      by (auto simp: agree kids_small [OF assms] cong: Option.bind_cong if_cong)
  qed simp
  from this [of "children nd" "[]"] show ?thesis by (simp add: mangleGlobal_def)
qed

lemma layout_field_small:
  assumes "layout_field_type f = Some t"
  shows "size t \<le> size f"
proof -
  obtain k q cs where f: "f = Node k q cs" by (cases f)
  with assms obtain ty where ty: "cs = [ty]"
    by (auto simp: layout_field_type_def bind_Some_iffs getNumChildren_def length_Suc_conv)
  obtain k' q' cs' where ty': "ty = Node k' q' cs'" by (cases ty)
  show ?thesis
    using assms f ty ty'
    by (cases cs') (auto simp: layout_field_type_def getChild_def getNumChildren_def bind_Some_iffs split: if_splits)
qed

lemma box_agree [simp]:
  assumes "size nd \<le> bound"
  shows "mangleSILBoxTypeWithLayout rec nd M = mangleSILBoxTypeWithLayout rec' nd M"
proof -
  have types: "\<forall>t \<in> set ts. \<exists>f \<in> set fs. size t \<le> size f" if "layout_field_types fs = Some ts" for fs ts
    using that
    by (induction fs arbitrary: ts) (fastforce simp: bind_Some_iffs dest: layout_field_small)+
  have list: "mangleTypeList rec (Node K_TypeList NoPayload ts) M =
      mangleTypeList rec' (Node K_TypeList NoPayload ts) M"
    if l: "getChild nd 0 = Some l" and ts: "layout_field_types (children l) = Some ts" for l ts M
  proof -
    have "size t < bound" if t: "t \<in> set ts" for t
    proof -
      obtain f where "f \<in> set (children l)" "size t \<le> size f"
        using types [OF ts] t by blast
      with child_bound(1) [OF l assms] size_child [of f l] show ?thesis by simp
    qed
    then show ?thesis using items_agree [of ts rec rec'] by (simp add: mangleTypeList_def agree)
  qed
  have kids: "getChild nd i = Some c \<Longrightarrow> mangleTypeList rec c M = mangleTypeList rec' c M"
    "getChild nd i = Some c \<Longrightarrow>
       mangleDependentGenericSignature rec c M = mangleDependentGenericSignature rec' c M" for i c M
    using child_bound(1) [of nd i c] assms by simp_all
  show ?thesis
    unfolding mangleSILBoxTypeWithLayout_def
    using list kids by (auto intro!: Option.bind_cong)
qed

lemmas handler_defs =
  mangleAssociatedType_def mangleBuiltinTypeName_def mangleDependentGenericParamCount_def
  mangleDependentGenericParamType_def mangleDependentPseudogenericSignature_def
  mangleDirectness_def mangleDynamicAttribute_def mangleDirectMethodReferenceAttribute_def
  mangleErrorType_def mangleFunctionSignatureSpecializationParam_def
  mangleFunctionSignatureSpecializationParamKind_def
  mangleFunctionSignatureSpecializationParamPayload_def mangleGenericSpecializationParam_def
  mangleIdentifier_handler_def mangleIndex_node_def mangleImplEscaping_def
  mangleImplConvention_def mangleImplFunctionAttribute_def mangleImplParameter_def
  mangleImplResult_def mangleImplErrorResult_def mangleInfixOperator_def mangleMergedFunction_def
  mangleMetatypeRepresentation_def mangleModule_def mangleNonObjCAttribute_def mangleNumber_def
  mangleObjCAttribute_def manglePostfixOperator_def manglePrefixOperator_def
  mangleSILBoxLayout_def mangleSILBoxMutableField_def mangleSILBoxImmutableField_def
  mangleSpecializationPassID_def mangleSpecializationIsFragile_def mangleSuffix_def
  mangleTupleElementName_def mangleVTableAttribute_def mangleThrowsAnnotation_def
  mangleEmptyList_def mangleFirstElementMarker_def mangleVariadicMarker_def
  mangleOutlinedBridgedMethod_def mangleOutlinedVariable_def mangleAllocator_def
  mangleArgumentTuple_def mangleAssociatedTypeRef_def mangleAssociatedTypeMetadataAccessor_def
  mangleAssociatedTypeWitnessTableAccessor_def mangleAutoClosureType_def
  mangleBoundGenericClass_def mangleBoundGenericStructure_def mangleCFunctionPointer_def
  mangleClass_def mangleClassMetadataBaseOffset_def mangleConstructor_def
  mangleCoroutineContinuationPrototype_def mangleDeallocator_def mangleDeclContext_def
  mangleDefaultArgumentInitializer_def mangleDependentAssociatedTypeRef_def
  mangleDependentGenericConformanceRequirement_def mangleDependentGenericSameTypeRequirement_def
  mangleDependentGenericLayoutRequirement_def mangleDependentGenericType_def
  mangleDependentMemberType_def mangleDestructor_def mangleDidSet_def mangleDynamicSelf_def
  mangleEnum_def mangleExistentialMetatype_def mangleExplicitClosure_def mangleExtension_def
  mangleFieldOffset_def mangleFullTypeMetadata_def mangleFunctionType_def
  mangleGenericPartialSpecializationNotReAbstracted_def mangleGenericProtocolWitnessTable_def
  mangleGenericProtocolWitnessTableInstantiationFunction_def
  mangleGenericSpecializationNotReAbstracted_def mangleGenericTypeMetadataPattern_def
  mangleGetter_def mangleGlobalGetter_def mangleIVarInitializer_def mangleIVarDestroyer_def
  mangleImplicitClosure_def mangleInOut_def mangleInitializer_def
  mangleKeyPathGetterThunkHelper_def mangleKeyPathSetterThunkHelper_def
  mangleKeyPathEqualsThunkHelper_def mangleKeyPathHashThunkHelper_def
  mangleLazyProtocolWitnessTableAccessor_def mangleLazyProtocolWitnessTableCacheVariable_def
  mangleLocalDeclName_def mangleMaterializeForSet_def mangleMetatype_def mangleMetaclass_def
  mangleNativeOwningAddressor_def mangleNativeOwningMutableAddressor_def
  mangleNativePinningAddressor_def mangleNativePinningMutableAddressor_def
  mangleNominalTypeDescriptor_def mangleObjCBlock_def mangleOwningAddressor_def
  mangleOwningMutableAddressor_def manglePartialApplyForwarder_def
  manglePartialApplyObjCForwarder_def manglePrivateDeclName_def mangleProtocol_def
  mangleProtocolDescriptor_def mangleProtocolConformanceDescriptor_def
  mangleProtocolList_node_def mangleProtocolListWithClass_def mangleProtocolListWithAnyObject_def
  mangleProtocolWitness_def mangleProtocolWitnessTable_def mangleProtocolWitnessTableAccessor_def
  mangleQualifiedArchetype_def mangleReabstractionThunk_def mangleReabstractionThunkHelper_def
  mangleReturnType_def mangleShared_def mangleSILBoxType_def mangleSetter_def mangleStatic_def
  mangleStructure_def mangleSubscript_def mangleThinFunctionType_def mangleTuple_def
  mangleTupleElement_def mangleTypeAlias_def mangleTypeMangling_def mangleTypeMetadata_def
  mangleTypeMetadataAccessFunction_def mangleTypeMetadataLazyCache_def
  mangleUncurriedFunctionType_def mangleUnmanaged_def mangleUnowned_def mangleUnsafeAddressor_def
  mangleUnsafeMutableAddressor_def mangleValueWitness_def mangleValueWitnessTable_def
  mangleVariable_def mangleVTableThunk_def mangleWeak_def mangleWillSet_def
  mangleReflectionMetadataBuiltinDescriptor_def mangleReflectionMetadataFieldDescriptor_def
  mangleReflectionMetadataAssocTypeDescriptor_def
  mangleReflectionMetadataSuperclassDescriptor_def mangleGenericTypeParamDecl_def
  mangleCurryThunk_def mangleDispatchThunk_def mangleOutlinedCopy_def mangleOutlinedConsume_def
  mangleOutlinedRetain_def mangleOutlinedRelease_def mangleOutlinedInitializeWithTake_def
  mangleOutlinedInitializeWithCopy_def mangleOutlinedAssignWithTake_def
  mangleOutlinedAssignWithCopy_def mangleOutlinedDestroy_def mangleLabelList_def

lemma handlers_agree:
  "list_all2 (\<lambda>h h'. \<forall>nd M. size nd \<le> bound \<longrightarrow> h nd M = h' nd M) (handlers rec) (handlers rec')"
  unfolding handlers_def
  by (simp add: handler_defs agree with_substitution_def cong: Option.bind_cong if_cong)
    (intro conjI allI impI; auto simp: agree intro!: Option.bind_cong protocol_list_agree
      split: prod.splits dest!: child_bound skipType_le)

lemma dispatch_agree:
  assumes "size nd \<le> bound"
  shows "mangle_dispatch rec nd M = mangle_dispatch rec' nd M"
  using handlers_agree assms
  by (auto simp: mangle_dispatch_def list_all2_conv_all_nth split: node_kind.splits)

end

section \<open>Fuel independence\<close>

lemma size_node_pos: "0 < size (nd :: node)"
  by (cases nd) simp

lemma mangle_fuel_enough:
  "size nd \<le> f \<Longrightarrow> size nd \<le> g \<Longrightarrow> mangle_fuel f nd M = mangle_fuel g nd M"
proof (induction "size nd" arbitrary: nd f g M rule: less_induct)
  case less
  obtain f' g' where f: "f = Suc f'" "g = Suc g'"
    using less.prems size_node_pos [of nd] by (cases f; cases g) auto
  have "smaller_calls (mangle_fuel f') (mangle_fuel g') (size nd)"
  proof
    fix c :: node and M
    assume "size c < size nd"
    with less.prems f show "mangle_fuel f' c M = mangle_fuel g' c M"
      by (intro less.hyps) auto
  qed
  then show ?case
    using f by (simp add: smaller_calls.dispatch_agree)
qed

interpretation enough: smaller_calls "mangle_fuel n" mangle "Suc n" for n
  by unfold_locales (auto simp: mangle_def intro: mangle_fuel_enough)

lemma mangle_recursion: "mangle nd M = mangle_dispatch mangle nd M"
proof -
  obtain n where n: "size nd = Suc n" using size_node_pos [of nd] by (cases "size nd") auto
  then show ?thesis using enough.dispatch_agree [of nd n M] by (simp add: mangle_def)
qed

end
