(* ===== verification/Mangling_Stream.thy ===== *)
theory Mangling_Stream
  imports Identifier_Roundtrip Remangler_Fuel
begin

text \<open>
  The remangler and the demangler side by side. \<open>reads s v v'\<close> says that the parse loop, wherever it
  meets the text \<open>s\<close> in a state that shows \<open>v\<close> (node stack, substitutions, words), consumes it and
  goes on in a state that shows \<open>v'\<close>. \<open>sim\<close> relates a state of the remangler to what the demangler
  will have when it has read the buffer; because merging edits the end of the buffer, the last
  groups of substitutions are kept apart from the text in front of them. Every operation of the
  remangler is then one step of the simulation.
\<close>

section \<open>Reading text\<close>

record view =
  stack :: "node list"
  subs :: "node list"
  vwords :: "string list"

definition view_of :: "demangler \<Rightarrow> view" where
  "view_of d = \<lparr>stack = NodeStack d, subs = Substitutions d, vwords = Words d\<rparr>"

definition push_view :: "node list \<Rightarrow> view \<Rightarrow> view" where
  "push_view ns v = v\<lparr>stack := rev ns @ stack v\<rparr>"

lemma push_view_simps [simp]:
  "push_view [] v = v" "push_view ms (push_view ns v) = push_view (ns @ ms) v"
  "subs (push_view ns v) = subs v" "vwords (push_view ns v) = vwords v"
  "stack (push_view ns v) = rev ns @ stack v"
  by (simp_all add: push_view_def)

definition reads :: "string \<Rightarrow> view \<Rightarrow> view \<Rightarrow> bool" where
  "reads s v v' \<longleftrightarrow> (\<forall>d t. view_of d = v \<and> rest d = s @ t \<and> \<not> IsOldFunctionTypeMangling d \<longrightarrow>
     (\<exists>d'. parseAndPushNodes d = parseAndPushNodes d' \<and> view_of d' = v' \<and> rest d' = t \<and>
       \<not> IsOldFunctionTypeMangling d'))"

lemma reads_Nil [simp]: "reads [] v v"
  by (auto simp: reads_def)

lemma reads_append: "reads s u v \<Longrightarrow> reads t v w \<Longrightarrow> reads (s @ t) u w"
  unfolding reads_def by (metis append_assoc)

lemma view_of_skip [simp]: "view_of (skip n d) = view_of d"
  by (simp add: view_of_def)

lemma IsOld_skip [simp]: "IsOldFunctionTypeMangling (skip n d) = IsOldFunctionTypeMangling d"
  by (simp add: skip_def)

lemma view_of_push_all [simp]: "view_of (push_all ns d) = push_view ns (view_of d)"
  by (simp add: view_of_def push_view_def push_all_def)

lemma IsOld_push_all [simp]: "IsOldFunctionTypeMangling (push_all ns d) = IsOldFunctionTypeMangling d"
  by (simp add: push_all_def)

text \<open>One operator that returns a node.\<close>

lemma reads_operator:
  assumes "s \<noteq> []" "\<And>d t. view_of d = v \<Longrightarrow> rest d = s @ t \<Longrightarrow> \<not> IsOldFunctionTypeMangling d \<Longrightarrow>
    \<exists>x d'. demangleOperator d = Some (Some x, d') \<and> view_of (pushNode x d') = v' \<and> rest d' = t \<and>
      \<not> IsOldFunctionTypeMangling d'"
  shows "reads s v v'"
  unfolding reads_def
proof (intro allI impI, elim conjE)
  fix d t
  assume d: "view_of d = v" "rest d = s @ t" "\<not> IsOldFunctionTypeMangling d"
  from assms(2) [OF this] obtain x d' where x: "demangleOperator d = Some (Some x, d')"
    "view_of (pushNode x d') = v'" "rest d' = t" "\<not> IsOldFunctionTypeMangling d'" by blast
  have "parseAndPushNodes d = parseAndPushNodes (pushNode x d')"
    using parse_push [OF x(1)] d(2) assms(1) by (simp add: rest_not_Nil)
  with x show "\<exists>d'. parseAndPushNodes d = parseAndPushNodes d' \<and> view_of d' = v' \<and> rest d' = t \<and>
      \<not> IsOldFunctionTypeMangling d'"
    by (intro exI [of _ "pushNode x d'"]) (simp add: pushNode_def rest_def)
qed

lemma reads_groups:
  assumes "\<forall>g \<in> set gs. valid_group g" "\<forall>r \<in> set (groups_requests gs). known_request (subs v) r"
  shows "reads (groups_text gs) v (push_view (requested (subs v) (groups_requests gs)) v)"
  unfolding reads_def
proof (intro allI impI, elim conjE)
  fix d t
  assume d: "view_of d = v" "rest d = groups_text gs @ t" "\<not> IsOldFunctionTypeMangling d"
  then have "subs v = Substitutions d" by (auto simp: view_of_def)
  moreover have "rest (skip (length (groups_text gs)) d) = t" using d(2) by (rule rest_skip)
  moreover have "parseAndPushNodes d = parseAndPushNodes (push_all
      (requested (Substitutions d) (groups_requests gs)) (skip (length (groups_text gs)) d))"
    using parse_groups [of d "rev gs" t] d(2) assms calculation(1)
    by (simp add: groups_text_def groups_requests_def)
  ultimately show "\<exists>d'. parseAndPushNodes d = parseAndPushNodes d' \<and>
      view_of d' = push_view (requested (subs v) (groups_requests gs)) v \<and> rest d' = t \<and>
      \<not> IsOldFunctionTypeMangling d'"
    using d(1,3) by (intro exI [of _ "push_all (requested (Substitutions d) (groups_requests gs))
        (skip (length (groups_text gs)) d)"]) simp
qed

section \<open>The simulation\<close>

text \<open>What the demangler has in its table for an entry of the remangler's table.\<close>

definition entry_node :: "node \<times> bool \<Rightarrow> node" where
  "entry_node x = (if snd x then ident_node (the (getText (fst x))) else Node K_Type NoPayload [fst x])"

definition tables :: "(node \<times> bool) list \<Rightarrow> remangler \<Rightarrow> view \<Rightarrow> bool" where
  "tables ns M v \<longleftrightarrow> table ns (RSubstitutions M) \<and> subs v = map entry_node ns"

definition sim :: "string \<Rightarrow> view \<Rightarrow> (node \<times> bool) list \<Rightarrow> remangler \<Rightarrow> view \<Rightarrow> bool" where
  "sim h v0 ns M v \<longleftrightarrow> (\<exists>pre gs v1. writes (h @ pre) gs M \<and> reads pre v0 v1 \<and>
     (\<forall>r \<in> set (groups_requests gs). known_request (subs v1) r) \<and>
     v = push_view (requested (subs v1) (groups_requests gs)) v1 \<and>
     stored (h @ pre) (MWords M) (vwords v1) \<and> length (vwords v1) \<le> 26 \<and> UsePunycode M \<and> tables ns M v)"

lemma emit_request_keeps:
  assumes "emit_request r M = Some M'"
  shows "MWords M' = MWords M \<and> UsePunycode M' = UsePunycode M \<and> RSubstitutions M' = RSubstitutions M"
proof -
  have "MWords M' = MWords M \<and> UsePunycode M' = UsePunycode M \<and> RSubstitutions M' = RSubstitutions M"
    if "tryMergeSubst c std M = Some (b, M')" for c std b M'
    using that by (auto simp: tryMergeSubst_def Let_def bind_Some_iffs resetBuffer_def emit_def split: if_splits)
  with assms show ?thesis
    by (cases r) (auto simp: emit_substitution_def emit_standard_def mangleIndex_text emit_def
        bind_Some_iffs split: if_splits)
qed

lemma sim_request:
  assumes "sim h v0 ns M v" "valid_request r" "known_request (subs v) r"
  shows "\<exists>M'. emit_request r M = Some M' \<and> sim h v0 ns M' (push_view [the (request_node (subs v) r)] v)"
proof -
  from assms(1) obtain pre gs v1 where s: "writes (h @ pre) gs M" "reads pre v0 v1"
    "\<forall>r \<in> set (groups_requests gs). known_request (subs v1) r"
    "v = push_view (requested (subs v1) (groups_requests gs)) v1"
    "stored (h @ pre) (MWords M) (vwords v1)" "length (vwords v1) \<le> 26" "UsePunycode M" "tables ns M v"
    unfolding sim_def by blast
  from emit_request_writes [OF s(1) assms(2)] obtain M' where
    M': "emit_request r M = Some M'" "writes (h @ pre) (add_request gs r) M'" by blast
  have "requested (subs v1) (groups_requests (add_request gs r)) =
      requested (subs v1) (groups_requests gs) @ [the (request_node (subs v) r)]"
    using s(4) by (simp add: groups_requests_add requested_def)
  with s M' assms(3) emit_request_keeps [OF M'(1)] show ?thesis
    unfolding sim_def
    by (intro exI [of _ M'] conjI exI [of _ pre] exI [of _ "add_request gs r"] exI [of _ v1])
      (auto simp: groups_requests_add tables_def)
qed

lemma sim_closed:
  assumes "sim h v0 ns M v"
  obtains pre where "Buffer M = h @ pre" "reads pre v0 v" "stored (Buffer M) (MWords M) (vwords v)"
    "length (vwords v) \<le> 26" "UsePunycode M" "tables ns M v"
    "lastNumSubsts (SubstMerging M) = 0 \<or> merge_end M \<le> length (Buffer M)"
proof -
  from assms obtain pre gs v1 where s: "writes (h @ pre) gs M" "reads pre v0 v1"
    "\<forall>r \<in> set (groups_requests gs). known_request (subs v1) r"
    "v = push_view (requested (subs v1) (groups_requests gs)) v1"
    "stored (h @ pre) (MWords M) (vwords v1)" "length (vwords v1) \<le> 26" "UsePunycode M" "tables ns M v"
    unfolding sim_def by blast
  show ?thesis
  proof (rule that [of "pre @ groups_text gs"])
    show buf: "Buffer M = h @ pre @ groups_text gs" using s(1) by (simp add: writes_def)
    show "reads (pre @ groups_text gs) v0 v"
      using reads_append [OF s(2) reads_groups [OF _ s(3)]] s(1,4) by (simp add: writes_def)
    show "stored (Buffer M) (MWords M) (vwords v)"
      using stored_append [OF s(5), of "groups_text gs"] s(4) buf by simp
    show "lastNumSubsts (SubstMerging M) = 0 \<or> merge_end M \<le> length (Buffer M)"
      using last_group_end [OF _ s(1)] s(1) by (simp add: writes_def)
  qed (use s in auto)
qed

lemma sim_open:
  assumes "Buffer M = h @ pre" "reads pre v0 v" "stored (Buffer M) (MWords M) (vwords v)"
    "length (vwords v) \<le> 26" "UsePunycode M" "tables ns M v"
    "lastNumSubsts (SubstMerging M) = 0 \<or> merge_end M < length (Buffer M)"
  shows "sim h v0 ns M v"
  unfolding sim_def using assms
  by (intro exI [of _ pre] exI [of _ "[]"] exI [of _ v])
    (auto simp: writes_def groups_text_def groups_requests_def requested_def)

section \<open>Steps of the simulation\<close>

lemma merge_end_emit [simp]: "merge_end (emit s M) = merge_end M" "SubstMerging (emit s M) = SubstMerging M"
  by (simp_all add: merge_end_def emit_def)

lemma merge_end_grows:
  "lastNumSubsts (SubstMerging M) = 0 \<or> merge_end M \<le> length (Buffer M) \<Longrightarrow> s \<noteq> [] \<Longrightarrow>
   lastNumSubsts (SubstMerging M) = 0 \<or> merge_end M < length (Buffer M @ s)"
  by (cases s) auto

lemma sim_emit:
  assumes "sim h v0 ns M v" "reads s v v'" "s \<noteq> []" "vwords v' = vwords v" "subs v' = subs v"
  shows "sim h v0 ns (emit s M) v'"
proof -
  from sim_closed [OF assms(1)] obtain pre where c: "Buffer M = h @ pre" "reads pre v0 v"
    "stored (Buffer M) (MWords M) (vwords v)" "length (vwords v) \<le> 26" "UsePunycode M" "tables ns M v"
    "lastNumSubsts (SubstMerging M) = 0 \<or> merge_end M \<le> length (Buffer M)" .
  show ?thesis
    using c assms(3-5) reads_append [OF c(2) assms(2)] stored_append [OF c(3), of s]
      merge_end_grows [OF c(7) assms(3)]
    by (intro sim_open [of _ _ "pre @ s"]) (auto simp: emit_def tables_def merge_end_def)
qed

lemma entry_absent:
  assumes "table ns es" "setNode nd f = Some e"
  shows "find_entry 0 es e = None \<longleftrightarrow> (\<forall>n \<in> set ns. \<not> same_entry n (nd, f))"
proof -
  have "filter (\<lambda>i. same_entry (ns ! i) (nd, f)) [0..<length ns] = [] \<longleftrightarrow> (\<forall>n \<in> set ns. \<not> same_entry n (nd, f))"
    by (auto simp: filter_empty_conv all_set_conv_all_nth)
  then show ?thesis unfolding find_entry_filter [OF assms] by (auto split: list.splits)
qed

lemma sim_entry:
  assumes "sim h v0 ns M v" "reads s v v'" "s \<noteq> []" "vwords v' = vwords v"
    and "subs v' = subs v @ [entry_node (nd, f)]" "setNode nd f = Some e" "\<forall>n \<in> set ns. \<not> same_entry n (nd, f)"
  shows "\<exists>M'. addSubstitution_entry nd f (emit s M) = Some M' \<and> sim h v0 (ns @ [(nd, f)]) M' v'"
proof -
  from sim_closed [OF assms(1)] obtain pre where c: "Buffer M = h @ pre" "reads pre v0 v"
    "stored (Buffer M) (MWords M) (vwords v)" "length (vwords v) \<le> 26" "UsePunycode M" "tables ns M v"
    "lastNumSubsts (SubstMerging M) = 0 \<or> merge_end M \<le> length (Buffer M)" .
  let ?M = "(emit s M)\<lparr>RSubstitutions := RSubstitutions M @ [e]\<rparr>"
  have "find_entry 0 (RSubstitutions M) e = None"
    using entry_absent [of ns _ nd f e] assms(6,7) c(6) by (simp add: tables_def)
  then have "addSubstitution_entry nd f (emit s M) = Some ?M"
    using assms(6) by (simp add: addSubstitution_entry_def emit_def)
  moreover have "sim h v0 (ns @ [(nd, f)]) ?M v'"
    using c assms(3-6) reads_append [OF c(2) assms(2)] stored_append [OF c(3), of s]
      merge_end_grows [OF c(7) assms(3)]
    by (intro sim_open [of _ _ "pre @ s"])
      (auto simp: emit_def tables_def table_def merge_end_def list_all2_appendI)
  ultimately show ?thesis by blast
qed

lemma reads_identifier:
  assumes "\<And>d r. Words d = vwords v \<Longrightarrow> rest d = s @ r \<Longrightarrow> demangleIdentifier d = Some (Some (ident_node t),
       addSubstitution (Some (ident_node t)) (past (length s) K' d))"
  shows "reads s v \<lparr>stack = ident_node t # stack v, subs = subs v @ [ident_node t], vwords = K'\<rparr> \<and> s \<noteq> []"
proof
  have digit: "isDigit (peekChar d)" if "Words d = vwords v" "rest d = s @ r" for d r
    using assms [OF that] by (rule contrapos_pp) (simp add: demangleIdentifier_def)
  have "rest ((reader [])\<lparr>Words := vwords v\<rparr>) = [] @ []" by (simp add: reader_def rest_def)
  then show ne: "s \<noteq> []" using digit [of "(reader [])\<lparr>Words := vwords v\<rparr>" "[]"]
    by (auto simp: rest_Nil isDigit_def)
  show "reads s v \<lparr>stack = ident_node t # stack v, subs = subs v @ [ident_node t], vwords = K'\<rparr>"
  proof (rule reads_operator [OF ne])
    fix d r
    assume d: "view_of d = v" "rest d = s @ r" "\<not> IsOldFunctionTypeMangling d"
    then have w: "Words d = vwords v" by (auto simp: view_of_def)
    have "demangleOperator d = Some (Some (ident_node t),
        addSubstitution (Some (ident_node t)) (past (length s) K' d))"
      using demangleOperator_digit [OF digit [OF w d(2)]] assms [OF w d(2)] by simp
    moreover have "rest (past (length s) K' d) = r" using d(2) by (rule rest_past)
    ultimately show "\<exists>x d'. demangleOperator d = Some (Some x, d') \<and> view_of (pushNode x d') =
        \<lparr>stack = ident_node t # stack v, subs = subs v @ [ident_node t], vwords = K'\<rparr> \<and>
        rest d' = r \<and> \<not> IsOldFunctionTypeMangling d'"
      using d by (auto simp: view_of_def pushNode_def addSubstitution_def past_def skip_def rest_def)
  qed
qed

lemma sim_identifier:
  assumes "sim h v0 ns M v" "getText nd = Some t" "ident_ok t" "\<forall>n \<in> set ns. \<not> same_entry n (nd, True)"
  shows "\<exists>M' v'. mangleIdentifier t M \<bind> addSubstitution_entry nd True = Some M' \<and>
    sim h v0 (ns @ [(nd, True)]) M' v' \<and> stack v' = ident_node t # stack v"
proof -
  from sim_closed [OF assms(1)] obtain pre where c: "Buffer M = h @ pre" "reads pre v0 v"
    "stored (Buffer M) (MWords M) (vwords v)" "length (vwords v) \<le> 26" "UsePunycode M" "tables ns M v"
    "lastNumSubsts (SubstMerging M) = 0 \<or> merge_end M \<le> length (Buffer M)" .
  from identifier_any [OF c(5) assms(3) c(3,4)] obtain s ws K' where
    s: "mangleIdentifier t M = Some (M\<lparr>Buffer := Buffer M @ s, MWords := ws\<rparr>)"
      "stored (Buffer M @ s) ws K'" "length K' \<le> 26"
      "\<And>d r. Words d = vwords v \<Longrightarrow> rest d = s @ r \<Longrightarrow> demangleIdentifier d = Some (Some (ident_node t),
         addSubstitution (Some (ident_node t)) (past (length s) K' d))" by blast
  let ?v = "\<lparr>stack = ident_node t # stack v, subs = subs v @ [ident_node t], vwords = K'\<rparr>"
  have r: "reads s v ?v" "s \<noteq> []" using reads_identifier [of v s t K'] s(4) by blast+
  obtain e where e: "setNode nd True = Some e" using assms(2) setNode_identifier by blast
  have "find_entry 0 (RSubstitutions M) e = None"
    using entry_absent [of ns _ nd True e] e assms(4) c(6) by (simp add: tables_def)
  then have "mangleIdentifier t M \<bind> addSubstitution_entry nd True =
      Some (M\<lparr>Buffer := Buffer M @ s, MWords := ws, RSubstitutions := RSubstitutions M @ [e]\<rparr>)"
    using s(1) e by (simp add: addSubstitution_entry_def)
  moreover have "sim h v0 (ns @ [(nd, True)])
      (M\<lparr>Buffer := Buffer M @ s, MWords := ws, RSubstitutions := RSubstitutions M @ [e]\<rparr>) ?v"
    using c s(2,3) reads_append [OF c(2) r(1)] e assms(2) merge_end_grows [OF c(7) r(2)]
    by (intro sim_open [of _ _ "pre @ s"])
      (auto simp: tables_def table_def entry_node_def merge_end_def list_all2_appendI)
  ultimately show ?thesis by auto
qed

lemma same_entry_node: "same_entry x y \<Longrightarrow> entry_node x = entry_node y"
  by (auto simp: same_entry_def entry_node_def split: if_splits)

lemma sim_with_substitution:
  assumes "sim h v0 ns M v" "setNode nd f = Some e" "length ns < 2147483648"
    "mangleStandardSubstitution nd M = Some (False, M)"
  shows "(\<exists>M'. with_substitution nd f act M = Some M' \<and> sim h v0 ns M' (push_view [entry_node (nd, f)] v)) \<or>
    ((\<forall>n \<in> set ns. \<not> same_entry n (nd, f)) \<and>
     with_substitution nd f act M = act M \<bind> addSubstitution_entry nd f)"
proof (cases "\<forall>n \<in> set ns. \<not> same_entry n (nd, f)")
  case True
  have "table ns (RSubstitutions M)" using sim_closed [OF assms(1)] by (metis tables_def)
  with True have "find_entry 0 (RSubstitutions M) e = None" using entry_absent assms(2) by blast
  with True assms(2,4) show ?thesis by (simp add: with_substitution_def trySubstitution_def)
next
  case False
  from sim_closed [OF assms(1)] have t: "table ns (RSubstitutions M)" "subs v = map entry_node ns"
    by (metis tables_def)+
  with False entry_absent assms(2) have "find_entry 0 (RSubstitutions M) e \<noteq> None" by blast
  then obtain i where i: "find_entry 0 (RSubstitutions M) e = Some i" by blast
  then have "i \<in> set (filter (\<lambda>i. same_entry (ns ! i) (nd, f)) [0..<length ns])"
    unfolding find_entry_filter [OF t(1) assms(2)]
    by (cases "filter (\<lambda>i. same_entry (ns ! i) (nd, f)) [0..<length ns]") auto
  then have i': "i < length ns" "entry_node (ns ! i) = entry_node (nd, f)" using same_entry_node by auto
  with sim_request [OF assms(1), of "Entry i"] t(2) assms(3) obtain M' where
    "emit_substitution i M = Some M'" "sim h v0 ns M' (push_view [entry_node (nd, f)] v)"
    by (auto simp: known_request_def)
  with i assms(2,4) show ?thesis by (auto simp: with_substitution_def trySubstitution_def)
qed

section \<open>Actions\<close>

text \<open>
  \<open>steps act b xs ys\<close>: the action of the remangler succeeds from every related state, and what it
  writes makes the demangler replace the nodes \<open>xs\<close> on top of the stack by \<open>ys\<close> (top first). It adds
  at most \<open>b\<close> entries to the table, for identifiers or for nodes of size at most \<open>b\<close>.
\<close>

definition steps :: "(remangler \<Rightarrow> remangler option) \<Rightarrow> nat \<Rightarrow> node list \<Rightarrow> node list \<Rightarrow> bool" where
  "steps act b xs ys \<longleftrightarrow> (\<forall>h v0 ns M v st. sim h v0 ns M v \<and> stack v = xs @ st \<and> length ns + b < 2147483648 \<longrightarrow>
     (\<exists>M' v' new. act M = Some M' \<and> sim h v0 (ns @ new) M' v' \<and> stack v' = ys @ st \<and>
        length new \<le> b \<and> (\<forall>x \<in> set new. snd x \<or> size (fst x) \<le> b)))"

lemma stepsD:
  assumes "steps act b xs ys" "sim h v0 ns M v" "stack v = xs @ st" "length ns + b < 2147483648"
  obtains M' v' new where "act M = Some M'" "sim h v0 (ns @ new) M' v'" "stack v' = ys @ st"
    "length new \<le> b" "\<forall>x \<in> set new. snd x \<or> size (fst x) \<le> b"
  using assms unfolding steps_def by blast

lemma steps_frame: "steps act b xs ys \<Longrightarrow> steps act b (xs @ zs) (ys @ zs)"
  unfolding steps_def by (metis append_assoc)

lemma steps_push: "steps act b [] ys \<Longrightarrow> steps act b zs (ys @ zs)"
  using steps_frame [of act b "[]" ys zs] by simp

lemma steps_mono:
  assumes "steps act b xs ys" "b \<le> c"
  shows "steps act c xs ys"
  unfolding steps_def
proof (intro allI impI, elim conjE)
  fix h v0 ns M v st
  assume s: "sim h v0 ns M v" "stack v = xs @ st" "length ns + c < 2147483648"
  then have "length ns + b < 2147483648" using assms(2) by simp
  from stepsD [OF assms(1) s(1,2) this] obtain M' v' new where "act M = Some M'"
    "sim h v0 (ns @ new) M' v'" "stack v' = ys @ st" "length new \<le> b"
    "\<forall>x \<in> set new. snd x \<or> size (fst x) \<le> b" .
  with assms(2) show "\<exists>M' v' new. act M = Some M' \<and> sim h v0 (ns @ new) M' v' \<and> stack v' = ys @ st \<and>
      length new \<le> c \<and> (\<forall>x \<in> set new. snd x \<or> size (fst x) \<le> c)"
    by (intro exI [of _ M'] exI [of _ v'] exI [of _ new]) auto
qed

lemma steps_Some: "steps Some 0 xs xs"
  unfolding steps_def by (metis append_Nil2 empty_iff list.size(3) order_refl set_empty)

lemma steps_bind:
  assumes "steps act b xs ys" "steps act' b' ys zs"
  shows "steps (\<lambda>M. act M \<bind> act') (b + b') xs zs"
  unfolding steps_def
proof (intro allI impI, elim conjE)
  fix h v0 ns M v st
  assume s: "sim h v0 ns M v" "stack v = xs @ st" "length ns + (b + b') < 2147483648"
  then have "length ns + b < 2147483648" by simp
  from stepsD [OF assms(1) s(1,2) this] obtain M1 v1 new1 where
    1: "act M = Some M1" "sim h v0 (ns @ new1) M1 v1" "stack v1 = ys @ st" "length new1 \<le> b"
      "\<forall>x \<in> set new1. snd x \<or> size (fst x) \<le> b" .
  then have "length (ns @ new1) + b' < 2147483648" using s(3) by simp
  from stepsD [OF assms(2) 1(2,3) this] obtain M2 v2 new2 where
    2: "act' M1 = Some M2" "sim h v0 ((ns @ new1) @ new2) M2 v2" "stack v2 = zs @ st" "length new2 \<le> b'"
      "\<forall>x \<in> set new2. snd x \<or> size (fst x) \<le> b'" .
  show "\<exists>M' v' new. act M \<bind> act' = Some M' \<and> sim h v0 (ns @ new) M' v' \<and> stack v' = zs @ st \<and>
      length new \<le> b + b' \<and> (\<forall>x \<in> set new. snd x \<or> size (fst x) \<le> b + b')"
    using 1 2 by (intro exI [of _ M2] exI [of _ v2] exI [of _ "new1 @ new2"]) auto
qed

text \<open>Text that pops and pushes.\<close>

definition op_text :: "string \<Rightarrow> node list \<Rightarrow> node list \<Rightarrow> bool" where
  "op_text s xs ys \<longleftrightarrow> s \<noteq> [] \<and> (\<forall>v st. stack v = xs @ st \<longrightarrow> reads s v (v\<lparr>stack := ys @ st\<rparr>))"

lemma op_text_append:
  assumes "op_text s xs ys" "op_text t ys zs"
  shows "op_text (s @ t) xs zs"
  unfolding op_text_def
proof (intro conjI allI impI)
  fix v :: view and st
  assume "stack v = xs @ st"
  then have "reads s v (v\<lparr>stack := ys @ st\<rparr>)" using assms(1) by (simp add: op_text_def)
  moreover have "reads t u (u\<lparr>stack := zs @ st\<rparr>)" if "stack u = ys @ st" for u
    using assms(2) that by (simp add: op_text_def)
  from this [of "v\<lparr>stack := ys @ st\<rparr>"]
  have "reads t (v\<lparr>stack := ys @ st\<rparr>) (v\<lparr>stack := zs @ st\<rparr>)" by simp
  ultimately show "reads (s @ t) v (v\<lparr>stack := zs @ st\<rparr>)" by (rule reads_append)
qed (use assms in \<open>auto simp: op_text_def\<close>)

lemma op_text_push: "op_text s [] ys \<Longrightarrow> op_text s zs (ys @ zs)"
  unfolding op_text_def by (metis append_Nil append_assoc)

lemma steps_emit:
  assumes "op_text s xs ys"
  shows "steps (\<lambda>M. Some (emit s M)) 0 xs ys"
  unfolding steps_def
proof (intro allI impI, elim conjE)
  fix h v0 ns M v st
  assume s: "sim h v0 ns M v" "stack v = xs @ st" "length ns + 0 < 2147483648"
  have "sim h v0 ns (emit s M) (v\<lparr>stack := ys @ st\<rparr>)"
    using assms s(2) by (intro sim_emit [OF s(1)]) (auto simp: op_text_def)
  then show "\<exists>M' v' new. Some (emit s M) = Some M' \<and> sim h v0 (ns @ new) M' v' \<and> stack v' = ys @ st \<and>
      length new \<le> 0 \<and> (\<forall>x \<in> set new. snd x \<or> size (fst x) \<le> 0)"
    by (intro exI [of _ "emit s M"] exI [of _ "v\<lparr>stack := ys @ st\<rparr>"] exI [of _ "[]"]) auto
qed

text \<open>A node that becomes a table entry, found there or mangled by \<open>act\<close> and an operator.\<close>

definition entry_text :: "string \<Rightarrow> node list \<Rightarrow> node \<Rightarrow> bool" where
  "entry_text s xs y \<longleftrightarrow> s \<noteq> [] \<and>
     (\<forall>v st. stack v = xs @ st \<longrightarrow> reads s v (v\<lparr>stack := y # st, subs := subs v @ [y]\<rparr>))"

lemma steps_entry:
  assumes "steps act b [] xs" "entry_text s xs (Node K_Type NoPayload [nd])" "b < size nd"
    "\<And>M. mangleStandardSubstitution nd M = Some (False, M)"
  shows "steps (with_substitution nd False (\<lambda>M. act M \<bind> (\<lambda>M. Some (emit s M)))) (size nd) []
    [Node K_Type NoPayload [nd]]"
  unfolding steps_def
proof (intro allI impI, elim conjE)
  fix h v0 ns M v st
  let ?T = "Node K_Type NoPayload [nd]" and ?act = "\<lambda>M. act M \<bind> (\<lambda>M. Some (emit s M))"
  assume s: "sim h v0 ns M v" "stack v = [] @ st" "length ns + size nd < 2147483648"
  obtain e where e: "setNode nd False = Some e" by (simp add: setNode_node)
  from sim_with_substitution [OF s(1) e _ assms(4), of ?act] s(3) consider
    (found) M' where "with_substitution nd False ?act M = Some M'"
      "sim h v0 ns M' (push_view [entry_node (nd, False)] v)"
    | (absent) "\<forall>n \<in> set ns. \<not> same_entry n (nd, False)"
      "with_substitution nd False ?act M = ?act M \<bind> addSubstitution_entry nd False"
    by auto
  then show "\<exists>M' v' new. with_substitution nd False ?act M = Some M' \<and> sim h v0 (ns @ new) M' v' \<and>
      stack v' = [?T] @ st \<and> length new \<le> size nd \<and> (\<forall>x \<in> set new. snd x \<or> size (fst x) \<le> size nd)"
  proof cases
    case found
    with s(2) show ?thesis
      by (intro exI [of _ M'] exI [of _ "push_view [entry_node (nd, False)] v"] exI [of _ "[]"])
        (auto simp: entry_node_def)
  next
    case absent
    have "length ns + b < 2147483648" using s(3) assms(3) by simp
    from stepsD [OF assms(1) s(1,2) this] obtain M1 v1 new where
      1: "act M = Some M1" "sim h v0 (ns @ new) M1 v1" "stack v1 = xs @ st" "length new \<le> b"
        "\<forall>x \<in> set new. snd x \<or> size (fst x) \<le> b" .
    let ?v = "v1\<lparr>stack := ?T # st, subs := subs v1 @ [?T]\<rparr>"
    have "\<forall>n \<in> set (ns @ new). \<not> same_entry n (nd, False)"
      using absent(1) 1(5) assms(3) by (auto simp: same_entry_def)
    moreover have "reads s v1 ?v" "s \<noteq> []" using assms(2) 1(3) by (auto simp: entry_text_def)
    ultimately obtain M' where
      "addSubstitution_entry nd False (emit s M1) = Some M'" "sim h v0 ((ns @ new) @ [(nd, False)]) M' ?v"
      using sim_entry [OF 1(2), of s ?v nd False e] e by (auto simp: entry_node_def)
    with absent(2) 1 assms(3) show ?thesis
      by (intro exI [of _ M'] exI [of _ ?v] exI [of _ "new @ [(nd, False)]"]) auto
  qed
qed

lemma steps_identifier:
  assumes "getText nd = Some t" "ident_ok t" "\<And>M. mangleStandardSubstitution nd M = Some (False, M)"
  shows "steps (mangleIdentifierImpl False nd) 1 [] [ident_node t]"
  unfolding steps_def
proof (intro allI impI, elim conjE)
  fix h v0 ns M v st
  assume s: "sim h v0 ns M v" "stack v = [] @ st" "length ns + 1 < 2147483648"
  obtain e where e: "setNode nd True = Some e" using assms(1) setNode_identifier by blast
  let ?act = "\<lambda>M. getText nd \<bind> (\<lambda>t. mangleIdentifier (if False then translateOperator t else t) M)"
  have act: "?act M = mangleIdentifier t M" using assms(1) by simp
  from sim_with_substitution [OF s(1) e _ assms(3), of ?act] s(3) consider
    (found) M' where "mangleIdentifierImpl False nd M = Some M'"
      "sim h v0 ns M' (push_view [entry_node (nd, True)] v)"
    | (absent) "\<forall>n \<in> set ns. \<not> same_entry n (nd, True)"
      "mangleIdentifierImpl False nd M = mangleIdentifier t M \<bind> addSubstitution_entry nd True"
    unfolding mangleIdentifierImpl_def act by auto
  then show "\<exists>M' v' new. mangleIdentifierImpl False nd M = Some M' \<and> sim h v0 (ns @ new) M' v' \<and>
      stack v' = [ident_node t] @ st \<and> length new \<le> 1 \<and> (\<forall>x \<in> set new. snd x \<or> size (fst x) \<le> 1)"
  proof cases
    case found
    with s(2) assms(1) show ?thesis
      by (intro exI [of _ M'] exI [of _ "push_view [entry_node (nd, True)] v"] exI [of _ "[]"])
        (auto simp: entry_node_def)
  next
    case absent
    from sim_identifier [OF s(1) assms(1,2) absent(1)] absent(2) obtain M' v' where
      "mangleIdentifierImpl False nd M = Some M'" "sim h v0 (ns @ [(nd, True)]) M' v'"
      "stack v' = ident_node t # stack v" by auto
    with s(2) show ?thesis by (intro exI [of _ M'] exI [of _ v'] exI [of _ "[(nd, True)]"]) auto
  qed
qed

lemma steps_standard:
  assumes "\<And>M. mangleStandardSubstitution nd M = map_option (Pair True) (emit_standard c M)"
    "standard_letter c" "createStandardSubstitution c = Some x"
  shows "steps (with_substitution nd f act) 0 [] [x]"
  unfolding steps_def
proof (intro allI impI, elim conjE)
  fix h v0 ns M v st
  assume s: "sim h v0 ns M v" "stack v = [] @ st" "length ns + 0 < 2147483648"
  from sim_request [OF s(1), of "Standard c"] assms(2,3) obtain M' where
    "emit_standard c M = Some M'" "sim h v0 ns M' (push_view [x] v)" by (auto simp: known_request_def)
  with s(2) assms(1) show "\<exists>M' v' new. with_substitution nd f act M = Some M' \<and> sim h v0 (ns @ new) M' v' \<and>
      stack v' = [x] @ st \<and> length new \<le> 0 \<and> (\<forall>x \<in> set new. snd x \<or> size (fst x) \<le> 0)"
    by (intro exI [of _ M'] exI [of _ "push_view [x] v"] exI [of _ "[]"])
      (auto simp: with_substitution_def trySubstitution_def)
qed

end
