(* ===== verification/Type_Operators.thy ===== *)
theory Type_Operators
  imports Mangling_Stream
begin

text \<open>
  The operators of the demangler for types, one lemma for each text: \<open>op_text s xs ys\<close> says that \<open>s\<close>
  replaces the nodes \<open>xs\<close> on top of the stack by \<open>ys\<close> (top first), \<open>entry_text s xs y\<close> that it also
  records \<open>y\<close> as a substitution.
\<close>

section \<open>Operators of the demangler\<close>

lemma op_textI:
  assumes "s \<noteq> []" "\<And>d t st. rest d = s @ t \<Longrightarrow> NodeStack d = xs @ st \<Longrightarrow> \<not> IsOldFunctionTypeMangling d \<Longrightarrow>
    demangleOperator d = Some (Some y, (skip (length s) d)\<lparr>NodeStack := ys @ st\<rparr>)"
  shows "op_text s xs (y # ys)"
  unfolding op_text_def
proof (intro conjI allI impI reads_operator)
  fix v st d t
  assume d: "stack v = xs @ st" "view_of d = v" "rest d = s @ t" "\<not> IsOldFunctionTypeMangling d"
  then have "NodeStack d = xs @ st" by (auto simp: view_of_def)
  from assms(2) [OF d(3) this d(4)] have
    "demangleOperator d = Some (Some y, (skip (length s) d)\<lparr>NodeStack := ys @ st\<rparr>)" .
  moreover have "rest (skip (length s) d) = t" using d(3) by (rule rest_skip)
  ultimately show "\<exists>x d'. demangleOperator d = Some (Some x, d') \<and>
      view_of (pushNode x d') = v\<lparr>stack := (y # ys) @ st\<rparr> \<and> rest d' = t \<and> \<not> IsOldFunctionTypeMangling d'"
    using d by (intro exI [of _ y] exI [of _ "(skip (length s) d)\<lparr>NodeStack := ys @ st\<rparr>"])
      (auto simp: view_of_def pushNode_def rest_def skip_def)
qed (use assms(1) in auto)

lemma entry_textI:
  assumes "s \<noteq> []" "\<And>d t st. rest d = s @ t \<Longrightarrow> NodeStack d = xs @ st \<Longrightarrow> \<not> IsOldFunctionTypeMangling d \<Longrightarrow>
    demangleOperator d = Some (Some y,
      (skip (length s) d)\<lparr>NodeStack := st, Substitutions := Substitutions d @ [y]\<rparr>)"
  shows "entry_text s xs y"
  unfolding entry_text_def
proof (intro conjI allI impI reads_operator)
  fix v st d t
  assume d: "stack v = xs @ st" "view_of d = v" "rest d = s @ t" "\<not> IsOldFunctionTypeMangling d"
  then have "NodeStack d = xs @ st" by (auto simp: view_of_def)
  from assms(2) [OF d(3) this d(4)] have "demangleOperator d = Some (Some y,
      (skip (length s) d)\<lparr>NodeStack := st, Substitutions := Substitutions d @ [y]\<rparr>)" .
  moreover have "rest (skip (length s) d) = t" using d(3) by (rule rest_skip)
  ultimately show "\<exists>x d'. demangleOperator d = Some (Some x, d') \<and>
      view_of (pushNode x d') = v\<lparr>stack := y # st, subs := subs v @ [y]\<rparr> \<and> rest d' = t \<and>
      \<not> IsOldFunctionTypeMangling d'"
    using d by (intro exI [of _ y]
        exI [of _ "(skip (length s) d)\<lparr>NodeStack := st, Substitutions := Substitutions d @ [y]\<rparr>"])
      (auto simp: view_of_def pushNode_def rest_def skip_def)
qed (use assms(1) in auto)

abbreviation Ty :: "node \<Rightarrow> node" where
  "Ty nd \<equiv> Node K_Type NoPayload [nd]"

lemmas build_defs = createType_def createWithChild_def createWithChildren2_def Node_addChild_def addChild_def

lemmas pop_defs = popNode_kind_def popNode_if_def popNode_def popTypeAndGetChild_def getFirstChild_def
  getNumChildren_def build_defs

lemma popNode_kind_top:
  "NodeStack d = n # st \<Longrightarrow>
   popNode_kind k d = (if getKind n = k then (Some n, d\<lparr>NodeStack := st\<rparr>) else (None, d))"
  by (simp add: pop_defs)

lemma op_leaf:
  "op_text ''s'' [] [Node K_Module (TextPayload ''Swift'') []]"
  "op_text ''y'' [] [Node K_EmptyList NoPayload []]"
  "op_text ''_'' [] [Node K_FirstElementMarker NoPayload []]"
  "op_text ''d'' [] [Node K_VariadicMarker NoPayload []]"
  "op_text ''K'' [] [Node K_ThrowsAnnotation NoPayload []]"
  by (rule op_textI; simp add: demangleOperator_def rest_Cons(3))+

lemma op_wrap:
  "op_text ''m'' [Ty t] [Ty (Node K_Metatype NoPayload [Ty t])]"
  "op_text ''z'' [Ty t] [Ty (Node K_InOut NoPayload [t])]"
  "op_text ''h'' [Ty t] [Ty (Node K_Shared NoPayload [t])]"
  by (rule op_textI; simp add: demangleOperator_def rest_Cons(3) pop_defs)+

lemma rest_two:
  assumes "rest d = a # b # t"
  shows "nextChar d = (a, skip 1 d)" "nextChar (skip (Suc 0) d) = (b, skip 2 d)"
  using rest_Cons(3) [OF assms] rest_Cons(3) [OF rest_skip1 [OF assms]] by (simp_all add: numeral_2_eq_2)

lemma rest_third:
  assumes "rest d = a # b # c # t"
  shows "nextChar (skip 2 d) = (c, skip 3 d)"
  using rest_Cons(3) [OF rest_skip [of d "[a, b]"]] assms by (simp add: numeral_2_eq_2 numeral_3_eq_3)

lemma op_module:
  "op_text ''So'' [] [Node K_Module (TextPayload ''__C'') []]"
  "op_text ''SC'' [] [Node K_Module (TextPayload ''__C_Synthesized'') []]"
  by (rule op_textI; simp add: demangleOperator_def demangleStandardSubstitution_def rest_two)+

lemma op_special:
  "op_text ''Xo'' [Ty t] [Ty (Node K_Unowned NoPayload [Ty t])]"
  "op_text ''Xu'' [Ty t] [Ty (Node K_Unmanaged NoPayload [Ty t])]"
  "op_text ''Xw'' [Ty t] [Ty (Node K_Weak NoPayload [Ty t])]"
  "op_text ''Xb'' [Ty t] [Ty (Node K_SILBoxType NoPayload [Ty t])]"
  "op_text ''XD'' [Ty t] [Ty (Node K_DynamicSelf NoPayload [Ty t])]"
  "op_text ''Xp'' [Ty t] [Ty (Node K_ExistentialMetatype NoPayload [Ty t])]"
  "op_text ''Xe'' [] [Ty (Node K_ErrorType NoPayload [])]"
  by (rule op_textI; simp add: demangleOperator_def demangleSpecialType_def special_type_of_def rest_two pop_defs)+

lemma op_builtin:
  "op_text ''Bb'' [] [Ty (Node K_BuiltinTypeName (TextPayload ''Builtin.BridgeObject'') [])]"
  "op_text ''BB'' [] [Ty (Node K_BuiltinTypeName (TextPayload ''Builtin.UnsafeValueBuffer'') [])]"
  "op_text ''BO'' [] [Ty (Node K_BuiltinTypeName (TextPayload ''Builtin.UnknownObject'') [])]"
  "op_text ''Bo'' [] [Ty (Node K_BuiltinTypeName (TextPayload ''Builtin.NativeObject'') [])]"
  "op_text ''Bp'' [] [Ty (Node K_BuiltinTypeName (TextPayload ''Builtin.RawPointer'') [])]"
  "op_text ''Bt'' [] [Ty (Node K_BuiltinTypeName (TextPayload ''Builtin.SILToken'') [])]"
  "op_text ''Bw'' [] [Ty (Node K_BuiltinTypeName (TextPayload ''Builtin.Word'') [])]"
  by (rule op_textI; simp add: demangleOperator_def demangleBuiltinType_def rest_two pop_defs)+

lemma op_representation:
  assumes "(o', k) \<in> {(CHR ''M'', K_Metatype), (CHR ''m'', K_ExistentialMetatype)}"
    "(c, r) \<in> {(CHR ''t'', ''@thin''), (CHR ''T'', ''@thick''), (CHR ''o'', ''@objc_metatype'')}"
  shows "op_text [CHR ''X'', o', c] [Ty t]
    [Ty (Node k NoPayload [Node K_MetatypeRepresentation (TextPayload r) [], Ty t])]"
  using assms by (elim insertE; intro op_textI; simp add: demangleOperator_def demangleSpecialType_def
    metatype_with_representation_def demangleMetatypeRepresentation_def rest_two rest_third numeral_3_eq_3 pop_defs)

text \<open>The node \<open>x\<close> on the stack stands for the context \<open>c\<close>.\<close>

definition pops_context :: "node \<Rightarrow> node \<Rightarrow> bool" where
  "pops_context c x \<longleftrightarrow> (\<forall>d st. NodeStack d = x # st \<longrightarrow> popContext d = Some (Some c, d\<lparr>NodeStack := st\<rparr>))"

lemma isContext_kinds: "isContext k \<Longrightarrow> k \<noteq> K_Identifier \<and> k \<noteq> K_Type"
  by (auto simp: isContext_def)

lemma pops_context_intros:
  "pops_context (Node K_Module p []) (Node K_Identifier p [])"
  "pops_context (Node K_Module p []) (Node K_Module p [])"
  "isContext (getKind c) \<Longrightarrow> pops_context c (Ty c)"
  "isContext (getKind c) \<Longrightarrow> getKind c \<noteq> K_Module \<Longrightarrow> pops_context c c"
  using isContext_kinds [of "getKind c"]
  by (simp_all add: pops_context_def popContext_def popModule_def pop_defs changeKind_def Let_def)

lemma entry_nominal:
  assumes "pops_context c x" "isDeclName (getKind n)"
    "(o', kind) \<in> {(CHR ''C'', K_Class), (CHR ''V'', K_Structure), (CHR ''O'', K_Enum),
       (CHR ''P'', K_Protocol), (CHR ''a'', K_TypeAlias)}"
  shows "entry_text [o'] [n, x] (Ty (Node kind NoPayload [c, n]))"
proof -
  have op: "demangleOperator d = demangleAnyGenericType kind (skip 1 d)" if "rest d = o' # t" for d t
    using assms(3) rest_Cons(3) [OF that] by (elim insertE) (simp_all add: demangleOperator_def)
  have "demangleAnyGenericType kind d = Some (Some (Ty (Node kind NoPayload [c, n])),
    addSubstitution (Some (Ty (Node kind NoPayload [c, n]))) (d\<lparr>NodeStack := st\<rparr>))"
    if "NodeStack d = n # x # st" for d st
    using assms(1,2) that by (simp add: demangleAnyGenericType_def pops_context_def pop_defs Let_def)
  then show ?thesis by (intro entry_textI) (simp_all add: op addSubstitution_def)
qed

lemma entry_optional:
  "entry_text ''Sg'' [Ty t] (Ty (Node K_BoundGenericEnum NoPayload
     [Ty (Node K_Enum NoPayload [Node K_Module (TextPayload ''Swift'') [], Node K_Identifier (TextPayload ''Optional'') []]),
      Node K_TypeList NoPayload [Ty t]]))"
  by (rule entry_textI) (simp_all add: demangleOperator_def demangleStandardSubstitution_def rest_two
      createSwiftType_def addSubstitution_def pop_defs)

section \<open>Function types\<close>

text \<open>How a parameter or result type is left on the stack.\<close>

definition param_node :: "node \<Rightarrow> node" where
  "param_node t = (if getKind t = K_Tuple \<and> children t = [] then Node K_EmptyList NoPayload [] else Ty t)"

definition throws_nodes :: "bool \<Rightarrow> node list" where
  "throws_nodes b = (if b then [Node K_ThrowsAnnotation NoPayload []] else [])"

definition function_node :: "node_kind \<Rightarrow> bool \<Rightarrow> node \<Rightarrow> node \<Rightarrow> node" where
  "function_node kind b a r = Node kind NoPayload (throws_nodes b @
     [Node K_ArgumentTuple (IndexPayload (if getKind a = K_Tuple then length (children a) else 1)) [Ty a],
      Node K_ReturnType NoPayload [Ty r]])"

definition unit_ok :: "node \<Rightarrow> bool" where
  "unit_ok t \<longleftrightarrow> (getKind t = K_Tuple \<and> children t = [] \<longrightarrow> t = Node K_Tuple NoPayload [])"

lemma popFunctionParams_node:
  assumes "NodeStack d = param_node t # st" "unit_ok t"
  shows "popFunctionParams K_ArgumentTuple d = Some (Some (Node K_ArgumentTuple
      (IndexPayload (if getKind t = K_Tuple then length (children t) else 1)) [Ty t]), d\<lparr>NodeStack := st\<rparr>)"
    "popFunctionParams K_ReturnType d = Some (Some (Node K_ReturnType NoPayload [Ty t]), d\<lparr>NodeStack := st\<rparr>)"
  using assms by (auto simp: popFunctionParams_def param_node_def unit_ok_def pop_defs)

lemma popFunctionType_node:
  assumes "NodeStack d = throws_nodes b @ [param_node a, param_node r] @ st" "unit_ok a" "unit_ok r"
  shows "popFunctionType kind d = Some (Some (Ty (function_node kind b a r)), d\<lparr>NodeStack := st\<rparr>)"
proof -
  let ?d = "d\<lparr>NodeStack := [param_node a, param_node r] @ st\<rparr>"
  have throws: "popNode_kind K_ThrowsAnnotation d = (if b then Some (Node K_ThrowsAnnotation NoPayload []) else None, ?d)"
    using assms(1) by (cases b) (simp_all add: throws_nodes_def param_node_def pop_defs)
  show ?thesis
    using popFunctionParams_node(1) [of ?d a "param_node r # st"] assms(2,3)
      popFunctionParams_node(2) [of "d\<lparr>NodeStack := param_node r # st\<rparr>" r st]
    by (cases b) (simp_all add: popFunctionType_def throws function_node_def throws_nodes_def build_defs)
qed

lemma op_function:
  assumes "(s, kind) \<in> {(''c'', K_FunctionType), (''Xf'', K_ThinFunctionType), (''XK'', K_AutoClosureType),
      (''XB'', K_ObjCBlock), (''XC'', K_CFunctionPointer)}" "unit_ok a" "unit_ok r"
  shows "op_text s (throws_nodes b @ [param_node a, param_node r]) [Ty (function_node kind b a r)]"
proof (rule op_textI)
  show "s \<noteq> []" using assms(1) by auto
  fix d t st
  assume d: "rest d = s @ t" "NodeStack d = (throws_nodes b @ [param_node a, param_node r]) @ st"
  have "demangleOperator d = popFunctionType kind (skip (length s) d)"
    using assms(1) d(1) by (elim insertE)
      (simp_all add: demangleOperator_def demangleSpecialType_def rest_two rest_Cons(3) numeral_2_eq_2)
  also have "\<dots> = Some (Some (Ty (function_node kind b a r)), (skip (length s) d)\<lparr>NodeStack := st\<rparr>)"
    using d(2) assms(2,3) by (intro popFunctionType_node) simp_all
  finally show "demangleOperator d = Some (Some (Ty (function_node kind b a r)),
      (skip (length s) d)\<lparr>NodeStack := [] @ st\<rparr>)" by simp
qed

section \<open>Tuple types\<close>

text \<open>An element: whether it is variadic, its label, its type.\<close>

type_synonym element = "bool \<times> string option \<times> node"

fun element_node :: "element \<Rightarrow> node" where
  "element_node (v, l, t) = Node K_TupleElement NoPayload
     ((if v then [Node K_VariadicMarker NoPayload []] else []) @
      (case l of None \<Rightarrow> [] | Some l \<Rightarrow> [Node K_TupleElementName (TextPayload l) []]) @ [Ty t])"

fun element_stack :: "element \<Rightarrow> node list" where
  "element_stack (v, l, t) = (if v then [Node K_VariadicMarker NoPayload []] else []) @
     (case l of None \<Rightarrow> [] | Some l \<Rightarrow> [ident_node l]) @ [Ty t]"

lemma element_pops:
  assumes "NodeStack d = element_stack (v, l, t) @ st"
  shows "popNode_kind K_FirstElementMarker d = (None, d)"
    "popNode_kind K_VariadicMarker d = (if v then Some (Node K_VariadicMarker NoPayload []) else None,
       d\<lparr>NodeStack := element_stack (False, l, t) @ st\<rparr>)"
  using assms by (cases v; cases l; simp add: popNode_kind_top ident_node_def)+

lemma element_pops_label:
  assumes "NodeStack d = element_stack (False, l, t) @ st"
  shows "popNode_kind K_Identifier d = (map_option ident_node l, d\<lparr>NodeStack := Ty t # st\<rparr>)"
  using assms by (cases l; simp add: popNode_kind_top ident_node_def)

lemma tuple_elements_step:
  assumes "NodeStack d = (if b then [Node K_FirstElementMarker NoPayload []] else []) @ element_stack e @ st"
  shows "tuple_elements acc d =
    (if b then Some (Some (element_node e # acc), d\<lparr>NodeStack := st\<rparr>)
     else tuple_elements (element_node e # acc) (d\<lparr>NodeStack := st\<rparr>))"
proof -
  obtain v l t where e: "e = (v, l, t)" by (cases e)
  let ?d = "d\<lparr>NodeStack := element_stack (v, l, t) @ st\<rparr>"
  have first: "popNode_kind K_FirstElementMarker d =
      (if b then Some (Node K_FirstElementMarker NoPayload []) else None, ?d)"
    using assms e element_pops(1) [of d v l t st] by (cases b) (simp_all add: popNode_kind_top)
  note pops = element_pops(2) [of ?d v l t st]
    element_pops_label [of "d\<lparr>NodeStack := element_stack (False, l, t) @ st\<rparr>" l t st]
    popNode_kind_top [of "d\<lparr>NodeStack := Ty t # st\<rparr>" "Ty t" st K_Type]
  show ?thesis
    unfolding tuple_elements.simps [of acc d] e
    by (simp add: first pops del: element_stack.simps element_node.simps)
      (cases b; cases v; cases l; simp add: ident_node_def popNode_kind_top getText_def)
qed

lemma tuple_elements_all:
  "NodeStack d = concat (map element_stack (rev es)) @ Node K_FirstElementMarker NoPayload [] # element_stack e @ st \<Longrightarrow>
   tuple_elements acc d = Some (Some (map element_node (e # es) @ acc), d\<lparr>NodeStack := st\<rparr>)"
proof (induction es arbitrary: acc d rule: rev_induct)
  case Nil
  then show ?case using tuple_elements_step [of d True e st acc] by simp
next
  case (snoc x es)
  let ?st = "concat (map element_stack (rev es)) @ Node K_FirstElementMarker NoPayload [] # element_stack e @ st"
  have "tuple_elements acc d = tuple_elements (element_node x # acc) (d\<lparr>NodeStack := ?st\<rparr>)"
    using tuple_elements_step [of d False x ?st acc] snoc.prems by simp
  also have "\<dots> = Some (Some (map element_node (e # es) @ element_node x # acc), d\<lparr>NodeStack := st\<rparr>)"
    using snoc.IH [of "d\<lparr>NodeStack := ?st\<rparr>" "element_node x # acc"] by simp
  finally show ?case by simp
qed

lemma op_tuple:
  "op_text ''t'' [Node K_EmptyList NoPayload []] [Ty (Node K_Tuple NoPayload [])]"
  "op_text ''t'' (concat (map element_stack (rev es)) @ Node K_FirstElementMarker NoPayload [] # element_stack e)
     [Ty (Node K_Tuple NoPayload (map element_node (e # es)))]"
proof -
  show "op_text ''t'' [Node K_EmptyList NoPayload []] [Ty (Node K_Tuple NoPayload [])]"
    by (rule op_textI) (simp_all add: demangleOperator_def rest_Cons(3) popTuple_def popNode_kind_top build_defs)
  have list: "popNode_kind K_EmptyList d = (None, d)"
    if "NodeStack d = concat (map element_stack (rev es)) @ Node K_FirstElementMarker NoPayload [] # element_stack e @ st"
    for d st
  proof (cases "rev es")
    case Nil
    with that show ?thesis by (simp add: popNode_kind_top)
  next
    case (Cons x xs)
    with that show ?thesis
      by (cases x; cases "fst x"; cases "fst (snd x)") (simp_all add: popNode_kind_top ident_node_def)
  qed
  show "op_text ''t'' (concat (map element_stack (rev es)) @ Node K_FirstElementMarker NoPayload [] # element_stack e)
     [Ty (Node K_Tuple NoPayload (map element_node (e # es)))]"
    by (rule op_textI)
      (simp_all add: demangleOperator_def rest_Cons(3) popTuple_def list tuple_elements_all build_defs
        del: list.map)
qed

section \<open>Indexed operators\<close>

lemma rest_head: "rest d = c # s @ t \<Longrightarrow> rest (skip (Suc 0) d) = s @ t"
  using rest_skip1 [of d c "s @ t"] by simp

lemma index_text_head:
  obtains x xs where "index_text n = x # xs" "isDigit x \<or> x = CHR ''_''"
proof (cases "n = 0")
  case True
  then show ?thesis using that by (simp add: index_text_def)
next
  case False
  obtain x xs where "decimal (n - 1) = x # xs" "isDigit x" by (rule decimal_head)
  with False that show ?thesis by (simp add: index_text_def)
qed

lemma nextIf_index:
  assumes "rest d = index_text n @ t" "\<not> isDigit c" "c \<noteq> CHR ''_''"
  shows "nextIf c d = (False, d)"
proof -
  obtain x xs where "index_text n = x # xs" "isDigit x \<or> x = CHR ''_''" by (rule index_text_head)
  with assms show ?thesis using rest_Cons(5) [of d x "xs @ t" c] by auto
qed

definition param_type :: "nat \<Rightarrow> nat \<Rightarrow> node" where
  "param_type depth index = Node K_DependentGenericParamType
     (TextPayload (param_letters (int index) @ (if depth = 0 then [] else decimal depth)))
     [Node K_Index (IndexPayload depth) [], Node K_Index (IndexPayload index) []]"

lemma getDependentGenericParamType_node:
  "depth < 10000000 \<Longrightarrow> getDependentGenericParamType (int depth) (int index) = Some (Some (param_type depth index))"
  using append_int_None_iff [of "param_letters (int index)" "int depth"]
  by (auto simp: getDependentGenericParamType_def param_type_def CharVector_append_int_def print_int_def bind_eq_None_conv
    assert_that_def split: if_splits)

definition param_text :: "nat \<Rightarrow> nat \<Rightarrow> string" where
  "param_text depth index =
     (if depth \<noteq> 0 then ''qd'' @ index_text (depth - 1) @ index_text index
      else if index \<noteq> 0 then ''q'' @ index_text (index - 1) else ''x'')"

lemma op_param:
  assumes "depth < 10000000" "index < 2147483648"
  shows "op_text (param_text depth index) [] [Ty (param_type depth index)]"
proof (rule op_textI)
  show "param_text depth index \<noteq> []" by (simp add: param_text_def)
  fix d t st
  assume d: "rest d = param_text depth index @ t" "NodeStack d = [] @ st"
  have 0: "getDependentGenericParamType (int depth) (int index) = Some (Some (param_type depth index))"
    using assms(1) by (rule getDependentGenericParamType_node)
  consider "depth = 0" "index = 0" | "depth = 0" "index \<noteq> 0" | "depth \<noteq> 0" by blast
  then have "demangleOperator d = Some (Some (Ty (param_type depth index)), skip (length (param_text depth index)) d)"
  proof cases
    case 1
    with d(1) 0 show ?thesis by (simp add: demangleOperator_def rest_Cons(3) param_text_def build_defs)
  next
    case 2
    let ?s = "index_text (index - 1)"
    have r: "rest d = CHR ''q'' # ?s @ t" using 2 d(1) by (simp add: param_text_def)
    have "demangleIndex (skip 1 d) = (int (index - 1), skip (length ?s) (skip 1 d))"
      using rest_head [OF r] assms(2) by (intro demangleIndex_text) auto
    with 2 0 r assms nextIf_index [OF rest_head [OF r]] show ?thesis
      by (simp add: demangleOperator_def rest_Cons(3) demangleGenericParamIndex_def param_text_def build_defs
          isDigit_def of_nat_diff)
  next
    case 3
    let ?s = "index_text (depth - 1)" and ?s' = "index_text index"
    have r: "rest d = CHR ''q'' # CHR ''d'' # ?s @ ?s' @ t" using 3 d(1) by (simp add: param_text_def)
    have r1: "rest (skip 1 d) = CHR ''d'' # ?s @ ?s' @ t" using rest_skip1 [OF r] by simp
    have r2: "rest (skip 2 d) = ?s @ ?s' @ t" using rest_skip1 [OF r1] by (simp add: numeral_2_eq_2)
    have 4: "nextIf (CHR ''d'') (skip 1 d) = (True, skip 2 d)" using rest_Cons(4) [OF r1] by (simp add: numeral_2_eq_2)
    have 5: "demangleIndex (skip 2 d) = (int (depth - 1), skip (length ?s) (skip 2 d))"
      using r2 assms(1) by (intro demangleIndex_text) auto
    have 6: "demangleIndex (skip (length ?s) (skip 2 d)) = (int index, skip (length ?s') (skip (length ?s) (skip 2 d)))"
      using rest_skip [OF r2] assms(2) by (intro demangleIndex_text) auto
    have "demangleGenericParamIndex (skip 1 d) =
        Some (Some (param_type depth index), skip (length ?s') (skip (length ?s) (skip 2 d)))"
      using 0 3 assms(1) by (simp only: demangleGenericParamIndex_def 4 5 6 Let_def prod.case if_True) (simp add: of_nat_diff)
    with 3 r show ?thesis
      by (simp add: demangleOperator_def rest_Cons(3) param_text_def build_defs add.assoc)
  qed
  with d(2) show "demangleOperator d = Some (Some (Ty (param_type depth index)),
      skip (length (param_text depth index)) d\<lparr>NodeStack := [] @ st\<rparr>)"
    by (simp add: skip_def)
qed

lemma index_Suc: "decimal n @ ''_'' = index_text (Suc n)"
  by (simp add: index_text_def)

definition builtin_node :: "string \<Rightarrow> node" where
  "builtin_node name = Ty (Node K_BuiltinTypeName (TextPayload (''Builtin.'' @ name)) [])"

lemma append_int_small: "0 \<le> n \<Longrightarrow> n < 10000000 \<Longrightarrow> CharVector_append_int s n = Some (s @ decimal (nat n))"
  using append_int_None_iff [of s n] by (auto simp: CharVector_append_int_def print_int_def assert_that_def split: if_splits)

lemma demangleIndex_Suc:
  assumes "rest d = a # b # index_text (Suc n) @ t" "n < 10000000"
  shows "demangleIndex (skip 2 d) = (1 + int n, skip (length (index_text (Suc n))) (skip 2 d))"
  using rest_skip1 [OF rest_skip1 [OF assms(1)]] assms(2) demangleIndex_text [of "skip 2 d" "Suc n" t]
  by (simp add: numeral_2_eq_2)

lemma op_builtin_sized:
  assumes "0 < n" "n < 10000000"
  shows "op_text (''Bi'' @ decimal n @ ''_'') [] [builtin_node (''Int'' @ decimal n)]"
    "op_text (''Bf'' @ decimal n @ ''_'') [] [builtin_node (''Float'' @ decimal n)]"
  unfolding index_Suc builtin_node_def using assms
  by (rule_tac op_textI; simp add: demangleOperator_def demangleBuiltinType_def builtin_sized_def
    rest_two demangleIndex_Suc append_int_small build_defs)+

lemma op_builtin_vector:
  assumes "0 < n" "n < 10000000"
  shows "op_text (''Bv'' @ decimal n @ ''_'') [builtin_node s] [builtin_node (''Vec'' @ decimal n @ ''x'' @ s)]"
  unfolding index_Suc builtin_node_def using assms
  by (rule_tac op_textI; simp add: demangleOperator_def demangleBuiltinType_def builtin_vector_def
    popTypeAndGetChild_def popNode_kind_top getFirstChild_def getNumChildren_def getText_def
    rest_two demangleIndex_Suc append_int_small build_defs)

section \<open>Declaration names\<close>

lemma op_private:
  assumes "isDeclName (getKind n)"
  shows "op_text ''LL'' [ident_node t, n] [Node K_PrivateDeclName NoPayload [ident_node t, n]]"
    "op_text ''Ll'' [ident_node t] [Node K_PrivateDeclName NoPayload [ident_node t]]"
proof -
  have next_L: "nextIf (CHR ''L'') (skip (Suc 0) d) = (c = CHR ''L'', if c = CHR ''L'' then skip 2 d else skip 1 d)"
    if "rest d = CHR ''L'' # c # r" for d c r
    using rest_Cons(4,5) [OF rest_skip1 [OF that]] by (auto simp: numeral_2_eq_2)
  have next_l: "nextIf (CHR ''l'') (skip (Suc 0) d) = (True, skip 2 d)" if "rest d = CHR ''L'' # CHR ''l'' # r" for d r
    using rest_Cons(4) [OF rest_skip1 [OF that]] by (simp add: numeral_2_eq_2)
  show "op_text ''LL'' [ident_node t, n] [Node K_PrivateDeclName NoPayload [ident_node t, n]]"
    using assms by (intro op_textI) (simp_all add: demangleOperator_def demangleLocalIdentifier_def rest_Cons(3)
        next_L pop_defs ident_node_def)
  show "op_text ''Ll'' [ident_node t] [Node K_PrivateDeclName NoPayload [ident_node t]]"
    by (intro op_textI) (simp_all add: demangleOperator_def demangleLocalIdentifier_def rest_Cons(3)
        next_L next_l pop_defs ident_node_def)
qed

lemma op_local:
  assumes "isDeclName (getKind n)" "i < 2147483648"
  shows "op_text (''L'' @ index_text i) [n] [Node K_LocalDeclName NoPayload [Node K_Number (IndexPayload i) [], n]]"
proof (rule op_textI)
  fix d t st
  assume d: "rest d = (''L'' @ index_text i) @ t" "NodeStack d = [n] @ st"
  have r: "rest (skip 1 d) = index_text i @ t" using rest_head [of d "CHR ''L''" "index_text i" t] d(1) by simp
  have "demangleIndex (skip 1 d) = (int i, skip (length (index_text i)) (skip 1 d))"
    using r assms(2) by (rule demangleIndex_text)
  with r d assms show "demangleOperator d = Some (Some (Node K_LocalDeclName NoPayload
      [Node K_Number (IndexPayload i) [], n]), (skip (length (''L'' @ index_text i)) d)\<lparr>NodeStack := [] @ st\<rparr>)"
    by (simp add: demangleOperator_def rest_Cons(3) demangleLocalIdentifier_def demangleIndexAsNode_def
        nextIf_index isDigit_def pop_defs)
qed simp

section \<open>Extensions and protocols\<close>

lemma popModule_node:
  "NodeStack d = Node K_Identifier p [] # st \<Longrightarrow> popModule d = (Some (Node K_Module p []), d\<lparr>NodeStack := st\<rparr>)"
  "NodeStack d = Node K_Module p [] # st \<Longrightarrow> popModule d = (Some (Node K_Module p []), d\<lparr>NodeStack := st\<rparr>)"
  by (simp_all add: popModule_def popNode_kind_top changeKind_def)

lemma op_extension:
  assumes "isAnyGeneric (getKind t)" "x = Node K_Identifier p [] \<or> x = Node K_Module p []"
  shows "op_text ''E'' [x, Ty t] [Node K_Extension NoPayload [Node K_Module p [], t]]"
proof (rule op_textI)
  fix d r st
  assume d: "rest d = ''E'' @ r" "NodeStack d = [x, Ty t] @ st"
  have "popModule (skip 1 d) = (Some (Node K_Module p []), (skip 1 d)\<lparr>NodeStack := Ty t # st\<rparr>)"
    using d(2) assms(2) popModule_node [of "skip 1 d" p "Ty t # st"] by auto
  moreover have "popNode_kind K_DependentGenericSignature (skip 1 d) = (None, skip 1 d)"
    using d(2) assms(2) by (auto simp: popNode_kind_top)
  ultimately show "demangleOperator d = Some (Some (Node K_Extension NoPayload [Node K_Module p [], t]),
      (skip (length ''E'') d)\<lparr>NodeStack := [] @ st\<rparr>)"
    using d assms(1) by (simp add: demangleOperator_def rest_Cons(3) demangleExtensionContext_def
      popTypeAndGetAnyGeneric_def popTypeAndGetChild_def popNode_kind_top getFirstChild_def getNumChildren_def build_defs)
qed simp

text \<open>A protocol of a list is its context and its name, without the operator \<open>P\<close>.\<close>

definition protocol_node :: "node \<times> node \<times> node \<Rightarrow> node" where
  "protocol_node p = (case p of (c, x, n) \<Rightarrow> Ty (Node K_Protocol NoPayload [c, n]))"

definition protocol_stack :: "node \<times> node \<times> node \<Rightarrow> node list" where
  "protocol_stack p = (case p of (c, x, n) \<Rightarrow> [n, x])"

definition protocol_ok :: "node \<times> node \<times> node \<Rightarrow> bool" where
  "protocol_ok p \<longleftrightarrow> (case p of (c, x, n) \<Rightarrow> pops_context c x \<and> isDeclName (getKind n))"

lemma protocol_elements_step:
  assumes "NodeStack d = (if b then [Node K_FirstElementMarker NoPayload []] else []) @ protocol_stack p @ st"
    "protocol_ok p"
  shows "protocol_elements acc d =
    (if b then Some (Some (protocol_node p # acc), d\<lparr>NodeStack := st\<rparr>)
     else protocol_elements (protocol_node p # acc) (d\<lparr>NodeStack := st\<rparr>))"
proof -
  obtain c x n where p: "p = (c, x, n)" by (cases p)
  have n: "getKind n \<noteq> K_FirstElementMarker" using assms(2) p by (auto simp: protocol_ok_def isDeclName_def)
  have first: "popNode_kind K_FirstElementMarker d =
      (if b then Some (Node K_FirstElementMarker NoPayload []) else None, d\<lparr>NodeStack := protocol_stack p @ st\<rparr>)"
    using assms(1) p n by (cases b) (simp_all add: popNode_kind_top protocol_stack_def)
  have "popProtocol (d\<lparr>NodeStack := protocol_stack p @ st\<rparr>) = Some (Some (protocol_node p), d\<lparr>NodeStack := st\<rparr>)"
    using assms(2) p by (simp add: popProtocol_def protocol_stack_def protocol_ok_def protocol_node_def
        pops_context_def popNode_if_def popNode_def build_defs)
  then show ?thesis unfolding protocol_elements.simps [of acc d] by (cases b) (simp_all add: first)
qed

lemma protocol_elements_all:
  "NodeStack d = concat (map protocol_stack (rev ps)) @ Node K_FirstElementMarker NoPayload [] # protocol_stack p @ st \<Longrightarrow>
   \<forall>q \<in> set (p # ps). protocol_ok q \<Longrightarrow>
   protocol_elements acc d = Some (Some (map protocol_node (p # ps) @ acc), d\<lparr>NodeStack := st\<rparr>)"
proof (induction ps arbitrary: acc d rule: rev_induct)
  case Nil
  then show ?case using protocol_elements_step [of d True p st acc] by simp
next
  case (snoc q ps)
  let ?st = "concat (map protocol_stack (rev ps)) @ Node K_FirstElementMarker NoPayload [] # protocol_stack p @ st"
  have "protocol_elements acc d = protocol_elements (protocol_node q # acc) (d\<lparr>NodeStack := ?st\<rparr>)"
    using protocol_elements_step [of d False q ?st acc] snoc.prems by simp
  also have "\<dots> = Some (Some (map protocol_node (p # ps) @ protocol_node q # acc), d\<lparr>NodeStack := st\<rparr>)"
    using snoc.IH [of "d\<lparr>NodeStack := ?st\<rparr>" "protocol_node q # acc"] snoc.prems by simp
  finally show ?case by simp
qed

definition protocols_node :: "(node \<times> node \<times> node) list \<Rightarrow> node" where
  "protocols_node ps = Node K_ProtocolList NoPayload [Node K_TypeList NoPayload (map protocol_node ps)]"

definition protocols_stack :: "(node \<times> node \<times> node) list \<Rightarrow> node list" where
  "protocols_stack ps = (case ps of [] \<Rightarrow> [Node K_EmptyList NoPayload []]
     | p # ps \<Rightarrow> concat (map protocol_stack (rev ps)) @ Node K_FirstElementMarker NoPayload [] # protocol_stack p)"

lemma demangleProtocolList_node:
  assumes "NodeStack d = protocols_stack ps @ st" "\<forall>p \<in> set ps. protocol_ok p"
  shows "demangleProtocolList d = Some (Some (protocols_node ps), d\<lparr>NodeStack := st\<rparr>)"
proof (cases ps)
  case Nil
  with assms show ?thesis
    by (simp add: demangleProtocolList_def protocols_stack_def protocols_node_def popNode_kind_top build_defs)
next
  case (Cons p qs)
  have "popNode_kind K_EmptyList d = (None, d)"
  proof (cases "rev qs")
    case Nil
    with assms(1) Cons show ?thesis by (simp add: protocols_stack_def popNode_kind_top)
  next
    case (Cons q qs')
    then have "q \<in> set qs" by (metis list.set_intros(1) set_rev)
    with Cons \<open>ps = p # qs\<close> assms show ?thesis
      by (cases q) (auto simp: protocols_stack_def protocol_stack_def protocol_ok_def isDeclName_def popNode_kind_top)
  qed
  with assms Cons protocol_elements_all [of d qs p st "[]"] show ?thesis
    by (simp add: demangleProtocolList_def protocols_stack_def protocols_node_def build_defs)
qed

lemma op_protocols:
  assumes "\<forall>p \<in> set ps. protocol_ok p"
  shows "op_text ''p'' (protocols_stack ps) [Ty (protocols_node ps)]"
    "op_text ''Xl'' (protocols_stack ps) [Ty (Node K_ProtocolListWithAnyObject NoPayload [protocols_node ps])]"
    "op_text ''Xc'' (Ty t # protocols_stack ps) [Ty (Node K_ProtocolListWithClass NoPayload [protocols_node ps, Ty t])]"
  using assms by (intro op_textI; simp add: demangleOperator_def demangleProtocolListType_def
    demangleSpecialType_def rest_Cons(3) rest_two demangleProtocolList_node popNode_kind_top build_defs)+

end
