(* ===== verification/Type_Generics.thy ===== *)
theory Type_Generics
  imports Type_Operators
begin

text \<open>
  Bound generic types. A nominal type is mangled by the text of its unspecialized version followed
  by the lists of generic arguments of all its levels; the demangler puts the lists back into the
  tree. \<open>chain nd u ls\<close> relates a type to its unspecialized version and to the argument lists, the
  innermost level first (an empty list at a level without arguments).
\<close>

section \<open>Levels of a nominal type\<close>

definition type_list :: "node list \<Rightarrow> node" where
  "type_list ts = Node K_TypeList NoPayload (map Ty ts)"

inductive chain :: "node \<Rightarrow> node \<Rightarrow> node list list \<Rightarrow> bool" where
  chain_root: "\<not> is_nominal (getKind c) \<Longrightarrow> \<not> is_bound_generic (getKind c) \<Longrightarrow> getKind c \<noteq> K_Extension \<Longrightarrow> chain c c []"
| chain_plain: "chain p u ls \<Longrightarrow> is_nominal k \<Longrightarrow> chain (Node k NoPayload [p, n]) (Node k NoPayload [u, n]) ([] # ls)"
| chain_bound: "chain p u ls \<Longrightarrow> (k, bk) \<in> {(K_Structure, K_BoundGenericStructure), (K_Enum, K_BoundGenericEnum),
      (K_Class, K_BoundGenericClass)} \<Longrightarrow> ts \<noteq> [] \<Longrightarrow>
    chain (Node bk NoPayload [Ty (Node k NoPayload [p, n]), type_list ts])
      (Node k NoPayload [u, n]) (ts # ls)"
| chain_extension: "chain p u ls \<Longrightarrow> ls \<noteq> [] \<Longrightarrow> getKind u \<noteq> K_Extension \<Longrightarrow>
    chain (Node K_Extension NoPayload [m, p]) (Node K_Extension NoPayload [m, u]) ls"

lemma nominal_kinds:
  "is_nominal k \<Longrightarrow> \<not> is_bound_generic k \<and> k \<noteq> K_Extension"
  "is_nominal K_Structure" "is_nominal K_Enum" "is_nominal K_Class"
  "is_bound_generic K_BoundGenericStructure" "is_bound_generic K_BoundGenericEnum" "is_bound_generic K_BoundGenericClass"
  "\<not> is_nominal K_BoundGenericStructure" "\<not> is_nominal K_BoundGenericEnum" "\<not> is_nominal K_BoundGenericClass"
  "\<not> is_nominal K_Extension" "\<not> is_bound_generic K_Extension"
  by (auto simp: is_nominal_def is_bound_generic_def)

lemma bound_kinds:
  "(k, bk) \<in> {(K_Structure, K_BoundGenericStructure), (K_Enum, K_BoundGenericEnum), (K_Class, K_BoundGenericClass)} \<Longrightarrow>
   is_nominal k \<and> is_bound_generic bk \<and> \<not> is_nominal bk"
  by (auto simp: nominal_kinds)

lemma getChild_two [simp]:
  "getChild (Node k p (a # cs)) 0 = Some a" "getChild (Node k p (a # b # cs)) (Suc 0) = Some b"
  "getFirstChild (Node k p (a # cs)) = Some a"
  by (simp_all add: getChild_def getFirstChild_def getNumChildren_def)

lemma isSpecialized_chain: "chain nd u ls \<Longrightarrow> isSpecialized nd = Some (\<exists>ts \<in> set ls. ts \<noteq> [])"
proof (induction rule: chain.induct)
  case (chain_root c)
  then show ?case by (subst isSpecialized.simps) simp
next
  case (chain_plain p u ls k n)
  then show ?case using nominal_kinds(1) [of k] by (subst isSpecialized.simps) simp
next
  case (chain_bound p u ls k bk ts n)
  then show ?case using bound_kinds [of k bk] by (subst isSpecialized.simps) simp
next
  case (chain_extension p u ls m)
  then show ?case by (subst isSpecialized.simps) (simp add: nominal_kinds)
qed

lemma chain_plain_same: "chain nd u ls \<Longrightarrow> \<forall>ts \<in> set ls. ts = [] \<Longrightarrow> u = nd"
  by (induction rule: chain.induct) auto

lemma getUnspecialized_nominal:
  assumes "chain p u ls" "is_nominal k" "\<exists>ts \<in> set ls. ts \<noteq> [] \<Longrightarrow> getUnspecialized p = Some u"
  shows "getUnspecialized (Node k NoPayload [p, n]) = Some (Node k NoPayload [u, n])"
  using assms isSpecialized_chain [OF assms(1)] chain_plain_same [OF assms(1)]
  by (subst getUnspecialized.simps) auto

lemma getUnspecialized_chain:
  "chain nd u ls \<Longrightarrow> \<exists>ts \<in> set ls. ts \<noteq> [] \<Longrightarrow> getUnspecialized nd = Some u"
proof (induction rule: chain.induct)
  case (chain_plain p u ls k n)
  then show ?case by (intro getUnspecialized_nominal) auto
next
  case (chain_bound p u ls k bk ts n)
  note k = bound_kinds [OF chain_bound(2)]
  have "getUnspecialized (Node k NoPayload [p, n]) = Some (Node k NoPayload [u, n])"
    using chain_bound k by (intro getUnspecialized_nominal) auto
  moreover have "isSpecialized (Node k NoPayload [p, n]) = Some (\<exists>ts \<in> set ls. ts \<noteq> [])"
    using isSpecialized_chain [OF chain.chain_plain [OF chain_bound(1), of k n]] k by simp
  ultimately show ?case
    using k chain_plain_same [OF chain_bound(1)] by (subst getUnspecialized.simps) auto
next
  case (chain_extension p u ls m)
  then show ?case using isSpecialized_chain [OF chain_extension(1)]
    by (subst getUnspecialized.simps) (simp add: nominal_kinds getNumChildren_def)
qed simp

section \<open>Reading the argument lists\<close>

fun generic_stack :: "node list list \<Rightarrow> node list" where
  "generic_stack [] = []"
| "generic_stack (ts # ls) = rev (map Ty ts) @
     (if ls = [] then Node K_EmptyList NoPayload [] else Node K_FirstElementMarker NoPayload []) # generic_stack ls"

lemma popTypes_types:
  assumes "NodeStack d = rev (map Ty ts) @ x # st" "getKind x \<noteq> K_Type"
  shows "popTypes d = (rev (map Ty ts), d\<lparr>NodeStack := x # st\<rparr>)"
  using assms by (simp add: popTypes_def takeWhile_append dropWhile_append)

lemma bound_type_lists_stack:
  "ls \<noteq> [] \<Longrightarrow> NodeStack d = generic_stack ls @ st \<Longrightarrow>
   bound_type_lists acc d = (Some (acc @ map type_list ls), d\<lparr>NodeStack := st\<rparr>)"
proof (induction ls arbitrary: acc d)
  case (Cons ts ls)
  let ?x = "if ls = [] then Node K_EmptyList NoPayload [] else Node K_FirstElementMarker NoPayload []"
  have pop: "popTypes d = (rev (map Ty ts), d\<lparr>NodeStack := ?x # generic_stack ls @ st\<rparr>)"
    using Cons.prems(2) by (intro popTypes_types) auto
  show ?case
  proof (cases "ls = []")
    case True
    with pop show ?thesis
      by (subst bound_type_lists.simps) (simp add: popNode_kind_top type_list_def)
  next
    case False
    with Cons.IH [of "d\<lparr>NodeStack := generic_stack ls @ st\<rparr>" "acc @ [type_list ts]"] pop show ?thesis
      by (subst bound_type_lists.simps) (simp add: popNode_kind_top type_list_def)
  qed
qed simp

text \<open>The parent of a level, through an extension if there is one.\<close>

definition bound_parent :: "node \<Rightarrow> node list \<Rightarrow> node option option" where
  "bound_parent u L =
     (if getKind u = K_Extension then do {
        c1 \<leftarrow> getChild u 1;
        BoundParent \<leftarrow> demangleBoundGenericArgs (Some c1) L;
        c0 \<leftarrow> getFirstChild u;
        let BoundParent = createWithChildren2 K_Extension (Some c0) BoundParent;
        if getNumChildren u = 3 then do { c2 \<leftarrow> getChild u 2; Some (addChild BoundParent (Some c2)) }
        else Some BoundParent
      }
      else demangleBoundGenericArgs (Some u) L)"

lemma demangle_level:
  assumes "if L = [] then u = p else bound_parent u L = Some (Some p)"
  shows "demangleBoundGenericArgs (Some (Node k q [u, n])) (type_list ts # L) =
    (let N = if L = [] then Node k q [p, n] else Node k NoPayload [p, n] in
     if ts = [] then Some (Some N)
     else if k = K_Class then Some (Some (Node K_BoundGenericClass NoPayload [Ty N, type_list ts]))
     else if k = K_Structure then Some (Some (Node K_BoundGenericStructure NoPayload [Ty N, type_list ts]))
     else if k = K_Enum then Some (Some (Node K_BoundGenericEnum NoPayload [Ty N, type_list ts]))
     else Some None)"
proof (cases "L = []")
  case True
  with assms show ?thesis by (simp add: type_list_def getNumChildren_def build_defs)
next
  case False
  with assms have "bound_parent u L = Some (Some p)" by simp
  from this [unfolded bound_parent_def] False show ?thesis
    by (simp add: type_list_def getNumChildren_def build_defs)
qed

lemma chain_demangle:
  "chain nd u ls \<Longrightarrow>
   (if ls = [] then u = nd else bound_parent u (map type_list ls) = Some (Some nd)) \<and>
   (ls \<noteq> [] \<and> getKind u \<noteq> K_Extension \<longrightarrow> demangleBoundGenericArgs (Some u) (map type_list ls) = Some (Some nd))"
proof (induction rule: chain.induct)
  case (chain_plain p u ls k n)
  then have "if map type_list ls = [] then u = p else bound_parent u (map type_list ls) = Some (Some p)" by simp
  from demangle_level [OF this, of k NoPayload n "[]"] nominal_kinds(1) [OF chain_plain(2)] show ?case
    by (simp add: bound_parent_def del: demangleBoundGenericArgs.simps)
next
  case (chain_bound p u ls k bk ts n)
  then have "if map type_list ls = [] then u = p else bound_parent u (map type_list ls) = Some (Some p)" by simp
  from demangle_level [OF this, of k NoPayload n ts] chain_bound(2,3) show ?case
    by (elim insertE) (simp_all add: bound_parent_def Let_def del: demangleBoundGenericArgs.simps)
next
  case (chain_extension p u ls m)
  then show ?case by (simp add: bound_parent_def getNumChildren_def build_defs)
qed simp

lemma entry_generic:
  assumes "chain nd u ls" "ls \<noteq> []" "is_nominal (getKind u)"
  shows "entry_text ''G'' (generic_stack ls @ [Ty u]) (Ty nd)"
proof (rule entry_textI)
  fix d t st
  assume d: "rest d = ''G'' @ t" "NodeStack d = (generic_stack ls @ [Ty u]) @ st"
  have "bound_type_lists [] (skip 1 d) = (Some (map type_list ls), (skip 1 d)\<lparr>NodeStack := Ty u # st\<rparr>)"
    using bound_type_lists_stack [OF assms(2), of "skip 1 d" "Ty u # st" "[]"] d(2) by simp
  moreover have "demangleBoundGenericArgs (Some u) (map type_list ls) = Some (Some nd)"
    using chain_demangle [OF assms(1)] assms(2,3) nominal_kinds(1) by blast
  moreover have "isAnyGeneric (getKind u)" using assms(3) by (auto simp: isAnyGeneric_def is_nominal_def)
  ultimately show "demangleOperator d = Some (Some (Ty nd),
      (skip (length ''G'') d)\<lparr>NodeStack := st, Substitutions := Substitutions d @ [Ty nd]\<rparr>)"
    using d by (simp add: demangleOperator_def rest_Cons(3) demangleBoundGenericType_def
        popTypeAndGetAnyGeneric_def popTypeAndGetChild_def popNode_kind_top getNumChildren_def
        addSubstitution_def build_defs)
qed simp

end
