(* ===== verification/Type_Steps.thy ===== *)
theory Type_Steps
  imports Type_Generics
begin

text \<open>
  The handlers of the remangler for names, modules and nominal types as steps of the simulation:
  \<open>steps (mangle n) (size n) [] [x]\<close> says that mangling \<open>n\<close> succeeds and that the demangler answers
  the text by pushing \<open>x\<close>.
\<close>

section \<open>The handlers of the kinds\<close>

lemma mangle_kind:
  "k < length (handlers mangle) \<Longrightarrow> mangle (Node (Kind k) p cs) M = (handlers mangle ! k) (Node (Kind k) p cs) M"
  by (subst mangle_recursion) (simp add: mangle_dispatch_def)

lemmas handlers_at = handlers_def mangle_kind

lemma mangle_kinds:
  "mangle (Node K_Type p cs) M = mangleSingleChildNode mangle (Node K_Type p cs) M"
  "mangle (Node K_Module p cs) M = mangleModule mangle (Node K_Module p cs) M"
  "mangle (Node K_Identifier p cs) M = mangleIdentifierImpl False (Node K_Identifier p cs) M"
  "mangle (Node K_TupleElementName p cs) M = mangleIdentifierImpl False (Node K_TupleElementName p cs) M"
  "mangle (Node K_PrivateDeclName p cs) M = manglePrivateDeclName mangle (Node K_PrivateDeclName p cs) M"
  "mangle (Node K_LocalDeclName p cs) M = mangleLocalDeclName mangle (Node K_LocalDeclName p cs) M"
  "mangle (Node K_Number p cs) M = mangleNumber mangle (Node K_Number p cs) M"
  "mangle (Node K_Extension p cs) M = mangleExtension mangle (Node K_Extension p cs) M"
  "mangle (Node K_Class p cs) M = mangleAnyNominalType mangle (Node K_Class p cs) M"
  "mangle (Node K_Structure p cs) M = mangleAnyNominalType mangle (Node K_Structure p cs) M"
  "mangle (Node K_Enum p cs) M = mangleAnyNominalType mangle (Node K_Enum p cs) M"
  "mangle (Node K_BoundGenericClass p cs) M = mangleAnyNominalType mangle (Node K_BoundGenericClass p cs) M"
  "mangle (Node K_BoundGenericStructure p cs) M = mangleAnyNominalType mangle (Node K_BoundGenericStructure p cs) M"
  "mangle (Node K_BoundGenericEnum p cs) M = mangleBoundGenericEnum mangle (Node K_BoundGenericEnum p cs) M"
  "mangle (Node K_Protocol p cs) M = mangleAnyGenericType mangle (CHR ''P'') (Node K_Protocol p cs) M"
  "mangle (Node K_TypeAlias p cs) M = mangleAnyGenericType mangle (CHR ''a'') (Node K_TypeAlias p cs) M"
  by (simp_all add: handlers_at mangleType_def mangleIdentifier_handler_def mangleTupleElementName_def
      mangleIdentifier_node_def mangleClass_def mangleStructure_def mangleEnum_def
      mangleBoundGenericClass_def mangleBoundGenericStructure_def mangleProtocol_def mangleTypeAlias_def)

lemma mangle_type_kinds:
  "mangle (Node K_Metatype p cs) M = mangleMetatype mangle (Node K_Metatype p cs) M"
  "mangle (Node K_ExistentialMetatype p cs) M = mangleExistentialMetatype mangle (Node K_ExistentialMetatype p cs) M"
  "mangle (Node K_MetatypeRepresentation p cs) M =
     mangleMetatypeRepresentation mangle (Node K_MetatypeRepresentation p cs) M"
  "mangle (Node K_Weak p cs) M = mangleSingleChildNode mangle (Node K_Weak p cs) M \<bind> (\<lambda>M. Some (emit ''Xw'' M))"
  "mangle (Node K_Unowned p cs) M = mangleSingleChildNode mangle (Node K_Unowned p cs) M \<bind> (\<lambda>M. Some (emit ''Xo'' M))"
  "mangle (Node K_Unmanaged p cs) M = mangleSingleChildNode mangle (Node K_Unmanaged p cs) M \<bind> (\<lambda>M. Some (emit ''Xu'' M))"
  "mangle (Node K_SILBoxType p cs) M = mangleSingleChildNode mangle (Node K_SILBoxType p cs) M \<bind> (\<lambda>M. Some (emit ''Xb'' M))"
  "mangle (Node K_DynamicSelf p cs) M = mangleSingleChildNode mangle (Node K_DynamicSelf p cs) M \<bind> (\<lambda>M. Some (emit ''XD'' M))"
  "mangle (Node K_InOut p cs) M = mangleSingleChildNode mangle (Node K_InOut p cs) M \<bind> (\<lambda>M. Some (emit ''z'' M))"
  "mangle (Node K_Shared p cs) M = mangleSingleChildNode mangle (Node K_Shared p cs) M \<bind> (\<lambda>M. Some (emit ''h'' M))"
  "mangle (Node K_ErrorType p cs) M = Some (emit ''Xe'' M)"
  "mangle (Node K_BuiltinTypeName p cs) M = mangleBuiltinTypeName mangle (Node K_BuiltinTypeName p cs) M"
  "mangle (Node K_DependentGenericParamType p cs) M =
     mangleDependentGenericParamType mangle (Node K_DependentGenericParamType p cs) M"
  "mangle (Node K_Tuple p cs) M = mangleTuple mangle (Node K_Tuple p cs) M"
  "mangle (Node K_TupleElement p cs) M = mangleChildNodesReversed mangle (Node K_TupleElement p cs) M"
  "mangle (Node K_VariadicMarker p cs) M = Some (emit ''d'' M)"
  "mangle (Node K_ThrowsAnnotation p cs) M = Some (emit ''K'' M)"
  "mangle (Node K_ArgumentTuple p cs) M = mangleArgumentTuple mangle (Node K_ArgumentTuple p cs) M"
  "mangle (Node K_ReturnType p cs) M = mangleArgumentTuple mangle (Node K_ReturnType p cs) M"
  "mangle (Node K_ProtocolList p cs) M = mangleProtocolList mangle (Node K_ProtocolList p cs) None False M"
  "mangle (Node K_ProtocolListWithClass p cs) M = mangleProtocolListWithClass mangle (Node K_ProtocolListWithClass p cs) M"
  "mangle (Node K_ProtocolListWithAnyObject p cs) M =
     mangleProtocolListWithAnyObject mangle (Node K_ProtocolListWithAnyObject p cs) M"
  by (simp_all add: handlers_at mangleWeak_def mangleUnowned_def mangleUnmanaged_def mangleSILBoxType_def
      mangleDynamicSelf_def mangleInOut_def mangleShared_def mangleErrorType_def mangleTupleElement_def
      mangleVariadicMarker_def mangleThrowsAnnotation_def mangleReturnType_def mangleProtocolList_node_def)

lemma mangle_function_kinds:
  "(s, kind) \<in> {(''c'', K_FunctionType), (''Xf'', K_ThinFunctionType), (''XK'', K_AutoClosureType),
      (''XB'', K_ObjCBlock), (''XC'', K_CFunctionPointer)} \<Longrightarrow>
   mangle (Node kind p cs) M = mangleNodes mangle (rev cs) M \<bind> (\<lambda>M. Some (emit s M))"
  by (elim insertE) (simp_all add: handlers_at mangleFunctionType_def mangleThinFunctionType_def mangleFunctionSignature_def
      mangleChildNodesReversed_def mangleAutoClosureType_def mangleObjCBlock_def mangleCFunctionPointer_def)

lemma mangle_single [simp]: "mangleSingleChildNode f (Node k p [t]) M = f t M"
  by (simp add: mangleSingleChildNode_def getNumChildren_def)

lemma mangle_Ty [simp]: "mangle (Ty t) M = mangle t M"
  by (simp add: mangle_kinds)

section \<open>Sequences of steps\<close>

lemma emit_emit [simp]: "emit t (emit s M) = emit (s @ t) M"
  by (simp add: emit_def)

lemma steps_eq:
  assumes "steps act b xs ys" "b \<le> c" "\<And>M. act' M = act M"
  shows "steps act' c xs ys"
proof -
  have "act' = act" using assms(3) by blast
  with steps_mono [OF assms(1,2)] show ?thesis by simp
qed

lemma steps_then_emit:
  "steps act b xs ys \<Longrightarrow> op_text s ys zs \<Longrightarrow> steps (\<lambda>M. act M \<bind> (\<lambda>M. Some (emit s M))) b xs zs"
  using steps_bind [of act b xs ys "\<lambda>M. Some (emit s M)" 0 zs] steps_emit by simp

lemma steps_nodes:
  "list_all2 (\<lambda>n ys. steps (act n) (size n) [] ys) ns yss \<Longrightarrow>
   steps (mangleNodes act ns) (sum_list (map size ns)) [] (concat (rev yss))"
proof (induction ns yss rule: list_all2_induct)
  case Nil
  have "mangleNodes act [] = Some" by (simp add: fun_eq_iff)
  then show ?case using steps_Some [of "[]"] by simp
next
  case (Cons n ns ys yss)
  have "steps (\<lambda>M. act n M \<bind> mangleNodes act ns) (size n + sum_list (map size ns)) [] (concat (rev yss) @ ys)"
    by (rule steps_bind [OF Cons(1)]) (rule steps_push [OF Cons(3)])
  then show ?case by (simp add: fun_eq_iff)
qed

lemma size_Node [simp]: "size (Node k p cs) = Suc (sum_list (map size cs) + length cs)"
  by (simp add: size_list_conv_sum_list)

section \<open>Names and modules\<close>

inductive decl_name :: "node \<Rightarrow> bool" where
  name_identifier: "ident_ok t \<Longrightarrow> decl_name (ident_node t)"
| name_private: "ident_ok t \<Longrightarrow> decl_name n \<Longrightarrow> decl_name (Node K_PrivateDeclName NoPayload [ident_node t, n])"
| name_anonymous: "ident_ok t \<Longrightarrow> decl_name (Node K_PrivateDeclName NoPayload [ident_node t])"
| name_local: "decl_name n \<Longrightarrow> i < 2147483648 \<Longrightarrow>
    decl_name (Node K_LocalDeclName NoPayload [Node K_Number (IndexPayload i) [], n])"

lemma decl_name_kind: "decl_name n \<Longrightarrow> isDeclName (getKind n)"
  by (induction rule: decl_name.induct) (auto simp: isDeclName_def ident_node_def)

lemma not_standard:
  "getKind nd \<noteq> K_Structure \<Longrightarrow> getKind nd \<noteq> K_Enum \<Longrightarrow> mangleStandardSubstitution nd M = Some (False, M)"
  by (simp add: mangleStandardSubstitution_def)

lemma steps_ident:
  "ident_ok t \<Longrightarrow> k \<in> {K_Identifier, K_TupleElementName, K_Module} \<Longrightarrow>
   steps (mangleIdentifierImpl False (Node k (TextPayload t) [])) 1 [] [ident_node t]"
  by (rule steps_identifier) (auto simp: getText_def not_standard)

lemma steps_ident_node: "ident_ok t \<Longrightarrow> steps (mangle (ident_node t)) 1 [] [ident_node t]"
  by (rule steps_eq [OF steps_ident [of t K_Identifier]]) (simp_all add: ident_node_def mangle_kinds)

lemmas name_handlers = mangle_kinds manglePrivateDeclName_def mangleChildNodesReversed_def
  mangleLocalDeclName_def mangleChildNode_def mangleNumber_def mangleIndex_text getNumChildren_def getIndex_def

lemma steps_decl_name: "decl_name n \<Longrightarrow> steps (mangle n) (size n) [] [n]"
proof (induction rule: decl_name.induct)
  case (name_identifier t)
  then show ?case using steps_ident_node [of t] by (simp add: ident_node_def)
next
  case (name_private t n)
  have "steps (\<lambda>M. (mangle n M \<bind> mangle (ident_node t)) \<bind> (\<lambda>M. Some (emit ''LL'' M))) (size n + 1) []
      [Node K_PrivateDeclName NoPayload [ident_node t, n]]"
    using steps_bind [OF name_private(3) steps_push [OF steps_ident_node [OF name_private(1)]]]
      op_private(1) [OF decl_name_kind [OF name_private(2)]] by (intro steps_then_emit) auto
  then show ?case by (rule steps_eq) (simp_all add: name_handlers)
next
  case (name_anonymous t)
  have "isDeclName (getKind (ident_node t))" by (simp add: isDeclName_def ident_node_def)
  from steps_then_emit [OF steps_ident_node [OF name_anonymous] op_private(2) [OF this]]
  show ?case by (rule steps_eq) (simp_all add: name_handlers)
next
  case (name_local n i)
  show ?case
    by (rule steps_eq [OF steps_then_emit [OF name_local(3) op_local [OF decl_name_kind [OF name_local(1)] name_local(2)]]])
      (simp_all add: name_handlers)
qed

text \<open>A module, and the node that stands for it on the stack.\<close>

inductive module_ctx :: "node \<Rightarrow> node \<Rightarrow> bool" where
  module_known: "t \<in> {''Swift'', ''__C'', ''__C_Synthesized''} \<Longrightarrow>
    module_ctx (Node K_Module (TextPayload t) []) (Node K_Module (TextPayload t) [])"
| module_named: "ident_ok t \<Longrightarrow> t \<notin> {''Swift'', ''__C'', ''__C_Synthesized''} \<Longrightarrow>
    module_ctx (Node K_Module (TextPayload t) []) (ident_node t)"

lemma module_shape:
  "module_ctx m x \<Longrightarrow> \<exists>p. m = Node K_Module p [] \<and> (x = Node K_Identifier p [] \<or> x = Node K_Module p [])"
  by (auto simp: module_ctx.simps ident_node_def)

lemma steps_module: "module_ctx m x \<Longrightarrow> steps (mangle m) (size m) [] [x]"
proof (induction rule: module_ctx.induct)
  case (module_known t)
  note ops = op_leaf(1) op_module
  from module_known show ?case
    by (elim insertE) (auto intro!: steps_eq [OF steps_emit [OF ops(1)]] steps_eq [OF steps_emit [OF ops(2)]]
        steps_eq [OF steps_emit [OF ops(3)]] simp: mangle_kinds mangleModule_def getText_def)
next
  case (module_named t)
  show ?case
    by (rule steps_eq [OF steps_ident [OF module_named(1), of K_Module]])
      (use module_named(2) in \<open>auto simp: mangle_kinds mangleModule_def getText_def mangleIdentifier_node_def\<close>)
qed

section \<open>Nominal types\<close>

lemma steps_any_generic:
  assumes "steps (mangle c) (size c) [] [x]" "pops_context c x" "decl_name n"
    and "(o', k) \<in> {(CHR ''C'', K_Class), (CHR ''V'', K_Structure), (CHR ''O'', K_Enum),
       (CHR ''P'', K_Protocol), (CHR ''a'', K_TypeAlias)}"
    and "\<And>M. mangleStandardSubstitution (Node k NoPayload [c, n]) M = Some (False, M)"
  shows "steps (mangleAnyGenericType mangle o' (Node k NoPayload [c, n])) (size (Node k NoPayload [c, n])) []
    [Ty (Node k NoPayload [c, n])]"
proof -
  have "steps (\<lambda>M. mangle c M \<bind> mangle n) (size c + size n) [] [n, x]"
    using steps_bind [OF assms(1) steps_push [OF steps_decl_name [OF assms(3)]]] by simp
  from steps_entry [OF this entry_nominal [OF assms(2) decl_name_kind [OF assms(3)] assms(4)] _ assms(5)]
  show ?thesis
    by (rule steps_eq) (simp_all add: mangleAnyGenericType_def mangleChildNodes_def)
qed

definition standard_name :: "node_kind \<Rightarrow> node \<Rightarrow> node \<Rightarrow> bool" where
  "standard_name k c n \<longleftrightarrow> (k = K_Structure \<or> k = K_Enum) \<and> getKind c = K_Module \<and> getText c = Some ''Swift'' \<and>
     getKind n = K_Identifier \<and> getStandardTypeSubst (the (getText n)) \<noteq> CHR 0x00"

lemma mangleStandard_name:
  assumes "\<not> standard_name k c n" "getKind c = K_Module \<longrightarrow> getText c \<noteq> None" "decl_name n"
  shows "mangleStandardSubstitution (Node k p [c, n]) M = Some (False, M)"
proof -
  have "getKind n = K_Identifier \<Longrightarrow> getText n \<noteq> None"
    using assms(3) by cases (auto simp: ident_node_def getText_def)
  with assms(1,2) show ?thesis by (auto simp: mangleStandardSubstitution_def standard_name_def)
qed

lemma mangleAnyNominalType_plain:
  assumes "isSpecialized (Node k q cs) = Some False"
    "(o', k) \<in> {(CHR ''C'', K_Class), (CHR ''V'', K_Structure), (CHR ''O'', K_Enum)}"
  shows "mangle (Node k q cs) M = mangleAnyGenericType mangle o' (Node k q cs) M"
proof -
  have "mangle (Node k q cs) M = mangleAnyNominalType mangle (Node k q cs) M"
    using assms(2) by (elim insertE) (simp_all add: mangle_kinds)
  also have "\<dots> = mangleAnyGenericType mangle o' (Node k q cs) M"
    using assms by (subst mangleAnyNominalType.simps) (elim insertE; simp)
  finally show ?thesis .
qed

lemma steps_nominal:
  assumes "steps (mangle c) (size c) [] [x]" "pops_context c x" "decl_name n" "isSpecialized c = Some False"
    and "(o', k) \<in> {(CHR ''C'', K_Class), (CHR ''V'', K_Structure), (CHR ''O'', K_Enum)}"
    and "\<not> standard_name k c n" "getKind c = K_Module \<longrightarrow> getText c \<noteq> None"
  shows "steps (mangle (Node k NoPayload [c, n])) (size (Node k NoPayload [c, n])) [] [Ty (Node k NoPayload [c, n])]"
proof (rule steps_eq [OF steps_any_generic [OF assms(1-3)] order_refl])
  show "(o', k) \<in> {(CHR ''C'', K_Class), (CHR ''V'', K_Structure), (CHR ''O'', K_Enum), (CHR ''P'', K_Protocol),
      (CHR ''a'', K_TypeAlias)}"
    using assms(5) by blast
  show "mangleStandardSubstitution (Node k NoPayload [c, n]) M = Some (False, M)" for M
    using assms(3,6,7) by (intro mangleStandard_name)
  show "mangle (Node k NoPayload [c, n]) M = mangleAnyGenericType mangle o' (Node k NoPayload [c, n]) M" for M
    using assms(4,5) by (intro mangleAnyNominalType_plain) (auto simp: isSpecialized_nominal nominal_kinds)
qed

lemma steps_standard_type:
  assumes "(e, c, t) \<in> set standard_types"
  defines "nd \<equiv> Node (if e then K_Enum else K_Structure) NoPayload [Node K_Module (TextPayload ''Swift'') [], ident_node t]"
  shows "steps (mangle nd) 0 [] [Ty nd]"
proof -
  have t: "getStandardTypeSubst t = c" "createStandardSubstitution c = createSwiftType (if e then K_Enum else K_Structure) t"
    using standard_type_roundtrip [OF assms(1)] by auto
  have c: "standard_letter c" using assms(1) by (force simp: standard_letter_def)
  have spec: "isSpecialized (Node K_Module (TextPayload ''Swift'') []) = Some False"
    by (subst isSpecialized.simps) (simp add: is_nominal_def is_bound_generic_def)
  have "steps (with_substitution nd False (\<lambda>M. mangleChildNodes mangle nd M \<bind>
      (\<lambda>M. Some (emit [if e then CHR ''O'' else CHR ''V''] M)))) 0 [] [Ty nd]"
  proof (rule steps_standard)
    show "mangleStandardSubstitution nd M = map_option (Pair True) (emit_standard c M)" for M
      using t(1) standard_letter_facts [OF c]
      by (auto simp: mangleStandardSubstitution_def nd_def ident_node_def getText_def)
    show "createStandardSubstitution c = Some (Ty nd)"
      using t(2) by (simp add: createSwiftType_def nd_def ident_node_def build_defs)
  qed (rule c)
  then show ?thesis
  proof (rule steps_eq)
    have "mangle nd M = mangleAnyGenericType mangle (if e then CHR ''O'' else CHR ''V'') nd M" for M
      unfolding nd_def by (rule mangleAnyNominalType_plain) (auto simp: isSpecialized_nominal nominal_kinds spec)
    then show "mangle nd M = with_substitution nd False (\<lambda>M. mangleChildNodes mangle nd M \<bind>
        (\<lambda>M. Some (emit [if e then CHR ''O'' else CHR ''V''] M))) M" for M
      by (simp add: mangleAnyGenericType_def)
  qed simp
qed

section \<open>Bound generic types\<close>

text \<open>What \<open>mangleGenericArgs\<close> writes for the levels of a type.\<close>

fun generic_act :: "node list list \<Rightarrow> remangler \<Rightarrow> remangler option" where
  "generic_act [] M = Some M"
| "generic_act (ts # ls) M = do {
     M \<leftarrow> generic_act ls M;
     mangleNodes mangle (map Ty ts) (emit (if ls = [] then ''y'' else ''_'') M)
   }"

lemma mangleGenericArgs_chain:
  "chain nd u ls \<Longrightarrow> mangleGenericArgs mangle nd (CHR ''y'') M =
     map_option (Pair (if ls = [] then CHR ''y'' else CHR ''_'')) (generic_act ls M)"
proof (induction arbitrary: M rule: chain.induct)
  case (chain_root c)
  then show ?case by (subst mangleGenericArgs.simps) simp
next
  case (chain_plain p u ls k n)
  then show ?case by (subst mangleGenericArgs.simps) (cases "generic_act ls M"; simp)
next
  case (chain_bound p u ls k bk ts n)
  then show ?case using bound_kinds [OF chain_bound(2)]
    by (subst mangleGenericArgs.simps) (cases "generic_act ls M"; simp add: mangleChildNodes_def type_list_def map_conv_bind_option comp_def)
next
  case (chain_extension p u ls m)
  then show ?case by (subst mangleGenericArgs.simps) (simp add: nominal_kinds)
qed

definition generic_size :: "node list list \<Rightarrow> nat" where
  "generic_size ls = sum_list (map (\<lambda>ts. sum_list (map (\<lambda>t. size (Ty t)) ts)) ls)"

lemma chain_size:
  "chain nd u ls \<Longrightarrow> size u + generic_size ls + (if \<exists>ts \<in> set ls. ts \<noteq> [] then 1 else 0) \<le> size nd"
  by (induction rule: chain.induct) (auto simp: generic_size_def type_list_def comp_def size_list_conv_sum_list)

lemma steps_generic_act:
  "\<forall>ts \<in> set ls. \<forall>t \<in> set ts. steps (mangle t) (size t) [] [Ty t] \<Longrightarrow>
   steps (generic_act ls) (generic_size ls) [] (generic_stack ls)"
proof (induction ls)
  case Nil
  have "generic_act [] = Some" by (simp add: fun_eq_iff)
  then show ?case using steps_Some [of "[]"] by (simp add: generic_size_def)
next
  case (Cons ts ls)
  let ?x = "if ls = [] then Node K_EmptyList NoPayload [] else Node K_FirstElementMarker NoPayload []"
  have "list_all2 (\<lambda>n ys. steps (mangle n) (size n) [] ys) (map Ty ts) (map (\<lambda>t. [Ty t]) ts)"
    using Cons.prems steps_eq [of "mangle t" "size t" "[]" "[Ty t]" "size (Ty t)" "mangle (Ty t)" for t]
    by (auto simp: list_all2_map1 list_all2_map2 list_all2_same)
  moreover have "concat (rev (map (\<lambda>t. [Ty t]) ts)) = rev (map Ty ts)" by (induction ts) auto
  ultimately have 1: "steps (mangleNodes mangle (map Ty ts)) (sum_list (map (\<lambda>t. size (Ty t)) ts)) [] (rev (map Ty ts))"
    using steps_nodes [of mangle "map Ty ts" "map (\<lambda>t. [Ty t]) ts"] by (simp add: comp_def)
  have 2: "op_text (if ls = [] then ''y'' else ''_'') [] [?x]" using op_leaf by simp
  have 3: "steps (generic_act ls) (generic_size ls) [] (generic_stack ls)" using Cons by simp
  from steps_bind [OF steps_then_emit [OF 3 op_text_push [OF 2]] steps_push [OF 1]]
  have "steps (generic_act (ts # ls)) (generic_size (ts # ls)) [] (rev (map Ty ts) @ [?x] @ generic_stack ls)"
    by (rule steps_eq) (simp_all add: generic_size_def)
  then show ?case by (simp only: generic_stack.simps append_Cons append_Nil)
qed

definition optional_type :: "node \<Rightarrow> node" where
  "optional_type t = Node K_BoundGenericEnum NoPayload
     [Ty (Node K_Enum NoPayload [Node K_Module (TextPayload ''Swift'') [], Node K_Identifier (TextPayload ''Optional'') []]),
      Node K_TypeList NoPayload [Ty t]]"

text \<open>\<open>mangleBoundGenericEnum\<close> tests the unbound type only.\<close>

definition is_optional :: "node \<Rightarrow> bool" where
  "is_optional nd \<longleftrightarrow> (\<exists>p q cs ds es gs. nd = Node K_BoundGenericEnum p (Ty (Node K_Enum q
     (Node K_Module (TextPayload ''Swift'') cs # Node K_Identifier (TextPayload ''Optional'') ds # es)) # gs))"

definition named :: "node \<Rightarrow> bool" where
  "named u \<longleftrightarrow> (\<exists>k v n. u = Node k NoPayload [v, n] \<and> (getKind v = K_Module \<longrightarrow> getText v \<noteq> None) \<and>
     (getKind n = K_Identifier \<longrightarrow> getText n \<noteq> None))"

lemma chain_module: "chain p v ls \<Longrightarrow> getKind p = K_Module \<Longrightarrow> v = p \<and> ls = []"
  by (cases rule: chain.cases) (auto simp: is_nominal_def)

lemma chain_standard:
  assumes "chain nd u ls" "\<exists>ts \<in> set ls. ts \<noteq> []"
  shows "mangleStandardSubstitution nd M = Some (False, M)"
  using assms
proof cases
  case (chain_plain p v ls' k n)
  then have "getKind p \<noteq> K_Module" using assms(2) chain_module by fastforce
  with chain_plain show ?thesis by (simp add: mangleStandardSubstitution_def)
qed (auto simp: mangleStandardSubstitution_def)

lemma mangle_nominal: "is_nominal k \<Longrightarrow> mangle (Node k p cs) M = mangleAnyNominalType mangle (Node k p cs) M"
  by (auto simp: is_nominal_def mangle_kinds)

lemma mangle_chain:
  assumes "chain nd u ls" "ls \<noteq> []" "is_nominal (getKind u)" "named u" "\<not> is_optional nd"
  shows "mangle nd M = mangleAnyNominalType mangle nd M"
  using assms(1)
proof cases
  case (chain_bound p v ls' k bk ts n)
  have v: "getKind v = K_Module \<longrightarrow> getText v \<noteq> None" "getKind n = K_Identifier \<longrightarrow> getText n \<noteq> None"
    using assms(4) chain_bound(2) by (auto simp: named_def)
  then have p: "getKind p = K_Module \<longrightarrow> getText p \<noteq> None" using chain_module [OF chain_bound(4)] by auto
  show ?thesis
  proof (cases "bk = K_BoundGenericEnum")
    case True
    then have "k = K_Enum" using chain_bound(5) by auto
    have "\<not> (getKind p = K_Module \<and> getText p = Some ''Swift'' \<and> getKind n = K_Identifier \<and> getText n = Some ''Optional'')"
    proof
      assume "getKind p = K_Module \<and> getText p = Some ''Swift'' \<and> getKind n = K_Identifier \<and> getText n = Some ''Optional''"
      then have "\<exists>cs ds. p = Node K_Module (TextPayload ''Swift'') cs \<and> n = Node K_Identifier (TextPayload ''Optional'') ds"
        by (cases p; cases n) (auto simp: getText_def split: payload.splits)
      with assms(5) chain_bound(1) True \<open>k = K_Enum\<close> show False by (auto simp: is_optional_def)
    qed
    with p v(2) True \<open>k = K_Enum\<close> chain_bound(1) show ?thesis
      by (auto simp: mangle_kinds mangleBoundGenericEnum_def)
  next
    case False
    with chain_bound(1,5) show ?thesis by (elim insertE) (simp_all add: mangle_kinds)
  qed
qed (use assms nominal_kinds(1) in \<open>auto simp: mangle_nominal\<close>)

lemma steps_bound:
  assumes "chain nd u ls" "\<exists>ts \<in> set ls. ts \<noteq> []" "is_nominal (getKind u)" "named u" "\<not> is_optional nd"
    and "steps (mangle u) (size u) [] [Ty u]" "\<forall>ts \<in> set ls. \<forall>t \<in> set ts. steps (mangle t) (size t) [] [Ty t]"
  shows "steps (mangle nd) (size nd) [] [Ty nd]"
proof -
  have ls: "ls \<noteq> []" using assms(2) by auto
  have "steps (\<lambda>M. mangle u M \<bind> generic_act ls) (size u + generic_size ls) [] (generic_stack ls @ [Ty u])"
    using steps_bind [OF assms(6) steps_push [OF steps_generic_act [OF assms(7)]]] .
  moreover have "size u + generic_size ls < size nd" using chain_size [OF assms(1)] assms(2) by simp
  ultimately have "steps (with_substitution nd False (\<lambda>M. (mangle u M \<bind> generic_act ls) \<bind> (\<lambda>M. Some (emit ''G'' M))))
      (size nd) [] [Ty nd]"
    using entry_generic [OF assms(1) ls assms(3)] chain_standard [OF assms(1,2)] by (intro steps_entry)
  then show ?thesis
  proof (rule steps_eq)
    fix M
    obtain k v n where u: "u = Node k NoPayload [v, n]" using assms(4) by (auto simp: named_def)
    then have "mangleAnyNominalType mangle u M' = mangle u M'" for M' using assms(3) mangle_nominal by simp
    then have "mangleAnyNominalType mangle nd M =
        with_substitution nd False (\<lambda>M. (mangle u M \<bind> generic_act ls) \<bind> (\<lambda>M. Some (emit ''G'' M))) M"
      using isSpecialized_chain [OF assms(1)] assms(2) getUnspecialized_chain [OF assms(1,2)]
      by (subst mangleAnyNominalType.simps)
        (simp add: mangleGenericArgs_chain [OF assms(1)] with_substitution_def map_conv_bind_option comp_def split: option.split bool.split)
    then show "mangle nd M =
        with_substitution nd False (\<lambda>M. (mangle u M \<bind> generic_act ls) \<bind> (\<lambda>M. Some (emit ''G'' M))) M"
      using mangle_chain [OF assms(1) ls assms(3-5)] by simp
  qed simp
qed

end
