(* ===== verification/Type_Handlers.thy ===== *)
theory Type_Handlers
  imports Type_Steps
begin

text \<open>
  The handlers of the remangler for types that are built from other types, as steps of the
  simulation: each lemma takes the steps of the parts and yields the step of the whole.
\<close>

section \<open>Handlers of types\<close>

lemma steps_wrap:
  assumes "steps (mangle t) (size t) [] [Ty t]" "op_text s [Ty t] ys"
    "\<And>M. mangle nd M = mangle t M \<bind> (\<lambda>M. Some (emit s M))" "size t \<le> size nd"
  shows "steps (mangle nd) (size nd) [] ys"
  by (rule steps_eq [OF steps_then_emit [OF assms(1,2)] assms(4,3)])

lemma steps_leaf:
  assumes "op_text s [] ys" "\<And>M. mangle nd M = Some (emit s M)"
  shows "steps (mangle nd) (size nd) [] ys"
  by (rule steps_eq [OF steps_emit [OF assms(1)] _ assms(2)]) simp

lemmas metatype_handlers = mangleMetatype_def mangleExistentialMetatype_def mangleMetatypeRepresentation_def
  mangleChildNode_def getFirstChild_def getNumChildren_def

lemma mangle_metatype:
  "mangle (Node K_Metatype NoPayload [Ty t]) M = mangle t M \<bind> (\<lambda>M. Some (emit ''m'' M))"
  "mangle (Node K_ExistentialMetatype NoPayload [Ty t]) M = mangle t M \<bind> (\<lambda>M. Some (emit ''Xp'' M))"
  by (simp_all add: mangle_type_kinds metatype_handlers)

lemma wrapper_text:
  assumes "(s, k) \<in> {(''m'', K_Metatype), (''Xp'', K_ExistentialMetatype), (''Xw'', K_Weak), (''Xo'', K_Unowned),
      (''Xu'', K_Unmanaged), (''Xb'', K_SILBoxType), (''XD'', K_DynamicSelf)}"
  shows "op_text s [Ty t] [Ty (Node k NoPayload [Ty t])]"
    "mangle (Node k NoPayload [Ty t]) M = mangle t M \<bind> (\<lambda>M. Some (emit s M))"
proof -
  show "op_text s [Ty t] [Ty (Node k NoPayload [Ty t])]"
    using assms by (elim insertE) (simp_all add: op_wrap(1) op_special)
  show "mangle (Node k NoPayload [Ty t]) M = mangle t M \<bind> (\<lambda>M. Some (emit s M))"
    using assms by (elim insertE) (simp_all add: mangle_metatype mangle_type_kinds(4-8))
qed

lemma steps_wrapped:
  assumes "steps (mangle t) (size t) [] [Ty t]"
    "k \<in> {K_Metatype, K_ExistentialMetatype, K_Weak, K_Unowned, K_Unmanaged, K_SILBoxType, K_DynamicSelf}"
  shows "steps (mangle (Node k NoPayload [Ty t])) (size (Node k NoPayload [Ty t])) [] [Ty (Node k NoPayload [Ty t])]"
proof -
  from assms(2) obtain s where "(s, k) \<in> {(''m'', K_Metatype), (''Xp'', K_ExistentialMetatype), (''Xw'', K_Weak),
      (''Xo'', K_Unowned), (''Xu'', K_Unmanaged), (''Xb'', K_SILBoxType), (''XD'', K_DynamicSelf)}" by blast
  from steps_wrap [OF assms(1) wrapper_text [OF this]] show ?thesis by simp
qed

lemma steps_passing:
  assumes "steps (mangle t) (size t) [] [Ty t]" "k \<in> {K_InOut, K_Shared}"
  shows "steps (mangle (Node k NoPayload [t])) (size (Node k NoPayload [t])) [] [Ty (Node k NoPayload [t])]"
proof -
  have "steps (mangle (Node K_InOut NoPayload [t])) (size (Node K_InOut NoPayload [t])) [] [Ty (Node K_InOut NoPayload [t])]"
    by (rule steps_wrap [OF assms(1) op_wrap(2)]) (simp_all add: mangle_type_kinds)
  moreover have "steps (mangle (Node K_Shared NoPayload [t])) (size (Node K_Shared NoPayload [t])) [] [Ty (Node K_Shared NoPayload [t])]"
    by (rule steps_wrap [OF assms(1) op_wrap(3)]) (simp_all add: mangle_type_kinds)
  ultimately show ?thesis using assms(2) by auto
qed

lemma steps_representation:
  assumes "steps (mangle t) (size t) [] [Ty t]" "k \<in> {K_Metatype, K_ExistentialMetatype}"
    "r \<in> {''@thin'', ''@thick'', ''@objc_metatype''}"
  defines "nd \<equiv> Node k NoPayload [Node K_MetatypeRepresentation (TextPayload r) [], Ty t]"
  shows "steps (mangle nd) (size nd) [] [Ty nd]"
proof -
  from assms(2) obtain o' where o': "(o', k) \<in> {(CHR ''M'', K_Metatype), (CHR ''m'', K_ExistentialMetatype)}" by blast
  from assms(3) obtain c where c: "(c, r) \<in> {(CHR ''t'', ''@thin''), (CHR ''T'', ''@thick''), (CHR ''o'', ''@objc_metatype'')}"
    by blast
  show ?thesis unfolding nd_def
  proof (rule steps_wrap [OF assms(1) op_representation [OF o' c]])
    show "mangle (Node k NoPayload [Node K_MetatypeRepresentation (TextPayload r) [], Ty t]) M =
        mangle t M \<bind> (\<lambda>M. Some (emit [CHR ''X'', o', c] M))" for M
      using o' c by (elim insertE) (simp_all add: mangle_type_kinds metatype_handlers getText_def)
  qed simp
qed

lemma steps_optional:
  assumes "steps (mangle t) (size t) [] [Ty t]"
  shows "steps (mangle (optional_type t)) (size (optional_type t)) [] [Ty (optional_type t)]"
proof (rule steps_eq [OF steps_entry [OF assms, of "''Sg''" "optional_type t"] order_refl])
  show "entry_text ''Sg'' [Ty t] (Ty (optional_type t))" unfolding optional_type_def by (rule entry_optional)
  show "mangle (optional_type t) M = with_substitution (optional_type t) False
      (\<lambda>M. mangle t M \<bind> (\<lambda>M. Some (emit ''Sg'' M))) M" for M
    by (simp add: optional_type_def mangle_kinds mangleBoundGenericEnum_def getText_def)
qed (simp_all add: optional_type_def mangleStandardSubstitution_def)

lemma steps_param:
  assumes "depth < 10000000" "index < 2147483648"
  shows "steps (mangle (param_type depth index)) (size (param_type depth index)) [] [Ty (param_type depth index)]"
proof (rule steps_leaf [OF op_param [OF assms]])
  show "mangle (param_type depth index) M = Some (emit (param_text depth index) M)" for M
    by (simp add: param_type_def param_text_def mangle_type_kinds mangleDependentGenericParamType_def
        mangleDependentGenericParamIndex_def getIndex_def mangleIndex_text)
qed

section \<open>Lists\<close>

lemma mangle_items_rest: "mangle_items item False ns M = map_option (Pair False) (mangleNodes item ns M)"
  by (induction ns arbitrary: M) (auto simp: mangleListSeparator_def map_conv_bind_option)

lemma steps_items:
  assumes "list_all2 (\<lambda>n ys. steps (item n) (size n) [] ys) ns yss"
  shows "steps (\<lambda>M. mangle_items item True ns M \<bind> (\<lambda>(FirstElem, M). Some (mangleEndOfList FirstElem M)))
    (sum_list (map size ns)) []
    (case yss of [] \<Rightarrow> [Node K_EmptyList NoPayload []]
       | ys # yss \<Rightarrow> concat (rev yss) @ Node K_FirstElementMarker NoPayload [] # ys)"
  using assms
proof cases
  case Nil
  show ?thesis unfolding Nil list.case
    by (rule steps_eq [OF steps_emit [OF op_leaf(2)]]) (simp_all add: mangleEndOfList_def)
next
  case (Cons n ns' ys yss')
  let ?x = "Node K_FirstElementMarker NoPayload []"
  have "steps (\<lambda>M. (item n M \<bind> (\<lambda>M. Some (emit ''_'' M))) \<bind> mangleNodes item ns') (size n + sum_list (map size ns')) []
      (concat (rev yss') @ [?x] @ ys)"
    using steps_bind [OF steps_then_emit [OF Cons(3) op_text_push [OF op_leaf(3)]] steps_push [OF steps_nodes [OF Cons(4)]]] .
  then show ?thesis unfolding Cons(1,2) list.case append_Cons append_Nil
    by (rule steps_eq)
      (simp_all add: mangle_items_rest mangleListSeparator_def mangleEndOfList_def map_conv_bind_option comp_def)
qed

lemma mangleNodes_eta:
  "mangleNodes f [] = Some" "mangleNodes f (n # ns) = (\<lambda>M. f n M \<bind> mangleNodes f ns)"
  by (simp_all add: fun_eq_iff)

section \<open>Tuples\<close>

lemma steps_element:
  assumes "steps (mangle t) (size t) [] [Ty t]" "case l of None \<Rightarrow> True | Some l \<Rightarrow> ident_ok l"
  shows "steps (mangle (element_node (v, l, t))) (size (element_node (v, l, t))) [] (element_stack (v, l, t))"
proof -
  let ?label = "case l of None \<Rightarrow> Some | Some l \<Rightarrow> mangle (Node K_TupleElementName (TextPayload l) [])"
  let ?ls = "case l of None \<Rightarrow> [] | Some l \<Rightarrow> [ident_node l]"
  have 1: "steps ?label 1 [] ?ls"
  proof (cases l)
    case None
    then show ?thesis using steps_mono [OF steps_Some, of 1 "[]"] by simp
  next
    case (Some l')
    with assms(2) steps_eq [OF steps_ident [of l' K_TupleElementName], of 1 "mangle (Node K_TupleElementName (TextPayload l') [])"]
    show ?thesis by (simp add: mangle_kinds)
  qed
  have 2: "steps (if v then \<lambda>M. Some (emit ''d'' M) else Some) 0 [] (if v then [Node K_VariadicMarker NoPayload []] else [])"
    using steps_emit [OF op_leaf(4)] steps_Some [of "[]"] by simp
  have "steps (\<lambda>M. (mangle t M \<bind> ?label) \<bind> (if v then \<lambda>M. Some (emit ''d'' M) else Some)) (size t + 1 + 0) []
      ((if v then [Node K_VariadicMarker NoPayload []] else []) @ ?ls @ [Ty t])"
    using steps_bind [OF steps_bind [OF assms(1) steps_push [OF 1]] steps_push [OF 2]] .
  then have "steps (mangle (element_node (v, l, t))) (size (element_node (v, l, t))) []
      ((if v then [Node K_VariadicMarker NoPayload []] else []) @ ?ls @ [Ty t])"
  proof (rule steps_eq)
    show "mangle (element_node (v, l, t)) M = (mangle t M \<bind> ?label) \<bind> (if v then \<lambda>M. Some (emit ''d'' M) else Some)" for M
      by (cases v; cases l) (simp_all add: mangle_type_kinds mangleChildNodesReversed_def mangleNodes_eta)
  qed (cases l; simp)
  then show ?thesis by (simp only: element_stack.simps)
qed

lemma steps_tuple:
  assumes "\<forall>(v, l, t) \<in> set es. steps (mangle t) (size t) [] [Ty t] \<and> (case l of None \<Rightarrow> True | Some l \<Rightarrow> ident_ok l)"
  defines "nd \<equiv> Node K_Tuple NoPayload (map element_node es)"
  shows "steps (mangle nd) (size nd) [] [Ty nd]"
proof -
  have "list_all2 (\<lambda>n ys. steps (mangle n) (size n) [] ys) (map element_node es) (map element_stack es)"
    using assms(1) steps_element by (force simp: list_all2_map1 list_all2_map2 list_all2_same simp del: element_node.simps element_stack.simps)
  note items = steps_items [OF this]
  have "op_text ''t'' (case map element_stack es of [] \<Rightarrow> [Node K_EmptyList NoPayload []]
       | ys # yss \<Rightarrow> concat (rev yss) @ Node K_FirstElementMarker NoPayload [] # ys) [Ty nd]"
    using op_tuple by (cases es) (simp_all add: nd_def rev_map)
  from steps_then_emit [OF items this] show ?thesis
    by (rule steps_eq) (simp_all add: nd_def mangle_type_kinds mangleTuple_def mangleTypeList_def split_def size_list_conv_sum_list)
qed

section \<open>Functions\<close>

lemma steps_argument:
  assumes "steps (mangle t) (size t) [] [Ty t]" "unit_ok t" "k \<in> {K_ArgumentTuple, K_ReturnType}"
  shows "steps (mangle (Node k p [Ty t])) (size t) [] [param_node t]"
proof (cases "getKind t = K_Tuple \<and> children t = []")
  case True
  with assms(3) have "mangle (Node k p [Ty t]) M = Some (emit ''y'' M)" for M
    by (auto simp: mangle_type_kinds mangleArgumentTuple_def getSingleChild_def skipType_def getNumChildren_def simp del: One_nat_def)
  moreover have "param_node t = Node K_EmptyList NoPayload []" using True by (simp add: param_node_def)
  ultimately show ?thesis using steps_eq [OF steps_emit [OF op_leaf(2)], of "size t" "mangle (Node k p [Ty t])"] by simp
next
  case False
  then have "param_node t = Ty t" by (auto simp: param_node_def)
  moreover have "mangle (Node k p [Ty t]) M = mangle t M" for M using False assms(3)
    by (auto simp: mangle_type_kinds mangleArgumentTuple_def getSingleChild_def skipType_def getNumChildren_def simp del: One_nat_def)
  ultimately show ?thesis using steps_eq [OF assms(1) order_refl, of "mangle (Node k p [Ty t])"] by simp
qed

lemma steps_function:
  assumes "steps (mangle a) (size a) [] [Ty a]" "unit_ok a" "steps (mangle r) (size r) [] [Ty r]" "unit_ok r"
    "k \<in> {K_FunctionType, K_ThinFunctionType, K_AutoClosureType, K_ObjCBlock, K_CFunctionPointer}"
  shows "steps (mangle (function_node k b a r)) (size (function_node k b a r)) [] [Ty (function_node k b a r)]"
proof -
  from assms(5) obtain s where s: "(s, k) \<in> {(''c'', K_FunctionType), (''Xf'', K_ThinFunctionType),
      (''XK'', K_AutoClosureType), (''XB'', K_ObjCBlock), (''XC'', K_CFunctionPointer)}" by blast
  let ?a = "Node K_ArgumentTuple (IndexPayload (if getKind a = K_Tuple then length (children a) else 1)) [Ty a]"
    and ?r = "Node K_ReturnType NoPayload [Ty r]"
  have 2: "steps (if b then \<lambda>M. Some (emit ''K'' M) else Some) 0 [] (throws_nodes b)"
    using steps_emit [OF op_leaf(5)] steps_Some [of "[]"] by (simp add: throws_nodes_def)
  have "steps (\<lambda>M. ((mangle ?r M \<bind> mangle ?a) \<bind> (if b then \<lambda>M. Some (emit ''K'' M) else Some)))
      (size r + size a + 0) [] (throws_nodes b @ [param_node a, param_node r])"
    using steps_bind [OF steps_bind [OF steps_argument [OF assms(3,4)] steps_push [OF steps_argument [OF assms(1,2)]]]
        steps_push [OF 2]] by simp
  from steps_then_emit [OF this op_function [OF s assms(2,4)]] show ?thesis
    by (rule steps_eq) (cases b; simp add: function_node_def throws_nodes_def mangle_function_kinds [OF s] mangle_type_kinds)+
qed

section \<open>Protocols\<close>

definition protocol_steps :: "node \<times> node \<times> node \<Rightarrow> bool" where
  "protocol_steps p \<longleftrightarrow>
     (case p of (c, x, n) \<Rightarrow> steps (mangle c) (size c) [] [x] \<and> pops_context c x \<and> decl_name n)"

lemma steps_protocol:
  assumes "protocol_steps p"
  shows "steps (manglePureProtocol mangle (protocol_node p)) (size (protocol_node p)) [] (protocol_stack p)" "protocol_ok p"
proof -
  obtain c x n where p: "p = (c, x, n)" by (cases p)
  with assms have c: "steps (mangle c) (size c) [] [x]" "pops_context c x" "decl_name n"
    by (simp_all add: protocol_steps_def)
  have "steps (\<lambda>M. mangle c M \<bind> mangle n) (size c + size n) [] [n, x]"
    using steps_bind [OF c(1) steps_push [OF steps_decl_name [OF c(3)]]] by simp
  then show "steps (manglePureProtocol mangle (protocol_node p)) (size (protocol_node p)) [] (protocol_stack p)"
    unfolding p protocol_stack_def prod.case
    by (rule steps_eq) (simp_all add: protocol_node_def manglePureProtocol_def skipType_def getSingleChild_def
        mangleChildNodes_def mangleNodes_eta getFirstChild_def getNumChildren_def)
  show "protocol_ok p" using p c decl_name_kind by (simp add: protocol_ok_def)
qed

lemma steps_protocol_list:
  assumes "\<forall>p \<in> set ps. protocol_steps p"
  shows "steps (\<lambda>M. mangle_items (manglePureProtocol mangle) True (map protocol_node ps) M \<bind>
      (\<lambda>(FirstElem, M). Some (mangleEndOfList FirstElem M))) (size (protocols_node ps)) [] (protocols_stack ps)"
proof -
  have "list_all2 (\<lambda>n ys. steps (manglePureProtocol mangle n) (size n) [] ys) (map protocol_node ps) (map protocol_stack ps)"
    using assms steps_protocol(1) by (auto simp: list_all2_map1 list_all2_map2 list_all2_same)
  moreover have "protocols_stack ps = (case map protocol_stack ps of [] \<Rightarrow> [Node K_EmptyList NoPayload []]
      | ys # yss \<Rightarrow> concat (rev yss) @ Node K_FirstElementMarker NoPayload [] # ys)"
    by (cases ps) (simp_all add: protocols_stack_def rev_map)
  ultimately show ?thesis
    using steps_eq [OF steps_items [of "manglePureProtocol mangle" "map protocol_node ps" "map protocol_stack ps"]]
    by (simp add: protocols_node_def size_list_conv_sum_list)
qed

lemma mangleProtocolList_protocols:
  "mangleProtocolList mangle (protocols_node ps) None b M =
     (mangle_items (manglePureProtocol mangle) True (map protocol_node ps) M \<bind>
      (\<lambda>(FirstElem, M). Some (mangleEndOfList FirstElem M))) \<bind> (\<lambda>M. Some (emit (if b then ''Xl'' else ''p'') M))"
  "mangleProtocolList mangle (protocols_node ps) (Some (Ty t)) b M =
     (mangle_items (manglePureProtocol mangle) True (map protocol_node ps) M \<bind>
      (\<lambda>(FirstElem, M). Some (mangleEndOfList FirstElem M))) \<bind> mangle t \<bind> (\<lambda>M. Some (emit ''Xc'' M))"
  by (simp_all add: mangleProtocolList_def protocols_node_def getSingleChild_kind_def getSingleChild_def
      getFirstChild_def getNumChildren_def mangleType_def split_def)

lemma steps_protocols:
  assumes "\<forall>p \<in> set ps. protocol_steps p"
  shows "steps (mangle (protocols_node ps)) (size (protocols_node ps)) [] [Ty (protocols_node ps)]"
    and "nd = Node K_ProtocolListWithAnyObject NoPayload [protocols_node ps] \<Longrightarrow> steps (mangle nd) (size nd) [] [Ty nd]"
    and "nd = Node K_ProtocolListWithClass NoPayload [protocols_node ps, Ty t] \<Longrightarrow>
      steps (mangle t) (size t) [] [Ty t] \<Longrightarrow> steps (mangle nd) (size nd) [] [Ty nd]"
proof -
  note items = steps_protocol_list [OF assms]
  have ok: "\<forall>p \<in> set ps. protocol_ok p" using assms steps_protocol(2) by blast
  have list: "mangle (protocols_node ps) M = mangleProtocolList mangle (protocols_node ps) None False M" for M
    by (simp add: protocols_node_def mangle_type_kinds)
  show "steps (mangle (protocols_node ps)) (size (protocols_node ps)) [] [Ty (protocols_node ps)]"
    by (rule steps_eq [OF steps_then_emit [OF items op_protocols(1) [OF ok]]])
      (simp_all add: list mangleProtocolList_protocols)
  show "steps (mangle nd) (size nd) [] [Ty nd]"
    if "nd = Node K_ProtocolListWithAnyObject NoPayload [protocols_node ps]" unfolding that
    by (rule steps_eq [OF steps_then_emit [OF items op_protocols(2) [OF ok]]])
      (simp_all add: mangle_type_kinds mangleProtocolListWithAnyObject_def mangleProtocolList_protocols)
  show "steps (mangle nd) (size nd) [] [Ty nd]"
    if "nd = Node K_ProtocolListWithClass NoPayload [protocols_node ps, Ty t]" "steps (mangle t) (size t) [] [Ty t]"
    unfolding that(1)
    by (rule steps_eq [OF steps_then_emit [OF steps_bind [OF items steps_push [OF that(2)], unfolded append_Cons append_Nil]
          op_protocols(3) [OF ok]]])
      (simp_all add: mangle_type_kinds mangleProtocolListWithClass_def mangleProtocolList_protocols)
qed

section \<open>Builtin types\<close>

inductive sized_name :: "string \<Rightarrow> bool" where
  sized_int: "0 < n \<Longrightarrow> n < 10000000 \<Longrightarrow> sized_name (''Int'' @ decimal n)"
| sized_float: "0 < n \<Longrightarrow> n < 10000000 \<Longrightarrow> sized_name (''Float'' @ decimal n)"

inductive builtin_name :: "string \<Rightarrow> bool" where
  builtin_object: "(o', s) \<in> {(CHR ''b'', ''BridgeObject''), (CHR ''B'', ''UnsafeValueBuffer''),
     (CHR ''O'', ''UnknownObject''), (CHR ''o'', ''NativeObject''), (CHR ''p'', ''RawPointer''),
     (CHR ''t'', ''SILToken''), (CHR ''w'', ''Word'')} \<Longrightarrow> builtin_name s"
| builtin_sized: "sized_name s \<Longrightarrow> builtin_name s"
| builtin_vector: "0 < n \<Longrightarrow> n < 10000000 \<Longrightarrow> sized_name s \<or> s = ''RawPointer'' \<Longrightarrow>
    builtin_name (''Vec'' @ decimal n @ ''x'' @ s)"

lemma vector_parts:
  "takeWhile (\<lambda>c. c \<noteq> CHR ''x'') (decimal n @ CHR ''x'' # s) = decimal n"
  "dropWhile (\<lambda>c. c \<noteq> CHR ''x'') (decimal n @ CHR ''x'' # s) = CHR ''x'' # s"
proof -
  have "\<forall>c \<in> set (decimal n). c \<noteq> CHR ''x''" using isDigit_decimal by (force simp: isDigit_def)
  then show "takeWhile (\<lambda>c. c \<noteq> CHR ''x'') (decimal n @ CHR ''x'' # s) = decimal n"
    "dropWhile (\<lambda>c. c \<noteq> CHR ''x'') (decimal n @ CHR ''x'' # s) = CHR ''x'' # s"
    by (simp_all add: takeWhile_append2 dropWhile_append2)
qed

text \<open>The text of an element type, alone and in a vector.\<close>

lemma sized_mangle:
  assumes "sized_name s \<or> s = ''RawPointer''"
  shows "\<exists>e. op_text (''B'' @ e) [] [builtin_node s] \<and>
    (\<forall>M. mangle (Node K_BuiltinTypeName (TextPayload (''Builtin.'' @ s)) []) M = Some (emit (''B'' @ e) M)) \<and>
    (\<forall>M n. mangle_builtin_vector (decimal n @ ''x'' @ s) M = Some (emit (e @ ''Bv'' @ decimal n @ ''_'') M))"
proof -
  note handlers = mangle_type_kinds mangleBuiltinTypeName_def getText_def stripPrefix_def
    mangle_builtin_vector_def vector_parts
  from assms consider (int) n where "s = ''Int'' @ decimal n" "0 < n" "n < 10000000"
    | (float) n where "s = ''Float'' @ decimal n" "0 < n" "n < 10000000" | (pointer) "s = ''RawPointer''"
    by (auto elim: sized_name.cases)
  then show ?thesis
  proof cases
    case int
    with op_builtin_sized(1) [of n] show ?thesis
      by (intro exI [of _ "''i'' @ decimal n @ ''_''"]) (simp add: handlers)
  next
    case float
    with op_builtin_sized(2) [of n] show ?thesis
      by (intro exI [of _ "''f'' @ decimal n @ ''_''"]) (simp add: handlers)
  next
    case pointer
    with op_builtin(5) show ?thesis
      by (intro exI [of _ "''p''"]) (simp add: handlers builtin_node_def)
  qed
qed

lemma builtin_object_text:
  assumes "(o', s) \<in> {(CHR ''b'', ''BridgeObject''), (CHR ''B'', ''UnsafeValueBuffer''), (CHR ''O'', ''UnknownObject''),
     (CHR ''o'', ''NativeObject''), (CHR ''p'', ''RawPointer''), (CHR ''t'', ''SILToken''), (CHR ''w'', ''Word'')}"
  shows "op_text [CHR ''B'', o'] [] [builtin_node s]"
    "mangle (Node K_BuiltinTypeName (TextPayload (''Builtin.'' @ s)) []) M = Some (emit [CHR ''B'', o'] M)"
proof -
  show "op_text [CHR ''B'', o'] [] [builtin_node s]"
    using assms by (elim insertE) (simp_all add: op_builtin builtin_node_def)
  show "mangle (Node K_BuiltinTypeName (TextPayload (''Builtin.'' @ s)) []) M = Some (emit [CHR ''B'', o'] M)"
    using assms by (elim insertE) (simp_all add: mangle_type_kinds mangleBuiltinTypeName_def getText_def)
qed

lemma steps_builtin:
  assumes "builtin_name s"
  defines "nd \<equiv> Node K_BuiltinTypeName (TextPayload (''Builtin.'' @ s)) []"
  shows "steps (mangle nd) (size nd) [] [Ty nd]"
proof -
  have "\<exists>e. op_text e [] [builtin_node s] \<and> (\<forall>M. mangle nd M = Some (emit e M))" using assms(1)
  proof cases
    case (builtin_object o')
    from builtin_object_text [OF this] show ?thesis unfolding nd_def by blast
  next
    case builtin_sized
    then show ?thesis using sized_mangle [of s] unfolding nd_def by blast
  next
    case (builtin_vector n s')
    from sized_mangle [OF builtin_vector(4)] obtain e where e: "op_text (''B'' @ e) [] [builtin_node s']"
      "\<And>M n. mangle_builtin_vector (decimal n @ ''x'' @ s') M = Some (emit (e @ ''Bv'' @ decimal n @ ''_'') M)" by blast
    have "op_text ((''B'' @ e) @ ''Bv'' @ decimal n @ ''_'') [] [builtin_node s]"
      unfolding builtin_vector(1) by (rule op_text_append [OF e(1) op_builtin_vector [OF builtin_vector(2,3)]])
    moreover have "mangle nd M = Some (emit ((''B'' @ e) @ ''Bv'' @ decimal n @ ''_'') M)" for M
      using e(2) builtin_vector(1)
      by (simp add: nd_def mangle_type_kinds mangleBuiltinTypeName_def getText_def stripPrefix_def)
    ultimately show ?thesis by blast
  qed
  then obtain e where "op_text e [] [builtin_node s]" "\<And>M. mangle nd M = Some (emit e M)" by blast
  from steps_leaf [OF this] show ?thesis by (simp add: builtin_node_def nd_def)
qed

end
