(* ===== verification/Entity_Operators.thy ===== *)
theory Entity_Operators
  imports Type_Operators
begin

text \<open>
  The operators of the demangler for declarations: functions with their argument labels, variables
  and subscripts with their accessors, constructors, closures, default arguments.
\<close>

section \<open>Argument labels\<close>

text \<open>
  \<open>None\<close>: no label list; \<open>Some []\<close>: the empty list, which stands for no labels at all; otherwise a label
  or none for each parameter.
\<close>

type_synonym labels = "string option list option"

definition label_node :: "string option \<Rightarrow> node" where
  "label_node l = (case l of None \<Rightarrow> Node K_FirstElementMarker NoPayload [] | Some t \<Rightarrow> ident_node t)"

definition label_list :: "string option list \<Rightarrow> node" where
  "label_list ls = Node K_LabelList NoPayload (map label_node ls)"

definition label_children :: "labels \<Rightarrow> node list" where
  "label_children ls = (case ls of None \<Rightarrow> [] | Some ls \<Rightarrow> [label_list ls])"

definition label_stack :: "labels \<Rightarrow> node list" where
  "label_stack ls = (case ls of None \<Rightarrow> [] | Some ls \<Rightarrow>
     if ls = [] then [Node K_EmptyList NoPayload []] else rev (map label_node ls))"

definition arity :: "node \<Rightarrow> nat" where
  "arity a = (if getKind a = K_Tuple then length (children a) else 1)"

definition function_shape :: "node \<Rightarrow> bool" where
  "function_shape t \<longleftrightarrow> getKind t \<noteq> K_DependentGenericType \<and>
     (getKind t = K_FunctionType \<longrightarrow> (\<exists>b a r. t = function_node K_FunctionType b a r))"

definition labels_fit :: "labels \<Rightarrow> node \<Rightarrow> bool" where
  "labels_fit ls t \<longleftrightarrow> (case ls of
     None \<Rightarrow> \<forall>b a r. t = function_node K_FunctionType b a r \<longrightarrow> arity a = 0
   | Some ls \<Rightarrow> ls = [] \<or> (\<exists>b a r. t = function_node K_FunctionType b a r \<and> arity a = length ls) \<and>
       (\<exists>l \<in> set ls. l \<noteq> None))"

lemma label_kind: "getKind (label_node l) = K_Identifier \<or> getKind (label_node l) = K_FirstElementMarker"
  by (cases l) (simp_all add: label_node_def ident_node_def)

lemma has_labels_node: "has_labels (map label_node ls) \<longleftrightarrow> (\<exists>l \<in> set ls. l \<noteq> None)"
  by (induction ls) (auto simp: has_labels_def label_node_def ident_node_def split: option.splits)

lemma new_labels_pop:
  "NodeStack d = map label_node ls @ st \<Longrightarrow>
   new_labels (length ls) d = (Some (map label_node ls), d\<lparr>NodeStack := st\<rparr>)"
proof (induction ls arbitrary: d)
  case (Cons l ls)
  then have "new_labels (length ls) (d\<lparr>NodeStack := map label_node ls @ st\<rparr>) =
      (Some (map label_node ls), d\<lparr>NodeStack := st\<rparr>)" by simp
  with Cons.prems label_kind [of l] show ?case by (auto simp: popNode_def)
qed simp

lemma function_parts:
  "function_type_of (Ty (function_node K_FunctionType b a r)) = Some ([0], function_node K_FunctionType b a r)"
  "\<exists>i. parameter_type_of (function_node K_FunctionType b a r) =
     Some (i, Node K_ArgumentTuple (IndexPayload (arity a)) [Ty a])"
  by (cases b; simp add: function_type_of_def parameter_type_of_def function_node_def throws_nodes_def
      arity_def getFirstChild_def getChild_def getNumChildren_def)+

text \<open>Below the labels there is another node, which is not an empty list, or nothing at all.\<close>

lemma pop_labels_on:
  assumes "NodeStack d = label_stack ls @ st" "function_shape t" "\<not> IsOldFunctionTypeMangling d"
    "\<And>y st'. ls = None \<Longrightarrow> st = y # st' \<Longrightarrow> getKind y \<noteq> K_EmptyList"
    "labels_fit ls t \<or> ls = None \<and> st = []"
  shows "popFunctionParamLabels (Some (Ty t)) d = Some ((map_option label_list ls, Some (Ty t)), d\<lparr>NodeStack := st\<rparr>)"
proof (cases ls)
  case None
  then have d: "NodeStack d = st" using assms(1) by (simp add: label_stack_def)
  then have e: "popNode_kind K_EmptyList d = (None, d)" "d\<lparr>NodeStack := st\<rparr> = d"
    using assms(4) [OF None] by (cases st; auto simp: popNode_kind_def popNode_if_def popNode_def)+
  show ?thesis
  proof (cases "getKind t = K_FunctionType")
    case True
    then obtain b a r where t: "t = function_node K_FunctionType b a r" using assms(2) by (auto simp: function_shape_def)
    then have "arity a = 0 \<or> st = []" using assms(5) None unfolding labels_fit_def by auto
    then have "new_labels (arity a) d = (if arity a = 0 then Some [] else None, d)"
      using d by (cases "arity a") (auto simp: popNode_def)
    moreover obtain i where "parameter_type_of t = Some (i, Node K_ArgumentTuple (IndexPayload (arity a)) [Ty a])"
      using function_parts(2) t by blast
    ultimately show ?thesis using e None True assms(3) function_parts(1) t
      by (simp add: popFunctionParamLabels_def getIndex_def getFirstChild_def getNumChildren_def)
  next
    case False
    with assms(2) have "function_type_of (Ty t) = Some ([0], t)"
      by (simp add: function_type_of_def function_shape_def getFirstChild_def getNumChildren_def)
    with e None False assms(3) show ?thesis by (simp add: popFunctionParamLabels_def)
  qed
next
  case (Some ls')
  show ?thesis
  proof (cases "ls' = []")
    case True
    with assms(1,3) Some show ?thesis
      by (simp add: popFunctionParamLabels_def label_stack_def label_list_def popNode_kind_top)
  next
    case False
    with assms(5) Some obtain b a r where t: "t = function_node K_FunctionType b a r" "arity a = length ls'"
      "\<exists>l \<in> set ls'. l \<noteq> None" by (auto simp: labels_fit_def)
    have d: "NodeStack d = map label_node (rev ls') @ st"
      using assms(1) False Some by (simp add: label_stack_def rev_map)
    obtain x xs where x: "rev ls' = x # xs" using False by (cases "rev ls'") auto
    then have "popNode_kind K_EmptyList d = (None, d)" using d label_kind [of x] by (auto simp: popNode_kind_top)
    moreover have "new_labels (length ls') d = (Some (map label_node (rev ls')), d\<lparr>NodeStack := st\<rparr>)"
      using new_labels_pop [OF d] by simp
    moreover have "has_labels (map label_node (rev ls'))" using t(3) by (simp add: has_labels_node)
    moreover obtain i where "parameter_type_of t = Some (i, Node K_ArgumentTuple (IndexPayload (arity a)) [Ty a])"
      using function_parts(2) t(1) by blast
    moreover have "getKind t = K_FunctionType" using t(1) by (simp add: function_node_def)
    ultimately show ?thesis using Some False assms(3) function_parts(1) t(1,2)
      by (simp add: popFunctionParamLabels_def getIndex_def getFirstChild_def getNumChildren_def label_list_def rev_map)
  qed
qed

lemma pop_labels:
  assumes "NodeStack d = label_stack ls @ y # st" "getKind y \<noteq> K_EmptyList" "function_shape t" "labels_fit ls t"
    "\<not> IsOldFunctionTypeMangling d"
  shows "popFunctionParamLabels (Some (Ty t)) d =
    Some ((map_option label_list ls, Some (Ty t)), d\<lparr>NodeStack := y # st\<rparr>)"
  using assms by (intro pop_labels_on) auto

section \<open>Functions\<close>

definition function_entity :: "node \<Rightarrow> node \<Rightarrow> labels \<Rightarrow> node \<Rightarrow> node" where
  "function_entity c n ls t = Node K_Function NoPayload ([c, n] @ label_children ls @ [Ty t])"

lemma popNode_if_top: "NodeStack d = n # st \<Longrightarrow> p (getKind n) \<Longrightarrow> popNode_if p d = (Some n, d\<lparr>NodeStack := st\<rparr>)"
  by (simp add: popNode_if_def popNode_def)

lemma decl_not_empty: "isDeclName k \<Longrightarrow> k \<noteq> K_EmptyList"
  by (auto simp: isDeclName_def)

lemma unit_not_signature: "getKind (param_node t) \<noteq> K_DependentGenericSignature"
  by (simp add: param_node_def)

lemma op_function_entity:
  assumes "pops_context c x" "isDeclName (getKind n)" "unit_ok a" "unit_ok r"
    "labels_fit ls (function_node K_FunctionType b a r)"
  shows "op_text ''F'' (throws_nodes b @ [param_node a, param_node r] @ label_stack ls @ [n, x])
    [function_entity c n ls (function_node K_FunctionType b a r)]"
proof (rule op_textI)
  fix d t st
  let ?t = "function_node K_FunctionType b a r"
  assume d: "rest d = ''F'' @ t" "\<not> IsOldFunctionTypeMangling d"
    "NodeStack d = (throws_nodes b @ [param_node a, param_node r] @ label_stack ls @ [n, x]) @ st"
  let ?d = "(skip 1 d)\<lparr>NodeStack := label_stack ls @ n # x # st\<rparr>"
  have "popNode_kind K_DependentGenericSignature (skip 1 d) = (None, skip 1 d)"
    using d(3) unit_not_signature [of a] by (cases b) (simp_all add: throws_nodes_def popNode_kind_top)
  moreover have "popFunctionType K_FunctionType (skip 1 d) = Some (Some (Ty ?t), ?d)"
    using popFunctionType_node [of "skip 1 d" b a r "label_stack ls @ n # x # st" K_FunctionType] d(3) assms(3,4) by simp
  moreover have "popFunctionParamLabels (Some (Ty ?t)) ?d = Some ((map_option label_list ls, Some (Ty ?t)),
      ?d\<lparr>NodeStack := n # x # st\<rparr>)"
    using assms(2,5) d(2) decl_not_empty by (intro pop_labels) (auto simp: function_shape_def function_node_def)
  moreover have "popContext ((skip 1 d)\<lparr>NodeStack := x # st\<rparr>) = Some (Some c, (skip 1 d)\<lparr>NodeStack := st\<rparr>)"
    using assms(1) by (simp add: pops_context_def)
  ultimately show "demangleOperator d = Some (Some (function_entity c n ls ?t),
      (skip (length ''F'') d)\<lparr>NodeStack := [] @ st\<rparr>)"
    using d(1) assms(2) by (cases ls) (simp_all add: demangleOperator_def rest_Cons(3) demanglePlainFunction_def
        popNode_if_top function_entity_def label_children_def createWithChildren3_def createWithChildren4_def build_defs)
qed simp

section \<open>Accessors\<close>

text \<open>The code after the operator, and the kind that wraps the storage (\<open>None\<close> for the storage itself).\<close>

definition accessor_table :: "(string \<times> node_kind option) list" where
  "accessor_table = [(''p'', None), (''m'', Some K_MaterializeForSet), (''s'', Some K_Setter), (''g'', Some K_Getter),
     (''G'', Some K_GlobalGetter), (''w'', Some K_WillSet), (''W'', Some K_DidSet),
     (''aO'', Some K_OwningMutableAddressor), (''ao'', Some K_NativeOwningMutableAddressor),
     (''aP'', Some K_NativePinningMutableAddressor), (''au'', Some K_UnsafeMutableAddressor),
     (''lO'', Some K_OwningAddressor), (''lo'', Some K_NativeOwningAddressor),
     (''lp'', Some K_NativePinningAddressor), (''lu'', Some K_UnsafeAddressor)]"

definition accessor_node :: "node_kind option \<Rightarrow> node \<Rightarrow> node" where
  "accessor_node k e = (case k of None \<Rightarrow> e | Some k \<Rightarrow> Node k NoPayload [e])"

lemma demangleAccessor_node:
  assumes "(code, k) \<in> set accessor_table" "rest d = code @ t"
  shows "demangleAccessor (Some e) d = (Some (accessor_node k e), skip (length code) d)"
  using assms unfolding accessor_table_def list.set
  by (elim insertE) (simp_all add: demangleAccessor_def rest_Cons(3) rest_two accessor_node_def build_defs numeral_2_eq_2)

text \<open>Both operators take the code that follows.\<close>

lemma rest_operator:
  assumes "rest d = (o' # code) @ t"
  shows "rest (skip 1 d) = code @ t" "nextChar d = (o', skip 1 d)"
  using rest_skip1 [of d o' "code @ t"] rest_Cons(3) [of d o' "code @ t"] assms by simp_all

definition variable_entity :: "node \<Rightarrow> node \<Rightarrow> labels \<Rightarrow> node \<Rightarrow> node" where
  "variable_entity c n ls t = Node K_Variable NoPayload ([c, n] @ label_children ls @ [Ty t])"

lemma entity_node:
  assumes "NodeStack d = Ty t # label_stack ls @ n # x # st" "pops_context c x" "isDeclName (getKind n)"
    "function_shape t" "labels_fit ls t" "\<not> IsOldFunctionTypeMangling d"
  shows "demangleEntity kind d = Some (Some (Node kind NoPayload ([c, n] @ label_children ls @ [Ty t])),
    d\<lparr>NodeStack := st\<rparr>)"
proof -
  let ?d = "d\<lparr>NodeStack := label_stack ls @ n # x # st\<rparr>"
  have "popNode_kind K_Type d = (Some (Ty t), ?d)" using assms(1) by (simp add: popNode_kind_top)
  moreover have "popFunctionParamLabels (Some (Ty t)) ?d = Some ((map_option label_list ls, Some (Ty t)),
      ?d\<lparr>NodeStack := n # x # st\<rparr>)"
    using assms(3-6) decl_not_empty by (intro pop_labels) auto
  moreover have "popContext (d\<lparr>NodeStack := x # st\<rparr>) = Some (Some c, d\<lparr>NodeStack := st\<rparr>)"
    using assms(2) by (simp add: pops_context_def)
  ultimately show ?thesis
    using assms(3) by (cases ls) (simp_all add: demangleEntity_def popNode_if_top label_children_def
        createWithChildren3_def createWithChildren4_def build_defs)
qed

lemma op_variable:
  assumes "(code, k) \<in> set accessor_table" "pops_context c x" "isDeclName (getKind n)" "function_shape t" "labels_fit ls t"
  shows "op_text (CHR ''v'' # code) (Ty t # label_stack ls @ [n, x]) [accessor_node k (variable_entity c n ls t)]"
proof (rule op_textI)
  fix d r st
  assume d: "rest d = (CHR ''v'' # code) @ r" "NodeStack d = (Ty t # label_stack ls @ [n, x]) @ st"
    "\<not> IsOldFunctionTypeMangling d"
  have "demangleEntity K_Variable (skip 1 d) = Some (Some (variable_entity c n ls t), (skip 1 d)\<lparr>NodeStack := st\<rparr>)"
    unfolding variable_entity_def using d assms(2-) by (intro entity_node) simp_all
  moreover have "rest ((skip 1 d)\<lparr>NodeStack := st\<rparr>) = code @ r" using rest_operator [OF d(1)] by (simp add: rest_def)
  ultimately show "demangleOperator d = Some (Some (accessor_node k (variable_entity c n ls t)),
      (skip (length (CHR ''v'' # code)) d)\<lparr>NodeStack := [] @ st\<rparr>)"
    using rest_operator(2) [OF d(1)] demangleAccessor_node [OF assms(1)]
    by (simp add: demangleOperator_def demangleVariable_def skip_def)
qed simp

section \<open>Subscripts and constructors\<close>

text \<open>The private name of a subscript or a constructor comes last.\<close>

definition private_names :: "node option \<Rightarrow> node list" where
  "private_names n = (case n of None \<Rightarrow> [] | Some n \<Rightarrow> [n])"

definition member_entity :: "node_kind \<Rightarrow> node \<Rightarrow> labels \<Rightarrow> node \<Rightarrow> node option \<Rightarrow> node" where
  "member_entity k c ls t n = Node k NoPayload ([c] @ label_children ls @ [Ty t] @ private_names n)"

lemma pop_private:
  assumes "NodeStack d = private_names n @ Ty t # st" "\<And>m. n = Some m \<Longrightarrow> getKind m = K_PrivateDeclName"
  shows "popNode_kind K_PrivateDeclName d = (n, d\<lparr>NodeStack := Ty t # st\<rparr>)"
  using assms by (cases n) (simp_all add: private_names_def popNode_kind_top)

lemma pop_member:
  assumes "NodeStack d = Ty t # label_stack ls @ x # st" "pops_context c x" "getKind x \<noteq> K_EmptyList"
    "function_shape t" "labels_fit ls t" "\<not> IsOldFunctionTypeMangling d"
  shows "popNode_kind K_Type d = (Some (Ty t), d\<lparr>NodeStack := label_stack ls @ x # st\<rparr>)"
    "popFunctionParamLabels (Some (Ty t)) (d\<lparr>NodeStack := label_stack ls @ x # st\<rparr>) =
      Some ((map_option label_list ls, Some (Ty t)), d\<lparr>NodeStack := x # st\<rparr>)"
    "popContext (d\<lparr>NodeStack := x # st\<rparr>) = Some (Some c, d\<lparr>NodeStack := st\<rparr>)"
proof -
  show "popNode_kind K_Type d = (Some (Ty t), d\<lparr>NodeStack := label_stack ls @ x # st\<rparr>)"
    using assms(1) by (simp add: popNode_kind_top)
  show "popFunctionParamLabels (Some (Ty t)) (d\<lparr>NodeStack := label_stack ls @ x # st\<rparr>) =
      Some ((map_option label_list ls, Some (Ty t)), d\<lparr>NodeStack := x # st\<rparr>)"
    using assms(3-) pop_labels [of "d\<lparr>NodeStack := label_stack ls @ x # st\<rparr>" ls x st t] by simp
  show "popContext (d\<lparr>NodeStack := x # st\<rparr>) = Some (Some c, d\<lparr>NodeStack := st\<rparr>)"
    using assms(2) by (simp add: pops_context_def)
qed

lemma op_subscript:
  assumes "(code, k) \<in> set accessor_table" "pops_context c x" "getKind x \<noteq> K_EmptyList" "function_shape t"
    "labels_fit ls t" "\<And>m. n = Some m \<Longrightarrow> getKind m = K_PrivateDeclName"
  shows "op_text (CHR ''i'' # code) (private_names n @ Ty t # label_stack ls @ [x])
    [accessor_node k (member_entity K_Subscript c ls t n)]"
proof (rule op_textI)
  fix d r st
  assume d: "rest d = (CHR ''i'' # code) @ r" "NodeStack d = (private_names n @ Ty t # label_stack ls @ [x]) @ st"
    "\<not> IsOldFunctionTypeMangling d"
  let ?d = "(skip 1 d)\<lparr>NodeStack := Ty t # label_stack ls @ x # st\<rparr>"
  have "popNode_kind K_PrivateDeclName (skip 1 d) = (n, ?d)"
    using d(2) assms(6) by (intro pop_private) simp_all
  moreover note pop_member [of ?d t ls x st c, OF _ assms(2-5)]
  moreover have "rest ((skip 1 d)\<lparr>NodeStack := st\<rparr>) = code @ r" using rest_operator [OF d(1)] by (simp add: rest_def)
  ultimately show "demangleOperator d = Some (Some (accessor_node k (member_entity K_Subscript c ls t n)),
      (skip (length (CHR ''i'' # code)) d)\<lparr>NodeStack := [] @ st\<rparr>)"
    using rest_operator(2) [OF d(1)] demangleAccessor_node [OF assms(1)] d(3)
    by (cases ls; cases n) (simp_all add: demangleOperator_def demangleSubscript_def add_optional_def
        member_entity_def label_children_def private_names_def build_defs skip_def)
qed simp

lemma op_constructor:
  assumes "(o', k) \<in> {(CHR ''C'', K_Allocator), (CHR ''c'', K_Constructor)}" "pops_context c x" "getKind x \<noteq> K_EmptyList"
    "function_shape t" "labels_fit ls t" "\<And>m. n = Some m \<Longrightarrow> getKind m = K_PrivateDeclName"
  shows "op_text [CHR ''f'', o'] (private_names n @ Ty t # label_stack ls @ [x]) [member_entity k c ls t n]"
proof (rule op_textI)
  fix d r st
  assume d: "rest d = [CHR ''f'', o'] @ r" "NodeStack d = (private_names n @ Ty t # label_stack ls @ [x]) @ st"
    "\<not> IsOldFunctionTypeMangling d"
  let ?d = "(skip 2 d)\<lparr>NodeStack := Ty t # label_stack ls @ x # st\<rparr>"
  have "popNode_kind K_PrivateDeclName (skip 2 d) = (n, ?d)"
    using d(2) assms(6) by (intro pop_private) simp_all
  moreover note pop_member [of ?d t ls x st c, OF _ assms(2-5)]
  moreover have "demangleOperator d = entity_with_type_and_name k (skip 2 d)"
    using assms(1) d(1) by (elim insertE) (simp_all add: demangleOperator_def demangleFunctionEntity_def rest_two)
  ultimately show "demangleOperator d = Some (Some (member_entity k c ls t n),
      (skip (length [CHR ''f'', o']) d)\<lparr>NodeStack := [] @ st\<rparr>)"
    using d(3) by (cases ls; cases n) (simp_all add: entity_with_type_and_name_def add_optional_def
        member_entity_def label_children_def private_names_def build_defs numeral_2_eq_2)
qed simp

section \<open>Entities without a type\<close>

lemma op_plain_entity:
  assumes "(o', k) \<in> {(CHR ''D'', K_Deallocator), (CHR ''d'', K_Destructor), (CHR ''E'', K_IVarDestroyer),
      (CHR ''e'', K_IVarInitializer), (CHR ''i'', K_Initializer)}" "pops_context c x"
  shows "op_text [CHR ''f'', o'] [x] [Node k NoPayload [c]]"
proof (rule op_textI)
  fix d r st
  assume d: "rest d = [CHR ''f'', o'] @ r" "NodeStack d = [x] @ st"
  have "demangleOperator d = entity_without_args k (skip 2 d)"
    using assms(1) d(1) by (elim insertE) (simp_all add: demangleOperator_def demangleFunctionEntity_def rest_two)
  with assms(2) d show "demangleOperator d = Some (Some (Node k NoPayload [c]),
      (skip (length [CHR ''f'', o']) d)\<lparr>NodeStack := [] @ st\<rparr>)"
    by (simp add: entity_without_args_def pops_context_def build_defs numeral_2_eq_2)
qed simp

lemma rest_indexed:
  assumes "rest d = (a # b # index_text i) @ t" "i < 2147483648"
  shows "demangleIndexAsNode (skip 2 d) = (Some (Node K_Number (IndexPayload i) []), skip (length (a # b # index_text i)) d)"
proof -
  have "rest (skip 2 d) = index_text i @ t" using assms(1) rest_skip [of d "[a, b]"] by (simp add: numeral_2_eq_2)
  from demangleIndex_text [OF this assms(2)] show ?thesis by (simp add: demangleIndexAsNode_def)
qed

lemma op_closure:
  assumes "(o', k) \<in> {(CHR ''U'', K_ExplicitClosure), (CHR ''u'', K_ImplicitClosure)}" "pops_context c x" "i < 2147483648"
  shows "op_text (CHR ''f'' # o' # index_text i) [Ty t, x] [Node k NoPayload [c, Node K_Number (IndexPayload i) [], Ty t]]"
proof (rule op_textI)
  fix d r st
  assume d: "rest d = (CHR ''f'' # o' # index_text i) @ r" "NodeStack d = [Ty t, x] @ st"
  have "demangleOperator d = entity_with_type_and_index k (skip 2 d)"
    using assms(1) d(1) by (elim insertE) (simp_all add: demangleOperator_def demangleFunctionEntity_def rest_two)
  with assms(2) d(2) rest_indexed [OF d(1) assms(3)] show "demangleOperator d = Some (Some (Node k NoPayload
      [c, Node K_Number (IndexPayload i) [], Ty t]), (skip (length (CHR ''f'' # o' # index_text i)) d)\<lparr>NodeStack := [] @ st\<rparr>)"
    by (simp add: entity_with_type_and_index_def pops_context_def popNode_kind_top build_defs)
qed simp

lemma op_default_argument:
  assumes "pops_context c x" "i < 2147483648"
  shows "op_text (CHR ''f'' # CHR ''A'' # index_text i) [x]
    [Node K_DefaultArgumentInitializer NoPayload [c, Node K_Number (IndexPayload i) []]]"
proof (rule op_textI)
  fix d r st
  assume d: "rest d = (CHR ''f'' # CHR ''A'' # index_text i) @ r" "NodeStack d = [x] @ st"
  have "demangleOperator d = entity_with_index K_DefaultArgumentInitializer (skip 2 d)"
    using d(1) by (simp add: demangleOperator_def demangleFunctionEntity_def rest_two)
  with assms(1) d(2) rest_indexed [OF d(1) assms(2)] show "demangleOperator d = Some (Some (Node K_DefaultArgumentInitializer NoPayload
      [c, Node K_Number (IndexPayload i) []]), (skip (length (CHR ''f'' # CHR ''A'' # index_text i)) d)\<lparr>NodeStack := [] @ st\<rparr>)"
    by (simp add: entity_with_index_def pops_context_def build_defs)
qed simp

lemma op_static:
  assumes "isEntity (getKind e)"
  shows "op_text ''Z'' [e] [Node K_Static NoPayload [e]]"
  using assms by (intro op_textI) (simp_all add: demangleOperator_def rest_Cons(3) popNode_if_top build_defs)

end
