(* ===== verification/Entity_Handlers.thy ===== *)
theory Entity_Handlers
  imports Type_Handlers Entity_Operators
begin

text \<open>
  The handlers of the remangler for declarations as steps of the simulation.
\<close>

section \<open>The handlers of the kinds\<close>

lemma mangle_entity_kinds:
  "mangle (Node K_Function p cs) M = mangleFunction mangle (Node K_Function p cs) M"
  "mangle (Node K_LabelList p cs) M = mangleLabelList mangle (Node K_LabelList p cs) M"
  "mangle (Node K_FirstElementMarker p cs) M = Some (emit ''_'' M)"
  "mangle (Node K_Variable p cs) M = mangleAbstractStorage mangle ''p'' (Node K_Variable p cs) M"
  "mangle (Node K_Subscript p cs) M = mangleAbstractStorage mangle ''p'' (Node K_Subscript p cs) M"
  "mangle (Node K_Allocator p cs) M = mangleAnyConstructor mangle (CHR ''C'') (Node K_Allocator p cs) M"
  "mangle (Node K_Constructor p cs) M = mangleAnyConstructor mangle (CHR ''c'') (Node K_Constructor p cs) M"
  "mangle (Node K_Deallocator p cs) M = mangleChildNodes mangle (Node K_Deallocator p cs) M \<bind> (\<lambda>M. Some (emit ''fD'' M))"
  "mangle (Node K_Destructor p cs) M = mangleChildNodes mangle (Node K_Destructor p cs) M \<bind> (\<lambda>M. Some (emit ''fd'' M))"
  "mangle (Node K_IVarDestroyer p cs) M = mangleSingleChildNode mangle (Node K_IVarDestroyer p cs) M \<bind> (\<lambda>M. Some (emit ''fE'' M))"
  "mangle (Node K_IVarInitializer p cs) M = mangleSingleChildNode mangle (Node K_IVarInitializer p cs) M \<bind> (\<lambda>M. Some (emit ''fe'' M))"
  "mangle (Node K_Initializer p cs) M = mangleChildNodes mangle (Node K_Initializer p cs) M \<bind> (\<lambda>M. Some (emit ''fi'' M))"
  "mangle (Node K_ExplicitClosure p cs) M = mangleExplicitClosure mangle (Node K_ExplicitClosure p cs) M"
  "mangle (Node K_ImplicitClosure p cs) M = mangleImplicitClosure mangle (Node K_ImplicitClosure p cs) M"
  "mangle (Node K_DefaultArgumentInitializer p cs) M =
     mangleDefaultArgumentInitializer mangle (Node K_DefaultArgumentInitializer p cs) M"
  "mangle (Node K_Static p cs) M = mangleSingleChildNode mangle (Node K_Static p cs) M \<bind> (\<lambda>M. Some (emit ''Z'' M))"
  by (simp_all add: handlers_at mangleFirstElementMarker_def mangleVariable_def mangleSubscript_def
      mangleAllocator_def mangleConstructor_def mangleDeallocator_def mangleDestructor_def mangleIVarDestroyer_def
      mangleIVarInitializer_def mangleInitializer_def mangleStatic_def del: One_nat_def)

lemma mangle_accessor:
  assumes "(code, Some k) \<in> set accessor_table"
  shows "mangle (Node k p [e]) M = mangleAbstractStorage mangle code e M"
  using assms unfolding accessor_table_def list.set
  by (elim insertE) (simp_all add: handlers_at getFirstChild_def getNumChildren_def
      mangleMaterializeForSet_def mangleSetter_def mangleGetter_def mangleGlobalGetter_def mangleWillSet_def
      mangleDidSet_def mangleOwningMutableAddressor_def mangleNativeOwningMutableAddressor_def
      mangleNativePinningMutableAddressor_def mangleUnsafeMutableAddressor_def mangleOwningAddressor_def
      mangleNativeOwningAddressor_def mangleNativePinningAddressor_def mangleUnsafeAddressor_def)

lemma mangle_storage:
  assumes "(code, k) \<in> set accessor_table" "getKind e \<in> {K_Variable, K_Subscript}"
  shows "mangle (accessor_node k e) M = mangleAbstractStorage mangle code e M"
proof (cases k)
  case None
  then have "code = ''p''" using assms(1) by (auto simp: accessor_table_def)
  with None assms(2) show ?thesis by (cases e) (auto simp: accessor_node_def mangle_entity_kinds)
next
  case (Some k')
  then show ?thesis using mangle_accessor [of code k'] assms(1) by (simp add: accessor_node_def)
qed

section \<open>Labels\<close>

definition labels_ok :: "labels \<Rightarrow> bool" where
  "labels_ok ls \<longleftrightarrow> (case ls of None \<Rightarrow> True | Some ls \<Rightarrow> \<forall>l \<in> set ls. case l of None \<Rightarrow> True | Some t \<Rightarrow> ident_ok t)"

lemma steps_label:
  assumes "case l of None \<Rightarrow> True | Some t \<Rightarrow> ident_ok t"
  shows "steps (mangle (label_node l)) (size (label_node l)) [] [label_node l]"
proof (cases l)
  case None
  show ?thesis unfolding None label_node_def option.case
    by (rule steps_leaf [OF op_leaf(3)]) (simp add: mangle_entity_kinds)
next
  case (Some t)
  with assms steps_ident_node [of t] show ?thesis by (simp add: label_node_def ident_node_def)
qed

lemma steps_labels:
  assumes "labels_ok ls"
  shows "steps (mangleNodes mangle (label_children ls)) (sum_list (map size (label_children ls))) [] (label_stack ls)"
proof (cases ls)
  case None
  then show ?thesis using steps_Some [of "[]"] by (simp add: label_children_def label_stack_def mangleNodes_eta)
next
  case (Some ls')
  show ?thesis
  proof (cases "ls' = []")
    case True
    have "steps (mangleNodes mangle [label_list []]) (size (label_list [])) [] [Node K_EmptyList NoPayload []]"
      by (rule steps_eq [OF steps_emit [OF op_leaf(2)]])
        (simp_all add: label_list_def mangle_entity_kinds mangleLabelList_def getNumChildren_def)
    with True Some show ?thesis by (simp add: label_children_def label_stack_def)
  next
    case False
    have "list_all2 (\<lambda>n ys. steps (mangle n) (size n) [] ys) (map label_node ls') (map (\<lambda>l. [label_node l]) ls')"
      using assms Some steps_label by (auto simp: labels_ok_def list_all2_map1 list_all2_map2 list_all2_same)
    moreover have "concat (rev (map (\<lambda>l. [label_node l]) ls')) = rev (map label_node ls')" by (induction ls') auto
    ultimately have "steps (mangleNodes mangle (map label_node ls')) (sum_list (map size (map label_node ls'))) []
        (rev (map label_node ls'))"
      using steps_nodes [of mangle "map label_node ls'" "map (\<lambda>l. [label_node l]) ls'"] by simp
    then have "steps (mangleNodes mangle [label_list ls']) (size (label_list ls')) [] (rev (map label_node ls'))"
      by (rule steps_eq) (use False in \<open>simp_all add: label_list_def mangle_entity_kinds mangleLabelList_def
          getNumChildren_def mangleChildNodes_def mangleNodes_eta size_list_conv_sum_list\<close>)
    with False Some show ?thesis by (simp add: label_children_def label_stack_def)
  qed
qed

lemma mangleNodes_append: "mangleNodes f (xs @ ys) = (\<lambda>M. mangleNodes f xs M \<bind> mangleNodes f ys)"
  by (induction xs) (simp_all add: mangleNodes_eta)

section \<open>Functions\<close>

lemma steps_function_entity:
  assumes "steps (mangle c) (size c) [] [x]" "pops_context c x" "decl_name n"
    and "steps (mangle a) (size a) [] [Ty a]" "unit_ok a" "steps (mangle r) (size r) [] [Ty r]" "unit_ok r"
    and "labels_ok ls" "labels_fit ls (function_node K_FunctionType b a r)"
  defines "e \<equiv> function_entity c n ls (function_node K_FunctionType b a r)"
  shows "steps (mangle e) (size e) [] [e]"
proof -
  let ?a = "Node K_ArgumentTuple (IndexPayload (if getKind a = K_Tuple then length (children a) else 1)) [Ty a]"
    and ?r = "Node K_ReturnType NoPayload [Ty r]" and ?throws = "if b then \<lambda>M. Some (emit ''K'' M) else Some"
  have t: "steps ?throws 0 [] (throws_nodes b)"
    using steps_emit [OF op_leaf(5)] steps_Some [of "[]"] by (simp add: throws_nodes_def)
  have "steps (\<lambda>M. ((((mangle c M \<bind> mangle n) \<bind> mangleNodes mangle (label_children ls)) \<bind> mangle ?r) \<bind> mangle ?a) \<bind> ?throws)
      (size c + size n + sum_list (map size (label_children ls)) + size r + size a + 0) []
      (throws_nodes b @ [param_node a] @ [param_node r] @ label_stack ls @ [n] @ [x])"
    using steps_bind [OF steps_bind [OF steps_bind [OF steps_bind [OF steps_bind [OF assms(1)
      steps_push [OF steps_decl_name [OF assms(3)]]] steps_push [OF steps_labels [OF assms(8)]]]
      steps_push [OF steps_argument [OF assms(6,7)]]] steps_push [OF steps_argument [OF assms(4,5)]]] steps_push [OF t]]
    by simp
  from steps_then_emit [OF this [unfolded append_Cons append_Nil]
      op_function_entity [OF assms(2) decl_name_kind [OF assms(3)] assms(5,7,9), unfolded append_Cons append_Nil]]
  show ?thesis unfolding e_def
    by (rule steps_eq) (cases b; cases ls; simp add: function_entity_def function_node_def throws_nodes_def
      mangle_entity_kinds mangle_type_kinds mangleFunction_def mangleChildNode_def mangleFunctionSignature_def
      mangleChildNodesReversed_def getSingleChild_def getFirstChild_def getChild_def getNumChildren_def
      label_children_def label_list_def mangleNodes_eta numeral_2_eq_2 numeral_3_eq_3)+
qed

section \<open>Variables, subscripts and constructors\<close>

lemma steps_parts:
  assumes "steps (mangle c) (size c) [] [x]" "list_all2 (\<lambda>m ys. steps (mangle m) (size m) [] ys) ns yss" "labels_ok ls"
    and "steps (mangle t) (size t) [] [Ty t]" "list_all2 (\<lambda>m ys. steps (mangle m) (size m) [] ys) ps zss"
  shows "steps (mangleNodes mangle ([c] @ ns @ label_children ls @ [Ty t] @ ps))
    (size c + sum_list (map size ns) + sum_list (map size (label_children ls)) + size t + sum_list (map size ps)) []
    (concat (rev zss) @ Ty t # label_stack ls @ concat (rev yss) @ [x])"
proof -
  have "steps (\<lambda>M. (((mangle c M \<bind> mangleNodes mangle ns) \<bind> mangleNodes mangle (label_children ls)) \<bind> mangle t) \<bind>
        mangleNodes mangle ps)
      (size c + sum_list (map size ns) + sum_list (map size (label_children ls)) + size t + sum_list (map size ps)) []
      (concat (rev zss) @ [Ty t] @ label_stack ls @ concat (rev yss) @ [x])"
    using steps_bind [OF steps_bind [OF steps_bind [OF steps_bind [OF assms(1) steps_push [OF steps_nodes [OF assms(2)]]]
      steps_push [OF steps_labels [OF assms(3)]]] steps_push [OF assms(4)]] steps_push [OF steps_nodes [OF assms(5)]]] by simp
  then show ?thesis unfolding append_Cons append_Nil
    by (rule steps_eq) (simp_all add: mangleNodes_append mangleNodes_eta)
qed

lemma steps_variable:
  assumes "steps (mangle c) (size c) [] [x]" "pops_context c x" "decl_name n" "steps (mangle t) (size t) [] [Ty t]"
    "function_shape t" "labels_ok ls" "labels_fit ls t" "(code, k) \<in> set accessor_table"
  defines "e \<equiv> accessor_node k (variable_entity c n ls t)"
  shows "steps (mangle e) (size e) [] [e]"
proof -
  note st = steps_parts [OF assms(1) _ assms(6,4), of "[n]" "[[n]]" "[]" "[]"]
  have "steps (mangleNodes mangle ([c] @ [n] @ label_children ls @ [Ty t] @ []))
      (size c + sum_list (map size [n]) + sum_list (map size (label_children ls)) + size t + 0) []
      (Ty t # label_stack ls @ [n, x])"
    using st steps_decl_name [OF assms(3)] by simp
  from steps_then_emit [OF this op_variable [OF assms(8,2) decl_name_kind [OF assms(3)] assms(5,7)]]
  show ?thesis unfolding e_def
  proof (rule steps_eq)
    show "mangle (accessor_node k (variable_entity c n ls t)) M =
        mangleNodes mangle ([c] @ [n] @ label_children ls @ [Ty t] @ []) M \<bind> (\<lambda>M. Some (emit (CHR ''v'' # code) M))" for M
      by (subst mangle_storage [OF assms(8)])
        (simp_all add: variable_entity_def mangleAbstractStorage_def mangleChildNodes_def)
  qed (cases k; simp add: accessor_node_def variable_entity_def size_list_conv_sum_list)
qed

lemma private_steps:
  assumes "\<And>m. p = Some m \<Longrightarrow> decl_name m"
  shows "list_all2 (\<lambda>m ys. steps (mangle m) (size m) [] ys) (private_names p) (map (\<lambda>m. [m]) (private_names p))"
    "concat (rev (map (\<lambda>m. [m]) (private_names p))) = private_names p"
  using assms steps_decl_name by (cases p; simp add: private_names_def)+

lemma steps_subscript:
  assumes "steps (mangle c) (size c) [] [x]" "pops_context c x" "getKind x \<noteq> K_EmptyList" "steps (mangle t) (size t) [] [Ty t]"
    "function_shape t" "labels_ok ls" "labels_fit ls t" "\<And>m. p = Some m \<Longrightarrow> decl_name m \<and> getKind m = K_PrivateDeclName"
    "(code, k) \<in> set accessor_table"
  defines "e \<equiv> accessor_node k (member_entity K_Subscript c ls t p)"
  shows "steps (mangle e) (size e) [] [e]"
proof -
  have p: "\<And>m. p = Some m \<Longrightarrow> decl_name m" "\<And>m. p = Some m \<Longrightarrow> getKind m = K_PrivateDeclName" using assms(8) by auto
  have "steps (mangleNodes mangle ([c] @ [] @ label_children ls @ [Ty t] @ private_names p))
      (size c + 0 + sum_list (map size (label_children ls)) + size t + sum_list (map size (private_names p))) []
      (private_names p @ Ty t # label_stack ls @ [x])"
    using steps_parts [OF assms(1) list_all2_Nil [THEN iffD2] assms(6,4) private_steps(1) [OF p(1)]] private_steps(2) [OF p(1)]
    by simp
  from steps_then_emit [OF this op_subscript [OF assms(9,2,3,5,7) p(2)]]
  show ?thesis unfolding e_def
  proof (rule steps_eq)
    show "mangle (accessor_node k (member_entity K_Subscript c ls t p)) M =
        mangleNodes mangle ([c] @ [] @ label_children ls @ [Ty t] @ private_names p) M \<bind>
        (\<lambda>M. Some (emit (CHR ''i'' # code) M))" for M
      by (subst mangle_storage [OF assms(9)])
        (simp_all add: member_entity_def mangleAbstractStorage_def mangleChildNodes_def)
  qed (simp_all add: accessor_node_def member_entity_def size_list_conv_sum_list split: option.split)
qed

lemma steps_constructor:
  assumes "steps (mangle c) (size c) [] [x]" "pops_context c x" "getKind x \<noteq> K_EmptyList" "steps (mangle t) (size t) [] [Ty t]"
    "function_shape t" "labels_ok ls" "labels_fit ls t" "\<And>m. p = Some m \<Longrightarrow> decl_name m \<and> getKind m = K_PrivateDeclName"
    "(o', k) \<in> {(CHR ''C'', K_Allocator), (CHR ''c'', K_Constructor)}"
  defines "e \<equiv> member_entity k c ls t p"
  shows "steps (mangle e) (size e) [] [e]"
proof -
  have p: "\<And>m. p = Some m \<Longrightarrow> decl_name m" "\<And>m. p = Some m \<Longrightarrow> getKind m = K_PrivateDeclName" using assms(8) by auto
  have "steps (mangleNodes mangle ([c] @ [] @ label_children ls @ [Ty t] @ private_names p))
      (size c + 0 + sum_list (map size (label_children ls)) + size t + sum_list (map size (private_names p))) []
      (private_names p @ Ty t # label_stack ls @ [x])"
    using steps_parts [OF assms(1) list_all2_Nil [THEN iffD2] assms(6,4) private_steps(1) [OF p(1)]] private_steps(2) [OF p(1)]
    by simp
  from steps_then_emit [OF this op_constructor [OF assms(9,2,3,5,7) p(2)]]
  show ?thesis unfolding e_def
  proof (rule steps_eq)
    show "mangle (member_entity k c ls t p) M =
        mangleNodes mangle ([c] @ [] @ label_children ls @ [Ty t] @ private_names p) M \<bind>
        (\<lambda>M. Some (emit [CHR ''f'', o'] M))" for M
      using assms(9) by (elim insertE) (simp_all add: member_entity_def mangle_entity_kinds mangleAnyConstructor_def
          mangleChildNodes_def del: One_nat_def)
  qed (simp_all add: member_entity_def size_list_conv_sum_list)
qed

section \<open>Entities without a type\<close>

lemma steps_plain_entity:
  assumes "steps (mangle c) (size c) [] [x]" "pops_context c x"
    "(o', k) \<in> {(CHR ''D'', K_Deallocator), (CHR ''d'', K_Destructor), (CHR ''E'', K_IVarDestroyer),
      (CHR ''e'', K_IVarInitializer), (CHR ''i'', K_Initializer)}"
  shows "steps (mangle (Node k NoPayload [c])) (size (Node k NoPayload [c])) [] [Node k NoPayload [c]]"
proof (rule steps_eq [OF steps_then_emit [OF assms(1) op_plain_entity [OF assms(3,2)]]])
  show "mangle (Node k NoPayload [c]) M = mangle c M \<bind> (\<lambda>M. Some (emit [CHR ''f'', o'] M))" for M
    using assms(3) by (elim insertE) (simp_all add: mangle_entity_kinds mangleChildNodes_def)
qed simp

lemma mangle_index_child: "mangle (Node K_Number (IndexPayload i) []) M = Some (emit (index_text i) M)"
  by (simp add: mangle_kinds mangleNumber_def getIndex_def mangleIndex_text)

lemma steps_closure:
  assumes "steps (mangle c) (size c) [] [x]" "pops_context c x" "steps (mangle t) (size t) [] [Ty t]" "i < 2147483648"
    "(o', k) \<in> {(CHR ''U'', K_ExplicitClosure), (CHR ''u'', K_ImplicitClosure)}"
  defines "e \<equiv> Node k NoPayload [c, Node K_Number (IndexPayload i) [], Ty t]"
  shows "steps (mangle e) (size e) [] [e]"
proof -
  have "steps (\<lambda>M. mangle c M \<bind> mangle t) (size c + size t) [] [Ty t, x]"
    using steps_bind [OF assms(1) steps_push [OF assms(3)]] by simp
  from steps_then_emit [OF this op_closure [OF assms(5,2,4)]] show ?thesis unfolding e_def
  proof (rule steps_eq)
    show "mangle (Node k NoPayload [c, Node K_Number (IndexPayload i) [], Ty t]) M =
        (mangle c M \<bind> mangle t) \<bind> (\<lambda>M. Some (emit (CHR ''f'' # o' # index_text i) M))" for M
      using assms(5) by (elim insertE) (simp_all add: mangle_entity_kinds mangleExplicitClosure_def
          mangleImplicitClosure_def mangleChildNode_def getNumChildren_def mangle_index_child numeral_2_eq_2)
  qed simp
qed

lemma steps_default_argument:
  assumes "steps (mangle c) (size c) [] [x]" "pops_context c x" "i < 2147483648"
  defines "e \<equiv> Node K_DefaultArgumentInitializer NoPayload [c, Node K_Number (IndexPayload i) []]"
  shows "steps (mangle e) (size e) [] [e]"
  unfolding e_def
  by (rule steps_eq [OF steps_then_emit [OF assms(1) op_default_argument [OF assms(2,3)]]])
    (simp_all add: mangle_entity_kinds mangleDefaultArgumentInitializer_def mangleChildNode_def getNumChildren_def
      mangle_index_child)

lemma steps_static:
  assumes "steps (mangle e) (size e) [] [e]" "isEntity (getKind e)"
  shows "steps (mangle (Node K_Static NoPayload [e])) (size (Node K_Static NoPayload [e])) [] [Node K_Static NoPayload [e]]"
  by (rule steps_eq [OF steps_then_emit [OF assms(1) op_static [OF assms(2)]]]) (simp_all add: mangle_entity_kinds)

end
