(* ===== verification/Type_Roundtrip.thy ===== *)
theory Type_Roundtrip
  imports Entity_Handlers
begin

text \<open>
  Types survive remangling and demangling. \<open>is_type\<close> describes the types: nominal types nested in
  modules, extensions and each other, standard and generic types, optionals, metatypes, reference
  storage, builtin types, generic parameters, tuples, functions and existentials. For each of them
  the remangler writes a text that the demangler reads as the same tree, whatever words and
  substitutions the two share on the way. \<open>entity\<close> describes the declarations: functions with argument
  labels, variables and subscripts with their accessors, constructors, closures, default arguments.
  Types and declarations nest: a local type has a function as its context.
\<close>

section \<open>Types and declarations\<close>

inductive ctx :: "node \<Rightarrow> node \<Rightarrow> bool" and is_type :: "node \<Rightarrow> bool" and entity :: "node \<Rightarrow> bool" where
  ctx_module: "module_ctx m x \<Longrightarrow> ctx m x"
| ctx_type: "is_type t \<Longrightarrow> isAnyGeneric (getKind t) \<Longrightarrow> ctx t (Ty t)"
| ctx_extension: "module_ctx m x \<Longrightarrow> is_type t \<Longrightarrow> isAnyGeneric (getKind t) \<Longrightarrow>
    ctx (Node K_Extension NoPayload [m, t]) (Node K_Extension NoPayload [m, t])"
| ctx_entity: "entity e \<Longrightarrow> ctx e e"
| type_nominal: "ctx c x \<Longrightarrow> decl_name n \<Longrightarrow> isSpecialized c = Some False \<Longrightarrow> \<not> standard_name k c n \<Longrightarrow>
    k \<in> {K_Class, K_Structure, K_Enum} \<Longrightarrow> is_type (Node k NoPayload [c, n])"
| type_standard: "(e, c, t) \<in> set standard_types \<Longrightarrow>
    is_type (Node (if e then K_Enum else K_Structure) NoPayload [Node K_Module (TextPayload ''Swift'') [], ident_node t])"
| type_other: "ctx c x \<Longrightarrow> decl_name n \<Longrightarrow> k \<in> {K_Protocol, K_TypeAlias} \<Longrightarrow> is_type (Node k NoPayload [c, n])"
| type_bound: "chain nd u ls \<Longrightarrow> is_type u \<Longrightarrow> is_nominal (getKind u) \<Longrightarrow> \<not> is_optional nd \<Longrightarrow>
    \<exists>ts \<in> set ls. ts \<noteq> [] \<Longrightarrow> \<forall>ts \<in> set ls. \<forall>t \<in> set ts. is_type t \<Longrightarrow> is_type nd"
| type_optional: "is_type t \<Longrightarrow> is_type (optional_type t)"
| type_wrapped: "is_type t \<Longrightarrow> k \<in> {K_Metatype, K_ExistentialMetatype, K_Weak, K_Unowned, K_Unmanaged, K_SILBoxType, K_DynamicSelf} \<Longrightarrow>
    is_type (Node k NoPayload [Ty t])"
| type_representation: "is_type t \<Longrightarrow> k \<in> {K_Metatype, K_ExistentialMetatype} \<Longrightarrow> r \<in> {''@thin'', ''@thick'', ''@objc_metatype''} \<Longrightarrow>
    is_type (Node k NoPayload [Node K_MetatypeRepresentation (TextPayload r) [], Ty t])"
| type_passing: "is_type t \<Longrightarrow> k \<in> {K_InOut, K_Shared} \<Longrightarrow> is_type (Node k NoPayload [t])"
| type_error: "is_type (Node K_ErrorType NoPayload [])"
| type_builtin: "builtin_name s \<Longrightarrow> is_type (Node K_BuiltinTypeName (TextPayload (''Builtin.'' @ s)) [])"
| type_param: "depth < 10000000 \<Longrightarrow> index < 2147483648 \<Longrightarrow> is_type (param_type depth index)"
| type_tuple: "\<forall>(v, l, t) \<in> set es. is_type t \<and> (case l of None \<Rightarrow> True | Some l \<Rightarrow> ident_ok l) \<Longrightarrow>
    is_type (Node K_Tuple NoPayload (map element_node es))"
| type_function: "is_type a \<Longrightarrow> is_type r \<Longrightarrow>
    k \<in> {K_FunctionType, K_ThinFunctionType, K_AutoClosureType, K_ObjCBlock, K_CFunctionPointer} \<Longrightarrow>
    is_type (function_node k b a r)"
| type_protocols: "\<forall>(c, x, n) \<in> set ps. ctx c x \<and> decl_name n \<Longrightarrow> is_type (protocols_node ps)"
| type_any_object: "\<forall>(c, x, n) \<in> set ps. ctx c x \<and> decl_name n \<Longrightarrow>
    is_type (Node K_ProtocolListWithAnyObject NoPayload [protocols_node ps])"
| type_with_class: "\<forall>(c, x, n) \<in> set ps. ctx c x \<and> decl_name n \<Longrightarrow> is_type t \<Longrightarrow>
    is_type (Node K_ProtocolListWithClass NoPayload [protocols_node ps, Ty t])"
| entity_function: "ctx c x \<Longrightarrow> decl_name n \<Longrightarrow> is_type a \<Longrightarrow> is_type r \<Longrightarrow> labels_ok ls \<Longrightarrow>
    labels_fit ls (function_node K_FunctionType b a r) \<Longrightarrow>
    entity (function_entity c n ls (function_node K_FunctionType b a r))"
| entity_variable: "ctx c x \<Longrightarrow> decl_name n \<Longrightarrow> is_type t \<Longrightarrow> labels_ok ls \<Longrightarrow> labels_fit ls t \<Longrightarrow>
    (code, k) \<in> set accessor_table \<Longrightarrow> entity (accessor_node k (variable_entity c n ls t))"
| entity_subscript: "ctx c x \<Longrightarrow> is_type t \<Longrightarrow> labels_ok ls \<Longrightarrow> labels_fit ls t \<Longrightarrow>
    \<forall>m. p = Some m \<longrightarrow> decl_name m \<and> getKind m = K_PrivateDeclName \<Longrightarrow>
    (code, k) \<in> set accessor_table \<Longrightarrow> entity (accessor_node k (member_entity K_Subscript c ls t p))"
| entity_constructor: "ctx c x \<Longrightarrow> is_type t \<Longrightarrow> labels_ok ls \<Longrightarrow> labels_fit ls t \<Longrightarrow>
    \<forall>m. p = Some m \<longrightarrow> decl_name m \<and> getKind m = K_PrivateDeclName \<Longrightarrow>
    k \<in> {K_Allocator, K_Constructor} \<Longrightarrow> entity (member_entity k c ls t p)"
| entity_plain: "ctx c x \<Longrightarrow> k \<in> {K_Deallocator, K_Destructor, K_IVarDestroyer, K_IVarInitializer, K_Initializer} \<Longrightarrow>
    entity (Node k NoPayload [c])"
| entity_closure: "ctx c x \<Longrightarrow> is_type t \<Longrightarrow> i < 2147483648 \<Longrightarrow> k \<in> {K_ExplicitClosure, K_ImplicitClosure} \<Longrightarrow>
    entity (Node k NoPayload [c, Node K_Number (IndexPayload i) [], Ty t])"
| entity_default_argument: "ctx c x \<Longrightarrow> i < 2147483648 \<Longrightarrow>
    entity (Node K_DefaultArgumentInitializer NoPayload [c, Node K_Number (IndexPayload i) []])"
| entity_static: "entity e \<Longrightarrow> entity (Node K_Static NoPayload [e])"


section \<open>Every type and every declaration takes one step\<close>

lemma entity_kind: "entity e \<Longrightarrow> isContext (getKind e) \<and> getKind e \<noteq> K_Module"
  by (cases rule: entity.cases) (auto simp: accessor_table_def accessor_node_def function_entity_def
    variable_entity_def member_entity_def isContext_def)

lemma ctx_kind:
  assumes "ctx c x"
  shows "getKind x \<noteq> K_EmptyList"
  using assms
proof (cases rule: ctx.cases)
  case ctx_module
  then show ?thesis using module_shape [of c x] by auto
next
  case ctx_entity
  then show ?thesis using entity_kind [of x] by (auto simp: isContext_def)
qed simp_all

lemma plain_shape: "getKind t \<notin> {K_FunctionType, K_DependentGenericType} \<Longrightarrow> function_shape t"
  by (simp add: function_shape_def)

lemma function_node_shape: "function_shape (function_node K_FunctionType b a r)"
  unfolding function_shape_def by (auto simp: function_node_def)

lemma chain_kind: "chain nd u ls \<Longrightarrow> is_nominal (getKind u) \<Longrightarrow> getKind nd \<notin> {K_FunctionType, K_DependentGenericType}"
  by (induction rule: chain.induct) (auto simp: is_nominal_def is_bound_generic_def)

lemma is_type_shape:
  assumes "is_type t"
  shows "function_shape t"
  using assms
proof (cases rule: is_type.cases)
  case (type_bound u ls)
  then show ?thesis using chain_kind plain_shape by blast
next
  case (type_function a r k b)
  show ?thesis
  proof (cases "k = K_FunctionType")
    case True
    with type_function(1) function_node_shape show ?thesis by simp
  next
    case False
    with type_function(4) have "k \<notin> {K_FunctionType, K_DependentGenericType}" by auto
    then show ?thesis using plain_shape [of t] type_function(1) by (simp add: function_node_def)
  qed
qed (use plain_shape in \<open>auto simp: optional_type_def param_type_def protocols_node_def\<close>)

lemma isContext_any: "isAnyGeneric k \<Longrightarrow> isContext k"
  by (auto simp: isAnyGeneric_def isContext_def)

lemma module_text: "module_ctx m x \<Longrightarrow> getText m \<noteq> None"
  by (induction rule: module_ctx.induct) (auto simp: getText_def)

lemma module_pops: "module_ctx m x \<Longrightarrow> pops_context m x"
  using module_shape pops_context_intros(1,2) by blast

lemma decl_name_text: "decl_name n \<Longrightarrow> getKind n = K_Identifier \<Longrightarrow> getText n \<noteq> None"
  by (induction rule: decl_name.induct) (auto simp: ident_node_def getText_def)

lemma no_unit_nominal:
  "k \<notin> {K_Tuple, K_Structure, K_Enum, K_Class} \<Longrightarrow> unit_ok (Node k p cs) \<and> \<not> is_nominal k"
  by (auto simp: unit_ok_def is_nominal_def)

lemma chain_named:
  assumes "chain nd u ls" "ls \<noteq> []" "is_nominal (getKind u)" "named u"
  shows "unit_ok nd \<and> (is_nominal (getKind nd) \<longrightarrow> named nd)"
  using assms(1)
proof cases
  case (chain_plain p v ls' k n)
  with assms(4) chain_module [OF chain_plain(4)] show ?thesis by (auto simp: named_def unit_ok_def)
next
  case (chain_bound p v ls' k bk ts n)
  then show ?thesis using bound_kinds [OF chain_bound(5)] by (auto simp: unit_ok_def)
qed (use assms nominal_kinds in auto)

lemma all_steps:
  "ctx c x \<Longrightarrow> steps (mangle c) (size c) [] [x] \<and> pops_context c x \<and> (getKind c = K_Module \<longrightarrow> getText c \<noteq> None)"
  "is_type t \<Longrightarrow> steps (mangle t) (size t) [] [Ty t] \<and> unit_ok t \<and> (is_nominal (getKind t) \<longrightarrow> named t)"
  "entity e \<Longrightarrow> steps (mangle e) (size e) [] [e]"
proof (induction rule: ctx_is_type_entity.inducts)
  case (ctx_module m x)
  then show ?case using steps_module module_pops module_text by blast
next
  case (ctx_type t)
  then show ?case using pops_context_intros(3) [of t] isContext_any [of "getKind t"] by (auto simp: isAnyGeneric_def)
next
  case (ctx_extension m x t)
  let ?e = "Node K_Extension NoPayload [m, t]"
  from module_shape [OF ctx_extension(1)] obtain p where
    p: "m = Node K_Module p []" "x = Node K_Identifier p [] \<or> x = Node K_Module p []" by blast
  have "steps (\<lambda>M. mangle t M \<bind> mangle m) (size t + size m) [] [x, Ty t]"
    using steps_bind [OF _ steps_push [OF steps_module [OF ctx_extension(1)]], of "mangle t"] ctx_extension by simp
  from steps_then_emit [OF this op_extension [OF ctx_extension(3) p(2)], folded p(1)]
  have "steps (mangle ?e) (size ?e) [] [?e]"
    by (rule steps_eq) (simp_all add: mangle_kinds mangleExtension_def mangleChildNode_def getNumChildren_def)
  moreover have "pops_context ?e ?e" by (rule pops_context_intros(4)) (simp_all add: isContext_def)
  ultimately show ?case by simp
next
  case (ctx_entity e)
  with entity_kind pops_context_intros(4) show ?case by simp
next
  case (type_nominal c x n k)
  then obtain o' where "(o', k) \<in> {(CHR ''C'', K_Class), (CHR ''V'', K_Structure), (CHR ''O'', K_Enum)}" by blast
  with type_nominal have "steps (mangle (Node k NoPayload [c, n])) (size (Node k NoPayload [c, n])) []
      [Ty (Node k NoPayload [c, n])]"
    by (intro steps_nominal) auto
  with type_nominal decl_name_text show ?case by (auto simp: unit_ok_def named_def)
next
  case (type_standard e c t)
  from steps_mono [OF steps_standard_type [OF this]] show ?case
    by (auto simp: unit_ok_def named_def getText_def ident_node_def)
next
  case (type_other c x n k)
  then obtain o' where o': "(o', k) \<in> {(CHR ''C'', K_Class), (CHR ''V'', K_Structure), (CHR ''O'', K_Enum),
     (CHR ''P'', K_Protocol), (CHR ''a'', K_TypeAlias)}" "mangle (Node k NoPayload [c, n]) M =
     mangleAnyGenericType mangle o' (Node k NoPayload [c, n]) M" for M
    using mangle_kinds(15,16) by (elim insertE) auto
  have "steps (mangle (Node k NoPayload [c, n])) (size (Node k NoPayload [c, n])) [] [Ty (Node k NoPayload [c, n])]"
    by (rule steps_eq [OF steps_any_generic [OF _ _ type_other(2) o'(1)] order_refl o'(2)])
      (use type_other not_standard in auto)
  moreover have "unit_ok (Node k NoPayload [c, n]) \<and> \<not> is_nominal k"
    using type_other(3) by (intro no_unit_nominal) auto
  ultimately show ?case by simp
next
  case (type_bound nd u ls)
  have "steps (mangle nd) (size nd) [] [Ty nd]"
    using type_bound by (intro steps_bound [of nd u ls]) auto
  moreover have "ls \<noteq> []" using type_bound(5) by auto
  with type_bound have "unit_ok nd \<and> (is_nominal (getKind nd) \<longrightarrow> named nd)" by (intro chain_named) auto
  ultimately show ?case by simp
next
  case (type_optional t)
  then show ?case using steps_optional no_unit_nominal by (simp add: optional_type_def)
next
  case (type_wrapped t k)
  moreover from type_wrapped(2) have "k \<notin> {K_Tuple, K_Structure, K_Enum, K_Class}" by auto
  ultimately show ?case using steps_wrapped [of t k] no_unit_nominal by simp
next
  case (type_representation t k r)
  moreover from type_representation(2) have "k \<notin> {K_Tuple, K_Structure, K_Enum, K_Class}" by auto
  ultimately show ?case using steps_representation [of t k r] no_unit_nominal by simp
next
  case (type_passing t k)
  moreover from type_passing(2) have "k \<notin> {K_Tuple, K_Structure, K_Enum, K_Class}" by auto
  ultimately show ?case using steps_passing [of t k] no_unit_nominal by simp
next
  case type_error
  have "steps (mangle (Node K_ErrorType NoPayload [])) (size (Node K_ErrorType NoPayload [])) []
      [Ty (Node K_ErrorType NoPayload [])]"
    by (rule steps_leaf [OF op_special(7)]) (simp add: mangle_type_kinds)
  then show ?case by (simp add: unit_ok_def is_nominal_def)
next
  case (type_builtin s)
  then show ?case using steps_builtin no_unit_nominal by simp
next
  case (type_param depth index)
  then show ?case using steps_param no_unit_nominal by (simp add: param_type_def)
next
  case (type_tuple es)
  then have "\<forall>(v, l, t) \<in> set es. steps (mangle t) (size t) [] [Ty t] \<and> (case l of None \<Rightarrow> True | Some l \<Rightarrow> ident_ok l)"
    by auto
  from steps_tuple [OF this] show ?case by (simp add: unit_ok_def is_nominal_def)
next
  case (type_function a r k b)
  moreover from type_function(3) have "k \<notin> {K_Tuple, K_Structure, K_Enum, K_Class}" by auto
  ultimately show ?case using steps_function [of a r k b] no_unit_nominal by (simp add: function_node_def)
next
  case (type_protocols ps)
  then have "\<forall>p \<in> set ps. protocol_steps p" by (auto simp: protocol_steps_def)
  from steps_protocols(1) [OF this] show ?case by (simp add: protocols_node_def unit_ok_def is_nominal_def)
next
  case (type_any_object ps)
  then have "\<forall>p \<in> set ps. protocol_steps p" by (auto simp: protocol_steps_def)
  from steps_protocols(2) [OF this refl] show ?case by (simp add: unit_ok_def is_nominal_def)
next
  case (type_with_class ps t)
  then have "\<forall>p \<in> set ps. protocol_steps p" by (auto simp: protocol_steps_def)
  from steps_protocols(3) [OF this refl] type_with_class show ?case by (simp add: unit_ok_def is_nominal_def)
next
  case (entity_function c x n a r ls b)
  then show ?case using steps_function_entity [of c x n a r ls b] by simp
next
  case (entity_variable c x n t ls code k)
  then show ?case using steps_variable [of c x n t ls code k] is_type_shape [of t] by simp
next
  case (entity_subscript c x t ls p code k)
  then show ?case using steps_subscript [of c x t ls p code k] is_type_shape [of t] ctx_kind [of c x] by simp
next
  case (entity_constructor c x t ls p k)
  then obtain o' where "(o', k) \<in> {(CHR ''C'', K_Allocator), (CHR ''c'', K_Constructor)}" by auto
  with entity_constructor show ?case
    using steps_constructor [of c x t ls p o' k] is_type_shape [of t] ctx_kind [of c x] by simp
next
  case (entity_plain c x k)
  from entity_plain.hyps(2) obtain o' where "(o', k) \<in> {(CHR ''D'', K_Deallocator), (CHR ''d'', K_Destructor),
      (CHR ''E'', K_IVarDestroyer), (CHR ''e'', K_IVarInitializer), (CHR ''i'', K_Initializer)}" by blast
  with entity_plain.IH show ?case using steps_plain_entity [of c x o' k] by blast
next
  case (entity_closure c x t i k)
  from entity_closure.hyps(4) obtain o' where "(o', k) \<in> {(CHR ''U'', K_ExplicitClosure), (CHR ''u'', K_ImplicitClosure)}" by auto
  with entity_closure.IH entity_closure.hyps(3) show ?case using steps_closure [of c x t i o' k] by blast
next
  case (entity_default_argument c x i)
  then show ?case using steps_default_argument [of c x i] by simp
next
  case (entity_static e)
  with entity_kind show ?case using steps_static [of e] by (simp add: isEntity_def)
qed

section \<open>Whole names\<close>

lemma new_remangler_fields [simp]:
  "Buffer new_remangler = []" "MWords new_remangler = []" "UsePunycode new_remangler" "RSubstitutions new_remangler = []"
  "lastNumSubsts (SubstMerging new_remangler) = 0"
  by (simp_all add: new_remangler_def new_merging_def)

definition start_view :: view where
  "start_view = \<lparr>stack = [], subs = [], vwords = []\<rparr>"

lemma sim_start: "sim h start_view [] (emit h new_remangler) start_view"
  by (rule sim_open [where pre = "[]"])
    (auto simp: start_view_def emit_def tables_def table_def stored_def)

text \<open>What a whole action writes is read from the start.\<close>

lemma steps_start:
  assumes "steps act b [] ys" "b < 2147483648"
  obtains M s v where "act (emit h new_remangler) = Some M" "Buffer M = h @ s" "reads s start_view v" "stack v = ys"
proof -
  have "stack start_view = [] @ []" "length ([] :: (node \<times> bool) list) + b < 2147483648"
    using assms(2) by (simp_all add: start_view_def)
  from stepsD [OF assms(1) sim_start this] obtain M v new where
    M: "act (emit h new_remangler) = Some M" "sim h start_view ([] @ new) M v" "stack v = ys @ []" by metis
  from sim_closed [OF M(2)] obtain s where "Buffer M = h @ s" "reads s start_view v" by metis
  with M that show ?thesis by auto
qed

lemma parse_reads:
  assumes "reads s start_view v" "view_of d = start_view" "rest d = s" "\<not> IsOldFunctionTypeMangling d"
  shows "\<exists>d'. parseAndPushNodes d = Some (True, d') \<and> NodeStack d' = stack v \<and> \<not> IsOldFunctionTypeMangling d'"
proof -
  from assms obtain d' where d': "parseAndPushNodes d = parseAndPushNodes d'" "view_of d' = v" "rest d' = []"
    "\<not> IsOldFunctionTypeMangling d'" unfolding reads_def by (metis append_Nil2)
  from d'(3) have "\<not> Pos d' < length (Text d')" by (simp add: rest_def)
  then have "parseAndPushNodes d' = Some (True, d')" by (subst parseAndPushNodes.simps) simp
  with d' show ?thesis by (auto simp: view_of_def)
qed

lemma init_view: "view_of (init s d) = start_view" "rest (init s d) = s"
  "IsOldFunctionTypeMangling (init s d) = IsOldFunctionTypeMangling d"
  by (simp_all add: init_def view_of_def start_view_def rest_def)

lemma type_name_roundtrip:
  assumes "is_type nd" "size nd < 2147483648" "\<not> IsOldFunctionTypeMangling d"
  shows "\<exists>s d'. mangleNode (Some (Ty nd)) = Some s \<and> demangleType s d = Some (Some (Ty nd), d')"
proof -
  have st: "steps (mangle nd) (size nd) [] [Ty nd]" using all_steps(2) [OF assms(1)] by blast
  obtain M s v where
    M: "mangle nd (emit [] new_remangler) = Some M" "Buffer M = [] @ s" "reads s start_view v" "stack v = [Ty nd]"
    by (rule steps_start [OF st assms(2)])
  have "emit [] new_remangler = new_remangler" by (simp add: emit_def)
  with M(1,2) have m: "mangleNode (Some (Ty nd)) = Some s" by (simp add: mangleNode_def)
  from parse_reads [OF M(3) init_view(1,2)] assms(3) obtain d' where
    "parseAndPushNodes (init s d) = Some (True, d')" "NodeStack d' = [Ty nd]" using M(4) by (auto simp: init_view)
  then have "demangleType s d = Some (Some (Ty nd), d'\<lparr>NodeStack := []\<rparr>)"
    by (simp add: demangleType_def popNode_def)
  with m show ?thesis by blast
qed

text \<open>\<open>(main.Foo) throws -> [main.Foo]\<close>\<close>

definition example_class :: node where
  "example_class = Node K_Class NoPayload [Node K_Module (TextPayload ''main'') [], ident_node ''Foo'']"

definition example_array :: node where
  "example_array = Node K_BoundGenericStructure NoPayload
     [Ty (Node K_Structure NoPayload [Node K_Module (TextPayload ''Swift'') [], ident_node ''Array'']),
      type_list [example_class]]"

definition example_type :: node where
  "example_type = function_node K_FunctionType True example_class example_array"

lemma example_idents: "ident_ok ''main''" "ident_ok ''Foo''"
proof -
  have "list_all (\<lambda>i. \<not> needsPunycodeEncoding i \<and> \<not> isDigit (hd i)) [''main'', ''Foo'']" by code_simp
  then show "ident_ok ''main''" "ident_ok ''Foo''" by (simp_all add: ident_ok_def)
qed

lemma root_unspecialized: "isSpecialized (Node K_Module p cs) = Some False"
  by (subst isSpecialized.simps) (simp add: is_nominal_def is_bound_generic_def)

lemma example_is_class: "is_type example_class"
proof -
  have "module_ctx (Node K_Module (TextPayload ''main'') []) (ident_node ''main'')"
    using example_idents(1) by (rule module_named) simp
  then show ?thesis unfolding example_class_def
    by (rule type_nominal [OF ctx_module name_identifier])
      (simp_all add: example_idents root_unspecialized standard_name_def)
qed

lemma example_is_array: "is_type example_array"
proof -
  let ?u = "Node K_Structure NoPayload [Node K_Module (TextPayload ''Swift'') [], ident_node ''Array'']"
  have u: "is_type ?u" using type_standard [of False "CHR ''a''" "''Array''"] by (simp add: standard_types_def)
  have "chain (Node K_Module p cs) (Node K_Module p cs) []" for p cs
    by (rule chain_root) (simp_all add: is_nominal_def is_bound_generic_def)
  then have "chain example_array ?u [[example_class]]" unfolding example_array_def
    by (rule chain_bound) simp_all
  then show ?thesis
    by (rule type_bound) (use u example_is_class in \<open>simp_all add: is_nominal_def is_optional_def example_array_def\<close>)
qed

lemma example_is_type: "is_type example_type"
  unfolding example_type_def using example_is_class example_is_array by (intro type_function) simp_all

end
