(* ===== verification/Symbol_Roundtrip.thy ===== *)
theory Symbol_Roundtrip
  imports Type_Roundtrip
begin

text \<open>
  Whole symbols survive remangling and demangling: a \<open>Global\<close> node over a declaration, a type, a type
  mangling, a piece of metadata of a type or a thunk, below any number of attributes such as
  \<open>@objc\<close>. The remangler writes the attributes after the declaration and in reverse order; the
  demangler collects them from the top of the stack.
\<close>

section \<open>Attributes, metadata and thunks\<close>

definition attribute_table :: "(string \<times> node_kind) list" where
  "attribute_table = [(''To'', K_ObjCAttribute), (''TO'', K_NonObjCAttribute), (''TD'', K_DynamicAttribute),
     (''Td'', K_DirectMethodReferenceAttribute), (''Tm'', K_MergedFunction)]"

definition metadata_table :: "(string \<times> node_kind) list" where
  "metadata_table = [(''N'', K_TypeMetadata), (''Ma'', K_TypeMetadataAccessFunction), (''MP'', K_GenericTypeMetadataPattern),
     (''Mf'', K_FullTypeMetadata), (''ML'', K_TypeMetadataLazyCache), (''Mm'', K_Metaclass),
     (''Mn'', K_NominalTypeDescriptor), (''Mo'', K_ClassMetadataBaseOffset), (''MB'', K_ReflectionMetadataBuiltinDescriptor),
     (''MF'', K_ReflectionMetadataFieldDescriptor), (''WV'', K_ValueWitnessTable), (''Wy'', K_OutlinedCopy),
     (''We'', K_OutlinedConsume), (''Wr'', K_OutlinedRetain), (''Ws'', K_OutlinedRelease)]"

definition thunk_table :: "(string \<times> node_kind) list" where
  "thunk_table = [(''Tc'', K_CurryThunk), (''Tj'', K_DispatchThunk)]"

lemma op_attribute:
  assumes "(s, k) \<in> set attribute_table"
  shows "op_text s [] [Node k NoPayload []]"
  using assms unfolding attribute_table_def list.set
  by (elim insertE) (simp_all, (rule op_textI; simp add: demangleOperator_def rest_two demangleThunkOrSpecialization_def
    numeral_2_eq_2)+)

lemma op_metadata:
  assumes "(s, k) \<in> set metadata_table"
  shows "op_text s [Ty t] [Node k NoPayload [Ty t]]"
  using assms unfolding metadata_table_def list.set
  by (elim insertE) (simp_all, (rule op_textI; simp add: demangleOperator_def rest_two rest_Cons(3) demangleMetatype_def
    demangleWitness_def createWithPoppedType_def popNode_kind_top build_defs numeral_2_eq_2)+)

lemma op_thunk:
  assumes "(s, k) \<in> set thunk_table" "isEntity (getKind e)"
  shows "op_text s [e] [Node k NoPayload [e]]"
  using assms unfolding thunk_table_def list.set
  by (elim insertE) (simp_all, (rule op_textI; simp add: demangleOperator_def rest_two demangleThunkOrSpecialization_def
    popNode_if_top build_defs numeral_2_eq_2)+)

lemma mangle_attribute:
  assumes "(s, k) \<in> set attribute_table"
  shows "mangle (Node k NoPayload []) M = Some (emit s M)"
  using assms unfolding attribute_table_def list.set
  by (elim insertE) (simp_all add: handlers_at mangleObjCAttribute_def mangleNonObjCAttribute_def mangleDynamicAttribute_def
    mangleDirectMethodReferenceAttribute_def mangleMergedFunction_def)

lemma mangle_wrapper:
  assumes "(s, k) \<in> set metadata_table \<union> set thunk_table"
  shows "mangle (Node k NoPayload [c]) M = mangle c M \<bind> (\<lambda>M. Some (emit s M))"
  using assms unfolding metadata_table_def thunk_table_def list.set Un_iff
  by (elim disjE insertE) (simp_all add: handlers_at mangleTypeMetadata_def mangleTypeMetadataAccessFunction_def
    mangleGenericTypeMetadataPattern_def mangleFullTypeMetadata_def mangleTypeMetadataLazyCache_def mangleMetaclass_def
    mangleNominalTypeDescriptor_def mangleClassMetadataBaseOffset_def mangleReflectionMetadataBuiltinDescriptor_def
    mangleReflectionMetadataFieldDescriptor_def mangleValueWitnessTable_def mangleOutlinedCopy_def
    mangleOutlinedConsume_def mangleOutlinedRetain_def mangleOutlinedRelease_def mangleCurryThunk_def mangleDispatchThunk_def
    mangleSingleChildNode_def mangleChildNodes_def mangleNodes_eta getNumChildren_def getFirstChild_def)


section \<open>What a symbol is about\<close>

text \<open>\<open>item c x\<close>: the child \<open>c\<close> of \<open>Global\<close> is read as the node \<open>x\<close> on the stack.\<close>

inductive item :: "node \<Rightarrow> node \<Rightarrow> bool" where
  item_type: "is_type t \<Longrightarrow> item t (Ty t)"
| item_entity: "entity e \<Longrightarrow> item e e"
| item_metadata: "is_type t \<Longrightarrow> (s, k) \<in> set metadata_table \<Longrightarrow> item (Node k NoPayload [Ty t]) (Node k NoPayload [Ty t])"
| item_thunk: "entity e \<Longrightarrow> (s, k) \<in> set thunk_table \<Longrightarrow> item (Node k NoPayload [e]) (Node k NoPayload [e])"
| item_mangling: "is_type t \<Longrightarrow> labels_ok ls \<Longrightarrow> ls = None \<or> labels_fit ls t \<Longrightarrow>
    item (Node K_TypeMangling NoPayload (label_children ls @ [Ty t])) (Node K_TypeMangling NoPayload (label_children ls @ [Ty t]))"

definition type_kinds :: "node_kind list" where
  "type_kinds = [K_Class, K_Structure, K_Enum, K_Protocol, K_TypeAlias, K_BoundGenericClass, K_BoundGenericStructure,
     K_BoundGenericEnum, K_Metatype, K_ExistentialMetatype, K_Weak, K_Unowned, K_Unmanaged, K_SILBoxType, K_DynamicSelf,
     K_InOut, K_Shared, K_ErrorType, K_BuiltinTypeName, K_DependentGenericParamType, K_Tuple, K_FunctionType,
     K_ThinFunctionType, K_AutoClosureType, K_ObjCBlock, K_CFunctionPointer, K_ProtocolList,
     K_ProtocolListWithAnyObject, K_ProtocolListWithClass]"

lemma chain_kinds: "chain nd u ls \<Longrightarrow> is_nominal (getKind u) \<Longrightarrow> is_nominal (getKind nd) \<or> is_bound_generic (getKind nd)"
  by (induction rule: chain.induct) (auto simp: is_nominal_def is_bound_generic_def)

lemma nominal_type_kinds: "is_nominal k \<or> is_bound_generic k \<Longrightarrow> k \<in> set type_kinds"
  by (auto simp: is_nominal_def is_bound_generic_def type_kinds_def)

lemma is_type_kinds:
  assumes "is_type t"
  shows "getKind t \<in> set type_kinds"
  using assms
proof (cases rule: is_type.cases)
  case (type_bound u ls)
  then show ?thesis using chain_kinds nominal_type_kinds by blast
qed (auto simp: type_kinds_def optional_type_def param_type_def protocols_node_def function_node_def)

lemma type_not_attribute: "is_type t \<Longrightarrow> \<not> isFunctionAttr (getKind t)"
  using is_type_kinds [of t] by (auto simp: type_kinds_def isFunctionAttr_def)

lemma context_not_attribute: "isContext k \<Longrightarrow> \<not> isFunctionAttr k"
  by (auto simp: isContext_def isFunctionAttr_def)

lemma table_kinds:
  "(s, k) \<in> set metadata_table \<Longrightarrow> \<not> isFunctionAttr k \<and> k \<noteq> K_Type"
  "(s, k) \<in> set thunk_table \<Longrightarrow> \<not> isFunctionAttr k \<and> k \<noteq> K_Type"
  by (auto simp: metadata_table_def thunk_table_def isFunctionAttr_def)

text \<open>The node on the stack and the child of \<open>Global\<close> that it becomes.\<close>

lemma item_nodes:
  assumes "item c x"
  shows "\<not> isFunctionAttr (getKind x)" "\<not> isFunctionAttr (getKind c)" "unwrap_types [x] = Some [c]"
proof -
  have "\<not> isFunctionAttr (getKind x) \<and> \<not> isFunctionAttr (getKind c) \<and> unwrap_types [x] = Some [c]"
    using assms
  proof cases
    case item_type
    then show ?thesis using type_not_attribute [of c] by (simp add: getFirstChild_def getNumChildren_def isFunctionAttr_def)
  next
    case item_entity
    then show ?thesis using entity_kind [of c] context_not_attribute [of "getKind c"] by (auto simp: isContext_def)
  next
    case (item_metadata t s k)
    then show ?thesis using table_kinds(1) [of s k] by simp
  next
    case (item_thunk e s k)
    then show ?thesis using table_kinds(2) [of s k] by simp
  qed (simp add: isFunctionAttr_def)
  then show "\<not> isFunctionAttr (getKind x)" "\<not> isFunctionAttr (getKind c)" "unwrap_types [x] = Some [c]" by simp_all
qed

section \<open>Reading a symbol\<close>

lemma op_mangling:
  assumes "is_type t" "ls = None \<or> labels_fit ls t" "stack v = Ty t # label_stack ls"
  shows "reads ''D'' v (v\<lparr>stack := [Node K_TypeMangling NoPayload (label_children ls @ [Ty t])]\<rparr>)"
proof (rule reads_operator)
  fix d r
  assume d: "view_of d = v" "rest d = ''D'' @ r" "\<not> IsOldFunctionTypeMangling d"
  let ?d = "(skip 1 d)\<lparr>NodeStack := label_stack ls\<rparr>"
  have s: "NodeStack d = Ty t # label_stack ls" using d(1) assms(3) by (auto simp: view_of_def)
  then have "popNode_kind K_Type (skip 1 d) = (Some (Ty t), ?d)" by (simp add: popNode_kind_top)
  moreover have "popFunctionParamLabels (Some (Ty t)) ?d = Some ((map_option label_list ls, Some (Ty t)), ?d\<lparr>NodeStack := []\<rparr>)"
    using assms(1,2) d(3) is_type_shape [of t] by (intro pop_labels_on) auto
  ultimately have "demangleOperator d = Some (Some (Node K_TypeMangling NoPayload (label_children ls @ [Ty t])),
      (skip 1 d)\<lparr>NodeStack := []\<rparr>)"
    using d(2) by (cases ls) (simp_all add: demangleOperator_def rest_Cons(3) demangleTypeMangling_def label_children_def build_defs)
  then show "\<exists>x d'. demangleOperator d = Some (Some x, d') \<and>
      view_of (pushNode x d') = v\<lparr>stack := [Node K_TypeMangling NoPayload (label_children ls @ [Ty t])]\<rparr> \<and> rest d' = r \<and>
      \<not> IsOldFunctionTypeMangling d'"
    using d rest_skip1 [of d "CHR ''D''" r] by (auto simp: view_of_def pushNode_def skip_def rest_def)
qed simp

text \<open>What has been written after the prefix, and the stack when it has been read.\<close>

definition written :: "remangler \<Rightarrow> node list \<Rightarrow> bool" where
  "written M xs \<longleftrightarrow> (\<exists>s v. Buffer M = ''$S'' @ s \<and> reads s start_view v \<and> stack v = xs)"

lemma written_steps:
  assumes "steps act b [] ys" "b < 2147483648"
  shows "\<exists>M. act (emit ''$S'' new_remangler) = Some M \<and> written M ys"
  using assms steps_start [of act b ys "''$S''"] unfolding written_def by metis

lemma written_emit:
  assumes "written M xs" "\<And>v. stack v = xs \<Longrightarrow> reads s v (v\<lparr>stack := ys\<rparr>)"
  shows "written (emit s M) ys"
proof -
  from assms(1) obtain t v where t: "Buffer M = ''$S'' @ t" "reads t start_view v" "stack v = xs"
    unfolding written_def by blast
  have "Buffer (emit s M) = ''$S'' @ t @ s" "reads (t @ s) start_view (v\<lparr>stack := ys\<rparr>)" "stack (v\<lparr>stack := ys\<rparr>) = ys"
    using t reads_append [OF t(2) assms(2) [OF t(3)]] by (simp_all add: emit_def)
  then show ?thesis unfolding written_def by blast
qed

lemma item_written:
  assumes "item c x" "size c < 2147483648"
  shows "\<exists>M. mangle c (emit ''$S'' new_remangler) = Some M \<and> written M [x]"
  using assms(1)
proof cases
  case item_type
  then show ?thesis using assms(2) all_steps(2) [of c] by (intro written_steps [of _ "size c"]) auto
next
  case item_entity
  then show ?thesis using assms(2) all_steps(3) [of c] by (intro written_steps [of _ "size c"]) auto
next
  case (item_metadata t s k)
  have "steps (mangle c) (size c) [] [x]" unfolding item_metadata(1,2)
    by (rule steps_eq [OF steps_then_emit [OF _ op_metadata [OF item_metadata(4)]], of "mangle t" "size t"])
      (use all_steps(2) [OF item_metadata(3)] mangle_wrapper [of s k "Ty t"] item_metadata(4) in \<open>simp_all add: mangle_type_kinds\<close>)
  then show ?thesis using assms(2) by (rule written_steps)
next
  case (item_thunk e s k)
  have "isEntity (getKind e)" using entity_kind [OF item_thunk(3)] by (simp add: isEntity_def)
  from op_thunk [OF item_thunk(4) this]
  have "steps (mangle c) (size c) [] [x]" unfolding item_thunk(1,2)
    by (rule steps_eq [OF steps_then_emit, of "mangle e" "size e", rotated])
      (use all_steps(3) [OF item_thunk(3)] mangle_wrapper [of s k e] item_thunk(4) in simp_all)
  then show ?thesis using assms(2) by (rule written_steps)
next
  case (item_mangling t ls)
  have "steps (\<lambda>M. mangleNodes mangle (label_children ls) M \<bind> mangle t) (sum_list (map size (label_children ls)) + size t) []
      ([Ty t] @ label_stack ls)"
    using steps_bind [OF steps_labels [OF item_mangling(4)] steps_push] all_steps(2) [OF item_mangling(3)] by blast
  from written_steps [OF this] assms(2) item_mangling(1) obtain M where
    M: "mangleNodes mangle (label_children ls) (emit ''$S'' new_remangler) \<bind> mangle t = Some M"
    "written M (Ty t # label_stack ls)" by (auto simp: size_list_conv_sum_list)
  have "mangle c (emit ''$S'' new_remangler) = Some (emit ''D'' M)"
    using M(1) by (simp add: item_mangling(1) handlers_at mangleTypeMangling_def mangleChildNodes_def mangleNodes_append
      mangleNodes_eta mangle_type_kinds split: bind_splits)
  moreover have "written (emit ''D'' M) [x]"
    unfolding item_mangling(2) by (rule written_emit [OF M(2)]) (rule op_mangling [OF item_mangling(3,5)])
  ultimately show ?thesis by blast
qed

lemma attributes_written:
  assumes "\<forall>a \<in> set as. \<exists>s k. a = Node k NoPayload [] \<and> (s, k) \<in> set attribute_table" "written M xs"
  shows "\<exists>M'. mangleNodes mangle as M = Some M' \<and> written M' (rev as @ xs)"
  using assms
proof (induction as arbitrary: M xs)
  case (Cons a as)
  then obtain s k where a: "a = Node k NoPayload []" "(s, k) \<in> set attribute_table" by auto
  have "written (emit s M) (a # xs)"
    by (rule written_emit [OF Cons.prems(2)]) (use op_attribute [OF a(2)] a(1) in \<open>auto simp: op_text_def\<close>)
  from Cons.IH [OF _ this] Cons.prems(1) obtain M' where
    "mangleNodes mangle as (emit s M) = Some M'" "written M' (rev as @ a # xs)" by auto
  then show ?case using mangle_attribute [OF a(2)] a(1) by simp
qed simp

lemma global_attributes:
  assumes "\<forall>a \<in> set as. mangled_after_entity (getKind a)" "\<not> mangled_after_entity (getKind c)"
  shows "global_children f earlier flag (as @ [c]) M =
    f c M \<bind> (\<lambda>M. if flag \<or> as \<noteq> [] then mangleNodes f (rev as @ earlier) M else Some M)"
  using assms by (induction as arbitrary: earlier flag) (auto split: bind_splits)

lemma attribute_kinds:
  "(s, k) \<in> set attribute_table \<Longrightarrow> mangled_after_entity k \<and> isFunctionAttr k \<and>
     k \<noteq> K_PartialApplyForwarder \<and> k \<noteq> K_PartialApplyObjCForwarder"
  by (auto simp: attribute_table_def mangled_after_entity_def isFunctionAttr_def)

lemma after_entity_attribute: "mangled_after_entity k \<Longrightarrow> isFunctionAttr k"
  by (auto simp: mangled_after_entity_def isFunctionAttr_def)

lemma attach_plain:
  "\<forall>a \<in> set as. getKind a \<noteq> K_PartialApplyForwarder \<and> getKind a \<noteq> K_PartialApplyObjCForwarder \<Longrightarrow>
   attach_attributes as ns = as @ ns"
  by (induction as) auto

section \<open>The round trip\<close>

abbreviation attributes :: "node list \<Rightarrow> bool" where
  "attributes as \<equiv> \<forall>a \<in> set as. \<exists>s k. a = Node k NoPayload [] \<and> (s, k) \<in> set attribute_table"

lemma symbol_written:
  assumes "attributes as" "item c x" "size c < 2147483648"
  shows "\<exists>M. mangle (Node K_Global NoPayload (as @ [c])) new_remangler = Some M \<and> written M (as @ [x])"
proof -
  from item_written [OF assms(2,3)] obtain M where
    M: "mangle c (emit ''$S'' new_remangler) = Some M" "written M [x]" by blast
  from attributes_written [of "rev as" M "[x]"] assms(1) M(2) obtain M' where
    M': "mangleNodes mangle (rev as) M = Some M'" "written M' (as @ [x])" by auto
  have "\<forall>a \<in> set as. mangled_after_entity (getKind a)" "\<not> mangled_after_entity (getKind c)"
    using assms(1) attribute_kinds item_nodes(2) [OF assms(2)] after_entity_attribute by auto
  from global_attributes [OF this]
  have "mangle (Node K_Global NoPayload (as @ [c])) new_remangler = Some M'"
    using M M' by (cases "as = []") (simp_all add: handlers_at mangleGlobal_def)
  with M'(2) show ?thesis by blast
qed

lemma demangle_written:
  assumes "written M (as @ [x])" "attributes as" "item c x"
  shows "\<exists>d'. demangleSymbol (Buffer M) d = Some (Some (Node K_Global NoPayload (as @ [c])), d')"
proof -
  from assms(1) obtain s v where s: "Buffer M = ''$S'' @ s" "reads s start_view v" "stack v = as @ [x]"
    unfolding written_def by blast
  let ?d = "(init (Buffer M) d)\<lparr>IsOldFunctionTypeMangling := False, Pos := 2\<rparr>"
  have "view_of ?d = start_view" "rest ?d = s" "\<not> IsOldFunctionTypeMangling ?d"
    using s(1) by (simp_all add: init_def view_of_def start_view_def rest_def)
  from parse_reads [OF s(2) this] s(3) obtain d' where
    d': "parseAndPushNodes ?d = Some (True, d')" "NodeStack d' = as @ [x]" by auto
  have "isFunctionAttr (getKind a)" if "a \<in> set as" for a using that assms(2) attribute_kinds by auto
  then have "takeWhile (\<lambda>n. isFunctionAttr (getKind n)) (as @ [x]) = as"
    "dropWhile (\<lambda>n. isFunctionAttr (getKind n)) (as @ [x]) = [x]"
    using item_nodes(1) [OF assms(3)] by (simp_all add: takeWhile_append2 dropWhile_append2)
  moreover have "attach_attributes as [c] = as @ [c]"
    using assms(2) attribute_kinds by (intro attach_plain) auto
  moreover have "nextIf_str ''_Tt'' (init (Buffer M) d) = (False, init (Buffer M) d)"
    "getManglingPrefixLength (Buffer M) = Some 2" "\<not> isOldFunctionTypeMangling (Buffer M)"
    using s(1) by (simp_all add: nextIf_str_def init_def getManglingPrefixLength_def isOldFunctionTypeMangling_def)
  moreover have "Pos (init (Buffer M) d) = 0" by (simp add: init_def)
  ultimately show ?thesis
    using d' item_nodes(3) [OF assms(3)] by (simp add: demangleSymbol_def getNumChildren_def numeral_2_eq_2 del: unwrap_types.simps)
qed

lemma symbol_name_roundtrip:
  assumes "attributes as" "item c x" "size c < 2147483648"
  shows "\<exists>s d'. mangleNode (Some (Node K_Global NoPayload (as @ [c]))) = Some s \<and>
    demangleSymbol s d = Some (Some (Node K_Global NoPayload (as @ [c])), d')"
proof -
  from symbol_written [OF assms] obtain M where
    M: "mangle (Node K_Global NoPayload (as @ [c])) new_remangler = Some M" "written M (as @ [x])" by blast
  from demangle_written [OF M(2) assms(1,2)] obtain d' where
    "demangleSymbol (Buffer M) d = Some (Some (Node K_Global NoPayload (as @ [c])), d')" by blast
  with M(1) show ?thesis by (simp add: mangleNode_def)
qed

text \<open>\<open>@objc main.foo(bar: main.Foo) throws -> [main.Foo]\<close>\<close>

definition example_function :: node where
  "example_function = function_entity (Node K_Module (TextPayload ''main'') []) (ident_node ''foo'') (Some [Some ''bar'']) example_type"

lemma example_function_entity: "entity example_function"
proof -
  have "list_all (\<lambda>i. \<not> needsPunycodeEncoding i \<and> \<not> isDigit (hd i)) [''foo'', ''bar'']" by code_simp
  then have names: "ident_ok ''foo''" "ident_ok ''bar''" by (simp_all add: ident_ok_def)
  have "module_ctx (Node K_Module (TextPayload ''main'') []) (ident_node ''main'')"
    using example_idents(1) by (rule module_named) simp
  moreover have "labels_ok (Some [Some ''bar''])" using names(2) by (simp add: labels_ok_def)
  moreover have "arity example_class = 1" by (simp add: arity_def example_class_def)
  then have "labels_fit (Some [Some ''bar'']) example_type"
    unfolding labels_fit_def example_type_def by auto
  ultimately show ?thesis unfolding example_function_def example_type_def
    using names(1) example_is_class example_is_array
    by (intro entity_function ctx_module name_identifier) auto
qed

end
