(* ===== verification/Old_Demangler_Source.thy ===== *)
theory Old_Demangler_Source
  imports Demangler
begin

text \<open>
  The reader of the old mangling scheme (prefix \<open>_T\<close>), \<open>OldDemangler.cpp\<close>: \<open>class NameSource\<close>, the
  substitution table and the parts of the grammar without recursion.

  A parser takes the state and yields an \<open>outcome\<close>: \<open>Got x d\<close> with a result, \<open>Null d\<close> for a null
  pointer or \<open>false\<close> (the callers look at the state even then), \<open>Trap\<close> for a failed assertion (such as
  reading a character at the end of the text), and \<open>Diverged\<close> for a loop that does not end.
\<close>

section \<open>State and outcomes\<close>

record old_state =
  OSubstitutions :: "node list"
  Mangled :: string

datatype 'a outcome = Trap | Diverged | Null old_state | Got 'a old_state

type_synonym 'a parser = "old_state \<Rightarrow> 'a outcome"

definition ret :: "'a \<Rightarrow> 'a parser" where
  "ret x d = Got x d"

definition fail :: "'a parser" where
  "fail d = Null d"

text \<open>\<open>DEMANGLE_CHILD_OR_RETURN\<close>: a null result is passed on.\<close>

definition child :: "'a parser \<Rightarrow> ('a \<Rightarrow> 'b parser) \<Rightarrow> 'b parser" where
  "child p k d = (case p d of Trap \<Rightarrow> Trap | Diverged \<Rightarrow> Diverged | Null d' \<Rightarrow> Null d' | Got x d' \<Rightarrow> k x d')"

text \<open>An operation on nodes whose assertion may fail.\<close>

definition deref :: "'a option \<Rightarrow> ('a \<Rightarrow> 'b parser) \<Rightarrow> 'b parser" where
  "deref x k d = (case x of None \<Rightarrow> Trap | Some y \<Rightarrow> k y d)"

section \<open>Reading characters\<close>

text \<open>\<open>if (Mangled.isEmpty()) p else q\<close>\<close>

definition at_end :: "'a parser \<Rightarrow> 'a parser \<Rightarrow> 'a parser" where
  "at_end p q d = (if Mangled d = [] then p d else q d)"

text \<open>\<open>Mangled.peek()\<close> and \<open>Mangled.next()\<close>\<close>

definition peek_char :: "(char \<Rightarrow> 'a parser) \<Rightarrow> 'a parser" where
  "peek_char k d = (case Mangled d of [] \<Rightarrow> Trap | c # cs \<Rightarrow> k c d)"

definition next_char :: "(char \<Rightarrow> 'a parser) \<Rightarrow> 'a parser" where
  "next_char k d = (case Mangled d of [] \<Rightarrow> Trap | c # cs \<Rightarrow> k c (d\<lparr>Mangled := cs\<rparr>))"

definition starts_with :: "string \<Rightarrow> string \<Rightarrow> bool" where
  "starts_with t s \<longleftrightarrow> take (length t) s = t"

definition advanceOffset :: "nat \<Rightarrow> old_state \<Rightarrow> old_state" where
  "advanceOffset n d = d\<lparr>Mangled := drop n (Mangled d)\<rparr>"

text \<open>\<open>if (Mangled.nextIf(t)) p else q\<close>, and a chain of such tests.\<close>

definition next_if :: "string \<Rightarrow> 'a parser \<Rightarrow> 'a parser \<Rightarrow> 'a parser" where
  "next_if t p q d = (if starts_with t (Mangled d) then p (advanceOffset (length t) d) else q d)"

fun first_of :: "(string \<times> 'a parser) list \<Rightarrow> 'a parser \<Rightarrow> 'a parser" where
  "first_of [] q = q"
| "first_of ((t, p) # ps) q = next_if t p (first_of ps q)"

abbreviation require :: "string \<Rightarrow> 'a parser \<Rightarrow> 'a parser" where
  "require t p \<equiv> next_if t p fail"

text \<open>\<open>while (!Mangled.nextIf(t)) acc = body acc\<close>: each round of a loop that ends consumes text.\<close>

fun while_not_fuel :: "nat \<Rightarrow> string \<Rightarrow> ('a \<Rightarrow> 'a parser) \<Rightarrow> 'a \<Rightarrow> 'a parser" where
  "while_not_fuel 0 t body acc d = Diverged"
| "while_not_fuel (Suc n) t body acc d =
     next_if t (ret acc) (child (body acc) (while_not_fuel n t body)) d"

definition while_not :: "string \<Rightarrow> ('a \<Rightarrow> 'a parser) \<Rightarrow> 'a \<Rightarrow> 'a parser" where
  "while_not t body acc d = while_not_fuel (Suc (length (Mangled d))) t body acc d"

definition readUntil :: "char \<Rightarrow> string parser" where
  "readUntil c d =
     (let Rest = dropWhile (\<lambda>x. x \<noteq> c) (Mangled d) in
      if Rest = [] then Null (d\<lparr>Mangled := []\<rparr>)
      else Got (takeWhile (\<lambda>x. x \<noteq> c) (Mangled d)) (d\<lparr>Mangled := Rest\<rparr>))"

section \<open>Classes of characters\<close>

definition isStartOfIdentifier :: "char \<Rightarrow> bool" where
  "isStartOfIdentifier c \<longleftrightarrow> isDigit c \<or> c = CHR ''o''"

definition isStartOfNominalType :: "char \<Rightarrow> bool" where
  "isStartOfNominalType c \<longleftrightarrow> c \<in> set ''CVO''"

definition isStartOfEntity :: "char \<Rightarrow> bool" where
  "isStartOfEntity c \<longleftrightarrow> c \<in> set ''FIvPsZ'' \<or> isStartOfNominalType c"

definition nominalTypeMarkerToNodeKind :: "char \<Rightarrow> node_kind" where
  "nominalTypeMarkerToNodeKind c =
     (if c = CHR ''C'' then K_Class
      else if c = CHR ''V'' then K_Structure
      else if c = CHR ''O'' then K_Enum
      else K_Identifier)"

section \<open>Numbers\<close>

text \<open>\<open>Node::IndexType\<close> is \<open>uint64_t\<close>.\<close>

definition index_type :: "nat \<Rightarrow> nat" where
  "index_type n = n mod 18446744073709551616"

definition SIZE_MAX :: nat where
  "SIZE_MAX = 18446744073709551615"

fun natural_digits :: "nat \<Rightarrow> string \<Rightarrow> nat \<times> string" where
  "natural_digits num [] = (num, [])"
| "natural_digits num (c # cs) =
     (if isDigit c then natural_digits (index_type (10 * num + (ord c - 48))) cs else (num, c # cs))"

definition demangleNatural_old :: "nat parser" where
  "demangleNatural_old =
     at_end fail (next_char (\<lambda>c.
       if \<not> isDigit c then fail
       else (\<lambda>d. let (num, Rest) = natural_digits (ord c - 48) (Mangled d) in Got num (d\<lparr>Mangled := Rest\<rparr>))))"

definition demangleBuiltinSize_old :: "nat parser" where
  "demangleBuiltinSize_old = child demangleNatural_old (\<lambda>num. require ''_'' (ret num))"

definition demangleIndex_old :: "nat parser" where
  "demangleIndex_old =
     next_if ''_'' (ret 0)
       (child demangleNatural_old (\<lambda>natural. require ''_'' (ret (index_type (natural + 1)))))"

definition demangleIndexAsNode_old :: "node parser" where
  "demangleIndexAsNode_old = child demangleIndex_old (\<lambda>index. ret (createNodeIndex K_Number index))"

text \<open>\<open>Directness::Direct\<close> is 0, \<open>Directness::Indirect\<close> is 1.\<close>

definition demangleDirectness_old :: "nat parser" where
  "demangleDirectness_old = first_of [(''d'', ret 0), (''i'', ret 1)] fail"

definition demangleValueWitnessKind_old :: "nat parser" where
  "demangleValueWitnessKind_old =
     at_end fail (next_char (\<lambda>c0. at_end fail (next_char (\<lambda>c1.
       let Kind = decodeValueWitnessKind [c0, c1] in if Kind < 0 then fail else ret (nat Kind)))))"

section \<open>Identifiers\<close>

definition advance_slice :: "nat \<Rightarrow> string parser" where
  "advance_slice n d = (if n \<le> length (Mangled d) then Got (take n (Mangled d)) (advanceOffset n d) else Null d)"

text \<open>The result of \<open>decode\<close>: the empty string when Punycode decoding fails.\<close>

definition decode_identifier :: "bool \<Rightarrow> string \<Rightarrow> string option" where
  "decode_identifier isPunycoded s =
     (if \<not> isPunycoded then Some s
      else map_option (\<lambda>(ok, decodeBuffer). if ok then decodeBuffer else []) (decodePunycodeUTF8 s))"

definition identifier_text :: "bool \<Rightarrow> bool \<Rightarrow> node_kind \<Rightarrow> node parser" where
  "identifier_text isPunycoded isOperator kind =
     child demangleNatural_old (\<lambda>length.
     child (advance_slice length) (\<lambda>identifier.
     deref (decode_identifier isPunycoded identifier) (\<lambda>identifier.
       if identifier = [] then fail
       else if isOperator then
         (case demangle_op_chars identifier of None \<Rightarrow> fail | Some t \<Rightarrow> ret (createNodeText kind t))
       else ret (createNodeText kind identifier))))"

definition identifier_operator :: "bool \<Rightarrow> node_kind option \<Rightarrow> node parser" where
  "identifier_operator isPunycoded kind =
     next_if ''o''
       (if kind \<noteq> None then fail
        else next_char (\<lambda>op_mode.
          if op_mode = CHR ''p'' then identifier_text isPunycoded True K_PrefixOperator
          else if op_mode = CHR ''P'' then identifier_text isPunycoded True K_PostfixOperator
          else if op_mode = CHR ''i'' then identifier_text isPunycoded True K_InfixOperator
          else fail))
       (identifier_text isPunycoded False (case kind of None \<Rightarrow> K_Identifier | Some k \<Rightarrow> k))"

definition demangleIdentifier_old :: "node_kind option \<Rightarrow> node parser" where
  "demangleIdentifier_old kind =
     at_end fail (next_if ''X'' (identifier_operator True kind) (identifier_operator False kind))"

definition demangleDeclName_old :: "node parser" where
  "demangleDeclName_old =
     first_of
      [(''L'', child demangleIndexAsNode_old (\<lambda>discriminator.
               child (demangleIdentifier_old None) (\<lambda>name.
               ret (Node K_LocalDeclName NoPayload [discriminator, name])))),
       (''P'', child (demangleIdentifier_old None) (\<lambda>discriminator.
               child (demangleIdentifier_old None) (\<lambda>name.
               ret (Node K_PrivateDeclName NoPayload [discriminator, name]))))]
      (demangleIdentifier_old None)"

section \<open>Substitutions\<close>

definition push_substitution :: "node \<Rightarrow> node parser" where
  "push_substitution n d = Got n (d\<lparr>OSubstitutions := OSubstitutions d @ [n]\<rparr>)"

definition createSwiftType_old :: "node_kind \<Rightarrow> string \<Rightarrow> node" where
  "createSwiftType_old typeKind name =
     Node typeKind NoPayload [createNodeText K_Module ''Swift'', createNodeText K_Identifier name]"

definition old_standard_types :: "(string \<times> node) list" where
  "old_standard_types =
     [(''o'', createNodeText K_Module ''__C''),
      (''C'', createNodeText K_Module ''__C_Synthesized''),
      (''a'', createSwiftType_old K_Structure ''Array''),
      (''b'', createSwiftType_old K_Structure ''Bool''),
      (''c'', createSwiftType_old K_Structure ''UnicodeScalar''),
      (''d'', createSwiftType_old K_Structure ''Double''),
      (''f'', createSwiftType_old K_Structure ''Float''),
      (''i'', createSwiftType_old K_Structure ''Int''),
      (''V'', createSwiftType_old K_Structure ''UnsafeRawPointer''),
      (''v'', createSwiftType_old K_Structure ''UnsafeMutableRawPointer''),
      (''P'', createSwiftType_old K_Structure ''UnsafePointer''),
      (''p'', createSwiftType_old K_Structure ''UnsafeMutablePointer''),
      (''q'', createSwiftType_old K_Enum ''Optional''),
      (''Q'', createSwiftType_old K_Enum ''ImplicitlyUnwrappedOptional''),
      (''R'', createSwiftType_old K_Structure ''UnsafeBufferPointer''),
      (''r'', createSwiftType_old K_Structure ''UnsafeMutableBufferPointer''),
      (''S'', createSwiftType_old K_Structure ''String''),
      (''u'', createSwiftType_old K_Structure ''UInt'')]"

definition substitution_at :: "nat \<Rightarrow> node parser" where
  "substitution_at index_sub d =
     (if index_sub \<ge> length (OSubstitutions d) then Null d else Got (OSubstitutions d ! index_sub) d)"

definition demangleSubstitutionIndex_old :: "node parser" where
  "demangleSubstitutionIndex_old =
     at_end fail
      (first_of (map (\<lambda>(t, n). (t, ret n)) old_standard_types)
        (child demangleIndex_old substitution_at))"

definition demangleModule_old :: "node parser" where
  "demangleModule_old =
     first_of
      [(''s'', ret (createNodeText K_Module ''Swift'')),
       (''S'', child demangleSubstitutionIndex_old (\<lambda>module.
               if getKind module \<noteq> K_Module then fail else ret module))]
      (child (demangleIdentifier_old (Some K_Module)) push_substitution)"

section \<open>Generic parameters\<close>

text \<open>\<open>archetypeName\<close> of \<open>NodePrinter.cpp\<close>\<close>

fun archetype_letters :: "nat \<Rightarrow> string" where
  "archetype_letters index =
     char_of (65 + index mod 26) # (if index div 26 = 0 then [] else archetype_letters (index div 26))"

declare archetype_letters.simps [simp del]

definition archetypeName :: "nat \<Rightarrow> nat \<Rightarrow> string" where
  "archetypeName index depth = archetype_letters index @ (if depth \<noteq> 0 then decimal depth else [])"

definition getDependentGenericParamType_old :: "nat \<Rightarrow> nat \<Rightarrow> node" where
  "getDependentGenericParamType_old depth index =
     (let depth = to_unsigned depth; index = to_unsigned index in
      Node K_DependentGenericParamType (TextPayload (archetypeName index depth))
        [createNodeIndex K_Index depth, createNodeIndex K_Index index])"

definition demangleGenericParamIndex_old :: "node parser" where
  "demangleGenericParamIndex_old =
     first_of
      [(''d'', child demangleIndex_old (\<lambda>depth. child demangleIndex_old (\<lambda>index.
               ret (getDependentGenericParamType_old (index_type (depth + 1)) index)))),
       (''x'', ret (getDependentGenericParamType_old 0 0))]
      (child demangleIndex_old (\<lambda>index.
         ret (getDependentGenericParamType_old 0 (index_type (index + 1)))))"

definition demangleMetatypeRepresentation_old :: "node parser" where
  "demangleMetatypeRepresentation_old =
     first_of
      [(''t'', ret (createNodeText K_MetatypeRepresentation ''@thin'')),
       (''T'', ret (createNodeText K_MetatypeRepresentation ''@thick'')),
       (''o'', ret (createNodeText K_MetatypeRepresentation ''@objc_metatype''))] fail"

end
