(* ===== verification/Old_Demangler.thy ===== *)
theory Old_Demangler
  imports Old_Demangler_Source
begin

text \<open>
  The recursive part of \<open>OldDemangler.cpp\<close>. Every cycle of calls runs through one of four functions,
  which are the constructors of \<open>call\<close>; an operation takes the function \<open>rec\<close> for these calls as its
  argument, and \<open>old_parse\<close> ties the knot with a number of nested calls as fuel. Each nested call has
  consumed text before, so the length of the name is enough.
\<close>

datatype call = TypeImplCall | ContextCall | ArchetypeTypeCall | GlobalCall

type_synonym calls = "call \<Rightarrow> node parser"

abbreviation node_of :: "node_kind \<Rightarrow> node list \<Rightarrow> node parser" where
  "node_of k cs \<equiv> ret (Node k NoPayload cs)"

section \<open>Types and contexts\<close>

definition demangleType_old :: "calls \<Rightarrow> node parser" where
  "demangleType_old rec = child (rec TypeImplCall) (\<lambda>type. node_of K_Type [type])"

definition wrap_type :: "node_kind \<Rightarrow> calls \<Rightarrow> node parser" where
  "wrap_type kind rec = child (demangleType_old rec) (\<lambda>type. node_of kind [type])"

definition demangleDeclarationName_old :: "calls \<Rightarrow> node_kind \<Rightarrow> node parser" where
  "demangleDeclarationName_old rec kind =
     child (rec ContextCall) (\<lambda>context.
     child demangleDeclName_old (\<lambda>name.
     push_substitution (Node kind NoPayload [context, name])))"

section \<open>Protocols\<close>

definition demangleProtocolNameGivenContext_old :: "node \<Rightarrow> node parser" where
  "demangleProtocolNameGivenContext_old context =
     child demangleDeclName_old (\<lambda>name. push_substitution (Node K_Protocol NoPayload [context, name]))"

definition demangleProtocolNameImpl_old :: "calls \<Rightarrow> node parser" where
  "demangleProtocolNameImpl_old rec =
     first_of
      [(''S'', child demangleSubstitutionIndex_old (\<lambda>sub.
               if getKind sub = K_Protocol then ret sub
               else if getKind sub \<noteq> K_Module then fail
               else demangleProtocolNameGivenContext_old sub)),
       (''s'', demangleProtocolNameGivenContext_old (createNodeText K_Module ''Swift''))]
      (demangleDeclarationName_old rec K_Protocol)"

definition demangleProtocolName_old :: "calls \<Rightarrow> node parser" where
  "demangleProtocolName_old rec = child (demangleProtocolNameImpl_old rec) (\<lambda>proto. node_of K_Type [proto])"

definition demangleProtocolList_old :: "calls \<Rightarrow> node parser" where
  "demangleProtocolList_old rec =
     child (while_not ''_'' (\<lambda>type_list. child (demangleProtocolName_old rec) (\<lambda>proto. ret (type_list @ [proto]))) [])
       (\<lambda>type_list. node_of K_ProtocolList [Node K_TypeList NoPayload type_list])"

definition demangleProtocolConformance_old :: "calls \<Rightarrow> node parser" where
  "demangleProtocolConformance_old rec =
     child (demangleType_old rec) (\<lambda>type.
     child (demangleProtocolName_old rec) (\<lambda>protocol.
     child (rec ContextCall) (\<lambda>context.
     node_of K_ProtocolConformance [type, protocol, context])))"

section \<open>Nominal types and generic arguments\<close>

definition demangleNominalType_old :: "calls \<Rightarrow> node parser" where
  "demangleNominalType_old rec =
     first_of
      [(''S'', demangleSubstitutionIndex_old),
       (''V'', demangleDeclarationName_old rec K_Structure),
       (''O'', demangleDeclarationName_old rec K_Enum),
       (''C'', demangleDeclarationName_old rec K_Class),
       (''P'', demangleDeclarationName_old rec K_Protocol)] fail"

definition bound_generic_level :: "calls \<Rightarrow> node \<Rightarrow> node parser" where
  "bound_generic_level rec nominalType =
     child (while_not ''_'' (\<lambda>args. child (demangleType_old rec) (\<lambda>type. at_end fail (ret (args @ [type])))) [])
       (\<lambda>args.
          if args = [] then ret nominalType
          else
            let unboundType = Node K_Type NoPayload [nominalType];
                bound = (\<lambda>kind. node_of kind [unboundType, Node K_TypeList NoPayload args])
            in if getKind nominalType = K_Class then bound K_BoundGenericClass
               else if getKind nominalType = K_Structure then bound K_BoundGenericStructure
               else if getKind nominalType = K_Enum then bound K_BoundGenericEnum
               else fail)"

text \<open>A null parent is added to the rebuilt type, which is an assertion of \<open>Node::addChild\<close>.\<close>

fun demangleBoundGenericArgs_old :: "calls \<Rightarrow> node \<Rightarrow> node parser" where
  "demangleBoundGenericArgs_old rec (Node kind p []) = fail"
| "demangleBoundGenericArgs_old rec (Node kind p (parentOrModule # cs)) =
     (if getKind parentOrModule \<notin> {K_Module, K_Function, K_Extension}
      then \<lambda>d. case demangleBoundGenericArgs_old rec parentOrModule d of
          Got parent d \<Rightarrow>
            deref (getChild (Node kind p (parentOrModule # cs)) 1) (\<lambda>name.
              bound_generic_level rec (Node kind NoPayload [parent, name])) d
        | Diverged \<Rightarrow> Diverged
        | _ \<Rightarrow> Trap
      else bound_generic_level rec (Node kind p (parentOrModule # cs)))"

definition demangleBoundGenericType_old :: "calls \<Rightarrow> node parser" where
  "demangleBoundGenericType_old rec = child (demangleNominalType_old rec) (demangleBoundGenericArgs_old rec)"

section \<open>Associated types\<close>

definition associated_type_name :: "calls \<Rightarrow> node parser" where
  "associated_type_name rec =
     child (next_if ''P'' (child (demangleProtocolName_old rec) (\<lambda>protocol. ret [protocol])) (ret [])) (\<lambda>protocol.
     child (demangleIdentifier_old (Some K_DependentAssociatedTypeRef)) (\<lambda>assocTy.
     push_substitution (Node (getKind assocTy) (getPayload assocTy) (children assocTy @ protocol))))"

definition demangleDependentMemberTypeName_old :: "calls \<Rightarrow> node \<Rightarrow> node parser" where
  "demangleDependentMemberTypeName_old rec baseType =
     deref (assert_that (getKind baseType = K_Type)) (\<lambda>_.
     child (next_if ''S''
        (child demangleSubstitutionIndex_old (\<lambda>assocTy.
           if getKind assocTy \<noteq> K_DependentAssociatedTypeRef then fail else ret assocTy))
        (associated_type_name rec)) (\<lambda>assocTy.
     node_of K_DependentMemberType [baseType, assocTy]))"

definition demangleAssociatedTypeSimple_old :: "calls \<Rightarrow> node parser" where
  "demangleAssociatedTypeSimple_old rec =
     child demangleGenericParamIndex_old (\<lambda>baseType.
       demangleDependentMemberTypeName_old rec (Node K_Type NoPayload [baseType]))"

definition demangleAssociatedTypeCompound_old :: "calls \<Rightarrow> node parser" where
  "demangleAssociatedTypeCompound_old rec =
     child demangleGenericParamIndex_old
       (while_not ''_'' (\<lambda>baseType. demangleDependentMemberTypeName_old rec (Node K_Type NoPayload [baseType])))"

definition demangleDependentType_old :: "calls \<Rightarrow> node parser" where
  "demangleDependentType_old rec =
     at_end fail (peek_char (\<lambda>c.
       if c \<noteq> CHR ''d'' \<and> c \<noteq> CHR ''_'' \<and> \<not> isDigit c
       then child (demangleType_old rec) (demangleDependentMemberTypeName_old rec)
       else demangleGenericParamIndex_old))"

definition demangleConstrainedTypeImpl_old :: "calls \<Rightarrow> node parser" where
  "demangleConstrainedTypeImpl_old rec =
     first_of [(''w'', demangleAssociatedTypeSimple_old rec), (''W'', demangleAssociatedTypeCompound_old rec)]
       demangleGenericParamIndex_old"

definition demangleConstrainedType_old :: "calls \<Rightarrow> node parser" where
  "demangleConstrainedType_old rec = child (demangleConstrainedTypeImpl_old rec) (\<lambda>type. node_of K_Type [type])"

definition make_associated_type :: "node \<Rightarrow> node parser" where
  "make_associated_type root =
     child (demangleIdentifier_old None) (\<lambda>name. push_substitution (Node K_AssociatedTypeRef NoPayload [root, name]))"

definition demangleArchetypeType_old :: "calls \<Rightarrow> node parser" where
  "demangleArchetypeType_old rec =
     first_of
      [(''Q'', child (rec ArchetypeTypeCall) make_associated_type),
       (''S'', child demangleSubstitutionIndex_old make_associated_type),
       (''s'', make_associated_type (createNodeText K_Module ''Swift'')),
       (''q'', child demangleIndexAsNode_old (\<lambda>index.
               child (rec ContextCall) (\<lambda>ctx.
               node_of K_QualifiedArchetype [index, Node K_DeclContext NoPayload [ctx]])))] fail"

section \<open>Generic signatures\<close>

text \<open>The layout of a requirement: its name, size and alignment, \<open>SIZE_MAX\<close> where there is none.\<close>

definition layout_constraint :: "(string \<times> nat \<times> nat) parser" where
  "layout_constraint =
     (let sized = (\<lambda>name. child demangleNatural_old (\<lambda>size. ret (name, size, SIZE_MAX)));
          aligned = (\<lambda>name. child demangleNatural_old (\<lambda>size. require ''_''
            (child demangleNatural_old (\<lambda>alignment. ret (name, size, alignment)))))
      in first_of
          [(''U'', ret (''U'', SIZE_MAX, SIZE_MAX)), (''R'', ret (''R'', SIZE_MAX, SIZE_MAX)),
           (''N'', ret (''N'', SIZE_MAX, SIZE_MAX)), (''T'', ret (''T'', SIZE_MAX, SIZE_MAX)),
           (''E'', aligned ''E''), (''e'', sized ''e''), (''M'', aligned ''M''), (''m'', sized ''m'')] fail)"

definition layout_requirement :: "node \<Rightarrow> node parser" where
  "layout_requirement constrainedType =
     child layout_constraint (\<lambda>(name, size, alignment).
       node_of K_DependentGenericLayoutRequirement
         ([constrainedType, createNodeText K_Identifier name]
          @ (if size \<noteq> SIZE_MAX
             then createNodeIndex K_Number size #
               (if alignment \<noteq> SIZE_MAX then [createNodeIndex K_Number alignment] else [])
             else [])))"

definition class_or_protocol :: "calls \<Rightarrow> node parser" where
  "class_or_protocol rec =
     at_end fail (peek_char (\<lambda>next.
       if next = CHR ''C'' then demangleType_old rec
       else if next = CHR ''S'' then
         next_char (\<lambda>_.
         child demangleSubstitutionIndex_old (\<lambda>sub.
         child (if getKind sub = K_Protocol \<or> getKind sub = K_Class then ret sub
                else if getKind sub = K_Module then demangleProtocolNameGivenContext_old sub
                else fail) (\<lambda>typeName.
         node_of K_Type [typeName])))
       else demangleProtocolName_old rec))"

definition demangleGenericRequirement_old :: "calls \<Rightarrow> node parser" where
  "demangleGenericRequirement_old rec =
     child (demangleConstrainedType_old rec) (\<lambda>constrainedType.
     first_of
      [(''z'', child (demangleType_old rec) (\<lambda>second.
               node_of K_DependentGenericSameTypeRequirement [constrainedType, second])),
       (''l'', layout_requirement constrainedType)]
      (child (class_or_protocol rec) (\<lambda>constraint.
       node_of K_DependentGenericConformanceRequirement [constrainedType, constraint])))"

text \<open>The counts at each depth, up to the letter \<open>R\<close> or \<open>r\<close>, with the last count.\<close>

definition count_node :: "nat \<Rightarrow> node" where
  "count_node count = createNodeIndex K_DependentGenericParamCount count"

fun param_counts :: "nat \<Rightarrow> node list \<Rightarrow> nat \<Rightarrow> (node list \<times> nat) parser" where
  "param_counts 0 sig count d = Diverged"
| "param_counts (Suc n) sig count d =
     peek_char (\<lambda>c.
       if c = CHR ''R'' \<or> c = CHR ''r'' then ret (sig, count)
       else child (next_if ''z'' (ret 0) (child demangleIndex_old (\<lambda>i. ret (index_type (i + 1))))) (\<lambda>count.
         param_counts n (sig @ [count_node count]) count)) d"

definition demangleGenericSignature_old :: "bool \<Rightarrow> calls \<Rightarrow> node parser" where
  "demangleGenericSignature_old isPseudogeneric rec =
     (let signature = node_of (if isPseudogeneric then K_DependentPseudogenericSignature else K_DependentGenericSignature) in
      child (\<lambda>d. param_counts (Suc (length (Mangled d))) [] SIZE_MAX d) (\<lambda>(sig, count).
      let sig = (if count = SIZE_MAX then sig @ [count_node 1] else sig) in
      next_if ''r'' (signature sig)
        (require ''R''
          (child (while_not ''r'' (\<lambda>sig. child (demangleGenericRequirement_old rec) (\<lambda>reqt. ret (sig @ [reqt]))) sig)
            signature))))"

section \<open>Contexts and entities\<close>

text \<open>The kind of an entity, whether it has a type, whether it wraps a storage, and its name.\<close>

type_synonym entity_head = "node_kind \<times> bool \<times> bool \<times> node option"

definition entity_accessor :: "node_kind \<Rightarrow> entity_head parser" where
  "entity_accessor kind = child demangleDeclName_old (\<lambda>name. ret (kind, True, True, Some name))"

definition entity_indexed :: "node_kind \<Rightarrow> bool \<Rightarrow> entity_head parser" where
  "entity_indexed kind hasType = child demangleIndexAsNode_old (\<lambda>name. ret (kind, hasType, False, Some name))"

definition entity_name :: "node_kind \<Rightarrow> entity_head parser" where
  "entity_name entityBasicKind =
     first_of
      [(''D'', ret (K_Deallocator, False, False, None)),
       (''d'', ret (K_Destructor, False, False, None)),
       (''e'', ret (K_IVarInitializer, False, False, None)),
       (''E'', ret (K_IVarDestroyer, False, False, None)),
       (''C'', ret (K_Allocator, True, False, None)),
       (''c'', ret (K_Constructor, True, False, None)),
       (''a'', first_of
          [(''O'', entity_accessor K_OwningMutableAddressor), (''o'', entity_accessor K_NativeOwningMutableAddressor),
           (''p'', entity_accessor K_NativePinningMutableAddressor), (''u'', entity_accessor K_UnsafeMutableAddressor)] fail),
       (''l'', first_of
          [(''O'', entity_accessor K_OwningAddressor), (''o'', entity_accessor K_NativeOwningAddressor),
           (''p'', entity_accessor K_NativePinningAddressor), (''u'', entity_accessor K_UnsafeAddressor)] fail),
       (''g'', entity_accessor K_Getter),
       (''G'', entity_accessor K_GlobalGetter),
       (''s'', entity_accessor K_Setter),
       (''m'', entity_accessor K_MaterializeForSet),
       (''w'', entity_accessor K_WillSet),
       (''W'', entity_accessor K_DidSet),
       (''U'', entity_indexed K_ExplicitClosure True),
       (''u'', entity_indexed K_ImplicitClosure True)]
      (if entityBasicKind = K_Initializer then
         first_of
          [(''A'', entity_indexed K_DefaultArgumentInitializer False),
           (''i'', ret (K_Initializer, False, False, None))] fail
       else child demangleDeclName_old (\<lambda>name. ret (entityBasicKind, True, False, Some name)))"

text \<open>A storage called \<open>subscript\<close> becomes a subscript; what is left of its name is its file.\<close>

definition subscript_name :: "node \<Rightarrow> (bool \<times> node option) option" where
  "subscript_name name =
     (if getKind name = K_Identifier then
        map_option (\<lambda>t. if t = ''subscript'' then (True, None) else (False, Some name)) (getText name)
      else if getKind name = K_PrivateDeclName \<and> getNumChildren name > 1 then
        map_option (\<lambda>t. if t = ''subscript'' then (True, Some (Node K_PrivateDeclName NoPayload [children name ! 0]))
          else (False, Some name)) (getText (children name ! 1))
      else Some (False, Some name))"

definition name_list :: "node option \<Rightarrow> node list" where
  "name_list name = (case name of None \<Rightarrow> [] | Some n \<Rightarrow> [n])"

definition entity_type :: "calls \<Rightarrow> bool \<Rightarrow> node list parser" where
  "entity_type rec hasType = (if hasType then child (demangleType_old rec) (\<lambda>type. ret [type]) else ret [])"

definition wrapped_entity :: "calls \<Rightarrow> node \<Rightarrow> bool \<Rightarrow> node \<Rightarrow> node parser" where
  "wrapped_entity rec context hasType name =
     deref (subscript_name name) (\<lambda>(isSubscript, name).
     child (entity_type rec hasType) (\<lambda>type.
     if isSubscript then node_of K_Subscript ([context] @ type @ name_list name)
     else node_of K_Variable ([context] @ name_list name @ type)))"

definition entity_of_kind :: "calls \<Rightarrow> node_kind \<Rightarrow> node parser" where
  "entity_of_kind rec entityBasicKind =
     child (rec ContextCall) (\<lambda>context.
     child (entity_name entityBasicKind) (\<lambda>(entityKind, hasType, wrapEntity, name).
       case name of
         Some n \<Rightarrow>
           if wrapEntity then child (wrapped_entity rec context hasType n) (\<lambda>wrappedEntity. node_of entityKind [wrappedEntity])
           else child (entity_type rec hasType) (\<lambda>type. node_of entityKind ([context, n] @ type))
       | None \<Rightarrow> child (entity_type rec hasType) (\<lambda>type. node_of entityKind ([context] @ type))))"

text \<open>The letter \<open>Z\<close> of a static entity is dropped in front of a nominal type.\<close>

definition entity_after_static :: "calls \<Rightarrow> (node \<Rightarrow> node parser) \<Rightarrow> node parser" where
  "entity_after_static rec wrap =
     first_of
      [(''F'', child (entity_of_kind rec K_Function) wrap),
       (''v'', child (entity_of_kind rec K_Variable) wrap),
       (''I'', child (entity_of_kind rec K_Initializer) wrap),
       (''i'', child (entity_of_kind rec K_Subscript) wrap)]
      (demangleNominalType_old rec)"

definition demangleEntity_old :: "calls \<Rightarrow> node parser" where
  "demangleEntity_old rec =
     next_if ''Z'' (entity_after_static rec (\<lambda>entity. node_of K_Static [entity])) (entity_after_static rec ret)"

definition demangleContext_old :: "calls \<Rightarrow> node parser" where
  "demangleContext_old rec =
     at_end fail (first_of
      [(''E'', child demangleModule_old (\<lambda>def_module.
               child (rec ContextCall) (\<lambda>type.
               node_of K_Extension [def_module, type]))),
       (''e'', child demangleModule_old (\<lambda>def_module.
               child (demangleGenericSignature_old False rec) (\<lambda>sig.
               child (rec ContextCall) (\<lambda>type.
               node_of K_Extension [def_module, type, sig])))),
       (''S'', demangleSubstitutionIndex_old),
       (''s'', ret (createNodeText K_Module ''Swift'')),
       (''G'', demangleBoundGenericType_old rec)]
      (peek_char (\<lambda>c. if isStartOfEntity c then demangleEntity_old rec else demangleModule_old)))"

end
