(* ===== verification/Old_Demangler_Symbols.thy ===== *)
theory Old_Demangler_Symbols
  imports Old_Demangler
begin

text \<open>
  \<open>OldDemangler.cpp\<close>, continued: types, specializations, global symbols and the entry points.
\<close>

section \<open>Lowered function types\<close>

datatype ImplConventionContext = Callee | Parameter | Result

text \<open>The empty string where there is no convention: the character is consumed even then.\<close>

definition impl_convention :: "ImplConventionContext \<Rightarrow> string \<Rightarrow> string \<Rightarrow> string \<Rightarrow> string parser" where
  "impl_convention ctxt callee param result =
     ret (case ctxt of Callee \<Rightarrow> callee | Parameter \<Rightarrow> param | Result \<Rightarrow> result)"

definition demangleImplConvention_old :: "ImplConventionContext \<Rightarrow> string parser" where
  "demangleImplConvention_old ctxt =
     first_of
      [(''a'', impl_convention ctxt [] [] ''@autoreleased''),
       (''d'', impl_convention ctxt ''@callee_unowned'' ''@unowned'' ''@unowned''),
       (''D'', impl_convention ctxt [] [] ''@unowned_inner_pointer''),
       (''g'', impl_convention ctxt ''@callee_guaranteed'' ''@guaranteed'' []),
       (''e'', impl_convention ctxt [] ''@deallocating'' []),
       (''i'', impl_convention ctxt [] ''@in'' ''@out''),
       (''l'', impl_convention ctxt [] ''@inout'' []),
       (''o'', impl_convention ctxt ''@callee_owned'' ''@owned'' ''@owned'')]
      (ret [])"

definition demangleImplCalleeConvention_old :: "node parser" where
  "demangleImplCalleeConvention_old =
     child (next_if ''t'' (ret ''@convention(thin)'') (demangleImplConvention_old Callee)) (\<lambda>attr.
       if attr = [] then fail else ret (createNodeText K_ImplConvention attr))"

definition impl_attribute :: "node list parser" where
  "impl_attribute =
     (let attr = (\<lambda>t. ret [createNodeText K_ImplFunctionAttribute t]) in
      next_if ''C''
       (first_of
         [(''b'', attr ''@convention(block)''), (''c'', attr ''@convention(c)''), (''m'', attr ''@convention(method)''),
          (''O'', attr ''@convention(objc_method)''), (''w'', attr ''@convention(witness_method)'')] fail)
       (ret []))"

definition demangleImplParameterOrResult_old :: "calls \<Rightarrow> node_kind \<Rightarrow> node parser" where
  "demangleImplParameterOrResult_old rec kind =
     child (next_if ''z'' (if kind \<noteq> K_ImplResult then fail else ret K_ImplErrorResult) (ret kind)) (\<lambda>kind.
     child (demangleImplConvention_old (if kind = K_ImplParameter then Parameter else Result)) (\<lambda>convention.
     if convention = [] then fail
     else child (demangleType_old rec) (\<lambda>type. node_of kind [createNodeText K_ImplConvention convention, type])))"

definition impl_items :: "calls \<Rightarrow> node_kind \<Rightarrow> node list \<Rightarrow> node list parser" where
  "impl_items rec kind =
     while_not ''_'' (\<lambda>cs. child (demangleImplParameterOrResult_old rec kind) (\<lambda>item. ret (cs @ [item])))"

definition impl_generics :: "calls \<Rightarrow> node list parser" where
  "impl_generics rec =
     first_of
      [(''G'', child (demangleGenericSignature_old False rec) (\<lambda>generics. ret [generics])),
       (''g'', child (demangleGenericSignature_old True rec) (\<lambda>generics. ret [generics]))]
      (ret [])"

definition demangleImplFunctionType_old :: "calls \<Rightarrow> node parser" where
  "demangleImplFunctionType_old rec =
     child demangleImplCalleeConvention_old (\<lambda>convention.
     child impl_attribute (\<lambda>attrs.
     child (impl_generics rec) (\<lambda>generics.
     require ''_''
      (child (impl_items rec K_ImplParameter ([convention] @ attrs @ generics)) (\<lambda>cs.
       child (impl_items rec K_ImplResult cs) (\<lambda>cs.
       node_of K_ImplFunctionType cs))))))"

section \<open>Types\<close>

definition builtin_type :: "string \<Rightarrow> node parser" where
  "builtin_type t = ret (createNodeText K_BuiltinTypeName (''Builtin.'' @ t))"

definition builtin_sized :: "string \<Rightarrow> node parser" where
  "builtin_sized t = child demangleBuiltinSize_old (\<lambda>size. builtin_type (t @ decimal size))"

definition demangle_builtin_type :: "node parser" where
  "demangle_builtin_type =
     at_end fail (next_char (\<lambda>c.
       if c = CHR ''b'' then builtin_type ''BridgeObject''
       else if c = CHR ''B'' then builtin_type ''UnsafeValueBuffer''
       else if c = CHR ''f'' then builtin_sized ''Float''
       else if c = CHR ''i'' then builtin_sized ''Int''
       else if c = CHR ''v'' then
         child demangleNatural_old (\<lambda>elts. require ''B''
          (first_of
            [(''i'', builtin_sized (''Vec'' @ decimal elts @ ''xInt'')),
             (''f'', builtin_sized (''Vec'' @ decimal elts @ ''xFloat'')),
             (''p'', builtin_type (''Vec'' @ decimal elts @ ''xRawPointer''))] fail))
       else if c = CHR ''O'' then builtin_type ''UnknownObject''
       else if c = CHR ''o'' then builtin_type ''NativeObject''
       else if c = CHR ''p'' then builtin_type ''RawPointer''
       else if c = CHR ''t'' then builtin_type ''SILToken''
       else if c = CHR ''w'' then builtin_type ''Word''
       else fail))"

definition demangleFunctionType_old :: "calls \<Rightarrow> node_kind \<Rightarrow> node parser" where
  "demangleFunctionType_old rec kind =
     child (next_if ''z'' (ret [createNode K_ThrowsAnnotation]) (ret [])) (\<lambda>throws.
     child (demangleType_old rec) (\<lambda>in_args.
     child (demangleType_old rec) (\<lambda>out_args.
     node_of kind (throws @ [Node K_ArgumentTuple NoPayload [in_args], Node K_ReturnType NoPayload [out_args]]))))"

definition tuple_element :: "calls \<Rightarrow> node parser" where
  "tuple_element rec =
     at_end fail (peek_char (\<lambda>c.
     child (if isStartOfIdentifier c
            then child (demangleIdentifier_old (Some K_TupleElementName)) (\<lambda>label. ret [label]) else ret []) (\<lambda>label.
     child (demangleType_old rec) (\<lambda>type.
     node_of K_TupleElement (label @ [type])))))"

text \<open>The marker of a variadic tuple goes in front of the children of its last element.\<close>

definition mark_variadic :: "node list \<Rightarrow> node list" where
  "mark_variadic elts =
     (if elts = [] then []
      else butlast elts @ [Node K_TupleElement NoPayload (createNode K_VariadicMarker # children (last elts))])"

definition demangleTuple_old :: "bool \<Rightarrow> calls \<Rightarrow> node parser" where
  "demangleTuple_old isV rec =
     child (while_not ''_'' (\<lambda>elts. child (tuple_element rec) (\<lambda>elt. ret (elts @ [elt]))) []) (\<lambda>elts.
       node_of K_Tuple (if isV then mark_variadic elts else elts))"

definition metatype_with_repr :: "calls \<Rightarrow> node_kind \<Rightarrow> node parser" where
  "metatype_with_repr rec kind =
     child demangleMetatypeRepresentation_old (\<lambda>metatypeRepr.
     child (demangleType_old rec) (\<lambda>type.
     node_of kind [metatypeRepr, type]))"

definition box_fields :: "calls \<Rightarrow> node list parser" where
  "box_fields rec =
     while_not ''_'' (\<lambda>fields.
       child (first_of [(''m'', wrap_type K_SILBoxMutableField rec), (''i'', wrap_type K_SILBoxImmutableField rec)] fail)
         (\<lambda>field. ret (fields @ [field]))) []"

definition type_args :: "calls \<Rightarrow> node list parser" where
  "type_args rec = while_not ''_'' (\<lambda>ts. child (demangleType_old rec) (\<lambda>type. ret (ts @ [type]))) []"

definition box_with_layout :: "calls \<Rightarrow> node parser" where
  "box_with_layout rec =
     next_if ''G''
      (child (demangleGenericSignature_old False rec) (\<lambda>signature.
       child (box_fields rec) (\<lambda>fields.
       child (type_args rec) (\<lambda>genericArgs.
       node_of K_SILBoxTypeWithLayout
         [Node K_SILBoxLayout NoPayload fields, signature, Node K_TypeList NoPayload genericArgs]))))
      (child (box_fields rec) (\<lambda>fields. node_of K_SILBoxTypeWithLayout [Node K_SILBoxLayout NoPayload fields]))"

definition demangle_special_type :: "calls \<Rightarrow> node parser" where
  "demangle_special_type rec =
     first_of
      [(''b'', wrap_type K_SILBoxType rec),
       (''B'', box_with_layout rec),
       (''M'', metatype_with_repr rec K_Metatype),
       (''P'', next_if ''M'' (metatype_with_repr rec K_ExistentialMetatype) (demangleProtocolList_old rec)),
       (''f'', demangleFunctionType_old rec K_ThinFunctionType),
       (''o'', wrap_type K_Unowned rec),
       (''u'', wrap_type K_Unmanaged rec),
       (''w'', wrap_type K_Weak rec),
       (''F'', demangleImplFunctionType_old rec)] fail"

definition demangleTypeImpl_old :: "calls \<Rightarrow> node parser" where
  "demangleTypeImpl_old rec =
     at_end fail (next_char (\<lambda>c.
       if c = CHR ''B'' then demangle_builtin_type
       else if c = CHR ''a'' then demangleDeclarationName_old rec K_TypeAlias
       else if c = CHR ''b'' then demangleFunctionType_old rec K_ObjCBlock
       else if c = CHR ''c'' then demangleFunctionType_old rec K_CFunctionPointer
       else if c = CHR ''D'' then wrap_type K_DynamicSelf rec
       else if c = CHR ''E'' then require ''R'' (require ''R'' (ret (createNodeText K_ErrorType [])))
       else if c = CHR ''F'' then demangleFunctionType_old rec K_FunctionType
       else if c = CHR ''f'' then demangleFunctionType_old rec K_UncurriedFunctionType
       else if c = CHR ''G'' then demangleBoundGenericType_old rec
       else if c = CHR ''K'' then demangleFunctionType_old rec K_AutoClosureType
       else if c = CHR ''M'' then wrap_type K_Metatype rec
       else if c = CHR ''P'' then next_if ''M'' (wrap_type K_ExistentialMetatype rec) (demangleProtocolList_old rec)
       else if c = CHR ''Q'' then demangleArchetypeType_old rec
       else if c = CHR ''q'' then demangleDependentType_old rec
       else if c = CHR ''x'' then ret (getDependentGenericParamType_old 0 0)
       else if c = CHR ''w'' then demangleAssociatedTypeSimple_old rec
       else if c = CHR ''W'' then demangleAssociatedTypeCompound_old rec
       else if c = CHR ''R'' then child (rec TypeImplCall) (\<lambda>type. node_of K_InOut [type])
       else if c = CHR ''S'' then demangleSubstitutionIndex_old
       else if c = CHR ''T'' then demangleTuple_old False rec
       else if c = CHR ''t'' then demangleTuple_old True rec
       else if c = CHR ''u'' then
         child (demangleGenericSignature_old False rec) (\<lambda>sig.
         child (demangleType_old rec) (\<lambda>sub.
         node_of K_DependentGenericType [sig, sub]))
       else if c = CHR ''X'' then demangle_special_type rec
       else if isStartOfNominalType c then demangleDeclarationName_old rec (nominalTypeMarkerToNodeKind c)
       else fail))"

section \<open>Specializations\<close>

definition demangleGenericSpecialization_old :: "calls \<Rightarrow> node list \<Rightarrow> node list parser" where
  "demangleGenericSpecialization_old rec =
     while_not ''_'' (\<lambda>specialization.
       child (demangleType_old rec) (\<lambda>type.
       child (while_not ''_'' (\<lambda>param.
         child (demangleProtocolConformance_old rec) (\<lambda>conformance. ret (param @ [conformance]))) [type]) (\<lambda>param.
       ret (specialization @ [Node K_GenericSpecializationParam NoPayload param]))))"

definition payload_node :: "string \<Rightarrow> node" where
  "payload_node t = createNodeText K_FunctionSignatureSpecializationParamPayload t"

definition param_kind_node :: "nat \<Rightarrow> node" where
  "param_kind_node k = createNodeIndex K_FunctionSignatureSpecializationParamKind k"

definition constant_name :: "nat \<Rightarrow> node list parser" where
  "constant_name kind =
     child (demangleIdentifier_old None) (\<lambda>name. require ''_''
       (deref (getText name) (\<lambda>t. ret [param_kind_node kind, payload_node t])))"

definition constant_number :: "nat \<Rightarrow> node list parser" where
  "constant_number kind =
     child (readUntil (CHR ''_'')) (\<lambda>Str. require ''_'' (ret [param_kind_node kind, payload_node Str]))"

definition constant_string :: "string \<Rightarrow> node list parser" where
  "constant_string encodingStr =
     require ''v''
      (child (demangleIdentifier_old None) (\<lambda>str. require ''_''
        (deref (getText str) (\<lambda>t. ret [param_kind_node ConstantPropString, payload_node encodingStr, payload_node t]))))"

definition demangleFuncSigSpecializationConstantProp_old :: "node list parser" where
  "demangleFuncSigSpecializationConstantProp_old =
     first_of
      [(''fr'', constant_name ConstantPropFunction),
       (''g'', constant_name ConstantPropGlobal),
       (''i'', constant_number ConstantPropInteger),
       (''fl'', constant_number ConstantPropFloat),
       (''s'', require ''e'' (peek_char (\<lambda>encoding.
          if encoding = CHR ''0'' then next_char (\<lambda>_. constant_string ''u8'')
          else if encoding = CHR ''1'' then next_char (\<lambda>_. constant_string ''u16'')
          else fail)))] fail"

text \<open>Types up to an underscore or to the first failure, after which the parser goes on.\<close>

fun closure_types :: "nat \<Rightarrow> calls \<Rightarrow> node list \<Rightarrow> node list parser" where
  "closure_types 0 rec param d = Diverged"
| "closure_types (Suc n) rec param d =
     peek_char (\<lambda>c.
       if c = CHR ''_'' then ret param
       else (\<lambda>d. case demangleType_old rec d of
           Got type d \<Rightarrow> closure_types n rec (param @ [type]) d
         | Null d \<Rightarrow> Got param d
         | Trap \<Rightarrow> Trap
         | Diverged \<Rightarrow> Diverged)) d"

definition demangleFuncSigSpecializationClosureProp_old :: "calls \<Rightarrow> node list parser" where
  "demangleFuncSigSpecializationClosureProp_old rec =
     child (demangleIdentifier_old None) (\<lambda>name.
     deref (getText name) (\<lambda>t.
     child (\<lambda>d. closure_types (Suc (length (Mangled d))) rec [param_kind_node ClosureProp, payload_node t] d) (\<lambda>param.
     require ''_'' (ret param))))"

definition specialization_option :: "string \<Rightarrow> nat \<Rightarrow> nat parser" where
  "specialization_option t Flag = next_if t (ret Flag) (ret 0)"

definition specialization_param :: "calls \<Rightarrow> node list parser" where
  "specialization_param rec =
     first_of
      [(''n_'', ret []),
       (''cp'', demangleFuncSigSpecializationConstantProp_old),
       (''cl'', demangleFuncSigSpecializationClosureProp_old rec),
       (''i_'', ret [param_kind_node BoxToValue]),
       (''k_'', ret [param_kind_node BoxToStack])]
      (child (specialization_option ''d'' Dead) (\<lambda>dead.
       child (specialization_option ''g'' OwnedToGuaranteed) (\<lambda>guaranteed.
       child (specialization_option ''s'' SROA) (\<lambda>sroa. require ''_''
         (let Value = dead + guaranteed + sroa in
          if Value = 0 then fail else ret [param_kind_node Value])))))"

definition demangleFunctionSignatureSpecialization_old :: "calls \<Rightarrow> node list \<Rightarrow> node list parser" where
  "demangleFunctionSignatureSpecialization_old rec specialization =
     child (while_not ''_'' (\<lambda>(specialization, paramCount).
       child (specialization_param rec) (\<lambda>param.
       ret (specialization @ [Node K_FunctionSignatureSpecializationParam (IndexPayload paramCount) param],
            to_unsigned (Suc paramCount)))) (specialization, 0)) (\<lambda>(specialization, paramCount).
     ret specialization)"

text \<open>The pass id is the next character, converted from a signed \<open>char\<close> to \<open>unsigned\<close>.\<close>

definition pass_id :: "char \<Rightarrow> nat" where
  "pass_id c = nat ((signed_take_bit 7 (int (ord c)) - 48) mod 4294967296)"

definition specialization_head :: "node list parser" where
  "specialization_head =
     child (next_if ''q'' (ret [createNode K_SpecializationIsFragile]) (ret [])) (\<lambda>fragile.
     next_char (\<lambda>c. ret (fragile @ [createNodeIndex K_SpecializationPassID (pass_id c)])))"

definition demangleSpecializedAttribute_old :: "calls \<Rightarrow> node parser" where
  "demangleSpecializedAttribute_old rec =
     (let generic = (\<lambda>kind. child specialization_head (\<lambda>spec.
            child (demangleGenericSpecialization_old rec spec) (node_of kind)))
      in first_of
          [(''g'', generic K_GenericSpecialization),
           (''r'', generic K_GenericSpecializationNotReAbstracted),
           (''f'', child specialization_head (\<lambda>spec.
                   child (demangleFunctionSignatureSpecialization_old rec spec) (node_of K_FunctionSignatureSpecialization)))]
          fail)"

section \<open>Global symbols\<close>

definition demangleReabstractSignature_old :: "calls \<Rightarrow> node_kind \<Rightarrow> node parser" where
  "demangleReabstractSignature_old rec kind =
     child (next_if ''G'' (child (demangleGenericSignature_old False rec) (\<lambda>generics. ret [generics])) (ret [])) (\<lambda>generics.
     child (demangleType_old rec) (\<lambda>srcType.
     child (demangleType_old rec) (\<lambda>destType.
     node_of kind (generics @ [srcType, destType]))))"

definition with_conformance_old :: "calls \<Rightarrow> node_kind \<Rightarrow> node parser" where
  "with_conformance_old rec kind = child (demangleProtocolConformance_old rec) (\<lambda>c. node_of kind [c])"

definition type_with_conformance :: "calls \<Rightarrow> node_kind \<Rightarrow> node parser" where
  "type_with_conformance rec kind =
     child (demangleType_old rec) (\<lambda>type. child (demangleProtocolConformance_old rec) (\<lambda>c. node_of kind [type, c]))"

definition metadata_symbol :: "calls \<Rightarrow> node parser" where
  "metadata_symbol rec =
     first_of
      [(''P'', wrap_type K_GenericTypeMetadataPattern rec),
       (''a'', wrap_type K_TypeMetadataAccessFunction rec),
       (''L'', wrap_type K_TypeMetadataLazyCache rec),
       (''m'', wrap_type K_Metaclass rec),
       (''n'', wrap_type K_NominalTypeDescriptor rec),
       (''f'', wrap_type K_FullTypeMetadata rec),
       (''p'', child (demangleProtocolName_old rec) (\<lambda>proto. node_of K_ProtocolDescriptor [proto]))]
      (wrap_type K_TypeMetadata rec)"

definition forwarder_symbol :: "calls \<Rightarrow> node_kind \<Rightarrow> node parser" where
  "forwarder_symbol rec kind = next_if ''__T'' (child (rec GlobalCall) (\<lambda>target. node_of kind [target])) (node_of kind [])"

definition witness_symbol :: "calls \<Rightarrow> node parser" where
  "witness_symbol rec =
     first_of
      [(''V'', wrap_type K_ValueWitnessTable rec),
       (''v'', child demangleDirectness_old (\<lambda>kind. child (demangleEntity_old rec) (\<lambda>entity.
               node_of K_FieldOffset [createNodeIndex K_Directness kind, entity]))),
       (''P'', with_conformance_old rec K_ProtocolWitnessTable),
       (''G'', with_conformance_old rec K_GenericProtocolWitnessTable),
       (''I'', with_conformance_old rec K_GenericProtocolWitnessTableInstantiationFunction),
       (''l'', type_with_conformance rec K_LazyProtocolWitnessTableAccessor),
       (''L'', type_with_conformance rec K_LazyProtocolWitnessTableCacheVariable),
       (''a'', with_conformance_old rec K_ProtocolWitnessTableAccessor),
       (''t'', child (demangleProtocolConformance_old rec) (\<lambda>c. child demangleDeclName_old (\<lambda>name.
               node_of K_AssociatedTypeMetadataAccessor [c, name]))),
       (''T'', child (demangleProtocolConformance_old rec) (\<lambda>c. child demangleDeclName_old (\<lambda>name.
               child (demangleProtocolName_old rec) (\<lambda>proto.
               node_of K_AssociatedTypeWitnessTableAccessor [c, name, proto]))))] fail"

definition thunk_symbol :: "calls \<Rightarrow> node parser" where
  "thunk_symbol rec =
     first_of
      [(''R'', demangleReabstractSignature_old rec K_ReabstractionThunkHelper),
       (''r'', demangleReabstractSignature_old rec K_ReabstractionThunk),
       (''W'', child (demangleProtocolConformance_old rec) (\<lambda>c. child (demangleEntity_old rec) (\<lambda>entity.
               node_of K_ProtocolWitness [c, entity])))] fail"

definition demangleGlobal_old :: "calls \<Rightarrow> node parser" where
  "demangleGlobal_old rec =
     at_end fail (first_of
      [(''M'', metadata_symbol rec),
       (''PA'', next_if ''o'' (forwarder_symbol rec K_PartialApplyObjCForwarder) (forwarder_symbol rec K_PartialApplyForwarder)),
       (''t'', wrap_type K_TypeMangling rec),
       (''w'', child demangleValueWitnessKind_old (\<lambda>w. child (demangleType_old rec) (\<lambda>type.
               ret (Node K_ValueWitness (IndexPayload w) [type])))),
       (''W'', witness_symbol rec),
       (''T'', thunk_symbol rec)]
      (demangleEntity_old rec))"

text \<open>The calls of the grammar, nested to a given depth.\<close>

fun old_parse :: "nat \<Rightarrow> calls" where
  "old_parse 0 c d = Diverged"
| "old_parse (Suc n) c d =
     (case c of TypeImplCall \<Rightarrow> demangleTypeImpl_old (old_parse n)
      | ContextCall \<Rightarrow> demangleContext_old (old_parse n)
      | ArchetypeTypeCall \<Rightarrow> demangleArchetypeType_old (old_parse n)
      | GlobalCall \<Rightarrow> demangleGlobal_old (old_parse n)) d"

section \<open>Entry points\<close>

text \<open>\<open>do \<dots> while (Mangled.nextIf("_TTS"))\<close>\<close>

definition clear_substitutions :: "'a \<Rightarrow> 'a parser" where
  "clear_substitutions x d = Got x (d\<lparr>OSubstitutions := []\<rparr>)"

fun specialized_attributes :: "nat \<Rightarrow> calls \<Rightarrow> node list \<Rightarrow> node list parser" where
  "specialized_attributes 0 rec topLevel d = Diverged"
| "specialized_attributes (Suc n) rec topLevel d =
     child (child (demangleSpecializedAttribute_old rec) (\<lambda>spec. clear_substitutions (topLevel @ [spec]))) (\<lambda>topLevel.
       next_if ''_TTS'' (specialized_attributes n rec topLevel) (ret topLevel)) d"

definition top_level_attributes :: "calls \<Rightarrow> node list parser" where
  "top_level_attributes rec =
     first_of
      [(''TS'', child (\<lambda>d. specialized_attributes (Suc (length (Mangled d))) rec [] d) (\<lambda>topLevel.
                require ''_T'' (ret topLevel))),
       (''To'', ret [createNode K_ObjCAttribute]),
       (''TO'', ret [createNode K_NonObjCAttribute]),
       (''TD'', ret [createNode K_DynamicAttribute]),
       (''Td'', ret [createNode K_DirectMethodReferenceAttribute]),
       (''TV'', ret [createNode K_VTableAttribute])]
      (ret [])"

definition take_suffix :: "node list parser" where
  "take_suffix d =
     (if Mangled d = [] then Got [] d
      else Got [createNodeText K_Suffix (Mangled d)] (d\<lparr>Mangled := []\<rparr>))"

definition demangleTopLevel_old :: "calls \<Rightarrow> node parser" where
  "demangleTopLevel_old rec =
     require ''_T''
      (child (top_level_attributes rec) (\<lambda>attrs.
       child (rec GlobalCall) (\<lambda>global.
       child take_suffix (\<lambda>suffix.
       node_of K_Global (attrs @ [global] @ suffix)))))"

definition new_old_demangler :: "string \<Rightarrow> old_state" where
  "new_old_demangler mangled = \<lparr>OSubstitutions = [], Mangled = mangled\<rparr>"

definition demangleOldSymbolAsNode :: "string \<Rightarrow> node outcome" where
  "demangleOldSymbolAsNode MangledName =
     demangleTopLevel_old (old_parse (Suc (length MangledName))) (new_old_demangler MangledName)"

end
