(* ===== verification/Old_Demangler_Total.thy ===== *)
theory Old_Demangler_Total
  imports Old_Demangler_Symbols
begin

text \<open>
  The old demangler ends on every text, its position only moves forward, and the trees it builds are
  well formed. \<open>eats k Q p N\<close>: on texts of at most \<open>N\<close> characters the parser \<open>p\<close> ends; a result
  satisfies \<open>Q\<close> and has consumed at least \<open>k\<close> characters. A trap ends the parse, so it satisfies the
  claim too.
\<close>

named_theorems eats_intros \<open>how the parts of a parser make up the parser\<close>

section \<open>Well-formed trees\<close>

definition text_kind :: "node_kind \<Rightarrow> bool" where
  "text_kind k \<longleftrightarrow> k \<in> set [K_Identifier, K_Module, K_PrefixOperator, K_PostfixOperator, K_InfixOperator, K_TupleElementName]"

definition well_local :: "node_kind \<Rightarrow> payload \<Rightarrow> node list \<Rightarrow> bool" where
  "well_local k p cs \<longleftrightarrow>
     (k = K_Type \<longrightarrow> length cs = 1) \<and>
     (text_kind k \<longrightarrow> cs = [] \<and> (\<exists>t. p = TextPayload t \<and> t \<noteq> [])) \<and>
     (k \<in> {K_Number, K_Index} \<longrightarrow> cs = [] \<and> (\<exists>i. p = IndexPayload i)) \<and>
     (isAnyGeneric k \<longrightarrow> length cs = 2)"

fun well :: "node \<Rightarrow> bool" where
  "well (Node k p cs) \<longleftrightarrow> well_local k p cs \<and> (\<forall>c \<in> set cs. well c)"

definition wells :: "node list \<Rightarrow> bool" where
  "wells ns \<longleftrightarrow> (\<forall>n \<in> set ns. well n)"

lemma wells_simps [simp]: "wells []" "wells (n # ns) \<longleftrightarrow> well n \<and> wells ns" "wells (ns @ ms) \<longleftrightarrow> wells ns \<and> wells ms"
  by (auto simp: wells_def)

definition other_kind :: "node_kind \<Rightarrow> bool" where
  "other_kind k \<longleftrightarrow> k \<noteq> K_Type \<and> \<not> text_kind k \<and> k \<noteq> K_Number \<and> k \<noteq> K_Index \<and> \<not> isAnyGeneric k"

lemma well_Node:
  "other_kind k \<Longrightarrow> well (Node k p cs) \<longleftrightarrow> wells cs"
  "well (Node K_Type p cs) \<longleftrightarrow> length cs = 1 \<and> wells cs"
  "isAnyGeneric k \<Longrightarrow> well (Node k p cs) \<longleftrightarrow> length cs = 2 \<and> wells cs"
  "well (Node K_Number (IndexPayload i) [])" "well (Node K_Index (IndexPayload i) [])"
  "text_kind k \<Longrightarrow> well (Node k (TextPayload t) []) \<longleftrightarrow> t \<noteq> []"
  by (auto simp: other_kind_def text_kind_def well_local_def wells_def isAnyGeneric_def)

declare well.simps [simp del]

lemmas kind_defs = other_kind_def text_kind_def isAnyGeneric_def

lemma well_children: "well (Node k p cs) \<Longrightarrow> wells cs"
  by (simp add: well.simps wells_def)

section \<open>The calculus\<close>

definition oinv :: "old_state \<Rightarrow> bool" where
  "oinv d \<longleftrightarrow> wells (OSubstitutions d)"

text \<open>\<open>okay k Q n r\<close>: the outcome \<open>r\<close> of a parser that has started with \<open>n\<close> characters.\<close>

fun okay :: "nat \<Rightarrow> ('a \<Rightarrow> bool) \<Rightarrow> nat \<Rightarrow> 'a outcome \<Rightarrow> bool" where
  "okay k Q n Trap \<longleftrightarrow> True"
| "okay k Q n Diverged \<longleftrightarrow> False"
| "okay k Q n (Null d) \<longleftrightarrow> oinv d \<and> length (Mangled d) \<le> n"
| "okay k Q n (Got x d) \<longleftrightarrow> oinv d \<and> length (Mangled d) + k \<le> n \<and> Q x"

lemma okay_weak: "okay j P n r \<Longrightarrow> n + k \<le> m + j \<Longrightarrow> n \<le> m \<Longrightarrow> (\<And>x. P x \<Longrightarrow> Q x) \<Longrightarrow> okay k Q m r"
  by (cases r) auto

definition eats :: "nat \<Rightarrow> ('a \<Rightarrow> bool) \<Rightarrow> 'a parser \<Rightarrow> nat \<Rightarrow> bool" where
  "eats k Q p N \<longleftrightarrow> (\<forall>d. length (Mangled d) \<le> N \<and> oinv d \<longrightarrow> okay k Q (length (Mangled d)) (p d))"

lemma eatsI: "(\<And>d. length (Mangled d) \<le> N \<Longrightarrow> oinv d \<Longrightarrow> okay k Q (length (Mangled d)) (p d)) \<Longrightarrow> eats k Q p N"
  by (simp add: eats_def)

lemma eatsD: "eats k Q p N \<Longrightarrow> length (Mangled d) \<le> N \<Longrightarrow> oinv d \<Longrightarrow> okay k Q (length (Mangled d)) (p d)"
  by (simp add: eats_def)

lemma eats_weak: "eats j P p M \<Longrightarrow> N \<le> M \<Longrightarrow> k \<le> j \<Longrightarrow> (\<And>x. P x \<Longrightarrow> Q x) \<Longrightarrow> eats k Q p N"
  unfolding eats_def using okay_weak [of j P _ _ k _ Q] by (meson add_le_cancel_left le_refl order_trans)

lemma eats_ret: "k = 0 \<Longrightarrow> Q x \<Longrightarrow> eats k Q (ret x) N"
  by (simp add: eats_def ret_def)

lemma eats_fail: "eats k Q fail N"
  by (simp add: eats_def fail_def)

lemma eats_child:
  assumes "eats s P p N" "\<And>x. P x \<Longrightarrow> eats (k - s) Q (c x) (N - s)"
  shows "eats k Q (child p c) N"
proof (rule eatsI)
  fix d assume d: "length (Mangled d) \<le> N" "oinv d"
  from eatsD [OF assms(1) d] have p: "okay s P (length (Mangled d)) (p d)" .
  show "okay k Q (length (Mangled d)) (child p c d)"
  proof (cases "p d")
    case (Got x d')
    with p have x: "oinv d'" "length (Mangled d') + s \<le> length (Mangled d)" "P x" by simp_all
    then have "length (Mangled d') \<le> N - s" using d by simp
    from eatsD [OF assms(2) [OF x(3)] this x(1)] have "okay (k - s) Q (length (Mangled d')) (c x d')" .
    then have "okay k Q (length (Mangled d)) (c x d')" by (rule okay_weak) (use x in auto)
    with Got show ?thesis by (simp add: child_def)
  qed (use p in \<open>simp_all add: child_def\<close>)
qed

lemma eats_deref: "(\<And>y. x = Some y \<Longrightarrow> eats k Q (c y) N) \<Longrightarrow> eats k Q (deref x c) N"
  by (cases x) (simp_all add: eats_def deref_def)

lemma eats_at_end: "eats k Q p N \<Longrightarrow> eats k Q q N \<Longrightarrow> eats k Q (at_end p q) N"
  unfolding at_end_def by (rule eatsI) (auto dest: eatsD)

lemma eats_peek:
  assumes "\<And>c. eats k Q (f c) N"
  shows "eats k Q (peek_char f) N"
proof (rule eatsI)
  fix d assume "length (Mangled d) \<le> N" "oinv d"
  with eatsD [OF assms this] show "okay k Q (length (Mangled d)) (peek_char f d)"
    by (cases "Mangled d") (simp_all add: peek_char_def)
qed

lemma eats_next:
  assumes "\<And>c. 0 < N \<Longrightarrow> eats (k - 1) Q (f c) (N - 1)"
  shows "eats k Q (next_char f) N"
proof (rule eatsI)
  fix d assume d: "length (Mangled d) \<le> N" "oinv d"
  show "okay k Q (length (Mangled d)) (next_char f d)"
  proof (cases "Mangled d")
    case (Cons c cs)
    with d have cs: "0 < N" "length (Mangled (d\<lparr>Mangled := cs\<rparr>)) \<le> N - 1" "oinv (d\<lparr>Mangled := cs\<rparr>)" by (auto simp: oinv_def)
    from eatsD [OF assms [OF cs(1)] cs(2,3), of c] have "okay (k - 1) Q (length cs) (f c (d\<lparr>Mangled := cs\<rparr>))" by simp
    then have "okay k Q (Suc (length cs)) (f c (d\<lparr>Mangled := cs\<rparr>))" by (rule okay_weak) auto
    with Cons show ?thesis by (simp add: next_char_def)
  qed (simp add: next_char_def)
qed

lemma starts_with_length: "starts_with t s \<Longrightarrow> length t \<le> length s"
  by (metis starts_with_def length_take min.cobounded1)

lemma eats_next_if:
  assumes "length t \<le> N \<Longrightarrow> eats (k - length t) Q p (N - length t)" "eats k Q q N"
  shows "eats k Q (next_if t p q) N"
proof (rule eatsI)
  fix d assume d: "length (Mangled d) \<le> N" "oinv d"
  show "okay k Q (length (Mangled d)) (next_if t p q d)"
  proof (cases "starts_with t (Mangled d)")
    case True
    let ?d = "advanceOffset (length t) d"
    from True have l: "length t \<le> length (Mangled d)" by (rule starts_with_length)
    with d have t: "length t \<le> N" "length (Mangled ?d) \<le> N - length t" "oinv ?d"
      "length (Mangled ?d) = length (Mangled d) - length t"
      by (auto simp: advanceOffset_def oinv_def)
    from eatsD [OF assms(1) [OF t(1)] t(2,3)] have "okay k Q (length (Mangled d)) (p ?d)"
      by (rule okay_weak) (use l t(4) in auto)
    with True show ?thesis by (simp add: next_if_def)
  qed (use eatsD [OF assms(2) d] in \<open>simp add: next_if_def\<close>)
qed

lemma eats_if: "(b \<Longrightarrow> eats k Q p N) \<Longrightarrow> (\<not> b \<Longrightarrow> eats k Q q N) \<Longrightarrow> eats k Q (if b then p else q) N"
  by simp

text \<open>A loop that consumes text in each round ends. \<open>M\<close> characters need \<open>M + 1\<close> rounds.\<close>

lemma eats_while_fuel:
  assumes "\<And>acc. I acc \<Longrightarrow> eats 1 I (body acc) N" "t \<noteq> []" "I acc" "M < n" "M \<le> N"
  shows "eats 1 I (while_not_fuel n t body acc) M"
  using assms(3-)
proof (induction n arbitrary: M acc)
  case (Suc n)
  have b: "eats 1 I (body acc) M" using eats_weak [OF assms(1) [OF Suc.prems(1)] Suc.prems(3)] by simp
  have "eats 1 I (child (body acc) (while_not_fuel n t body)) M"
  proof (cases "M = 0")
    case True
    show ?thesis
    proof (rule eatsI)
      fix d assume "length (Mangled d) \<le> M" "oinv d"
      with eatsD [OF b this] True show "okay 1 I (length (Mangled d)) (child (body acc) (while_not_fuel n t body) d)"
        by (cases "body acc d") (simp_all add: child_def)
    qed
  next
    case False
    with Suc have "eats 1 I (while_not_fuel n t body x) (M - 1)" if "I x" for x
      using that by (intro Suc.IH) auto
    then show ?thesis by (intro eats_child [OF b]) (auto intro: eats_weak)
  qed
  moreover have "eats (1 - length t) I (ret acc) (M - length t)"
    using assms(2) Suc.prems(1) by (cases t) (simp_all add: eats_ret)
  ultimately have "eats 1 I (next_if t (ret acc) (child (body acc) (while_not_fuel n t body))) M"
    by (intro eats_next_if)
  then show ?case by (simp add: eats_def)
qed simp

lemma eats_while:
  assumes "\<And>acc. I acc \<Longrightarrow> eats 1 I (body acc) N" "t \<noteq> []" "I acc"
  shows "eats 1 I (while_not t body acc) N"
proof (rule eatsI)
  fix d assume d: "length (Mangled d) \<le> N" "oinv d"
  have "eats 1 I (while_not_fuel (Suc (length (Mangled d))) t body acc) (length (Mangled d))"
    using assms d by (intro eats_while_fuel [where N = N]) auto
  from eatsD [OF this le_refl d(2)] show "okay 1 I (length (Mangled d)) (while_not t body acc d)"
    by (simp add: while_not_def)
qed

lemma eats_first_of:
  "eats k Q q N \<Longrightarrow> eats k Q (first_of [] q) N"
  "(length t \<le> N \<Longrightarrow> eats (k - length t) Q p (N - length t)) \<Longrightarrow> eats k Q (first_of ps q) N \<Longrightarrow>
   eats k Q (first_of ((t, p) # ps) q) N"
  by (simp_all add: eats_next_if)

text \<open>A parser at the end of another one, and loops that collect nodes.\<close>

lemma eats_tail: "eats j P p N \<Longrightarrow> k \<le> j \<Longrightarrow> (\<And>x. P x \<Longrightarrow> Q x) \<Longrightarrow> eats k Q p N"
  by (erule eats_weak) simp_all

lemmas eats_while_nodes = eats_while [where I = wells]
lemmas eats_while_node = eats_while [where I = well]
lemmas eats_nodes = eats_child [where s = 0 and P = wells]
lemmas eats_node = eats_child [where s = 0 and P = well]

declare eats_ret [eats_intros] eats_fail [eats_intros] eats_deref [eats_intros] eats_at_end [eats_intros]
  eats_peek [eats_intros] eats_next [eats_intros] eats_next_if [eats_intros] eats_if [eats_intros] eats_first_of [eats_intros]

section \<open>Numbers and identifiers\<close>

lemma natural_digits_length: "length (snd (natural_digits n s)) \<le> length s"
  by (induction n s rule: natural_digits.induct) auto

lemma natural_digits_eats:
  "eats 0 (\<lambda>_. True) (\<lambda>d. let (num, Rest) = natural_digits n (Mangled d) in Got num (d\<lparr>Mangled := Rest\<rparr>)) N"
proof (rule eatsI)
  fix d assume "oinv d"
  then show "okay 0 (\<lambda>_. True) (length (Mangled d)) (let (num, Rest) = natural_digits n (Mangled d) in Got num (d\<lparr>Mangled := Rest\<rparr>))"
    using natural_digits_length [of n "Mangled d"] by (auto simp: oinv_def split: prod.split)
qed

lemma demangleNatural_eats: "eats 1 (\<lambda>_. True) demangleNatural_old N"
  unfolding demangleNatural_old_def
  by (intro eats_intros natural_digits_eats [THEN eats_tail]) auto

lemmas [eats_intros] = demangleNatural_eats [THEN eats_child] demangleNatural_eats [THEN eats_tail]

lemma demangleBuiltinSize_eats: "eats 1 (\<lambda>_. True) demangleBuiltinSize_old N"
  unfolding demangleBuiltinSize_old_def by (intro eats_intros) auto

lemma demangleIndex_eats: "eats 1 (\<lambda>_. True) demangleIndex_old N"
  unfolding demangleIndex_old_def by (intro eats_intros) auto

lemmas [eats_intros] = demangleBuiltinSize_eats [THEN eats_child] demangleIndex_eats [THEN eats_child]
  demangleIndex_eats [THEN eats_tail]

lemma demangleIndexAsNode_eats: "eats 1 well demangleIndexAsNode_old N"
  unfolding demangleIndexAsNode_old_def by (intro eats_intros) (auto simp: well_Node)

lemma demangleDirectness_eats: "eats 1 (\<lambda>_. True) demangleDirectness_old N"
  unfolding demangleDirectness_old_def by (intro eats_intros) auto

lemma demangleValueWitnessKind_eats: "eats 1 (\<lambda>_. True) demangleValueWitnessKind_old N"
  unfolding demangleValueWitnessKind_old_def Let_def by (intro eats_intros) auto

lemmas [eats_intros] = demangleIndexAsNode_eats [THEN eats_child] demangleDirectness_eats [THEN eats_child]
  demangleValueWitnessKind_eats [THEN eats_child]

lemma advance_slice_eats: "eats 0 (\<lambda>_. True) (advance_slice n) N"
  by (rule eatsI) (simp add: advance_slice_def advanceOffset_def oinv_def)

lemmas [eats_intros] = advance_slice_eats [THEN eats_child]

text \<open>An identifier is a leaf with a text that is not empty.\<close>

definition ident_result :: "node_kind option \<Rightarrow> node \<Rightarrow> bool" where
  "ident_result kind n \<longleftrightarrow> (\<exists>k t. n = createNodeText k t \<and> t \<noteq> [] \<and>
     (case kind of Some k' \<Rightarrow> k = k' | None \<Rightarrow> k \<in> {K_Identifier, K_PrefixOperator, K_PostfixOperator, K_InfixOperator}))"

lemma demangle_op_chars_nonempty: "demangle_op_chars s = Some t \<Longrightarrow> s \<noteq> [] \<Longrightarrow> t \<noteq> []"
  by (cases s) (auto simp: Let_def split: if_splits)

lemma identifier_text_eats:
  "eats 1 (\<lambda>n. \<exists>t. n = createNodeText kind t \<and> t \<noteq> []) (identifier_text isPunycoded isOperator kind) N"
  unfolding identifier_text_def
  by (intro eats_intros) (auto split: option.split intro!: eats_intros dest: demangle_op_chars_nonempty)

lemma identifier_operator_eats: "eats 1 (ident_result kind) (identifier_operator isPunycoded kind) N"
  unfolding identifier_operator_def
  by (intro eats_intros identifier_text_eats [THEN eats_tail]) (cases kind; auto simp: ident_result_def)+

lemma demangleIdentifier_eats: "eats 1 (ident_result kind) (demangleIdentifier_old kind) N"
  unfolding demangleIdentifier_old_def
  by (intro eats_intros identifier_operator_eats [THEN eats_tail]) auto

lemma ident_results:
  "ident_result None n \<Longrightarrow> well n"
  "ident_result (Some k) n \<Longrightarrow> getKind n = k \<and> children n = []"
  "ident_result (Some K_Module) n \<Longrightarrow> well n"
  "ident_result (Some K_TupleElementName) n \<Longrightarrow> well n"
  by (auto simp: ident_result_def well_Node kind_defs)

lemmas [eats_intros] = demangleIdentifier_eats [THEN eats_child] demangleIdentifier_eats [THEN eats_tail]

lemma demangleDeclName_eats: "eats 1 well demangleDeclName_old N"
  unfolding demangleDeclName_old_def
  by (intro eats_intros) (auto simp: well_Node kind_defs ident_results)

lemmas [eats_intros] = demangleDeclName_eats [THEN eats_child]

section \<open>Substitutions\<close>

lemma push_substitution_eats: "well n \<Longrightarrow> eats 0 well (push_substitution n) N"
  by (simp add: eats_def push_substitution_def oinv_def)

lemma eats_push [eats_intros]: "k = 0 \<Longrightarrow> well n \<Longrightarrow> Q n \<Longrightarrow> eats k Q (push_substitution n) N"
  by (simp add: eats_def push_substitution_def oinv_def)

lemma eats_substitution_at [eats_intros]: "k = 0 \<Longrightarrow> (\<And>n. well n \<Longrightarrow> Q n) \<Longrightarrow> eats k Q (substitution_at i) N"
  by (auto simp: eats_def substitution_at_def oinv_def wells_def)

lemma old_standard_types_well: "(t, n) \<in> set old_standard_types \<Longrightarrow> well n \<and> length t = 1"
  by (auto simp: old_standard_types_def createSwiftType_old_def well_Node kind_defs)

lemma first_of_map_eats:
  assumes "\<forall>(t, n) \<in> set ps. well n \<and> length t = 1" "eats 1 well q N"
  shows "eats 1 well (first_of (map (\<lambda>(t, n). (t, ret n)) ps) q) N"
  using assms(1)
proof (induction ps)
  case (Cons a ps)
  then show ?case by (cases a) (auto intro!: eats_next_if eats_ret simp del: One_nat_def)
qed (use assms(2) in simp)

lemma demangleSubstitutionIndex_eats: "eats 1 well demangleSubstitutionIndex_old N"
  unfolding demangleSubstitutionIndex_old_def
  by (intro eats_at_end eats_fail first_of_map_eats) (auto dest: old_standard_types_well intro!: eats_intros)

lemmas [eats_intros] = demangleSubstitutionIndex_eats [THEN eats_child] demangleSubstitutionIndex_eats [THEN eats_tail]

lemma demangleModule_eats: "eats 1 well demangleModule_old N"
  unfolding demangleModule_old_def
  by (intro eats_intros) (auto simp: well_Node kind_defs ident_results)

lemmas [eats_intros] = demangleModule_eats [THEN eats_child] demangleModule_eats [THEN eats_tail]

section \<open>Generic parameters\<close>

lemma getDependentGenericParamType_well: "well (getDependentGenericParamType_old depth index)"
  by (simp add: getDependentGenericParamType_old_def Let_def well_Node kind_defs)

lemma demangleGenericParamIndex_eats: "eats 1 well demangleGenericParamIndex_old N"
  unfolding demangleGenericParamIndex_old_def
  by (intro eats_intros) (auto simp: getDependentGenericParamType_well)

lemma demangleMetatypeRepresentation_eats: "eats 1 well demangleMetatypeRepresentation_old N"
  unfolding demangleMetatypeRepresentation_old_def
  by (intro eats_intros) (auto simp: well_Node kind_defs)

lemmas [eats_intros] = demangleGenericParamIndex_eats [THEN eats_child] demangleGenericParamIndex_eats [THEN eats_tail]
  demangleMetatypeRepresentation_eats [THEN eats_child]

end
