(* ===== verification/Old_Demangler_Calls.thy ===== *)
theory Old_Demangler_Calls
  imports Old_Demangler_Total
begin

text \<open>
  The recursive operations of the old demangler against the interface of their nested calls, and the
  termination of the whole: with as many nested calls as characters the parser never runs out.
\<close>

text \<open>The head of an entity has a kind without conditions on its children.\<close>

definition good_head :: "entity_head \<Rightarrow> bool" where
  "good_head h \<longleftrightarrow> (case h of (kind, hasType, wrapEntity, name) \<Rightarrow>
     other_kind kind \<and> (\<forall>n. name = Some n \<longrightarrow> well n))"

text \<open>The root is a \<open>Global\<close> node over at least one symbol.\<close>

definition old_root :: "node \<Rightarrow> bool" where
  "old_root n \<longleftrightarrow> well n \<and> getKind n = K_Global \<and> getNumChildren n \<noteq> 0"

text \<open>The contract of the nested calls: they end on texts shorter than \<open>N\<close> characters.\<close>

locale nested_calls =
  fixes rec :: calls and N :: nat
  assumes rec_eats: "M < N \<Longrightarrow> eats 1 well (rec c) M"

context nested_calls
begin

lemmas rec_rules [eats_intros] = rec_eats [THEN eats_child] rec_eats [THEN eats_tail]

lemma demangleType_eats: "M < N \<Longrightarrow> eats 1 well (demangleType_old rec) M"
  unfolding demangleType_old_def by (intro eats_intros) (auto simp: well_Node)

lemmas [eats_intros] = demangleType_eats [THEN eats_child] demangleType_eats [THEN eats_tail]

lemma wrap_type_eats: "M < N \<Longrightarrow> other_kind kind \<Longrightarrow> eats 1 well (wrap_type kind rec) M"
  unfolding wrap_type_def by (intro eats_intros) (auto simp: well_Node)

lemma demangleDeclarationName_eats: "M < N \<Longrightarrow> isAnyGeneric kind \<Longrightarrow> eats 1 well (demangleDeclarationName_old rec kind) M"
  unfolding demangleDeclarationName_old_def by (intro eats_intros) (auto simp: well_Node)

lemma demangleProtocolNameGivenContext_eats: "well c \<Longrightarrow> eats 1 well (demangleProtocolNameGivenContext_old c) M"
  unfolding demangleProtocolNameGivenContext_old_def by (intro eats_intros) (auto simp: well_Node kind_defs)

lemmas [eats_intros] = wrap_type_eats [THEN eats_child] wrap_type_eats [THEN eats_tail]
  demangleDeclarationName_eats [THEN eats_tail] demangleProtocolNameGivenContext_eats [THEN eats_tail]

lemma demangleProtocolNameImpl_eats: "M < N \<Longrightarrow> eats 1 well (demangleProtocolNameImpl_old rec) M"
  unfolding demangleProtocolNameImpl_old_def by (intro eats_intros) (auto simp: well_Node kind_defs)

lemmas [eats_intros] = demangleProtocolNameImpl_eats [THEN eats_child]

lemma demangleProtocolName_eats: "M < N \<Longrightarrow> eats 1 well (demangleProtocolName_old rec) M"
  unfolding demangleProtocolName_old_def by (intro eats_intros) (auto simp: well_Node)

lemmas [eats_intros] = demangleProtocolName_eats [THEN eats_child] demangleProtocolName_eats [THEN eats_tail]

lemma demangleProtocolList_eats: "M < N \<Longrightarrow> eats 1 well (demangleProtocolList_old rec) M"
  unfolding demangleProtocolList_old_def
  by (intro eats_intros eats_while_nodes [THEN eats_child]) (auto simp: well_Node kind_defs)

lemma demangleProtocolConformance_eats: "M < N \<Longrightarrow> eats 1 well (demangleProtocolConformance_old rec) M"
  unfolding demangleProtocolConformance_old_def by (intro eats_intros) (auto simp: well_Node kind_defs)

lemma demangleNominalType_eats: "M \<le> N \<Longrightarrow> eats 1 well (demangleNominalType_old rec) M"
  unfolding demangleNominalType_old_def by (intro eats_intros) (auto simp: isAnyGeneric_def)

lemmas [eats_intros] = demangleProtocolList_eats [THEN eats_tail] demangleProtocolConformance_eats [THEN eats_child]
  demangleNominalType_eats [THEN eats_child] demangleNominalType_eats [THEN eats_tail]

section \<open>Bound generic types\<close>

lemma bound_generic_level_eats: "M < N \<Longrightarrow> well n \<Longrightarrow> eats 1 well (bound_generic_level rec n) M"
  unfolding bound_generic_level_def Let_def
  by (intro eats_intros eats_while_nodes [THEN eats_child]) (auto simp: well_Node kind_defs)

lemma rebuilt_well: "well (Node k p (q # cs)) \<Longrightarrow> well q' \<Longrightarrow> getChild (Node k p (q # cs)) 1 = Some name \<Longrightarrow>
    well (Node k NoPayload [q', name])"
  by (cases cs) (auto simp: getChild_def getNumChildren_def well.simps well_local_def)

lemma demangleBoundGenericArgs_eats: "M < N \<Longrightarrow> well n \<Longrightarrow> eats 0 well (demangleBoundGenericArgs_old rec n) M"
proof (induction n arbitrary: M)
  case (Node k p cs)
  show ?case
  proof (cases cs)
    case Nil
    then show ?thesis by (simp add: eats_fail)
  next
    case (Cons q qs)
    have here: "eats 0 well (bound_generic_level rec (Node k p (q # qs))) M"
      using Node.prems Cons by (intro bound_generic_level_eats [THEN eats_tail]) auto
    have q: "well q" using Node.prems(2) Cons by (simp add: well.simps)
    show ?thesis unfolding Cons
    proof (cases "getKind q \<notin> {K_Module, K_Function, K_Extension}")
      case True
      show "eats 0 well (demangleBoundGenericArgs_old rec (Node k p (q # qs))) M"
      proof (rule eatsI)
        fix d assume d: "length (Mangled d) \<le> M" "oinv d"
        have "okay 0 well (length (Mangled d)) (demangleBoundGenericArgs_old rec q d)"
          using Node.IH [of q M] Cons Node.prems(1) q by (intro eatsD [OF _ d]) simp
        moreover have "eats 0 well (deref (getChild (Node k p (q # qs)) 1) (\<lambda>name.
            bound_generic_level rec (Node k NoPayload [parent, name]))) M" if "well parent" for parent
          using that Node.prems Cons rebuilt_well [of k p q qs]
          by (intro eats_deref bound_generic_level_eats [THEN eats_tail]) auto
        ultimately show "okay 0 well (length (Mangled d)) (demangleBoundGenericArgs_old rec (Node k p (q # qs)) d)"
          using True d by (cases "demangleBoundGenericArgs_old rec q d")
            (auto dest!: eatsD [rotated 2] intro: okay_weak)
      qed
    qed (use here in simp)
  qed
qed

lemma demangleBoundGenericType_eats: "M < N \<Longrightarrow> eats 1 well (demangleBoundGenericType_old rec) M"
  unfolding demangleBoundGenericType_old_def by (intro eats_intros demangleBoundGenericArgs_eats [THEN eats_tail]) auto

lemmas [eats_intros] = demangleBoundGenericType_eats [THEN eats_tail]

section \<open>Associated types\<close>

lemma optional_protocol_eats:
  "M < N \<Longrightarrow> eats 0 wells (next_if ''P'' (child (demangleProtocolName_old rec) (\<lambda>protocol. ret [protocol])) (ret [])) M"
  by (intro eats_intros) auto

lemma associated_type_name_eats: "M < N \<Longrightarrow> eats 1 well (associated_type_name rec) M"
  unfolding associated_type_name_def
  by (intro optional_protocol_eats [THEN eats_child] eats_intros)
    (auto dest!: ident_results(2) simp: well_Node kind_defs)

lemmas [eats_intros] = associated_type_name_eats [THEN eats_tail]

lemma demangleDependentMemberTypeName_eats:
  "M < N \<Longrightarrow> well b \<Longrightarrow> eats 1 well (demangleDependentMemberTypeName_old rec b) M"
  unfolding demangleDependentMemberTypeName_old_def
  by (intro eats_deref eats_child [where s = 1 and P = well] eats_intros) (auto simp: well_Node kind_defs)

lemmas [eats_intros] = demangleDependentMemberTypeName_eats [THEN eats_tail]

lemma demangleAssociatedTypeSimple_eats: "M < N \<Longrightarrow> eats 1 well (demangleAssociatedTypeSimple_old rec) M"
  unfolding demangleAssociatedTypeSimple_old_def by (intro eats_intros) (auto simp: well_Node)

lemma demangleAssociatedTypeCompound_eats: "M < N \<Longrightarrow> eats 1 well (demangleAssociatedTypeCompound_old rec) M"
  unfolding demangleAssociatedTypeCompound_old_def
  by (intro eats_intros eats_while_node [THEN eats_tail]) (auto simp: well_Node)

lemma demangleDependentType_eats: "M < N \<Longrightarrow> eats 1 well (demangleDependentType_old rec) M"
  unfolding demangleDependentType_old_def by (intro eats_intros) auto

lemmas [eats_intros] = demangleAssociatedTypeSimple_eats [THEN eats_tail]
  demangleAssociatedTypeCompound_eats [THEN eats_tail] demangleDependentType_eats [THEN eats_tail]

lemma demangleConstrainedTypeImpl_eats: "M < N \<Longrightarrow> eats 1 well (demangleConstrainedTypeImpl_old rec) M"
  unfolding demangleConstrainedTypeImpl_old_def by (intro eats_intros) auto

lemmas [eats_intros] = demangleConstrainedTypeImpl_eats [THEN eats_child]

lemma demangleConstrainedType_eats: "M < N \<Longrightarrow> eats 1 well (demangleConstrainedType_old rec) M"
  unfolding demangleConstrainedType_old_def by (intro eats_intros) (auto simp: well_Node)

lemmas [eats_intros] = demangleConstrainedType_eats [THEN eats_child]

lemma make_associated_type_eats: "well root \<Longrightarrow> eats 1 well (make_associated_type root) M"
  unfolding make_associated_type_def by (intro eats_intros) (auto simp: well_Node kind_defs ident_results)

lemma demangleArchetypeType_eats: "M \<le> N \<Longrightarrow> eats 1 well (demangleArchetypeType_old rec) M"
  unfolding demangleArchetypeType_old_def
  by (intro eats_intros make_associated_type_eats [THEN eats_tail]) (auto simp: well_Node kind_defs)

lemmas [eats_intros] = demangleArchetypeType_eats [THEN eats_tail]

section \<open>Generic signatures\<close>

lemma layout_constraint_eats: "eats 1 (\<lambda>(name, size, alignment). name \<noteq> []) layout_constraint M"
  unfolding layout_constraint_def Let_def by (intro eats_intros) auto

lemma layout_requirement_eats: "well t \<Longrightarrow> eats 1 well (layout_requirement t) M"
  unfolding layout_requirement_def
  by (intro layout_constraint_eats [THEN eats_child]) (auto simp: well_Node kind_defs intro!: eats_intros)

lemmas [eats_intros] = layout_requirement_eats [THEN eats_tail]

lemma class_or_protocol_eats: "M < N \<Longrightarrow> eats 1 well (class_or_protocol rec) M"
  unfolding class_or_protocol_def
  by (intro eats_intros eats_node) (auto simp: well_Node)

lemmas [eats_intros] = class_or_protocol_eats [THEN eats_child]

lemma demangleGenericRequirement_eats: "M < N \<Longrightarrow> eats 1 well (demangleGenericRequirement_old rec) M"
  unfolding demangleGenericRequirement_old_def
  by (intro eats_intros) (auto simp: well_Node kind_defs)

lemmas [eats_intros] = demangleGenericRequirement_eats [THEN eats_child]

lemma count_node_well [simp]: "well (count_node n)"
  by (simp add: count_node_def well_Node kind_defs)

lemma param_count_eats:
  "eats 1 (\<lambda>_. True) (next_if ''z'' (ret 0) (child demangleIndex_old (\<lambda>i. ret (index_type (i + 1))))) M"
  by (intro eats_intros) auto

lemma param_counts_eats: "M < n \<Longrightarrow> wells sig \<Longrightarrow> eats 0 (\<lambda>(sig, count). wells sig) (param_counts n sig count) M"
proof (induction n arbitrary: M sig count)
  case (Suc n)
  have "eats 0 (\<lambda>(sig, count). wells sig) (peek_char (\<lambda>c.
       if c = CHR ''R'' \<or> c = CHR ''r'' then ret (sig, count)
       else child (next_if ''z'' (ret 0) (child demangleIndex_old (\<lambda>i. ret (index_type (i + 1))))) (\<lambda>count.
         param_counts n (sig @ [count_node count]) count))) M" (is "eats 0 _ ?p M")
  proof (intro eats_peek eats_if)
    fix c
    show "eats 0 (\<lambda>(sig, count). wells sig) (ret (sig, count)) M" using Suc.prems by (intro eats_ret) simp_all
    show "eats 0 (\<lambda>(sig, count). wells sig) (child (next_if ''z'' (ret 0) (child demangleIndex_old
        (\<lambda>i. ret (index_type (i + 1))))) (\<lambda>count. param_counts n (sig @ [count_node count]) count)) M"
    proof (cases "M = 0")
      case True
      show ?thesis
      proof (rule eatsI)
        fix d assume "length (Mangled d) \<le> M" "oinv d"
        with eatsD [OF param_count_eats this] True show "okay 0 (\<lambda>(sig, count). wells sig) (length (Mangled d))
            (child (next_if ''z'' (ret 0) (child demangleIndex_old (\<lambda>i. ret (index_type (i + 1)))))
              (\<lambda>count. param_counts n (sig @ [count_node count]) count) d)"
          by (cases "next_if ''z'' (ret 0) (child demangleIndex_old (\<lambda>i. ret (index_type (i + 1)))) d")
            (simp_all add: child_def)
      qed
    next
      case False
      with Suc show ?thesis by (intro param_count_eats [THEN eats_child]) auto
    qed
  qed
  then show ?case by (simp add: eats_def)
qed simp

lemma all_param_counts_eats:
  "eats 0 (\<lambda>(sig, count). wells sig) (\<lambda>d. param_counts (Suc (length (Mangled d))) [] n d) M"
  by (rule eatsI) (use param_counts_eats in \<open>auto intro: eatsD [OF _ order_refl] simp del: param_counts.simps\<close>)

lemma demangleGenericSignature_eats: "M < N \<Longrightarrow> eats 1 well (demangleGenericSignature_old b rec) M"
  unfolding demangleGenericSignature_old_def Let_def
  by (intro all_param_counts_eats [THEN eats_child])
    (auto simp: well_Node kind_defs intro!: eats_intros eats_while_nodes [THEN eats_child])

lemmas [eats_intros] = demangleGenericSignature_eats [THEN eats_child]

section \<open>Contexts and entities\<close>

lemma entity_accessor_eats: "other_kind kind \<Longrightarrow> eats 1 good_head (entity_accessor kind) M"
  unfolding entity_accessor_def by (intro eats_intros) (auto simp: good_head_def)

lemma entity_indexed_eats: "other_kind kind \<Longrightarrow> eats 1 good_head (entity_indexed kind hasType) M"
  unfolding entity_indexed_def by (intro eats_intros) (auto simp: good_head_def)

lemma entity_name_eats: "other_kind kind \<Longrightarrow> eats 1 good_head (entity_name kind) M"
  unfolding entity_name_def
  by (intro eats_intros entity_accessor_eats [THEN eats_tail] entity_indexed_eats [THEN eats_tail])
    (auto simp: good_head_def kind_defs)

lemma entity_type_eats: "M < N \<Longrightarrow> eats 0 wells (entity_type rec hasType) M"
  unfolding entity_type_def by (intro eats_intros) auto

lemma subscript_name_well: "well n \<Longrightarrow> subscript_name n = Some (b, m) \<Longrightarrow> wells (name_list m)"
  by (cases n; rename_tac k p cs; case_tac cs)
    (auto simp: subscript_name_def name_list_def getNumChildren_def well_Node kind_defs dest: well_children split: if_splits)

lemma wrapped_entity_eats: "M < N \<Longrightarrow> well c \<Longrightarrow> well n \<Longrightarrow> eats 0 well (wrapped_entity rec c hasType n) M"
  unfolding wrapped_entity_def
  by (intro eats_deref) (auto simp: well_Node kind_defs dest: subscript_name_well
    intro!: entity_type_eats [THEN eats_child] eats_intros)

lemma entity_of_kind_eats: "M < N \<Longrightarrow> other_kind kind \<Longrightarrow> eats 1 well (entity_of_kind rec kind) M"
  unfolding entity_of_kind_def
  by (intro eats_intros entity_name_eats [THEN eats_child])
    (auto simp: well_Node good_head_def split: option.split
      intro!: eats_intros entity_type_eats [THEN eats_child] wrapped_entity_eats [THEN eats_child])

lemma entity_after_static_eats:
  assumes "M \<le> N" "\<And>e L. well e \<Longrightarrow> eats 0 well (wrap e) L"
  shows "eats 1 well (entity_after_static rec wrap) M"
  unfolding entity_after_static_def
  by (intro eats_intros entity_of_kind_eats [THEN eats_child] assms(2) [THEN eats_tail])
    (use assms(1) in \<open>auto simp: kind_defs\<close>)

lemma demangleEntity_eats: "M \<le> N \<Longrightarrow> eats 1 well (demangleEntity_old rec) M"
  unfolding demangleEntity_old_def
  by (intro eats_next_if entity_after_static_eats [THEN eats_tail]) (auto simp: well_Node kind_defs intro!: eats_intros)

lemmas [eats_intros] = demangleEntity_eats [THEN eats_child] demangleEntity_eats [THEN eats_tail]

lemma demangleContext_eats: "M \<le> N \<Longrightarrow> eats 1 well (demangleContext_old rec) M"
  unfolding demangleContext_old_def
  by (intro eats_intros) (auto simp: well_Node kind_defs)

section \<open>Types\<close>

lemma demangleImplConvention_eats: "eats 0 (\<lambda>_. True) (demangleImplConvention_old ctxt) M"
  unfolding demangleImplConvention_old_def impl_convention_def by (intro eats_intros) auto

lemma demangleImplCalleeConvention_eats: "eats 0 well demangleImplCalleeConvention_old M"
  unfolding demangleImplCalleeConvention_old_def
  by (intro eats_child [where s = 0 and P = "\<lambda>_. True"] eats_intros demangleImplConvention_eats [THEN eats_tail])
    (auto simp: well_Node kind_defs)

lemma impl_attribute_eats: "eats 0 wells impl_attribute M"
  unfolding impl_attribute_def Let_def by (intro eats_intros) (auto simp: well_Node kind_defs)

lemma demangleImplParameterOrResult_eats:
  "M < N \<Longrightarrow> kind \<in> {K_ImplParameter, K_ImplResult} \<Longrightarrow> eats 1 well (demangleImplParameterOrResult_old rec kind) M"
  unfolding demangleImplParameterOrResult_old_def
  by (intro eats_child [where s = 0 and P = "\<lambda>k. k \<in> {K_ImplParameter, K_ImplResult, K_ImplErrorResult}"]
      demangleImplConvention_eats [THEN eats_child] eats_intros) (auto simp: well_Node kind_defs)

lemma impl_items_eats:
  "M < N \<Longrightarrow> kind \<in> {K_ImplParameter, K_ImplResult} \<Longrightarrow> wells cs \<Longrightarrow> eats 1 wells (impl_items rec kind cs) M"
  unfolding impl_items_def
  by (intro eats_while_nodes demangleImplParameterOrResult_eats [THEN eats_child] eats_intros) auto

lemma impl_generics_eats: "M < N \<Longrightarrow> eats 0 wells (impl_generics rec) M"
  unfolding impl_generics_def by (intro eats_intros) auto

lemma demangleImplFunctionType_eats: "M < N \<Longrightarrow> eats 1 well (demangleImplFunctionType_old rec) M"
  unfolding demangleImplFunctionType_old_def
  by (intro demangleImplCalleeConvention_eats [THEN eats_child] impl_attribute_eats [THEN eats_child]
      impl_generics_eats [THEN eats_child] impl_items_eats [THEN eats_child] eats_intros)
    (auto simp: well_Node kind_defs)

lemma demangle_builtin_type_eats: "eats 1 well demangle_builtin_type M"
  unfolding demangle_builtin_type_def builtin_type_def builtin_sized_def
  by (intro eats_intros) (auto simp: well_Node kind_defs)

lemma demangleFunctionType_eats: "M < N \<Longrightarrow> other_kind kind \<Longrightarrow> eats 1 well (demangleFunctionType_old rec kind) M"
  unfolding demangleFunctionType_old_def
  by (intro eats_nodes eats_intros) (auto simp: well_Node kind_defs)

lemma tuple_element_eats: "M < N \<Longrightarrow> eats 1 well (tuple_element rec) M"
  unfolding tuple_element_def
  by (intro eats_at_end eats_fail eats_peek eats_nodes eats_intros) (auto simp: well_Node kind_defs ident_results)

lemma mark_variadic_wells: "wells ns \<Longrightarrow> wells (mark_variadic ns)"
proof (cases ns rule: rev_cases)
  case (snoc ms n)
  assume "wells ns"
  then have "wells ms" "wells (children n)" using snoc by (cases n; auto dest: well_children)+
  with snoc show ?thesis by (simp add: mark_variadic_def well_Node kind_defs)
qed (simp add: mark_variadic_def)

lemma demangleTuple_eats: "M < N \<Longrightarrow> eats 1 well (demangleTuple_old isV rec) M"
  unfolding demangleTuple_old_def
  by (intro eats_while_nodes [THEN eats_child] tuple_element_eats [THEN eats_child] eats_intros)
    (auto simp: well_Node kind_defs mark_variadic_wells)

lemma metatype_with_repr_eats: "M < N \<Longrightarrow> other_kind kind \<Longrightarrow> eats 1 well (metatype_with_repr rec kind) M"
  unfolding metatype_with_repr_def by (intro eats_intros) (auto simp: well_Node)

lemma box_fields_eats: "M < N \<Longrightarrow> eats 1 wells (box_fields rec) M"
  unfolding box_fields_def
  by (intro eats_while_nodes eats_child [where s = 1 and P = well] eats_intros) (auto simp: kind_defs)

lemma type_args_eats: "M < N \<Longrightarrow> eats 1 wells (type_args rec) M"
  unfolding type_args_def by (intro eats_while_nodes eats_intros) auto

lemma box_with_layout_eats: "M < N \<Longrightarrow> eats 1 well (box_with_layout rec) M"
  unfolding box_with_layout_def
  by (intro box_fields_eats [THEN eats_child] type_args_eats [THEN eats_child] eats_intros) (auto simp: well_Node kind_defs)

lemma demangle_special_type_eats: "M < N \<Longrightarrow> eats 1 well (demangle_special_type rec) M"
  unfolding demangle_special_type_def
  by (intro box_with_layout_eats [THEN eats_tail] metatype_with_repr_eats [THEN eats_tail]
      demangleFunctionType_eats [THEN eats_tail] demangleImplFunctionType_eats [THEN eats_tail] eats_intros)
    (auto simp: kind_defs)

lemma demangleTypeImpl_eats: "M \<le> N \<Longrightarrow> eats 1 well (demangleTypeImpl_old rec) M"
  unfolding demangleTypeImpl_old_def
  by (intro demangle_builtin_type_eats [THEN eats_tail] demangleFunctionType_eats [THEN eats_tail]
      demangleTuple_eats [THEN eats_tail] demangle_special_type_eats [THEN eats_tail] eats_intros)
    (auto simp: well_Node kind_defs getDependentGenericParamType_well isStartOfNominalType_def nominalTypeMarkerToNodeKind_def)

section \<open>Specializations\<close>

lemma demangleGenericSpecialization_eats: "M < N \<Longrightarrow> wells ns \<Longrightarrow> eats 1 wells (demangleGenericSpecialization_old rec ns) M"
  unfolding demangleGenericSpecialization_old_def
  by (intro eats_while_nodes eats_while_nodes [THEN eats_child] eats_intros) (auto simp: well_Node kind_defs)

lemma spec_nodes_well [simp]: "well (payload_node t)" "well (param_kind_node k)"
  by (simp_all add: payload_node_def param_kind_node_def well_Node kind_defs)

lemma readUntil_eats: "eats 0 (\<lambda>_. True) (readUntil c) M"
proof (rule eatsI)
  fix d assume "oinv d"
  then show "okay 0 (\<lambda>_. True) (length (Mangled d)) (readUntil c d)"
    using length_dropWhile_le [of "\<lambda>x. x \<noteq> c" "Mangled d"] by (simp add: readUntil_def Let_def oinv_def)
qed

lemma constants_eats: "eats 1 wells (constant_name k) M" "eats 1 wells (constant_number k) M" "eats 1 wells (constant_string e) M"
  unfolding constant_name_def constant_number_def constant_string_def
  by (intro readUntil_eats [THEN eats_child] eats_intros; simp)+

lemma demangleFuncSigSpecializationConstantProp_eats: "eats 0 wells demangleFuncSigSpecializationConstantProp_old M"
  unfolding demangleFuncSigSpecializationConstantProp_old_def
  by (intro constants_eats [THEN eats_tail] eats_intros) auto

lemma closure_types_eats: "M < n \<Longrightarrow> M < N \<Longrightarrow> wells ns \<Longrightarrow> eats 0 wells (closure_types n rec ns) M"
proof (induction n arbitrary: M ns)
  case (Suc n)
  show ?case
  proof (rule eatsI)
    fix d assume d: "length (Mangled d) \<le> M" "oinv d"
    have t: "okay 1 well (length (Mangled d)) (demangleType_old rec d)"
      using demangleType_eats [OF Suc.prems(2)] d by (rule eatsD)
    have "okay 0 wells (length (Mangled d)) (closure_types n rec (ns @ [x]) d')"
      if "demangleType_old rec d = Got x d'" for x d'
    proof -
      have x: "length (Mangled d') + 1 \<le> length (Mangled d)" "oinv d'" "well x" using t that by simp_all
      then have "eats 0 wells (closure_types n rec (ns @ [x])) (length (Mangled d'))"
        using Suc.prems d by (intro Suc.IH) auto
      from eatsD [OF this order_refl x(2)] show ?thesis by (rule okay_weak) (use x in auto)
    qed
    with t d Suc.prems(3) show "okay 0 wells (length (Mangled d)) (closure_types (Suc n) rec ns d)"
      by (cases "Mangled d"; cases "demangleType_old rec d") (simp_all add: peek_char_def ret_def)
  qed
qed simp

lemma all_closure_types_eats:
  "M < N \<Longrightarrow> wells ns \<Longrightarrow> eats 0 wells (\<lambda>d. closure_types (Suc (length (Mangled d))) rec ns d) M"
  by (rule eatsI) (use closure_types_eats in \<open>auto intro: eatsD [OF _ order_refl] simp del: closure_types.simps\<close>)

lemma demangleFuncSigSpecializationClosureProp_eats:
  "M < N \<Longrightarrow> eats 0 wells (demangleFuncSigSpecializationClosureProp_old rec) M"
  unfolding demangleFuncSigSpecializationClosureProp_old_def
  by (intro all_closure_types_eats [THEN eats_child] eats_intros) auto

lemma specialization_option_eats: "eats 0 (\<lambda>_. True) (specialization_option t k) M"
  unfolding specialization_option_def by (intro eats_intros) auto

lemma specialization_param_eats: "M < N \<Longrightarrow> eats 1 wells (specialization_param rec) M"
  unfolding specialization_param_def Let_def
  by (intro demangleFuncSigSpecializationConstantProp_eats [THEN eats_tail] demangleFuncSigSpecializationClosureProp_eats [THEN eats_tail]
      specialization_option_eats [THEN eats_child] eats_intros) auto

lemma demangleFunctionSignatureSpecialization_eats:
  "M < N \<Longrightarrow> wells ns \<Longrightarrow> eats 1 wells (demangleFunctionSignatureSpecialization_old rec ns) M"
  unfolding demangleFunctionSignatureSpecialization_old_def
  by (intro eats_while [where I = "\<lambda>(ns, count). wells ns", THEN eats_child])
    (auto simp: well_Node kind_defs intro!: specialization_param_eats [THEN eats_child] eats_intros)

lemma specialization_head_eats: "eats 1 wells specialization_head M"
  unfolding specialization_head_def by (intro eats_nodes eats_intros) (auto simp: well_Node kind_defs)

lemma demangleSpecializedAttribute_eats: "M \<le> N \<Longrightarrow> eats 1 well (demangleSpecializedAttribute_old rec) M"
  unfolding demangleSpecializedAttribute_old_def Let_def
  by (intro specialization_head_eats [THEN eats_child] demangleGenericSpecialization_eats [THEN eats_child]
      demangleFunctionSignatureSpecialization_eats [THEN eats_child] eats_intros) (auto simp: well_Node kind_defs)

section \<open>Global symbols\<close>

lemma demangleReabstractSignature_eats:
  "M < N \<Longrightarrow> other_kind kind \<Longrightarrow> eats 1 well (demangleReabstractSignature_old rec kind) M"
  unfolding demangleReabstractSignature_old_def by (intro eats_nodes eats_intros) (auto simp: well_Node)

lemma conformance_symbol_eats:
  "M < N \<Longrightarrow> other_kind kind \<Longrightarrow> eats 1 well (with_conformance_old rec kind) M"
  "M < N \<Longrightarrow> other_kind kind \<Longrightarrow> eats 1 well (type_with_conformance rec kind) M"
  unfolding with_conformance_old_def type_with_conformance_def by (intro eats_intros; simp add: well_Node)+

lemma metadata_symbol_eats: "M < N \<Longrightarrow> eats 1 well (metadata_symbol rec) M"
  unfolding metadata_symbol_def by (intro eats_intros) (auto simp: well_Node kind_defs)

lemma forwarder_symbol_eats: "M < N \<Longrightarrow> other_kind kind \<Longrightarrow> eats 0 well (forwarder_symbol rec kind) M"
  unfolding forwarder_symbol_def by (intro eats_intros) (auto simp: well_Node)

lemma witness_symbol_eats: "M < N \<Longrightarrow> eats 1 well (witness_symbol rec) M"
  unfolding witness_symbol_def
  by (intro conformance_symbol_eats [THEN eats_tail] eats_intros) (auto simp: well_Node kind_defs)

lemma thunk_symbol_eats: "M < N \<Longrightarrow> eats 1 well (thunk_symbol rec) M"
  unfolding thunk_symbol_def
  by (intro demangleReabstractSignature_eats [THEN eats_tail] eats_intros) (auto simp: well_Node kind_defs)

lemma demangleGlobal_eats: "M \<le> N \<Longrightarrow> eats 1 well (demangleGlobal_old rec) M"
  unfolding demangleGlobal_old_def
  by (intro metadata_symbol_eats [THEN eats_tail] forwarder_symbol_eats [THEN eats_tail] witness_symbol_eats [THEN eats_tail]
      thunk_symbol_eats [THEN eats_tail] eats_intros) (auto simp: well_Node kind_defs)

text \<open>What one more level of nesting gives.\<close>

lemma handlers_eats:
  "M \<le> N \<Longrightarrow> eats 1 well (case c of TypeImplCall \<Rightarrow> demangleTypeImpl_old rec | ContextCall \<Rightarrow> demangleContext_old rec
     | ArchetypeTypeCall \<Rightarrow> demangleArchetypeType_old rec | GlobalCall \<Rightarrow> demangleGlobal_old rec) M"
  using demangleTypeImpl_eats demangleContext_eats demangleArchetypeType_eats demangleGlobal_eats by (cases c) simp_all

lemma specialized_attributes_eats:
  "M < n \<Longrightarrow> M \<le> N \<Longrightarrow> wells ns \<Longrightarrow> eats 1 wells (specialized_attributes n rec ns) M"
proof (induction n arbitrary: M ns)
  case (Suc n)
  have c: "wells ns \<Longrightarrow> eats 0 wells (clear_substitutions ns) L" for ns L
    by (simp add: eats_def clear_substitutions_def oinv_def)
  have "eats 1 wells (child (child (demangleSpecializedAttribute_old rec) (\<lambda>spec. clear_substitutions (ns @ [spec]))) (\<lambda>ns.
       next_if ''_TTS'' (specialized_attributes n rec ns) (ret ns))) M"
    using Suc.prems
    by (intro eats_child [where s = 1 and P = wells] demangleSpecializedAttribute_eats [THEN eats_child]
        c [THEN eats_tail] eats_next_if eats_ret Suc.IH [THEN eats_tail]) auto
  then show ?case by (simp add: eats_def)
qed simp

lemma top_level_attributes_eats: "M \<le> N \<Longrightarrow> eats 0 wells (top_level_attributes rec) M"
proof -
  assume "M \<le> N"
  have "eats 0 wells (\<lambda>d. specialized_attributes (Suc (length (Mangled d))) rec [] d) L" if "L \<le> N" for L
  proof (rule eatsI)
    fix d assume d: "length (Mangled d) \<le> L" "oinv d"
    then have "eats 1 wells (specialized_attributes (Suc (length (Mangled d))) rec []) (length (Mangled d))"
      using that by (intro specialized_attributes_eats) auto
    from eatsD [OF this order_refl d(2)]
    show "okay 0 wells (length (Mangled d)) (specialized_attributes (Suc (length (Mangled d))) rec [] d)"
      by (rule okay_weak) auto
  qed
  with \<open>M \<le> N\<close> show ?thesis
    unfolding top_level_attributes_def by (intro eats_nodes eats_intros) (auto simp: well_Node kind_defs)
qed

lemma take_suffix_eats: "eats 0 wells take_suffix M"
  by (auto simp: eats_def take_suffix_def oinv_def well_Node kind_defs)

lemma demangleTopLevel_eats: "M \<le> N \<Longrightarrow> eats 1 old_root (demangleTopLevel_old rec) M"
  unfolding demangleTopLevel_old_def
  by (intro top_level_attributes_eats [THEN eats_child] take_suffix_eats [THEN eats_child] eats_intros)
    (auto simp: well_Node kind_defs old_root_def getNumChildren_def)

end

section \<open>The parser ends\<close>

lemma nested_calls_old: "nested_calls (old_parse n) n"
proof (induction n)
  case (Suc n)
  show ?case
  proof (unfold_locales)
    fix M c assume "M < Suc n"
    then have "M \<le> n" by simp
    from nested_calls.handlers_eats [OF Suc this, of c] show "eats 1 well (old_parse (Suc n) c) M"
      by (simp add: eats_def)
  qed
qed (unfold_locales, simp)

interpretation old_calls: nested_calls "old_parse n" n for n
  by (rule nested_calls_old)

lemma demangleOldSymbol_okay: "okay 1 old_root (length name) (demangleOldSymbolAsNode name)"
proof -
  have "eats 1 old_root (demangleTopLevel_old (old_parse (Suc (length name)))) (length name)"
    by (rule old_calls.demangleTopLevel_eats) simp
  from eatsD [OF this, of "new_old_demangler name"] show ?thesis
    by (simp add: demangleOldSymbolAsNode_def new_old_demangler_def oinv_def)
qed

lemma demangleOldSymbol_prefix: "take 2 name \<noteq> ''_T'' \<Longrightarrow> demangleOldSymbolAsNode name = Null (new_old_demangler name)"
  by (simp add: demangleOldSymbolAsNode_def demangleTopLevel_old_def next_if_def starts_with_def new_old_demangler_def
    fail_def numeral_2_eq_2)

section \<open>A signature that ends too early\<close>

text \<open>The loop over the parameter counts looks at the next character without a test for the end.\<close>

lemma starts_with_Cons:
  "starts_with (c # t) [] \<longleftrightarrow> False" "starts_with (c # t) (x # s) \<longleftrightarrow> c = x \<and> starts_with t s" "starts_with [] s"
  by (auto simp: starts_with_def)

lemma param_counts_z:
  "n \<le> k \<Longrightarrow> Mangled d = replicate n (CHR ''z'') \<Longrightarrow> param_counts (Suc k) sig count d = Trap"
proof (induction n arbitrary: k sig count d)
  case (Suc n)
  then obtain k' where "k = Suc k'" by (cases k) auto
  with Suc show ?case
    by (simp add: peek_char_def next_if_def starts_with_Cons advanceOffset_def child_def ret_def
      param_counts.simps(2) [of "Suc k'"] del: param_counts.simps)
qed (simp add: peek_char_def)

lemma signature_trap: "Mangled d = replicate n (CHR ''z'') \<Longrightarrow> demangleGenericSignature_old b rec d = Trap"
  by (simp add: demangleGenericSignature_old_def Let_def child_def param_counts_z [of n n] del: param_counts.simps)

lemma impl_trap:
  "Mangled d = CHR ''u'' # replicate n (CHR ''z'') \<Longrightarrow> demangleTypeImpl_old rec d = Trap"
  by (simp add: demangleTypeImpl_old_def at_end_def next_char_def child_def signature_trap [where n = n])

lemma global_trap:
  assumes "Mangled d = CHR ''t'' # s" "\<And>d. Mangled d = s \<Longrightarrow> rec TypeImplCall d = Trap"
  shows "demangleGlobal_old rec d = Trap"
  using assms by (simp add: demangleGlobal_old_def at_end_def next_if_def starts_with_Cons advanceOffset_def
    wrap_type_def demangleType_old_def child_def)

lemma signature_symbol_trap: "demangleOldSymbolAsNode (''_Ttu'' @ replicate n (CHR ''z'')) = Trap"
  (is "demangleOldSymbolAsNode ?s = _")
proof -
  have l: "length ?s = Suc (Suc (n + 2))" by simp
  have a: "top_level_attributes rec d = Got [] d" if "Mangled d = CHR ''t'' # s" for rec d s
    using that by (simp add: top_level_attributes_def next_if_def starts_with_Cons ret_def)
  have "old_parse (Suc k) TypeImplCall d = Trap" if "Mangled d = CHR ''u'' # replicate n (CHR ''z'')" for d k
    using impl_trap [OF that] by simp
  then have g: "old_parse (Suc (Suc k)) GlobalCall d = Trap" if "Mangled d = CHR ''t'' # CHR ''u'' # replicate n (CHR ''z'')" for d k
    using global_trap [OF that, of "old_parse (Suc k)"] by simp
  show ?thesis unfolding demangleOldSymbolAsNode_def demangleTopLevel_old_def l
    by (simp add: new_old_demangler_def next_if_def starts_with_Cons advanceOffset_def child_def a g del: old_parse.simps)
qed

end
