(* ===== verification/Demangle_Context.thy ===== *)
theory Demangle_Context
  imports Symbol_Roundtrip Old_Demangler_Calls
begin

text \<open>
  \<open>class Context\<close> of \<open>Context.cpp\<close>: it owns a demangler, chooses between the two mangling schemes and
  classifies symbols. The demangler is the state; a trap of either demangler is \<open>None\<close>.
\<close>

section \<open>The operations\<close>

definition isMangledName :: "string \<Rightarrow> bool option" where
  "isMangledName mangledName = map_option (\<lambda>n. n \<noteq> 0) (getManglingPrefixLength mangledName)"

definition endswith :: "string \<Rightarrow> string \<Rightarrow> bool" where
  "endswith s t \<longleftrightarrow> length t \<le> length s \<and> drop (length s - length t) s = t"

definition old_symbol :: "string \<Rightarrow> demangler \<Rightarrow> node option result" where
  "old_symbol MangledName d =
     (case demangleOldSymbolAsNode MangledName of
        Got n _ \<Rightarrow> Some (Some n, d)
      | Null _ \<Rightarrow> Some (None, d)
      | _ \<Rightarrow> None)"

definition Context_demangleSymbolAsNode :: "string \<Rightarrow> demangler \<Rightarrow> node option result" where
  "Context_demangleSymbolAsNode MangledName d = do {
     b \<leftarrow> isMangledName MangledName;
     if b then demangleSymbol MangledName d else old_symbol MangledName d
   }"

definition Context_demangleTypeAsNode :: "string \<Rightarrow> demangler \<Rightarrow> node option result" where
  "Context_demangleTypeAsNode MangledName d = demangleType MangledName d"

definition thunk_suffixes :: "string list" where
  "thunk_suffixes = [''TA'', ''Ta'', ''To'', ''TO'', ''TR'', ''Tr'', ''TW'']"

definition thunk_kinds :: "node_kind list" where
  "thunk_kinds = [K_ObjCAttribute, K_NonObjCAttribute, K_PartialApplyObjCForwarder, K_PartialApplyForwarder,
     K_ReabstractionThunkHelper, K_ReabstractionThunk, K_ProtocolWitness]"

definition old_thunk_prefix :: "string \<Rightarrow> bool" where
  "old_thunk_prefix Remaining \<longleftrightarrow>
     list_ex (\<lambda>p. starts_with p Remaining) [''To'', ''TO'', ''PA_'', ''PAo_'']"

definition Context_isThunkSymbol :: "string \<Rightarrow> demangler \<Rightarrow> bool result" where
  "Context_isThunkSymbol MangledName d = do {
     b \<leftarrow> isMangledName MangledName;
     if b then
       if list_ex (endswith MangledName) thunk_suffixes then do {
         (Nd, d) \<leftarrow> demangleSymbol MangledName d;
         case Nd of
           None \<Rightarrow> Some (False, d)
         | Some Nd \<Rightarrow>
             if getKind Nd \<noteq> K_Global \<or> getNumChildren Nd = 0 then Some (False, d)
             else do {
               c \<leftarrow> getFirstChild Nd;
               Some (getKind c \<in> set thunk_kinds, d)
             }
       }
       else Some (False, d)
     else Some (starts_with ''_T'' MangledName \<and> old_thunk_prefix (drop 2 MangledName), d)
   }"

definition Context_getThunkTarget :: "string \<Rightarrow> demangler \<Rightarrow> string result" where
  "Context_getThunkTarget MangledName d = do {
     (thunk, d) \<leftarrow> Context_isThunkSymbol MangledName d;
     if \<not> thunk then Some ([], d)
     else do {
       b \<leftarrow> isMangledName MangledName;
       if b then
         if list_ex (endswith MangledName) [''TR'', ''Tr'', ''TW''] then Some ([], d)
         else Some (take (length MangledName - 2) MangledName, d)
       else do {
         assert_that (starts_with ''_T'' MangledName);
         let Remaining = drop 2 MangledName;
         if starts_with ''PA_'' Remaining then Some (drop 3 Remaining, d)
         else if starts_with ''PAo_'' Remaining then Some (drop 4 Remaining, d)
         else do {
           assert_that (starts_with ''To'' Remaining \<or> starts_with ''TO'' Remaining);
           Some (''_T'' @ drop 2 Remaining, d)
         }
       }
     }
   }"

definition other_convention_kinds :: "node_kind list" where
  "other_convention_kinds = [K_TypeMetadataAccessFunction, K_ValueWitness, K_ProtocolWitnessTableAccessor,
     K_GenericProtocolWitnessTableInstantiationFunction, K_LazyProtocolWitnessTableAccessor,
     K_AssociatedTypeMetadataAccessor, K_AssociatedTypeWitnessTableAccessor, K_ObjCAttribute]"

definition Context_hasSwiftCallingConvention :: "string \<Rightarrow> demangler \<Rightarrow> bool result" where
  "Context_hasSwiftCallingConvention MangledName d = do {
     (Global, d) \<leftarrow> Context_demangleSymbolAsNode MangledName d;
     case Global of
       None \<Rightarrow> Some (False, d)
     | Some Global \<Rightarrow>
         if getKind Global \<noteq> K_Global \<or> getNumChildren Global = 0 then Some (False, d)
         else do {
           TopLevel \<leftarrow> getFirstChild Global;
           Some (getKind TopLevel \<notin> set other_convention_kinds, d)
         }
   }"

section \<open>The trees that a context sees\<close>

text \<open>Both demanglers return a \<open>Global\<close> node with children, so the guards on the root never fire.\<close>

definition root_post :: "node option result \<Rightarrow> bool" where
  "root_post r \<longleftrightarrow> (\<forall>n d. r = Some (Some n, d) \<longrightarrow> getKind n = K_Global \<and> getNumChildren n \<noteq> 0)"

lemma root_post_simps [simp]: "root_post None" "root_post (Some (None, d))"
  "root_post (Some (Some n, d)) \<longleftrightarrow> getKind n = K_Global \<and> getNumChildren n \<noteq> 0"
  by (simp_all add: root_post_def)

lemma root_post_bind: "(\<And>x. m = Some x \<Longrightarrow> root_post (f x)) \<Longrightarrow> root_post (m \<bind> f)"
  by (cases m) simp_all

lemma demangleObjCTypeName_root: "root_post (demangleObjCTypeName d)"
  unfolding demangleObjCTypeName_def Let_def
  by (simp add: getNumChildren_def split: prod.split option.split bind_split if_split)

lemma demangleSymbol_root: "root_post (demangleSymbol name d)"
  unfolding demangleSymbol_def Let_def
  by (simp add: demangleObjCTypeName_root split: prod.split option.split bind_split if_split)

lemma old_symbol_root:
  assumes "old_symbol name d = Some (Some n, d')"
  shows "getKind n = K_Global \<and> getNumChildren n \<noteq> 0"
proof -
  from assms obtain s where "demangleOldSymbolAsNode name = Got n s"
    by (auto simp: old_symbol_def split: outcome.splits)
  with demangleOldSymbol_okay [of name] show ?thesis by (simp add: old_root_def)
qed

lemma context_symbol_root:
  "Context_demangleSymbolAsNode name d = Some (Some n, d') \<Longrightarrow> getKind n = K_Global \<and> getNumChildren n \<noteq> 0"
  by (auto simp: Context_demangleSymbolAsNode_def bind_eq_Some_iff split: if_splits
    dest: demangleSymbol_root [unfolded root_post_def, rule_format] old_symbol_root)

lemma calling_convention_first_child:
  "Context_hasSwiftCallingConvention name d =
     map_option (\<lambda>(r, d). (case r of None \<Rightarrow> False | Some n \<Rightarrow> getKind (hd (children n)) \<notin> set other_convention_kinds, d))
       (Context_demangleSymbolAsNode name d)"
proof (cases "Context_demangleSymbolAsNode name d")
  case (Some a)
  obtain r d' where a: "a = (r, d')" by force
  show ?thesis
  proof (cases r)
    case (Some n)
    with a \<open>Context_demangleSymbolAsNode name d = Some a\<close> have n: "getKind n = K_Global" "getNumChildren n \<noteq> 0"
      using context_symbol_root [of name d n d'] by simp_all
    then obtain c cs where "children n = c # cs" by (cases "children n") (auto simp: getNumChildren_def)
    with n a Some \<open>Context_demangleSymbolAsNode name d = Some a\<close> show ?thesis
      by (simp add: Context_hasSwiftCallingConvention_def getFirstChild_def getNumChildren_def)
  qed (use a Some in \<open>simp add: Context_hasSwiftCallingConvention_def\<close>)
qed (simp add: Context_hasSwiftCallingConvention_def)

section \<open>Thunks of symbols that the remangler has written\<close>

lemma written_prefix: "written M xs \<Longrightarrow> isMangledName (Buffer M) = Some True"
  by (auto simp: written_def isMangledName_def getManglingPrefixLength_def)

lemma written_symbol:
  assumes "attributes as" "item c x" "size c < 2147483648"
  obtains M d' where "mangle (Node K_Global NoPayload (as @ [c])) new_remangler = Some M" "written M (as @ [x])"
    "demangleSymbol (Buffer M) d = Some (Some (Node K_Global NoPayload (as @ [c])), d')"
  using symbol_written [OF assms] demangle_written [OF _ assms(1,2)] by metis

text \<open>The first attribute is written last.\<close>

lemma first_attribute_last:
  assumes "attributes (Node k NoPayload [] # as)" "item c x" "size c < 2147483648" "(s, k) \<in> set attribute_table"
    "mangle (Node K_Global NoPayload (as @ [c])) new_remangler = Some M"
  shows "mangle (Node K_Global NoPayload ((Node k NoPayload [] # as) @ [c])) new_remangler = Some (emit s M)"
proof -
  have flags: "\<forall>a \<in> set as. mangled_after_entity (getKind a)" "\<not> mangled_after_entity (getKind c)"
    using assms(1) attribute_kinds item_nodes(2) [OF assms(2)] after_entity_attribute by auto
  have m: "mangle c (emit ''$S'' new_remangler) \<bind> (\<lambda>M. if as \<noteq> [] then mangleNodes mangle (rev as) M else Some M) = Some M"
    using assms(5) global_attributes [OF flags, of mangle "[]" False] by (simp add: handlers_at mangleGlobal_def cong: if_cong)
  then obtain M1 where M1: "mangle c (emit ''$S'' new_remangler) = Some M1" "mangleNodes mangle (rev as) M1 = Some M"
    by (auto simp: bind_eq_Some_iff split: if_splits)
  have "mangled_after_entity k" using attribute_kinds [OF assms(4)] by simp
  with flags M1 show ?thesis
    using global_attributes [of "Node k NoPayload [] # as" c mangle "[]" False] mangle_attribute [OF assms(4)]
    by (simp add: handlers_at mangleGlobal_def mangleNodes_append)
qed

lemma thunk_target:
  assumes "attributes (Node k NoPayload [] # as)" "item c x" "size c < 2147483648" "k \<in> {K_ObjCAttribute, K_NonObjCAttribute}"
    "mangleNode (Some (Node K_Global NoPayload (as @ [c]))) = Some t"
    "mangleNode (Some (Node K_Global NoPayload ((Node k NoPayload [] # as) @ [c]))) = Some s"
  shows "\<exists>d'. Context_getThunkTarget s d = Some (t, d')"
proof -
  have "\<exists>e. (e, k) \<in> set attribute_table \<and> (e = ''To'' \<or> e = ''TO'')"
    using assms(4) by (elim insertE emptyE) (simp_all add: attribute_table_def)
  then obtain e where e: "(e, k) \<in> set attribute_table" "e = ''To'' \<or> e = ''TO''" by blast
  from assms(5) obtain M where M: "mangle (Node K_Global NoPayload (as @ [c])) new_remangler = Some M" "t = Buffer M"
    by (auto simp: mangleNode_def bind_eq_Some_iff)
  from first_attribute_last [OF assms(1-3) e(1) M(1)] assms(6) have s: "s = t @ e"
    by (simp add: mangleNode_def M(2) emit_def)
  obtain M' d' where M': "mangle (Node K_Global NoPayload ((Node k NoPayload [] # as) @ [c])) new_remangler = Some M'"
    "written M' ((Node k NoPayload [] # as) @ [x])"
    "demangleSymbol (Buffer M') d = Some (Some (Node K_Global NoPayload ((Node k NoPayload [] # as) @ [c])), d')"
    by (rule written_symbol [OF assms(1-3)])
  with assms(6) have b: "Buffer M' = s" by (simp add: mangleNode_def)
  have "isMangledName s = Some True" using written_prefix [OF M'(2)] b by simp
  moreover have "list_ex (endswith s) thunk_suffixes" "\<not> list_ex (endswith s) [''TR'', ''Tr'', ''TW'']"
    using e(2) by (elim disjE; simp add: s thunk_suffixes_def endswith_def)+
  moreover have "k \<in> set thunk_kinds" using assms(4) by (auto simp: thunk_kinds_def)
  moreover have "take (length s - 2) s = t" using e(2) by (elim disjE) (simp_all add: s)
  ultimately show ?thesis using M'(3) b
    by (simp add: Context_getThunkTarget_def Context_isThunkSymbol_def getNumChildren_def getFirstChild_def)
qed

lemma item_not_thunk:
  assumes "item c x"
  shows "getKind c \<notin> set thunk_kinds"
  using assms
proof cases
  case item_type
  then show ?thesis using is_type_kinds [of c] by (auto simp: type_kinds_def thunk_kinds_def)
next
  case item_entity
  then show ?thesis using entity_kind [of c] by (auto simp: isContext_def thunk_kinds_def)
qed (auto simp: metadata_table_def thunk_table_def thunk_kinds_def)

lemma thunk_by_first_child:
  assumes "isMangledName s = Some True" "demangleSymbol s d = Some (Some (Node K_Global NoPayload (n # ns)), d')"
    "getKind n \<in> set thunk_kinds \<Longrightarrow> list_ex (endswith s) thunk_suffixes"
  shows "\<exists>d''. Context_isThunkSymbol s d = Some (getKind n \<in> set thunk_kinds, d'')"
  using assms
  by (cases "list_ex (endswith s) thunk_suffixes")
    (auto simp: Context_isThunkSymbol_def getNumChildren_def getFirstChild_def)

lemma thunk_symbol_kind:
  assumes "attributes as" "item c x" "size c < 2147483648"
    "mangleNode (Some (Node K_Global NoPayload (as @ [c]))) = Some s"
  shows "\<exists>d'. Context_isThunkSymbol s d =
    Some (as \<noteq> [] \<and> getKind (hd as) \<in> {K_ObjCAttribute, K_NonObjCAttribute}, d')"
proof -
  obtain M d' where M: "mangle (Node K_Global NoPayload (as @ [c])) new_remangler = Some M" "written M (as @ [x])"
    "demangleSymbol (Buffer M) d = Some (Some (Node K_Global NoPayload (as @ [c])), d')"
    by (rule written_symbol [OF assms(1-3)])
  with assms(4) have b: "Buffer M = s" by (simp add: mangleNode_def)
  with written_prefix [OF M(2)] have m: "isMangledName s = Some True" by simp
  show ?thesis
  proof (cases as)
    case Nil
    with M(3) b have "demangleSymbol s d = Some (Some (Node K_Global NoPayload (c # [])), d')" by simp
    from thunk_by_first_child [OF m this] item_not_thunk [OF assms(2)] Nil show ?thesis by simp
  next
    case (Cons a as')
    then obtain e k where a: "a = Node k NoPayload []" "(e, k) \<in> set attribute_table" using assms(1) by auto
    have "attributes as'" using assms(1) Cons by simp
    from symbol_written [OF this assms(2,3)] obtain M' where
      M': "mangle (Node K_Global NoPayload (as' @ [c])) new_remangler = Some M'" by blast
    from first_attribute_last [OF _ assms(2,3) a(2) M'] assms(1) Cons a(1) M(1) have "M = emit e M'" by simp
    then have s: "s = Buffer M' @ e" using b by (simp add: emit_def)
    have k: "k \<in> set thunk_kinds \<longleftrightarrow> k \<in> {K_ObjCAttribute, K_NonObjCAttribute}"
      using a(2) by (auto simp: attribute_table_def thunk_kinds_def)
    have "list_ex (endswith s) thunk_suffixes" if "k \<in> {K_ObjCAttribute, K_NonObjCAttribute}"
    proof -
      have "e = ''To'' \<or> e = ''TO''" using a(2) that unfolding attribute_table_def list.set by (elim insertE) simp_all
      then show ?thesis by (elim disjE; simp add: s thunk_suffixes_def endswith_def)
    qed
    moreover have "demangleSymbol s d = Some (Some (Node K_Global NoPayload (a # as' @ [c])), d')" using M(3) b Cons by simp
    ultimately show ?thesis using thunk_by_first_child [OF m, of d a] a(1) k Cons by simp
  qed
qed

lemma symbol_calling_convention:
  assumes "attributes as" "item c x" "size c < 2147483648"
    "mangleNode (Some (Node K_Global NoPayload (as @ [c]))) = Some s"
  shows "\<exists>d'. Context_hasSwiftCallingConvention s d =
    Some (getKind (hd (as @ [c])) \<notin> {K_ObjCAttribute, K_TypeMetadataAccessFunction}, d')"
proof -
  obtain M d' where M: "mangle (Node K_Global NoPayload (as @ [c])) new_remangler = Some M" "written M (as @ [x])"
    "demangleSymbol (Buffer M) d = Some (Some (Node K_Global NoPayload (as @ [c])), d')"
    by (rule written_symbol [OF assms(1-3)])
  with assms(4) have b: "Buffer M = s" by (simp add: mangleNode_def)
  have "Context_demangleSymbolAsNode s d = Some (Some (Node K_Global NoPayload (as @ [c])), d')"
    using M(3) b written_prefix [OF M(2)] by (simp add: Context_demangleSymbolAsNode_def)
  moreover have "getKind n \<in> set other_convention_kinds \<longleftrightarrow> getKind n \<in> {K_ObjCAttribute, K_TypeMetadataAccessFunction}"
    if "n = hd (as @ [c])" for n
  proof (cases as)
    case Nil
    with that have n: "n = c" by simp
    show ?thesis using assms(2)
    proof cases
      case item_type
      then show ?thesis using is_type_kinds [of c] n by (auto simp: type_kinds_def other_convention_kinds_def)
    next
      case item_entity
      then show ?thesis using entity_kind [of c] n by (auto simp: isContext_def other_convention_kinds_def)
    qed (use n in \<open>auto simp: metadata_table_def thunk_table_def other_convention_kinds_def\<close>)
  next
    case (Cons a as')
    then obtain e k where "a = Node k NoPayload []" "(e, k) \<in> set attribute_table" using assms(1) by auto
    with Cons that show ?thesis unfolding attribute_table_def list.set
      by (elim insertE) (simp_all add: other_convention_kinds_def)
  qed
  ultimately show ?thesis using calling_convention_first_child [of s d] by simp
qed

section \<open>Examples\<close>

definition example_global :: node where
  "example_global = Node K_Global NoPayload ([Node K_ObjCAttribute NoPayload []] @ [example_function])"

lemma example_attributes: "attributes [Node K_ObjCAttribute NoPayload []]"
  by (simp add: attribute_table_def)

lemma example_item: "item example_function example_function"
  using example_function_entity by (rule item_entity)

lemma example_function_size: "size example_function < 2147483648"
  by (simp add: example_function_def function_entity_def label_children_def label_list_def label_node_def example_type_def
    function_node_def throws_nodes_def example_class_def example_array_def type_list_def ident_node_def)

lemma example_global_written:
  "\<exists>s d'. mangleNode (Some example_global) = Some s \<and> Context_demangleSymbolAsNode s d = Some (Some example_global, d')"
proof -
  obtain M d' where M: "mangle example_global new_remangler = Some M" "written M ([Node K_ObjCAttribute NoPayload []] @ [example_function])"
    "demangleSymbol (Buffer M) d = Some (Some example_global, d')"
    unfolding example_global_def by (rule written_symbol [OF example_attributes example_item example_function_size])
  then show ?thesis using written_prefix [OF M(2)] by (simp add: mangleNode_def Context_demangleSymbolAsNode_def)
qed

end
