(* ===== verification/Type_Decoder.thy ===== *)
theory Type_Decoder
  imports Remangler_Fuel
begin

text \<open>
  The decoder of demangled types, \<open>TypeDecoder.h\<close> and \<open>TypeDecoder.cpp\<close>: it walks a tree and calls
  the factory functions of a builder. The template parameter is the record \<open>builder\<close>; the types it
  builds are a type variable.

  A result is \<open>None\<close> when an assertion fails, \<open>Some None\<close> for the null type \<open>BuiltType()\<close>, and
  \<open>Some (Some t)\<close> for a type.
\<close>

unbundle bit_operations_syntax

section \<open>Flags of function types and of parameters\<close>

text \<open>\<open>FunctionTypeFlags\<close> of \<open>MetadataValues.h\<close>, on a 64-bit host: the number of parameters is not
  masked when it is stored.\<close>

type_synonym function_flags = "64 word"

definition NumParametersMask :: function_flags where "NumParametersMask = 0x0000FFFF"
definition ConventionMask :: function_flags where "ConventionMask = 0x00FF0000"
definition ThrowsMask :: function_flags where "ThrowsMask = 0x01000000"
definition ParamFlagsMask :: function_flags where "ParamFlagsMask = 0x02000000"

datatype FunctionMetadataConvention = SwiftConvention | Block | Thin | CFunctionPointer

primrec convention_value :: "FunctionMetadataConvention \<Rightarrow> function_flags" where
  "convention_value SwiftConvention = 0"
| "convention_value Block = 1"
| "convention_value Thin = 2"
| "convention_value CFunctionPointer = 3"

definition withNumParameters :: "nat \<Rightarrow> function_flags \<Rightarrow> function_flags" where
  "withNumParameters numParams Data = (Data AND NOT NumParametersMask) OR word_of_nat (to_unsigned numParams)"

definition withConvention :: "FunctionMetadataConvention \<Rightarrow> function_flags \<Rightarrow> function_flags" where
  "withConvention c Data = (Data AND NOT ConventionMask) OR push_bit 16 (convention_value c)"

definition withThrows :: "bool \<Rightarrow> function_flags \<Rightarrow> function_flags" where
  "withThrows throws Data = (Data AND NOT ThrowsMask) OR (if throws then ThrowsMask else 0)"

definition withParameterFlags :: "bool \<Rightarrow> function_flags \<Rightarrow> function_flags" where
  "withParameterFlags hasFlags Data = (Data AND NOT ParamFlagsMask) OR (if hasFlags then ParamFlagsMask else 0)"

definition getNumParameters :: "function_flags \<Rightarrow> nat" where
  "getNumParameters Data = unat (Data AND NumParametersMask)"

definition getConvention :: "function_flags \<Rightarrow> function_flags" where
  "getConvention Data = drop_bit 16 (Data AND ConventionMask)"

definition flags_throws :: "function_flags \<Rightarrow> bool" where
  "flags_throws Data \<longleftrightarrow> Data AND ThrowsMask \<noteq> 0"

definition hasParameterFlags :: "function_flags \<Rightarrow> bool" where
  "hasParameterFlags Data \<longleftrightarrow> Data AND ParamFlagsMask \<noteq> 0"

type_synonym parameter_flags = "32 word"

definition InOutMask :: parameter_flags where "InOutMask = 1"
definition SharedMask :: parameter_flags where "SharedMask = 2"
definition VariadicMask :: parameter_flags where "VariadicMask = 4"

definition withInOut :: "bool \<Rightarrow> parameter_flags \<Rightarrow> parameter_flags" where
  "withInOut isInOut Data = (Data AND NOT InOutMask) OR (if isInOut then InOutMask else 0)"

definition withShared :: "bool \<Rightarrow> parameter_flags \<Rightarrow> parameter_flags" where
  "withShared isShared Data = (Data AND NOT SharedMask) OR (if isShared then SharedMask else 0)"

definition withVariadic :: "bool \<Rightarrow> parameter_flags \<Rightarrow> parameter_flags" where
  "withVariadic isVariadic Data = (Data AND NOT VariadicMask) OR (if isVariadic then VariadicMask else 0)"

datatype 'a FunctionParam = FunctionParam (param_label: string) (param_type: 'a) (param_flags: parameter_flags)

section \<open>The interface of a builder\<close>

type_synonym 'a built = "'a option option"

text \<open>\<open>'t\<close>: types, \<open>'d\<close>: declarations of nominal types, \<open>'p\<close>: declarations of protocols. A null type
  can be an argument where the code does not test it.\<close>

record ('t, 'd, 'p) builder =
  createBuiltinType :: "string \<Rightarrow> 't built"
  createNominalTypeDecl :: "node \<Rightarrow> 'd built"
  createProtocolDecl :: "node \<Rightarrow> 'p built"
  createNominalType :: "'d \<Rightarrow> 't option \<Rightarrow> 't built"
  createBoundGenericType :: "'d \<Rightarrow> 't list \<Rightarrow> 't option \<Rightarrow> 't built"
  createTupleType :: "'t list \<Rightarrow> string \<Rightarrow> bool \<Rightarrow> 't built"
  createFunctionType :: "'t FunctionParam list \<Rightarrow> 't option \<Rightarrow> function_flags \<Rightarrow> 't built"
  createProtocolCompositionType :: "'p list \<Rightarrow> 't option \<Rightarrow> bool \<Rightarrow> 't built"
  createExistentialMetatypeType :: "'t \<Rightarrow> 't built"
  createMetatypeType :: "'t \<Rightarrow> bool \<Rightarrow> 't built"
  createGenericTypeParameterType :: "nat \<Rightarrow> nat \<Rightarrow> 't built"
  createDependentMemberType :: "string \<Rightarrow> 't \<Rightarrow> 'p \<Rightarrow> 't built"
  createUnownedStorageType :: "'t \<Rightarrow> 't built"
  createUnmanagedStorageType :: "'t \<Rightarrow> 't built"
  createWeakStorageType :: "'t \<Rightarrow> 't built"
  createSILBoxType :: "'t \<Rightarrow> 't built"

abbreviation null_type :: "'a built" where
  "null_type \<equiv> Some None"

text \<open>\<open>if (!x) return BuiltType();\<close>\<close>

fun and_then :: "'a built \<Rightarrow> ('a \<Rightarrow> 'b built) \<Rightarrow> 'b built" where
  "and_then None f = None"
| "and_then (Some None) f = Some None"
| "and_then (Some (Some x)) f = f x"

text \<open>A loop over nodes that stops at the first null result.\<close>

fun decode_all :: "(node \<Rightarrow> 'a built) \<Rightarrow> node list \<Rightarrow> 'a list built" where
  "decode_all f [] = Some (Some [])"
| "decode_all f (c # cs) = and_then (f c) (\<lambda>x. and_then (decode_all f cs) (\<lambda>xs. Some (Some (x # xs))))"

section \<open>Removing generic arguments\<close>

text \<open>The result, with a flag that tells whether it is the pointer that was passed in.\<close>

fun strip_context :: "node \<Rightarrow> node \<times> bool" where
  "strip_context (Node k p cs) =
     (if is_bound_generic k then
        (case cs of
           Node t q (c # ds) # c1 # es \<Rightarrow>
             if t = K_Type then (fst (strip_context c), False) else (Node k p cs, True)
         | _ \<Rightarrow> (Node k p cs, True))
      else if is_nominal k then
        (case cs of
           c0 # c1 # ds \<Rightarrow>
             let (newContext, same) = strip_context c0
             in if same then (Node k p cs, True) else (Node k NoPayload (newContext # c1 # ds), False)
         | _ \<Rightarrow> (Node k p cs, True))
      else (Node k p cs, True))"

definition stripGenericArgsFromContextNode :: "node \<Rightarrow> node" where
  "stripGenericArgsFromContextNode nd = fst (strip_context nd)"

section \<open>Declarations\<close>

text \<open>Looking through sugar nodes: the first node of another kind below.\<close>

fun look_through :: "node_kind list \<Rightarrow> node \<Rightarrow> node option" where
  "look_through ks (Node k p []) = (if k \<in> set ks then None else Some (Node k p []))"
| "look_through ks (Node k p (c # cs)) = (if k \<in> set ks then look_through ks c else Some (Node k p (c # cs)))"

text \<open>The declaration and the parent type, which is null in a module.\<close>

definition decodeMangledNominalType ::
    "('t, 'd, 'p) builder \<Rightarrow> (node \<Rightarrow> 't built) \<Rightarrow> node \<Rightarrow> ('d \<times> 't option) built" where
  "decodeMangledNominalType B rec nd = do {
     nd \<leftarrow> look_through [K_Type] nd;
     if getNumChildren nd < 2 then null_type
     else do {
       moduleOrParentType \<leftarrow> getChild nd 0;
       if getKind moduleOrParentType \<noteq> K_Module then
         and_then (rec moduleOrParentType) (\<lambda>parent.
         and_then (createNominalTypeDecl B (stripGenericArgsFromContextNode nd)) (\<lambda>typeDecl.
         Some (Some (typeDecl, Some parent))))
       else and_then (createNominalTypeDecl B nd) (\<lambda>typeDecl. Some (Some (typeDecl, None)))
     }
   }"

definition decodeMangledProtocolType :: "('t, 'd, 'p) builder \<Rightarrow> node \<Rightarrow> 'p built" where
  "decodeMangledProtocolType B nd = do {
     nd \<leftarrow> look_through [K_Type] nd;
     if getNumChildren nd < 2 \<or> getKind nd \<noteq> K_Protocol then null_type else createProtocolDecl B nd
   }"

section \<open>Parameters of functions\<close>

text \<open>The type, the flags and whether any parameter has flags.\<close>

definition decodeParamTypeAndFlags ::
    "(node \<Rightarrow> 't built) \<Rightarrow> node \<Rightarrow> parameter_flags \<Rightarrow> bool \<Rightarrow> ('t \<times> parameter_flags \<times> bool) built" where
  "decodeParamTypeAndFlags rec typeNode flags hasParamFlags =
     (if getKind typeNode = K_InOut then do {
        nd \<leftarrow> getFirstChild typeNode;
        and_then (rec nd) (\<lambda>t. Some (Some (t, withInOut True flags, True)))
      }
      else if getKind typeNode = K_Shared then do {
        nd \<leftarrow> getFirstChild typeNode;
        and_then (rec nd) (\<lambda>t. Some (Some (t, withShared True flags, True)))
      }
      else and_then (rec typeNode) (\<lambda>t. Some (Some (t, flags, hasParamFlags))))"

text \<open>The loop over the children of a tuple element. A parameter without a type child would be copied
  with its type uninitialized: that is undefined.\<close>

fun param_children ::
    "(node \<Rightarrow> 't built) \<Rightarrow> node list \<Rightarrow> string \<Rightarrow> 't option \<Rightarrow> parameter_flags \<Rightarrow> bool \<Rightarrow>
     ('t FunctionParam \<times> bool) built" where
  "param_children rec [] label type flags hasParamFlags = do {
     t \<leftarrow> type;
     Some (Some (FunctionParam label t flags, hasParamFlags))
   }"
| "param_children rec (child # cs) label type flags hasParamFlags =
     (if getKind child = K_TupleElementName then do {
        t \<leftarrow> getText child;
        param_children rec cs t type flags hasParamFlags
      }
      else if getKind child = K_VariadicMarker then
        param_children rec cs label type (withVariadic True flags) True
      else if getKind child = K_Type then do {
        c \<leftarrow> getFirstChild child;
        and_then (decodeParamTypeAndFlags rec c flags hasParamFlags) (\<lambda>(t, flags, hasParamFlags).
          param_children rec cs label (Some t) flags hasParamFlags)
      }
      else null_type)"

definition decodeParam :: "(node \<Rightarrow> 't built) \<Rightarrow> node \<Rightarrow> bool \<Rightarrow> ('t FunctionParam \<times> bool) built" where
  "decodeParam rec paramNode hasParamFlags =
     (if getKind paramNode \<noteq> K_TupleElement then null_type
      else param_children rec (children paramNode) [] None 0 hasParamFlags)"

fun decode_params ::
    "(node \<Rightarrow> 't built) \<Rightarrow> node list \<Rightarrow> bool \<Rightarrow> ('t FunctionParam list \<times> bool) built" where
  "decode_params rec [] hasParamFlags = Some (Some ([], hasParamFlags))"
| "decode_params rec (elt # es) hasParamFlags =
     and_then (decodeParam rec elt hasParamFlags) (\<lambda>(param, hasParamFlags).
     and_then (decode_params rec es hasParamFlags) (\<lambda>(params, hasParamFlags).
     Some (Some (param # params, hasParamFlags))))"

definition decodeMangledFunctionInputType ::
    "(node \<Rightarrow> 't built) \<Rightarrow> node \<Rightarrow> ('t FunctionParam list \<times> bool) built" where
  "decodeMangledFunctionInputType rec nd = do {
     nd \<leftarrow> look_through [K_Type, K_ArgumentTuple] nd;
     if getKind nd = K_Tuple then decode_params rec (children nd) False
     else and_then (decodeParamTypeAndFlags rec nd 0 False) (\<lambda>(t, flags, hasParamFlags).
       Some (Some ([FunctionParam [] t flags], hasParamFlags)))
   }"

section \<open>Types\<close>

definition decode_child :: "(node \<Rightarrow> 't built) \<Rightarrow> nat \<Rightarrow> node \<Rightarrow> 't built" where
  "decode_child rec i nd = getChild nd i \<bind> rec"

text \<open>The many kinds that stand for their first child.\<close>

definition decode_first :: "(node \<Rightarrow> 't built) \<Rightarrow> node \<Rightarrow> 't built" where
  "decode_first rec nd = (if getNumChildren nd < 1 then null_type else decode_child rec 0 nd)"

definition decode_bound_generic :: "('t, 'd, 'p) builder \<Rightarrow> (node \<Rightarrow> 't built) \<Rightarrow> node \<Rightarrow> 't built" where
  "decode_bound_generic B rec nd =
     (if getNumChildren nd \<noteq> 2 then null_type
      else do {
        c0 \<leftarrow> getChild nd 0;
        and_then (decodeMangledNominalType B rec c0) (\<lambda>(typeDecl, parent). do {
          genericArgs \<leftarrow> getChild nd 1;
          assert_that (getKind genericArgs = K_TypeList);
          and_then (decode_all rec (children genericArgs)) (\<lambda>args. createBoundGenericType B typeDecl args parent)
        })
      })"

definition decode_instance ::
    "('t, 'd, 'p) builder \<Rightarrow> (node \<Rightarrow> 't built) \<Rightarrow> nat \<Rightarrow> bool \<Rightarrow> node \<Rightarrow> 't built" where
  "decode_instance B rec i wasAbstract nd =
     and_then (decode_child rec i nd) (\<lambda>instance.
       if getKind nd = K_Metatype then createMetatypeType B instance wasAbstract
       else createExistentialMetatypeType B instance)"

definition decode_metatype :: "('t, 'd, 'p) builder \<Rightarrow> (node \<Rightarrow> 't built) \<Rightarrow> node \<Rightarrow> 't built" where
  "decode_metatype B rec nd =
     (if getNumChildren nd = 2 then do {
        repr \<leftarrow> getChild nd 0;
        if getKind repr \<noteq> K_MetatypeRepresentation \<or> \<not> hasText repr then null_type
        else do {
          t \<leftarrow> getText repr;
          decode_instance B rec 1 (t \<noteq> ''@thin'') nd
        }
      }
      else if getNumChildren nd < 1 then null_type
      else decode_instance B rec 0 False nd)"

definition decode_protocol_list :: "('t, 'd, 'p) builder \<Rightarrow> (node \<Rightarrow> 't built) \<Rightarrow> node \<Rightarrow> 't built" where
  "decode_protocol_list B rec nd =
     (if getNumChildren nd < 1 then null_type
      else do {
        TypeList \<leftarrow> getChild nd 0;
        TypeList \<leftarrow> (if getKind TypeList = K_ProtocolList \<and> getNumChildren TypeList \<ge> 1
                     then getChild TypeList 0 else Some TypeList);
        and_then (decode_all (decodeMangledProtocolType B) (children TypeList)) (\<lambda>Protocols.
          if getKind nd = K_ProtocolListWithClass then
            (if getNumChildren nd < 2 then null_type
             else and_then (decode_child rec 1 nd) (\<lambda>Superclass.
               createProtocolCompositionType B Protocols (Some Superclass) True))
          else createProtocolCompositionType B Protocols None (getKind nd = K_ProtocolListWithAnyObject))
      })"

definition decode_protocol :: "('t, 'd, 'p) builder \<Rightarrow> node \<Rightarrow> 't built" where
  "decode_protocol B nd =
     and_then (decodeMangledProtocolType B nd) (\<lambda>Proto. createProtocolCompositionType B [Proto] None False)"

definition decode_generic_param :: "('t, 'd, 'p) builder \<Rightarrow> node \<Rightarrow> 't built" where
  "decode_generic_param B nd = do {
     depth \<leftarrow> getChild nd 0 \<bind> getIndex;
     index \<leftarrow> getChild nd 1 \<bind> getIndex;
     createGenericTypeParameterType B (to_unsigned depth) (to_unsigned index)
   }"

definition function_convention :: "node_kind \<Rightarrow> function_flags" where
  "function_convention kind =
     (if kind = K_ObjCBlock then withConvention Block 0
      else if kind = K_CFunctionPointer then withConvention CFunctionPointer 0
      else if kind = K_ThinFunctionType then withConvention Thin 0
      else 0)"

definition decode_function :: "('t, 'd, 'p) builder \<Rightarrow> (node \<Rightarrow> 't built) \<Rightarrow> node \<Rightarrow> 't built" where
  "decode_function B rec nd =
     (if getNumChildren nd < 2 then null_type
      else do {
        c0 \<leftarrow> getChild nd 0;
        let isThrow = (getKind c0 = K_ThrowsAnnotation);
        let flags = withThrows isThrow (function_convention (getKind nd));
        if isThrow \<and> getNumChildren nd < 3 then null_type
        else do {
          input \<leftarrow> getChild nd (if isThrow then 1 else 0);
          and_then (decodeMangledFunctionInputType rec input) (\<lambda>(parameters, hasParamFlags).
          and_then (decode_child rec (if isThrow then 2 else 1) nd) (\<lambda>result.
          createFunctionType B parameters (Some result)
            (withParameterFlags hasParamFlags (withNumParameters (length parameters) flags))))
        }
      })"

fun impl_function_flags :: "node list \<Rightarrow> function_flags \<Rightarrow> function_flags built" where
  "impl_function_flags [] flags = Some (Some flags)"
| "impl_function_flags (child # cs) flags =
     (if getKind child = K_ImplConvention then
        (case getText child of
           None \<Rightarrow> null_type
         | Some t \<Rightarrow> impl_function_flags cs (if t = ''@convention(thin)'' then withConvention Thin flags else flags))
      else if getKind child = K_ImplFunctionAttribute then
        (case getText child of
           None \<Rightarrow> null_type
         | Some t \<Rightarrow> impl_function_flags cs
             (if t = ''@convention(c)'' then withConvention CFunctionPointer flags
              else if t = ''@convention(block)'' then withConvention Block flags
              else flags))
      else impl_function_flags cs flags)"

definition decode_impl_function :: "('t, 'd, 'p) builder \<Rightarrow> node \<Rightarrow> 't built" where
  "decode_impl_function B nd =
     and_then (impl_function_flags (children nd) 0) (\<lambda>flags. do {
       result \<leftarrow> createTupleType B [] [] False;
       createFunctionType B [] result flags
     })"

text \<open>The label is read from child 0, also behind a variadic marker.\<close>

fun tuple_elements ::
    "(node \<Rightarrow> 't built) \<Rightarrow> node list \<Rightarrow> 't list \<Rightarrow> string \<Rightarrow> bool \<Rightarrow> ('t list \<times> string \<times> bool) built" where
  "tuple_elements rec [] elements labels variadic = Some (Some (elements, labels, variadic))"
| "tuple_elements rec (element # es) elements labels variadic =
     (if getKind element \<noteq> K_TupleElement then null_type
      else do {
        c0 \<leftarrow> getChild element 0;
        let isVariadic = (getKind c0 = K_VariadicMarker);
        let nameIdx = (if isVariadic then 1 else 0);
        name \<leftarrow> getChild element nameIdx;
        (labels, typeChildIndex) \<leftarrow>
          (if getKind name = K_TupleElementName then do {
             t \<leftarrow> getText c0;
             Some ((if labels = [] then replicate (length elements) CHR '' '' else labels) @ t @ '' '', nameIdx + 1)
           }
           else Some (if labels \<noteq> [] then labels @ '' '' else labels, nameIdx));
        and_then (decode_child rec typeChildIndex element) (\<lambda>elementType.
          tuple_elements rec es (elements @ [elementType]) labels (variadic \<or> isVariadic))
      })"

definition decode_tuple :: "('t, 'd, 'p) builder \<Rightarrow> (node \<Rightarrow> 't built) \<Rightarrow> node \<Rightarrow> 't built" where
  "decode_tuple B rec nd =
     and_then (tuple_elements rec (children nd) [] [] False) (\<lambda>(elements, labels, variadic).
       createTupleType B elements labels variadic)"

definition decode_tuple_element :: "(node \<Rightarrow> 't built) \<Rightarrow> node \<Rightarrow> 't built" where
  "decode_tuple_element rec nd =
     (if getNumChildren nd < 1 then null_type
      else do {
        c0 \<leftarrow> getChild nd 0;
        if getKind c0 = K_TupleElementName then
          if getNumChildren nd < 2 then null_type else decode_child rec 1 nd
        else decode_child rec 0 nd
      })"

definition decode_member :: "('t, 'd, 'p) builder \<Rightarrow> (node \<Rightarrow> 't built) \<Rightarrow> node \<Rightarrow> 't built" where
  "decode_member B rec nd =
     (if getNumChildren nd < 2 then null_type
      else and_then (decode_child rec 0 nd) (\<lambda>b. do {
        assocTypeChild \<leftarrow> getChild nd 1;
        member \<leftarrow> getText assocTypeChild;
        if getNumChildren assocTypeChild < 1 then null_type
        else do {
          c \<leftarrow> getChild assocTypeChild 0;
          and_then (decodeMangledProtocolType B c) (\<lambda>protocol. createDependentMemberType B member b protocol)
        }
      }))"

definition decode_wrapped :: "('t \<Rightarrow> 't built) \<Rightarrow> (node \<Rightarrow> 't built) \<Rightarrow> node \<Rightarrow> 't built" where
  "decode_wrapped create rec nd = and_then (decode_first rec nd) create"

definition decode_node :: "('t, 'd, 'p) builder \<Rightarrow> (node \<Rightarrow> 't built) \<Rightarrow> node \<Rightarrow> 't built" where
  "decode_node B rec nd =
     (let kind = getKind nd in
      if kind \<in> {K_Global, K_TypeMangling, K_Type, K_ArgumentTuple, K_ReturnType, K_DependentAssociatedTypeRef}
      then decode_first rec nd
      else if kind \<in> {K_Class, K_Enum, K_Structure, K_TypeAlias} then
        and_then (decodeMangledNominalType B rec nd) (\<lambda>(typeDecl, parent). createNominalType B typeDecl parent)
      else if is_bound_generic kind then decode_bound_generic B rec nd
      else if kind = K_BuiltinTypeName then mangleNode (Some nd) \<bind> createBuiltinType B
      else if kind \<in> {K_Metatype, K_ExistentialMetatype} then decode_metatype B rec nd
      else if kind \<in> {K_ProtocolList, K_ProtocolListWithAnyObject, K_ProtocolListWithClass} then
        decode_protocol_list B rec nd
      else if kind = K_Protocol then decode_protocol B nd
      else if kind = K_DependentGenericParamType then decode_generic_param B nd
      else if kind \<in> {K_ObjCBlock, K_CFunctionPointer, K_ThinFunctionType, K_FunctionType} then
        decode_function B rec nd
      else if kind = K_ImplFunctionType then decode_impl_function B nd
      else if kind = K_Tuple then decode_tuple B rec nd
      else if kind = K_TupleElement then decode_tuple_element rec nd
      else if kind = K_DependentGenericType then
        (if getNumChildren nd < 2 then null_type else decode_child rec 1 nd)
      else if kind = K_DependentMemberType then decode_member B rec nd
      else if kind = K_Unowned then decode_wrapped (createUnownedStorageType B) rec nd
      else if kind = K_Unmanaged then decode_wrapped (createUnmanagedStorageType B) rec nd
      else if kind = K_Weak then decode_wrapped (createWeakStorageType B) rec nd
      else if kind = K_SILBoxType then decode_wrapped (createSILBoxType B) rec nd
      else if kind = K_SILBoxTypeWithLayout then createBuiltinType B ''Bo''
      else null_type)"

text \<open>Every recursive call is on a node below, so the size of the node is enough fuel.\<close>

fun decode_fuel :: "('t, 'd, 'p) builder \<Rightarrow> nat \<Rightarrow> node \<Rightarrow> 't built" where
  "decode_fuel B 0 nd = None"
| "decode_fuel B (Suc n) nd = decode_node B (decode_fuel B n) nd"

definition decode_type :: "('t, 'd, 'p) builder \<Rightarrow> node \<Rightarrow> 't built" where
  "decode_type B nd = decode_fuel B (size nd) nd"

definition decodeMangledType :: "('t, 'd, 'p) builder \<Rightarrow> node option \<Rightarrow> 't built" where
  "decodeMangledType B nd = (case nd of None \<Rightarrow> null_type | Some nd \<Rightarrow> decode_type B nd)"

end
