(* ===== verification/Type_Ref.thy ===== *)
theory Type_Ref
  imports Type_Decoder
begin

text \<open>
  References to types, as the reflection library reads them from another process: \<open>TypeRef.h\<close>,
  \<open>TypeRef.cpp\<close> and the factory functions of \<open>TypeRefBuilder.h\<close>. Type references are uniqued by the
  builder, so that the code compares pointers; here they are values and compared by structure.
\<close>

section \<open>Type references\<close>

text \<open>The constructors are the classes of \<open>TypeRefs.def\<close>. The protocols of a composition are nominal
  references. A parent is null at the outermost level.\<close>

datatype TypeRef =
    BuiltinTypeRef string
  | NominalTypeRef string "TypeRef option"
  | BoundGenericTypeRef string "TypeRef list" "TypeRef option"
  | TupleTypeRef "TypeRef list" bool
  | FunctionTypeRef "TypeRef FunctionParam list" TypeRef function_flags
  | ProtocolCompositionTypeRef "TypeRef list" "TypeRef option" bool
  | MetatypeTypeRef TypeRef bool
  | ExistentialMetatypeTypeRef TypeRef
  | GenericTypeParameterTypeRef nat nat
  | DependentMemberTypeRef string TypeRef string
  | ForeignClassTypeRef string
  | ObjCClassTypeRef string
  | OpaqueTypeRef
  | UnownedStorageTypeRef TypeRef
  | UnmanagedStorageTypeRef TypeRef
  | WeakStorageTypeRef TypeRef
  | SILBoxTypeRef TypeRef

type_synonym GenericArgumentMap = "nat \<times> nat \<rightharpoonup> TypeRef"

lemma size_param_type [termination_simp]:
  "p \<in> set ps \<Longrightarrow> size (param_type p) < Suc (size_list (size_FunctionParam size) ps + k)"
proof (induction ps)
  case (Cons q ps)
  then show ?case by (cases q) auto
qed simp

lemma size_param_types [termination_simp]:
  "size_list (size \<circ> param_type) ps < Suc (size_list (size_FunctionParam size) ps + k)"
proof (induction ps)
  case (Cons q ps)
  then show ?case by (cases q) auto
qed simp

section \<open>The factory functions\<close>

text \<open>The declarations of nominal types and of protocols are their mangled names. Tuple labels are
  dropped. A function without a result type cannot be represented.\<close>

definition type_ref_builder :: "(TypeRef, string, string) builder" where
  "type_ref_builder = \<lparr>
     createBuiltinType = (\<lambda>mangledName. Some (Some (BuiltinTypeRef mangledName))),
     createNominalTypeDecl = (\<lambda>nd. map_option Some (mangleNode (Some nd))),
     createProtocolDecl = (\<lambda>nd. map_option Some (mangleNode (Some nd))),
     createNominalType = (\<lambda>mangledName parent. Some (Some (NominalTypeRef mangledName parent))),
     createBoundGenericType = (\<lambda>mangledName args parent. Some (Some (BoundGenericTypeRef mangledName args parent))),
     createTupleType = (\<lambda>elements labels isVariadic. Some (Some (TupleTypeRef elements isVariadic))),
     createFunctionType = (\<lambda>params result flags. map_option (\<lambda>r. Some (FunctionTypeRef params r flags)) result),
     createProtocolCompositionType = (\<lambda>protocols superclass isClassBound.
       Some (Some (ProtocolCompositionTypeRef (map (\<lambda>p. NominalTypeRef p None) protocols) superclass isClassBound))),
     createExistentialMetatypeType = (\<lambda>instance. Some (Some (ExistentialMetatypeTypeRef instance))),
     createMetatypeType = (\<lambda>instance WasAbstract. Some (Some (MetatypeTypeRef instance WasAbstract))),
     createGenericTypeParameterType = (\<lambda>depth index. Some (Some (GenericTypeParameterTypeRef depth index))),
     createDependentMemberType = (\<lambda>member b protocol. Some (Some (DependentMemberTypeRef member b protocol))),
     createUnownedStorageType = (\<lambda>b. Some (Some (UnownedStorageTypeRef b))),
     createUnmanagedStorageType = (\<lambda>b. Some (Some (UnmanagedStorageTypeRef b))),
     createWeakStorageType = (\<lambda>b. Some (Some (WeakStorageTypeRef b))),
     createSILBoxType = (\<lambda>b. Some (Some (SILBoxTypeRef b)))\<rparr>"

text \<open>The demangler of the builder only reads types, so each call starts as a new one does.\<close>

definition type_of_name :: "string \<Rightarrow> TypeRef built" where
  "type_of_name MangledName = do {
     (nd, d) \<leftarrow> demangleType MangledName new_demangler;
     decodeMangledType type_ref_builder nd
   }"

section \<open>What a mangled name declares\<close>

text \<open>The name of a nominal or bound generic type.\<close>

fun nominal_name :: "TypeRef \<Rightarrow> string option" where
  "nominal_name (NominalTypeRef n parent) = Some n"
| "nominal_name (BoundGenericTypeRef n params parent) = Some n"
| "nominal_name t = None"

fun kind_below_types :: "node_kind set \<Rightarrow> node \<Rightarrow> bool option" where
  "kind_below_types ks (Node k p []) = (if k = K_Type then None else Some (k \<in> ks))"
| "kind_below_types ks (Node k p (c # cs)) = (if k = K_Type then kind_below_types ks c else Some (k \<in> ks))"

text \<open>\<open>demangleType\<close> never returns null; a null pointer would be dereferenced.\<close>

definition name_declares :: "node_kind set \<Rightarrow> string \<Rightarrow> bool option" where
  "name_declares ks MangledName = do {
     (nd, d) \<leftarrow> demangleType MangledName new_demangler;
     nd \<leftarrow> nd;
     kind_below_types ks nd
   }"

definition isStruct :: "string \<Rightarrow> bool option" where
  "isStruct MangledName = name_declares {K_Structure, K_BoundGenericStructure} MangledName"

definition isEnum :: "string \<Rightarrow> bool option" where
  "isEnum MangledName = name_declares {K_Enum, K_BoundGenericEnum} MangledName"

definition isClass :: "string \<Rightarrow> bool option" where
  "isClass MangledName = name_declares {K_Class, K_BoundGenericClass} MangledName"

definition dropSwiftManglingPrefix :: "string \<Rightarrow> string option" where
  "dropSwiftManglingPrefix mangledName = map_option (\<lambda>n. drop n mangledName) (getManglingPrefixLength mangledName)"

definition isProtocol :: "string \<Rightarrow> bool option" where
  "isProtocol MangledName = dropSwiftManglingPrefix MangledName \<bind> name_declares {K_Protocol}"

definition isAlias :: "string \<Rightarrow> bool option" where
  "isAlias MangledName = name_declares {K_TypeAlias} MangledName"

section \<open>Concrete types\<close>

fun isConcreteAfterSubstitutions :: "GenericArgumentMap \<Rightarrow> TypeRef \<Rightarrow> bool" where
  "isConcreteAfterSubstitutions Subs (BuiltinTypeRef n) = True"
| "isConcreteAfterSubstitutions Subs (NominalTypeRef n parent) =
     (case parent of None \<Rightarrow> True | Some p \<Rightarrow> isConcreteAfterSubstitutions Subs p)"
| "isConcreteAfterSubstitutions Subs (BoundGenericTypeRef n params parent) =
     ((case parent of None \<Rightarrow> True | Some p \<Rightarrow> isConcreteAfterSubstitutions Subs p) \<and>
      list_all (isConcreteAfterSubstitutions Subs) params)"
| "isConcreteAfterSubstitutions Subs (TupleTypeRef elements variadic) =
     list_all (isConcreteAfterSubstitutions Subs) elements"
| "isConcreteAfterSubstitutions Subs (FunctionTypeRef params result flags) =
     (list_all (\<lambda>p. isConcreteAfterSubstitutions Subs (param_type p)) params \<and>
      isConcreteAfterSubstitutions Subs result)"
| "isConcreteAfterSubstitutions Subs (ProtocolCompositionTypeRef protocols superclass any) =
     (list_all (isConcreteAfterSubstitutions Subs) protocols \<and>
      (case superclass of None \<Rightarrow> True | Some s \<Rightarrow> isConcreteAfterSubstitutions Subs s))"
| "isConcreteAfterSubstitutions Subs (MetatypeTypeRef t wasAbstract) = isConcreteAfterSubstitutions Subs t"
| "isConcreteAfterSubstitutions Subs (ExistentialMetatypeTypeRef t) = isConcreteAfterSubstitutions Subs t"
| "isConcreteAfterSubstitutions Subs (GenericTypeParameterTypeRef depth index) = (Subs (depth, index) \<noteq> None)"
| "isConcreteAfterSubstitutions Subs (DependentMemberTypeRef member b protocol) = isConcreteAfterSubstitutions Subs b"
| "isConcreteAfterSubstitutions Subs (ForeignClassTypeRef n) = True"
| "isConcreteAfterSubstitutions Subs (ObjCClassTypeRef n) = True"
| "isConcreteAfterSubstitutions Subs OpaqueTypeRef = True"
| "isConcreteAfterSubstitutions Subs (UnownedStorageTypeRef t) = isConcreteAfterSubstitutions Subs t"
| "isConcreteAfterSubstitutions Subs (UnmanagedStorageTypeRef t) = isConcreteAfterSubstitutions Subs t"
| "isConcreteAfterSubstitutions Subs (WeakStorageTypeRef t) = isConcreteAfterSubstitutions Subs t"
| "isConcreteAfterSubstitutions Subs (SILBoxTypeRef t) = isConcreteAfterSubstitutions Subs t"

definition isConcrete :: "TypeRef \<Rightarrow> bool" where
  "isConcrete t = isConcreteAfterSubstitutions Map.empty t"

section \<open>The generic arguments of a type\<close>

text \<open>A parent that is not nominal fails the assertion of \<open>cast\<close>.\<close>

fun getDepth :: "TypeRef \<Rightarrow> nat option" where
  "getDepth (NominalTypeRef n None) = Some 0"
| "getDepth (NominalTypeRef n (Some p)) = map_option Suc (getDepth p)"
| "getDepth (BoundGenericTypeRef n params None) = Some 0"
| "getDepth (BoundGenericTypeRef n params (Some p)) = map_option Suc (getDepth p)"
| "getDepth t = None"

text \<open>\<open>DenseMap::insert\<close> does not replace an entry.\<close>

fun insert_params :: "nat \<Rightarrow> nat \<Rightarrow> TypeRef list \<Rightarrow> GenericArgumentMap" where
  "insert_params Depth Index [] = Map.empty"
| "insert_params Depth Index (Param # Params) = (insert_params Depth (Suc Index) Params)((Depth, Index) \<mapsto> Param)"

fun getSubstMap :: "TypeRef \<Rightarrow> GenericArgumentMap option" where
  "getSubstMap (NominalTypeRef n parent) = (case parent of None \<Rightarrow> Some Map.empty | Some p \<Rightarrow> getSubstMap p)"
| "getSubstMap (BoundGenericTypeRef n params parent) = do {
     Depth \<leftarrow> getDepth (BoundGenericTypeRef n params parent);
     let Substitutions = insert_params Depth 0 params;
     case parent of
       None \<Rightarrow> Some Substitutions
     | Some p \<Rightarrow> do {
         ParentSubs \<leftarrow> getSubstMap p;
         Some (ParentSubs ++ Substitutions)
       }
   }"
| "getSubstMap t = Some Map.empty"

section \<open>Thick metatypes\<close>

definition withType :: "'a FunctionParam \<Rightarrow> 'b \<Rightarrow> 'b FunctionParam" where
  "withType p t = FunctionParam (param_label p) t (param_flags p)"

text \<open>A bound generic type loses its parent, a tuple its variadic flag.\<close>

fun thickenMetatypes :: "TypeRef \<Rightarrow> TypeRef" where
  "thickenMetatypes (BoundGenericTypeRef n params parent) = BoundGenericTypeRef n (map thickenMetatypes params) None"
| "thickenMetatypes (TupleTypeRef elements variadic) = TupleTypeRef (map thickenMetatypes elements) False"
| "thickenMetatypes (FunctionTypeRef params result flags) =
     FunctionTypeRef (map (\<lambda>p. withType p (thickenMetatypes (param_type p))) params) (thickenMetatypes result) flags"
| "thickenMetatypes (MetatypeTypeRef t wasAbstract) = MetatypeTypeRef (thickenMetatypes t) True"
| "thickenMetatypes (SILBoxTypeRef t) = SILBoxTypeRef (thickenMetatypes t)"
| "thickenMetatypes t = t"

section \<open>Deriving substitutions\<close>

datatype TypeRefKind = Builtin | Nominal | BoundGeneric | Tuple | Function | ProtocolComposition | Metatype
  | ExistentialMetatype | GenericTypeParameter | DependentMember | ForeignClass | ObjCClass | Opaque
  | UnownedStorage | UnmanagedStorage | WeakStorage | SILBox

primrec getTypeRefKind :: "TypeRef \<Rightarrow> TypeRefKind" where
  "getTypeRefKind (BuiltinTypeRef _) = Builtin"
| "getTypeRefKind (NominalTypeRef _ _) = Nominal"
| "getTypeRefKind (BoundGenericTypeRef _ _ _) = BoundGeneric"
| "getTypeRefKind (TupleTypeRef _ _) = Tuple"
| "getTypeRefKind (FunctionTypeRef _ _ _) = Function"
| "getTypeRefKind (ProtocolCompositionTypeRef _ _ _) = ProtocolComposition"
| "getTypeRefKind (MetatypeTypeRef _ _) = Metatype"
| "getTypeRefKind (ExistentialMetatypeTypeRef _) = ExistentialMetatype"
| "getTypeRefKind (GenericTypeParameterTypeRef _ _) = GenericTypeParameter"
| "getTypeRefKind (DependentMemberTypeRef _ _ _) = DependentMember"
| "getTypeRefKind (ForeignClassTypeRef _) = ForeignClass"
| "getTypeRefKind (ObjCClassTypeRef _) = ObjCClass"
| "getTypeRefKind OpaqueTypeRef = Opaque"
| "getTypeRefKind (UnownedStorageTypeRef _) = UnownedStorage"
| "getTypeRefKind (UnmanagedStorageTypeRef _) = UnmanagedStorage"
| "getTypeRefKind (WeakStorageTypeRef _) = WeakStorage"
| "getTypeRefKind (SILBoxTypeRef _) = SILBox"

text \<open>\<open>ReferenceStorageTypeRef::classof\<close>, as it is written: with conjunctions.\<close>

definition is_reference_storage :: "TypeRef \<Rightarrow> bool" where
  "is_reference_storage TR \<longleftrightarrow>
     (let Kind = getTypeRefKind TR in Kind = UnownedStorage \<and> Kind = WeakStorage \<and> Kind = UnmanagedStorage)"

text \<open>The map is changed in place; the result tells whether the two types match. Two reference
  storage types that \<open>dyn_cast\<close> recognizes are compared by kind and referent.\<close>

fun deriveSubstitutions :: "GenericArgumentMap \<Rightarrow> TypeRef \<Rightarrow> TypeRef \<Rightarrow> bool \<times> GenericArgumentMap"
  and derive_all :: "GenericArgumentMap \<Rightarrow> TypeRef list \<Rightarrow> TypeRef list \<Rightarrow> bool \<times> GenericArgumentMap" where
  "deriveSubstitutions Subs (NominalTypeRef n oParent) SubstTR =
     (case SubstTR of
        NominalTypeRef m sParent \<Rightarrow>
          if (oParent = None) \<noteq> (sParent = None) \<or> n \<noteq> m then (False, Subs)
          else (case oParent of None \<Rightarrow> (True, Subs) | Some o1 \<Rightarrow> deriveSubstitutions Subs o1 (the sParent))
      | _ \<Rightarrow> (NominalTypeRef n oParent = SubstTR, Subs))"
| "deriveSubstitutions Subs (BoundGenericTypeRef n oParams oParent) SubstTR =
     (case SubstTR of
        BoundGenericTypeRef m sParams sParent \<Rightarrow>
          if (oParent = None) \<noteq> (sParent = None) \<or> n \<noteq> m \<or> length oParams \<noteq> length sParams then (False, Subs)
          else
            let (ok, Subs) =
              (case oParent of None \<Rightarrow> (True, Subs) | Some o1 \<Rightarrow> deriveSubstitutions Subs o1 (the sParent))
            in if ok then derive_all Subs oParams sParams else (False, Subs)
      | _ \<Rightarrow> (BoundGenericTypeRef n oParams oParent = SubstTR, Subs))"
| "deriveSubstitutions Subs (TupleTypeRef oElements oVariadic) SubstTR =
     (case SubstTR of
        TupleTypeRef sElements sVariadic \<Rightarrow>
          if length oElements \<noteq> length sElements then (False, Subs) else derive_all Subs oElements sElements
      | _ \<Rightarrow> (TupleTypeRef oElements oVariadic = SubstTR, Subs))"
| "deriveSubstitutions Subs (FunctionTypeRef oParams oResult oFlags) SubstTR =
     (case SubstTR of
        FunctionTypeRef sParams sResult sFlags \<Rightarrow>
          if length oParams \<noteq> length sParams then (False, Subs)
          else
            let (ok, Subs) = derive_all Subs (map param_type oParams) (map param_type sParams)
            in if ok then deriveSubstitutions Subs oResult sResult else (False, Subs)
      | _ \<Rightarrow> (FunctionTypeRef oParams oResult oFlags = SubstTR, Subs))"
| "deriveSubstitutions Subs (MetatypeTypeRef o1 oAbstract) SubstTR =
     (case SubstTR of
        MetatypeTypeRef s1 sAbstract \<Rightarrow> deriveSubstitutions Subs o1 s1
      | _ \<Rightarrow> (MetatypeTypeRef o1 oAbstract = SubstTR, Subs))"
| "deriveSubstitutions Subs (UnownedStorageTypeRef o1) SubstTR =
     (if is_reference_storage (UnownedStorageTypeRef o1) \<and> is_reference_storage SubstTR
      then (case SubstTR of UnownedStorageTypeRef s1 \<Rightarrow> deriveSubstitutions Subs o1 s1 | _ \<Rightarrow> (False, Subs))
      else (UnownedStorageTypeRef o1 = SubstTR, Subs))"
| "deriveSubstitutions Subs (UnmanagedStorageTypeRef o1) SubstTR =
     (if is_reference_storage (UnmanagedStorageTypeRef o1) \<and> is_reference_storage SubstTR
      then (case SubstTR of UnmanagedStorageTypeRef s1 \<Rightarrow> deriveSubstitutions Subs o1 s1 | _ \<Rightarrow> (False, Subs))
      else (UnmanagedStorageTypeRef o1 = SubstTR, Subs))"
| "deriveSubstitutions Subs (WeakStorageTypeRef o1) SubstTR =
     (if is_reference_storage (WeakStorageTypeRef o1) \<and> is_reference_storage SubstTR
      then (case SubstTR of WeakStorageTypeRef s1 \<Rightarrow> deriveSubstitutions Subs o1 s1 | _ \<Rightarrow> (False, Subs))
      else (WeakStorageTypeRef o1 = SubstTR, Subs))"
| "deriveSubstitutions Subs (DependentMemberTypeRef member b protocol) SubstTR = (True, Subs)"
| "deriveSubstitutions Subs (GenericTypeParameterTypeRef depth index) SubstTR =
     (case Subs (depth, index) of
        None \<Rightarrow> (True, Subs((depth, index) \<mapsto> SubstTR))
      | Some found \<Rightarrow> (found = SubstTR, Subs))"
| "deriveSubstitutions Subs OrigTR SubstTR = (OrigTR = SubstTR, Subs)"
| "derive_all Subs [] ss = (True, Subs)"
| "derive_all Subs (o1 # os) ss =
     (let (ok, Subs) = deriveSubstitutions Subs o1 (hd ss) in if ok then derive_all Subs os (tl ss) else (False, Subs))"

end
