(* ===== verification/Type_Decoding.thy ===== *)
theory Type_Decoding
  imports Type_Ref Symbol_Roundtrip
begin

text \<open>
  Facts about the type decoder: its recursion ends, the removal of generic arguments agrees with the
  remangler, and every type that reflection supports is decoded, to references whose names demangle
  to the declarations.
\<close>

section \<open>The recursion of the decoder\<close>

lemma and_then_cong [fundef_cong]:
  "m = m' \<Longrightarrow> (\<And>x. m' = Some (Some x) \<Longrightarrow> f x = g x) \<Longrightarrow> and_then m f = and_then m' g"
  by (cases m'; cases "the m'") auto

lemma and_then_eq_Some: "and_then m f = Some (Some y) \<longleftrightarrow> (\<exists>x. m = Some (Some x) \<and> f x = Some (Some y))"
  by (cases "(m, f)" rule: and_then.cases) auto

locale smaller_decodings =
  fixes rec rec' :: "node \<Rightarrow> 't built" and bound :: nat
  assumes agree: "size c < bound \<Longrightarrow> rec c = rec' c"
begin

lemma look_through_size: "look_through ks nd = Some c \<Longrightarrow> size c \<le> size nd"
  by (induction ks nd rule: look_through.induct) (auto split: if_splits)

lemma decode_child_agree [simp]: "size nd \<le> bound \<Longrightarrow> decode_child rec i nd = decode_child rec' i nd"
  by (auto simp: decode_child_def intro!: Option.bind_cong agree dest: child_sizes)

lemma decode_all_agree: "\<forall>c \<in> set cs. size c < bound \<Longrightarrow> decode_all rec cs = decode_all rec' cs"
  by (induction cs) (simp_all add: agree)

lemma nominal_agree [simp]:
  assumes "size nd \<le> bound"
  shows "decodeMangledNominalType B rec nd = decodeMangledNominalType B rec' nd"
proof -
  have "rec c = rec' c" if "look_through [K_Type] nd = Some n" "getChild n 0 = Some c" for n c
    using look_through_size [OF that(1)] child_sizes(1) [OF that(2)] assms by (intro agree) simp
  then show ?thesis
    unfolding decodeMangledNominalType_def by (intro Option.bind_cong refl if_cong and_then_cong) auto
qed

lemma param_agree [simp]:
  "size nd < bound \<Longrightarrow> decodeParamTypeAndFlags rec nd flags b = decodeParamTypeAndFlags rec' nd flags b"
  by (auto simp: decodeParamTypeAndFlags_def agree intro!: Option.bind_cong dest!: child_sizes)

lemma param_children_agree:
  "\<forall>c \<in> set cs. size c < bound \<Longrightarrow>
   param_children rec cs label type flags b = param_children rec' cs label type flags b"
proof (induction cs arbitrary: label type flags b)
  case (Cons child cs)
  then have "decodeParamTypeAndFlags rec c flags b = decodeParamTypeAndFlags rec' c flags b"
    if "getFirstChild child = Some c" for c
    using child_sizes(2) [OF that] by simp
  with Cons show ?case
    unfolding param_children.simps by (intro if_cong Option.bind_cong and_then_cong refl) auto
qed simp

lemma kids_small: "size nd \<le> bound \<Longrightarrow> c \<in> set (children nd) \<Longrightarrow> size c < bound"
  using size_child [of c nd] by simp

lemma decode_params_agree:
  "\<forall>c \<in> set cs. size c < bound \<Longrightarrow> decode_params rec cs b = decode_params rec' cs b"
proof (induction cs arbitrary: b)
  case (Cons elt cs)
  have "\<forall>c \<in> set (children elt). size c < bound" using Cons.prems kids_small [of elt] by auto
  then have "decodeParam rec elt b = decodeParam rec' elt b" for b
    by (simp add: decodeParam_def param_children_agree)
  with Cons show ?case by simp
qed simp

lemma input_agree:
  assumes "size nd < bound"
  shows "decodeMangledFunctionInputType rec nd = decodeMangledFunctionInputType rec' nd"
proof -
  have "size n < bound" "\<forall>c \<in> set (children n). size c < bound" if "look_through ks nd = Some n" for n ks
    using look_through_size [OF that] assms kids_small [of n] by auto
  then show ?thesis
    unfolding decodeMangledFunctionInputType_def
    by (intro Option.bind_cong refl if_cong and_then_cong) (auto simp: decode_params_agree)
qed

lemma tuple_elements_agree:
  "\<forall>c \<in> set cs. size c < bound \<Longrightarrow>
   tuple_elements rec cs elements labels variadic = tuple_elements rec' cs elements labels variadic"
proof (induction cs arbitrary: elements labels variadic)
  case (Cons element cs)
  then have "decode_child rec i element = decode_child rec' i element" for i by simp
  with Cons show ?case
    unfolding tuple_elements.simps Let_def
    by (intro if_cong Option.bind_cong and_then_cong refl) (auto intro!: and_then_cong)
qed simp

lemma decode_node_agree:
  assumes "size nd \<le> bound"
  shows "decode_node B rec nd = decode_node B rec' nd"
proof -
  have child: "decode_child rec i nd = decode_child rec' i nd" for i using assms by simp
  have first: "decode_first rec nd = decode_first rec' nd" by (simp add: decode_first_def child)
  have "decode_bound_generic B rec nd = decode_bound_generic B rec' nd"
  proof -
    have "size c \<le> bound" "\<forall>d \<in> set (children c). size d < bound" if "getChild nd i = Some c" for c i
      using child_sizes(1) [OF that] assms kids_small [of c] by auto
    then show ?thesis unfolding decode_bound_generic_def
      by (intro if_cong Option.bind_cong and_then_cong refl) (auto simp: decode_all_agree intro!: Option.bind_cong)
  qed
  moreover have "decode_function B rec nd = decode_function B rec' nd"
  proof -
    have "size c < bound" if "getChild nd i = Some c" for c i
      using child_sizes(1) [OF that] assms by auto
    then show ?thesis unfolding decode_function_def Let_def child
      by (intro if_cong Option.bind_cong refl) (auto simp: input_agree)
  qed
  moreover have "decode_tuple B rec nd = decode_tuple B rec' nd"
    using kids_small [OF assms] by (simp add: decode_tuple_def tuple_elements_agree)
  moreover have "decode_metatype B rec nd = decode_metatype B rec' nd"
    "decode_protocol_list B rec nd = decode_protocol_list B rec' nd"
    "decode_tuple_element rec nd = decode_tuple_element rec' nd"
    "decode_member B rec nd = decode_member B rec' nd"
    "decode_wrapped create rec nd = decode_wrapped create rec' nd" for create
    unfolding decode_metatype_def decode_instance_def decode_protocol_list_def decode_tuple_element_def
      decode_member_def decode_wrapped_def child first by (rule refl)+
  ultimately show ?thesis
    unfolding decode_node_def Let_def by (simp only: child first nominal_agree [OF assms])
qed

end

lemma decode_fuel_enough: "size nd \<le> f \<Longrightarrow> size nd \<le> g \<Longrightarrow> decode_fuel B f nd = decode_fuel B g nd"
proof (induction "size nd" arbitrary: nd f g rule: less_induct)
  case less
  obtain f' g' where f: "f = Suc f'" "g = Suc g'"
    using less.prems size_node_pos [of nd] by (cases f; cases g) auto
  have "smaller_decodings (decode_fuel B f') (decode_fuel B g') (size nd)"
  proof
    fix c :: node
    assume "size c < size nd"
    with less.prems f show "decode_fuel B f' c = decode_fuel B g' c" by (intro less.hyps) auto
  qed
  then show ?case using f by (simp add: smaller_decodings.decode_node_agree)
qed

interpretation decodings: smaller_decodings "decode_fuel B n" "decode_type B" "Suc n" for B n
  by unfold_locales (auto simp: decode_type_def intro: decode_fuel_enough)

lemma decode_type_step: "decode_type B nd = decode_node B (decode_type B) nd"
proof -
  obtain n where n: "size nd = Suc n" using size_node_pos [of nd] by (cases "size nd") auto
  then show ?thesis using decodings.decode_node_agree [of nd n B B] by (simp add: decode_type_def)
qed

text \<open>The cases of the switch over kinds.\<close>

lemma decode_kinds:
  "k \<in> {K_Global, K_TypeMangling, K_Type, K_ArgumentTuple, K_ReturnType, K_DependentAssociatedTypeRef} \<Longrightarrow>
    decode_type B (Node k p cs) = decode_first (decode_type B) (Node k p cs)"
  "k \<in> {K_Class, K_Enum, K_Structure, K_TypeAlias} \<Longrightarrow> decode_type B (Node k p cs) =
    and_then (decodeMangledNominalType B (decode_type B) (Node k p cs)) (\<lambda>(typeDecl, parent). createNominalType B typeDecl parent)"
  "is_bound_generic k \<Longrightarrow> decode_type B (Node k p cs) = decode_bound_generic B (decode_type B) (Node k p cs)"
  "decode_type B (Node K_BuiltinTypeName p cs) = mangleNode (Some (Node K_BuiltinTypeName p cs)) \<bind> createBuiltinType B"
  "k \<in> {K_Metatype, K_ExistentialMetatype} \<Longrightarrow> decode_type B (Node k p cs) = decode_metatype B (decode_type B) (Node k p cs)"
  "k \<in> {K_ProtocolList, K_ProtocolListWithAnyObject, K_ProtocolListWithClass} \<Longrightarrow>
    decode_type B (Node k p cs) = decode_protocol_list B (decode_type B) (Node k p cs)"
  "decode_type B (Node K_Protocol p cs) = decode_protocol B (Node K_Protocol p cs)"
  "decode_type B (Node K_DependentGenericParamType p cs) = decode_generic_param B (Node K_DependentGenericParamType p cs)"
  "k \<in> {K_ObjCBlock, K_CFunctionPointer, K_ThinFunctionType, K_FunctionType} \<Longrightarrow>
    decode_type B (Node k p cs) = decode_function B (decode_type B) (Node k p cs)"
  "decode_type B (Node K_Tuple p cs) = decode_tuple B (decode_type B) (Node K_Tuple p cs)"
  "decode_type B (Node K_Unowned p cs) = decode_wrapped (createUnownedStorageType B) (decode_type B) (Node K_Unowned p cs)"
  "decode_type B (Node K_Unmanaged p cs) = decode_wrapped (createUnmanagedStorageType B) (decode_type B) (Node K_Unmanaged p cs)"
  "decode_type B (Node K_Weak p cs) = decode_wrapped (createWeakStorageType B) (decode_type B) (Node K_Weak p cs)"
  "decode_type B (Node K_SILBoxType p cs) = decode_wrapped (createSILBoxType B) (decode_type B) (Node K_SILBoxType p cs)"
  "k \<in> {K_InOut, K_Shared} \<Longrightarrow> decode_type B (Node k p cs) = null_type"
  by (subst decode_type_step, auto simp: decode_node_def is_bound_generic_def)+

section \<open>Removing generic arguments\<close>

text \<open>Whether the spine of contexts ends without an extension.\<close>

fun extension_free :: "node \<Rightarrow> bool" where
  "extension_free (Node k p cs) =
     (if is_bound_generic k then (case cs of Node t q (c # ds) # es \<Rightarrow> extension_free c | _ \<Rightarrow> True)
      else if is_nominal k then (case cs of c # ds \<Rightarrow> extension_free c | _ \<Rightarrow> True)
      else k \<noteq> K_Extension)"

lemma strip_unspecialized: "isSpecialized nd = Some False \<Longrightarrow> strip_context nd = (nd, True)"
proof (induction nd rule: strip_context.induct)
  case (1 k p cs)
  then show ?case
    by (subst (asm) (3) isSpecialized.simps)
      (auto simp: getChild_def getNumChildren_def bind_Some_iffs split: if_splits list.splits node.splits option.splits)
qed

lemma strip_chain: "chain nd u ls \<Longrightarrow> extension_free nd \<Longrightarrow> strip_context nd = (u, \<forall>ts \<in> set ls. ts = [])"
proof (induction rule: chain.induct)
  case (chain_plain p u ls k n)
  then have "strip_context p = (u, \<forall>ts \<in> set ls. ts = [])" using nominal_kinds(1) [of k] by simp
  then show ?case using chain_plain(2) nominal_kinds(1) [of k] chain_plain_same [OF chain_plain(1)] by simp
next
  case (chain_bound p u ls k bk ts n)
  note k = bound_kinds [OF chain_bound(2)]
  then have "strip_context p = (u, \<forall>ts \<in> set ls. ts = [])"
    using chain_bound nominal_kinds(1) [of k] by simp
  then show ?case using k chain_bound(3) nominal_kinds(1) [of k] chain_plain_same [OF chain_bound(1)]
    by (simp add: type_list_def)
next
  case (chain_root c)
  then show ?case by (cases c) simp
qed (simp_all add: nominal_kinds)

lemma strip_getUnspecialized:
  "chain nd u ls \<Longrightarrow> extension_free nd \<Longrightarrow> \<exists>ts \<in> set ls. ts \<noteq> [] \<Longrightarrow>
   getUnspecialized nd = Some (stripGenericArgsFromContextNode nd)"
  using getUnspecialized_chain [of nd u ls] strip_chain [of nd u ls]
  by (simp add: stripGenericArgsFromContextNode_def)

lemma strip_size: "size (fst (strip_context nd)) \<le> size nd"
proof (induction nd rule: strip_context.induct)
  case (1 k p cs)
  show ?case
  proof (cases "is_bound_generic k")
    case True
    show ?thesis
    proof (cases "\<exists>q c ds c1 es. cs = Node K_Type q (c # ds) # c1 # es")
      case True
      then obtain q c ds c1 es where cs: "cs = Node K_Type q (c # ds) # c1 # es" by blast
      have "size (fst (strip_context c)) \<le> size c" by (rule 1(1) [OF \<open>is_bound_generic k\<close> cs]) simp_all
      with cs \<open>is_bound_generic k\<close> show ?thesis by simp
    next
      case False
      with \<open>is_bound_generic k\<close> have "strip_context (Node k p cs) = (Node k p cs, True)"
        by (auto split: list.splits node.splits)
      then show ?thesis by simp
    qed
  next
    case False
    show ?thesis
    proof (cases "is_nominal k \<and> (\<exists>c0 c1 ds. cs = c0 # c1 # ds)")
      case True
      then obtain c0 c1 ds where cs: "cs = c0 # c1 # ds" by blast
      with 1(2) [OF False _ cs] True False show ?thesis by (auto simp: split_beta Let_def)
    next
      case F: False
      with False have "strip_context (Node k p cs) = (Node k p cs, True)" by (auto split: list.splits)
      then show ?thesis by simp
    qed
  qed
qed

section \<open>Types that reflection supports\<close>

definition reference_kinds :: "node_kind set" where
  "reference_kinds = {K_Class, K_Structure, K_Enum, K_TypeAlias}"

text \<open>The type below the flags of a parameter.\<close>

fun passed_type :: "node \<Rightarrow> node" where
  "passed_type (Node k p (c # cs)) = (if k = K_InOut \<or> k = K_Shared then c else Node k p (c # cs))"
| "passed_type nd = nd"

inductive reflectable :: "node \<Rightarrow> bool" where
  refl_nominal: "is_type (Node k NoPayload [c, n]) \<Longrightarrow> k \<in> reference_kinds \<Longrightarrow> getKind c = K_Module \<or> reflectable c \<Longrightarrow>
    reflectable (Node k NoPayload [c, n])"
| refl_bound: "is_type (Node bk NoPayload [Ty (Node k NoPayload [c, n]), type_list ts]) \<Longrightarrow>
    (k, bk) \<in> {(K_Structure, K_BoundGenericStructure), (K_Enum, K_BoundGenericEnum), (K_Class, K_BoundGenericClass)} \<Longrightarrow>
    getKind c = K_Module \<or> reflectable c \<Longrightarrow> \<forall>t \<in> set ts. reflectable t \<Longrightarrow>
    reflectable (Node bk NoPayload [Ty (Node k NoPayload [c, n]), type_list ts])"
| refl_wrapped: "reflectable t \<Longrightarrow> k \<in> {K_Metatype, K_ExistentialMetatype, K_Weak, K_Unowned, K_Unmanaged, K_SILBoxType} \<Longrightarrow>
    reflectable (Node k NoPayload [Ty t])"
| refl_representation: "reflectable t \<Longrightarrow> k \<in> {K_Metatype, K_ExistentialMetatype} \<Longrightarrow>
    reflectable (Node k NoPayload [Node K_MetatypeRepresentation (TextPayload r) [], Ty t])"
| refl_builtin: "builtin_name s \<Longrightarrow> reflectable (Node K_BuiltinTypeName (TextPayload (''Builtin.'' @ s)) [])"
| refl_param: "reflectable (param_type depth index)"
| refl_tuple: "\<forall>(v, l, t) \<in> set es. reflectable t \<and> \<not> (v \<and> l \<noteq> None) \<Longrightarrow>
    reflectable (Node K_Tuple NoPayload (map element_node es))"
| refl_function: "getKind a \<noteq> K_Tuple \<Longrightarrow> reflectable (passed_type a) \<Longrightarrow> reflectable r \<Longrightarrow>
    k \<in> {K_FunctionType, K_ThinFunctionType, K_ObjCBlock, K_CFunctionPointer} \<Longrightarrow> reflectable (function_node k b a r)"
| refl_function_tuple: "\<forall>(v, l, t) \<in> set es. reflectable (passed_type t) \<Longrightarrow> reflectable r \<Longrightarrow>
    k \<in> {K_FunctionType, K_ThinFunctionType, K_ObjCBlock, K_CFunctionPointer} \<Longrightarrow>
    reflectable (function_node k b (Node K_Tuple NoPayload (map element_node es)) r)"
| refl_protocols: "is_type (protocols_node ps) \<Longrightarrow> reflectable (protocols_node ps)"
| refl_any_object: "is_type (protocols_node ps) \<Longrightarrow> reflectable (Node K_ProtocolListWithAnyObject NoPayload [protocols_node ps])"
| refl_with_class: "is_type (protocols_node ps) \<Longrightarrow> reflectable t \<Longrightarrow>
    reflectable (Node K_ProtocolListWithClass NoPayload [protocols_node ps, Ty t])"
| refl_protocol: "is_type (Node K_Protocol NoPayload [c, n]) \<Longrightarrow> reflectable (Node K_Protocol NoPayload [c, n])"

lemma reflectable_kind:
  assumes "reflectable nd"
  shows "getKind nd \<notin> {K_Extension, K_Type, K_ArgumentTuple, K_InOut, K_Shared}"
  using assms
  by cases (auto simp: reference_kinds_def param_type_def protocols_node_def function_node_def)

lemma reflectable_extension_free: "reflectable nd \<Longrightarrow> extension_free nd"
proof (induction rule: reflectable.induct)
  case (refl_nominal k c n)
  then show ?case by (cases c) (auto simp: reference_kinds_def is_nominal_def is_bound_generic_def)
next
  case (refl_bound bk k c n ts)
  note k = bound_kinds [OF refl_bound(2)]
  have "extension_free c" using refl_bound(3) by (cases c) (auto simp: is_nominal_def is_bound_generic_def)
  with k show ?case using nominal_kinds(1) [of k] by simp
qed (auto simp: is_nominal_def is_bound_generic_def function_node_def protocols_node_def param_type_def)

text \<open>The declaration that is left when the generic arguments are removed.\<close>

lemma stripped_type:
  assumes "is_type nd" "extension_free nd" "getKind nd \<in> reference_kinds \<or> is_bound_generic (getKind nd)"
  shows "is_type (stripGenericArgsFromContextNode nd)"
  using assms(1)
proof (cases rule: is_type.cases)
  case (type_nominal c x n k)
  then have "isSpecialized nd = Some False"
    by (subst isSpecialized.simps) (auto simp: is_nominal_def is_bound_generic_def)
  from strip_unspecialized [OF this] assms(1) show ?thesis by (simp add: stripGenericArgsFromContextNode_def)
next
  case (type_standard e c t)
  then have "strip_context nd = (nd, True)" by (simp add: is_nominal_def is_bound_generic_def)
  with assms(1) show ?thesis by (simp add: stripGenericArgsFromContextNode_def)
next
  case (type_other c x n k)
  then have "strip_context nd = (nd, True)" by (auto simp: is_nominal_def is_bound_generic_def)
  with assms(1) show ?thesis by (simp add: stripGenericArgsFromContextNode_def)
next
  case (type_bound u ls)
  from strip_chain [OF type_bound(1) assms(2)] type_bound(2) show ?thesis by (simp add: stripGenericArgsFromContextNode_def)
next
  case (type_optional t)
  have "is_type (Node K_Enum NoPayload [Node K_Module (TextPayload ''Swift'') [], ident_node ''Optional''])"
    using type_standard [of True "CHR ''q''" "''Optional''"]
    by (simp add: standard_types_def ident_node_def)
  with type_optional(1) show ?thesis
    by (simp add: stripGenericArgsFromContextNode_def optional_type_def is_nominal_def is_bound_generic_def ident_node_def)
qed (use assms(3) in \<open>auto simp: reference_kinds_def is_bound_generic_def function_node_def protocols_node_def param_type_def\<close>)

lemma element_size: "(v, l, t) \<in> set es \<Longrightarrow> size t < size (Node K_Tuple p (map element_node es))"
proof -
  assume "(v, l, t) \<in> set es"
  then have "element_node (v, l, t) \<in> set (map element_node es)" by (metis imageI list.set_map)
  from size_list_estimation' [OF this order_refl, of size]
  have "size (element_node (v, l, t)) \<le> size_list size (map element_node es)" .
  moreover have "size t < size (element_node (v, l, t))" by (cases v; cases l) simp_all
  ultimately show ?thesis by simp
qed

lemma passed_size: "size (passed_type a) \<le> size a"
  by (cases a rule: passed_type.cases) auto

lemma protocols_are_types:
  assumes "is_type (protocols_node ps)" "(c, x, n) \<in> set ps"
  shows "is_type (Node K_Protocol NoPayload [c, n])"
  using assms(1)
proof (cases rule: is_type.cases)
  case (type_protocols ps')
  then have "map protocol_node ps = map protocol_node ps'" by (simp add: protocols_node_def)
  then have "protocol_node (c, x, n) \<in> set (map protocol_node ps')" using assms(2) by (metis imageI list.set_map)
  then obtain x' where "(c, x', n) \<in> set ps'" by (auto simp: protocol_node_def split: prod.splits)
  with type_protocols(2) have "ctx c x' \<and> decl_name n" by blast
  then show ?thesis by (intro type_other) auto
next
  case (type_bound u ls)
  from chain_kinds [OF type_bound(1,3)] show ?thesis by (auto simp: protocols_node_def is_nominal_def is_bound_generic_def)
qed (auto simp: protocols_node_def optional_type_def param_type_def function_node_def)

lemma mangleNode_Ty: "mangleNode (Some (Ty nd)) = mangleNode (Some nd)"
  by (simp add: mangleNode_def mangle_Ty)

section \<open>A builder that never fails\<close>

text \<open>What the decoder needs of a builder: it makes a type from any parts, and it can name the
  declarations and protocols that the tree of a type mentions.\<close>

locale total_builder =
  fixes B :: "('t, 'd, 'p) builder"
  assumes nominal_decl: "is_type nd \<Longrightarrow> size nd < 2147483648 \<Longrightarrow> \<exists>d. createNominalTypeDecl B nd = Some (Some d)"
    and protocol_decl: "is_type nd \<Longrightarrow> size nd < 2147483648 \<Longrightarrow> \<exists>p. createProtocolDecl B nd = Some (Some p)"
    and builtin: "\<exists>t. createBuiltinType B s = Some (Some t)"
    and nominal: "\<exists>t. createNominalType B d parent = Some (Some t)"
    and bound_generic: "\<exists>t. createBoundGenericType B d args parent = Some (Some t)"
    and tuple: "\<exists>t. createTupleType B es s variadic = Some (Some t)"
    and function_type: "\<exists>t. createFunctionType B params (Some r) flags = Some (Some t)"
    and composition: "\<exists>t. createProtocolCompositionType B ps superclass b = Some (Some t)"
    and metatype: "\<exists>t. createMetatypeType B i b = Some (Some t)" "\<exists>t. createExistentialMetatypeType B i = Some (Some t)"
    and generic_param: "\<exists>t. createGenericTypeParameterType B depth index = Some (Some t)"
    and storage: "\<exists>t. createUnownedStorageType B i = Some (Some t)" "\<exists>t. createUnmanagedStorageType B i = Some (Some t)"
      "\<exists>t. createWeakStorageType B i = Some (Some t)" "\<exists>t. createSILBoxType B i = Some (Some t)"
begin

abbreviation decodes :: "node \<Rightarrow> bool" where
  "decodes nd \<equiv> \<exists>t. decode_type B nd = Some (Some t)"

lemma decode_all_some: "\<forall>c \<in> set cs. \<exists>x. f c = Some (Some x) \<Longrightarrow> \<exists>xs. decode_all f cs = Some (Some xs)"
  by (induction cs) (auto simp: and_then_eq_Some)

lemma decodes_Ty: "decodes t \<Longrightarrow> decodes (Ty t)"
  by (simp add: decode_kinds(1) decode_first_def decode_child_def getNumChildren_def getChild_def)

lemma nominal_decodes:
  assumes "is_type (stripGenericArgsFromContextNode (Node k NoPayload [c, n]))" "size (Node k NoPayload [c, n]) < 2147483648"
    "getKind c = K_Module \<or> decodes c" "k \<in> reference_kinds"
  shows "\<exists>d. decodeMangledNominalType B (decode_type B) (Node k NoPayload [c, n]) = Some (Some d)"
proof -
  let ?nd = "Node k NoPayload [c, n]"
  have "size (stripGenericArgsFromContextNode ?nd) < 2147483648"
    using strip_size [of ?nd] assms(2) by (simp add: stripGenericArgsFromContextNode_def)
  from nominal_decl [OF assms(1) this] obtain d where
    d: "createNominalTypeDecl B (stripGenericArgsFromContextNode ?nd) = Some (Some d)" by blast
  moreover have "stripGenericArgsFromContextNode ?nd = ?nd" if "getKind c = K_Module"
  proof -
    from that have "strip_context c = (c, True)" by (cases c) (simp add: is_nominal_def is_bound_generic_def)
    with assms(4) show ?thesis
      by (auto simp: stripGenericArgsFromContextNode_def reference_kinds_def is_nominal_def is_bound_generic_def)
  qed
  ultimately show ?thesis using assms(3,4)
    by (cases "getKind c = K_Module")
      (auto simp: decodeMangledNominalType_def getNumChildren_def getChild_def and_then_eq_Some reference_kinds_def)
qed

lemma passed_decodes:
  assumes "decodes (passed_type a)"
  shows "\<exists>r. decodeParamTypeAndFlags (decode_type B) a flags b = Some (Some r)"
proof (cases a)
  case (Node k p cs)
  show ?thesis
  proof (cases cs)
    case Nil
    have "decode_type B a = null_type" if "k = K_InOut \<or> k = K_Shared"
      using that Node decode_kinds(15) by simp
    with assms Node Nil show ?thesis by (auto simp: decodeParamTypeAndFlags_def and_then_eq_Some getFirstChild_def getNumChildren_def)
  next
    case (Cons c cs')
    with assms Node show ?thesis
      by (auto simp: decodeParamTypeAndFlags_def and_then_eq_Some getFirstChild_def getNumChildren_def split: if_splits)
  qed
qed

lemma input_decodes:
  assumes "getKind a \<notin> {K_Tuple, K_Type, K_ArgumentTuple}" "decodes (passed_type a)"
  shows "\<exists>r. decodeMangledFunctionInputType (decode_type B) (Node K_ArgumentTuple p [Ty a]) = Some (Some r)"
proof -
  have "look_through [K_Type, K_ArgumentTuple] a = Some a" using assms(1) by (cases a; cases "children a") auto
  moreover obtain r where "decodeParamTypeAndFlags (decode_type B) a 0 False = Some (Some r)"
    using passed_decodes [OF assms(2)] by blast
  ultimately show ?thesis using assms(1)
    by (auto simp: decodeMangledFunctionInputType_def and_then_eq_Some split: prod.split)
qed

lemma element_decodes:
  assumes "decodes (passed_type t)"
  shows "\<exists>r. decodeParam (decode_type B) (element_node (v, l, t)) b = Some (Some r)"
proof -
  have p: "\<exists>r. param_children (decode_type B) [Ty t] label None flags b = Some (Some r)" for label flags b
    using passed_decodes [OF assms, of flags b]
    by (auto simp: and_then_eq_Some getFirstChild_def getNumChildren_def split: prod.split)
  show ?thesis
    using p by (cases v; cases l) (simp_all add: decodeParam_def getText_def del: param_children.simps add: param_children.simps(2))
qed

lemma params_decode: "\<forall>(v, l, t) \<in> set es. decodes (passed_type t) \<Longrightarrow>
    \<exists>r. decode_params (decode_type B) (map element_node es) b = Some (Some r)"
proof (induction es arbitrary: b)
  case (Cons e es)
  obtain v l t where e: "e = (v, l, t)" by (cases e)
  from element_decodes [of t v l b] Cons.prems e obtain q b' where
    "decodeParam (decode_type B) (element_node e) b = Some (Some (q, b'))" by auto
  moreover obtain r where "decode_params (decode_type B) (map element_node es) b' = Some (Some r)"
    using Cons by fastforce
  ultimately show ?case by (cases r) simp
qed simp

lemma tuple_decodes: "\<forall>(v, l, t) \<in> set es. decodes t \<and> \<not> (v \<and> l \<noteq> None) \<Longrightarrow>
    \<exists>r. tuple_elements (decode_type B) (map element_node es) ts ls b = Some (Some r)"
proof (induction es arbitrary: ts ls b)
  case (Cons e es)
  obtain v l t where e: "e = (v, l, t)" by (cases e)
  with Cons.prems have t: "decodes (Ty t)" and vl: "\<not> (v \<and> l \<noteq> None)" using decodes_Ty by auto
  from Cons.IH Cons.prems have IH: "\<exists>r. tuple_elements (decode_type B) (map element_node es) ts ls b = Some (Some r)"
    for ts ls b by simp
  from t vl show ?case
    by (cases v; cases l)
      (auto simp: e getChild_def getNumChildren_def decode_child_def getText_def Let_def and_then_eq_Some IH
        simp del: split_paired_Ex)
qed simp

lemma protocols_decode:
  assumes "\<forall>p \<in> set ps. case p of (c, x, n) \<Rightarrow> is_type (Node K_Protocol NoPayload [c, n]) \<and>
    size (Node K_Protocol NoPayload [c, n]) < 2147483648"
  shows "\<exists>r. decode_all (decodeMangledProtocolType B) (map protocol_node ps) = Some (Some r)"
proof (rule decode_all_some, safe)
  fix nd assume "nd \<in> set (map protocol_node ps)"
  then obtain c x n where p: "(c, x, n) \<in> set ps" "nd = Ty (Node K_Protocol NoPayload [c, n])"
    by (auto simp: protocol_node_def split: prod.splits)
  with assms show "\<exists>x. decodeMangledProtocolType B nd = Some (Some x)"
    using protocol_decl [of "Node K_Protocol NoPayload [c, n]"]
    by (auto simp: decodeMangledProtocolType_def getNumChildren_def)
qed

lemma protocol_list_decodes:
  assumes "is_type (protocols_node ps)" "size (protocols_node ps) < 2147483648"
  shows "\<exists>r. decode_all (decodeMangledProtocolType B) (map protocol_node ps) = Some (Some r)"
proof (rule protocols_decode, safe)
  fix c x n assume p: "(c, x, n) \<in> set ps"
  then show "is_type (Node K_Protocol NoPayload [c, n])" by (rule protocols_are_types [OF assms(1)])
  from p have "protocol_node (c, x, n) \<in> set (map protocol_node ps)" by (metis imageI list.set_map)
  from size_list_estimation' [OF this order_refl, of size] have
    "size (protocol_node (c, x, n)) \<le> size_list size (map protocol_node ps)" .
  with assms(2) show "size (Node K_Protocol NoPayload [c, n]) < 2147483648"
    by (simp add: protocols_node_def protocol_node_def)
qed

lemma decodes_function:
  assumes "\<And>p. \<exists>i. decodeMangledFunctionInputType (decode_type B) (Node K_ArgumentTuple p [Ty a]) = Some (Some i)"
    "decodes r" "k \<in> {K_FunctionType, K_ThinFunctionType, K_ObjCBlock, K_CFunctionPointer}"
  shows "decodes (function_node k b a r)"
proof -
  let ?p = "IndexPayload (if getKind a = K_Tuple then length (children a) else 1)"
  from assms(1) [of ?p] obtain params flags where
    "decodeMangledFunctionInputType (decode_type B) (Node K_ArgumentTuple ?p [Ty a]) = Some (Some (params, flags))" by auto
  moreover have "decodes (Node K_ReturnType NoPayload [Ty r])"
    using decodes_Ty [OF assms(2)]
    by (simp add: decode_kinds(1) decode_first_def decode_child_def getNumChildren_def getChild_def)
  ultimately have "\<exists>t. decode_function B (decode_type B) (function_node k b a r) = Some (Some t)"
    using function_type
    by (cases b) (auto simp: decode_function_def function_node_def throws_nodes_def getNumChildren_def getChild_def decode_child_def Let_def)
  moreover have "k \<in> {K_ObjCBlock, K_CFunctionPointer, K_ThinFunctionType, K_FunctionType}" using assms(3) by auto
  ultimately show ?thesis by (simp add: function_node_def decode_kinds(9))
qed

text \<open>Every type that reflection supports is decoded.\<close>

lemma decode_reflectable: "reflectable nd \<Longrightarrow> size nd < 2147483648 \<Longrightarrow> decodes nd"
proof (induction rule: reflectable.induct)
  case (refl_nominal k c n)
  let ?nd = "Node k NoPayload [c, n]"
  have "extension_free ?nd" by (intro reflectable_extension_free reflectable.refl_nominal) (use refl_nominal in auto)
  then have "is_type (stripGenericArgsFromContextNode ?nd)" using refl_nominal by (intro stripped_type) auto
  then obtain d where "decodeMangledNominalType B (decode_type B) ?nd = Some (Some d)"
    using nominal_decodes [of k c n] refl_nominal by auto
  moreover have "k \<in> {K_Class, K_Enum, K_Structure, K_TypeAlias}" using refl_nominal(2) by (auto simp: reference_kinds_def)
  ultimately show ?case using nominal by (cases d) (simp add: decode_kinds(2))
next
  case (refl_bound bk k c n ts)
  let ?nd = "Node k NoPayload [c, n]" and ?bd = "Node bk NoPayload [Ty (Node k NoPayload [c, n]), type_list ts]"
  note k = bound_kinds [OF refl_bound(2)]
  have kr: "k \<in> reference_kinds" using refl_bound(2) by (auto simp: reference_kinds_def)
  have "extension_free ?bd" by (intro reflectable_extension_free reflectable.refl_bound) (use refl_bound in auto)
  then have "is_type (stripGenericArgsFromContextNode ?bd)" using refl_bound k by (intro stripped_type) auto
  moreover have "stripGenericArgsFromContextNode ?bd = stripGenericArgsFromContextNode ?nd"
    using k by (simp add: stripGenericArgsFromContextNode_def type_list_def)
  ultimately obtain d where d: "decodeMangledNominalType B (decode_type B) ?nd = Some (Some d)"
    using nominal_decodes [OF _ _ _ kr, of c n] refl_bound by auto
  have "\<forall>t \<in> set ts. size t < 2147483648"
  proof
    fix t assume "t \<in> set ts"
    then have "Ty t \<in> set (map Ty ts)" by simp
    from size_list_estimation' [OF this order_refl, of size] refl_bound(5) show "size t < 2147483648"
      by (simp add: type_list_def)
  qed
  then have "\<forall>c \<in> set (map Ty ts). decodes c" using refl_bound(4) decodes_Ty by auto
  from decode_all_some [OF this] obtain xs where xs: "decode_all (decode_type B) (map Ty ts) = Some (Some xs)" by blast
  have "look_through [K_Type] (Ty ?nd) = look_through [K_Type] ?nd" by simp
  then have "decodeMangledNominalType B (decode_type B) (Ty ?nd) = Some (Some d)"
    using d by (simp add: decodeMangledNominalType_def)
  then have "\<exists>t. decode_bound_generic B (decode_type B) ?bd = Some (Some t)"
    using xs bound_generic by (cases d) (simp add: decode_bound_generic_def getNumChildren_def getChild_def type_list_def)
  with k show ?case by (simp add: decode_kinds(3))
next
  case (refl_wrapped t k)
  then have t: "decodes (Ty t)" using decodes_Ty by auto
  then have "\<exists>t'. decode_first (decode_type B) (Node k NoPayload [Ty t]) = Some (Some t')"
    by (simp add: decode_first_def decode_child_def getChild_def getNumChildren_def)
  then have w: "\<exists>t'. decode_wrapped create (decode_type B) (Node k NoPayload [Ty t]) = Some (Some t')"
    if "\<And>t. \<exists>t'. create t = Some (Some t')" for create
    using that by (auto simp: decode_wrapped_def)
  have "\<exists>t'. decode_metatype B (decode_type B) (Node k NoPayload [Ty t]) = Some (Some t')"
    using t metatype by (auto simp: decode_metatype_def decode_instance_def decode_child_def getChild_def getNumChildren_def)
  with refl_wrapped(2) w [OF storage(1)] w [OF storage(2)] w [OF storage(3)] w [OF storage(4)] show ?case
    by (elim insertE) (simp_all add: decode_kinds)
next
  case (refl_representation t k r)
  then have "decodes (Ty t)" using decodes_Ty by auto
  with metatype have "\<exists>t'. decode_metatype B (decode_type B)
      (Node k NoPayload [Node K_MetatypeRepresentation (TextPayload r) [], Ty t]) = Some (Some t')"
    by (auto simp: decode_metatype_def decode_instance_def decode_child_def getChild_def getNumChildren_def hasText_def getText_def)
  with refl_representation(2) show ?case by (simp add: decode_kinds(5))
next
  case (refl_builtin s)
  let ?nd = "Node K_BuiltinTypeName (TextPayload (''Builtin.'' @ s)) []"
  obtain m where "mangleNode (Some (Ty ?nd)) = Some m"
    using type_name_roundtrip [OF type_builtin [OF refl_builtin(1)], of new_demangler] by (auto simp: new_demangler_def)
  then have "mangleNode (Some ?nd) = Some m" by (simp only: mangleNode_Ty)
  with builtin [of m] show ?case by (simp add: decode_kinds(4))
next
  case (refl_param depth index)
  then show ?case using generic_param
    by (simp add: param_type_def decode_kinds(8) decode_generic_param_def getChild_def getNumChildren_def getIndex_def)
next
  case (refl_tuple es)
  have "decodes t \<and> \<not> (v \<and> l \<noteq> None)" if e: "(v, l, t) \<in> set es" for v l t
  proof -
    from bspec [OF refl_tuple(1) e] have "size t < 2147483648 \<longrightarrow> decodes t" "\<not> (v \<and> l \<noteq> None)" by simp_all
    moreover from element_size [OF e, of NoPayload] refl_tuple.prems have "size t < 2147483648" by linarith
    ultimately show ?thesis by blast
  qed
  then have "\<forall>(v, l, t) \<in> set es. decodes t \<and> \<not> (v \<and> l \<noteq> None)" by blast
  from tuple_decodes [OF this] obtain ts ls v where
    "tuple_elements (decode_type B) (map element_node es) [] [] False = Some (Some (ts, ls, v))" by (metis prod_cases3)
  with tuple show ?case by (simp add: decode_kinds(10) decode_tuple_def)
next
  case (refl_function a r k b)
  have "getKind a \<notin> {K_Tuple, K_Type, K_ArgumentTuple}"
    using refl_function(1) reflectable_kind [OF refl_function(2)] by (cases a rule: passed_type.cases) (auto split: if_splits)
  then have i: "\<exists>i. decodeMangledFunctionInputType (decode_type B) (Node K_ArgumentTuple p [Ty a]) = Some (Some i)" for p
    using refl_function passed_size [of a] by (intro input_decodes) (auto simp: function_node_def)
  have "decodes r" using refl_function by (simp add: function_node_def)
  from decodes_function [OF i this refl_function(4)] show ?case .
next
  case (refl_function_tuple es r k b)
  have "\<forall>(v, l, t) \<in> set es. decodes (passed_type t)"
  proof safe
    fix v l t assume e: "(v, l, t) \<in> set es"
    have "size (Node K_Tuple NoPayload (map element_node es)) < 2147483648"
      using refl_function_tuple.prems by (simp add: function_node_def)
    with element_size [OF e, of NoPayload] passed_size [of t] have "size (passed_type t) < 2147483648" by linarith
    with refl_function_tuple(1) e show "decodes (passed_type t)" by blast
  qed
  from params_decode [OF this] have i:
    "\<exists>i. decodeMangledFunctionInputType (decode_type B) (Node K_ArgumentTuple p [Ty (Node K_Tuple NoPayload (map element_node es))])
      = Some (Some i)" for p
    by (cases es) (simp_all add: decodeMangledFunctionInputType_def del: decode_params.simps split_paired_Ex)
  have "decodes r" using refl_function_tuple by (simp add: function_node_def)
  from decodes_function [OF i this refl_function_tuple.hyps(2)] show ?case .
next
  case (refl_protocols ps)
  from protocol_list_decodes [OF this] composition show ?case
    by (auto simp: decode_kinds(6) decode_protocol_list_def protocols_node_def getChild_def getNumChildren_def)
next
  case (refl_any_object ps)
  then have "size (protocols_node ps) < 2147483648" by simp
  from protocol_list_decodes [OF refl_any_object(1) this] composition show ?case
    by (auto simp: decode_kinds(6) decode_protocol_list_def protocols_node_def getChild_def getNumChildren_def)
next
  case (refl_with_class ps t)
  then have "size (protocols_node ps) < 2147483648" "decodes (Ty t)" using decodes_Ty by auto
  from protocol_list_decodes [OF refl_with_class(1) this(1)] this(2) composition show ?case
    by (auto simp: decode_kinds(6) decode_protocol_list_def protocols_node_def getChild_def getNumChildren_def decode_child_def)
next
  case (refl_protocol c n)
  from protocol_decl [OF this] composition show ?case
    by (auto simp: decode_kinds(7) decode_protocol_def decodeMangledProtocolType_def getNumChildren_def)
qed

end

section \<open>The builder of type references\<close>

lemma mangled_type:
  assumes "is_type nd" "size nd < 2147483648"
  shows "\<exists>s d'. mangleNode (Some nd) = Some s \<and> demangleType s new_demangler = Some (Some (Ty nd), d')"
  using type_name_roundtrip [OF assms, of new_demangler] by (simp add: mangleNode_Ty new_demangler_def)

interpretation type_refs: total_builder type_ref_builder
  by unfold_locales (auto simp: type_ref_builder_def dest: mangled_type)

text \<open>The name in a reference is that of the declaration without generic arguments.\<close>

lemma declaration_name:
  assumes "decodeMangledNominalType type_ref_builder rec (Node k NoPayload [c, n]) = Some (Some (name, parent))" "k \<in> reference_kinds"
  shows "mangleNode (Some (stripGenericArgsFromContextNode (Node k NoPayload [c, n]))) = Some name"
proof (cases "getKind c = K_Module")
  case True
  then have "strip_context c = (c, True)" by (cases c) (simp add: is_nominal_def is_bound_generic_def)
  with assms(2) have "stripGenericArgsFromContextNode (Node k NoPayload [c, n]) = Node k NoPayload [c, n]"
    by (auto simp: stripGenericArgsFromContextNode_def reference_kinds_def is_nominal_def is_bound_generic_def)
  with True assms show ?thesis
    by (auto simp: decodeMangledNominalType_def getNumChildren_def getChild_def and_then_eq_Some type_ref_builder_def
      reference_kinds_def)
next
  case False
  with assms show ?thesis
    by (auto simp: decodeMangledNominalType_def getNumChildren_def getChild_def and_then_eq_Some type_ref_builder_def
      reference_kinds_def)
qed

lemma declares_type: "demangleType name new_demangler = Some (Some (Ty nd), d') \<Longrightarrow> getKind nd \<noteq> K_Type \<Longrightarrow>
    name_declares ks name = Some (getKind nd \<in> ks)"
  by (cases nd; cases "children nd") (auto simp: name_declares_def)

lemma strip_kind: "k \<in> reference_kinds \<Longrightarrow> getKind (stripGenericArgsFromContextNode (Node k p [c, n])) = k"
  by (auto simp: stripGenericArgsFromContextNode_def reference_kinds_def is_nominal_def is_bound_generic_def split: prod.split)

lemma reference_name:
  assumes "reflectable nd" "size nd < 2147483648" "getKind nd \<in> reference_kinds \<or> is_bound_generic (getKind nd)"
  obtains t name d' k where "decode_type type_ref_builder nd = Some (Some t)" "nominal_name t = Some name"
    "demangleType name new_demangler = Some (Some (Ty (stripGenericArgsFromContextNode nd)), d')"
    "getKind (stripGenericArgsFromContextNode nd) = k" "k \<in> reference_kinds"
    "getKind nd = k \<or> (k, getKind nd) \<in> {(K_Structure, K_BoundGenericStructure), (K_Enum, K_BoundGenericEnum), (K_Class, K_BoundGenericClass)}"
proof -
  have "is_type (stripGenericArgsFromContextNode nd)"
  proof (rule stripped_type)
    show "is_type nd" using assms(1,3)
      by cases (auto simp: reference_kinds_def is_bound_generic_def param_type_def function_node_def protocols_node_def)
  qed (use assms(1,3) reflectable_extension_free in auto)
  moreover have "size (stripGenericArgsFromContextNode nd) < 2147483648"
    using strip_size [of nd] assms(2) by (simp add: stripGenericArgsFromContextNode_def)
  ultimately obtain s d' where s: "mangleNode (Some (stripGenericArgsFromContextNode nd)) = Some s"
    "demangleType s new_demangler = Some (Some (Ty (stripGenericArgsFromContextNode nd)), d')" using mangled_type by blast
  obtain t where t: "decode_type type_ref_builder nd = Some (Some t)"
    using type_refs.decode_reflectable [OF assms(1,2)] by blast
  show thesis
    using assms(1)
  proof cases
    case (refl_nominal k c n)
    then have k: "k \<in> {K_Class, K_Enum, K_Structure, K_TypeAlias}" by (auto simp: reference_kinds_def)
    from t obtain name parent where
      name: "decodeMangledNominalType type_ref_builder (decode_type type_ref_builder) nd = Some (Some (name, parent))"
      "t = NominalTypeRef name parent"
      by (auto simp: refl_nominal(1) decode_kinds(2) [OF k] and_then_eq_Some type_ref_builder_def)
    from declaration_name [OF name(1) [unfolded refl_nominal(1)] refl_nominal(3)] s(1) have "s = name"
      by (simp add: refl_nominal(1))
    with that [OF t _ s(2), of k] name(2) strip_kind [OF refl_nominal(3)] refl_nominal(1,3) show ?thesis by simp
  next
    case (refl_bound bk k c n ts)
    note b = bound_kinds [OF refl_bound(3)]
    have k: "k \<in> reference_kinds" using refl_bound(3) by (auto simp: reference_kinds_def)
    have strip: "stripGenericArgsFromContextNode nd = stripGenericArgsFromContextNode (Node k NoPayload [c, n])"
      using b by (simp add: refl_bound(1) stripGenericArgsFromContextNode_def type_list_def)
    have "look_through [K_Type] (Ty (Node k NoPayload [c, n])) = look_through [K_Type] (Node k NoPayload [c, n])" by simp
    then have "decodeMangledNominalType type_ref_builder rec (Ty (Node k NoPayload [c, n])) =
        decodeMangledNominalType type_ref_builder rec (Node k NoPayload [c, n])" for rec
      by (simp add: decodeMangledNominalType_def)
    with t b obtain name args parent where
      name: "decodeMangledNominalType type_ref_builder (decode_type type_ref_builder) (Node k NoPayload [c, n]) = Some (Some (name, parent))"
      "t = BoundGenericTypeRef name args parent"
      by (auto simp: refl_bound(1) decode_kinds(3) decode_bound_generic_def getNumChildren_def getChild_def type_list_def
        and_then_eq_Some type_ref_builder_def)
    from declaration_name [OF name(1) k] s(1) have "s = name" by (simp add: strip)
    with that [OF t _ s(2), of k] name(2) strip_kind [OF k] strip refl_bound(1,3) k show ?thesis by simp
  qed (use assms(3) in \<open>auto simp: reference_kinds_def is_bound_generic_def param_type_def function_node_def protocols_node_def\<close>)
qed

lemma decoded_names:
  assumes "reflectable nd" "size nd < 2147483648" "getKind nd \<in> reference_kinds \<or> is_bound_generic (getKind nd)"
  shows "\<exists>t name d'. decodeMangledType type_ref_builder (Some nd) = Some (Some t) \<and> nominal_name t = Some name \<and>
    demangleType name new_demangler = Some (Some (Ty (stripGenericArgsFromContextNode nd)), d') \<and>
    isStruct name = Some (getKind nd \<in> {K_Structure, K_BoundGenericStructure}) \<and>
    isEnum name = Some (getKind nd \<in> {K_Enum, K_BoundGenericEnum}) \<and>
    isClass name = Some (getKind nd \<in> {K_Class, K_BoundGenericClass})"
proof (rule reference_name [OF assms])
  fix t name d' k
  assume *: "decode_type type_ref_builder nd = Some (Some t)" "nominal_name t = Some name"
    "demangleType name new_demangler = Some (Some (Ty (stripGenericArgsFromContextNode nd)), d')"
    "getKind (stripGenericArgsFromContextNode nd) = k" "k \<in> reference_kinds"
    "getKind nd = k \<or> (k, getKind nd) \<in> {(K_Structure, K_BoundGenericStructure), (K_Enum, K_BoundGenericEnum), (K_Class, K_BoundGenericClass)}"
  have "name_declares ks name = Some (k \<in> ks)" for ks
    using declares_type [OF *(3)] *(4,5) by (auto simp: reference_kinds_def)
  with *(1-3,5,6) show ?thesis
    by (auto simp: decodeMangledType_def isStruct_def isEnum_def isClass_def reference_kinds_def)
qed

text \<open>From a written type to its reference.\<close>

lemma written_type_reference:
  assumes "is_type nd" "reflectable nd" "size nd < 2147483648"
  shows "\<exists>s t. mangleNode (Some (Ty nd)) = Some s \<and> type_of_name s = Some (Some t)"
proof -
  obtain s d' where s: "mangleNode (Some nd) = Some s" "demangleType s new_demangler = Some (Some (Ty nd), d')"
    using mangled_type [OF assms(1,3)] by blast
  moreover obtain t where "decode_type type_ref_builder (Ty nd) = Some (Some t)"
    using type_refs.decodes_Ty type_refs.decode_reflectable [OF assms(2,3)] by blast
  ultimately show ?thesis by (simp add: mangleNode_Ty type_of_name_def decodeMangledType_def)
qed

text \<open>The decoder asks a variadic marker for the label.\<close>

lemma labelled_variadic: "decode_type B (Node K_Tuple p (element_node (True, Some l, t) # es)) = None"
  by (simp add: decode_kinds(10) decode_tuple_def getChild_def getNumChildren_def getText_def Let_def)

section \<open>Examples\<close>

lemma example_reflectable: "reflectable example_class" "reflectable example_array" "reflectable example_type"
proof -
  show c: "reflectable example_class"
    using example_is_class unfolding example_class_def by (intro refl_nominal) (simp_all add: reference_kinds_def)
  show a: "reflectable example_array"
    using example_is_array c unfolding example_array_def by (intro refl_bound) simp_all
  show "reflectable example_type"
    using c a unfolding example_type_def by (intro refl_function) (simp_all add: example_class_def)
qed

lemma example_sizes: "size example_class < 2147483648" "size example_array < 2147483648" "size example_type < 2147483648"
  by (simp_all add: example_type_def function_node_def throws_nodes_def example_class_def example_array_def
    type_list_def ident_node_def)

lemma example_chain: "\<exists>u ls. chain example_array u ls \<and> (\<exists>ts \<in> set ls. ts \<noteq> [])"
proof -
  let ?u = "Node K_Structure NoPayload [Node K_Module (TextPayload ''Swift'') [], ident_node ''Array'']"
  have "chain (Node K_Module p cs) (Node K_Module p cs) []" for p cs
    by (rule chain_root) (simp_all add: is_nominal_def is_bound_generic_def)
  then have "chain example_array ?u [[example_class]]" unfolding example_array_def
    by (rule chain_bound) simp_all
  then show ?thesis by (intro exI conjI) (assumption, simp)
qed

end
