(* ===== verification/Metadata_Source.thy ===== *)
theory Metadata_Source
  imports Mangling_Chars
begin

text \<open>
  Sources of metadata in closure contexts: \<open>MetadataSource.h\<close> with its decoder, and the encoder
  \<open>MetadataSourceEncoder\<close> of \<open>GenReflection.cpp\<close> in the compiler.
\<close>

section \<open>Sources\<close>

datatype MetadataSource =
    ClosureBinding nat
  | ReferenceCapture nat
  | MetadataCapture nat
  | GenericArgument nat MetadataSource
  | SelfSource
  | SelfWitnessTable

section \<open>The encoder of the compiler\<close>

primrec encode_source :: "MetadataSource \<Rightarrow> string" where
  "encode_source (ClosureBinding index) = ''B'' @ decimal index"
| "encode_source (ReferenceCapture index) = ''R'' @ decimal index"
| "encode_source (MetadataCapture index) = ''M'' @ decimal index"
| "encode_source (GenericArgument index source) = ''G'' @ decimal index @ encode_source source @ ''_''"
| "encode_source SelfSource = ''S''"
| "encode_source SelfWitnessTable = ''W''"

section \<open>The decoder of the reflection library\<close>

text \<open>A decoder takes the rest of the text; \<open>None\<close> is a null pointer or \<open>false\<close>. \<open>strtol\<close> returns a
  64-bit \<open>long\<close>, and \<open>LONG_MAX\<close> when the number is larger; the conversion to \<open>unsigned\<close> keeps 32 bits.\<close>

definition LONG_MAX :: nat where
  "LONG_MAX = 9223372036854775807"

fun strtol_value :: "nat \<Rightarrow> string \<Rightarrow> nat" where
  "strtol_value n [] = n"
| "strtol_value n (c # cs) = strtol_value (10 * n + (ord c - 48)) cs"

definition source_natural :: "string \<Rightarrow> (nat \<times> string) option" where
  "source_natural s =
     (let digits = takeWhile isDigit s in
      if digits = [] then None
      else if strtol_value 0 digits > LONG_MAX then None
      else Some (strtol_value 0 digits mod 4294967296, dropWhile isDigit s))"

definition source_index :: "(nat \<Rightarrow> MetadataSource) \<Rightarrow> string \<Rightarrow> (MetadataSource \<times> string) option" where
  "source_index create s = map_option (\<lambda>(index, s). (create index, s)) (source_natural s)"

text \<open>Each source starts with a letter, so the length of the text is enough fuel.\<close>

fun decode_source_fuel :: "nat \<Rightarrow> string \<Rightarrow> (MetadataSource \<times> string) option" where
  "decode_source_fuel 0 s = None"
| "decode_source_fuel (Suc n) [] = None"
| "decode_source_fuel (Suc n) (c # s) =
     (if c = CHR ''B'' then source_index ClosureBinding s
      else if c = CHR ''R'' then source_index ReferenceCapture s
      else if c = CHR ''M'' then source_index MetadataCapture s
      else if c = CHR ''G'' then do {
        (index, s) \<leftarrow> source_natural s;
        (source, s) \<leftarrow> decode_source_fuel n s;
        case s of
          [] \<Rightarrow> None
        | x # s \<Rightarrow> if x \<noteq> CHR ''_'' then None else Some (GenericArgument index source, s)
      }
      else if c = CHR ''S'' then Some (SelfSource, s)
      else None)"

text \<open>What follows the source is not looked at.\<close>

definition decode_source_rest :: "string \<Rightarrow> (MetadataSource \<times> string) option" where
  "decode_source_rest s = decode_source_fuel (length s) s"

definition decode_source :: "string \<Rightarrow> MetadataSource option" where
  "decode_source s = map_option fst (decode_source_rest s)"

section \<open>Sources survive encoding and decoding\<close>

lemma strtol_value_append: "strtol_value n (s @ [c]) = 10 * strtol_value n s + (ord c - 48)"
  by (induction s arbitrary: n) auto

lemma strtol_value_decimal [simp]: "strtol_value 0 (decimal n) = n"
proof (induction n rule: decimal.induct)
  case (1 n)
  then show ?case by (subst decimal.simps) (auto simp: strtol_value_append)
qed

lemma decimal_isDigit: "c \<in> set (decimal n) \<Longrightarrow> isDigit c"
  using decimal_digits [of c n] by (auto simp: isDigit_def)

lemma source_natural_decimal:
  assumes "n < 4294967296" "s = [] \<or> \<not> isDigit (hd s)"
  shows "source_natural (decimal n @ s) = Some (n, s)"
proof -
  have "takeWhile isDigit (decimal n @ s) = decimal n" "dropWhile isDigit (decimal n @ s) = s"
    using assms(2) by (cases s; simp add: decimal_isDigit takeWhile_append dropWhile_append)+
  with assms(1) show ?thesis by (simp add: source_natural_def LONG_MAX_def)
qed

primrec source_ok :: "MetadataSource \<Rightarrow> bool" where
  "source_ok (ClosureBinding index) \<longleftrightarrow> index < 4294967296"
| "source_ok (ReferenceCapture index) \<longleftrightarrow> index < 4294967296"
| "source_ok (MetadataCapture index) \<longleftrightarrow> index < 4294967296"
| "source_ok (GenericArgument index source) \<longleftrightarrow> index < 4294967296 \<and> source_ok source"
| "source_ok SelfSource \<longleftrightarrow> True"
| "source_ok SelfWitnessTable \<longleftrightarrow> False"

lemma encode_source_start: "encode_source m \<noteq> []" "\<not> isDigit (hd (encode_source m))"
  by (cases m; simp add: isDigit_def)+

lemma decode_encode_fuel:
  assumes "source_ok m" "length (encode_source m) \<le> Suc n" "s = [] \<or> \<not> isDigit (hd s)"
  shows "decode_source_fuel (Suc n) (encode_source m @ s) = Some (m, s)"
  using assms
proof (induction m arbitrary: n s)
  case (GenericArgument index source)
  then obtain k where k: "n = Suc k" by (cases n) auto
  have u: "CHR ''_'' # s = [] \<or> \<not> isDigit (hd (CHR ''_'' # s))" by (simp add: isDigit_def)
  have "decode_source_fuel n (encode_source source @ CHR ''_'' # s) = Some (source, CHR ''_'' # s)"
    unfolding k using GenericArgument.prems k by (intro GenericArgument.IH u) auto
  moreover have "source_natural (decimal index @ encode_source source @ CHR ''_'' # s) =
      Some (index, encode_source source @ CHR ''_'' # s)"
    using GenericArgument.prems(1) encode_source_start [of source]
    by (intro source_natural_decimal) simp_all
  ultimately show ?case by simp
qed (simp_all add: source_index_def source_natural_decimal)

lemma decode_encode_any:
  assumes "source_ok m" "s = [] \<or> \<not> isDigit (hd s)"
  shows "decode_source_fuel (length (encode_source m) + length s) (encode_source m @ s) = Some (m, s)"
proof -
  obtain n where "length (encode_source m) + length s = Suc n"
    using encode_source_start(1) [of m] by (cases "encode_source m") auto
  with assms decode_encode_fuel [of m n s] show ?thesis by simp
qed

interpretation source_codec: prefix_codec encode_source decode_source_rest source_ok "\<lambda>s. s = [] \<or> \<not> isDigit (hd s)"
  by unfold_locales (simp add: decode_source_rest_def decode_encode_any)

lemma decode_encode: "source_ok m \<Longrightarrow> decode_source (encode_source m) = Some m"
  using source_codec.dec_enc_append [of m "[]"] by (simp add: decode_source_def)

text \<open>The encoder knows a letter that the decoder does not.\<close>

fun innermost :: "MetadataSource \<Rightarrow> MetadataSource" where
  "innermost (GenericArgument index source) = innermost source"
| "innermost m = m"

lemma witness_table_fuel:
  assumes "innermost m = SelfWitnessTable"
  shows "decode_source_fuel n (encode_source m @ s) = None"
  using assms
proof (induction n arbitrary: m s)
  case (Suc n)
  show ?case
  proof (cases m)
    case (GenericArgument index source)
    with Suc.prems have "decode_source_fuel n (encode_source source @ t) = None" for t by (intro Suc.IH) simp
    moreover have "source_natural (decimal index @ encode_source source @ t) = None \<or>
        (\<exists>i. source_natural (decimal index @ encode_source source @ t) = Some (i, encode_source source @ t))" for t
    proof -
      have "dropWhile isDigit (decimal index @ encode_source source @ t) = encode_source source @ t"
        using encode_source_start [of source]
        by (cases "encode_source source") (simp_all add: decimal_isDigit dropWhile_append)
      then show ?thesis by (auto simp: source_natural_def Let_def)
    qed
    from this [of "CHR ''_'' # s"] calculation [of "CHR ''_'' # s"] show ?thesis
      by (auto simp: GenericArgument)
  qed (use Suc.prems in simp_all)
qed simp

lemma decode_witness_table: "innermost m = SelfWitnessTable \<Longrightarrow> decode_source (encode_source m) = None"
  using witness_table_fuel [of m _ "[]"] by (simp add: decode_source_def decode_source_rest_def)

end
