(* ===== verification/Type_Ref_Builder.thy ===== *)
theory Type_Ref_Builder
  imports Type_Ref Metadata_Source
begin

text \<open>
  The lookups of \<open>TypeRefBuilder.cpp\<close> in the reflection sections of the loaded images, the identifiers
  of \<open>TypeRefID\<close> that key its caches, and the substitution of generic arguments of \<open>TypeRef.cpp\<close>, which
  looks up the witnesses of associated types.

  A section is the list of its descriptors (\<open>Records.h\<close>); a relative pointer to a name is an optional
  string. The layout of the records in memory is not modelled.
\<close>

section \<open>Reflection sections\<close>

datatype FieldDescriptorKind = StructKind | ClassKind | EnumKind | MultiPayloadEnum | ProtocolKind
  | ClassProtocol | ObjCProtocol | ObjCClassKind

record FieldRecord =
  field_type :: "string option"
  field_name :: "string option"
  field_indirect :: bool

record FieldDescriptor =
  fd_type :: "string option"
  fd_superclass :: "string option"
  fd_kind :: FieldDescriptorKind
  fd_records :: "FieldRecord list"

record AssociatedTypeDescriptor =
  ConformingTypeName :: string
  ProtocolTypeName :: string
  AssociatedTypes :: "(string \<times> string) list"

record BuiltinTypeDescriptor =
  builtin_type :: "string option"
  builtin_size :: nat
  builtin_alignment :: nat
  builtin_stride :: nat
  builtin_extra_inhabitants :: nat

record CaptureDescriptor =
  CaptureTypeRecords :: "string option list"
  MetadataSourceRecords :: "(string option \<times> string option) list"
  NumBindings :: nat

record ReflectionInfo =
  FieldSection :: "FieldDescriptor list"
  AssociatedTypeSection :: "AssociatedTypeDescriptor list"
  BuiltinSection :: "BuiltinTypeDescriptor list"

definition fd_isEnum :: "FieldDescriptor \<Rightarrow> bool" where
  "fd_isEnum FD \<longleftrightarrow> fd_kind FD = EnumKind \<or> fd_kind FD = MultiPayloadEnum"

section \<open>Names\<close>

definition reflectionNameMatches :: "string \<Rightarrow> string \<Rightarrow> bool option" where
  "reflectionNameMatches reflectionName searchName =
     map_option (\<lambda>n. n = searchName) (dropSwiftManglingPrefix reflectionName)"

section \<open>Identifiers of type references\<close>

text \<open>A character is a signed \<open>char\<close>, extended to 32 bits.\<close>

definition char_bits :: "char \<Rightarrow> 32 word" where
  "char_bits c = word_of_int (signed_take_bit 7 (int (ord c)))"

fun addString_chunks :: "string \<Rightarrow> 32 word list" where
  "addString_chunks (a # b # c # d # s) =
     (char_bits a + push_bit 8 (char_bits b) + push_bit 16 (char_bits c) + push_bit 24 (char_bits d)) #
     addString_chunks s"
| "addString_chunks s = map char_bits s"

definition addString :: "string \<Rightarrow> 32 word list" where
  "addString s = (if s = [] then [0] else addString_chunks s)"

text \<open>The key of \<open>AssociatedTypeCache\<close>.\<close>

definition witness_key :: "string \<Rightarrow> string \<Rightarrow> string \<Rightarrow> 32 word list" where
  "witness_key MangledTypeName Member Proto = addString MangledTypeName @ addString Member @ addString Proto"

section \<open>Associated types\<close>

text \<open>The name of the first witness; \<open>None\<close> when the prefix of a protocol name is read past its end.\<close>

fun find_witness :: "AssociatedTypeDescriptor list \<Rightarrow> string \<Rightarrow> string \<Rightarrow> string \<Rightarrow> string built" where
  "find_witness [] MangledTypeName Member Proto = Some None"
| "find_witness (d # ds) MangledTypeName Member Proto =
     (if ConformingTypeName d \<noteq> MangledTypeName then find_witness ds MangledTypeName Member Proto
      else do {
        matches \<leftarrow> reflectionNameMatches (ProtocolTypeName d) Proto;
        if \<not> matches then find_witness ds MangledTypeName Member Proto
        else case map_of (AssociatedTypes d) Member of
            Some SubstitutedTypeName \<Rightarrow> Some (Some SubstitutedTypeName)
          | None \<Rightarrow> find_witness ds MangledTypeName Member Proto
      })"

definition associated_types :: "ReflectionInfo list \<Rightarrow> AssociatedTypeDescriptor list" where
  "associated_types Infos = concat (map AssociatedTypeSection Infos)"

text \<open>The lookup without the cache.\<close>

definition search_witness :: "ReflectionInfo list \<Rightarrow> string \<Rightarrow> string \<Rightarrow> string \<Rightarrow> TypeRef built" where
  "search_witness Infos MangledTypeName Member Proto =
     and_then (find_witness (associated_types Infos) MangledTypeName Member Proto) type_of_name"

text \<open>The lookup with the cache, which remembers null types too.\<close>

record type_ref_state =
  ReflectionInfos :: "ReflectionInfo list"
  AssociatedTypeCache :: "32 word list \<rightharpoonup> TypeRef option"

definition lookupTypeWitness ::
    "string \<Rightarrow> string \<Rightarrow> string \<Rightarrow> type_ref_state \<Rightarrow> (TypeRef option \<times> type_ref_state) option" where
  "lookupTypeWitness MangledTypeName Member Proto B =
     (let key = witness_key MangledTypeName Member Proto in
      case AssociatedTypeCache B key of
        Some TypeWitness \<Rightarrow> Some (TypeWitness, B)
      | None \<Rightarrow> do {
          found \<leftarrow> find_witness (associated_types (ReflectionInfos B)) MangledTypeName Member Proto;
          case found of
            None \<Rightarrow> Some (None, B)
          | Some SubstitutedTypeName \<Rightarrow> do {
              TypeWitness \<leftarrow> type_of_name SubstitutedTypeName;
              Some (TypeWitness, B\<lparr>AssociatedTypeCache := (AssociatedTypeCache B)(key \<mapsto> TypeWitness)\<rparr>)
            }
        })"

definition addReflectionInfo :: "ReflectionInfo \<Rightarrow> type_ref_state \<Rightarrow> type_ref_state" where
  "addReflectionInfo I B = B\<lparr>ReflectionInfos := ReflectionInfos B @ [I]\<rparr>"

section \<open>FRs and superclasses\<close>

fun find_field_descriptor :: "FieldDescriptor list \<Rightarrow> string \<Rightarrow> FieldDescriptor built" where
  "find_field_descriptor [] MangledName = Some None"
| "find_field_descriptor (FD # FDs) MangledName =
     (case fd_type FD of
        None \<Rightarrow> find_field_descriptor FDs MangledName
      | Some CandidateMangledName \<Rightarrow> do {
          matches \<leftarrow> reflectionNameMatches CandidateMangledName MangledName;
          if matches then Some (Some FD) else find_field_descriptor FDs MangledName
        })"

definition getFieldTypeInfo :: "ReflectionInfo list \<Rightarrow> TypeRef \<Rightarrow> FieldDescriptor built" where
  "getFieldTypeInfo Infos TR =
     (case nominal_name TR of
        None \<Rightarrow> Some None
      | Some MangledName \<Rightarrow> find_field_descriptor (concat (map FieldSection Infos)) MangledName)"

text \<open>\<open>subst\<close> is the substitution of generic arguments in the superclass. The superclass is read without
  a test whether there is one.\<close>

definition lookupSuperclass ::
    "ReflectionInfo list \<Rightarrow> (GenericArgumentMap \<Rightarrow> TypeRef \<Rightarrow> TypeRef option) \<Rightarrow> TypeRef \<Rightarrow> TypeRef built" where
  "lookupSuperclass Infos subst TR =
     and_then (getFieldTypeInfo Infos TR) (\<lambda>FD. do {
       name \<leftarrow> fd_superclass FD;
       and_then (type_of_name name) (\<lambda>Unsubstituted. do {
         Subs \<leftarrow> getSubstMap TR;
         map_option Some (subst Subs Unsubstituted)
       })
     })"

section \<open>Substitution\<close>

text \<open>The loop over the superclasses of the base: the witness, if any, and the last base. A base that
  is not nominal fails the assertion of \<open>cast\<close>. The loop need not end, so it takes fuel.\<close>

fun witness_loop ::
    "nat \<Rightarrow> ReflectionInfo list \<Rightarrow> (GenericArgumentMap \<Rightarrow> TypeRef \<Rightarrow> TypeRef option) \<Rightarrow> string \<Rightarrow> string \<Rightarrow>
     TypeRef \<Rightarrow> (TypeRef option \<times> TypeRef) option" where
  "witness_loop 0 Infos subst Member Proto SubstBase = None"
| "witness_loop (Suc n) Infos subst Member Proto SubstBase = do {
     MangledName \<leftarrow> nominal_name SubstBase;
     TypeWitness \<leftarrow> search_witness Infos MangledName Member Proto;
     if TypeWitness \<noteq> None then Some (TypeWitness, SubstBase)
     else do {
       Superclass \<leftarrow> lookupSuperclass Infos subst SubstBase;
       case Superclass of
         None \<Rightarrow> Some (None, SubstBase)
       | Some SubstBase \<Rightarrow> witness_loop n Infos subst Member Proto SubstBase
     }
   }"

definition map_params :: "('a \<Rightarrow> 'b option) \<Rightarrow> 'a FunctionParam list \<Rightarrow> 'b FunctionParam list option" where
  "map_params f ps = those (map (\<lambda>p. map_option (withType p) (f (param_type p))) ps)"

lemma map_params_cong [fundef_cong]:
  "ps = qs \<Longrightarrow> (\<And>p. p \<in> set qs \<Longrightarrow> f (param_type p) = g (param_type p)) \<Longrightarrow> map_params f ps = map_params g qs"
  by (simp add: map_params_def cong: map_cong)

text \<open>\<open>TypeRefSubstitution\<close>. The nested call substitutes in witnesses and superclasses.\<close>

fun substitute ::
    "nat \<Rightarrow> ReflectionInfo list \<Rightarrow> (GenericArgumentMap \<Rightarrow> TypeRef \<Rightarrow> TypeRef option) \<Rightarrow> GenericArgumentMap \<Rightarrow>
     TypeRef \<Rightarrow> TypeRef option" where
  "substitute n Infos nested Subs (NominalTypeRef name parent) =
     (case parent of
        None \<Rightarrow> Some (NominalTypeRef name None)
      | Some p \<Rightarrow> map_option (\<lambda>p. NominalTypeRef name (Some p)) (substitute n Infos nested Subs p))"
| "substitute n Infos nested Subs (BoundGenericTypeRef name params parent) = do {
     Parent \<leftarrow> (case parent of None \<Rightarrow> Some None | Some p \<Rightarrow> map_option Some (substitute n Infos nested Subs p));
     GenericParams \<leftarrow> those (map (substitute n Infos nested Subs) params);
     Some (BoundGenericTypeRef name GenericParams Parent)
   }"
| "substitute n Infos nested Subs (TupleTypeRef elements variadic) =
     map_option (\<lambda>es. TupleTypeRef es False) (those (map (substitute n Infos nested Subs) elements))"
| "substitute n Infos nested Subs (FunctionTypeRef params result flags) = do {
     SubstitutedParams \<leftarrow> map_params (substitute n Infos nested Subs) params;
     SubstitutedResult \<leftarrow> substitute n Infos nested Subs result;
     Some (FunctionTypeRef SubstitutedParams SubstitutedResult flags)
   }"
| "substitute n Infos nested Subs (MetatypeTypeRef t wasAbstract) =
     (if isConcrete (MetatypeTypeRef t wasAbstract) then Some (MetatypeTypeRef t wasAbstract)
      else map_option (\<lambda>t. MetatypeTypeRef t True) (substitute n Infos nested Subs t))"
| "substitute n Infos nested Subs (ExistentialMetatypeTypeRef t) = do {
     assert_that (isConcrete t);
     Some (ExistentialMetatypeTypeRef t)
   }"
| "substitute n Infos nested Subs (GenericTypeParameterTypeRef depth index) =
     (case Subs (depth, index) of
        None \<Rightarrow> Some (GenericTypeParameterTypeRef depth index)
      | Some found \<Rightarrow> do {
          assert_that (isConcrete found);
          Some (thickenMetatypes found)
        })"
| "substitute n Infos nested Subs (DependentMemberTypeRef Member b Proto) = do {
     SubstBase \<leftarrow> substitute n Infos nested Subs b;
     (TypeWitness, SubstBase) \<leftarrow> witness_loop n Infos nested Member Proto SubstBase;
     case TypeWitness of
       None \<Rightarrow> Some (DependentMemberTypeRef Member SubstBase Proto)
     | Some w \<Rightarrow> do {
         BaseSubs \<leftarrow> getSubstMap SubstBase;
         map_option thickenMetatypes (nested BaseSubs w)
       }
   }"
| "substitute n Infos nested Subs (UnownedStorageTypeRef t) =
     map_option UnownedStorageTypeRef (substitute n Infos nested Subs t)"
| "substitute n Infos nested Subs (UnmanagedStorageTypeRef t) =
     map_option UnmanagedStorageTypeRef (substitute n Infos nested Subs t)"
| "substitute n Infos nested Subs (WeakStorageTypeRef t) =
     map_option WeakStorageTypeRef (substitute n Infos nested Subs t)"
| "substitute n Infos nested Subs (SILBoxTypeRef t) = map_option SILBoxTypeRef (substitute n Infos nested Subs t)"
| "substitute n Infos nested Subs t = Some t"

text \<open>\<open>TypeRef::subst\<close>, with the depth of nested substitutions as fuel.\<close>

fun subst :: "nat \<Rightarrow> ReflectionInfo list \<Rightarrow> GenericArgumentMap \<Rightarrow> TypeRef \<Rightarrow> TypeRef option" where
  "subst 0 Infos Subs t = None"
| "subst (Suc n) Infos Subs t = substitute n Infos (subst n Infos) Subs t"

section \<open>The fields of a type\<close>

record FieldTypeInfo =
  info_name :: string
  info_type :: "TypeRef option"
  info_indirect :: bool

definition getFieldName :: "FieldRecord \<Rightarrow> string" where
  "getFieldName FR = (case field_name FR of None \<Rightarrow> [] | Some n \<Rightarrow> n)"

text \<open>A field without a type, other than a case of an enum, is read through a null pointer.\<close>

fun field_types ::
    "nat \<Rightarrow> ReflectionInfo list \<Rightarrow> GenericArgumentMap \<Rightarrow> bool \<Rightarrow> FieldRecord list \<Rightarrow> FieldTypeInfo list built" where
  "field_types n Infos Subs enum [] = Some (Some [])"
| "field_types n Infos Subs enum (FR # FRs) =
     (let push = (\<lambda>info. and_then (field_types n Infos Subs enum FRs) (\<lambda>infos. Some (Some (info # infos)))) in
      if enum \<and> field_type FR = None
      then push \<lparr>info_name = getFieldName FR, info_type = None, info_indirect = False\<rparr>
      else do {
        name \<leftarrow> field_type FR;
        and_then (type_of_name name) (\<lambda>Unsubstituted. do {
          Substituted \<leftarrow> subst n Infos Subs Unsubstituted;
          push \<lparr>info_name = getFieldName FR, info_type = Some Substituted,
                info_indirect = enum \<and> field_indirect FR\<rparr>
        })
      })"

definition getFieldTypeRefs ::
    "nat \<Rightarrow> ReflectionInfo list \<Rightarrow> TypeRef \<Rightarrow> FieldDescriptor option \<Rightarrow> FieldTypeInfo list built" where
  "getFieldTypeRefs n Infos TR FD =
     (case FD of
        None \<Rightarrow> Some None
      | Some FD \<Rightarrow> do {
          Subs \<leftarrow> getSubstMap TR;
          field_types n Infos Subs (fd_isEnum FD) (fd_records FD)
        })"

section \<open>Builtin types and captures\<close>

fun find_builtin :: "BuiltinTypeDescriptor list \<Rightarrow> string \<Rightarrow> BuiltinTypeDescriptor built" where
  "find_builtin [] MangledName = Some None"
| "find_builtin (d # ds) MangledName = do {
     assert_that (builtin_size d > 0);
     assert_that (builtin_alignment d > 0);
     assert_that (builtin_stride d > 0);
     case builtin_type d of
       None \<Rightarrow> find_builtin ds MangledName
     | Some n \<Rightarrow> if n = MangledName then Some (Some d) else find_builtin ds MangledName
   }"

definition getBuiltinTypeInfo :: "ReflectionInfo list \<Rightarrow> TypeRef \<Rightarrow> BuiltinTypeDescriptor built" where
  "getBuiltinTypeInfo Infos TR =
     (case (case TR of BuiltinTypeRef n \<Rightarrow> Some n | _ \<Rightarrow> nominal_name TR) of
        None \<Rightarrow> Some None
      | Some MangledName \<Rightarrow> find_builtin (concat (map BuiltinSection Infos)) MangledName)"

definition optional_type_of_name :: "string option \<Rightarrow> TypeRef built" where
  "optional_type_of_name name = (case name of None \<Rightarrow> Some None | Some n \<Rightarrow> type_of_name n)"

record ClosureContextInfo =
  CaptureTypes :: "TypeRef option list"
  MetadataSources :: "(TypeRef option \<times> MetadataSource option) list"
  InfoNumBindings :: nat

definition getClosureContextInfo :: "CaptureDescriptor \<Rightarrow> ClosureContextInfo option" where
  "getClosureContextInfo CD = do {
     types \<leftarrow> those (map optional_type_of_name (CaptureTypeRecords CD));
     sources \<leftarrow> those (map (\<lambda>(name, source). map_option (\<lambda>TR. (TR, source \<bind> decode_source))
       (optional_type_of_name name)) (MetadataSourceRecords CD));
     Some \<lparr>CaptureTypes = types, MetadataSources = sources, InfoNumBindings = NumBindings CD\<rparr>
   }"

end
