(* ===== verification/Type_Ref_Facts.thy ===== *)
theory Type_Ref_Facts
  imports Type_Ref_Builder
begin

text \<open>
  Facts about type references: deriving substitutions is sound and undoes substitution, substitution
  gives concrete types, the cache of associated types is transparent, and the flags of function types.
\<close>

section \<open>Instances\<close>

text \<open>The replacement of generic parameters everywhere in a type, and what \<open>deriveSubstitutions\<close> compares:
  all but tuple and metatype flags, labels and flags of functions.\<close>

fun instantiate :: "GenericArgumentMap \<Rightarrow> TypeRef \<Rightarrow> TypeRef" where
  "instantiate Subs (NominalTypeRef n parent) = NominalTypeRef n (map_option (instantiate Subs) parent)"
| "instantiate Subs (BoundGenericTypeRef n params parent) =
     BoundGenericTypeRef n (map (instantiate Subs) params) (map_option (instantiate Subs) parent)"
| "instantiate Subs (TupleTypeRef es variadic) = TupleTypeRef (map (instantiate Subs) es) variadic"
| "instantiate Subs (FunctionTypeRef params result flags) =
     FunctionTypeRef (map (\<lambda>p. withType p (instantiate Subs (param_type p))) params) (instantiate Subs result) flags"
| "instantiate Subs (ProtocolCompositionTypeRef protocols superclass any) =
     ProtocolCompositionTypeRef (map (instantiate Subs) protocols) (map_option (instantiate Subs) superclass) any"
| "instantiate Subs (MetatypeTypeRef t wasAbstract) = MetatypeTypeRef (instantiate Subs t) wasAbstract"
| "instantiate Subs (ExistentialMetatypeTypeRef t) = ExistentialMetatypeTypeRef (instantiate Subs t)"
| "instantiate Subs (DependentMemberTypeRef member b protocol) = DependentMemberTypeRef member (instantiate Subs b) protocol"
| "instantiate Subs (UnownedStorageTypeRef t) = UnownedStorageTypeRef (instantiate Subs t)"
| "instantiate Subs (UnmanagedStorageTypeRef t) = UnmanagedStorageTypeRef (instantiate Subs t)"
| "instantiate Subs (WeakStorageTypeRef t) = WeakStorageTypeRef (instantiate Subs t)"
| "instantiate Subs (SILBoxTypeRef t) = SILBoxTypeRef (instantiate Subs t)"
| "instantiate Subs (GenericTypeParameterTypeRef depth index) =
     (case Subs (depth, index) of None \<Rightarrow> GenericTypeParameterTypeRef depth index | Some t \<Rightarrow> t)"
| "instantiate Subs t = t"

fun outline :: "TypeRef \<Rightarrow> TypeRef" where
  "outline (NominalTypeRef n parent) = NominalTypeRef n (map_option outline parent)"
| "outline (BoundGenericTypeRef n params parent) = BoundGenericTypeRef n (map outline params) (map_option outline parent)"
| "outline (TupleTypeRef es variadic) = TupleTypeRef (map outline es) False"
| "outline (FunctionTypeRef params result flags) =
     FunctionTypeRef (map (\<lambda>p. FunctionParam [] (outline (param_type p)) 0) params) (outline result) 0"
| "outline (MetatypeTypeRef t wasAbstract) = MetatypeTypeRef (outline t) False"
| "outline t = t"

text \<open>No associated types of parameters, and no parameters in the parts that are not taken apart.\<close>

fun independent :: "TypeRef \<Rightarrow> bool" where
  "independent (NominalTypeRef n parent) = (case parent of None \<Rightarrow> True | Some p \<Rightarrow> independent p)"
| "independent (BoundGenericTypeRef n params parent) =
     ((case parent of None \<Rightarrow> True | Some p \<Rightarrow> independent p) \<and> list_all independent params)"
| "independent (TupleTypeRef es variadic) = list_all independent es"
| "independent (FunctionTypeRef params result flags) =
     (list_all (\<lambda>p. independent (param_type p)) params \<and> independent result)"
| "independent (MetatypeTypeRef t wasAbstract) = independent t"
| "independent (GenericTypeParameterTypeRef depth index) = True"
| "independent (DependentMemberTypeRef member b protocol) = False"
| "independent t = isConcrete t"

lemma isConcrete_simps [simp]:
  "isConcrete (BuiltinTypeRef n)" "isConcrete (ForeignClassTypeRef n)" "isConcrete (ObjCClassTypeRef n)" "isConcrete OpaqueTypeRef"
  "isConcrete (NominalTypeRef n p) \<longleftrightarrow> (case p of None \<Rightarrow> True | Some p \<Rightarrow> isConcrete p)"
  "isConcrete (BoundGenericTypeRef n ps p) \<longleftrightarrow> (case p of None \<Rightarrow> True | Some p \<Rightarrow> isConcrete p) \<and> list_all isConcrete ps"
  "isConcrete (TupleTypeRef es v) \<longleftrightarrow> list_all isConcrete es"
  "isConcrete (FunctionTypeRef params r f) \<longleftrightarrow> list_all (\<lambda>p. isConcrete (param_type p)) params \<and> isConcrete r"
  "isConcrete (ProtocolCompositionTypeRef ps c a) \<longleftrightarrow> list_all isConcrete ps \<and> (case c of None \<Rightarrow> True | Some c \<Rightarrow> isConcrete c)"
  "isConcrete (MetatypeTypeRef t w) \<longleftrightarrow> isConcrete t" "isConcrete (ExistentialMetatypeTypeRef t) \<longleftrightarrow> isConcrete t"
  "\<not> isConcrete (GenericTypeParameterTypeRef d i)" "isConcrete (DependentMemberTypeRef m t q) \<longleftrightarrow> isConcrete t"
  "isConcrete (UnownedStorageTypeRef t) \<longleftrightarrow> isConcrete t" "isConcrete (UnmanagedStorageTypeRef t) \<longleftrightarrow> isConcrete t"
  "isConcrete (WeakStorageTypeRef t) \<longleftrightarrow> isConcrete t" "isConcrete (SILBoxTypeRef t) \<longleftrightarrow> isConcrete t"
  by (auto simp: isConcrete_def list_all_iff split: option.splits)

lemma withType_same [simp]: "withType p (param_type p) = p"
  by (simp add: withType_def)

lemma instantiate_concrete: "isConcrete t \<Longrightarrow> instantiate Subs t = t"
proof (induction t)
  case (FunctionTypeRef params r f)
  have "instantiate Subs (param_type p) = param_type p" if "p \<in> set params" for p
    using FunctionTypeRef.IH(1) [OF that FunctionParam.set_sel] FunctionTypeRef.prems that by (auto simp: list_all_iff)
  with FunctionTypeRef show ?case by (simp add: map_idI)
qed (auto simp: list_all_iff intro!: map_idI split: option.splits)

text \<open>When deriving succeeds.\<close>

abbreviation derives :: "GenericArgumentMap \<Rightarrow> TypeRef \<Rightarrow> TypeRef \<Rightarrow> GenericArgumentMap \<Rightarrow> bool" where
  "derives Subs OrigTR SubstTR Subs' \<equiv> deriveSubstitutions Subs OrigTR SubstTR = (True, Subs')"

lemma no_reference_storage [simp]: "\<not> is_reference_storage t"
  by (auto simp: is_reference_storage_def Let_def)

lemma derives_iffs:
  "derives Subs (NominalTypeRef n p) S Subs' \<longleftrightarrow> (\<exists>q. S = NominalTypeRef n q \<and>
     (case p of None \<Rightarrow> q = None \<and> Subs' = Subs | Some o1 \<Rightarrow> \<exists>s1. q = Some s1 \<and> derives Subs o1 s1 Subs'))"
  "derives Subs (BoundGenericTypeRef n os p) S Subs' \<longleftrightarrow> (\<exists>ss q Subs1. S = BoundGenericTypeRef n ss q \<and> length os = length ss \<and>
     (case p of None \<Rightarrow> q = None \<and> Subs1 = Subs | Some o1 \<Rightarrow> \<exists>s1. q = Some s1 \<and> derives Subs o1 s1 Subs1) \<and>
     derive_all Subs1 os ss = (True, Subs'))"
  "derives Subs (TupleTypeRef os v) S Subs' \<longleftrightarrow>
     (\<exists>ss w. S = TupleTypeRef ss w \<and> length os = length ss \<and> derive_all Subs os ss = (True, Subs'))"
  "derives Subs (FunctionTypeRef ops r f) S Subs' \<longleftrightarrow> (\<exists>sps s1 g Subs1. S = FunctionTypeRef sps s1 g \<and> length ops = length sps \<and>
     derive_all Subs (map param_type ops) (map param_type sps) = (True, Subs1) \<and> derives Subs1 r s1 Subs')"
  "derives Subs (MetatypeTypeRef t a) S Subs' \<longleftrightarrow> (\<exists>s1 b. S = MetatypeTypeRef s1 b \<and> derives Subs t s1 Subs')"
  "derives Subs (GenericTypeParameterTypeRef d i) S Subs' \<longleftrightarrow>
     (Subs (d, i) = None \<and> Subs' = Subs((d, i) \<mapsto> S)) \<or> (Subs (d, i) = Some S \<and> Subs' = Subs)"
  "derive_all Subs (o1 # os) ss = (True, Subs') \<longleftrightarrow>
     (\<exists>Subs1. derives Subs o1 (hd ss) Subs1 \<and> derive_all Subs1 os (tl ss) = (True, Subs'))"
  by (auto simp: Let_def split: TypeRef.splits option.splits if_splits prod.splits)

lemma derive_all_grows:
  assumes "\<And>o1 S Subs Subs'. o1 \<in> set os \<Longrightarrow> derives Subs o1 S Subs' \<Longrightarrow> Subs \<subseteq>\<^sub>m Subs'"
    "derive_all Subs os ss = (True, Subs')"
  shows "Subs \<subseteq>\<^sub>m Subs'"
  using assms
proof (induction os arbitrary: Subs ss)
  case (Cons o1 os)
  then obtain Subs1 where s: "derives Subs o1 (hd ss) Subs1" "derive_all Subs1 os (tl ss) = (True, Subs')"
    by (auto simp: derives_iffs simp del: derive_all.simps)
  have "Subs \<subseteq>\<^sub>m Subs1" by (rule Cons.prems(1) [OF _ s(1)]) simp
  moreover have "Subs1 \<subseteq>\<^sub>m Subs'" using Cons.prems(1) s(2) by (intro Cons.IH) auto
  ultimately show ?case by (rule map_le_trans)
qed simp

lemma derive_grows: "derives Subs O1 S Subs' \<Longrightarrow> Subs \<subseteq>\<^sub>m Subs'"
proof (induction O1 arbitrary: Subs S Subs')
  case (NominalTypeRef n p)
  then show ?case by (auto simp: derives_iffs simp del: deriveSubstitutions.simps split: option.splits)
next
  case (BoundGenericTypeRef n os p)
  from BoundGenericTypeRef.prems obtain ss q Subs1 where s: "derive_all Subs1 os ss = (True, Subs')"
    "case p of None \<Rightarrow> q = None \<and> Subs1 = Subs | Some o1 \<Rightarrow> \<exists>s1. q = Some s1 \<and> derives Subs o1 s1 Subs1"
    unfolding derives_iffs by blast
  have "Subs \<subseteq>\<^sub>m Subs1" using s(2) BoundGenericTypeRef.IH(2) by (auto split: option.splits)
  moreover have "Subs1 \<subseteq>\<^sub>m Subs'" by (rule derive_all_grows [OF BoundGenericTypeRef.IH(1) s(1)])
  ultimately show ?case by (rule map_le_trans)
next
  case (TupleTypeRef os v)
  then obtain ss where "derive_all Subs os ss = (True, Subs')" unfolding derives_iffs by blast
  with TupleTypeRef.IH show ?case by (rule derive_all_grows)
next
  case (FunctionTypeRef ops r f)
  from FunctionTypeRef.prems obtain sps s1 Subs1 where s:
    "derive_all Subs (map param_type ops) (map param_type sps) = (True, Subs1)" "derives Subs1 r s1 Subs'"
    unfolding derives_iffs by blast
  have "Subs \<subseteq>\<^sub>m Subs1"
    by (rule derive_all_grows [OF _ s(1)]) (auto intro: FunctionTypeRef.IH(1) FunctionParam.set_sel)
  with FunctionTypeRef.IH(2) [OF s(2)] show ?case by (blast intro: map_le_trans)
next
  case (MetatypeTypeRef t a)
  then show ?case unfolding derives_iffs by auto
next
  case (GenericTypeParameterTypeRef d i)
  then show ?case unfolding derives_iffs by (auto simp: map_le_def)
qed simp_all

lemma derive_all_sound:
  assumes "\<And>o1 S Subs Subs'. o1 \<in> set os \<Longrightarrow> derives Subs o1 S Subs' \<Longrightarrow> Subs' \<subseteq>\<^sub>m Inst \<Longrightarrow>
      outline (instantiate Inst o1) = outline S"
    "derive_all Subs os ss = (True, Subs')" "length os = length ss" "Subs' \<subseteq>\<^sub>m Inst"
  shows "map (\<lambda>t. outline (instantiate Inst t)) os = map outline ss"
  using assms
proof (induction os arbitrary: Subs ss)
  case (Cons o1 os)
  then obtain s1 ss' where ss: "ss = s1 # ss'" by (cases ss) auto
  with Cons.prems(2) obtain Subs1 where s: "derives Subs o1 s1 Subs1" "derive_all Subs1 os ss' = (True, Subs')"
    by (auto simp: derives_iffs simp del: derive_all.simps)
  have "Subs1 \<subseteq>\<^sub>m Subs'" by (rule derive_all_grows [OF derive_grows s(2)])
  then have "outline (instantiate Inst o1) = outline s1"
    using Cons.prems(4) by (intro Cons.prems(1) [OF _ s(1)]) (auto intro: map_le_trans)
  moreover have "map (\<lambda>t. outline (instantiate Inst t)) os = map outline ss'"
    using Cons.prems ss s(2) by (intro Cons.IH) auto
  ultimately show ?case by (simp add: ss)
qed simp

lemma derive_sound:
  "derives Subs O1 S Subs' \<Longrightarrow> independent O1 \<Longrightarrow> Subs' \<subseteq>\<^sub>m Inst \<Longrightarrow> outline (instantiate Inst O1) = outline S"
proof (induction O1 arbitrary: Subs S Subs')
  case (NominalTypeRef n p)
  then show ?case unfolding derives_iffs by (auto split: option.splits)
next
  case (BoundGenericTypeRef n os p)
  from BoundGenericTypeRef.prems(1) obtain ss q Subs1 where s: "S = BoundGenericTypeRef n ss q" "length os = length ss"
    "case p of None \<Rightarrow> q = None \<and> Subs1 = Subs | Some o1 \<Rightarrow> \<exists>s1. q = Some s1 \<and> derives Subs o1 s1 Subs1"
    "derive_all Subs1 os ss = (True, Subs')" unfolding derives_iffs by blast
  have "Subs1 \<subseteq>\<^sub>m Subs'" by (rule derive_all_grows [OF derive_grows s(4)])
  then have "Subs1 \<subseteq>\<^sub>m Inst" using BoundGenericTypeRef.prems(3) by (rule map_le_trans)
  then have "map_option (\<lambda>t. outline (instantiate Inst t)) p = map_option outline q"
    using s(3) BoundGenericTypeRef.IH(2) BoundGenericTypeRef.prems(2) by (auto split: option.splits)
  moreover have "map (\<lambda>t. outline (instantiate Inst t)) os = map outline ss"
    using BoundGenericTypeRef.prems(2,3)
    by (intro derive_all_sound [OF _ s(4,2)]) (auto simp: list_all_iff intro: BoundGenericTypeRef.IH(1))
  ultimately show ?case by (simp add: s(1) option.map_comp comp_def)
next
  case (TupleTypeRef os v)
  from TupleTypeRef.prems(1) obtain ss w where s: "S = TupleTypeRef ss w" "length os = length ss" "derive_all Subs os ss = (True, Subs')"
    unfolding derives_iffs by blast
  have "map (\<lambda>t. outline (instantiate Inst t)) os = map outline ss"
    using TupleTypeRef.prems(2,3) by (intro derive_all_sound [OF _ s(3,2)]) (auto simp: list_all_iff intro: TupleTypeRef.IH)
  then show ?case by (simp add: s(1) comp_def)
next
  case (FunctionTypeRef ops r f)
  from FunctionTypeRef.prems(1) obtain sps s1 g Subs1 where s: "S = FunctionTypeRef sps s1 g" "length ops = length sps"
    "derive_all Subs (map param_type ops) (map param_type sps) = (True, Subs1)" "derives Subs1 r s1 Subs'"
    unfolding derives_iffs by blast
  have "Subs1 \<subseteq>\<^sub>m Inst" using derive_grows [OF s(4)] FunctionTypeRef.prems(3) by (rule map_le_trans)
  then have "map (\<lambda>t. outline (instantiate Inst t)) (map param_type ops) = map outline (map param_type sps)"
    using FunctionTypeRef.prems(2,3) s(2)
    by (intro derive_all_sound [OF _ s(3)]) (auto simp: list_all_iff intro: FunctionTypeRef.IH(1) FunctionParam.set_sel)
  from arg_cong [OF this, of "map (\<lambda>t. FunctionParam [] t 0)"]
  have "map (\<lambda>p. FunctionParam [] (outline (instantiate Inst (param_type p))) 0) ops =
      map (\<lambda>p. FunctionParam [] (outline (param_type p)) 0) sps" by (simp add: comp_def)
  with FunctionTypeRef.IH(2) [OF s(4)] FunctionTypeRef.prems(2,3) show ?case by (simp add: s(1) withType_def comp_def)
next
  case (MetatypeTypeRef t a)
  then show ?case unfolding derives_iffs by auto
next
  case (GenericTypeParameterTypeRef d i)
  then have "Inst (d, i) = Some S" unfolding derives_iffs by (auto simp: map_le_def dom_def split: if_splits)
  then show ?case by simp
next
  case (ProtocolCompositionTypeRef ps c a)
  then show ?case using instantiate_concrete [of S Inst] by auto
qed (auto simp: instantiate_concrete)

section \<open>Substitution gives concrete types\<close>

lemma thicken_concrete: "isConcrete t \<Longrightarrow> isConcrete (thickenMetatypes t)"
proof (induction t)
  case (FunctionTypeRef params r f)
  then have "isConcrete (thickenMetatypes (param_type p))" if "p \<in> set params" for p
    using FunctionTypeRef.IH(1) [OF that FunctionParam.set_sel] that by (auto simp: list_all_iff)
  with FunctionTypeRef show ?case by (auto simp: withType_def list_all_iff)
qed (auto simp: list_all_iff)

lemma those_map:
  assumes "\<And>x. x \<in> set xs \<Longrightarrow> \<exists>y. f x = Some y \<and> P x y"
  obtains ys where "those (map f xs) = Some ys" "list_all2 P xs ys"
  using assms
proof (induction xs arbitrary: thesis)
  case (Cons x xs)
  obtain ys where ys: "those (map f xs) = Some ys" "list_all2 P xs ys"
    by (rule Cons.IH) (use Cons.prems(2) in auto)
  obtain y where "f x = Some y" "P x y" using Cons.prems(2) by auto
  with ys Cons.prems(1) [of "y # ys"] show ?case by simp
qed simp

lemma map_params_map:
  assumes "\<And>p. p \<in> set ps \<Longrightarrow> \<exists>y. f (param_type p) = Some y \<and> P (param_type p) y"
  obtains qs where "map_params f ps = Some qs" "list_all2 P (map param_type ps) (map param_type qs)"
proof (rule those_map [of ps "\<lambda>p. map_option (withType p) (f (param_type p))" "\<lambda>p q. P (param_type p) (param_type q)"])
  show "\<exists>q. map_option (withType p) (f (param_type p)) = Some q \<and> P (param_type p) (param_type q)" if "p \<in> set ps" for p
    using assms [OF that] by (auto simp: withType_def)
qed (use that in \<open>auto simp: map_params_def list_all2_map1 list_all2_map2\<close>)

text \<open>Types without associated types of parameters, and without parameters where the code assumes none.\<close>

fun substitutable :: "TypeRef \<Rightarrow> bool" where
  "substitutable (NominalTypeRef n parent) = (case parent of None \<Rightarrow> True | Some p \<Rightarrow> substitutable p)"
| "substitutable (BoundGenericTypeRef n params parent) =
     ((case parent of None \<Rightarrow> True | Some p \<Rightarrow> substitutable p) \<and> list_all substitutable params)"
| "substitutable (TupleTypeRef es variadic) = list_all substitutable es"
| "substitutable (FunctionTypeRef params result flags) =
     (list_all (\<lambda>p. substitutable (param_type p)) params \<and> substitutable result)"
| "substitutable (MetatypeTypeRef t wasAbstract) = substitutable t"
| "substitutable (UnownedStorageTypeRef t) = substitutable t"
| "substitutable (UnmanagedStorageTypeRef t) = substitutable t"
| "substitutable (WeakStorageTypeRef t) = substitutable t"
| "substitutable (SILBoxTypeRef t) = substitutable t"
| "substitutable (GenericTypeParameterTypeRef depth index) = True"
| "substitutable (DependentMemberTypeRef member b protocol) = False"
| "substitutable t = isConcrete t"

lemma list_all2_const: "list_all2 (\<lambda>x. P) xs ys \<longleftrightarrow> length xs = length ys \<and> list_all P ys"
  by (auto simp: list_all2_conv_all_nth list_all_length)

lemma substitute_concrete:
  assumes "\<And>k t. Subs k = Some t \<Longrightarrow> isConcrete t"
  shows "substitutable t \<Longrightarrow> isConcreteAfterSubstitutions Subs t \<Longrightarrow>
    \<exists>t'. substitute n Infos nested Subs t = Some t' \<and> isConcrete t'"
proof (induction t)
  case (BoundGenericTypeRef name params parent)
  obtain ys where "those (map (substitute n Infos nested Subs) params) = Some ys" "list_all2 (\<lambda>x. isConcrete) params ys"
    by (rule those_map [of params "substitute n Infos nested Subs" "\<lambda>x. isConcrete"]) (use BoundGenericTypeRef in \<open>auto simp: list_all_iff\<close>)
  with BoundGenericTypeRef show ?case by (auto simp: list_all2_const split: option.splits)
next
  case (TupleTypeRef es v)
  obtain ys where "those (map (substitute n Infos nested Subs) es) = Some ys" "list_all2 (\<lambda>x. isConcrete) es ys"
    by (rule those_map [of es "substitute n Infos nested Subs" "\<lambda>x. isConcrete"]) (use TupleTypeRef in \<open>auto simp: list_all_iff\<close>)
  then show ?case by (auto simp: list_all2_const)
next
  case (FunctionTypeRef params r f)
  obtain ys where "map_params (substitute n Infos nested Subs) params = Some ys"
    "list_all2 (\<lambda>x. isConcrete) (map param_type params) (map param_type ys)"
    by (rule map_params_map [of params "substitute n Infos nested Subs" "\<lambda>x. isConcrete"])
      (use FunctionTypeRef in \<open>auto simp: list_all_iff intro: FunctionTypeRef.IH(1) FunctionParam.set_sel\<close>)
  with FunctionTypeRef show ?case by (auto simp: list_all2_const list_all_iff)
next
  case (GenericTypeParameterTypeRef d i)
  then show ?case using assms thicken_concrete by auto
qed (auto split: option.splits)

lemma subst_concrete:
  assumes "\<And>k t. Subs k = Some t \<Longrightarrow> isConcrete t" "substitutable t" "isConcreteAfterSubstitutions Subs t"
  shows "\<exists>t'. subst (Suc n) Infos Subs t = Some t' \<and> isConcrete t'"
  using substitute_concrete [OF assms] by simp

section \<open>Deriving undoes substitution\<close>

text \<open>Parts that substitution leaves alone.\<close>

fun fixed :: "TypeRef \<Rightarrow> bool" where
  "fixed (NominalTypeRef n parent) = (case parent of None \<Rightarrow> True | Some p \<Rightarrow> fixed p)"
| "fixed (BoundGenericTypeRef n params parent) =
     ((case parent of None \<Rightarrow> True | Some p \<Rightarrow> fixed p) \<and> list_all fixed params)"
| "fixed (TupleTypeRef es variadic) = (\<not> variadic \<and> list_all fixed es)"
| "fixed (FunctionTypeRef params result flags) = (list_all (\<lambda>p. fixed (param_type p)) params \<and> fixed result)"
| "fixed (UnownedStorageTypeRef t) = fixed t"
| "fixed (UnmanagedStorageTypeRef t) = fixed t"
| "fixed (WeakStorageTypeRef t) = fixed t"
| "fixed (SILBoxTypeRef t) = fixed t"
| "fixed (DependentMemberTypeRef member b protocol) = False"
| "fixed t = isConcrete t"

lemma those_map_id: "(\<And>x. x \<in> set xs \<Longrightarrow> f x = Some x) \<Longrightarrow> those (map f xs) = Some xs"
  by (induction xs) auto

lemma map_params_id: "(\<And>p. p \<in> set ps \<Longrightarrow> f (param_type p) = Some (param_type p)) \<Longrightarrow> map_params f ps = Some ps"
  unfolding map_params_def by (rule those_map_id) simp

lemma fixed_substitute: "fixed t \<Longrightarrow> substitute n Infos nested Subs t = Some t"
proof (induction t)
  case (FunctionTypeRef params r f)
  have "map_params (substitute n Infos nested Subs) params = Some params"
    using FunctionTypeRef by (intro map_params_id) (auto simp: list_all_iff intro: FunctionTypeRef.IH(1) FunctionParam.set_sel)
  with FunctionTypeRef show ?case by simp
qed (auto simp: list_all_iff those_map_id split: option.splits)

text \<open>Types all of whose parameters \<open>deriveSubstitutions\<close> can find, and these parameters.\<close>

fun derivable :: "TypeRef \<Rightarrow> bool" where
  "derivable (NominalTypeRef n parent) = (case parent of None \<Rightarrow> True | Some p \<Rightarrow> derivable p)"
| "derivable (BoundGenericTypeRef n params parent) =
     ((case parent of None \<Rightarrow> True | Some p \<Rightarrow> derivable p) \<and> list_all derivable params)"
| "derivable (TupleTypeRef es variadic) = list_all derivable es"
| "derivable (FunctionTypeRef params result flags) = (list_all (\<lambda>p. derivable (param_type p)) params \<and> derivable result)"
| "derivable (MetatypeTypeRef t wasAbstract) = derivable t"
| "derivable (GenericTypeParameterTypeRef depth index) = True"
| "derivable (ProtocolCompositionTypeRef protocols superclass any) = True"
| "derivable t = fixed t"

fun generic_params :: "TypeRef \<Rightarrow> (nat \<times> nat) set" where
  "generic_params (NominalTypeRef n parent) = (case parent of None \<Rightarrow> {} | Some p \<Rightarrow> generic_params p)"
| "generic_params (BoundGenericTypeRef n params parent) =
     (case parent of None \<Rightarrow> {} | Some p \<Rightarrow> generic_params p) \<union> \<Union> (set (map generic_params params))"
| "generic_params (TupleTypeRef es variadic) = \<Union> (set (map generic_params es))"
| "generic_params (FunctionTypeRef params result flags) =
     \<Union> (set (map (\<lambda>p. generic_params (param_type p)) params)) \<union> generic_params result"
| "generic_params (MetatypeTypeRef t wasAbstract) = generic_params t"
| "generic_params (GenericTypeParameterTypeRef depth index) = {(depth, index)}"
| "generic_params t = {}"

text \<open>What stands for a parameter after substitution.\<close>

definition argument_of :: "GenericArgumentMap \<Rightarrow> GenericArgumentMap" where
  "argument_of Subs k = Some (case Subs k of None \<Rightarrow> GenericTypeParameterTypeRef (fst k) (snd k) | Some t \<Rightarrow> thickenMetatypes t)"

definition finds :: "GenericArgumentMap \<Rightarrow> (nat \<times> nat) set \<Rightarrow> TypeRef \<Rightarrow> TypeRef \<Rightarrow> bool" where
  "finds Args A t t' \<longleftrightarrow> (\<forall>Subs. Subs \<subseteq>\<^sub>m Args \<longrightarrow> derives Subs t t' (Subs ++ Args |` A))"

lemma add_restrict: "(Subs ++ Args |` A) ++ Args |` B = Subs ++ Args |` (A \<union> B)"
  by (rule ext) (auto simp: map_add_def restrict_map_def split: option.splits)

lemma add_restrict_le: "Subs \<subseteq>\<^sub>m Args \<Longrightarrow> Subs ++ Args |` A \<subseteq>\<^sub>m Args"
  by (auto simp: map_le_def map_add_def restrict_map_def dom_def split: option.splits if_splits)

lemma finds_all:
  assumes "list_all2 (\<lambda>t. finds Args (generic_params t) t) ts ts'" "Subs \<subseteq>\<^sub>m Args"
  shows "derive_all Subs ts ts' = (True, Subs ++ Args |` (\<Union> (set (map generic_params ts))))"
  using assms
proof (induction ts ts' arbitrary: Subs rule: list_all2_induct)
  case (Cons t ts t' ts')
  then have "derives Subs t t' (Subs ++ Args |` generic_params t)" by (simp add: finds_def)
  moreover have "derive_all (Subs ++ Args |` generic_params t) ts ts' =
      (True, (Subs ++ Args |` generic_params t) ++ Args |` (\<Union> (set (map generic_params ts))))"
    by (rule Cons.IH) (rule add_restrict_le [OF Cons.prems])
  ultimately show ?case by (simp add: add_restrict)
qed simp

lemma concrete_params: "isConcrete t \<Longrightarrow> generic_params t = {}"
proof (induction t)
  case (FunctionTypeRef params r f)
  then have "generic_params (param_type p) = {}" if "p \<in> set params" for p
    using FunctionTypeRef.IH(1) [OF that FunctionParam.set_sel] that by (auto simp: list_all_iff)
  with FunctionTypeRef show ?case by auto
qed (auto simp: list_all_iff split: option.splits)

lemma finds_self: "derivable t \<Longrightarrow> isConcrete t \<Longrightarrow> finds Args (generic_params t) t t"
proof (induction t)
  case (BoundGenericTypeRef name params parent)
  have "list_all2 (\<lambda>t. finds Args (generic_params t) t) params params"
    using BoundGenericTypeRef by (auto simp: list_all_iff list_all2_same)
  moreover have "\<forall>p. parent = Some p \<longrightarrow> finds Args {} p p"
    using BoundGenericTypeRef concrete_params by (auto split: option.splits)
  ultimately show ?case using finds_all [of Args params params] concrete_params [OF BoundGenericTypeRef.prems(2)]
    by (auto simp: finds_def derives_iffs split: option.splits)
next
  case (TupleTypeRef es v)
  have "list_all2 (\<lambda>t. finds Args (generic_params t) t) es es"
    using TupleTypeRef by (auto simp: list_all_iff list_all2_same)
  then show ?case using finds_all [of Args es es] by (simp add: finds_def)
next
  case (FunctionTypeRef params r f)
  have "list_all2 (\<lambda>t. finds Args (generic_params t) t) (map param_type params) (map param_type params)"
    using FunctionTypeRef by (auto simp: list_all_iff list_all2_same intro: FunctionTypeRef.IH(1) FunctionParam.set_sel)
  moreover have "finds Args {} r r" using FunctionTypeRef concrete_params by auto
  ultimately show ?case
    using finds_all [of Args "map param_type params" "map param_type params"] concrete_params [OF FunctionTypeRef.prems(2)]
    by (auto simp: finds_def derives_iffs)
qed (auto simp: finds_def split: option.splits)

lemma substitute_finds:
  assumes "\<And>k t. Subs k = Some t \<Longrightarrow> isConcrete t"
  shows "derivable t \<Longrightarrow>
    \<exists>t'. substitute n Infos nested Subs t = Some t' \<and> finds (argument_of Subs) (generic_params t) t t'"
proof (induction t)
  case (NominalTypeRef name parent)
  then show ?case by (auto simp: finds_def split: option.splits)
next
  case (BoundGenericTypeRef name params parent)
  obtain ys where ys: "those (map (substitute n Infos nested Subs) params) = Some ys"
    "list_all2 (\<lambda>t t'. finds (argument_of Subs) (generic_params t) t t') params ys"
    by (rule those_map [of params "substitute n Infos nested Subs" "\<lambda>t t'. finds (argument_of Subs) (generic_params t) t t'"])
      (use BoundGenericTypeRef in \<open>auto simp: list_all_iff\<close>)
  note all = finds_all [OF ys(2)] list_all2_lengthD [OF ys(2)]
  show ?case
  proof (cases parent)
    case None
    with ys(1) all show ?thesis by (simp add: finds_def)
  next
    case (Some q)
    with BoundGenericTypeRef obtain q' where "substitute n Infos nested Subs q = Some q'"
      "finds (argument_of Subs) (generic_params q) q q'" by auto
    with Some ys(1) all(1) [OF add_restrict_le] all(2) show ?thesis by (simp add: finds_def add_restrict)
  qed
next
  case (TupleTypeRef es v)
  obtain ys where ys: "those (map (substitute n Infos nested Subs) es) = Some ys"
    "list_all2 (\<lambda>t t'. finds (argument_of Subs) (generic_params t) t t') es ys"
    by (rule those_map [of es "substitute n Infos nested Subs" "\<lambda>t t'. finds (argument_of Subs) (generic_params t) t t'"])
      (use TupleTypeRef in \<open>auto simp: list_all_iff\<close>)
  with finds_all [OF ys(2)] list_all2_lengthD [OF ys(2)] show ?case by (simp add: finds_def)
next
  case (FunctionTypeRef params r f)
  obtain ys where ys: "map_params (substitute n Infos nested Subs) params = Some ys"
    "list_all2 (\<lambda>t t'. finds (argument_of Subs) (generic_params t) t t') (map param_type params) (map param_type ys)"
    by (rule map_params_map [of params "substitute n Infos nested Subs" "\<lambda>t t'. finds (argument_of Subs) (generic_params t) t t'"])
      (use FunctionTypeRef in \<open>auto simp: list_all_iff intro: FunctionTypeRef.IH(1) FunctionParam.set_sel\<close>)
  obtain r' where "substitute n Infos nested Subs r = Some r'" "finds (argument_of Subs) (generic_params r) r r'"
    using FunctionTypeRef by auto
  with ys(1) finds_all [OF ys(2)] list_all2_lengthD [OF ys(2)] show ?case
    by (simp add: finds_def add_restrict add_restrict_le comp_def)
next
  case (MetatypeTypeRef t w)
  show ?case
  proof (cases "isConcrete (MetatypeTypeRef t w)")
    case True
    with finds_self [OF MetatypeTypeRef.prems True] show ?thesis by simp
  next
    case False
    with MetatypeTypeRef show ?thesis by (auto simp: finds_def)
  qed
next
  case (GenericTypeParameterTypeRef d i)
  obtain v where v: "argument_of Subs (d, i) = Some v" by (simp add: argument_of_def)
  then have "substitute n Infos nested Subs (GenericTypeParameterTypeRef d i) = Some v"
    using assms by (auto simp: argument_of_def split: option.splits)
  moreover have "derives Subs' (GenericTypeParameterTypeRef d i) v (Subs' ++ argument_of Subs |` {(d, i)})"
    if "Subs' \<subseteq>\<^sub>m argument_of Subs" for Subs'
  proof -
    have "Subs' ++ argument_of Subs |` {(d, i)} = Subs'((d, i) \<mapsto> v)"
      using v by (auto simp: map_add_def restrict_map_def fun_eq_iff split: option.splits)
    moreover have "Subs' (d, i) = None \<or> Subs' (d, i) = Some v"
      using that v by (cases "Subs' (d, i)") (auto simp: map_le_def dom_def)
    ultimately show ?thesis by (auto simp: map_upd_triv)
  qed
  ultimately show ?case by (simp add: finds_def)
qed (use fixed_substitute in \<open>auto simp: finds_def\<close>)

text \<open>A substitution can be read off its result.\<close>

lemma derive_subst:
  assumes "\<And>k t. Subs k = Some t \<Longrightarrow> isConcrete t" "derivable t"
  shows "\<exists>t'. subst (Suc n) Infos Subs t = Some t' \<and>
    deriveSubstitutions Map.empty t t' = (True, argument_of Subs |` generic_params t)"
proof -
  have "\<exists>t'. substitute n Infos (subst n Infos) Subs t = Some t' \<and> finds (argument_of Subs) (generic_params t) t t'"
    by (rule substitute_finds) (use assms in auto)
  then show ?thesis by (auto simp: finds_def dest: spec [of _ Map.empty])
qed

section \<open>Where the code gives up\<close>

text \<open>Reference storage is never taken apart.\<close>

lemma derive_storage:
  "deriveSubstitutions Subs (WeakStorageTypeRef t) S = (WeakStorageTypeRef t = S, Subs)"
  "deriveSubstitutions Subs (UnownedStorageTypeRef t) S = (UnownedStorageTypeRef t = S, Subs)"
  "deriveSubstitutions Subs (UnmanagedStorageTypeRef t) S = (UnmanagedStorageTypeRef t = S, Subs)"
  by simp_all

text \<open>A superclass in a composition is not substituted.\<close>

lemma composition_unchanged:
  "subst (Suc n) Infos Subs (ProtocolCompositionTypeRef ps c a) = Some (ProtocolCompositionTypeRef ps c a)"
  by simp

text \<open>The associated type of a parameter that has no argument fails an assertion.\<close>

lemma member_of_parameter:
  "Subs (depth, index) = None \<Longrightarrow>
   subst (Suc n) Infos Subs (DependentMemberTypeRef member (GenericTypeParameterTypeRef depth index) protocol) = None"
  by (cases n) simp_all

text \<open>An argument loses its own generic arguments at outer levels.\<close>

lemma argument_loses_parent:
  assumes "Subs (depth, index) = Some (BoundGenericTypeRef n args (Some p))" "isConcrete (BoundGenericTypeRef n args (Some p))"
  shows "subst (Suc k) Infos Subs (GenericTypeParameterTypeRef depth index) =
    Some (BoundGenericTypeRef n (map thickenMetatypes args) None)"
  using assms by simp

end
