(* ===== verification/Type_Ref_Lookups.thy ===== *)
theory Type_Ref_Lookups
  imports Type_Ref_Builder
begin

text \<open>
  Facts about the lookups of the builder of type references: what its cache keys distinguish, that
  the cache is transparent as long as keys are distinct, and the flags of function types.
\<close>

section \<open>Flags of function types\<close>

lemma mask_bits:
  "NumParametersMask = mask 16" "ConventionMask = push_bit 16 (mask 8)" "ThrowsMask = push_bit 24 1"
  "ParamFlagsMask = push_bit 25 1"
  by (simp_all add: NumParametersMask_def ConventionMask_def ThrowsMask_def ParamFlagsMask_def mask_eq_exp_minus_1 push_bit_eq_mult)

lemma bit_masks:
  "bit NumParametersMask k \<longleftrightarrow> k < 16" "bit ConventionMask k \<longleftrightarrow> 16 \<le> k \<and> k < 24" "bit ThrowsMask k \<longleftrightarrow> k = 24"
  "bit ParamFlagsMask k \<longleftrightarrow> k = 25"
  unfolding mask_bits bit_push_bit_iff bit_mask_iff bit_1_iff by auto

lemma convention_bits: "convention_value c = take_bit 2 (convention_value c)"
  by (cases c) (simp_all add: take_bit_eq_mod)

lemma bit_convention: "bit (convention_value c) k \<Longrightarrow> k < 2"
  by (subst (asm) convention_bits) (simp add: bit_take_bit_iff)

lemma bit_withConvention:
  "bit (withConvention c D) k \<longleftrightarrow> \<not> (16 \<le> k \<and> k < 24) \<and> bit D k \<or> 16 \<le> k \<and> bit (convention_value c) (k - 16)"
  using bit_convention [of c "k - 16"] bit_imp_le_length [of D k] unfolding withConvention_def
  by (auto simp: bit_or_iff bit_and_iff bit_not_iff bit_masks bit_push_bit_iff)

lemma bit_withThrows: "bit (withThrows b D) k \<longleftrightarrow> k \<noteq> 24 \<and> bit D k \<or> k = 24 \<and> b"
  using bit_imp_le_length [of D k] unfolding withThrows_def
  by (auto simp: bit_or_iff bit_and_iff bit_not_iff bit_masks)

lemma bit_withParameterFlags: "bit (withParameterFlags b D) k \<longleftrightarrow> k \<noteq> 25 \<and> bit D k \<or> k = 25 \<and> b"
  using bit_imp_le_length [of D k] unfolding withParameterFlags_def
  by (auto simp: bit_or_iff bit_and_iff bit_not_iff bit_masks)

lemma bit_withNumParameters:
  "bit (withNumParameters n D) k \<longleftrightarrow> \<not> k < 16 \<and> bit D k \<or> bit (word_of_nat (to_unsigned n) :: 64 word) k"
proof -
  have "bit ((D AND NOT NumParametersMask) OR w) k \<longleftrightarrow> \<not> k < 16 \<and> bit D k \<or> bit w k" for w
    unfolding bit_or_iff bit_and_iff bit_not_iff bit_masks using bit_imp_le_length [of D k] by simp blast
  then show ?thesis unfolding withNumParameters_def .
qed

lemma bit_small: "n < 65536 \<Longrightarrow> bit (word_of_nat n :: 64 word) k \<Longrightarrow> k < 16"
proof -
  assume "n < 65536"
  then have "word_of_nat n = take_bit 16 (word_of_nat n :: 64 word)"
    by (simp add: take_bit_nat_eq_self flip: of_nat_take_bit)
  then show "bit (word_of_nat n :: 64 word) k \<Longrightarrow> k < 16" by (metis bit_take_bit_iff)
qed

definition flags_of :: "FunctionMetadataConvention \<Rightarrow> bool \<Rightarrow> nat \<Rightarrow> bool \<Rightarrow> function_flags" where
  "flags_of c throws n h = withParameterFlags h (withNumParameters n (withThrows throws (withConvention c 0)))"

lemma flags_bits:
  assumes "n < 65536"
  shows "bit (flags_of c throws n h) k \<longleftrightarrow>
    k < 16 \<and> bit (word_of_nat n :: 64 word) k \<or> 16 \<le> k \<and> k < 18 \<and> bit (convention_value c) (k - 16) \<or>
    k = 24 \<and> throws \<or> k = 25 \<and> h"
proof -
  have n: "to_unsigned n = n" using assms by (simp add: to_unsigned_def)
  show ?thesis
    unfolding flags_of_def bit_withConvention bit_withThrows bit_withParameterFlags bit_withNumParameters n
    using bit_small [OF assms, of k] bit_convention [of c "k - 16"] by auto
qed

lemma read_flags:
  assumes "n < 65536"
  shows "getNumParameters (flags_of c throws n h) = n" "getConvention (flags_of c throws n h) = convention_value c"
    "flags_throws (flags_of c throws n h) = throws" "hasParameterFlags (flags_of c throws n h) = h"
proof -
  have "flags_of c throws n h AND NumParametersMask = word_of_nat n"
    by (rule bit_eqI) (auto simp: bit_and_iff bit_masks flags_bits [OF assms] dest: bit_small [OF assms])
  with assms show "getNumParameters (flags_of c throws n h) = n"
    by (simp add: getNumParameters_def unsigned_of_nat take_bit_nat_eq_self)
  show "getConvention (flags_of c throws n h) = convention_value c" unfolding getConvention_def
    by (rule bit_eqI) (auto simp: bit_drop_bit_eq bit_and_iff bit_masks flags_bits [OF assms] dest: bit_convention)
  have "flags_of c throws n h AND ThrowsMask = (if throws then ThrowsMask else 0)"
    by (rule bit_eqI) (auto simp: bit_and_iff bit_masks flags_bits [OF assms])
  then show "flags_throws (flags_of c throws n h) = throws" by (simp add: flags_throws_def ThrowsMask_def)
  have "flags_of c throws n h AND ParamFlagsMask = (if h then ParamFlagsMask else 0)"
    by (rule bit_eqI) (auto simp: bit_and_iff bit_masks flags_bits [OF assms])
  then show "hasParameterFlags (flags_of c throws n h) = h" by (simp add: hasParameterFlags_def ParamFlagsMask_def)
qed

lemma too_many_parameters: "getConvention (withNumParameters 65536 0) = convention_value Block"
  by (simp add: getConvention_def withNumParameters_def to_unsigned_def ConventionMask_def)

section \<open>Keys of the cache\<close>

text \<open>The strings of a key are not delimited: characters move from one to the next, four at a time.\<close>

lemma four_dvd:
  "4 dvd Suc (Suc (Suc (Suc n))) \<longleftrightarrow> 4 dvd n" "\<not> 4 dvd Suc 0" "\<not> 4 dvd Suc (Suc 0)" "\<not> 4 dvd Suc (Suc (Suc 0))"
  by presburger+

lemma chunks_append: "4 dvd length a \<Longrightarrow> addString_chunks (a @ b) = addString_chunks a @ addString_chunks b"
  by (induction a rule: addString_chunks.induct) (simp_all add: four_dvd)

lemma and_then_eq: "and_then x f = (case x of None \<Rightarrow> None | Some None \<Rightarrow> Some None | Some (Some y) \<Rightarrow> f y)"
  by (cases "(x, f)" rule: and_then.cases) simp_all

lemma addString_append:
  "4 dvd length a \<Longrightarrow> a \<noteq> [] \<Longrightarrow> b \<noteq> [] \<Longrightarrow> addString (a @ b) = addString a @ addString b"
  by (simp add: addString_def chunks_append)

lemma keys_collide:
  assumes "4 dvd length a" "4 dvd length b" "a \<noteq> []" "b \<noteq> []" "c \<noteq> []"
  shows "witness_key (a @ b) c P = witness_key a (b @ c) P"
  using assms by (simp add: witness_key_def addString_append)

section \<open>The cache\<close>

type_synonym query = "string \<times> string \<times> string"

definition key_of :: "query \<Rightarrow> 32 word list" where
  "key_of q = (case q of (n, m, p) \<Rightarrow> witness_key n m p)"

definition search :: "ReflectionInfo list \<Rightarrow> query \<Rightarrow> TypeRef built" where
  "search Infos q = (case q of (n, m, p) \<Rightarrow> search_witness Infos n m p)"

definition lookup :: "query \<Rightarrow> type_ref_state \<Rightarrow> (TypeRef option \<times> type_ref_state) option" where
  "lookup q B = (case q of (n, m, p) \<Rightarrow> lookupTypeWitness n m p B)"

text \<open>What the cache holds for the queries of \<open>K\<close> is what the search finds.\<close>

definition cache_ok :: "query set \<Rightarrow> type_ref_state \<Rightarrow> bool" where
  "cache_ok K B \<longleftrightarrow> (\<forall>q w. q \<in> K \<longrightarrow> AssociatedTypeCache B (key_of q) = Some w \<longrightarrow> search (ReflectionInfos B) q = Some w)"

lemma lookup_hit:
  "AssociatedTypeCache B (key_of q) = Some w \<Longrightarrow> lookup q B = Some (w, B)"
  by (cases q) (simp add: lookup_def key_of_def lookupTypeWitness_def)

lemma lookup_miss:
  assumes "AssociatedTypeCache B (key_of q) = None"
  shows "lookup q B = map_option (\<lambda>w. (w, if find_witness (associated_types (ReflectionInfos B)) (fst q) (fst (snd q)) (snd (snd q)) = Some None
    then B else B\<lparr>AssociatedTypeCache := (AssociatedTypeCache B)(key_of q \<mapsto> w)\<rparr>)) (search (ReflectionInfos B) q)"
  using assms by (cases q) (auto simp: lookup_def key_of_def search_def search_witness_def lookupTypeWitness_def and_then_eq
    split: option.splits bind_splits)

lemma lookup_correct:
  assumes "cache_ok K B" "inj_on key_of K" "q \<in> K"
  shows "map_option fst (lookup q B) = search (ReflectionInfos B) q"
    "lookup q B = Some (w, C) \<Longrightarrow> cache_ok K C \<and> ReflectionInfos C = ReflectionInfos B"
proof -
  show "map_option fst (lookup q B) = search (ReflectionInfos B) q"
  proof (cases "AssociatedTypeCache B (key_of q)")
    case None
    then show ?thesis by (simp add: lookup_miss option.map_comp comp_def option.map_ident)
  next
    case (Some w)
    with assms(1,3) show ?thesis unfolding cache_ok_def by (metis lookup_hit option.simps(9) fst_conv)
  qed
  assume l: "lookup q B = Some (w, C)"
  show "cache_ok K C \<and> ReflectionInfos C = ReflectionInfos B"
  proof (cases "AssociatedTypeCache B (key_of q)")
    case None
    from l have s: "search (ReflectionInfos B) q = Some w" by (auto simp: lookup_miss [OF None])
    from l have "C = B \<or> C = B\<lparr>AssociatedTypeCache := (AssociatedTypeCache B)(key_of q \<mapsto> w)\<rparr>"
      by (auto simp: lookup_miss [OF None] split: if_splits)
    then show ?thesis
    proof
      assume C: "C = B\<lparr>AssociatedTypeCache := (AssociatedTypeCache B)(key_of q \<mapsto> w)\<rparr>"
      have "search (ReflectionInfos C) r = Some v" if "r \<in> K" "AssociatedTypeCache C (key_of r) = Some v" for r v
      proof (cases "r = q")
        case False
        with assms(2,3) that(1) have "key_of r \<noteq> key_of q" by (auto dest: inj_onD)
        then have "AssociatedTypeCache B (key_of r) = Some v" using that(2) by (simp add: C)
        with that(1) assms(1) have "search (ReflectionInfos B) r = Some v" unfolding cache_ok_def by blast
        then show ?thesis by (simp add: C)
      qed (use that s in \<open>simp add: C\<close>)
      then show ?thesis by (simp add: cache_ok_def C)
    qed (simp add: assms(1))
  qed (use l assms(1) in \<open>simp add: lookup_hit\<close>)
qed

text \<open>A sequence of lookups.\<close>

fun lookup_all :: "query list \<Rightarrow> type_ref_state \<Rightarrow> TypeRef option list option" where
  "lookup_all [] B = Some []"
| "lookup_all (q # qs) B = do {
     (w, B) \<leftarrow> lookup q B;
     map_option ((#) w) (lookup_all qs B)
   }"

lemma lookup_all_search:
  assumes "cache_ok K B" "inj_on key_of K" "set qs \<subseteq> K"
  shows "lookup_all qs B = those (map (search (ReflectionInfos B)) qs)"
  using assms
proof (induction qs arbitrary: B)
  case (Cons q qs)
  have q: "q \<in> K" and qs: "set qs \<subseteq> K" using Cons.prems(3) by simp_all
  note found = lookup_correct(1) [OF Cons.prems(1,2) q]
  show ?case
  proof (cases "lookup q B")
    case (Some r)
    obtain w C where r: "r = (w, C)" by (cases r)
    with Some have C: "cache_ok K C" "ReflectionInfos C = ReflectionInfos B"
      using lookup_correct(2) [OF Cons.prems(1,2) q] by auto
    have "search (ReflectionInfos B) q = Some w" using found by (simp add: Some r)
    then show ?thesis by (simp add: Some r Cons.IH [OF C(1) Cons.prems(2) qs] C(2))
  qed (use found in simp)
qed simp

lemma empty_cache: "AssociatedTypeCache B = Map.empty \<Longrightarrow> cache_ok K B"
  by (simp add: cache_ok_def)

text \<open>Adding an image keeps what was found: the first witness is taken.\<close>

lemma find_appended: "find_witness ds n m p = Some (Some w) \<Longrightarrow> find_witness (ds @ es) n m p = Some (Some w)"
  by (induction ds) (auto split: bind_splits option.splits if_splits)

lemma associated_appended: "associated_types (Infos @ [I]) = associated_types Infos @ AssociatedTypeSection I"
  by (simp add: associated_types_def)

text \<open>What the cache holds after a miss comes from a descriptor, so it stays what the search finds.\<close>

definition cache_found :: "query set \<Rightarrow> type_ref_state \<Rightarrow> bool" where
  "cache_found K B \<longleftrightarrow> (\<forall>n m p w. (n, m, p) \<in> K \<longrightarrow> AssociatedTypeCache B (witness_key n m p) = Some w \<longrightarrow>
     (\<exists>s. find_witness (associated_types (ReflectionInfos B)) n m p = Some (Some s) \<and> type_of_name s = Some w))"

lemma found_kept:
  assumes "cache_found K B"
  shows "cache_found K (addReflectionInfo I B)"
  unfolding cache_found_def
proof (intro allI impI)
  fix n m p w
  assume "(n, m, p) \<in> K" "AssociatedTypeCache (addReflectionInfo I B) (witness_key n m p) = Some w"
  then have "AssociatedTypeCache B (witness_key n m p) = Some w" by (simp add: addReflectionInfo_def)
  with \<open>(n, m, p) \<in> K\<close> obtain s where
    s: "find_witness (associated_types (ReflectionInfos B)) n m p = Some (Some s)" "type_of_name s = Some w"
    using assms unfolding cache_found_def by blast
  from find_appended [OF s(1)] s(2)
  show "\<exists>s. find_witness (associated_types (ReflectionInfos (addReflectionInfo I B))) n m p = Some (Some s) \<and> type_of_name s = Some w"
    by (simp add: addReflectionInfo_def associated_appended)
qed

lemma found_ok:
  assumes "cache_found K B"
  shows "cache_ok K B"
  unfolding cache_ok_def
proof (intro allI impI)
  fix q w
  assume q: "q \<in> K" "AssociatedTypeCache B (key_of q) = Some w"
  obtain n m p where n: "q = (n, m, p)" by (cases q)
  from q n assms obtain s where
    "find_witness (associated_types (ReflectionInfos B)) n m p = Some (Some s)" "type_of_name s = Some w"
    unfolding cache_found_def by (fastforce simp: key_of_def)
  then show "search (ReflectionInfos B) q = Some w" by (simp add: n search_def search_witness_def)
qed

lemma found_lookup:
  assumes "cache_found K B" "inj_on key_of K" "q \<in> K" "lookup q B = Some (w, C)"
  shows "cache_found K C"
proof (cases "AssociatedTypeCache B (key_of q)")
  case None
  obtain n m p where q: "q = (n, m, p)" by (cases q)
  have "C = B \<or> (\<exists>s. find_witness (associated_types (ReflectionInfos B)) n m p = Some (Some s) \<and> type_of_name s = Some w \<and>
    C = B\<lparr>AssociatedTypeCache := (AssociatedTypeCache B)(key_of q \<mapsto> w)\<rparr>)"
    using assms(4) None by (auto simp: q lookup_def key_of_def lookupTypeWitness_def split: bind_splits option.splits)
  then show ?thesis
  proof
    assume "\<exists>s. find_witness (associated_types (ReflectionInfos B)) n m p = Some (Some s) \<and> type_of_name s = Some w \<and>
      C = B\<lparr>AssociatedTypeCache := (AssociatedTypeCache B)(key_of q \<mapsto> w)\<rparr>"
    then obtain s where s: "find_witness (associated_types (ReflectionInfos B)) n m p = Some (Some s)" "type_of_name s = Some w"
      and C: "C = B\<lparr>AssociatedTypeCache := (AssociatedTypeCache B)(key_of q \<mapsto> w)\<rparr>" by blast
    have "\<exists>s. find_witness (associated_types (ReflectionInfos C)) a b c = Some (Some s) \<and> type_of_name s = Some v"
      if r: "(a, b, c) \<in> K" and v: "AssociatedTypeCache C (witness_key a b c) = Some v" for a b c v
    proof (cases "(a, b, c) = q")
      case True
      with s v show ?thesis by (auto simp: C q key_of_def)
    next
      case False
      with assms(2,3) r have "key_of (a, b, c) \<noteq> key_of q" by (auto dest: inj_onD)
      then have "AssociatedTypeCache B (witness_key a b c) = Some v" using v by (simp add: C) (simp add: key_of_def q)
      with assms(1) r show ?thesis unfolding cache_found_def by (simp add: C)
    qed
    then show ?thesis unfolding cache_found_def by blast
  qed (simp add: assms(1))
qed (use assms(1,4) in \<open>simp add: lookup_hit\<close>)

text \<open>Lookups interleaved with images being added.\<close>

datatype request = Look query | Load ReflectionInfo

fun requests :: "request list \<Rightarrow> type_ref_state \<Rightarrow> TypeRef option list option" where
  "requests [] B = Some []"
| "requests (Look q # rs) B = do {
     (w, B) \<leftarrow> lookup q B;
     map_option ((#) w) (requests rs B)
   }"
| "requests (Load I # rs) B = requests rs (addReflectionInfo I B)"

text \<open>The same without a cache.\<close>

fun plain_requests :: "request list \<Rightarrow> ReflectionInfo list \<Rightarrow> TypeRef option list option" where
  "plain_requests [] Infos = Some []"
| "plain_requests (Look q # rs) Infos = do {
     w \<leftarrow> search Infos q;
     map_option ((#) w) (plain_requests rs Infos)
   }"
| "plain_requests (Load I # rs) Infos = plain_requests rs (Infos @ [I])"

lemma requests_plain:
  assumes "cache_found K B" "inj_on key_of K" "\<forall>q. Look q \<in> set rs \<longrightarrow> q \<in> K"
  shows "requests rs B = plain_requests rs (ReflectionInfos B)"
  using assms
proof (induction rs arbitrary: B)
  case (Cons r rs)
  have rs: "\<forall>q. Look q \<in> set rs \<longrightarrow> q \<in> K" using Cons.prems(3) by simp
  show ?case
  proof (cases r)
    case (Look q)
    then have q: "q \<in> K" using Cons.prems(3) list.set_intros(1) [of r rs] by metis
    note found = lookup_correct(1) [OF found_ok [OF Cons.prems(1)] Cons.prems(2) q]
    show ?thesis
    proof (cases "lookup q B")
      case (Some x)
      obtain w C where x: "x = (w, C)" by (cases x)
      with Some have "ReflectionInfos C = ReflectionInfos B"
        using lookup_correct(2) [OF found_ok [OF Cons.prems(1)] Cons.prems(2) q] by auto
      moreover have "cache_found K C" by (rule found_lookup [OF Cons.prems(1,2) q]) (use Some x in simp)
      moreover have "search (ReflectionInfos B) q = Some w" using found by (simp add: Some x)
      ultimately show ?thesis using Cons.IH [OF _ Cons.prems(2) rs, of C] by (simp add: Look Some x)
    qed (use found Look in simp)
  next
    case (Load I)
    then show ?thesis using Cons.IH [OF found_kept [OF Cons.prems(1)] Cons.prems(2) rs, of I]
      by (simp add: addReflectionInfo_def)
  qed
qed simp

section \<open>Examples\<close>

definition empty_builder :: type_ref_state where
  "empty_builder = \<lparr>ReflectionInfos = [], AssociatedTypeCache = Map.empty\<rparr>"

definition example_image :: ReflectionInfo where
  "example_image = \<lparr>FieldSection = [], AssociatedTypeSection =
     [\<lparr>ConformingTypeName = ''4main1CC'', ProtocolTypeName = ''s8SequenceP'', AssociatedTypes = [(''Element'', ''Si'')]\<rparr>],
     BuiltinSection = []\<rparr>"

definition confusing_image :: "string \<Rightarrow> ReflectionInfo" where
  "confusing_image s = \<lparr>FieldSection = [], AssociatedTypeSection =
     [\<lparr>ConformingTypeName = ''1A1B1C1D'', ProtocolTypeName = ''1M1PP'', AssociatedTypes = [(''E'', s)]\<rparr>],
     BuiltinSection = []\<rparr>"

end
