(* ===== verification/Dependency_Graph.thy ===== *)
theory Dependency_Graph
  imports Mangling_Prelude "HOL-Library.Word"
begin

text \<open>
  The dependency graph of the driver, \<open>DependencyGraph.h\<close> and \<open>DependencyGraph.cpp\<close>: nodes (the jobs
  of a build) provide names and depend on names; loading the dependency file of a node updates both,
  and marking a node finds what has to be rebuilt.

  A node is a pointer that is only compared, here a type variable. The document that LLVM's YAML
  parser delivers is an argument, the type \<open>yaml\<close>. The result \<open>None\<close> is a failed assertion.
\<close>

unbundle bit_operations_syntax

section \<open>Kinds and flags\<close>

text \<open>\<open>OptionSet<DependencyKind>\<close>, stored in a \<open>uint8_t\<close>.\<close>

type_synonym kinds = "8 word"

datatype DependencyKind = TopLevelName | DynamicLookupName | NominalType | NominalTypeMember | ExternalFile

primrec kind_bit :: "DependencyKind \<Rightarrow> kinds" where
  "kind_bit TopLevelName = 1"
| "kind_bit DynamicLookupName = 2"
| "kind_bit NominalType = 4"
| "kind_bit NominalTypeMember = 8"
| "kind_bit ExternalFile = 16"

text \<open>\<open>OptionSet::contains\<close>.\<close>

definition contains :: "kinds \<Rightarrow> kinds \<Rightarrow> bool" where
  "contains Storage ks \<longleftrightarrow> Storage AND ks = ks"

text \<open>The only flag.\<close>

type_synonym flags = "8 word"

definition IsCascading :: flags where "IsCascading = 1"

section \<open>The state of a graph\<close>

record 'n DependencyEntry =
  entry_node :: 'n
  entry_kinds :: kinds
  entry_flags :: flags

record ProvidesEntry =
  provided_name :: string
  provided_kinds :: kinds

record 'n dependency_graph =
  Provides :: "'n \<rightharpoonup> ProvidesEntry list"
  Dependencies :: "string \<rightharpoonup> 'n DependencyEntry list \<times> kinds"
  Marked :: "'n set"
  ExternalDependencies :: "string set"
  InterfaceHashes :: "'n \<rightharpoonup> string"

datatype LoadResult = HadError | UpToDate | AffectsDownstream

definition empty_graph :: "'n dependency_graph" where
  "empty_graph = \<lparr>Provides = Map.empty, Dependencies = Map.empty, Marked = {}, ExternalDependencies = {},
     InterfaceHashes = Map.empty\<rparr>"

definition isMarked :: "'n dependency_graph \<Rightarrow> 'n \<Rightarrow> bool option" where
  "isMarked g n = do {
     assert_that (Provides g n \<noteq> None);
     Some (n \<in> Marked g)
   }"

definition markIntransitive :: "'n \<Rightarrow> 'n dependency_graph \<Rightarrow> (bool \<times> 'n dependency_graph) option" where
  "markIntransitive n g = do {
     assert_that (Provides g n \<noteq> None);
     Some (n \<notin> Marked g, g\<lparr>Marked := insert n (Marked g)\<rparr>)
   }"

definition addIndependentNode :: "'n \<Rightarrow> 'n dependency_graph \<Rightarrow> 'n dependency_graph option" where
  "addIndependentNode n g = do {
     assert_that (Provides g n = None);
     Some (g\<lparr>Provides := (Provides g)(n \<mapsto> [])\<rparr>)
   }"

section \<open>Loading a dependency file\<close>

text \<open>The nodes of a document. A scalar and a sequence have a raw tag.\<close>

datatype yaml = NullNode | ScalarNode string string | SequenceNode string "yaml list" | MappingNode "(yaml \<times> yaml) list" | OtherNode string

primrec getRawTag :: "yaml \<Rightarrow> string" where
  "getRawTag NullNode = []"
| "getRawTag (ScalarNode t v) = t"
| "getRawTag (SequenceNode t es) = t"
| "getRawTag (MappingNode kvs) = []"
| "getRawTag (OtherNode t) = t"

text \<open>The macro \<open>UPDATE_RESULT\<close> in a loop: an error returns at once, the other results are joined.\<close>

fun load_loop ::
    "('a \<Rightarrow> 'g \<Rightarrow> (LoadResult \<times> 'g) option) \<Rightarrow> 'a list \<Rightarrow> LoadResult \<Rightarrow> 'g \<Rightarrow> (LoadResult \<times> 'g) option" where
  "load_loop f [] result g = Some (result, g)"
| "load_loop f (x # xs) result g = do {
     (update, g) \<leftarrow> f x g;
     case update of
       HadError \<Rightarrow> Some (HadError, g)
     | UpToDate \<Rightarrow> load_loop f xs result g
     | AffectsDownstream \<Rightarrow> load_loop f xs AffectsDownstream g
   }"

definition entry_flag :: "bool \<Rightarrow> flags" where
  "entry_flag isCascading = (if isCascading then IsCascading else 0)"

text \<open>The entry of a node, added at the end or joined with the first one it has.\<close>

fun add_dependent ::
    "'n \<Rightarrow> DependencyKind \<Rightarrow> bool \<Rightarrow> 'n DependencyEntry list \<Rightarrow> 'n DependencyEntry list" where
  "add_dependent n kind isCascading [] =
     [\<lparr>entry_node = n, entry_kinds = kind_bit kind, entry_flags = entry_flag isCascading\<rparr>]"
| "add_dependent n kind isCascading (e # es) =
     (if n = entry_node e
      then e\<lparr>entry_kinds := entry_kinds e OR kind_bit kind, entry_flags := entry_flags e OR entry_flag isCascading\<rparr> # es
      else e # add_dependent n kind isCascading es)"

fun add_provided :: "string \<Rightarrow> DependencyKind \<Rightarrow> ProvidesEntry list \<Rightarrow> ProvidesEntry list" where
  "add_provided s kind [] = [\<lparr>provided_name = s, provided_kinds = kind_bit kind\<rparr>]"
| "add_provided s kind (p # ps) =
     (if s = provided_name p then p\<lparr>provided_kinds := provided_kinds p OR kind_bit kind\<rparr> # ps
      else p # add_provided s kind ps)"

definition entries_of :: "'n dependency_graph \<Rightarrow> string \<Rightarrow> 'n DependencyEntry list \<times> kinds" where
  "entries_of g s = (case Dependencies g s of None \<Rightarrow> ([], 0) | Some entries \<Rightarrow> entries)"

definition dependsCallback ::
    "'n \<Rightarrow> string \<Rightarrow> DependencyKind \<Rightarrow> bool \<Rightarrow> 'n dependency_graph \<Rightarrow> (LoadResult \<times> 'n dependency_graph) option" where
  "dependsCallback n s kind isCascading g =
     (let (entries, traversed) = entries_of g s;
          g = g\<lparr>ExternalDependencies := (if kind = ExternalFile then insert s (ExternalDependencies g) else ExternalDependencies g),
                Dependencies := (Dependencies g)(s \<mapsto> (add_dependent n kind isCascading entries, traversed))\<rparr>
      in Some (if isCascading \<and> traversed AND kind_bit kind \<noteq> 0 then AffectsDownstream else UpToDate, g))"

definition providesCallback ::
    "'n \<Rightarrow> string \<Rightarrow> DependencyKind \<Rightarrow> bool \<Rightarrow> 'n dependency_graph \<Rightarrow> (LoadResult \<times> 'n dependency_graph) option" where
  "providesCallback n s kind isCascading g = do {
     assert_that isCascading;
     provides \<leftarrow> Provides g n;
     Some (UpToDate, g\<lparr>Provides := (Provides g)(n \<mapsto> add_provided s kind provides)\<rparr>)
   }"

definition interfaceHashCallback ::
    "'n \<Rightarrow> string \<Rightarrow> 'n dependency_graph \<Rightarrow> (LoadResult \<times> 'n dependency_graph) option" where
  "interfaceHashCallback n hash g =
     (case InterfaceHashes g n of
        None \<Rightarrow> Some (UpToDate, g\<lparr>InterfaceHashes := (InterfaceHashes g)(n \<mapsto> hash)\<rparr>)
      | Some old \<Rightarrow>
          if hash \<noteq> old then Some (AffectsDownstream, g\<lparr>InterfaceHashes := (InterfaceHashes g)(n \<mapsto> hash)\<rparr>)
          else Some (UpToDate, g))"

text \<open>The keys of the file: the kind, and whether it is a dependency.\<close>

definition dependency_key :: "string \<Rightarrow> (DependencyKind \<times> bool) option" where
  "dependency_key s = map_of
     [(''depends-top-level'', (TopLevelName, True)),
      (''depends-nominal'', (NominalType, True)),
      (''depends-member'', (NominalTypeMember, True)),
      (''depends-dynamic-lookup'', (DynamicLookupName, True)),
      (''depends-external'', (ExternalFile, True)),
      (''provides-top-level'', (TopLevelName, False)),
      (''provides-nominal'', (NominalType, False)),
      (''provides-member'', (NominalTypeMember, False)),
      (''provides-dynamic-lookup'', (DynamicLookupName, False))] s"

definition isCascading :: "yaml \<Rightarrow> bool" where
  "isCascading rawEntry \<longleftrightarrow> getRawTag rawEntry \<noteq> ''!private''"

text \<open>A member entry is a sequence of a type and a member; the strings are joined with a NUL between.
  A sequence with fewer or more elements fails an assertion.\<close>

definition load_member ::
    "(string \<Rightarrow> DependencyKind \<Rightarrow> bool \<Rightarrow> 'g \<Rightarrow> (LoadResult \<times> 'g) option) \<Rightarrow> yaml \<Rightarrow> 'g \<Rightarrow> (LoadResult \<times> 'g) option" where
  "load_member callback rawEntry g =
     (case rawEntry of
        SequenceNode t elements \<Rightarrow>
          (case elements of
             [] \<Rightarrow> None
           | ScalarNode t1 b # rest \<Rightarrow>
               (case rest of
                  [] \<Rightarrow> None
                | ScalarNode t2 member # others \<Rightarrow> do {
                    assert_that (others = []);
                    callback (b @ [CHR 0x00] @ member) NominalTypeMember (isCascading rawEntry) g
                  }
                | _ \<Rightarrow> Some (HadError, g))
           | _ \<Rightarrow> Some (HadError, g))
      | _ \<Rightarrow> Some (HadError, g))"

definition load_scalar ::
    "DependencyKind \<Rightarrow> (string \<Rightarrow> DependencyKind \<Rightarrow> bool \<Rightarrow> 'g \<Rightarrow> (LoadResult \<times> 'g) option) \<Rightarrow> yaml \<Rightarrow> 'g \<Rightarrow>
     (LoadResult \<times> 'g) option" where
  "load_scalar kind callback rawEntry g =
     (case rawEntry of
        ScalarNode t v \<Rightarrow> callback v kind (isCascading rawEntry) g
      | _ \<Rightarrow> Some (HadError, g))"

definition load_key :: "'n \<Rightarrow> yaml \<times> yaml \<Rightarrow> 'n dependency_graph \<Rightarrow> (LoadResult \<times> 'n dependency_graph) option" where
  "load_key n kv g =
     (case kv of (key, value) \<Rightarrow>
        if value = NullNode then Some (UpToDate, g)
        else case key of
            ScalarNode t keyString \<Rightarrow>
              if keyString = ''interface-hash'' then
                (case value of
                   ScalarNode u valueString \<Rightarrow> interfaceHashCallback n valueString g
                 | _ \<Rightarrow> Some (HadError, g))
              else
                (case dependency_key keyString of
                   None \<Rightarrow> Some (HadError, g)
                 | Some (kind, isDepends) \<Rightarrow>
                     (case value of
                        SequenceNode u entries \<Rightarrow>
                          let callback = (if isDepends then dependsCallback n else providesCallback n) in
                          if kind = NominalTypeMember then load_loop (load_member callback) entries UpToDate g
                          else load_loop (load_scalar kind callback) entries UpToDate g
                      | _ \<Rightarrow> Some (HadError, g)))
          | _ \<Rightarrow> Some (HadError, g))"

text \<open>The root is \<open>None\<close> when there is no document.\<close>

definition parseDependencyFile :: "'n \<Rightarrow> yaml option \<Rightarrow> 'n dependency_graph \<Rightarrow> (LoadResult \<times> 'n dependency_graph) option" where
  "parseDependencyFile n root g =
     (case root of
        None \<Rightarrow> Some (HadError, g)
      | Some root \<Rightarrow>
          (case root of
             MappingNode topLevelMap \<Rightarrow> load_loop (load_key n) topLevelMap UpToDate g
           | NullNode \<Rightarrow> Some (UpToDate, g)
           | _ \<Rightarrow> Some (HadError, g)))"

text \<open>\<open>Provides[node]\<close> creates the list of what the node provides, and keeps an existing one.\<close>

definition loadFromBuffer :: "'n \<Rightarrow> yaml option \<Rightarrow> 'n dependency_graph \<Rightarrow> (LoadResult \<times> 'n dependency_graph) option" where
  "loadFromBuffer n root g =
     parseDependencyFile n root
       (g\<lparr>Provides := (Provides g)(n \<mapsto> (case Provides g n of None \<Rightarrow> [] | Some provides \<Rightarrow> provides))\<rparr>)"

text \<open>A file that cannot be read has no buffer.\<close>

definition loadFromPath :: "'n \<Rightarrow> yaml option option \<Rightarrow> 'n dependency_graph \<Rightarrow> (LoadResult \<times> 'n dependency_graph) option" where
  "loadFromPath n buffer g =
     (case buffer of None \<Rightarrow> Some (HadError, g) | Some root \<Rightarrow> loadFromBuffer n root g)"

section \<open>The tracer\<close>

record 'n trace_entry =
  trace_node :: 'n
  trace_name :: string
  trace_kinds :: kinds

text \<open>The counters of the driver: cascading or not, for each of the five kinds in the order of the code.\<close>

type_synonym driver_counters = "(bool \<times> DependencyKind) \<Rightarrow> nat"

record 'n tracer =
  Table :: "'n \<rightharpoonup> 'n trace_entry list"
  Stats :: "driver_counters option"

text \<open>The counter of external files counts members, too.\<close>

definition counted_kinds :: "(DependencyKind \<times> DependencyKind) list" where
  "counted_kinds = [(TopLevelName, TopLevelName), (DynamicLookupName, DynamicLookupName), (NominalType, NominalType),
     (NominalTypeMember, NominalTypeMember), (NominalTypeMember, ExternalFile)]"

definition countStatsForNodeMarking :: "kinds \<Rightarrow> bool \<Rightarrow> 'n tracer \<Rightarrow> 'n tracer" where
  "countStatsForNodeMarking kind c t =
     t\<lparr>Stats := map_option (fold (\<lambda>(tested, counter) D.
         if kind AND kind_bit tested \<noteq> 0 then D((c, counter) := Suc (D (c, counter))) else D) counted_kinds) (Stats t)\<rparr>"

section \<open>Marking\<close>

record 'n work =
  Reason :: "'n trace_entry list"
  WorkNode :: 'n
  WorkCascading :: bool

text \<open>The state of \<open>markTransitive\<close>. The head of the worklist is its back, where entries are pushed
  and popped.\<close>

record 'n marking =
  graph :: "'n dependency_graph"
  worklist :: "'n work list"
  visited :: "'n list"
  visitedSet :: "'n set"
  marktracer :: "'n tracer option"

definition push_dependent ::
    "'n \<Rightarrow> 'n trace_entry list \<Rightarrow> ProvidesEntry \<Rightarrow> 'n DependencyEntry \<Rightarrow> 'n marking \<Rightarrow> 'n marking option" where
  "push_dependent next_node reason provided dependent S =
     (let intersectingKinds = provided_kinds provided AND entry_kinds dependent in
      if entry_node dependent = next_node then Some S
      else if intersectingKinds = 0 then Some S
      else do {
        marked \<leftarrow> isMarked (graph S) (entry_node dependent);
        if marked then Some S
        else
          let c = (entry_flags dependent AND IsCascading \<noteq> 0);
              newReason = (if marktracer S = None then []
                else reason @ [\<lparr>trace_node = next_node, trace_name = provided_name provided, trace_kinds = intersectingKinds\<rparr>])
          in Some (S\<lparr>worklist := \<lparr>Reason = newReason, WorkNode = entry_node dependent, WorkCascading = c\<rparr> # worklist S,
               marktracer := map_option (countStatsForNodeMarking intersectingKinds c) (marktracer S)\<rparr>)
      })"

fun push_dependents ::
    "'n \<Rightarrow> 'n trace_entry list \<Rightarrow> ProvidesEntry \<Rightarrow> 'n DependencyEntry list \<Rightarrow> 'n marking \<Rightarrow> 'n marking option" where
  "push_dependents next_node reason provided [] S = Some S"
| "push_dependents next_node reason provided (dependent # ds) S = do {
     S \<leftarrow> push_dependent next_node reason provided dependent S;
     push_dependents next_node reason provided ds S
   }"

definition traverse_provided ::
    "'n \<Rightarrow> 'n trace_entry list \<Rightarrow> ProvidesEntry \<Rightarrow> 'n marking \<Rightarrow> 'n marking option" where
  "traverse_provided next_node reason provided S =
     (case Dependencies (graph S) (provided_name provided) of
        None \<Rightarrow> Some S
      | Some (dependents, traversed) \<Rightarrow>
          if contains traversed (provided_kinds provided) then Some S
          else push_dependents next_node reason provided dependents
            (S\<lparr>graph := (graph S)\<lparr>Dependencies := (Dependencies (graph S))(provided_name provided \<mapsto>
               (dependents, traversed OR provided_kinds provided))\<rparr>\<rparr>))"

fun traverse_all ::
    "'n \<Rightarrow> 'n trace_entry list \<Rightarrow> ProvidesEntry list \<Rightarrow> 'n marking \<Rightarrow> 'n marking option" where
  "traverse_all next_node reason [] S = Some S"
| "traverse_all next_node reason (provided # ps) S = do {
     S \<leftarrow> traverse_provided next_node reason provided S;
     traverse_all next_node reason ps S
   }"

definition addDependentsToWorklist :: "'n \<Rightarrow> 'n trace_entry list \<Rightarrow> 'n marking \<Rightarrow> 'n marking option" where
  "addDependentsToWorklist next_node reason S =
     (case Provides (graph S) next_node of
        None \<Rightarrow> Some S
      | Some allProvided \<Rightarrow> traverse_all next_node reason allProvided S)"

definition record_visit :: "'n work \<Rightarrow> 'n marking \<Rightarrow> 'n marking" where
  "record_visit w S =
     (if WorkNode w \<in> visitedSet S then S
      else S\<lparr>visitedSet := insert (WorkNode w) (visitedSet S), visited := visited S @ [WorkNode w],
             marktracer := map_option (\<lambda>t. t\<lparr>Table := (Table t)(WorkNode w \<mapsto> Reason w)\<rparr>) (marktracer S)\<rparr>)"

definition mark_step :: "'n work \<Rightarrow> 'n marking \<Rightarrow> 'n marking option" where
  "mark_step w S =
     (if \<not> WorkCascading w then do {
        marked \<leftarrow> isMarked (graph S) (WorkNode w);
        Some (if marked then S else record_visit w S)
      }
      else do {
        S \<leftarrow> addDependentsToWorklist (WorkNode w) (Reason w) S;
        (newly, g) \<leftarrow> markIntransitive (WorkNode w) (graph S);
        let S = S\<lparr>graph := g\<rparr>;
        Some (if newly then record_visit w S else S)
      })"

text \<open>The worklist loop, \<open>None\<close> when it does not end.\<close>

partial_function (option) mark_loop :: "'n marking \<Rightarrow> 'n marking option" where
  [code]: "mark_loop S =
     (case worklist S of
        [] \<Rightarrow> Some S
      | w # ws \<Rightarrow> mark_step w (S\<lparr>worklist := ws\<rparr>) \<bind> mark_loop)"

definition start_marking :: "'n list \<Rightarrow> 'n tracer option \<Rightarrow> 'n dependency_graph \<Rightarrow> 'n marking" where
  "start_marking vs t g = \<lparr>graph = g, worklist = [], visited = vs, visitedSet = {}, marktracer = t\<rparr>"

text \<open>The visited nodes are added to those of the caller.\<close>

definition markTransitive ::
    "'n list \<Rightarrow> 'n \<Rightarrow> 'n tracer option \<Rightarrow> 'n dependency_graph \<Rightarrow>
     ('n list \<times> 'n tracer option \<times> 'n dependency_graph) option" where
  "markTransitive vs n t g = do {
     (newly, g) \<leftarrow> markIntransitive n g;
     S \<leftarrow> addDependentsToWorklist n [] (start_marking vs t g);
     S \<leftarrow> mark_loop S;
     Some (visited S, marktracer S, graph S)
   }"

fun mark_external_dependents ::
    "'n DependencyEntry list \<Rightarrow> 'n list \<Rightarrow> 'n dependency_graph \<Rightarrow> ('n list \<times> 'n dependency_graph) option" where
  "mark_external_dependents [] vs g = Some (vs, g)"
| "mark_external_dependents (dependent # ds) vs g =
     (if \<not> contains (entry_kinds dependent) (kind_bit ExternalFile) then mark_external_dependents ds vs g
      else do {
        marked \<leftarrow> isMarked g (entry_node dependent);
        if marked then mark_external_dependents ds vs g
        else do {
          assert_that (entry_flags dependent AND IsCascading \<noteq> 0);
          (vs, t, g) \<leftarrow> markTransitive (vs @ [entry_node dependent]) (entry_node dependent) None g;
          mark_external_dependents ds vs g
        }
      })"

definition markExternal ::
    "'n list \<Rightarrow> string \<Rightarrow> 'n dependency_graph \<Rightarrow> ('n list \<times> 'n dependency_graph) option" where
  "markExternal vs externalDependency g = do {
     (dependents, traversed) \<leftarrow> Dependencies g externalDependency;
     mark_external_dependents dependents vs
       (g\<lparr>Dependencies := (Dependencies g)(externalDependency \<mapsto> (dependents, traversed OR kind_bit ExternalFile))\<rparr>)
   }"

end
