(* ===== verification/Dependency_Marking.thy ===== *)
theory Dependency_Marking
  imports Dependency_Graph
begin

text \<open>
  Marking as reachability. The edges of a dependency graph are derived from what nodes provide and
  depend on; \<open>markTransitive\<close> returns, marks exactly the nodes that cascading edges reach through
  unmarked nodes, and reports them and those that one more edge reaches. The tracer explains each
  reported node by a path.
\<close>

section \<open>Edges\<close>

definition provided :: "'n dependency_graph \<Rightarrow> 'n \<Rightarrow> ProvidesEntry list" where
  "provided g m = (case Provides g m of None \<Rightarrow> [] | Some ps \<Rightarrow> ps)"

definition dependents :: "'n dependency_graph \<Rightarrow> string \<Rightarrow> 'n DependencyEntry list" where
  "dependents g s = fst (entries_of g s)"

definition traversed :: "'n dependency_graph \<Rightarrow> string \<Rightarrow> kinds" where
  "traversed g s = snd (entries_of g s)"

definition cascading :: "'n DependencyEntry \<Rightarrow> bool" where
  "cascading e \<longleftrightarrow> entry_flags e AND IsCascading \<noteq> 0"

text \<open>An edge by an entry: the kinds that it has in common with what is provided.\<close>

definition edge_by ::
    "'n dependency_graph \<Rightarrow> 'n \<Rightarrow> ProvidesEntry \<Rightarrow> 'n DependencyEntry \<Rightarrow> bool" where
  "edge_by g m p e \<longleftrightarrow> p \<in> set (provided g m) \<and> e \<in> set (dependents g (provided_name p)) \<and> entry_node e \<noteq> m \<and>
     provided_kinds p AND entry_kinds e \<noteq> 0"

definition edge :: "'n dependency_graph \<Rightarrow> 'n \<Rightarrow> 'n \<Rightarrow> bool \<Rightarrow> bool" where
  "edge g m n c \<longleftrightarrow> (\<exists>p e. edge_by g m p e \<and> entry_node e = n \<and> cascading e = c)"

inductive_set reach :: "'n dependency_graph \<Rightarrow> 'n \<Rightarrow> 'n set" for g n0 where
  reach_start: "n0 \<in> reach g n0"
| reach_step: "m \<in> reach g n0 \<Longrightarrow> edge g m n True \<Longrightarrow> n \<notin> Marked g \<Longrightarrow> n \<in> reach g n0"

text \<open>A path of cascading edges, and a last edge that may not cascade.\<close>

inductive explains :: "'n dependency_graph \<Rightarrow> 'n \<Rightarrow> 'n trace_entry list \<Rightarrow> 'n \<Rightarrow> bool \<Rightarrow> bool" for g n0 where
  explains_start: "explains g n0 [] n0 True"
| explains_step: "explains g n0 r m True \<Longrightarrow> edge_by g m p e \<Longrightarrow>
    explains g n0 (r @ [\<lparr>trace_node = m, trace_name = provided_name p, trace_kinds = provided_kinds p AND entry_kinds e\<rparr>])
      (entry_node e) (cascading e)"

section \<open>Well-formed and consistent graphs\<close>

definition wf_graph :: "'n dependency_graph \<Rightarrow> bool" where
  "wf_graph g \<longleftrightarrow> finite (dom (Dependencies g)) \<and> Marked g \<subseteq> dom (Provides g) \<and>
     (\<forall>s. \<forall>e \<in> set (dependents g s). entry_node e \<in> dom (Provides g)) \<and>
     (\<forall>m. \<forall>p \<in> set (provided g m). \<not> bit (provided_kinds p) 4)"

text \<open>Who depends on a traversed name, and cascades, is marked. No node provides an external file, whose
  traversal is recorded by \<open>markExternal\<close>.\<close>

abbreviation external_bit :: nat where
  "external_bit \<equiv> 4"

definition consistent :: "'n dependency_graph \<Rightarrow> bool" where
  "consistent g \<longleftrightarrow> (\<forall>s b. \<forall>e \<in> set (dependents g s). b \<noteq> external_bit \<longrightarrow> bit (traversed g s) b \<longrightarrow> bit (entry_kinds e) b \<longrightarrow> cascading e \<longrightarrow>
     entry_node e \<in> Marked g)"

text \<open>The same for all nodes but one, as a node is while its file is loaded.\<close>

definition consistent_but :: "'n \<Rightarrow> 'n dependency_graph \<Rightarrow> bool" where
  "consistent_but n g \<longleftrightarrow> (\<forall>s b. \<forall>e \<in> set (dependents g s). entry_node e \<noteq> n \<longrightarrow> b \<noteq> external_bit \<longrightarrow> bit (traversed g s) b \<longrightarrow> bit (entry_kinds e) b \<longrightarrow>
     cascading e \<longrightarrow> entry_node e \<in> Marked g)"

lemma consistent_but_any: "consistent g \<Longrightarrow> consistent_but n g"
  by (simp add: consistent_def consistent_but_def)

lemma consistent_but_marked: "consistent_but n g \<Longrightarrow> n \<in> Marked g \<Longrightarrow> consistent g"
  unfolding consistent_def consistent_but_def by metis

lemma wf_provided: "wf_graph g \<Longrightarrow> p \<in> set (provided g m) \<Longrightarrow> \<not> bit (provided_kinds p) external_bit"
  by (simp add: wf_graph_def)

lemma isMarked_wf: "n \<in> dom (Provides g) \<Longrightarrow> isMarked g n = Some (n \<in> Marked g)"
  by (auto simp: isMarked_def)

lemma markIntransitive_wf:
  "n \<in> dom (Provides g) \<Longrightarrow> markIntransitive n g = Some (n \<notin> Marked g, g\<lparr>Marked := insert n (Marked g)\<rparr>)"
  by (auto simp: markIntransitive_def)

lemma and_not_zero: "(a :: kinds) AND b \<noteq> 0 \<longleftrightarrow> (\<exists>k. bit a k \<and> bit b k)"
  using bit_imp_le_length [of a] by (auto simp: bit_eq_iff bit_and_iff)

lemma contains_bits: "contains a b \<longleftrightarrow> (\<forall>k. bit b k \<longrightarrow> bit a k)"
  using bit_imp_le_length [of b] by (auto simp: contains_def bit_eq_iff bit_and_iff)

section \<open>One round\<close>

text \<open>What a round adds to the worklist: \<open>new\<close> comes from the edges of \<open>m\<close>, and every newly traversed
  name has all its dependents in \<open>new\<close>, apart from \<open>m\<close> and from marked nodes.\<close>

definition same_but :: "'n marking \<Rightarrow> 'n marking \<Rightarrow> bool" where
  "same_but S S' \<longleftrightarrow> Provides (graph S') = Provides (graph S) \<and> Marked (graph S') = Marked (graph S) \<and>
     dom (Dependencies (graph S')) = dom (Dependencies (graph S)) \<and> dependents (graph S') = dependents (graph S) \<and>
     visited S' = visited S \<and> visitedSet S' = visitedSet S \<and> map_option Table (marktracer S') = map_option Table (marktracer S)"

definition more_traversed :: "'n dependency_graph \<Rightarrow> 'n dependency_graph \<Rightarrow> bool" where
  "more_traversed g g' \<longleftrightarrow> (\<forall>s b. bit (traversed g s) b \<longrightarrow> bit (traversed g' s) b)"

definition from_edge :: "'n \<Rightarrow> 'n trace_entry list \<Rightarrow> 'n marking \<Rightarrow> 'n work \<Rightarrow> bool" where
  "from_edge m reason S w \<longleftrightarrow> WorkNode w \<notin> Marked (graph S) \<and>
     (\<exists>p e. edge_by (graph S) m p e \<and> entry_node e = WorkNode w \<and> cascading e = WorkCascading w \<and>
       (marktracer S \<noteq> None \<longrightarrow> Reason w = reason @ [\<lparr>trace_node = m, trace_name = provided_name p,
          trace_kinds = provided_kinds p AND entry_kinds e\<rparr>]))"

definition pushed :: "'n \<Rightarrow> 'n marking \<Rightarrow> 'n work list \<Rightarrow> 'n DependencyEntry \<Rightarrow> bool" where
  "pushed m S new e \<longleftrightarrow> entry_node e = m \<or> entry_node e \<in> Marked (graph S) \<or>
     (\<exists>w \<in> set new. WorkNode w = entry_node e \<and> WorkCascading w = cascading e)"

definition round :: "'n \<Rightarrow> 'n trace_entry list \<Rightarrow> 'n marking \<Rightarrow> 'n work list \<Rightarrow> 'n marking \<Rightarrow> bool" where
  "round m reason S new S' \<longleftrightarrow> same_but S S' \<and> worklist S' = new @ worklist S \<and> more_traversed (graph S) (graph S') \<and>
     (\<forall>w \<in> set new. from_edge m reason S w) \<and>
     (\<forall>s b. bit (traversed (graph S') s) b \<longrightarrow> \<not> bit (traversed (graph S) s) b \<longrightarrow>
        (\<forall>e \<in> set (dependents (graph S) s). bit (entry_kinds e) b \<longrightarrow> pushed m S new e)) \<and>
     (new \<noteq> [] \<longrightarrow> (\<exists>s b. s \<in> dom (Dependencies (graph S)) \<and> bit (traversed (graph S') s) b \<and> \<not> bit (traversed (graph S) s) b))"

lemma same_but_refl: "same_but S S"
  by (simp add: same_but_def)

lemma same_but_trans: "same_but S T \<Longrightarrow> same_but T U \<Longrightarrow> same_but S U"
  by (simp add: same_but_def)

lemma same_but_edges: "same_but S T \<Longrightarrow> edge_by (graph T) = edge_by (graph S)"
  unfolding fun_eq_iff edge_by_def provided_def by (auto simp: same_but_def)

lemma same_but_tracer: "same_but S T \<Longrightarrow> marktracer T = None \<longleftrightarrow> marktracer S = None"
  by (auto simp: same_but_def dest: arg_cong [of _ _ "\<lambda>t. t = None"])

lemma from_edge_same: "same_but S T \<Longrightarrow> from_edge m reason T w = from_edge m reason S w"
  unfolding from_edge_def using same_but_edges [of S T] same_but_tracer [of S T] by (auto simp: same_but_def)

lemma round_refl: "round m reason S [] S"
  by (simp add: round_def same_but_refl more_traversed_def)

lemma round_trans:
  assumes "round m reason S new1 T" "round m reason T new2 U"
  shows "round m reason S (new2 @ new1) U"
proof -
  have s: "same_but S T" "same_but T U" using assms by (simp_all add: round_def)
  then have g: "Marked (graph T) = Marked (graph S)" "dependents (graph T) = dependents (graph S)"
    "dom (Dependencies (graph T)) = dom (Dependencies (graph S))" by (simp_all add: same_but_def)
  have t: "more_traversed (graph S) (graph T)" "more_traversed (graph T) (graph U)" using assms by (simp_all add: round_def)
  have p: "pushed m S (new2 @ new1) e" if "pushed m T new2 e \<or> pushed m S new1 e" for e
    using that g(1) by (auto simp: pushed_def)
  show ?thesis unfolding round_def
  proof (intro conjI allI impI ballI)
    show "same_but S U" using s by (rule same_but_trans)
    show "worklist U = (new2 @ new1) @ worklist S" using assms by (simp add: round_def)
    show "more_traversed (graph S) (graph U)" using t by (simp add: more_traversed_def)
    show "from_edge m reason S w" if "w \<in> set (new2 @ new1)" for w
      using that assms from_edge_same [OF s(1)] by (auto simp: round_def)
    show "pushed m S (new2 @ new1) e" if "bit (traversed (graph U) a) b" "\<not> bit (traversed (graph S) a) b"
      "e \<in> set (dependents (graph S) a)" "bit (entry_kinds e) b" for a b e
    proof (cases "bit (traversed (graph T) a) b")
      case True
      then show ?thesis using that assms(1) by (intro p disjI2) (simp add: round_def)
    next
      case False
      then show ?thesis using that assms(2) g(2) by (intro p disjI1) (simp add: round_def)
    qed
    show "\<exists>s b. s \<in> dom (Dependencies (graph S)) \<and> bit (traversed (graph U) s) b \<and> \<not> bit (traversed (graph S) s) b"
      if "new2 @ new1 \<noteq> []"
    proof (cases "new1 = []")
      case True
      with that assms(2) g(3) obtain s b where "s \<in> dom (Dependencies (graph S))" "bit (traversed (graph U) s) b"
        "\<not> bit (traversed (graph T) s) b" unfolding round_def by auto
      with t(1) show ?thesis unfolding more_traversed_def by blast
    next
      case False
      with assms(1) obtain s b where "s \<in> dom (Dependencies (graph S))" "bit (traversed (graph T) s) b"
        "\<not> bit (traversed (graph S) s) b" unfolding round_def by auto
      with t(2) show ?thesis unfolding more_traversed_def by blast
    qed
  qed
qed

text \<open>What the loop over the dependents of one provided name pushes.\<close>

definition pushes ::
    "'n \<Rightarrow> 'n trace_entry list \<Rightarrow> ProvidesEntry \<Rightarrow> 'n DependencyEntry list \<Rightarrow> 'n marking \<Rightarrow> 'n work list \<Rightarrow> 'n marking \<Rightarrow> bool" where
  "pushes m reason p ds S new S' \<longleftrightarrow> graph S' = graph S \<and> same_but S S' \<and> worklist S' = new @ worklist S \<and>
    (\<forall>w \<in> set new. WorkNode w \<notin> Marked (graph S) \<and> (\<exists>e \<in> set ds. entry_node e = WorkNode w \<and> cascading e = WorkCascading w \<and>
       entry_node e \<noteq> m \<and> provided_kinds p AND entry_kinds e \<noteq> 0 \<and>
       (marktracer S \<noteq> None \<longrightarrow> Reason w = reason @ [\<lparr>trace_node = m, trace_name = provided_name p,
          trace_kinds = provided_kinds p AND entry_kinds e\<rparr>]))) \<and>
    (\<forall>e \<in> set ds. provided_kinds p AND entry_kinds e \<noteq> 0 \<longrightarrow> pushed m S new e)"

lemma pushes_one:
  assumes "entry_node d \<in> dom (Provides (graph S))"
  shows "\<exists>S' new. push_dependent m reason p d S = Some S' \<and> pushes m reason p [d] S new S'"
proof (cases "entry_node d = m \<or> provided_kinds p AND entry_kinds d = 0 \<or> entry_node d \<in> Marked (graph S)")
  case True
  then have "push_dependent m reason p d S = Some S"
    by (auto simp: push_dependent_def Let_def isMarked_wf [OF assms])
  moreover have "pushes m reason p [d] S [] S" using True by (auto simp: pushes_def same_but_refl pushed_def)
  ultimately show ?thesis by blast
next
  case False
  let ?k = "provided_kinds p AND entry_kinds d" and ?c = "entry_flags d AND IsCascading \<noteq> 0"
  let ?w = "\<lparr>Reason = (if marktracer S = None then [] else reason @ [\<lparr>trace_node = m, trace_name = provided_name p, trace_kinds = ?k\<rparr>]),
    WorkNode = entry_node d, WorkCascading = ?c\<rparr>"
  let ?S = "S\<lparr>worklist := ?w # worklist S, marktracer := map_option (countStatsForNodeMarking ?k ?c) (marktracer S)\<rparr>"
  have "push_dependent m reason p d S = Some ?S"
    using False by (simp add: push_dependent_def Let_def isMarked_wf [OF assms])
  moreover have "same_but S ?S"
    by (simp add: same_but_def option.map_comp comp_def countStatsForNodeMarking_def)
  then have "pushes m reason p [d] S [?w] ?S" using False by (simp add: pushes_def pushed_def cascading_def)
  ultimately show ?thesis by blast
qed

lemma pushes_append:
  assumes "pushes m reason p ds S new1 T" "pushes m reason p es T new2 U"
  shows "pushes m reason p (ds @ es) S (new2 @ new1) U"
proof -
  have s: "same_but S T" "graph T = graph S" "marktracer T = None \<longleftrightarrow> marktracer S = None"
    using assms(1) same_but_tracer by (auto simp: pushes_def)
  have "same_but S U" using assms same_but_trans by (auto simp: pushes_def)
  moreover have "pushed m S (new2 @ new1) e" if "pushed m S new1 e \<or> pushed m T new2 e" for e
    using that s(2) by (auto simp: pushed_def)
  ultimately show ?thesis using assms unfolding pushes_def s
    by (simp add: ball_Un) blast
qed

lemma pushes_all:
  "\<forall>e \<in> set ds. entry_node e \<in> dom (Provides (graph S)) \<Longrightarrow>
   \<exists>S' new. push_dependents m reason p ds S = Some S' \<and> pushes m reason p ds S new S'"
proof (induction ds arbitrary: S)
  case Nil
  have "pushes m reason p [] S [] S" by (simp add: pushes_def same_but_refl)
  then show ?case by auto
next
  case (Cons d ds)
  then obtain T new1 where T: "push_dependent m reason p d S = Some T" "pushes m reason p [d] S new1 T"
    using pushes_one [of d S m reason p] by auto
  have "graph T = graph S" using T(2) by (simp add: pushes_def)
  then obtain U new2 where U: "push_dependents m reason p ds T = Some U" "pushes m reason p ds T new2 U"
    using Cons.IH [of T] Cons.prems by auto
  from pushes_append [OF T(2) U(2)] T(1) U(1) show ?case by auto
qed

lemma traverse_round:
  assumes "wf_graph (graph S)" "p \<in> set (provided (graph S) m)"
  shows "\<exists>S' new. traverse_provided m reason p S = Some S' \<and> round m reason S new S' \<and>
    (provided_name p \<in> dom (Dependencies (graph S)) \<longrightarrow> contains (traversed (graph S') (provided_name p)) (provided_kinds p))"
proof (cases "Dependencies (graph S) (provided_name p)")
  case None
  then have "traverse_provided m reason p S = Some S" by (simp add: traverse_provided_def)
  with None round_refl [of m reason S] show ?thesis by auto
next
  case (Some entries)
  obtain ds d where d: "entries = (ds, d)" by force
  note dep = Some [unfolded d]
  have ds: "dependents (graph S) (provided_name p) = ds" "traversed (graph S) (provided_name p) = d"
    by (simp_all add: dependents_def traversed_def entries_of_def dep)
  show ?thesis
  proof (cases "contains d (provided_kinds p)")
    case True
    then have "traverse_provided m reason p S = Some S" by (simp add: traverse_provided_def dep)
    with True ds(2) round_refl [of m reason S] show ?thesis by auto
  next
    case False
    let ?s = "provided_name p" and ?d = "d OR provided_kinds p"
    let ?g = "(graph S)\<lparr>Dependencies := (Dependencies (graph S))(?s \<mapsto> (ds, ?d))\<rparr>"
    let ?T = "S\<lparr>graph := ?g\<rparr>"
    have gd: "dependents ?g = dependents (graph S)"
      using ds(1) by (auto simp: dependents_def entries_of_def fun_eq_iff)
    have gt: "traversed ?g s = (if s = ?s then ?d else traversed (graph S) s)" for s
      by (simp add: traversed_def entries_of_def)
    have sT: "same_but S ?T" using dep by (auto simp: same_but_def gd)
    have "\<forall>e \<in> set ds. entry_node e \<in> dom (Provides (graph ?T))" using assms(1) ds(1) by (auto simp: wf_graph_def)
    from pushes_all [OF this, of m reason p] obtain U new where
      U: "push_dependents m reason p ds ?T = Some U" "pushes m reason p ds ?T new U" by blast
    have gU: "graph U = ?g" and sU: "same_but ?T U" using U(2) by (simp_all add: pushes_def)
    have "traverse_provided m reason p S = Some U" using U(1) False by (simp add: traverse_provided_def dep)
    moreover have "round m reason S new U" unfolding round_def
    proof (intro conjI allI impI ballI)
      show "same_but S U" using same_but_trans [OF sT sU] .
      show "worklist U = new @ worklist S" using U(2) by (simp add: pushes_def)
      show "more_traversed (graph S) (graph U)" by (auto simp: more_traversed_def gU gt ds(2) bit_or_iff)
      show "from_edge m reason S w" if w: "w \<in> set new" for w
      proof -
        from U(2) w obtain e where e: "WorkNode w \<notin> Marked (graph S)" "e \<in> set ds" "entry_node e = WorkNode w"
          "cascading e = WorkCascading w" "entry_node e \<noteq> m" "provided_kinds p AND entry_kinds e \<noteq> 0"
          "marktracer S \<noteq> None \<longrightarrow> Reason w = reason @ [\<lparr>trace_node = m, trace_name = ?s, trace_kinds = provided_kinds p AND entry_kinds e\<rparr>]"
          by (auto simp: pushes_def)
        then have "edge_by (graph S) m p e" using assms(2) ds(1) by (simp add: edge_by_def)
        with e show ?thesis unfolding from_edge_def by blast
      qed
      show "pushed m S new e" if b: "bit (traversed (graph U) a) b" "\<not> bit (traversed (graph S) a) b"
        "e \<in> set (dependents (graph S) a)" "bit (entry_kinds e) b" for a b e
      proof -
        have a: "a = ?s" "bit (provided_kinds p) b" using b(1,2) ds(2) by (auto simp: gU gt bit_or_iff split: if_splits)
        then have "provided_kinds p AND entry_kinds e \<noteq> 0" using b(4) by (auto simp: and_not_zero)
        then have "pushed m ?T new e" using U(2) b(3) a(1) ds(1) by (simp add: pushes_def)
        then show ?thesis by (simp add: pushed_def)
      qed
      show "\<exists>s b. s \<in> dom (Dependencies (graph S)) \<and> bit (traversed (graph U) s) b \<and> \<not> bit (traversed (graph S) s) b"
      proof -
        from False obtain b where "bit (provided_kinds p) b" "\<not> bit d b" by (auto simp: contains_bits)
        then show ?thesis using dep by (intro exI [of _ ?s] exI [of _ b]) (auto simp: gU gt ds(2) bit_or_iff)
      qed
    qed
    moreover have "contains (traversed (graph U) ?s) (provided_kinds p)" by (simp add: gU gt contains_bits bit_or_iff)
    ultimately show ?thesis by blast
  qed
qed

lemma round_wf: "round m reason S new S' \<Longrightarrow> wf_graph (graph S') = wf_graph (graph S)"
  by (simp add: round_def same_but_def wf_graph_def provided_def)

lemma round_provided: "round m reason S new S' \<Longrightarrow> provided (graph S') = provided (graph S)"
  by (auto simp: round_def same_but_def provided_def fun_eq_iff)

definition all_traversed :: "'n dependency_graph \<Rightarrow> ProvidesEntry list \<Rightarrow> bool" where
  "all_traversed g ps \<longleftrightarrow> (\<forall>p \<in> set ps. provided_name p \<in> dom (Dependencies g) \<longrightarrow>
     contains (traversed g (provided_name p)) (provided_kinds p))"

lemma traversed_more:
  "round m reason S new S' \<Longrightarrow> contains (traversed (graph S) s) k \<Longrightarrow> contains (traversed (graph S') s) k"
  by (auto simp: round_def more_traversed_def contains_bits)

lemma traverse_all_round:
  assumes "wf_graph (graph S)" "set ps \<subseteq> set (provided (graph S) m)"
  shows "\<exists>S' new. traverse_all m reason ps S = Some S' \<and> round m reason S new S' \<and> all_traversed (graph S') ps"
  using assms
proof (induction ps arbitrary: S)
  case Nil
  then show ?case using round_refl [of m reason S] by (auto simp: all_traversed_def)
next
  case (Cons p ps)
  then obtain T new1 where T: "traverse_provided m reason p S = Some T" "round m reason S new1 T"
    "provided_name p \<in> dom (Dependencies (graph S)) \<longrightarrow> contains (traversed (graph T) (provided_name p)) (provided_kinds p)"
    using traverse_round [of S p m reason] by auto
  have "\<exists>U new. traverse_all m reason ps T = Some U \<and> round m reason T new U \<and> all_traversed (graph U) ps"
    using Cons.prems round_wf [OF T(2)] round_provided [OF T(2)] by (intro Cons.IH) auto
  then obtain U new2 where U: "traverse_all m reason ps T = Some U" "round m reason T new2 U" "all_traversed (graph U) ps"
    by blast
  have "dom (Dependencies (graph U)) = dom (Dependencies (graph S))"
    using T(2) U(2) by (simp add: round_def same_but_def)
  with T(3) U(3) traversed_more [OF U(2)] have "all_traversed (graph U) (p # ps)" by (auto simp: all_traversed_def)
  with round_trans [OF T(2) U(2)] T(1) U(1) show ?case by auto
qed

lemma add_dependents_round:
  assumes "wf_graph (graph S)"
  shows "\<exists>S' new. addDependentsToWorklist m reason S = Some S' \<and> round m reason S new S' \<and>
    all_traversed (graph S') (provided (graph S) m)"
proof (cases "Provides (graph S) m")
  case None
  then show ?thesis using round_refl [of m reason S] by (auto simp: addDependentsToWorklist_def provided_def all_traversed_def)
next
  case (Some ps)
  then have "provided (graph S) m = ps" by (simp add: provided_def)
  with traverse_all_round [OF assms, of ps m reason] Some show ?thesis by (simp add: addDependentsToWorklist_def)
qed

section \<open>The invariant of the loop\<close>

text \<open>\<open>G\<close> is the graph before marking from \<open>n0\<close>, \<open>hand\<close> what has been popped but not yet handled, and
  the nodes of \<open>open_nodes\<close> are still to be traversed.\<close>

definition waiting :: "'n dependency_graph \<Rightarrow> 'n \<Rightarrow> bool \<Rightarrow> 'n work \<Rightarrow> bool" where
  "waiting G n0 traced w \<longleftrightarrow> WorkNode w \<notin> Marked G \<and> WorkNode w \<noteq> n0 \<and>
     (\<exists>m \<in> reach G n0. edge G m (WorkNode w) (WorkCascading w)) \<and>
     (traced \<longrightarrow> explains G n0 (Reason w) (WorkNode w) (WorkCascading w))"

definition covered :: "'n dependency_graph \<Rightarrow> 'n work list \<Rightarrow> 'n marking \<Rightarrow> string \<Rightarrow> nat \<Rightarrow> 'n DependencyEntry \<Rightarrow> bool" where
  "covered G hand S s b e \<longleftrightarrow> entry_node e \<in> Marked (graph S) \<or>
     (\<exists>w \<in> set hand \<union> set (worklist S). WorkNode w = entry_node e \<and> WorkCascading w = cascading e) \<or>
     (\<not> cascading e \<and> (entry_node e \<in> visitedSet S \<or> bit (traversed G s) b))"

definition same_data :: "'n dependency_graph \<Rightarrow> 'n dependency_graph \<Rightarrow> bool" where
  "same_data G g \<longleftrightarrow> Provides g = Provides G \<and> dom (Dependencies g) = dom (Dependencies G) \<and> dependents g = dependents G \<and>
     more_traversed G g"

definition report :: "'n dependency_graph \<Rightarrow> 'n \<Rightarrow> 'n list \<Rightarrow> 'n marking \<Rightarrow> bool" where
  "report G n0 vs0 S \<longleftrightarrow> (\<exists>new. visited S = vs0 @ new \<and> distinct new \<and> visitedSet S = set new \<and>
     (\<forall>v \<in> set new. v \<notin> Marked G \<and> v \<noteq> n0 \<and> (\<exists>m \<in> reach G n0. \<exists>c. edge G m v c)) \<and>
     (\<forall>t. marktracer S = Some t \<longrightarrow> (\<forall>v \<in> set new. \<exists>r c. Table t v = Some r \<and> explains G n0 r v c)))"

definition marking_inv :: "'n dependency_graph \<Rightarrow> 'n \<Rightarrow> 'n list \<Rightarrow> 'n set \<Rightarrow> 'n work list \<Rightarrow> 'n marking \<Rightarrow> bool" where
  "marking_inv G n0 vs0 open_nodes hand S \<longleftrightarrow> wf_graph (graph S) \<and> same_data G (graph S) \<and>
     Marked G \<subseteq> Marked (graph S) \<and> n0 \<in> Marked (graph S) \<and> Marked (graph S) \<subseteq> Marked G \<union> reach G n0 \<and>
     (\<forall>w \<in> set hand \<union> set (worklist S). waiting G n0 (marktracer S \<noteq> None) w) \<and>
     (\<forall>m. m \<in> Marked (graph S) - Marked G \<or> m = n0 \<longrightarrow> m \<in> open_nodes \<or> all_traversed (graph S) (provided G m)) \<and>
     (\<forall>s b. b \<noteq> external_bit \<longrightarrow> bit (traversed (graph S) s) b \<longrightarrow> (\<forall>e \<in> set (dependents G s). bit (entry_kinds e) b \<longrightarrow> covered G hand S s b e)) \<and>
     report G n0 vs0 S"

lemma invD:
  assumes "marking_inv G n0 vs0 open_nodes hand S"
  shows "wf_graph (graph S)" "same_data G (graph S)" "report G n0 vs0 S"
    and inv_marks: "Marked G \<subseteq> Marked (graph S)" "n0 \<in> Marked (graph S)" "Marked (graph S) \<subseteq> Marked G \<union> reach G n0"
    and inv_waiting: "w \<in> set hand \<union> set (worklist S) \<Longrightarrow> waiting G n0 (marktracer S \<noteq> None) w"
    and inv_closed: "m \<in> Marked (graph S) - Marked G \<or> m = n0 \<Longrightarrow> m \<in> open_nodes \<or> all_traversed (graph S) (provided G m)"
    and inv_covered: "b \<noteq> external_bit \<Longrightarrow> bit (traversed (graph S) s) b \<Longrightarrow> e \<in> set (dependents G s) \<Longrightarrow> bit (entry_kinds e) b \<Longrightarrow>
      covered G hand S s b e"
  using assms unfolding marking_inv_def by blast+

lemma same_data_edges:
  assumes "same_data G g"
  shows "edge_by g = edge_by G" "provided g = provided G"
proof -
  show p: "provided g = provided G" using assms by (simp add: same_data_def provided_def fun_eq_iff)
  show "edge_by g = edge_by G" unfolding fun_eq_iff edge_by_def p using assms by (simp add: same_data_def)
qed

lemma edge_by_edge: "edge_by G m p e \<Longrightarrow> edge G m (entry_node e) (cascading e)"
  by (auto simp: edge_def)

lemma round_waiting:
  assumes "same_data G (graph S)" "m \<in> reach G n0" "Marked G \<subseteq> Marked (graph S)" "n0 \<in> Marked (graph S)"
    "marktracer S \<noteq> None \<longrightarrow> explains G n0 reason m True" "from_edge m reason S w"
  shows "waiting G n0 (marktracer S \<noteq> None) w"
proof -
  from assms(6) obtain p e where e: "WorkNode w \<notin> Marked (graph S)" "edge_by G m p e" "entry_node e = WorkNode w"
    "cascading e = WorkCascading w" "marktracer S \<noteq> None \<longrightarrow> Reason w = reason @ [\<lparr>trace_node = m, trace_name = provided_name p,
      trace_kinds = provided_kinds p AND entry_kinds e\<rparr>]"
    unfolding from_edge_def same_data_edges [OF assms(1)] by blast
  have "edge G m (WorkNode w) (WorkCascading w)" using edge_by_edge [OF e(2)] e(3,4) by simp
  moreover have "explains G n0 (Reason w) (WorkNode w) (WorkCascading w)" if "marktracer S \<noteq> None"
    using explains_step [OF _ e(2), of n0 reason] assms(5) that e(3-5) by simp
  ultimately show ?thesis using e(1) assms(2-4) unfolding waiting_def by blast
qed

lemma round_same_data: "round m reason S new S' \<Longrightarrow> same_data G (graph S) \<Longrightarrow> same_data G (graph S')"
  by (auto simp: round_def same_but_def same_data_def more_traversed_def)

lemma report_same: "same_but S S' \<Longrightarrow> report G n0 vs0 S = report G n0 vs0 S'"
  by (cases "marktracer S"; cases "marktracer S'") (auto simp: report_def same_but_def)

text \<open>After a round from \<open>m\<close>, and marking it.\<close>

definition finish :: "'n \<Rightarrow> 'n marking \<Rightarrow> 'n marking" where
  "finish m S = S\<lparr>graph := (graph S)\<lparr>Marked := insert m (Marked (graph S))\<rparr>\<rparr>"

lemma finish_simps [simp]:
  "Provides (graph (finish m S)) = Provides (graph S)" "Dependencies (graph (finish m S)) = Dependencies (graph S)"
  "Marked (graph (finish m S)) = insert m (Marked (graph S))" "dependents (graph (finish m S)) = dependents (graph S)"
  "traversed (graph (finish m S)) = traversed (graph S)" "worklist (finish m S) = worklist S" "visited (finish m S) = visited S"
  "visitedSet (finish m S) = visitedSet S" "marktracer (finish m S) = marktracer S"
  "all_traversed (graph (finish m S)) ps = all_traversed (graph S) ps" "provided (graph (finish m S)) = provided (graph S)"
  by (simp_all add: finish_def provided_def dependents_def traversed_def entries_of_def fun_eq_iff all_traversed_def)

lemma inv_round:
  assumes "marking_inv G n0 vs0 O1 hand S" "round m reason S new S'" "all_traversed (graph S') (provided (graph S) m)"
    "m \<in> reach G n0" "m \<in> dom (Provides G)"
    "marktracer S \<noteq> None \<longrightarrow> explains G n0 reason m True" and hand: "O1 \<subseteq> {m}" "\<forall>w \<in> set hand. WorkNode w = m"
  shows "marking_inv G n0 vs0 {} [] (finish m S')"
proof -
  note inv = assms(1)
  have sd: "same_data G (graph S)" and sd': "same_data G (graph S')" using invD(2) [OF inv] round_same_data [OF assms(2)] by blast+
  have sb: "same_but S S'" using assms(2) by (simp add: round_def)
  then have mk: "Marked (graph S') = Marked (graph S)" "visitedSet S' = visitedSet S" by (simp_all add: same_but_def)
  have w: "worklist S' = new @ worklist S" "\<forall>w \<in> set new. from_edge m reason S w" "more_traversed (graph S) (graph S')"
    using assms(2) by (simp_all add: round_def)
  have tr: "marktracer S' \<noteq> None \<longleftrightarrow> marktracer S \<noteq> None" using same_but_tracer [OF sb] by simp
  show ?thesis unfolding marking_inv_def
  proof (intro conjI)
    have "wf_graph (graph S')" using invD(1) [OF inv] round_wf [OF assms(2)] by blast
    then show "wf_graph (graph (finish m S'))" using assms(5) sd' by (simp add: wf_graph_def same_data_def)
    show "same_data G (graph (finish m S'))" using sd' by (simp add: same_data_def more_traversed_def)
    show "Marked G \<subseteq> Marked (graph (finish m S'))" "n0 \<in> Marked (graph (finish m S'))" using inv_marks [OF inv] by (auto simp: mk)
    show "Marked (graph (finish m S')) \<subseteq> Marked G \<union> reach G n0" using inv_marks [OF inv] assms(4) by (auto simp: mk)
    show "\<forall>w \<in> set [] \<union> set (worklist (finish m S')). waiting G n0 (marktracer (finish m S') \<noteq> None) w"
    proof
      fix x assume "x \<in> set [] \<union> set (worklist (finish m S'))"
      then have "x \<in> set new \<or> x \<in> set (worklist S)" by (simp add: w(1))
      then have "waiting G n0 (marktracer S \<noteq> None) x"
        using round_waiting [OF sd assms(4) inv_marks(1,2) [OF inv] assms(6), of x] w(2) inv_waiting [OF inv, of x] by blast
      then show "waiting G n0 (marktracer (finish m S') \<noteq> None) x" by (simp only: tr finish_simps)
    qed
    show "\<forall>k. k \<in> Marked (graph (finish m S')) - Marked G \<or> k = n0 \<longrightarrow> k \<in> {} \<or> all_traversed (graph (finish m S')) (provided G k)"
    proof (intro allI impI disjI2)
      fix k assume k: "k \<in> Marked (graph (finish m S')) - Marked G \<or> k = n0"
      show "all_traversed (graph (finish m S')) (provided G k)"
      proof (cases "k = m")
        case True
        then show ?thesis using assms(3) same_data_edges(2) [OF sd] by simp
      next
        case False
        with k have "k \<in> Marked (graph S) - Marked G \<or> k = n0" by (auto simp: mk)
        with inv_closed [OF inv] False hand(1) have "all_traversed (graph S) (provided G k)" by blast
        then show ?thesis using sb w(3)
          by (auto simp: all_traversed_def same_but_def contains_bits more_traversed_def)
      qed
    qed
    show "\<forall>s b. b \<noteq> external_bit \<longrightarrow> bit (traversed (graph (finish m S')) s) b \<longrightarrow> (\<forall>e \<in> set (dependents G s). bit (entry_kinds e) b \<longrightarrow>
        covered G [] (finish m S') s b e)"
    proof (intro allI impI ballI)
      fix s b e
      assume x: "b \<noteq> external_bit" and b: "bit (traversed (graph (finish m S')) s) b" "e \<in> set (dependents G s)" "bit (entry_kinds e) b"
      have "dependents (graph S) = dependents G" using sd by (simp add: same_data_def)
      show "covered G [] (finish m S') s b e"
      proof (cases "bit (traversed (graph S) s) b")
        case True
        with inv_covered [OF inv x] b have "covered G hand S s b e" by blast
        then show ?thesis using hand(2) unfolding covered_def by (auto simp: mk w(1))
      next
        case False
        with assms(2) b \<open>dependents (graph S) = dependents G\<close> have "pushed m S new e" by (simp add: round_def)
        then show ?thesis unfolding pushed_def covered_def by (auto simp: mk w(1))
      qed
    qed
    have "report G n0 vs0 S'" using invD(3) [OF inv] report_same [OF sb, of G n0 vs0] by blast
    then show "report G n0 vs0 (finish m S')" by (simp add: report_def)
  qed
qed

lemma record_simps [simp]:
  "graph (record_visit w S) = graph S" "worklist (record_visit w S) = worklist S"
  "marktracer (record_visit w S) = None \<longleftrightarrow> marktracer S = None"
  "visitedSet (record_visit w S) = insert (WorkNode w) (visitedSet S)"
  by (auto simp: record_visit_def)

lemma record_report:
  assumes "report G n0 vs0 S" "waiting G n0 (marktracer S \<noteq> None) w"
  shows "report G n0 vs0 (record_visit w S)"
proof (cases "WorkNode w \<in> visitedSet S")
  case True
  then show ?thesis using assms(1) by (simp add: record_visit_def)
next
  case False
  from assms(1) obtain new where new: "visited S = vs0 @ new" "distinct new" "visitedSet S = set new"
    "\<forall>v \<in> set new. v \<notin> Marked G \<and> v \<noteq> n0 \<and> (\<exists>m \<in> reach G n0. \<exists>c. edge G m v c)"
    "\<forall>t. marktracer S = Some t \<longrightarrow> (\<forall>v \<in> set new. \<exists>r c. Table t v = Some r \<and> explains G n0 r v c)"
    unfolding report_def by blast
  have "\<exists>r c. Table t v = Some r \<and> explains G n0 r v c" if "marktracer (record_visit w S) = Some t" "v \<in> set (new @ [WorkNode w])" for t v
    using that new(3,5) assms(2) False unfolding waiting_def
    by (cases "marktracer S") (auto simp: record_visit_def)
  moreover have "visited (record_visit w S) = vs0 @ new @ [WorkNode w]" using False new(1) by (simp add: record_visit_def)
  ultimately show ?thesis using assms(2) new(2-4) False unfolding report_def waiting_def
    by (intro exI [of _ "new @ [WorkNode w]"]) auto
qed

section \<open>Steps of the loop\<close>

definition all_visited :: "'n dependency_graph \<Rightarrow> 'n \<Rightarrow> 'n marking \<Rightarrow> bool" where
  "all_visited G n0 S \<longleftrightarrow> Marked (graph S) \<subseteq> Marked G \<union> {n0} \<union> visitedSet S"

definition untraversed :: "'n dependency_graph \<Rightarrow> (string \<times> nat) set" where
  "untraversed g = {(s, b). s \<in> dom (Dependencies g) \<and> b < 8 \<and> \<not> bit (traversed g s) b}"

definition marking_order :: "('n marking \<times> 'n marking) set" where
  "marking_order = inv_image (less_than <*lex*> less_than) (\<lambda>S. (card (untraversed (graph S)), length (worklist S)))"

lemma wf_marking_order: "wf marking_order"
  unfolding marking_order_def by (intro wf_inv_image wf_lex_prod wf_less_than)

lemma finite_untraversed: "wf_graph g \<Longrightarrow> finite (untraversed g)"
  by (rule finite_subset [of _ "dom (Dependencies g) \<times> {..<8}"]) (auto simp: untraversed_def wf_graph_def)

lemma round_order:
  assumes "wf_graph (graph S)" "round m reason (S\<lparr>worklist := ws\<rparr>) new S'" "worklist S = w # ws"
  shows "(finish m S', S) \<in> marking_order"
proof -
  let ?U = "untraversed (graph S)" and ?V = "untraversed (graph S')"
  have sub: "?V \<subseteq> ?U" using assms(2) by (auto simp: untraversed_def round_def same_but_def more_traversed_def)
  have fin: "finite ?U" using assms(1) by (rule finite_untraversed)
  have f: "untraversed (graph (finish m S')) = ?V" by (simp add: untraversed_def)
  show ?thesis
  proof (cases "new = []")
    case True
    then have "worklist S' = ws" using assms(2) by (simp add: round_def)
    moreover have "card ?V \<le> card ?U" using sub fin by (rule card_mono [rotated])
    ultimately show ?thesis using assms(3) f by (auto simp: marking_order_def)
  next
    case False
    then obtain s b where "s \<in> dom (Dependencies (graph S))" "bit (traversed (graph S') s) b" "\<not> bit (traversed (graph S) s) b"
      using assms(2) by (auto simp: round_def)
    then have "(s, b) \<in> ?U - ?V" using bit_imp_le_length [of "traversed (graph S') s" b] by (auto simp: untraversed_def)
    with sub fin have "card ?V < card ?U" by (intro psubset_card_mono) auto
    then show ?thesis using f by (simp add: marking_order_def)
  qed
qed

lemma record_order: "(record_visit w S, T) \<in> marking_order \<longleftrightarrow> (S, T) \<in> marking_order"
  by (simp add: marking_order_def)

lemma inv_pop:
  assumes "marking_inv G n0 vs0 {} [] S" "worklist S = w # ws"
  shows "marking_inv G n0 vs0 {} [w] (S\<lparr>worklist := ws\<rparr>)"
  using assms unfolding marking_inv_def by (simp add: covered_def report_def)

lemma inv_record:
  assumes "marking_inv G n0 vs0 {} hand S" "waiting G n0 (marktracer S \<noteq> None) w"
  shows "marking_inv G n0 vs0 {} hand (record_visit w S)"
proof -
  have "covered G hand (record_visit w S) s b e" if "covered G hand S s b e" for s b e
    using that by (auto simp: covered_def)
  moreover have "report G n0 vs0 (record_visit w S)" using assms by (intro record_report) (simp_all add: marking_inv_def)
  ultimately show ?thesis using assms(1) unfolding marking_inv_def by simp
qed

text \<open>What has been popped covers nothing that is not marked or visited.\<close>

lemma inv_drop:
  assumes "marking_inv G n0 vs0 {} [w] S" "WorkNode w \<in> Marked (graph S) \<or> \<not> WorkCascading w \<and> WorkNode w \<in> visitedSet S"
  shows "marking_inv G n0 vs0 {} [] S"
proof -
  have "covered G [] S s b e" if "covered G [w] S s b e" for s b e
    using that assms(2) unfolding covered_def by auto
  then show ?thesis using assms(1) unfolding marking_inv_def by auto
qed

lemma waiting_node:
  assumes "waiting G n0 traced w" "wf_graph G"
  shows "WorkNode w \<in> dom (Provides G)" "WorkCascading w \<Longrightarrow> WorkNode w \<in> reach G n0"
proof -
  from assms(1) obtain m where m: "m \<in> reach G n0" "edge G m (WorkNode w) (WorkCascading w)" "WorkNode w \<notin> Marked G"
    by (auto simp: waiting_def)
  then obtain s e where "e \<in> set (dependents G s)" "entry_node e = WorkNode w" by (auto simp: edge_def edge_by_def)
  moreover have "\<forall>e \<in> set (dependents G s). entry_node e \<in> dom (Provides G)" using assms(2) by (simp add: wf_graph_def)
  ultimately show "WorkNode w \<in> dom (Provides G)" by metis
  show "WorkCascading w \<Longrightarrow> WorkNode w \<in> reach G n0" using m by (auto intro: reach_step)
qed

lemma step_inv:
  assumes "marking_inv G n0 vs0 {} [] S" "all_visited G n0 S" "wf_graph G" "worklist S = w # ws"
  shows "\<exists>S'. mark_step w (S\<lparr>worklist := ws\<rparr>) = Some S' \<and> marking_inv G n0 vs0 {} [] S' \<and> all_visited G n0 S' \<and>
    (S', S) \<in> marking_order \<and> (marktracer S' = None \<longleftrightarrow> marktracer S = None)"
proof -
  let ?S = "S\<lparr>worklist := ws\<rparr>"
  have inv: "marking_inv G n0 vs0 {} [w] ?S" by (rule inv_pop [OF assms(1,4)])
  have w: "waiting G n0 (marktracer S \<noteq> None) w" using assms(1,4) by (simp add: marking_inv_def)
  have g: "Provides (graph S) = Provides G" "wf_graph (graph S)" using assms(1) by (simp_all add: marking_inv_def same_data_def)
  have d: "WorkNode w \<in> dom (Provides G)" by (rule waiting_node [OF w assms(3)])
  show ?thesis
  proof (cases "WorkCascading w")
    case False
    let ?T = "if WorkNode w \<in> Marked (graph S) then ?S else record_visit w ?S"
    have "mark_step w ?S = Some ?T" using False d g(1) by (simp add: mark_step_def isMarked_wf)
    moreover have "marking_inv G n0 vs0 {} [] ?T"
    proof (cases "WorkNode w \<in> Marked (graph S)")
      case True
      then show ?thesis using inv_drop [OF inv] by simp
    next
      case False
      from inv_drop [OF inv_record [OF inv]] w \<open>\<not> WorkCascading w\<close> False show ?thesis by simp
    qed
    moreover have "(?S, S) \<in> marking_order" using assms(4) by (simp add: marking_order_def)
    moreover have "all_visited G n0 ?T" using assms(2) by (auto simp: all_visited_def)
    moreover have "marktracer ?T = None \<longleftrightarrow> marktracer S = None" by simp
    moreover have "(?T, S) \<in> marking_order" using calculation(3) record_order [of w ?S S] by simp
    ultimately show ?thesis by (intro exI [of _ ?T] conjI)
  next
    case True
    from add_dependents_round [of ?S "WorkNode w" "Reason w"] g(2) obtain T new where
      T: "addDependentsToWorklist (WorkNode w) (Reason w) ?S = Some T" "round (WorkNode w) (Reason w) ?S new T"
        "all_traversed (graph T) (provided (graph ?S) (WorkNode w))" by auto
    have tr: "marktracer T = None \<longleftrightarrow> marktracer S = None" using same_but_tracer [of ?S T] T(2) by (simp add: round_def)
    have TM: "Marked (graph T) = Marked (graph S)" "visitedSet T = visitedSet S" "Provides (graph T) = Provides G"
      using T(2) g(1) by (simp_all add: round_def same_but_def)
    let ?U = "finish (WorkNode w) T"
    have U: "marking_inv G n0 vs0 {} [] ?U"
      by (rule inv_round [OF inv T(2,3) waiting_node(2) [OF w assms(3) True] d])
        (use w True in \<open>auto simp: waiting_def\<close>)
    let ?V = "if WorkNode w \<notin> Marked (graph S) then record_visit w ?U else ?U"
    have "mark_step w ?S = Some ?V" using True T(1) d TM by (simp add: mark_step_def markIntransitive_wf finish_def Let_def)
    moreover have "waiting G n0 (marktracer ?U \<noteq> None) w" using w tr by simp
    with inv_record [OF U] U have "marking_inv G n0 vs0 {} [] ?V" by simp
    moreover have "all_visited G n0 ?V" using assms(2) by (auto simp: all_visited_def TM)
    moreover have "(?V, S) \<in> marking_order"
      using round_order [OF g(2) T(2) assms(4)] record_order [of w ?U S] by simp
    moreover have "marktracer ?V = None \<longleftrightarrow> marktracer S = None" using tr by simp
    ultimately show ?thesis by (intro exI [of _ ?V] conjI)
  qed
qed

lemma loop_inv:
  assumes "marking_inv G n0 vs0 {} [] S" "all_visited G n0 S" "wf_graph G"
  shows "\<exists>S'. mark_loop S = Some S' \<and> marking_inv G n0 vs0 {} [] S' \<and> all_visited G n0 S' \<and> worklist S' = [] \<and>
    (marktracer S' = None \<longleftrightarrow> marktracer S = None)"
  using wf_marking_order assms(1,2)
proof (induction S rule: wf_induct_rule)
  case (less S)
  show ?case
  proof (cases "worklist S")
    case Nil
    then show ?thesis using less.prems by (subst mark_loop.simps) simp
  next
    case (Cons w ws)
    obtain T where
      T: "mark_step w (S\<lparr>worklist := ws\<rparr>) = Some T" "marking_inv G n0 vs0 {} [] T" "all_visited G n0 T" "(T, S) \<in> marking_order"
      "marktracer T = None \<longleftrightarrow> marktracer S = None"
      using step_inv [OF less.prems assms(3) Cons] by (elim exE conjE) (rule that; assumption)
    obtain U where
      U: "mark_loop T = Some U" "marking_inv G n0 vs0 {} [] U" "all_visited G n0 U" "worklist U = []"
      "marktracer U = None \<longleftrightarrow> marktracer T = None"
      using less.IH [OF T(4,2,3)] by (elim exE conjE) (rule that; assumption)
    have "mark_loop S = Some U" using T(1) U(1) Cons by (subst mark_loop.simps) simp
    with U T(5) show ?thesis by (intro exI [of _ U]) simp
  qed
qed

section \<open>Marking from a node\<close>

lemma start_inv:
  assumes "wf_graph G" "consistent_but n0 G" "n0 \<in> dom (Provides G)"
  shows "marking_inv G n0 vs0 {n0} [] (start_marking vs0 t (G\<lparr>Marked := insert n0 (Marked G)\<rparr>))"
proof -
  let ?g = "G\<lparr>Marked := insert n0 (Marked G)\<rparr>"
  have g: "dependents ?g = dependents G" "traversed ?g = traversed G"
    by (simp_all add: dependents_def traversed_def entries_of_def fun_eq_iff)
  have p: "provided ?g = provided G" by (simp add: provided_def fun_eq_iff)
  have "same_data G ?g" by (simp add: same_data_def g more_traversed_def)
  moreover have "wf_graph ?g" using assms(1,3) by (simp add: wf_graph_def g p)
  moreover have "covered G [] (start_marking vs0 t ?g) s b e"
    if "b \<noteq> external_bit" "bit (traversed G s) b" "e \<in> set (dependents G s)" "bit (entry_kinds e) b" for s b e
    using assms(2) that by (auto simp: covered_def consistent_but_def start_marking_def)
  moreover have "report G n0 vs0 (start_marking vs0 t ?g)" by (simp add: report_def start_marking_def)
  ultimately show ?thesis unfolding marking_inv_def by (auto simp: start_marking_def g reach_start)
qed

lemma mark_transitive_total:
  assumes "wf_graph G" "consistent_but n0 G" "n0 \<in> dom (Provides G)"
  shows "\<exists>S. markTransitive vs0 n0 t G = Some (visited S, marktracer S, graph S) \<and> marking_inv G n0 vs0 {} [] S \<and>
    all_visited G n0 S \<and> worklist S = [] \<and> (marktracer S = None \<longleftrightarrow> t = None)"
proof -
  let ?S = "start_marking vs0 t (G\<lparr>Marked := insert n0 (Marked G)\<rparr>)"
  note inv = start_inv [OF assms, of vs0 t]
  then have wf: "wf_graph (graph ?S)" by (simp add: marking_inv_def)
  from add_dependents_round [OF wf, of n0 "[]"] obtain T new where
    T: "addDependentsToWorklist n0 [] ?S = Some T" "round n0 [] ?S new T" "all_traversed (graph T) (provided (graph ?S) n0)" by blast
  have TM: "Marked (graph T) = insert n0 (Marked G)" "visitedSet T = {}" "marktracer T = None \<longleftrightarrow> t = None"
    using T(2) same_but_tracer [of ?S T] by (simp_all add: round_def same_but_def start_marking_def)
  then have f: "finish n0 T = T" by (simp add: finish_def)
  have "marking_inv G n0 vs0 {} [] (finish n0 T)"
    by (rule inv_round [OF inv T(2,3) reach_start assms(3)]) (auto intro: explains_start)
  moreover have "all_visited G n0 T" by (simp add: all_visited_def TM)
  ultimately obtain S where S: "mark_loop T = Some S" "marking_inv G n0 vs0 {} [] S" "all_visited G n0 S" "worklist S = []"
    "marktracer S = None \<longleftrightarrow> t = None" using loop_inv [of G n0 vs0 T] assms(1) f TM(3) by auto
  then show ?thesis using T(1) assms(3) by (intro exI [of _ S]) (simp add: markTransitive_def markIntransitive_wf)
qed

lemma inv_marked:
  assumes "marking_inv G n0 vs0 {} [] S" "worklist S = []" "wf_graph G"
  shows "Marked (graph S) = Marked G \<union> reach G n0" "consistent (graph S)"
proof -
  note inv = assms(1)
  have d: "dependents (graph S) = dependents G" "dom (Dependencies (graph S)) = dom (Dependencies G)"
    using invD(2) [OF inv] by (simp_all add: same_data_def)
  have c: "entry_node e \<in> Marked (graph S)"
    if "b \<noteq> external_bit" "bit (traversed (graph S) s) b" "e \<in> set (dependents G s)" "bit (entry_kinds e) b" "cascading e" for s b e
  proof -
    from inv_covered [OF inv] that have "covered G [] S s b e" by blast
    then show ?thesis using that(5) assms(2) by (simp add: covered_def)
  qed
  then show "consistent (graph S)" by (simp add: consistent_def d)
  have "n \<in> Marked (graph S) \<and> (n \<in> Marked G \<longrightarrow> n = n0)" if "n \<in> reach G n0" for n
    using that
  proof induction
    case reach_start
    then show ?case using inv_marks [OF inv] by blast
  next
    case (reach_step m n)
    then have "all_traversed (graph S) (provided G m)" using inv_closed [OF inv, of m] by blast
    moreover from reach_step.hyps(2) obtain p e where e: "p \<in> set (provided G m)" "e \<in> set (dependents G (provided_name p))"
      "provided_kinds p AND entry_kinds e \<noteq> 0" "entry_node e = n" "cascading e" by (auto simp: edge_def edge_by_def)
    moreover have "provided_name p \<in> dom (Dependencies G)"
      using e(2) by (auto simp: dependents_def entries_of_def split: option.splits)
    moreover obtain b where "bit (provided_kinds p) b" "bit (entry_kinds e) b" using e(3) by (auto simp: and_not_zero)
    ultimately have "bit (traversed (graph S) (provided_name p)) b" by (simp add: all_traversed_def d contains_bits)
    moreover have "b \<noteq> external_bit" using wf_provided [OF assms(3) e(1)] \<open>bit (provided_kinds p) b\<close> by metis
    ultimately show ?case using c [OF _ _ e(2) \<open>bit (entry_kinds e) b\<close> e(5)] e(4) reach_step.hyps(3) by simp
  qed
  then show "Marked (graph S) = Marked G \<union> reach G n0" using inv_marks [OF inv] by blast
qed

text \<open>The last edge to a node that need not be marked was reported, unless it had been traversed before.\<close>

lemma inv_visited:
  assumes "marking_inv G n0 vs0 {} [] S" "worklist S = []" "all_visited G n0 S" "m \<in> reach G n0" "edge_by G m p e"
    "entry_node e \<notin> Marked G" "entry_node e \<noteq> n0" and wf: "wf_graph G" and fresh: "\<forall>b. bit (entry_kinds e) b \<longrightarrow> \<not> bit (traversed G (provided_name p)) b"
  shows "entry_node e \<in> visitedSet S"
proof -
  note inv = assms(1)
  have "m \<in> Marked (graph S)" using inv_marked [OF assms(1,2) wf] assms(4) by simp
  moreover have "m \<in> Marked G \<Longrightarrow> m = n0" using assms(4) by cases auto
  ultimately have "all_traversed (graph S) (provided G m)" using inv_closed [OF inv, of m] by blast
  moreover have e: "p \<in> set (provided G m)" "e \<in> set (dependents G (provided_name p))" "provided_kinds p AND entry_kinds e \<noteq> 0"
    using assms(5) by (auto simp: edge_by_def)
  moreover have "provided_name p \<in> dom (Dependencies G)"
    using e(2) by (auto simp: dependents_def entries_of_def split: option.splits)
  moreover have "dom (Dependencies (graph S)) = dom (Dependencies G)" using invD(2) [OF inv] by (simp add: same_data_def)
  moreover obtain b where b: "bit (provided_kinds p) b" "bit (entry_kinds e) b" using e(3) by (auto simp: and_not_zero)
  ultimately have "bit (traversed (graph S) (provided_name p)) b" by (simp add: all_traversed_def contains_bits)
  moreover have "b \<noteq> external_bit" using wf_provided [OF wf e(1)] b(1) by metis
  ultimately have "covered G [] S (provided_name p) b e" using inv_covered [OF inv] e(2) b(2) by blast
  then show ?thesis using assms(2,3,6,7) fresh b(2) unfolding covered_def all_visited_def by auto
qed

section \<open>What marking returns\<close>

lemma mark_transitive_marks:
  assumes "wf_graph g" "consistent_but n g" "n \<in> dom (Provides g)"
  shows "\<exists>new t' g'. markTransitive vs n t g = Some (vs @ new, t', g') \<and> wf_graph g' \<and> consistent g' \<and>
    Provides g' = Provides g \<and> dependents g' = dependents g \<and> Marked g' = Marked g \<union> reach g n \<and>
    distinct new \<and> reach g n - Marked g - {n} \<subseteq> set new \<and>
    (\<forall>v \<in> set new. v \<notin> Marked g \<and> v \<noteq> n \<and> (\<exists>m \<in> reach g n. \<exists>c. edge g m v c)) \<and>
    (\<forall>m p e. m \<in> reach g n \<longrightarrow> edge_by g m p e \<longrightarrow> entry_node e \<notin> Marked g \<longrightarrow> entry_node e \<noteq> n \<longrightarrow>
       entry_kinds e AND traversed g (provided_name p) = 0 \<longrightarrow> entry_node e \<in> set new) \<and>
    (t' = None \<longleftrightarrow> t = None) \<and>
    (\<forall>u. t' = Some u \<longrightarrow> (\<forall>v \<in> set new. \<exists>r c. Table u v = Some r \<and> explains g n r v c))"
proof -
  obtain S where S: "markTransitive vs n t g = Some (visited S, marktracer S, graph S)" "marking_inv g n vs {} [] S"
    "all_visited g n S" "worklist S = []" "marktracer S = None \<longleftrightarrow> t = None"
    using mark_transitive_total [OF assms, of vs t] by (elim exE conjE) (rule that; assumption)
  from invD(3) [OF S(2)] obtain new where new: "visited S = vs @ new" "distinct new" "visitedSet S = set new"
    "\<forall>v \<in> set new. v \<notin> Marked g \<and> v \<noteq> n \<and> (\<exists>m \<in> reach g n. \<exists>c. edge g m v c)"
    "\<forall>u. marktracer S = Some u \<longrightarrow> (\<forall>v \<in> set new. \<exists>r c. Table u v = Some r \<and> explains g n r v c)"
    unfolding report_def by (elim exE conjE) (rule that; assumption)
  have last: "entry_node e \<in> set new" if "m \<in> reach g n" "edge_by g m p e" "entry_node e \<notin> Marked g" "entry_node e \<noteq> n"
    "entry_kinds e AND traversed g (provided_name p) = 0" for m p e
  proof -
    have "\<forall>b. bit (entry_kinds e) b \<longrightarrow> \<not> bit (traversed g (provided_name p)) b"
      using that(5) and_not_zero [of "entry_kinds e" "traversed g (provided_name p)"] by blast
    from inv_visited [OF S(2,4,3) that(1-4) assms(1) this] new(3) show ?thesis by simp
  qed
  show ?thesis
  proof (intro exI conjI)
    show "markTransitive vs n t g = Some (vs @ new, marktracer S, graph S)" using S(1) new(1) by simp
    show "wf_graph (graph S)" "Provides (graph S) = Provides g" "dependents (graph S) = dependents g"
      using invD(1,2) [OF S(2)] by (simp_all add: same_data_def)
    show "consistent (graph S)" "Marked (graph S) = Marked g \<union> reach g n" using inv_marked [OF S(2,4) assms(1)] by blast+
    show "reach g n - Marked g - {n} \<subseteq> set new"
      using inv_marked(1) [OF S(2,4) assms(1)] S(3) new(3) unfolding all_visited_def by blast
    show "\<forall>m p e. m \<in> reach g n \<longrightarrow> edge_by g m p e \<longrightarrow> entry_node e \<notin> Marked g \<longrightarrow> entry_node e \<noteq> n \<longrightarrow>
       entry_kinds e AND traversed g (provided_name p) = 0 \<longrightarrow> entry_node e \<in> set new"
      using last by blast
  qed (fact new(2) new(4) new(5) S(5))+
qed

end
