(* ===== verification/Dependency_Loading.thy ===== *)
theory Dependency_Loading
  imports Dependency_Marking
begin

text \<open>
  What loading a dependency file keeps, loads that need no marking, marking in untouched graphs, and
  marking through external dependencies.
\<close>

section \<open>Properties that the callbacks keep\<close>

lemma sticky: "load_loop f xs AffectsDownstream g = Some (r, g') \<Longrightarrow> r \<noteq> UpToDate"
proof (induction xs arbitrary: g)
  case (Cons x xs)
  then obtain u h where "f x g = Some (u, h)" by (auto simp: bind_eq_Some_iff)
  with Cons show ?case by (cases u) auto
qed simp

text \<open>What holds of a graph and is kept by the three callbacks is kept by the whole parse. With \<open>clean\<close>,
  the callbacks keep it only when they answer \<open>UpToDate\<close>, and so does the parse.\<close>

locale callbacks_keep =
  fixes clean :: bool and n :: 'n and P :: "'n dependency_graph \<Rightarrow> bool"
  assumes depends_keep: "dependsCallback n s kind c g = Some (r, g') \<Longrightarrow> clean \<longrightarrow> r = UpToDate \<Longrightarrow> P g \<Longrightarrow> P g'"
    and provides_keep: "providesCallback n s kind c g = Some (r, g') \<Longrightarrow> kind \<noteq> ExternalFile \<Longrightarrow> P g \<Longrightarrow> P g'"
    and hash_keep: "interfaceHashCallback n s g = Some (r, g') \<Longrightarrow> P g \<Longrightarrow> P g'"
begin

lemma loop_keeps:
  assumes "\<And>x g r g'. f x g = Some (r, g') \<Longrightarrow> clean \<longrightarrow> r = UpToDate \<Longrightarrow> P g \<Longrightarrow> P g'" "load_loop f xs result g = Some (r, g')"
    "clean \<longrightarrow> r = UpToDate" "P g"
  shows "P g' \<and> (clean \<longrightarrow> result = UpToDate)"
  using assms(2,4)
proof (induction xs arbitrary: result g)
  case (Cons x xs)
  from Cons.prems(1) obtain u h where u: "f x g = Some (u, h)" by (auto simp: bind_eq_Some_iff)
  show ?case
  proof (cases u)
    case HadError
    with Cons.prems u assms(1) [OF u] assms(3) show ?thesis by auto
  next
    case UpToDate
    with Cons.prems u have "load_loop f xs result h = Some (r, g')" by simp
    with Cons.IH assms(1) [OF u] UpToDate Cons.prems(2) show ?thesis by blast
  next
    case AffectsDownstream
    with Cons.prems u have l: "load_loop f xs AffectsDownstream h = Some (r, g')" by simp
    show ?thesis
    proof (cases clean)
      case True
      have "r \<noteq> UpToDate" using l by (rule sticky)
      with True assms(3) show ?thesis by simp
    next
      case False
      with Cons.IH [OF l] assms(1) [OF u] Cons.prems(2) show ?thesis by blast
    qed
  qed
qed (use assms(3) in auto)

lemma member_keeps:
  assumes "\<And>s g r g'. callback s NominalTypeMember c g = Some (r, g') \<Longrightarrow> clean \<longrightarrow> r = UpToDate \<Longrightarrow> P g \<Longrightarrow> P g'"
    "c = isCascading rawEntry" "load_member callback rawEntry g = Some (r, g')" "clean \<longrightarrow> r = UpToDate" "P g"
  shows "P g'"
  using assms(2-5) assms(1) [of _ g r g']
  by (auto simp: load_member_def bind_eq_Some_iff split: yaml.splits list.splits)

lemma scalar_keeps:
  assumes "\<And>s c g r g'. callback s kind c g = Some (r, g') \<Longrightarrow> clean \<longrightarrow> r = UpToDate \<Longrightarrow> P g \<Longrightarrow> P g'"
    "load_scalar kind callback rawEntry g = Some (r, g')" "clean \<longrightarrow> r = UpToDate" "P g"
  shows "P g'"
  using assms by (auto simp: load_scalar_def split: yaml.splits)

lemma callback_keeps:
  assumes "dependency_key k = Some (kind, d)" "(if d then dependsCallback n else providesCallback n) s kind c g = Some (r, g')"
    "clean \<longrightarrow> r = UpToDate" "P g"
  shows "P g'"
proof (cases d)
  case True
  with assms show ?thesis by (auto intro: depends_keep)
next
  case False
  with assms(1) have "kind \<noteq> ExternalFile" by (auto simp: dependency_key_def split: if_splits)
  with False assms show ?thesis by (auto intro: provides_keep)
qed

lemma key_keeps:
  assumes "load_key n kv g = Some (r, g')" "clean \<longrightarrow> r = UpToDate" "P g"
  shows "P g'"
proof -
  obtain key v where kv: "kv = (key, v)" by (cases kv)
  consider "g' = g" | s where "interfaceHashCallback n s g = Some (r, g')"
    | s kind d es where "dependency_key s = Some (kind, d)"
        "(if kind = NominalTypeMember then load_loop (load_member (if d then dependsCallback n else providesCallback n)) es UpToDate g
          else load_loop (load_scalar kind (if d then dependsCallback n else providesCallback n)) es UpToDate g) = Some (r, g')"
    using assms(1) unfolding load_key_def kv Let_def
    by (auto split: yaml.splits if_splits option.splits prod.splits)
  then show ?thesis
  proof cases
    case 1
    with assms(3) show ?thesis by simp
  next
    case 2
    then show ?thesis using assms(3) by (rule hash_keep)
  next
    case (3 s kind d es)
    let ?cb = "if d then dependsCallback n else providesCallback n"
    have cb: "?cb s' kind c h = Some (u, h') \<Longrightarrow> clean \<longrightarrow> u = UpToDate \<Longrightarrow> P h \<Longrightarrow> P h'" for s' c h u h'
      using callback_keeps [OF 3(1)] .
    show ?thesis
    proof (cases "kind = NominalTypeMember")
      case True
      have "load_member ?cb x h = Some (u, h') \<Longrightarrow> clean \<longrightarrow> u = UpToDate \<Longrightarrow> P h \<Longrightarrow> P h'" for x h u h'
        using member_keeps [of ?cb "isCascading x" x h u h'] cb True by blast
      moreover have "load_loop (load_member ?cb) es UpToDate g = Some (r, g')" using 3(2) True by simp
      ultimately show ?thesis using loop_keeps [of "load_member ?cb" es UpToDate g r g'] assms(2,3) by blast
    next
      case False
      have "load_scalar kind ?cb x h = Some (u, h') \<Longrightarrow> clean \<longrightarrow> u = UpToDate \<Longrightarrow> P h \<Longrightarrow> P h'" for x h u h'
        using scalar_keeps [of ?cb kind x h u h'] cb by blast
      moreover have "load_loop (load_scalar kind ?cb) es UpToDate g = Some (r, g')" using 3(2) False by simp
      ultimately show ?thesis using loop_keeps [of "load_scalar kind ?cb" es UpToDate g r g'] assms(2,3) by blast
    qed
  qed
qed

lemma parse_keeps:
  assumes "parseDependencyFile n root g = Some (r, g')" "clean \<longrightarrow> r = UpToDate" "P g"
  shows "P g'"
  using assms loop_keeps [of "load_key n" _ UpToDate g r g'] key_keeps
  by (auto simp: parseDependencyFile_def split: option.splits yaml.splits)

end

section \<open>The effect of the callbacks\<close>

definition touch :: "'n \<Rightarrow> 'n dependency_graph \<Rightarrow> 'n dependency_graph" where
  "touch n g = g\<lparr>Provides := (Provides g)(n \<mapsto> provided g n)\<rparr>"

lemma loadFromBuffer_touch: "loadFromBuffer n root g = parseDependencyFile n root (touch n g)"
  by (simp add: loadFromBuffer_def touch_def provided_def)

lemma touch_simps [simp]:
  "Dependencies (touch n g) = Dependencies g" "Marked (touch n g) = Marked g" "provided (touch n g) = provided g"
  "dependents (touch n g) = dependents g" "traversed (touch n g) = traversed g" "dom (Provides (touch n g)) = insert n (dom (Provides g))"
  by (auto simp: touch_def provided_def dependents_def traversed_def entries_of_def fun_eq_iff)

lemma add_dependent_set: "e \<in> set (add_dependent n kind c es) \<Longrightarrow> entry_node e = n \<or> e \<in> set es"
  by (induction es) (auto split: if_splits)

lemma depends_effect:
  assumes "dependsCallback n s kind c g = Some (r, g')"
  shows "Provides g' = Provides g" "Marked g' = Marked g" "traversed g' = traversed g" "dom (Dependencies g') = insert s (dom (Dependencies g))"
    "dependents g' = (dependents g)(s := add_dependent n kind c (dependents g s))"
proof -
  obtain es k where es: "entries_of g s = (es, k)" by (cases "entries_of g s")
  show "Provides g' = Provides g" "Marked g' = Marked g" "dom (Dependencies g') = insert s (dom (Dependencies g))"
    using assms by (auto simp: dependsCallback_def es)
  have "Dependencies g' = (Dependencies g)(s \<mapsto> (add_dependent n kind c es, k))"
    using assms by (auto simp: dependsCallback_def es)
  then have "entries_of g' = (entries_of g)(s := (add_dependent n kind c es, k))"
    by (simp add: entries_of_def fun_eq_iff)
  then show "traversed g' = traversed g" "dependents g' = (dependents g)(s := add_dependent n kind c (dependents g s))"
    by (auto simp: traversed_def dependents_def fun_eq_iff es)
qed

lemma provides_effect:
  assumes "providesCallback n s kind c g = Some (r, g')"
  shows "dom (Provides g') = dom (Provides g)" "Marked g' = Marked g" "Dependencies g' = Dependencies g"
    "provided g' = (provided g)(n := add_provided s kind (provided g n))"
proof -
  obtain ps where ps: "Provides g n = Some ps" "g' = g\<lparr>Provides := (Provides g)(n \<mapsto> add_provided s kind ps)\<rparr>"
    using assms by (auto simp: providesCallback_def bind_eq_Some_iff)
  then show "dom (Provides g') = dom (Provides g)" "Marked g' = Marked g" "Dependencies g' = Dependencies g"
    "provided g' = (provided g)(n := add_provided s kind (provided g n))"
    by (auto simp: provided_def fun_eq_iff)
qed

lemma hash_effect:
  assumes "interfaceHashCallback n s g = Some (r, g')"
  shows "Provides g' = Provides g" "Marked g' = Marked g" "Dependencies g' = Dependencies g"
  using assms by (auto simp: interfaceHashCallback_def split: option.splits if_splits)

lemma same_dependencies:
  "Dependencies g' = Dependencies g \<Longrightarrow> dependents g' = dependents g \<and> traversed g' = traversed g"
  by (simp add: dependents_def traversed_def entries_of_def fun_eq_iff)

lemma same_provides: "Provides g' = Provides g \<Longrightarrow> provided g' = provided g"
  by (simp add: provided_def fun_eq_iff)

lemma add_provided_kinds:
  "kind \<noteq> ExternalFile \<Longrightarrow> \<forall>p \<in> set ps. \<not> bit (provided_kinds p) external_bit \<Longrightarrow>
   \<forall>p \<in> set (add_provided s kind ps). \<not> bit (provided_kinds p) external_bit"
  by (induction ps) (cases kind; auto simp: bit_or_iff split: if_splits)+

definition keeps_provided :: "ProvidesEntry list \<Rightarrow> ProvidesEntry list \<Rightarrow> bool" where
  "keeps_provided ps qs \<longleftrightarrow> (\<forall>p \<in> set ps. \<exists>q \<in> set qs. provided_name q = provided_name p \<and> contains (provided_kinds q) (provided_kinds p))"

lemma contains_refl [simp]: "contains k k"
  by (simp add: contains_def)

lemma contains_or: "contains k l \<Longrightarrow> contains (k OR m) l"
  by (auto simp: contains_bits bit_or_iff)

lemma keeps_add: "keeps_provided ps qs \<Longrightarrow> keeps_provided ps (add_provided s kind qs)"
proof -
  have "\<exists>r \<in> set (add_provided s kind qs). provided_name r = provided_name q \<and> contains (provided_kinds r) k"
    if "q \<in> set qs" "contains (provided_kinds q) k" for q k
    using that by (induction qs) (auto simp: contains_or)
  then show "keeps_provided ps qs \<Longrightarrow> ?thesis" unfolding keeps_provided_def by metis
qed

section \<open>What loading keeps\<close>

interpretation wf_kept: callbacks_keep False n "\<lambda>g. wf_graph g \<and> n \<in> dom (Provides g)" for n
proof
  show "wf_graph g' \<and> n \<in> dom (Provides g')"
    if "dependsCallback n s kind c g = Some (r, g')" "wf_graph g \<and> n \<in> dom (Provides g)" for s kind c g r g'
    using that(2) depends_effect [OF that(1)] same_provides [of g' g]
    by (auto simp: wf_graph_def dest!: add_dependent_set)
  show "wf_graph g' \<and> n \<in> dom (Provides g')"
    if "providesCallback n s kind c g = Some (r, g')" "kind \<noteq> ExternalFile" "wf_graph g \<and> n \<in> dom (Provides g)" for s kind c g r g'
    using that(3) provides_effect [OF that(1)] same_dependencies [of g' g] add_provided_kinds [OF that(2), of "provided g n" s]
    by (simp add: wf_graph_def)
  show "wf_graph g' \<and> n \<in> dom (Provides g')"
    if "interfaceHashCallback n s g = Some (r, g')" "wf_graph g \<and> n \<in> dom (Provides g)" for s g r g'
    using that(2) hash_effect [OF that(1)] same_dependencies [of g' g] same_provides [of g' g] by (simp add: wf_graph_def)
qed

interpretation consistent_kept: callbacks_keep False n "consistent_but n" for n
proof
  show "consistent_but n g'" if "dependsCallback n s kind c g = Some (r, g')" "consistent_but n g" for s kind c g r g'
    using that(2) depends_effect [OF that(1)] unfolding consistent_but_def by (auto dest!: add_dependent_set)
  show "consistent_but n g'" if "providesCallback n s kind c g = Some (r, g')" "kind \<noteq> ExternalFile" "consistent_but n g" for s kind c g r g'
    using that(3) provides_effect [OF that(1)] same_dependencies [of g' g] by (simp add: consistent_but_def)
  show "consistent_but n g'" if "interfaceHashCallback n s g = Some (r, g')" "consistent_but n g" for s g r g'
    using that(2) hash_effect [OF that(1)] same_dependencies [of g' g] by (simp add: consistent_but_def)
qed

interpretation marks_kept: callbacks_keep False n "\<lambda>g. Marked g = M \<and> traversed g = T" for n M T
proof
  show "Marked g' = M \<and> traversed g' = T"
    if "dependsCallback n s kind c g = Some (r, g')" "Marked g = M \<and> traversed g = T" for s kind c g r g'
    using that(2) depends_effect [OF that(1)] by simp
  show "Marked g' = M \<and> traversed g' = T"
    if "providesCallback n s kind c g = Some (r, g')" "kind \<noteq> ExternalFile" "Marked g = M \<and> traversed g = T" for s kind c g r g'
    using that(3) provides_effect [OF that(1)] same_dependencies [of g' g] by simp
  show "Marked g' = M \<and> traversed g' = T"
    if "interfaceHashCallback n s g = Some (r, g')" "Marked g = M \<and> traversed g = T" for s g r g'
    using that(2) hash_effect [OF that(1)] same_dependencies [of g' g] by simp
qed

interpretation provides_kept: callbacks_keep False n "\<lambda>g. \<forall>m. keeps_provided (provided g0 m) (provided g m)" for n g0
proof
  show "\<forall>m. keeps_provided (provided g0 m) (provided g' m)"
    if "dependsCallback n s kind c g = Some (r, g')" "\<forall>m. keeps_provided (provided g0 m) (provided g m)" for s kind c g r g'
    using that(2) same_provides [OF depends_effect(1) [OF that(1)]] by simp
  show "\<forall>m. keeps_provided (provided g0 m) (provided g' m)"
    if "providesCallback n s kind c g = Some (r, g')" "kind \<noteq> ExternalFile" "\<forall>m. keeps_provided (provided g0 m) (provided g m)" for s kind c g r g'
    using that(3) provides_effect(4) [OF that(1)] keeps_add by simp
  show "\<forall>m. keeps_provided (provided g0 m) (provided g' m)"
    if "interfaceHashCallback n s g = Some (r, g')" "\<forall>m. keeps_provided (provided g0 m) (provided g m)" for s g r g'
    using that(2) same_provides [OF hash_effect(1) [OF that(1)]] by simp
qed

lemma load_keeps:
  assumes "loadFromBuffer n root g = Some (r, g')"
  shows "wf_graph g \<Longrightarrow> wf_graph g' \<and> n \<in> dom (Provides g')" "consistent_but n g \<Longrightarrow> consistent_but n g'"
    "Marked g' = Marked g" "traversed g' = traversed g" "keeps_provided (provided g m) (provided g' m)"
proof -
  note l = assms [unfolded loadFromBuffer_touch]
  have "wf_graph g \<Longrightarrow> wf_graph (touch n g)" by (auto simp: wf_graph_def)
  with wf_kept.parse_keeps [OF l] show "wf_graph g \<Longrightarrow> wf_graph g' \<and> n \<in> dom (Provides g')" by simp
  have "consistent_but n g \<Longrightarrow> consistent_but n (touch n g)" by (simp add: consistent_but_def)
  with consistent_kept.parse_keeps [OF l] show "consistent_but n g \<Longrightarrow> consistent_but n g'" by simp
  show "Marked g' = Marked g" "traversed g' = traversed g"
    using marks_kept.parse_keeps [OF l, of "Marked g" "traversed g"] by simp_all
  have "keeps_provided (provided g m) (provided (touch n g) m)" for m by (auto simp: keeps_provided_def)
  with provides_kept.parse_keeps [OF l, of g] show "keeps_provided (provided g m) (provided g' m)" by simp
qed

section \<open>Loads that are up to date\<close>

text \<open>A node that is not marked, and whose file adds no cascading dependency on a traversed name, can be left
  unmarked, if it uses every name in one kind only: an entry joins all kinds of a node's uses of a name.\<close>

definition single_kind :: "'n \<Rightarrow> 'n dependency_graph \<Rightarrow> bool" where
  "single_kind n g \<longleftrightarrow> (\<forall>s. \<forall>e \<in> set (dependents g s). entry_node e = n \<longrightarrow> (\<exists>kind. entry_kinds e = kind_bit kind))"

definition entries_used :: "'n dependency_graph \<Rightarrow> bool" where
  "entries_used g \<longleftrightarrow> (\<forall>s. \<forall>e \<in> set (dependents g s). \<exists>b. bit (entry_kinds e) b)"

text \<open>An entry that cascades on a traversed kind has another kind.\<close>

definition joined_only :: "kinds \<Rightarrow> 'n DependencyEntry \<Rightarrow> bool" where
  "joined_only T e \<longleftrightarrow> (cascading e \<longrightarrow> (\<forall>b. bit T b \<longrightarrow> bit (entry_kinds e) b \<longrightarrow> b \<noteq> external_bit \<longrightarrow>
     (\<exists>b'. b' \<noteq> b \<and> bit (entry_kinds e) b')))"

definition traversed_joined :: "'n \<Rightarrow> 'n dependency_graph \<Rightarrow> bool" where
  "traversed_joined n g \<longleftrightarrow> entries_used g \<and>
     (\<forall>s. \<forall>e \<in> set (dependents g s). entry_node e = n \<longrightarrow> joined_only (traversed g s) e)"

primrec kind_index :: "DependencyKind \<Rightarrow> nat" where
  "kind_index TopLevelName = 0"
| "kind_index DynamicLookupName = 1"
| "kind_index NominalType = 2"
| "kind_index NominalTypeMember = 3"
| "kind_index ExternalFile = 4"

lemma bit_kind: "bit (kind_bit kind) b \<longleftrightarrow> b = kind_index kind"
proof -
  have "kind_bit kind = 2 ^ kind_index kind" "kind_index kind < 8" by (cases kind; simp)+
  then show ?thesis by (auto simp: bit_exp_iff)
qed

lemma cascading_joined: "cascading (e\<lparr>entry_kinds := k, entry_flags := entry_flags e OR entry_flag c\<rparr>) \<longleftrightarrow> cascading e \<or> c"
  by (auto simp: cascading_def entry_flag_def IsCascading_def word_ao_dist)

lemma joined_add:
  assumes "\<not> (c \<and> T AND kind_bit kind \<noteq> 0)" "\<forall>e \<in> set es. \<exists>b. bit (entry_kinds e) b" "\<forall>e \<in> set es. entry_node e = n \<longrightarrow> joined_only T e"
    "e \<in> set (add_dependent n kind c es)"
  shows "(\<exists>b. bit (entry_kinds e) b) \<and> (entry_node e = n \<longrightarrow> joined_only T e)"
  using assms(2-4)
proof (induction es)
  case Nil
  have "\<not> (c \<and> bit T (kind_index kind))"
    using assms(1) by (metis bit_0_eq bit_and_iff bit_kind bot_apply bot_bool_def)
  with Nil show ?case
    by (auto simp: joined_only_def bit_kind cascading_def entry_flag_def IsCascading_def split: if_splits)
next
  case (Cons a es)
  show ?case
  proof (cases "n = entry_node a \<and> e = a\<lparr>entry_kinds := entry_kinds a OR kind_bit kind, entry_flags := entry_flags a OR entry_flag c\<rparr>")
    case False
    with Cons show ?thesis by (auto split: if_splits)
  next
    case True
    let ?k = "kind_index kind"
    have T: "\<not> (c \<and> bit T ?k)" using assms(1) by (metis bit_0_eq bit_and_iff bit_kind bot_apply bot_bool_def)
    obtain b0 where b0: "bit (entry_kinds a) b0" using Cons.prems(1) by auto
    have a: "joined_only T a" using Cons.prems(2) True by simp
    have "\<exists>b'. b' \<noteq> b \<and> (bit (entry_kinds a) b' \<or> b' = ?k)"
      if "cascading a \<or> c" "bit T b" "bit (entry_kinds a) b \<or> b = ?k" "b \<noteq> external_bit" for b
    proof (cases "b = ?k")
      case False
      then show ?thesis by (intro exI [of _ ?k]) simp
    next
      case True
      then have "cascading a" using that(1,2) T by blast
      show ?thesis
      proof (cases "b0 = b")
        case True
        then show ?thesis using a \<open>cascading a\<close> that(2,4) b0 unfolding joined_only_def by blast
      qed (use b0 in blast)
    qed
    then have "joined_only T e" using True cascading_joined [of a] by (simp add: joined_only_def bit_or_iff bit_kind)
    moreover have "bit (entry_kinds e) b0" using True b0 by (simp add: bit_or_iff)
    ultimately show ?thesis by blast
  qed
qed

lemma add_used:
  "\<forall>e \<in> set es. \<exists>b. bit (entry_kinds e) b \<Longrightarrow> e \<in> set (add_dependent n kind c es) \<Longrightarrow> \<exists>b. bit (entry_kinds e) b"
  by (induction es) (auto simp: bit_kind bit_or_iff split: if_splits)

interpretation used_kept: callbacks_keep False n entries_used for n
proof
  show "entries_used g'" if "dependsCallback n s kind c g = Some (r, g')" "entries_used g" for s kind c g r g'
  proof -
    have "\<forall>e \<in> set (add_dependent n kind c (dependents g s)). \<exists>b. bit (entry_kinds e) b"
      using add_used [of "dependents g s"] that(2) unfolding entries_used_def by blast
    then show ?thesis using that(2) unfolding entries_used_def depends_effect(5) [OF that(1)] by (auto split: if_splits)
  qed
  show "entries_used g'" if "providesCallback n s kind c g = Some (r, g')" "kind \<noteq> ExternalFile" "entries_used g" for s kind c g r g'
    using that(3) provides_effect [OF that(1)] same_dependencies [of g' g] by (simp add: entries_used_def)
  show "entries_used g'" if "interfaceHashCallback n s g = Some (r, g')" "entries_used g" for s g r g'
    using that(2) hash_effect [OF that(1)] same_dependencies [of g' g] by (simp add: entries_used_def)
qed

interpretation joined_kept: callbacks_keep True n "traversed_joined n" for n
proof
  show "traversed_joined n g'"
    if "dependsCallback n s kind c g = Some (r, g')" "True \<longrightarrow> r = UpToDate" "traversed_joined n g" for s kind c g r g'
  proof -
    note e = depends_effect [OF that(1)]
    have t: "\<not> (c \<and> traversed g s AND kind_bit kind \<noteq> 0)"
      using that(1,2) by (auto simp: dependsCallback_def traversed_def Let_def split: prod.splits if_splits)
    have "(\<exists>b. bit (entry_kinds x) b) \<and> (entry_node x = n \<longrightarrow> joined_only (traversed g s) x)"
      if "x \<in> set (add_dependent n kind c (dependents g s))" for x
      by (rule joined_add [OF t _ _ that]) (use \<open>traversed_joined n g\<close> in \<open>auto simp: traversed_joined_def entries_used_def\<close>)
    then show ?thesis using that(3) unfolding traversed_joined_def entries_used_def e by auto
  qed
  show "traversed_joined n g'" if "providesCallback n s kind c g = Some (r, g')" "kind \<noteq> ExternalFile" "traversed_joined n g" for s kind c g r g'
    using that(3) provides_effect [OF that(1)] same_dependencies [of g' g] by (simp add: traversed_joined_def entries_used_def)
  show "traversed_joined n g'" if "interfaceHashCallback n s g = Some (r, g')" "traversed_joined n g" for s g r g'
    using that(2) hash_effect [OF that(1)] same_dependencies [of g' g] by (simp add: traversed_joined_def entries_used_def)
qed

lemma load_used: "loadFromBuffer n root g = Some (r, g') \<Longrightarrow> entries_used g \<Longrightarrow> entries_used g'"
  using used_kept.parse_keeps [of n root "touch n g" r g'] by (simp add: loadFromBuffer_touch entries_used_def)

lemma load_up_to_date:
  assumes "loadFromBuffer n root g = Some (UpToDate, g')" "consistent g" "entries_used g" "n \<notin> Marked g" "single_kind n g'"
  shows "consistent g'"
proof -
  have "traversed_joined n g"
    using assms(2-4) unfolding traversed_joined_def joined_only_def consistent_def by blast
  then have "traversed_joined n (touch n g)" by (simp add: traversed_joined_def entries_used_def)
  then have j: "traversed_joined n g'"
    using joined_kept.parse_keeps [OF assms(1) [unfolded loadFromBuffer_touch]] by simp
  have "\<not> (bit (traversed g' s) b \<and> bit (entry_kinds e) b \<and> cascading e)"
    if e: "e \<in> set (dependents g' s)" "entry_node e = n" "b \<noteq> external_bit" for s e b
  proof
    assume b: "bit (traversed g' s) b \<and> bit (entry_kinds e) b \<and> cascading e"
    obtain kind where "entry_kinds e = kind_bit kind" using assms(5) e unfolding single_kind_def by blast
    with b j e show False unfolding traversed_joined_def joined_only_def by (metis bit_kind)
  qed
  moreover have "consistent_but n g'" using load_keeps(2) [OF assms(1) consistent_but_any [OF assms(2)]] .
  ultimately show ?thesis unfolding consistent_def consistent_but_def by metis
qed

section \<open>Untouched graphs\<close>

text \<open>When nothing has been marked or traversed, the reported nodes are exactly the targets of edges from
  reachable nodes.\<close>

lemma untouched_visited:
  assumes "wf_graph g" "n \<in> dom (Provides g)" "Marked g = {}" "traversed g = (\<lambda>s. 0)"
  shows "\<exists>new t' g'. markTransitive [] n t g = Some (new, t', g') \<and> distinct new \<and> Marked g' = reach g n \<and>
    set new = {v. v \<noteq> n \<and> (\<exists>m \<in> reach g n. \<exists>c. edge g m v c)}"
proof -
  have "consistent_but n g" by (simp add: consistent_but_def assms(4))
  from mark_transitive_marks [OF assms(1) this assms(2), of "[]" t] obtain new t' g' where
    g': "markTransitive [] n t g = Some ([] @ new, t', g')" "Marked g' = Marked g \<union> reach g n" "distinct new"
      "\<forall>v \<in> set new. v \<notin> Marked g \<and> v \<noteq> n \<and> (\<exists>m \<in> reach g n. \<exists>c. edge g m v c)"
      "\<forall>m p e. m \<in> reach g n \<longrightarrow> edge_by g m p e \<longrightarrow> entry_node e \<notin> Marked g \<longrightarrow> entry_node e \<noteq> n \<longrightarrow>
         entry_kinds e AND traversed g (provided_name p) = 0 \<longrightarrow> entry_node e \<in> set new"
    by (elim exE conjE) (rule that; assumption)
  have "v \<in> set new" if "v \<noteq> n" "m \<in> reach g n" "edge g m v c" for v m c
  proof -
    from that(3) obtain p e where "edge_by g m p e" "entry_node e = v" by (auto simp: edge_def)
    with g'(5) that(1,2) assms(3,4) show ?thesis by auto
  qed
  with g'(4) have "set new = {v. v \<noteq> n \<and> (\<exists>m \<in> reach g n. \<exists>c. edge g m v c)}" by blast
  with g'(1-3) assms(3) show ?thesis by (intro exI [of _ new] exI [of _ t'] exI [of _ g']) simp
qed

section \<open>External dependencies\<close>

lemma edge_same: "Provides g' = Provides g \<Longrightarrow> dependents g' = dependents g \<Longrightarrow> edge g' = edge g"
  by (simp add: edge_def edge_by_def provided_def fun_eq_iff)

lemma reach_trans: "m \<in> reach g n \<Longrightarrow> v \<in> reach g m \<Longrightarrow> v \<in> reach g n"
  by (rotate_tac, induction rule: reach.induct) (auto intro: reach.intros)

lemma reach_mono: "edge g' = edge g \<Longrightarrow> Marked g' = Marked g \<Longrightarrow> v \<in> reach g' n \<Longrightarrow> v \<in> reach g n"
  by (rotate_tac 2, induction rule: reach.induct) (auto intro: reach.intros)

lemma reach_same: "edge g' = edge g \<Longrightarrow> Marked g' = Marked g \<Longrightarrow> reach g' = reach g"
  using reach_mono [of g' g] reach_mono [of g g'] by (auto simp: fun_eq_iff)

text \<open>Marking from one node first does not change what both mark together.\<close>

lemma reach_after:
  assumes "edge g' = edge g" "Marked g' = Marked g \<union> reach g n"
  shows "Marked g' \<union> reach g' m = Marked g' \<union> reach g m"
proof -
  have "v \<in> reach g m" if "v \<in> reach g' m" for v
    using that assms by induction (auto intro: reach.intros)
  moreover have "v \<in> reach g n \<or> v \<in> reach g' m" if "v \<in> reach g m" for v
    using that
  proof induction
    case (reach_step k v)
    then show ?case using assms by (cases "v \<in> reach g n") (auto intro: reach.intros)
  qed (simp add: reach_start)
  ultimately show ?thesis using assms(2) by blast
qed

definition external_roots :: "'n DependencyEntry list \<Rightarrow> 'n dependency_graph \<Rightarrow> 'n set" where
  "external_roots ds g = {entry_node e |e. e \<in> set ds \<and> contains (entry_kinds e) (kind_bit ExternalFile)} - Marked g"

definition marks_from :: "'n set \<Rightarrow> 'n dependency_graph \<Rightarrow> 'n list \<Rightarrow> 'n dependency_graph \<Rightarrow> bool" where
  "marks_from R g new g' \<longleftrightarrow> wf_graph g' \<and> consistent g' \<and> Provides g' = Provides g \<and> dependents g' = dependents g \<and>
     Marked g' = Marked g \<union> (\<Union>n \<in> R. reach g n) \<and> Marked g' - Marked g \<subseteq> set new"

lemma marks_from_none: "wf_graph g \<Longrightarrow> consistent g \<Longrightarrow> R = {} \<Longrightarrow> marks_from R g [] g"
  by (simp add: marks_from_def)

lemma marks_from_step:
  assumes "marks_from {n} g new1 h" "marks_from R h new2 k" "n \<in> R'" "R' \<inter> Marked g = {}" "R = R' - Marked h"
  shows "marks_from R' g (new1 @ new2) k"
proof -
  have e: "edge h = edge g" using assms(1) by (intro edge_same) (simp_all add: marks_from_def)
  have h: "Marked h = Marked g \<union> reach g n" using assms(1) by (simp add: marks_from_def)
  have "Marked k = Marked h \<union> (\<Union>m \<in> R. Marked h \<union> reach h m)" using assms(2) by (auto simp: marks_from_def)
  also have "\<dots> = Marked h \<union> (\<Union>m \<in> R. reach g m)" using reach_after [OF e h] by auto
  also have "\<dots> = Marked g \<union> (\<Union>m \<in> R'. reach g m)"
  proof -
    have "reach g m \<subseteq> Marked h" if "m \<in> reach g n" for m
      using reach_trans [OF that] h by blast
    moreover have "m \<in> R \<or> m \<in> reach g n" if "m \<in> R'" for m using that assms(4,5) h by auto
    ultimately show ?thesis using assms(3,5) h by blast
  qed
  finally have "Marked k = Marked g \<union> (\<Union>m \<in> R'. reach g m)" .
  moreover have "Marked h - Marked g \<subseteq> set new1" "Marked k - Marked h \<subseteq> set new2"
    using assms(1,2) unfolding marks_from_def by blast+
  then have "Marked k - Marked g \<subseteq> set (new1 @ new2)" by auto
  ultimately show ?thesis using assms(1,2) unfolding marks_from_def by simp
qed

lemma transitive_marks_from:
  assumes "wf_graph g" "consistent g" "n \<in> dom (Provides g)" "n \<notin> Marked g"
  shows "\<exists>new h. markTransitive (vs @ [n]) n None g = Some (vs @ n # new, None, h) \<and> marks_from {n} g (n # new) h"
proof -
  from mark_transitive_marks [OF assms(1) consistent_but_any [OF assms(2)] assms(3), of "vs @ [n]" None] obtain new t' h where
    h: "markTransitive (vs @ [n]) n None g = Some ((vs @ [n]) @ new, t', h)" "wf_graph h" "consistent h"
      "Provides h = Provides g" "dependents h = dependents g" "Marked h = Marked g \<union> reach g n"
      "reach g n - Marked g - {n} \<subseteq> set new" "t' = None"
    by (elim exE conjE) (rule that; simp)
  then have "marks_from {n} g (n # new) h" by (auto simp: marks_from_def)
  with h(1,8) show ?thesis by auto
qed

lemma external_dependents_mark:
  assumes "wf_graph g" "consistent g" "\<forall>e \<in> set ds. entry_node e \<in> dom (Provides g)"
    "mark_external_dependents ds vs g \<noteq> None \<or> (\<forall>e \<in> set ds. contains (entry_kinds e) (kind_bit ExternalFile) \<longrightarrow> cascading e)"
  shows "\<exists>new g'. mark_external_dependents ds vs g = Some (vs @ new, g') \<and> marks_from (external_roots ds g) g new g'"
  using assms
proof (induction ds arbitrary: vs g)
  case Nil
  then show ?case by (auto intro: marks_from_none simp: external_roots_def)
next
  case (Cons d ds)
  then have d: "entry_node d \<in> dom (Provides g)" by simp
  show ?case
  proof (cases "contains (entry_kinds d) (kind_bit ExternalFile) \<and> entry_node d \<notin> Marked g")
    case False
    then have "mark_external_dependents (d # ds) vs g = mark_external_dependents ds vs g"
      by (auto simp: isMarked_wf [OF d])
    moreover have "external_roots (d # ds) g = external_roots ds g" using False by (auto simp: external_roots_def)
    moreover have "mark_external_dependents ds vs g \<noteq> None \<or> (\<forall>e \<in> set ds. contains (entry_kinds e) (kind_bit ExternalFile) \<longrightarrow> cascading e)"
      using Cons.prems(4) calculation(1) by auto
    ultimately show ?thesis using Cons.IH [of g vs] Cons.prems(1-3) by simp
  next
    case True
    let ?n = "entry_node d"
    from transitive_marks_from [of g ?n vs] Cons.prems(1,2) d True obtain new h where
      h: "markTransitive (vs @ [?n]) ?n None g = Some (vs @ ?n # new, None, h)" "marks_from {?n} g (?n # new) h" by auto
    have c: "cascading d" using Cons.prems(4) True by (auto simp: isMarked_wf [OF d] cascading_def bind_eq_Some_iff)
    then have "mark_external_dependents (d # ds) vs g = mark_external_dependents ds (vs @ ?n # new) h"
      using True h(1) by (simp add: isMarked_wf [OF d] cascading_def)
    moreover have "wf_graph h" "consistent h" "Provides h = Provides g" using h(2) by (simp_all add: marks_from_def)
    ultimately obtain new2 k where k: "mark_external_dependents (d # ds) vs g = Some ((vs @ ?n # new) @ new2, k)"
      "marks_from (external_roots ds h) h new2 k" using Cons.IH [of h "vs @ ?n # new"] Cons.prems(3,4) by auto
    have "Marked g \<subseteq> Marked h" "?n \<in> Marked h" using h(2) by (auto simp: marks_from_def reach_start)
    then have "marks_from (external_roots (d # ds) g) g ((?n # new) @ new2) k"
      by (intro marks_from_step [OF h(2) k(2)]) (use True in \<open>auto simp: external_roots_def\<close>)
    with k(1) show ?thesis by auto
  qed
qed

lemma mark_external:
  assumes "wf_graph g" "consistent g" "s \<in> dom (Dependencies g)"
    "markExternal vs s g \<noteq> None \<or> (\<forall>e \<in> set (dependents g s). contains (entry_kinds e) (kind_bit ExternalFile) \<longrightarrow> cascading e)"
  shows "\<exists>new g'. markExternal vs s g = Some (vs @ new, g') \<and> marks_from (external_roots (dependents g s) g) g new g'"
proof -
  obtain ds k where ds: "Dependencies g s = Some (ds, k)" using assms(3) by auto
  define K where "K = k OR kind_bit ExternalFile"
  let ?h = "g\<lparr>Dependencies := (Dependencies g)(s \<mapsto> (ds, K))\<rparr>"
  have "entries_of ?h = (entries_of g)(s := (ds, K))" "entries_of g s = (ds, k)"
    by (simp_all add: entries_of_def fun_eq_iff ds)
  then have h: "dependents ?h = dependents g" "dependents g s = ds" "traversed ?h = (traversed g)(s := K)" "traversed g s = k"
    by (auto simp: dependents_def traversed_def fun_eq_iff)
  have p: "provided ?h = provided g" by (simp add: provided_def fun_eq_iff)
  have b: "bit K b = bit k b" if "b \<noteq> external_bit" for b
  proof -
    have "kind_bit ExternalFile = push_bit external_bit 1" by simp
    then show ?thesis using that unfolding K_def by (simp only: bit_or_iff bit_push_bit_iff) (auto simp: bit_1_iff)
  qed
  have "wf_graph ?h" using assms(1,3) ds unfolding wf_graph_def h(1) p by auto
  moreover have "consistent ?h" using assms(2) b h(2,4) unfolding consistent_def h(1,3) by auto
  moreover have "markExternal vs s g = mark_external_dependents ds vs ?h" by (simp add: markExternal_def ds K_def)
  moreover have "entry_node e \<in> dom (Provides ?h)" if "e \<in> set ds" for e
    using that assms(1) h(2) unfolding wf_graph_def by auto
  ultimately obtain new g' where g': "markExternal vs s g = Some (vs @ new, g')" "marks_from (external_roots ds ?h) ?h new g'"
    using external_dependents_mark [of ?h ds vs] assms(4) h(2) by auto
  have e: "edge ?h = edge g" by (rule edge_same) (simp_all add: h(1))
  have m: "Marked ?h = Marked g" by simp
  have r: "reach ?h = reach g" using reach_same [OF e m] by blast
  have "Provides ?h = Provides g" "external_roots ds ?h = external_roots ds g" by (simp_all add: external_roots_def)
  then have "marks_from (external_roots (dependents g s) g) g new g'"
    using g'(2) unfolding marks_from_def h(1,2) m r by metis
  with g'(1) show ?thesis by auto
qed

end
