(* ===== verification/Dependency_Runs.thy ===== *)
theory Dependency_Runs
  imports Dependency_Loading
begin

text \<open>
  The graphs that sequences of the operations reach, as the driver orders them
  (\<open>Compilation.cpp\<close>) with the exceptions named below, the answer of the first load of a file, and an example.
\<close>

section \<open>Runs\<close>

text \<open>
  A file is loaded before anything is traversed, or for a marked node, or marking from the node
  follows, or the load answers \<open>UpToDate\<close> for a node that stays unmarked, as in \<open>reloadAndRemarkDeps\<close>. The
  last is a step only for nodes that use every name in one kind (\<open>single_kind\<close>): the entry of a node for a name joins
  the kinds of all uses, and so can cascade on a traversed kind that only a private use has. Not a step
  either: a load that answers \<open>HadError\<close> for an unmarked node after names were traversed, after which the
  driver gives up the incremental build, or the compile job has failed.
\<close>

inductive graph_run :: "'n dependency_graph \<Rightarrow> bool" where
  run_empty: "graph_run empty_graph"
| run_add: "graph_run g \<Longrightarrow> addIndependentNode n g = Some g' \<Longrightarrow> graph_run g'"
| run_load: "graph_run g \<Longrightarrow> n \<in> Marked g \<or> traversed g = (\<lambda>s. 0) \<Longrightarrow> loadFromPath n buffer g = Some (r, g') \<Longrightarrow> graph_run g'"
| run_reload: "graph_run g \<Longrightarrow> loadFromPath n buffer g = Some (r, h) \<Longrightarrow> markTransitive vs n t h = Some (ws, t', g') \<Longrightarrow> graph_run g'"
| run_up_to_date: "graph_run g \<Longrightarrow> loadFromPath n buffer g = Some (UpToDate, g') \<Longrightarrow> single_kind n g' \<Longrightarrow> graph_run g'"
| run_mark_one: "graph_run g \<Longrightarrow> markIntransitive n g = Some (b, g') \<Longrightarrow> graph_run g'"
| run_mark: "graph_run g \<Longrightarrow> markTransitive vs n t g = Some (ws, t', g') \<Longrightarrow> graph_run g'"
| run_external: "graph_run g \<Longrightarrow> markExternal vs s g = Some (ws, g') \<Longrightarrow> graph_run g'"

lemma path_keeps:
  assumes "loadFromPath n buffer g = Some (r, g')"
  shows "wf_graph g \<Longrightarrow> wf_graph g'" "consistent_but n g \<Longrightarrow> consistent_but n g'" "Marked g' = Marked g"
    "traversed g' = traversed g" "entries_used g \<Longrightarrow> entries_used g'"
  using assms load_keeps [of n _ g r g'] load_used [of n _ g r g'] by (auto simp: loadFromPath_def split: option.splits)

lemma mark_transitive_node: "markTransitive vs n t g \<noteq> None \<Longrightarrow> n \<in> dom (Provides g)"
  by (auto simp: markTransitive_def markIntransitive_def bind_eq_Some_iff)

lemma mark_keeps:
  assumes "markTransitive vs n t g = Some (ws, t', g')" "wf_graph g" "consistent_but n g"
  shows "wf_graph g' \<and> consistent g' \<and> (entries_used g \<longrightarrow> entries_used g')"
proof -
  have "n \<in> dom (Provides g)" using mark_transitive_node [of vs n t g] assms(1) by simp
  from mark_transitive_marks [OF assms(2,3) this, of vs t] obtain new u h where
    "markTransitive vs n t g = Some (vs @ new, u, h)" "wf_graph h" "consistent h" "dependents h = dependents g"
    by (elim exE conjE) (rule that; assumption)
  with assms(1) show ?thesis by (simp add: entries_used_def)
qed

lemma external_keeps:
  assumes "markExternal vs s g = Some (ws, g')" "wf_graph g" "consistent g"
  shows "wf_graph g' \<and> consistent g' \<and> (entries_used g \<longrightarrow> entries_used g')"
proof -
  have "s \<in> dom (Dependencies g)" using assms(1) by (auto simp: markExternal_def bind_eq_Some_iff)
  from mark_external [OF assms(2,3) this, of vs] assms(1) show ?thesis by (auto simp: marks_from_def entries_used_def)
qed

lemma add_keeps:
  assumes "addIndependentNode n g = Some g'"
  shows "provided g' = provided g" "dom (Provides g') = insert n (dom (Provides g))" "Dependencies g' = Dependencies g" "Marked g' = Marked g"
  using assms by (auto simp: addIndependentNode_def provided_def fun_eq_iff bind_eq_Some_iff)

lemma run_wf_consistent_used: "graph_run g \<Longrightarrow> wf_graph g \<and> consistent g \<and> entries_used g"
proof (induction rule: graph_run.induct)
  case run_empty
  then show ?case
    by (simp add: empty_graph_def wf_graph_def consistent_def entries_used_def dependents_def entries_of_def provided_def)
next
  case (run_add g n g')
  then show ?case using add_keeps [OF run_add.hyps(2)] same_dependencies [of g' g]
    by (auto simp: wf_graph_def consistent_def entries_used_def)
next
  case (run_load g n buffer r g')
  note k = path_keeps [OF run_load.hyps(3)]
  have "consistent g'"
  proof (cases "n \<in> Marked g")
    case True
    then show ?thesis using k run_load.IH consistent_but_any [of g n] consistent_but_marked [of n g'] by metis
  next
    case False
    then show ?thesis using run_load.hyps(2) k(4) by (simp add: consistent_def)
  qed
  then show ?case using k(1,5) run_load.IH by simp
next
  case (run_reload g n buffer r h vs t ws t' g')
  note k = path_keeps [OF run_reload.hyps(2)]
  have "wf_graph h" "consistent_but n h" "entries_used h" using k(1,2,5) run_reload.IH consistent_but_any [of g n] by blast+
  then show ?case using mark_keeps [OF run_reload.hyps(3)] by simp
next
  case (run_up_to_date g n buffer g')
  note k = path_keeps [OF run_up_to_date.hyps(2)]
  obtain root where l: "loadFromBuffer n root g = Some (UpToDate, g')"
    using run_up_to_date.hyps(2) by (auto simp: loadFromPath_def split: option.splits)
  have "consistent g'"
  proof (cases "n \<in> Marked g")
    case True
    then show ?thesis using k run_up_to_date.IH consistent_but_any [of g n] consistent_but_marked [of n g'] by metis
  next
    case False
    then show ?thesis using load_up_to_date [OF l] run_up_to_date.IH run_up_to_date.hyps(3) by blast
  qed
  then show ?case using k(1,5) run_up_to_date.IH by simp
next
  case (run_mark_one g n b g')
  then have "g' = g\<lparr>Marked := insert n (Marked g)\<rparr>" "n \<in> dom (Provides g)"
    by (auto simp: markIntransitive_def bind_eq_Some_iff)
  moreover from this(1) have "provided g' = provided g" "dependents g' = dependents g" "traversed g' = traversed g"
    using same_provides [of g' g] same_dependencies [of g' g] by simp_all
  ultimately show ?case using run_mark_one.IH by (simp add: wf_graph_def consistent_def entries_used_def)
next
  case (run_mark g vs n t ws t' g')
  then show ?case using mark_keeps [OF run_mark.hyps(2)] consistent_but_any [of g n] by simp
next
  case (run_external g vs s ws g')
  then show ?case using external_keeps [OF run_external.hyps(2)] by simp
qed

lemma run_wf_consistent: "graph_run g \<Longrightarrow> wf_graph g \<and> consistent g"
  using run_wf_consistent_used by blast

section \<open>The first load\<close>

definition hash_key :: "yaml \<times> yaml \<Rightarrow> bool" where
  "hash_key kv \<longleftrightarrow> (case fst kv of ScalarNode t k \<Rightarrow> k = ''interface-hash'' | _ \<Rightarrow> False)"

text \<open>A graph that has not been traversed: only a changed hash affects other nodes.\<close>

definition quiet :: "'n \<Rightarrow> bool \<Rightarrow> 'n dependency_graph \<Rightarrow> bool" where
  "quiet n fresh g \<longleftrightarrow> traversed g = (\<lambda>s. 0) \<and> (fresh \<longrightarrow> InterfaceHashes g n = None)"

lemma quiet_loop:
  assumes "\<And>x g r g'. x \<in> set xs \<Longrightarrow> f x g = Some (r, g') \<Longrightarrow> quiet n b g \<Longrightarrow> r \<noteq> AffectsDownstream \<and> quiet n b g'"
    "load_loop f xs result g = Some (r, g')" "quiet n b g" "result \<noteq> AffectsDownstream"
  shows "r \<noteq> AffectsDownstream \<and> quiet n b g'"
  using assms
proof (induction xs arbitrary: result g)
  case (Cons x xs)
  from Cons.prems(2) obtain u h where u: "f x g = Some (u, h)" by (auto simp: bind_eq_Some_iff)
  with Cons.prems(1) [of x g u h] Cons.prems(3) have h: "u \<noteq> AffectsDownstream" "quiet n b h" by auto
  show ?case
  proof (cases u)
    case HadError
    with Cons.prems(2) u h(2) show ?thesis by auto
  next
    case UpToDate
    with Cons.prems(2) u have "load_loop f xs result h = Some (r, g')" by simp
    then show ?thesis by (rule Cons.IH [OF _ _ h(2) Cons.prems(4), rotated]) (rule Cons.prems(1), simp_all)
  qed (use h(1) in simp)
qed simp

lemma quiet_callbacks:
  assumes "(if d then dependsCallback n else providesCallback n) s kind c g = Some (r, g')" "quiet n b g"
  shows "r \<noteq> AffectsDownstream \<and> quiet n b g'"
proof (cases d)
  case True
  obtain es k where "entries_of g s = (es, k)" by (cases "entries_of g s")
  moreover from this assms(2) have "k = 0" by (auto simp: quiet_def traversed_def dest: fun_cong [of _ _ s])
  ultimately have "r \<noteq> AffectsDownstream" "InterfaceHashes g' = InterfaceHashes g"
    using assms(1) True by (auto simp: dependsCallback_def split: if_splits)
  then show ?thesis using assms depends_effect(3) [of n s kind c g r g'] True by (simp add: quiet_def)
next
  case False
  then have "r \<noteq> AffectsDownstream" "InterfaceHashes g' = InterfaceHashes g" "Dependencies g' = Dependencies g"
    using assms(1) by (auto simp: providesCallback_def bind_eq_Some_iff)
  then show ?thesis using assms(2) same_dependencies [of g' g] by (simp add: quiet_def)
qed

lemma quiet_key:
  assumes "load_key n kv g = Some (r, g')" "quiet n b g" "hash_key kv \<longrightarrow> b"
  shows "r \<noteq> AffectsDownstream \<and> quiet n (b \<and> \<not> hash_key kv) g'"
proof -
  obtain key v where kv: "kv = (key, v)" by (cases kv)
  consider "g' = g" "r \<noteq> AffectsDownstream" | s where "hash_key kv" "interfaceHashCallback n s g = Some (r, g')"
    | s kind d es where "dependency_key s = Some (kind, d)"
        "(if kind = NominalTypeMember then load_loop (load_member (if d then dependsCallback n else providesCallback n)) es UpToDate g
          else load_loop (load_scalar kind (if d then dependsCallback n else providesCallback n)) es UpToDate g) = Some (r, g')"
    using assms(1) unfolding load_key_def kv Let_def hash_key_def
    by (auto split: yaml.splits if_splits option.splits prod.splits)
  then show ?thesis
  proof cases
    case 1
    with assms(2) show ?thesis by (simp add: quiet_def)
  next
    case 2
    with assms(2,3) have "InterfaceHashes g n = None" by (simp add: quiet_def)
    with 2 have "r \<noteq> AffectsDownstream" "Dependencies g' = Dependencies g"
      by (auto simp: interfaceHashCallback_def)
    then show ?thesis using assms(2) 2(1) same_dependencies [of g' g] by (simp add: quiet_def)
  next
    case (3 s kind d es)
    let ?cb = "if d then dependsCallback n else providesCallback n"
    have cb: "?cb s' k c h = Some (u, h') \<Longrightarrow> quiet n b h \<Longrightarrow> u \<noteq> AffectsDownstream \<and> quiet n b h'" for s' k c h u h'
      by (rule quiet_callbacks)
    have m: "load_member ?cb x h = Some (u, h') \<Longrightarrow> quiet n b h \<Longrightarrow> u \<noteq> AffectsDownstream \<and> quiet n b h'" for x h u h'
      using cb by (auto simp: load_member_def bind_eq_Some_iff split: yaml.splits list.splits)
    have s: "load_scalar kind ?cb x h = Some (u, h') \<Longrightarrow> quiet n b h \<Longrightarrow> u \<noteq> AffectsDownstream \<and> quiet n b h'" for x h u h'
      using cb by (auto simp: load_scalar_def split: yaml.splits)
    have "r \<noteq> AffectsDownstream \<and> quiet n b g'"
    proof (cases "kind = NominalTypeMember")
      case True
      with 3(2) have "load_loop (load_member ?cb) es UpToDate g = Some (r, g')" by simp
      then show ?thesis by (rule quiet_loop [OF _ _ assms(2), rotated]) (simp, rule m)
    next
      case False
      with 3(2) have "load_loop (load_scalar kind ?cb) es UpToDate g = Some (r, g')" by simp
      then show ?thesis by (rule quiet_loop [OF _ _ assms(2), rotated]) (simp, rule s)
    qed
    then show ?thesis by (simp add: quiet_def)
  qed
qed

lemma quiet_keys:
  assumes "load_loop (load_key n) kvs result g = Some (r, g')" "quiet n b g" "result \<noteq> AffectsDownstream"
    "length (filter hash_key kvs) \<le> (if b then 1 else 0)"
  shows "r \<noteq> AffectsDownstream"
  using assms
proof (induction kvs arbitrary: result g b)
  case (Cons kv kvs)
  from Cons.prems(1) obtain u h where u: "load_key n kv g = Some (u, h)" by (auto simp: bind_eq_Some_iff)
  have "hash_key kv \<longrightarrow> b" using Cons.prems(4) by (auto split: if_splits)
  from quiet_key [OF u Cons.prems(2) this] have h: "u \<noteq> AffectsDownstream" "quiet n (b \<and> \<not> hash_key kv) h" by blast+
  have "length (filter hash_key kvs) \<le> (if b \<and> \<not> hash_key kv then 1 else 0)"
    using Cons.prems(4) by (cases b) (auto split: if_splits)
  with Cons.IH [OF _ h(2), of result] Cons.prems(1,3) u h(1) show ?case by (cases u) auto
qed simp

lemma first_load_quiet:
  assumes "loadFromBuffer n root g = Some (r, g')" "traversed g = (\<lambda>s. 0)" "InterfaceHashes g n = None"
    "\<And>kvs. root = Some (MappingNode kvs) \<Longrightarrow> length (filter hash_key kvs) \<le> 1"
  shows "r \<noteq> AffectsDownstream"
proof (cases "\<exists>kvs. root = Some (MappingNode kvs)")
  case True
  then obtain kvs where kvs: "root = Some (MappingNode kvs)" by blast
  have "quiet n True (touch n g)" using assms(2,3) touch_simps(5) [of n g] by (simp add: quiet_def) (simp add: touch_def)
  then show ?thesis using quiet_keys [of n kvs UpToDate "touch n g" r g' True] assms(1,4) kvs
    by (simp add: loadFromBuffer_touch parseDependencyFile_def)
next
  case False
  then show ?thesis using assms(1)
    by (auto simp: loadFromBuffer_touch parseDependencyFile_def split: option.splits yaml.splits)
qed

section \<open>An example\<close>

text \<open>Node 0 provides \<open>a\<close>; node 1 depends on \<open>a\<close> and provides \<open>b\<close>; node 2 depends on \<open>b\<close>, privately,
  and provides \<open>c\<close>; node 3 depends on \<open>c\<close> and on the file \<open>f\<close>.\<close>

definition names :: "string \<Rightarrow> string \<Rightarrow> string list \<Rightarrow> yaml \<times> yaml" where
  "names key tag ss = (ScalarNode [] key, SequenceNode [] (map (ScalarNode tag) ss))"

definition file_of :: "int \<Rightarrow> yaml" where
  "file_of n = MappingNode
     (if n = 0 then [names ''provides-top-level'' [] [''a'']]
      else if n = 1 then [names ''depends-top-level'' [] [''a''], names ''provides-top-level'' [] [''b'']]
      else if n = 2 then [names ''depends-top-level'' ''!private'' [''b''], names ''provides-nominal'' [] [''c'']]
      else [names ''depends-nominal'' [] [''c''], names ''depends-external'' [] [''f'']])"

text \<open>A file with a hash, and dependencies on names that are provided.\<close>

definition hashed_file :: yaml where
  "hashed_file = MappingNode [names ''depends-top-level'' [] [''a'', ''b''], (ScalarNode [] ''interface-hash'', ScalarNode [] ''h'')]"

definition loaded :: "int \<Rightarrow> int dependency_graph \<Rightarrow> int dependency_graph" where
  "loaded n g = (case loadFromBuffer n (Some (file_of n)) g of Some (r, h) \<Rightarrow> h | None \<Rightarrow> g)"

definition example_graph :: "int dependency_graph" where
  "example_graph = loaded 3 (loaded 2 (loaded 1 (loaded 0 empty_graph)))"

lemma example_graph:
  "example_graph = \<lparr>Provides = [0 \<mapsto> [\<lparr>provided_name = ''a'', provided_kinds = 1\<rparr>], 1 \<mapsto> [\<lparr>provided_name = ''b'', provided_kinds = 1\<rparr>],
       2 \<mapsto> [\<lparr>provided_name = ''c'', provided_kinds = 4\<rparr>], 3 \<mapsto> []],
     Dependencies = [''a'' \<mapsto> ([\<lparr>entry_node = 1, entry_kinds = 1, entry_flags = 1\<rparr>], 0),
       ''b'' \<mapsto> ([\<lparr>entry_node = 2, entry_kinds = 1, entry_flags = 0\<rparr>], 0),
       ''c'' \<mapsto> ([\<lparr>entry_node = 3, entry_kinds = 4, entry_flags = 1\<rparr>], 0),
       ''f'' \<mapsto> ([\<lparr>entry_node = 3, entry_kinds = 16, entry_flags = 1\<rparr>], 0)],
     Marked = {}, ExternalDependencies = {''f''}, InterfaceHashes = Map.empty\<rparr>"
  by (simp add: example_graph_def loaded_def file_of_def names_def loadFromBuffer_def parseDependencyFile_def empty_graph_def
      load_key_def load_scalar_def dependency_key_def isCascading_def dependsCallback_def providesCallback_def entries_of_def
      entry_flag_def IsCascading_def fun_eq_iff)

lemma example_fresh: "traversed example_graph = (\<lambda>s. 0)" "Marked example_graph = {}"
  by (auto simp: example_graph traversed_def entries_of_def fun_eq_iff)

lemma hashed_load: "\<exists>r g'. loadFromBuffer 4 (Some hashed_file) example_graph = Some (r, g') \<and> InterfaceHashes g' 4 = Some ''h''"
  by (simp add: example_graph hashed_file_def names_def loadFromBuffer_def parseDependencyFile_def load_key_def load_scalar_def
    dependency_key_def isCascading_def dependsCallback_def interfaceHashCallback_def entries_of_def entry_flag_def IsCascading_def)

lemma loaded_run: "graph_run g \<Longrightarrow> traversed g = (\<lambda>s. 0) \<Longrightarrow> graph_run (loaded n g) \<and> traversed (loaded n g) = (\<lambda>s. 0)"
  unfolding loaded_def using run_load [of g n "Some (Some (file_of n))"] load_keeps(4) [of n "Some (file_of n)" g]
  by (auto simp: loadFromPath_def split: option.splits)

lemma example_run: "graph_run example_graph"
proof -
  have "traversed empty_graph = (\<lambda>s. 0)" by (simp add: empty_graph_def traversed_def entries_of_def fun_eq_iff)
  then show ?thesis unfolding example_graph_def by (intro loaded_run [THEN conjunct1] conjI loaded_run [THEN conjunct2] run_empty)
qed

lemma example_wf: "wf_graph example_graph" "consistent example_graph"
  using run_wf_consistent [OF example_run] by blast+

end
