(* ===== verification/Runtime_Layout.thy ===== *)
theory Runtime_Layout
  imports Mangling_Prelude "HOL-Library.Word"
begin

text \<open>
  The layout of structs, tuples and enums in the runtime: the flags of value witness tables
  (\<open>Metadata.h\<close>), \<open>performBasicLayout\<close> and its callers (\<open>Metadata.cpp\<close>), and the layout of enum types
  (\<open>Enum.cpp\<close>, \<open>EnumImpl.h\<close>). \<open>size_t\<close> has 64 bits, \<open>unsigned\<close> 32.

  The functions of value witness tables are not modelled, only their data.
\<close>

unbundle bit_operations_syntax

type_synonym size_t = "64 word"
type_synonym unsigned = "32 word"

section \<open>Flags of value witnesses\<close>

definition AlignmentMask :: size_t where "AlignmentMask = 0x0000FFFF"
definition IsNonPOD :: size_t where "IsNonPOD = 0x00010000"
definition IsNonInline :: size_t where "IsNonInline = 0x00020000"
definition HasExtraInhabitants :: size_t where "HasExtraInhabitants = 0x00040000"
definition IsNonBitwiseTakable :: size_t where "IsNonBitwiseTakable = 0x00100000"
definition HasEnumWitnesses :: size_t where "HasEnumWitnesses = 0x00200000"
definition NumExtraInhabitantsMask :: size_t where "NumExtraInhabitantsMask = 0x7FFFFFFF"

lemmas witness_masks = AlignmentMask_def IsNonPOD_def IsNonInline_def HasExtraInhabitants_def IsNonBitwiseTakable_def
  HasEnumWitnesses_def NumExtraInhabitantsMask_def

definition getAlignmentMask :: "size_t \<Rightarrow> size_t" where
  "getAlignmentMask Data = Data AND AlignmentMask"

definition withAlignmentMask :: "size_t \<Rightarrow> size_t \<Rightarrow> size_t" where
  "withAlignmentMask alignMask Data = (Data AND NOT AlignmentMask) OR alignMask"

definition getAlignment :: "size_t \<Rightarrow> size_t" where
  "getAlignment Data = getAlignmentMask Data + 1"

definition withAlignment :: "size_t \<Rightarrow> size_t \<Rightarrow> size_t" where
  "withAlignment alignment Data = withAlignmentMask (alignment - 1) Data"

definition isInlineStorage :: "size_t \<Rightarrow> bool" where
  "isInlineStorage Data \<longleftrightarrow> Data AND IsNonInline = 0"

definition withInlineStorage :: "bool \<Rightarrow> size_t \<Rightarrow> size_t" where
  "withInlineStorage isInline Data = (Data AND NOT IsNonInline) OR (if isInline then 0 else IsNonInline)"

definition isPOD :: "size_t \<Rightarrow> bool" where
  "isPOD Data \<longleftrightarrow> Data AND IsNonPOD = 0"

definition withPOD :: "bool \<Rightarrow> size_t \<Rightarrow> size_t" where
  "withPOD pod Data = (Data AND NOT IsNonPOD) OR (if pod then 0 else IsNonPOD)"

definition isBitwiseTakable :: "size_t \<Rightarrow> bool" where
  "isBitwiseTakable Data \<longleftrightarrow> Data AND IsNonBitwiseTakable = 0"

definition withBitwiseTakable :: "bool \<Rightarrow> size_t \<Rightarrow> size_t" where
  "withBitwiseTakable isBT Data = (Data AND NOT IsNonBitwiseTakable) OR (if isBT then 0 else IsNonBitwiseTakable)"

definition hasExtraInhabitants :: "size_t \<Rightarrow> bool" where
  "hasExtraInhabitants Data \<longleftrightarrow> Data AND HasExtraInhabitants \<noteq> 0"

definition withExtraInhabitants :: "bool \<Rightarrow> size_t \<Rightarrow> size_t" where
  "withExtraInhabitants has Data = (Data AND NOT HasExtraInhabitants) OR (if has then HasExtraInhabitants else 0)"

definition hasEnumWitnesses :: "size_t \<Rightarrow> bool" where
  "hasEnumWitnesses Data \<longleftrightarrow> Data AND HasEnumWitnesses \<noteq> 0"

definition withEnumWitnesses :: "bool \<Rightarrow> size_t \<Rightarrow> size_t" where
  "withEnumWitnesses has Data = (Data AND NOT HasEnumWitnesses) OR (if has then HasEnumWitnesses else 0)"

text \<open>A buffer for values has three pointers.\<close>

definition isValueInline :: "size_t \<Rightarrow> size_t \<Rightarrow> bool" where
  "isValueInline sz alignment \<longleftrightarrow> sz \<le> 24 \<and> alignment \<le> 8"

section \<open>Layouts\<close>

text \<open>The last field is available if the flags say so. The data of a value witness table has the same
  fields.\<close>

record TypeLayout =
  tl_size :: size_t
  tl_flags :: size_t
  tl_stride :: size_t
  extraInhabitantFlags :: size_t

definition withNumExtraInhabitants :: "unsigned \<Rightarrow> size_t \<Rightarrow> size_t" where
  "withNumExtraInhabitants numExtraInhabitants Data = (Data AND NOT NumExtraInhabitantsMask) OR ucast numExtraInhabitants"

definition getNumExtraInhabitants :: "TypeLayout \<Rightarrow> unsigned" where
  "getNumExtraInhabitants L =
     (if \<not> hasExtraInhabitants (tl_flags L) then 0
      else ucast (extraInhabitantFlags L AND NumExtraInhabitantsMask))"

definition roundUpToAlignMask :: "size_t \<Rightarrow> size_t \<Rightarrow> size_t" where
  "roundUpToAlignMask sz alignMask = (sz + alignMask) AND NOT alignMask"

record BasicLayout =
  bl_size :: size_t
  bl_flags :: size_t
  bl_stride :: size_t

definition initialForValueType :: BasicLayout where
  "initialForValueType = \<lparr>bl_size = 0, bl_flags = withPOD True (withAlignment 1 0), bl_stride = 0\<rparr>"

text \<open>The loop of \<open>performBasicLayout\<close>: the size, the alignment mask and the two properties so far; the
  result has the offsets reported to the functor.\<close>

fun layout_elements ::
    "TypeLayout list \<Rightarrow> size_t \<Rightarrow> size_t \<Rightarrow> bool \<Rightarrow> bool \<Rightarrow> size_t list \<times> size_t \<times> size_t \<times> bool \<times> bool" where
  "layout_elements [] sz alignMask pod bt = ([], sz, alignMask, pod, bt)"
| "layout_elements (eltLayout # elements) sz alignMask pod bt =
     (let offset = roundUpToAlignMask sz (getAlignmentMask (tl_flags eltLayout));
          (offsets, result) = layout_elements elements (offset + tl_size eltLayout)
            (max alignMask (getAlignmentMask (tl_flags eltLayout)))
            (pod \<and> isPOD (tl_flags eltLayout)) (bt \<and> isBitwiseTakable (tl_flags eltLayout))
      in (offset # offsets, result))"

definition performBasicLayout :: "BasicLayout \<Rightarrow> TypeLayout list \<Rightarrow> size_t list \<times> BasicLayout" where
  "performBasicLayout layout elements =
     (let (offsets, sz, alignMask, pod, bt) = layout_elements elements (bl_size layout)
            (getAlignmentMask (bl_flags layout)) (isPOD (bl_flags layout)) (isBitwiseTakable (bl_flags layout));
          isInline = isValueInline sz (alignMask + 1)
      in (offsets, \<lparr>bl_size = sz,
            bl_flags = withInlineStorage isInline (withBitwiseTakable bt (withPOD pod (withAlignmentMask alignMask 0))),
            bl_stride = max 1 (roundUpToAlignMask sz alignMask)\<rparr>))"

text \<open>The first field is read without a test whether there is one. The table that is filled in is an
  argument.\<close>

definition swift_initStructMetadata :: "TypeLayout list \<Rightarrow> TypeLayout \<Rightarrow> (size_t list \<times> TypeLayout) option" where
  "swift_initStructMetadata fieldTypes vwtable =
     (let (fieldOffsets, layout) = performBasicLayout initialForValueType fieldTypes in
      case fieldTypes of
        [] \<Rightarrow> None
      | first # others \<Rightarrow>
          let vwtable = vwtable\<lparr>tl_size := bl_size layout, tl_flags := bl_flags layout, tl_stride := bl_stride layout\<rparr>
          in Some (fieldOffsets,
               if hasExtraInhabitants (tl_flags first)
               then vwtable\<lparr>tl_flags := withExtraInhabitants True (tl_flags vwtable),
                 extraInhabitantFlags := extraInhabitantFlags first\<rparr>
               else vwtable))"

section \<open>Enums\<close>

definition getNumTagBytes :: "size_t \<Rightarrow> unsigned \<Rightarrow> unsigned \<Rightarrow> unsigned" where
  "getNumTagBytes sz emptyCases payloadCases =
     (let numTags = payloadCases +
        (if emptyCases > 0 then
           if sz \<ge> 4 then 1
           else
             let bits = unat sz * 8;
                 casesPerTagBitValue = push_bit bits 1
             in drop_bit bits (emptyCases + (casesPerTagBitValue - 1))
         else 0)
      in if numTags \<le> 1 then 0 else if numTags < 256 then 1 else if numTags < 65536 then 2 else 4)"

definition swift_initEnumMetadataSingleCase :: "TypeLayout \<Rightarrow> TypeLayout \<Rightarrow> TypeLayout" where
  "swift_initEnumMetadataSingleCase payloadLayout vwtable =
     (let vwtable = vwtable\<lparr>tl_size := tl_size payloadLayout, tl_stride := tl_stride payloadLayout,
        tl_flags := withEnumWitnesses True (tl_flags payloadLayout)\<rparr>
      in if hasExtraInhabitants (tl_flags payloadLayout)
         then vwtable\<lparr>extraInhabitantFlags := extraInhabitantFlags payloadLayout\<rparr>
         else vwtable)"

text \<open>\<open>alignTo\<close> is LLVM's function: it rounds a size up to the next multiple of an alignment.\<close>

definition rounds_up :: "(size_t \<Rightarrow> size_t \<Rightarrow> size_t) \<Rightarrow> bool" where
  "rounds_up alignTo \<longleftrightarrow> (\<forall>v a. a \<noteq> 0 \<longrightarrow> unat v + unat a \<le> 2 ^ 64 \<longrightarrow>
     unat (alignTo v a) = (unat v + unat a - 1) div unat a * unat a)"

definition swift_initEnumMetadataSinglePayload ::
    "(size_t \<Rightarrow> size_t \<Rightarrow> size_t) \<Rightarrow> TypeLayout \<Rightarrow> unsigned \<Rightarrow> TypeLayout \<Rightarrow> TypeLayout" where
  "swift_initEnumMetadataSinglePayload alignTo payloadLayout emptyCases vwtable =
     (let payloadSize = tl_size payloadLayout;
          payloadNumExtraInhabitants = getNumExtraInhabitants payloadLayout;
          (sz, unusedExtraInhabitants) =
            (if payloadNumExtraInhabitants \<ge> emptyCases then (payloadSize, payloadNumExtraInhabitants - emptyCases)
             else (payloadSize + ucast (getNumTagBytes payloadSize (emptyCases - payloadNumExtraInhabitants) 1), 0));
          align = getAlignment (tl_flags payloadLayout);
          rawStride = alignTo sz align;
          vwtable = vwtable\<lparr>tl_size := sz,
            tl_flags := withInlineStorage (isValueInline sz align) (withEnumWitnesses True
              (withExtraInhabitants (unusedExtraInhabitants > 0) (tl_flags payloadLayout))),
            tl_stride := (if rawStride = 0 then 1 else rawStride)\<rparr>
      in if unusedExtraInhabitants > 0
         then vwtable\<lparr>extraInhabitantFlags := withNumExtraInhabitants unusedExtraInhabitants 0\<rparr>
         else vwtable)"

record EnumMetadata =
  em_payloadSize :: size_t
  NumPayloadCases :: unsigned
  NumEmptyCases :: unsigned
  em_witnesses :: TypeLayout

fun payload_requirements :: "TypeLayout list \<Rightarrow> size_t \<Rightarrow> size_t \<Rightarrow> bool \<Rightarrow> bool \<Rightarrow> size_t \<times> size_t \<times> bool \<times> bool" where
  "payload_requirements [] payloadSize alignMask pod bt = (payloadSize, alignMask, pod, bt)"
| "payload_requirements (payloadLayout # payloadLayouts) payloadSize alignMask pod bt =
     payload_requirements payloadLayouts (max payloadSize (tl_size payloadLayout))
       (alignMask OR getAlignmentMask (tl_flags payloadLayout)) (pod \<and> isPOD (tl_flags payloadLayout))
       (bt \<and> isBitwiseTakable (tl_flags payloadLayout))"

text \<open>The total size is computed in an \<open>unsigned\<close>.\<close>

definition swift_initEnumMetadataMultiPayload :: "unsigned \<Rightarrow> TypeLayout list \<Rightarrow> EnumMetadata \<Rightarrow> EnumMetadata" where
  "swift_initEnumMetadataMultiPayload numPayloads payloadLayouts enumType =
     (let (payloadSize, alignMask, pod, bt) = payload_requirements payloadLayouts 0 0 True True;
          totalSize = (ucast (payloadSize + ucast (getNumTagBytes payloadSize (NumEmptyCases enumType) numPayloads)) :: unsigned);
          rawStride = (ucast totalSize + alignMask) AND NOT alignMask
      in enumType\<lparr>em_payloadSize := payloadSize,
           em_witnesses := (em_witnesses enumType)\<lparr>tl_size := ucast totalSize,
             tl_flags := withInlineStorage (isValueInline (ucast totalSize) (alignMask + 1)) (withEnumWitnesses True
               (withExtraInhabitants False (withBitwiseTakable bt (withPOD pod (withAlignmentMask alignMask 0))))),
             tl_stride := (if rawStride = 0 then 1 else rawStride)\<rparr>\<rparr>)"

end
