(* ===== verification/Runtime_Enums.thy ===== *)
theory Runtime_Enums
  imports Runtime_Layout
begin

text \<open>
  Storing and reading the case of an enum value in the runtime, \<open>EnumImpl.h\<close> and \<open>Enum.cpp\<close>, on
  little-endian machines. A value is the list of its bytes; the result \<open>None\<close> is a crash or an access
  outside the value. The functions that read and write extra inhabitants belong to the payload type and
  are arguments.
\<close>

section \<open>Bytes\<close>

type_synonym bytes = "8 word list"

fun unsigned_of_bytes :: "bytes \<Rightarrow> unsigned" where
  "unsigned_of_bytes [] = 0"
| "unsigned_of_bytes (b # bs) = ucast b OR push_bit 8 (unsigned_of_bytes bs)"

fun bytes_of_unsigned :: "nat \<Rightarrow> unsigned \<Rightarrow> bytes" where
  "bytes_of_unsigned 0 v = []"
| "bytes_of_unsigned (Suc n) v = ucast v # bytes_of_unsigned n (drop_bit 8 v)"

definition store_bytes :: "nat \<Rightarrow> bytes \<Rightarrow> bytes \<Rightarrow> bytes option" where
  "store_bytes addr bs value = do {
     assert_that (addr + length bs \<le> length value);
     Some (take addr value @ bs @ drop (addr + length bs) value)
   }"

definition load_bytes :: "nat \<Rightarrow> nat \<Rightarrow> bytes \<Rightarrow> bytes option" where
  "load_bytes addr n value = do {
     assert_that (addr + n \<le> length value);
     Some (take n (drop addr value))
   }"

definition small_count :: "nat \<Rightarrow> bool \<Rightarrow> bool" where
  "small_count count countMaybeThree \<longleftrightarrow> count = 1 \<or> count = 2 \<or> countMaybeThree \<and> count = 3 \<or> count = 4"

text \<open>\<open>small_memcpy\<close> into a value from an \<open>unsigned\<close>, and out of a value into an \<open>unsigned\<close> that is zero.\<close>

definition small_memcpy_to :: "nat \<Rightarrow> unsigned \<Rightarrow> nat \<Rightarrow> bool \<Rightarrow> bytes \<Rightarrow> bytes option" where
  "small_memcpy_to addr v count countMaybeThree value = do {
     assert_that (small_count count countMaybeThree);
     store_bytes addr (bytes_of_unsigned count v) value
   }"

definition small_memcpy_from :: "nat \<Rightarrow> nat \<Rightarrow> bool \<Rightarrow> bytes \<Rightarrow> unsigned option" where
  "small_memcpy_from addr count countMaybeThree value = do {
     assert_that (small_count count countMaybeThree);
     bs \<leftarrow> load_bytes addr count value;
     Some (unsigned_of_bytes bs)
   }"

definition small_memset :: "nat \<Rightarrow> 8 word \<Rightarrow> nat \<Rightarrow> bytes \<Rightarrow> bytes option" where
  "small_memset addr b count value = do {
     assert_that (small_count count False);
     store_bytes addr (replicate count b) value
   }"

section \<open>Enums with one payload case\<close>

text \<open>\<open>payloadSize\<close> and the number of extra inhabitants are of type \<open>size_t\<close>; the result is an \<open>int\<close>.\<close>

definition getEnumTagSinglePayloadImpl ::
    "bytes \<Rightarrow> unsigned \<Rightarrow> size_t \<Rightarrow> size_t \<Rightarrow> (bytes \<Rightarrow> int) \<Rightarrow> int option" where
  "getEnumTagSinglePayloadImpl value emptyCases payloadSize payloadNumExtraInhabitants getExtraInhabitantIndex =
     (let inhabitant = (if payloadNumExtraInhabitants > 0 then Some (getExtraInhabitantIndex value) else Some (-1)) in
      if ucast emptyCases > payloadNumExtraInhabitants then do {
        let numBytes = getNumTagBytes payloadSize (ucast (ucast emptyCases - payloadNumExtraInhabitants)) 1;
        extraTagBits \<leftarrow> small_memcpy_from (unat payloadSize) (unat numBytes) False value;
        if extraTagBits > 0 then do {
          let caseIndexFromExtraTagBits =
            (if payloadSize \<ge> 4 then 0 else push_bit (unat payloadSize * 8) (extraTagBits - 1));
          let numPayloadTagBytes = unat (min 4 payloadSize);
          caseIndexFromValue \<leftarrow> (if numPayloadTagBytes = 0 then Some 0 else small_memcpy_from 0 numPayloadTagBytes True value);
          Some (sint (ucast (ucast (caseIndexFromExtraTagBits OR caseIndexFromValue) + payloadNumExtraInhabitants) :: unsigned))
        }
        else inhabitant
      }
      else inhabitant)"

definition storeEnumTagSinglePayloadImpl ::
    "bytes \<Rightarrow> int \<Rightarrow> unsigned \<Rightarrow> size_t \<Rightarrow> size_t \<Rightarrow> (bytes \<Rightarrow> int \<Rightarrow> bytes) \<Rightarrow> bytes option" where
  "storeEnumTagSinglePayloadImpl value whichCase emptyCases payloadSize payloadNumExtraInhabitants storeExtraInhabitant =
     (let numExtraTagBytes =
        (if ucast emptyCases > payloadNumExtraInhabitants
         then unat (getNumTagBytes payloadSize (ucast (ucast emptyCases - payloadNumExtraInhabitants)) 1) else 0) in
      if whichCase < sint (ucast payloadNumExtraInhabitants :: unsigned) then do {
        value \<leftarrow> (if numExtraTagBytes = 0 then Some value else small_memset (unat payloadSize) 0 numExtraTagBytes value);
        Some (if whichCase = -1 then value else storeExtraInhabitant value whichCase)
      }
      else do {
        let caseIndex = (ucast (word_of_int whichCase - payloadNumExtraInhabitants) :: unsigned);
        let (extraTagIndex, payloadIndex) =
          (if payloadSize \<ge> 4 then (1, caseIndex)
           else
             let payloadBits = unat payloadSize * 8
             in (1 + drop_bit payloadBits caseIndex, caseIndex AND (push_bit payloadBits 1 - 1)));
        let numPayloadTagBytes = unat (min 4 payloadSize);
        value \<leftarrow> (if numPayloadTagBytes = 0 then Some value else small_memcpy_to 0 payloadIndex numPayloadTagBytes True value);
        value \<leftarrow> (if payloadSize > 4 then store_bytes 4 (replicate (unat payloadSize - 4) 0) value else Some value);
        if numExtraTagBytes = 0 then Some value
        else small_memcpy_to (unat payloadSize) extraTagIndex numExtraTagBytes False value
      })"

text \<open>What the two need of the payload's value witness table.\<close>

record PayloadWitnesses =
  witness_layout :: TypeLayout
  getExtraInhabitantIndex :: "bytes \<Rightarrow> int"
  storeExtraInhabitant :: "bytes \<Rightarrow> int \<Rightarrow> bytes"

definition swift_getEnumCaseSinglePayload :: "bytes \<Rightarrow> PayloadWitnesses \<Rightarrow> unsigned \<Rightarrow> int option" where
  "swift_getEnumCaseSinglePayload value payload emptyCases =
     getEnumTagSinglePayloadImpl value emptyCases (tl_size (witness_layout payload))
       (ucast (getNumExtraInhabitants (witness_layout payload))) (getExtraInhabitantIndex payload)"

definition swift_storeEnumTagSinglePayload :: "bytes \<Rightarrow> PayloadWitnesses \<Rightarrow> int \<Rightarrow> unsigned \<Rightarrow> bytes option" where
  "swift_storeEnumTagSinglePayload value payload whichCase emptyCases =
     storeEnumTagSinglePayloadImpl value whichCase emptyCases (tl_size (witness_layout payload))
       (ucast (getNumExtraInhabitants (witness_layout payload))) (storeExtraInhabitant payload)"

section \<open>Enums with several payload cases\<close>

definition getMultiPayloadLayout :: "EnumMetadata \<Rightarrow> size_t \<times> size_t" where
  "getMultiPayloadLayout enumType =
     (let payloadSize = em_payloadSize enumType; totalSize = tl_size (em_witnesses enumType)
      in (payloadSize, totalSize - payloadSize))"

definition storeMultiPayloadTag :: "size_t \<times> size_t \<Rightarrow> unsigned \<Rightarrow> bytes \<Rightarrow> bytes option" where
  "storeMultiPayloadTag layout tag value =
     (case layout of (payloadSize, numTagBytes) \<Rightarrow> small_memcpy_to (unat payloadSize) tag (unat numTagBytes) False value)"

definition storeMultiPayloadValue :: "size_t \<times> size_t \<Rightarrow> unsigned \<Rightarrow> bytes \<Rightarrow> bytes option" where
  "storeMultiPayloadValue layout payloadValue value =
     (case layout of (payloadSize, numTagBytes) \<Rightarrow> do {
        value \<leftarrow> store_bytes 0 (bytes_of_unsigned (unat (min payloadSize 4)) payloadValue) value;
        if payloadSize > 4 then store_bytes 4 (replicate (unat payloadSize - 4) 0) value else Some value
      })"

definition loadMultiPayloadTag :: "bytes \<Rightarrow> size_t \<times> size_t \<Rightarrow> unsigned option" where
  "loadMultiPayloadTag value layout =
     (case layout of (payloadSize, numTagBytes) \<Rightarrow> small_memcpy_from (unat payloadSize) (unat numTagBytes) False value)"

definition loadMultiPayloadValue :: "bytes \<Rightarrow> size_t \<times> size_t \<Rightarrow> unsigned option" where
  "loadMultiPayloadValue value layout =
     (case layout of (payloadSize, numTagBytes) \<Rightarrow> map_option unsigned_of_bytes (load_bytes 0 (unat (min payloadSize 4)) value))"

text \<open>The mask of the payload value is built from the number of payload cases, and a shift by 32 or more
  is undefined.\<close>

definition swift_storeEnumTagMultiPayload :: "bytes \<Rightarrow> EnumMetadata \<Rightarrow> unsigned \<Rightarrow> bytes option" where
  "swift_storeEnumTagMultiPayload value enumType whichCase =
     (let layout = getMultiPayloadLayout enumType; numPayloads = NumPayloadCases enumType in
      if whichCase < numPayloads then storeMultiPayloadTag layout whichCase value
      else do {
        let whichEmptyCase = whichCase - numPayloads;
        (whichTag, whichPayloadValue) \<leftarrow>
          (if fst layout \<ge> 4 then Some (numPayloads, whichEmptyCase)
           else do {
             let numPayloadBits = unat (fst layout) * 8;
             assert_that (numPayloads < 32);
             Some (numPayloads + drop_bit numPayloadBits whichEmptyCase,
               whichEmptyCase AND (push_bit (unat numPayloads) 1 - 1))
           });
        value \<leftarrow> storeMultiPayloadTag layout whichTag value;
        storeMultiPayloadValue layout whichPayloadValue value
      })"

definition swift_getEnumCaseMultiPayload :: "bytes \<Rightarrow> EnumMetadata \<Rightarrow> unsigned option" where
  "swift_getEnumCaseMultiPayload value enumType = do {
     let layout = getMultiPayloadLayout enumType;
     let numPayloads = NumPayloadCases enumType;
     tag \<leftarrow> loadMultiPayloadTag value layout;
     if tag < numPayloads then Some tag
     else do {
       payloadValue \<leftarrow> loadMultiPayloadValue value layout;
       if fst layout \<ge> 4 then Some (numPayloads + payloadValue)
       else
         let numPayloadBits = unat (fst layout) * 8
         in Some ((payloadValue OR push_bit numPayloadBits (tag - numPayloads)) + numPayloads)
     }
   }"

section \<open>Extra inhabitants of heap object pointers\<close>

text \<open>The constants of a platform, and whether Objective-C objects exist on it.\<close>

record heap_object_abi =
  LeastValidPointerValue :: "64 word"
  ObjCReservedLowBits :: nat
  OBJC_INTEROP :: bool

definition darwin_x86_64 :: heap_object_abi where
  "darwin_x86_64 = \<lparr>LeastValidPointerValue = 0x100000000, ObjCReservedLowBits = 1, OBJC_INTEROP = True\<rparr>"

definition linux_x86_64 :: heap_object_abi where
  "linux_x86_64 = \<lparr>LeastValidPointerValue = 4096, ObjCReservedLowBits = 1, OBJC_INTEROP = False\<rparr>"

text \<open>A pointer is the first eight bytes of a value.\<close>

fun pointer_of_bytes :: "bytes \<Rightarrow> 64 word" where
  "pointer_of_bytes [] = 0"
| "pointer_of_bytes (b # bs) = ucast b OR push_bit 8 (pointer_of_bytes bs)"

fun bytes_of_pointer :: "nat \<Rightarrow> 64 word \<Rightarrow> bytes" where
  "bytes_of_pointer 0 v = []"
| "bytes_of_pointer (Suc n) v = ucast v # bytes_of_pointer n (drop_bit 8 v)"

definition swift_getHeapObjectExtraInhabitantIndex :: "heap_object_abi \<Rightarrow> bytes \<Rightarrow> int" where
  "swift_getHeapObjectExtraInhabitantIndex abi src =
     (let v = pointer_of_bytes (take 8 src) in
      if v \<ge> LeastValidPointerValue abi then -1
      else if OBJC_INTEROP abi \<and> v AND (push_bit (ObjCReservedLowBits abi) 1 - 1) \<noteq> 0 then -1
      else sint (ucast (drop_bit (ObjCReservedLowBits abi) v) :: 32 word))"

definition swift_storeHeapObjectExtraInhabitant :: "heap_object_abi \<Rightarrow> bytes \<Rightarrow> int \<Rightarrow> bytes" where
  "swift_storeHeapObjectExtraInhabitant abi dest index =
     bytes_of_pointer 8 (push_bit (ObjCReservedLowBits abi) (word_of_int index)) @ drop 8 dest"

definition swift_getHeapObjectExtraInhabitantCount :: "heap_object_abi \<Rightarrow> unsigned" where
  "swift_getHeapObjectExtraInhabitantCount abi =
     (let n = drop_bit (ObjCReservedLowBits abi) (LeastValidPointerValue abi)
      in if n > 0x7FFFFFFF then 0x7FFFFFFF else ucast n)"

text \<open>The witnesses of a pointer to a Swift object, as in \<open>RetainableBoxBase\<close>.\<close>

definition heap_object_witnesses :: "heap_object_abi \<Rightarrow> PayloadWitnesses" where
  "heap_object_witnesses abi = \<lparr>
     witness_layout = \<lparr>tl_size = 8,
       tl_flags = withExtraInhabitants True (withInlineStorage True (withBitwiseTakable True (withPOD False (withAlignment 8 0)))),
       tl_stride = 8, extraInhabitantFlags = withNumExtraInhabitants (swift_getHeapObjectExtraInhabitantCount abi) 0\<rparr>,
     getExtraInhabitantIndex = swift_getHeapObjectExtraInhabitantIndex abi,
     storeExtraInhabitant = swift_storeHeapObjectExtraInhabitant abi\<rparr>"

end
