(* ===== verification/Runtime_Layout_Facts.thy ===== *)
theory Runtime_Layout_Facts
  imports Runtime_Layout
begin

text \<open>
  Sequential layout as a specification on numbers, its properties, and that \<open>performBasicLayout\<close>
  implements it.
\<close>

section \<open>Sequential layout\<close>

definition round_up :: "nat \<Rightarrow> nat \<Rightarrow> nat" where
  "round_up s a = (s + a - 1) div a * a"

lemma round_up_dvd: "a dvd round_up s a"
  by (simp add: round_up_def)

lemma round_up_ge: "0 < a \<Longrightarrow> s \<le> round_up s a"
proof -
  assume a: "0 < a"
  have "s + a - 1 = (s + a - 1) div a * a + (s + a - 1) mod a" by (rule div_mult_mod_eq [symmetric])
  moreover have "(s + a - 1) mod a \<le> a - 1" using a mod_less_divisor [of a "s + a - 1"] by linarith
  ultimately show ?thesis using a unfolding round_up_def by linarith
qed

lemma round_up_le: "0 < a \<Longrightarrow> round_up s a \<le> s + a - 1"
  by (simp add: round_up_def)

text \<open>It is the least multiple that is large enough.\<close>

lemma round_up_least:
  assumes "0 < a" "a dvd m" "s \<le> m"
  shows "round_up s a \<le> m"
proof -
  obtain k where "m = a * k" using assms(2) by (elim dvdE)
  then have k: "m = k * a" by simp
  have "s + a - 1 < (k + 1) * a" using assms(1,3) k by (simp add: algebra_simps)
  then have "(s + a - 1) div a < k + 1" using assms(1) by (simp add: div_less_iff_less_mult)
  then show ?thesis unfolding round_up_def k by simp
qed

text \<open>Sizes and alignments of the elements, from a first offset: the offsets, and the size.\<close>

fun seq_layout :: "nat \<Rightarrow> (nat \<times> nat) list \<Rightarrow> nat list \<times> nat" where
  "seq_layout s [] = ([], s)"
| "seq_layout s ((z, a) # es) =
     (let offset = round_up s a; (offsets, sz) = seq_layout (offset + z) es in (offset # offsets, sz))"

definition max_alignment :: "(nat \<times> nat) list \<Rightarrow> nat" where
  "max_alignment es = foldr (\<lambda>e. max (snd e)) es 1"

definition stride_of :: "nat \<Rightarrow> nat \<Rightarrow> nat" where
  "stride_of s a = max 1 (round_up s a)"

text \<open>Every element is aligned, starts after the end of the one before, and lies within the size.\<close>

definition well_placed :: "nat \<Rightarrow> (nat \<times> nat) list \<Rightarrow> nat list \<Rightarrow> nat \<Rightarrow> bool" where
  "well_placed s es offsets sz \<longleftrightarrow> length offsets = length es \<and> s \<le> sz \<and>
     (\<forall>i < length es. snd (es ! i) dvd offsets ! i \<and> s \<le> offsets ! i \<and> offsets ! i + fst (es ! i) \<le> sz) \<and>
     (\<forall>i < length es. \<forall>j < i. offsets ! j + fst (es ! j) \<le> offsets ! i)"

lemma seq_layout_well_placed:
  "\<forall>e \<in> set es. 0 < snd e \<Longrightarrow> seq_layout s es = (offsets, sz) \<Longrightarrow> well_placed s es offsets sz"
proof (induction es arbitrary: s offsets sz)
  case Nil
  then show ?case by (simp add: well_placed_def)
next
  case (Cons e es)
  obtain z a where e: "e = (z, a)" by (cases e)
  let ?o = "round_up s a"
  obtain os where os: "seq_layout (?o + z) es = (os, sz)" "offsets = ?o # os"
    using Cons.prems(2) e by (auto simp: Let_def split: prod.splits)
  have IH: "well_placed (?o + z) es os sz" using Cons.IH [OF _ os(1)] Cons.prems(1) by simp
  have o: "s \<le> ?o" "a dvd ?o" using round_up_ge [of a s] round_up_dvd [of a s] Cons.prems(1) e by simp_all
  show ?case unfolding well_placed_def
  proof (intro conjI allI impI)
    fix i assume i: "i < length (e # es)"
    show "snd ((e # es) ! i) dvd offsets ! i" "s \<le> offsets ! i" "offsets ! i + fst ((e # es) ! i) \<le> sz"
      using i IH o e os(2) by (cases i; force simp: well_placed_def)+
    fix j assume "j < i"
    then show "offsets ! j + fst ((e # es) ! j) \<le> offsets ! i"
      using i IH o e os(2) by (cases i; cases j; force simp: well_placed_def)
  qed (use IH o os(2) in \<open>auto simp: well_placed_def\<close>)
qed

lemma max_alignment_ge: "e \<in> set es \<Longrightarrow> snd e \<le> max_alignment es"
  by (induction es) (auto simp: max_alignment_def)

lemma max_alignment_pos: "1 \<le> max_alignment es"
  by (induction es) (auto simp: max_alignment_def)

lemma seq_layout_mono: "seq_layout s es = (os, sz) \<Longrightarrow> \<forall>e \<in> set es. 0 < snd e \<Longrightarrow> s \<le> sz"
  using seq_layout_well_placed [of es s os sz] by (simp add: well_placed_def)

section \<open>Rounding on words\<close>

lemma and_not_mask_nat: "unat ((x :: 'a :: len word) AND NOT (mask k)) = unat x div 2 ^ k * 2 ^ k"
proof -
  have "x AND NOT (mask k) = push_bit k (drop_bit k x)" by (rule bit_word_eqI) (auto simp: bit_simps)
  moreover have "push_bit k w = of_nat (unat w * 2 ^ k)" for w :: "'a word" by (simp add: push_bit_eq_mult)
  moreover have "unat (drop_bit k x) = unat x div 2 ^ k" by (subst unat_drop_bit_eq) (simp add: drop_bit_eq_div)
  ultimately have "x AND NOT (mask k) = of_nat (unat x div 2 ^ k * 2 ^ k)" by simp
  moreover have "unat x div 2 ^ k * 2 ^ k < 2 ^ LENGTH('a)"
    using unsigned_less [of x] by (intro order_le_less_trans [OF div_times_less_eq_dividend])
  ultimately show ?thesis by (simp only: unat_of_nat mod_less)
qed

lemma round_up_word:
  assumes "unat (m :: 'a :: len word) + 1 = 2 ^ k" "unat s + unat m < 2 ^ LENGTH('a)"
  shows "unat ((s + m) AND NOT m) = round_up (unat s) (unat m + 1)"
proof -
  have "unat m = mask k" using assms(1) by (simp add: mask_eq_exp_minus_1)
  then have "of_nat (unat m) = (of_nat (mask k) :: 'a word)" by simp
  then have "m = mask k" by (simp add: of_nat_mask_eq)
  then have "unat ((s + m) AND NOT m) = unat (s + m) div 2 ^ k * 2 ^ k" using and_not_mask_nat by blast
  also have "unat (s + m) = unat s + unat m" using assms(2) by (simp add: unat_add_lem [THEN iffD1])
  finally show ?thesis by (simp add: round_up_def flip: assms(1))
qed

section \<open>The runtime implements sequential layout\<close>

definition alignment_of :: "TypeLayout \<Rightarrow> nat" where
  "alignment_of L = unat (getAlignmentMask (tl_flags L)) + 1"

definition shape :: "TypeLayout \<Rightarrow> nat \<times> nat" where
  "shape L = (unat (tl_size L), alignment_of L)"

definition power_aligned :: "TypeLayout \<Rightarrow> bool" where
  "power_aligned L \<longleftrightarrow> (\<exists>k. alignment_of L = 2 ^ k)"

lemma alignment_bound: "alignment_of L \<le> 65536"
proof -
  have "getAlignmentMask (tl_flags L) \<le> AlignmentMask" by (simp add: getAlignmentMask_def word_and_le1)
  then show ?thesis by (simp add: alignment_of_def word_le_nat_alt AlignmentMask_def)
qed

lemma layout_elements_seq:
  assumes "\<forall>L \<in> set Ls. power_aligned L" "seq_layout (unat s) (map shape Ls) = (os, z)" "z + 65536 \<le> 2 ^ 64"
  shows "\<exists>ws s' m' p' b'. layout_elements Ls s m p b = (ws, s', m', p', b') \<and> map unat ws = os \<and> unat s' = z \<and>
    unat m' = foldr (\<lambda>L. max (alignment_of L - 1)) Ls (unat m)"
  using assms
proof (induction Ls arbitrary: s m p b os z)
  case (Cons L Ls)
  let ?a = "alignment_of L" and ?m = "getAlignmentMask (tl_flags L)"
  let ?o = "round_up (unat s) ?a"
  obtain os' where os: "seq_layout (?o + unat (tl_size L)) (map shape Ls) = (os', z)" "os = ?o # os'"
    using Cons.prems(2) by (auto simp: shape_def [of L] Let_def split: prod.splits)
  have pos: "\<forall>e \<in> set (map shape Ls). 0 < snd e" by (auto simp: shape_def alignment_of_def)
  have le: "?o + unat (tl_size L) \<le> z" using seq_layout_mono [OF os(1) pos] .
  have "unat s \<le> ?o" by (rule round_up_ge) (simp add: alignment_of_def)
  then have "unat s + unat ?m < 2 ^ LENGTH(64)" using le Cons.prems(3) alignment_bound [of L] by (simp add: alignment_of_def)
  moreover obtain k where "unat ?m + 1 = 2 ^ k" using Cons.prems(1) by (auto simp: power_aligned_def alignment_of_def)
  ultimately have o: "unat (roundUpToAlignMask s ?m) = ?o"
    unfolding roundUpToAlignMask_def alignment_of_def by (intro round_up_word)
  have "unat (roundUpToAlignMask s ?m + tl_size L) = ?o + unat (tl_size L)"
    unfolding o [symmetric] by (subst unat_add_lem [THEN iffD1]) (use o le Cons.prems(3) in simp_all)
  with os(1) Cons.IH [of "roundUpToAlignMask s ?m + tl_size L" os' z "max m ?m" "p \<and> isPOD (tl_flags L)" "b \<and> isBitwiseTakable (tl_flags L)"]
    Cons.prems(1,3) obtain ws s' m' p' b' where r: "layout_elements Ls (roundUpToAlignMask s ?m + tl_size L) (max m ?m)
      (p \<and> isPOD (tl_flags L)) (b \<and> isBitwiseTakable (tl_flags L)) = (ws, s', m', p', b')" "map unat ws = os'" "unat s' = z"
      "unat m' = foldr (\<lambda>L. max (alignment_of L - 1)) Ls (unat (max m ?m))" by auto
  have "foldr (\<lambda>L. max (alignment_of L - 1)) Ls (max x y) = max y (foldr (\<lambda>L. max (alignment_of L - 1)) Ls x)" for x y
    by (induction Ls) (auto simp: max_def)
  moreover have "unat (max m ?m) = max (unat m) (?a - 1)" by (simp add: max_def word_le_nat_alt alignment_of_def)
  ultimately show ?case using r o os(2) by (simp add: Let_def)
qed simp

lemma keep_alignment:
  fixes x y C A :: size_t
  assumes "C AND A = 0" "y AND A = 0"
  shows "((x AND NOT C) OR y) AND A = x AND A"
proof (rule bit_word_eqI)
  fix n assume "n < LENGTH(64)"
  have "\<not> (bit C n \<and> bit A n)" "\<not> (bit y n \<and> bit A n)" using assms by (metis bit_0_eq bit_and_iff bot_apply bot_bool_def)+
  then show "bit (((x AND NOT C) OR y) AND A) n = bit (x AND A) n" using \<open>n < LENGTH(64)\<close> by (auto simp: bit_simps)
qed

lemma alignment_mask_with:
  "getAlignmentMask (withPOD b D) = getAlignmentMask D" "getAlignmentMask (withBitwiseTakable b D) = getAlignmentMask D"
  "getAlignmentMask (withInlineStorage b D) = getAlignmentMask D" "getAlignmentMask (withExtraInhabitants b D) = getAlignmentMask D"
  "getAlignmentMask (withEnumWitnesses b D) = getAlignmentMask D"
  unfolding getAlignmentMask_def withPOD_def withBitwiseTakable_def withInlineStorage_def withExtraInhabitants_def withEnumWitnesses_def
  by (rule keep_alignment; simp add: witness_masks)+

lemma extra_inhabitants_with:
  "withPOD b D AND HasExtraInhabitants = D AND HasExtraInhabitants"
  "withBitwiseTakable b D AND HasExtraInhabitants = D AND HasExtraInhabitants"
  "withInlineStorage b D AND HasExtraInhabitants = D AND HasExtraInhabitants"
  "withEnumWitnesses b D AND HasExtraInhabitants = D AND HasExtraInhabitants"
  unfolding withPOD_def withBitwiseTakable_def withInlineStorage_def withEnumWitnesses_def
  by (rule keep_alignment; simp add: witness_masks)+

lemma has_extra_inhabitants: "hasExtraInhabitants (withExtraInhabitants b Data) = b"
proof -
  have "((Data AND NOT HasExtraInhabitants) OR HasExtraInhabitants) AND HasExtraInhabitants = HasExtraInhabitants"
    "(Data AND NOT HasExtraInhabitants) AND HasExtraInhabitants = 0"
    by (auto intro!: bit_word_eqI simp: bit_simps)
  then show ?thesis by (cases b) (simp_all add: hasExtraInhabitants_def withExtraInhabitants_def, simp add: HasExtraInhabitants_def)
qed

lemma alignment_mask_set: "m \<le> 0xFFFF \<Longrightarrow> getAlignmentMask (withAlignmentMask m 0) = m"
proof -
  assume "m \<le> 0xFFFF"
  then have "unat m < 2 ^ 16" by (simp add: word_le_nat_alt)
  then have "take_bit 16 m = m" by (simp add: word_unat_eq_iff unsigned_take_bit_eq take_bit_nat_eq_self_iff)
  moreover have "AlignmentMask = mask 16" by (simp add: AlignmentMask_def mask_eq_exp_minus_1)
  ultimately show ?thesis by (simp add: getAlignmentMask_def withAlignmentMask_def take_bit_eq_mask)
qed

lemma fold_alignment: "foldr (\<lambda>L. max (alignment_of L - 1)) Ls 0 + 1 = max_alignment (map shape Ls)"
  by (induction Ls) (auto simp: max_alignment_def shape_def alignment_of_def max_def)

lemma max_alignment_bound: "max_alignment (map shape Ls) \<le> 65536"
  by (induction Ls) (auto simp: max_alignment_def shape_def alignment_bound)

lemma max_alignment_power: "\<forall>L \<in> set Ls. power_aligned L \<Longrightarrow> \<exists>k. max_alignment (map shape Ls) = 2 ^ k"
proof (induction Ls)
  case Nil
  then show ?case by (auto simp: max_alignment_def intro: exI [of _ 0])
next
  case (Cons L Ls)
  then show ?case by (auto simp: max_alignment_def shape_def power_aligned_def max_def)
qed

lemma struct_metadata_layout:
  assumes "Ls \<noteq> []" "\<forall>L \<in> set Ls. power_aligned L" "seq_layout 0 (map shape Ls) = (os, z)" "z + 65536 \<le> 2 ^ 64"
  shows "\<exists>ws V. swift_initStructMetadata Ls vw = Some (ws, V) \<and> map unat ws = os \<and> unat (tl_size V) = z \<and>
    alignment_of V = max_alignment (map shape Ls) \<and> unat (tl_stride V) = stride_of z (max_alignment (map shape Ls)) \<and>
    hasExtraInhabitants (tl_flags (hd Ls)) = hasExtraInhabitants (tl_flags V) \<and>
    getNumExtraInhabitants V = getNumExtraInhabitants (hd Ls)"
proof -
  have i: "bl_size initialForValueType = 0" "getAlignmentMask (bl_flags initialForValueType) = 0"
    "isPOD (bl_flags initialForValueType)" "isBitwiseTakable (bl_flags initialForValueType)"
    by (simp_all add: initialForValueType_def withAlignment_def withAlignmentMask_def withPOD_def getAlignmentMask_def isPOD_def
        isBitwiseTakable_def witness_masks)
  from layout_elements_seq [of Ls 0 os z 0 True True] assms(2-4) obtain ws s' m p b where
    r: "layout_elements Ls 0 0 True True = (ws, s', m, p, b)" "map unat ws = os" "unat s' = z"
      "unat m = foldr (\<lambda>L. max (alignment_of L - 1)) Ls 0" by auto
  let ?A = "max_alignment (map shape Ls)"
  have m: "unat m + 1 = ?A" using r(4) fold_alignment [of Ls] by simp
  then have "m \<le> 0xFFFF" using max_alignment_bound [of Ls] by (simp add: word_le_nat_alt)
  note am = alignment_mask_set [OF this]
  obtain k where k: "?A = 2 ^ k" using max_alignment_power [OF assms(2)] by blast
  have "unat (roundUpToAlignMask s' m) = round_up z ?A"
    unfolding roundUpToAlignMask_def m [symmetric] r(3) [symmetric]
    by (rule round_up_word) (use m k r(3) assms(4) max_alignment_bound [of Ls] in simp_all)
  then have st: "unat (max 1 (roundUpToAlignMask s' m)) = stride_of z ?A"
    by (simp add: stride_of_def max_def word_le_nat_alt)
  obtain L Ls' where L: "Ls = L # Ls'" using assms(1) by (cases Ls) auto
  let ?flags = "withInlineStorage (isValueInline s' (m + 1)) (withBitwiseTakable b (withPOD p (withAlignmentMask m 0)))"
  have fl: "getAlignmentMask ?flags = m" by (simp add: alignment_mask_with am)
  have nx: "\<not> hasExtraInhabitants ?flags"
  proof -
    have "withAlignmentMask m 0 AND HasExtraInhabitants = 0"
    proof -
      have "m = m AND AlignmentMask" using am by (simp add: getAlignmentMask_def withAlignmentMask_def)
      then have "m AND HasExtraInhabitants = m AND (AlignmentMask AND HasExtraInhabitants)" by (metis and.assoc)
      also have "AlignmentMask AND HasExtraInhabitants = 0" by (simp add: witness_masks)
      finally show ?thesis by (simp add: withAlignmentMask_def)
    qed
    then show ?thesis by (simp add: hasExtraInhabitants_def extra_inhabitants_with)
  qed
  show ?thesis
  proof (cases "hasExtraInhabitants (tl_flags L)")
    case True
    then show ?thesis using r(1-3) i L st m fl
      by (simp add: swift_initStructMetadata_def performBasicLayout_def alignment_of_def alignment_mask_with getNumExtraInhabitants_def
          has_extra_inhabitants)
  next
    case False
    then show ?thesis using r(1-3) i L st m fl nx
      by (simp add: swift_initStructMetadata_def performBasicLayout_def alignment_of_def getNumExtraInhabitants_def)
  qed
qed

end
