(* ===== verification/Runtime_Enum_Facts.thy ===== *)
theory Runtime_Enum_Facts
  imports Runtime_Enums Runtime_Layout_Facts
begin

text \<open>
  Bytes and numbers, the number of tag bytes, and what is read from an enum value after its case has
  been stored.
\<close>

section \<open>Bytes\<close>

lemma length_bytes_of_unsigned [simp]: "length (bytes_of_unsigned n v) = n"
  by (induction n arbitrary: v) simp_all

lemma length_bytes_of_pointer [simp]: "length (bytes_of_pointer n v) = n"
  by (induction n arbitrary: v) simp_all

lemma take_bit_split: "ucast (ucast v :: 8 word) OR push_bit 8 (take_bit k (drop_bit 8 v)) = take_bit (8 + k) (v :: 'a :: len word)"
  if "8 \<le> LENGTH('a)"
  using that by (intro bit_word_eqI) (auto simp: bit_simps)

lemma unsigned_of_bytes_of: "unsigned_of_bytes (bytes_of_unsigned n v) = take_bit (8 * n) v"
proof (induction n arbitrary: v)
  case (Suc n)
  have "8 * Suc n = 8 + 8 * n" by simp
  with Suc show ?case using take_bit_split [of v "8 * n"] by (simp del: mult_Suc_right)
qed simp

lemma pointer_of_bytes_of: "pointer_of_bytes (bytes_of_pointer n v) = take_bit (8 * n) v"
proof (induction n arbitrary: v)
  case (Suc n)
  have "8 * Suc n = 8 + 8 * n" by simp
  with Suc show ?case using take_bit_split [of v "8 * n"] by (simp del: mult_Suc_right)
qed simp

lemma store_bytes_some: "addr + length bs \<le> length mem \<Longrightarrow>
    store_bytes addr bs mem = Some (take addr mem @ bs @ drop (addr + length bs) mem)"
  by (simp add: store_bytes_def)

lemma store_bytes_length: "store_bytes addr bs mem = Some mem' \<Longrightarrow> length mem' = length mem"
  by (auto simp: store_bytes_def bind_eq_Some_iff)

lemma store_bytes_take: "store_bytes addr bs mem = Some mem' \<Longrightarrow> n \<le> addr \<Longrightarrow> take n mem' = take n mem"
  by (auto simp: store_bytes_def bind_eq_Some_iff)

lemma store_bytes_drop: "store_bytes addr bs mem = Some mem' \<Longrightarrow> addr + length bs \<le> n \<Longrightarrow> drop n mem' = drop n mem"
  by (auto simp: store_bytes_def bind_eq_Some_iff min_def)

lemma store_bytes_here: "store_bytes addr bs mem = Some mem' \<Longrightarrow> take (length bs) (drop addr mem') = bs"
  by (auto simp: store_bytes_def bind_eq_Some_iff min_def)

lemma load_bytes_some: "addr + n \<le> length mem \<Longrightarrow> load_bytes addr n mem = Some (take n (drop addr mem))"
  by (simp add: load_bytes_def)

section \<open>The number of tag bytes\<close>

lemma tag_bytes_cases: "getNumTagBytes sz e p \<in> {0, 1, 2, 4}"
  by (simp add: getNumTagBytes_def Let_def)

definition tag_count :: "nat \<Rightarrow> nat \<Rightarrow> nat \<Rightarrow> nat" where
  "tag_count sz emptyCases payloadCases =
     payloadCases + (if emptyCases = 0 then 0 else if sz \<ge> 4 then 1 else (emptyCases + (2 ^ (8 * sz) - 1)) div 2 ^ (8 * sz))"

definition bytes_for :: "nat \<Rightarrow> nat" where
  "bytes_for tags = (if tags \<le> 1 then 0 else if tags < 256 then 1 else if tags < 65536 then 2 else 4)"

lemma bytes_for_fits: "t < tags \<Longrightarrow> tags < 2 ^ 32 \<Longrightarrow> t < 2 ^ (8 * bytes_for tags)"
  by (auto simp: bytes_for_def split: if_splits)

lemma bytes_for_small: "1 < tags \<Longrightarrow> small_count (bytes_for tags) b"
  by (auto simp: bytes_for_def small_count_def)

lemma bytes_for_le: "bytes_for tags \<le> 4"
  by (simp add: bytes_for_def)

lemma pow_bits_le: "sz < 4 \<Longrightarrow> (2::nat) ^ (8 * sz) \<le> 2 ^ 24"
  by (rule power_increasing) auto

lemma tag_count_le: "tag_count sz e p \<le> p + e"
proof (cases "e = 0 \<or> sz \<ge> 4")
  case False
  let ?b = "(2::nat) ^ (8 * sz)"
  have "(e + (?b - 1)) div ?b \<le> e"
  proof -
    have "e + (?b - 1) \<le> e * ?b" using False by (cases e) (auto simp: algebra_simps)
    then show ?thesis using div_le_mono [of "e + (?b - 1)" "e * ?b" ?b] by simp
  qed
  with False show ?thesis by (simp add: tag_count_def)
qed (auto simp: tag_count_def)

lemma unat_tag_bytes:
  assumes "unat p + unat e + 2 ^ 24 < 2 ^ 32"
  shows "unat (getNumTagBytes sz e p) = bytes_for (tag_count (unat sz) (unat e) (unat p))"
proof -
  let ?t = "if e > 0 then if sz \<ge> 4 then 1
      else drop_bit (unat sz * 8) (e + (push_bit (unat sz * 8) 1 - 1)) else (0 :: unsigned)"
  have e: "e > 0 \<longleftrightarrow> unat e \<noteq> 0" by (simp add: word_greater_zero_iff unat_eq_zero)
  have z: "sz \<ge> 4 \<longleftrightarrow> unat sz \<ge> 4" by (simp add: word_le_nat_alt)
  have t: "unat ?t = tag_count (unat sz) (unat e) 0"
  proof (cases "e > 0 \<and> \<not> sz \<ge> 4")
    case True
    then have s: "unat sz < 4" using z by simp
    let ?b = "(2::nat) ^ (8 * unat sz)"
    have b: "?b \<le> 2 ^ 24" by (rule pow_bits_le [OF s])
    have p: "unat (push_bit (unat sz * 8) 1 :: unsigned) = ?b"
    proof -
      have "push_bit (unat sz * 8) 1 = (of_nat ?b :: unsigned)" by (simp add: push_bit_eq_mult mult.commute)
      then show ?thesis using b by (simp only: unat_of_nat) simp
    qed
    define m :: unsigned where "m = push_bit (unat sz * 8) 1 - 1"
    have "unat m = ?b - 1" unfolding m_def
      by (subst unat_sub) (use p in \<open>simp_all add: word_le_nat_alt\<close>)
    then have u: "unat (e + m) = unat e + (?b - 1)"
      using assms b by (subst unat_add_lem [THEN iffD1]) auto
    have "unat (drop_bit (unat sz * 8) (e + m)) = unat (e + m) div ?b"
      by (subst unat_drop_bit_eq) (simp add: drop_bit_eq_div mult.commute)
    then show ?thesis using True e z s unfolding m_def [symmetric] u by (simp add: tag_count_def)
  next
    case False
    then show ?thesis using e z by (auto simp: tag_count_def)
  qed
  moreover have "tag_count (unat sz) (unat e) 0 \<le> unat e" using tag_count_le [of "unat sz" "unat e" 0] by simp
  ultimately have "unat (p + ?t) = unat p + tag_count (unat sz) (unat e) 0"
    using assms by (subst unat_add_lem [THEN iffD1]) auto
  then have u: "unat (p + ?t) = tag_count (unat sz) (unat e) (unat p)" by (simp add: tag_count_def)
  show ?thesis unfolding getNumTagBytes_def Let_def
    by (simp only: word_le_nat_alt word_less_nat_alt u [simplified word_le_nat_alt word_less_nat_alt] bytes_for_def) simp
qed

text \<open>The tag of an empty case is among the counted tags.\<close>

lemma tag_in_count:
  assumes "i < e"
  shows "p + (if sz \<ge> 4 then 0 else i div 2 ^ (8 * sz)) < tag_count sz e p"
proof (cases "sz \<ge> 4")
  case False
  let ?b = "(2::nat) ^ (8 * sz)"
  have "i div ?b < (e + (?b - 1)) div ?b"
  proof -
    have "i + ?b \<le> e + (?b - 1)" using assms by (simp add: Suc_le_eq)
    then have "(i + ?b) div ?b \<le> (e + (?b - 1)) div ?b" by (rule div_le_mono)
    moreover have "(i + ?b) div ?b = i div ?b + 1" by (rule div_add_self2) simp
    ultimately show ?thesis by linarith
  qed
  with False assms show ?thesis by (simp add: tag_count_def)
qed (use assms in \<open>simp add: tag_count_def\<close>)

section \<open>One payload case\<close>

lemma small_memcpy_to_some:
  assumes "small_count n b" "addr + n \<le> length mem"
  shows "\<exists>mem'. small_memcpy_to addr v n b mem = Some mem' \<and> length mem' = length mem \<and>
    take n (drop addr mem') = bytes_of_unsigned n v \<and> (\<forall>m \<le> addr. take m mem' = take m mem) \<and>
    (\<forall>m \<ge> addr + n. drop m mem' = drop m mem)"
proof -
  obtain mem' where s: "store_bytes addr (bytes_of_unsigned n v) mem = Some mem'"
    using store_bytes_some [of addr "bytes_of_unsigned n v" mem] assms(2) by auto
  then have "small_memcpy_to addr v n b mem = Some mem'" using assms(1) by (simp add: small_memcpy_to_def)
  then show ?thesis
    using store_bytes_length [OF s] store_bytes_here [OF s] store_bytes_take [OF s] store_bytes_drop [OF s] by auto
qed

lemma small_memcpy_from_some:
  assumes "small_count n b" "take n (drop addr mem) = bytes_of_unsigned n v" "addr + n \<le> length mem" "take_bit (8 * n) v = v"
  shows "small_memcpy_from addr n b mem = Some v"
  using assms by (simp add: small_memcpy_from_def load_bytes_some unsigned_of_bytes_of)

lemma memcpy_payload:
  assumes "unat sz \<le> length mem"
  shows "\<exists>mem'. (if unat (min 4 sz) = 0 then Some mem else small_memcpy_to 0 v (unat (min 4 (sz :: size_t))) True mem) = Some mem' \<and>
    length mem' = length mem \<and> take (min 4 (unat sz)) mem' = bytes_of_unsigned (min 4 (unat sz)) v \<and> drop (unat sz) mem' = drop (unat sz) mem"
proof (cases "unat sz = 0")
  case True
  then have "sz = 0" by (simp add: unat_eq_zero)
  then show ?thesis by simp
next
  case False
  have m: "unat (min 4 sz) = min 4 (unat sz)" by (simp add: min_def word_le_nat_alt)
  have "small_count (min 4 (unat sz)) True" using False unfolding small_count_def by (auto simp: min_def)
  moreover have "0 + min 4 (unat sz) \<le> length mem" using assms by simp
  ultimately obtain mem' where
    "small_memcpy_to 0 v (min 4 (unat sz)) True mem = Some mem'" "length mem' = length mem"
    "take (min 4 (unat sz)) mem' = bytes_of_unsigned (min 4 (unat sz)) v" "\<forall>k \<ge> min 4 (unat sz). drop k mem' = drop k mem"
    using small_memcpy_to_some [of "min 4 (unat sz)" True 0 mem v] by auto
  moreover have "min 4 (unat sz) \<noteq> 0" using False by (simp add: min_def)
  moreover have nz: "unat (min 4 sz) \<noteq> 0" using False m by (simp add: min_def split: if_splits)
  ultimately show ?thesis by (intro exI [of _ mem'] conjI, subst if_not_P [OF nz]) (simp_all add: m)
qed

lemma store_rest:
  assumes "unat sz \<le> length mem"
  shows "\<exists>mem'. (if sz > (4 :: size_t) then store_bytes 4 (replicate (unat sz - 4) 0) mem else Some mem) = Some mem' \<and>
    length mem' = length mem \<and> take (min 4 (unat sz)) mem' = take (min 4 (unat sz)) mem \<and> drop (unat sz) mem' = drop (unat sz) mem"
proof (cases "sz > 4")
  case True
  then have "4 < unat sz" by (simp add: word_less_nat_alt)
  with assms obtain mem' where s: "store_bytes 4 (replicate (unat sz - 4) 0) mem = Some mem'"
    using store_bytes_some [of 4 "replicate (unat sz - 4) 0" mem] by auto
  with True \<open>4 < unat sz\<close> store_bytes_length [OF s] store_bytes_take [OF s, of 4] store_bytes_drop [OF s, of "unat sz"] show ?thesis
    by (simp add: min_def)
qed auto

lemma mask_word: "push_bit n 1 - 1 = (mask n :: unsigned)"
  by (simp add: mask_eq_exp_minus_1 push_bit_eq_mult)

lemma unat_ge_4: "sz \<ge> (4 :: size_t) \<longleftrightarrow> unat sz \<ge> 4"
  by (simp add: word_le_nat_alt)

lemma take_bit_small: "unat (w :: unsigned) < 2 ^ n \<Longrightarrow> take_bit n w = w"
  by (rule word_unat_eq_iff [THEN iffD2]) (simp add: unsigned_take_bit_eq take_bit_nat_eq_self_iff)

lemma empty_case_tag:
  assumes "unat k < e" "1 + e < 2 ^ 32" "T = bytes_for (tag_count S e 1)" "0 < T"
    "tag = (if S \<ge> 4 then 1 else 1 + drop_bit (S * 8) (k :: unsigned))"
  shows "take_bit (8 * T) tag = tag" "tag > 0"
proof -
  have k: "unat (drop_bit (S * 8) k) = unat k div 2 ^ (8 * S)"
    by (subst unat_drop_bit_eq) (simp add: drop_bit_eq_div mult.commute)
  then have d: "unat (drop_bit (S * 8) k) < 2 ^ 32 - 1"
    using assms(1,2) div_le_dividend [of "unat k" "2 ^ (8 * S)"] by linarith
  have t: "unat tag = 1 + (if S \<ge> 4 then 0 else unat k div 2 ^ (8 * S))"
  proof (cases "S \<ge> 4")
    case False
    then have "unat tag = unat (1 :: unsigned) + unat (drop_bit (S * 8) k)"
      unfolding assms(5) using d by (simp only: if_False) (subst unat_add_lem [THEN iffD1], simp_all)
    with False k show ?thesis by simp
  qed (simp add: assms(5))
  have "unat tag < tag_count S e 1" using tag_in_count [OF assms(1), of 1 S] t by simp
  moreover have "tag_count S e 1 < 2 ^ 32" using tag_count_le [of S e 1] assms(2) by simp
  ultimately have "unat tag < 2 ^ (8 * T)" unfolding assms(3) by (rule bytes_for_fits)
  then show "take_bit (8 * T) tag = tag"
    by (rule take_bit_small)
  show "tag > 0" using t by (simp add: word_less_nat_alt)
qed

section \<open>Widths\<close>

lemma unat_up [simp]: "unat (ucast (n :: unsigned) :: size_t) = unat n"
proof -
  have "unat n < 2 ^ 32" using unsigned_less [of n] by simp
  then show ?thesis by (simp add: unsigned_ucast_eq take_bit_nat_eq_self_iff)
qed

lemma unat_down: "unat (w :: size_t) < 2 ^ 32 \<Longrightarrow> unat (ucast w :: unsigned) = unat w"
  by (simp add: unsigned_ucast_eq take_bit_nat_eq_self_iff)

lemma sint_small: "unat (w :: unsigned) < 2 ^ 31 \<Longrightarrow> sint w = int (unat w)"
proof -
  assume "unat w < 2 ^ 31"
  then have "int (unat w) < int (2 ^ 31)" by (simp only: of_nat_less_iff)
  then have "uint w < 2 ^ 31" by simp
  moreover have "- (2 ^ 31) \<le> uint w" by (rule order_trans [OF _ uint_nonnegative]) simp
  ultimately show ?thesis using signed_take_bit_int_eq_self [of 31 "uint w"] by (simp add: sint_uint)
qed

lemma sint_ucast_small:
  assumes "unat (w :: size_t) = n" "n < 2 ^ 31"
  shows "sint (ucast w :: unsigned) = int n"
proof -
  have u: "unat (ucast w :: unsigned) = n" using unat_down [of w] assms by simp
  show ?thesis using sint_small [of "ucast w"] assms(2) unfolding u by simp
qed

lemma unat_of_nat_small: "n < 2 ^ LENGTH('a) \<Longrightarrow> unat (of_nat n :: 'a :: len word) = n"
  by (simp add: unat_of_nat)

text \<open>Storing and reading an empty case that is not an extra inhabitant.\<close>

lemma store_empty_case:
  assumes "unat sz = S" "X < unat n" "unat n < 2 ^ 31" "c = int (X + k)" "X + k < unat n"
    "T = bytes_for (tag_count S (unat n - X) 1)" "S + T \<le> length mem"
  shows "\<exists>mem'. storeEnumTagSinglePayloadImpl mem c n sz (of_nat X) st = Some mem' \<and> length mem' = length mem \<and>
    getEnumTagSinglePayloadImpl mem' n sz (of_nat X) gt = Some c"
proof -
  let ?X = "of_nat X :: size_t" and ?k = "of_nat k :: unsigned"
  define e where "e = unat n - X"
  have e: "k < e" "1 + e < 2 ^ 32" "e > 0" "unat n = X + e" using assms(2,3,5) by (auto simp: e_def)
  have X: "unat ?X = X" by (rule unat_of_nat_small) (use assms(2,3) in simp)
  have nX: "ucast n > ?X" using assms(2) X by (simp add: word_less_nat_alt)
  have "unat (ucast n - ?X) = e" unfolding e_def
    by (subst unat_sub) (use nX X in \<open>auto simp: word_le_nat_alt word_less_nat_alt\<close>)
  then have ne: "unat (ucast (ucast n - ?X) :: unsigned) = e" using e(2) by (subst unat_down) auto
  have T: "unat (getNumTagBytes sz (ucast (ucast n - ?X)) 1) = T" "0 < T" "small_count T False" "T = bytes_for (tag_count S e 1)"
  proof -
    have "1 < tag_count S e 1" using tag_in_count [of 0 e 1 S] e(3) by (auto simp: tag_count_def)
    then show "0 < T" "small_count T False" using bytes_for_small unfolding assms(6) e_def by (auto simp: bytes_for_def)
    show "unat (getNumTagBytes sz (ucast (ucast n - ?X)) 1) = T"
      using unat_tag_bytes [of 1 "ucast (ucast n - ?X)" sz] assms(1,3,6) ne e by simp
  qed (simp add: assms(6) e_def)
  have sX: "sint (ucast ?X :: unsigned) = int X" by (rule sint_ucast_small [OF X]) (use assms(2,3) in simp)
  have uk: "unat ?k = k" by (rule unat_of_nat_small) (use e(1,2) in simp)
  have k: "(ucast (word_of_int c - ?X) :: unsigned) = ?k"
  proof -
    have "word_of_int c - ?X = (of_nat k :: size_t)" using assms(4) by simp
    moreover have "unat (of_nat k :: size_t) = k" by (rule unat_of_nat_small) (use e(1,2) in simp)
    ultimately have "unat (ucast (word_of_int c - ?X) :: unsigned) = k" using e(1,2) by (simp add: unat_down)
    then show ?thesis using uk by (simp add: word_unat_eq_iff)
  qed
  let ?tag = "if S \<ge> 4 then 1 else 1 + drop_bit (S * 8) ?k" and ?p = "if S \<ge> 4 then ?k else take_bit (S * 8) ?k"
  have tag: "take_bit (8 * T) ?tag = ?tag" "?tag > 0"
    using empty_case_tag [of ?k e T S ?tag] uk e T assms(3) by auto
  obtain m1 where m1: "(if unat (min 4 sz) = 0 then Some mem else small_memcpy_to 0 ?p (unat (min 4 sz)) True mem) = Some m1"
    "length m1 = length mem" "take (min 4 S) m1 = bytes_of_unsigned (min 4 S) ?p" "drop S m1 = drop S mem"
    using memcpy_payload [of sz mem ?p] assms(1,7) by auto
  obtain m2 where m2: "(if sz > 4 then store_bytes 4 (replicate (unat sz - 4) 0) m1 else Some m1) = Some m2"
    "length m2 = length mem" "take (min 4 S) m2 = take (min 4 S) m1" "drop S m2 = drop S mem"
    using store_rest [of sz m1] assms(1,7) m1(2,4) by auto
  obtain m3 where m3: "small_memcpy_to S ?tag T False m2 = Some m3" "length m3 = length mem"
    "take T (drop S m3) = bytes_of_unsigned T ?tag" "take (min 4 S) m3 = take (min 4 S) m2"
    using small_memcpy_to_some [OF T(3), of S m2 ?tag] m2(2) assms(7) by auto
  have "storeEnumTagSinglePayloadImpl mem c n sz ?X st = Some m3"
  proof (cases "4 \<le> S")
    case True
    with assms(1,4) nX T(1,2) m1(1) m2(1) m3(1) show ?thesis
      unfolding storeEnumTagSinglePayloadImpl_def Let_def k sX mask_word take_bit_eq_mask [symmetric]
      by (auto simp: unat_ge_4 split: if_splits)
  next
    case False
    then have "\<not> sz > 4" using assms(1) by (simp add: word_less_nat_alt)
    with False assms(1,4) nX T(1,2) m1(1) m2(1) m3(1) show ?thesis
      unfolding storeEnumTagSinglePayloadImpl_def Let_def k sX mask_word take_bit_eq_mask [symmetric]
      by (auto simp: unat_ge_4 split: if_splits)
  qed
  moreover have "getEnumTagSinglePayloadImpl m3 n sz ?X gt = Some c"
  proof -
    have a: "small_memcpy_from S T False m3 = Some ?tag"
      by (rule small_memcpy_from_some [OF T(3) m3(3) _ tag(1)]) (use m3(2) assms(7) in simp)
    have b: "(if unat (min 4 sz) = 0 then Some 0 else small_memcpy_from 0 (unat (min 4 sz)) True m3) = Some ?p"
    proof (cases "S = 0")
      case True
      then have "sz = 0" using assms(1) by (simp add: unat_eq_zero)
      with True show ?thesis by simp
    next
      case False
      have m: "unat (min 4 sz) = min 4 S" using assms(1) by (simp add: min_def word_le_nat_alt)
      have c4: "small_count (min 4 S) True" using False unfolding small_count_def by (auto simp: min_def)
      have f: "take_bit (8 * min 4 S) ?p = ?p" by (cases "4 \<le> S") (simp_all add: take_bit_word_eq_self mult.commute)
      have "small_memcpy_from 0 (min 4 S) True m3 = Some ?p"
        by (rule small_memcpy_from_some [OF c4 _ _ f]) (use m1(3) m2(3) m3(2,4) assms(7) in simp_all)
      moreover have "min 4 S \<noteq> 0" using False by (simp add: min_def)
      ultimately show ?thesis by (simp only: m if_False)
    qed
    let ?hi = "if sz \<ge> 4 then 0 else push_bit (unat sz * 8) (?tag - 1)"
    have "?hi OR ?p = ?k"
      using assms(1) by (auto simp: unat_ge_4 intro!: bit_word_eqI simp: bit_simps)
    moreover have "unat (ucast ?k + ?X) = X + k"
      by (subst unat_add_lem [THEN iffD1]) (use uk X assms(3,5) in simp_all)
    then have u: "unat (ucast (ucast ?k + ?X) :: unsigned) = X + k" using assms(3,5) by (subst unat_down) auto
    have "sint (ucast (ucast ?k + ?X) :: unsigned) = c"
      using sint_small [of "ucast (ucast ?k + ?X)"] assms(3-5) unfolding u by simp
    ultimately show ?thesis using nX tag(2)
      unfolding getEnumTagSinglePayloadImpl_def Let_def T(1) assms(1) a b by simp
  qed
  ultimately show ?thesis using m3(2) by blast
qed

lemma extra_inhabitants_bound: "unat (getNumExtraInhabitants L) < 2 ^ 31"
proof -
  define w where "w = extraInhabitantFlags L AND NumExtraInhabitantsMask"
  have "w = take_bit 31 (extraInhabitantFlags L)"
    by (simp add: w_def take_bit_eq_mask mask_eq_exp_minus_1 NumExtraInhabitantsMask_def)
  then have "unat w < 2 ^ 31" using take_bit_nat_less_exp [of 31 "unat (extraInhabitantFlags L)"] by (simp add: unsigned_take_bit_eq)
  moreover from this have "unat (ucast w :: unsigned) = unat w" by (subst unat_down) simp_all
  ultimately show ?thesis unfolding getNumExtraInhabitants_def w_def [symmetric] by simp
qed

lemma memset_tag:
  assumes "T = 0 \<or> small_count T False" "addr + T \<le> length mem"
  shows "\<exists>mem'. (if T = 0 then Some mem else small_memset addr 0 T mem) = Some mem' \<and> length mem' = length mem \<and>
    take T (drop addr mem') = replicate T 0 \<and> take addr mem' = take addr mem"
proof (cases "T = 0")
  case False
  with assms obtain mem' where s: "store_bytes addr (replicate T 0) mem = Some mem'"
    using store_bytes_some [of addr "replicate T 0" mem] by auto
  with False assms(1) store_bytes_length [OF s] store_bytes_here [OF s] store_bytes_take [OF s] show ?thesis
    by (simp add: small_memset_def)
qed simp

lemma unsigned_of_zeros: "unsigned_of_bytes (replicate n 0) = 0"
  by (induction n) simp_all

text \<open>The bytes of a value: the payload, and the tag if extra inhabitants do not suffice.\<close>

definition extra_tag_bytes :: "nat \<Rightarrow> nat \<Rightarrow> nat \<Rightarrow> nat" where
  "extra_tag_bytes S X e = (if X < e then bytes_for (tag_count S (e - X) 1) else 0)"

lemma extra_tag_bytes_count: "extra_tag_bytes S X e = 0 \<or> small_count (extra_tag_bytes S X e) False"
  using bytes_for_small by (auto simp: extra_tag_bytes_def bytes_for_def small_count_def)

lemma extra_tag_bytes_runtime:
  assumes "unat sz = S" "unat xi = X" "unat (n :: unsigned) < 2 ^ 31"
  shows "(if ucast n > (xi :: size_t) then unat (getNumTagBytes sz (ucast (ucast n - xi)) 1) else 0) = extra_tag_bytes S X (unat n)"
proof (cases "X < unat n")
  case True
  then have g: "ucast n > xi" using assms(2) by (simp add: word_less_nat_alt)
  have "unat (ucast n - xi) = unat n - X"
    by (subst unat_sub) (use g assms(2) in \<open>auto simp: word_le_nat_alt word_less_nat_alt\<close>)
  then have "unat (ucast (ucast n - xi) :: unsigned) = unat n - X" using assms(3) by (subst unat_down) auto
  then show ?thesis using g True unat_tag_bytes [of 1 "ucast (ucast n - xi)" sz] assms(1,3) by (simp add: extra_tag_bytes_def)
qed (use assms(2) in \<open>simp add: word_less_nat_alt extra_tag_bytes_def\<close>)

text \<open>What the witnesses of a payload type promise: a stored extra inhabitant is read back, and both
  functions stay within the payload.\<close>

locale payload_inhabitants =
  fixes W :: PayloadWitnesses
  assumes store_index: "0 \<le> i \<Longrightarrow> i < int (unat (getNumExtraInhabitants (witness_layout W))) \<Longrightarrow>
      unat (tl_size (witness_layout W)) \<le> length mem \<Longrightarrow> getExtraInhabitantIndex W (storeExtraInhabitant W mem i) = i"
    and store_inside: "unat (tl_size (witness_layout W)) \<le> length mem \<Longrightarrow>
      length (storeExtraInhabitant W mem i) = length mem \<and>
      drop (unat (tl_size (witness_layout W))) (storeExtraInhabitant W mem i) = drop (unat (tl_size (witness_layout W))) mem"
    and index_inside: "take (unat (tl_size (witness_layout W))) mem = take (unat (tl_size (witness_layout W))) mem' \<Longrightarrow>
      getExtraInhabitantIndex W mem = getExtraInhabitantIndex W mem'"
begin

lemma payload_or_inhabitant:
  assumes "S = unat (tl_size (witness_layout W))" "X = unat (getNumExtraInhabitants (witness_layout W))"
    "-1 \<le> c" "c < int X" "unat n < 2 ^ 31" "S + extra_tag_bytes S X (unat n) \<le> length mem"
    "c = -1 \<Longrightarrow> 0 < X \<Longrightarrow> getExtraInhabitantIndex W mem = -1"
  shows "\<exists>mem'. swift_storeEnumTagSinglePayload mem W c n = Some mem' \<and> length mem' = length mem \<and>
    swift_getEnumCaseSinglePayload mem' W n = Some c \<and> (c = -1 \<longrightarrow> take S mem' = take S mem)"
proof -
  let ?sz = "tl_size (witness_layout W)" and ?xi = "ucast (getNumExtraInhabitants (witness_layout W)) :: size_t"
  let ?T = "extra_tag_bytes S X (unat n)"
  have b: "X < 2 ^ 31" using extra_inhabitants_bound assms(2) by simp
  have xi: "unat ?xi = X" using assms(2) by simp
  note T = extra_tag_bytes_runtime [OF assms(1) [symmetric] xi assms(5)]
  note sX = sint_ucast_small [OF xi b]
  obtain m1 where m1: "(if ?T = 0 then Some mem else small_memset S 0 ?T mem) = Some m1" "length m1 = length mem"
    "take ?T (drop S m1) = replicate ?T 0" "take S m1 = take S mem"
    using memset_tag [OF extra_tag_bytes_count assms(6)] by blast
  define m2 where "m2 = (if c = -1 then m1 else storeExtraInhabitant W m1 c)"
  have "swift_storeEnumTagSinglePayload mem W c n = Some m2"
    unfolding swift_storeEnumTagSinglePayload_def storeEnumTagSinglePayloadImpl_def Let_def T sX m2_def assms(1) [symmetric]
    using assms(4) m1(1) by simp
  moreover have S: "S \<le> length m1" using assms(6) m1(2) by simp
  then have m2: "length m2 = length mem" "drop S m2 = drop S m1"
    using store_inside [of m1 c] m1(2) assms(1) by (auto simp: m2_def)
  moreover have i: "(if ?xi > 0 then Some (getExtraInhabitantIndex W m2) else Some (-1)) = Some c"
  proof (cases "X = 0")
    case True
    then have "c = -1" "\<not> ?xi > 0" using assms(3,4) xi by (auto simp: word_less_nat_alt)
    then show ?thesis by simp
  next
    case False
    then have "?xi > 0" using xi by (simp add: word_less_nat_alt)
    moreover have "getExtraInhabitantIndex W m2 = c"
    proof (cases "c = -1")
      case True
      then show ?thesis using assms(1,7) index_inside [of m1 mem] m1(4) False by (simp add: m2_def)
    next
      case False
      then show ?thesis using assms(1-4) store_index [of c m1] S by (simp add: m2_def)
    qed
    ultimately show ?thesis by simp
  qed
  moreover have "swift_getEnumCaseSinglePayload m2 W n = Some c"
  proof (cases "ucast n > ?xi")
    case True
    then have t: "unat (getNumTagBytes ?sz (ucast (ucast n - ?xi)) 1) = ?T" using T by simp
    have "0 < ?T" "small_count ?T False"
      using True xi tag_in_count [of 0 "unat n - X" 1 S] bytes_for_small [of "tag_count S (unat n - X) 1" False]
      by (auto simp: word_less_nat_alt extra_tag_bytes_def tag_count_def bytes_for_def)
    moreover have "take ?T (drop S m2) = replicate ?T 0" using m2(2) m1(3) by simp
    ultimately have "small_memcpy_from S ?T False m2 = Some 0"
      using m2(1) assms(6) by (simp add: small_memcpy_from_def load_bytes_some unsigned_of_zeros)
    then show ?thesis using True i
      unfolding swift_getEnumCaseSinglePayload_def getEnumTagSinglePayloadImpl_def Let_def t assms(1) [symmetric] by simp
  next
    case False
    then show ?thesis using i
      unfolding swift_getEnumCaseSinglePayload_def getEnumTagSinglePayloadImpl_def Let_def by simp
  qed
  moreover have "c = -1 \<longrightarrow> take S m2 = take S mem" using m1(4) by (simp add: m2_def)
  ultimately show ?thesis by blast
qed

lemma stored_case_is_read:
  assumes "S = unat (tl_size (witness_layout W))" "X = unat (getNumExtraInhabitants (witness_layout W))"
    "-1 \<le> c" "c < int (unat n)" "unat n < 2 ^ 31" "S + extra_tag_bytes S X (unat n) \<le> length mem"
    "c = -1 \<Longrightarrow> 0 < X \<Longrightarrow> getExtraInhabitantIndex W mem = -1"
  shows "\<exists>mem'. swift_storeEnumTagSinglePayload mem W c n = Some mem' \<and> length mem' = length mem \<and>
    swift_getEnumCaseSinglePayload mem' W n = Some c \<and> (c = -1 \<longrightarrow> take S mem' = take S mem)"
proof (cases "c < int X")
  case True
  with assms show ?thesis by (intro payload_or_inhabitant)
next
  case False
  define k where "k = nat c - X"
  have "int (nat c) < int (unat n)" using False assms(4) by simp
  then have "nat c < unat n" by (simp only: of_nat_less_iff)
  then have c: "c = int (X + k)" "X + k < unat n" using False by (auto simp: k_def)
  have xi: "of_nat X = (ucast (getNumExtraInhabitants (witness_layout W)) :: size_t)"
    using assms(2) by (simp add: word_unat_eq_iff)
  have "S + bytes_for (tag_count S (unat n - X) 1) \<le> length mem" using assms(6) c(2) by (simp add: extra_tag_bytes_def)
  from store_empty_case [OF assms(1) [symmetric] _ assms(5) c refl this] c(2) False show ?thesis
    unfolding swift_storeEnumTagSinglePayload_def swift_getEnumCaseSinglePayload_def xi by simp
qed

end

section \<open>Heap object pointers\<close>

lemma less_div_mult: "(i :: nat) < l div b \<Longrightarrow> i * b < l"
  by (rule ccontr) (use div_le_mono [of l "i * b" b] in \<open>cases "b = 0"; simp\<close>)

lemma unat_push: "unat (w :: 64 word) * 2 ^ b < 2 ^ 64 \<Longrightarrow> unat (push_bit b w) = unat w * 2 ^ b"
proof -
  assume b: "unat w * 2 ^ b < 2 ^ 64"
  have "push_bit b w = of_nat (unat w * 2 ^ b)" by (simp add: push_bit_eq_mult)
  then show ?thesis using unat_of_nat_small [of "unat w * 2 ^ b", where ?'a = 64] b by simp
qed

lemma heap_count: "unat (swift_getHeapObjectExtraInhabitantCount abi) =
    min 0x7FFFFFFF (unat (LeastValidPointerValue abi) div 2 ^ ObjCReservedLowBits abi)"
proof -
  define n where "n = drop_bit (ObjCReservedLowBits abi) (LeastValidPointerValue abi)"
  have "unat n = unat (LeastValidPointerValue abi) div 2 ^ ObjCReservedLowBits abi"
    unfolding n_def by (subst unat_drop_bit_eq) (simp add: drop_bit_eq_div)
  then show ?thesis unfolding swift_getHeapObjectExtraInhabitantCount_def n_def [symmetric] Let_def
    by (auto simp: word_less_nat_alt unat_down min_def)
qed

lemma read_num_extra_inhabitants:
  assumes "unat n < 2 ^ 31"
  shows "ucast (withNumExtraInhabitants n 0 AND NumExtraInhabitantsMask) = n"
proof -
  have m: "NumExtraInhabitantsMask = mask 31" by (simp add: NumExtraInhabitantsMask_def mask_eq_exp_minus_1)
  have "take_bit 31 (ucast n :: size_t) = ucast n"
    using assms by (intro word_unat_eq_iff [THEN iffD2]) (simp add: unsigned_take_bit_eq take_bit_nat_eq_self_iff)
  moreover have "(ucast (ucast n :: size_t) :: unsigned) = n"
  proof -
    have "unat n < 2 ^ 32" using unsigned_less [of n] by simp
    then show ?thesis by (simp add: word_unat_eq_iff unat_down)
  qed
  ultimately show ?thesis unfolding withNumExtraInhabitants_def m take_bit_eq_mask [symmetric] by simp
qed

text \<open>The layout that \<open>swift_initEnumMetadataSinglePayload\<close> sets up.\<close>

lemma single_payload_layout:
  assumes "V = swift_initEnumMetadataSinglePayload alignTo L n vw" "unat (tl_size L) = S" "unat (getNumExtraInhabitants L) = X"
    "S + 4 < 2 ^ 64" "unat n < 2 ^ 31"
  shows "unat (tl_size V) = S + extra_tag_bytes S X (unat n)" "unat (getNumExtraInhabitants V) = X - unat n"
    "alignment_of V = alignment_of L"
proof -
  let ?xi = "getNumExtraInhabitants L"
  have V: "tl_size V = (if ?xi \<ge> n then tl_size L else tl_size L + ucast (getNumTagBytes (tl_size L) (n - ?xi) 1))"
    by (simp add: assms(1) swift_initEnumMetadataSinglePayload_def Let_def)
  show "unat (tl_size V) = S + extra_tag_bytes S X (unat n)"
  proof (cases "?xi \<ge> n")
    case True
    then show ?thesis using V assms(2,3) by (simp add: extra_tag_bytes_def word_le_nat_alt)
  next
    case False
    then have l: "X < unat n" using assms(3) by (simp add: word_le_nat_alt)
    then have d: "unat (n - ?xi) = unat n - X" using assms(3) by (subst unat_sub) (simp_all add: word_le_nat_alt)
    then have t: "unat (getNumTagBytes (tl_size L) (n - ?xi) 1) = extra_tag_bytes S X (unat n)"
      using unat_tag_bytes [of 1 "n - ?xi" "tl_size L"] assms(2,5) l by (simp add: extra_tag_bytes_def)
    have "extra_tag_bytes S X (unat n) \<le> 4" by (simp add: extra_tag_bytes_def bytes_for_le)
    then show ?thesis using V False t assms(2,4) by (simp add: unat_add_lem [THEN iffD1])
  qed
  have x31: "X < 2 ^ 31" using extra_inhabitants_bound [of L] assms(3) by simp
  have u: "n \<le> ?xi \<Longrightarrow> ?xi - n > 0 \<longleftrightarrow> n < ?xi"
    by (simp add: word_less_nat_alt word_le_nat_alt unat_sub)
  have has: "hasExtraInhabitants (withInlineStorage i (withEnumWitnesses True (withExtraInhabitants e D))) = e" for i e D
    using has_extra_inhabitants [of e D] by (simp add: hasExtraInhabitants_def extra_inhabitants_with)
  have fl: "hasExtraInhabitants (tl_flags V) = (n < ?xi)" "n < ?xi \<Longrightarrow> extraInhabitantFlags V = withNumExtraInhabitants (?xi - n) 0"
    using u by (cases "n \<le> ?xi"; simp add: assms(1) swift_initEnumMetadataSinglePayload_def Let_def has)+
  show "unat (getNumExtraInhabitants V) = X - unat n"
  proof (cases "n < ?xi")
    case True
    then have d: "unat (?xi - n) = X - unat n" using assms(3) by (subst unat_sub) (simp_all add: word_le_nat_alt word_less_nat_alt)
    have "getNumExtraInhabitants V = ?xi - n"
      using True fl read_num_extra_inhabitants [of "?xi - n"] d x31 by (simp add: getNumExtraInhabitants_def [of V])
    then show ?thesis using d by simp
  next
    case False
    then show ?thesis using fl assms(3) by (simp add: word_less_nat_alt getNumExtraInhabitants_def [of V])
  qed
  show "alignment_of V = alignment_of L"
    by (simp add: assms(1) swift_initEnumMetadataSinglePayload_def Let_def alignment_of_def alignment_mask_with split: prod.splits)
qed

lemma heap_layout:
  "unat (tl_size (witness_layout (heap_object_witnesses abi))) = 8"
  "getNumExtraInhabitants (witness_layout (heap_object_witnesses abi)) = swift_getHeapObjectExtraInhabitantCount abi"
proof -
  let ?n = "swift_getHeapObjectExtraInhabitantCount abi"
  have "hasExtraInhabitants (tl_flags (witness_layout (heap_object_witnesses abi)))"
    by (simp add: heap_object_witnesses_def has_extra_inhabitants)
  moreover have "ucast (withNumExtraInhabitants ?n 0 AND NumExtraInhabitantsMask) = ?n"
    by (rule read_num_extra_inhabitants) (simp add: heap_count)
  ultimately show "getNumExtraInhabitants (witness_layout (heap_object_witnesses abi)) = ?n"
    by (simp add: getNumExtraInhabitants_def heap_object_witnesses_def)
qed (simp add: heap_object_witnesses_def)

lemma heap_object_inhabitants:
  assumes "unat (LeastValidPointerValue abi) < 2 ^ 63"
  shows "payload_inhabitants (heap_object_witnesses abi)"
proof
  let ?W = "heap_object_witnesses abi" and ?b = "ObjCReservedLowBits abi"
  show "getExtraInhabitantIndex ?W (storeExtraInhabitant ?W mem i) = i"
    if i: "0 \<le> i" "i < int (unat (getNumExtraInhabitants (witness_layout ?W)))" and "unat (tl_size (witness_layout ?W)) \<le> length mem" for i mem
  proof -
    define w :: "64 word" where "w = word_of_int i"
    have n: "nat i < min 0x7FFFFFFF (unat (LeastValidPointerValue abi) div 2 ^ ?b)"
      using i unfolding heap_layout heap_count by (auto simp: nat_less_iff min_def split: if_splits)
    have w: "unat w = nat i" unfolding w_def using i(1) n unat_of_nat_small [of "nat i", where ?'a = 64] by simp
    have "nat i < unat (LeastValidPointerValue abi) div 2 ^ ?b" using n by simp
    then have l: "unat w * 2 ^ ?b < unat (LeastValidPointerValue abi)" unfolding w by (rule less_div_mult)
    let ?v = "push_bit ?b w"
    have v: "unat ?v = unat w * 2 ^ ?b" by (rule unat_push) (use l assms in simp)
    have p: "pointer_of_bytes (take 8 (storeExtraInhabitant ?W mem i)) = ?v"
      by (simp add: heap_object_witnesses_def swift_storeHeapObjectExtraInhabitant_def pointer_of_bytes_of w_def take_bit_word_eq_self)
    have "\<not> ?v \<ge> LeastValidPointerValue abi" using l v by (simp add: word_le_nat_alt)
    moreover have "?v AND (push_bit ?b 1 - 1) = 0"
    proof -
      have "push_bit ?b 1 - 1 = (mask ?b :: 64 word)" by (simp add: mask_eq_exp_minus_1 push_bit_eq_mult)
      then show ?thesis by (simp add: bit_eq_iff bit_simps)
    qed
    moreover have "drop_bit ?b ?v = w"
    proof -
      have "unat (drop_bit ?b ?v) = unat w" by (subst unat_drop_bit_eq) (simp add: drop_bit_eq_div v)
      then show ?thesis by (simp add: word_unat_eq_iff)
    qed
    moreover have "sint (ucast w :: unsigned) = i" using sint_ucast_small [OF w] n i(1) by simp
    ultimately show ?thesis
      by (simp add: heap_object_witnesses_def swift_getHeapObjectExtraInhabitantIndex_def Let_def p [unfolded heap_object_witnesses_def, simplified])
  qed
qed (simp_all add: heap_layout, simp_all add: heap_object_witnesses_def swift_storeHeapObjectExtraInhabitant_def
  swift_getHeapObjectExtraInhabitantIndex_def)

interpretation darwin_objects: payload_inhabitants "heap_object_witnesses darwin_x86_64"
  by (rule heap_object_inhabitants) (simp add: darwin_x86_64_def)

interpretation linux_objects: payload_inhabitants "heap_object_witnesses linux_x86_64"
  by (rule heap_object_inhabitants) (simp add: linux_x86_64_def)

section \<open>Several payload cases\<close>

text \<open>The case that is read after case \<open>c\<close> has been stored, for payloads of \<open>P\<close> bytes.\<close>

definition read_back :: "nat \<Rightarrow> nat \<Rightarrow> nat \<Rightarrow> nat" where
  "read_back P payloads c =
     (if c < payloads \<or> P \<ge> 4 then c
      else payloads + ((c - payloads) div 2 ^ (8 * P) * 2 ^ (8 * P) + ((c - payloads) mod 2 ^ (8 * P)) mod 2 ^ payloads))"

lemma read_back_exact: "8 * P \<le> payloads \<Longrightarrow> read_back P payloads c = c"
proof -
  assume "8 * P \<le> payloads"
  then have le: "(2::nat) ^ (8 * P) \<le> 2 ^ payloads" by (rule power_increasing) simp
  have "(c - payloads) mod 2 ^ (8 * P) < 2 ^ payloads"
    by (rule order_less_le_trans [OF mod_less_divisor le]) simp
  then have "((c - payloads) mod 2 ^ (8 * P)) mod 2 ^ payloads = (c - payloads) mod 2 ^ (8 * P)" by (rule mod_less)
  then show ?thesis by (simp add: read_back_def div_mult_mod_eq)
qed

lemma unat_join:
  assumes "b < 32"
  shows "unat (take_bit b (take_bit p e) OR push_bit b (drop_bit b (e :: unsigned))) =
    unat e div 2 ^ b * 2 ^ b + (unat e mod 2 ^ b) mod 2 ^ p"
proof -
  let ?x = "take_bit b (take_bit p e)" and ?y = "push_bit b (drop_bit b e)"
  have x: "unat ?x = (unat e mod 2 ^ b) mod 2 ^ p"
    by (simp add: unsigned_take_bit_eq take_bit_eq_mod take_bit_take_bit min.commute flip: take_bit_eq_mod)
  have y: "unat ?y = unat e div 2 ^ b * 2 ^ b"
  proof -
    have d: "unat (drop_bit b e) = unat e div 2 ^ b" by (subst unat_drop_bit_eq) (simp add: drop_bit_eq_div)
    have "push_bit b w = of_nat (unat w * 2 ^ b)" for w :: unsigned by (simp add: push_bit_eq_mult)
    then have "?y = of_nat (unat e div 2 ^ b * 2 ^ b)" unfolding d [symmetric] by blast
    moreover have "unat (of_nat (unat e div 2 ^ b * 2 ^ b) :: unsigned) = unat e div 2 ^ b * 2 ^ b"
    proof (rule unat_of_nat_small)
      show "unat e div 2 ^ b * 2 ^ b < 2 ^ LENGTH(32)"
    proof -
      have "unat e < 2 ^ 32" using unsigned_less [of e] by simp
      then show ?thesis by (intro order_le_less_trans [OF div_times_less_eq_dividend]) simp
    qed
    qed
    ultimately show ?thesis by (simp only:)
  qed
  have "?x OR ?y = ?x + ?y" by (rule disjunctive_add [symmetric]) (auto simp: bit_simps)
  moreover have "unat (?x + ?y) = unat ?x + unat ?y"
  proof -
    have "(unat e mod 2 ^ b) mod 2 ^ p \<le> unat e mod 2 ^ b" by (rule mod_less_eq_dividend)
    then have "unat ?x + unat ?y \<le> unat e" unfolding x y using div_mult_mod_eq [of "unat e" "2 ^ b"] by linarith
    moreover have "unat e < 2 ^ 32" using unsigned_less [of e] by simp
    ultimately have "unat ?x + unat ?y < 2 ^ 32" by linarith
    then show ?thesis by (subst unat_add_lem [THEN iffD1]) simp_all
  qed
  ultimately show ?thesis using x y by simp
qed

lemma store_tag:
  assumes "0 < T" "small_count T False" "P + T \<le> length mem" "unat sz = P" "unat tb = T"
  shows "\<exists>mem'. storeMultiPayloadTag (sz, tb) tag mem = Some mem' \<and> length mem' = length mem \<and>
    take T (drop P mem') = bytes_of_unsigned T tag \<and> take P mem' = take P mem"
proof -
  obtain mem' where "small_memcpy_to P tag T False mem = Some mem'" "length mem' = length mem"
    "take T (drop P mem') = bytes_of_unsigned T tag" "\<forall>k \<le> P. take k mem' = take k mem"
    using small_memcpy_to_some [OF assms(2,3), of tag] by blast
  then show ?thesis using assms(4,5) by (simp add: storeMultiPayloadTag_def)
qed

lemma store_value:
  assumes "P + T \<le> length mem" "unat sz = P"
  shows "\<exists>mem'. storeMultiPayloadValue (sz, tb) v mem = Some mem' \<and> length mem' = length mem \<and>
    take (min P 4) mem' = bytes_of_unsigned (min P 4) v \<and> drop P mem' = drop P mem"
proof -
  have m: "unat (min sz 4) = min P 4" using assms(2) by (simp add: min_def word_le_nat_alt)
  obtain m1 where m1: "store_bytes 0 (bytes_of_unsigned (min P 4) v) mem = Some m1"
    using store_bytes_some [of 0 "bytes_of_unsigned (min P 4) v" mem] assms(1) by auto
  have f: "length m1 = length mem" "take (min P 4) m1 = bytes_of_unsigned (min P 4) v" "drop P m1 = drop P mem"
    using store_bytes_length [OF m1] store_bytes_here [OF m1] store_bytes_drop [OF m1, of P] by simp_all
  obtain m2 where "(if sz > 4 then store_bytes 4 (replicate (unat sz - 4) 0) m1 else Some m1) = Some m2" "length m2 = length m1"
    "take (min 4 (unat sz)) m2 = take (min 4 (unat sz)) m1" "drop (unat sz) m2 = drop (unat sz) m1"
    using store_rest [of sz m1] assms f(1) by auto
  then show ?thesis using m1 f assms(2) unfolding storeMultiPayloadValue_def by (simp add: m min.commute)
qed

lemma load_tag:
  assumes "small_count T False" "P + T \<le> length mem" "unat sz = P" "unat tb = T" "take T (drop P mem) = bytes_of_unsigned T tag"
    "take_bit (8 * T) tag = tag"
  shows "loadMultiPayloadTag mem (sz, tb) = Some tag"
  using small_memcpy_from_some [OF assms(1,5) assms(2,6)] assms(3,4) by (simp add: loadMultiPayloadTag_def)

lemma load_value:
  assumes "P \<le> length mem" "unat sz = P" "take (min P 4) mem = bytes_of_unsigned (min P 4) v"
  shows "loadMultiPayloadValue mem (sz, tb) = Some (take_bit (8 * min P 4) v)"
proof -
  have m: "unat (min sz 4) = min P 4" using assms(2) by (simp add: min_def word_le_nat_alt)
  show ?thesis using assms unfolding loadMultiPayloadValue_def by (simp add: m load_bytes_some unsigned_of_bytes_of)
qed

lemma multi_payload_read_back:
  assumes "unat (em_payloadSize E) = P" "unat (NumPayloadCases E) = p" "unat (NumEmptyCases E) = e"
    "unat (snd (getMultiPayloadLayout E)) = T" "T = bytes_for (tag_count P e p)" "2 \<le> p" "p + e + 2 ^ 24 < 2 ^ 32"
    "unat c < p + e" "P + T \<le> length mem" "P < 4 \<Longrightarrow> p \<le> unat c \<Longrightarrow> p < 32"
  shows "\<exists>mem'. swift_storeEnumTagMultiPayload mem E c = Some mem' \<and> length mem' = length mem \<and>
    (unat c < p \<longrightarrow> take P mem' = take P mem) \<and>
    map_option unat (swift_getEnumCaseMultiPayload mem' E) = Some (read_back P p (unat c))"
proof -
  let ?sz = "em_payloadSize E" and ?n = "NumPayloadCases E"
  obtain tb where L: "getMultiPayloadLayout E = (?sz, tb)" "unat tb = T" using assms(4) by (simp add: getMultiPayloadLayout_def Let_def)
  have count: "p \<le> tag_count P e p" "tag_count P e p < 2 ^ 32" using tag_count_le [of P e p] assms(7) by (auto simp: tag_count_def)
  then have T: "0 < T" "small_count T False" using bytes_for_small [of "tag_count P e p" False] assms(5,6) by (auto simp: bytes_for_def)
  have fits: "take_bit (8 * T) t = t" if "unat t < tag_count P e p" for t :: unsigned
    unfolding assms(5) by (intro take_bit_small bytes_for_fits that count(2))
  show ?thesis
  proof (cases "c < ?n")
    case True
    then have c: "unat c < p" using assms(2) by (simp add: word_less_nat_alt)
    obtain m1 where m1: "storeMultiPayloadTag (?sz, tb) c mem = Some m1" "length m1 = length mem"
      "take T (drop P m1) = bytes_of_unsigned T c" "take P m1 = take P mem"
      using store_tag [OF T assms(9,1) L(2)] by blast
    have "loadMultiPayloadTag m1 (?sz, tb) = Some c"
      by (rule load_tag [OF T(2) _ assms(1) L(2) m1(3) fits]) (use m1(2) assms(9) c count in simp_all)
    then show ?thesis using m1 True c
      by (simp add: swift_storeEnumTagMultiPayload_def swift_getEnumCaseMultiPayload_def L(1) read_back_def)
  next
    case False
    define i where "i = c - ?n"
    have c: "p \<le> unat c" using False assms(2) by (simp add: word_less_nat_alt)
    have i: "unat i = unat c - p" unfolding i_def using False assms(2) by (subst unat_sub) (simp_all add: word_le_nat_alt word_less_nat_alt)
    let ?d = "drop_bit (P * 8) i"
    have d: "unat ?d = unat i div 2 ^ (8 * P)" by (subst unat_drop_bit_eq) (simp add: drop_bit_eq_div mult.commute)
    have ie: "unat i < e" using i c assms(8) by simp
    define tag where "tag = (if P \<ge> 4 then ?n else ?n + ?d)"
    define v where "v = (if P \<ge> 4 then i else take_bit p i)"
    have "unat ?d \<le> unat i" unfolding d by (rule div_le_dividend)
    then have u: "unat (?n + ?d) = p + unat ?d" using assms(2,7) ie by (subst unat_add_lem [THEN iffD1]) simp_all
    then have tg: "unat tag = p + (if P \<ge> 4 then 0 else unat i div 2 ^ (8 * P))" using d assms(2) by (simp add: tag_def)
    then have ft: "take_bit (8 * T) tag = tag" using tag_in_count [OF ie, of p P] by (intro fits) simp
    obtain m1 where m1: "storeMultiPayloadTag (?sz, tb) tag mem = Some m1" "length m1 = length mem"
      "take T (drop P m1) = bytes_of_unsigned T tag"
      using store_tag [OF T assms(9,1) L(2)] by blast
    obtain m2 where m2: "storeMultiPayloadValue (?sz, tb) v m1 = Some m2" "length m2 = length mem"
      "take (min P 4) m2 = bytes_of_unsigned (min P 4) v" "drop P m2 = drop P m1"
      using store_value [where P = P and T = T and mem = m1 and sz = ?sz and v = v and tb = tb] assms(1,9) m1(2) by auto
    have p32: "P < 4 \<Longrightarrow> ?n < 32" using assms(2,10) c by (simp add: word_less_nat_alt)
    have "swift_storeEnumTagMultiPayload mem E c = Some m2"
      using False m1(1) m2(1) p32 assms(1,2)
      unfolding swift_storeEnumTagMultiPayload_def L(1) Let_def mask_word take_bit_eq_mask [symmetric] tag_def v_def i_def
      by (cases "4 \<le> P") (simp_all add: unat_ge_4)
    moreover have "loadMultiPayloadTag m2 (?sz, tb) = Some tag"
      by (rule load_tag [OF T(2) _ assms(1) L(2) _ ft]) (use m1(3) m2(2,4) assms(9) in simp_all)
    moreover have "loadMultiPayloadValue m2 (?sz, tb) = Some (take_bit (8 * min P 4) v)"
      by (rule load_value [OF _ assms(1) m2(3)]) (use m2(2) assms(9) in simp)
    moreover have "\<not> tag < ?n" using tg assms(2) by (simp add: word_less_nat_alt)
    moreover have "tag - ?n = (if P \<ge> 4 then 0 else ?d)" by (simp add: tag_def)
    ultimately have s: "swift_storeEnumTagMultiPayload mem E c = Some m2"
      "swift_getEnumCaseMultiPayload m2 E = Some (if P \<ge> 4 then ?n + i
         else (take_bit (P * 8) (take_bit p i) OR push_bit (P * 8) ?d) + ?n)"
      unfolding swift_getEnumCaseMultiPayload_def L(1) Let_def using assms(1)
      by (simp_all add: unat_ge_4 v_def take_bit_word_eq_self mult.commute)
    have "map_option unat (swift_getEnumCaseMultiPayload m2 E) = Some (read_back P p (unat c))"
    proof (cases "4 \<le> P")
      case True
      have "?n + i = c" by (simp add: i_def)
      with True s(2) show ?thesis by (simp add: read_back_def)
    next
      case False
      let ?r = "take_bit (P * 8) (take_bit p i) OR push_bit (P * 8) ?d"
      have r: "unat ?r = unat i div 2 ^ (8 * P) * 2 ^ (8 * P) + (unat i mod 2 ^ (8 * P)) mod 2 ^ p"
        using unat_join [of "P * 8" p i] False by (simp add: mult.commute)
      have "(unat i mod 2 ^ (8 * P)) mod 2 ^ p \<le> unat i mod 2 ^ (8 * P)" by (rule mod_less_eq_dividend)
      then have "unat ?r \<le> unat i" unfolding r using div_mult_mod_eq [of "unat i" "2 ^ (8 * P)"] by linarith
      then have "unat (?r + ?n) = unat ?r + p" using ie assms(2,7) by (subst unat_add_lem [THEN iffD1]) simp_all
      then show ?thesis using s(2) False c r i by (simp add: read_back_def)
    qed
    with s(1) m2(2) c show ?thesis by auto
  qed
qed

text \<open>The layout that \<open>swift_initEnumMetadataMultiPayload\<close> sets up.\<close>

lemma multi_payload_layout:
  assumes "E' = swift_initEnumMetadataMultiPayload n Ls E" "unat (em_payloadSize E') + 4 < 2 ^ 32" "unat n + unat (NumEmptyCases E) + 2 ^ 24 < 2 ^ 32"
  shows "NumEmptyCases E' = NumEmptyCases E" "NumPayloadCases E' = NumPayloadCases E"
    "unat (snd (getMultiPayloadLayout E')) = bytes_for (tag_count (unat (em_payloadSize E')) (unat (NumEmptyCases E)) (unat n))"
    "unat (tl_size (em_witnesses E')) =
      unat (em_payloadSize E') + bytes_for (tag_count (unat (em_payloadSize E')) (unat (NumEmptyCases E)) (unat n))"
proof -
  obtain ps am pod bt where r: "payload_requirements Ls 0 0 True True = (ps, am, pod, bt)" by (cases "payload_requirements Ls 0 0 True True")
  let ?t = "getNumTagBytes ps (NumEmptyCases E) n"
  let ?B = "bytes_for (tag_count (unat ps) (unat (NumEmptyCases E)) (unat n))"
  have ps: "em_payloadSize E' = ps" using r by (simp add: assms(1) swift_initEnumMetadataMultiPayload_def Let_def)
  have t: "unat ?t = ?B" by (rule unat_tag_bytes [OF assms(3)])
  have b: "unat ps + 4 < 2 ^ 32" using assms(2) ps by simp
  then have s: "unat (ps + ucast ?t) = unat ps + ?B" using t bytes_for_le [of "tag_count (unat ps) (unat (NumEmptyCases E)) (unat n)"]
    by (subst unat_add_lem [THEN iffD1]) simp_all
  have z: "tl_size (em_witnesses E') = ucast (ucast (ps + ucast ?t) :: unsigned)"
    using r by (simp add: assms(1) swift_initEnumMetadataMultiPayload_def Let_def)
  have uz: "unat (tl_size (em_witnesses E')) = unat ps + ?B"
    unfolding z unat_up by (subst unat_down) (use s b bytes_for_le [of "tag_count (unat ps) (unat (NumEmptyCases E)) (unat n)"] in simp_all)
  then show "unat (tl_size (em_witnesses E')) =
      unat (em_payloadSize E') + bytes_for (tag_count (unat (em_payloadSize E')) (unat (NumEmptyCases E)) (unat n))"
    using ps by simp
  show "unat (snd (getMultiPayloadLayout E')) = bytes_for (tag_count (unat (em_payloadSize E')) (unat (NumEmptyCases E)) (unat n))"
    unfolding getMultiPayloadLayout_def Let_def snd_conv ps by (subst unat_sub) (use uz in \<open>simp_all add: word_le_nat_alt\<close>)
  show "NumEmptyCases E' = NumEmptyCases E" "NumPayloadCases E' = NumPayloadCases E"
    using r by (simp_all add: assms(1) swift_initEnumMetadataMultiPayload_def Let_def)
qed

end
