(* ===== verification/Type_Lowering.thy ===== *)
theory Type_Lowering
  imports Type_Ref_Builder Runtime_Layout
begin

text \<open>
  The layout of types in memory as the reflection library computes it: \<open>TypeLowering.h\<close> and
  \<open>TypeLowering.cpp\<close>. The class \<open>TypeConverter\<close> with its caches and its check against recursive types is
  the record \<open>type_converter\<close>. An operation returns \<open>Some (result, state)\<close>; the result \<open>None\<close> is a null
  pointer, and \<open>None\<close> for the whole is a failed assertion, a null dereference, or that the depth of
  nested types exceeds the fuel.
\<close>

section \<open>Type infos\<close>

datatype RecordKind = InvalidRecord | TupleRecord | StructRecord | NoPayloadEnum | SinglePayloadEnum | MultiPayloadRecord
  | ThickFunction | OpaqueExistential | ClassExistential | ExistentialMetatypeRecord | ErrorExistential | ClassInstance
  | ClosureContext

datatype ReferenceCounting = NativeCounting | UnknownCounting

datatype ReferenceKind = StrongReference | UnownedReference | WeakReference | UnmanagedReference

record BasicInfo =
  Size :: unsigned
  Alignment :: unsigned
  Stride :: unsigned
  NumExtraInhabitants :: unsigned

datatype 'a FieldInfo = FieldInfo (FieldName: string) (FieldOffset: unsigned) (FieldTR: TypeRef) (FieldTI: 'a)

text \<open>The empty type is a builtin without a name.\<close>

datatype TypeInfo =
    BuiltinTypeInfo BasicInfo "string option"
  | RecordTypeInfo BasicInfo RecordKind "TypeInfo FieldInfo list"
  | ReferenceTypeInfo BasicInfo ReferenceKind ReferenceCounting

primrec basic_info :: "TypeInfo \<Rightarrow> BasicInfo" where
  "basic_info (BuiltinTypeInfo b n) = b"
| "basic_info (RecordTypeInfo b k fs) = b"
| "basic_info (ReferenceTypeInfo b k c) = b"

definition getSize :: "TypeInfo \<Rightarrow> unsigned" where "getSize TI = Size (basic_info TI)"
definition getInfoAlignment :: "TypeInfo \<Rightarrow> unsigned" where "getInfoAlignment TI = Alignment (basic_info TI)"
definition getInfoExtraInhabitants :: "TypeInfo \<Rightarrow> unsigned" where "getInfoExtraInhabitants TI = NumExtraInhabitants (basic_info TI)"

text \<open>The constructor of \<open>TypeInfo\<close> asserts that the alignment is not zero.\<close>

definition makeTypeInfo :: "TypeInfo \<Rightarrow> TypeInfo option" where
  "makeTypeInfo TI = do {
     assert_that (getInfoAlignment TI > 0);
     Some TI
   }"

definition descriptor_info :: "BuiltinTypeDescriptor \<Rightarrow> BasicInfo" where
  "descriptor_info d = \<lparr>Size = of_nat (builtin_size d), Alignment = of_nat (builtin_alignment d),
     Stride = of_nat (builtin_stride d), NumExtraInhabitants = of_nat (builtin_extra_inhabitants d)\<rparr>"

definition makeBuiltinTypeInfo :: "BuiltinTypeDescriptor \<Rightarrow> TypeInfo option" where
  "makeBuiltinTypeInfo d = do {
     Name \<leftarrow> builtin_type d;
     makeTypeInfo (BuiltinTypeInfo (descriptor_info d) (Some Name))
   }"

section \<open>The state\<close>

record type_converter =
  Cache :: "TypeRef \<rightharpoonup> TypeInfo option"
  RecursionCheck :: "TypeRef set"
  ReferenceCache :: "ReferenceKind \<times> ReferenceCounting \<rightharpoonup> TypeInfo"
  ThinFunctionTI :: "TypeInfo option"
  ThickFunctionTI :: "TypeInfo option"
  AnyMetatypeTI :: "TypeInfo option"
  EmptyTI :: "TypeInfo option"

definition new_converter :: type_converter where
  "new_converter = \<lparr>Cache = Map.empty, RecursionCheck = {}, ReferenceCache = Map.empty, ThinFunctionTI = None,
     ThickFunctionTI = None, AnyMetatypeTI = None, EmptyTI = None\<rparr>"

type_synonym 'a lowering = "type_converter \<Rightarrow> ('a \<times> type_converter) option"

definition getRawPointerTypeRef :: TypeRef where "getRawPointerTypeRef = BuiltinTypeRef ''Bp''"
definition getNativeObjectTypeRef :: TypeRef where "getNativeObjectTypeRef = BuiltinTypeRef ''Bo''"
definition getUnknownObjectTypeRef :: TypeRef where "getUnknownObjectTypeRef = BuiltinTypeRef ''BO''"
definition getThinFunctionTypeRef :: TypeRef where "getThinFunctionTypeRef = BuiltinTypeRef ''yyXf''"
definition getAnyMetatypeTypeRef :: TypeRef where "getAnyMetatypeTypeRef = BuiltinTypeRef ''ypXp''"

lemmas special_types = getRawPointerTypeRef_def getNativeObjectTypeRef_def getUnknownObjectTypeRef_def
  getThinFunctionTypeRef_def getAnyMetatypeTypeRef_def

section \<open>Records\<close>

record RecordTypeInfoBuilder =
  rb_Size :: unsigned
  rb_Alignment :: unsigned
  rb_NumExtraInhabitants :: unsigned
  rb_Kind :: RecordKind
  rb_Fields :: "TypeInfo FieldInfo list"
  rb_Empty :: bool
  rb_Invalid :: bool

definition new_record :: "RecordKind \<Rightarrow> RecordTypeInfoBuilder" where
  "new_record kind = \<lparr>rb_Size = 0, rb_Alignment = 1, rb_NumExtraInhabitants = 0, rb_Kind = kind, rb_Fields = [],
     rb_Empty = True, rb_Invalid = False\<rparr>"

definition addField_layout :: "unsigned \<Rightarrow> unsigned \<Rightarrow> unsigned \<Rightarrow> RecordTypeInfoBuilder \<Rightarrow> (unsigned \<times> RecordTypeInfoBuilder) option" where
  "addField_layout fieldSize fieldAlignment numExtraInhabitants b = do {
     assert_that (fieldAlignment > 0);
     let offset = (rb_Size b + fieldAlignment - 1) AND NOT (fieldAlignment - 1);
     let b = b\<lparr>rb_Size := offset + fieldSize, rb_Alignment := max (rb_Alignment b) fieldAlignment\<rparr>;
     Some (offset,
       if rb_Empty b then b\<lparr>rb_NumExtraInhabitants := numExtraInhabitants, rb_Empty := False\<rparr> else b)
   }"

definition addField ::
    "(TypeRef \<Rightarrow> TypeInfo option lowering) \<Rightarrow> string \<Rightarrow> TypeRef \<Rightarrow> RecordTypeInfoBuilder \<Rightarrow> RecordTypeInfoBuilder lowering" where
  "addField getTypeInfo Name TR b tc = do {
     (TI, tc) \<leftarrow> getTypeInfo TR tc;
     case TI of
       None \<Rightarrow> Some (b\<lparr>rb_Invalid := True\<rparr>, tc)
     | Some TI \<Rightarrow> do {
         (offset, b) \<leftarrow> addField_layout (getSize TI) (getInfoAlignment TI) (getInfoExtraInhabitants TI) b;
         Some (b\<lparr>rb_Fields := rb_Fields b @ [FieldInfo Name offset TR TI]\<rparr>, tc)
       }
   }"

fun addFields ::
    "(TypeRef \<Rightarrow> TypeInfo option lowering) \<Rightarrow> (string \<times> TypeRef) list \<Rightarrow> RecordTypeInfoBuilder \<Rightarrow> RecordTypeInfoBuilder lowering" where
  "addFields getTypeInfo [] b tc = Some (b, tc)"
| "addFields getTypeInfo ((Name, TR) # members) b tc = do {
     (b, tc) \<leftarrow> addField getTypeInfo Name TR b tc;
     addFields getTypeInfo members b tc
   }"

definition calculate_stride :: "unsigned \<Rightarrow> unsigned \<Rightarrow> unsigned" where
  "calculate_stride sz al =
     (let Stride = (sz + al - 1) AND NOT (al - 1) in if Stride = 0 then 1 else Stride)"

definition build_record :: "RecordTypeInfoBuilder \<Rightarrow> TypeInfo built" where
  "build_record b =
     (if rb_Invalid b then Some None
      else map_option Some (makeTypeInfo (RecordTypeInfo
        \<lparr>Size = rb_Size b, Alignment = rb_Alignment b, Stride = calculate_stride (rb_Size b) (rb_Alignment b),
         NumExtraInhabitants = rb_NumExtraInhabitants b\<rparr> (rb_Kind b) (rb_Fields b))))"

text \<open>Fields by name and type, and the record that they make.\<close>

definition record_of ::
    "(TypeRef \<Rightarrow> TypeInfo option lowering) \<Rightarrow> (string \<times> TypeRef) list \<Rightarrow> RecordTypeInfoBuilder \<Rightarrow> TypeInfo option lowering" where
  "record_of getTypeInfo members b tc = do {
     (b, tc) \<leftarrow> addFields getTypeInfo members b tc;
     TI \<leftarrow> build_record b;
     Some (TI, tc)
   }"

section \<open>References and other pointers\<close>

definition getReferenceTypeInfo :: "ReflectionInfo list \<Rightarrow> ReferenceKind \<Rightarrow> ReferenceCounting \<Rightarrow> TypeInfo option lowering" where
  "getReferenceTypeInfo Infos kind Refcounting tc =
     (case ReferenceCache tc (kind, Refcounting) of
        Some found \<Rightarrow> Some (Some found, tc)
      | None \<Rightarrow> do {
          let TR = (case Refcounting of NativeCounting \<Rightarrow> getNativeObjectTypeRef | UnknownCounting \<Rightarrow> getUnknownObjectTypeRef);
          BuiltinTI \<leftarrow> getBuiltinTypeInfo Infos TR;
          case BuiltinTI of
            None \<Rightarrow> Some (None, tc)
          | Some d \<Rightarrow> do {
              let info = descriptor_info d;
              let info = (if kind = WeakReference then info\<lparr>NumExtraInhabitants := 0\<rparr> else info);
              TI \<leftarrow> makeTypeInfo (ReferenceTypeInfo info kind Refcounting);
              Some (Some TI, tc\<lparr>ReferenceCache := (ReferenceCache tc)((kind, Refcounting) \<mapsto> TI)\<rparr>)
            }
        })"

definition getThinFunctionTypeInfo :: "ReflectionInfo list \<Rightarrow> TypeInfo option lowering" where
  "getThinFunctionTypeInfo Infos tc =
     (if ThinFunctionTI tc \<noteq> None then Some (ThinFunctionTI tc, tc)
      else do {
        descriptor \<leftarrow> getBuiltinTypeInfo Infos getThinFunctionTypeRef;
        case descriptor of
          None \<Rightarrow> Some (None, tc)
        | Some d \<Rightarrow> do {
            TI \<leftarrow> makeBuiltinTypeInfo d;
            Some (Some TI, tc\<lparr>ThinFunctionTI := Some TI\<rparr>)
          }
      })"

definition getThickFunctionTypeInfo :: "(TypeRef \<Rightarrow> TypeInfo option lowering) \<Rightarrow> TypeInfo option lowering" where
  "getThickFunctionTypeInfo getTypeInfo tc =
     (if ThickFunctionTI tc \<noteq> None then Some (ThickFunctionTI tc, tc)
      else do {
        (TI, tc) \<leftarrow> record_of getTypeInfo [(''function'', getThinFunctionTypeRef), (''context'', getNativeObjectTypeRef)]
          (new_record ThickFunction) tc;
        Some (TI, tc\<lparr>ThickFunctionTI := TI\<rparr>)
      })"

definition getAnyMetatypeTypeInfo :: "ReflectionInfo list \<Rightarrow> TypeInfo option lowering" where
  "getAnyMetatypeTypeInfo Infos tc =
     (if AnyMetatypeTI tc \<noteq> None then Some (AnyMetatypeTI tc, tc)
      else do {
        descriptor \<leftarrow> getBuiltinTypeInfo Infos getAnyMetatypeTypeRef;
        case descriptor of
          None \<Rightarrow> Some (None, tc)
        | Some d \<Rightarrow> do {
            TI \<leftarrow> makeBuiltinTypeInfo d;
            Some (Some TI, tc\<lparr>AnyMetatypeTI := Some TI\<rparr>)
          }
      })"

definition getEmptyTypeInfo :: "TypeInfo option lowering" where
  "getEmptyTypeInfo tc =
     (if EmptyTI tc \<noteq> None then Some (EmptyTI tc, tc)
      else do {
        TI \<leftarrow> makeTypeInfo (BuiltinTypeInfo \<lparr>Size = 0, Alignment = 1, Stride = 1, NumExtraInhabitants = 0\<rparr> None);
        Some (Some TI, tc\<lparr>EmptyTI := Some TI\<rparr>)
      })"

section \<open>Existential types\<close>

datatype ExistentialTypeRepresentation = OpaqueRepresentation | ClassRepresentation | ErrorRepresentation

record ExistentialTypeInfoBuilder =
  eb_Protocols :: "TypeRef list"
  Representation :: ExistentialTypeRepresentation
  eb_Refcounting :: ReferenceCounting
  ObjC :: bool
  WitnessTableCount :: nat
  eb_Invalid :: bool

definition new_existential :: ExistentialTypeInfoBuilder where
  "new_existential = \<lparr>eb_Protocols = [], Representation = OpaqueRepresentation, eb_Refcounting = UnknownCounting,
     ObjC = False, WitnessTableCount = 0, eb_Invalid = False\<rparr>"

definition isErrorProtocol :: "TypeRef \<Rightarrow> bool" where
  "isErrorProtocol P \<longleftrightarrow> nominal_name P = Some ''s5ErrorP''"

text \<open>The member \<open>Superclass\<close> is never set.\<close>

definition isSingleError :: "ExistentialTypeInfoBuilder \<Rightarrow> bool" where
  "isSingleError b \<longleftrightarrow> Representation b = OpaqueRepresentation \<and> length (eb_Protocols b) = 1 \<and>
     list_ex isErrorProtocol (eb_Protocols b)"

fun examine_protocol_list :: "ReflectionInfo list \<Rightarrow> TypeRef list \<Rightarrow> ExistentialTypeInfoBuilder \<Rightarrow> ExistentialTypeInfoBuilder option" where
  "examine_protocol_list Infos [] b = Some b"
| "examine_protocol_list Infos (P # Ps) b = do {
     FD \<leftarrow> getFieldTypeInfo Infos P;
     examine_protocol_list Infos Ps
       (case FD of
          None \<Rightarrow> b\<lparr>eb_Invalid := True\<rparr>
        | Some FD \<Rightarrow>
            (case fd_kind FD of
               ObjCProtocol \<Rightarrow> b\<lparr>ObjC := True\<rparr>
             | ClassProtocol \<Rightarrow> b\<lparr>Representation := ClassRepresentation, WitnessTableCount := Suc (WitnessTableCount b)\<rparr>
             | ProtocolKind \<Rightarrow> b\<lparr>WitnessTableCount := Suc (WitnessTableCount b)\<rparr>
             | _ \<Rightarrow> b\<lparr>eb_Invalid := True\<rparr>))
   }"

definition examineProtocols :: "ReflectionInfo list \<Rightarrow> ExistentialTypeInfoBuilder \<Rightarrow> ExistentialTypeInfoBuilder option" where
  "examineProtocols Infos b =
     (if isSingleError b then Some (b\<lparr>Representation := ErrorRepresentation\<rparr>)
      else examine_protocol_list Infos (eb_Protocols b) b)"

definition addAnyObject :: "ExistentialTypeInfoBuilder \<Rightarrow> ExistentialTypeInfoBuilder" where
  "addAnyObject b = b\<lparr>Representation := ClassRepresentation\<rparr>"

definition addProtocolComposition ::
    "ReflectionInfo list \<Rightarrow> TypeRef list \<Rightarrow> TypeRef option \<Rightarrow> bool \<Rightarrow> ExistentialTypeInfoBuilder \<Rightarrow> ExistentialTypeInfoBuilder option" where
  "addProtocolComposition Infos protocols superclass hasExplicitAnyObject b =
     (let b = b\<lparr>eb_Protocols := eb_Protocols b @ protocols\<rparr>;
          b = (if hasExplicitAnyObject then addAnyObject b else b) in
      case superclass of
        None \<Rightarrow> Some b
      | Some T \<Rightarrow>
          if nominal_name T = None then Some (b\<lparr>eb_Invalid := True\<rparr>)
          else do {
            FD \<leftarrow> getFieldTypeInfo Infos T;
            Some (case FD of
                None \<Rightarrow> b\<lparr>eb_Invalid := True\<rparr>
              | Some FD \<Rightarrow>
                  (case fd_kind FD of
                     ClassKind \<Rightarrow> addAnyObject (b\<lparr>eb_Refcounting := NativeCounting\<rparr>)
                   | ObjCClassKind \<Rightarrow> addAnyObject b
                   | _ \<Rightarrow> b\<lparr>eb_Invalid := True\<rparr>))
          })"

definition wtables :: "nat \<Rightarrow> (string \<times> TypeRef) list" where
  "wtables n = replicate n (''wtable'', getRawPointerTypeRef)"

text \<open>The buffer of three words has no name and is no field.\<close>

definition build_existential ::
    "ReflectionInfo list \<Rightarrow> (TypeRef \<Rightarrow> TypeInfo option lowering) \<Rightarrow> ExistentialTypeInfoBuilder \<Rightarrow> TypeInfo option lowering" where
  "build_existential Infos getTypeInfo b tc = do {
     b \<leftarrow> examineProtocols Infos b;
     if eb_Invalid b then Some (None, tc)
     else if ObjC b then
       (if WitnessTableCount b > 0 then Some (None, tc)
        else getReferenceTypeInfo Infos StrongReference (eb_Refcounting b) tc)
     else
       (let tables = wtables (WitnessTableCount b) in
        case Representation b of
          ClassRepresentation \<Rightarrow>
            record_of getTypeInfo ((''object'', if eb_Refcounting b = UnknownCounting then getUnknownObjectTypeRef else getNativeObjectTypeRef)
              # tables) (new_record ClassExistential) tc
        | OpaqueRepresentation \<Rightarrow> do {
            (TI, tc) \<leftarrow> getTypeInfo getRawPointerTypeRef tc;
            case TI of
              None \<Rightarrow> Some (None, tc)
            | Some TI \<Rightarrow> do {
                (offset, r) \<leftarrow> addField_layout (getSize TI * 3) (getInfoAlignment TI) 0 (new_record OpaqueExistential);
                record_of getTypeInfo ((''metadata'', getAnyMetatypeTypeRef) # tables) r tc
              }
          }
        | ErrorRepresentation \<Rightarrow>
            record_of getTypeInfo ((''error'', getUnknownObjectTypeRef) # tables) (new_record ErrorExistential) tc)
   }"

definition build_metatype ::
    "ReflectionInfo list \<Rightarrow> (TypeRef \<Rightarrow> TypeInfo option lowering) \<Rightarrow> ExistentialTypeInfoBuilder \<Rightarrow> TypeInfo option lowering" where
  "build_metatype Infos getTypeInfo b tc = do {
     b \<leftarrow> examineProtocols Infos b;
     if eb_Invalid b then Some (None, tc)
     else if ObjC b then
       (if WitnessTableCount b > 0 then Some (None, tc) else getAnyMetatypeTypeInfo Infos tc)
     else record_of getTypeInfo ((''metadata'', getAnyMetatypeTypeRef) # wtables (WitnessTableCount b))
       (new_record ExistentialMetatypeRecord) tc
   }"

section \<open>Fixed sizes and metatypes\<close>

fun hasFixedSize :: "TypeRef \<Rightarrow> bool option"
  and all_fixed :: "TypeRef list \<Rightarrow> bool option" where
  "hasFixedSize (BoundGenericTypeRef n params parent) = do {
     c \<leftarrow> isClass n;
     if c then Some True else all_fixed params
   }"
| "hasFixedSize (TupleTypeRef elements variadic) = all_fixed elements"
| "hasFixedSize (GenericTypeParameterTypeRef depth index) = Some False"
| "hasFixedSize (DependentMemberTypeRef member b protocol) = Some False"
| "hasFixedSize OpaqueTypeRef = Some False"
| "hasFixedSize t = Some True"
| "all_fixed [] = Some True"
| "all_fixed (t # ts) = do {
     f \<leftarrow> hasFixedSize t;
     if \<not> f then Some False else all_fixed ts
   }"

datatype MetatypeRepresentation = ThinMetatype | ThickMetatype | UnknownMetatype

definition combineRepresentations :: "MetatypeRepresentation \<Rightarrow> MetatypeRepresentation \<Rightarrow> MetatypeRepresentation" where
  "combineRepresentations rep1 rep2 =
     (if rep1 = rep2 then rep1
      else if rep1 = UnknownMetatype \<or> rep2 = UnknownMetatype then UnknownMetatype
      else if rep1 = ThickMetatype \<or> rep2 = ThickMetatype then ThickMetatype
      else ThinMetatype)"

text \<open>The visitor \<open>HasSingletonMetatype\<close>.\<close>

fun singleton_metatype :: "TypeRef \<Rightarrow> MetatypeRepresentation option"
  and combine_all :: "MetatypeRepresentation \<Rightarrow> TypeRef list \<Rightarrow> MetatypeRepresentation option" where
  "singleton_metatype (BuiltinTypeRef n) = Some ThinMetatype"
| "singleton_metatype (NominalTypeRef n parent) = map_option (\<lambda>c. if c then ThickMetatype else ThinMetatype) (isClass n)"
| "singleton_metatype (BoundGenericTypeRef n params parent) = map_option (\<lambda>c. if c then ThickMetatype else ThinMetatype) (isClass n)"
| "singleton_metatype (TupleTypeRef elements variadic) = combine_all ThinMetatype elements"
| "singleton_metatype (FunctionTypeRef params result flags) = do {
     r \<leftarrow> singleton_metatype result;
     combine_all r (map param_type params)
   }"
| "singleton_metatype (ProtocolCompositionTypeRef protocols superclass any) = Some ThinMetatype"
| "singleton_metatype (MetatypeTypeRef t wasAbstract) = (if wasAbstract then Some ThickMetatype else singleton_metatype t)"
| "singleton_metatype (ExistentialMetatypeTypeRef t) = Some ThinMetatype"
| "singleton_metatype (SILBoxTypeRef t) = Some ThinMetatype"
| "singleton_metatype t = Some UnknownMetatype"
| "combine_all result [] = Some result"
| "combine_all result (t # ts) = do {
     r \<leftarrow> singleton_metatype t;
     combine_all (combineRepresentations result r) ts
   }"

section \<open>Enums\<close>

text \<open>The copy of the runtime's function; sizes are of type \<open>size_t\<close>.\<close>

definition copied_getNumTagBytes :: "size_t \<Rightarrow> unsigned \<Rightarrow> unsigned \<Rightarrow> unsigned" where
  "copied_getNumTagBytes sz emptyCases payloadCases =
     (let numTags = payloadCases +
        (if emptyCases > 0 then
           if sz \<ge> 4 then 1
           else
             let bits = unat sz * 8;
                 casesPerTagBitValue = push_bit bits 1
             in drop_bit bits (emptyCases + (casesPerTagBitValue - 1))
         else 0)
      in if numTags \<le> 1 then 0 else if numTags < 256 then 1 else if numTags < 65536 then 2 else 4)"

definition getCaseTypeRef :: "FieldTypeInfo \<Rightarrow> TypeRef option" where
  "getCaseTypeRef Case = (if info_indirect Case then Some getNativeObjectTypeRef else info_type Case)"

text \<open>The builder: size, alignment, cases, and whether a case has no layout.\<close>

record EnumTypeInfoBuilder =
  en_Size :: unsigned
  en_Alignment :: unsigned
  en_Cases :: "TypeInfo FieldInfo list"
  en_Invalid :: bool

definition new_enum :: EnumTypeInfoBuilder where
  "new_enum = \<lparr>en_Size = 0, en_Alignment = 1, en_Cases = [], en_Invalid = False\<rparr>"

definition addCase :: "string \<Rightarrow> TypeRef \<Rightarrow> TypeInfo option \<Rightarrow> EnumTypeInfoBuilder \<Rightarrow> EnumTypeInfoBuilder" where
  "addCase Name TR TI b =
     (case TI of
        None \<Rightarrow> b\<lparr>en_Invalid := True\<rparr>
      | Some TI \<Rightarrow> b\<lparr>en_Size := max (en_Size b) (getSize TI), en_Alignment := max (en_Alignment b) (getInfoAlignment TI),
          en_Cases := en_Cases b @ [FieldInfo Name 0 TR TI]\<rparr>)"

fun add_cases ::
    "(TypeRef \<Rightarrow> TypeInfo option lowering) \<Rightarrow> FieldTypeInfo list \<Rightarrow> EnumTypeInfoBuilder \<Rightarrow> EnumTypeInfoBuilder lowering" where
  "add_cases getTypeInfo [] b tc = Some (b, tc)"
| "add_cases getTypeInfo (Case # Cases) b tc = do {
     CaseTR \<leftarrow> getCaseTypeRef Case;
     (CaseTI, tc) \<leftarrow> getTypeInfo CaseTR tc;
     add_cases getTypeInfo Cases (addCase (info_name Case) CaseTR CaseTI b) tc
   }"

definition finish_enum :: "RecordKind \<Rightarrow> unsigned \<Rightarrow> EnumTypeInfoBuilder \<Rightarrow> TypeInfo built" where
  "finish_enum kind xi b =
     (if en_Invalid b then Some None
      else map_option Some (makeTypeInfo (RecordTypeInfo
        \<lparr>Size = en_Size b, Alignment = en_Alignment b, Stride = calculate_stride (en_Size b) (en_Alignment b),
         NumExtraInhabitants = xi\<rparr> kind (en_Cases b))))"

text \<open>The number of extra inhabitants is set to zero before it is subtracted.\<close>

definition single_payload_enum :: "unsigned \<Rightarrow> TypeInfo option \<Rightarrow> EnumTypeInfoBuilder \<Rightarrow> unsigned \<times> EnumTypeInfoBuilder" where
  "single_payload_enum NoPayloadCases CaseTI b =
     (case CaseTI of
        None \<Rightarrow> (0, b)
      | Some TI \<Rightarrow>
          let xi = getInfoExtraInhabitants TI in
          if xi \<ge> NoPayloadCases then (xi - NoPayloadCases, b)
          else
            let xi = 0
            in (xi, b\<lparr>en_Size := en_Size b + copied_getNumTagBytes (ucast (en_Size b)) (NoPayloadCases - xi) 1\<rparr>))"

definition build_enum ::
    "nat \<Rightarrow> ReflectionInfo list \<Rightarrow> (TypeRef \<Rightarrow> TypeInfo option lowering) \<Rightarrow> TypeRef \<Rightarrow> FieldDescriptor \<Rightarrow> TypeInfo option lowering" where
  "build_enum n Infos getTypeInfo TR FD tc = do {
     found \<leftarrow> getFieldTypeRefs n Infos TR (Some FD);
     case found of
       None \<Rightarrow> Some (None, tc)
     | Some Fields \<Rightarrow>
         let NoPayloadCases = (of_nat (length (filter (\<lambda>Case. info_type Case = None) Fields)) :: unsigned);
             PayloadCases = filter (\<lambda>Case. info_type Case \<noteq> None) Fields in
         case PayloadCases of
           [] \<Rightarrow> do {
             TI \<leftarrow> finish_enum NoPayloadEnum 0 (new_enum\<lparr>en_Size := copied_getNumTagBytes 0 NoPayloadCases 0\<rparr>);
             Some (TI, tc)
           }
         | [Case] \<Rightarrow> do {
             CaseTR \<leftarrow> getCaseTypeRef Case;
             (CaseTI, tc) \<leftarrow> getTypeInfo CaseTR tc;
             if NoPayloadCases = 0 then Some (CaseTI, tc)
             else do {
               let (xi, b) = single_payload_enum NoPayloadCases CaseTI (addCase (info_name Case) CaseTR CaseTI new_enum);
               TI \<leftarrow> finish_enum SinglePayloadEnum xi b;
               Some (TI, tc)
             }
           }
         | _ \<Rightarrow> do {
             (b, tc) \<leftarrow> add_cases getTypeInfo PayloadCases new_enum tc;
             FixedDescriptor \<leftarrow> getBuiltinTypeInfo Infos TR;
             TI \<leftarrow> (case FixedDescriptor of
                 Some d \<Rightarrow> finish_enum MultiPayloadRecord (NumExtraInhabitants (descriptor_info d))
                   (b\<lparr>en_Size := Size (descriptor_info d), en_Alignment := Alignment (descriptor_info d)\<rparr>)
               | None \<Rightarrow> finish_enum MultiPayloadRecord 0
                   (b\<lparr>en_Size := en_Size b + copied_getNumTagBytes (ucast (en_Size b)) NoPayloadCases (of_nat (length PayloadCases))\<rparr>));
             Some (TI, tc)
           }
   }"

section \<open>Lowering\<close>

fun field_list :: "FieldTypeInfo list \<Rightarrow> (string \<times> TypeRef) list option" where
  "field_list [] = Some []"
| "field_list (f # fs) = do {
     TR \<leftarrow> info_type f;
     members \<leftarrow> field_list fs;
     Some ((info_name f, TR) # members)
   }"

definition visitAnyNominalTypeRef ::
    "nat \<Rightarrow> ReflectionInfo list \<Rightarrow> (TypeRef \<Rightarrow> TypeInfo option lowering) \<Rightarrow> TypeRef \<Rightarrow> TypeInfo option lowering" where
  "visitAnyNominalTypeRef n Infos getTypeInfo TR tc = do {
     FD \<leftarrow> getFieldTypeInfo Infos TR;
     case FD of
       None \<Rightarrow> do {
         ImportedTypeDescriptor \<leftarrow> getBuiltinTypeInfo Infos TR;
         case ImportedTypeDescriptor of
           None \<Rightarrow> Some (None, tc)
         | Some d \<Rightarrow> do {
             TI \<leftarrow> makeBuiltinTypeInfo d;
             Some (Some TI, tc)
           }
       }
     | Some FD \<Rightarrow>
         (case fd_kind FD of
            ClassKind \<Rightarrow> getReferenceTypeInfo Infos StrongReference NativeCounting tc
          | StructKind \<Rightarrow> do {
              found \<leftarrow> getFieldTypeRefs n Infos TR (Some FD);
              case found of
                None \<Rightarrow> Some (None, tc)
              | Some Fields \<Rightarrow> do {
                  members \<leftarrow> field_list Fields;
                  record_of getTypeInfo members (new_record StructRecord) tc
                }
            }
          | EnumKind \<Rightarrow> build_enum n Infos getTypeInfo TR FD tc
          | MultiPayloadEnum \<Rightarrow> build_enum n Infos getTypeInfo TR FD tc
          | ObjCClassKind \<Rightarrow> getReferenceTypeInfo Infos StrongReference UnknownCounting tc
          | _ \<Rightarrow> Some (None, tc))
   }"

text \<open>Storage qualifiers. The fuel bounds how far it looks through optionals.\<close>

fun rebuildStorageTypeInfo ::
    "nat \<Rightarrow> ReflectionInfo list \<Rightarrow> (TypeRef \<Rightarrow> TypeInfo option lowering) \<Rightarrow> TypeInfo option \<Rightarrow> ReferenceKind \<Rightarrow> TypeInfo option lowering"
  and rebuild_fields ::
    "nat \<Rightarrow> ReflectionInfo list \<Rightarrow> (TypeRef \<Rightarrow> TypeInfo option lowering) \<Rightarrow> TypeInfo FieldInfo list \<Rightarrow> ReferenceKind \<Rightarrow>
     TypeInfo FieldInfo list lowering" where
  "rebuildStorageTypeInfo 0 Infos getTypeInfo TI kind tc = None"
| "rebuildStorageTypeInfo (Suc k) Infos getTypeInfo TI kind tc =
     (case TI of
        None \<Rightarrow> Some (None, tc)
      | Some (ReferenceTypeInfo info SubKind Refcounting) \<Rightarrow> getReferenceTypeInfo Infos kind Refcounting tc
      | Some (RecordTypeInfo info SubKind Fields) \<Rightarrow>
          if SubKind = SinglePayloadEnum then
            if kind = WeakReference then
              (case Fields of
                 [] \<Rightarrow> None
               | f # fs \<Rightarrow> do {
                   (TI, tc) \<leftarrow> getTypeInfo (FieldTR f) tc;
                   rebuildStorageTypeInfo k Infos getTypeInfo TI kind tc
                 })
            else Some (None, tc)
          else if SubKind = ClassExistential then do {
            (Fields, tc) \<leftarrow> rebuild_fields k Infos getTypeInfo Fields kind tc;
            TI \<leftarrow> makeTypeInfo (RecordTypeInfo info SubKind Fields);
            Some (Some TI, tc)
          }
          else Some (None, tc)
      | Some (BuiltinTypeInfo info Name) \<Rightarrow> Some (None, tc))"
| "rebuild_fields k Infos getTypeInfo [] kind tc = Some ([], tc)"
| "rebuild_fields k Infos getTypeInfo (f # fs) kind tc =
     (if FieldName f = ''object'' then do {
        (FieldTI', tc) \<leftarrow> rebuildStorageTypeInfo k Infos getTypeInfo (Some (FieldTI f)) kind tc;
        TI \<leftarrow> FieldTI';
        (members, tc) \<leftarrow> rebuild_fields k Infos getTypeInfo fs kind tc;
        Some (FieldInfo (FieldName f) (FieldOffset f) (FieldTR f) TI # members, tc)
      }
      else do {
        (members, tc) \<leftarrow> rebuild_fields k Infos getTypeInfo fs kind tc;
        Some (f # members, tc)
      })"

definition visitAnyStorageTypeRef ::
    "ReflectionInfo list \<Rightarrow> (TypeRef \<Rightarrow> TypeInfo option lowering) \<Rightarrow> TypeRef \<Rightarrow> ReferenceKind \<Rightarrow> TypeInfo option lowering" where
  "visitAnyStorageTypeRef Infos getTypeInfo TR kind tc = do {
     (TI, tc) \<leftarrow> getTypeInfo TR tc;
     rebuildStorageTypeInfo (case TI of None \<Rightarrow> 1 | Some TI \<Rightarrow> Suc (size TI)) Infos getTypeInfo TI kind tc
   }"

text \<open>The visitor \<open>LowerType\<close>.\<close>

definition visitBuiltinTypeRef :: "ReflectionInfo list \<Rightarrow> string \<Rightarrow> TypeInfo option lowering" where
  "visitBuiltinTypeRef Infos MangledName tc =
     (if MangledName = ''Bo'' then getReferenceTypeInfo Infos StrongReference NativeCounting tc
      else if MangledName = ''BO'' then getReferenceTypeInfo Infos StrongReference UnknownCounting tc
      else do {
        descriptor \<leftarrow> getBuiltinTypeInfo Infos (BuiltinTypeRef MangledName);
        case descriptor of
          None \<Rightarrow> Some (None, tc)
        | Some d \<Rightarrow> do {
            TI \<leftarrow> makeBuiltinTypeInfo d;
            Some (Some TI, tc)
          }
      })"

definition visitFunctionTypeRef ::
    "ReflectionInfo list \<Rightarrow> (TypeRef \<Rightarrow> TypeInfo option lowering) \<Rightarrow> function_flags \<Rightarrow> TypeInfo option lowering" where
  "visitFunctionTypeRef Infos getTypeInfo flags tc =
     (let convention = getConvention flags in
      if convention = convention_value SwiftConvention then getThickFunctionTypeInfo getTypeInfo tc
      else if convention = convention_value Block then getReferenceTypeInfo Infos StrongReference UnknownCounting tc
      else if convention = convention_value Thin \<or> convention = convention_value CFunctionPointer
      then getTypeInfo getThinFunctionTypeRef tc
      else None)"

definition visitMetatypeTypeRef :: "(TypeRef \<Rightarrow> TypeInfo option lowering) \<Rightarrow> TypeRef \<Rightarrow> TypeInfo option lowering" where
  "visitMetatypeTypeRef getTypeInfo M tc = do {
     r \<leftarrow> singleton_metatype M;
     case r of
       UnknownMetatype \<Rightarrow> Some (None, tc)
     | ThinMetatype \<Rightarrow> getEmptyTypeInfo tc
     | ThickMetatype \<Rightarrow> getTypeInfo getAnyMetatypeTypeRef tc
   }"

definition visitExistentialMetatypeTypeRef ::
    "ReflectionInfo list \<Rightarrow> (TypeRef \<Rightarrow> TypeInfo option lowering) \<Rightarrow> TypeRef \<Rightarrow> TypeInfo option lowering" where
  "visitExistentialMetatypeTypeRef Infos getTypeInfo TR tc =
     (case TR of
        ProtocolCompositionTypeRef protocols superclass any \<Rightarrow> do {
          b \<leftarrow> addProtocolComposition Infos protocols superclass any new_existential;
          build_metatype Infos getTypeInfo b tc
        }
      | _ \<Rightarrow> Some (None, tc))"

fun lowerType ::
    "nat \<Rightarrow> ReflectionInfo list \<Rightarrow> (TypeRef \<Rightarrow> TypeInfo option lowering) \<Rightarrow> TypeRef \<Rightarrow> TypeInfo option lowering" where
  "lowerType n Infos getTypeInfo (BuiltinTypeRef MangledName) tc = visitBuiltinTypeRef Infos MangledName tc"
| "lowerType n Infos getTypeInfo (NominalTypeRef name parent) tc =
     visitAnyNominalTypeRef n Infos getTypeInfo (NominalTypeRef name parent) tc"
| "lowerType n Infos getTypeInfo (BoundGenericTypeRef name params parent) tc =
     visitAnyNominalTypeRef n Infos getTypeInfo (BoundGenericTypeRef name params parent) tc"
| "lowerType n Infos getTypeInfo (TupleTypeRef elements variadic) tc =
     record_of getTypeInfo (map (Pair []) elements) (new_record TupleRecord) tc"
| "lowerType n Infos getTypeInfo (FunctionTypeRef params result flags) tc = visitFunctionTypeRef Infos getTypeInfo flags tc"
| "lowerType n Infos getTypeInfo (ProtocolCompositionTypeRef protocols superclass any) tc = do {
     b \<leftarrow> addProtocolComposition Infos protocols superclass any new_existential;
     build_existential Infos getTypeInfo b tc
   }"
| "lowerType n Infos getTypeInfo (MetatypeTypeRef t wasAbstract) tc = visitMetatypeTypeRef getTypeInfo (MetatypeTypeRef t wasAbstract) tc"
| "lowerType n Infos getTypeInfo (ExistentialMetatypeTypeRef t) tc = visitExistentialMetatypeTypeRef Infos getTypeInfo t tc"
| "lowerType n Infos getTypeInfo (GenericTypeParameterTypeRef depth index) tc = Some (None, tc)"
| "lowerType n Infos getTypeInfo (DependentMemberTypeRef member b protocol) tc = Some (None, tc)"
| "lowerType n Infos getTypeInfo (ForeignClassTypeRef name) tc = getReferenceTypeInfo Infos StrongReference UnknownCounting tc"
| "lowerType n Infos getTypeInfo (ObjCClassTypeRef name) tc = getReferenceTypeInfo Infos StrongReference UnknownCounting tc"
| "lowerType n Infos getTypeInfo (UnownedStorageTypeRef t) tc = visitAnyStorageTypeRef Infos getTypeInfo t UnownedReference tc"
| "lowerType n Infos getTypeInfo (WeakStorageTypeRef t) tc = visitAnyStorageTypeRef Infos getTypeInfo t WeakReference tc"
| "lowerType n Infos getTypeInfo (UnmanagedStorageTypeRef t) tc = visitAnyStorageTypeRef Infos getTypeInfo t UnmanagedReference tc"
| "lowerType n Infos getTypeInfo (SILBoxTypeRef t) tc = getReferenceTypeInfo Infos StrongReference NativeCounting tc"
| "lowerType n Infos getTypeInfo OpaqueTypeRef tc = Some (None, tc)"

text \<open>\<open>TypeConverter::getTypeInfo\<close>, with the depth of nested types as fuel.\<close>

fun getTypeInfo :: "nat \<Rightarrow> nat \<Rightarrow> ReflectionInfo list \<Rightarrow> TypeRef \<Rightarrow> TypeInfo option lowering" where
  "getTypeInfo 0 n Infos TR tc = None"
| "getTypeInfo (Suc f) n Infos TR tc =
     (case Cache tc TR of
        Some found \<Rightarrow> Some (found, tc)
      | None \<Rightarrow>
          if TR \<in> RecursionCheck tc then Some (None, tc)
          else do {
            (TI, tc) \<leftarrow> lowerType n Infos (getTypeInfo f n Infos) TR (tc\<lparr>RecursionCheck := insert TR (RecursionCheck tc)\<rparr>);
            Some (TI, tc\<lparr>Cache := (Cache tc)(TR \<mapsto> TI), RecursionCheck := RecursionCheck tc - {TR}\<rparr>)
          })"

definition getClassInstanceTypeInfo :: "nat \<Rightarrow> nat \<Rightarrow> ReflectionInfo list \<Rightarrow> TypeRef \<Rightarrow> unsigned \<Rightarrow> TypeInfo option lowering" where
  "getClassInstanceTypeInfo f n Infos TR start tc = do {
     FD \<leftarrow> getFieldTypeInfo Infos TR;
     case FD of
       None \<Rightarrow> Some (None, tc)
     | Some FD \<Rightarrow>
         if fd_kind FD = ClassKind \<or> fd_kind FD = ObjCClassKind then do {
           found \<leftarrow> getFieldTypeRefs n Infos TR (Some FD);
           case found of
             None \<Rightarrow> Some (None, tc)
           | Some Fields \<Rightarrow> do {
               (offset, b) \<leftarrow> addField_layout start 1 0 (new_record ClassInstance);
               members \<leftarrow> field_list Fields;
               record_of (getTypeInfo f n Infos) members b tc
             }
         }
         else Some (None, tc)
   }"

end
