(* ===== verification/Type_Layout_Rules.thy ===== *)
theory Type_Layout_Rules
  imports Type_Lowering
begin

text \<open>
  The layout of types by rules, without caches and without a check against recursion: the types that a
  layout depends on, and how their layouts combine. A layout of height \<open>h\<close> depends on layouts of
  smaller heights; a type that contains itself has none.
\<close>

section \<open>Combining layouts\<close>

fun place_fields :: "(string \<times> TypeRef) list \<Rightarrow> TypeInfo list \<Rightarrow> RecordTypeInfoBuilder \<Rightarrow> RecordTypeInfoBuilder option" where
  "place_fields ((Name, TR) # members) (TI # TIs) b = do {
     (offset, b) \<leftarrow> addField_layout (getSize TI) (getInfoAlignment TI) (getInfoExtraInhabitants TI) b;
     place_fields members TIs (b\<lparr>rb_Fields := rb_Fields b @ [FieldInfo Name offset TR TI]\<rparr>)
   }"
| "place_fields _ _ b = Some b"

type_synonym layout_plan = "TypeRef list \<times> (TypeInfo list \<Rightarrow> TypeInfo built)"

definition constant_plan :: "TypeInfo option \<Rightarrow> layout_plan" where
  "constant_plan TI = ([], \<lambda>TIs. Some TI)"

definition record_plan :: "(string \<times> TypeRef) list \<Rightarrow> RecordTypeInfoBuilder \<Rightarrow> layout_plan" where
  "record_plan members b = (map snd members, \<lambda>TIs. place_fields members TIs b \<bind> build_record)"

definition same_plan :: "TypeRef \<Rightarrow> layout_plan" where
  "same_plan TR = ([TR], \<lambda>TIs. Some (Some (hd TIs)))"

definition reference_info :: "ReflectionInfo list \<Rightarrow> ReferenceKind \<Rightarrow> ReferenceCounting \<Rightarrow> TypeInfo built" where
  "reference_info Infos kind Refcounting =
     and_then (getBuiltinTypeInfo Infos (case Refcounting of NativeCounting \<Rightarrow> getNativeObjectTypeRef | UnknownCounting \<Rightarrow> getUnknownObjectTypeRef))
       (\<lambda>d. map_option Some (makeTypeInfo (ReferenceTypeInfo
          (if kind = WeakReference then (descriptor_info d)\<lparr>NumExtraInhabitants := 0\<rparr> else descriptor_info d) kind Refcounting)))"

definition builtin_info :: "ReflectionInfo list \<Rightarrow> TypeRef \<Rightarrow> TypeInfo built" where
  "builtin_info Infos TR = and_then (getBuiltinTypeInfo Infos TR) (\<lambda>d. map_option Some (makeBuiltinTypeInfo d))"

definition empty_info :: TypeInfo where
  "empty_info = BuiltinTypeInfo \<lparr>Size = 0, Alignment = 1, Stride = 1, NumExtraInhabitants = 0\<rparr> None"

abbreviation no_layout :: layout_plan where
  "no_layout \<equiv> constant_plan None"

definition thick_function_plan :: layout_plan where
  "thick_function_plan = record_plan [(''function'', getThinFunctionTypeRef), (''context'', getNativeObjectTypeRef)] (new_record ThickFunction)"

definition existential_plan :: "ReflectionInfo list \<Rightarrow> ExistentialTypeInfoBuilder \<Rightarrow> layout_plan option" where
  "existential_plan Infos b = do {
     b \<leftarrow> examineProtocols Infos b;
     if eb_Invalid b then Some no_layout
     else if ObjC b then
       (if WitnessTableCount b > 0 then Some no_layout
        else map_option constant_plan (reference_info Infos StrongReference (eb_Refcounting b)))
     else
       (let tables = wtables (WitnessTableCount b) in
        case Representation b of
          ClassRepresentation \<Rightarrow>
            Some (record_plan ((''object'', if eb_Refcounting b = UnknownCounting then getUnknownObjectTypeRef else getNativeObjectTypeRef) # tables)
              (new_record ClassExistential))
        | OpaqueRepresentation \<Rightarrow>
            Some (getRawPointerTypeRef # getAnyMetatypeTypeRef # map snd tables,
              \<lambda>TIs. do {
                (offset, r) \<leftarrow> addField_layout (getSize (hd TIs) * 3) (getInfoAlignment (hd TIs)) 0 (new_record OpaqueExistential);
                place_fields ((''metadata'', getAnyMetatypeTypeRef) # tables) (tl TIs) r \<bind> build_record
              })
        | ErrorRepresentation \<Rightarrow>
            Some (record_plan ((''error'', getUnknownObjectTypeRef) # tables) (new_record ErrorExistential)))
   }"

definition metatype_plan :: "ReflectionInfo list \<Rightarrow> ExistentialTypeInfoBuilder \<Rightarrow> layout_plan option" where
  "metatype_plan Infos b = do {
     b \<leftarrow> examineProtocols Infos b;
     if eb_Invalid b then Some no_layout
     else if ObjC b then
       (if WitnessTableCount b > 0 then Some no_layout else map_option constant_plan (builtin_info Infos getAnyMetatypeTypeRef))
     else Some (record_plan ((''metadata'', getAnyMetatypeTypeRef) # wtables (WitnessTableCount b)) (new_record ExistentialMetatypeRecord))
   }"

fun add_case_infos :: "(string \<times> TypeRef) list \<Rightarrow> TypeInfo list \<Rightarrow> EnumTypeInfoBuilder \<Rightarrow> EnumTypeInfoBuilder" where
  "add_case_infos ((Name, TR) # cs) (TI # TIs) b = add_case_infos cs TIs (addCase Name TR (Some TI) b)"
| "add_case_infos _ _ b = b"

definition payload_cases :: "FieldTypeInfo list \<Rightarrow> FieldTypeInfo list" where
  "payload_cases Fields = filter (\<lambda>Case. info_type Case \<noteq> None) Fields"

definition empty_cases :: "FieldTypeInfo list \<Rightarrow> unsigned" where
  "empty_cases Fields = of_nat (length (filter (\<lambda>Case. info_type Case = None) Fields))"

definition case_types :: "FieldTypeInfo list \<Rightarrow> (string \<times> TypeRef) list option" where
  "case_types Cases = those (map (\<lambda>Case. map_option (Pair (info_name Case)) (getCaseTypeRef Case)) Cases)"

definition single_plan :: "unsigned \<Rightarrow> string \<Rightarrow> TypeRef \<Rightarrow> layout_plan" where
  "single_plan NoPayloadCases Name CaseTR =
     ([CaseTR], \<lambda>TIs.
        let (xi, b) = single_payload_enum NoPayloadCases (Some (hd TIs)) (addCase Name CaseTR (Some (hd TIs)) new_enum)
        in finish_enum SinglePayloadEnum xi b)"

definition multi_plan :: "BuiltinTypeDescriptor option \<Rightarrow> unsigned \<Rightarrow> (string \<times> TypeRef) list \<Rightarrow> layout_plan" where
  "multi_plan FixedDescriptor NoPayloadCases cs =
     (map snd cs, \<lambda>TIs.
        let b = add_case_infos cs TIs new_enum in
        case FixedDescriptor of
          Some d \<Rightarrow> finish_enum MultiPayloadRecord (NumExtraInhabitants (descriptor_info d))
            (b\<lparr>en_Size := Size (descriptor_info d), en_Alignment := Alignment (descriptor_info d)\<rparr>)
        | None \<Rightarrow> finish_enum MultiPayloadRecord 0
            (b\<lparr>en_Size := en_Size b + copied_getNumTagBytes (ucast (en_Size b)) NoPayloadCases (of_nat (length cs))\<rparr>))"

fun cases_plan :: "ReflectionInfo list \<Rightarrow> TypeRef \<Rightarrow> unsigned \<Rightarrow> (string \<times> TypeRef) list \<Rightarrow> layout_plan option" where
  "cases_plan Infos TR NoPayloadCases [] =
     map_option constant_plan (finish_enum NoPayloadEnum 0 (new_enum\<lparr>en_Size := copied_getNumTagBytes 0 NoPayloadCases 0\<rparr>))"
| "cases_plan Infos TR NoPayloadCases [(Name, CaseTR)] =
     Some (if NoPayloadCases = 0 then same_plan CaseTR else single_plan NoPayloadCases Name CaseTR)"
| "cases_plan Infos TR NoPayloadCases cs = do {
     FixedDescriptor \<leftarrow> getBuiltinTypeInfo Infos TR;
     Some (multi_plan FixedDescriptor NoPayloadCases cs)
   }"

definition enum_plan :: "nat \<Rightarrow> ReflectionInfo list \<Rightarrow> TypeRef \<Rightarrow> FieldDescriptor \<Rightarrow> layout_plan option" where
  "enum_plan n Infos TR FD = do {
     found \<leftarrow> getFieldTypeRefs n Infos TR (Some FD);
     case found of
       None \<Rightarrow> Some no_layout
     | Some Fields \<Rightarrow> do {
         cs \<leftarrow> case_types (payload_cases Fields);
         cases_plan Infos TR (empty_cases Fields) cs
       }
   }"

definition nominal_plan :: "nat \<Rightarrow> ReflectionInfo list \<Rightarrow> TypeRef \<Rightarrow> layout_plan option" where
  "nominal_plan n Infos TR = do {
     FD \<leftarrow> getFieldTypeInfo Infos TR;
     case FD of
       None \<Rightarrow> map_option constant_plan (builtin_info Infos TR)
     | Some FD \<Rightarrow>
         (case fd_kind FD of
            ClassKind \<Rightarrow> map_option constant_plan (reference_info Infos StrongReference NativeCounting)
          | StructKind \<Rightarrow> do {
              found \<leftarrow> getFieldTypeRefs n Infos TR (Some FD);
              case found of
                None \<Rightarrow> Some no_layout
              | Some Fields \<Rightarrow> map_option (\<lambda>members. record_plan members (new_record StructRecord)) (field_list Fields)
            }
          | EnumKind \<Rightarrow> enum_plan n Infos TR FD
          | MultiPayloadEnum \<Rightarrow> enum_plan n Infos TR FD
          | ObjCClassKind \<Rightarrow> map_option constant_plan (reference_info Infos StrongReference UnknownCounting)
          | _ \<Rightarrow> Some no_layout)
   }"

text \<open>Storage qualifiers replace the reference inside. The object of a class existential is a reference.\<close>

definition rebuilt_object :: "ReflectionInfo list \<Rightarrow> ReferenceKind \<Rightarrow> TypeInfo FieldInfo \<Rightarrow> TypeInfo FieldInfo option" where
  "rebuilt_object Infos kind F =
     (if FieldName F \<noteq> ''object'' then Some F
      else case FieldTI F of
          ReferenceTypeInfo info SubKind Refcounting \<Rightarrow> do {
            TI \<leftarrow> reference_info Infos kind Refcounting;
            map_option (FieldInfo (FieldName F) (FieldOffset F) (FieldTR F)) TI
          }
        | _ \<Rightarrow> None)"

fun rebuilt :: "ReflectionInfo list \<Rightarrow> ReferenceKind \<Rightarrow> TypeInfo \<Rightarrow> TypeInfo built" where
  "rebuilt Infos kind (ReferenceTypeInfo info SubKind Refcounting) = reference_info Infos kind Refcounting"
| "rebuilt Infos kind (RecordTypeInfo info SubKind Fields) =
     (if SubKind = SinglePayloadEnum then
        if kind = WeakReference then (case Fields of [] \<Rightarrow> None | FieldInfo Name offset TR TI # fs \<Rightarrow> rebuilt Infos kind TI)
        else Some None
      else if SubKind = ClassExistential then do {
        Fields \<leftarrow> those (map (rebuilt_object Infos kind) Fields);
        map_option Some (makeTypeInfo (RecordTypeInfo info SubKind Fields))
      }
      else Some None)"
| "rebuilt Infos kind (BuiltinTypeInfo info Name) = Some None"

definition storage_plan :: "ReflectionInfo list \<Rightarrow> TypeRef \<Rightarrow> ReferenceKind \<Rightarrow> layout_plan" where
  "storage_plan Infos TR kind = ([TR], \<lambda>TIs. rebuilt Infos kind (hd TIs))"

definition function_plan :: "ReflectionInfo list \<Rightarrow> function_flags \<Rightarrow> layout_plan option" where
  "function_plan Infos flags =
     (let convention = getConvention flags in
      if convention = convention_value SwiftConvention then Some thick_function_plan
      else if convention = convention_value Block then map_option constant_plan (reference_info Infos StrongReference UnknownCounting)
      else if convention = convention_value Thin \<or> convention = convention_value CFunctionPointer
      then Some (same_plan getThinFunctionTypeRef)
      else None)"

fun plan :: "nat \<Rightarrow> ReflectionInfo list \<Rightarrow> TypeRef \<Rightarrow> layout_plan option" where
  "plan n Infos (BuiltinTypeRef MangledName) =
     map_option constant_plan
       (if MangledName = ''Bo'' then reference_info Infos StrongReference NativeCounting
        else if MangledName = ''BO'' then reference_info Infos StrongReference UnknownCounting
        else builtin_info Infos (BuiltinTypeRef MangledName))"
| "plan n Infos (NominalTypeRef name parent) = nominal_plan n Infos (NominalTypeRef name parent)"
| "plan n Infos (BoundGenericTypeRef name params parent) = nominal_plan n Infos (BoundGenericTypeRef name params parent)"
| "plan n Infos (TupleTypeRef elements variadic) = Some (record_plan (map (Pair []) elements) (new_record TupleRecord))"
| "plan n Infos (FunctionTypeRef params result flags) = function_plan Infos flags"
| "plan n Infos (ProtocolCompositionTypeRef protocols superclass any) =
     addProtocolComposition Infos protocols superclass any new_existential \<bind> existential_plan Infos"
| "plan n Infos (MetatypeTypeRef t wasAbstract) = do {
     r \<leftarrow> singleton_metatype (MetatypeTypeRef t wasAbstract);
     Some (case r of
         UnknownMetatype \<Rightarrow> no_layout
       | ThinMetatype \<Rightarrow> constant_plan (Some empty_info)
       | ThickMetatype \<Rightarrow> same_plan getAnyMetatypeTypeRef)
   }"
| "plan n Infos (ExistentialMetatypeTypeRef t) =
     (case t of
        ProtocolCompositionTypeRef protocols superclass any \<Rightarrow>
          addProtocolComposition Infos protocols superclass any new_existential \<bind> metatype_plan Infos
      | _ \<Rightarrow> Some no_layout)"
| "plan n Infos (ForeignClassTypeRef name) = map_option constant_plan (reference_info Infos StrongReference UnknownCounting)"
| "plan n Infos (ObjCClassTypeRef name) = map_option constant_plan (reference_info Infos StrongReference UnknownCounting)"
| "plan n Infos (UnownedStorageTypeRef t) = Some (storage_plan Infos t UnownedReference)"
| "plan n Infos (WeakStorageTypeRef t) = Some (storage_plan Infos t WeakReference)"
| "plan n Infos (UnmanagedStorageTypeRef t) = Some (storage_plan Infos t UnmanagedReference)"
| "plan n Infos (SILBoxTypeRef t) = map_option constant_plan (reference_info Infos StrongReference NativeCounting)"
| "plan n Infos _ = Some no_layout"

section \<open>Layouts by rules\<close>

inductive has_layout :: "nat \<Rightarrow> ReflectionInfo list \<Rightarrow> TypeRef \<Rightarrow> TypeInfo \<Rightarrow> bool" for n Infos where
  "plan n Infos TR = Some p \<Longrightarrow> list_all2 (has_layout n Infos) (fst p) TIs \<Longrightarrow> snd p TIs = Some (Some TI) \<Longrightarrow>
   has_layout n Infos TR TI"

definition needs :: "nat \<Rightarrow> ReflectionInfo list \<Rightarrow> (TypeRef \<times> TypeRef) set" where
  "needs n Infos = {(t, TR). \<exists>p. plan n Infos TR = Some p \<and> t \<in> set (fst p)}"

text \<open>A type whose layout the code computes without a failed assertion or a null dereference.\<close>

definition safe_plan :: "nat \<Rightarrow> ReflectionInfo list \<Rightarrow> layout_plan \<Rightarrow> bool" where
  "safe_plan n Infos p \<longleftrightarrow> (\<forall>TIs. list_all2 (has_layout n Infos) (fst p) TIs \<longrightarrow> snd p TIs \<noteq> None)"

definition crash_free :: "nat \<Rightarrow> ReflectionInfo list \<Rightarrow> TypeRef \<Rightarrow> bool" where
  "crash_free n Infos TR \<longleftrightarrow> (\<exists>p. plan n Infos TR = Some p \<and> safe_plan n Infos p)"

definition yields :: "nat \<Rightarrow> ReflectionInfo list \<Rightarrow> layout_plan \<Rightarrow> TypeInfo \<Rightarrow> bool" where
  "yields n Infos p TI \<longleftrightarrow> (\<exists>TIs. list_all2 (has_layout n Infos) (fst p) TIs \<and> snd p TIs = Some (Some TI))"

lemma has_layout_iff: "has_layout n Infos TR TI \<longleftrightarrow> (\<exists>p. plan n Infos TR = Some p \<and> yields n Infos p TI)"
  by (subst has_layout.simps) (auto simp: yields_def)

lemma has_layoutI: "plan n Infos TR = Some p \<Longrightarrow> yields n Infos p TI \<Longrightarrow> has_layout n Infos TR TI"
  by (auto simp: has_layout_iff)

lemma list_all2_left: "list_all2 P xs ys \<Longrightarrow> x \<in> set xs \<Longrightarrow> \<exists>y. P x y"
  by (induction rule: list_all2_induct) auto

lemma list_all2_unique:
  "list_all2 (\<lambda>x y. P x y \<and> (\<forall>z. P x z \<longrightarrow> y = z)) xs ys \<Longrightarrow> list_all2 P xs zs \<Longrightarrow> ys = zs"
  by (induction arbitrary: zs rule: list_all2_induct) (auto simp: list_all2_Cons1)

text \<open>A type has one layout.\<close>

lemma has_layout_unique: "has_layout n Infos TR TI \<Longrightarrow> has_layout n Infos TR TI' \<Longrightarrow> TI = TI'"
proof (induction arbitrary: TI' rule: has_layout.induct)
  case (1 TR p TIs TI)
  from 1(4) obtain TIs' where TIs': "list_all2 (has_layout n Infos) (fst p) TIs'" "snd p TIs' = Some (Some TI')"
    using 1(1) by (auto simp: has_layout_iff [of n Infos TR] yields_def)
  from list_all2_unique [OF 1(3) TIs'(1)] 1(2) TIs'(2) show ?case by simp
qed

lemma layouts_unique: "list_all2 (has_layout n Infos) ts TIs \<Longrightarrow> list_all2 (has_layout n Infos) ts TIs' \<Longrightarrow> TIs = TIs'"
  by (rule list_all2_unique [of "has_layout n Infos"], erule list_all2_mono) (use has_layout_unique in metis)

text \<open>A type that needs itself has no layout.\<close>

lemma needs_iff: "plan n Infos TR = Some p \<Longrightarrow> (t, TR) \<in> needs n Infos \<longleftrightarrow> t \<in> set (fst p)"
  by (cases p) (auto simp: needs_def)

lemma has_layout_accessible: "has_layout n Infos TR TI \<Longrightarrow> TR \<in> Wellfounded.acc (needs n Infos)"
proof (induction rule: has_layout.induct)
  case (1 TR p TIs TI)
  have "t \<in> Wellfounded.acc (needs n Infos)" if "t \<in> set (fst p)" for t
    using list_all2_left [OF 1(3) that] by (elim exE conjE)
  with 1(1) show ?case by (rule_tac acc.accI) (simp add: needs_iff)
qed

lemma acc_no_cycle: "x \<in> Wellfounded.acc r \<Longrightarrow> (x, x) \<notin> r\<^sup>+"
proof (induction rule: acc.induct)
  case (accI x)
  show ?case
  proof
    assume "(x, x) \<in> r\<^sup>+"
    then obtain z where "(x, z) \<in> r\<^sup>*" "(z, x) \<in> r" by (blast dest: tranclD2)
    moreover from this have "(z, z) \<in> r\<^sup>+" by (rule_tac rtrancl_into_trancl2)
    ultimately show False using accI(2) by blast
  qed
qed

lemma recursive_no_layout: "(TR, TR) \<in> (needs n Infos)\<^sup>+ \<Longrightarrow> \<not> has_layout n Infos TR TI"
  using has_layout_accessible acc_no_cycle by metis

end
