(* ===== verification/Type_Layout_Shape.thy ===== *)
theory Type_Layout_Shape
  imports Type_Layout_Rules
begin

text \<open>
  What the rules yield: layouts have positive alignments, the layout of an enum with one payload holds the
  layout of the payload, and the object of a class existential is a reference.
\<close>

section \<open>The shape of layouts\<close>

text \<open>All alignments are positive; an enum with one payload has the layout of its payload, and the object
  of a class existential is a reference.\<close>

definition shaped :: "nat \<Rightarrow> ReflectionInfo list \<Rightarrow> TypeRef set \<Rightarrow> TypeInfo \<Rightarrow> bool" where
  "shaped n Infos N TI \<longleftrightarrow> getInfoAlignment TI > 0 \<and>
     (case TI of
        RecordTypeInfo info kind Fields \<Rightarrow>
          (kind = SinglePayloadEnum \<longrightarrow> (\<exists>F. Fields = [F] \<and> FieldTR F \<in> N \<and> has_layout n Infos (FieldTR F) (FieldTI F))) \<and>
          (kind = ClassExistential \<longrightarrow> (\<forall>F \<in> set Fields. FieldName F = ''object'' \<longrightarrow>
            (\<exists>info kind Refcounting. FieldTI F = ReferenceTypeInfo info kind Refcounting)))
      | _ \<Rightarrow> True)"

lemma makeTypeInfo_Some: "makeTypeInfo TI = Some TI' \<longleftrightarrow> TI' = TI \<and> getInfoAlignment TI > 0"
  by (auto simp: makeTypeInfo_def bind_eq_Some_iff assert_that_eq_Some)

lemma and_then_Some: "and_then m k = Some (Some y) \<longleftrightarrow> (\<exists>x. m = Some (Some x) \<and> k x = Some (Some y))"
  by (induction m k rule: and_then.induct) auto

lemma reference_info_Some:
  "reference_info Infos kind Refcounting = Some (Some TI) \<Longrightarrow> (\<exists>info. TI = ReferenceTypeInfo info kind Refcounting) \<and> getInfoAlignment TI > 0"
  by (auto simp: reference_info_def and_then_Some makeTypeInfo_Some)

lemma reference_shaped: "reference_info Infos kind Refcounting = Some (Some TI) \<Longrightarrow> shaped n Infos N TI"
  using reference_info_Some [of Infos kind Refcounting TI] by (auto simp: shaped_def)

lemma builtin_shaped: "builtin_info Infos TR = Some (Some TI) \<Longrightarrow> shaped n Infos N TI"
  by (auto simp: builtin_info_def and_then_Some makeBuiltinTypeInfo_def bind_eq_Some_iff makeTypeInfo_Some shaped_def)

lemma empty_shaped: "shaped n Infos N empty_info"
  by (simp add: empty_info_def shaped_def getInfoAlignment_def)

lemma build_record_Some:
  "build_record b = Some (Some TI) \<Longrightarrow> getInfoAlignment TI > 0 \<and> (\<exists>info. TI = RecordTypeInfo info (rb_Kind b) (rb_Fields b))"
  by (auto simp: build_record_def makeTypeInfo_Some split: if_splits)

lemma addField_layout_keeps:
  "addField_layout s a x b = Some (offset, b') \<Longrightarrow> rb_Kind b' = rb_Kind b \<and> rb_Fields b' = rb_Fields b \<and> rb_Invalid b' = rb_Invalid b"
  by (auto simp: addField_layout_def Let_def bind_eq_Some_iff assert_that_eq_Some split: if_splits)

lemma place_fields_keeps:
  "place_fields members TIs b = Some b' \<Longrightarrow> rb_Kind b' = rb_Kind b \<and> rb_Invalid b' = rb_Invalid b \<and>
    (\<exists>fs. rb_Fields b' = rb_Fields b @ fs \<and> length fs \<le> length TIs \<and>
      (\<forall>i < length fs. FieldName (fs ! i) = fst (members ! i) \<and> FieldTI (fs ! i) = TIs ! i))"
proof (induction members TIs b arbitrary: b' rule: place_fields.induct)
  case (1 Name TR members TI TIs b)
  from 1(2) obtain offset b1 where b1: "addField_layout (getSize TI) (getInfoAlignment TI) (getInfoExtraInhabitants TI) b = Some (offset, b1)"
    "place_fields members TIs (b1\<lparr>rb_Fields := rb_Fields b1 @ [FieldInfo Name offset TR TI]\<rparr>) = Some b'"
    by (auto simp: bind_eq_Some_iff)
  from 1(1) [OF b1(1) refl b1(2)] addField_layout_keeps [OF b1(1)] obtain fs where
    fs: "rb_Kind b' = rb_Kind b" "rb_Invalid b' = rb_Invalid b" "rb_Fields b' = rb_Fields b @ FieldInfo Name offset TR TI # fs"
      "length fs \<le> length TIs" "\<forall>i < length fs. FieldName (fs ! i) = fst (members ! i) \<and> FieldTI (fs ! i) = TIs ! i"
    by auto
  show ?case using fs by (intro conjI exI [of _ "FieldInfo Name offset TR TI # fs"]) (auto simp: nth_Cons split: nat.splits)
qed auto

lemma record_plan_shaped:
  assumes "snd (record_plan members b) TIs = Some (Some TI)" "rb_Kind b \<noteq> SinglePayloadEnum" "rb_Kind b \<noteq> ClassExistential"
  shows "shaped n Infos N TI"
proof -
  from assms(1) obtain b' where b': "place_fields members TIs b = Some b'" "build_record b' = Some (Some TI)"
    by (auto simp: record_plan_def bind_eq_Some_iff)
  show ?thesis using place_fields_keeps [OF b'(1)] build_record_Some [OF b'(2)] assms(2,3) by (auto simp: shaped_def)
qed

lemma finish_enum_Some:
  "finish_enum kind xi b = Some (Some TI) \<Longrightarrow> getInfoAlignment TI > 0 \<and> (\<exists>info. TI = RecordTypeInfo info kind (en_Cases b))"
  by (auto simp: finish_enum_def makeTypeInfo_Some split: if_splits)

lemma object_layout:
  assumes "has_layout n Infos t TI" "t = getUnknownObjectTypeRef \<or> t = getNativeObjectTypeRef"
  shows "\<exists>info kind Refcounting. TI = ReferenceTypeInfo info kind Refcounting"
  using assms by (auto simp: has_layout_iff special_types yields_def constant_plan_def dest!: reference_info_Some)

definition keeps_shape :: "nat \<Rightarrow> ReflectionInfo list \<Rightarrow> TypeRef set \<Rightarrow> layout_plan \<Rightarrow> bool" where
  "keeps_shape n Infos N p \<longleftrightarrow> (\<forall>TIs TI. list_all2 (\<lambda>t TI. t \<in> N \<and> has_layout n Infos t TI \<and> shaped n Infos N TI) (fst p) TIs \<longrightarrow>
     snd p TIs = Some (Some TI) \<longrightarrow> shaped n Infos N TI)"

lemma keeps_constant: "(\<And>TI. r = Some TI \<Longrightarrow> shaped n Infos N TI) \<Longrightarrow> keeps_shape n Infos N (constant_plan r)"
  by (simp add: keeps_shape_def constant_plan_def)

lemma keeps_none: "keeps_shape n Infos N no_layout"
  by (rule keeps_constant) simp

lemma keeps_reference: "reference_info Infos kind Refcounting = Some r \<Longrightarrow> keeps_shape n Infos N (constant_plan r)"
  by (rule keeps_constant) (simp add: reference_shaped)

lemma keeps_builtin: "builtin_info Infos TR = Some r \<Longrightarrow> keeps_shape n Infos N (constant_plan r)"
  by (rule keeps_constant) (simp add: builtin_shaped)

lemma keeps_same: "keeps_shape n Infos N (same_plan TR)"
  by (auto simp: keeps_shape_def same_plan_def list_all2_Cons1)

lemma keeps_record: "rb_Kind b \<noteq> SinglePayloadEnum \<Longrightarrow> rb_Kind b \<noteq> ClassExistential \<Longrightarrow> keeps_shape n Infos N (record_plan members b)"
  unfolding keeps_shape_def using record_plan_shaped by blast

lemma keeps_class:
  assumes "Object = getUnknownObjectTypeRef \<or> Object = getNativeObjectTypeRef" "\<forall>m \<in> set members. fst m \<noteq> ''object''"
  shows "keeps_shape n Infos N (record_plan ((''object'', Object) # members) (new_record ClassExistential))"
  unfolding keeps_shape_def
proof (intro allI impI)
  fix TIs TI
  let ?ms = "(''object'', Object) # members"
  assume l: "list_all2 (\<lambda>t TI. t \<in> N \<and> has_layout n Infos t TI \<and> shaped n Infos N TI) (fst (record_plan ?ms (new_record ClassExistential))) TIs"
    and r: "snd (record_plan ?ms (new_record ClassExistential)) TIs = Some (Some TI)"
  from r obtain b' where b': "place_fields ?ms TIs (new_record ClassExistential) = Some b'" "build_record b' = Some (Some TI)"
    by (auto simp: record_plan_def bind_eq_Some_iff)
  obtain fs where fs: "rb_Kind b' = ClassExistential" "rb_Fields b' = fs" "length fs \<le> length TIs"
    "\<forall>i < length fs. FieldName (fs ! i) = fst (?ms ! i) \<and> FieldTI (fs ! i) = TIs ! i"
    using place_fields_keeps [OF b'(1)] by (auto simp: new_record_def)
  have len: "length TIs = length ?ms" using l by (simp add: record_plan_def list_all2_lengthD [symmetric])
  obtain TI0 TIs' where TIs: "TIs = TI0 # TIs'" "has_layout n Infos Object TI0"
    using l by (auto simp: record_plan_def list_all2_Cons1)
  have "\<exists>info kind Refcounting. FieldTI (fs ! i) = ReferenceTypeInfo info kind Refcounting"
    if "i < length fs" "FieldName (fs ! i) = ''object''" for i
  proof (cases i)
    case 0
    then show ?thesis using fs(4) that(1) TIs object_layout [OF TIs(2) assms(1)] by auto
  next
    case (Suc j)
    then show ?thesis using fs(3,4) that len assms(2) by (auto simp: TIs(1))
  qed
  then show "shaped n Infos N TI" using build_record_Some [OF b'(2)] fs(1,2) by (auto simp: shaped_def in_set_conv_nth)
qed

lemma keeps_opaque:
  "keeps_shape n Infos N (ts, \<lambda>TIs. do {
     (offset, r) \<leftarrow> addField_layout (f TIs) (g TIs) 0 (new_record OpaqueExistential);
     place_fields members (h TIs) r \<bind> build_record
   })"
  unfolding keeps_shape_def
proof (intro allI impI)
  fix TIs TI
  assume "snd (ts, \<lambda>TIs. do {
     (offset, r) \<leftarrow> addField_layout (f TIs) (g TIs) 0 (new_record OpaqueExistential);
     place_fields members (h TIs) r \<bind> build_record }) TIs = Some (Some TI)"
  then obtain offset r b' where b': "addField_layout (f TIs) (g TIs) 0 (new_record OpaqueExistential) = Some (offset, r)"
    "place_fields members (h TIs) r = Some b'" "build_record b' = Some (Some TI)" by (auto simp: bind_eq_Some_iff)
  have "rb_Kind b' = OpaqueExistential"
    using addField_layout_keeps [OF b'(1)] place_fields_keeps [OF b'(2)] by (simp add: new_record_def)
  then show "shaped n Infos N TI" using build_record_Some [OF b'(3)] by (auto simp: shaped_def)
qed

lemma keeps_existential:
  assumes "existential_plan Infos b = Some p"
  shows "keeps_shape n Infos N p"
proof -
  obtain e where e: "examineProtocols Infos b = Some e" using assms by (auto simp: existential_plan_def bind_eq_Some_iff)
  have names: "\<forall>m \<in> set (wtables k). fst m \<noteq> ''object''" for k by (simp add: wtables_def)
  show ?thesis
  proof (cases "eb_Invalid e \<or> ObjC e")
    case True
    then show ?thesis using assms e by (auto simp: existential_plan_def keeps_none keeps_reference split: if_splits)
  next
    case False
    show ?thesis
    proof (cases "Representation e")
      case OpaqueRepresentation
      show ?thesis using assms unfolding existential_plan_def e using False OpaqueRepresentation
        by (clarsimp simp: Let_def) (rule keeps_opaque)
    next
      case ClassRepresentation
      show ?thesis using assms unfolding existential_plan_def e using False ClassRepresentation names
        by (auto simp: keeps_class)
    next
      case ErrorRepresentation
      show ?thesis using assms unfolding existential_plan_def e using False ErrorRepresentation
        by (auto simp: keeps_record new_record_def)
    qed
  qed
qed

lemma keeps_metatype:
  assumes "metatype_plan Infos b = Some p"
  shows "keeps_shape n Infos N p"
proof -
  obtain e where e: "examineProtocols Infos b = Some e" using assms by (auto simp: metatype_plan_def bind_eq_Some_iff)
  show ?thesis using assms unfolding metatype_plan_def e
    by (auto simp: keeps_none keeps_builtin keeps_record new_record_def split: if_splits)
qed

lemma keeps_thick: "keeps_shape n Infos N thick_function_plan"
  by (simp add: thick_function_plan_def keeps_record new_record_def)

lemma keeps_function: "function_plan Infos flags = Some p \<Longrightarrow> keeps_shape n Infos N p"
  by (auto simp: function_plan_def Let_def keeps_same keeps_reference keeps_thick split: if_splits)

text \<open>Enums.\<close>

lemma finish_enum_shaped:
  "finish_enum kind xi b = Some (Some TI) \<Longrightarrow> kind \<noteq> SinglePayloadEnum \<Longrightarrow> kind \<noteq> ClassExistential \<Longrightarrow> shaped n Infos N TI"
  using finish_enum_Some [of kind xi b TI] by (auto simp: shaped_def)

lemma keeps_single: "keeps_shape n Infos N (single_plan k Name CaseTR)"
  unfolding keeps_shape_def
proof (intro allI impI)
  fix TIs TI
  assume l: "list_all2 (\<lambda>t TI. t \<in> N \<and> has_layout n Infos t TI \<and> shaped n Infos N TI) (fst (single_plan k Name CaseTR)) TIs"
    and r: "snd (single_plan k Name CaseTR) TIs = Some (Some TI)"
  from l obtain PI where PI: "TIs = [PI]" "CaseTR \<in> N" "has_layout n Infos CaseTR PI" by (auto simp: single_plan_def list_all2_Cons1)
  obtain xi b where b: "single_payload_enum k (Some PI) (addCase Name CaseTR (Some PI) new_enum) = (xi, b)" by fastforce
  then have "en_Cases b = [FieldInfo Name 0 CaseTR PI]"
    by (auto simp: single_payload_enum_def addCase_def new_enum_def Let_def split: if_splits)
  moreover have "finish_enum SinglePayloadEnum xi b = Some (Some TI)" using r b PI(1) by (simp add: single_plan_def)
  ultimately show "shaped n Infos N TI" using finish_enum_Some [of SinglePayloadEnum xi b TI] PI(2,3) by (auto simp: shaped_def)
qed

lemma keeps_multi: "keeps_shape n Infos N (multi_plan FixedDescriptor k cs)"
  by (auto simp: keeps_shape_def multi_plan_def Let_def finish_enum_shaped split: option.splits)

lemma keeps_cases: "cases_plan Infos TR k cs = Some p \<Longrightarrow> keeps_shape n Infos N p"
  by (induction Infos TR k cs rule: cases_plan.induct)
    (auto simp: bind_eq_Some_iff keeps_same keeps_single keeps_multi finish_enum_shaped intro!: keeps_constant split: if_splits)

lemma keeps_enum: "enum_plan m Infos TR FD = Some p \<Longrightarrow> keeps_shape n Infos N p"
  by (auto simp: enum_plan_def bind_eq_Some_iff keeps_none keeps_cases split: option.splits)

lemma keeps_nominal:
  assumes "nominal_plan m Infos TR = Some p"
  shows "keeps_shape n Infos N p"
proof -
  obtain found where f: "getFieldTypeInfo Infos TR = Some found" using assms by (auto simp: nominal_plan_def bind_eq_Some_iff)
  show ?thesis
  proof (cases found)
    case None
    then show ?thesis using assms f by (auto simp: nominal_plan_def keeps_builtin)
  next
    case (Some FD)
    show ?thesis
      by (cases "fd_kind FD"; use assms f Some in \<open>auto simp: nominal_plan_def bind_eq_Some_iff keeps_none keeps_reference
        keeps_enum keeps_record new_record_def split: option.splits\<close>)
  qed
qed

text \<open>Storage qualifiers.\<close>

lemma rebuilt_object_Some:
  "rebuilt_object Infos kind F = Some F' \<Longrightarrow> FieldName F' = FieldName F \<and>
    (FieldName F = ''object'' \<longrightarrow> (\<exists>info kind Refcounting. FieldTI F' = ReferenceTypeInfo info kind Refcounting))"
  by (cases "FieldTI F") (auto simp: rebuilt_object_def bind_eq_Some_iff dest!: reference_info_Some split: if_splits)

lemma those_Some_set: "those (map f xs) = Some ys \<Longrightarrow> y \<in> set ys \<Longrightarrow> \<exists>x \<in> set xs. f x = Some y"
  by (induction xs arbitrary: ys) (auto split: option.splits)

lemma rebuilt_shaped:
  "rebuilt Infos kind TI = Some (Some TI') \<Longrightarrow> shaped n Infos N TI'"
proof (induction Infos kind TI arbitrary: TI' rule: rebuilt.induct)
  case (2 Infos kind info SubKind Fields)
  show ?case
  proof (cases "SubKind = SinglePayloadEnum")
    case True
    with 2 show ?thesis by (auto split: if_splits list.splits FieldInfo.splits)
  next
    case False
    then obtain Fields' where f: "SubKind = ClassExistential" "those (map (rebuilt_object Infos kind) Fields) = Some Fields'"
      "makeTypeInfo (RecordTypeInfo info SubKind Fields') = Some TI'"
      using 2(2) by (auto simp: bind_eq_Some_iff split: if_splits)
    have "\<forall>F \<in> set Fields'. FieldName F = ''object'' \<longrightarrow> (\<exists>info kind Refcounting. FieldTI F = ReferenceTypeInfo info kind Refcounting)"
      using those_Some_set [OF f(2)] rebuilt_object_Some by metis
    with f show ?thesis by (auto simp: makeTypeInfo_Some shaped_def)
  qed
qed (auto simp: reference_shaped)

lemma keeps_storage: "keeps_shape n Infos N (storage_plan Infos t kind)"
  by (auto simp: keeps_shape_def storage_plan_def rebuilt_shaped)

lemma keeps_plan:
  assumes "plan n Infos TR = Some p"
  shows "keeps_shape n Infos N p"
proof (cases TR)
  case (MetatypeTypeRef t wasAbstract)
  then obtain r where "singleton_metatype (MetatypeTypeRef t wasAbstract) = Some r"
    using assms by (simp only: plan.simps) (auto simp only: bind_eq_Some_iff)
  then show ?thesis using assms MetatypeTypeRef
    by (cases r) (auto simp: keeps_none keeps_same empty_shaped intro!: keeps_constant split: if_splits)
qed (use assms in \<open>auto simp: bind_eq_Some_iff keeps_none keeps_reference keeps_builtin keeps_nominal keeps_record new_record_def
    keeps_function keeps_existential keeps_metatype keeps_storage reference_shaped builtin_shaped
    intro!: keeps_constant split: if_splits TypeRef.splits\<close>)

lemma has_layout_shaped:
  assumes "has_layout n Infos t TI" "t \<in> N" "\<And>u t. t \<in> N \<Longrightarrow> (u, t) \<in> needs n Infos \<Longrightarrow> u \<in> N"
  shows "shaped n Infos N TI"
  using assms
proof (induction rule: has_layout.induct)
  case (1 TR p TIs TI)
  have "set (fst p) \<subseteq> N" using 1(1,4,5) by (auto simp: needs_iff)
  then have "list_all2 (\<lambda>t TI. t \<in> N \<and> has_layout n Infos t TI \<and> shaped n Infos N TI) (fst p) TIs"
    using 1(3,5) by (auto simp: list_all2_conv_all_nth subset_iff)
  then show ?case using keeps_plan [OF 1(1)] 1(2) unfolding keeps_shape_def by blast
qed

lemma layout_aligned: "has_layout n Infos t TI \<Longrightarrow> getInfoAlignment TI > 0"
  using has_layout_shaped [of n Infos t TI UNIV] by (simp add: shaped_def)

end
