(* ===== verification/Type_Lowering_Exact.thy ===== *)
theory Type_Lowering_Exact
  imports Type_Layout_Shape
begin

text \<open>
  The code against the rules: what the caches may hold (\<open>good\<close>), a triple for operations on the state of
  the type converter (\<open>lowers\<close>), and that every operation computes what its plan says if the nested calls
  answer as the rules do (\<open>layout_oracle\<close>).
\<close>

section \<open>Triples\<close>

definition is_layout :: "nat \<Rightarrow> ReflectionInfo list \<Rightarrow> TypeRef \<Rightarrow> TypeInfo option \<Rightarrow> bool" where
  "is_layout n Infos TR r \<longleftrightarrow> (\<forall>TI. r = Some TI \<longleftrightarrow> has_layout n Infos TR TI)"

definition meets :: "nat \<Rightarrow> ReflectionInfo list \<Rightarrow> layout_plan \<Rightarrow> TypeInfo option \<Rightarrow> bool" where
  "meets n Infos p r \<longleftrightarrow> (\<forall>TI. r = Some TI \<longleftrightarrow> yields n Infos p TI)"

lemma yields_unique: "yields n Infos p TI \<Longrightarrow> yields n Infos p TI' \<Longrightarrow> TI = TI'"
  by (auto simp: yields_def dest: layouts_unique)

lemma meets_Some: "yields n Infos p TI \<Longrightarrow> meets n Infos p (Some TI)"
  by (auto simp: meets_def dest: yields_unique)

lemma meets_is_layout: "plan n Infos TR = Some p \<Longrightarrow> is_layout n Infos TR r \<longleftrightarrow> meets n Infos p r"
  by (simp add: is_layout_def meets_def has_layout_iff)

lemma meets_of:
  assumes "list_all2 (has_layout n Infos) (fst p) TIs" "snd p TIs = Some r"
  shows "meets n Infos p r"
proof -
  have "yields n Infos p TI \<longleftrightarrow> snd p TIs = Some (Some TI)" for TI
    using layouts_unique [OF assms(1)] assms(1) unfolding yields_def by metis
  then show ?thesis using assms(2) by (simp add: meets_def)
qed

lemma meets_none: "\<nexists>TIs. list_all2 (has_layout n Infos) (fst p) TIs \<Longrightarrow> meets n Infos p None"
  by (simp add: meets_def yields_def)

lemma safe_returns: "safe_plan n Infos p \<Longrightarrow> list_all2 (has_layout n Infos) (fst p) TIs \<Longrightarrow> snd p TIs \<noteq> None"
  by (simp add: safe_plan_def)

definition good :: "nat \<Rightarrow> ReflectionInfo list \<Rightarrow> type_converter \<Rightarrow> bool" where
  "good n Infos tc \<longleftrightarrow>
     (\<forall>TR r. Cache tc TR = Some r \<longrightarrow> is_layout n Infos TR r) \<and>
     (\<forall>kind Refcounting TI. ReferenceCache tc (kind, Refcounting) = Some TI \<longrightarrow> reference_info Infos kind Refcounting = Some (Some TI)) \<and>
     (\<forall>TI. ThinFunctionTI tc = Some TI \<longrightarrow> builtin_info Infos getThinFunctionTypeRef = Some (Some TI)) \<and>
     (\<forall>TI. ThickFunctionTI tc = Some TI \<longrightarrow> yields n Infos thick_function_plan TI) \<and>
     (\<forall>TI. AnyMetatypeTI tc = Some TI \<longrightarrow> builtin_info Infos getAnyMetatypeTypeRef = Some (Some TI)) \<and>
     (\<forall>TI. EmptyTI tc = Some TI \<longrightarrow> TI = empty_info)"

text \<open>With \<open>must\<close>, the operation must return.\<close>

definition lowers :: "nat \<Rightarrow> ReflectionInfo list \<Rightarrow> bool \<Rightarrow> TypeRef set \<Rightarrow> 'a lowering \<Rightarrow> ('a \<Rightarrow> bool) \<Rightarrow> bool" where
  "lowers n Infos must R m P \<longleftrightarrow> (\<forall>tc. good n Infos tc \<longrightarrow> RecursionCheck tc = R \<longrightarrow>
     (case m tc of
        None \<Rightarrow> \<not> must
      | Some (r, tc') \<Rightarrow> good n Infos tc' \<and> RecursionCheck tc' = R \<and> P r))"

lemma lowersI:
  assumes "\<And>tc. good n Infos tc \<Longrightarrow> RecursionCheck tc = R \<Longrightarrow> must \<Longrightarrow> m tc \<noteq> None"
    "\<And>tc r tc'. good n Infos tc \<Longrightarrow> RecursionCheck tc = R \<Longrightarrow> m tc = Some (r, tc') \<Longrightarrow>
      good n Infos tc' \<and> RecursionCheck tc' = R \<and> P r"
  shows "lowers n Infos must R m P"
  unfolding lowers_def
proof (intro allI impI)
  fix tc assume tc: "good n Infos tc" "RecursionCheck tc = R"
  show "case m tc of None \<Rightarrow> \<not> must | Some (r, tc') \<Rightarrow> good n Infos tc' \<and> RecursionCheck tc' = R \<and> P r"
    using assms(1) [OF tc] assms(2) [OF tc] by (cases "m tc") auto
qed

lemma lowers_must: "lowers n Infos must R m P \<Longrightarrow> good n Infos tc \<Longrightarrow> RecursionCheck tc = R \<Longrightarrow> must \<Longrightarrow> m tc \<noteq> None"
  unfolding lowers_def by (cases "m tc") force+

lemma lowersD:
  "lowers n Infos must R m P \<Longrightarrow> good n Infos tc \<Longrightarrow> RecursionCheck tc = R \<Longrightarrow> m tc = Some (r, tc') \<Longrightarrow>
    good n Infos tc' \<and> RecursionCheck tc' = R \<and> P r"
  unfolding lowers_def by force

lemma lowers_conseq:
  assumes "lowers n Infos must R m P" "\<And>r. P r \<Longrightarrow> Q r"
  shows "lowers n Infos must R m Q"
proof (rule lowersI)
  fix tc assume tc: "good n Infos tc" "RecursionCheck tc = R"
  show "must \<Longrightarrow> m tc \<noteq> None" using lowers_must [OF assms(1) tc] .
  fix r tc' assume "m tc = Some (r, tc')"
  from lowersD [OF assms(1) tc this] assms(2) show "good n Infos tc' \<and> RecursionCheck tc' = R \<and> Q r" by blast
qed

lemma lowers_return: "P r \<Longrightarrow> lowers n Infos must R (\<lambda>tc. Some (r, tc)) P"
  by (simp add: lowers_def)

lemma lowers_bind:
  assumes "lowers n Infos must R m P" "\<And>r. P r \<Longrightarrow> lowers n Infos must R (k r) Q"
  shows "lowers n Infos must R (\<lambda>tc. m tc \<bind> (\<lambda>(r, tc). k r tc)) Q"
proof (rule lowersI)
  fix tc assume tc: "good n Infos tc" "RecursionCheck tc = R"
  show "m tc \<bind> (\<lambda>(r, tc). k r tc) \<noteq> None" if M: must
  proof -
    obtain r tc' where m: "m tc = Some (r, tc')" using lowers_must [OF assms(1) tc M] by auto
    note d = lowersD [OF assms(1) tc m]
    have "k r tc' \<noteq> None" using lowers_must [OF assms(2) [of r], of tc'] d M by blast
    then show ?thesis using m by simp
  qed
  fix s tc'' assume "m tc \<bind> (\<lambda>(r, tc). k r tc) = Some (s, tc'')"
  then obtain r tc' where m: "m tc = Some (r, tc')" "k r tc' = Some (s, tc'')" by (auto simp: bind_eq_Some_iff)
  note d = lowersD [OF assms(1) tc m(1)]
  show "good n Infos tc'' \<and> RecursionCheck tc'' = R \<and> Q s"
    using lowersD [OF assms(2) [of r], of tc' s tc''] d m(2) by blast
qed

lemma lowers_option:
  "(must \<Longrightarrow> x \<noteq> None) \<Longrightarrow> (\<And>y. x = Some y \<Longrightarrow> lowers n Infos must R (k y) Q) \<Longrightarrow>
   lowers n Infos must R (\<lambda>tc. x \<bind> (\<lambda>y. k y tc)) Q"
  by (cases x) (auto simp: lowers_def)

lemma lowers_map_return:
  "(must \<Longrightarrow> x \<noteq> None) \<Longrightarrow> (\<And>y. x = Some y \<Longrightarrow> Q y) \<Longrightarrow> lowers n Infos must R (\<lambda>tc. x \<bind> (\<lambda>y. Some (y, tc))) Q"
  by (rule lowers_option) (auto intro: lowers_return)

text \<open>An operation implements a plan if it computes what the plan yields.\<close>

definition implements ::
    "nat \<Rightarrow> ReflectionInfo list \<Rightarrow> bool \<Rightarrow> TypeRef set \<Rightarrow> TypeRef set \<Rightarrow> TypeInfo option lowering \<Rightarrow> layout_plan option \<Rightarrow> bool" where
  "implements n Infos must R N m P \<longleftrightarrow>
     ((\<forall>p. P = Some p \<longrightarrow> set (fst p) \<subseteq> N) \<longrightarrow> (must \<longrightarrow> (\<exists>p. P = Some p \<and> safe_plan n Infos p)) \<longrightarrow>
      lowers n Infos must R m (\<lambda>r. \<exists>p. P = Some p \<and> meets n Infos p r))"

lemma implementsI:
  assumes "(\<And>p. P = Some p \<Longrightarrow> set (fst p) \<subseteq> N) \<Longrightarrow> (must \<Longrightarrow> \<exists>p. P = Some p \<and> safe_plan n Infos p) \<Longrightarrow>
    lowers n Infos must R m (\<lambda>r. \<exists>p. P = Some p \<and> meets n Infos p r)"
  shows "implements n Infos must R N m P"
  unfolding implements_def using assms by blast

lemma implements_Some:
  assumes "set (fst p) \<subseteq> N \<Longrightarrow> (must \<Longrightarrow> safe_plan n Infos p) \<Longrightarrow> lowers n Infos must R m (meets n Infos p)"
  shows "implements n Infos must R N m (Some p)"
  using assms by (auto intro!: implementsI)

lemma implements_bind:
  "(\<And>y. x = Some y \<Longrightarrow> implements n Infos must R N (k y) (P y)) \<Longrightarrow>
   implements n Infos must R N (\<lambda>tc. x \<bind> (\<lambda>y. k y tc)) (x \<bind> P)"
  by (cases x) (simp_all add: implements_def lowers_def)

lemma meets_constant: "meets n Infos (constant_plan TI) r \<longleftrightarrow> r = TI"
  by (cases r; cases TI) (auto simp: meets_def yields_def constant_plan_def)

lemma implements_constant:
  assumes "(must \<longrightarrow> x \<noteq> None) \<Longrightarrow> lowers n Infos must R m (\<lambda>r. x = Some r)"
  shows "implements n Infos must R N m (map_option constant_plan x)"
proof (rule implementsI)
  assume "must \<Longrightarrow> \<exists>p. map_option constant_plan x = Some p \<and> safe_plan n Infos p"
  then have "must \<longrightarrow> x \<noteq> None" by auto
  from assms [OF this] show "lowers n Infos must R m (\<lambda>r. \<exists>p. map_option constant_plan x = Some p \<and> meets n Infos p r)"
    by (rule lowers_conseq) (auto simp: meets_constant)
qed

lemma implements_none: "implements n Infos must R N (\<lambda>tc. Some (None, tc)) (Some no_layout)"
  by (rule implements_Some, rule lowers_return) (simp add: meets_constant)

section \<open>The caches of references and builtins\<close>

lemma goodD:
  assumes "good n Infos tc"
  shows "Cache tc TR = Some r \<Longrightarrow> is_layout n Infos TR r"
    "ReferenceCache tc (kind, Refcounting) = Some TI \<Longrightarrow> reference_info Infos kind Refcounting = Some (Some TI)"
    "ThickFunctionTI tc = Some TI \<Longrightarrow> yields n Infos thick_function_plan TI"
    "AnyMetatypeTI tc = Some TI \<Longrightarrow> builtin_info Infos getAnyMetatypeTypeRef = Some (Some TI)"
    "EmptyTI tc = Some TI \<Longrightarrow> TI = empty_info"
  using assms unfolding good_def by blast+

lemma good_update:
  assumes "good n Infos tc"
  shows "is_layout n Infos TR r \<Longrightarrow> good n Infos (tc\<lparr>Cache := (Cache tc)(TR \<mapsto> r)\<rparr>)"
    "reference_info Infos kind Refcounting = Some (Some TI) \<Longrightarrow> good n Infos (tc\<lparr>ReferenceCache := (ReferenceCache tc)((kind, Refcounting) \<mapsto> TI)\<rparr>)"
    "(\<And>TI. r = Some TI \<Longrightarrow> yields n Infos thick_function_plan TI) \<Longrightarrow> good n Infos (tc\<lparr>ThickFunctionTI := r\<rparr>)"
    "builtin_info Infos getAnyMetatypeTypeRef = Some (Some TI) \<Longrightarrow> good n Infos (tc\<lparr>AnyMetatypeTI := Some TI\<rparr>)"
    "good n Infos (tc\<lparr>EmptyTI := Some empty_info\<rparr>)"
    "good n Infos (tc\<lparr>RecursionCheck := R\<rparr>)"
  using assms unfolding good_def by simp_all

lemma getReferenceTypeInfo_miss:
  assumes "ReferenceCache tc (kind, Refcounting) = None"
  shows "getReferenceTypeInfo Infos kind Refcounting tc =
    (case reference_info Infos kind Refcounting of
       None \<Rightarrow> None
     | Some None \<Rightarrow> Some (None, tc)
     | Some (Some TI) \<Rightarrow> Some (Some TI, tc\<lparr>ReferenceCache := (ReferenceCache tc)((kind, Refcounting) \<mapsto> TI)\<rparr>))"
proof -
  let ?T = "case Refcounting of NativeCounting \<Rightarrow> getNativeObjectTypeRef | UnknownCounting \<Rightarrow> getUnknownObjectTypeRef"
  consider "getBuiltinTypeInfo Infos ?T = None" | "getBuiltinTypeInfo Infos ?T = Some None" | d where "getBuiltinTypeInfo Infos ?T = Some (Some d)"
    by (metis option.exhaust)
  then show ?thesis
    unfolding getReferenceTypeInfo_def reference_info_def assms
    by cases (auto simp: Let_def makeTypeInfo_def assert_that_def getInfoAlignment_def split: option.splits)
qed

lemma lowers_reference:
  assumes "must \<longrightarrow> reference_info Infos kind Refcounting \<noteq> None"
  shows "lowers n Infos must R (getReferenceTypeInfo Infos kind Refcounting) (\<lambda>r. reference_info Infos kind Refcounting = Some r)"
proof (rule lowersI)
  fix tc assume tc: "good n Infos tc" "RecursionCheck tc = R"
  note miss = getReferenceTypeInfo_miss [of tc kind Refcounting Infos]
  show "getReferenceTypeInfo Infos kind Refcounting tc \<noteq> None" if must
    using assms that miss by (cases "ReferenceCache tc (kind, Refcounting)") (auto simp: getReferenceTypeInfo_def split: option.splits)
  show "good n Infos tc' \<and> RecursionCheck tc' = R \<and> reference_info Infos kind Refcounting = Some r"
    if "getReferenceTypeInfo Infos kind Refcounting tc = Some (r, tc')" for r tc'
  proof (cases "ReferenceCache tc (kind, Refcounting)")
    case None
    then show ?thesis using that miss good_update(2) [OF tc(1)] tc by (auto split: option.splits)
  next
    case (Some found)
    then show ?thesis using that goodD(2) [OF tc(1) Some] tc by (auto simp: getReferenceTypeInfo_def)
  qed
qed

lemma lowers_cached:
  assumes "\<And>tc x. good n Infos tc \<Longrightarrow> c tc = Some x \<Longrightarrow> Q (Some x)" "lowers n Infos must R m Q"
  shows "lowers n Infos must R (\<lambda>tc. if c tc \<noteq> None then Some (c tc, tc) else m tc) Q"
proof (rule lowersI)
  fix tc assume tc: "good n Infos tc" "RecursionCheck tc = R"
  show "(if c tc \<noteq> None then Some (c tc, tc) else m tc) \<noteq> None" if must
    using lowers_must [OF assms(2) tc that] by simp
  fix r tc' assume "(if c tc \<noteq> None then Some (c tc, tc) else m tc) = Some (r, tc')"
  then show "good n Infos tc' \<and> RecursionCheck tc' = R \<and> Q r"
    using lowersD [OF assms(2) tc] assms(1) [OF tc(1)] tc by (auto split: if_splits)
qed

lemma lowers_update:
  assumes "\<And>tc. good n Infos tc \<Longrightarrow> good n Infos (h tc) \<and> RecursionCheck (h tc) = RecursionCheck tc" "P r"
  shows "lowers n Infos must R (\<lambda>tc. Some (r, h tc)) P"
  using assms by (simp add: lowers_def)

text \<open>A descriptor that is looked up and kept.\<close>

lemma builtin_info_bind:
  "getBuiltinTypeInfo Infos TR \<bind> (\<lambda>descriptor. case descriptor of None \<Rightarrow> Some (None, tc) | Some d \<Rightarrow> makeBuiltinTypeInfo d \<bind> (\<lambda>TI. Some (Some TI, h TI tc))) =
   builtin_info Infos TR \<bind> (\<lambda>r. Some (r, case r of None \<Rightarrow> tc | Some TI \<Rightarrow> h TI tc))"
proof -
  consider "getBuiltinTypeInfo Infos TR = None" | "getBuiltinTypeInfo Infos TR = Some None" | d where "getBuiltinTypeInfo Infos TR = Some (Some d)"
    by (metis option.exhaust)
  then show ?thesis
    by cases (auto simp: builtin_info_def bind_map_option Option.bind_assoc comp_def split: option.splits)
qed

lemma lowers_builtin:
  assumes "must \<longrightarrow> builtin_info Infos TR \<noteq> None"
    "\<And>TI tc. builtin_info Infos TR = Some (Some TI) \<Longrightarrow> good n Infos tc \<Longrightarrow> good n Infos (h TI tc) \<and> RecursionCheck (h TI tc) = RecursionCheck tc"
  shows "lowers n Infos must R (\<lambda>tc. getBuiltinTypeInfo Infos TR \<bind> (\<lambda>descriptor. case descriptor of None \<Rightarrow> Some (None, tc)
      | Some d \<Rightarrow> makeBuiltinTypeInfo d \<bind> (\<lambda>TI. Some (Some TI, h TI tc)))) (\<lambda>r. builtin_info Infos TR = Some r)"
  unfolding builtin_info_bind
proof (rule lowers_option)
  fix r assume "builtin_info Infos TR = Some r"
  then show "lowers n Infos must R (\<lambda>tc. Some (r, case r of None \<Rightarrow> tc | Some TI \<Rightarrow> h TI tc)) (\<lambda>r. builtin_info Infos TR = Some r)"
    by (intro lowers_update) (use assms(2) in \<open>auto split: option.splits\<close>)
qed (use assms(1) in simp)

lemma lowers_any_metatype:
  assumes "must \<longrightarrow> builtin_info Infos getAnyMetatypeTypeRef \<noteq> None"
  shows "lowers n Infos must R (getAnyMetatypeTypeInfo Infos) (\<lambda>r. builtin_info Infos getAnyMetatypeTypeRef = Some r)"
  unfolding getAnyMetatypeTypeInfo_def [abs_def]
  by (intro lowers_cached lowers_builtin assms) (auto simp: goodD good_update)

lemma lowers_empty: "lowers n Infos must R getEmptyTypeInfo (\<lambda>r. r = Some empty_info)"
proof -
  have "lowers n Infos must R (\<lambda>tc. Some (Some empty_info, tc\<lparr>EmptyTI := Some empty_info\<rparr>)) (\<lambda>r. r = Some empty_info)"
    by (rule lowers_update) (simp_all add: good_update)
  moreover have "makeTypeInfo (BuiltinTypeInfo \<lparr>Size = 0, Alignment = 1, Stride = 1, NumExtraInhabitants = 0\<rparr> None) = Some empty_info"
    by (simp add: makeTypeInfo_Some empty_info_def getInfoAlignment_def)
  ultimately show ?thesis
    unfolding getEmptyTypeInfo_def [abs_def] by (intro lowers_cached) (auto simp: goodD)
qed

end
