(* ===== verification/Type_Lowering_Steps.thy ===== *)
theory Type_Lowering_Steps
  imports Type_Lowering_Exact
begin

text \<open>
  Every operation of the type converter implements its plan, if the nested calls answer as the rules do
  (\<open>layout_oracle\<close>).
\<close>

lemma same_meets: "meets n Infos (same_plan t) r \<longleftrightarrow> is_layout n Infos t r"
proof -
  have "yields n Infos (same_plan t) TI \<longleftrightarrow> has_layout n Infos t TI" for TI
    by (auto simp: yields_def same_plan_def list_all2_Cons1)
  then show ?thesis by (simp add: meets_def is_layout_def)
qed

section \<open>Answers of nested calls\<close>

locale layout_oracle =
  fixes n :: nat and Infos :: "ReflectionInfo list" and must :: bool and R N :: "TypeRef set"
    and g :: "TypeRef \<Rightarrow> TypeInfo option lowering"
  assumes answers: "t \<in> N \<Longrightarrow> lowers n Infos must R (g t) (is_layout n Infos t)"
    and closed: "t \<in> N \<Longrightarrow> (u, t) \<in> needs n Infos \<Longrightarrow> u \<in> N"
begin

lemma shaped_answers: "t \<in> N \<Longrightarrow> has_layout n Infos t TI \<Longrightarrow> shaped n Infos N TI"
  using has_layout_shaped [of n Infos t TI N] closed by blast

text \<open>Fields.\<close>

lemma lowers_field:
  assumes "t \<in> N" "\<And>TI offset b1. has_layout n Infos t TI \<Longrightarrow>
      addField_layout (getSize TI) (getInfoAlignment TI) (getInfoExtraInhabitants TI) b = Some (offset, b1) \<Longrightarrow>
      Q (b1\<lparr>rb_Fields := rb_Fields b1 @ [FieldInfo Name offset t TI]\<rparr>)"
    "\<nexists>TI. has_layout n Infos t TI \<Longrightarrow> Q (b\<lparr>rb_Invalid := True\<rparr>)"
  shows "lowers n Infos must R (addField g Name t b) Q"
  unfolding addField_def [abs_def]
proof (rule lowers_bind [OF answers [OF assms(1)]])
  fix r assume r: "is_layout n Infos t r"
  show "lowers n Infos must R (\<lambda>tc. case r of None \<Rightarrow> Some (b\<lparr>rb_Invalid := True\<rparr>, tc)
      | Some TI \<Rightarrow> addField_layout (getSize TI) (getInfoAlignment TI) (getInfoExtraInhabitants TI) b \<bind>
          (\<lambda>(offset, b). Some (b\<lparr>rb_Fields := rb_Fields b @ [FieldInfo Name offset t TI]\<rparr>, tc))) Q"
  proof (cases r)
    case None
    with r have "\<nexists>TI. has_layout n Infos t TI" by (auto simp: is_layout_def)
    with None assms(3) show ?thesis by (simp add: lowers_return)
  next
    case (Some TI)
    with r have l: "has_layout n Infos t TI" unfolding is_layout_def by blast
    obtain offset b1 where b1: "addField_layout (getSize TI) (getInfoAlignment TI) (getInfoExtraInhabitants TI) b = Some (offset, b1)"
      using layout_aligned [OF l] by (auto simp: addField_layout_def Let_def)
    with Some assms(2) [OF l b1] show ?thesis by (simp add: lowers_return)
  qed
qed

end

text \<open>The builder after all fields.\<close>

definition fields_added :: "nat \<Rightarrow> ReflectionInfo list \<Rightarrow> (string \<times> TypeRef) list \<Rightarrow> RecordTypeInfoBuilder \<Rightarrow> RecordTypeInfoBuilder \<Rightarrow> bool" where
  "fields_added n Infos members b b' \<longleftrightarrow>
     (\<forall>TIs. list_all2 (has_layout n Infos) (map snd members) TIs \<longrightarrow> place_fields members TIs b = Some b') \<and>
     ((\<nexists>TIs. list_all2 (has_layout n Infos) (map snd members) TIs) \<or> rb_Invalid b \<longrightarrow> rb_Invalid b')"

lemma fields_added_field:
  assumes "has_layout n Infos t TI" "addField_layout (getSize TI) (getInfoAlignment TI) (getInfoExtraInhabitants TI) b = Some (offset, b1)"
    "fields_added n Infos members (b1\<lparr>rb_Fields := rb_Fields b1 @ [FieldInfo Name offset t TI]\<rparr>) b'"
  shows "fields_added n Infos ((Name, t) # members) b b'"
  unfolding fields_added_def
proof (intro conjI allI impI)
  fix TIs assume "list_all2 (has_layout n Infos) (map snd ((Name, t) # members)) TIs"
  then obtain TIs' where TIs: "TIs = TI # TIs'" "list_all2 (has_layout n Infos) (map snd members) TIs'"
    using has_layout_unique [OF assms(1)] by (auto simp: list_all2_Cons1)
  then show "place_fields ((Name, t) # members) TIs b = Some b'" using assms(2,3) by (simp add: fields_added_def)
next
  assume a: "(\<nexists>TIs. list_all2 (has_layout n Infos) (map snd ((Name, t) # members)) TIs) \<or> rb_Invalid b"
  have "(\<nexists>TIs. list_all2 (has_layout n Infos) (map snd members) TIs) \<or> rb_Invalid b1"
    using a
  proof
    assume "\<nexists>TIs. list_all2 (has_layout n Infos) (map snd ((Name, t) # members)) TIs"
    then have "\<not> list_all2 (has_layout n Infos) (map snd ((Name, t) # members)) (TI # TIs)" for TIs by blast
    then show ?thesis using assms(1) by simp
  qed (use addField_layout_keeps [OF assms(2)] in simp)
  then show "rb_Invalid b'" using assms(3) by (simp add: fields_added_def)
qed

lemma fields_added_invalid:
  assumes "\<nexists>TI. has_layout n Infos t TI" "fields_added n Infos members (b\<lparr>rb_Invalid := True\<rparr>) b'"
  shows "fields_added n Infos ((Name, t) # members) b b'"
  using assms by (auto simp: fields_added_def list_all2_Cons1)

context layout_oracle
begin

lemma lowers_fields: "set (map snd members) \<subseteq> N \<Longrightarrow> lowers n Infos must R (addFields g members b) (fields_added n Infos members b)"
proof (induction members arbitrary: b)
  case Nil
  have "fields_added n Infos [] b b" by (simp add: fields_added_def)
  then show ?case by (simp add: lowers_return)
next
  case (Cons m members)
  obtain Name t where m: "m = (Name, t)" by (cases m)
  have "lowers n Infos must R (addField g Name t b) (\<lambda>b'. \<forall>b''. fields_added n Infos members b' b'' \<longrightarrow> fields_added n Infos (m # members) b b'')"
    by (rule lowers_field) (use Cons.prems in \<open>auto simp: m intro: fields_added_field fields_added_invalid\<close>)
  moreover have "lowers n Infos must R (addFields g members b') (fields_added n Infos members b')" for b'
    using Cons by simp
  ultimately have "lowers n Infos must R (\<lambda>tc. addField g Name t b tc \<bind> (\<lambda>(b, tc). addFields g members b tc)) (fields_added n Infos (m # members) b)"
    by (rule lowers_bind [OF _ lowers_conseq]) blast
  then show ?case by (simp add: m)
qed

lemma lowers_record:
  assumes "set (map snd members) \<subseteq> N" "\<not> rb_Invalid b" "must \<longrightarrow> safe_plan n Infos (record_plan members b)"
  shows "lowers n Infos must R (record_of g members b) (meets n Infos (record_plan members b))"
  unfolding record_of_def [abs_def]
proof (rule lowers_bind [OF lowers_fields [OF assms(1)]])
  fix b' assume b': "fields_added n Infos members b b'"
  show "lowers n Infos must R (\<lambda>tc. build_record b' \<bind> (\<lambda>TI. Some (TI, tc))) (meets n Infos (record_plan members b))"
  proof (cases "\<exists>TIs. list_all2 (has_layout n Infos) (map snd members) TIs")
    case True
    then obtain TIs where TIs: "list_all2 (has_layout n Infos) (map snd members) TIs" by blast
    with b' have p: "place_fields members TIs b = Some b'" by (simp add: fields_added_def)
    show ?thesis
    proof (rule lowers_map_return)
      show "build_record b' \<noteq> None" if must
        using safe_returns [of n Infos "record_plan members b" TIs] assms(3) that TIs p by (simp add: record_plan_def)
      fix r assume "build_record b' = Some r"
      then show "meets n Infos (record_plan members b) r"
        using meets_of [of n Infos "record_plan members b" TIs r] TIs p by (simp add: record_plan_def)
    qed
  next
    case False
    with b' have "rb_Invalid b'" by (simp add: fields_added_def)
    moreover have "meets n Infos (record_plan members b) None" using False by (intro meets_none) (simp add: record_plan_def)
    ultimately show ?thesis by (simp add: build_record_def lowers_return)
  qed
qed

lemma record_implements: "\<not> rb_Invalid b \<Longrightarrow> implements n Infos must R N (record_of g members b) (Some (record_plan members b))"
  by (rule implements_Some, rule lowers_record) (simp_all add: record_plan_def)

lemma same_implements: "implements n Infos must R N (g t) (Some (same_plan t))"
proof (rule implements_Some)
  assume "set (fst (same_plan t)) \<subseteq> N"
  then have "lowers n Infos must R (g t) (is_layout n Infos t)" by (simp add: same_plan_def answers)
  then show "lowers n Infos must R (g t) (meets n Infos (same_plan t))" by (rule lowers_conseq) (simp add: same_meets)
qed

lemma thick_implements: "implements n Infos must R N (getThickFunctionTypeInfo g) (Some thick_function_plan)"
proof (rule implements_Some)
  assume N: "set (fst thick_function_plan) \<subseteq> N" "must \<Longrightarrow> safe_plan n Infos thick_function_plan"
  have "lowers n Infos must R (record_of g [(''function'', getThinFunctionTypeRef), (''context'', getNativeObjectTypeRef)] (new_record ThickFunction))
      (meets n Infos thick_function_plan)"
    using N unfolding thick_function_plan_def by (intro lowers_record) (auto simp: record_plan_def new_record_def)
  moreover have "meets n Infos thick_function_plan (Some x)" if "good n Infos tc" "ThickFunctionTI tc = Some x" for tc x
    by (rule meets_Some [OF goodD(3) [OF that]])
  moreover have "good n Infos (tc\<lparr>ThickFunctionTI := r\<rparr>)" if "meets n Infos thick_function_plan r" "good n Infos tc" for tc r
    by (rule good_update(3) [OF that(2)]) (use that(1) in \<open>auto simp: meets_def\<close>)
  ultimately show "lowers n Infos must R (getThickFunctionTypeInfo g) (meets n Infos thick_function_plan)"
    unfolding getThickFunctionTypeInfo_def [abs_def]
    by (intro lowers_cached lowers_bind [of n Infos must R _ "meets n Infos thick_function_plan"] lowers_update) simp_all
qed

lemma reference_implements:
  "implements n Infos must R N (getReferenceTypeInfo Infos kind Refcounting) (map_option constant_plan (reference_info Infos kind Refcounting))"
  by (rule implements_constant, rule lowers_reference)

lemma any_metatype_implements:
  "implements n Infos must R N (getAnyMetatypeTypeInfo Infos) (map_option constant_plan (builtin_info Infos getAnyMetatypeTypeRef))"
  by (rule implements_constant, rule lowers_any_metatype)

lemma builtin_implements:
  "implements n Infos must R N (\<lambda>tc. getBuiltinTypeInfo Infos TR \<bind> (\<lambda>descriptor. case descriptor of None \<Rightarrow> Some (None, tc)
      | Some d \<Rightarrow> makeBuiltinTypeInfo d \<bind> (\<lambda>TI. Some (Some TI, tc)))) (map_option constant_plan (builtin_info Infos TR))"
  by (rule implements_constant, rule lowers_builtin) simp_all

text \<open>Existential types.\<close>

lemma opaque_implements:
  assumes "\<not> rb_Invalid (new_record OpaqueExistential)"
  shows "implements n Infos must R N
    (\<lambda>tc. g raw tc \<bind> (\<lambda>(TI, tc). case TI of None \<Rightarrow> Some (None, tc)
       | Some TI \<Rightarrow> addField_layout (getSize TI * 3) (getInfoAlignment TI) 0 (new_record OpaqueExistential) \<bind>
           (\<lambda>(offset, r). record_of g members r tc)))
    (Some (raw # map snd members, \<lambda>TIs. addField_layout (getSize (hd TIs) * 3) (getInfoAlignment (hd TIs)) 0 (new_record OpaqueExistential) \<bind>
       (\<lambda>(offset, r). place_fields members (tl TIs) r \<bind> build_record)))"
    (is "implements n Infos must R N _ (Some ?p)")
proof (rule implements_Some)
  assume N: "set (fst ?p) \<subseteq> N" and safe: "must \<Longrightarrow> safe_plan n Infos ?p"
  have "raw \<in> N" using N by simp
  then show "lowers n Infos must R (\<lambda>tc. g raw tc \<bind> (\<lambda>(TI, tc). case TI of None \<Rightarrow> Some (None, tc)
       | Some TI \<Rightarrow> addField_layout (getSize TI * 3) (getInfoAlignment TI) 0 (new_record OpaqueExistential) \<bind>
           (\<lambda>(offset, r). record_of g members r tc))) (meets n Infos ?p)"
  proof (rule lowers_bind [OF answers])
    fix r assume r: "is_layout n Infos raw r"
    show "lowers n Infos must R (\<lambda>tc. case r of None \<Rightarrow> Some (None, tc)
       | Some TI \<Rightarrow> addField_layout (getSize TI * 3) (getInfoAlignment TI) 0 (new_record OpaqueExistential) \<bind>
           (\<lambda>(offset, r). record_of g members r tc)) (meets n Infos ?p)"
    proof (cases r)
      case None
      have "meets n Infos ?p None" using r None by (intro meets_none) (auto simp: is_layout_def list_all2_Cons1)
      with None show ?thesis by (simp add: lowers_return)
    next
      case (Some TI)
      with r have l: "has_layout n Infos raw TI" unfolding is_layout_def by blast
      obtain offset b where b: "addField_layout (getSize TI * 3) (getInfoAlignment TI) 0 (new_record OpaqueExistential) = Some (offset, b)"
        using layout_aligned [OF l] by (auto simp: addField_layout_def Let_def)
      have u: "has_layout n Infos raw X \<longleftrightarrow> X = TI" for X using l has_layout_unique [of n Infos raw TI X] by blast
      have all: "list_all2 (has_layout n Infos) (fst ?p) TIs \<longleftrightarrow>
          (\<exists>TIs'. TIs = TI # TIs' \<and> list_all2 (has_layout n Infos) (map snd members) TIs')" for TIs
        by (cases TIs) (auto simp: u)
      have same: "snd ?p (TI # TIs) = snd (record_plan members b) TIs" for TIs
        by (simp add: b record_plan_def)
      have "yields n Infos ?p X \<longleftrightarrow> yields n Infos (record_plan members b) X" for X
        unfolding yields_def all using same by (auto simp: record_plan_def)
      then have m: "meets n Infos ?p = meets n Infos (record_plan members b)" by (simp add: meets_def fun_eq_iff)
      have "safe_plan n Infos (record_plan members b)" if must
        unfolding safe_plan_def
      proof (intro allI impI)
        fix TIs assume "list_all2 (has_layout n Infos) (fst (record_plan members b)) TIs"
        then have "list_all2 (has_layout n Infos) (fst ?p) (TI # TIs)" unfolding all by (simp add: record_plan_def)
        from safe_returns [OF safe [OF that] this] show "snd (record_plan members b) TIs \<noteq> None" unfolding same .
      qed
      then have "lowers n Infos must R (record_of g members b) (meets n Infos ?p)"
        unfolding m using N addField_layout_keeps [OF b] by (intro lowers_record) (auto simp: new_record_def)
      then show ?thesis by (simp add: Some b)
    qed
  qed
qed

lemma new_record_valid: "\<not> rb_Invalid (new_record k)"
  by (simp add: new_record_def)

lemmas existential_rules = implements_none reference_implements any_metatype_implements record_implements [OF new_record_valid]
  opaque_implements [OF new_record_valid]

lemma existential_implements: "implements n Infos must R N (build_existential Infos g b) (existential_plan Infos b)"
  unfolding build_existential_def [abs_def] existential_plan_def
  apply (rule implements_bind)
  subgoal for e
    using existential_rules opaque_implements [OF new_record_valid, of getRawPointerTypeRef
      "(''metadata'', getAnyMetatypeTypeRef) # wtables (WitnessTableCount e)"]
    by (cases "eb_Invalid e"; cases "ObjC e"; cases "Representation e"; auto simp: Let_def)
  done

lemma metatype_implements: "implements n Infos must R N (build_metatype Infos g b) (metatype_plan Infos b)"
  unfolding build_metatype_def [abs_def] metatype_plan_def
  apply (rule implements_bind)
  subgoal for e
    using existential_rules by (cases "eb_Invalid e"; cases "ObjC e"; cases "WitnessTableCount e > 0"; simp)
  done

end

section \<open>Enums\<close>

definition cases_added :: "nat \<Rightarrow> ReflectionInfo list \<Rightarrow> (string \<times> TypeRef) list \<Rightarrow> EnumTypeInfoBuilder \<Rightarrow> EnumTypeInfoBuilder \<Rightarrow> bool" where
  "cases_added n Infos cs b b' \<longleftrightarrow>
     (\<forall>TIs. list_all2 (has_layout n Infos) (map snd cs) TIs \<longrightarrow> b' = add_case_infos cs TIs b) \<and>
     ((\<nexists>TIs. list_all2 (has_layout n Infos) (map snd cs) TIs) \<or> en_Invalid b \<longrightarrow> en_Invalid b')"

lemma cases_added_case:
  assumes "is_layout n Infos t r" "cases_added n Infos cs (addCase Name t r b) b'"
  shows "cases_added n Infos ((Name, t) # cs) b b'"
proof (cases r)
  case None
  then have "\<nexists>TI. has_layout n Infos t TI" "en_Invalid b'" using assms by (auto simp: is_layout_def cases_added_def addCase_def)
  then show ?thesis by (auto simp: cases_added_def list_all2_Cons1)
next
  case (Some TI)
  with assms(1) have u: "has_layout n Infos t X \<longleftrightarrow> X = TI" for X unfolding is_layout_def by auto
  have "list_all2 (has_layout n Infos) (map snd ((Name, t) # cs)) TIs \<longleftrightarrow>
      (\<exists>TIs'. TIs = TI # TIs' \<and> list_all2 (has_layout n Infos) (map snd cs) TIs')" for TIs
    by (cases TIs) (auto simp: u)
  then show ?thesis using assms(2) Some by (auto simp: cases_added_def addCase_def)
qed

lemma case_types_Cons:
  "case_types (Case # Cases) = Some cs \<longleftrightarrow>
    (\<exists>t cs'. getCaseTypeRef Case = Some t \<and> case_types Cases = Some cs' \<and> cs = (info_name Case, t) # cs')"
  by (auto simp: case_types_def split: option.splits)

lemma case_types_Nil: "case_types [] = Some cs \<longleftrightarrow> cs = []"
  by (auto simp: case_types_def)

lemma case_types_length: "case_types Cases = Some cs \<Longrightarrow> length cs = length Cases"
  by (induction Cases arbitrary: cs) (auto simp: case_types_Nil case_types_Cons)

lemma case_types_payload: "\<exists>cs. case_types (payload_cases Fields) = Some cs"
proof -
  have "\<exists>cs. case_types Cases = Some cs" if "\<forall>Case \<in> set Cases. info_type Case \<noteq> None" for Cases
    using that by (induction Cases) (auto simp: case_types_Nil case_types_Cons getCaseTypeRef_def)
  then show ?thesis by (simp add: payload_cases_def)
qed

context layout_oracle
begin

lemma lowers_cases:
  "case_types Cases = Some cs \<Longrightarrow> set (map snd cs) \<subseteq> N \<Longrightarrow> lowers n Infos must R (add_cases g Cases b) (cases_added n Infos cs b)"
proof (induction Cases arbitrary: b cs)
  case Nil
  have "cases_added n Infos [] b b" by (simp add: cases_added_def)
  with Nil show ?case by (simp add: case_types_Nil lowers_return)
next
  case (Cons Case Cases)
  then obtain t cs' where cs: "getCaseTypeRef Case = Some t" "case_types Cases = Some cs'" "cs = (info_name Case, t) # cs'"
    by (auto simp: case_types_Cons)
  have "t \<in> N" using Cons.prems(2) cs(3) by simp
  have "lowers n Infos must R (\<lambda>tc. g t tc \<bind> (\<lambda>(CaseTI, tc). add_cases g Cases (addCase (info_name Case) t CaseTI b) tc)) (cases_added n Infos cs b)"
  proof (rule lowers_bind [OF answers [OF \<open>t \<in> N\<close>]])
    fix r assume r: "is_layout n Infos t r"
    have "lowers n Infos must R (add_cases g Cases (addCase (info_name Case) t r b)) (cases_added n Infos cs' (addCase (info_name Case) t r b))"
      using Cons.IH [OF cs(2)] Cons.prems(2) cs(3) by simp
    then show "lowers n Infos must R (add_cases g Cases (addCase (info_name Case) t r b)) (cases_added n Infos cs b)"
      unfolding cs(3) by (rule lowers_conseq) (rule cases_added_case [OF r])
  qed
  then show ?case by (simp add: cs(1))
qed

lemma lowers_finish:
  assumes "cases_added n Infos cs b b'" "fst p = map snd cs" "\<And>TIs. list_all2 (has_layout n Infos) (map snd cs) TIs \<Longrightarrow> snd p TIs = finish b'"
    "en_Invalid b' \<Longrightarrow> finish b' = Some None" "must \<longrightarrow> safe_plan n Infos p"
  shows "lowers n Infos must R (\<lambda>tc. finish b' \<bind> (\<lambda>TI. Some (TI, tc))) (meets n Infos p)"
proof (cases "\<exists>TIs. list_all2 (has_layout n Infos) (map snd cs) TIs")
  case True
  then obtain TIs where TIs: "list_all2 (has_layout n Infos) (fst p) TIs" using assms(2) by auto
  then have f: "snd p TIs = finish b'" using assms(2,3) by simp
  show ?thesis
    by (rule lowers_map_return) (use f assms(5) safe_returns [OF _ TIs] meets_of [OF TIs] in auto)
next
  case False
  then have "finish b' = Some None" using assms(1,4) by (simp add: cases_added_def)
  then show ?thesis using meets_none [of n Infos p] False assms(2) by (simp add: lowers_return)
qed

lemma multi_implements:
  assumes "case_types Cases = Some cs"
  shows "implements n Infos must R N
    (\<lambda>tc. add_cases g Cases new_enum tc \<bind> (\<lambda>(b, tc). getBuiltinTypeInfo Infos TR \<bind> (\<lambda>FixedDescriptor.
       (case FixedDescriptor of
          Some d \<Rightarrow> finish_enum MultiPayloadRecord (NumExtraInhabitants (descriptor_info d))
            (b\<lparr>en_Size := Size (descriptor_info d), en_Alignment := Alignment (descriptor_info d)\<rparr>)
        | None \<Rightarrow> finish_enum MultiPayloadRecord 0
            (b\<lparr>en_Size := en_Size b + copied_getNumTagBytes (ucast (en_Size b)) k (of_nat (length Cases))\<rparr>)) \<bind>
       (\<lambda>TI. Some (TI, tc)))))
    (getBuiltinTypeInfo Infos TR \<bind> (\<lambda>FixedDescriptor. Some (multi_plan FixedDescriptor k cs)))"
proof (cases "getBuiltinTypeInfo Infos TR")
  case None
  have "add_cases g Cases new_enum tc \<bind> (\<lambda>x. None) = None" for tc by (cases "add_cases g Cases new_enum tc") auto
  then show ?thesis by (simp add: None implements_def lowers_def case_prod_unfold)
next
  case (Some FD)
  have "implements n Infos must R N (\<lambda>tc. add_cases g Cases new_enum tc \<bind> (\<lambda>(b, tc). (case FD of
          Some d \<Rightarrow> finish_enum MultiPayloadRecord (NumExtraInhabitants (descriptor_info d))
            (b\<lparr>en_Size := Size (descriptor_info d), en_Alignment := Alignment (descriptor_info d)\<rparr>)
        | None \<Rightarrow> finish_enum MultiPayloadRecord 0
            (b\<lparr>en_Size := en_Size b + copied_getNumTagBytes (ucast (en_Size b)) k (of_nat (length Cases))\<rparr>)) \<bind>
       (\<lambda>TI. Some (TI, tc)))) (Some (multi_plan FD k cs))"
  proof (rule implements_Some, rule lowers_bind [OF lowers_cases [OF assms]])
    assume "set (fst (multi_plan FD k cs)) \<subseteq> N"
    then show "set (map snd cs) \<subseteq> N" by (simp add: multi_plan_def)
    fix b assume safe: "must \<Longrightarrow> safe_plan n Infos (multi_plan FD k cs)" and b: "cases_added n Infos cs new_enum b"
    show "lowers n Infos must R (\<lambda>tc. (case FD of
          Some d \<Rightarrow> finish_enum MultiPayloadRecord (NumExtraInhabitants (descriptor_info d))
            (b\<lparr>en_Size := Size (descriptor_info d), en_Alignment := Alignment (descriptor_info d)\<rparr>)
        | None \<Rightarrow> finish_enum MultiPayloadRecord 0
            (b\<lparr>en_Size := en_Size b + copied_getNumTagBytes (ucast (en_Size b)) k (of_nat (length Cases))\<rparr>)) \<bind>
       (\<lambda>TI. Some (TI, tc))) (meets n Infos (multi_plan FD k cs))"
      by (rule lowers_finish [OF b]) (use b safe case_types_length [OF assms] in
        \<open>auto simp: multi_plan_def Let_def cases_added_def finish_enum_def split: option.splits\<close>)
  qed
  then show ?thesis by (simp add: Some)
qed

lemma single_implements:
  "implements n Infos must R N
    (\<lambda>tc. g t tc \<bind> (\<lambda>(CaseTI, tc). if k = 0 then Some (CaseTI, tc)
       else let (xi, b) = single_payload_enum k CaseTI (addCase Name t CaseTI new_enum) in
         finish_enum SinglePayloadEnum xi b \<bind> (\<lambda>TI. Some (TI, tc))))
    (Some (if k = 0 then same_plan t else single_plan k Name t))" (is "implements n Infos must R N ?m (Some ?p)")
proof (rule implements_Some)
  assume "set (fst ?p) \<subseteq> N" and safe: "must \<Longrightarrow> safe_plan n Infos ?p"
  then have "t \<in> N" by (auto simp: same_plan_def single_plan_def split: if_splits)
  then show "lowers n Infos must R ?m (meets n Infos ?p)"
  proof (rule lowers_bind [OF answers])
    fix r assume r: "is_layout n Infos t r"
    show "lowers n Infos must R (\<lambda>tc. if k = 0 then Some (r, tc)
       else let (xi, b) = single_payload_enum k r (addCase Name t r new_enum) in
         finish_enum SinglePayloadEnum xi b \<bind> (\<lambda>TI. Some (TI, tc))) (meets n Infos ?p)"
    proof (cases "k = 0")
      case True
      then show ?thesis using r by (simp add: lowers_return same_meets)
    next
      case False
      obtain xi b where b: "single_payload_enum k r (addCase Name t r new_enum) = (xi, b)" by fastforce
      have "lowers n Infos must R (\<lambda>tc. finish_enum SinglePayloadEnum xi b \<bind> (\<lambda>TI. Some (TI, tc))) (meets n Infos (single_plan k Name t))"
      proof (cases r)
        case None
        then have "finish_enum SinglePayloadEnum xi b = Some None" "meets n Infos (single_plan k Name t) None"
          using b r by (auto simp: single_payload_enum_def addCase_def finish_enum_def is_layout_def single_plan_def list_all2_Cons1
            intro!: meets_none)
        then show ?thesis by (simp add: lowers_return)
      next
        case (Some TI)
        then have "has_layout n Infos t TI" using r unfolding is_layout_def by blast
        then have TIs: "list_all2 (has_layout n Infos) (fst (single_plan k Name t)) [TI]" by (simp add: single_plan_def)
        have f: "snd (single_plan k Name t) [TI] = finish_enum SinglePayloadEnum xi b"
          using b Some by (simp add: single_plan_def)
        show ?thesis
          by (rule lowers_map_return) (use safe False safe_returns [OF _ TIs] meets_of [OF TIs] f in auto)
      qed
      then show ?thesis using False b by simp
    qed
  qed
qed

lemma enum_implements: "implements n Infos must R N (build_enum n Infos g TR FD) (enum_plan n Infos TR FD)"
  unfolding build_enum_def [abs_def] enum_plan_def
  apply (rule implements_bind)
  subgoal for found
  proof (cases found)
    case None
    then show ?thesis by (simp add: implements_none)
  next
    case (Some Fields)
    obtain cs where cs: "case_types (payload_cases Fields) = Some cs" using case_types_payload [of Fields] by blast
    note folded = payload_cases_def [symmetric] empty_cases_def [symmetric]
    consider "payload_cases Fields = []" | Case where "payload_cases Fields = [Case]"
      | C1 C2 Cs where "payload_cases Fields = C1 # C2 # Cs" by (metis neq_Nil_conv)
    then show ?thesis
    proof cases
      case 1
      then have "cs = []" using cs by (simp add: case_types_Nil)
      then show ?thesis using cs 1 unfolding Some Let_def folded
        by (auto intro!: implements_constant lowers_map_return)
    next
      case (2 Case)
      then obtain t where t: "getCaseTypeRef Case = Some t" "cs = [(info_name Case, t)]"
        using cs by (auto simp: case_types_Cons case_types_Nil)
      then show ?thesis using cs 2 single_implements [of t "empty_cases Fields" "info_name Case"] unfolding Some Let_def folded
        by (simp add: Let_def)
    next
      case (3 C1 C2 Cs)
      then obtain c1 c2 cs' where t: "cs = c1 # c2 # cs'" using case_types_length [OF cs] by (auto simp: length_Suc_conv Suc_length_conv)
      show ?thesis using multi_implements [OF cs, of TR "empty_cases Fields"] cs 3 t unfolding Some Let_def folded
        by simp
    qed
  qed
  done

lemma nominal_implements: "implements n Infos must R N (visitAnyNominalTypeRef n Infos g TR) (nominal_plan n Infos TR)"
  unfolding visitAnyNominalTypeRef_def [abs_def] nominal_plan_def
  apply (rule implements_bind)
  subgoal for found
  proof (cases found)
    case None
    then show ?thesis using builtin_implements by simp
  next
    case (Some FD)
    have "implements n Infos must R N
      (\<lambda>tc. getFieldTypeRefs n Infos TR (Some FD) \<bind> (\<lambda>found. case found of None \<Rightarrow> Some (None, tc)
         | Some Fields \<Rightarrow> field_list Fields \<bind> (\<lambda>members. record_of g members (new_record StructRecord) tc)))
      (getFieldTypeRefs n Infos TR (Some FD) \<bind> (\<lambda>found. case found of None \<Rightarrow> Some no_layout
         | Some Fields \<Rightarrow> map_option (\<lambda>members. record_plan members (new_record StructRecord)) (field_list Fields)))"
      apply (rule implements_bind)
      subgoal for x
        by (cases x) (auto simp: implements_none map_conv_bind_option record_implements [OF new_record_valid] intro!: implements_bind)
      done
    then show ?thesis using Some enum_implements reference_implements implements_none by (cases "fd_kind FD") simp_all
  qed
  done

text \<open>Storage qualifiers.\<close>

lemma lowers_objects:
  assumes "k > 0" "\<forall>F \<in> set Fields. FieldName F = ''object'' \<longrightarrow> (\<exists>info SubKind Refcounting. FieldTI F = ReferenceTypeInfo info SubKind Refcounting)"
    "must \<longrightarrow> those (map (rebuilt_object Infos kind) Fields) \<noteq> None"
  shows "lowers n Infos must R (rebuild_fields k Infos g Fields kind) (\<lambda>Fields'. those (map (rebuilt_object Infos kind) Fields) = Some Fields')"
  using assms(2,3)
proof (induction Fields)
  case Nil
  show ?case by (simp add: lowers_return)
next
  case (Cons F Fs)
  have IH: "lowers n Infos must R (rebuild_fields k Infos g Fs kind) (\<lambda>Fields'. those (map (rebuilt_object Infos kind) Fs) = Some Fields')"
    if "rebuilt_object Infos kind F = Some F' \<or> \<not> must" for F'
    using Cons that by (auto split: option.splits)
  show ?case
  proof (cases "FieldName F = ''object''")
    case False
    then have F: "rebuilt_object Infos kind F = Some F" by (simp add: rebuilt_object_def)
    have "lowers n Infos must R (\<lambda>tc. rebuild_fields k Infos g Fs kind tc \<bind> (\<lambda>(members, tc). Some (F # members, tc)))
        (\<lambda>Fields'. those (map (rebuilt_object Infos kind) (F # Fs)) = Some Fields')"
      by (rule lowers_bind [OF IH]) (auto simp: F intro: lowers_return)
    then show ?thesis using False by simp
  next
    case True
    then obtain info SubKind Refcounting where r: "FieldTI F = ReferenceTypeInfo info SubKind Refcounting" using Cons.prems(1) by auto
    obtain k' where k: "k = Suc k'" using assms(1) by (cases k) auto
    have obj: "rebuilt_object Infos kind F = reference_info Infos kind Refcounting \<bind>
        map_option (FieldInfo (FieldName F) (FieldOffset F) (FieldTR F))" using True r by (simp add: rebuilt_object_def)
    have "lowers n Infos must R (\<lambda>tc. getReferenceTypeInfo Infos kind Refcounting tc \<bind> (\<lambda>(FieldTI', tc). FieldTI' \<bind> (\<lambda>TI.
        rebuild_fields k Infos g Fs kind tc \<bind> (\<lambda>(members, tc).
          Some (FieldInfo (FieldName F) (FieldOffset F) (FieldTR F) TI # members, tc)))))
      (\<lambda>Fields'. those (map (rebuilt_object Infos kind) (F # Fs)) = Some Fields')"
    proof (rule lowers_bind [OF lowers_reference])
      show "must \<longrightarrow> reference_info Infos kind Refcounting \<noteq> None" using Cons.prems(2) obj
        by (cases "reference_info Infos kind Refcounting") auto
      fix r assume r: "reference_info Infos kind Refcounting = Some r"
      show "lowers n Infos must R (\<lambda>tc. r \<bind> (\<lambda>TI. rebuild_fields k Infos g Fs kind tc \<bind> (\<lambda>(members, tc).
          Some (FieldInfo (FieldName F) (FieldOffset F) (FieldTR F) TI # members, tc))))
        (\<lambda>Fields'. those (map (rebuilt_object Infos kind) (F # Fs)) = Some Fields')"
      proof (rule lowers_option)
        show "r \<noteq> None" if must using Cons.prems(2) that obj r by (cases r) auto
        fix TI assume "r = Some TI"
        then have F: "rebuilt_object Infos kind F = Some (FieldInfo (FieldName F) (FieldOffset F) (FieldTR F) TI)" using obj r by simp
        then show "lowers n Infos must R (\<lambda>tc. rebuild_fields k Infos g Fs kind tc \<bind> (\<lambda>(members, tc).
            Some (FieldInfo (FieldName F) (FieldOffset F) (FieldTR F) TI # members, tc)))
          (\<lambda>Fields'. those (map (rebuilt_object Infos kind) (F # Fs)) = Some Fields')"
          by (intro lowers_bind [OF IH]) (auto intro: lowers_return)
      qed
    qed
    then show ?thesis using True r k by simp
  qed
qed

lemma lowers_rebuild:
  "shaped n Infos N TI \<Longrightarrow> size TI < k \<Longrightarrow> must \<longrightarrow> rebuilt Infos kind TI \<noteq> None \<Longrightarrow>
    lowers n Infos must R (rebuildStorageTypeInfo k Infos g (Some TI) kind) (\<lambda>r. rebuilt Infos kind TI = Some r)"
proof (induction k arbitrary: TI)
  case (Suc k)
  show ?case
  proof (cases TI)
    case (BuiltinTypeInfo info Name)
    then show ?thesis by (simp add: lowers_return)
  next
    case (ReferenceTypeInfo info SubKind Refcounting)
    then show ?thesis using Suc.prems(3) lowers_reference [of must Infos kind Refcounting n R] by simp
  next
    case (RecordTypeInfo info SubKind Fields)
    consider "SubKind = SinglePayloadEnum" "kind = WeakReference" | "SubKind = SinglePayloadEnum" "kind \<noteq> WeakReference"
      | "SubKind = ClassExistential" | "SubKind \<noteq> SinglePayloadEnum" "SubKind \<noteq> ClassExistential" by blast
    then show ?thesis
    proof cases
      case 1
      then obtain F where F: "Fields = [F]" "FieldTR F \<in> N" "has_layout n Infos (FieldTR F) (FieldTI F)"
        using Suc.prems(1) by (auto simp: RecordTypeInfo shaped_def)
      obtain Nm off TR T where Fc: "F = FieldInfo Nm off TR T" by (cases F)
      have "lowers n Infos must R (\<lambda>tc. g TR tc \<bind> (\<lambda>(TI, tc). rebuildStorageTypeInfo k Infos g TI kind tc)) (\<lambda>r. rebuilt Infos kind T = Some r)"
      proof (rule lowers_bind [OF answers])
        show "TR \<in> N" using F(2) Fc by simp
        fix r assume "is_layout n Infos TR r"
        then have r: "r = Some T" using F(3) Fc by (simp add: is_layout_def)
        have "size T < k" using Suc.prems(2) by (simp add: RecordTypeInfo F Fc)
        with Suc.IH [of T] shaped_answers [of TR T] F Fc Suc.prems(3) 1 r RecordTypeInfo
        show "lowers n Infos must R (rebuildStorageTypeInfo k Infos g r kind) (\<lambda>r. rebuilt Infos kind T = Some r)" by simp
      qed
      then show ?thesis using 1 by (simp add: RecordTypeInfo F Fc)
    next
      case 2
      then show ?thesis by (simp add: RecordTypeInfo lowers_return)
    next
      case 3
      have "k > 0" using Suc.prems(2) by (cases k) (auto simp: RecordTypeInfo)
      have "lowers n Infos must R (\<lambda>tc. rebuild_fields k Infos g Fields kind tc \<bind> (\<lambda>(Fields, tc).
          makeTypeInfo (RecordTypeInfo info SubKind Fields) \<bind> (\<lambda>TI. Some (Some TI, tc)))) (\<lambda>r. rebuilt Infos kind TI = Some r)"
      proof (rule lowers_bind [OF lowers_objects])
        show "k > 0" by fact
        show "\<forall>F \<in> set Fields. FieldName F = ''object'' \<longrightarrow> (\<exists>info SubKind Refcounting. FieldTI F = ReferenceTypeInfo info SubKind Refcounting)"
          using Suc.prems(1) 3 by (auto simp: RecordTypeInfo shaped_def)
        show "must \<longrightarrow> those (map (rebuilt_object Infos kind) Fields) \<noteq> None" using Suc.prems(3) 3
          by (cases "those (map (rebuilt_object Infos kind) Fields)") (auto simp: RecordTypeInfo)
        fix Fields' assume "those (map (rebuilt_object Infos kind) Fields) = Some Fields'"
        then have r: "rebuilt Infos kind TI = map_option Some (makeTypeInfo (RecordTypeInfo info SubKind Fields'))"
          using 3 by (simp add: RecordTypeInfo)
        show "lowers n Infos must R (\<lambda>tc. makeTypeInfo (RecordTypeInfo info SubKind Fields') \<bind> (\<lambda>TI. Some (Some TI, tc)))
            (\<lambda>r. rebuilt Infos kind TI = Some r)"
          by (rule lowers_option) (use r Suc.prems(3) in \<open>auto intro: lowers_return\<close>)
      qed
      then show ?thesis using 3 by (simp add: RecordTypeInfo)
    next
      case 4
      then show ?thesis by (simp add: RecordTypeInfo lowers_return)
    qed
  qed
qed simp

lemma storage_implements:
  "implements n Infos must R N (visitAnyStorageTypeRef Infos g t kind) (Some (storage_plan Infos t kind))"
proof (rule implements_Some)
  assume "set (fst (storage_plan Infos t kind)) \<subseteq> N" and safe: "must \<Longrightarrow> safe_plan n Infos (storage_plan Infos t kind)"
  then have t: "t \<in> N" by (simp add: storage_plan_def)
  then show "lowers n Infos must R (visitAnyStorageTypeRef Infos g t kind) (meets n Infos (storage_plan Infos t kind))"
    unfolding visitAnyStorageTypeRef_def [abs_def]
  proof (rule lowers_bind [OF answers])
    fix r assume r: "is_layout n Infos t r"
    show "lowers n Infos must R (\<lambda>tc. rebuildStorageTypeInfo (case r of None \<Rightarrow> 1 | Some TI \<Rightarrow> Suc (size TI)) Infos g r kind tc)
        (meets n Infos (storage_plan Infos t kind))"
    proof (cases r)
      case None
      then have "meets n Infos (storage_plan Infos t kind) None"
        using r by (intro meets_none) (auto simp: storage_plan_def is_layout_def list_all2_Cons1)
      then show ?thesis using None by (simp add: lowers_return)
    next
      case (Some TI)
      then have l: "has_layout n Infos t TI" using r unfolding is_layout_def by blast
      then have TIs: "list_all2 (has_layout n Infos) (fst (storage_plan Infos t kind)) [TI]" by (simp add: storage_plan_def)
      have "lowers n Infos must R (rebuildStorageTypeInfo (Suc (size TI)) Infos g (Some TI) kind) (\<lambda>r. rebuilt Infos kind TI = Some r)"
        by (rule lowers_rebuild) (use shaped_answers [OF t l] safe safe_returns [OF _ TIs] in \<open>auto simp: storage_plan_def\<close>)
      then show ?thesis unfolding Some option.case
        by (rule lowers_conseq) (use meets_of [OF TIs] in \<open>simp add: storage_plan_def\<close>)
    qed
  qed
qed

lemma function_implements: "implements n Infos must R N (visitFunctionTypeRef Infos g flags) (function_plan Infos flags)"
proof -
  have "implements n Infos must R N (\<lambda>tc. None) None" by (simp add: implements_def lowers_def)
  then show ?thesis unfolding visitFunctionTypeRef_def [abs_def] function_plan_def Let_def
    using thick_implements reference_implements same_implements [of getThinFunctionTypeRef] by auto
qed

lemma metatypes_implement:
  "implements n Infos must R N (visitMetatypeTypeRef g t) (do {
     r \<leftarrow> singleton_metatype t;
     Some (case r of UnknownMetatype \<Rightarrow> no_layout | ThinMetatype \<Rightarrow> constant_plan (Some empty_info) | ThickMetatype \<Rightarrow> same_plan getAnyMetatypeTypeRef)
   })"
  unfolding visitMetatypeTypeRef_def [abs_def]
  apply (rule implements_bind)
  subgoal for r
  proof (cases r)
    case ThinMetatype
    have "implements n Infos must R N getEmptyTypeInfo (map_option constant_plan (Some (Some empty_info)))"
      by (rule implements_constant) (simp add: lowers_empty eq_commute)
    then show ?thesis using ThinMetatype by simp
  qed (use same_implements implements_none in simp_all)
  done

lemma existential_metatype_implements:
  "implements n Infos must R N (visitExistentialMetatypeTypeRef Infos g t)
    (case t of
        ProtocolCompositionTypeRef protocols superclass any \<Rightarrow>
          addProtocolComposition Infos protocols superclass any new_existential \<bind> metatype_plan Infos
      | _ \<Rightarrow> Some no_layout)"
  unfolding visitExistentialMetatypeTypeRef_def [abs_def]
  by (cases t) (auto intro!: implements_none implements_bind metatype_implements)

lemma lowerType_eta:
  "lowerType n Infos g (BuiltinTypeRef MangledName) = visitBuiltinTypeRef Infos MangledName"
  "lowerType n Infos g (NominalTypeRef name parent) = visitAnyNominalTypeRef n Infos g (NominalTypeRef name parent)"
  "lowerType n Infos g (BoundGenericTypeRef name params parent) = visitAnyNominalTypeRef n Infos g (BoundGenericTypeRef name params parent)"
  "lowerType n Infos g (TupleTypeRef elements variadic) = record_of g (map (Pair []) elements) (new_record TupleRecord)"
  "lowerType n Infos g (FunctionTypeRef ps result flags) = visitFunctionTypeRef Infos g flags"
  "lowerType n Infos g (ProtocolCompositionTypeRef protocols superclass any) =
     (\<lambda>tc. addProtocolComposition Infos protocols superclass any new_existential \<bind> (\<lambda>b. build_existential Infos g b tc))"
  "lowerType n Infos g (MetatypeTypeRef t wasAbstract) = visitMetatypeTypeRef g (MetatypeTypeRef t wasAbstract)"
  "lowerType n Infos g (ExistentialMetatypeTypeRef t) = visitExistentialMetatypeTypeRef Infos g t"
  "lowerType n Infos g (GenericTypeParameterTypeRef depth index) = (\<lambda>tc. Some (None, tc))"
  "lowerType n Infos g (DependentMemberTypeRef member t protocol) = (\<lambda>tc. Some (None, tc))"
  "lowerType n Infos g (ForeignClassTypeRef name) = getReferenceTypeInfo Infos StrongReference UnknownCounting"
  "lowerType n Infos g (ObjCClassTypeRef name) = getReferenceTypeInfo Infos StrongReference UnknownCounting"
  "lowerType n Infos g (UnownedStorageTypeRef t) = visitAnyStorageTypeRef Infos g t UnownedReference"
  "lowerType n Infos g (WeakStorageTypeRef t) = visitAnyStorageTypeRef Infos g t WeakReference"
  "lowerType n Infos g (UnmanagedStorageTypeRef t) = visitAnyStorageTypeRef Infos g t UnmanagedReference"
  "lowerType n Infos g (SILBoxTypeRef t) = getReferenceTypeInfo Infos StrongReference NativeCounting"
  "lowerType n Infos g OpaqueTypeRef = (\<lambda>tc. Some (None, tc))"
  by (rule ext, simp)+

lemma lowerType_implements: "implements n Infos must R N (lowerType n Infos g TR) (plan n Infos TR)"
proof (cases TR)
  case (BuiltinTypeRef MangledName)
  then show ?thesis using reference_implements builtin_implements [of "BuiltinTypeRef MangledName"]
    by (simp add: lowerType_eta visitBuiltinTypeRef_def [abs_def])
next
  case (MetatypeTypeRef t wasAbstract)
  show ?thesis unfolding MetatypeTypeRef plan.simps lowerType_eta by (rule metatypes_implement)
next
  case (ProtocolCompositionTypeRef protocols superclass any)
  show ?thesis unfolding ProtocolCompositionTypeRef plan.simps lowerType_eta by (rule implements_bind, rule existential_implements)
next
  case (ExistentialMetatypeTypeRef t)
  show ?thesis unfolding ExistentialMetatypeTypeRef plan.simps lowerType_eta by (rule existential_metatype_implements)
qed (simp_all add: lowerType_eta nominal_implements record_implements [OF new_record_valid] function_implements reference_implements
    storage_implements implements_none)

end

section \<open>The type converter\<close>

definition ancestors :: "nat \<Rightarrow> ReflectionInfo list \<Rightarrow> TypeRef set \<Rightarrow> TypeRef \<Rightarrow> bool" where
  "ancestors n Infos R TR \<longleftrightarrow> (\<forall>X \<in> R. (TR, X) \<in> (needs n Infos)\<^sup>+)"

text \<open>All types that a layout depends on.\<close>

definition needed :: "nat \<Rightarrow> ReflectionInfo list \<Rightarrow> TypeRef \<Rightarrow> TypeRef set" where
  "needed n Infos TR = {t. (t, TR) \<in> (needs n Infos)\<^sup>*}"

lemma lowers_getTypeInfo:
  assumes "ancestors n Infos R TR" "must \<longrightarrow> finite D \<and> needed n Infos TR \<subseteq> D \<and> (\<forall>t \<in> D. crash_free n Infos t) \<and> card (D - R) < f"
  shows "lowers n Infos must R (getTypeInfo f n Infos TR) (is_layout n Infos TR)"
  using assms
proof (induction f arbitrary: R TR)
  case 0
  then show ?case by (simp add: lowers_def)
next
  case (Suc f)
  let ?N = "{t. (t, TR) \<in> (needs n Infos)\<^sup>+}" and ?R = "insert TR R"
  have D: "TR \<in> D" if must using Suc.prems(2) that by (auto simp: needed_def)
  show ?case
  proof (cases "TR \<in> R")
    case True
    then have "(TR, TR) \<in> (needs n Infos)\<^sup>+" using Suc.prems(1) by (auto simp: ancestors_def)
    then have "is_layout n Infos TR None" using recursive_no_layout by (auto simp: is_layout_def)
    with True show ?thesis by (intro lowersI) (auto simp: goodD(1) split: option.splits)
  next
    case False
    have nested: "layout_oracle n Infos must ?R ?N (getTypeInfo f n Infos)"
    proof
      fix t u
      assume t: "t \<in> ?N"
      show "lowers n Infos must ?R (getTypeInfo f n Infos t) (is_layout n Infos t)"
      proof (rule Suc.IH)
        show "ancestors n Infos ?R t" using Suc.prems(1) t by (auto simp: ancestors_def intro: trancl_trans)
        have "needed n Infos t \<subseteq> needed n Infos TR" using t by (auto simp: needed_def)
        moreover have "card (D - ?R) < f" if must
        proof -
          have eq: "D - R = insert TR (D - ?R)" using D [OF that] False by auto
          have "finite (D - ?R)" "TR \<notin> D - ?R" using Suc.prems(2) that by auto
          then have "card (D - R) = Suc (card (D - ?R))" unfolding eq by (rule card_insert_disjoint)
          then show ?thesis using Suc.prems(2) that by linarith
        qed
        ultimately show "must \<longrightarrow> finite D \<and> needed n Infos t \<subseteq> D \<and> (\<forall>t \<in> D. crash_free n Infos t) \<and> card (D - ?R) < f"
          using Suc.prems(2) by blast
      qed
      show "u \<in> ?N" if "(u, t) \<in> needs n Infos" using t that by (auto intro: trancl_into_trancl2)
    qed
    have "lowers n Infos must ?R (lowerType n Infos (getTypeInfo f n Infos) TR) (\<lambda>r. \<exists>p. plan n Infos TR = Some p \<and> meets n Infos p r)"
    proof (rule layout_oracle.lowerType_implements [OF nested, of TR, unfolded implements_def, rule_format])
      show "\<exists>p. plan n Infos TR = Some p \<and> safe_plan n Infos p" if must
      proof -
        have "crash_free n Infos TR" using Suc.prems(2) D [OF that] that by simp
        then show ?thesis by (simp add: crash_free_def)
      qed
      show "set (fst p) \<subseteq> ?N" if "plan n Infos TR = Some p" for p using needs_iff [OF that] by auto
    qed
    then have low: "lowers n Infos must ?R (lowerType n Infos (getTypeInfo f n Infos) TR) (is_layout n Infos TR)"
      by (rule lowers_conseq) (auto simp: meets_is_layout)
    show ?thesis
    proof (rule lowersI)
      fix tc assume tc: "good n Infos tc" "RecursionCheck tc = R"
      let ?tc = "tc\<lparr>RecursionCheck := insert TR (RecursionCheck tc)\<rparr>"
      have tc': "good n Infos ?tc" "RecursionCheck ?tc = ?R" using tc good_update(6) by simp_all
      show "getTypeInfo (Suc f) n Infos TR tc \<noteq> None" if must
        using lowers_must [OF low tc' that] False tc(2) by (auto split: option.splits)
      fix r h assume g: "getTypeInfo (Suc f) n Infos TR tc = Some (r, h)"
      show "good n Infos h \<and> RecursionCheck h = R \<and> is_layout n Infos TR r"
      proof (cases "Cache tc TR")
        case (Some found)
        then show ?thesis using g tc goodD(1) [OF tc(1) Some] by simp
      next
        case None
        then obtain tc1 where l: "lowerType n Infos (getTypeInfo f n Infos) TR ?tc = Some (r, tc1)"
          "h = tc1\<lparr>Cache := (Cache tc1)(TR \<mapsto> r), RecursionCheck := RecursionCheck tc1 - {TR}\<rparr>"
          using g False tc(2) by (auto simp: bind_eq_Some_iff)
        note k = lowersD [OF low tc' l(1)]
        then have "good n Infos h" unfolding l(2) by (intro good_update(6) good_update(1)) simp_all
        moreover have "RecursionCheck h = R" using k False by (simp add: l(2))
        ultimately show ?thesis using k by blast
      qed
    qed
  qed
qed

definition answered :: "nat \<Rightarrow> nat \<Rightarrow> ReflectionInfo list \<Rightarrow> bool \<Rightarrow> TypeRef set \<Rightarrow> TypeRef set \<Rightarrow> TypeRef set" where
  "answered f n Infos must D R = {t. ancestors n Infos R t \<and>
     (must \<longrightarrow> finite D \<and> needed n Infos t \<subseteq> D \<and> (\<forall>t \<in> D. crash_free n Infos t) \<and> card (D - R) < f)}"

interpretation converter: layout_oracle n Infos must R "answered f n Infos must D R" "getTypeInfo f n Infos" for f n Infos must D R
proof
  fix t u assume t: "t \<in> answered f n Infos must D R"
  then show "lowers n Infos must R (getTypeInfo f n Infos t) (is_layout n Infos t)"
    by (intro lowers_getTypeInfo [of n Infos R t must D f]) (simp_all add: answered_def)
  assume u: "(u, t) \<in> needs n Infos"
  then have "needed n Infos u \<subseteq> needed n Infos t" by (auto simp: needed_def)
  then show "u \<in> answered f n Infos must D R"
    using t u by (auto simp: answered_def ancestors_def intro: trancl_into_trancl2)
qed

end
