(* ===== verification/Type_Lowering_Layout.thy ===== *)
theory Type_Lowering_Layout
  imports Type_Lowering_Steps Runtime_Layout_Facts
begin

text \<open>
  Queries of a type converter, with whatever its caches hold; instances of classes; and the layout of
  structs by reflection against the one of the runtime.
\<close>

section \<open>Queries\<close>

inductive converter_run :: "nat \<Rightarrow> ReflectionInfo list \<Rightarrow> type_converter \<Rightarrow> bool" for n Infos where
  converter_new: "converter_run n Infos new_converter"
| converter_type: "converter_run n Infos tc \<Longrightarrow> getTypeInfo f n Infos TR tc = Some (r, tc') \<Longrightarrow> converter_run n Infos tc'"
| converter_instance: "converter_run n Infos tc \<Longrightarrow> getClassInstanceTypeInfo f n Infos TR start tc = Some (r, tc') \<Longrightarrow>
    converter_run n Infos tc'"

definition class_plan :: "nat \<Rightarrow> ReflectionInfo list \<Rightarrow> TypeRef \<Rightarrow> unsigned \<Rightarrow> layout_plan option" where
  "class_plan n Infos TR start = do {
     FD \<leftarrow> getFieldTypeInfo Infos TR;
     case FD of
       None \<Rightarrow> Some no_layout
     | Some FD \<Rightarrow>
         if fd_kind FD = ClassKind \<or> fd_kind FD = ObjCClassKind then do {
           found \<leftarrow> getFieldTypeRefs n Infos TR (Some FD);
           case found of
             None \<Rightarrow> Some no_layout
           | Some Fields \<Rightarrow> do {
               (offset, b) \<leftarrow> addField_layout start 1 0 (new_record ClassInstance);
               map_option (\<lambda>members. record_plan members b) (field_list Fields)
             }
         }
         else Some no_layout
   }"

lemma class_implements:
  "implements n Infos must R (answered f n Infos must D R) (getClassInstanceTypeInfo f n Infos TR start) (class_plan n Infos TR start)"
  unfolding getClassInstanceTypeInfo_def [abs_def] class_plan_def
  apply (rule implements_bind)
  subgoal for FD
  proof (cases FD)
    case (Some d)
    have "implements n Infos must R (answered f n Infos must D R)
      (\<lambda>tc. getFieldTypeRefs n Infos TR (Some d) \<bind> (\<lambda>found. case found of None \<Rightarrow> Some (None, tc)
         | Some Fields \<Rightarrow> addField_layout start 1 0 (new_record ClassInstance) \<bind> (\<lambda>(offset, b).
             field_list Fields \<bind> (\<lambda>members. record_of (getTypeInfo f n Infos) members b tc))))
      (getFieldTypeRefs n Infos TR (Some d) \<bind> (\<lambda>found. case found of None \<Rightarrow> Some no_layout
         | Some Fields \<Rightarrow> addField_layout start 1 0 (new_record ClassInstance) \<bind> (\<lambda>(offset, b).
             map_option (\<lambda>members. record_plan members b) (field_list Fields))))"
      apply (rule implements_bind)
      subgoal for x
      proof (cases x)
        case (Some Fields)
        obtain offset b where b: "addField_layout start 1 0 (new_record ClassInstance) = Some (offset, b)"
          by (auto simp: addField_layout_def Let_def)
        then have "\<not> rb_Invalid b" using addField_layout_keeps [OF b] by (simp add: new_record_def)
        then show ?thesis unfolding Some option.case b
          by (auto simp: map_conv_bind_option intro!: implements_bind converter.record_implements)
      qed (simp add: implements_none)
      done
    then show ?thesis by (auto simp: Some implements_none)
  qed (simp add: implements_none)
  done

lemma good_new: "good n Infos new_converter"
  by (simp add: good_def new_converter_def)

lemma all_answered: "t \<in> answered f n Infos False D {}"
  by (simp add: answered_def ancestors_def)

lemma run_good: "converter_run n Infos tc \<Longrightarrow> good n Infos tc \<and> RecursionCheck tc = {}"
proof (induction rule: converter_run.induct)
  case converter_new
  then show ?case by (simp add: good_new) (simp add: new_converter_def)
next
  case (converter_type tc f TR r tc')
  then show ?case using lowersD [OF lowers_getTypeInfo [of n Infos "{}" TR False "{}" f]] by (auto simp: ancestors_def)
next
  case (converter_instance tc f TR start r tc')
  have "lowers n Infos False {} (getClassInstanceTypeInfo f n Infos TR start)
      (\<lambda>r. \<exists>p. class_plan n Infos TR start = Some p \<and> meets n Infos p r)"
    using class_implements [of n Infos False "{}" f "{}" TR start] all_answered by (auto simp: implements_def)
  from lowersD [OF this] converter_instance show ?case by blast
qed

lemma type_query:
  assumes "converter_run n Infos tc" "finite (needed n Infos TR)" "\<forall>t \<in> needed n Infos TR. crash_free n Infos t"
    "card (needed n Infos TR) < f"
  shows "\<exists>r tc'. getTypeInfo f n Infos TR tc = Some (r, tc') \<and> converter_run n Infos tc' \<and>
    (\<forall>TI. r = Some TI \<longleftrightarrow> has_layout n Infos TR TI)"
proof -
  have l: "lowers n Infos True {} (getTypeInfo f n Infos TR) (is_layout n Infos TR)"
    by (rule lowers_getTypeInfo [of _ _ _ _ _ "needed n Infos TR"]) (use assms(2-4) in \<open>simp_all add: ancestors_def\<close>)
  have tc: "good n Infos tc" "RecursionCheck tc = {}" using run_good [OF assms(1)] by simp_all
  from lowers_must [OF l tc] obtain r tc' where r: "getTypeInfo f n Infos TR tc = Some (r, tc')" by auto
  then show ?thesis using lowersD [OF l tc r] converter_type [OF assms(1) r] by (auto simp: is_layout_def)
qed

lemma type_answer:
  assumes "converter_run n Infos tc" "getTypeInfo f n Infos TR tc = Some (Some TI, tc')"
  shows "has_layout n Infos TR TI"
proof -
  have l: "lowers n Infos False {} (getTypeInfo f n Infos TR) (is_layout n Infos TR)"
    by (rule lowers_getTypeInfo) (simp_all add: ancestors_def)
  have tc: "good n Infos tc" "RecursionCheck tc = {}" using run_good [OF assms(1)] by simp_all
  have "is_layout n Infos TR (Some TI)" using lowersD [OF l tc assms(2)] by blast
  then show ?thesis unfolding is_layout_def by blast
qed

section \<open>Types that a layout depends on\<close>

lemma needed_within:
  assumes "TR \<in> D" "\<And>t p. t \<in> D \<Longrightarrow> plan n Infos t = Some p \<Longrightarrow> set (fst p) \<subseteq> D"
  shows "needed n Infos TR \<subseteq> D"
proof
  fix t assume "t \<in> needed n Infos TR"
  then have "(t, TR) \<in> (needs n Infos)\<^sup>*" by (simp add: needed_def)
  then show "t \<in> D"
  proof (induction rule: converse_rtrancl_induct)
    case (step y z)
    then obtain p where p: "plan n Infos z = Some p" "y \<in> set (fst p)" by (auto simp: needs_def)
    then show ?case using assms(2) [OF step.IH p(1)] by blast
  qed (rule assms(1))
qed

lemma addField_layout_returns:
  "a > 0 \<Longrightarrow> \<exists>offset b'. addField_layout s a x b = Some (offset, b') \<and> rb_Alignment b' \<ge> rb_Alignment b"
  by (auto simp: addField_layout_def Let_def)

lemma place_fields_returns:
  assumes "\<forall>TI \<in> set TIs. getInfoAlignment TI > 0"
  shows "\<exists>b'. place_fields members TIs b = Some b' \<and> rb_Alignment b' \<ge> rb_Alignment b"
  using assms
proof (induction members TIs b rule: place_fields.induct)
  case (1 Name TR members TI TIs b)
  obtain offset b1 where b1: "addField_layout (getSize TI) (getInfoAlignment TI) (getInfoExtraInhabitants TI) b = Some (offset, b1)"
    "rb_Alignment b1 \<ge> rb_Alignment b" using addField_layout_returns [of "getInfoAlignment TI"] 1(2) by fastforce
  from 1(1) [OF b1(1) refl] 1(2) b1(2) show ?case by (auto simp: b1(1))
qed auto

text \<open>Records never fail an assertion.\<close>

lemma record_safe: "rb_Alignment b > 0 \<Longrightarrow> safe_plan n Infos (record_plan members b)"
  unfolding safe_plan_def
proof (intro allI impI)
  fix TIs assume b: "rb_Alignment b > 0" and l: "list_all2 (has_layout n Infos) (fst (record_plan members b)) TIs"
  have "\<forall>TI \<in> set TIs. getInfoAlignment TI > 0"
    using l layout_aligned by (auto simp: list_all2_conv_all_nth in_set_conv_nth) metis
  from place_fields_returns [OF this, of members b] obtain b' where "place_fields members TIs b = Some b'" "rb_Alignment b' > 0"
    using b by auto
  then show "snd (record_plan members b) TIs \<noteq> None"
    by (auto simp: record_plan_def build_record_def makeTypeInfo_def getInfoAlignment_def)
qed

lemma constant_safe: "safe_plan n Infos (constant_plan r)"
  by (simp add: safe_plan_def constant_plan_def)

section \<open>Structs of the runtime\<close>

definition info_shape :: "TypeInfo \<Rightarrow> nat \<times> nat" where
  "info_shape TI = (unat (getSize TI), unat (getInfoAlignment TI))"

text \<open>A layout of the runtime and a type info of reflection say the same.\<close>

definition agrees :: "TypeLayout \<Rightarrow> TypeInfo \<Rightarrow> bool" where
  "agrees L TI \<longleftrightarrow> shape L = info_shape TI \<and> getNumExtraInhabitants L = getInfoExtraInhabitants TI"

lemma word_round_up:
  assumes "unat (a :: unsigned) = 2 ^ k" "unat s + unat a < 2 ^ 32"
  shows "unat ((s + a - 1) AND NOT (a - 1)) = round_up (unat s) (unat a)"
proof -
  have "1 \<le> unat a" using assms(1) by simp
  then have "(1 :: unsigned) \<le> a" by (simp add: word_le_nat_alt)
  then have "unat (a - 1) = unat a - 1" by (simp add: unat_sub)
  with \<open>1 \<le> unat a\<close> have m: "unat (a - 1) + 1 = unat a" by simp
  have "s + a - 1 = s + (a - 1)" by simp
  then show ?thesis using round_up_word [of "a - 1" k s] m assms by (simp only:) simp
qed

lemma nonzero_stride: "unat (if w = 0 then 1 else w :: unsigned) = max (Suc 0) (unat w)"
proof (cases "w = 0")
  case False
  then have "unat w \<noteq> 0" by (simp add: unat_eq_0)
  then show ?thesis using False by simp
qed simp

definition well_aligned :: "TypeInfo \<Rightarrow> bool" where
  "well_aligned TI \<longleftrightarrow> (\<exists>k. unat (getInfoAlignment TI) = 2 ^ k) \<and> unat (getInfoAlignment TI) \<le> 65536"

lemma place_fields_seq:
  assumes "\<forall>TI \<in> set TIs. well_aligned TI" "seq_layout (unat (rb_Size b)) (map info_shape TIs) = (os, z)" "z + 65536 < 2 ^ 32"
    "length members = length TIs" "place_fields members TIs b = Some b'"
  shows "unat (rb_Size b') = z \<and> map (unat \<circ> FieldOffset) (rb_Fields b') = map (unat \<circ> FieldOffset) (rb_Fields b) @ os \<and>
    map FieldTI (rb_Fields b') = map FieldTI (rb_Fields b) @ TIs \<and>
    unat (rb_Alignment b') = foldr (\<lambda>TI. max (unat (getInfoAlignment TI))) TIs (unat (rb_Alignment b)) \<and>
    rb_NumExtraInhabitants b' = (if rb_Empty b \<and> TIs \<noteq> [] then getInfoExtraInhabitants (hd TIs) else rb_NumExtraInhabitants b)"
  using assms
proof (induction TIs arbitrary: members b os)
  case (Cons TI TIs)
  obtain Name TR ms where ms: "members = (Name, TR) # ms" using Cons.prems(4) by (cases members) auto
  let ?a = "getInfoAlignment TI" and ?s = "rb_Size b"
  let ?o = "round_up (unat ?s) (unat ?a)"
  obtain os' where os: "seq_layout (?o + unat (getSize TI)) (map info_shape TIs) = (os', z)" "os = ?o # os'"
    using Cons.prems(2) by (auto simp: info_shape_def [of TI] Let_def split: prod.splits)
  obtain k where k: "unat ?a = 2 ^ k" and le: "unat ?a \<le> 65536" using Cons.prems(1) by (auto simp: well_aligned_def)
  have pos: "\<forall>e \<in> set (map info_shape TIs). 0 < snd e" using Cons.prems(1) by (auto simp: info_shape_def well_aligned_def)
  have z: "?o + unat (getSize TI) \<le> z" using seq_layout_mono [OF os(1) pos] .
  have "unat ?s \<le> ?o" by (rule round_up_ge) (simp add: k)
  then have o: "unat ((?s + ?a - 1) AND NOT (?a - 1)) = ?o"
    using z le Cons.prems(3) by (intro word_round_up [OF k]) simp
  let ?w = "(?s + ?a - 1) AND NOT (?a - 1)"
  have sz: "unat (?w + getSize TI) = ?o + unat (getSize TI)"
    unfolding o [symmetric] by (subst unat_add_lem [THEN iffD1]) (use o z Cons.prems(3) in simp_all)
  obtain offset b1 where b1: "addField_layout (getSize TI) ?a (getInfoExtraInhabitants TI) b = Some (offset, b1)"
    "place_fields ms TIs (b1\<lparr>rb_Fields := rb_Fields b1 @ [FieldInfo Name offset TR TI]\<rparr>) = Some b'"
    using Cons.prems(5) by (auto simp: ms bind_eq_Some_iff)
  have f: "offset = ?w" "rb_Size b1 = ?w + getSize TI" "rb_Alignment b1 = max (rb_Alignment b) ?a" "rb_Fields b1 = rb_Fields b"
    "\<not> rb_Empty b1" "rb_NumExtraInhabitants b1 = (if rb_Empty b then getInfoExtraInhabitants TI else rb_NumExtraInhabitants b)"
    using b1(1) by (auto simp: addField_layout_def Let_def bind_eq_Some_iff split: if_splits)
  have "foldr (\<lambda>TI. max (unat (getInfoAlignment TI))) TIs (max x y) = max y (foldr (\<lambda>TI. max (unat (getInfoAlignment TI))) TIs x)" for x y
    by (induction TIs) (auto simp: max_def)
  moreover have "unat (max (rb_Alignment b) ?a) = max (unat (rb_Alignment b)) (unat ?a)" by (simp add: max_def word_le_nat_alt)
  ultimately show ?case
    using Cons.IH [of "b1\<lparr>rb_Fields := rb_Fields b1 @ [FieldInfo Name offset TR TI]\<rparr>" os' ms] Cons.prems(1,3,4) os f b1(2) sz o ms
    by simp
qed auto

lemma alignments_fold: "foldr (\<lambda>TI. max (unat (getInfoAlignment TI))) TIs (Suc 0) = max_alignment (map info_shape TIs)"
  by (induction TIs) (auto simp: max_alignment_def info_shape_def)

lemma agrees_aligned: "power_aligned L \<Longrightarrow> agrees L TI \<Longrightarrow> well_aligned TI"
  using alignment_bound [of L] by (auto simp: power_aligned_def agrees_def shape_def info_shape_def well_aligned_def)

lemma agrees_all_aligned: "list_all2 agrees Ls TIs \<Longrightarrow> \<forall>L \<in> set Ls. power_aligned L \<Longrightarrow> \<forall>TI \<in> set TIs. well_aligned TI"
  by (induction rule: list_all2_induct) (use agrees_aligned in auto)

lemma agrees_shapes: "list_all2 agrees Ls TIs \<Longrightarrow> map shape Ls = map info_shape TIs"
  by (induction rule: list_all2_induct) (auto simp: agrees_def)

lemma record_agrees:
  assumes "place_fields members TIs (new_record kind) \<bind> build_record = Some (Some TI)" "length members = length TIs" "TIs \<noteq> []"
    "list_all2 agrees Ls TIs" "\<forall>L \<in> set Ls. power_aligned L" "snd (seq_layout 0 (map shape Ls)) + 65536 < 2 ^ 32"
  shows "\<exists>info Fields ws V. TI = RecordTypeInfo info kind Fields \<and> map FieldTI Fields = TIs \<and>
    swift_initStructMetadata Ls vwt = Some (ws, V) \<and> map unat ws = map (unat \<circ> FieldOffset) Fields \<and> agrees V TI \<and>
    unat (tl_stride V) = unat (Stride info)"
proof -
  obtain os z where s: "seq_layout 0 (map shape Ls) = (os, z)" by fastforce
  have z: "z + 65536 < 2 ^ 32" using assms(6) s by simp
  have "\<forall>TI \<in> set TIs. well_aligned TI" using agrees_all_aligned [OF assms(4,5)] .
  moreover obtain b' where b': "place_fields members TIs (new_record kind) = Some b'" "build_record b' = Some (Some TI)"
    using assms(1) by (auto simp: bind_eq_Some_iff)
  moreover have "seq_layout (unat (rb_Size (new_record kind))) (map info_shape TIs) = (os, z)"
    using s agrees_shapes [OF assms(4)] by (simp add: new_record_def)
  ultimately have f: "unat (rb_Size b') = z" "map (unat \<circ> FieldOffset) (rb_Fields b') = os" "map FieldTI (rb_Fields b') = TIs"
    "unat (rb_Alignment b') = max_alignment (map shape Ls)" "rb_NumExtraInhabitants b' = getInfoExtraInhabitants (hd TIs)"
    using place_fields_seq [of TIs "new_record kind" os z members b'] z assms(2,3) agrees_shapes [OF assms(4)]
    by (simp_all add: new_record_def alignments_fold)
  have Ls: "Ls \<noteq> []" "getNumExtraInhabitants (hd Ls) = getInfoExtraInhabitants (hd TIs)"
    using assms(3,4) by (cases TIs; auto simp: list_all2_Cons2 agrees_def)+
  let ?A = "max_alignment (map shape Ls)"
  have kind: "rb_Kind b' = kind" using place_fields_keeps [OF b'(1)] by (simp add: new_record_def)
  obtain k where k: "?A = 2 ^ k" using max_alignment_power [OF assms(5)] by blast
  have "unat ((rb_Size b' + rb_Alignment b' - 1) AND NOT (rb_Alignment b' - 1)) = round_up z ?A"
    unfolding f(1,4) [symmetric] by (rule word_round_up [of _ k]) (use f(1,4) k z max_alignment_bound [of Ls] in simp_all)
  then have st: "unat (calculate_stride (rb_Size b') (rb_Alignment b')) = stride_of z ?A"
    by (simp add: calculate_stride_def Let_def stride_of_def nonzero_stride)
  have TI: "TI = RecordTypeInfo \<lparr>Size = rb_Size b', Alignment = rb_Alignment b', Stride = calculate_stride (rb_Size b') (rb_Alignment b'),
      NumExtraInhabitants = rb_NumExtraInhabitants b'\<rparr> kind (rb_Fields b')"
    using b'(2) kind by (auto simp: build_record_def makeTypeInfo_Some split: if_splits)
  obtain ws V where V: "swift_initStructMetadata Ls vwt = Some (ws, V)" "map unat ws = os" "unat (tl_size V) = z" "alignment_of V = ?A"
    "unat (tl_stride V) = stride_of z ?A" "getNumExtraInhabitants V = getNumExtraInhabitants (hd Ls)"
    using struct_metadata_layout [OF Ls(1) assms(5) s, of vwt] z by auto
  have "agrees V TI"
    using V(3,4,6) f(1,4,5) Ls(2) TI
    by (simp add: agrees_def shape_def info_shape_def getSize_def getInfoAlignment_def getInfoExtraInhabitants_def)
  then show ?thesis using V(1,2,5) f(2,3) st TI by (intro exI [of _ "rb_Fields b'"] exI [of _ ws] exI [of _ V] exI) (auto simp: TI)
qed

lemma place_fields_infos:
  "length members = length TIs \<Longrightarrow> place_fields members TIs b = Some b' \<Longrightarrow> map FieldTI (rb_Fields b') = map FieldTI (rb_Fields b) @ TIs"
proof (induction members TIs b arbitrary: b' rule: place_fields.induct)
  case (1 Name TR members TI TIs b)
  then obtain offset b1 where b1: "addField_layout (getSize TI) (getInfoAlignment TI) (getInfoExtraInhabitants TI) b = Some (offset, b1)"
    "place_fields members TIs (b1\<lparr>rb_Fields := rb_Fields b1 @ [FieldInfo Name offset TR TI]\<rparr>) = Some b'"
    by (auto simp: bind_eq_Some_iff)
  from 1(1) [OF b1(1) refl _ b1(2)] 1(2) addField_layout_keeps [OF b1(1)] show ?case by simp
qed auto

lemma struct_query:
  assumes "converter_run n Infos tc" "getTypeInfo f n Infos TR tc = Some (Some TI, tc')" "nominal_name TR \<noteq> None"
    "getFieldTypeInfo Infos TR = Some (Some FD)" "fd_kind FD = StructKind"
  shows "\<exists>members TIs. list_all2 (has_layout n Infos) (map snd members) TIs \<and>
    place_fields members TIs (new_record StructRecord) \<bind> build_record = Some (Some TI)"
proof -
  obtain p where p: "plan n Infos TR = Some p" "yields n Infos p TI"
    using type_answer [OF assms(1,2)] by (auto simp: has_layout_iff)
  have "plan n Infos TR = nominal_plan n Infos TR" using assms(3) by (cases TR) auto
  then obtain found where found: "getFieldTypeRefs n Infos TR (Some FD) = Some found"
    "(case found of None \<Rightarrow> Some no_layout | Some Fields \<Rightarrow> map_option (\<lambda>members. record_plan members (new_record StructRecord)) (field_list Fields)) = Some p"
    using p(1) assms(4,5) by (cases "getFieldTypeRefs n Infos TR (Some FD)") (auto simp: nominal_plan_def)
  show ?thesis
  proof (cases found)
    case None
    then have "p = no_layout" using found(2) by simp
    then show ?thesis using p(2) by (auto simp: yields_def constant_plan_def)
  next
    case (Some Fields)
    then obtain members where "p = record_plan members (new_record StructRecord)" using found(2) by auto
    then show ?thesis using p(2) by (auto simp: yields_def record_plan_def)
  qed
qed

lemma struct_agreement:
  assumes "converter_run n Infos tc" "getTypeInfo f n Infos TR tc = Some (Some (RecordTypeInfo info kind Fields), tc')"
    "nominal_name TR \<noteq> None" "getFieldTypeInfo Infos TR = Some (Some FD)" "fd_kind FD = StructKind" "Fields \<noteq> []"
    "list_all2 agrees Ls (map FieldTI Fields)" "\<forall>L \<in> set Ls. power_aligned L" "snd (seq_layout 0 (map shape Ls)) + 65536 < 2 ^ 32"
  shows "\<exists>ws V. swift_initStructMetadata Ls vwt = Some (ws, V) \<and> map unat ws = map (unat \<circ> FieldOffset) Fields \<and>
    agrees V (RecordTypeInfo info kind Fields) \<and> unat (tl_stride V) = unat (Stride info)"
proof -
  obtain members TIs where m: "list_all2 (has_layout n Infos) (map snd members) TIs"
    "place_fields members TIs (new_record StructRecord) \<bind> build_record = Some (Some (RecordTypeInfo info kind Fields))"
    using struct_query [OF assms(1-5)] by blast
  have len: "length members = length TIs" using list_all2_lengthD [OF m(1)] by simp
  obtain b' where b': "place_fields members TIs (new_record StructRecord) = Some b'" "build_record b' = Some (Some (RecordTypeInfo info kind Fields))"
    using m(2) by (auto simp: bind_eq_Some_iff)
  have "map FieldTI Fields = TIs"
    using place_fields_infos [OF len b'(1)] build_record_Some [OF b'(2)] by (simp add: new_record_def)
  then have "TIs \<noteq> []" "list_all2 agrees Ls TIs" using assms(6,7) by auto
  from record_agrees [OF m(2) len this assms(8,9), of vwt] show ?thesis by auto
qed

section \<open>An example\<close>

text \<open>A struct with fields of one and of four bytes.\<close>

definition builtin_descriptor :: "string \<Rightarrow> nat \<Rightarrow> BuiltinTypeDescriptor" where
  "builtin_descriptor name sz = \<lparr>builtin_type = Some name, builtin_size = sz, builtin_alignment = sz, builtin_stride = sz,
     builtin_extra_inhabitants = 0\<rparr>"

definition struct_image :: ReflectionInfo where
  "struct_image = \<lparr>FieldSection =
     [\<lparr>fd_type = Some ''4main1SV'', fd_superclass = None, fd_kind = StructKind, fd_records =
        [\<lparr>field_type = Some ''Bi8_'', field_name = Some ''a'', field_indirect = False\<rparr>,
         \<lparr>field_type = Some ''Bi32_'', field_name = Some ''b'', field_indirect = False\<rparr>]\<rparr>],
     AssociatedTypeSection = [], BuiltinSection = [builtin_descriptor ''Bi8_'' 1, builtin_descriptor ''Bi32_'' 4]\<rparr>"

abbreviation struct_ref :: TypeRef where
  "struct_ref \<equiv> NominalTypeRef ''4main1SV'' None"

definition struct_info :: TypeInfo where
  "struct_info = RecordTypeInfo \<lparr>Size = 8, Alignment = 4, Stride = 8, NumExtraInhabitants = 0\<rparr> StructRecord
     [FieldInfo ''a'' 0 (BuiltinTypeRef ''Bi8_'') (BuiltinTypeInfo \<lparr>Size = 1, Alignment = 1, Stride = 1, NumExtraInhabitants = 0\<rparr> (Some ''Bi8_'')),
      FieldInfo ''b'' 4 (BuiltinTypeRef ''Bi32_'') (BuiltinTypeInfo \<lparr>Size = 4, Alignment = 4, Stride = 4, NumExtraInhabitants = 0\<rparr> (Some ''Bi32_''))]"

lemma struct_found: "getFieldTypeInfo [struct_image] struct_ref = Some (Some (hd (FieldSection struct_image)))"
  by code_simp

lemma struct_fields: "getFieldTypeRefs 1 [struct_image] struct_ref (Some (hd (FieldSection struct_image))) =
    Some (Some [\<lparr>info_name = ''a'', info_type = Some (BuiltinTypeRef ''Bi8_''), info_indirect = False\<rparr>,
      \<lparr>info_name = ''b'', info_type = Some (BuiltinTypeRef ''Bi32_''), info_indirect = False\<rparr>])"
  by code_simp

lemma struct_lowered: "\<exists>tc'. getTypeInfo 2 1 [struct_image] struct_ref new_converter = Some (Some struct_info, tc')"
proof -
  have "map_option fst (getTypeInfo 2 1 [struct_image] struct_ref new_converter) = Some (Some struct_info)" by code_simp
  then show ?thesis by auto
qed

lemma struct_plans:
  "plan 1 [struct_image] struct_ref = Some (record_plan [(''a'', BuiltinTypeRef ''Bi8_''), (''b'', BuiltinTypeRef ''Bi32_'')] (new_record StructRecord))"
  "\<exists>r. plan 1 [struct_image] (BuiltinTypeRef ''Bi8_'') = Some (constant_plan r)"
  "\<exists>r. plan 1 [struct_image] (BuiltinTypeRef ''Bi32_'') = Some (constant_plan r)"
proof -
  have k: "fd_kind (hd (FieldSection struct_image)) = StructKind" by (simp add: struct_image_def)
  show "plan 1 [struct_image] struct_ref = Some (record_plan [(''a'', BuiltinTypeRef ''Bi8_''), (''b'', BuiltinTypeRef ''Bi32_'')] (new_record StructRecord))"
    by (simp only: plan.simps nominal_plan_def struct_found bind.bind_lunit option.case k FieldDescriptorKind.case struct_fields)
      (simp add: record_plan_def)
  show "\<exists>r. plan 1 [struct_image] (BuiltinTypeRef ''Bi8_'') = Some (constant_plan r)"
    "\<exists>r. plan 1 [struct_image] (BuiltinTypeRef ''Bi32_'') = Some (constant_plan r)"
    by (simp_all add: builtin_info_def getBuiltinTypeInfo_def struct_image_def builtin_descriptor_def descriptor_info_def
      makeBuiltinTypeInfo_def makeTypeInfo_def getInfoAlignment_def) (rule exI, rule refl)+
qed

lemma struct_needed:
  "needed 1 [struct_image] struct_ref \<subseteq> {struct_ref, BuiltinTypeRef ''Bi8_'', BuiltinTypeRef ''Bi32_''}" (is "_ \<subseteq> ?D")
proof (rule needed_within)
  fix t p assume "t \<in> ?D" "plan 1 [struct_image] t = Some p"
  then show "set (fst p) \<subseteq> ?D" using struct_plans by (auto simp: record_plan_def constant_plan_def)
qed simp

lemma struct_crash_free: "\<forall>t \<in> needed 1 [struct_image] struct_ref. crash_free 1 [struct_image] t"
proof
  fix t assume "t \<in> needed 1 [struct_image] struct_ref"
  then have "t \<in> {struct_ref, BuiltinTypeRef ''Bi8_'', BuiltinTypeRef ''Bi32_''}" using struct_needed by blast
  moreover have "safe_plan 1 [struct_image] (record_plan [(''a'', BuiltinTypeRef ''Bi8_''), (''b'', BuiltinTypeRef ''Bi32_'')] (new_record StructRecord))"
    by (rule record_safe) (simp add: new_record_def)
  then have "crash_free 1 [struct_image] struct_ref" using struct_plans(1) unfolding crash_free_def by blast
  moreover have "crash_free 1 [struct_image] (BuiltinTypeRef ''Bi8_'')" "crash_free 1 [struct_image] (BuiltinTypeRef ''Bi32_'')"
    using struct_plans(2,3) constant_safe unfolding crash_free_def by metis+
  ultimately show "crash_free 1 [struct_image] t" by blast
qed

lemma struct_needed_count: "finite (needed 1 [struct_image] struct_ref)" "card (needed 1 [struct_image] struct_ref) < 4"
proof -
  have f: "finite {struct_ref, BuiltinTypeRef ''Bi8_'', BuiltinTypeRef ''Bi32_''}" by simp
  show "finite (needed 1 [struct_image] struct_ref)" by (rule finite_subset [OF struct_needed f])
  show "card (needed 1 [struct_image] struct_ref) < 4" using card_mono [OF f struct_needed] by simp
qed

end
