(* ===== verification/Spec2Isabelle.thy ===== *)
theory Spec2Isabelle
  imports Demangler_Total_Operators Demangle_Context Type_Decoding Type_Ref_Facts Type_Ref_Lookups
    Dependency_Runs Runtime_Enum_Facts Type_Lowering_Layout
begin

text \<open>
  Verification of the symbol mangling core of the Swift compiler and runtime:
  \<open>lib/Demangling\<close> with the headers \<open>include/swift/Demangling\<close>; of the reflection library that
  reads mangled types: \<open>stdlib/public/Reflection\<close> with \<open>include/swift/Reflection\<close>; of the
  dependency graph by which the driver decides what to rebuild: \<open>lib/Driver/DependencyGraph.cpp\<close>; and
  of the layout of structs and enums in the runtime: \<open>stdlib/public/runtime\<close>, \<open>Enum.cpp\<close> and parts of
  \<open>Metadata.cpp\<close>.

  \<^bold>\<open>The program.\<close> A mangled name is parsed by \<open>class Demangler\<close> (\<open>Demangler.cpp\<close>) into a tree of
  \<open>Node\<close>s (\<open>Demangle.h\<close>); \<open>class Remangler\<close> (\<open>Remangler.cpp\<close>) prints a tree as a mangled name. The
  two share the conventions of \<open>ManglingUtils\<close>: characters, words of identifiers that are replaced
  by letters, merged substitutions, standard types. Identifiers with non-ASCII characters go
  through \<open>Punycode.cpp\<close>. The demangler is a stack machine: each operator character pops operands
  from \<open>NodeStack\<close>, builds a node and pushes it; the substitution table and the table of words grow
  on the way, and both sides must grow them alike. Names of the older scheme go to \<open>OldDemangler.cpp\<close>,
  a recursive-descent parser; \<open>class Context\<close> chooses between the two and classifies symbols. The
  reflection library decodes demangled types with \<open>TypeDecoder\<close> into \<open>TypeRef\<close>s, which hold remangled
  names of declarations, looks these names up in the reflection sections, and substitutes generic
  arguments; a type converter lays out the values of a type from the descriptors in these sections.
  The dependency graph stands apart: the driver loads a file of provided and used names (mangled
  ones for types) per source file, and marks from changed files what depends on them. The runtime
  lays out generic structs and enums from the value witness tables of their parts, and its witnesses
  of enums store and read the case of a value: in extra inhabitants (bit patterns that the payload
  type does not use), in the payload, and in tag bytes after it.

  \<^bold>\<open>Theories.\<close>
  \<^item> \<open>Mangling_Prelude\<close>: fact collections, generic lemmas, the interfaces \<open>codec\<close> and
    \<open>prefix_codec\<close> (a printer with its reader), decimal numbers.
  \<^item> \<open>Mangling_Chars\<close>: \<open>ManglingUtils.h\<close> and \<open>ManglingUtils.cpp\<close>: character classes, operator
    characters, \<open>StandardTypesMangling.def\<close>.
  \<^item> \<open>Punycode\<close>: every function of \<open>Punycode.cpp\<close>, with 32-bit wrap-around written out;
    \<open>Punycode_Roundtrip\<close> and \<open>Punycode_UTF8\<close>: termination of the encoder and the round trips.
  \<^item> \<open>Demangle_Node\<close>: the tree; a \<open>NodePointer\<close> is a \<open>node option\<close>.
  \<^item> \<open>Demangler_State\<close>, \<open>Demangler_Types\<close>, \<open>Demangler_Generics\<close>, \<open>Demangler\<close>: the parser, in the
    order of \<open>Demangler.cpp\<close>. Its fields are the record \<open>demangler\<close>; an operation returns
    \<open>Some (result, state)\<close>, and \<open>None\<close> where an assertion fails, a null pointer is dereferenced or
    the code does not return.
  \<^item> \<open>Demangler_Safety\<close> and the three \<open>Demangler_Total\<close> theories: a weakest-precondition calculus
    and the proof that every operation keeps the invariant \<open>dinv\<close> and returns well-formed nodes.
  \<^item> \<open>Mangle_Identifier\<close>: the templates of \<open>ManglingUtils.h\<close>.
  \<^item> \<open>Remangler_Core\<close>, \<open>Remangler\<close>: \<open>Remangler.cpp\<close>, one function per node kind. A handler takes
    the function for recursive calls as its argument; \<open>mangle\<close> ties the knot with the size of the
    node as fuel, and \<open>Remangler_Fuel\<close> shows that this is enough.
  \<^item> \<open>Number_Roundtrip\<close>, \<open>Substitution_Merging\<close>: what the remangler prints is what the demangler
    reads, for numbers, operators, value witnesses, standard types and substitutions. Merging is
    related to an abstract grouping of substitutions.
  \<^item> \<open>Identifier_Tokens\<close>, \<open>Identifier_Segments\<close>, \<open>Identifier_Roundtrip\<close>: the words of an identifier,
    the mangler's plan of literals and replaced words, and the round trip of identifiers.

  \<^item> \<open>Mangling_Stream\<close>: the simulation between the state of the remangler and what the demangler will
    have when it has read the buffer. \<open>Type_Operators\<close>, \<open>Type_Generics\<close>, \<open>Type_Steps\<close>,
    \<open>Type_Handlers\<close>: every operator and handler of types as a step of the simulation;
    \<open>Entity_Operators\<close>, \<open>Entity_Handlers\<close>: the same for declarations. \<open>Type_Roundtrip\<close>: types and
    declarations, by mutual induction. \<open>Symbol_Roundtrip\<close>: whole names.

  \<^item> \<open>Old_Demangler_Source\<close>, \<open>Old_Demangler\<close>, \<open>Old_Demangler_Symbols\<close>: \<open>OldDemangler.cpp\<close>. A parser
    returns a result with the rest of the text, null, a trap (an access past the end, a null pointer,
    a failed assertion) or does not end. \<open>Old_Demangler_Total\<close>, \<open>Old_Demangler_Calls\<close>: every operation
    ends, consumes what it must and returns well-shaped nodes.
  \<^item> \<open>Demangle_Context\<close>: \<open>Context.cpp\<close>, with its answers on symbols that the remangler writes.
  \<^item> \<open>Type_Decoder\<close>: \<open>TypeDecoder.h\<close> over a record of factory functions, and the flags of
    \<open>MetadataValues.h\<close>. \<open>Type_Ref\<close>: \<open>TypeRef.h\<close> and the visitors of \<open>TypeRef.cpp\<close>, with the builder of
    type references. \<open>Type_Decoding\<close>: what is mangled can be decoded, by a builder that never fails
    (\<open>total_builder\<close>).
  \<^item> \<open>Metadata_Source\<close>: sources of metadata, their encoder in the compiler and their decoder.
    \<open>Type_Ref_Builder\<close>: the descriptors of \<open>Records.h\<close>, the lookups of \<open>TypeRefBuilder.cpp\<close> and the
    substitution of \<open>TypeRef.cpp\<close>. \<open>Type_Ref_Facts\<close>: deriving and substituting generic arguments.
    \<open>Type_Ref_Lookups\<close>: the cache of associated types, and the flags of function types. The substitution
    looks up witnesses without the cache, which the code reads and fills there, too.
  \<^item> \<open>Type_Lowering\<close>: \<open>TypeLowering.h\<close> and \<open>TypeLowering.cpp\<close>; the caches of \<open>class TypeConverter\<close> and its
    check against recursion are the record \<open>type_converter\<close>. \<open>Type_Layout_Rules\<close>: layouts by rules, without
    caches and order of evaluation; \<open>Type_Layout_Shape\<close>: what the rules yield. \<open>Type_Lowering_Exact\<close>: what
    the caches may hold, and triples for operations; \<open>Type_Lowering_Steps\<close>: every operation implements its
    rule when the nested calls do (the interface \<open>layout_oracle\<close>). \<open>Type_Lowering_Layout\<close>: queries, and
    structs laid out by reflection against those of the runtime.
  \<^item> \<open>Dependency_Graph\<close>: \<open>DependencyGraph.h\<close> and \<open>DependencyGraph.cpp\<close>; a node is a value of a type
    variable, a document of LLVM's YAML parser is an argument. \<open>Dependency_Marking\<close>: marking as
    reachability. \<open>Dependency_Loading\<close>: what loading keeps (the interface \<open>callbacks_keep\<close>), and
    external dependencies, and when a load that is up to date needs no marking. \<open>Dependency_Runs\<close>: the
    graphs of sequences of operations (\<open>graph_run\<close>), by rule induction; the loads of unmarked nodes
    that these sequences leave out are named there.
  \<^item> \<open>Runtime_Layout\<close>: value witness flags and type layouts of \<open>Metadata.h\<close>, \<open>performBasicLayout\<close> and the
    layout of structs (\<open>Metadata.cpp\<close>) and enums (\<open>Enum.cpp\<close>, \<open>EnumImpl.h\<close>) on 64-bit machines;
    \<open>Runtime_Layout_Facts\<close>: sequential layout as a specification on numbers, and that the runtime
    implements it. \<open>Runtime_Enums\<close>: storing and reading cases in little-endian memory, with the extra
    inhabitants of object pointers. \<open>Runtime_Enum_Facts\<close>: what is stored is read back, for every payload
    type that keeps the contract \<open>payload_inhabitants\<close>, which object pointers do.

  \<^bold>\<open>Bounds.\<close> The fuel of \<open>mangle_fuel\<close> is the size of the node, as every recursive call of
  \<open>Remangler::mangle\<close> is on a smaller node; the same holds of \<open>decode_fuel\<close>. The older demangler
  consumes a character before each nested call, so \<open>old_parse\<close> has the length of the name plus one;
  that no call runs out is part of \<open>old_demangler_returns\<close>. A source of metadata takes a letter per
  level, so \<open>decode_source_fuel\<close> has the length of the text. \<open>subst\<close> takes the depth to which witnesses
  of associated types are substituted in each other, which the code does not bound: it may not end on
  cyclic sections; the theorems on \<open>subst\<close> hold for every depth. The fuel of \<open>getTypeInfo\<close> is the depth of
  nested types; more than the number of types that a layout depends on is enough, as each level enters
  one of them in the check against recursion (\<open>lowering_exact\<close>). Loops of the parser terminate because the position
  in the text grows or the node stack shrinks; \<open>parseAndPushNodes\<close> is a \<open>partial_function\<close>, and that
  it returns is part of the safety theorems. The worklist of \<open>markTransitive\<close> is a \<open>partial_function\<close>,
  too: a round that adds work traverses a kind of a name for the first time (\<open>marking_order\<close>). \<open>int\<close> is 32 bits wide, \<open>size_t\<close> and \<open>uint64_t\<close> are
  unbounded where the code adds positions inside a string in memory.

  \<^bold>\<open>Not modelled.\<close> Storage (\<open>NodeFactory\<close> slabs, \<open>Vector\<close> capacities, the tables that make type
  references unique: they are values here), the layout of reflection sections in memory, the printers
  of trees and type references for people (\<open>NodePrinter.cpp\<close>, \<open>PrintTypeRef\<close>) and the functions of
  \<open>Context.cpp\<close> that return printed text, \<open>OldRemangler.cpp\<close>, the ownership of type infos and the readers of
  another process, the tables of witness functions in the runtime (the layout functions fill in their data
  only; the table is an argument), the AST mangler and the rest of the compiler and runtime.
\<close>

section \<open>Symbols survive remangling and demangling\<close>

text \<open>
  C1. The remangler and the demangler agree on symbols. For attributes \<open>as\<close> (such as
  \<open>@objc\<close>) over one item (a declaration of \<open>entity\<close>, a type, the
  mangling of a type with its labels, metadata of a type, a thunk of a declaration)
  \<open>mangleNode\<close> succeeds on the \<open>Global\<close> node, and
  \<open>demangleSymbol\<close> reads the name as the same tree from every state of the demangler.
  Declarations have argument labels or none, private and local names, accessors, and nest in types
  and in each other.
\<close>

theorem symbol_roundtrip:
  assumes "\<forall>a \<in> set as. \<exists>s k. a = Node k NoPayload [] \<and> (s, k) \<in> set attribute_table"
    "item c x" "size c < 2147483648"
  shows "\<exists>s d'. mangleNode (Some (Node K_Global NoPayload (as @ [c]))) = Some s \<and>
    demangleSymbol s d = Some (Some (Node K_Global NoPayload (as @ [c])), d')"
  using assms by (rule symbol_name_roundtrip)

theorem symbol_roundtrip_witness:
  "\<exists>s d'. mangleNode (Some (Node K_Global NoPayload ([Node K_ObjCAttribute NoPayload []] @ [example_function]))) = Some s \<and>
    demangleSymbol s new_demangler =
      Some (Some (Node K_Global NoPayload ([Node K_ObjCAttribute NoPayload []] @ [example_function])), d')"
proof (rule symbol_roundtrip)
  show "item example_function example_function" using example_function_entity by (rule item_entity)
  show "size example_function < 2147483648"
    by (simp add: example_function_def function_entity_def label_children_def label_list_def label_node_def example_type_def
      function_node_def throws_nodes_def example_class_def example_array_def type_list_def ident_node_def)
qed (simp add: attribute_table_def)

section \<open>Types survive remangling and demangling\<close>

text \<open>
  C2. The remangler and the demangler agree on types. For every type of \<open>is_type\<close>
  (nominal types nested in modules, extensions and each other, with private and local names; bound
  generic types at every level; optionals, tuples with labels, functions of five conventions,
  protocol compositions, metatypes, reference storage, builtin types, generic parameters)
  \<open>mangleNode\<close> succeeds, and \<open>demangleType\<close> reads its text as the same
  tree. The two sides assign the same numbers to every word and substitution on the way.
\<close>

theorem type_roundtrip:
  assumes "is_type nd" "size nd < 2147483648" "\<not> IsOldFunctionTypeMangling d"
  shows "\<exists>s d'. mangleNode (Some (Node K_Type NoPayload [nd])) = Some s \<and>
    demangleType s d = Some (Some (Node K_Type NoPayload [nd]), d')"
  using assms by (rule type_name_roundtrip)

theorem type_roundtrip_witness:
  "\<exists>s d'. mangleNode (Some (Node K_Type NoPayload [example_type])) = Some s \<and>
    demangleType s new_demangler = Some (Some (Node K_Type NoPayload [example_type]), d')"
proof (rule type_roundtrip)
  show "size example_type < 2147483648"
    by (simp add: example_type_def function_node_def throws_nodes_def example_class_def example_array_def
      type_list_def ident_node_def)
qed (simp_all add: example_is_type new_demangler_def)

section \<open>The demangler returns\<close>

text \<open>
  C3. Safety of the parser. On every name without one of the traps named by
  \<open>safe_text\<close> (a number of seven or more digits, a key path thunk, a Punycode part on
  which the decoder fails) and other than \<open>$\<close> and \<open>_$\<close>,
  \<open>demangleSymbol\<close> returns from every state of the demangler: no assertion fails, no
  null pointer is dereferenced, the parse loop ends. The result is null or a \<open>Global\<close>
  node with children, every node of which has the shape its kind requires.
\<close>

theorem demangleSymbol_total:
  assumes "safe_text name" "name \<noteq> ''$''" "name \<noteq> ''_$''"
  shows "\<exists>r d'. demangleSymbol name d = Some (r, d') \<and> symbol_node r"
  using okD [OF demangleSymbol_returns [OF assms]] .

theorem demangleSymbol_total_witness:
  "\<exists>r d'. demangleSymbol ''$S4main3fooyS2iF'' new_demangler = Some (r, d') \<and> symbol_node r"
proof (rule demangleSymbol_total)
  have "punycode_total ''$S4main3fooyS2iF''" by (rule punycode_total_no_zeros) code_simp
  moreover have "no_long_number ''$S4main3fooyS2iF''" "no_keypath_thunk ''$S4main3fooyS2iF''"
    by code_simp+
  ultimately show "safe_text ''$S4main3fooyS2iF''" by (simp add: safe_text_def)
qed simp_all

text \<open>
  C4. The entry point for types: on every safe text (\<open>safe_text\<close>, as above)
  \<open>demangleType\<close> returns a well-formed node. It never returns null: where parsing
  stops with nothing on the stack, the result is a \<open>Suffix\<close> node with the whole text,
  so the comment in \<open>Demangler.h\<close>, which promises a null pointer on failure, does not
  describe the code.
\<close>

theorem demangleType_total:
  assumes "safe_text name"
  shows "\<exists>n d'. demangleType name d = Some (Some n, d') \<and> wf_node n"
  using okD [OF demangleType_returns [OF assms]] by blast

theorem demangleType_total_witness:
  "\<exists>n d'. demangleType ''SaySiG'' new_demangler = Some (Some n, d') \<and> wf_node n"
proof (rule demangleType_total)
  have "punycode_total ''SaySiG''" by (rule punycode_total_no_zeros) code_simp
  moreover have "no_long_number ''SaySiG''" "no_keypath_thunk ''SaySiG''" by code_simp+
  ultimately show "safe_text ''SaySiG''" by (simp add: safe_text_def)
qed

text \<open>
  C5. The invariant of the parser: before and after each operator the position is inside the text,
  at most 26 words are recorded, and every node on the stack and in the substitution table is well
  formed. An operator that yields a node has moved the position forward, which is why the parse
  loop ends.
\<close>

theorem demangleOperator_invariant:
  assumes "dinv T p d" "Pos d = p" "p < length T"
  shows "\<exists>n d'. demangleOperator d = Some (n, d') \<and> dinv T p d' \<and>
    (\<forall>m. n = Some m \<longrightarrow> wf_node m \<and> p < Pos d')"
  using okD [OF demangleOperator_post [OF assms]] by (auto simp: wf_opt_def)

theorem demangleOperator_invariant_witness:
  "\<exists>n d'. demangleOperator (init ''Si'' new_demangler) = Some (n, d') \<and> dinv ''Si'' 0 d' \<and>
    (\<forall>m. n = Some m \<longrightarrow> wf_node m \<and> 0 < Pos d')"
proof (rule demangleOperator_invariant)
  have "punycode_total ''Si''" by (rule punycode_total_no_zeros) code_simp
  moreover have "no_long_number ''Si''" "no_keypath_thunk ''Si''" by code_simp+
  ultimately show "dinv ''Si'' 0 (init ''Si'' new_demangler)"
    by (simp add: dinv_init safe_text_def)
qed (simp_all add: init_def)

text \<open>
  C6. \<open>getManglingPrefixLength\<close> reads one character past the end of the name exactly
  for \<open>$\<close> and \<open>_$\<close>; for every other name its result is at most the
  length of the name.
\<close>

theorem prefix_length_defined:
  "(getManglingPrefixLength name = None \<longleftrightarrow> name = ''$'' \<or> name = ''_$'') \<and>
   getManglingPrefixLength name \<noteq> Some (Suc (length name) + k)"
proof (cases "name = ''$'' \<or> name = ''_$''")
  case True
  then show ?thesis by (auto simp: getManglingPrefixLength_def)
next
  case False
  then show ?thesis using getManglingPrefixLength_post [of name] by auto
qed

text \<open>
  C7. Printing an integer into a \<open>CharVector\<close> succeeds exactly for the numbers of at
  most seven characters; beyond that the assertion of \<open>CharVector::append(int)\<close>
  fails.
\<close>

theorem append_int_bounds:
  "CharVector_append_int s n = None \<longleftrightarrow> n \<le> - 1000000 \<or> 10000000 \<le> n"
  by (rule append_int_None_iff)

section \<open>The dependency graph of the driver\<close>

text \<open>
  C8. Marking reaches every dependent. In every graph of \<open>graph_run\<close>,
  \<open>markTransitive\<close> from a node of the graph ends without a failed assertion. These
  graphs arise by adding nodes, by marking, and by loading files: before any name is traversed,
  for a marked node, with marking from the node next, or with the answer \<open>UpToDate\<close>
  for a node that uses each name in one kind only. What is left out is the load of an unmarked
  node, after names were traversed, that ends in an error, or in \<open>UpToDate\<close> though
  the node uses one name in several kinds. It marks exactly the nodes that cascading edges reach
  from it through unmarked nodes (\<open>reach\<close>), whatever names were traversed earlier,
  and reports each newly marked one; the data of the graph does not change.
\<close>

theorem marking_reaches_dependents:
  assumes "graph_run g" "n \<in> dom (Provides g)"
  shows "\<exists>vs t' g'. markTransitive [] n t g = Some (vs, t', g') \<and> Marked g' = Marked g \<union> reach g n \<and>
    reach g n - Marked g - {n} \<subseteq> set vs \<and> Provides g' = Provides g \<and> dependents g' = dependents g"
proof -
  have inv: "wf_graph g" "consistent_but n g" using run_wf_consistent [OF assms(1)] consistent_but_any [of g n] by simp_all
  from mark_transitive_marks [OF inv assms(2), of "[]" t] obtain new t' g' where
    "markTransitive [] n t g = Some ([] @ new, t', g')" "Provides g' = Provides g" "dependents g' = dependents g"
    "Marked g' = Marked g \<union> reach g n" "reach g n - Marked g - {n} \<subseteq> set new"
    by (elim exE conjE) (rule that; assumption)
  then show ?thesis by (intro exI [of _ new] exI [of _ t'] exI [of _ g'] conjI) simp_all
qed

theorem marking_reaches_dependents_witness:
  "\<exists>vs t' g'. markTransitive [] 0 None example_graph = Some (vs, t', g') \<and> Marked g' = Marked example_graph \<union> reach example_graph 0 \<and>
    reach example_graph 0 - Marked example_graph - {0} \<subseteq> set vs \<and> Provides g' = Provides example_graph \<and>
    dependents g' = dependents example_graph"
  by (rule marking_reaches_dependents [OF example_run]) (simp add: example_graph)

text \<open>
  C9. What is rebuilt. When nothing has been marked or traversed, \<open>markTransitive\<close>
  marks the reachable nodes and reports, each once, exactly the nodes other than the start at the
  end of an edge from a reachable node: dependents by a private use are reported but not marked
  through.
\<close>

theorem visited_of_untouched:
  assumes "wf_graph g" "n \<in> dom (Provides g)" "Marked g = {}" "traversed g = (\<lambda>s. 0)"
  shows "\<exists>vs t' g'. markTransitive [] n t g = Some (vs, t', g') \<and> distinct vs \<and> Marked g' = reach g n \<and>
    set vs = {v. v \<noteq> n \<and> (\<exists>m \<in> reach g n. \<exists>c. edge g m v c)}"
  using assms by (rule untouched_visited)

theorem visited_of_untouched_witness:
  "\<exists>vs t' g'. markTransitive [] 0 None example_graph = Some (vs, t', g') \<and> distinct vs \<and> Marked g' = reach example_graph 0 \<and>
    set vs = {v. v \<noteq> 0 \<and> (\<exists>m \<in> reach example_graph 0. \<exists>c. edge example_graph m v c)}"
  by (rule visited_of_untouched [OF example_wf(1) _ example_fresh(2,1)]) (simp add: example_graph)

text \<open>
  C10. Invariant of the graph. In every graph of \<open>graph_run\<close>, marked nodes and
  dependents are nodes of the graph and no node provides an external file
  (\<open>wf_graph\<close>); and a node with a cascading dependency on a name traversed for that
  kind, the kind of external files apart, is marked (\<open>consistent\<close>), so that skipping
  traversed names loses nothing. A load of an unmarked node after names were traversed keeps this
  only when marking from the node follows, or when it answers \<open>UpToDate\<close> and the node
  uses each name in one kind.
\<close>

theorem graph_run_invariant: "graph_run g \<Longrightarrow> wf_graph g \<and> consistent g"
  by (rule run_wf_consistent)

theorem graph_run_invariant_witness: "wf_graph example_graph \<and> consistent example_graph"
  by (rule graph_run_invariant [OF example_run])

text \<open>
  C11. The tracer. In every graph of \<open>graph_run\<close>, the table of the tracer holds for
  each reported node a reason that leads from the marked node to it: each entry names a node, a
  name it provides and the kinds in which the next node depends on it, and all steps but the last
  one cascade.
\<close>

theorem trace_explains_visits:
  assumes "graph_run g" "n \<in> dom (Provides g)"
  shows "\<exists>vs u g'. markTransitive [] n (Some t) g = Some (vs, Some u, g') \<and>
    (\<forall>v \<in> set vs. v \<notin> Marked g \<and> v \<noteq> n \<and> (\<exists>r c. Table u v = Some r \<and> explains g n r v c))"
proof -
  have inv: "wf_graph g" "consistent_but n g" using run_wf_consistent [OF assms(1)] consistent_but_any [of g n] by simp_all
  from mark_transitive_marks [OF inv assms(2), of "[]" "Some t"] obtain new t' g' where
    "markTransitive [] n (Some t) g = Some ([] @ new, t', g')" "t' = None \<longleftrightarrow> Some t = None"
    "\<forall>v \<in> set new. v \<notin> Marked g \<and> v \<noteq> n \<and> (\<exists>m \<in> reach g n. \<exists>c. edge g m v c)"
    "\<forall>u. t' = Some u \<longrightarrow> (\<forall>v \<in> set new. \<exists>r c. Table u v = Some r \<and> explains g n r v c)"
    by (elim exE conjE) (rule that; assumption)
  then show ?thesis by auto
qed

theorem trace_explains_visits_witness:
  "\<exists>vs u g'. markTransitive [] 0 (Some \<lparr>Table = Map.empty, Stats = None\<rparr>) example_graph = Some (vs, Some u, g') \<and>
    (\<forall>v \<in> set vs. v \<notin> Marked example_graph \<and> v \<noteq> 0 \<and> (\<exists>r c. Table u v = Some r \<and> explains example_graph 0 r v c))"
  by (rule trace_explains_visits [OF example_run]) (simp add: example_graph)

text \<open>
  C12. External dependencies. When all who depend on an external file do so with a cascading
  dependency, \<open>markExternal\<close> returns. It marks exactly what the unmarked ones among
  them reach, though it marks from one after the other and skips those that are marked by then;
  every newly marked node is reported.
\<close>

theorem external_marks_dependents:
  assumes "graph_run g" "s \<in> dom (Dependencies g)"
    "\<forall>e \<in> set (dependents g s). contains (entry_kinds e) (kind_bit ExternalFile) \<longrightarrow> cascading e"
  shows "\<exists>new g'. markExternal vs s g = Some (vs @ new, g') \<and>
    Marked g' = Marked g \<union> (\<Union>n \<in> external_roots (dependents g s) g. reach g n) \<and> Marked g' - Marked g \<subseteq> set new"
proof -
  have "wf_graph g" "consistent g" using run_wf_consistent [OF assms(1)] by blast+
  from mark_external [OF this assms(2), of vs] assms(3) show ?thesis unfolding marks_from_def by blast
qed

theorem external_marks_dependents_witness:
  "\<exists>new g'. markExternal [] ''f'' example_graph = Some ([] @ new, g') \<and>
    Marked g' = Marked example_graph \<union> (\<Union>n \<in> external_roots (dependents example_graph ''f'') example_graph. reach example_graph n) \<and>
    Marked g' - Marked example_graph \<subseteq> set new"
  by (rule external_marks_dependents [OF example_run])
    (simp_all add: example_graph dependents_def entries_of_def cascading_def IsCascading_def)

text \<open>
  C13. The first load. Before anything is traversed, loading the file of a node without a recorded
  hash does not answer \<open>AffectsDownstream\<close>, for every document with at most one
  \<open>interface-hash\<close>; the driver calls \<open>llvm_unreachable\<close> on that answer
  (\<open>Compilation.cpp\<close>).
\<close>

theorem first_load_does_not_affect:
  assumes "loadFromBuffer n root g = Some (r, g')" "traversed g = (\<lambda>s. 0)" "InterfaceHashes g n = None"
    "\<And>kvs. root = Some (MappingNode kvs) \<Longrightarrow> length (filter hash_key kvs) \<le> 1"
  shows "r \<noteq> AffectsDownstream"
  using assms by (rule first_load_quiet)

theorem first_load_does_not_affect_witness:
  "\<exists>r g'. loadFromBuffer 4 (Some hashed_file) example_graph = Some (r, g') \<and> InterfaceHashes g' 4 = Some ''h'' \<and>
    r \<noteq> AffectsDownstream"
proof -
  obtain r g' where l: "loadFromBuffer 4 (Some hashed_file) example_graph = Some (r, g')" "InterfaceHashes g' 4 = Some ''h''"
    using hashed_load by blast
  have "r \<noteq> AffectsDownstream"
    using first_load_does_not_affect [OF l(1) example_fresh(1)] by (simp add: example_graph hashed_file_def names_def hash_key_def)
  with l show ?thesis by blast
qed

section \<open>Layout and enum cases in the runtime\<close>

text \<open>
  C14. Enums with one payload case, such as optionals: in memory of the size that the runtime lays
  out, storing any case does not crash, stays inside the value, and the case is read back: as an
  extra inhabitant of the payload, or by tag bytes after it. The payload case (-1) keeps the
  payload. The payload type is any that reads back its own extra inhabitants, as object pointers
  do.
\<close>

theorem single_payload_roundtrip:
  assumes "payload_inhabitants W" "unat (tl_size (witness_layout W)) + 4 < 2 ^ 64" "unat emptyCases < 2 ^ 31"
    "length mem = unat (tl_size (swift_initEnumMetadataSinglePayload alignTo (witness_layout W) emptyCases vwt))"
    "-1 \<le> c" "c < int (unat emptyCases)"
    "c = -1 \<and> 0 < getNumExtraInhabitants (witness_layout W) \<longrightarrow> getExtraInhabitantIndex W mem = -1"
  shows "\<exists>mem'. swift_storeEnumTagSinglePayload mem W c emptyCases = Some mem' \<and> length mem' = length mem \<and>
    swift_getEnumCaseSinglePayload mem' W emptyCases = Some c \<and>
    (c = -1 \<longrightarrow> take (unat (tl_size (witness_layout W))) mem' = take (unat (tl_size (witness_layout W))) mem)"
proof -
  have "length mem = unat (tl_size (witness_layout W)) +
      extra_tag_bytes (unat (tl_size (witness_layout W))) (unat (getNumExtraInhabitants (witness_layout W))) (unat emptyCases)"
    unfolding assms(4) by (rule single_payload_layout(1) [OF refl refl refl assms(2,3)])
  then show ?thesis
    by (intro payload_inhabitants.stored_case_is_read [OF assms(1) refl refl assms(5,6,3)])
      (use assms(7) in \<open>simp_all add: word_greater_zero_iff unat_gt_0\<close>)
qed

theorem single_payload_roundtrip_witness:
  "\<exists>mem'. swift_storeEnumTagSinglePayload (replicate 8 0xff) (heap_object_witnesses darwin_x86_64) 5 8 = Some mem' \<and>
    swift_getEnumCaseSinglePayload mem' (heap_object_witnesses darwin_x86_64) 8 = Some 5"
proof -
  let ?W = "heap_object_witnesses darwin_x86_64" and ?mem = "replicate 8 (0xff :: 8 word)"
  have "unat (getNumExtraInhabitants (witness_layout ?W)) = 0x7FFFFFFF"
    by (simp add: heap_layout heap_count darwin_x86_64_def)
  then have "length ?mem = unat (tl_size (swift_initEnumMetadataSinglePayload alignTo (witness_layout ?W) 8 vwt))" for alignTo vwt
    using single_payload_layout(1) [OF refl heap_layout(1) refl, of 8 alignTo darwin_x86_64 vwt] by (simp add: extra_tag_bytes_def)
  from single_payload_roundtrip [OF darwin_objects.payload_inhabitants_axioms _ _ this, of 5] show ?thesis
    by (auto simp: heap_layout)
qed

text \<open>
  C15. Enums with several payload cases, in memory of the size that the runtime lays out: storing
  a case does not crash, and payload cases keep the payload. The case that is read back is given
  by \<open>read_back\<close>: for payloads of less than four bytes the value of an empty case
  loses its bits above the number of payload cases, as the mask is made from that number and not
  from the number of payload bits.
\<close>

theorem multi_payload_case:
  assumes "enumType = swift_initEnumMetadataMultiPayload numPayloads payloadLayouts declared"
    "numPayloads = NumPayloadCases declared" "2 \<le> unat numPayloads" "unat numPayloads + unat (NumEmptyCases declared) + 2 ^ 24 < 2 ^ 32"
    "P = unat (em_payloadSize enumType)" "P + 4 < 2 ^ 32" "P < 4 \<longrightarrow> unat numPayloads < 32"
    "unat c < unat numPayloads + unat (NumEmptyCases declared)" "length mem = unat (tl_size (em_witnesses enumType))"
  shows "\<exists>mem'. swift_storeEnumTagMultiPayload mem enumType c = Some mem' \<and> length mem' = length mem \<and>
    (c < numPayloads \<longrightarrow> take P mem' = take P mem) \<and>
    map_option unat (swift_getEnumCaseMultiPayload mem' enumType) = Some (read_back P (unat numPayloads) (unat c)) \<and>
    (8 * P \<le> unat numPayloads \<longrightarrow> swift_getEnumCaseMultiPayload mem' enumType = Some c)"
proof -
  note L = multi_payload_layout [OF assms(1) _ assms(4)]
  have P: "unat (em_payloadSize enumType) + 4 < 2 ^ 32" using assms(5,6) by simp
  have len: "P + bytes_for (tag_count P (unat (NumEmptyCases declared)) (unat numPayloads)) \<le> length mem"
    using L(4) [OF P] assms(5,9) by simp
  obtain mem' where m: "swift_storeEnumTagMultiPayload mem enumType c = Some mem'" "length mem' = length mem"
    "unat c < unat numPayloads \<longrightarrow> take P mem' = take P mem"
    "map_option unat (swift_getEnumCaseMultiPayload mem' enumType) = Some (read_back P (unat numPayloads) (unat c))"
    using multi_payload_read_back [of enumType P "unat numPayloads" "unat (NumEmptyCases declared)" _ c mem]
      L [OF P] assms(2,3,4,5,7,8) len by auto
  have "read_back P (unat numPayloads) (unat c) = unat c" if "8 * P \<le> unat numPayloads"
    by (rule read_back_exact [OF that])
  then have "8 * P \<le> unat numPayloads \<longrightarrow> swift_getEnumCaseMultiPayload mem' enumType = Some c"
    using m(4) by (auto simp: word_unat_eq_iff)
  then show ?thesis using m by (auto simp: word_less_nat_alt)
qed

text \<open>An enum with two payloads of one byte and five empty cases: the last one is read as the first one.\<close>

theorem multi_payload_case_witness:
  "\<exists>E mem'. NumEmptyCases E = 5 \<and> NumPayloadCases E = 2 \<and> em_payloadSize E = 1 \<and>
    swift_storeEnumTagMultiPayload [0, 0] E 6 = Some mem' \<and> map_option unat (swift_getEnumCaseMultiPayload mem' E) = Some 2"
proof -
  let ?byte = "\<lparr>tl_size = 1, tl_flags = 0, tl_stride = 1, extraInhabitantFlags = 0\<rparr>"
  let ?declared = "\<lparr>em_payloadSize = 0, NumPayloadCases = 2, NumEmptyCases = 5, em_witnesses = ?byte\<rparr>"
  define E where "E = swift_initEnumMetadataMultiPayload 2 [?byte, ?byte] ?declared"
  have "em_payloadSize E = 1" "tl_size (em_witnesses E) = 2"
    by (simp_all add: E_def swift_initEnumMetadataMultiPayload_def getNumTagBytes_def Let_def word_le_nat_alt)
  then obtain mem' where "swift_storeEnumTagMultiPayload [0, 0] E 6 = Some mem'"
    "map_option unat (swift_getEnumCaseMultiPayload mem' E) = Some (read_back 1 2 6)"
    using multi_payload_case [OF E_def, of 1 6 "[0, 0]"] by auto
  moreover have "read_back 1 2 6 = 2" by (simp add: read_back_def)
  moreover have "NumEmptyCases E = 5" "NumPayloadCases E = 2"
    by (simp_all add: E_def swift_initEnumMetadataMultiPayload_def Let_def)
  ultimately show ?thesis using \<open>em_payloadSize E = 1\<close> by metis
qed

text \<open>
  C16. Struct layout: on 64-bit words without overflow, \<open>swift_initStructMetadata\<close>
  computes the offsets and the size of the abstract sequential layout, in which every field is
  aligned, fields do not overlap and all lie within the size; the alignment is the largest of the
  fields, the stride the size rounded up to it, and the extra inhabitants are those of the first
  field.
\<close>

theorem struct_layout:
  assumes "Ls \<noteq> []" "\<forall>L \<in> set Ls. power_aligned L" "seq_layout 0 (map shape Ls) = (offsets, z)" "z + 65536 \<le> 2 ^ 64"
  shows "\<exists>ws V. swift_initStructMetadata Ls vwt = Some (ws, V) \<and> map unat ws = offsets \<and> unat (tl_size V) = z \<and>
    well_placed 0 (map shape Ls) offsets z \<and> alignment_of V = max_alignment (map shape Ls) \<and>
    unat (tl_stride V) = stride_of z (alignment_of V) \<and> getNumExtraInhabitants V = getNumExtraInhabitants (hd Ls)"
proof -
  have "well_placed 0 (map shape Ls) offsets z"
    by (rule seq_layout_well_placed [OF _ assms(3)]) (auto simp: shape_def alignment_of_def)
  then show ?thesis using struct_metadata_layout [OF assms, of vwt] by auto
qed

theorem struct_layout_witness:
  "\<exists>ws V. swift_initStructMetadata [\<lparr>tl_size = 1, tl_flags = 0, tl_stride = 1, extraInhabitantFlags = 0\<rparr>,
      \<lparr>tl_size = 8, tl_flags = 7, tl_stride = 8, extraInhabitantFlags = 0\<rparr>]
      \<lparr>tl_size = 0, tl_flags = 0, tl_stride = 0, extraInhabitantFlags = 0\<rparr> = Some (ws, V) \<and>
    map unat ws = [0, 8] \<and> unat (tl_size V) = 16"
proof -
  let ?Ls = "[\<lparr>tl_size = 1, tl_flags = 0, tl_stride = 1, extraInhabitantFlags = 0\<rparr>,
    \<lparr>tl_size = 8, tl_flags = 7, tl_stride = 8, extraInhabitantFlags = 0\<rparr>]"
  let ?vwt = "\<lparr>tl_size = 0, tl_flags = 0, tl_stride = 0, extraInhabitantFlags = 0\<rparr>"
  have s: "map shape ?Ls = [(1, 1), (8, 8)]"
    by (simp add: shape_def alignment_of_def getAlignmentMask_def AlignmentMask_def)
  then have "seq_layout 0 (map shape ?Ls) = ([0, 8], 16)" by (simp add: round_up_def)
  moreover have "\<forall>L \<in> set ?Ls. power_aligned L"
    by (auto simp: power_aligned_def alignment_of_def getAlignmentMask_def AlignmentMask_def intro: exI [of _ 0] exI [of _ 3])
  ultimately show ?thesis using struct_layout [of ?Ls "[0, 8]" 16 ?vwt] by auto
qed

section \<open>Type lowering in the reflection library\<close>



text \<open>
  C18. Reflection and runtime: two pieces of code lay out structs,
  \<open>RecordTypeInfoBuilder\<close> from descriptors on 32-bit numbers and
  \<open>swift_initStructMetadata\<close> from value witness tables with masks. When
  \<open>getTypeInfo\<close> answers with a record of at least one field for a type with the
  descriptor of a struct, and the runtime has for every field a layout of the same size, alignment
  (a power of two) and extra inhabitants, then the runtime computes the same offsets, size,
  alignment, stride and extra inhabitants, unless the size nears the limit of 32 bits.
\<close>

theorem reflected_structs_agree:
  assumes "converter_run n Infos tc" "getTypeInfo f n Infos TR tc = Some (Some (RecordTypeInfo info kind Fields), tc')"
    "nominal_name TR \<noteq> None" "getFieldTypeInfo Infos TR = Some (Some FD)" "fd_kind FD = StructKind" "Fields \<noteq> []"
    "list_all2 agrees Ls (map FieldTI Fields)" "\<forall>L \<in> set Ls. power_aligned L" "snd (seq_layout 0 (map shape Ls)) + 65536 < 2 ^ 32"
  shows "\<exists>ws V. swift_initStructMetadata Ls vwt = Some (ws, V) \<and> map unat ws = map (unat \<circ> FieldOffset) Fields \<and>
    agrees V (RecordTypeInfo info kind Fields) \<and> unat (tl_stride V) = unat (Stride info)"
  using assms by (rule struct_agreement)

theorem reflected_structs_agree_witness:
  "\<exists>ws V. swift_initStructMetadata [\<lparr>tl_size = 1, tl_flags = 0, tl_stride = 1, extraInhabitantFlags = 0\<rparr>,
      \<lparr>tl_size = 4, tl_flags = 3, tl_stride = 4, extraInhabitantFlags = 0\<rparr>]
      \<lparr>tl_size = 0, tl_flags = 0, tl_stride = 0, extraInhabitantFlags = 0\<rparr> = Some (ws, V) \<and>
    map unat ws = [0, 4] \<and> agrees V struct_info \<and> unat (tl_stride V) = 8"
proof -
  let ?Ls = "[\<lparr>tl_size = 1, tl_flags = 0, tl_stride = 1, extraInhabitantFlags = 0\<rparr>,
    \<lparr>tl_size = 4, tl_flags = 3, tl_stride = 4, extraInhabitantFlags = 0\<rparr>]"
  obtain tc' where t: "getTypeInfo 2 1 [struct_image] struct_ref new_converter = Some (Some struct_info, tc')"
    using struct_lowered by blast
  have s: "map shape ?Ls = [(1, 1), (4, 4)]"
    by (simp add: shape_def alignment_of_def getAlignmentMask_def AlignmentMask_def)
  have "list_all2 agrees ?Ls (map FieldTI (case struct_info of RecordTypeInfo info kind Fields \<Rightarrow> Fields | _ \<Rightarrow> []))"
    by (simp add: struct_info_def agrees_def shape_def alignment_of_def info_shape_def getSize_def getInfoAlignment_def
      getInfoExtraInhabitants_def getNumExtraInhabitants_def hasExtraInhabitants_def HasExtraInhabitants_def getAlignmentMask_def AlignmentMask_def)
  moreover have "\<forall>L \<in> set ?Ls. power_aligned L"
    by (auto simp: power_aligned_def alignment_of_def getAlignmentMask_def AlignmentMask_def intro: exI [of _ 0] exI [of _ 2])
  moreover have "snd (seq_layout 0 (map shape ?Ls)) + 65536 < 2 ^ 32" unfolding s by (simp add: round_up_def)
  moreover have "fd_kind (hd (FieldSection struct_image)) = StructKind" by (simp add: struct_image_def)
  ultimately show ?thesis
    using reflected_structs_agree [OF converter_new t [unfolded struct_info_def] _ struct_found, of ?Ls] unfolding struct_info_def by auto
qed

section \<open>The older scheme and the context\<close>

text \<open>
  C19. The demangler of the older scheme returns on every name: no loop runs forever and the
  nested calls end within the fuel. A tree that it returns is a \<open>Global\<close> node with
  children; then the name starts with \<open>_T\<close> and something of it has been read.
\<close>

theorem old_demangler_returns:
  "case demangleOldSymbolAsNode name of
     Diverged \<Rightarrow> False
   | Got n d \<Rightarrow> getKind n = K_Global \<and> children n \<noteq> [] \<and> take 2 name = ''_T'' \<and> length (Mangled d) < length name
   | _ \<Rightarrow> True"
proof (cases "demangleOldSymbolAsNode name")
  case (Got n d)
  with demangleOldSymbol_okay [of name] have "getKind n = K_Global \<and> children n \<noteq> [] \<and> length (Mangled d) < length name"
    by (simp add: old_root_def getNumChildren_def)
  moreover have "take 2 name = ''_T''" using demangleOldSymbol_prefix [of name] Got by auto
  ultimately show ?thesis by (simp add: Got)
qed (use demangleOldSymbol_okay [of name] in simp_all)

text \<open>
  C20. The loop over the parameter counts of a generic signature looks at the next character
  without a test for the end, so every name \<open>_Ttu\<close> followed by any number of
  \<open>z\<close> is read past its end.
\<close>

theorem old_signature_reads_past_end:
  "demangleOldSymbolAsNode (''_Ttu'' @ replicate n (CHR ''z'')) = Trap"
  by (rule signature_symbol_trap)

text \<open>
  C21. The trees of a context: with either scheme, a tree that \<open>demangleSymbolAsNode\<close>
  returns is a \<open>Global\<close> node with at least one child. The guards on the root in
  \<open>isThunkSymbol\<close> and \<open>hasSwiftCallingConvention\<close> never fire.
\<close>

theorem context_returns_global:
  assumes "Context_demangleSymbolAsNode name d = Some (Some n, d')"
  shows "getKind n = K_Global \<and> getNumChildren n \<noteq> 0"
  using assms by (rule context_symbol_root)

theorem context_returns_global_witness:
  "\<exists>s n d'. Context_demangleSymbolAsNode s new_demangler = Some (Some n, d') \<and> getKind n = K_Global \<and> getNumChildren n \<noteq> 0"
proof -
  obtain s d' where "Context_demangleSymbolAsNode s new_demangler = Some (Some example_global, d')"
    using example_global_written by blast
  from context_returns_global [OF this] this show ?thesis by blast
qed

text \<open>
  C22. The target of a thunk: when \<open>mangleNode\<close> writes \<open>t\<close> for a symbol
  and \<open>s\<close> for the same symbol with \<open>@objc\<close> or \<open>@nonobjc\<close> in
  front, \<open>getThunkTarget\<close> of \<open>s\<close> is \<open>t\<close>.
\<close>

theorem thunk_target_of_objc:
  assumes "attributes (Node k NoPayload [] # as)" "item c x" "size c < 2147483648" "k \<in> {K_ObjCAttribute, K_NonObjCAttribute}"
    "mangleNode (Some (Node K_Global NoPayload (as @ [c]))) = Some t"
    "mangleNode (Some (Node K_Global NoPayload ((Node k NoPayload [] # as) @ [c]))) = Some s"
  shows "\<exists>d'. Context_getThunkTarget s d = Some (t, d')"
  using assms by (rule thunk_target)

theorem thunk_target_of_objc_witness:
  "\<exists>s t d'. mangleNode (Some (Node K_Global NoPayload [example_function])) = Some t \<and>
    mangleNode (Some example_global) = Some s \<and> Context_getThunkTarget s new_demangler = Some (t, d')"
proof -
  obtain t where t: "mangleNode (Some (Node K_Global NoPayload ([] @ [example_function]))) = Some t"
    using symbol_name_roundtrip [OF _ example_item example_function_size, of "[]"] by auto
  obtain s where s: "mangleNode (Some (Node K_Global NoPayload ((Node K_ObjCAttribute NoPayload [] # []) @ [example_function]))) = Some s"
    using symbol_name_roundtrip [OF example_attributes example_item example_function_size] by auto
  from thunk_target_of_objc [OF _ example_item example_function_size _ t s, of new_demangler] example_attributes s t
  show ?thesis by (auto simp: example_global_def)
qed

section \<open>Type references\<close>

text \<open>
  C23. From the name to the type reference: for every type of the forms the decoder knows
  (\<open>reflectable\<close>: no labelled variadic tuple elements, no types nested in extensions
  or local contexts), \<open>mangleNode\<close> writes a name that \<open>demangleType\<close> and
  \<open>decodeMangledType\<close> turn into a type reference: no assertion fails and the result
  is not null. On the way the decoder strips generic arguments and calls the remangler for the
  names of declarations.
\<close>

theorem type_references_of_names:
  assumes "is_type nd" "reflectable nd" "size nd < 2147483648"
  shows "\<exists>s t. mangleNode (Some (Ty nd)) = Some s \<and> type_of_name s = Some (Some t)"
  using assms by (rule written_type_reference)

theorem type_references_of_names_witness:
  "\<exists>s t. mangleNode (Some (Ty example_type)) = Some s \<and> type_of_name s = Some (Some t)"
  by (rule type_references_of_names) (fact example_is_type example_reflectable example_sizes)+

text \<open>
  C24. Names in type references: the reference decoded from a nominal or bound generic type holds
  a name that demangles to the declaration without generic arguments, and \<open>isStruct\<close>,
  \<open>isEnum\<close> and \<open>isClass\<close> of that name tell the kind of the type.
\<close>

theorem reference_declares:
  assumes "reflectable nd" "size nd < 2147483648" "getKind nd \<in> reference_kinds \<or> is_bound_generic (getKind nd)"
  shows "\<exists>t name d'. decodeMangledType type_ref_builder (Some nd) = Some (Some t) \<and> nominal_name t = Some name \<and>
    demangleType name new_demangler = Some (Some (Ty (stripGenericArgsFromContextNode nd)), d') \<and>
    isStruct name = Some (getKind nd \<in> {K_Structure, K_BoundGenericStructure}) \<and>
    isEnum name = Some (getKind nd \<in> {K_Enum, K_BoundGenericEnum}) \<and>
    isClass name = Some (getKind nd \<in> {K_Class, K_BoundGenericClass})"
  using assms by (rule decoded_names)

theorem reference_declares_witness:
  "\<exists>t name. decodeMangledType type_ref_builder (Some example_array) = Some (Some t) \<and> nominal_name t = Some name \<and>
    isStruct name = Some True"
proof -
  have k: "getKind example_array = K_BoundGenericStructure" by (simp add: example_array_def)
  then have "getKind example_array \<in> reference_kinds \<or> is_bound_generic (getKind example_array)"
    by (simp add: is_bound_generic_def)
  from reference_declares [OF example_reflectable(2) example_sizes(2) this] k show ?thesis by auto
qed

text \<open>
  C25. Two pieces of code remove the generic arguments of a type:
  \<open>stripGenericArgsFromContextNode\<close> of the decoder and
  \<open>getUnspecialized\<close> of the remangler. For a nominal type with arguments at some
  level of nesting, and no extension among its contexts, they give the same tree.
\<close>

theorem strip_equals_unspecialized:
  assumes "chain nd u ls" "extension_free nd" "\<exists>ts \<in> set ls. ts \<noteq> []"
  shows "getUnspecialized nd = Some (stripGenericArgsFromContextNode nd)"
  using assms by (rule strip_getUnspecialized)

theorem strip_equals_unspecialized_witness:
  "getUnspecialized example_array = Some (stripGenericArgsFromContextNode example_array)"
proof -
  obtain u ls where "chain example_array u ls" "\<exists>ts \<in> set ls. ts \<noteq> []"
    using example_chain by blast
  then show ?thesis
    using strip_equals_unspecialized reflectable_extension_free [OF example_reflectable(2)] by blast
qed

text \<open>
  C26. Deriving substitutions is sound: when it succeeds on an original type without associated
  types, the map it leaves, and every larger map, instantiates the original to the substituted
  type, except for variadic flags, parameter labels and flags, function flags and the
  representation of metatypes, which are not compared.
\<close>

theorem derived_substitutions_sound:
  assumes "deriveSubstitutions Subs O1 S = (True, Subs')" "independent O1" "Subs' \<subseteq>\<^sub>m Inst"
  shows "outline (instantiate Inst O1) = outline S"
  using assms by (rule derive_sound)

theorem derived_substitutions_sound_witness:
  "outline (instantiate [(0, 0) \<mapsto> BuiltinTypeRef ''Bi64_''] (TupleTypeRef [GenericTypeParameterTypeRef 0 0] False)) =
    outline (TupleTypeRef [BuiltinTypeRef ''Bi64_''] True)"
  by (rule derived_substitutions_sound [of Map.empty _ _ "[(0, 0) \<mapsto> BuiltinTypeRef ''Bi64_'']"]) simp_all



text \<open>
  C28. What \<open>isConcreteAfterSubstitutions\<close> promises: for concrete arguments and a
  type of the supported forms, when it holds then \<open>subst\<close> returns, without a failed
  assertion, and its result is concrete.
\<close>

theorem subst_makes_concrete:
  assumes "\<And>k t. Subs k = Some t \<Longrightarrow> isConcrete t" "substitutable t" "isConcreteAfterSubstitutions Subs t"
  shows "\<exists>t'. subst (Suc n) Infos Subs t = Some t' \<and> isConcrete t'"
  using assms by (rule subst_concrete)

theorem subst_makes_concrete_witness:
  "\<exists>t'. subst 1 [] [(0, 0) \<mapsto> BuiltinTypeRef ''Bi64_''] (WeakStorageTypeRef (GenericTypeParameterTypeRef 0 0)) = Some t' \<and> isConcrete t'"
  using subst_makes_concrete [of "[(0, 0) \<mapsto> BuiltinTypeRef ''Bi64_'']" "WeakStorageTypeRef (GenericTypeParameterTypeRef 0 0)" 0 "[]"]
  by (auto split: if_splits)

section \<open>Lookups of the reflection library\<close>

text \<open>
  C29. The cache of associated types is transparent: a session that interleaves lookups with the
  loading of further images, started with an empty cache, gives the answers of the search through
  all sections, when different queries of the session have different keys.
\<close>

theorem cached_lookups:
  assumes "AssociatedTypeCache B = Map.empty" "inj_on key_of {q. Look q \<in> set rs}"
  shows "requests rs B = plain_requests rs (ReflectionInfos B)"
proof (rule requests_plain)
  show "cache_found {q. Look q \<in> set rs} B" using assms(1) by (simp add: cache_found_def)
qed (use assms(2) in simp_all)

theorem cached_lookups_witness:
  "requests [Look (''4main1CC'', ''Element'', ''s8SequenceP''), Load example_image, Look (''4main1CC'', ''Element'', ''s8SequenceP'')] empty_builder =
    plain_requests [Look (''4main1CC'', ''Element'', ''s8SequenceP''), Load example_image, Look (''4main1CC'', ''Element'', ''s8SequenceP'')] []"
  using cached_lookups [of empty_builder "[Look (''4main1CC'', ''Element'', ''s8SequenceP''), Load example_image,
    Look (''4main1CC'', ''Element'', ''s8SequenceP'')]"] by (simp add: empty_builder_def)

text \<open>
  C30. The strings of a key are not delimited: after the lookup of member \<open>c\<close> of type
  \<open>ab\<close> has found a witness, the lookup of member \<open>bc\<close> of type
  \<open>a\<close> in the same protocol returns the same witness, when the lengths of
  \<open>a\<close> and \<open>b\<close> are multiples of four.
\<close>

theorem cache_confuses_queries:
  assumes "4 dvd length a" "4 dvd length b" "a \<noteq> []" "b \<noteq> []" "c \<noteq> []"
    "find_witness (associated_types (ReflectionInfos B)) (a @ b) c P = Some (Some s)" "type_of_name s = Some w"
    "AssociatedTypeCache B = Map.empty"
  shows "\<exists>B'. lookupTypeWitness (a @ b) c P B = Some (w, B') \<and> lookupTypeWitness a (b @ c) P B' = Some (w, B')"
  using assms(6-8) keys_collide [OF assms(1-5), of P] by (simp add: lookupTypeWitness_def)

theorem cache_confuses_queries_witness:
  "\<exists>s w B'. lookupTypeWitness (''1A1B'' @ ''1C1D'') ''E'' ''1M1PP'' (addReflectionInfo (confusing_image s) empty_builder) = Some (w, B') \<and>
    lookupTypeWitness ''1A1B'' (''1C1D'' @ ''E'') ''1M1PP'' B' = Some (w, B')"
proof -
  obtain s w where w: "type_of_name s = Some w"
    using written_type_reference [OF example_is_class example_reflectable(1) example_sizes(1)] by blast
  have "find_witness (associated_types (ReflectionInfos (addReflectionInfo (confusing_image s) empty_builder)))
      (''1A1B'' @ ''1C1D'') ''E'' ''1M1PP'' = Some (Some s)"
    by (simp add: associated_types_def addReflectionInfo_def confusing_image_def empty_builder_def reflectionNameMatches_def
      dropSwiftManglingPrefix_def getManglingPrefixLength_def)
  from cache_confuses_queries [OF _ _ _ _ _ this w] obtain B' where
    "lookupTypeWitness (''1A1B'' @ ''1C1D'') ''E'' ''1M1PP'' (addReflectionInfo (confusing_image s) empty_builder) = Some (w, B')"
    "lookupTypeWitness ''1A1B'' (''1C1D'' @ ''E'') ''1M1PP'' B' = Some (w, B')"
    by (auto simp: addReflectionInfo_def empty_builder_def four_dvd)
  then show ?thesis by blast
qed

text \<open>
  C31. Sources of metadata: the reflection library decodes what the compiler has encoded, for all
  indices of 32 bits and every nesting; but every source that ends in the witness table of
  \<open>Self\<close> is decoded to null, because the decoder does not know its letter.
\<close>

theorem metadata_source_roundtrip:
  assumes "source_ok m \<or> innermost m = SelfWitnessTable"
  shows "decode_source (encode_source m) = (if innermost m = SelfWitnessTable then None else Some m)"
proof -
  have "source_ok m \<Longrightarrow> innermost m \<noteq> SelfWitnessTable" by (induction m) simp_all
  then show ?thesis using assms decode_encode [of m] decode_witness_table [of m] by auto
qed

theorem metadata_source_roundtrip_witness:
  "decode_source (encode_source (GenericArgument 1 (ClosureBinding 0))) = Some (GenericArgument 1 (ClosureBinding 0))"
  using metadata_source_roundtrip [of "GenericArgument 1 (ClosureBinding 0)"] by simp

text \<open>
  C32. Flags of function types: number of parameters, convention, throws and parameter flags are
  read back as they were stored for up to 65535 parameters. The number is not masked when it is
  stored, so 65536 parameters turn a Swift function into a block.
\<close>

theorem function_flags_roundtrip:
  assumes "n < 65536"
  shows "getNumParameters (flags_of c throws n h) = n \<and> getConvention (flags_of c throws n h) = convention_value c \<and>
    flags_throws (flags_of c throws n h) = throws \<and> hasParameterFlags (flags_of c throws n h) = h \<and>
    getConvention (withNumParameters 65536 0) = convention_value Block"
  using read_flags [OF assms] too_many_parameters by simp

theorem function_flags_roundtrip_witness:
  "getNumParameters (flags_of Thin True 3 False) = 3"
  using function_flags_roundtrip [of 3 Thin True False] by simp

section \<open>Round trips of the remangler and the demangler\<close>

text \<open>
  C33. Identifiers with word substitutions: when the words that the mangler remembers (as
  positions in its buffer) are those that the demangler has collected,
  \<open>mangleIdentifier\<close> succeeds and appends a text from which
  \<open>demangleIdentifier\<close> reads the same identifier, whatever follows; afterwards the
  words agree again. This covers identifiers in plain form, with replaced words, and in Punycode.
\<close>

theorem identifier_word_roundtrip:
  assumes "UsePunycode M" "ident_ok ident" "stored (Buffer M) (MWords M) K" "length K \<le> 26"
  shows "\<exists>s ws K'. mangleIdentifier ident M = Some (M\<lparr>Buffer := Buffer M @ s, MWords := ws\<rparr>) \<and>
    stored (Buffer M @ s) ws K' \<and> length K' \<le> 26 \<and>
    (\<forall>d r. Words d = K \<and> rest d = s @ r \<longrightarrow> demangleIdentifier d = Some (Some (ident_node ident),
       addSubstitution (Some (ident_node ident)) (past (length s) K' d)))"
  using assms by (rule identifier_any)

theorem identifier_word_roundtrip_witness:
  "\<exists>s ws K'. mangleIdentifier ''viewController'' new_remangler =
      Some (new_remangler\<lparr>Buffer := Buffer new_remangler @ s, MWords := ws\<rparr>) \<and>
    stored (Buffer new_remangler @ s) ws K' \<and> length K' \<le> 26 \<and>
    (\<forall>d r. Words d = [] \<and> rest d = s @ r \<longrightarrow>
       demangleIdentifier d = Some (Some (ident_node ''viewController''),
         addSubstitution (Some (ident_node ''viewController'')) (past (length s) K' d)))"
proof (rule identifier_word_roundtrip)
  have "\<not> needsPunycodeEncoding ''viewController''" "\<not> isDigit (hd ''viewController'')" by code_simp+
  then show "ident_ok ''viewController''" by (simp add: ident_ok_def)
qed (simp_all add: new_remangler_def)

text \<open>
  C34. Sequences of identifiers, each free to use the words of the earlier ones: mangled one after
  the other into the buffer, they are read back by the parse loop, which pushes their nodes in
  order and enters them in the substitution table.
\<close>

theorem identifier_sequence_roundtrip:
  assumes "UsePunycode M" "\<forall>i \<in> set ids. ident_ok i" "stored (Buffer M) (MWords M) K" "length K \<le> 26"
  shows "\<exists>s ws K'. mangle_identifiers ids M = Some (M\<lparr>Buffer := Buffer M @ s, MWords := ws\<rparr>) \<and>
    stored (Buffer M @ s) ws K' \<and> length K' \<le> 26 \<and>
    (\<forall>d t. Words d = K \<and> rest d = s @ t \<longrightarrow>
       parseAndPushNodes d = parseAndPushNodes (read_idents ids (length s) K' d))"
  using assms by (rule identifiers_roundtrip)

theorem identifier_sequence_roundtrip_witness:
  "\<exists>s ws K'. mangle_identifiers [''viewController'', ''rootViewController''] new_remangler =
      Some (new_remangler\<lparr>Buffer := Buffer new_remangler @ s, MWords := ws\<rparr>) \<and>
    stored (Buffer new_remangler @ s) ws K' \<and> length K' \<le> 26 \<and>
    (\<forall>d t. Words d = [] \<and> rest d = s @ t \<longrightarrow> parseAndPushNodes d =
       parseAndPushNodes (read_idents [''viewController'', ''rootViewController''] (length s) K' d))"
proof (rule identifier_sequence_roundtrip)
  have "list_all (\<lambda>i. \<not> needsPunycodeEncoding i \<and> \<not> isDigit (hd i))
    [''viewController'', ''rootViewController'']" by code_simp
  then show "\<forall>i \<in> set [''viewController'', ''rootViewController'']. ident_ok i"
    by (simp add: ident_ok_def)
qed (simp_all add: new_remangler_def)

text \<open>
  C35. Substitutions: writing any sequence of table entries and standard types, merged where the
  code merges them (also past the limit of 2048 repetitions, and for indices from 26 on), never
  fails an assertion, and the parse loop reads the text as exactly these nodes, pushed in the same
  order.
\<close>

theorem substitution_sequence_roundtrip:
  assumes "\<forall>r \<in> set rs. valid_request r \<and> known_request entries r"
    and "lastNumSubsts (SubstMerging M) = 0 \<or> merge_end M < length (Buffer M)"
  shows "\<exists>M' s. emit_requests rs M = Some M' \<and> Buffer M' = Buffer M @ s \<and>
    (\<forall>d t. Substitutions d = entries \<and> rest d = s @ t \<longrightarrow>
       parseAndPushNodes d = parseAndPushNodes (push_all (requested entries rs) (skip (length s) d)))"
proof -
  from emit_requests_total [OF _ assms(2), of rs] assms(1) obtain M' s where
    "emit_requests rs M = Some M'" "Buffer M' = Buffer M @ s" by blast
  with substitutions_roundtrip [OF _ assms(2)] assms(1) show ?thesis by metis
qed

theorem substitution_sequence_roundtrip_witness:
  "\<exists>M' s. emit_requests [Entry 0, Entry 0, Entry 1, Standard (CHR ''i'')] new_remangler = Some M' \<and>
    Buffer M' = Buffer new_remangler @ s \<and>
    (\<forall>d t. Substitutions d = [ident_node ''a'', ident_node ''b''] \<and> rest d = s @ t \<longrightarrow>
       parseAndPushNodes d = parseAndPushNodes (push_all (requested [ident_node ''a'', ident_node ''b'']
         [Entry 0, Entry 0, Entry 1, Standard (CHR ''i'')]) (skip (length s) d)))"
proof (rule substitution_sequence_roundtrip)
  have "standard_letter (CHR ''i'')" by code_simp
  with standard_letter_facts [of "CHR ''i''"]
  show "\<forall>r \<in> set [Entry 0, Entry 0, Entry 1, Standard (CHR ''i'')]. valid_request r \<and>
      known_request [ident_node ''a'', ident_node ''b''] r"
    by (simp add: known_request_def)
qed (simp add: new_remangler_def new_merging_def)

text \<open>
  C36. Merging refines an abstract grouping: the edits that \<open>tryMergeSubst\<close> makes at
  the end of the buffer, guided by four remembered numbers, amount to extending the last group of
  a list of groups or opening a new one, and then printing the groups.
\<close>

theorem merging_refines_groups:
  assumes "\<forall>r \<in> set rs. valid_request r"
    and "lastNumSubsts (SubstMerging M) = 0 \<or> merge_end M < length (Buffer M)"
  shows "map_option Buffer (emit_requests rs M) = Some (Buffer M @ groups_text (foldl add_request [] rs))"
proof -
  have "writes (Buffer M) [] M" using assms(2) by (simp add: writes_def groups_text_def)
  from emit_requests_writes [OF this assms(1)] show ?thesis by (auto simp: writes_def)
qed

theorem merging_refines_groups_witness:
  "map_option Buffer (emit_requests [Entry 0, Entry 0, Entry 30] new_remangler) =
     Some (Buffer new_remangler @ groups_text (foldl add_request [] [Entry 0, Entry 0, Entry 30]))"
  by (rule merging_refines_groups) (simp_all add: new_remangler_def new_merging_def)

text \<open>
  C37. Termination of the remangler: the function computed with the size of the node as fuel
  satisfies the recursive equation of \<open>Remangler::mangle\<close>, the switch over all node
  kinds, for every node and state; more fuel never changes a result.
\<close>

theorem mangle_unfolds:
  "mangle nd M = mangle_dispatch mangle nd M \<and> mangle_fuel (size nd + k) nd M = mangle nd M"
  using mangle_recursion [of nd M] mangle_fuel_enough [of nd "size nd + k" "size nd" M]
  by (simp add: mangle_def)

section \<open>Punycode\<close>

text \<open>
  C38. Punycode round trip: for every short sequence of Unicode scalars the encoder returns true
  (it terminates and no assertion fails), and decoding its output gives back the same sequence.
\<close>

theorem punycode_roundtrip:
  assumes "punycodable cps"
  shows "\<exists>s. encodePunycode cps = Some (True, s) \<and> decodePunycode s = Some (True, cps)"
  using assms by (rule decode_encodePunycode)

theorem punycode_roundtrip_witness:
  "\<exists>s. encodePunycode [0xFC, 0x62, 0x4E2D] = Some (True, s)
     \<and> decodePunycode s = Some (True, [0xFC, 0x62, 0x4E2D])"
  by (rule punycode_roundtrip)
    (simp add: punycodable_def isValidUnicodeScalar_def short_def)

text \<open>
  C39. Identifiers in UTF-8: \<open>encodePunycodeUTF8\<close> followed by
  \<open>decodePunycodeUTF8\<close> is the identity on the UTF-8 form of every short text, with
  and without the mapping of characters that may not stand in a symbol.
\<close>

theorem punycode_utf8_roundtrip:
  assumes "\<forall>S \<in> set cps. text_scalar S" "punycodable (map (symbol_scalar b) cps)"
  shows "\<exists>p. encodePunycodeUTF8 (utf8 cps) b = Some (True, p) \<and>
    decodePunycodeUTF8 p = Some (True, utf8 cps)"
  using assms by (rule decode_encodePunycodeUTF8)

theorem punycode_utf8_roundtrip_witness:
  "\<exists>p. encodePunycodeUTF8 (utf8 [0x2B, 0xFC]) True = Some (True, p) \<and>
     decodePunycodeUTF8 p = Some (True, utf8 [0x2B, 0xFC])"
  by (rule punycode_utf8_roundtrip)
    (simp_all add: text_scalar_def punycodable_def isValidUnicodeScalar_def short_def
      symbol_scalar_def)

text \<open>
  C40. The encoder does not return when a scalar is beyond U+10FFFF and none is U+10FFFF itself:
  the search for the next code point starts from \<open>0x10FFFF\<close>, while
  \<open>isValidUnicodeScalar\<close> lets scalars up to \<open>0x1FFFFF\<close> through.
\<close>

theorem encodePunycode_never_returns:
  assumes "beyond_unicode cps" "\<forall>c \<in> set cps. isValidUnicodeScalar c"
  shows "encodePunycode cps = None"
  using assms by (rule encodePunycode_stuck)

theorem encodePunycode_never_returns_witness:
  "encodePunycode [0x110000] = None"
  by (rule encodePunycode_never_returns)
    (simp_all add: beyond_unicode_def isValidUnicodeScalar_def)

end
